(* ===== verification/Prelude.thy ===== *)
theory Prelude
  imports Complex_Main "HOL-Library.AList" "HOL-Library.Multiset"
begin

text \<open>
  Shared vocabulary of the development: the errors the program throws and the result type of
  code that may throw, with its combinators.

  A TypeScript function that may throw is a HOL function into \<open>'a result\<close>; \<open>Inl e\<close> is a
  thrown error, named by one constructor per \<open>throw\<close> or failed assertion of the source.
  \<open>null\<close> and \<open>undefined\<close> are \<open>None\<close>. Integers the wire format carries as \<open>int32\<close>/\<open>int64\<close>
  and JavaScript \<open>bigint\<close> values are \<open>int\<close>; a JavaScript \<open>number\<close> that may be fractional is a
  \<open>rat\<close> kept at double precision by theory \<open>JsNumber\<close>. Strings are HOL strings; the case
  conversions cover ASCII.
\<close>

named_theorems result_simps "facts that evaluate code in the result type"

section \<open>Errors\<close>

datatype js_error =
    AssertionFailed
  | CurrencyNotFound string
  | CurrencyMismatch string string
  | UnitMismatch
  | BankNotFound int
  | StockNotFound string string
  | AccountHasNoUnit int
  | AccountNotFound int
  | AccountBankMismatch int int
  | CategoryNotFound int
  | CategoryParentNotFound int int
  | CategoryNotInTree int
  | OpeningBalanceHasNoCategory int
  | TagNotFound int
  | TimestampMissing
  | MissingCategory int
  | MissingVendor int
  | MissingPayer int
  | MissingCurrency int
  | NoAssetLine int
  | NoExpenseLine int
  | NoReceivableLine int
  | NoSplitContext int
  | TooFewAssetLines int nat
  | WrongAssetLineCount int nat
  | MissingTransferLine int
  | MissingBankAccountId int
  | LedgerAccountNotFound int
  | UnknownTransactionType int
  | LinkSourceNotFound int
  | LinkLinkedNotFound int
  | RefundSourceNotExpense int
  | RefundLinkedNotIncome int
  | DebtSourceNotThirdParty int
  | DebtLinkedNotPersonal int
  | LinkNotConnected int int
  | SeveralActiveVersions int nat
  | BackfillFailed int
  | NonMonotoneAsOf
  | InvalidRange
  | InvalidPercentile
  | EmptyData
  | InvalidWindow
  | QuerySyntaxError "string list"
  | UnsupportedFormTransition
  | NoFormVariant
  | InvalidFormTimestamp
  | UnexpectedOpeningBalance int
  | UnknownFormType
  | InvalidDate
  | BackendFailed
  | NotAuthenticated
  | NotFoundPage
  | UndefinedProperty
  | CookiesReadOnly
  | RedirectTo string
  | UnknownSharingType
  | ImpossibleState
  | DoesNotReturn

type_synonym 'a result = "js_error + 'a"

section \<open>Sequencing code that may throw\<close>

fun bind_result :: "'a result \<Rightarrow> ('a \<Rightarrow> 'b result) \<Rightarrow> 'b result" where
  "bind_result (Inl e) f = Inl e"
| "bind_result (Inr x) f = f x"

lemma bind_result_eq_Inr [result_simps]:
  "bind_result r f = Inr y \<longleftrightarrow> (\<exists>x. r = Inr x \<and> f x = Inr y)"
  by (cases r) auto

lemma bind_result_eq_Inl [result_simps]:
  "bind_result r f = Inl e \<longleftrightarrow> r = Inl e \<or> (\<exists>x. r = Inr x \<and> f x = Inl e)"
  by (cases r) auto

lemma bind_result_cong [fundef_cong]:
  "r = s \<Longrightarrow> (\<And>x. s = Inr x \<Longrightarrow> f x = g x) \<Longrightarrow> bind_result r f = bind_result s g"
  by (cases s) auto

lemma bind_result_assoc:
  "bind_result (bind_result r f) g = bind_result r (\<lambda>x. bind_result (f x) g)"
  by (cases r) auto

text \<open>A constructor around the value of code that may throw is \<open>map_sum id\<close>.\<close>

lemma map_sum_eq_Inr [result_simps]: "map_sum id f r = Inr y \<longleftrightarrow> (\<exists>x. r = Inr x \<and> y = f x)"
  by (cases r) auto

lemma map_sum_eq_Inl [result_simps]: "map_sum id f r = Inl e \<longleftrightarrow> r = Inl e"
  by (cases r) auto

definition assert_that :: "bool \<Rightarrow> js_error \<Rightarrow> unit result" where
  "assert_that c e = (if c then Inr () else Inl e)"

lemma assert_that_eq_Inr [result_simps]: "assert_that c e = Inr u \<longleftrightarrow> c"
  by (simp add: assert_that_def)

lemma assert_that_eq_Inl [result_simps]: "assert_that c e = Inl e' \<longleftrightarrow> \<not> c \<and> e = e'"
  by (auto simp: assert_that_def)

definition or_throw :: "'a option \<Rightarrow> js_error \<Rightarrow> 'a result" where
  "or_throw opt e = (case opt of None \<Rightarrow> Inl e | Some x \<Rightarrow> Inr x)"

lemma or_throw_simps [simp]: "or_throw None e = Inl e" "or_throw (Some x) e = Inr x"
  by (simp_all add: or_throw_def)

lemma or_throw_eq_Inr [result_simps]: "or_throw opt e = Inr x \<longleftrightarrow> opt = Some x"
  by (cases opt) auto

lemma or_throw_eq_Inl [result_simps]: "or_throw opt e = Inl e' \<longleftrightarrow> opt = None \<and> e = e'"
  by (cases opt) auto

text \<open>\<open>xs.map(f)\<close>, \<open>xs.filter(p)\<close> and a \<open>for\<close> loop over \<open>xs\<close> with bodies that may throw.\<close>

fun map_result :: "('a \<Rightarrow> 'b result) \<Rightarrow> 'a list \<Rightarrow> 'b list result" where
  "map_result f [] = Inr []"
| "map_result f (x # xs) =
     bind_result (f x) (\<lambda>y. bind_result (map_result f xs) (\<lambda>ys. Inr (y # ys)))"

fun filter_result :: "('a \<Rightarrow> bool result) \<Rightarrow> 'a list \<Rightarrow> 'a list result" where
  "filter_result p [] = Inr []"
| "filter_result p (x # xs) =
     bind_result (p x) (\<lambda>b. bind_result (filter_result p xs)
       (\<lambda>ys. Inr (if b then x # ys else ys)))"

fun fold_result :: "('s \<Rightarrow> 'a \<Rightarrow> 's result) \<Rightarrow> 's \<Rightarrow> 'a list \<Rightarrow> 's result" where
  "fold_result f s [] = Inr s"
| "fold_result f s (x # xs) = bind_result (f s x) (\<lambda>s'. fold_result f s' xs)"

text \<open>The short-circuit disjunction \<open>a || b\<close> of two tests that may throw.\<close>

definition or_else :: "bool result \<Rightarrow> bool result \<Rightarrow> bool result" where
  "or_else a b = bind_result a (\<lambda>x. if x then Inr True else b)"

lemma or_else_eq_Inr_True [result_simps]:
  "or_else a b = Inr True \<longleftrightarrow> a = Inr True \<or> (a = Inr False \<and> b = Inr True)"
  by (cases a) (auto simp: or_else_def)

lemma or_else_Inr [simp]: "or_else (Inr x) b = (if x then Inr True else b)"
  by (simp add: or_else_def)

lemma or_else_Inl [simp]: "or_else (Inl e) b = Inl e"
  by (simp add: or_else_def)

lemma map_result_Inr_iff:
  "map_result f xs = Inr ys \<longleftrightarrow> list_all2 (\<lambda>x y. f x = Inr y) xs ys"
  by (induction xs arbitrary: ys) (auto simp: result_simps list_all2_Cons1)

lemma map_result_total: "(\<And>x. x \<in> set xs \<Longrightarrow> f x = Inr (g x)) \<Longrightarrow> map_result f xs = Inr (map g xs)"
  by (induction xs) auto

lemma map_result_length: "map_result f xs = Inr ys \<Longrightarrow> length ys = length xs"
  by (auto simp: map_result_Inr_iff dest: list_all2_lengthD)

lemma filter_result_total:
  "(\<And>x. x \<in> set xs \<Longrightarrow> p x = Inr (q x)) \<Longrightarrow> filter_result p xs = Inr (filter q xs)"
  by (induction xs) auto

lemma filter_result_Inr:
  "filter_result p xs = Inr ys \<Longrightarrow>
     ys = filter (\<lambda>x. p x = Inr True) xs \<and> (\<forall>x \<in> set xs. \<exists>b. p x = Inr b)"
  by (induction xs arbitrary: ys) (auto simp: result_simps split: if_splits)

lemma fold_result_total: "(\<And>s x. x \<in> set xs \<Longrightarrow> f s x = Inr (g s x)) \<Longrightarrow> fold_result f s xs = Inr (foldl g s xs)"
  by (induction xs arbitrary: s) auto

lemma fold_result_append:
  "fold_result f s (xs @ ys) = bind_result (fold_result f s xs) (\<lambda>s'. fold_result f s' ys)"
  by (induction xs arbitrary: s) (auto simp: bind_result_assoc)

lemma fold_result_invariant:
  assumes "fold_result f s xs = Inr t" and "P s"
    and "\<And>s x s'. x \<in> set xs \<Longrightarrow> P s \<Longrightarrow> f s x = Inr s' \<Longrightarrow> P s'"
  shows "P t"
  using assms by (induction xs arbitrary: s) (auto simp: result_simps)

end
