(* ===== verification/JsNumber.thy ===== *)
theory JsNumber
  imports Prelude
begin

text \<open>
  JavaScript numbers as rationals held at IEEE double precision. \<open>f64\<close> rounds a rational to the
  nearest 53-bit significand, ties to even; the four operations round the exact result, as IEEE
  arithmetic does. The exponent range is unbounded here: every amount and time stamp of the
  program lies far inside the range of normal doubles, so overflow to infinity and gradual
  underflow do not occur. \<open>Math.round\<close>, \<open>Number(bigint)\<close> and the millisecond clock arithmetic
  (\<open>utcStartOfDay\<close>) follow.
\<close>

section \<open>Rounding to double precision\<close>

definition pow2 :: "int \<Rightarrow> rat" where
  "pow2 e = (if 0 \<le> e then 2 ^ nat e else 1 / 2 ^ nat (- e))"

function bit_length :: "int \<Rightarrow> int" where
  "bit_length n = (if n \<le> 0 then 0 else 1 + bit_length (n div 2))"
  by pat_completeness auto
termination
  by (relation "measure nat") auto

declare bit_length.simps [simp del]

text \<open>Round half to even.\<close>

definition round_half_even :: "rat \<Rightarrow> int" where
  "round_half_even x =
     (let f = \<lfloor>x\<rfloor>; d = x - of_int f
      in if d < 1 / 2 then f else if d > 1 / 2 then f + 1 else if even f then f else f + 1)"

text \<open>The exponent \<open>e\<close> of a positive \<open>x\<close> with \<open>2 ^ 52 \<le> x / 2 ^ e < 2 ^ 53\<close>.\<close>

definition f64_exponent :: "rat \<Rightarrow> int" where
  "f64_exponent x =
     (let pq = quotient_of x;
          k = bit_length (fst pq) - bit_length (snd pq)
      in if x < pow2 k then k - 53 else k - 52)"

definition f64_positive :: "rat \<Rightarrow> rat" where
  "f64_positive x =
     (let e = f64_exponent x in of_int (round_half_even (x / pow2 e)) * pow2 e)"

definition f64 :: "rat \<Rightarrow> rat" where
  "f64 x = (if x = 0 then 0 else if 0 < x then f64_positive x else - f64_positive (- x))"

lemma pow2_pos [simp]: "0 < pow2 e"
  by (simp add: pow2_def)

lemma pow2_nonzero [simp]: "pow2 e \<noteq> 0"
  using pow2_pos [of e] by linarith

lemma pow2_powi: "pow2 e = power_int 2 e"
  by (auto simp: pow2_def power_int_def field_simps)

lemma pow2_add: "pow2 (a + b) = pow2 a * pow2 b"
  by (simp add: pow2_powi power_int_add)

lemma pow2_mono: "a \<le> b \<Longrightarrow> pow2 a \<le> pow2 b"
  by (simp add: pow2_powi power_int_increasing)

lemma pow2_strict_mono: "a < b \<Longrightarrow> pow2 a < pow2 b"
  by (simp add: pow2_powi power_int_strict_increasing)

lemma pow2_less_cancel: "pow2 a < pow2 b \<Longrightarrow> a < b"
  by (meson leD leI pow2_mono)

lemma bit_length_nonneg [simp]: "0 \<le> bit_length n"
proof (induction n rule: bit_length.induct)
  case (1 n)
  then show ?case by (subst bit_length.simps) simp
qed

lemma bit_length_pow2:
  "0 < n \<Longrightarrow> pow2 (bit_length n - 1) \<le> of_int n \<and> of_int n < pow2 (bit_length n)"
proof (induction n rule: bit_length.induct)
  case (1 n)
  show ?case
  proof (cases "n div 2 \<le> 0")
    case True
    with "1.prems" have "n = 1" by simp
    then show ?thesis by (simp add: bit_length.simps pow2_def)
  next
    case False
    let ?b = "bit_length (n div 2)"
    have IH: "pow2 (?b - 1) \<le> of_int (n div 2)" "of_int (n div 2) < pow2 ?b"
      using "1.IH" "1.prems" False by auto
    have b: "pow2 ?b = of_int (2 ^ nat ?b)" by (simp add: pow2_def)
    then have "n div 2 < 2 ^ nat ?b" using IH(2) by (simp only: of_int_less_iff)
    then have "n < 2 * 2 ^ nat ?b" by linarith
    then have "(of_int n :: rat) < of_int (2 * 2 ^ nat ?b)" by (simp only: of_int_less_iff)
    then have hi: "of_int n < pow2 (1 + ?b)" using b by (simp add: pow2_add) (simp add: pow2_def)
    have "pow2 ?b = 2 * pow2 (?b - 1)" using pow2_add [of 1 "?b - 1"] by (simp add: pow2_def)
    also have "\<dots> \<le> of_int (2 * (n div 2))" using IH(1) by simp
    also have "\<dots> \<le> of_int n" unfolding of_int_le_iff by simp
    finally show ?thesis using hi "1.prems" by (subst (1 2) bit_length.simps) simp
  qed
qed

lemma quotient_of_positive:
  assumes "0 < x" and "quotient_of x = (p, q)"
  shows "0 < p" "0 < q" "x = of_int p / of_int q"
proof -
  show q: "0 < q" using assms(2) by (metis quotient_of_denom_pos)
  show x: "x = of_int p / of_int q" using assms(2) by (rule quotient_of_div)
  show "0 < p" using assms(1) x q by (simp add: zero_less_divide_iff)
qed

lemma f64_exponent_bounds:
  assumes "0 < x"
  shows "pow2 (f64_exponent x + 52) \<le> x" and "x < pow2 (f64_exponent x + 53)"
proof -
  obtain p q where pq: "quotient_of x = (p, q)" by force
  note pos = quotient_of_positive [OF assms pq]
  define bp bq where "bp = bit_length p" and "bq = bit_length q"
  have p: "pow2 (bp - 1) \<le> of_int p" "of_int p < pow2 bp"
    using bit_length_pow2 [of p] pos by (auto simp: bp_def)
  have q: "pow2 (bq - 1) \<le> of_int q" "of_int q < pow2 bq"
    using bit_length_pow2 [of q] pos by (auto simp: bq_def)
  have qpos: "(0::rat) < of_int q" using pos by simp
  have "pow2 (bp - bq - 1) * of_int q < pow2 (bp - bq - 1) * pow2 bq"
    using q by simp
  also have "\<dots> = pow2 (bp - 1)" by (simp flip: pow2_add)
  also have "\<dots> \<le> of_int p" by (rule p)
  finally have lo: "pow2 (bp - bq - 1) < x"
    using pos(3) qpos by (simp add: pos_less_divide_eq)
  have "of_int p < pow2 bp" by (rule p)
  also have "pow2 bp = pow2 (bp - bq + 1) * pow2 (bq - 1)" by (simp flip: pow2_add)
  also have "\<dots> \<le> pow2 (bp - bq + 1) * of_int q" using q by simp
  finally have hi: "x < pow2 (bp - bq + 1)"
    using pos(3) qpos by (simp add: pos_divide_less_eq)
  have e: "f64_exponent x = (if x < pow2 (bp - bq) then bp - bq - 53 else bp - bq - 52)"
    by (simp add: f64_exponent_def pq bp_def bq_def Let_def)
  show "pow2 (f64_exponent x + 52) \<le> x" and "x < pow2 (f64_exponent x + 53)"
    using lo hi unfolding e by (auto simp: algebra_simps)
qed

section \<open>Properties of the rounding\<close>

lemma round_half_even_error: "\<bar>of_int (round_half_even x) - x\<bar> \<le> 1 / 2"
proof -
  have "of_int \<lfloor>x\<rfloor> \<le> x" "x < of_int \<lfloor>x\<rfloor> + 1" by linarith+
  then show ?thesis unfolding round_half_even_def Let_def by (simp add: abs_if) linarith
qed

lemma round_half_even_of_int [simp]: "round_half_even (of_int n) = n"
  by (simp add: round_half_even_def)

lemma round_half_even_mono: assumes "x \<le> y" shows "round_half_even x \<le> round_half_even y"
proof -
  consider "\<lfloor>x\<rfloor> = \<lfloor>y\<rfloor>" | "\<lfloor>x\<rfloor> + 1 \<le> \<lfloor>y\<rfloor>"
    using floor_mono [OF assms] by linarith
  then show ?thesis
  proof cases
    case 1
    then have "x - of_int \<lfloor>x\<rfloor> \<le> y - of_int \<lfloor>y\<rfloor>" using assms by simp
    with 1 show ?thesis unfolding round_half_even_def Let_def by auto
  next
    case 2
    moreover have "round_half_even x \<le> \<lfloor>x\<rfloor> + 1" unfolding round_half_even_def Let_def by auto
    moreover have "\<lfloor>y\<rfloor> \<le> round_half_even y" unfolding round_half_even_def Let_def by auto
    ultimately show ?thesis by linarith
  qed
qed

lemma f64_zero [simp]: "f64 0 = 0"
  by (simp add: f64_def)

lemma f64_minus: "f64 (- x) = - f64 x"
  by (simp add: f64_def)

lemma f64_positive_error:
  assumes "0 < x"
  shows "\<bar>f64_positive x - x\<bar> \<le> x / 2 ^ 53"
proof -
  define e where "e = f64_exponent x"
  have *: "f64_positive x - x = (of_int (round_half_even (x / pow2 e)) - x / pow2 e) * pow2 e"
    by (simp add: f64_positive_def e_def Let_def algebra_simps)
  have "\<bar>f64_positive x - x\<bar> = \<bar>of_int (round_half_even (x / pow2 e)) - x / pow2 e\<bar> * pow2 e"
    unfolding * by (simp add: abs_mult less_imp_le)
  also have "\<dots> \<le> 1 / 2 * pow2 e"
    by (intro mult_right_mono round_half_even_error) (simp add: less_imp_le)
  also have "\<dots> \<le> x / 2 ^ 53"
  proof -
    have "pow2 e * 2 ^ 52 = pow2 (e + 52)" unfolding pow2_add by (simp add: pow2_def)
    also have "\<dots> \<le> x" using f64_exponent_bounds(1) [OF assms] by (simp add: e_def)
    finally show ?thesis by (simp add: field_simps)
  qed
  finally show ?thesis .
qed

text \<open>The relative error of one rounding is at most \<open>2 ^ -53\<close>.\<close>

lemma f64_error: "\<bar>f64 x - x\<bar> \<le> \<bar>x\<bar> / 2 ^ 53"
proof (cases "x < 0")
  case True
  then show ?thesis using f64_positive_error [of "- x"] by (simp add: f64_def)
qed (use f64_positive_error [of x] in \<open>auto simp: f64_def\<close>)

lemma f64_positive_significand:
  assumes "0 < x"
  shows "2 ^ 52 \<le> round_half_even (x / pow2 (f64_exponent x))"
    and "round_half_even (x / pow2 (f64_exponent x)) \<le> 2 ^ 53"
proof -
  define e where "e = f64_exponent x"
  have lo: "2 ^ 52 \<le> x / pow2 e"
    using f64_exponent_bounds(1) [OF assms] by (simp add: e_def pos_le_divide_eq pow2_add mult.commute)
      (simp add: pow2_def)
  have hi: "x / pow2 e \<le> 2 ^ 53"
    using f64_exponent_bounds(2) [OF assms]
    by (simp add: e_def pos_divide_le_eq pow2_add mult.commute) (simp add: pow2_def)
  show "2 ^ 52 \<le> round_half_even (x / pow2 (f64_exponent x))"
    using round_half_even_mono [OF lo] round_half_even_of_int [of "2 ^ 52"] by (simp add: e_def)
  show "round_half_even (x / pow2 (f64_exponent x)) \<le> 2 ^ 53"
    using round_half_even_mono [OF hi] round_half_even_of_int [of "2 ^ 53"] by (simp add: e_def)
qed

lemma f64_positive_bounds:
  assumes "0 < x"
  shows "pow2 (f64_exponent x + 52) \<le> f64_positive x" and "f64_positive x \<le> pow2 (f64_exponent x + 53)"
proof -
  define e m where "e = f64_exponent x" and "m = round_half_even (x / pow2 (f64_exponent x))"
  have eq: "f64_positive x = of_int m * pow2 e" by (simp add: f64_positive_def e_def m_def Let_def)
  have "(of_int (2 ^ 52) :: rat) \<le> of_int m" "of_int m \<le> (of_int (2 ^ 53) :: rat)"
    using f64_positive_significand [OF assms] by (simp_all only: of_int_le_iff m_def)
  then have m: "(2 ^ 52 :: rat) \<le> of_int m" "of_int m \<le> (2 ^ 53 :: rat)" by simp_all
  have "pow2 (e + 52) = 2 ^ 52 * pow2 e" "pow2 (e + 53) = 2 ^ 53 * pow2 e"
    unfolding pow2_add by (simp_all add: pow2_def)
  then show "pow2 (f64_exponent x + 52) \<le> f64_positive x" "f64_positive x \<le> pow2 (f64_exponent x + 53)"
    unfolding eq e_def [symmetric] using m by (simp_all add: less_imp_le)
qed

lemma f64_positive_pos: "0 < x \<Longrightarrow> 0 < f64_positive x"
  using f64_positive_bounds(1) [of x] pow2_pos [of "f64_exponent x + 52"] by linarith

lemma f64_exponent_mono:
  assumes "0 < x" "x \<le> y"
  shows "f64_exponent x \<le> f64_exponent y"
proof -
  have "pow2 (f64_exponent x + 52) < pow2 (f64_exponent y + 53)"
    using f64_exponent_bounds [of x] f64_exponent_bounds [of y] assms by linarith
  then show ?thesis using pow2_less_cancel by force
qed

lemma f64_positive_mono:
  assumes "0 < x" "x \<le> y"
  shows "f64_positive x \<le> f64_positive y"
proof (cases "f64_exponent x = f64_exponent y")
  case True
  then have "round_half_even (x / pow2 (f64_exponent x)) \<le> round_half_even (y / pow2 (f64_exponent y))"
    using assms by (intro round_half_even_mono) (simp add: divide_right_mono less_imp_le)
  with True show ?thesis by (simp add: f64_positive_def Let_def less_imp_le)
next
  case False
  then have "f64_exponent x + 53 \<le> f64_exponent y + 52"
    using f64_exponent_mono [OF assms] by linarith
  then have "pow2 (f64_exponent x + 53) \<le> pow2 (f64_exponent y + 52)" by (rule pow2_mono)
  then show ?thesis
    using f64_positive_bounds(2) [of x] f64_positive_bounds(1) [of y] assms by linarith
qed

lemma f64_mono: assumes "x \<le> y" shows "f64 x \<le> f64 y"
proof -
  consider "y < 0" | "x < 0" "0 \<le> y" | "0 \<le> x" by linarith
  then show ?thesis
  proof cases
    case 1
    then show ?thesis using f64_positive_mono [of "- y" "- x"] assms by (simp add: f64_def)
  next
    case 2
    then show ?thesis
      using f64_positive_pos [of "- x"] f64_positive_pos [of y] by (auto simp: f64_def)
  next
    case 3
    then show ?thesis
      using f64_positive_mono [of x y] f64_positive_pos [of y] assms by (auto simp: f64_def)
  qed
qed

lemma f64_pos_iff: "0 < f64 x \<longleftrightarrow> 0 < x"
  using f64_positive_pos [of x] f64_positive_pos [of "- x"] by (auto simp: f64_def)

lemma f64_le_0_iff [simp]: "f64 x \<le> 0 \<longleftrightarrow> x \<le> 0"
  using f64_pos_iff [of x] by linarith

lemma f64_eq_0_iff [simp]: "f64 x = 0 \<longleftrightarrow> x = 0"
  using f64_pos_iff [of x] f64_pos_iff [of "- x"] f64_minus [of x] by auto

text \<open>Integers of at most 53 bits are exact.\<close>

lemma f64_positive_of_int:
  assumes "0 < n" "n \<le> 2 ^ 53"
  shows "f64_positive (of_int n) = of_int n"
proof (cases "n = 2 ^ 53")
  case True
  define e where "e = f64_exponent (of_int n)"
  have n: "(of_int n :: rat) = pow2 53" using True by (simp add: pow2_def)
  have "pow2 (e + 52) \<le> pow2 53" "pow2 53 < pow2 (e + 53)"
    using f64_exponent_bounds [of "of_int n"] assms(1) n by (simp_all add: e_def)
  then have "e = 1"
    using pow2_less_cancel [of 53 "e + 53"] pow2_strict_mono [of 53 "e + 52"] by linarith
  then have "f64_positive (of_int n) = of_int (round_half_even (of_int n / pow2 1)) * pow2 1"
    by (simp only: f64_positive_def Let_def flip: e_def)
  moreover have "of_int n / pow2 1 = of_int (2 ^ 52)" using True by (simp add: pow2_def)
  ultimately show ?thesis
    using True by (simp only: round_half_even_of_int) (simp add: pow2_def)
next
  case False
  define e where "e = f64_exponent (of_int n)"
  have "n < 2 ^ 53" using assms(2) False by simp
  then have "(of_int n :: rat) < of_int (2 ^ 53)" by (simp only: of_int_less_iff)
  then have "(of_int n :: rat) < pow2 53" by (simp add: pow2_def)
  then have "pow2 (e + 52) < pow2 53"
    using f64_exponent_bounds(1) [of "of_int n"] assms(1) by (simp add: e_def)
  then have e: "e \<le> 0" using pow2_less_cancel by force
  have "of_int n / pow2 e = of_int (n * 2 ^ nat (- e))" using e by (auto simp: pow2_def)
  then show ?thesis
    by (simp add: f64_positive_def Let_def flip: e_def del: of_int_mult of_int_power)
      (simp add: field_simps e_def)
qed

lemma f64_of_int [simp]: "\<bar>n\<bar> \<le> 2 ^ 53 \<Longrightarrow> f64 (of_int n) = of_int n"
  using f64_positive_of_int [of n] f64_positive_of_int [of "- n"] by (auto simp: f64_def)

text \<open>Halves of such integers are exact too: scaling by a power of two commutes with rounding.\<close>

lemma f64_exponent_half:
  assumes "0 < x"
  shows "f64_exponent (x / 2) = f64_exponent x - 1"
proof -
  have x: "pow2 (f64_exponent x + 52) \<le> x" "x < pow2 (f64_exponent x + 53)"
    by (rule f64_exponent_bounds [OF assms])+
  have h: "pow2 (f64_exponent (x / 2) + 52) \<le> x / 2" "x / 2 < pow2 (f64_exponent (x / 2) + 53)"
    using f64_exponent_bounds [of "x / 2"] assms by simp_all
  have two: "pow2 (e + 1) = 2 * pow2 e" for e by (simp add: pow2_add) (simp add: pow2_def)
  have lo: "pow2 (f64_exponent (x / 2) + 52 + 1) \<le> x" using h(1) unfolding two by simp
  have hi: "x < pow2 (f64_exponent (x / 2) + 53 + 1)" using h(2) unfolding two by simp
  have "f64_exponent (x / 2) + 52 + 1 < f64_exponent x + 53"
    using order.strict_trans1 [OF lo x(2)] by (rule pow2_less_cancel)
  moreover have "f64_exponent x + 52 < f64_exponent (x / 2) + 53 + 1"
    using order.strict_trans1 [OF x(1) hi] by (rule pow2_less_cancel)
  ultimately show ?thesis by simp
qed

lemma f64_positive_half: "0 < x \<Longrightarrow> f64_positive (x / 2) = f64_positive x / 2"
proof -
  assume x: "0 < x"
  define e where "e = f64_exponent x"
  have two: "pow2 e = 2 * pow2 (e - 1)" using pow2_add [of 1 "e - 1"] by (simp add: pow2_def)
  have "x / 2 / pow2 (e - 1) = x / pow2 e" by (simp add: two)
  then show ?thesis
    using f64_exponent_half [OF x] by (simp add: f64_positive_def Let_def two flip: e_def)
qed

lemma f64_half_eq: "f64 (x / 2) = f64 x / 2"
  using f64_positive_half [of x] f64_positive_half [of "- x"] by (auto simp: f64_def)

lemma f64_half: "\<bar>2 * k - 1\<bar> \<le> 2 ^ 53 \<Longrightarrow> f64 (of_int k - 1 / 2) = of_int k - 1 / 2"
proof -
  assume k: "\<bar>2 * k - 1\<bar> \<le> 2 ^ 53"
  have eq: "of_int k - 1 / 2 = (of_int (2 * k - 1) / 2 :: rat)" by simp
  show ?thesis unfolding eq f64_half_eq f64_of_int [OF k] ..
qed

text \<open>Rounding the value of a significant integer stays an integer.\<close>

lemma f64_of_int_Ints: "f64 (of_int n) \<in> \<int>"
proof (cases "\<bar>n\<bar> \<le> 2 ^ 53")
  case False
  have *: "f64_positive (of_int m) \<in> \<int>" if m: "2 ^ 53 < m" for m
  proof -
    define e where "e = f64_exponent (of_int m)"
    have "(of_int (2 ^ 53) :: rat) < of_int m" using m by (simp only: of_int_less_iff)
    then have "pow2 53 < of_int m" by (simp add: pow2_def)
    then have "pow2 53 < pow2 (e + 53)"
      using f64_exponent_bounds(2) [of "of_int m"] m by (simp add: e_def)
    then have "0 < e" using pow2_less_cancel by force
    then have "pow2 e = of_int (2 ^ nat e)" by (simp add: pow2_def)
    then show ?thesis
      by (simp add: f64_positive_def Let_def flip: e_def)
  qed
  then show ?thesis using False * [of n] * [of "- n"] by (auto simp: f64_def abs_if)
qed simp

section \<open>Arithmetic on numbers\<close>

definition n_add :: "rat \<Rightarrow> rat \<Rightarrow> rat" where "n_add a b = f64 (a + b)"
definition n_sub :: "rat \<Rightarrow> rat \<Rightarrow> rat" where "n_sub a b = f64 (a - b)"
definition n_mul :: "rat \<Rightarrow> rat \<Rightarrow> rat" where "n_mul a b = f64 (a * b)"
definition n_div :: "rat \<Rightarrow> rat \<Rightarrow> rat" where "n_div a b = f64 (a / b)"

lemmas n_arith_defs = n_add_def n_sub_def n_mul_def n_div_def

text \<open>\<open>Number(n)\<close> of a bigint, and \<open>Math.round\<close> (half towards plus infinity).\<close>

definition number_of_bigint :: "int \<Rightarrow> rat" where
  "number_of_bigint n = f64 (of_int n)"

definition js_round :: "rat \<Rightarrow> int" where
  "js_round x = \<lfloor>x + 1 / 2\<rfloor>"

lemma number_of_bigint_exact [simp]: "\<bar>n\<bar> \<le> 2 ^ 53 \<Longrightarrow> number_of_bigint n = of_int n"
  by (simp add: number_of_bigint_def)

lemma js_round_of_int [simp]: "js_round (of_int n) = n"
  unfolding js_round_def by linarith

lemma js_round_mono: "x \<le> y \<Longrightarrow> js_round x \<le> js_round y"
  by (simp add: js_round_def floor_mono)

lemma js_round_near: "\<bar>x - of_int n\<bar> < 1 / 2 \<Longrightarrow> js_round x = n"
  unfolding js_round_def by linarith

text \<open>A comparator \<open>(a, b) => key(a) - key(b)\<close> over numbers orders like the exact difference.\<close>

definition by_number :: "('a \<Rightarrow> rat) \<Rightarrow> 'a \<Rightarrow> 'a \<Rightarrow> rat" where
  "by_number key x y = n_sub (key x) (key y)"

lemma by_number_le_0 [simp]: "by_number key x y \<le> 0 \<longleftrightarrow> key x \<le> key y"
  by (simp add: by_number_def n_sub_def)

end
