(* ===== verification/JsCollections.thy ===== *)
theory JsCollections
  imports Prelude
begin

text \<open>
  The JavaScript collections the program relies on: \<open>Array.prototype.sort\<close> (stable, driven by
  a comparator), \<open>Map\<close> and \<open>Set\<close> (both keep insertion order), with the contracts their clients
  use stated as locales. On top of \<open>Map\<close> this theory models the program's own containers,
  \<open>lib/util/AppendMap.tsx\<close> and \<open>lib/util/DefaultMap.tsx\<close>.
\<close>

section \<open>Stable sorting with a comparator\<close>

text \<open>
  \<open>Array.prototype.sort\<close> is stable and calls a comparator whose sign says which element goes
  first. Insertion from the right computes the only stable result for a comparator that is a
  total preorder.
\<close>

fun js_insert :: "('a \<Rightarrow> 'a \<Rightarrow> 'n::linordered_idom) \<Rightarrow> 'a \<Rightarrow> 'a list \<Rightarrow> 'a list" where
  "js_insert cmp x [] = [x]"
| "js_insert cmp x (y # ys) =
     (if cmp x y \<le> 0 then x # y # ys else y # js_insert cmp x ys)"

definition js_sort :: "('a \<Rightarrow> 'a \<Rightarrow> 'n::linordered_idom) \<Rightarrow> 'a list \<Rightarrow> 'a list" where
  "js_sort cmp xs = foldr (js_insert cmp) xs []"

lemma js_sort_simps [simp]:
  "js_sort cmp [] = []" "js_sort cmp (x # xs) = js_insert cmp x (js_sort cmp xs)"
  by (simp_all add: js_sort_def)

lemma mset_js_insert [simp]: "mset (js_insert cmp x xs) = add_mset x (mset xs)"
  by (induction xs) auto

lemma mset_js_sort [simp]: "mset (js_sort cmp xs) = mset xs"
  by (induction xs) auto

lemma set_js_insert [simp]: "set (js_insert cmp x xs) = insert x (set xs)"
  by (induction xs) auto

lemma set_js_sort [simp]: "set (js_sort cmp xs) = set xs"
  by (induction xs) auto

lemma length_js_sort [simp]: "length (js_sort cmp xs) = length xs"
  by (metis mset_js_sort size_mset)

lemma distinct_js_sort [simp]: "distinct (js_sort cmp xs) = distinct xs"
  by (metis mset_js_sort mset_eq_imp_distinct_iff)

lemma js_insert_cong:
  "(\<And>y. y \<in> set ys \<Longrightarrow> cmp x y \<le> 0 \<longleftrightarrow> cmp' x y \<le> 0) \<Longrightarrow> js_insert cmp x ys = js_insert cmp' x ys"
  by (induction ys) auto

lemma js_sort_cong:
  "(\<And>x y. x \<in> set xs \<Longrightarrow> y \<in> set xs \<Longrightarrow> cmp x y \<le> 0 \<longleftrightarrow> cmp' x y \<le> 0) \<Longrightarrow>
     js_sort cmp xs = js_sort cmp' xs"
proof (induction xs)
  case (Cons x xs)
  then have "js_sort cmp xs = js_sort cmp' xs" by simp
  moreover have "js_insert cmp x (js_sort cmp' xs) = js_insert cmp' x (js_sort cmp' xs)"
    using Cons.prems by (intro js_insert_cong) simp
  ultimately show ?case by simp
qed simp

locale js_comparator =
  fixes cmp :: "'a \<Rightarrow> 'a \<Rightarrow> 'n::linordered_idom"
  assumes cmp_total: "cmp x y \<le> 0 \<or> cmp y x \<le> 0"
    and cmp_trans: "cmp x y \<le> 0 \<Longrightarrow> cmp y z \<le> 0 \<Longrightarrow> cmp x z \<le> 0"
begin

lemma sorted_insert:
  "sorted_wrt (\<lambda>x y. cmp x y \<le> 0) ys \<Longrightarrow> sorted_wrt (\<lambda>x y. cmp x y \<le> 0) (js_insert cmp x ys)"
proof (induction ys)
  case (Cons y ys)
  show ?case
  proof (cases "cmp x y \<le> 0")
    case True
    with Cons.prems show ?thesis by (auto intro: cmp_trans)
  next
    case False
    then have "cmp y x \<le> 0" using cmp_total by blast
    with False Cons show ?thesis by simp
  qed
qed simp

lemma sorted: "sorted_wrt (\<lambda>x y. cmp x y \<le> 0) (js_sort cmp xs)"
  by (induction xs) (auto intro: sorted_insert)

lemma insert_stable:
  assumes "sorted_wrt (\<lambda>x y. cmp x y \<le> 0) ys"
  shows "filter (\<lambda>y. cmp a y \<le> 0 \<and> cmp y a \<le> 0) (js_insert cmp x ys) =
    filter (\<lambda>y. cmp a y \<le> 0 \<and> cmp y a \<le> 0) (x # ys)"
  using assms
proof (induction ys)
  case (Cons y ys)
  show ?case
  proof (cases "cmp x y \<le> 0")
    case False
    have "\<not> (cmp a y \<le> 0 \<and> cmp y a \<le> 0 \<and> cmp a x \<le> 0 \<and> cmp x a \<le> 0)"
      using False by (meson cmp_trans)
    with False Cons show ?thesis by auto
  qed simp
qed simp

lemma stable:
  "filter (\<lambda>y. cmp a y \<le> 0 \<and> cmp y a \<le> 0) (js_sort cmp xs) =
   filter (\<lambda>y. cmp a y \<le> 0 \<and> cmp y a \<le> 0) xs"
proof (induction xs)
  case (Cons x xs)
  have "filter (\<lambda>y. cmp a y \<le> 0 \<and> cmp y a \<le> 0) (js_insert cmp x (js_sort cmp xs)) =
      filter (\<lambda>y. cmp a y \<le> 0 \<and> cmp y a \<le> 0) (x # js_sort cmp xs)"
    by (rule insert_stable [OF sorted])
  with Cons show ?case by simp
qed simp

lemma sort_sorted_id: "sorted_wrt (\<lambda>x y. cmp x y \<le> 0) xs \<Longrightarrow> js_sort cmp xs = xs"
proof (induction xs)
  case (Cons x xs)
  then have "js_sort cmp xs = xs" by simp
  with Cons.prems show ?case by (cases xs) auto
qed simp

end

text \<open>The common comparator \<open>(a, b) => key(a) - key(b)\<close>.\<close>

definition by_key :: "('a \<Rightarrow> 'n::linordered_idom) \<Rightarrow> 'a \<Rightarrow> 'a \<Rightarrow> 'n" where
  "by_key key x y = key x - key y"

lemma js_comparator_by_key: "js_comparator (by_key key)"
  by unfold_locales (auto simp: by_key_def)

lemma js_insert_by_key: "js_insert (by_key key) x ys = insort_key key x ys"
  by (induction ys) (auto simp: by_key_def)

lemma js_sort_by_key [simp]: "js_sort (by_key key) xs = sort_key key xs"
  by (induction xs) (auto simp: js_insert_by_key)

section \<open>Map\<close>

type_synonym ('k, 'v) js_map = "('k \<times> 'v) list"

definition jm_get :: "('k, 'v) js_map \<Rightarrow> 'k \<Rightarrow> 'v option" where
  "jm_get m k = map_of m k"

definition jm_set :: "'k \<Rightarrow> 'v \<Rightarrow> ('k, 'v) js_map \<Rightarrow> ('k, 'v) js_map" where
  "jm_set k v m = AList.update k v m"

definition jm_keys :: "('k, 'v) js_map \<Rightarrow> 'k list" where
  "jm_keys m = map fst m"

definition jm_values :: "('k, 'v) js_map \<Rightarrow> 'v list" where
  "jm_values m = map snd m"

definition jm_ok :: "('k, 'v) js_map \<Rightarrow> bool" where
  "jm_ok m \<longleftrightarrow> distinct (map fst m)"

text \<open>\<open>new Map(entries)\<close>: later entries overwrite the values of earlier equal keys.\<close>

definition jm_of_entries :: "('k \<times> 'v) list \<Rightarrow> ('k, 'v) js_map" where
  "jm_of_entries es = foldl (\<lambda>m (k, v). jm_set k v m) [] es"

text \<open>The contract of \<open>Map\<close> its clients rely on.\<close>

locale js_map_contract =
  fixes get :: "'m \<Rightarrow> 'k \<Rightarrow> 'v option"
    and set' :: "'k \<Rightarrow> 'v \<Rightarrow> 'm \<Rightarrow> 'm"
    and keys :: "'m \<Rightarrow> 'k list"
    and emp :: 'm
    and ok :: "'m \<Rightarrow> bool"
  assumes get_set: "get (set' k v m) k' = (if k' = k then Some v else get m k')"
    and get_emp: "get emp k = None"
    and ok_emp: "ok emp"
    and ok_set: "ok m \<Longrightarrow> ok (set' k v m)"
    and keys_set: "ok m \<Longrightarrow> keys (set' k v m) = (if k \<in> set (keys m) then keys m else keys m @ [k])"
    and keys_get: "ok m \<Longrightarrow> k \<in> set (keys m) \<longleftrightarrow> get m k \<noteq> None"
    and keys_emp: "keys emp = []"
begin

lemma set_keys_set: "ok m \<Longrightarrow> set (keys (set' k v m)) = insert k (set (keys m))"
  by (auto simp: keys_set)

text \<open>Filling a map in a loop: the last value written for a key wins.\<close>

lemma get_foldl_set:
  "get (foldl (\<lambda>m x. set' (f x) (g x) m) m xs) k =
     (case find (\<lambda>x. f x = k) (rev xs) of Some x \<Rightarrow> Some (g x) | None \<Rightarrow> get m k)"
proof (induction xs rule: rev_induct)
  case (snoc x xs)
  then show ?case by (auto simp: get_set)
qed simp

lemma ok_foldl_set: "ok m \<Longrightarrow> ok (foldl (\<lambda>m x. set' (f x) (g x) m) m xs)"
  by (induction xs arbitrary: m) (auto simp: ok_set)

lemma set_keys_foldl_set:
  "ok m \<Longrightarrow> set (keys (foldl (\<lambda>m x. set' (f x) (g x) m) m xs)) = set (keys m) \<union> f ` set xs"
  by (induction xs arbitrary: m) (auto simp: ok_set set_keys_set)

end

interpretation jm: js_map_contract jm_get jm_set jm_keys "[]" jm_ok
proof
  fix k k' :: 'k and v :: 'v and m :: "('k, 'v) js_map"
  show "jm_get (jm_set k v m) k' = (if k' = k then Some v else jm_get m k')"
    by (simp add: jm_get_def jm_set_def update_conv')
  show "jm_get [] k = (None :: 'v option)" by (simp add: jm_get_def)
  show "jm_ok ([] :: ('k, 'v) js_map)" by (simp add: jm_ok_def)
  show "jm_keys ([] :: ('k, 'v) js_map) = []" by (simp add: jm_keys_def)
  assume ok: "jm_ok m"
  then show "jm_ok (jm_set k v m)"
    by (simp add: jm_ok_def jm_set_def distinct_update)
  show "jm_keys (jm_set k v m) = (if k \<in> set (jm_keys m) then jm_keys m else jm_keys m @ [k])"
    by (simp add: jm_keys_def jm_set_def update_keys)
  show "k \<in> set (jm_keys m) \<longleftrightarrow> jm_get m k \<noteq> None"
    by (auto simp: jm_keys_def jm_get_def map_of_eq_None_iff)
qed

lemmas jm_laws [simp] = jm.get_set jm.get_emp jm.ok_emp jm.ok_set jm.keys_emp

lemma jm_get_of_entries:
  "jm_get (jm_of_entries es) k = map_option snd (find (\<lambda>e. fst e = k) (rev es))"
  using jm.get_foldl_set [where f = fst and g = snd and xs = es and m = "[]" and k = k]
  by (auto simp: jm_of_entries_def case_prod_unfold split: option.splits)

lemma jm_ok_of_entries [simp]: "jm_ok (jm_of_entries es)"
  using jm.ok_foldl_set [where f = fst and g = snd and xs = es and m = "[]"]
  by (simp add: jm_of_entries_def case_prod_unfold)

lemma jm_entry_iff: "jm_ok m \<Longrightarrow> (k, v) \<in> set m \<longleftrightarrow> jm_get m k = Some v"
  by (simp add: jm_ok_def jm_get_def)

text \<open>\<open>new Map(xs.map(x => [key(x), x]))\<close>: the last element with a key is the one found.\<close>

lemma jm_get_index:
  "jm_get (jm_of_entries (map (\<lambda>x. (key x, val x)) xs)) k =
     map_option val (find (\<lambda>x. key x = k) (rev xs))"
  by (induction xs rule: rev_induct) (auto simp: jm_of_entries_def)

lemma find_distinct_key:
  assumes "distinct (map key xs)" and "x \<in> set xs"
  shows "find (\<lambda>y. key y = key x) xs = Some x"
  using assms by (induction xs) (auto simp: image_iff)

lemma jm_get_index_distinct:
  assumes "distinct (map key xs)" and "x \<in> set xs"
  shows "jm_get (jm_of_entries (map (\<lambda>x. (key x, val x)) xs)) (key x) = Some (val x)"
proof -
  have "distinct (map key (rev xs))" using assms(1) by (simp add: rev_map [symmetric])
  then have "find (\<lambda>y. key y = key x) (rev xs) = Some x"
    using assms(2) find_distinct_key [of key "rev xs" x] by simp
  then show ?thesis by (simp add: jm_get_index)
qed

lemma find_key_total: "(\<exists>x. find (\<lambda>a. f a = k) xs = Some x) \<longleftrightarrow> k \<in> f ` set xs"
  by (induction xs) auto

lemma find_key_None: "find (\<lambda>a. f a = k) xs = None \<longleftrightarrow> k \<notin> f ` set xs"
  by (induction xs) auto

lemma find_eq_key_Some: "find P xs = Some x \<Longrightarrow> x \<in> set xs \<and> P x"
  by (induction xs) (auto split: if_splits)

section \<open>Set\<close>

text \<open>The elements of \<open>new Set(xs)\<close> in iteration order: first occurrences.\<close>

definition js_set_add :: "'a \<Rightarrow> 'a list \<Rightarrow> 'a list" where
  "js_set_add x s = (if x \<in> set s then s else s @ [x])"

definition js_set :: "'a list \<Rightarrow> 'a list" where
  "js_set xs = foldl (\<lambda>s x. js_set_add x s) [] xs"

lemma foldl_js_set_add:
  "distinct s \<Longrightarrow> distinct (foldl (\<lambda>s x. js_set_add x s) s xs) \<and>
     set (foldl (\<lambda>s x. js_set_add x s) s xs) = set s \<union> set xs"
  by (induction xs arbitrary: s) (auto simp: js_set_add_def)

lemma set_js_set [simp]: "set (js_set xs) = set xs"
  by (simp add: js_set_def foldl_js_set_add)

lemma distinct_js_set [simp]: "distinct (js_set xs)"
  by (simp add: js_set_def foldl_js_set_add)

section \<open>AppendMap and DefaultMap\<close>

definition am_getOrZero :: "'v \<Rightarrow> ('k, 'v) js_map \<Rightarrow> 'k \<Rightarrow> 'v" where
  "am_getOrZero zero m k = (case jm_get m k of Some v \<Rightarrow> v | None \<Rightarrow> zero)"

definition am_increment ::
  "('v \<Rightarrow> 'v \<Rightarrow> 'v) \<Rightarrow> 'v \<Rightarrow> 'k \<Rightarrow> 'v \<Rightarrow> ('k, 'v) js_map \<Rightarrow> ('k, 'v) js_map" where
  "am_increment combine zero k v m =
     (let existing = am_getOrZero zero m k;
          updated = combine existing v
      in jm_set k updated m)"

text \<open>\<open>increment\<close> with a combine function that may throw (adding amounts of two currencies).\<close>

definition am_increment_result ::
  "('v \<Rightarrow> 'v \<Rightarrow> 'v result) \<Rightarrow> 'v \<Rightarrow> 'k \<Rightarrow> 'v \<Rightarrow> ('k, 'v) js_map \<Rightarrow> ('k, 'v) js_map result" where
  "am_increment_result combine zero k v m =
     bind_result (combine (am_getOrZero zero m k) v) (\<lambda>updated. Inr (jm_set k updated m))"

definition dm_getOrCreate :: "'v \<Rightarrow> 'k \<Rightarrow> ('k, 'v) js_map \<Rightarrow> 'v \<times> ('k, 'v) js_map" where
  "dm_getOrCreate def k m =
     (case jm_get m k of Some v \<Rightarrow> (v, m) | None \<Rightarrow> (def, jm_set k def m))"

text \<open>An accumulating map over a commutative monoid: the contract of \<open>increment\<close>.\<close>

locale append_map =
  fixes combine :: "'v \<Rightarrow> 'v \<Rightarrow> 'v" and zero :: 'v
  assumes combine_zero: "combine zero v = v"
    and combine_assoc: "combine (combine a b) c = combine a (combine b c)"
    and combine_commute: "combine a b = combine b a"
begin

lemma getOrZero_increment:
  "am_getOrZero zero (am_increment combine zero k v m) k' =
     (if k' = k then combine (am_getOrZero zero m k) v else am_getOrZero zero m k')"
  by (simp add: am_getOrZero_def am_increment_def Let_def)

lemma getOrZero_foldl_increment:
  "am_getOrZero zero (foldl (\<lambda>m x. am_increment combine zero (f x) (g x) m) m xs) k =
     foldl combine (am_getOrZero zero m k) (map g (filter (\<lambda>x. f x = k) xs))"
  by (induction xs arbitrary: m) (auto simp: getOrZero_increment)

lemma increment_commute:
  "am_getOrZero zero (am_increment combine zero k v (am_increment combine zero k' v' m)) i =
   am_getOrZero zero (am_increment combine zero k' v' (am_increment combine zero k v m)) i"
  by (auto simp: getOrZero_increment) (metis combine_assoc combine_commute)

end

text \<open>\<open>nanosAppendMap()\<close>\<close>

definition nanos_increment :: "int \<Rightarrow> int \<Rightarrow> (int, int) js_map \<Rightarrow> (int, int) js_map" where
  "nanos_increment = am_increment (+) 0"

interpretation nanos_map: append_map "(+)" "0 :: int"
  by unfold_locales auto

lemma jm_ok_nanos_increment [simp]: "jm_ok m \<Longrightarrow> jm_ok (nanos_increment k v m)"
  by (simp add: nanos_increment_def am_increment_def Let_def)

end
