(* ===== verification/Util.thy ===== *)
theory Util
  imports JsNumber JsCollections
begin

text \<open>
  The scalar helpers: \<open>lib/util/util.ts\<close> (amount parsing, dollars and nanos, evenly spaced
  samples, quoting), \<open>lib/util/searchParams.tsx\<close>, \<open>lib/grpc/timestamp.ts\<close>, \<open>utcStartOfDay\<close>
  of \<open>lib/util/time.tsx\<close> and \<open>lib/stateHelpers.tsx\<close>.
\<close>

section \<open>Strings\<close>

definition is_digit :: "char \<Rightarrow> bool" where
  "is_digit c \<longleftrightarrow> 48 \<le> (of_char c :: int) \<and> (of_char c :: int) \<le> 57"

definition digit_value :: "char \<Rightarrow> int" where
  "digit_value c = of_char c - 48"

definition digits_value :: "string \<Rightarrow> int" where
  "digits_value s = foldl (\<lambda>n c. 10 * n + digit_value c) 0 s"

definition to_lower_char :: "char \<Rightarrow> char" where
  "to_lower_char c =
     (if 65 \<le> (of_char c :: nat) \<and> (of_char c :: nat) \<le> 90 then char_of (of_char c + 32 :: nat) else c)"

definition to_upper_char :: "char \<Rightarrow> char" where
  "to_upper_char c =
     (if 97 \<le> (of_char c :: nat) \<and> (of_char c :: nat) \<le> 122 then char_of (of_char c - 32 :: nat) else c)"

definition toLowerCase :: "string \<Rightarrow> string" where
  "toLowerCase s = map to_lower_char s"

text \<open>\<open>s.includes(t)\<close>, \<open>s.startsWith(t)\<close>, \<open>s.endsWith(t)\<close>, \<open>s.trim()\<close>, \<open>xs.join(sep)\<close>.\<close>

fun starts_with :: "string \<Rightarrow> string \<Rightarrow> bool" where
  "starts_with s [] = True"
| "starts_with [] (c # t) = False"
| "starts_with (d # s) (c # t) = (c = d \<and> starts_with s t)"

fun str_includes :: "string \<Rightarrow> string \<Rightarrow> bool" where
  "str_includes [] t = (t = [])"
| "str_includes (c # s) t = (starts_with (c # s) t \<or> str_includes s t)"

definition ends_with :: "string \<Rightarrow> string \<Rightarrow> bool" where
  "ends_with s t = starts_with (rev s) (rev t)"

definition is_space :: "char \<Rightarrow> bool" where
  "is_space c \<longleftrightarrow> (of_char c :: nat) \<in> {9, 10, 11, 12, 13, 32}"

definition trim :: "string \<Rightarrow> string" where
  "trim s = rev (dropWhile is_space (rev (dropWhile is_space s)))"

fun join :: "string \<Rightarrow> string list \<Rightarrow> string" where
  "join sep [] = []"
| "join sep [s] = s"
| "join sep (s # t # ss) = s @ sep @ join sep (t # ss)"

lemma starts_with_iff: "starts_with s t \<longleftrightarrow> (\<exists>r. s = t @ r)"
  by (induction s t rule: starts_with.induct) auto

lemma str_includes_iff: "str_includes s t \<longleftrightarrow> (\<exists>l r. s = l @ t @ r)"
proof (induction s t rule: str_includes.induct)
  case (2 c s t)
  show ?case
  proof
    assume "str_includes (c # s) t"
    then consider "starts_with (c # s) t" | "str_includes s t" by auto
    then show "\<exists>l r. c # s = l @ t @ r"
    proof cases
      case 1
      then show ?thesis unfolding starts_with_iff by (metis append_Nil)
    next
      case 2
      then show ?thesis using "2.IH" by (metis append_Cons)
    qed
  next
    assume "\<exists>l r. c # s = l @ t @ r"
    then obtain l r where "c # s = l @ t @ r" by blast
    then have "starts_with (c # s) t \<or> str_includes s t"
    proof (cases l)
      case Nil
      with \<open>c # s = l @ t @ r\<close> show ?thesis unfolding starts_with_iff by auto
    next
      case (Cons d l')
      with \<open>c # s = l @ t @ r\<close> have "s = l' @ t @ r" by simp
      then show ?thesis using "2.IH" by blast
    qed
    then show "str_includes (c # s) t" by simp
  qed
qed auto

text \<open>\<open>s.substring(a, b)\<close> clamps both indices and swaps them when \<open>a > b\<close>.\<close>

definition substring :: "string \<Rightarrow> int \<Rightarrow> int \<Rightarrow> string" where
  "substring s a b =
     (let n = int (length s);
          x = max 0 (min n a);
          y = max 0 (min n b);
          lo = min x y; hi = max x y
      in take (nat (hi - lo)) (drop (nat lo) s))"

definition removeQuotes :: "string \<Rightarrow> string" where
  "removeQuotes s =
     (if starts_with s [CHR 0x22] \<and> ends_with s [CHR 0x22]
      then substring s 1 (int (length s) - 1) else s)"

lemma removeQuotes_quoted: "removeQuotes (CHR 0x22 # s @ [CHR 0x22]) = s"
  by (simp add: removeQuotes_def ends_with_def substring_def Let_def)

definition capitalize :: "string \<Rightarrow> string" where
  "capitalize s = (case s of [] \<Rightarrow> s | c # cs \<Rightarrow> to_upper_char c # cs)"

text \<open>
  \<open>splitAmount\<close>: the pattern \<open>^(.*)([.,]\d{2})$\<close>; a dot in a pattern matches no line terminator.
\<close>

definition is_line_terminator :: "char \<Rightarrow> bool" where
  "is_line_terminator c \<longleftrightarrow> (of_char c :: nat) \<in> {10, 13}"

definition splitAmount :: "string \<Rightarrow> string \<times> string" where
  "splitAmount formatted =
     (let n = length formatted;
          whole = take (n - 3) formatted;
          fraction = drop (n - 3) formatted
      in if 3 \<le> n \<and> list_all (\<lambda>c. \<not> is_line_terminator c) whole \<and>
            hd fraction \<in> {CHR ''.'', CHR '',''} \<and> list_all is_digit (tl fraction)
         then (whole, fraction) else (formatted, []))"

lemma splitAmount_append: "fst (splitAmount s) @ snd (splitAmount s) = s"
  by (simp add: splitAmount_def Let_def)

section \<open>Amounts typed by the user\<close>

definition NANOS_PER_DOLLAR :: int where
  "NANOS_PER_DOLLAR = 1000000000"

definition parseAmountAsNanos :: "string \<Rightarrow> int option" where
  "parseAmountAsNanos str =
     (let negative = starts_with str ''-'';
          sign = (if negative then - 1 else 1);
          s = (if negative then drop 1 str else str);
          whole = takeWhile is_digit s;
          rest = dropWhile is_digit s;
          nanos = digits_value whole * NANOS_PER_DOLLAR
      in if whole = [] then None
         else (case rest of
             [] \<Rightarrow> Some (sign * nanos)
           | sep # fraction \<Rightarrow>
               if (sep = CHR ''.'' \<or> sep = CHR '','') \<and> (length fraction = 1 \<or> length fraction = 2) \<and>
                  list_all is_digit fraction
               then let fractionString = (if length fraction = 1 then fraction @ ''0'' else fraction)
                    in Some (sign * (nanos + digits_value fractionString * (NANOS_PER_DOLLAR div 100)))
               else None))"

definition nanosToDollar :: "int \<Rightarrow> rat" where
  "nanosToDollar nanos = n_div (number_of_bigint nanos) (of_int NANOS_PER_DOLLAR)"

definition dollarToNanos :: "rat \<Rightarrow> int" where
  "dollarToNanos dollar = js_round (n_mul dollar (of_int NANOS_PER_DOLLAR))"

definition roundToCent :: "rat \<Rightarrow> rat" where
  "roundToCent dollar = n_div (of_int (js_round (n_mul dollar 100))) 100"

text \<open>
  A dollar value written to the form and read back is the same number of nanos: two roundings
  of relative error \<open>2 ^ -53\<close> stay within half a nano.
\<close>

lemma n_div_mul_error:
  assumes "0 < c"
  shows "\<bar>n_mul (n_div x c) c - x\<bar> \<le> \<bar>x\<bar> * (3 / 2 ^ 53)"
proof -
  define d where "d = n_div x c"
  have d: "\<bar>d - x / c\<bar> \<le> \<bar>x / c\<bar> / 2 ^ 53" unfolding d_def n_div_def by (rule f64_error)
  have "\<bar>d * c - x\<bar> = \<bar>d - x / c\<bar> * c" using assms by (simp add: abs_mult_pos field_simps)
  also have "\<dots> \<le> (\<bar>x / c\<bar> / 2 ^ 53) * c" by (rule mult_right_mono [OF d]) (use assms in simp)
  also have "\<dots> = \<bar>x\<bar> / 2 ^ 53" using assms by (simp add: abs_divide)
  finally have dc: "\<bar>d * c - x\<bar> \<le> \<bar>x\<bar> / 2 ^ 53" .
  then have "\<bar>d * c\<bar> \<le> \<bar>x\<bar> + \<bar>x\<bar> / 2 ^ 53" by linarith
  then have "\<bar>d * c\<bar> / 2 ^ 53 \<le> (\<bar>x\<bar> + \<bar>x\<bar> / 2 ^ 53) / 2 ^ 53"
    by (rule divide_right_mono) simp
  moreover have "\<bar>n_mul d c - d * c\<bar> \<le> \<bar>d * c\<bar> / 2 ^ 53" unfolding n_mul_def by (rule f64_error)
  moreover have "\<bar>n_mul d c - x\<bar> \<le> \<bar>n_mul d c - d * c\<bar> + \<bar>d * c - x\<bar>" by linarith
  ultimately have "\<bar>n_mul d c - x\<bar> \<le> (\<bar>x\<bar> + \<bar>x\<bar> / 2 ^ 53) / 2 ^ 53 + \<bar>x\<bar> / 2 ^ 53"
    using dc by linarith
  also have "\<dots> \<le> \<bar>x\<bar> * (3 / 2 ^ 53)" by simp
  finally show ?thesis by (simp add: d_def)
qed

lemma nanos_dollar_nanos: "\<bar>n\<bar> \<le> 2 ^ 50 \<Longrightarrow> dollarToNanos (nanosToDollar n) = n"
proof -
  assume n: "\<bar>n\<bar> \<le> 2 ^ 50"
  then have "\<bar>of_int n :: rat\<bar> \<le> of_int (2 ^ 50)" by (simp only: of_int_abs [symmetric] of_int_le_iff)
  then have bound: "\<bar>of_int n :: rat\<bar> * (3 / 2 ^ 53) < 1 / 2" by simp
  have "nanosToDollar n = n_div (of_int n) (of_int NANOS_PER_DOLLAR)"
    using n by (simp add: nanosToDollar_def)
  with n_div_mul_error [of "of_int NANOS_PER_DOLLAR" "of_int n"] bound show ?thesis
    unfolding dollarToNanos_def by (intro js_round_near) (simp add: NANOS_PER_DOLLAR_def)
qed

section \<open>Evenly spaced samples\<close>

definition evenlySpacedNumbers :: "rat \<Rightarrow> rat \<Rightarrow> int \<Rightarrow> rat list result" where
  "evenlySpacedNumbers start end cnt =
     (if end < start then Inl InvalidRange
      else if cnt \<le> 1 \<or> end = start then Inr [end]
      else let step = n_div (n_sub end start) (of_int (cnt - 1))
           in Inr (map (\<lambda>i. of_int (js_round (n_add start (n_mul step (of_nat i))))) [0..<nat (cnt - 1)]
                   @ [end]))"

lemma evenlySpacedNumbers_sorted_aux:
  fixes a b :: int and k :: nat
  assumes ab: "\<bar>a\<bar> \<le> 2 ^ 52" "\<bar>b\<bar> \<le> 2 ^ 52" "a \<le> b" and k: "0 < k" "int k \<le> 2 ^ 53" and i: "i < k"
  defines "step \<equiv> n_div (n_sub (of_int b) (of_int a)) (of_nat k)"
  shows "n_add (of_int a) (n_mul step (of_nat i)) \<le> of_int b"
proof -
  have D: "n_sub (of_int b) (of_int a) = of_int (b - a)"
    unfolding n_sub_def using ab by (simp del: of_int_diff flip: of_int_diff)
  have Dpos: "(0::rat) \<le> of_int (b - a)" using ab by simp
  have "\<bar>step - of_int (b - a) / of_nat k\<bar> \<le> \<bar>of_int (b - a) / of_nat k\<bar> / 2 ^ 53"
    unfolding step_def D n_div_def by (rule f64_error)
  then have "step \<le> of_int (b - a) / of_nat k * (1 + 1 / 2 ^ 53)"
    using Dpos by (simp add: abs_of_nonneg algebra_simps del: of_int_diff)
  then have "step * of_nat i \<le> of_int (b - a) / of_nat k * (1 + 1 / 2 ^ 53) * of_nat i"
    by (intro mult_right_mono) simp_all
  also have "\<dots> = of_int (b - a) * ((1 + 1 / 2 ^ 53) * of_nat i / of_nat k)"
  proof -
    have "x / z * e * y = x * (e * y / z)" for x y z e :: rat by simp
    then show ?thesis .
  qed
  also have "\<dots> \<le> of_int (b - a) * 1"
  proof (rule mult_left_mono [OF _ Dpos])
    have "of_nat k \<le> (2 ^ 53 :: rat)"
    proof -
      have "(of_int (int k) :: rat) \<le> of_int (2 ^ 53)" using k by (simp only: of_int_le_iff)
      then show ?thesis by simp
    qed
    moreover have "of_nat i + 1 \<le> (of_nat k :: rat)"
      using i by (metis Suc_leI add.commute of_nat_Suc of_nat_le_iff)
    ultimately have "(1 + 1 / 2 ^ 53) * of_nat i \<le> (of_nat k :: rat)"
      by (simp add: field_simps)
    then show "(1 + 1 / 2 ^ 53) * of_nat i / of_nat k \<le> (1::rat)"
      using k by simp
  qed
  finally have "n_mul step (of_nat i) \<le> f64 (of_int (b - a))"
    unfolding n_mul_def by (intro f64_mono) simp
  then have "n_mul step (of_nat i) \<le> of_int (b - a)" using D by (simp add: n_sub_def)
  then have "n_add (of_int a) (n_mul step (of_nat i)) \<le> f64 (of_int b)"
    unfolding n_add_def by (intro f64_mono) simp
  then show ?thesis using ab by simp
qed

lemma evenlySpacedNumbers_sorted:
  fixes a b :: int
  assumes "\<bar>a\<bar> \<le> 2 ^ 52" "\<bar>b\<bar> \<le> 2 ^ 52" "a \<le> b" "cnt \<le> 2 ^ 53"
  shows "\<exists>xs. evenlySpacedNumbers (of_int a) (of_int b) cnt = Inr xs \<and> sorted xs \<and>
    last xs = of_int b \<and> (1 < cnt \<and> a < b \<longrightarrow> hd xs = of_int a \<and> length xs = nat cnt)"
proof (cases "cnt \<le> 1 \<or> a = b")
  case False
  define k where "k = nat (cnt - 1)"
  define step where "step = n_div (n_sub (of_int b) (of_int a)) (of_int (cnt - 1))"
  define f where "f i = (of_int (js_round (n_add (of_int a) (n_mul step (of_nat i)))) :: rat)" for i
  have k: "0 < k" "int k = cnt - 1" using False by (auto simp: k_def)
  then have kq: "of_int (cnt - 1) = (of_nat k :: rat)" by (metis of_int_of_nat_eq)
  have eq: "evenlySpacedNumbers (of_int a) (of_int b) cnt = Inr (map f [0..<k] @ [of_int b])"
    using False assms by (simp add: evenlySpacedNumbers_def Let_def f_def step_def k_def)
  have le: "f i \<le> of_int b" if "i < k" for i
  proof -
    have "n_add (of_int a) (n_mul step (of_nat i)) \<le> of_int b"
      unfolding step_def kq using evenlySpacedNumbers_sorted_aux [of a b k i] that k assms by simp
    then have "js_round (n_add (of_int a) (n_mul step (of_nat i))) \<le> b"
      using js_round_mono by (metis js_round_of_int)
    then show ?thesis by (simp add: f_def)
  qed
  have "0 \<le> step"
  proof -
    have "f64 0 \<le> f64 (of_int b - of_int a)" using assms by (intro f64_mono) simp
    then have "f64 0 \<le> f64 (f64 (of_int b - of_int a) / of_int (cnt - 1))"
      using False by (intro f64_mono) simp
    then show ?thesis by (simp add: step_def n_sub_def n_div_def)
  qed
  then have mono: "f i \<le> f j" if "i \<le> j" for i j
    unfolding f_def n_add_def n_mul_def of_int_le_iff using that
    by (intro js_round_mono f64_mono add_left_mono mult_left_mono) simp_all
  have "sorted (map f [0..<k])"
    using mono by (auto simp: sorted_iff_nth_mono)
  then have "sorted (map f [0..<k] @ [of_int b])"
    using le by (auto simp: sorted_append)
  moreover have "f 0 = of_int a" using assms by (simp add: f_def n_add_def n_mul_def)
  ultimately show ?thesis
    using k eq by (auto simp: hd_append hd_map)
qed (use assms in \<open>auto simp: evenlySpacedNumbers_def\<close>)

section \<open>Lists and URL parameters\<close>

definition appendNewItems :: "int list \<Rightarrow> int list \<Rightarrow> int list" where
  "appendNewItems target newItems = target @ filter (\<lambda>x. x \<notin> set target) newItems"

definition byDisplayOrderThenId :: "int \<times> int \<Rightarrow> int \<times> int \<Rightarrow> int" where
  "byDisplayOrderThenId a b =
     (if fst a \<noteq> fst b then fst a - fst b else snd a - snd b)"

interpretation display_order: js_comparator byDisplayOrderThenId
  by unfold_locales (auto simp: byDisplayOrderThenId_def split: if_splits)

datatype search_param = ParamString string | ParamArray "string list" | ParamUndefined

definition firstValueOrNull :: "search_param \<Rightarrow> string option" where
  "firstValueOrNull param =
     (case param of
        ParamArray xs \<Rightarrow> (if length xs > 0 then Some (xs ! 0) else None)
      | ParamString s \<Rightarrow> Some s
      | ParamUndefined \<Rightarrow> None)"

definition MAX_SAFE_INTEGER :: int where
  "MAX_SAFE_INTEGER = 2 ^ 53 - 1"

definition positiveIntOrNull :: "string option \<Rightarrow> rat option" where
  "positiveIntOrNull param =
     (case param of
        None \<Rightarrow> None
      | Some p \<Rightarrow>
          if p = [] \<or> \<not> list_all is_digit p then None
          else let i = number_of_bigint (digits_value p)
               in if i > of_int MAX_SAFE_INTEGER \<or> of_int (js_round i) \<noteq> i \<or> i \<le> 0
                  then None else Some i)"

definition firstPositiveIntOrNull :: "search_param \<Rightarrow> rat option" where
  "firstPositiveIntOrNull param =
     (case firstValueOrNull param of None \<Rightarrow> None | Some first \<Rightarrow> positiveIntOrNull (Some first))"

text \<open>\<open>updateOrAppend\<close>: every element with the item's id is replaced, else the item is appended.\<close>

definition updateOrAppend :: "('a \<Rightarrow> int) \<Rightarrow> 'a list \<Rightarrow> 'a \<Rightarrow> 'a list" where
  "updateOrAppend key xs item =
     (let updated = list_ex (\<lambda>x. key x = key item) xs;
          updatedList = map (\<lambda>x. if key x = key item then item else x) xs
      in if updated then updatedList else xs @ [item])"

section \<open>Time stamps\<close>

record timestamp =
  ts_seconds :: int
  ts_nanos :: int

definition MS_PER_DAY :: int where
  "MS_PER_DAY = 86400000"

text \<open>The time value of \<open>new Date(x)\<close> drops the fraction of a millisecond.\<close>

definition date_value :: "rat \<Rightarrow> int" where
  "date_value x = (if x < 0 then \<lceil>x\<rceil> else \<lfloor>x\<rfloor>)"

definition utcStartOfDay :: "rat \<Rightarrow> int" where
  "utcStartOfDay epochMs = (date_value epochMs div MS_PER_DAY) * MS_PER_DAY"

definition timestampToEpoch :: "timestamp option \<Rightarrow> rat result" where
  "timestampToEpoch ts =
     bind_result (or_throw ts TimestampMissing)
       (\<lambda>t. Inr (n_add (n_mul (number_of_bigint (ts_seconds t)) 1000)
                       (n_div (of_int (ts_nanos t)) 1000000)))"

definition timestampToDate :: "timestamp option \<Rightarrow> int result" where
  "timestampToDate ts = bind_result (timestampToEpoch ts) (\<lambda>epoch. Inr (date_value epoch))"

text \<open>The remainder \<open>ms % 1000\<close> takes the sign of \<open>ms\<close>.\<close>

definition js_rem :: "int \<Rightarrow> int \<Rightarrow> int" where
  "js_rem a b = sgn a * (\<bar>a\<bar> mod \<bar>b\<bar>)"

definition dateToTimestamp :: "int \<Rightarrow> timestamp" where
  "dateToTimestamp ms =
     \<lparr>ts_seconds = \<lfloor>n_div (of_int ms) 1000\<rfloor>, ts_nanos = js_rem ms 1000 * 1000000\<rparr>"

lemma utcStartOfDay_of_int: "utcStartOfDay (of_int n) = (n div MS_PER_DAY) * MS_PER_DAY"
  by (simp add: utcStartOfDay_def date_value_def)

lemma utcStartOfDay_idem: "utcStartOfDay (of_int (utcStartOfDay x)) = utcStartOfDay x"
  by (simp only: utcStartOfDay_of_int) (simp add: utcStartOfDay_def MS_PER_DAY_def)

lemma utcStartOfDay_le: "0 \<le> x \<Longrightarrow> of_int (utcStartOfDay x) \<le> x"
proof -
  assume x: "0 \<le> x"
  have "utcStartOfDay x \<le> \<lfloor>x\<rfloor>"
    using x by (simp add: utcStartOfDay_def date_value_def MS_PER_DAY_def)
  then show ?thesis by (simp add: le_floor_iff)
qed

lemma floor_n_div_1000:
  assumes "0 \<le> ms" "ms < 2 ^ 53"
  shows "\<lfloor>n_div (of_int ms) 1000\<rfloor> = ms div 1000"
proof -
  have split: "(of_int ms :: rat) = of_int (ms div 1000) * 1000 + of_int (ms mod 1000)"
    by (metis div_mult_mod_eq of_int_add of_int_mult of_int_numeral)
  have r: "of_int (ms mod 1000) \<le> (999 :: rat)"
  proof -
    have "ms mod 1000 \<le> 999" using pos_mod_bound [of 1000 ms] by linarith
    then have "(of_int (ms mod 1000) :: rat) \<le> of_int 999" by (simp only: of_int_le_iff)
    then show ?thesis by simp
  qed
  have "(of_int ms :: rat) < of_int (2 ^ 53)" using assms by (simp only: of_int_less_iff)
  then have ms: "(of_int ms :: rat) < 2 ^ 53" by simp
  have "n_div (of_int ms) 1000 - of_int ms / 1000 \<le> \<bar>of_int ms / 1000\<bar> / 2 ^ 53"
    using f64_error [of "of_int ms / 1000"] unfolding n_div_def by linarith
  also have "\<dots> < 1 / 1000" using ms assms(1) by simp
  finally have "n_div (of_int ms) 1000 < of_int (ms div 1000) + 1"
    using split r by linarith
  moreover have "of_int (ms div 1000) \<le> n_div (of_int ms) 1000"
  proof -
    have "f64 (of_int (ms div 1000)) \<le> f64 (of_int ms / 1000)"
      using split by (intro f64_mono) (simp add: field_simps)
    moreover have "\<bar>ms div 1000\<bar> \<le> 2 ^ 53" using assms by linarith
    ultimately show ?thesis by (simp add: n_div_def)
  qed
  ultimately show ?thesis by (intro floor_unique) simp_all
qed

lemma timestamp_roundtrip_nonneg:
  assumes "0 \<le> ms" "ms < 2 ^ 53"
  shows "timestampToEpoch (Some (dateToTimestamp ms)) = Inr (of_int ms)"
proof -
  have "\<bar>ms div 1000\<bar> \<le> 2 ^ 53" using assms by linarith
  moreover have "n_div (of_int (js_rem ms 1000 * 1000000)) 1000000 = of_int (ms mod 1000)"
  proof -
    have "js_rem ms 1000 = ms mod 1000" using assms by (cases "ms = 0") (auto simp: js_rem_def)
    moreover have "\<bar>ms mod 1000\<bar> \<le> 2 ^ 53"
      using pos_mod_bound [of 1000 ms] pos_mod_sign [of 1000 ms] by simp
    ultimately show ?thesis by (simp add: n_div_def)
  qed
  moreover have "n_mul (of_int (ms div 1000)) 1000 = of_int (ms div 1000 * 1000)"
  proof -
    have "ms div 1000 * 1000 \<le> ms" by (simp flip: minus_mod_eq_div_mult)
    moreover have "0 \<le> ms div 1000 * 1000" using assms by simp
    ultimately have "\<bar>ms div 1000 * 1000\<bar> \<le> 2 ^ 53" using assms by simp
    from f64_of_int [OF this] show ?thesis by (simp add: n_mul_def)
  qed
  moreover have "n_add (of_int (ms div 1000 * 1000)) (of_int (ms mod 1000)) = of_int ms"
    unfolding n_add_def of_int_add [symmetric] using assms by simp
  ultimately show ?thesis
    using floor_n_div_1000 [OF assms] by (simp add: timestampToEpoch_def dateToTimestamp_def)
qed

section \<open>Properties\<close>

text \<open>
  Amounts survive the detour through dollars. The form shows nanos as a double-precision
  number of dollars (\<open>nanosToDollar\<close>) and saves it with \<open>dollarToNanos\<close>; for every amount of at
  most \<open>2 ^ 50\<close> nanos (about a million) in absolute value the saved nanos are the original ones.
\<close>
theorem nanos_dollar_roundtrip: "\<bar>n\<bar> \<le> 2 ^ 50 \<Longrightarrow> dollarToNanos (nanosToDollar n) = n"
  by (rule nanos_dollar_nanos)

theorem nanos_dollar_roundtrip_witness: "dollarToNanos (nanosToDollar 1234567890123) = 1234567890123"
  by (rule nanos_dollar_roundtrip) simp

text \<open>Beyond the bound the detour may lose a nano, here for 4332473.78.\<close>

lemma nanos_dollar_inexact: "dollarToNanos (nanosToDollar 4332473780000000) \<noteq> 4332473780000000"
  by code_simp


text \<open>
  A date survives the wire format. A time of a non-negative number of milliseconds that a
  JavaScript number holds exactly is read back from its \<open>Timestamp\<close> message unchanged, and the
  message is well-formed (its nanos are below a second).
\<close>
theorem timestamp_roundtrip:
  assumes "0 \<le> ms" "ms < 2 ^ 53"
  shows "timestampToEpoch (Some (dateToTimestamp ms)) = Inr (of_int ms) \<and>
    0 \<le> ts_nanos (dateToTimestamp ms) \<and> ts_nanos (dateToTimestamp ms) < 1000000000"
proof -
  have "js_rem ms 1000 = ms mod 1000"
    using assms(1) by (cases "ms = 0") (simp_all add: js_rem_def sgn_if)
  then have "0 \<le> js_rem ms 1000" "js_rem ms 1000 < 1000" by simp_all
  then show ?thesis using timestamp_roundtrip_nonneg [OF assms] by (simp add: dateToTimestamp_def)
qed

theorem timestamp_roundtrip_witness:
  "timestampToEpoch (Some (dateToTimestamp 1717171717123)) = Inr 1717171717123"
  using timestamp_roundtrip [of 1717171717123] by simp

text \<open>Before 1970 a date that is not on a whole second comes back a second early.\<close>

lemma timestamp_before_1970: "timestampToEpoch (Some (dateToTimestamp (- 500))) = Inr (- 1500)"
  by code_simp

text \<open>
  The sample dates of a timeline. \<open>evenlySpacedNumbers\<close> over a range of whole milliseconds
  returns ascending dates from the start to exactly the end, as many as asked for, so a sweep over
  them never goes back in time.
\<close>
theorem evenlySpacedNumbers_ascending:
  fixes a b :: int
  assumes "\<bar>a\<bar> \<le> 2 ^ 52" "\<bar>b\<bar> \<le> 2 ^ 52" "a \<le> b" "cnt \<le> 2 ^ 53"
  shows "\<exists>xs. evenlySpacedNumbers (of_int a) (of_int b) cnt = Inr xs \<and> sorted xs \<and>
    last xs = of_int b \<and> (1 < cnt \<and> a < b \<longrightarrow> hd xs = of_int a \<and> length xs = nat cnt)"
  by (rule evenlySpacedNumbers_sorted [OF assms])

theorem evenlySpacedNumbers_ascending_witness:
  "\<exists>xs. evenlySpacedNumbers 0 1000 4 = Inr xs \<and> sorted xs \<and> hd xs = 0 \<and> last xs = 1000 \<and> length xs = 4"
  using evenlySpacedNumbers_ascending [of 0 1000 4] by auto

end
