(* ===== verification/Money.thy ===== *)
theory Money
  imports Util
begin

text \<open>
  Money and units: \<open>lib/model/Currency.tsx\<close>, \<open>lib/model/Stock.tsx\<close>, \<open>lib/model/Unit.tsx\<close>,
  \<open>lib/Amount.tsx\<close>, \<open>lib/AmountWithCurrency.tsx\<close> and \<open>lib/AmountWithUnit.tsx\<close>.
  The class \<open>AmountWithCurrency extends Amount\<close> is a record extension, so that the methods it
  inherits are the same functions. Formatting ends in \<open>Intl.NumberFormat\<close>, which is a
  parameter: a function of the locale, the currency code, the options and the number.
\<close>

section \<open>Currencies, stocks, units\<close>

record currency =
  cur_code :: string

definition currencies :: "currency list" where
  "currencies = map (\<lambda>code. \<lparr>cur_code = code\<rparr>) [''RUB'', ''USD'', ''GBP'', ''EUR'', ''CHF'']"

definition findByCode :: "string \<Rightarrow> currency option" where
  "findByCode code = find (\<lambda>c. cur_code c = code) currencies"

definition mustFindByCode :: "string \<Rightarrow> currency result" where
  "mustFindByCode code =
     (case findByCode code of None \<Rightarrow> Inl (CurrencyNotFound code) | Some found \<Rightarrow> Inr found)"

definition allCurrencies :: "currency list" where
  "allCurrencies = currencies"

lemma findByCode_Some: "findByCode code = Some c \<Longrightarrow> cur_code c = code"
  unfolding findByCode_def by (drule find_eq_key_Some) simp

lemma mustFindByCode_Inr: "mustFindByCode code = Inr c \<Longrightarrow> cur_code c = code"
  by (auto simp: mustFindByCode_def findByCode_Some split: option.splits)

record stock_key =
  sk_exchange :: string
  sk_ticker :: string

record stock = stock_key +
  stock_name :: string
  stock_currencyCode :: string

definition stockKey :: "'a stock_key_scheme \<Rightarrow> string" where
  "stockKey s = sk_exchange s @ '':'' @ sk_ticker s"

definition stockKeysEqual :: "'a stock_key_scheme \<Rightarrow> 'b stock_key_scheme \<Rightarrow> bool" where
  "stockKeysEqual a b \<longleftrightarrow> sk_exchange a = sk_exchange b \<and> sk_ticker a = sk_ticker b"

datatype unit_of_account = UnitCurrency currency | UnitStock stock

definition isCurrency :: "unit_of_account \<Rightarrow> bool" where
  "isCurrency u = (case u of UnitCurrency _ \<Rightarrow> True | UnitStock _ \<Rightarrow> False)"

definition isStock :: "unit_of_account \<Rightarrow> bool" where
  "isStock u = (case u of UnitCurrency _ \<Rightarrow> False | UnitStock _ \<Rightarrow> True)"

section \<open>Amount\<close>

record amount =
  amountNanos :: int

definition NANOS_PER_UNIT :: int where
  "NANOS_PER_UNIT = 1000000000"

definition mk_amount :: "int \<Rightarrow> amount" where
  "mk_amount n = \<lparr>amountNanos = n\<rparr>"

definition fromDollar :: "rat \<Rightarrow> amount" where
  "fromDollar d = mk_amount (dollarToNanos d)"

definition dollar :: "'a amount_scheme \<Rightarrow> rat" where
  "dollar a = n_div (number_of_bigint (amountNanos a)) (number_of_bigint NANOS_PER_UNIT)"

definition isZero :: "'a amount_scheme \<Rightarrow> bool" where
  "isZero a \<longleftrightarrow> amountNanos a = 0"

definition isPositive :: "'a amount_scheme \<Rightarrow> bool" where
  "isPositive a \<longleftrightarrow> amountNanos a > 0"

definition isNegative :: "'a amount_scheme \<Rightarrow> bool" where
  "isNegative a \<longleftrightarrow> amountNanos a < 0"

definition isRound :: "'a amount_scheme \<Rightarrow> bool" where
  "isRound a \<longleftrightarrow> js_rem (amountNanos a) NANOS_PER_UNIT = 0"

text \<open>The methods of \<open>Amount\<close> return a plain amount; a subclass puts its own fields back.\<close>

definition amount_abs :: "amount \<Rightarrow> amount" where
  "amount_abs a = (if amountNanos a \<ge> 0 then a else mk_amount (- amountNanos a))"

definition amount_add :: "amount \<Rightarrow> amount \<Rightarrow> amount" where
  "amount_add a b = mk_amount (amountNanos a + amountNanos b)"

definition amount_subtract :: "amount \<Rightarrow> amount \<Rightarrow> amount" where
  "amount_subtract a b = mk_amount (amountNanos a - amountNanos b)"

definition amount_round :: "amount \<Rightarrow> amount" where
  "amount_round a =
     (if \<not> isRound a then mk_amount (js_round (dollar a) * NANOS_PER_UNIT) else a)"

definition amount_negate :: "amount \<Rightarrow> amount" where
  "amount_negate a = mk_amount (- amountNanos a)"

definition amount_equals :: "amount \<Rightarrow> amount \<Rightarrow> bool" where
  "amount_equals a b \<longleftrightarrow> amountNanos a = amountNanos b"

definition amount_lessThan :: "amount \<Rightarrow> amount \<Rightarrow> bool" where
  "amount_lessThan a b \<longleftrightarrow> amountNanos a < amountNanos b"

lemmas amount_defs = mk_amount_def isZero_def isPositive_def isNegative_def amount_abs_def
  amount_add_def amount_subtract_def amount_negate_def amount_equals_def amount_lessThan_def

text \<open>\<open>Amount.format\<close>: whole amounts show no fraction digits.\<close>

definition amount_format :: "(nat \<Rightarrow> rat \<Rightarrow> string) \<Rightarrow> 'a amount_scheme \<Rightarrow> string" where
  "amount_format intl a = intl (if isRound a then 0 else 2) (dollar a)"

definition CURRENCY_TO_LOCALE :: "(string, string) js_map" where
  "CURRENCY_TO_LOCALE = jm_of_entries
     [(''EUR'', ''nl-NL''), (''RUB'', ''ru-RU''), (''GBP'', ''en-GB''), (''USD'', ''en-US''),
      (''CHF'', ''de-CH''), (''KZT'', ''kk-KZ''), (''CNY'', ''zh-CN''), (''JPY'', ''ja-JP''),
      (''KRW'', ''ko-KR''), (''HKD'', ''zh-HK'')]"

definition formatCurrency ::
  "(string option \<Rightarrow> string \<Rightarrow> nat \<Rightarrow> rat \<Rightarrow> string) \<Rightarrow> currency \<Rightarrow> 'a amount_scheme \<Rightarrow> string" where
  "formatCurrency intl c a =
     (let code = cur_code c;
          locale = jm_get CURRENCY_TO_LOCALE code
      in intl locale code (if isRound a then 0 else 2) (dollar a))"

definition formatStock :: "(nat \<Rightarrow> rat \<Rightarrow> string) \<Rightarrow> stock \<Rightarrow> 'a amount_scheme \<Rightarrow> string" where
  "formatStock intl s a = amount_format intl a @ '' '' @ sk_ticker s"

text \<open>\<open>round\<close> on amounts below \<open>2 ^ 53\<close> nanos is the exact half-up rounding to whole units.\<close>

lemma js_rem_eq_0_iff: "0 < b \<Longrightarrow> js_rem a b = 0 \<longleftrightarrow> b dvd a"
  by (auto simp: js_rem_def sgn_if dvd_eq_mod_eq_0 [symmetric])

lemma js_round_dollar:
  assumes "\<bar>n\<bar> < 2 ^ 53"
  shows "js_round (n_div (of_int n) 1000000000) = (n + 500000000) div 1000000000"
proof -
  define k where "k = (n + 500000000) div 1000000000"
  have kmod: "k * 1000000000 + (n + 500000000) mod 1000000000 = n + 500000000"
    unfolding k_def by (rule div_mult_mod_eq)
  have k: "k * 1000000000 \<le> n + 500000000" using kmod pos_mod_sign [of 1000000000 "n + 500000000"] by simp
  have k2: "n + 500000000 < (k + 1) * 1000000000"
    using kmod pos_mod_bound [of 1000000000 "n + 500000000"] by (simp add: algebra_simps)
  have "(of_int \<bar>n\<bar> :: rat) < of_int (2 ^ 53)" using assms by (simp only: of_int_less_iff)
  then have "\<bar>of_int n / 1000000000 :: rat\<bar> / 2 ^ 53 < 1 / 1000000000" by simp
  then have err: "\<bar>n_div (of_int n) 1000000000 - of_int n / 1000000000\<bar> < 1 / 1000000000"
    using f64_error [of "of_int n / 1000000000"] unfolding n_div_def by linarith
  have "(of_int (n + 500000000 + 1) :: rat) \<le> of_int ((k + 1) * 1000000000)"
    using k2 unfolding of_int_le_iff by linarith
  then have up: "of_int n / 1000000000 \<le> (of_int k + 1 / 2 - 1 / 1000000000 :: rat)" by simp
  have half: "f64 (of_int k - 1 / 2) \<le> n_div (of_int n) 1000000000"
  proof -
    have "(of_int (k * 1000000000) :: rat) \<le> of_int (n + 500000000)"
      using k by (simp only: of_int_le_iff)
    then show ?thesis unfolding n_div_def by (intro f64_mono) simp
  qed
  moreover have "f64 (of_int k - 1 / 2) = of_int k - 1 / 2"
  proof -
    have "k \<le> (2 ^ 53 + 500000000) div 1000000000"
      unfolding k_def using assms by (intro zdiv_mono1) auto
    moreover have "(- (2 ^ 53) + 500000000) div 1000000000 \<le> k"
      unfolding k_def using assms by (intro zdiv_mono1) auto
    ultimately have kb: "\<bar>2 * k - 1\<bar> \<le> 2 ^ 53" by (simp add: abs_if)
    show ?thesis by (rule f64_half [OF kb])
  qed
  ultimately have "of_int k - 1 / 2 \<le> n_div (of_int n) 1000000000" by simp
  moreover have "n_div (of_int n) 1000000000 < of_int k + 1 / 2" using err up by linarith
  ultimately have "js_round (n_div (of_int n) 1000000000) = k"
    unfolding js_round_def by (intro floor_unique) simp_all
  then show ?thesis by (simp add: k_def)
qed

section \<open>AmountWithCurrency\<close>

record amount_with_currency = amount +
  awc_currency :: currency

definition mk_awc :: "int \<Rightarrow> currency \<Rightarrow> amount_with_currency" where
  "mk_awc n c = \<lparr>amountNanos = n, awc_currency = c\<rparr>"

definition awc_zero :: "currency \<Rightarrow> amount_with_currency" where
  "awc_zero c = mk_awc 0 c"

text \<open>The view of an amount with currency as its superclass.\<close>

definition super :: "amount_with_currency \<Rightarrow> amount" where
  "super a = mk_amount (amountNanos a)"

definition assertSameCurrency :: "amount_with_currency \<Rightarrow> amount_with_currency \<Rightarrow> unit result" where
  "assertSameCurrency this a =
     (if cur_code (awc_currency a) \<noteq> cur_code (awc_currency this)
      then Inl (CurrencyMismatch (cur_code (awc_currency a)) (cur_code (awc_currency this)))
      else Inr ())"

definition awc_abs :: "amount_with_currency \<Rightarrow> amount_with_currency" where
  "awc_abs a =
     (if isNegative a then mk_awc (amountNanos (amount_abs (super a))) (awc_currency a) else a)"

definition awc_negate :: "amount_with_currency \<Rightarrow> amount_with_currency" where
  "awc_negate a = mk_awc (amountNanos (amount_negate (super a))) (awc_currency a)"

definition awc_round :: "amount_with_currency \<Rightarrow> amount_with_currency" where
  "awc_round a =
     (if \<not> isRound a then mk_awc (amountNanos (amount_round (super a))) (awc_currency a) else a)"

definition awc_add :: "amount_with_currency \<Rightarrow> amount_with_currency \<Rightarrow> amount_with_currency result" where
  "awc_add this other =
     bind_result (assertSameCurrency this other) (\<lambda>_.
       Inr (mk_awc (amountNanos (amount_add (super this) (super other))) (awc_currency this)))"

definition awc_subtract :: "amount_with_currency \<Rightarrow> amount_with_currency \<Rightarrow> amount_with_currency result" where
  "awc_subtract this other =
     bind_result (assertSameCurrency this other) (\<lambda>_.
       Inr (mk_awc (amountNanos (amount_subtract (super this) (super other))) (awc_currency this)))"

definition awc_equals :: "amount_with_currency \<Rightarrow> amount_with_currency \<Rightarrow> bool result" where
  "awc_equals this other =
     bind_result (assertSameCurrency this other) (\<lambda>_. Inr (amount_equals (super this) (super other)))"

definition awc_lessThan :: "amount_with_currency \<Rightarrow> amount_with_currency \<Rightarrow> bool result" where
  "awc_lessThan this other =
     bind_result (assertSameCurrency this other) (\<lambda>_. Inr (amount_lessThan (super this) (super other)))"

lemma mk_awc_simps [simp]:
  "amountNanos (mk_awc n c) = n" "awc_currency (mk_awc n c) = c"
  "amountNanos (awc_zero c) = 0" "awc_currency (awc_zero c) = c"
  "amountNanos (super a) = amountNanos a" "amountNanos (mk_amount n) = n"
  by (simp_all add: mk_awc_def awc_zero_def super_def mk_amount_def)

lemma awc_eq_iff: "a = b \<longleftrightarrow> amountNanos a = amountNanos b \<and> awc_currency a = awc_currency (b :: amount_with_currency)"
  by (cases a; cases b) auto

lemma awc_add_Inr_iff [result_simps]:
  "awc_add a b = Inr c \<longleftrightarrow> cur_code (awc_currency a) = cur_code (awc_currency b) \<and>
     c = mk_awc (amountNanos a + amountNanos b) (awc_currency a)"
  by (auto simp: awc_add_def assertSameCurrency_def amount_add_def)

lemma awc_subtract_Inr_iff [result_simps]:
  "awc_subtract a b = Inr c \<longleftrightarrow> cur_code (awc_currency a) = cur_code (awc_currency b) \<and>
     c = mk_awc (amountNanos a - amountNanos b) (awc_currency a)"
  by (auto simp: awc_subtract_def assertSameCurrency_def amount_subtract_def)

lemma awc_add_same [simp]:
  "awc_currency b = awc_currency a \<Longrightarrow> awc_add a b = Inr (mk_awc (amountNanos a + amountNanos b) (awc_currency a))"
  by (simp add: awc_add_Inr_iff)

lemma awc_subtract_same [simp]:
  "awc_currency b = awc_currency a \<Longrightarrow> awc_subtract a b = Inr (mk_awc (amountNanos a - amountNanos b) (awc_currency a))"
  by (simp add: awc_subtract_Inr_iff)

lemma awc_negate_simps [simp]:
  "amountNanos (awc_negate a) = - amountNanos a" "awc_currency (awc_negate a) = awc_currency a"
  by (simp_all add: awc_negate_def amount_negate_def)

text \<open>Adding up amounts of one currency in a loop never throws.\<close>

lemma awc_sum_loop:
  assumes "\<And>x. x \<in> set xs \<Longrightarrow> awc_currency (f x) = c"
  shows "fold_result (\<lambda>s x. awc_add s (f x)) (mk_awc n c) xs =
    Inr (mk_awc (n + (\<Sum>x \<leftarrow> xs. amountNanos (f x))) c)"
  using assms by (induction xs arbitrary: n) (auto simp: add.assoc)

section \<open>AmountWithUnit\<close>

record amount_with_unit =
  awu_amount :: amount
  awu_unit :: unit_of_account

definition mk_awu :: "int \<Rightarrow> unit_of_account \<Rightarrow> amount_with_unit" where
  "mk_awu n u = \<lparr>awu_amount = mk_amount n, awu_unit = u\<rparr>"

definition awu_nanos :: "amount_with_unit \<Rightarrow> int" where
  "awu_nanos a = amountNanos (awu_amount a)"

definition awu_zero :: "unit_of_account \<Rightarrow> amount_with_unit" where
  "awu_zero u = mk_awu 0 u"

definition same_unit :: "unit_of_account \<Rightarrow> unit_of_account \<Rightarrow> bool" where
  "same_unit that this =
     (case (that, this) of
        (UnitCurrency c, UnitCurrency d) \<Rightarrow> cur_code c = cur_code d
      | (UnitStock s, UnitStock t) \<Rightarrow> sk_exchange s = sk_exchange t \<and> sk_ticker s = sk_ticker t
      | _ \<Rightarrow> False)"

definition assertSameUnit :: "amount_with_unit \<Rightarrow> amount_with_unit \<Rightarrow> unit result" where
  "assertSameUnit this that =
     (if same_unit (awu_unit that) (awu_unit this) then Inr () else Inl UnitMismatch)"

definition awu_abs :: "amount_with_unit \<Rightarrow> amount_with_unit" where
  "awu_abs a =
     (if isNegative (awu_amount a)
      then mk_awu (amountNanos (amount_abs (awu_amount a))) (awu_unit a) else a)"

definition awu_round :: "amount_with_unit \<Rightarrow> amount_with_unit" where
  "awu_round a =
     (if \<not> isRound (awu_amount a)
      then mk_awu (amountNanos (amount_round (awu_amount a))) (awu_unit a) else a)"

definition awu_add :: "amount_with_unit \<Rightarrow> amount_with_unit \<Rightarrow> amount_with_unit result" where
  "awu_add this other =
     bind_result (assertSameUnit this other) (\<lambda>_.
       if isZero (awu_amount other) then Inr this
       else Inr (mk_awu (amountNanos (amount_add (awu_amount this) (awu_amount other))) (awu_unit this)))"

definition awu_subtract :: "amount_with_unit \<Rightarrow> amount_with_unit \<Rightarrow> amount_with_unit result" where
  "awu_subtract this other =
     bind_result (assertSameUnit this other) (\<lambda>_.
       if isZero (awu_amount other) then Inr this
       else Inr (mk_awu (amountNanos (amount_subtract (awu_amount this) (awu_amount other))) (awu_unit this)))"

definition awu_equals :: "amount_with_unit \<Rightarrow> amount_with_unit \<Rightarrow> bool result" where
  "awu_equals this other =
     bind_result (assertSameUnit this other) (\<lambda>_. Inr (amount_equals (awu_amount this) (awu_amount other)))"

definition awu_lessThan :: "amount_with_unit \<Rightarrow> amount_with_unit \<Rightarrow> bool result" where
  "awu_lessThan this other =
     bind_result (assertSameUnit this other) (\<lambda>_. Inr (amount_lessThan (awu_amount this) (awu_amount other)))"

text \<open>\<open>sum\<close>: zero of the given unit for no amounts, else \<open>reduce\<close> without a start value.\<close>

definition awu_sum :: "amount_with_unit list \<Rightarrow> unit_of_account \<Rightarrow> amount_with_unit result" where
  "awu_sum amounts u =
     (case amounts of [] \<Rightarrow> Inr (awu_zero u) | a # as \<Rightarrow> fold_result awu_add a as)"

definition awu_format ::
  "(string option \<Rightarrow> string \<Rightarrow> nat \<Rightarrow> rat \<Rightarrow> string) \<Rightarrow> (nat \<Rightarrow> rat \<Rightarrow> string) \<Rightarrow> amount_with_unit \<Rightarrow> string" where
  "awu_format intlCurrency intl a =
     (case awu_unit a of
        UnitCurrency c \<Rightarrow> formatCurrency intlCurrency c (awu_amount a)
      | UnitStock s \<Rightarrow> formatStock intl s (awu_amount a))"

lemma mk_awu_simps [simp]:
  "awu_nanos (mk_awu n u) = n" "awu_unit (mk_awu n u) = u" "awu_amount (mk_awu n u) = mk_amount n"
  by (simp_all add: mk_awu_def awu_nanos_def)

lemma awu_eq_iff: "a = b \<longleftrightarrow> awu_nanos a = awu_nanos b \<and> awu_unit a = awu_unit b"
  by (cases a; cases b) (auto simp: awu_nanos_def)

lemma same_unit_refl [simp]: "same_unit u u"
  by (cases u) (auto simp: same_unit_def)

lemma same_unit_sym: "same_unit u v \<longleftrightarrow> same_unit v u"
  by (cases u; cases v) (auto simp: same_unit_def)

lemma same_unit_trans: "same_unit u v \<Longrightarrow> same_unit v w \<Longrightarrow> same_unit u w"
  by (cases u; cases v; cases w) (auto simp: same_unit_def)

lemma awu_add_eq:
  "awu_add a b = (if same_unit (awu_unit b) (awu_unit a)
     then Inr (mk_awu (awu_nanos a + awu_nanos b) (awu_unit a)) else Inl UnitMismatch)"
  by (auto simp: awu_add_def assertSameUnit_def isZero_def amount_add_def awu_eq_iff awu_nanos_def)

lemma awu_subtract_eq:
  "awu_subtract a b = (if same_unit (awu_unit b) (awu_unit a)
     then Inr (mk_awu (awu_nanos a - awu_nanos b) (awu_unit a)) else Inl UnitMismatch)"
  by (auto simp: awu_subtract_def assertSameUnit_def isZero_def amount_subtract_def awu_eq_iff awu_nanos_def)

lemma awu_fold_add:
  "fold_result awu_add a as = (if list_all (\<lambda>b. same_unit (awu_unit b) (awu_unit a)) as
     then Inr (mk_awu (awu_nanos a + (\<Sum>b \<leftarrow> as. awu_nanos b)) (awu_unit a)) else Inl UnitMismatch)"
proof (induction as arbitrary: a)
  case Nil
  then show ?case by (simp add: awu_eq_iff)
next
  case (Cons b as)
  then show ?case by (simp add: awu_add_eq add.assoc)
qed

section \<open>Properties\<close>



text \<open>
  Adding up amounts with units. \<open>sum\<close> over a list yields the sum of the nanos in the unit of
  the first amount when every unit equals it, and throws when one differs; it never adds amounts
  of different units.
\<close>
theorem awu_sum_checked:
  "awu_sum amounts u =
     (case amounts of
        [] \<Rightarrow> Inr (mk_awu 0 u)
      | a # as \<Rightarrow>
        if list_all (\<lambda>b. same_unit (awu_unit b) (awu_unit a)) as
        then Inr (mk_awu (\<Sum>b \<leftarrow> amounts. awu_nanos b) (awu_unit a))
        else Inl UnitMismatch)"
  by (cases amounts) (simp_all add: awu_sum_def awu_zero_def awu_fold_add)

end
