(* ===== verification/Accounts.thy ===== *)
theory Accounts
  imports Money
begin

text \<open>
  Banks and their accounts: \<open>lib/model/BankAccount.tsx\<close>. The messages of the backend
  (\<open>lib/grpc/gen\<close>) are records named with the prefix \<open>pb\<close>; \<open>undefined\<close> and \<open>null\<close> are \<open>None\<close>.
\<close>

section \<open>Strings of the URLs\<close>

text \<open>The decimal digits of a number in a template literal, \<open>replace\<close> and \<open>encodeURIComponent\<close>.\<close>

definition digit_char :: "nat \<Rightarrow> char" where
  "digit_char d = char_of (48 + d)"

fun nat_digits :: "nat \<Rightarrow> string" where
  "nat_digits n = (if n < 10 then [digit_char n] else nat_digits (n div 10) @ [digit_char (n mod 10)])"

declare nat_digits.simps [simp del]

definition string_of_int :: "int \<Rightarrow> string" where
  "string_of_int i = (if i < 0 then ''-'' @ nat_digits (nat (- i)) else nat_digits (nat i))"

definition is_alpha_numeric :: "char \<Rightarrow> bool" where
  "is_alpha_numeric c =
     (let n = (of_char c :: nat)
      in 48 \<le> n \<and> n \<le> 57 \<or> 65 \<le> n \<and> n \<le> 90 \<or> 97 \<le> n \<and> n \<le> 122)"

definition is_unreserved :: "char \<Rightarrow> bool" where
  "is_unreserved c \<longleftrightarrow> is_alpha_numeric c \<or> c \<in> set ''-_.!~*'' \<or> of_char c = (39 :: nat) \<or> c = CHR ''('' \<or> c = CHR '')''"

definition hex_char :: "nat \<Rightarrow> char" where
  "hex_char d = char_of (if d < 10 then 48 + d else 55 + d)"

definition encodeURIComponent :: "string \<Rightarrow> string" where
  "encodeURIComponent s = concat (map (\<lambda>c. if is_unreserved c then [c]
     else [CHR ''%'', hex_char (of_char c div 16), hex_char (of_char c mod 16)]) s)"

definition truthy_string :: "string option \<Rightarrow> bool" where
  "truthy_string s = (case s of None \<Rightarrow> False | Some t \<Rightarrow> t \<noteq> [])"

lemma digits_value_append: "digits_value (s @ [c]) = 10 * digits_value s + digit_value c"
  by (simp add: digits_value_def)

lemma digit_char [simp]: "d < 10 \<Longrightarrow> digit_value (digit_char d) = int d"
  "d < 10 \<Longrightarrow> is_digit (digit_char d)"
proof -
  have *: "list_all (\<lambda>d. digit_value (digit_char d) = int d \<and> is_digit (digit_char d)) [0..<10]"
    by code_simp
  show "d < 10 \<Longrightarrow> digit_value (digit_char d) = int d" "d < 10 \<Longrightarrow> is_digit (digit_char d)"
    using * by (simp_all add: list_all_iff)
qed

lemma digits_value_nat_digits [simp]: "digits_value (nat_digits n) = int n"
proof (induction n rule: nat_digits.induct)
  case (1 n)
  then show ?case
    by (subst nat_digits.simps)
      (auto simp: digits_value_append digits_value_def [of "[_]"] zdiv_int zmod_int)
qed

lemma nat_digits_is_digit: "c \<in> set (nat_digits n) \<Longrightarrow> is_digit c"
proof (induction n arbitrary: c rule: nat_digits.induct)
  case (1 n)
  from 1(2) show ?case
    by (subst (asm) nat_digits.simps) (auto split: if_splits dest: 1(1))
qed

lemma nat_digits_not_empty [simp]: "nat_digits n \<noteq> []"
  by (subst nat_digits.simps) simp

lemma string_of_int_inject: "0 \<le> i \<Longrightarrow> 0 \<le> j \<Longrightarrow> string_of_int i = string_of_int j \<Longrightarrow> i = j"
  unfolding string_of_int_def
  by (auto dest!: arg_cong [where f = digits_value])

section \<open>Banks and accounts\<close>

record bank =
  bank_id :: int
  bank_name :: string
  bank_displayOrder :: int

record bank_account =
  acc_id :: int
  acc_name :: string
  acc_bankId :: int
  acc_initialBalanceNanos :: int
  acc_currencyCode :: "string option"
  acc_stock :: "stock_key option"
  acc_displayOrder :: int
  acc_archived :: bool
  acc_joint :: bool

record pb_bank =
  pbb_id :: int
  pbb_name :: string
  pbb_displayOrder :: int

record pb_bank_account =
  pba_id :: int
  pba_name :: string
  pba_bankId :: int
  pba_initialBalanceNanos :: int
  pba_currencyCode :: "string option"
  pba_stock :: "stock_key option"
  pba_displayOrder :: int
  pba_archived :: bool
  pba_joint :: bool

definition bankModelFromDB :: "pb_bank \<Rightarrow> bank" where
  "bankModelFromDB init =
     \<lparr>bank_id = pbb_id init, bank_name = pbb_name init, bank_displayOrder = pbb_displayOrder init\<rparr>"

definition bankAccountModelFromDB :: "pb_bank_account \<Rightarrow> bank_account" where
  "bankAccountModelFromDB init =
     \<lparr>acc_id = pba_id init, acc_name = pba_name init, acc_bankId = pba_bankId init,
      acc_initialBalanceNanos = pba_initialBalanceNanos init,
      acc_currencyCode = pba_currencyCode init,
      acc_stock = map_option (\<lambda>s. \<lparr>sk_exchange = sk_exchange s, sk_ticker = sk_ticker s\<rparr>) (pba_stock init),
      acc_displayOrder = pba_displayOrder init, acc_archived = pba_archived init,
      acc_joint = pba_joint init\<rparr>"

definition accountsForBank :: "bank \<Rightarrow> bank_account list \<Rightarrow> bank_account list" where
  "accountsForBank b accounts = filter (\<lambda>a. acc_bankId a = bank_id b) accounts"

definition nameForURL :: "string \<Rightarrow> string" where
  "nameForURL name =
     toLowerCase
       (filter (\<lambda>c. is_alpha_numeric c \<or> c = CHR ''-'')
         (map (\<lambda>c. if c = CHR '' '' then CHR ''-'' else c) name))"

definition bankPageURL :: "bank \<Rightarrow> string" where
  "bankPageURL b =
     (let name = nameForURL (bank_name b)
      in if name = [] then ''/bank/'' @ string_of_int (bank_id b)
         else ''/bank/'' @ string_of_int (bank_id b) @ ''/'' @ encodeURIComponent name)"

definition accountPageURL :: "bank_account \<Rightarrow> bank \<Rightarrow> string result" where
  "accountPageURL account b =
     (if acc_bankId account \<noteq> bank_id b then Inl (AccountBankMismatch (acc_id account) (bank_id b))
      else let accountName = nameForURL (acc_name account)
      in if accountName = [] then Inr (''/account/'' @ string_of_int (acc_id account))
      else let bankName = nameForURL (bank_name b);
               name = (if bankName \<noteq> [] then accountName @ ''-'' @ bankName else accountName)
      in Inr (''/account/'' @ string_of_int (acc_id account) @ ''/'' @ encodeURIComponent name))"

definition accountUnit :: "bank_account \<Rightarrow> stock list \<Rightarrow> unit_of_account result" where
  "accountUnit account stocks =
     (case acc_currencyCode account of
        Some (c # code) \<Rightarrow> map_sum id UnitCurrency (mustFindByCode (c # code))
      | _ \<Rightarrow>
        (case acc_stock account of
           Some key \<Rightarrow>
             (case find (\<lambda>s. sk_exchange s = sk_exchange key \<and> sk_ticker s = sk_ticker key) stocks of
                None \<Rightarrow> Inl (StockNotFound (sk_exchange key) (sk_ticker key))
              | Some s \<Rightarrow> Inr (UnitStock s))
         | None \<Rightarrow> Inl (AccountHasNoUnit (acc_id account))))"

definition accountBank :: "bank_account \<Rightarrow> bank list \<Rightarrow> bank result" where
  "accountBank account banks =
     (case find (\<lambda>b. bank_id b = acc_bankId account) banks of
        None \<Rightarrow> Inl (BankNotFound (acc_bankId account))
      | Some b \<Rightarrow> Inr b)"

record bank_group =
  group_bank :: bank
  group_accounts :: "bank_account list"

text \<open>
  One round of the loop of \<open>groupAccountsByBank\<close>: the first group with the bank's id grows by the
  account, or a new group is pushed.
\<close>

fun push_account :: "bank \<Rightarrow> bank_account \<Rightarrow> bank_group list \<Rightarrow> bank_group list" where
  "push_account b a [] = [\<lparr>group_bank = b, group_accounts = [a]\<rparr>]"
| "push_account b a (g # gs) =
     (if bank_id (group_bank g) = bank_id b then g\<lparr>group_accounts := group_accounts g @ [a]\<rparr> # gs
      else g # push_account b a gs)"

definition groupAccountsByBank :: "bank_account list \<Rightarrow> bank list \<Rightarrow> bank_group list result" where
  "groupAccountsByBank accounts banks =
     fold_result (\<lambda>groups account.
       bind_result (accountBank account banks) (\<lambda>b. Inr (push_account b account groups))) [] accounts"

definition fullAccountName :: "bank_account \<Rightarrow> bank list \<Rightarrow> string result" where
  "fullAccountName account banks =
     (case find (\<lambda>b. bank_id b = acc_bankId account) banks of
        None \<Rightarrow> Inl (BankNotFound (acc_bankId account))
      | Some b \<Rightarrow> Inr (bank_name b @ '': '' @ acc_name account))"

definition mustFindBankAccount :: "bank_account list \<Rightarrow> int \<Rightarrow> bank_account result" where
  "mustFindBankAccount accounts i =
     (case find (\<lambda>a. acc_id a = i) accounts of None \<Rightarrow> Inl (AccountNotFound i) | Some a \<Rightarrow> Inr a)"

definition firstVisibleAccountId :: "bank_account list \<Rightarrow> int result" where
  "firstVisibleAccountId accounts =
     (case accounts of
        [] \<Rightarrow> Inl AssertionFailed
      | a0 # _ \<Rightarrow>
        Inr (acc_id (case find (\<lambda>a. \<not> acc_archived a) accounts of Some a \<Rightarrow> a | None \<Rightarrow> a0)))"

definition accountUnitsEqual :: "bank_account \<Rightarrow> bank_account \<Rightarrow> bool" where
  "accountUnitsEqual a b =
     (if truthy_string (acc_currencyCode a) \<and> truthy_string (acc_currencyCode b)
      then acc_currencyCode a = acc_currencyCode b
      else case (acc_stock a, acc_stock b) of
             (Some s, Some t) \<Rightarrow> stockKeysEqual s t
           | _ \<Rightarrow> False)"

section \<open>Facts\<close>

lemma mustFindBankAccount_Inr:
  "mustFindBankAccount accounts i = Inr a \<Longrightarrow> a \<in> set accounts \<and> acc_id a = i"
  by (auto simp: mustFindBankAccount_def find_Some_iff split: option.splits)

lemma mustFindBankAccount_total:
  "(\<exists>a. mustFindBankAccount accounts i = Inr a) \<longleftrightarrow> i \<in> acc_id ` set accounts"
  by (auto simp: mustFindBankAccount_def find_key_total [symmetric] split: option.splits)

lemma accountBank_Inr: "accountBank a banks = Inr b \<Longrightarrow> b \<in> set banks \<and> bank_id b = acc_bankId a"
  by (auto simp: accountBank_def find_Some_iff split: option.splits)

lemma accountBank_total: "(\<exists>b. accountBank a banks = Inr b) \<longleftrightarrow> acc_bankId a \<in> bank_id ` set banks"
  by (auto simp: accountBank_def find_key_total [symmetric] split: option.splits)

text \<open>
  The loop's invariant: the groups are the banks met so far, each once, in the order of their first
  account, and each holds the accounts of its bank met so far in their order.
\<close>

definition groups_of :: "bank_account list \<Rightarrow> bank_group list \<Rightarrow> bool" where
  "groups_of accounts groups \<longleftrightarrow>
     map (bank_id \<circ> group_bank) groups = rev (remdups (rev (map acc_bankId accounts))) \<and>
     (\<forall>g \<in> set groups. group_accounts g = accountsForBank (group_bank g) accounts)"

lemma push_account_ids:
  "map (bank_id \<circ> group_bank) (push_account b a gs) =
     (let ids = map (bank_id \<circ> group_bank) gs in if bank_id b \<in> set ids then ids else ids @ [bank_id b])"
  by (induction gs) (auto simp: Let_def)

lemma push_account_accounts:
  assumes "\<forall>g \<in> set gs. group_accounts g = accountsForBank (group_bank g) as"
    and "distinct (map (bank_id \<circ> group_bank) gs)"
    and "bank_id b = acc_bankId a"
    and "bank_id b \<in> set (map acc_bankId as) \<longrightarrow> bank_id b \<in> set (map (bank_id \<circ> group_bank) gs)"
    and "g \<in> set (push_account b a gs)"
  shows "group_accounts g = accountsForBank (group_bank g) (as @ [a])"
proof -
  have "bank_id b \<notin> set (map (bank_id \<circ> group_bank) gs) \<Longrightarrow> accountsForBank b as = []"
    using assms(3,4) by (auto simp: accountsForBank_def filter_empty_conv image_iff)
  moreover have "bank_id (group_bank h) \<noteq> bank_id b"
    if "h \<in> set gs'" "bank_id b \<notin> set (map (bank_id \<circ> group_bank) gs')" for h and gs' :: "bank_group list"
    using that by force
  ultimately show ?thesis
    using assms(1,2,5) assms(3)
    by (induction gs) (auto simp: accountsForBank_def split: if_splits)
qed

lemma rev_remdups_snoc:
  "rev (remdups (rev (xs @ [x]))) =
     (if x \<in> set xs then rev (remdups (rev xs)) else rev (remdups (rev xs)) @ [x])"
  by simp

lemma groups_of_step:
  assumes inv: "groups_of as gs" and b: "accountBank a banks = Inr b"
  shows "groups_of (as @ [a]) (push_account b a gs)"
proof -
  have id: "bank_id b = acc_bankId a" using accountBank_Inr [OF b] by simp
  have ids: "map (bank_id \<circ> group_bank) gs = rev (remdups (rev (map acc_bankId as)))"
    and accs: "\<forall>g \<in> set gs. group_accounts g = accountsForBank (group_bank g) as"
    using inv by (simp_all add: groups_of_def)
  have dist: "distinct (map (bank_id \<circ> group_bank) gs)" unfolding ids by simp
  have mem: "set (map (bank_id \<circ> group_bank) gs) = set (map acc_bankId as)" unfolding ids by simp
  have "map (bank_id \<circ> group_bank) (push_account b a gs) =
      rev (remdups (rev (map acc_bankId (as @ [a]))))"
    unfolding push_account_ids Let_def ids using id by (simp only: map_append list.map rev_remdups_snoc) simp
  moreover have "\<forall>g \<in> set (push_account b a gs). group_accounts g = accountsForBank (group_bank g) (as @ [a])"
    using push_account_accounts [OF accs dist id] mem by blast
  ultimately show ?thesis by (simp only: groups_of_def)
qed

lemma groupAccountsByBank_lemma:
  assumes "groupAccountsByBank accounts banks = Inr groups"
  shows "groups_of accounts groups"
  using assms
proof (induction accounts arbitrary: groups rule: rev_induct)
  case Nil
  then show ?case by (simp add: groupAccountsByBank_def groups_of_def)
next
  case (snoc a as)
  then show ?case
    by (auto simp: groupAccountsByBank_def fold_result_append result_simps intro: groups_of_step)
qed

lemma groupAccountsByBank_total:
  "(\<exists>groups. groupAccountsByBank accounts banks = Inr groups) \<longleftrightarrow>
     (\<forall>a \<in> set accounts. acc_bankId a \<in> bank_id ` set banks)"
proof (induction accounts rule: rev_induct)
  case Nil
  then show ?case by (simp add: groupAccountsByBank_def)
next
  case (snoc a as)
  then show ?case
    by (simp add: groupAccountsByBank_def fold_result_append result_simps flip: accountBank_total) blast
qed

lemma nameForURL_chars:
  assumes "c \<in> set (nameForURL name)"
  shows "is_alpha_numeric c \<or> c = CHR ''-''"
proof -
  obtain d where d: "is_alpha_numeric d \<or> d = CHR ''-''" "c = to_lower_char d"
    using assms by (auto simp: nameForURL_def toLowerCase_def)
  show ?thesis
  proof (cases "65 \<le> (of_char d :: nat) \<and> (of_char d :: nat) \<le> 90")
    case True
    then have "of_char c = (of_char d + 32 :: nat)" unfolding d(2) to_lower_char_def by simp
    then show ?thesis using True by (simp add: is_alpha_numeric_def)
  next
    case False
    then have "c = d" unfolding d(2) to_lower_char_def by (rule if_not_P)
    then show ?thesis using d(1) by simp
  qed
qed

text \<open>A cleaned name needs no escaping, so \<open>encodeURIComponent\<close> leaves it alone.\<close>

lemma encodeURIComponent_nameForURL:
  "set s \<subseteq> {c. is_alpha_numeric c \<or> c = CHR ''-''} \<Longrightarrow> encodeURIComponent s = s"
proof (induction s)
  case (Cons c s)
  then have "is_unreserved c" by (auto simp: is_unreserved_def)
  then show ?case using Cons by (simp add: encodeURIComponent_def)
qed (simp add: encodeURIComponent_def)

lemma accountUnit_currency:
  "truthy_string (acc_currencyCode a) \<Longrightarrow>
     accountUnit a stocks = map_sum id UnitCurrency (mustFindByCode (the (acc_currencyCode a)))"
  by (auto simp: accountUnit_def truthy_string_def split: option.splits list.splits)

text \<open>Accounts with equal units resolve to units with one unit check.\<close>

lemma accountUnit_stock:
  assumes "\<not> truthy_string (acc_currencyCode a)" "acc_stock a = Some k" "accountUnit a stocks = Inr u"
  shows "\<exists>s. u = UnitStock s \<and> sk_exchange s = sk_exchange k \<and> sk_ticker s = sk_ticker k"
  using assms
  by (auto simp: accountUnit_def truthy_string_def find_Some_iff split: option.splits list.splits)

section \<open>Properties\<close>

text \<open>
  Grouping accounts by bank. The grouping throws exactly when an account's bank is unknown;
  otherwise there is one group per bank that has accounts, in the order the banks first appear,
  and each group holds all the accounts of its bank in their order.
\<close>
theorem groupAccountsByBank_groups:
  "(\<forall>a \<in> set accounts. acc_bankId a \<in> bank_id ` set banks) \<and>
     (\<exists>groups. groupAccountsByBank accounts banks = Inr groups \<and>
        map (bank_id \<circ> group_bank) groups = rev (remdups (rev (map acc_bankId accounts))) \<and>
        (\<forall>g \<in> set groups. group_accounts g = accountsForBank (group_bank g) accounts)) \<or>
   (\<exists>a \<in> set accounts. acc_bankId a \<notin> bank_id ` set banks) \<and>
     (\<exists>e. groupAccountsByBank accounts banks = Inl e)"
proof (cases "groupAccountsByBank accounts banks")
  case (Inl e)
  then have "\<not> (\<forall>a \<in> set accounts. acc_bankId a \<in> bank_id ` set banks)"
    using groupAccountsByBank_total [of accounts banks] by simp
  with Inl show ?thesis by blast
next
  case (Inr groups)
  then show ?thesis
    using groupAccountsByBank_lemma [OF Inr] groupAccountsByBank_total [of accounts banks]
    by (auto simp: groups_of_def)
qed

theorem groupAccountsByBank_groups_witness:
  "\<exists>groups. groupAccountsByBank
      [\<lparr>acc_id = 1, acc_name = ''Current'', acc_bankId = 7, acc_initialBalanceNanos = 0,
        acc_currencyCode = Some ''GBP'', acc_stock = None, acc_displayOrder = 1, acc_archived = False,
        acc_joint = False\<rparr>]
      [\<lparr>bank_id = 7, bank_name = ''First'', bank_displayOrder = 1\<rparr>] = Inr groups \<and>
    map (bank_id \<circ> group_bank) groups = [7]"
  using groupAccountsByBank_groups [of
      "[\<lparr>acc_id = 1, acc_name = ''Current'', acc_bankId = 7, acc_initialBalanceNanos = 0,
        acc_currencyCode = Some ''GBP'', acc_stock = None, acc_displayOrder = 1, acc_archived = False,
        acc_joint = False\<rparr>]"
      "[\<lparr>bank_id = 7, bank_name = ''First'', bank_displayOrder = 1\<rparr>]"]
  by auto

end
