(* ===== verification/Category.thy ===== *)
theory Category
  imports Accounts
begin

text \<open>
  The category tree: \<open>lib/model/Category.tsx\<close>. The nodes of a tree point at their parent and
  share their arrays of children, and \<open>getDescendants\<close> writes to one of them, so the nodes live in
  an explicit store: a list of nodes, a node being named by its position. A loop that follows these
  pointers may run forever; it is a partial function whose value is then \<open>None\<close>, and
  \<open>DoesNotReturn\<close> is the outcome of the operation around it.
\<close>

section \<open>Data\<close>

record category =
  cat_id :: int
  cat_name :: string
  cat_displayOrder :: int
  cat_parentCategoryId :: "int option"

record pb_category =
  pbc_id :: int
  pbc_name :: string
  pbc_displayOrder :: int
  pbc_parentCategoryId :: "int option"

definition categoryModelFromDB :: "pb_category \<Rightarrow> category" where
  "categoryModelFromDB init =
     \<lparr>cat_id = pbc_id init, cat_name = pbc_name init, cat_displayOrder = pbc_displayOrder init,
      cat_parentCategoryId = pbc_parentCategoryId init\<rparr>"

definition mustFindCategory :: "int \<Rightarrow> category list \<Rightarrow> category result" where
  "mustFindCategory cid categories =
     (case find (\<lambda>c. cat_id c = cid) categories of None \<Rightarrow> Inl (CategoryNotFound cid) | Some c \<Rightarrow> Inr c)"

record category_node =
  node_category :: category
  node_parent :: "nat option"
  node_children :: "nat list"

type_synonym node_store = "category_node list"

record category_tree =
  tree_store :: node_store
  tree_roots :: "nat list"
  tree_lookup :: "(int, nat) js_map"

datatype category_or_id = ACategory category | AnId int

text \<open>A parent id that is \<open>null\<close> or zero is falsy.\<close>

definition parent_id :: "category \<Rightarrow> int option" where
  "parent_id c = (case cat_parentCategoryId c of Some p \<Rightarrow> (if p = 0 then None else Some p) | None \<Rightarrow> None)"

definition isRoot :: "category \<Rightarrow> bool" where
  "isRoot c \<longleftrightarrow> parent_id c = None"

section \<open>Building the tree\<close>

definition link_node :: "(int, nat) js_map \<Rightarrow> node_store \<Rightarrow> nat \<Rightarrow> node_store result" where
  "link_node lookup h i =
     (let c = node_category (h ! i)
      in case parent_id c of
           None \<Rightarrow> Inr h
         | Some parentId \<Rightarrow>
           (case jm_get lookup parentId of
              None \<Rightarrow> Inl (CategoryParentNotFound parentId (cat_id c))
            | Some p \<Rightarrow>
              let h' = h[i := (h ! i)\<lparr>node_parent := Some p\<rparr>]
              in Inr (h'[p := (h' ! p)\<lparr>node_children := node_children (h' ! p) @ [i]\<rparr>])))"

definition makeCategoryTree :: "category list \<Rightarrow> category_tree result" where
  "makeCategoryTree all =
     (let nodes = map (\<lambda>c. \<lparr>node_category = c, node_parent = None, node_children = []\<rparr>) all;
          roots = filter (\<lambda>i. isRoot (node_category (nodes ! i))) [0..<length nodes];
          lookup = jm_of_entries (map (\<lambda>i. (cat_id (node_category (nodes ! i)), i)) [0..<length nodes])
      in bind_result (fold_result (link_node lookup) nodes [0..<length nodes]) (\<lambda>store.
           Inr \<lparr>tree_store = store, tree_roots = roots, tree_lookup = lookup\<rparr>))"

section \<open>Walking the tree\<close>

definition findNode :: "category_or_id \<Rightarrow> category_tree \<Rightarrow> nat result" where
  "findNode c tree =
     (let cid = (case c of ACategory d \<Rightarrow> cat_id d | AnId i \<Rightarrow> i)
      in or_throw (jm_get (tree_lookup tree) cid) (CategoryNotInTree cid))"

definition category_at :: "node_store \<Rightarrow> nat \<Rightarrow> category" where
  "category_at h i = node_category (h ! i)"

definition parent_at :: "node_store \<Rightarrow> nat \<Rightarrow> nat option" where
  "parent_at h i = node_parent (h ! i)"

definition children_at :: "node_store \<Rightarrow> nat \<Rightarrow> nat list" where
  "children_at h i = node_children (h ! i)"

partial_function (option) ancestors_loop :: "node_store \<Rightarrow> nat option \<Rightarrow> nat list \<Rightarrow> nat list option" where
  "ancestors_loop h parent ancestors =
     (case parent of
        None \<Rightarrow> Some ancestors
      | Some p \<Rightarrow> ancestors_loop h (parent_at h p) (ancestors @ [p]))"

definition getAncestors :: "category_or_id \<Rightarrow> category_tree \<Rightarrow> nat list result" where
  "getAncestors c tree =
     bind_result (findNode c tree) (\<lambda>node.
       bind_result (or_throw (ancestors_loop (tree_store tree) (parent_at (tree_store tree) node) [])
           DoesNotReturn) (\<lambda>ancestors. Inr (rev ancestors)))"

definition findRoot :: "category_or_id \<Rightarrow> category_tree \<Rightarrow> category result" where
  "findRoot c tree =
     bind_result (findNode c tree) (\<lambda>node.
       case parent_at (tree_store tree) node of
         None \<Rightarrow> Inr (category_at (tree_store tree) node)
       | Some _ \<Rightarrow>
         bind_result (getAncestors c tree) (\<lambda>ancestors.
           Inr (category_at (tree_store tree) (ancestors ! 0))))"

text \<open>
  The array \<open>descendants\<close> is the array of children of the target: what the loop pushes stays in
  the tree.
\<close>

definition push_children :: "node_store \<Rightarrow> nat \<Rightarrow> nat list \<Rightarrow> node_store" where
  "push_children h target cs = h[target := (h ! target)\<lparr>node_children := children_at h target @ cs\<rparr>]"

partial_function (option) descendants_loop :: "node_store \<Rightarrow> nat \<Rightarrow> nat list \<Rightarrow> node_store option" where
  "descendants_loop h target frontier =
     (if frontier = [] then Some h
      else let next = last frontier;
               h' = push_children h target (children_at h next)
           in descendants_loop h' target (butlast frontier @ children_at h' next))"

definition getDescendants :: "category_or_id \<Rightarrow> category_tree \<Rightarrow> (nat list \<times> category_tree) result" where
  "getDescendants target tree =
     bind_result (findNode target tree) (\<lambda>t.
       bind_result (or_throw (descendants_loop (tree_store tree) t (children_at (tree_store tree) t))
           DoesNotReturn) (\<lambda>h.
         Inr (children_at h t, tree\<lparr>tree_store := h\<rparr>)))"

definition getNameWithAncestors :: "category_or_id \<Rightarrow> category_tree \<Rightarrow> string result" where
  "getNameWithAncestors c tree =
     bind_result (findNode c tree) (\<lambda>node.
       bind_result (getAncestors c tree) (\<lambda>ancestors.
         Inr (join '' > '' (map (\<lambda>a. cat_name (category_at (tree_store tree) a)) (ancestors @ [node])))))"

definition sort_siblings :: "node_store \<Rightarrow> nat list \<Rightarrow> nat list" where
  "sort_siblings h subtree =
     js_sort (\<lambda>a b. byDisplayOrderThenId
       (cat_displayOrder (category_at h a), cat_id (category_at h a))
       (cat_displayOrder (category_at h b), cat_id (category_at h b))) subtree"

text \<open>The nodes \<open>inOrderTreeTraversal\<close> pushes, in order, for siblings that are already sorted.\<close>

partial_function (option) in_order :: "node_store \<Rightarrow> nat list \<Rightarrow> nat list option" where
  "in_order h siblings =
     (case siblings of
        [] \<Rightarrow> Some []
      | c # cs \<Rightarrow>
        Option.bind (in_order h (sort_siblings h (children_at h c))) (\<lambda>below.
          Option.bind (in_order h cs) (\<lambda>rest. Some (c # below @ rest))))"

definition sortCategories :: "category list \<Rightarrow> category list result" where
  "sortCategories categories =
     bind_result (makeCategoryTree categories) (\<lambda>tree.
       bind_result (or_throw (in_order (tree_store tree) (sort_siblings (tree_store tree) (tree_roots tree)))
           DoesNotReturn) (\<lambda>nodes.
         Inr (map (category_at (tree_store tree)) nodes)))"

partial_function (option) includes_loop :: "node_store \<Rightarrow> int \<Rightarrow> nat option \<Rightarrow> bool option" where
  "includes_loop h root_id node =
     (case node of
        None \<Rightarrow> Some False
      | Some n \<Rightarrow>
        if cat_id (category_at h n) = root_id then Some True
        else includes_loop h root_id (parent_at h n))"

definition subtreeIncludes :: "category_or_id \<Rightarrow> category_or_id \<Rightarrow> category_tree \<Rightarrow> bool result" where
  "subtreeIncludes subtreeRoot maybeDescendant tree =
     bind_result (findNode subtreeRoot tree) (\<lambda>root.
       bind_result (findNode maybeDescendant tree) (\<lambda>node.
         or_throw (includes_loop (tree_store tree) (cat_id (category_at (tree_store tree) root)) (Some node))
           DoesNotReturn))"

definition immediateChildren :: "category_or_id \<Rightarrow> category_tree \<Rightarrow> category list result" where
  "immediateChildren parent tree =
     bind_result (findNode parent tree) (\<lambda>node.
       Inr (map (category_at (tree_store tree)) (children_at (tree_store tree) node)))"

section \<open>The shape of a tree\<close>

text \<open>
  \<open>forest h\<close>: parents are nodes, and the children of a node are exactly the nodes it is the parent
  of, in the order of the store. Cycles of parents are possible: nothing in the code forbids them.
\<close>

definition forest :: "node_store \<Rightarrow> bool" where
  "forest h \<longleftrightarrow>
     (\<forall>i < length h. (\<forall>p. parent_at h i = Some p \<longrightarrow> p < length h) \<and>
        children_at h i = filter (\<lambda>j. parent_at h j = Some i) [0..<length h])"

definition node_lookup :: "category list \<Rightarrow> (int, nat) js_map" where
  "node_lookup all = jm_of_entries (map (\<lambda>i. (cat_id (all ! i), i)) [0..<length all])"

definition parent_index :: "category list \<Rightarrow> nat \<Rightarrow> nat option" where
  "parent_index all i = Option.bind (parent_id (all ! i)) (jm_get (node_lookup all))"

text \<open>The store after the first \<open>k\<close> nodes have been linked.\<close>

definition linked_store :: "category list \<Rightarrow> nat \<Rightarrow> node_store" where
  "linked_store all k = map (\<lambda>i. \<lparr>node_category = all ! i,
     node_parent = (if i < k then parent_index all i else None),
     node_children = filter (\<lambda>j. parent_index all j = Some i) [0..<k]\<rparr>) [0..<length all]"

lemma linked_store_simps [simp]:
  "length (linked_store all k) = length all"
  "i < length all \<Longrightarrow> linked_store all k ! i = \<lparr>node_category = all ! i,
     node_parent = (if i < k then parent_index all i else None),
     node_children = filter (\<lambda>j. parent_index all j = Some i) [0..<k]\<rparr>"
  by (simp_all add: linked_store_def)

lemma node_lookup_Some:
  assumes "jm_get (node_lookup all) pid = Some p"
  shows "p < length all \<and> cat_id (all ! p) = pid"
proof -
  have "find (\<lambda>i. cat_id (all ! i) = pid) (rev [0..<length all]) = Some p"
    using assms unfolding node_lookup_def jm_get_index by (simp add: option.map_ident)
  from find_eq_key_Some [OF this] show ?thesis by simp
qed

lemma node_lookup_None:
  "jm_get (node_lookup all) pid = None \<longleftrightarrow> pid \<notin> cat_id ` set all"
proof -
  have "jm_get (node_lookup all) pid = find (\<lambda>i. cat_id (all ! i) = pid) (rev [0..<length all])"
    unfolding node_lookup_def jm_get_index by (simp add: option.map_ident)
  moreover have "cat_id ` set all = (\<lambda>i. cat_id (all ! i)) ` set (rev [0..<length all])"
    using nth_image [of "length all" all, symmetric] by (simp add: image_image)
  ultimately show ?thesis by (simp only: find_key_None)
qed

lemma parent_index_less: "parent_index all i = Some p \<Longrightarrow> p < length all"
  by (auto simp: parent_index_def bind_eq_Some_conv dest: node_lookup_Some)

lemma link_node_linked:
  assumes k: "k < length all"
  shows "link_node (node_lookup all) (linked_store all k) k =
    (case parent_id (all ! k) of
       None \<Rightarrow> Inr (linked_store all (Suc k))
     | Some pid \<Rightarrow> if pid \<in> cat_id ` set all then Inr (linked_store all (Suc k))
                   else Inl (CategoryParentNotFound pid (cat_id (all ! k))))"
proof (cases "parent_id (all ! k)")
  case None
  then have "parent_index all k = None" by (simp add: parent_index_def)
  then have "linked_store all (Suc k) = linked_store all k"
    by (auto simp: linked_store_def less_Suc_eq)
  then show ?thesis using k None by (simp add: link_node_def)
next
  case (Some pid)
  show ?thesis
  proof (cases "jm_get (node_lookup all) pid")
    case None
    then have "pid \<notin> cat_id ` set all" by (simp add: node_lookup_None)
    with None show ?thesis using Some k by (simp add: link_node_def)
  next
    case p: (Some p)
    then have pl: "p < length all" using node_lookup_Some by blast
    have pi: "parent_index all k = Some p" using Some p by (simp add: parent_index_def)
    have mem: "pid \<in> cat_id ` set all" using p node_lookup_None [of all pid] by simp
    define h where "h = linked_store all k"
    define h' where "h' = h[k := (h ! k)\<lparr>node_parent := Some p\<rparr>]"
    have "h'[p := (h' ! p)\<lparr>node_children := node_children (h' ! p) @ [k]\<rparr>] = linked_store all (Suc k)"
    proof (rule nth_equalityI)
      fix i assume "i < length (h'[p := (h' ! p)\<lparr>node_children := node_children (h' ! p) @ [k]\<rparr>])"
      then have i: "i < length all" by (simp add: h'_def h_def)
      show "h'[p := (h' ! p)\<lparr>node_children := node_children (h' ! p) @ [k]\<rparr>] ! i = linked_store all (Suc k) ! i"
        using i k pl pi by (auto simp: h'_def h_def nth_list_update)
    qed (simp add: h'_def h_def)
    then show ?thesis
      using Some p k mem by (simp add: link_node_def Let_def h'_def h_def)
  qed
qed

lemma link_nodes:
  "k \<le> length all \<Longrightarrow>
   fold_result (link_node (node_lookup all)) (linked_store all 0) [0..<k] =
    (case find (\<lambda>c. case parent_id c of None \<Rightarrow> False | Some pid \<Rightarrow> pid \<notin> cat_id ` set all) (take k all) of
       None \<Rightarrow> Inr (linked_store all k)
     | Some c \<Rightarrow> Inl (CategoryParentNotFound (the (parent_id c)) (cat_id c)))"
proof (induction k)
  case (Suc k)
  then have k: "k < length all" by simp
  have tk: "take (Suc k) all = take k all @ [all ! k]" using k by (simp add: take_Suc_conv_app_nth)
  have app: "find P (xs @ [x]) = (case find P xs of None \<Rightarrow> (if P x then Some x else None) | Some y \<Rightarrow> Some y)"
    for P and xs :: "category list" and x
    by (induction xs) auto
  show ?case
    using Suc k link_node_linked [OF k]
    by (auto simp: fold_result_append tk app split: option.splits)
qed simp

text \<open>The tree that comes out, and when none does.\<close>

definition tree_of :: "category list \<Rightarrow> category_tree" where
  "tree_of all = \<lparr>tree_store = linked_store all (length all),
     tree_roots = filter (\<lambda>i. isRoot (all ! i)) [0..<length all], tree_lookup = node_lookup all\<rparr>"

lemma makeCategoryTree_eq:
  "makeCategoryTree all =
    (case find (\<lambda>c. case parent_id c of None \<Rightarrow> False | Some pid \<Rightarrow> pid \<notin> cat_id ` set all) all of
       None \<Rightarrow> Inr (tree_of all)
     | Some c \<Rightarrow> Inl (CategoryParentNotFound (the (parent_id c)) (cat_id c)))"
proof -
  have nodes: "map (\<lambda>c. \<lparr>node_category = c, node_parent = None, node_children = []\<rparr>) all = linked_store all 0"
    by (rule nth_equalityI) simp_all
  have lookup: "jm_of_entries (map (\<lambda>i. (cat_id (node_category (linked_store all 0 ! i)), i)) [0..<length all]) =
      node_lookup all"
    unfolding node_lookup_def by (rule arg_cong [where f = jm_of_entries]) simp
  have roots: "filter (\<lambda>i. isRoot (node_category (linked_store all 0 ! i))) [0..<length all] =
      filter (\<lambda>i. isRoot (all ! i)) [0..<length all]"
    by (rule filter_cong) auto
  show ?thesis
    unfolding makeCategoryTree_def Let_def nodes linked_store_simps(1) lookup roots
    by (simp add: link_nodes tree_of_def split: option.splits)
qed

lemma makeCategoryTree_parents:
  assumes "makeCategoryTree all = Inr tree" "c \<in> set all" "parent_id c = Some pid"
  shows "pid \<in> cat_id ` set all"
proof -
  have "find (\<lambda>c. case parent_id c of None \<Rightarrow> False | Some pid \<Rightarrow> pid \<notin> cat_id ` set all) all = None"
    using assms(1) by (simp add: makeCategoryTree_eq split: option.splits)
  then have "\<not> (case parent_id c of None \<Rightarrow> False | Some pid \<Rightarrow> pid \<notin> cat_id ` set all)"
    using assms(2) unfolding find_None_iff by blast
  then show ?thesis using assms(3) by simp
qed

lemma makeCategoryTree_Inr: "makeCategoryTree all = Inr tree \<Longrightarrow> tree = tree_of all"
  by (simp add: makeCategoryTree_eq split: option.splits)

lemma tree_of_simps [simp]:
  "length (tree_store (tree_of all)) = length all"
  "i < length all \<Longrightarrow> category_at (tree_store (tree_of all)) i = all ! i"
  "i < length all \<Longrightarrow> parent_at (tree_store (tree_of all)) i = parent_index all i"
  "i < length all \<Longrightarrow> children_at (tree_store (tree_of all)) i =
     filter (\<lambda>j. parent_index all j = Some i) [0..<length all]"
  "tree_lookup (tree_of all) = node_lookup all"
  by (simp_all add: tree_of_def category_at_def parent_at_def children_at_def)

lemma forest_tree_of: "forest (tree_store (tree_of all))"
  by (auto simp: forest_def parent_index_less intro!: filter_cong)

lemma makeCategoryTree_forest: "makeCategoryTree all = Inr tree \<Longrightarrow> forest (tree_store tree)"
  using forest_tree_of makeCategoryTree_Inr by blast

lemma findNode_tree_of:
  "findNode c (tree_of all) = Inr i \<Longrightarrow> i < length all"
  by (auto simp: findNode_def result_simps Let_def dest: node_lookup_Some)

section \<open>Ancestors\<close>

text \<open>\<open>ancestor_path h i ps\<close>: \<open>ps\<close> are the ancestors of \<open>i\<close> from its root down to its parent.\<close>

inductive ancestor_path :: "node_store \<Rightarrow> nat \<Rightarrow> nat list \<Rightarrow> bool" for h where
  path_root: "parent_at h i = None \<Longrightarrow> ancestor_path h i []"
| path_step: "parent_at h i = Some p \<Longrightarrow> ancestor_path h p ps \<Longrightarrow> ancestor_path h i (ps @ [p])"

inductive_cases path_rootE: "ancestor_path h i []"
inductive_cases path_stepE: "ancestor_path h i (ps @ [p])"

definition rooted :: "node_store \<Rightarrow> nat \<Rightarrow> bool" where
  "rooted h i \<longleftrightarrow> (\<exists>ps. ancestor_path h i ps)"

lemma ancestor_path_unique: "ancestor_path h i ps \<Longrightarrow> ancestor_path h i qs \<Longrightarrow> ps = qs"
proof (induction arbitrary: qs rule: ancestor_path.induct)
  case (path_root i)
  from path_root(2,1) show ?case by cases auto
next
  case (path_step i p ps)
  from path_step(4,1) show ?case by cases (auto dest: path_step.IH)
qed

lemma rooted_parent: "parent_at h i = Some p \<Longrightarrow> rooted h i \<longleftrightarrow> rooted h p"
proof -
  assume p: "parent_at h i = Some p"
  have "\<exists>qs. ancestor_path h p qs" if "ancestor_path h i ps" for ps
    using that p by cases auto
  then show ?thesis using p unfolding rooted_def by (auto intro: path_step)
qed

lemma rooted_None: "parent_at h i = None \<Longrightarrow> rooted h i"
  unfolding rooted_def by (auto intro: path_root)

lemma ancestors_loop_path:
  "ancestor_path h i ps \<Longrightarrow> ancestors_loop h (parent_at h i) acc = Some (acc @ rev ps)"
proof (induction arbitrary: acc rule: ancestor_path.induct)
  case (path_root i)
  then show ?case by (simp add: ancestors_loop.simps)
next
  case (path_step i p ps)
  then show ?case by (subst ancestors_loop.simps) simp
qed

lemma ancestors_loop_Some:
  assumes "ancestors_loop h parent acc = Some r"
  shows "case parent of None \<Rightarrow> True | Some p \<Rightarrow> rooted h p"
proof (rule ancestors_loop.raw_induct
    [where P = "\<lambda>h parent acc r. case parent of None \<Rightarrow> True | Some p \<Rightarrow> rooted h p", OF _ assms])
  fix loop h parent acc r
  assume IH: "\<And>h parent acc r. loop h parent acc = Some r \<Longrightarrow>
      case parent of None \<Rightarrow> True | Some p \<Rightarrow> rooted h p"
    and step: "(case parent of None \<Rightarrow> Some acc | Some p \<Rightarrow> loop h (parent_at h p) (acc @ [p])) = Some r"
  show "case parent of None \<Rightarrow> True | Some p \<Rightarrow> rooted h p"
  proof (cases parent)
    case (Some p)
    then have "loop h (parent_at h p) (acc @ [p]) = Some r" using step by simp
    from IH [OF this] Some show ?thesis
      by (cases "parent_at h p") (auto simp: rooted_None rooted_parent)
  qed simp
qed

lemma ancestors_loop_eq:
  "ancestors_loop h (parent_at h i) [] =
     (if rooted h i then Some (rev (THE ps. ancestor_path h i ps)) else None)"
proof (cases "rooted h i")
  case True
  then obtain ps where ps: "ancestor_path h i ps" by (auto simp: rooted_def)
  then have "(THE ps. ancestor_path h i ps) = ps" by (auto intro: ancestor_path_unique)
  then show ?thesis using True ancestors_loop_path [OF ps, of "[]"] by simp
next
  case False
  have "ancestors_loop h (parent_at h i) [] = None"
  proof (rule ccontr)
    assume "\<not> ?thesis"
    then obtain r where "ancestors_loop h (parent_at h i) [] = Some r" by auto
    from ancestors_loop_Some [OF this] False show False
      by (cases "parent_at h i") (auto simp: rooted_None rooted_parent)
  qed
  then show ?thesis using False by simp
qed

text \<open>\<open>getAncestors\<close> returns exactly for nodes whose chain of parents ends, and then the chain.\<close>

lemma getAncestors_lemma:
  assumes "findNode c tree = Inr i"
  shows "getAncestors c tree = Inr ps \<longleftrightarrow> ancestor_path (tree_store tree) i ps"
    and "getAncestors c tree = Inl DoesNotReturn \<longleftrightarrow> \<not> rooted (tree_store tree) i"
proof -
  show "getAncestors c tree = Inr ps \<longleftrightarrow> ancestor_path (tree_store tree) i ps"
  proof (cases "rooted (tree_store tree) i")
    case True
    then obtain qs where qs: "ancestor_path (tree_store tree) i qs" by (auto simp: rooted_def)
    then have "getAncestors c tree = Inr qs"
      using assms ancestors_loop_path [OF qs, of "[]"] by (simp add: getAncestors_def)
    then show ?thesis using qs ancestor_path_unique [OF qs, of ps] by (metis sum.inject(2))
  next
    case False
    then show ?thesis
      using assms by (auto simp: getAncestors_def ancestors_loop_eq rooted_def)
  qed
  show "getAncestors c tree = Inl DoesNotReturn \<longleftrightarrow> \<not> rooted (tree_store tree) i"
    using assms by (auto simp: getAncestors_def ancestors_loop_eq)
qed

lemma path_hd_root:
  "ancestor_path h i ps \<Longrightarrow> ps \<noteq> [] \<Longrightarrow> parent_at h (hd ps) = None"
proof (induction rule: ancestor_path.induct)
  case (path_step i p ps)
  then show ?case by (cases ps) (auto elim: path_rootE)
qed simp

section \<open>Subtrees\<close>

definition parent_rel :: "node_store \<Rightarrow> (nat \<times> nat) set" where
  "parent_rel h = {(c, p). c < length h \<and> parent_at h c = Some p}"

text \<open>The nodes strictly below a node, and a node with all of these.\<close>

definition below :: "node_store \<Rightarrow> nat \<Rightarrow> nat set" where
  "below h i = {d. (d, i) \<in> (parent_rel h)\<^sup>+}"

definition subtree :: "node_store \<Rightarrow> nat \<Rightarrow> nat set" where
  "subtree h i = insert i (below h i)"

lemma parent_relD: "(c, p) \<in> parent_rel h \<Longrightarrow> c < length h \<and> parent_at h c = Some p"
  by (simp add: parent_rel_def)

lemma single_valued_parent_rel: "single_valued (parent_rel h)"
  by (auto simp: single_valued_def parent_rel_def)

lemma subtree_iff: "d \<in> subtree h i \<longleftrightarrow> (d, i) \<in> (parent_rel h)\<^sup>*"
  by (auto simp: subtree_def below_def rtrancl_eq_or_trancl)

lemma below_first_step:
  "(c, a) \<in> (parent_rel h)\<^sup>+ \<Longrightarrow> parent_at h c = Some p \<Longrightarrow> (p, a) \<in> (parent_rel h)\<^sup>*"
  by (drule tranclD) (auto dest: parent_relD)

lemma rooted_acyclic: "ancestor_path h i ps \<Longrightarrow> i \<notin> below h i"
proof (induction rule: ancestor_path.induct)
  case (path_root i)
  then show ?case by (auto simp: below_def dest!: tranclD parent_relD)
next
  case (path_step i p ps)
  show ?case
  proof
    assume "i \<in> below h i"
    then have i: "(i, i) \<in> (parent_rel h)\<^sup>+" by (simp add: below_def)
    then have pi: "(p, i) \<in> (parent_rel h)\<^sup>*" using path_step(1) by (rule below_first_step)
    have "(i, p) \<in> parent_rel h" using i path_step(1) by (auto simp: parent_rel_def dest!: tranclD)
    with pi have "p \<in> below h p" by (simp add: below_def rtrancl_into_trancl1)
    then show False using path_step.IH by simp
  qed
qed

lemma rooted_below: "(d, i) \<in> (parent_rel h)\<^sup>* \<Longrightarrow> rooted h d \<longleftrightarrow> rooted h i"
  by (induction rule: rtrancl_induct) (auto dest!: parent_relD simp: rooted_parent)

lemma below_children:
  assumes "forest h" "i < length h"
  shows "below h i = (\<Union>c \<in> set (children_at h i). subtree h c)"
proof -
  have "set (children_at h i) = {c. (c, i) \<in> parent_rel h}"
    using assms by (auto simp: forest_def parent_rel_def)
  then show ?thesis by (auto simp: below_def subtree_iff trancl_unfold_right)
qed

text \<open>Siblings have disjoint subtrees.\<close>

definition siblings :: "node_store \<Rightarrow> nat option \<Rightarrow> nat list \<Rightarrow> bool" where
  "siblings h q cs \<longleftrightarrow> distinct cs \<and> (\<forall>c \<in> set cs. c < length h \<and> parent_at h c = q \<and> rooted h c)"

lemma sibling_not_below:
  assumes "rooted h c" "c' < length h" "parent_at h c' = parent_at h c"
  shows "c \<notin> below h c'"
proof
  assume "c \<in> below h c'"
  then have cc: "(c, c') \<in> (parent_rel h)\<^sup>+" by (simp add: below_def)
  then obtain p where p: "parent_at h c = Some p" by (auto dest!: tranclD parent_relD)
  have "(p, c') \<in> (parent_rel h)\<^sup>*" using cc p by (rule below_first_step)
  moreover have "(c', p) \<in> parent_rel h" using assms(2,3) p by (simp add: parent_rel_def)
  ultimately have "p \<in> below h p" by (simp add: below_def rtrancl_into_trancl1)
  moreover have "rooted h p" using assms(1) p rooted_parent by blast
  ultimately show False using rooted_acyclic by (auto simp: rooted_def)
qed

lemma siblings_disjoint:
  assumes "siblings h q cs" "c \<in> set cs" "c' \<in> set cs" "c \<noteq> c'"
  shows "subtree h c \<inter> subtree h c' = {}"
proof (rule ccontr)
  assume "\<not> ?thesis"
  then obtain d where "(d, c) \<in> (parent_rel h)\<^sup>*" "(d, c') \<in> (parent_rel h)\<^sup>*"
    by (auto simp: subtree_iff)
  from single_valued_confluent [OF single_valued_parent_rel this]
  have "c \<in> below h c' \<or> c' \<in> below h c"
    using assms(4) by (auto simp: below_def rtrancl_eq_or_trancl)
  then show False
    using assms sibling_not_below [of h c c'] sibling_not_below [of h c' c] by (auto simp: siblings_def)
qed

lemma siblings_children:
  assumes "forest h" "i < length h" "rooted h i"
  shows "siblings h (Some i) (children_at h i)"
  using assms rooted_parent by (auto simp: siblings_def forest_def)

lemma siblings_cong: "siblings h q cs \<Longrightarrow> set ds = set cs \<Longrightarrow> distinct ds \<Longrightarrow> siblings h q ds"
  by (simp add: siblings_def)

text \<open>Below a rooted node there is no cycle: induction from the leaves up.\<close>

lemma wf_rooted:
  assumes "forest h"
  shows "wf {(c, p). (c, p) \<in> parent_rel h \<and> rooted h c}"
proof -
  let ?R = "{(c, p). (c, p) \<in> parent_rel h \<and> rooted h c}"
  have "?R \<subseteq> {..<length h} \<times> {..<length h}"
    using assms by (auto simp: forest_def parent_rel_def)
  then have "finite ?R" by (rule finite_subset) simp
  moreover have "acyclic ?R"
  proof (rule acyclicI, rule allI, rule notI)
    fix i assume i: "(i, i) \<in> ?R\<^sup>+"
    then have "rooted h i" by (auto dest: tranclD)
    moreover have "(i, i) \<in> (parent_rel h)\<^sup>+" using i by (rule trancl_mono) auto
    ultimately show False using rooted_acyclic by (auto simp: rooted_def below_def)
  qed
  ultimately show ?thesis by (rule finite_acyclic_wf)
qed

lemma rooted_induct [consumes 3, case_names node]:
  assumes "forest h" "i < length h" "rooted h i"
    and step: "\<And>i. i < length h \<Longrightarrow> rooted h i \<Longrightarrow> (\<And>c. c \<in> set (children_at h i) \<Longrightarrow> P c) \<Longrightarrow> P i"
  shows "P i"
  using wf_rooted [OF assms(1)] assms(2,3)
proof (induction i rule: wf_induct_rule)
  case (less i)
  show ?case
  proof (rule step [OF less.prems])
    fix c assume "c \<in> set (children_at h i)"
    then have c: "c < length h" "parent_at h c = Some i"
      using assms(1) less.prems by (auto simp: forest_def)
    then have "rooted h c" using less.prems rooted_parent by blast
    then show "P c" using c less.IH by (auto simp: parent_rel_def)
  qed
qed

section \<open>Sorting\<close>

text \<open>The nodes of the traversal, and that siblings come out sorted with their subtrees behind them.\<close>

lemma set_sort_siblings [simp]: "set (sort_siblings h cs) = set cs"
  by (simp add: sort_siblings_def)

lemma distinct_sort_siblings [simp]: "distinct (sort_siblings h cs) = distinct cs"
  by (simp add: sort_siblings_def)

definition sibling_cmp :: "node_store \<Rightarrow> nat \<Rightarrow> nat \<Rightarrow> int" where
  "sibling_cmp h a b = byDisplayOrderThenId
     (cat_displayOrder (category_at h a), cat_id (category_at h a))
     (cat_displayOrder (category_at h b), cat_id (category_at h b))"

interpretation sibling_order: js_comparator "sibling_cmp h" for h
  by unfold_locales (auto simp: sibling_cmp_def byDisplayOrderThenId_def split: if_splits)

lemma sorted_sort_siblings: "sorted_wrt (\<lambda>a b. sibling_cmp h a b \<le> 0) (sort_siblings h cs)"
  using sibling_order.sorted [of h cs] by (simp add: sort_siblings_def sibling_cmp_def [abs_def])

text \<open>
  The order of a category list: a category comes before everything below it, and everything in the
  subtree of a category before everything in the subtree of a later sibling.
\<close>

definition listed_before :: "node_store \<Rightarrow> nat \<Rightarrow> nat \<Rightarrow> bool" where
  "listed_before h i j \<longleftrightarrow> j \<in> below h i \<or>
     (\<exists>a b. a \<noteq> b \<and> parent_at h a = parent_at h b \<and> sibling_cmp h a b \<le> 0 \<and>
        i \<in> subtree h a \<and> j \<in> subtree h b)"

lemma in_order_siblings:
  assumes "siblings h q cs" "sorted_wrt (\<lambda>a b. sibling_cmp h a b \<le> 0) cs"
    and "\<And>c. c \<in> set cs \<Longrightarrow> \<exists>ds. in_order h (sort_siblings h (children_at h c)) = Some ds \<and>
           distinct ds \<and> set ds = below h c \<and> sorted_wrt (listed_before h) ds"
  shows "\<exists>ds. in_order h cs = Some ds \<and> distinct ds \<and> set ds = (\<Union>c \<in> set cs. subtree h c) \<and>
    sorted_wrt (listed_before h) ds"
  using assms
proof (induction cs)
  case Nil
  then show ?case by (simp add: in_order.simps)
next
  case (Cons c cs)
  have "siblings h q cs" using Cons.prems(1) by (simp add: siblings_def)
  then obtain rest where rest: "in_order h cs = Some rest" "distinct rest" "set rest = (\<Union>c \<in> set cs. subtree h c)"
      "sorted_wrt (listed_before h) rest"
    using Cons.IH Cons.prems(2,3) by auto
  obtain ds where ds: "in_order h (sort_siblings h (children_at h c)) = Some ds" "distinct ds"
    "set ds = below h c" "sorted_wrt (listed_before h) ds"
    using Cons.prems(3) by auto
  have later: "listed_before h i j" if "i \<in> subtree h c" "j \<in> set rest" for i j
  proof -
    from that(2) rest(3) obtain b where b: "b \<in> set cs" "j \<in> subtree h b" by auto
    moreover have "c \<noteq> b" "parent_at h c = parent_at h b" "sibling_cmp h c b \<le> 0"
      using b Cons.prems(1,2) by (auto simp: siblings_def)
    ultimately show ?thesis using that(1) unfolding listed_before_def by blast
  qed
  have dist: "subtree h c \<inter> set rest = {}"
    using siblings_disjoint [OF Cons.prems(1), of c] Cons.prems(1) rest(3) by (fastforce simp: siblings_def)
  have "c \<notin> below h c"
    using Cons.prems(1) rooted_acyclic by (auto simp: siblings_def rooted_def)
  then have "distinct (c # ds @ rest)" using dist ds rest by (auto simp: subtree_def)
  moreover have "in_order h (c # cs) = Some (c # ds @ rest)"
    by (subst in_order.simps) (simp add: ds rest)
  moreover have "set (c # ds @ rest) = (\<Union>c \<in> set (c # cs). subtree h c)"
    using ds rest by (auto simp: subtree_def)
  moreover have "sorted_wrt (listed_before h) (c # ds @ rest)"
  proof -
    have "listed_before h c j" if "j \<in> below h c" for j
      using that by (simp add: listed_before_def)
    then show ?thesis using ds(3,4) rest(4) later by (auto simp: sorted_wrt_append subtree_def)
  qed
  ultimately show ?case by blast
qed

lemma in_order_below:
  assumes "forest h" "i < length h" "rooted h i"
  shows "\<exists>ds. in_order h (sort_siblings h (children_at h i)) = Some ds \<and> distinct ds \<and> set ds = below h i \<and>
    sorted_wrt (listed_before h) ds"
  using assms
proof (induction rule: rooted_induct)
  case (node i)
  have "siblings h (Some i) (sort_siblings h (children_at h i))"
    by (rule siblings_cong [OF siblings_children [OF assms(1) node(1,2)]])
      (use siblings_children [OF assms(1) node(1,2)] in \<open>auto simp: siblings_def\<close>)
  from in_order_siblings [OF this sorted_sort_siblings] node(3)
  show ?case using below_children [OF assms(1) node(1)] by simp
qed

lemma subtree_root:
  assumes "forest h" "i < length h"
  shows "rooted h i \<longleftrightarrow> (\<exists>r. r < length h \<and> parent_at h r = None \<and> i \<in> subtree h r)"
proof
  have "ancestor_path h i ps \<Longrightarrow> i < length h \<Longrightarrow>
      \<exists>r. r < length h \<and> parent_at h r = None \<and> (i, r) \<in> (parent_rel h)\<^sup>*" for ps
  proof (induction rule: ancestor_path.induct)
    case (path_step i p ps)
    then have "p < length h" using assms(1) by (auto simp: forest_def)
    then obtain r where "r < length h" "parent_at h r = None" "(p, r) \<in> (parent_rel h)\<^sup>*"
      using path_step.IH by blast
    moreover have "(i, p) \<in> parent_rel h" using path_step by (simp add: parent_rel_def)
    ultimately show ?case by (meson converse_rtrancl_into_rtrancl)
  qed auto
  then show "rooted h i \<Longrightarrow> \<exists>r. r < length h \<and> parent_at h r = None \<and> i \<in> subtree h r"
    using assms(2) by (auto simp: rooted_def subtree_iff)
  show "\<exists>r. r < length h \<and> parent_at h r = None \<and> i \<in> subtree h r \<Longrightarrow> rooted h i"
    using rooted_below rooted_None by (auto simp: subtree_iff)
qed

lemma tree_roots_siblings:
  assumes "makeCategoryTree all = Inr tree"
  shows "siblings (tree_store tree) None (tree_roots tree) \<and>
    set (tree_roots tree) = {r. r < length all \<and> parent_at (tree_store tree) r = None}"
proof -
  have t: "tree = tree_of all" using assms by (rule makeCategoryTree_Inr)
  have ok: "pid \<in> cat_id ` set all" if i: "i < length all" "parent_id (all ! i) = Some pid" for i pid
    using makeCategoryTree_parents [OF assms nth_mem [OF i(1)] i(2)] .
  have "parent_index all i = None \<longleftrightarrow> isRoot (all ! i)" if "i < length all" for i
    using ok [OF that] node_lookup_None [of all]
    by (cases "parent_id (all ! i)") (auto simp: parent_index_def isRoot_def)
  then show ?thesis
    unfolding t siblings_def by (auto simp: tree_of_def [THEN arg_cong, of tree_roots] intro: rooted_None)
qed

text \<open>
  \<open>sortCategories\<close> returns whenever the tree can be built, and what it returns are exactly the
  categories whose chain of parents reaches a root: a cycle of categories is dropped.
\<close>

lemma sortCategories_lemma:
  assumes "makeCategoryTree all = Inr tree"
  shows "\<exists>ns. sortCategories all = Inr (map ((!) all) ns) \<and> distinct ns \<and>
    set ns = {i. i < length all \<and> rooted (tree_store tree) i} \<and>
    sorted_wrt (listed_before (tree_store tree)) ns"
proof -
  let ?h = "tree_store tree"
  have t: "tree = tree_of all" using assms by (rule makeCategoryTree_Inr)
  have f: "forest ?h" using assms by (rule makeCategoryTree_forest)
  have len: "length ?h = length all" by (simp add: t)
  have roots: "siblings ?h None (tree_roots tree)"
    "set (tree_roots tree) = {r. r < length all \<and> parent_at ?h r = None}"
    using tree_roots_siblings [OF assms] by simp_all
  then have "siblings ?h None (sort_siblings ?h (tree_roots tree))"
    by (auto simp: siblings_def)
  then obtain ns where ns: "in_order ?h (sort_siblings ?h (tree_roots tree)) = Some ns" "distinct ns"
    "set ns = (\<Union>c \<in> set (tree_roots tree). subtree ?h c)" "sorted_wrt (listed_before ?h) ns"
    using in_order_siblings [of ?h None "sort_siblings ?h (tree_roots tree)", OF _ sorted_sort_siblings]
      in_order_below [OF f]
    by (auto simp: siblings_def)
  have "i < length all" if "i \<in> subtree ?h r" "r < length all" for i r
    using that len by (auto simp: subtree_def below_def dest!: tranclD parent_relD)
  then have set: "set ns = {i. i < length all \<and> rooted ?h i}"
    using ns(3) roots(2) subtree_root [OF f] len by auto
  have "map (category_at ?h) ns = map ((!) all) ns" using set by (simp add: t)
  then have "sortCategories all = Inr (map ((!) all) ns)"
    using ns(1) assms by (simp add: sortCategories_def)
  then show ?thesis using ns(2,4) set by blast
qed

section \<open>Descendants\<close>

lemma push_children_simps [simp]:
  "t < length h \<Longrightarrow> children_at (push_children h t cs) t = children_at h t @ cs"
  "i \<noteq> t \<Longrightarrow> children_at (push_children h t cs) i = children_at h i"
  "t < length h \<Longrightarrow> parent_at (push_children h t cs) i = parent_at h i"
  "t < length h \<Longrightarrow> category_at (push_children h t cs) i = category_at h i"
  "length (push_children h t cs) = length h"
  by (auto simp: push_children_def children_at_def parent_at_def category_at_def nth_list_update)

lemma push_children_Nil [simp]: "push_children h t [] = h"
  by (simp add: push_children_def children_at_def)

lemma push_children_push [simp]:
  "t < length h \<Longrightarrow> push_children (push_children h t a) t b = push_children h t (a @ b)"
  by (simp add: push_children_def children_at_def)

text \<open>The frontier is a stack: what lies above \<open>fr\<close> is worked off before \<open>fr\<close> is touched.\<close>

definition drains :: "node_store \<Rightarrow> nat \<Rightarrow> nat list \<Rightarrow> nat set \<Rightarrow> bool" where
  "drains h t cs new \<longleftrightarrow>
     (\<exists>ds. distinct ds \<and> set ds = new \<and>
        (\<forall>a fr. descendants_loop (push_children h t a) t (fr @ cs) =
          descendants_loop (push_children h t (a @ ds)) t fr))"

lemma drains_Nil: "drains h t [] {}"
  by (auto simp: drains_def)

lemma drains_snoc:
  assumes "drains h t cs A" "drains h t [c] B" "A \<inter> B = {}"
  shows "drains h t (cs @ [c]) (A \<union> B)"
proof -
  obtain da db where da: "distinct da" "set da = A"
      "\<And>a fr. descendants_loop (push_children h t a) t (fr @ cs) = descendants_loop (push_children h t (a @ da)) t fr"
    and db: "distinct db" "set db = B"
      "\<And>a fr. descendants_loop (push_children h t a) t (fr @ [c]) = descendants_loop (push_children h t (a @ db)) t fr"
    using assms(1,2) unfolding drains_def by blast
  have "descendants_loop (push_children h t a) t (fr @ cs @ [c]) =
      descendants_loop (push_children h t (a @ db @ da)) t fr" for a fr
    using db(3) [of a "fr @ cs"] da(3) [of "a @ db" fr] by simp
  moreover have "distinct (db @ da)" "set (db @ da) = A \<union> B" using da db assms(3) by auto
  ultimately show ?thesis unfolding drains_def by blast
qed

lemma drains_siblings:
  assumes "siblings h q cs" "\<And>c. c \<in> set cs \<Longrightarrow> drains h t [c] (below h c)"
  shows "drains h t cs (\<Union>c \<in> set cs. below h c)"
  using assms
proof (induction cs rule: rev_induct)
  case (snoc c cs)
  have sib: "siblings h q cs" using snoc.prems(1) by (simp add: siblings_def)
  have "(\<Union>c \<in> set cs. below h c) \<inter> below h c = {}"
    using siblings_disjoint [OF snoc.prems(1), of _ c] snoc.prems(1)
    by (fastforce simp: siblings_def subtree_def)
  with snoc.IH [OF sib] snoc.prems(2) have "drains h t (cs @ [c]) ((\<Union>c \<in> set cs. below h c) \<union> below h c)"
    by (intro drains_snoc) simp_all
  then show ?case by (simp add: Un_commute)
qed (simp add: drains_Nil)

lemma drains_below:
  assumes "forest h" "x < length h" "rooted h x" "t < length h" "x \<in> below h t"
  shows "drains h t [x] (below h x)"
  using assms(1-3,5)
proof (induction rule: rooted_induct)
  case (node x)
  let ?cs = "children_at h x"
  have sib: "siblings h (Some x) ?cs" using node(1,2) by (rule siblings_children [OF assms(1)])
  have xt: "x \<noteq> t" using node(2,4) rooted_acyclic by (auto simp: rooted_def)
  have "c \<in> below h t" if "c \<in> set ?cs" for c
  proof -
    have "(c, x) \<in> parent_rel h" using sib that by (simp add: siblings_def parent_rel_def)
    then show ?thesis using node(4) by (simp add: below_def)
  qed
  then have "drains h t ?cs (\<Union>c \<in> set ?cs. below h c)"
    using drains_siblings [OF sib] node(3) by blast
  then obtain ds where ds: "distinct ds" "set ds = (\<Union>c \<in> set ?cs. below h c)"
      "\<And>a fr. descendants_loop (push_children h t a) t (fr @ ?cs) = descendants_loop (push_children h t (a @ ds)) t fr"
    unfolding drains_def by blast
  have step: "descendants_loop (push_children h t a) t (fr @ [x]) =
      descendants_loop (push_children h t (a @ ?cs @ ds)) t fr" for a fr
    using ds(3) [of "a @ ?cs" fr] assms(4) xt by (subst descendants_loop.simps) simp
  have "c \<notin> below h c'" if "c \<in> set ?cs" "c' \<in> set ?cs" for c c'
    using sib that sibling_not_below [of h c c'] by (auto simp: siblings_def)
  then have "distinct (?cs @ ds)" using ds(1,2) sib by (auto simp: siblings_def)
  moreover have "set (?cs @ ds) = below h x"
    using ds(2) below_children [OF assms(1) node(1)] by (auto simp: subtree_def)
  ultimately show ?case using step unfolding drains_def by blast
qed

text \<open>
  In a tree that has not been searched before, \<open>getDescendants\<close> returns every node below the target
  once; and the tree afterwards has them all as children of the target.
\<close>

lemma getDescendants_lemma:
  assumes t: "makeCategoryTree all = Inr tree" and i: "findNode c tree = Inr i"
    and r: "rooted (tree_store tree) i"
  shows "\<exists>ds. getDescendants c tree =
      Inr (ds, tree\<lparr>tree_store := (tree_store tree)[i := (tree_store tree ! i)\<lparr>node_children := ds\<rparr>]\<rparr>) \<and>
    distinct ds \<and> set ds = below (tree_store tree) i"
proof -
  let ?h = "tree_store tree"
  have f: "forest ?h" using t by (rule makeCategoryTree_forest)
  have il: "i < length ?h" using i makeCategoryTree_Inr [OF t] findNode_tree_of by auto
  let ?cs = "children_at ?h i"
  have sib: "siblings ?h (Some i) ?cs" using il r by (rule siblings_children [OF f])
  have "drains ?h i [x] (below ?h x)" if "x \<in> set ?cs" for x
  proof (rule drains_below [OF f _ _ il])
    show "x < length ?h" "rooted ?h x" using sib that by (auto simp: siblings_def)
    then show "x \<in> below ?h i" using sib that by (auto simp: siblings_def below_def parent_rel_def)
  qed
  then have "drains ?h i ?cs (\<Union>c \<in> set ?cs. below ?h c)" by (rule drains_siblings [OF sib])
  then obtain ds where ds: "distinct ds" "set ds = (\<Union>c \<in> set ?cs. below ?h c)"
      "\<And>a fr. descendants_loop (push_children ?h i a) i (fr @ ?cs) = descendants_loop (push_children ?h i (a @ ds)) i fr"
    unfolding drains_def by blast
  have "descendants_loop ?h i ?cs = Some (push_children ?h i ds)"
    using ds(3) [of "[]" "[]"] by (simp add: descendants_loop.simps)
  then have "getDescendants c tree = Inr (?cs @ ds, tree\<lparr>tree_store := push_children ?h i ds\<rparr>)"
    using i il by (simp add: getDescendants_def)
  moreover have "push_children ?h i ds = ?h[i := (?h ! i)\<lparr>node_children := ?cs @ ds\<rparr>]"
    by (simp add: push_children_def)
  moreover have "c \<notin> below ?h c'" if "c \<in> set ?cs" "c' \<in> set ?cs" for c c'
    using sib that sibling_not_below [of ?h c c'] by (auto simp: siblings_def)
  then have "distinct (?cs @ ds)" using ds(1,2) sib by (auto simp: siblings_def)
  moreover have "set (?cs @ ds) = below ?h i"
    using ds(2) below_children [OF f il] by (auto simp: subtree_def)
  ultimately show ?thesis by metis
qed

section \<open>Membership in a subtree\<close>

lemma includes_loop_path:
  "ancestor_path h n ps \<Longrightarrow>
     includes_loop h r (Some n) = Some (r \<in> (\<lambda>i. cat_id (category_at h i)) ` set (n # ps))"
proof (induction rule: ancestor_path.induct)
  case (path_root i)
  then show ?case by (simp add: includes_loop.simps)
next
  case (path_step i p ps)
  then show ?case by (subst includes_loop.simps) auto
qed

lemma ancestor_path_set: "ancestor_path h n ps \<Longrightarrow> forest h \<Longrightarrow> n < length h \<Longrightarrow>
  set (n # ps) = {a. (n, a) \<in> (parent_rel h)\<^sup>*}"
proof (induction rule: ancestor_path.induct)
  case (path_root i)
  then show ?case by (auto simp: rtrancl_eq_or_trancl dest!: tranclD parent_relD)
next
  case (path_step i p ps)
  have ip: "(i, p) \<in> parent_rel h" using path_step by (simp add: parent_rel_def)
  have "p < length h" using path_step by (auto simp: forest_def)
  then have "set (p # ps) = {a. (p, a) \<in> (parent_rel h)\<^sup>*}" using path_step by blast
  moreover have "{a. (i, a) \<in> (parent_rel h)\<^sup>*} = insert i {a. (p, a) \<in> (parent_rel h)\<^sup>*}"
    using below_first_step [OF _ path_step(1)] converse_rtrancl_into_rtrancl [OF ip]
    by (auto simp: rtrancl_eq_or_trancl [of i])
  ultimately show ?case by auto
qed

lemma lookup_ids:
  assumes "findNode c (tree_of all) = Inr i" "findNode d (tree_of all) = Inr j"
    and "(j, a) \<in> (parent_rel (tree_store (tree_of all)))\<^sup>*"
    and "cat_id (all ! a) = cat_id (all ! i)"
  shows "a = i"
proof -
  have found: "jm_get (node_lookup all) (cat_id (all ! i)) = Some i" if "findNode c (tree_of all) = Inr i" for c i
    using that node_lookup_Some [of all] by (auto simp: findNode_def result_simps Let_def)
  have "jm_get (node_lookup all) (cat_id (all ! a)) = Some a"
    using assms(3)
  proof cases
    case base
    then show ?thesis using found [OF assms(2)] by simp
  next
    case (step b)
    have "b < length all" using step(2) by (auto simp: parent_rel_def)
    then have "parent_index all b = Some a" using step(2) by (simp add: parent_rel_def)
    then obtain pid where pid: "jm_get (node_lookup all) pid = Some a"
      by (auto simp: parent_index_def bind_eq_Some_conv)
    show ?thesis using pid unfolding node_lookup_Some [OF pid, THEN conjunct2] .
  qed
  then have "Some i = Some a" unfolding assms(4) found [OF assms(1)] .
  then show ?thesis by (rule option.inject [THEN iffD1, symmetric])
qed

lemma subtreeIncludes_lemma:
  assumes t: "makeCategoryTree all = Inr tree" and c: "findNode c tree = Inr i"
    and d: "findNode d tree = Inr j" and r: "rooted (tree_store tree) j"
  shows "subtreeIncludes c d tree = Inr (j \<in> subtree (tree_store tree) i)"
proof -
  let ?h = "tree_store tree"
  have tr: "tree = tree_of all" using t by (rule makeCategoryTree_Inr)
  have f: "forest ?h" using t by (rule makeCategoryTree_forest)
  have l: "i < length all" "j < length all" using c d findNode_tree_of tr by auto
  obtain ps where ps: "ancestor_path ?h j ps" using r by (auto simp: rooted_def)
  have set: "set (j # ps) = {a. (j, a) \<in> (parent_rel ?h)\<^sup>*}"
    using ancestor_path_set [OF ps f] l tr by simp
  have "a < length all" if "(j, a) \<in> (parent_rel ?h)\<^sup>*" for a
    using that l f tr by (induction rule: rtrancl_induct) (auto simp: parent_rel_def forest_def)
  then have "cat_id (all ! i) \<in> (\<lambda>a. cat_id (category_at ?h a)) ` set (j # ps) \<longleftrightarrow> i \<in> set (j # ps)"
    unfolding set using lookup_ids [of c all i d j] c d tr by (auto simp: image_iff)
  then have "includes_loop ?h (cat_id (all ! i)) (Some j) = Some (i \<in> set (j # ps))"
    unfolding includes_loop_path [OF ps] by simp
  moreover have "i \<in> set (j # ps) \<longleftrightarrow> j \<in> subtree ?h i" unfolding set by (simp add: subtree_iff)
  moreover have "category_at ?h i = all ! i" using l tr by simp
  ultimately show ?thesis using c d by (simp add: subtreeIncludes_def)
qed

section \<open>Properties\<close>

declare ancestors_loop.simps [code] descendants_loop.simps [code] in_order.simps [code] includes_loop.simps [code]

text \<open>A small list of categories the witnesses below use: two roots, one with two levels below it.\<close>

definition sample_categories :: "category list" where
  "sample_categories =
     [\<lparr>cat_id = 1, cat_name = ''Food'', cat_displayOrder = 2, cat_parentCategoryId = None\<rparr>,
      \<lparr>cat_id = 2, cat_name = ''Groceries'', cat_displayOrder = 1, cat_parentCategoryId = Some 1\<rparr>,
      \<lparr>cat_id = 3, cat_name = ''Market'', cat_displayOrder = 1, cat_parentCategoryId = Some 2\<rparr>,
      \<lparr>cat_id = 4, cat_name = ''Income'', cat_displayOrder = 1, cat_parentCategoryId = Some 0\<rparr>]"

lemma sample_tree: "makeCategoryTree sample_categories = Inr (tree_of sample_categories)"
  by (simp add: makeCategoryTree_eq sample_categories_def parent_id_def)

lemma sample_parents:
  "map (parent_index sample_categories) [0, 1, 2, 3] = [None, Some 0, Some 1, None]"
  by code_simp

lemma sample_paths:
  "ancestor_path (tree_store (tree_of sample_categories)) 0 []"
  "ancestor_path (tree_store (tree_of sample_categories)) 1 [0]"
  "ancestor_path (tree_store (tree_of sample_categories)) 2 [0, 1]"
proof -
  let ?h = "tree_store (tree_of sample_categories)"
  have len: "length sample_categories = 4" by (simp add: sample_categories_def)
  show 0: "ancestor_path ?h 0 []"
    by (rule path_root) (use sample_parents in \<open>simp add: len\<close>)
  have 1: "ancestor_path ?h 1 ([] @ [0])"
    by (rule path_step [OF _ 0]) (use sample_parents in \<open>simp add: len\<close>)
  have "ancestor_path ?h 2 (([] @ [0]) @ [1])"
    by (rule path_step [OF _ 1]) (use sample_parents in \<open>simp add: len\<close>)
  with 1 show "ancestor_path ?h 1 [0]" "ancestor_path ?h 2 [0, 1]" by simp_all
qed

lemma sample_rooted:
  "rooted (tree_store (tree_of sample_categories)) 0" "rooted (tree_store (tree_of sample_categories)) 2"
  using sample_paths by (auto simp: rooted_def)

lemma sample_nodes:
  "findNode (AnId 1) (tree_of sample_categories) = Inr 0" "findNode (AnId 3) (tree_of sample_categories) = Inr 2"
  by code_simp+

text \<open>
  Building the category tree. \<open>makeCategoryTree\<close> throws exactly when some category names a
  parent that is not in the list (the error names that parent); otherwise the store has one node
  per category, in order, every node's parent is the node of its parent category and its children
  are exactly the nodes whose parent it is, in list order.
\<close>
theorem makeCategoryTree_builds:
  "(\<forall>c \<in> set all. \<forall>p. parent_id c = Some p \<longrightarrow> p \<in> cat_id ` set all) \<and>
     (\<exists>tree. makeCategoryTree all = Inr tree \<and> forest (tree_store tree) \<and>
        map node_category (tree_store tree) = all \<and>
        (\<forall>i < length all. case parent_id (all ! i) of
           None \<Rightarrow> parent_at (tree_store tree) i = None
         | Some p \<Rightarrow> \<exists>j < length all. parent_at (tree_store tree) i = Some j \<and> cat_id (all ! j) = p)) \<or>
   (\<exists>c \<in> set all. \<exists>p. parent_id c = Some p \<and> p \<notin> cat_id ` set all \<and>
      makeCategoryTree all = Inl (CategoryParentNotFound p (cat_id c)))"
proof (cases "makeCategoryTree all")
  case (Inl e)
  then obtain c where c: "find (\<lambda>c. case parent_id c of None \<Rightarrow> False | Some pid \<Rightarrow> pid \<notin> cat_id ` set all) all = Some c"
    "e = CategoryParentNotFound (the (parent_id c)) (cat_id c)"
    by (auto simp: makeCategoryTree_eq split: option.splits)
  from find_eq_key_Some [OF c(1)] show ?thesis
    using Inl c(2) by (auto split: option.splits)
next
  case (Inr tree)
  then have t: "tree = tree_of all" by (rule makeCategoryTree_Inr)
  have known: "p \<in> cat_id ` set all" if "c \<in> set all" "parent_id c = Some p" for c p
    using makeCategoryTree_parents [OF Inr that] .
  have "case parent_id (all ! i) of None \<Rightarrow> parent_at (tree_store tree) i = None
      | Some p \<Rightarrow> \<exists>j < length all. parent_at (tree_store tree) i = Some j \<and> cat_id (all ! j) = p"
    if i: "i < length all" for i
  proof (cases "parent_id (all ! i)")
    case None
    then show ?thesis using i t by (simp add: parent_index_def)
  next
    case (Some p)
    then have "jm_get (node_lookup all) p \<noteq> None"
      using known [OF nth_mem [OF i]] node_lookup_None [of all p] by auto
    then obtain j where "jm_get (node_lookup all) p = Some j" by auto
    then show ?thesis using i t Some node_lookup_Some [of all p j] by (simp add: parent_index_def)
  qed
  moreover have "map node_category (tree_store tree) = all"
    by (rule nth_equalityI) (simp_all add: t tree_of_def)
  ultimately show ?thesis using Inr known makeCategoryTree_forest [OF Inr] by blast
qed

theorem makeCategoryTree_builds_witness:
  "\<exists>tree. makeCategoryTree sample_categories = Inr tree \<and> forest (tree_store tree)"
  using makeCategoryTree_builds [of sample_categories] sample_tree by auto

text \<open>
  C32: the ancestors of a category. \<open>getAncestors\<close> returns the chain of parents from the root down
  to the parent; its loop over parents ends exactly when the category's chain reaches a root, and
  for a category on or under a cycle of parents it never returns.
\<close>
theorem getAncestors_chain:
  assumes "findNode c tree = Inr i"
  shows "(getAncestors c tree = Inr ps \<longleftrightarrow> ancestor_path (tree_store tree) i ps) \<and>
    (getAncestors c tree = Inl DoesNotReturn \<longleftrightarrow> \<not> rooted (tree_store tree) i)"
  using getAncestors_lemma [OF assms] by blast

theorem getAncestors_chain_witness: "getAncestors (AnId 3) (tree_of sample_categories) = Inr [0, 1]"
  using getAncestors_chain [OF sample_nodes(2), of "[0, 1]"] sample_paths(3) by simp

text \<open>
  The descendants of a category. For a category of a built tree whose chain of parents ends,
  \<open>getDescendants\<close> returns every category below it exactly once; and because it collects them in
  the node's own list of children, the tree it leaves behind has those descendants as the node's
  children.
\<close>
theorem getDescendants_below:
  assumes "makeCategoryTree all = Inr tree" "findNode c tree = Inr i" "rooted (tree_store tree) i"
  shows "\<exists>ds. getDescendants c tree =
      Inr (ds, tree\<lparr>tree_store := (tree_store tree)[i := (tree_store tree ! i)\<lparr>node_children := ds\<rparr>]\<rparr>) \<and>
    distinct ds \<and> set ds = below (tree_store tree) i"
  by (rule getDescendants_lemma [OF assms])

theorem getDescendants_below_witness:
  "\<exists>ds tree. getDescendants (AnId 1) (tree_of sample_categories) = Inr (ds, tree) \<and> distinct ds"
  using getDescendants_below [OF sample_tree sample_nodes(1) sample_rooted(1)] by blast

text \<open>Asked twice for the same category, the second answer lists grandchildren twice.\<close>

lemma getDescendants_twice:
  "map_sum id fst (getDescendants (AnId 1) (tree_of sample_categories)) = Inr [1, 2]"
  "map_sum id fst (bind_result (getDescendants (AnId 1) (tree_of sample_categories))
     (\<lambda>r. getDescendants (AnId 1) (snd r))) = Inr [1, 2, 2]"
  by code_simp+

text \<open>
  C17: the sorted list of categories. Whenever the tree can be built, \<open>sortCategories\<close> returns, and
  it returns every category whose chain of parents reaches a root exactly once (a cycle of
  categories is dropped), each category before everything below it and, among siblings, the whole
  subtree of one before the subtree of the next by display order and then id.
\<close>
theorem sortCategories_preorder:
  assumes "makeCategoryTree all = Inr tree"
  shows "\<exists>ns. sortCategories all = Inr (map ((!) all) ns) \<and> distinct ns \<and>
    set ns = {i. i < length all \<and> rooted (tree_store tree) i} \<and>
    sorted_wrt (listed_before (tree_store tree)) ns"
  by (rule sortCategories_lemma [OF assms])

theorem sortCategories_preorder_witness:
  "\<exists>ns. sortCategories sample_categories = Inr (map ((!) sample_categories) ns) \<and> distinct ns"
  using sortCategories_preorder [OF sample_tree] by blast

text \<open>
  C18: \<open>subtreeIncludes\<close> decides whether a category is the given one or below it, for every category
  whose chain of parents ends.
\<close>
theorem subtreeIncludes_decides:
  assumes "makeCategoryTree all = Inr tree" "findNode c tree = Inr i" "findNode d tree = Inr j"
    and "rooted (tree_store tree) j"
  shows "subtreeIncludes c d tree = Inr (j \<in> subtree (tree_store tree) i)"
  by (rule subtreeIncludes_lemma [OF assms])

theorem subtreeIncludes_decides_witness:
  "subtreeIncludes (AnId 1) (AnId 3) (tree_of sample_categories) =
     Inr ((2 :: nat) \<in> subtree (tree_store (tree_of sample_categories)) 0)"
  by (rule subtreeIncludes_decides [OF sample_tree sample_nodes sample_rooted(2)])

end
