(* ===== verification/Transactions.thy ===== *)
theory Transactions
  imports Category
begin

text \<open>
  Transactions of the client model and how they are read off the double-entry ledger:
  \<open>lib/model/transaction/*.tsx\<close>, \<open>lib/model/Tag.tsx\<close> and \<open>lib/model/Trip.tsx\<close>. The TypeScript union
  \<open>Transaction\<close> is a datatype whose constructors are the \<open>kind\<close>s; functions on the narrower union
  \<open>PersonalExpense | ThirdPartyExpense | Income\<close> take the datatype \<open>cash_flow\<close>.
\<close>

section \<open>Messages of the ledger\<close>

datatype ledger_account_type =
  LA_UNSPECIFIED | LA_ASSET | LA_EXPENSE | LA_INCOME | LA_EQUITY | LA_CURRENCY_EXCHANGE | LA_RECEIVABLE

record ledger_account =
  la_id :: int
  la_type :: ledger_account_type
  la_bankAccountId :: "int option"

record entry_line =
  line_ledgerAccountId :: int
  line_currencyCode :: "string option"
  line_amountNanos :: int

record split_context =
  split_companionName :: string
  split_companionShareNanos :: int
  split_companionPaidNanos :: int

datatype pb_transaction_type =
  T_UNSPECIFIED | T_EXPENSE | T_INCOME | T_TRANSFER | T_THIRD_PARTY_EXPENSE | T_OPENING_BALANCE

record pb_transaction =
  ptx_id :: int
  ptx_iid :: int
  ptx_timestamp :: "timestamp option"
  ptx_note :: string
  ptx_type :: pb_transaction_type
  ptx_vendor :: "string option"
  ptx_payer :: "string option"
  ptx_categoryId :: "int option"
  ptx_tripId :: "int option"
  ptx_supersedesId :: "int option"
  ptx_isVoid :: bool
  ptx_tagIds :: "int list"
  ptx_lines :: "entry_line list"
  ptx_splits :: "split_context list"

section \<open>Transactions of the client\<close>

record transaction_companion =
  comp_name :: string
  comp_amountNanos :: int

record income =
  in_id :: int
  in_timestampEpoch :: rat
  in_payer :: string
  in_amountNanos :: int
  in_companions :: "transaction_companion list"
  in_note :: string
  in_accountId :: int
  in_categoryId :: int
  in_tagsIds :: "int list"
  in_tripId :: "int option"

record personal_expense =
  pe_id :: int
  pe_timestampEpoch :: rat
  pe_vendor :: string
  pe_amountNanos :: int
  pe_companions :: "transaction_companion list"
  pe_note :: string
  pe_accountId :: int
  pe_categoryId :: int
  pe_tagsIds :: "int list"
  pe_tripId :: "int option"
  pe_refundGroupTransactionIds :: "int list"

record third_party_expense =
  tp_id :: int
  tp_timestampEpoch :: rat
  tp_payer :: string
  tp_vendor :: string
  tp_amountNanos :: int
  tp_currencyCode :: string
  tp_ownShareNanos :: int
  tp_companions :: "transaction_companion list"
  tp_note :: string
  tp_categoryId :: int
  tp_tagsIds :: "int list"
  tp_tripId :: "int option"

record transfer =
  tr_id :: int
  tr_timestampEpoch :: rat
  tr_fromAccountId :: int
  tr_toAccountId :: int
  tr_sentAmountNanos :: int
  tr_receivedAmountNanos :: int
  tr_note :: string
  tr_categoryId :: int
  tr_tagsIds :: "int list"

record opening_balance =
  ob_id :: int
  ob_timestampEpoch :: rat
  ob_amountNanos :: int
  ob_accountId :: int

datatype transaction =
    PersonalExpense personal_expense
  | ThirdPartyExpense third_party_expense
  | Transfer transfer
  | Income income
  | OpeningBalance opening_balance

datatype cash_flow =
    FlowPersonal personal_expense
  | FlowThirdParty third_party_expense
  | FlowIncome income

fun of_flow :: "cash_flow \<Rightarrow> transaction" where
  "of_flow (FlowPersonal t) = PersonalExpense t"
| "of_flow (FlowThirdParty t) = ThirdPartyExpense t"
| "of_flow (FlowIncome t) = Income t"

fun flow_of :: "transaction \<Rightarrow> cash_flow option" where
  "flow_of (PersonalExpense t) = Some (FlowPersonal t)"
| "flow_of (ThirdPartyExpense t) = Some (FlowThirdParty t)"
| "flow_of (Income t) = Some (FlowIncome t)"
| "flow_of _ = None"

lemma flow_of_Some_iff: "flow_of t = Some f \<longleftrightarrow> t = of_flow f"
  by (cases t; cases f) auto

text \<open>The fields all transactions, or all but opening balances, have.\<close>

fun tx_id :: "transaction \<Rightarrow> int" where
  "tx_id (PersonalExpense t) = pe_id t"
| "tx_id (ThirdPartyExpense t) = tp_id t"
| "tx_id (Transfer t) = tr_id t"
| "tx_id (Income t) = in_id t"
| "tx_id (OpeningBalance t) = ob_id t"

fun tx_timestampEpoch :: "transaction \<Rightarrow> rat" where
  "tx_timestampEpoch (PersonalExpense t) = pe_timestampEpoch t"
| "tx_timestampEpoch (ThirdPartyExpense t) = tp_timestampEpoch t"
| "tx_timestampEpoch (Transfer t) = tr_timestampEpoch t"
| "tx_timestampEpoch (Income t) = in_timestampEpoch t"
| "tx_timestampEpoch (OpeningBalance t) = ob_timestampEpoch t"

fun tx_categoryId :: "transaction \<Rightarrow> int option" where
  "tx_categoryId (PersonalExpense t) = Some (pe_categoryId t)"
| "tx_categoryId (ThirdPartyExpense t) = Some (tp_categoryId t)"
| "tx_categoryId (Transfer t) = Some (tr_categoryId t)"
| "tx_categoryId (Income t) = Some (in_categoryId t)"
| "tx_categoryId (OpeningBalance t) = None"

fun tx_tagsIds :: "transaction \<Rightarrow> int list option" where
  "tx_tagsIds (PersonalExpense t) = Some (pe_tagsIds t)"
| "tx_tagsIds (ThirdPartyExpense t) = Some (tp_tagsIds t)"
| "tx_tagsIds (Transfer t) = Some (tr_tagsIds t)"
| "tx_tagsIds (Income t) = Some (in_tagsIds t)"
| "tx_tagsIds (OpeningBalance t) = None"

fun tx_note :: "transaction \<Rightarrow> string option" where
  "tx_note (PersonalExpense t) = Some (pe_note t)"
| "tx_note (ThirdPartyExpense t) = Some (tp_note t)"
| "tx_note (Transfer t) = Some (tr_note t)"
| "tx_note (Income t) = Some (in_note t)"
| "tx_note (OpeningBalance t) = None"

fun flow_amountNanos :: "cash_flow \<Rightarrow> int" where
  "flow_amountNanos (FlowPersonal t) = pe_amountNanos t"
| "flow_amountNanos (FlowThirdParty t) = tp_amountNanos t"
| "flow_amountNanos (FlowIncome t) = in_amountNanos t"

fun flow_companions :: "cash_flow \<Rightarrow> transaction_companion list" where
  "flow_companions (FlowPersonal t) = pe_companions t"
| "flow_companions (FlowThirdParty t) = tp_companions t"
| "flow_companions (FlowIncome t) = in_companions t"

fun flow_tripId :: "cash_flow \<Rightarrow> int option" where
  "flow_tripId (FlowPersonal t) = pe_tripId t"
| "flow_tripId (FlowThirdParty t) = tp_tripId t"
| "flow_tripId (FlowIncome t) = in_tripId t"

definition flow_id :: "cash_flow \<Rightarrow> int" where
  "flow_id f = tx_id (of_flow f)"

definition flow_timestampEpoch :: "cash_flow \<Rightarrow> rat" where
  "flow_timestampEpoch f = tx_timestampEpoch (of_flow f)"

section \<open>Reading the ledger\<close>

text \<open>An id that is missing or zero is falsy; so is a string that is missing or empty.\<close>

definition truthy_id :: "int option \<Rightarrow> int option" where
  "truthy_id i = (case i of Some n \<Rightarrow> (if n = 0 then None else Some n) | None \<Rightarrow> None)"

definition truthy_text :: "string option \<Rightarrow> string option" where
  "truthy_text s = (case s of Some t \<Rightarrow> (if t = [] then None else Some t) | None \<Rightarrow> None)"

lemma truthy_id_Some [simp]: "truthy_id i = Some n \<longleftrightarrow> i = Some n \<and> n \<noteq> 0"
  by (auto simp: truthy_id_def split: option.splits)

lemma truthy_id_simps [simp]:
  "truthy_id None = None" "truthy_id (Some n) = (if n = 0 then None else Some n)"
  by (simp_all add: truthy_id_def)

lemma truthy_text_Some [simp]: "truthy_text s = Some t \<longleftrightarrow> s = Some t \<and> t \<noteq> []"
  by (auto simp: truthy_text_def split: option.splits)

definition account_has_type :: "(int, ledger_account) js_map \<Rightarrow> ledger_account_type \<Rightarrow> entry_line \<Rightarrow> bool" where
  "account_has_type accounts ty l =
     (case jm_get accounts (line_ledgerAccountId l) of None \<Rightarrow> False | Some acct \<Rightarrow> la_type acct = ty)"

text \<open>\<open>accounts.get(l.ledgerAccountId)?.bankAccountId\<close> when it is truthy.\<close>

definition line_bankAccountId :: "(int, ledger_account) js_map \<Rightarrow> entry_line \<Rightarrow> int option" where
  "line_bankAccountId accounts l =
     Option.bind (jm_get accounts (line_ledgerAccountId l)) (\<lambda>a. truthy_id (la_bankAccountId a))"

definition companions_of :: "pb_transaction \<Rightarrow> transaction_companion list" where
  "companions_of tx = map (\<lambda>s. \<lparr>comp_name = split_companionName s,
     comp_amountNanos = split_companionShareNanos s\<rparr>) (ptx_splits tx)"

definition incomeFromDB :: "pb_transaction \<Rightarrow> (int, ledger_account) js_map \<Rightarrow> income result" where
  "incomeFromDB tx accounts =
     bind_result (or_throw (truthy_id (ptx_categoryId tx)) (MissingCategory (ptx_id tx))) (\<lambda>categoryId.
     bind_result (or_throw (ptx_payer tx) (MissingPayer (ptx_id tx))) (\<lambda>payer.
     bind_result (or_throw (find (account_has_type accounts LA_ASSET) (ptx_lines tx))
       (NoAssetLine (ptx_id tx))) (\<lambda>assetLine.
     bind_result (or_throw (line_bankAccountId accounts assetLine) (MissingBankAccountId (ptx_id tx)))
       (\<lambda>bankAccountId.
     bind_result (timestampToEpoch (ptx_timestamp tx)) (\<lambda>epoch.
     Inr \<lparr>in_id = ptx_id tx, in_timestampEpoch = epoch, in_payer = payer,
       in_amountNanos = line_amountNanos assetLine, in_companions = companions_of tx,
       in_note = ptx_note tx, in_accountId = bankAccountId, in_categoryId = categoryId,
       in_tagsIds = ptx_tagIds tx, in_tripId = ptx_tripId tx\<rparr>)))))"

definition personalExpenseFromDB ::
  "pb_transaction \<Rightarrow> (int, ledger_account) js_map \<Rightarrow> personal_expense result" where
  "personalExpenseFromDB tx accounts =
     bind_result (or_throw (truthy_id (ptx_categoryId tx)) (MissingCategory (ptx_id tx))) (\<lambda>categoryId.
     bind_result (or_throw (ptx_vendor tx) (MissingVendor (ptx_id tx))) (\<lambda>vendor.
     bind_result (or_throw (find (account_has_type accounts LA_ASSET) (ptx_lines tx))
       (NoAssetLine (ptx_id tx))) (\<lambda>assetLine.
     bind_result (or_throw (line_bankAccountId accounts assetLine) (MissingBankAccountId (ptx_id tx)))
       (\<lambda>bankAccountId.
     bind_result (timestampToEpoch (ptx_timestamp tx)) (\<lambda>epoch.
     Inr \<lparr>pe_id = ptx_id tx, pe_timestampEpoch = epoch, pe_vendor = vendor,
       pe_amountNanos = - line_amountNanos assetLine, pe_companions = companions_of tx,
       pe_note = ptx_note tx, pe_accountId = bankAccountId, pe_categoryId = categoryId,
       pe_tagsIds = ptx_tagIds tx, pe_tripId = ptx_tripId tx, pe_refundGroupTransactionIds = []\<rparr>)))))"

definition thirdPartyExpenseFromDB ::
  "pb_transaction \<Rightarrow> (int, ledger_account) js_map \<Rightarrow> third_party_expense result" where
  "thirdPartyExpenseFromDB tx accounts =
     bind_result (assert_that (length (ptx_splits tx) > 0) (NoSplitContext (ptx_id tx))) (\<lambda>_.
     bind_result (or_throw (find (account_has_type accounts LA_EXPENSE) (ptx_lines tx))
       (NoExpenseLine (ptx_id tx))) (\<lambda>expenseLine.
     bind_result (or_throw (find (account_has_type accounts LA_RECEIVABLE) (ptx_lines tx))
       (NoReceivableLine (ptx_id tx))) (\<lambda>receivableLine.
     bind_result (or_throw (truthy_text (line_currencyCode expenseLine)) (MissingCurrency (ptx_id tx)))
       (\<lambda>currencyCode.
     let totalNanos = foldl (+) 0 (map split_companionPaidNanos (ptx_splits tx)) in
     bind_result (or_throw (truthy_text (ptx_payer tx)) (MissingPayer (ptx_id tx))) (\<lambda>payer.
     bind_result (or_throw (truthy_text (ptx_vendor tx)) (MissingVendor (ptx_id tx))) (\<lambda>vendor.
     bind_result (or_throw (truthy_id (ptx_categoryId tx)) (MissingCategory (ptx_id tx))) (\<lambda>categoryId.
     bind_result (timestampToEpoch (ptx_timestamp tx)) (\<lambda>epoch.
     Inr \<lparr>tp_id = ptx_id tx, tp_timestampEpoch = epoch, tp_payer = payer, tp_vendor = vendor,
       tp_amountNanos = totalNanos, tp_currencyCode = currencyCode,
       tp_ownShareNanos = line_amountNanos expenseLine, tp_companions = companions_of tx,
       tp_note = ptx_note tx, tp_categoryId = categoryId, tp_tagsIds = ptx_tagIds tx,
       tp_tripId = ptx_tripId tx\<rparr>))))))))"

definition transferFromDB :: "pb_transaction \<Rightarrow> (int, ledger_account) js_map \<Rightarrow> transfer result" where
  "transferFromDB tx accounts =
     bind_result (or_throw (truthy_id (ptx_categoryId tx)) (MissingCategory (ptx_id tx))) (\<lambda>categoryId.
     let assetLines = filter (account_has_type accounts LA_ASSET) (ptx_lines tx) in
     if length assetLines < 2 then Inl (TooFewAssetLines (ptx_id tx) (length assetLines))
     else
     bind_result (or_throw (find (\<lambda>l. line_amountNanos l < 0) assetLines) (MissingTransferLine (ptx_id tx)))
       (\<lambda>outLine.
     bind_result (or_throw (find (\<lambda>l. line_amountNanos l > 0) assetLines) (MissingTransferLine (ptx_id tx)))
       (\<lambda>inLine.
     bind_result (or_throw (line_bankAccountId accounts outLine) (MissingBankAccountId (ptx_id tx)))
       (\<lambda>fromAccountId.
     bind_result (or_throw (line_bankAccountId accounts inLine) (MissingBankAccountId (ptx_id tx)))
       (\<lambda>toAccountId.
     bind_result (timestampToEpoch (ptx_timestamp tx)) (\<lambda>epoch.
     Inr \<lparr>tr_id = ptx_id tx, tr_timestampEpoch = epoch, tr_fromAccountId = fromAccountId,
       tr_toAccountId = toAccountId, tr_sentAmountNanos = - line_amountNanos outLine,
       tr_receivedAmountNanos = line_amountNanos inLine, tr_note = ptx_note tx,
       tr_categoryId = categoryId, tr_tagsIds = ptx_tagIds tx\<rparr>))))))"

definition mustFindLedgerAccount :: "(int, ledger_account) js_map \<Rightarrow> int \<Rightarrow> ledger_account result" where
  "mustFindLedgerAccount accounts i = or_throw (jm_get accounts i) (LedgerAccountNotFound i)"

definition findAssetLineAndAccount ::
  "pb_transaction \<Rightarrow> (int, ledger_account) js_map \<Rightarrow> (entry_line \<times> int) result" where
  "findAssetLineAndAccount tx accounts =
     bind_result (filter_result (\<lambda>l.
         bind_result (mustFindLedgerAccount accounts (line_ledgerAccountId l)) (\<lambda>acct.
           Inr (la_type acct = LA_ASSET))) (ptx_lines tx)) (\<lambda>assetLines.
       if length assetLines \<noteq> 1 then Inl (WrongAssetLineCount (ptx_id tx) (length assetLines))
       else let line = assetLines ! 0 in
         bind_result (mustFindLedgerAccount accounts (line_ledgerAccountId line)) (\<lambda>account.
         bind_result (or_throw (truthy_id (la_bankAccountId account)) (MissingBankAccountId (ptx_id tx)))
           (\<lambda>bankAccountId. Inr (line, bankAccountId))))"

definition openingBalanceFromDB ::
  "pb_transaction \<Rightarrow> (int, ledger_account) js_map \<Rightarrow> opening_balance result" where
  "openingBalanceFromDB tx accounts =
     bind_result (findAssetLineAndAccount tx accounts) (\<lambda>(line, bankAccountId).
     bind_result (timestampToEpoch (ptx_timestamp tx)) (\<lambda>epoch.
     Inr \<lparr>ob_id = ptx_id tx, ob_timestampEpoch = epoch, ob_amountNanos = line_amountNanos line,
       ob_accountId = bankAccountId\<rparr>))"

definition ledger_map :: "ledger_account list \<Rightarrow> (int, ledger_account) js_map" where
  "ledger_map ledgerAccounts = jm_of_entries (map (\<lambda>a. (la_id a, a)) ledgerAccounts)"

definition transactionModelFromDB :: "pb_transaction \<Rightarrow> ledger_account list \<Rightarrow> transaction result" where
  "transactionModelFromDB init ledgerAccounts =
     (let accounts = ledger_map ledgerAccounts
      in case ptx_type init of
           T_EXPENSE \<Rightarrow> map_sum id PersonalExpense (personalExpenseFromDB init accounts)
         | T_THIRD_PARTY_EXPENSE \<Rightarrow> map_sum id ThirdPartyExpense (thirdPartyExpenseFromDB init accounts)
         | T_TRANSFER \<Rightarrow> map_sum id Transfer (transferFromDB init accounts)
         | T_INCOME \<Rightarrow> map_sum id Income (incomeFromDB init accounts)
         | T_OPENING_BALANCE \<Rightarrow> map_sum id OpeningBalance (openingBalanceFromDB init accounts)
         | T_UNSPECIFIED \<Rightarrow> Inl (UnknownTransactionType (ptx_id init)))"

section \<open>Tags and trips\<close>

record tag =
  tag_id :: int
  tag_name :: string

record trip =
  trip_id :: int
  trip_name :: string
  trip_destination :: "string option"
  trip_startEpoch :: "rat option"
  trip_endEpoch :: "rat option"

record pb_trip =
  ptr_id :: int
  ptr_name :: string
  ptr_destination :: "string option"
  ptr_start :: "timestamp option"
  ptr_end :: "timestamp option"

definition optional_epoch :: "timestamp option \<Rightarrow> rat option result" where
  "optional_epoch ts = (case ts of None \<Rightarrow> Inr None | Some t \<Rightarrow> map_sum id Some (timestampToEpoch (Some t)))"

definition tripModelFromDB :: "pb_trip \<Rightarrow> trip result" where
  "tripModelFromDB init =
     bind_result (optional_epoch (ptr_start init)) (\<lambda>s.
     bind_result (optional_epoch (ptr_end init)) (\<lambda>e.
       Inr \<lparr>trip_id = ptr_id init, trip_name = ptr_name init, trip_destination = ptr_destination init,
         trip_startEpoch = s, trip_endEpoch = e\<rparr>))"

definition tagModelFromDB :: "tag \<Rightarrow> tag" where
  "tagModelFromDB init = \<lparr>tag_id = tag_id init, tag_name = tag_name init\<rparr>"

definition mustFindTag :: "int \<Rightarrow> tag list \<Rightarrow> tag result" where
  "mustFindTag i tags = or_throw (find (\<lambda>t. tag_id t = i) tags) (TagNotFound i)"

section \<open>Reading transactions\<close>

definition hasTrip :: "transaction \<Rightarrow> bool" where
  "hasTrip t = (case flow_of t of None \<Rightarrow> False | Some f \<Rightarrow> truthy_id (flow_tripId f) \<noteq> None)"

definition transactionBankAccount :: "int \<Rightarrow> bank_account list \<Rightarrow> bank_account result" where
  "transactionBankAccount accountId bankAccounts =
     or_throw (find (\<lambda>a. acc_id a = accountId) bankAccounts) (AccountNotFound accountId)"

definition transactionBank :: "int \<Rightarrow> bank list \<Rightarrow> bank_account list \<Rightarrow> bank result" where
  "transactionBank accountId banks bankAccounts =
     bind_result (transactionBankAccount accountId bankAccounts) (\<lambda>account. accountBank account banks)"

definition transactionUnit :: "cash_flow \<Rightarrow> bank_account list \<Rightarrow> stock list \<Rightarrow> unit_of_account result" where
  "transactionUnit t bankAccounts stocks =
     (case t of
        FlowPersonal p \<Rightarrow>
          bind_result (transactionBankAccount (pe_accountId p) bankAccounts) (\<lambda>a. accountUnit a stocks)
      | FlowIncome i \<Rightarrow>
          bind_result (transactionBankAccount (in_accountId i) bankAccounts) (\<lambda>a. accountUnit a stocks)
      | FlowThirdParty e \<Rightarrow> map_sum id UnitCurrency (mustFindByCode (tp_currencyCode e)))"

definition transactionTags :: "transaction \<Rightarrow> tag list \<Rightarrow> tag list result" where
  "transactionTags t allTags =
     (case tx_tagsIds t of None \<Rightarrow> Inr [] | Some ids \<Rightarrow> map_result (\<lambda>i. mustFindTag i allTags) ids)"

definition transactionTrip :: "cash_flow \<Rightarrow> trip list \<Rightarrow> trip option" where
  "transactionTrip t allTrips = find (\<lambda>trip. Some (trip_id trip) = flow_tripId t) allTrips"

definition isPersonalExpense :: "transaction \<Rightarrow> bool" where
  "isPersonalExpense t = (case t of PersonalExpense _ \<Rightarrow> True | _ \<Rightarrow> False)"

definition isThirdPartyExpense :: "transaction \<Rightarrow> bool" where
  "isThirdPartyExpense t = (case t of ThirdPartyExpense _ \<Rightarrow> True | _ \<Rightarrow> False)"

definition isExpense :: "transaction \<Rightarrow> bool" where
  "isExpense t \<longleftrightarrow> isPersonalExpense t \<or> isThirdPartyExpense t"

definition isTransfer :: "transaction \<Rightarrow> bool" where
  "isTransfer t = (case t of Transfer _ \<Rightarrow> True | _ \<Rightarrow> False)"

definition isIncome :: "transaction \<Rightarrow> bool" where
  "isIncome t = (case t of Income _ \<Rightarrow> True | _ \<Rightarrow> False)"

definition isOpeningBalance :: "transaction \<Rightarrow> bool" where
  "isOpeningBalance t = (case t of OpeningBalance _ \<Rightarrow> True | _ \<Rightarrow> False)"

lemma kind_simps [simp]:
  "isPersonalExpense (PersonalExpense p)" "\<not> isPersonalExpense (ThirdPartyExpense e)"
  "\<not> isPersonalExpense (Transfer f)" "\<not> isPersonalExpense (Income i)" "\<not> isPersonalExpense (OpeningBalance b)"
  "\<not> isThirdPartyExpense (PersonalExpense p)" "isThirdPartyExpense (ThirdPartyExpense e)"
  "\<not> isThirdPartyExpense (Transfer f)" "\<not> isThirdPartyExpense (Income i)" "\<not> isThirdPartyExpense (OpeningBalance b)"
  "\<not> isTransfer (PersonalExpense p)" "\<not> isTransfer (ThirdPartyExpense e)" "isTransfer (Transfer f)"
  "\<not> isTransfer (Income i)" "\<not> isTransfer (OpeningBalance b)"
  "\<not> isIncome (PersonalExpense p)" "\<not> isIncome (ThirdPartyExpense e)" "\<not> isIncome (Transfer f)"
  "isIncome (Income i)" "\<not> isIncome (OpeningBalance b)"
  "\<not> isOpeningBalance (PersonalExpense p)" "\<not> isOpeningBalance (ThirdPartyExpense e)"
  "\<not> isOpeningBalance (Transfer f)" "\<not> isOpeningBalance (Income i)" "isOpeningBalance (OpeningBalance b)"
  by (simp_all add: isPersonalExpense_def isThirdPartyExpense_def isTransfer_def isIncome_def isOpeningBalance_def)

lemma isExpense_simps [simp]:
  "isExpense (PersonalExpense p)" "isExpense (ThirdPartyExpense e)" "\<not> isExpense (Transfer f)"
  "\<not> isExpense (Income i)" "\<not> isExpense (OpeningBalance b)"
  by (simp_all add: isExpense_def)

definition otherPartyName :: "cash_flow \<Rightarrow> string option" where
  "otherPartyName t = (case flow_companions t of [] \<Rightarrow> None | c # _ \<Rightarrow> Some (comp_name c))"

definition otherPartyNameOrNull :: "transaction \<Rightarrow> string option" where
  "otherPartyNameOrNull t = (case flow_of t of Some f \<Rightarrow> otherPartyName f | None \<Rightarrow> None)"

definition transactionCategory :: "transaction \<Rightarrow> category list \<Rightarrow> category result" where
  "transactionCategory t allCategories =
     (case tx_categoryId t of
        None \<Rightarrow> Inl (OpeningBalanceHasNoCategory (tx_id t))
      | Some cid \<Rightarrow> or_throw (find (\<lambda>c. cat_id c = cid) allCategories) (CategoryNotFound cid))"

definition paidTotal :: "cash_flow \<Rightarrow> bank_account list \<Rightarrow> stock list \<Rightarrow> amount_with_unit result" where
  "paidTotal t bankAccounts stocks =
     bind_result (transactionUnit t bankAccounts stocks) (\<lambda>u. Inr (mk_awu (flow_amountNanos t) u))"

definition ownShareAmountNanosIgnoreRefunds :: "cash_flow \<Rightarrow> int" where
  "ownShareAmountNanosIgnoreRefunds t =
     (let otherPartiesAmountNanos = foldl (+) 0 (map comp_amountNanos (flow_companions t))
      in flow_amountNanos t - otherPartiesAmountNanos)"

definition ownShareAmountIgnoreRefunds ::
  "cash_flow \<Rightarrow> bank_account list \<Rightarrow> stock list \<Rightarrow> amount_with_unit result" where
  "ownShareAmountIgnoreRefunds t bankAccounts stocks =
     bind_result (transactionUnit t bankAccounts stocks)
       (\<lambda>u. Inr (mk_awu (ownShareAmountNanosIgnoreRefunds t) u))"

definition tx_formatAmount ::
  "(string option \<Rightarrow> string \<Rightarrow> nat \<Rightarrow> rat \<Rightarrow> string) \<Rightarrow> (nat \<Rightarrow> rat \<Rightarrow> string) \<Rightarrow>
     personal_expense \<Rightarrow> bank_account list \<Rightarrow> stock list \<Rightarrow> string result" where
  "tx_formatAmount intlCurrency intl t bankAccounts stocks =
     bind_result (transactionBankAccount (pe_accountId t) bankAccounts) (\<lambda>account.
     bind_result (accountUnit account stocks) (\<lambda>u.
       Inr (awu_format intlCurrency intl (mk_awu (pe_amountNanos t) u))))"

section \<open>Transfers and opening balances\<close>

definition outgoingBankAccount :: "transfer \<Rightarrow> bank_account list \<Rightarrow> bank_account result" where
  "outgoingBankAccount t bankAccounts =
     or_throw (find (\<lambda>a. acc_id a = tr_fromAccountId t) bankAccounts) (AccountNotFound (tr_fromAccountId t))"

definition incomingBankAccount :: "transfer \<Rightarrow> bank_account list \<Rightarrow> bank_account result" where
  "incomingBankAccount t bankAccounts =
     or_throw (find (\<lambda>a. acc_id a = tr_toAccountId t) bankAccounts) (AccountNotFound (tr_toAccountId t))"

definition outgoingBank :: "transfer \<Rightarrow> bank list \<Rightarrow> bank_account list \<Rightarrow> bank result" where
  "outgoingBank t banks bankAccounts =
     bind_result (outgoingBankAccount t bankAccounts) (\<lambda>account. accountBank account banks)"

definition incomingBank :: "transfer \<Rightarrow> bank list \<Rightarrow> bank_account list \<Rightarrow> bank result" where
  "incomingBank t banks bankAccounts =
     bind_result (incomingBankAccount t bankAccounts) (\<lambda>account. accountBank account banks)"

definition amountReceived :: "transfer \<Rightarrow> bank_account list \<Rightarrow> stock list \<Rightarrow> amount_with_unit result" where
  "amountReceived t bankAccounts stocks =
     bind_result (incomingBankAccount t bankAccounts) (\<lambda>account.
     bind_result (accountUnit account stocks) (\<lambda>u. Inr (mk_awu (tr_receivedAmountNanos t) u)))"

definition amountSent :: "transfer \<Rightarrow> bank_account list \<Rightarrow> stock list \<Rightarrow> amount_with_unit result" where
  "amountSent t bankAccounts stocks =
     bind_result (outgoingBankAccount t bankAccounts) (\<lambda>account.
     bind_result (accountUnit account stocks) (\<lambda>u. Inr (mk_awu (tr_sentAmountNanos t) u)))"

definition openingBalanceAmount ::
  "opening_balance \<Rightarrow> bank_account list \<Rightarrow> stock list \<Rightarrow> amount_with_unit result" where
  "openingBalanceAmount t bankAccounts stocks =
     bind_result (mustFindBankAccount bankAccounts (ob_accountId t)) (\<lambda>account.
     bind_result (accountUnit account stocks) (\<lambda>u. Inr (mk_awu (ob_amountNanos t) u)))"

section \<open>Facts\<close>

lemma foldl_plus_sum_list: "foldl (+) (a :: int) xs = a + sum_list xs"
  by (induction xs arbitrary: a) auto

lemma ownShare_eq:
  "ownShareAmountNanosIgnoreRefunds t = flow_amountNanos t - (\<Sum>c \<leftarrow> flow_companions t. comp_amountNanos c)"
  by (simp add: ownShareAmountNanosIgnoreRefunds_def foldl_plus_sum_list)

lemma line_bankAccountId_Some:
  "line_bankAccountId accounts l = Some i \<longleftrightarrow>
     (\<exists>a. jm_get accounts (line_ledgerAccountId l) = Some a \<and> la_bankAccountId a = Some i \<and> i \<noteq> 0)"
  by (auto simp: line_bankAccountId_def bind_eq_Some_conv)

lemma ledger_map_get:
  "jm_get (ledger_map las) i = find (\<lambda>a. la_id a = i) (rev las)"
  by (simp add: ledger_map_def jm_get_index option.map_ident)

text \<open>What a well-formed ledger entry looks like for each type of transaction.\<close>

definition asset_line :: "ledger_account list \<Rightarrow> entry_line \<Rightarrow> int \<Rightarrow> bool" where
  "asset_line las l accountId \<longleftrightarrow>
     (\<exists>a. find (\<lambda>a. la_id a = line_ledgerAccountId l) (rev las) = Some a \<and>
        la_type a = LA_ASSET \<and> la_bankAccountId a = Some accountId \<and> accountId \<noteq> 0)"

lemma found_asset_line:
  assumes "account_has_type (ledger_map las) LA_ASSET l"
    and "line_bankAccountId (ledger_map las) l = Some i"
  shows "asset_line las l i"
  using assms unfolding asset_line_def account_has_type_def line_bankAccountId_Some ledger_map_get by auto

lemma find_filter_Some: "find Q (filter P xs) = Some x \<Longrightarrow> x \<in> set xs \<and> P x \<and> Q x"
  by (induction xs) (auto split: if_splits)

lemma transferFromDB_lemma:
  assumes "transactionModelFromDB init las = Inr (Transfer t)"
  shows "\<exists>out inn. out \<in> set (ptx_lines init) \<and> inn \<in> set (ptx_lines init) \<and>
    asset_line las out (tr_fromAccountId t) \<and> asset_line las inn (tr_toAccountId t) \<and>
    tr_sentAmountNanos t = - line_amountNanos out \<and> tr_receivedAmountNanos t = line_amountNanos inn \<and>
    0 < tr_sentAmountNanos t \<and> 0 < tr_receivedAmountNanos t"
proof -
  have "transferFromDB init (ledger_map las) = Inr t"
    using assms by (auto simp: transactionModelFromDB_def result_simps Let_def split: pb_transaction_type.splits)
  then obtain out inn where out: "find (\<lambda>l. line_amountNanos l < 0)
        (filter (account_has_type (ledger_map las) LA_ASSET) (ptx_lines init)) = Some out"
      "line_bankAccountId (ledger_map las) out = Some (tr_fromAccountId t)"
      "tr_sentAmountNanos t = - line_amountNanos out"
    and inn: "find (\<lambda>l. line_amountNanos l > 0)
        (filter (account_has_type (ledger_map las) LA_ASSET) (ptx_lines init)) = Some inn"
      "line_bankAccountId (ledger_map las) inn = Some (tr_toAccountId t)"
      "tr_receivedAmountNanos t = line_amountNanos inn"
    by (auto simp: transferFromDB_def result_simps Let_def split: if_splits)
  show ?thesis
    using find_filter_Some [OF out(1)] find_filter_Some [OF inn(1)] out inn found_asset_line
    by (intro exI [of _ out] exI [of _ inn]) auto
qed

lemma personalExpenseFromDB_lemma:
  assumes "transactionModelFromDB init las = Inr (PersonalExpense t)"
  shows "\<exists>l. l \<in> set (ptx_lines init) \<and> asset_line las l (pe_accountId t) \<and>
    pe_amountNanos t = - line_amountNanos l"
proof -
  have "personalExpenseFromDB init (ledger_map las) = Inr t"
    using assms by (auto simp: transactionModelFromDB_def result_simps Let_def split: pb_transaction_type.splits)
  then obtain l where "find (account_has_type (ledger_map las) LA_ASSET) (ptx_lines init) = Some l"
      "line_bankAccountId (ledger_map las) l = Some (pe_accountId t)" "pe_amountNanos t = - line_amountNanos l"
    by (auto simp: personalExpenseFromDB_def result_simps)
  then show ?thesis using find_eq_key_Some found_asset_line by metis
qed

lemma incomeFromDB_lemma:
  assumes "transactionModelFromDB init las = Inr (Income t)"
  shows "\<exists>l. l \<in> set (ptx_lines init) \<and> asset_line las l (in_accountId t) \<and>
    in_amountNanos t = line_amountNanos l"
proof -
  have "incomeFromDB init (ledger_map las) = Inr t"
    using assms by (auto simp: transactionModelFromDB_def result_simps Let_def split: pb_transaction_type.splits)
  then obtain l where "find (account_has_type (ledger_map las) LA_ASSET) (ptx_lines init) = Some l"
      "line_bankAccountId (ledger_map las) l = Some (in_accountId t)" "in_amountNanos t = line_amountNanos l"
    by (auto simp: incomeFromDB_def result_simps)
  then show ?thesis using find_eq_key_Some found_asset_line by metis
qed

lemma openingBalanceFromDB_lemma:
  assumes "transactionModelFromDB init las = Inr (OpeningBalance t)"
  shows "\<exists>l. l \<in> set (ptx_lines init) \<and> asset_line las l (ob_accountId t) \<and>
    ob_amountNanos t = line_amountNanos l \<and>
    (\<forall>k \<in> set (ptx_lines init). account_has_type (ledger_map las) LA_ASSET k \<longrightarrow> k = l)"
proof -
  have "openingBalanceFromDB init (ledger_map las) = Inr t"
    using assms by (auto simp: transactionModelFromDB_def result_simps Let_def split: pb_transaction_type.splits)
  then obtain ls where ls: "filter_result (\<lambda>l.
        bind_result (mustFindLedgerAccount (ledger_map las) (line_ledgerAccountId l)) (\<lambda>acct.
           Inr (la_type acct = LA_ASSET))) (ptx_lines init) = Inr ls" "length ls = 1"
      "line_bankAccountId (ledger_map las) (ls ! 0) = Some (ob_accountId t)"
      "ob_amountNanos t = line_amountNanos (ls ! 0)"
    by (auto simp: openingBalanceFromDB_def findAssetLineAndAccount_def mustFindLedgerAccount_def
        line_bankAccountId_def result_simps Let_def split: if_splits)
  have "ls = filter (account_has_type (ledger_map las) LA_ASSET) (ptx_lines init)"
    using filter_result_Inr [OF ls(1)]
    by (auto simp: account_has_type_def mustFindLedgerAccount_def result_simps or_throw_def
        intro!: filter_cong split: option.splits)
  moreover obtain l where l1: "ls = [l]" using ls(2) by (auto simp: length_Suc_conv)
  ultimately have l: "filter (account_has_type (ledger_map las) LA_ASSET) (ptx_lines init) = [l]" by simp
  have l0: "ls ! 0 = l" by (simp only: l1 nth_Cons_0)
  have mem: "set (filter (account_has_type (ledger_map las) LA_ASSET) (ptx_lines init)) = {l}"
    unfolding l by simp
  show ?thesis
    using mem ls(3,4) l0 found_asset_line by (intro exI [of _ l]) auto
qed

text \<open>The kind of the client's transaction is decided by the type of the ledger's.\<close>

fun kind_of_type :: "pb_transaction_type \<Rightarrow> transaction \<Rightarrow> bool" where
  "kind_of_type T_EXPENSE t = isPersonalExpense t"
| "kind_of_type T_THIRD_PARTY_EXPENSE t = isThirdPartyExpense t"
| "kind_of_type T_TRANSFER t = isTransfer t"
| "kind_of_type T_INCOME t = isIncome t"
| "kind_of_type T_OPENING_BALANCE t = isOpeningBalance t"
| "kind_of_type T_UNSPECIFIED t = False"

lemma transactionModelFromDB_kind:
  assumes "transactionModelFromDB init las = Inr t"
  shows "kind_of_type (ptx_type init) t \<and> tx_id t = ptx_id init \<and>
    timestampToEpoch (ptx_timestamp init) = Inr (tx_timestampEpoch t) \<and>
    (\<not> isOpeningBalance t \<longrightarrow> tx_categoryId t = ptx_categoryId init \<and> ptx_categoryId init \<noteq> Some 0 \<and>
       tx_tagsIds t = Some (ptx_tagIds init))"
proof (cases "ptx_type init")
  case T_OPENING_BALANCE
  then show ?thesis using assms
    by (auto simp: transactionModelFromDB_def openingBalanceFromDB_def result_simps Let_def
        split: prod.splits)
qed (use assms in \<open>auto simp: transactionModelFromDB_def incomeFromDB_def personalExpenseFromDB_def
    thirdPartyExpenseFromDB_def transferFromDB_def result_simps Let_def split: if_splits\<close>)

section \<open>Properties\<close>

text \<open>Sample transactions the witnesses use, and the ledger the wire transactions refer to.\<close>

definition sample_income :: income where
  "sample_income = \<lparr>in_id = 2, in_timestampEpoch = 1000, in_payer = ''Employer'', in_amountNanos = 300,
     in_companions = [], in_note = ''Salary'', in_accountId = 7, in_categoryId = 1, in_tagsIds = [],
     in_tripId = None\<rparr>"

definition sample_expense :: personal_expense where
  "sample_expense = \<lparr>pe_id = 1, pe_timestampEpoch = 2000, pe_vendor = ''Shop'', pe_amountNanos = 100,
     pe_companions = [], pe_note = '''', pe_accountId = 7, pe_categoryId = 1, pe_tagsIds = [],
     pe_tripId = None, pe_refundGroupTransactionIds = []\<rparr>"

definition sample_ledger :: "ledger_account list" where
  "sample_ledger = [\<lparr>la_id = 10, la_type = LA_ASSET, la_bankAccountId = Some 7\<rparr>,
     \<lparr>la_id = 11, la_type = LA_ASSET, la_bankAccountId = Some 8\<rparr>,
     \<lparr>la_id = 12, la_type = LA_EXPENSE, la_bankAccountId = None\<rparr>]"

definition sample_pb_transfer :: pb_transaction where
  "sample_pb_transfer = \<lparr>ptx_id = 3, ptx_iid = 3, ptx_timestamp = Some \<lparr>ts_seconds = 5, ts_nanos = 0\<rparr>,
     ptx_note = '''', ptx_type = T_TRANSFER, ptx_vendor = None, ptx_payer = None, ptx_categoryId = Some 1,
     ptx_tripId = None, ptx_supersedesId = None, ptx_isVoid = False, ptx_tagIds = [],
     ptx_lines = [\<lparr>line_ledgerAccountId = 10, line_currencyCode = None, line_amountNanos = - 50\<rparr>,
       \<lparr>line_ledgerAccountId = 11, line_currencyCode = None, line_amountNanos = 40\<rparr>], ptx_splits = []\<rparr>"

lemma sample_transfer_read:
  "transactionModelFromDB sample_pb_transfer sample_ledger =
     Inr (Transfer \<lparr>tr_id = 3, tr_timestampEpoch = 5000, tr_fromAccountId = 7, tr_toAccountId = 8,
       tr_sentAmountNanos = 50, tr_receivedAmountNanos = 40, tr_note = '''', tr_categoryId = 1, tr_tagsIds = []\<rparr>)"
  by code_simp

text \<open>
  Reading a transfer. A transfer comes from two asset lines of the ledger: what was sent is
  taken from a line that debits the asset account of the sending bank account, what was received
  from a line that credits the one of the receiving account; both amounts are positive.
\<close>
theorem transfer_from_ledger:
  assumes "transactionModelFromDB init las = Inr (Transfer t)"
  shows "\<exists>out inn. out \<in> set (ptx_lines init) \<and> inn \<in> set (ptx_lines init) \<and>
    asset_line las out (tr_fromAccountId t) \<and> asset_line las inn (tr_toAccountId t) \<and>
    tr_sentAmountNanos t = - line_amountNanos out \<and> tr_receivedAmountNanos t = line_amountNanos inn \<and>
    0 < tr_sentAmountNanos t \<and> 0 < tr_receivedAmountNanos t"
  by (rule transferFromDB_lemma [OF assms])

theorem transfer_from_ledger_witness:
  "\<exists>out. out \<in> set (ptx_lines sample_pb_transfer) \<and> asset_line sample_ledger out 7 \<and> line_amountNanos out = - 50"
  using transfer_from_ledger [OF sample_transfer_read] by force

text \<open>
  C33: the kind of a transaction. The model of a transaction has the kind its wire type names and
  keeps its id, time and, for all kinds but an opening balance, its category and tags; an unknown
  type never yields a transaction.
\<close>
theorem transaction_kind:
  assumes "transactionModelFromDB init las = Inr t"
  shows "kind_of_type (ptx_type init) t \<and> tx_id t = ptx_id init \<and>
    timestampToEpoch (ptx_timestamp init) = Inr (tx_timestampEpoch t) \<and>
    (\<not> isOpeningBalance t \<longrightarrow> tx_categoryId t = ptx_categoryId init \<and> ptx_categoryId init \<noteq> Some 0 \<and>
       tx_tagsIds t = Some (ptx_tagIds init))"
  by (rule transactionModelFromDB_kind [OF assms])

theorem transaction_kind_witness:
  "ptx_type sample_pb_transfer = T_TRANSFER \<and> timestampToEpoch (ptx_timestamp sample_pb_transfer) = Inr 5000"
  using transaction_kind [OF sample_transfer_read] by (simp add: sample_pb_transfer_def)

text \<open>
  Reading an opening balance. It comes from the only asset line of the ledger entry, with that
  line's amount and the bank account of its ledger account.
\<close>
theorem opening_balance_from_ledger:
  assumes "transactionModelFromDB init las = Inr (OpeningBalance t)"
  shows "\<exists>l. l \<in> set (ptx_lines init) \<and> asset_line las l (ob_accountId t) \<and>
    ob_amountNanos t = line_amountNanos l \<and>
    (\<forall>k \<in> set (ptx_lines init). account_has_type (ledger_map las) LA_ASSET k \<longrightarrow> k = l)"
  by (rule openingBalanceFromDB_lemma [OF assms])

theorem opening_balance_from_ledger_witness:
  "\<exists>l. asset_line sample_ledger l 7 \<and> line_amountNanos l = 90"
proof -
  let ?init = "sample_pb_transfer\<lparr>ptx_type := T_OPENING_BALANCE,
    ptx_lines := [\<lparr>line_ledgerAccountId = 10, line_currencyCode = None, line_amountNanos = 90\<rparr>]\<rparr>"
  have "transactionModelFromDB ?init sample_ledger = Inr (OpeningBalance
      \<lparr>ob_id = 3, ob_timestampEpoch = 5000, ob_amountNanos = 90, ob_accountId = 7\<rparr>)"
    by code_simp
  from opening_balance_from_ledger [OF this] show ?thesis by fastforce
qed

end
