(* ===== verification/Links.thy ===== *)
theory Links
  imports Transactions
begin

text \<open>
  Links between transactions: \<open>lib/model/TransactionLink.tsx\<close>. Refunds and settled debts are
  gathered in two insertion-ordered maps keyed by the source transaction; \<open>link_step\<close> is one round
  of the loop over the links of the database.
\<close>

section \<open>Data\<close>

datatype pb_link_type = L_UNSPECIFIED | L_REFUND | L_DEBT_SETTLING

record pb_transaction_link =
  lnk_id :: int
  lnk_sourceTransactionId :: int
  lnk_linkedTransactionId :: int
  lnk_linkType :: pb_link_type

record debt_settling =
  ds_id :: int
  ds_expense :: third_party_expense
  ds_repayment :: personal_expense

record refund =
  rf_id :: int
  rf_expense :: transaction
  rf_refunds :: "income list"

datatype transaction_link = DebtSettling debt_settling | Refund refund

type_synonym tx_index = "(int, transaction) js_map"
type_synonym link_maps = "(int, refund) js_map \<times> (int, debt_settling) js_map"

section \<open>Operations\<close>

definition supersededIds :: "pb_transaction list \<Rightarrow> int list" where
  "supersededIds dbTransactions = js_set (List.map_filter (\<lambda>t. truthy_id (ptx_supersedesId t)) dbTransactions)"

definition tx_by_id :: "transaction list \<Rightarrow> tx_index" where
  "tx_by_id txs = jm_of_entries (map (\<lambda>t. (tx_id t, t)) txs)"

definition findSourceAndLinked :: "pb_transaction_link \<Rightarrow> tx_index \<Rightarrow> (transaction \<times> transaction) result" where
  "findSourceAndLinked dbLink transactionById =
     bind_result (or_throw (jm_get transactionById (lnk_sourceTransactionId dbLink))
       (LinkSourceNotFound (lnk_id dbLink))) (\<lambda>source.
     bind_result (or_throw (jm_get transactionById (lnk_linkedTransactionId dbLink))
       (LinkLinkedNotFound (lnk_id dbLink))) (\<lambda>linked.
     Inr (source, linked)))"

definition refund_step ::
  "pb_transaction_link \<Rightarrow> transaction \<Rightarrow> transaction \<Rightarrow> (int, refund) js_map \<Rightarrow> (int, refund) js_map result" where
  "refund_step l source linked refunds =
     bind_result
       (case jm_get refunds (tx_id source) of
          Some refund \<Rightarrow> Inr refund
        | None \<Rightarrow>
          if \<not> isExpense source then Inl (RefundSourceNotExpense (lnk_id l))
          else Inr \<lparr>rf_id = lnk_id l, rf_expense = source, rf_refunds = []\<rparr>) (\<lambda>refund.
     case linked of
       Income i \<Rightarrow> Inr (jm_set (tx_id source) (refund\<lparr>rf_refunds := rf_refunds refund @ [i]\<rparr>) refunds)
     | _ \<Rightarrow> Inl (RefundLinkedNotIncome (lnk_id l)))"

definition debt_step ::
  "pb_transaction_link \<Rightarrow> transaction \<Rightarrow> transaction \<Rightarrow> (int, debt_settling) js_map \<Rightarrow>
     (int, debt_settling) js_map result" where
  "debt_step l source linked debts =
     (case source of
        ThirdPartyExpense e \<Rightarrow>
          (case linked of
             PersonalExpense p \<Rightarrow>
               Inr (jm_set (tx_id source) \<lparr>ds_id = lnk_id l, ds_expense = e, ds_repayment = p\<rparr> debts)
           | _ \<Rightarrow> Inl (DebtLinkedNotPersonal (lnk_id l)))
      | _ \<Rightarrow> Inl (DebtSourceNotThirdParty (lnk_id l)))"

definition link_is_superseded :: "int list \<Rightarrow> pb_transaction_link \<Rightarrow> bool" where
  "link_is_superseded superseded l \<longleftrightarrow>
     lnk_sourceTransactionId l \<in> set superseded \<or> lnk_linkedTransactionId l \<in> set superseded"

definition link_step :: "int list \<Rightarrow> tx_index \<Rightarrow> link_maps \<Rightarrow> pb_transaction_link \<Rightarrow> link_maps result" where
  "link_step superseded byId maps l =
     (let (refunds, debts) = maps
      in if link_is_superseded superseded l then Inr (refunds, debts)
         else bind_result (findSourceAndLinked l byId) (\<lambda>(source, linked).
           case lnk_linkType l of
             L_REFUND \<Rightarrow> bind_result (refund_step l source linked refunds) (\<lambda>r. Inr (r, debts))
           | L_DEBT_SETTLING \<Rightarrow> bind_result (debt_step l source linked debts) (\<lambda>d. Inr (refunds, d))
           | L_UNSPECIFIED \<Rightarrow> Inr (refunds, debts)))"

definition transactionLinkModelFromDB ::
  "pb_transaction_link list \<Rightarrow> transaction list \<Rightarrow> pb_transaction list \<Rightarrow> transaction_link list result" where
  "transactionLinkModelFromDB dbLinks allTransactions dbTransactions =
     (let superseded = supersededIds dbTransactions;
          transactionById = tx_by_id allTransactions
      in bind_result (fold_result (link_step superseded transactionById) ([], []) dbLinks)
           (\<lambda>(refunds, debts). Inr (map Refund (jm_values refunds) @ map DebtSettling (jm_values debts))))"

section \<open>What the links say\<close>

lemma tx_by_id_Some: "jm_get (tx_by_id txs) i = Some t \<Longrightarrow> t \<in> set txs \<and> tx_id t = i"
  by (auto simp: tx_by_id_def jm_get_index dest: find_eq_key_Some)

lemma set_map_filter_iff: "set (List.map_filter f xs) = {y. \<exists>x \<in> set xs. f x = Some y}"
  by (induction xs) (auto simp: List.map_filter_def)

lemma set_supersededIds:
  "set (supersededIds txs) = {i. i \<noteq> 0 \<and> (\<exists>t \<in> set txs. ptx_supersedesId t = Some i)}"
  by (auto simp: supersededIds_def set_map_filter_iff)

text \<open>The links that count for a source, and the refund or debt they stand for.\<close>

definition links_for :: "pb_link_type \<Rightarrow> int list \<Rightarrow> pb_transaction_link list \<Rightarrow> int \<Rightarrow> pb_transaction_link list" where
  "links_for ty superseded links k =
     filter (\<lambda>l. \<not> link_is_superseded superseded l \<and> lnk_linkType l = ty \<and> lnk_sourceTransactionId l = k) links"

definition linked_income :: "tx_index \<Rightarrow> pb_transaction_link \<Rightarrow> income option" where
  "linked_income byId l =
     (case jm_get byId (lnk_linkedTransactionId l) of Some (Income i) \<Rightarrow> Some i | _ \<Rightarrow> None)"

definition refund_ok :: "tx_index \<Rightarrow> pb_transaction_link list \<Rightarrow> int \<Rightarrow> refund \<Rightarrow> bool" where
  "refund_ok byId ls k r \<longleftrightarrow> ls \<noteq> [] \<and> rf_id r = lnk_id (hd ls) \<and>
     jm_get byId k = Some (rf_expense r) \<and> isExpense (rf_expense r) \<and>
     map Some (rf_refunds r) = map (linked_income byId) ls"

definition debt_ok :: "tx_index \<Rightarrow> pb_transaction_link list \<Rightarrow> int \<Rightarrow> debt_settling \<Rightarrow> bool" where
  "debt_ok byId ls k d \<longleftrightarrow> ls \<noteq> [] \<and> ds_id d = lnk_id (last ls) \<and>
     jm_get byId k = Some (ThirdPartyExpense (ds_expense d)) \<and>
     jm_get byId (lnk_linkedTransactionId (last ls)) = Some (PersonalExpense (ds_repayment d))"

definition maps_ok :: "int list \<Rightarrow> tx_index \<Rightarrow> pb_transaction_link list \<Rightarrow> link_maps \<Rightarrow> bool" where
  "maps_ok superseded byId links maps \<longleftrightarrow>
     jm_ok (fst maps) \<and> jm_ok (snd maps) \<and>
     (\<forall>k. case jm_get (fst maps) k of
            None \<Rightarrow> links_for L_REFUND superseded links k = []
          | Some r \<Rightarrow> refund_ok byId (links_for L_REFUND superseded links k) k r) \<and>
     (\<forall>k. case jm_get (snd maps) k of
            None \<Rightarrow> links_for L_DEBT_SETTLING superseded links k = []
          | Some d \<Rightarrow> debt_ok byId (links_for L_DEBT_SETTLING superseded links k) k d)"

lemma links_for_snoc:
  "links_for ty superseded (links @ [l]) k = links_for ty superseded links k @
     (if \<not> link_is_superseded superseded l \<and> lnk_linkType l = ty \<and> lnk_sourceTransactionId l = k then [l] else [])"
  by (simp add: links_for_def)

lemma refund_step_ok:
  assumes inv: "\<forall>k. case jm_get refunds k of
            None \<Rightarrow> links_for L_REFUND superseded links k = []
          | Some r \<Rightarrow> refund_ok byId (links_for L_REFUND superseded links k) k r"
    and l: "\<not> link_is_superseded superseded l" "lnk_linkType l = L_REFUND"
    and found: "jm_get byId (lnk_sourceTransactionId l) = Some source"
      "jm_get byId (lnk_linkedTransactionId l) = Some linked"
    and id: "tx_id source = lnk_sourceTransactionId l"
    and step: "refund_step l source linked refunds = Inr refunds'"
  shows "case jm_get refunds' k of
            None \<Rightarrow> links_for L_REFUND superseded (links @ [l]) k = []
          | Some r \<Rightarrow> refund_ok byId (links_for L_REFUND superseded (links @ [l]) k) k r"
proof -
  obtain r i where r: "(case jm_get refunds (tx_id source) of
          Some refund \<Rightarrow> Inr refund
        | None \<Rightarrow>
          if \<not> isExpense source then Inl (RefundSourceNotExpense (lnk_id l))
          else Inr \<lparr>rf_id = lnk_id l, rf_expense = source, rf_refunds = []\<rparr>) = Inr r"
      and i: "linked = Income i"
      and refunds': "refunds' = jm_set (tx_id source) (r\<lparr>rf_refunds := rf_refunds r @ [i]\<rparr>) refunds"
    using step by (cases linked) (auto simp: refund_step_def result_simps)
  have inc: "linked_income byId l = Some i" using found i by (simp add: linked_income_def)
  show ?thesis
  proof (cases "k = lnk_sourceTransactionId l")
    case True
    have "refund_ok byId (links_for L_REFUND superseded links k @ [l]) k (r\<lparr>rf_refunds := rf_refunds r @ [i]\<rparr>)"
      using r inv [rule_format, of k] found True id inc
      by (auto simp: refund_ok_def split: option.splits if_splits)
    then show ?thesis using True l id by (simp add: refunds' links_for_snoc)
  next
    case False
    then show ?thesis using inv [rule_format, of k] id
      by (simp add: refunds' links_for_snoc cong: option.case_cong)
  qed
qed

lemma debt_step_ok:
  assumes inv: "\<forall>k. case jm_get debts k of
            None \<Rightarrow> links_for L_DEBT_SETTLING superseded links k = []
          | Some d \<Rightarrow> debt_ok byId (links_for L_DEBT_SETTLING superseded links k) k d"
    and l: "\<not> link_is_superseded superseded l" "lnk_linkType l = L_DEBT_SETTLING"
    and found: "jm_get byId (lnk_sourceTransactionId l) = Some source"
      "jm_get byId (lnk_linkedTransactionId l) = Some linked"
    and id: "tx_id source = lnk_sourceTransactionId l"
    and step: "debt_step l source linked debts = Inr debts'"
  shows "case jm_get debts' k of
            None \<Rightarrow> links_for L_DEBT_SETTLING superseded (links @ [l]) k = []
          | Some d \<Rightarrow> debt_ok byId (links_for L_DEBT_SETTLING superseded (links @ [l]) k) k d"
proof -
  obtain e p where ep: "source = ThirdPartyExpense e" "linked = PersonalExpense p"
      "debts' = jm_set (tx_id source) \<lparr>ds_id = lnk_id l, ds_expense = e, ds_repayment = p\<rparr> debts"
    using step by (auto simp: debt_step_def split: transaction.splits)
  show ?thesis
  proof (cases "k = lnk_sourceTransactionId l")
    case True
    then show ?thesis using ep l id found by (simp add: links_for_snoc debt_ok_def)
  next
    case False
    then show ?thesis using inv [rule_format, of k] id unfolding ep(3)
      by (simp add: links_for_snoc cong: option.case_cong)
  qed
qed

lemma jm_ok_refund_step: "refund_step l s t m = Inr m' \<Longrightarrow> jm_ok m \<Longrightarrow> jm_ok m'"
  by (cases t) (auto simp: refund_step_def result_simps)

lemma jm_ok_debt_step: "debt_step l s t m = Inr m' \<Longrightarrow> jm_ok m \<Longrightarrow> jm_ok m'"
  by (auto simp: debt_step_def split: transaction.splits)

lemma link_step_ok:
  assumes inv: "maps_ok superseded (tx_by_id txs) links maps"
    and step: "link_step superseded (tx_by_id txs) maps l = Inr maps'"
  shows "maps_ok superseded (tx_by_id txs) (links @ [l]) maps'"
proof (cases "link_is_superseded superseded l")
  case True
  then have "maps' = maps" using step by (auto simp: link_step_def split: prod.splits)
  moreover have "links_for ty superseded (links @ [l]) = links_for ty superseded links" for ty
    using True by (auto simp: links_for_snoc)
  ultimately show ?thesis using inv by (simp add: maps_ok_def cong: option.case_cong)
next
  case False
  obtain refunds debts where maps: "maps = (refunds, debts)" by (cases maps)
  obtain source linked where found: "jm_get (tx_by_id txs) (lnk_sourceTransactionId l) = Some source"
      "jm_get (tx_by_id txs) (lnk_linkedTransactionId l) = Some linked"
    and cont: "(case lnk_linkType l of
             L_REFUND \<Rightarrow> bind_result (refund_step l source linked refunds) (\<lambda>r. Inr (r, debts))
           | L_DEBT_SETTLING \<Rightarrow> bind_result (debt_step l source linked debts) (\<lambda>d. Inr (refunds, d))
           | L_UNSPECIFIED \<Rightarrow> Inr (refunds, debts)) = Inr maps'"
    using step False by (auto simp: link_step_def maps findSourceAndLinked_def result_simps)
  have id: "tx_id source = lnk_sourceTransactionId l" using tx_by_id_Some [OF found(1)] by simp
  show ?thesis
  proof (cases "lnk_linkType l")
    case L_UNSPECIFIED
    then have "maps' = maps" using cont by (simp add: maps)
    moreover have "links_for L_REFUND superseded (links @ [l]) = links_for L_REFUND superseded links"
      "links_for L_DEBT_SETTLING superseded (links @ [l]) = links_for L_DEBT_SETTLING superseded links"
      using L_UNSPECIFIED by (auto simp: links_for_snoc)
    ultimately show ?thesis using inv by (simp add: maps_ok_def cong: option.case_cong)
  next
    case L_REFUND
    then obtain refunds' where r: "refund_step l source linked refunds = Inr refunds'" "maps' = (refunds', debts)"
      using cont by (auto simp: result_simps)
    have "links_for L_DEBT_SETTLING superseded (links @ [l]) = links_for L_DEBT_SETTLING superseded links"
      using L_REFUND by (auto simp: links_for_snoc)
    then show ?thesis
      using inv refund_step_ok [OF _ False L_REFUND found id r(1), of links] jm_ok_refund_step [OF r(1)]
      by (simp add: maps_ok_def maps r(2) cong: option.case_cong)
  next
    case L_DEBT_SETTLING
    then obtain debts' where d: "debt_step l source linked debts = Inr debts'" "maps' = (refunds, debts')"
      using cont by (auto simp: result_simps)
    have "links_for L_REFUND superseded (links @ [l]) = links_for L_REFUND superseded links"
      using L_DEBT_SETTLING by (auto simp: links_for_snoc)
    then show ?thesis
      using inv debt_step_ok [OF _ False L_DEBT_SETTLING found id d(1), of links] jm_ok_debt_step [OF d(1)]
      by (simp add: maps_ok_def maps d(2) cong: option.case_cong)
  qed
qed

lemma links_maps_ok:
  "fold_result (link_step superseded (tx_by_id txs)) ([], []) links = Inr maps \<Longrightarrow>
     maps_ok superseded (tx_by_id txs) links maps"
proof (induction links arbitrary: maps rule: rev_induct)
  case Nil
  then show ?case by (auto simp: maps_ok_def links_for_def)
next
  case (snoc l links)
  then show ?case by (auto simp: fold_result_append result_simps intro: link_step_ok)
qed

text \<open>
  The result lists a refund for every source with a live refund link, once, with the incomes of all
  these links in their order; and a settled debt for every source with a live settling link, by the
  last of these links.
\<close>

lemma transactionLinkModelFromDB_lemma:
  assumes "transactionLinkModelFromDB links txs db = Inr result"
  defines "superseded \<equiv> supersededIds db" and "byId \<equiv> tx_by_id txs"
  shows "Refund r \<in> set result \<longleftrightarrow>
      (\<exists>k. refund_ok byId (links_for L_REFUND superseded links k) k r)"
    and "DebtSettling d \<in> set result \<longleftrightarrow>
      (\<exists>k. debt_ok byId (links_for L_DEBT_SETTLING superseded links k) k d)"
proof -
  obtain refunds debts where fold: "fold_result (link_step superseded byId) ([], []) links = Inr (refunds, debts)"
    and result: "result = map Refund (jm_values refunds) @ map DebtSettling (jm_values debts)"
    using assms(1) by (auto simp: transactionLinkModelFromDB_def Let_def result_simps superseded_def byId_def)
  have ok: "maps_ok superseded byId links (refunds, debts)"
    using fold unfolding byId_def by (rule links_maps_ok)
  have okr: "case jm_get refunds k of None \<Rightarrow> links_for L_REFUND superseded links k = []
      | Some r \<Rightarrow> refund_ok byId (links_for L_REFUND superseded links k) k r" for k
    using ok by (simp add: maps_ok_def)
  have okd: "case jm_get debts k of None \<Rightarrow> links_for L_DEBT_SETTLING superseded links k = []
      | Some d \<Rightarrow> debt_ok byId (links_for L_DEBT_SETTLING superseded links k) k d" for k
    using ok by (simp add: maps_ok_def)
  have mem: "v \<in> set (jm_values m) \<longleftrightarrow> (\<exists>k. jm_get m k = Some v)" if "jm_ok m" for v and m :: "(int, 'v) js_map"
    using jm_entry_iff [OF that] by (force simp: jm_values_def image_iff)
  have r_unique: "r = r'" if "refund_ok byId ls k r" "refund_ok byId ls k r'" for ls k r r'
  proof -
    have "map Some (rf_refunds r) = map Some (rf_refunds r')" using that by (simp add: refund_ok_def)
    then have "rf_refunds r = rf_refunds r'" by (simp add: inj_map_eq_map)
    then show ?thesis using that by (cases r; cases r') (auto simp: refund_ok_def)
  qed
  have d_unique: "d = d'" if "debt_ok byId ls k d" "debt_ok byId ls k d'" for ls k d d'
    using that by (cases d; cases d') (auto simp: debt_ok_def)
  have "jm_get refunds k = Some r \<longleftrightarrow> refund_ok byId (links_for L_REFUND superseded links k) k r" for k
  proof (cases "jm_get refunds k")
    case None
    then have "links_for L_REFUND superseded links k = []" using okr [of k] by simp
    then show ?thesis using None by (simp add: refund_ok_def)
  next
    case (Some r')
    then have "refund_ok byId (links_for L_REFUND superseded links k) k r'"
      using okr [of k] by simp
    then show ?thesis using Some r_unique by auto
  qed
  then show "Refund r \<in> set result \<longleftrightarrow> (\<exists>k. refund_ok byId (links_for L_REFUND superseded links k) k r)"
    using mem [of refunds r] ok by (auto simp: result maps_ok_def)
  have "jm_get debts k = Some d \<longleftrightarrow> debt_ok byId (links_for L_DEBT_SETTLING superseded links k) k d" for k
  proof (cases "jm_get debts k")
    case None
    then have "links_for L_DEBT_SETTLING superseded links k = []" using okd [of k] by simp
    then show ?thesis using None by (simp add: debt_ok_def)
  next
    case (Some d')
    then have "debt_ok byId (links_for L_DEBT_SETTLING superseded links k) k d'"
      using okd [of k] by simp
    then show ?thesis using Some d_unique by auto
  qed
  then show "DebtSettling d \<in> set result \<longleftrightarrow> (\<exists>k. debt_ok byId (links_for L_DEBT_SETTLING superseded links k) k d)"
    using mem [of debts d] ok by (auto simp: result maps_ok_def)
qed

section \<open>Properties\<close>

text \<open>
  Transaction links. When \<open>transactionLinkModelFromDB\<close> returns, there is exactly one refund per
  expense that has a refund link none of whose ends is superseded: it has the id of the first such
  link and collects the incomes of all of them in order. There is one debt settling per third-party
  expense with a settling link, made from the last such link.
\<close>
theorem transactionLinks_grouped:
  assumes "transactionLinkModelFromDB links txs db = Inr result"
  shows "(Refund r \<in> set result \<longleftrightarrow>
      (\<exists>k. refund_ok (tx_by_id txs) (links_for L_REFUND (supersededIds db) links k) k r)) \<and>
    (DebtSettling d \<in> set result \<longleftrightarrow>
      (\<exists>k. debt_ok (tx_by_id txs) (links_for L_DEBT_SETTLING (supersededIds db) links k) k d))"
  using transactionLinkModelFromDB_lemma [OF assms] by blast

theorem transactionLinks_grouped_witness:
  "\<exists>result. transactionLinkModelFromDB
      [\<lparr>lnk_id = 5, lnk_sourceTransactionId = 1, lnk_linkedTransactionId = 2, lnk_linkType = L_REFUND\<rparr>]
      [PersonalExpense sample_expense, Income sample_income] [] = Inr result \<and>
    Refund \<lparr>rf_id = 5, rf_expense = PersonalExpense sample_expense, rf_refunds = [sample_income]\<rparr> \<in> set result"
proof -
  let ?links = "[\<lparr>lnk_id = 5, lnk_sourceTransactionId = 1, lnk_linkedTransactionId = 2, lnk_linkType = L_REFUND\<rparr>]"
    and ?txs = "[PersonalExpense sample_expense, Income sample_income]"
    and ?r = "\<lparr>rf_id = 5, rf_expense = PersonalExpense sample_expense, rf_refunds = [sample_income]\<rparr>"
  have index: "jm_get (tx_by_id ?txs) 1 = Some (PersonalExpense sample_expense)"
    "jm_get (tx_by_id ?txs) 2 = Some (Income sample_income)"
    by (simp_all add: tx_by_id_def jm_get_of_entries sample_expense_def sample_income_def)
  have "transactionLinkModelFromDB ?links ?txs [] = Inr [Refund ?r]"
    by (simp add: transactionLinkModelFromDB_def link_step_def Let_def link_is_superseded_def supersededIds_def
      js_set_def findSourceAndLinked_def index refund_step_def jm_values_def jm_set_def
      List.map_filter_simps)
  moreover have "\<exists>k. refund_ok (tx_by_id ?txs) (links_for L_REFUND (supersededIds []) ?links k) k ?r"
    by (rule exI [of _ 1]) (simp add: refund_ok_def links_for_def link_is_superseded_def supersededIds_def
      js_set_def linked_income_def index List.map_filter_simps)
  ultimately show ?thesis
    using transactionLinks_grouped [of ?links ?txs "[]" "[Refund ?r]" ?r] by blast
qed

end
