(* ===== verification/Exchange.thy ===== *)
theory Exchange
  imports Links
begin

text \<open>
  Exchange rates, stock quotes and conversion: \<open>ExchangeRates\<close>, \<open>StockQuotes\<close> and
  \<open>StockAndCurrencyExchange\<close> of \<open>lib/ClientSideModel.tsx\<close>, and the amounts of a transaction in
  another currency (\<open>lib/model/transaction/amounts.tsx\<close>). The clock is the parameter \<open>now\<close>;
  \<open>closestTo\<close> of \<open>date-fns\<close> is a parameter with the behaviour its documentation states.
\<close>

section \<open>Time series\<close>

text \<open>A rate or a price is a bigint turned into a number: an integer with at most 53 significant bits.\<close>

type_synonym timeseries = "(int, int) js_map"

definition number_int :: "int \<Rightarrow> int" where
  "number_int n = \<lfloor>number_of_bigint n\<rfloor>"

lemma number_int_exact: "\<bar>n\<bar> \<le> 2 ^ 53 \<Longrightarrow> number_int n = n"
  by (simp add: number_int_def number_of_bigint_def f64_of_int)

function fill_days :: "int \<Rightarrow> int \<Rightarrow> int \<Rightarrow> timeseries \<Rightarrow> timeseries" where
  "fill_days x current prevValue ts =
     (if x < current then fill_days (x + MS_PER_DAY) current prevValue (jm_set x prevValue ts) else ts)"
  by pat_completeness auto
termination
  by (relation "measure (\<lambda>(x, current, _). nat (current - x))") (auto simp: MS_PER_DAY_def)

declare fill_days.simps [simp del]

fun backfill_loop :: "int list \<Rightarrow> timeseries \<Rightarrow> timeseries result" where
  "backfill_loop (prev # current # days) ts =
     (case jm_get ts prev of
        None \<Rightarrow> Inl (BackfillFailed prev)
      | Some prevValue \<Rightarrow>
        if prevValue = 0 then Inl (BackfillFailed prev)
        else backfill_loop (current # days) (fill_days (prev + MS_PER_DAY) current prevValue ts))"
| "backfill_loop _ ts = Inr ts"

definition backfillMissingDates :: "rat \<Rightarrow> timeseries \<Rightarrow> timeseries result" where
  "backfillMissingDates now ts =
     backfill_loop (js_sort (by_key (\<lambda>d. d)) (jm_keys ts @ [utcStartOfDay now])) ts"

text \<open>What filling does to a single day.\<close>

lemma jm_get_fill_days:
  "jm_get (fill_days x current v ts) d =
     (if x \<le> d \<and> d < current \<and> MS_PER_DAY dvd (d - x) then Some v else jm_get ts d)"
proof (induction x current v ts rule: fill_days.induct)
  case (1 x current v ts)
  show ?case
  proof (cases "x < current")
    case True
    have "x \<le> d \<and> MS_PER_DAY dvd (d - x) \<longleftrightarrow> d = x \<or> x + MS_PER_DAY \<le> d \<and> MS_PER_DAY dvd (d - (x + MS_PER_DAY))"
    proof -
      have "MS_PER_DAY dvd (d - x) \<longleftrightarrow> MS_PER_DAY dvd (d - (x + MS_PER_DAY))"
        using dvd_add_left_iff [of MS_PER_DAY MS_PER_DAY "d - (x + MS_PER_DAY)"] by simp
      moreover have "x + MS_PER_DAY \<le> d" if "MS_PER_DAY dvd (d - x)" "x \<le> d" "d \<noteq> x"
        using zdvd_imp_le [OF that(1)] that by simp
      ultimately show ?thesis by (auto simp: MS_PER_DAY_def)
    qed
    then show ?thesis using 1 [OF True] True by (subst fill_days.simps) auto
  qed (subst fill_days.simps, auto)
qed

text \<open>The value of the last known day up to \<open>d\<close>.\<close>

definition last_known :: "int set \<Rightarrow> timeseries \<Rightarrow> int \<Rightarrow> int option" where
  "last_known days ts d = jm_get ts (Max {k \<in> days. k \<le> d})"

lemma backfill_loop_lemma:
  assumes "sorted days" "days \<noteq> []" "\<forall>d \<in> set days. MS_PER_DAY dvd d"
    and "\<forall>d \<in> set (butlast days). \<exists>v. jm_get ts d = Some v \<and> v \<noteq> 0"
  shows "\<exists>ts'. backfill_loop days ts = Inr ts' \<and>
    (\<forall>d. jm_get ts' d = (if hd days \<le> d \<and> d < last days \<and> MS_PER_DAY dvd d
       then last_known (set days) ts d else jm_get ts d))"
  using assms
proof (induction days ts rule: backfill_loop.induct)
  case (1 p c days ts)
  obtain v where v: "jm_get ts p = Some v" "v \<noteq> 0" using "1.prems"(4) by auto
  let ?ts = "fill_days (p + MS_PER_DAY) c v ts"
  have le: "p \<le> c" "\<forall>d \<in> set days. c \<le> d" using "1.prems"(1) by auto
  have dp: "MS_PER_DAY dvd p" "MS_PER_DAY dvd c" using "1.prems"(3) by auto
  have fill: "jm_get ?ts d = (if p < d \<and> d < c \<and> MS_PER_DAY dvd d then Some v else jm_get ts d)" for d
  proof -
    have "MS_PER_DAY dvd d - (p + MS_PER_DAY) \<longleftrightarrow> MS_PER_DAY dvd d"
      using dp(1) by (metis dvd_add dvd_diff diff_add_cancel dvd_refl)
    moreover have "p + MS_PER_DAY \<le> d" if "MS_PER_DAY dvd d" "p < d"
      using zdvd_imp_le [of MS_PER_DAY "d - p"] that dp(1) by simp
    ultimately show ?thesis by (auto simp: jm_get_fill_days MS_PER_DAY_def)
  qed
  have same: "jm_get ?ts d = jm_get ts d" if "c \<le> d" for d using that by (simp add: fill)
  have "\<forall>d \<in> set (butlast (c # days)). \<exists>v. jm_get ?ts d = Some v \<and> v \<noteq> 0"
  proof
    fix d assume d: "d \<in> set (butlast (c # days))"
    then have "d \<in> set (c # days)" by (rule in_set_butlastD)
    then have "c \<le> d" using le by auto
    then show "\<exists>v. jm_get ?ts d = Some v \<and> v \<noteq> 0" using same "1.prems"(4) d by auto
  qed
  then obtain ts' where ts': "backfill_loop (c # days) ?ts = Inr ts'"
    and get: "\<And>d. jm_get ts' d = (if c \<le> d \<and> d < last (c # days) \<and> MS_PER_DAY dvd d
       then last_known (set (c # days)) ?ts d else jm_get ?ts d)"
    using "1.IH" [OF v(1) v(2)] "1.prems" by auto
  have "jm_get ts' d = (if p \<le> d \<and> d < last (c # days) \<and> MS_PER_DAY dvd d
       then last_known (set (p # c # days)) ts d else jm_get ts d)" for d
  proof (cases "c \<le> d")
    case True
    have "Max {k \<in> set (p # c # days). k \<le> d} = Max {k \<in> set (c # days). k \<le> d}"
    proof -
      have eq: "{k \<in> set (p # c # days). k \<le> d} = insert p {k \<in> set (c # days). k \<le> d}"
        using True le by auto
      have ne: "{k \<in> set (c # days). k \<le> d} \<noteq> {}" using True by auto
      have "c \<le> Max {k \<in> set (c # days). k \<le> d}" using True by (intro Max_ge) auto
      then show ?thesis unfolding eq using le(1) ne by (subst Max_insert) auto
    qed
    moreover have "Max {k \<in> set (c # days). k \<le> d} \<in> {k \<in> set (c # days). k \<le> d}"
      using True by (intro Max_in) auto
    then have "c \<le> Max {k \<in> set (c # days). k \<le> d}" using le by auto
    ultimately show ?thesis using True le get [of d] same by (simp add: last_known_def)
  next
    case False
    have "last (c # days) \<in> set (c # days)" by (rule last_in_set) simp
    then have lt: "d < last (c # days)" using False le by auto
    have "Max {k \<in> set (p # c # days). k \<le> d} = p" if "p \<le> d"
    proof -
      have "{k \<in> set (p # c # days). k \<le> d} = {p}" using False le that by auto
      then show ?thesis by simp
    qed
    then show ?thesis using False lt v(1) get [of d] fill [of d] by (auto simp: last_known_def)
  qed
  then show ?case using ts' v by simp
qed auto

definition timeseries_ok :: "timeseries \<Rightarrow> bool" where
  "timeseries_ok ts \<longleftrightarrow> jm_ok ts \<and> (\<forall>(d, v) \<in> set ts. MS_PER_DAY dvd d \<and> v \<noteq> 0)"

lemma MS_PER_DAY_dvd_utcStartOfDay [simp]: "MS_PER_DAY dvd utcStartOfDay x"
  by (simp add: utcStartOfDay_def)

lemma backfill_lemma:
  assumes "timeseries_ok ts" "\<forall>d \<in> set (jm_keys ts). d \<le> utcStartOfDay now"
  shows "\<exists>ts'. backfillMissingDates now ts = Inr ts' \<and>
    (\<forall>d. jm_get ts' d =
      (if MS_PER_DAY dvd d \<and> d < utcStartOfDay now \<and> (\<exists>k \<in> set (jm_keys ts). k \<le> d)
       then last_known (set (jm_keys ts)) ts d else jm_get ts d))"
proof -
  let ?today = "utcStartOfDay now"
  let ?days = "sort_key (\<lambda>d. d) (jm_keys ts @ [?today])"
  have sorted: "sorted ?days" by (rule sorted_sort)
  have ne: "?days \<noteq> []" by (simp add: sort_key_def [symmetric] flip: length_0_conv)
  have set: "set ?days = insert ?today (set (jm_keys ts))" by simp
  have last: "last ?days = ?today"
  proof -
    have "last ?days \<in> set ?days" using ne by (rule last_in_set)
    then have "last ?days \<le> ?today" using assms(2) unfolding set by auto
    moreover have "?today \<le> last ?days"
    proof -
      have "?today \<in> set ?days" unfolding set by simp
      then obtain i where "i < length ?days" "?days ! i = ?today" by (metis in_set_conv_nth)
      then show ?thesis using sorted ne sorted_nth_mono [OF sorted, of i "length ?days - 1"]
        by (simp add: last_conv_nth del: sort_key_simps)
    qed
    ultimately show ?thesis by simp
  qed
  have mem: "\<exists>v. jm_get ts d = Some v \<and> v \<noteq> 0" if "d \<in> set (jm_keys ts)" for d
    using that assms(1) jm_entry_iff [of ts] by (fastforce simp: timeseries_ok_def jm_keys_def)
  have dvd: "\<forall>d \<in> set ?days. MS_PER_DAY dvd d"
    unfolding set using assms(1) by (auto simp: timeseries_ok_def jm_keys_def)
  have but: "\<forall>d \<in> set (butlast ?days). \<exists>v. jm_get ts d = Some v \<and> v \<noteq> 0"
  proof
    fix d assume d: "d \<in> set (butlast ?days)"
    show "\<exists>v. jm_get ts d = Some v \<and> v \<noteq> 0"
    proof (cases "d \<in> set (jm_keys ts)")
      case False
      have "mset (butlast ?days) + {#last ?days#} = mset ?days"
        using ne by (metis append_butlast_last_id mset_append mset_single_iff_right mset.simps add_mset_add_single)
      then have "mset (butlast ?days) = mset (jm_keys ts)" unfolding last by simp
      then show ?thesis using d False by (metis set_mset_mset)
    qed (rule mem)
  qed
  obtain ts' where ts': "backfill_loop ?days ts = Inr ts'"
    "\<And>d. jm_get ts' d = (if hd ?days \<le> d \<and> d < ?today \<and> MS_PER_DAY dvd d
       then last_known (set ?days) ts d else jm_get ts d)"
    using backfill_loop_lemma [OF sorted ne dvd but] unfolding last by blast
  have hd: "hd ?days \<le> d \<longleftrightarrow> (\<exists>k \<in> set ?days. k \<le> d)" for d
  proof -
    obtain x xs where xs: "?days = x # xs" using ne by (cases ?days) auto
    then show ?thesis using sorted by auto
  qed
  have "jm_get ts' d = (if MS_PER_DAY dvd d \<and> d < ?today \<and> (\<exists>k \<in> set (jm_keys ts). k \<le> d)
       then last_known (set (jm_keys ts)) ts d else jm_get ts d)" for d
  proof -
    have "{k \<in> set ?days. k \<le> d} = {k \<in> set (jm_keys ts). k \<le> d}" if "d < ?today"
      using that unfolding set by auto
    then show ?thesis unfolding ts'(2) hd last_known_def unfolding set by auto
  qed
  then show ?thesis using ts'(1) unfolding backfillMissingDates_def js_sort_by_key by blast
qed

text \<open>A rate of a day after today makes the whole construction fail, unless today has one, too.\<close>

lemma backfill_loop_known:
  "backfill_loop days ts = Inr ts' \<Longrightarrow> sorted days \<Longrightarrow> d \<in> set (butlast days) \<Longrightarrow> jm_get ts d \<noteq> None"
proof (induction days ts arbitrary: d rule: backfill_loop.induct)
  case (1 p c days ts)
  obtain v where v: "jm_get ts p = Some v" "v \<noteq> 0"
    and rest: "backfill_loop (c # days) (fill_days (p + MS_PER_DAY) c v ts) = Inr ts'"
    using "1.prems"(1) by (auto split: option.splits if_splits)
  show ?case
  proof (cases "d = p")
    case False
    then have d: "d \<in> set (butlast (c # days))" using "1.prems"(3) by simp
    then have "d \<in> set (c # days)" by (rule in_set_butlastD)
    then have "c \<le> d" using "1.prems"(2) by auto
    moreover have "jm_get (fill_days (p + MS_PER_DAY) c v ts) d \<noteq> None"
      using "1.IH" [OF v rest _ d] "1.prems"(2) by simp
    ultimately show ?thesis by (simp add: jm_get_fill_days)
  qed (simp add: v)
qed simp_all

lemma backfill_future:
  assumes "d \<in> set (jm_keys ts)" "utcStartOfDay now < d" "utcStartOfDay now \<notin> set (jm_keys ts)" "jm_ok ts"
  shows "\<exists>e. backfillMissingDates now ts = Inl e"
proof (cases "backfillMissingDates now ts")
  case (Inr ts')
  let ?days = "sort (jm_keys ts @ [utcStartOfDay now])"
  have sorted: "sorted ?days" by (rule sorted_sort)
  have loop: "backfill_loop ?days ts = Inr ts'"
    using Inr unfolding backfillMissingDates_def js_sort_by_key .
  have "set ?days = insert (utcStartOfDay now) (set (jm_keys ts))" by simp
  then have mem: "utcStartOfDay now \<in> set ?days" "d \<in> set ?days" using assms(1) by auto
  then have ne: "?days \<noteq> []" by (metis empty_iff empty_set)
  have snoc: "?days = butlast ?days @ [last ?days]" using ne by simp
  have "utcStartOfDay now \<in> set (butlast ?days)"
  proof (rule ccontr)
    assume not: "\<not> ?thesis"
    have "utcStartOfDay now \<in> set (butlast ?days @ [last ?days])" using mem(1) snoc by simp
    then have last: "last ?days = utcStartOfDay now" using not by simp
    have "d \<in> set (butlast ?days @ [last ?days])" using mem(2) snoc by simp
    then have "d \<in> set (butlast ?days)" using last assms(2) by auto
    moreover have "sorted (butlast ?days @ [last ?days])" using sorted snoc by simp
    ultimately have "d \<le> last ?days" by (simp add: sorted_append)
    then show False using last assms(2) by simp
  qed
  from backfill_loop_known [OF loop sorted this] have "utcStartOfDay now \<in> set (jm_keys ts)"
    using jm.keys_get [OF assms(4)] by auto
  then show ?thesis using assms(3) by simp
qed simp

section \<open>Exchange rates\<close>

type_synonym closest_to = "rat \<Rightarrow> int list \<Rightarrow> int option"
type_synonym rates = "(string, (string, timeseries) js_map) js_map"

record pb_exchange_rate =
  er_currencyCodeFrom :: string
  er_currencyCodeTo :: string
  er_rateTimestamp :: "timestamp option"
  er_rateNanos :: int

definition NANOS_MULTIPLIER :: int where
  "NANOS_MULTIPLIER = 1000000000"

text \<open>Division of bigints drops the fraction.\<close>

definition bigint_div :: "int \<Rightarrow> int \<Rightarrow> int" where
  "bigint_div a b = sgn a * sgn b * (\<bar>a\<bar> div \<bar>b\<bar>)"

definition or_empty :: "'a list option \<Rightarrow> 'a list" where
  "or_empty m = (case m of None \<Rightarrow> [] | Some xs \<Rightarrow> xs)"

lemma or_empty_simps [simp]: "or_empty None = []" "or_empty (Some xs) = xs"
  by (simp_all add: or_empty_def)

definition add_rate :: "rates \<Rightarrow> pb_exchange_rate \<Rightarrow> rates result" where
  "add_rate rates r =
     (let from = er_currencyCodeFrom r; to = er_currencyCodeTo r;
          fromRates = or_empty (jm_get rates from);
          timeseries = or_empty (jm_get fromRates to)
      in bind_result (timestampToEpoch (er_rateTimestamp r)) (\<lambda>epoch.
           let day = utcStartOfDay epoch
           in Inr (jm_set from (jm_set to (jm_set day (number_int (er_rateNanos r)) timeseries) fromRates) rates)))"

definition jm_map_values :: "('a \<Rightarrow> 'b result) \<Rightarrow> ('k, 'a) js_map \<Rightarrow> ('k, 'b) js_map result" where
  "jm_map_values f m = map_result (\<lambda>(k, v). bind_result (f v) (\<lambda>w. Inr (k, w))) m"

definition mk_ExchangeRates :: "rat \<Rightarrow> pb_exchange_rate list \<Rightarrow> rates result" where
  "mk_ExchangeRates now init =
     bind_result (fold_result add_rate [] init)
       (jm_map_values (jm_map_values (backfillMissingDates now)))"

text \<open>The value of the day of \<open>when\<close>, else of the closest day there is; zero counts as missing.\<close>

definition series_at :: "closest_to \<Rightarrow> timeseries \<Rightarrow> rat \<Rightarrow> int option" where
  "series_at closestTo history when =
     (case truthy_id (jm_get history (utcStartOfDay when)) of
        Some rate \<Rightarrow> Some rate
      | None \<Rightarrow> Option.bind (closestTo when (jm_keys history)) (jm_get history))"

definition findRate :: "closest_to \<Rightarrow> rates \<Rightarrow> currency \<Rightarrow> currency \<Rightarrow> rat \<Rightarrow> int option" where
  "findRate closestTo rates from to when =
     (case jm_get rates (cur_code from) of
        None \<Rightarrow> None
      | Some ratesFrom \<Rightarrow>
        (case jm_get ratesFrom (cur_code to) of
           None \<Rightarrow> None
         | Some ratesHistory \<Rightarrow> series_at closestTo ratesHistory when))"

definition rates_exchange ::
  "closest_to \<Rightarrow> rates \<Rightarrow> amount_with_currency \<Rightarrow> currency \<Rightarrow> rat \<Rightarrow> amount_with_currency option" where
  "rates_exchange closestTo rates a target when =
     (if cur_code (awc_currency a) = cur_code target then Some a
      else if isZero a then Some (awc_zero target)
      else case truthy_id (findRate closestTo rates (awc_currency a) target when) of
             None \<Rightarrow> None
           | Some rateNanos \<Rightarrow>
             Some (mk_awc (bigint_div (amountNanos a * rateNanos) NANOS_MULTIPLIER) target))"

section \<open>Stock quotes\<close>

type_synonym quotes = "(string, timeseries) js_map"

record pb_stock_quote =
  sq_stockExchange :: string
  sq_stockTicker :: string
  sq_quoteTimestamp :: "timestamp option"
  sq_pricePerShareNanos :: int

definition add_quote :: "quotes \<Rightarrow> pb_stock_quote \<Rightarrow> quotes result" where
  "add_quote quotes r =
     (let priceNanos = number_int (sq_pricePerShareNanos r)
      in bind_result (timestampToEpoch (sq_quoteTimestamp r)) (\<lambda>epoch.
           let day = utcStartOfDay epoch;
               key = stockKey \<lparr>sk_exchange = sq_stockExchange r, sk_ticker = sq_stockTicker r\<rparr>;
               timeseries = or_empty (jm_get quotes key)
           in Inr (jm_set key (jm_set day priceNanos timeseries) quotes)))"

definition mk_StockQuotes :: "rat \<Rightarrow> pb_stock_quote list \<Rightarrow> quotes result" where
  "mk_StockQuotes now init =
     bind_result (fold_result add_quote [] init) (jm_map_values (backfillMissingDates now))"

definition findQuote :: "closest_to \<Rightarrow> quotes \<Rightarrow> stock \<Rightarrow> rat \<Rightarrow> int option" where
  "findQuote closestTo quotes s when =
     (case jm_get quotes (stockKey s) of
        None \<Rightarrow> None
      | Some quotesForStock \<Rightarrow> series_at closestTo quotesForStock when)"

definition quotes_exchange ::
  "closest_to \<Rightarrow> quotes \<Rightarrow> 'a amount_scheme \<Rightarrow> stock \<Rightarrow> rat \<Rightarrow> amount_with_currency option result" where
  "quotes_exchange closestTo quotes a s when =
     bind_result (mustFindByCode (stock_currencyCode s)) (\<lambda>currency.
       if isZero a then Inr (Some (awc_zero currency))
       else case truthy_id (findQuote closestTo quotes s when) of
              None \<Rightarrow> Inr None
            | Some price \<Rightarrow>
              Inr (Some (mk_awc (bigint_div (amountNanos a * price) NANOS_MULTIPLIER) currency)))"

section \<open>Conversion of any amount\<close>

record stock_and_currency_exchange =
  exchangeRates :: rates
  stockQuotes :: quotes

definition exchangeCurrency ::
  "closest_to \<Rightarrow> stock_and_currency_exchange \<Rightarrow> amount_with_currency \<Rightarrow> currency \<Rightarrow> rat \<Rightarrow>
     amount_with_currency option" where
  "exchangeCurrency closestTo ex a target when = rates_exchange closestTo (exchangeRates ex) a target when"

definition exchangeStock ::
  "closest_to \<Rightarrow> stock_and_currency_exchange \<Rightarrow> amount \<Rightarrow> stock \<Rightarrow> currency \<Rightarrow> rat \<Rightarrow>
     amount_with_currency option result" where
  "exchangeStock closestTo ex a s target when =
     bind_result (quotes_exchange closestTo (stockQuotes ex) a s when) (\<lambda>exchanged.
       case exchanged of
         None \<Rightarrow> Inr None
       | Some b \<Rightarrow> Inr (rates_exchange closestTo (exchangeRates ex) b target when))"

definition exchange ::
  "closest_to \<Rightarrow> stock_and_currency_exchange \<Rightarrow> amount_with_unit \<Rightarrow> currency \<Rightarrow> rat \<Rightarrow>
     amount_with_currency option result" where
  "exchange closestTo ex a target when =
     (case awu_unit a of
        UnitCurrency c \<Rightarrow> Inr (exchangeCurrency closestTo ex (mk_awc (awu_nanos a) c) target when)
      | UnitStock s \<Rightarrow> exchangeStock closestTo ex (awu_amount a) s target when)"

definition amountAllParties ::
  "closest_to \<Rightarrow> cash_flow \<Rightarrow> currency \<Rightarrow> bank_account list \<Rightarrow> stock list \<Rightarrow>
     stock_and_currency_exchange \<Rightarrow> amount_with_currency option result" where
  "amountAllParties closestTo t target bankAccounts stocks ex =
     bind_result (transactionUnit t bankAccounts stocks) (\<lambda>unit.
       let allParties = mk_amount (flow_amountNanos t)
       in case unit of
            UnitCurrency c \<Rightarrow>
              Inr (exchangeCurrency closestTo ex (mk_awc (amountNanos allParties) c) target (flow_timestampEpoch t))
          | UnitStock s \<Rightarrow> exchangeStock closestTo ex allParties s target (flow_timestampEpoch t))"

definition amountOwnShare ::
  "closest_to \<Rightarrow> cash_flow \<Rightarrow> currency \<Rightarrow> bank_account list \<Rightarrow> stock list \<Rightarrow>
     stock_and_currency_exchange \<Rightarrow> amount_with_currency option result" where
  "amountOwnShare closestTo t target bankAccounts stocks ex =
     bind_result (transactionUnit t bankAccounts stocks) (\<lambda>unit.
       let ownShare = mk_amount (ownShareAmountNanosIgnoreRefunds t)
       in case unit of
            UnitCurrency c \<Rightarrow>
              Inr (exchangeCurrency closestTo ex (mk_awc (amountNanos ownShare) c) target (flow_timestampEpoch t))
          | UnitStock s \<Rightarrow> exchangeStock closestTo ex ownShare s target (flow_timestampEpoch t))"

section \<open>Facts\<close>

text \<open>What \<open>closestTo\<close> promises.\<close>

definition closest_ok :: "closest_to \<Rightarrow> bool" where
  "closest_ok closestTo \<longleftrightarrow>
     (\<forall>when ts. case closestTo when ts of
        None \<Rightarrow> ts = []
      | Some t \<Rightarrow> t \<in> set ts \<and> (\<forall>u \<in> set ts. \<bar>date_value when - t\<bar> \<le> \<bar>date_value when - u\<bar>))"

text \<open>A function with this behaviour: the first of the closest dates.\<close>

definition first_closest :: closest_to where
  "first_closest when ts =
     (case sort_key (\<lambda>t. \<bar>date_value when - t\<bar>) ts of [] \<Rightarrow> None | t # _ \<Rightarrow> Some t)"

lemma first_closest_ok: "closest_ok first_closest"
proof -
  have "case first_closest when ts of None \<Rightarrow> ts = []
      | Some t \<Rightarrow> t \<in> set ts \<and> (\<forall>u \<in> set ts. \<bar>date_value when - t\<bar> \<le> \<bar>date_value when - u\<bar>)" for "when" ts
  proof (cases "sort_key (\<lambda>t. \<bar>date_value when - t\<bar>) ts")
    case Nil
    then have "ts = []" by (metis length_0_conv length_sort)
    then show ?thesis by (simp add: first_closest_def)
  next
    case (Cons t us)
    have "sorted (map (\<lambda>t. \<bar>date_value when - t\<bar>) (t # us))" unfolding Cons [symmetric] by simp
    moreover have "set ts = set (t # us)" unfolding Cons [symmetric] by simp
    ultimately show ?thesis using Cons by (auto simp: first_closest_def)
  qed
  then show ?thesis by (simp add: closest_ok_def)
qed

lemma bigint_div_bounds:
  assumes "0 < b"
  shows "\<bar>bigint_div a b * b - a\<bar> < b" "\<bar>bigint_div a b * b\<bar> \<le> \<bar>a\<bar>"
proof -
  define q where "q = \<bar>a\<bar> div b * b"
  have "q + \<bar>a\<bar> mod b = \<bar>a\<bar>" unfolding q_def by (rule div_mult_mod_eq)
  moreover have "0 \<le> \<bar>a\<bar> mod b" "\<bar>a\<bar> mod b < b" using assms by simp_all
  moreover have "0 \<le> q" unfolding q_def using assms by (simp add: pos_imp_zdiv_nonneg_iff)
  ultimately have q: "0 \<le> q" "q \<le> \<bar>a\<bar>" "\<bar>a\<bar> - q < b" by linarith+
  have eq: "bigint_div a b * b = sgn a * q" using assms by (simp add: bigint_div_def q_def sgn_if)
  show "\<bar>bigint_div a b * b - a\<bar> < b" unfolding eq using q by (auto simp: sgn_if abs_if split: if_splits)
  show "\<bar>bigint_div a b * b\<bar> \<le> \<bar>a\<bar>" unfolding eq using q by (auto simp: sgn_if abs_if split: if_splits)
qed

lemma jm_map_values_get:
  assumes "jm_map_values f m = Inr m'"
  shows "(jm_get m k = None \<longrightarrow> jm_get m' k = None) \<and>
    (\<forall>v. jm_get m k = Some v \<longrightarrow> (\<exists>w. f v = Inr w \<and> jm_get m' k = Some w))"
  using assms unfolding jm_map_values_def
proof (induction m arbitrary: m')
  case (Cons e m)
  obtain j v where e: "e = (j, v)" by (cases e)
  from Cons.prems obtain w m'' where "f v = Inr w" "m' = (j, w) # m''"
      "map_result (\<lambda>(k, v). bind_result (f v) (\<lambda>w. Inr (k, w))) m = Inr m''"
    by (auto simp: e result_simps)
  then show ?case using Cons.IH by (auto simp: e jm_get_def)
qed (simp add: jm_get_def)

lemma jm_map_values_total:
  "(\<And>k v. (k, v) \<in> set m \<Longrightarrow> \<exists>w. f v = Inr w) \<Longrightarrow> \<exists>m'. jm_map_values f m = Inr m'"
proof (induction m)
  case (Cons e m)
  obtain j v where e: "e = (j, v)" by (cases e)
  from Cons.prems obtain w where w: "f v = Inr w" by (auto simp: e)
  obtain m' where "jm_map_values f m = Inr m'" using Cons by (auto simp: e)
  with w show ?case by (simp add: e jm_map_values_def)
qed (simp add: jm_map_values_def)

text \<open>The history the rates of the database give a pair of currencies, before any backfill.\<close>

definition rate_day :: "pb_exchange_rate \<Rightarrow> int" where
  "rate_day r = (case timestampToEpoch (er_rateTimestamp r) of Inr e \<Rightarrow> utcStartOfDay e | Inl _ \<Rightarrow> 0)"

definition rates_of :: "string \<Rightarrow> string \<Rightarrow> pb_exchange_rate list \<Rightarrow> pb_exchange_rate list" where
  "rates_of src dst init = filter (\<lambda>r. er_currencyCodeFrom r = src \<and> er_currencyCodeTo r = dst) init"

definition history_of :: "pb_exchange_rate list \<Rightarrow> timeseries" where
  "history_of rs = jm_of_entries (map (\<lambda>r. (rate_day r, number_int (er_rateNanos r))) rs)"

definition history_in :: "rates \<Rightarrow> string \<Rightarrow> string \<Rightarrow> timeseries" where
  "history_in rates src dst = or_empty (jm_get (or_empty (jm_get rates src)) dst)"

lemma add_rate_Inr:
  assumes "add_rate rates r = Inr rates'"
  shows "history_in rates' src dst =
    (if er_currencyCodeFrom r = src \<and> er_currencyCodeTo r = dst
     then jm_set (rate_day r) (number_int (er_rateNanos r)) (history_in rates src dst)
     else history_in rates src dst)"
  using assms by (auto simp: add_rate_def Let_def result_simps history_in_def rate_day_def)

lemma add_rates_history:
  assumes "fold_result add_rate [] init = Inr rates"
  shows "history_in rates src dst = history_of (rates_of src dst init)"
  using assms
proof (induction init arbitrary: rates rule: rev_induct)
  case Nil
  then show ?case by (simp add: history_in_def history_of_def rates_of_def jm_of_entries_def)
next
  case (snoc r init)
  then obtain rates0 where r0: "fold_result add_rate [] init = Inr rates0" "add_rate rates0 r = Inr rates"
    by (auto simp: fold_result_append result_simps)
  have "history_of (rs @ [r]) = jm_set (rate_day r) (number_int (er_rateNanos r)) (history_of rs)" for rs
    by (simp add: history_of_def jm_of_entries_def)
  then show ?case
    using snoc.IH [OF r0(1)] add_rate_Inr [OF r0(2), of src dst]
    by (auto simp: rates_of_def)
qed

lemma fold_add_rate_total:
  assumes "\<And>r. r \<in> set init \<Longrightarrow> er_rateTimestamp r \<noteq> None"
  shows "\<exists>rates'. fold_result add_rate rates init = Inr rates'"
proof -
  have "\<exists>rates'. add_rate rates r = Inr rates'" if "r \<in> set init" for rates r
    using assms [OF that] by (auto simp: add_rate_def Let_def timestampToEpoch_def)
  then show ?thesis
    by (induction init arbitrary: rates) (auto simp: result_simps, metis bind_result.simps(2))
qed

text \<open>The rate that is used for a day: the last one on record up to that day.\<close>

lemma mk_ExchangeRates_history:
  assumes "mk_ExchangeRates now init = Inr rates"
  shows "backfillMissingDates now (history_of (rates_of src dst init)) = Inr (history_in rates src dst)"
proof -
  obtain rates0 where r0: "fold_result add_rate [] init = Inr rates0"
    "jm_map_values (jm_map_values (backfillMissingDates now)) rates0 = Inr rates"
    using assms by (auto simp: mk_ExchangeRates_def result_simps)
  have empty: "backfillMissingDates now [] = Inr []"
    by (simp add: backfillMissingDates_def)
  have "backfillMissingDates now (history_in rates0 src dst) = Inr (history_in rates src dst)"
  proof (cases "jm_get rates0 src")
    case None
    then have "jm_get rates src = None" using jm_map_values_get [OF r0(2)] by blast
    then show ?thesis using None empty by (simp add: history_in_def)
  next
    case (Some m)
    then obtain m' where m': "jm_map_values (backfillMissingDates now) m = Inr m'" "jm_get rates src = Some m'"
      using jm_map_values_get [OF r0(2)] by blast
    show ?thesis
    proof (cases "jm_get m dst")
      case None
      then have "jm_get m' dst = None" using jm_map_values_get [OF m'(1)] by blast
      then show ?thesis using None Some m' empty by (simp add: history_in_def)
    next
      case (Some ts)
      then show ?thesis
        using jm_map_values_get [OF m'(1), of dst] m'(2) \<open>jm_get rates0 src = Some m\<close>
        by (auto simp: history_in_def)
    qed
  qed
  then show ?thesis unfolding add_rates_history [OF r0(1)] .
qed

lemma findRate_history:
  "findRate closestTo rates src dst when =
    (if jm_get (or_empty (jm_get rates (cur_code src))) (cur_code dst) = None then None
     else series_at closestTo (history_in rates (cur_code src) (cur_code dst)) when)"
  by (auto simp: findRate_def history_in_def split: option.splits)

lemma number_int_pos: "0 < n \<Longrightarrow> 0 < number_int n"
proof -
  assume n: "0 < n"
  then have "(of_int 1 :: rat) \<le> of_int n" unfolding of_int_le_iff by simp
  then have "f64 (of_int 1) \<le> f64 (of_int n)" by (rule f64_mono)
  then have "1 \<le> f64 (of_int n)" using f64_of_int [of 1] by simp
  then show ?thesis by (simp add: number_int_def number_of_bigint_def)
qed

lemma MS_PER_DAY_dvd_rate_day: "MS_PER_DAY dvd rate_day r"
  by (simp add: rate_day_def split: sum.splits)

lemma history_of_ok:
  assumes "\<And>r. r \<in> set rs \<Longrightarrow> 0 < er_rateNanos r"
  shows "timeseries_ok (history_of rs)"
proof -
  have "\<exists>r \<in> set rs. d = rate_day r \<and> v = number_int (er_rateNanos r)" if "(d, v) \<in> set (history_of rs)" for d v
  proof -
    have "jm_get (history_of rs) d = Some v" using that by (simp add: jm_entry_iff history_of_def)
    then show ?thesis
      unfolding history_of_def jm_get_index map_option_eq_Some by (auto dest!: find_eq_key_Some)
  qed
  then show ?thesis
    using assms number_int_pos MS_PER_DAY_dvd_rate_day
    by (fastforce simp: timeseries_ok_def history_of_def)
qed

lemma set_keys_history_of: "set (jm_keys (history_of rs)) = rate_day ` set rs"
proof -
  have "d \<in> set (jm_keys (history_of rs)) \<longleftrightarrow> jm_get (history_of rs) d \<noteq> None" for d
    by (rule jm.keys_get) (simp add: history_of_def)
  moreover have "jm_get (history_of rs) d = None \<longleftrightarrow> d \<notin> rate_day ` set rs" for d
    by (simp add: history_of_def jm_get_index find_key_None)
  ultimately show ?thesis by auto
qed

text \<open>
  The rate of a past day that has an earlier rate is the rate of the last day on record up to it:
  weekends and holidays take the rate before them, and \<open>closestTo\<close> is not asked.
\<close>

lemma rates_exchange_last_known:
  assumes rates: "mk_ExchangeRates now init = Inr rates"
    and rs: "rs = rates_of (cur_code (awc_currency a)) (cur_code target) init"
    and pos: "\<And>r. r \<in> set rs \<Longrightarrow> 0 < er_rateNanos r"
    and past: "\<And>r. r \<in> set rs \<Longrightarrow> rate_day r \<le> utcStartOfDay now"
    and "when": "utcStartOfDay when < utcStartOfDay now" "\<exists>r \<in> set rs. rate_day r \<le> utcStartOfDay when"
    and a: "cur_code (awc_currency a) \<noteq> cur_code target" "amountNanos a \<noteq> 0"
  shows "\<exists>r \<in> set rs. rate_day r \<le> utcStartOfDay when \<and>
    (\<forall>r' \<in> set rs. rate_day r' \<le> utcStartOfDay when \<longrightarrow> rate_day r' \<le> rate_day r) \<and>
    rates_exchange closestTo rates a target when =
      Some (mk_awc (bigint_div (amountNanos a * number_int (er_rateNanos r)) NANOS_MULTIPLIER) target)"
proof -
  let ?d = "utcStartOfDay when" and ?h = "history_of rs"
  let ?days = "{k \<in> set (jm_keys ?h). k \<le> ?d}"
  have hist: "backfillMissingDates now ?h =
      Inr (history_in rates (cur_code (awc_currency a)) (cur_code target))"
    unfolding rs by (rule mk_ExchangeRates_history [OF rates])
  have keys: "set (jm_keys ?h) = rate_day ` set rs" by (rule set_keys_history_of)
  have ok: "timeseries_ok ?h" using pos by (rule history_of_ok)
  have get: "jm_get (history_in rates (cur_code (awc_currency a)) (cur_code target)) ?d =
      last_known (set (jm_keys ?h)) ?h ?d"
    using backfill_lemma [OF ok, of now] past "when" hist unfolding keys by auto
  have ne: "?days \<noteq> {}" using "when"(2) keys by auto
  have max: "Max ?days \<in> ?days" using ne by (intro Max_in) auto
  obtain v where v: "jm_get ?h (Max ?days) = Some v"
    using max jm.keys_get [of ?h] by (auto simp: history_of_def)
  then obtain r where r: "r \<in> set rs" "rate_day r = Max ?days" "v = number_int (er_rateNanos r)"
    unfolding history_of_def jm_get_index by (auto dest!: find_eq_key_Some)
  have "v \<noteq> 0" using r pos number_int_pos by fastforce
  then have series: "series_at closestTo (history_in rates (cur_code (awc_currency a)) (cur_code target)) when = Some v"
    using get v by (simp add: series_at_def last_known_def)
  have "history_in rates (cur_code (awc_currency a)) (cur_code target) \<noteq> []"
    using get v by (auto simp: last_known_def)
  then have "jm_get (or_empty (jm_get rates (cur_code (awc_currency a)))) (cur_code target) \<noteq> None"
    unfolding history_in_def by (metis or_empty_simps(1))
  then have "rates_exchange closestTo rates a target when =
      Some (mk_awc (bigint_div (amountNanos a * v) NANOS_MULTIPLIER) target)"
    using series a \<open>v \<noteq> 0\<close> by (simp add: rates_exchange_def findRate_history isZero_def)
  moreover have "rate_day r' \<le> rate_day r" if "r' \<in> set rs" "rate_day r' \<le> ?d" for r'
    unfolding r(2) using that keys by (intro Max_ge) auto
  ultimately show ?thesis using r max by (intro bexI [of _ r]) auto
qed

section \<open>Properties\<close>

text \<open>
  Filling the gaps of a series. For a series of non-zero values on UTC days none of which is
  after today, \<open>backfillMissingDates\<close> succeeds, and afterwards every day from the first known one
  until yesterday carries the value of the last known day at or before it; all other days are
  untouched.
\<close>
theorem backfill_last_known:
  assumes "timeseries_ok ts" "\<forall>d \<in> set (jm_keys ts). d \<le> utcStartOfDay now"
  shows "\<exists>ts'. backfillMissingDates now ts = Inr ts' \<and>
    (\<forall>d. jm_get ts' d =
      (if MS_PER_DAY dvd d \<and> d < utcStartOfDay now \<and> (\<exists>k \<in> set (jm_keys ts). k \<le> d)
       then last_known (set (jm_keys ts)) ts d else jm_get ts d))"
  by (rule backfill_lemma [OF assms])

theorem backfill_last_known_witness:
  "\<exists>ts'. backfillMissingDates (of_int (3 * MS_PER_DAY)) [(0, 5)] = Inr ts' \<and> jm_get ts' (2 * MS_PER_DAY) = Some 5"
proof -
  let ?ts = "[(0, 5)] :: timeseries" and ?now = "of_int (3 * MS_PER_DAY) :: rat"
  have ok: "timeseries_ok ?ts" by (simp add: timeseries_ok_def jm_ok_def)
  have now: "utcStartOfDay ?now = 3 * MS_PER_DAY"
    unfolding utcStartOfDay_of_int by (simp add: MS_PER_DAY_def)
  have le: "\<forall>d \<in> set (jm_keys ?ts). d \<le> utcStartOfDay ?now"
    unfolding now by (simp add: jm_keys_def MS_PER_DAY_def)
  have "{k \<in> set (jm_keys ?ts). k \<le> 2 * MS_PER_DAY} = {0}"
    by (auto simp: jm_keys_def MS_PER_DAY_def)
  then have known: "last_known (set (jm_keys ?ts)) ?ts (2 * MS_PER_DAY) = Some 5"
    unfolding last_known_def by (simp add: jm_get_def)
  from backfill_last_known [OF ok le] obtain ts' where ts': "backfillMissingDates ?now ?ts = Inr ts'"
    and get: "jm_get ts' (2 * MS_PER_DAY) =
      (if MS_PER_DAY dvd 2 * MS_PER_DAY \<and> 2 * MS_PER_DAY < utcStartOfDay ?now \<and>
          (\<exists>k \<in> set (jm_keys ?ts). k \<le> 2 * MS_PER_DAY)
       then last_known (set (jm_keys ?ts)) ?ts (2 * MS_PER_DAY) else jm_get ?ts (2 * MS_PER_DAY))"
    by blast
  have "jm_get ts' (2 * MS_PER_DAY) = Some 5"
    unfolding get known now by (simp add: jm_keys_def MS_PER_DAY_def)
  with ts' show ?thesis by blast
qed

text \<open>A value dated after today makes the construction of the rates throw.\<close>

lemma backfill_future_throws: "backfillMissingDates 0 [(MS_PER_DAY, 5)] = Inl (BackfillFailed 0)"
  by (simp add: backfillMissingDates_def jm_keys_def jm_get_def utcStartOfDay_def date_value_def
    MS_PER_DAY_def by_key_def)

text \<open>
  C16: exchanging money at a past date. With rates built from the quotes of the wire message (none
  negative, none after today), an amount in another currency at a day before today, on or after
  the first quote of the pair, is multiplied by the quote of the latest quoted day at or before
  that day, whatever the nearest-date function would pick.
\<close>
theorem exchange_uses_last_known_rate:
  assumes "mk_ExchangeRates now init = Inr rates"
    and "rs = rates_of (cur_code (awc_currency a)) (cur_code target) init"
    and "\<And>r. r \<in> set rs \<Longrightarrow> 0 < er_rateNanos r"
    and "\<And>r. r \<in> set rs \<Longrightarrow> rate_day r \<le> utcStartOfDay now"
    and "utcStartOfDay when < utcStartOfDay now" "\<exists>r \<in> set rs. rate_day r \<le> utcStartOfDay when"
    and "cur_code (awc_currency a) \<noteq> cur_code target" "amountNanos a \<noteq> 0"
  shows "\<exists>r \<in> set rs. rate_day r \<le> utcStartOfDay when \<and>
    (\<forall>r' \<in> set rs. rate_day r' \<le> utcStartOfDay when \<longrightarrow> rate_day r' \<le> rate_day r) \<and>
    rates_exchange closestTo rates a target when =
      Some (mk_awc (bigint_div (amountNanos a * number_int (er_rateNanos r)) NANOS_MULTIPLIER) target)"
  by (rule rates_exchange_last_known [OF assms])

theorem exchange_uses_last_known_rate_witness:
  "\<exists>rates. mk_ExchangeRates (of_int (2 * MS_PER_DAY))
      [\<lparr>er_currencyCodeFrom = ''USD'', er_currencyCodeTo = ''EUR'',
        er_rateTimestamp = Some \<lparr>ts_seconds = 0, ts_nanos = 0\<rparr>, er_rateNanos = 900000000\<rparr>] = Inr rates \<and>
    rates_exchange first_closest rates (mk_awc 2000000000 \<lparr>cur_code = ''USD''\<rparr>) \<lparr>cur_code = ''EUR''\<rparr>
      (of_int MS_PER_DAY) = Some (mk_awc 1800000000 \<lparr>cur_code = ''EUR''\<rparr>)"
proof -
  let ?r = "\<lparr>er_currencyCodeFrom = ''USD'', er_currencyCodeTo = ''EUR'',
    er_rateTimestamp = Some \<lparr>ts_seconds = 0, ts_nanos = 0\<rparr>, er_rateNanos = 900000000\<rparr> :: pb_exchange_rate"
  let ?a = "mk_awc 2000000000 \<lparr>cur_code = ''USD''\<rparr>" and ?eur = "\<lparr>cur_code = ''EUR''\<rparr>"
  have now: "utcStartOfDay 172800000 = 172800000" "utcStartOfDay 86400000 = 86400000"
    using utcStartOfDay_of_int [of 172800000] utcStartOfDay_of_int [of 86400000] by (simp_all add: MS_PER_DAY_def)
  have day: "rate_day ?r = 0" by code_simp
  have "\<not> isl (mk_ExchangeRates (of_int (2 * MS_PER_DAY)) [?r])" by code_simp
  then obtain rates where rates: "mk_ExchangeRates (of_int (2 * MS_PER_DAY)) [?r] = Inr rates"
    by (cases "mk_ExchangeRates (of_int (2 * MS_PER_DAY)) [?r]") auto
  have "\<exists>r \<in> set [?r]. rate_day r \<le> utcStartOfDay (of_int MS_PER_DAY) \<and>
    (\<forall>r' \<in> set [?r]. rate_day r' \<le> utcStartOfDay (of_int MS_PER_DAY) \<longrightarrow> rate_day r' \<le> rate_day r) \<and>
    rates_exchange first_closest rates ?a ?eur (of_int MS_PER_DAY) =
      Some (mk_awc (bigint_div (amountNanos ?a * number_int (er_rateNanos r)) NANOS_MULTIPLIER) ?eur)"
    by (rule exchange_uses_last_known_rate [OF rates])
      (auto simp: rates_of_def day now MS_PER_DAY_def)
  then have "rates_exchange first_closest rates ?a ?eur (of_int MS_PER_DAY) = Some (mk_awc 1800000000 ?eur)"
    by (simp add: number_int_exact NANOS_MULTIPLIER_def bigint_div_def)
  with rates show ?thesis by blast
qed

end
