(* ===== verification/Balances.thy ===== *)
theory Balances
  imports Exchange
begin

text \<open>
  Account balances: \<open>lib/model/balances.ts\<close>. \<open>BalanceSweep\<close> is a state machine: its state is a
  record and \<open>advanceTo\<close> returns the snapshot with the next state. A snapshot copies the map of
  balances, so it does not change when the sweep moves on.
\<close>

section \<open>Effects of a transaction\<close>

definition balanceEffects :: "transaction \<Rightarrow> (int \<times> int) list result" where
  "balanceEffects t =
     (case t of
        Income i \<Rightarrow> Inr [(in_accountId i, in_amountNanos i)]
      | PersonalExpense p \<Rightarrow> Inr [(pe_accountId p, - pe_amountNanos p)]
      | ThirdPartyExpense _ \<Rightarrow> Inr []
      | Transfer f \<Rightarrow>
          Inr [(tr_fromAccountId f, - tr_sentAmountNanos f), (tr_toAccountId f, tr_receivedAmountNanos f)]
      | OpeningBalance b \<Rightarrow> Inl (UnexpectedOpeningBalance (ob_id b)))"

section \<open>Snapshots\<close>

record account_balances_snapshot =
  snap_asOf :: rat
  snap_nanos :: "(int, int) js_map"
  snap_stocks :: "stock list"

definition snapshot_of :: "account_balances_snapshot \<Rightarrow> bank_account \<Rightarrow> amount_with_unit result" where
  "snapshot_of snap account =
     bind_result (accountUnit account (snap_stocks snap)) (\<lambda>u.
       Inr (mk_awu (am_getOrZero 0 (snap_nanos snap) (acc_id account)) u))"

fun snapshot_sum_loop ::
  "closest_to \<Rightarrow> account_balances_snapshot \<Rightarrow> currency \<Rightarrow> stock_and_currency_exchange \<Rightarrow>
     amount_with_currency \<Rightarrow> bank_account list \<Rightarrow> amount_with_currency option result" where
  "snapshot_sum_loop closestTo snap target ex s [] = Inr (Some s)"
| "snapshot_sum_loop closestTo snap target ex s (account # accounts) =
     bind_result (snapshot_of snap account) (\<lambda>balance.
     bind_result (exchange closestTo ex balance target (snap_asOf snap)) (\<lambda>value.
       case value of
         None \<Rightarrow> Inr None
       | Some v \<Rightarrow>
         bind_result (awc_add s v) (\<lambda>s'. snapshot_sum_loop closestTo snap target ex s' accounts)))"

definition snapshot_sum ::
  "closest_to \<Rightarrow> account_balances_snapshot \<Rightarrow> bank_account list \<Rightarrow> currency \<Rightarrow>
     stock_and_currency_exchange \<Rightarrow> amount_with_currency option result" where
  "snapshot_sum closestTo snap accounts target ex =
     snapshot_sum_loop closestTo snap target ex (awc_zero target) accounts"

section \<open>The sweep\<close>

record balance_sweep =
  sw_sorted :: "transaction list"
  sw_stocks :: "stock list"
  sw_nanos :: "(int, int) js_map"
  sw_cursor :: nat
  sw_lastAsOf :: "rat option"

text \<open>\<open>lastAsOf\<close> starts at \<open>-Infinity\<close>, which is \<open>None\<close> here.\<close>

definition mk_BalanceSweep :: "transaction list \<Rightarrow> stock list \<Rightarrow> balance_sweep" where
  "mk_BalanceSweep transactions stocks =
     (let (nanos, unsorted) = foldl (\<lambda>(nanos, rest) t.
            case t of
              OpeningBalance b \<Rightarrow> (nanos_increment (ob_accountId b) (ob_amountNanos b) nanos, rest)
            | _ \<Rightarrow> (nanos, rest @ [t])) ([], []) transactions
      in \<lparr>sw_sorted = js_sort (by_key tx_timestampEpoch) unsorted, sw_stocks = stocks, sw_nanos = nanos,
          sw_cursor = 0, sw_lastAsOf = None\<rparr>)"

definition apply_effects :: "(int, int) js_map \<Rightarrow> (int \<times> int) list \<Rightarrow> (int, int) js_map" where
  "apply_effects nanos effects = foldl (\<lambda>m (accountId, deltaNanos). nanos_increment accountId deltaNanos m) nanos effects"

function advance_loop ::
  "transaction list \<Rightarrow> rat \<Rightarrow> nat \<Rightarrow> (int, int) js_map \<Rightarrow> (nat \<times> (int, int) js_map) result" where
  "advance_loop ts asOf cursor nanos =
     (if cursor < length ts \<and> tx_timestampEpoch (ts ! cursor) \<le> asOf
      then bind_result (balanceEffects (ts ! cursor)) (\<lambda>effects.
             advance_loop ts asOf (cursor + 1) (apply_effects nanos effects))
      else Inr (cursor, nanos))"
  by pat_completeness auto
termination
  by (relation "measure (\<lambda>(ts, _, cursor, _). length ts - cursor)") auto

declare advance_loop.simps [simp del]

definition advanceTo :: "balance_sweep \<Rightarrow> rat \<Rightarrow> (account_balances_snapshot \<times> balance_sweep) result" where
  "advanceTo sweep asOf =
     (if (case sw_lastAsOf sweep of None \<Rightarrow> False | Some lastAsOf \<Rightarrow> asOf < lastAsOf)
      then Inl NonMonotoneAsOf
      else bind_result (advance_loop (sw_sorted sweep) asOf (sw_cursor sweep) (sw_nanos sweep))
        (\<lambda>(cursor, nanos).
          Inr (\<lparr>snap_asOf = asOf, snap_nanos = nanos, snap_stocks = sw_stocks sweep\<rparr>,
               sweep\<lparr>sw_lastAsOf := Some asOf, sw_nanos := nanos, sw_cursor := cursor\<rparr>)))"

definition balancesAsOf :: "transaction list \<Rightarrow> stock list \<Rightarrow> rat \<Rightarrow> account_balances_snapshot result" where
  "balancesAsOf transactions stocks asOf =
     bind_result (advanceTo (mk_BalanceSweep transactions stocks) asOf) (\<lambda>(snap, _). Inr snap)"

definition timeline_step ::
  "closest_to \<Rightarrow> bank_account list \<Rightarrow> currency \<Rightarrow> stock_and_currency_exchange \<Rightarrow>
     balance_sweep \<times> (rat \<times> amount_with_currency) list \<Rightarrow> rat \<Rightarrow>
     (balance_sweep \<times> (rat \<times> amount_with_currency) list) result" where
  "timeline_step closestTo accounts target ex st sampleDate =
     bind_result (advanceTo (fst st) sampleDate) (\<lambda>(snap, sweep).
     bind_result (snapshot_sum closestTo snap accounts target ex) (\<lambda>total.
       Inr (sweep, case total of None \<Rightarrow> snd st | Some amount \<Rightarrow> snd st @ [(sampleDate, amount)])))"

definition netWorthTimeline ::
  "closest_to \<Rightarrow> bank_account list \<Rightarrow> currency \<Rightarrow> stock_and_currency_exchange \<Rightarrow> transaction list \<Rightarrow>
     stock list \<Rightarrow> rat \<Rightarrow> rat \<Rightarrow> int \<Rightarrow> (rat \<times> amount_with_currency) list result" where
  "netWorthTimeline closestTo accounts target ex allTransactions stocks start end sampleCount =
     bind_result (evenlySpacedNumbers start end sampleCount) (\<lambda>dates.
     bind_result (fold_result (timeline_step closestTo accounts target ex)
       (mk_BalanceSweep allTransactions stocks, []) dates) (\<lambda>(_, points). Inr points))"

section \<open>The balance of an account\<close>

text \<open>
  The specification: opening balances count from the beginning, every other transaction from its
  time on.
\<close>

fun delta :: "int \<Rightarrow> transaction \<Rightarrow> int" where
  "delta acc (Income i) = (if in_accountId i = acc then in_amountNanos i else 0)"
| "delta acc (PersonalExpense p) = (if pe_accountId p = acc then - pe_amountNanos p else 0)"
| "delta acc (ThirdPartyExpense e) = 0"
| "delta acc (Transfer f) = (if tr_fromAccountId f = acc then - tr_sentAmountNanos f else 0) +
     (if tr_toAccountId f = acc then tr_receivedAmountNanos f else 0)"
| "delta acc (OpeningBalance b) = (if ob_accountId b = acc then ob_amountNanos b else 0)"

definition counts_at :: "rat \<Rightarrow> transaction \<Rightarrow> bool" where
  "counts_at asOf t \<longleftrightarrow> isOpeningBalance t \<or> tx_timestampEpoch t \<le> asOf"

definition balance_at :: "transaction list \<Rightarrow> rat \<Rightarrow> int \<Rightarrow> int" where
  "balance_at txs asOf acc = (\<Sum>t \<leftarrow> filter (counts_at asOf) txs. delta acc t)"

lemma apply_effects_get:
  "am_getOrZero 0 (apply_effects m es) acc =
     am_getOrZero 0 m acc + (\<Sum>e \<leftarrow> es. if fst e = acc then snd e else 0)"
  unfolding apply_effects_def nanos_increment_def
  by (induction es arbitrary: m) (auto simp: nanos_map.getOrZero_increment)

lemma balanceEffects_delta:
  "\<not> isOpeningBalance t \<Longrightarrow> \<exists>es. balanceEffects t = Inr es \<and>
     (\<forall>acc. (\<Sum>e \<leftarrow> es. if fst e = acc then snd e else 0) = delta acc t)"
  by (cases t) (auto simp: balanceEffects_def)

lemma am_getOrZero_Nil [simp]: "am_getOrZero z [] k = z"
  by (simp add: am_getOrZero_def)

lemma mk_BalanceSweep_fields:
  "sw_sorted (mk_BalanceSweep txs stocks) = sort_key tx_timestampEpoch (filter (\<lambda>t. \<not> isOpeningBalance t) txs)"
  "am_getOrZero 0 (sw_nanos (mk_BalanceSweep txs stocks)) acc = (\<Sum>t \<leftarrow> filter isOpeningBalance txs. delta acc t)"
  "sw_cursor (mk_BalanceSweep txs stocks) = 0" "sw_lastAsOf (mk_BalanceSweep txs stocks) = None"
  "sw_stocks (mk_BalanceSweep txs stocks) = stocks"
proof -
  let ?f = "\<lambda>(nanos, rest) t. case t of
              OpeningBalance b \<Rightarrow> (nanos_increment (ob_accountId b) (ob_amountNanos b) nanos, rest)
            | _ \<Rightarrow> (nanos, rest @ [t])"
  have *: "snd (foldl ?f (m, r) txs) = r @ filter (\<lambda>t. \<not> isOpeningBalance t) txs \<and>
      am_getOrZero 0 (fst (foldl ?f (m, r) txs)) acc =
        am_getOrZero 0 m acc + (\<Sum>t \<leftarrow> filter isOpeningBalance txs. delta acc t)" for m r acc
  proof (induction txs arbitrary: m r)
    case (Cons t txs)
    then show ?case
      by (cases t) (simp_all add: nanos_increment_def nanos_map.getOrZero_increment)
  qed simp
  have split: "foldl ?f ([], []) txs = (fst (foldl ?f ([], []) txs), snd (foldl ?f ([], []) txs))" by simp
  show "sw_sorted (mk_BalanceSweep txs stocks) = sort_key tx_timestampEpoch (filter (\<lambda>t. \<not> isOpeningBalance t) txs)"
    using * [of "[]" "[]"] by (simp add: mk_BalanceSweep_def Let_def case_prod_unfold)
  show "am_getOrZero 0 (sw_nanos (mk_BalanceSweep txs stocks)) acc = (\<Sum>t \<leftarrow> filter isOpeningBalance txs. delta acc t)"
    using * [of "[]" "[]"] by (simp add: mk_BalanceSweep_def Let_def case_prod_unfold)
qed (simp_all add: mk_BalanceSweep_def Let_def case_prod_unfold)

section \<open>The invariant of a sweep\<close>

text \<open>
  The cursor stands behind the transactions up to \<open>lastAsOf\<close>; the balances hold what the opening
  balances and the transactions before the cursor amount to.
\<close>

definition sweep_ok :: "transaction list \<Rightarrow> stock list \<Rightarrow> balance_sweep \<Rightarrow> bool" where
  "sweep_ok txs stocks s \<longleftrightarrow>
     sw_sorted s = sort_key tx_timestampEpoch (filter (\<lambda>t. \<not> isOpeningBalance t) txs) \<and>
     sw_stocks s = stocks \<and> sw_cursor s \<le> length (sw_sorted s) \<and>
     (\<forall>t \<in> set (take (sw_cursor s) (sw_sorted s)).
        \<exists>lastAsOf. sw_lastAsOf s = Some lastAsOf \<and> tx_timestampEpoch t \<le> lastAsOf) \<and>
     (\<forall>acc. am_getOrZero 0 (sw_nanos s) acc =
        (\<Sum>t \<leftarrow> filter isOpeningBalance txs. delta acc t) +
        (\<Sum>t \<leftarrow> take (sw_cursor s) (sw_sorted s). delta acc t))"

lemma sweep_ok_initial: "sweep_ok txs stocks (mk_BalanceSweep txs stocks)"
  by (simp add: sweep_ok_def mk_BalanceSweep_fields)

lemma advance_loop_lemma:
  assumes "sorted_wrt (\<lambda>x y. tx_timestampEpoch x \<le> tx_timestampEpoch y) ts" "cursor \<le> length ts"
    and "\<forall>t \<in> set ts. \<not> isOpeningBalance t"
    and "\<forall>t \<in> set (take cursor ts). tx_timestampEpoch t \<le> asOf"
  shows "\<exists>nanos'. advance_loop ts asOf cursor nanos =
      Inr (length (takeWhile (\<lambda>t. tx_timestampEpoch t \<le> asOf) ts), nanos') \<and>
    (\<forall>acc. am_getOrZero 0 nanos' acc + (\<Sum>t \<leftarrow> take cursor ts. delta acc t) =
       am_getOrZero 0 nanos acc + (\<Sum>t \<leftarrow> takeWhile (\<lambda>t. tx_timestampEpoch t \<le> asOf) ts. delta acc t))"
  using assms
proof (induction ts asOf cursor nanos rule: advance_loop.induct)
  case (1 ts asOf cursor nanos)
  show ?case
  proof (cases "cursor < length ts \<and> tx_timestampEpoch (ts ! cursor) \<le> asOf")
    case True
    then have "ts ! cursor \<in> set ts" by simp
    then have "\<not> isOpeningBalance (ts ! cursor)" using "1.prems"(3) by blast
    then obtain es where es: "balanceEffects (ts ! cursor) = Inr es"
        "\<And>acc. (\<Sum>e \<leftarrow> es. if fst e = acc then snd e else 0) = delta acc (ts ! cursor)"
      using balanceEffects_delta by blast
    have tk: "take (Suc cursor) ts = take cursor ts @ [ts ! cursor]"
      using True by (simp add: take_Suc_conv_app_nth)
    have "\<exists>nanos'. advance_loop ts asOf (Suc cursor) (apply_effects nanos es) =
          Inr (length (takeWhile (\<lambda>t. tx_timestampEpoch t \<le> asOf) ts), nanos') \<and>
      (\<forall>acc. am_getOrZero 0 nanos' acc + (\<Sum>t \<leftarrow> take (Suc cursor) ts. delta acc t) =
       am_getOrZero 0 (apply_effects nanos es) acc +
         (\<Sum>t \<leftarrow> takeWhile (\<lambda>t. tx_timestampEpoch t \<le> asOf) ts. delta acc t))"
      by (rule "1.IH" [OF True es(1), simplified Suc_eq_plus1 [symmetric]]) (use "1.prems" True tk in auto)
    then obtain nanos' where "advance_loop ts asOf (Suc cursor) (apply_effects nanos es) =
          Inr (length (takeWhile (\<lambda>t. tx_timestampEpoch t \<le> asOf) ts), nanos')"
      "\<And>acc. am_getOrZero 0 nanos' acc + (\<Sum>t \<leftarrow> take (Suc cursor) ts. delta acc t) =
       am_getOrZero 0 (apply_effects nanos es) acc +
         (\<Sum>t \<leftarrow> takeWhile (\<lambda>t. tx_timestampEpoch t \<le> asOf) ts. delta acc t)"
      by blast
    then show ?thesis
      using True es by (subst advance_loop.simps) (auto simp: tk apply_effects_get algebra_simps)
  next
    case False
    have "takeWhile (\<lambda>t. tx_timestampEpoch t \<le> asOf) ts = take cursor ts"
    proof (cases "cursor < length ts")
      case True
      then have "\<not> tx_timestampEpoch (ts ! cursor) \<le> asOf" using False by simp
      then show ?thesis
        using "1.prems"(4) True
        by (intro takeWhile_eq_take_P_nth) (auto simp: in_set_conv_nth dest!: bspec)
    next
      case notless: False
      then have "take cursor ts = ts" by simp
      then show ?thesis using "1.prems"(4) by simp
    qed
    then show ?thesis using False "1.prems"(2) by (subst advance_loop.simps) (auto simp: min_def)
  qed
qed

lemma sorted_key_wrt: "sorted_wrt (\<lambda>x y. f x \<le> f y) (sort_key f xs)" for f :: "'a \<Rightarrow> rat"
  using sorted_sort_key [of f xs] by (simp add: sorted_map)

lemma takeWhile_sorted:
  "sorted_wrt (\<lambda>x y. f x \<le> f y) xs \<Longrightarrow> takeWhile (\<lambda>x. f x \<le> (c :: rat)) xs = filter (\<lambda>x. f x \<le> c) xs"
proof (induction xs)
  case (Cons x xs)
  show ?case
  proof (cases "f x \<le> c")
    case False
    then have "\<forall>y \<in> set xs. \<not> f y \<le> c" using Cons.prems by auto
    then show ?thesis using False by (simp add: filter_empty_conv)
  qed (use Cons in simp)
qed simp

lemma sum_list_mset_eq: "mset xs = mset ys \<Longrightarrow> (\<Sum>x \<leftarrow> xs. g x) = (\<Sum>x \<leftarrow> ys. (g x :: int))"
  by (metis mset_map sum_mset_sum_list)

lemma counts_at_split:
  "mset (filter isOpeningBalance txs) +
     filter_mset (\<lambda>t. tx_timestampEpoch t \<le> asOf) (mset (filter (\<lambda>t. \<not> isOpeningBalance t) txs)) =
   mset (filter (counts_at asOf) txs)"
  by (induction txs) (auto simp: counts_at_def)

text \<open>One call of \<open>advanceTo\<close>: it throws exactly when time runs backwards.\<close>

lemma advanceTo_lemma:
  assumes "sweep_ok txs stocks s"
  shows "(\<exists>last. sw_lastAsOf s = Some last \<and> asOf < last) \<and> advanceTo s asOf = Inl NonMonotoneAsOf \<or>
    (\<forall>last. sw_lastAsOf s = Some last \<longrightarrow> last \<le> asOf) \<and>
    (\<exists>snap s'. advanceTo s asOf = Inr (snap, s') \<and> sweep_ok txs stocks s' \<and> sw_lastAsOf s' = Some asOf \<and>
       snap_asOf snap = asOf \<and> snap_stocks snap = stocks \<and>
       (\<forall>acc. am_getOrZero 0 (snap_nanos snap) acc = balance_at txs asOf acc))"
proof (cases "\<exists>last. sw_lastAsOf s = Some last \<and> asOf < last")
  case True
  then show ?thesis by (auto simp: advanceTo_def)
next
  case False
  let ?ts = "sort_key tx_timestampEpoch (filter (\<lambda>t. \<not> isOpeningBalance t) txs)"
  let ?up = "takeWhile (\<lambda>t. tx_timestampEpoch t \<le> asOf) ?ts"
  have inv: "sw_sorted s = ?ts" "sw_stocks s = stocks" "sw_cursor s \<le> length ?ts"
      "\<And>acc. am_getOrZero 0 (sw_nanos s) acc = (\<Sum>t \<leftarrow> filter isOpeningBalance txs. delta acc t) +
        (\<Sum>t \<leftarrow> take (sw_cursor s) ?ts. delta acc t)"
    using assms by (auto simp: sweep_ok_def)
  have past: "\<forall>t \<in> set (take (sw_cursor s) ?ts). tx_timestampEpoch t \<le> asOf"
    using assms False by (fastforce simp: sweep_ok_def)
  have "\<forall>t \<in> set ?ts. \<not> isOpeningBalance t" by simp
  from advance_loop_lemma [OF sorted_key_wrt inv(3) this past]
  obtain nanos' where loop: "advance_loop ?ts asOf (sw_cursor s) (sw_nanos s) = Inr (length ?up, nanos')"
    and get: "\<And>acc. am_getOrZero 0 nanos' acc + (\<Sum>t \<leftarrow> take (sw_cursor s) ?ts. delta acc t) =
       am_getOrZero 0 (sw_nanos s) acc + (\<Sum>t \<leftarrow> ?up. delta acc t)"
    by blast
  have bal: "am_getOrZero 0 nanos' acc =
      (\<Sum>t \<leftarrow> filter isOpeningBalance txs. delta acc t) + (\<Sum>t \<leftarrow> ?up. delta acc t)" for acc
    using get [of acc] inv(4) [of acc] by simp
  have up: "take (length ?up) ?ts = ?up" by (rule takeWhile_eq_take [symmetric])
  have len: "length ?up \<le> length ?ts" by (rule length_takeWhile_le)
  have all: "(\<Sum>t \<leftarrow> filter isOpeningBalance txs. delta acc t) + (\<Sum>t \<leftarrow> ?up. delta acc t) = balance_at txs asOf acc" for acc
  proof -
    have "?up = filter (\<lambda>t. tx_timestampEpoch t \<le> asOf) ?ts" by (rule takeWhile_sorted [OF sorted_key_wrt])
    then have "mset (filter isOpeningBalance txs @ ?up) = mset (filter (counts_at asOf) txs)"
      unfolding counts_at_split [symmetric] by (simp only: mset_append mset_filter mset_sort)
    from sum_list_mset_eq [OF this, of "delta acc"] show ?thesis by (simp add: balance_at_def)
  qed
  have adv: "advanceTo s asOf = Inr (\<lparr>snap_asOf = asOf, snap_nanos = nanos', snap_stocks = stocks\<rparr>,
      s\<lparr>sw_lastAsOf := Some asOf, sw_nanos := nanos', sw_cursor := length ?up\<rparr>)"
    using False loop inv by (auto simp: advanceTo_def split: option.splits)
  have "sweep_ok txs stocks (s\<lparr>sw_lastAsOf := Some asOf, sw_nanos := nanos', sw_cursor := length ?up\<rparr>)"
    unfolding sweep_ok_def
  proof (intro conjI ballI allI)
    fix t assume "t \<in> set (take (sw_cursor (s\<lparr>sw_lastAsOf := Some asOf, sw_nanos := nanos', sw_cursor := length ?up\<rparr>))
        (sw_sorted (s\<lparr>sw_lastAsOf := Some asOf, sw_nanos := nanos', sw_cursor := length ?up\<rparr>)))"
    then have "t \<in> set ?up" by (simp add: inv up)
    then show "\<exists>lastAsOf. sw_lastAsOf (s\<lparr>sw_lastAsOf := Some asOf, sw_nanos := nanos', sw_cursor := length ?up\<rparr>) =
        Some lastAsOf \<and> tx_timestampEpoch t \<le> lastAsOf"
      by (auto dest: set_takeWhileD)
  qed (use len in \<open>simp_all add: inv bal up\<close>)
  moreover have "\<forall>acc. am_getOrZero 0 nanos' acc = balance_at txs asOf acc" using bal all by simp
  moreover have "\<forall>last. sw_lastAsOf s = Some last \<longrightarrow> last \<le> asOf" using False by auto
  ultimately show ?thesis
    using adv by (intro disjI2 conjI exI [of _ "\<lparr>snap_asOf = asOf, snap_nanos = nanos', snap_stocks = stocks\<rparr>"]
        exI [of _ "s\<lparr>sw_lastAsOf := Some asOf, sw_nanos := nanos', sw_cursor := length ?up\<rparr>"]) simp_all
qed

text \<open>The states a sweep can reach, and that all of them satisfy the invariant.\<close>

inductive sweep_reachable :: "transaction list \<Rightarrow> stock list \<Rightarrow> balance_sweep \<Rightarrow> bool" for txs stocks where
  sweep_init: "sweep_reachable txs stocks (mk_BalanceSweep txs stocks)"
| sweep_advance: "sweep_reachable txs stocks s \<Longrightarrow> advanceTo s asOf = Inr (snap, s') \<Longrightarrow>
     sweep_reachable txs stocks s'"

lemma sweep_reachable_ok: "sweep_reachable txs stocks s \<Longrightarrow> sweep_ok txs stocks s"
proof (induction rule: sweep_reachable.induct)
  case (sweep_advance s asOf snap s')
  then show ?case using advanceTo_lemma [of txs stocks s asOf] by auto
qed (rule sweep_ok_initial)

lemma balancesAsOf_lemma:
  "\<exists>snap. balancesAsOf txs stocks asOf = Inr snap \<and> snap_asOf snap = asOf \<and> snap_stocks snap = stocks \<and>
    (\<forall>acc. am_getOrZero 0 (snap_nanos snap) acc = balance_at txs asOf acc)"
  using advanceTo_lemma [OF sweep_ok_initial, of txs stocks asOf]
  by (auto simp: balancesAsOf_def mk_BalanceSweep_fields)

section \<open>Net worth\<close>

lemma rates_exchange_currency:
  "rates_exchange closestTo rates a target when = Some b \<Longrightarrow> cur_code (awc_currency b) = cur_code target"
  by (auto simp: rates_exchange_def split: if_splits option.splits)

lemma exchange_currency:
  "exchange closestTo ex a target when = Inr (Some b) \<Longrightarrow> cur_code (awc_currency b) = cur_code target"
  by (auto simp: exchange_def exchangeCurrency_def exchangeStock_def result_simps
      split: unit_of_account.splits option.splits dest: rates_exchange_currency)

text \<open>
  Adding up the converted balances never meets two currencies: the sum fails only when a balance
  has no unit or a stock no currency.
\<close>

definition account_value ::
  "closest_to \<Rightarrow> account_balances_snapshot \<Rightarrow> currency \<Rightarrow> stock_and_currency_exchange \<Rightarrow> bank_account \<Rightarrow>
     amount_with_currency option result" where
  "account_value closestTo snap target ex account =
     bind_result (snapshot_of snap account) (\<lambda>balance.
       exchange closestTo ex balance target (snap_asOf snap))"

lemma snapshot_sum_loop_eq:
  assumes "cur_code (awc_currency s) = cur_code target"
  shows "snapshot_sum_loop closestTo snap target ex s accounts = Inr (Some tot) \<longleftrightarrow>
    (\<exists>vs. list_all2 (\<lambda>a v. account_value closestTo snap target ex a = Inr (Some v)) accounts vs \<and>
       tot = (if accounts = [] then s else mk_awc (amountNanos s + (\<Sum>v \<leftarrow> vs. amountNanos v)) (awc_currency s)))"
  using assms
proof (induction accounts arbitrary: s)
  case (Cons a accounts)
  have step: "snapshot_sum_loop closestTo snap target ex s (a # accounts) = Inr (Some tot) \<longleftrightarrow>
      (\<exists>v. account_value closestTo snap target ex a = Inr (Some v) \<and>
         snapshot_sum_loop closestTo snap target ex (mk_awc (amountNanos s + amountNanos v) (awc_currency s)) accounts
           = Inr (Some tot))"
    using Cons.prems exchange_currency [of closestTo ex _ target "snap_asOf snap"]
    by (fastforce simp: account_value_def result_simps split: option.splits)
  have ih: "snapshot_sum_loop closestTo snap target ex (mk_awc (amountNanos s + amountNanos v) (awc_currency s)) accounts
           = Inr (Some tot) \<longleftrightarrow>
     (\<exists>vs. list_all2 (\<lambda>a v. account_value closestTo snap target ex a = Inr (Some v)) accounts vs \<and>
       tot = mk_awc (amountNanos s + (amountNanos v + (\<Sum>v \<leftarrow> vs. amountNanos v))) (awc_currency s))" for v
    using Cons.IH [of "mk_awc (amountNanos s + amountNanos v) (awc_currency s)"] Cons.prems
    by (cases accounts) (auto simp: add.assoc)
  show ?case unfolding step ih by (force simp: list_all2_Cons1)
qed (auto simp: Let_def)

lemma snapshot_sum_no_mismatch:
  "snapshot_sum closestTo snap accounts target ex \<noteq> Inl (CurrencyMismatch c d)"
proof -
  have unit: "accountUnit a stocks \<noteq> Inl (CurrencyMismatch c d)" for a stocks
    by (auto simp: accountUnit_def mustFindByCode_def map_sum_def split: option.splits list.splits sum.splits)
  have ex: "exchange closestTo ex b target when \<noteq> Inl (CurrencyMismatch c d)" for b "when"
    by (auto simp: exchange_def exchangeStock_def quotes_exchange_def mustFindByCode_def result_simps
        split: unit_of_account.splits option.splits if_splits)
  have "snapshot_sum_loop closestTo snap target ex s accounts \<noteq> Inl (CurrencyMismatch c d)"
    if "cur_code (awc_currency s) = cur_code target" for s
    using that
  proof (induction accounts arbitrary: s)
    case (Cons a accounts)
    then show ?case
      using unit ex exchange_currency [of closestTo ex _ target "snap_asOf snap"]
      by (fastforce simp: snapshot_of_def result_simps awc_add_def assertSameCurrency_def split: option.splits if_splits)
  qed simp
  then show ?thesis by (simp add: snapshot_sum_def)
qed

lemma snapshot_sum_cong:
  assumes "snap_asOf snap = snap_asOf snap'" "snap_stocks snap = snap_stocks snap'"
    and "\<And>acc. am_getOrZero 0 (snap_nanos snap) acc = am_getOrZero 0 (snap_nanos snap') acc"
  shows "snapshot_sum closestTo snap accounts target ex = snapshot_sum closestTo snap' accounts target ex"
proof -
  have "snapshot_of snap a = snapshot_of snap' a" for a using assms by (simp add: snapshot_of_def)
  then have "snapshot_sum_loop closestTo snap target ex s accounts = snapshot_sum_loop closestTo snap' target ex s accounts" for s
    using assms(1) by (induction accounts arbitrary: s) (auto intro!: bind_result_cong split: option.split)
  then show ?thesis by (simp add: snapshot_sum_def)
qed

text \<open>The reference: every sample computed on its own.\<close>

definition net_worth_at ::
  "closest_to \<Rightarrow> bank_account list \<Rightarrow> currency \<Rightarrow> stock_and_currency_exchange \<Rightarrow> transaction list \<Rightarrow>
     stock list \<Rightarrow> rat \<Rightarrow> (rat \<times> amount_with_currency) list result" where
  "net_worth_at closestTo accounts target ex txs stocks asOf =
     bind_result (balancesAsOf txs stocks asOf) (\<lambda>snap.
     bind_result (snapshot_sum closestTo snap accounts target ex) (\<lambda>tot.
       Inr (case tot of None \<Rightarrow> [] | Some amount \<Rightarrow> [(asOf, amount)])))"

lemma timeline_fold:
  assumes "sweep_ok txs stocks s" "sorted dates"
    and "\<And>d last. d \<in> set dates \<Longrightarrow> sw_lastAsOf s = Some last \<Longrightarrow> last \<le> d"
  shows "map_sum id snd (fold_result (timeline_step closestTo accounts target ex) (s, points) dates) =
    map_sum id (\<lambda>ps. points @ concat ps) (map_result (net_worth_at closestTo accounts target ex txs stocks) dates)"
  using assms
proof (induction dates arbitrary: s points)
  case (Cons d dates)
  have ge: "last \<le> d" if "sw_lastAsOf s = Some last" for last using Cons.prems(3) [of d last] that by simp
  then obtain snap s' where adv: "advanceTo s d = Inr (snap, s')" "sweep_ok txs stocks s'" "sw_lastAsOf s' = Some d"
      "snap_asOf snap = d" "snap_stocks snap = stocks"
      "\<And>acc. am_getOrZero 0 (snap_nanos snap) acc = balance_at txs d acc"
    using advanceTo_lemma [OF Cons.prems(1), of d] by force
  obtain snap0 where snap0: "balancesAsOf txs stocks d = Inr snap0" "snap_asOf snap0 = d" "snap_stocks snap0 = stocks"
      "\<And>acc. am_getOrZero 0 (snap_nanos snap0) acc = balance_at txs d acc"
    using balancesAsOf_lemma by blast
  have same: "snapshot_sum closestTo snap0 accounts target ex = snapshot_sum closestTo snap accounts target ex"
    using adv snap0 by (intro snapshot_sum_cong) auto
  show ?case
  proof (cases "snapshot_sum closestTo snap accounts target ex")
    case (Inl e)
    then show ?thesis using adv snap0 same by (simp add: timeline_step_def net_worth_at_def)
  next
    case (Inr tot)
    have ih: "map_sum id snd (fold_result (timeline_step closestTo accounts target ex) (s', ps) dates) =
        map_sum id (\<lambda>qs. ps @ concat qs) (map_result (net_worth_at closestTo accounts target ex txs stocks) dates)" for ps
      using Cons.prems(2) adv by (intro Cons.IH) auto
    define new where "new = (case tot of None \<Rightarrow> [] | Some amount \<Rightarrow> [(d, amount)])"
    have "timeline_step closestTo accounts target ex (s, points) d = Inr (s', points @ new)"
      using Inr adv by (simp add: timeline_step_def new_def split: option.split)
    moreover have "net_worth_at closestTo accounts target ex txs stocks d = Inr new"
      using Inr snap0 same by (simp add: net_worth_at_def new_def)
    ultimately show ?thesis
      using ih [of "points @ new"]
      by (cases "map_result (net_worth_at closestTo accounts target ex txs stocks) dates") (simp_all add: id_def)
  qed
qed simp

lemma netWorthTimeline_lemma:
  assumes "evenlySpacedNumbers start end sampleCount = Inr dates" "sorted dates"
  shows "netWorthTimeline closestTo accounts target ex txs stocks start end sampleCount =
    map_sum id concat (map_result (net_worth_at closestTo accounts target ex txs stocks) dates)"
proof -
  let ?fold = "fold_result (timeline_step closestTo accounts target ex) (mk_BalanceSweep txs stocks, []) dates"
  have "map_sum id snd ?fold =
      map_sum id (\<lambda>ps. [] @ concat ps) (map_result (net_worth_at closestTo accounts target ex txs stocks) dates)"
    by (rule timeline_fold [OF sweep_ok_initial assms(2)]) (simp add: mk_BalanceSweep_fields)
  moreover have "bind_result ?fold (\<lambda>(_, points). Inr points) = map_sum id snd ?fold"
    by (cases ?fold) auto
  ultimately show ?thesis using assms(1) by (simp add: netWorthTimeline_def)
qed

section \<open>Properties\<close>

text \<open>
  C1: the balance sweep refines the balance of an account at a date. In every state the sweep can
  reach, advancing it to an earlier date than before throws; advancing it otherwise succeeds, stays
  reachable, and the snapshot it returns gives every account exactly the sum of the effects of the
  opening balances and of the transactions dated up to and including that date.
\<close>
theorem sweep_snapshot_balance:
  assumes "sweep_reachable txs stocks s"
  shows "if \<exists>last. sw_lastAsOf s = Some last \<and> asOf < last
    then advanceTo s asOf = Inl NonMonotoneAsOf
    else \<exists>snap s'. advanceTo s asOf = Inr (snap, s') \<and> sweep_reachable txs stocks s' \<and>
      sw_lastAsOf s' = Some asOf \<and> snap_asOf snap = asOf \<and>
      (\<forall>acc. am_getOrZero 0 (snap_nanos snap) acc = balance_at txs asOf acc)"
  using advanceTo_lemma [OF sweep_reachable_ok [OF assms], of asOf] sweep_advance [OF assms]
  by (metis linorder_not_less)

theorem sweep_snapshot_balance_witness:
  "\<exists>snap s'. advanceTo (mk_BalanceSweep [PersonalExpense sample_expense, Income sample_income] []) 1500 =
      Inr (snap, s') \<and> am_getOrZero 0 (snap_nanos snap) 7 = 300"
proof -
  let ?txs = "[PersonalExpense sample_expense, Income sample_income]"
  have no_last: "\<not> (\<exists>last. sw_lastAsOf (mk_BalanceSweep ?txs []) = Some last \<and> 1500 < last)"
    by (simp add: mk_BalanceSweep_fields)
  have "balance_at ?txs 1500 7 = 300"
    by (simp add: balance_at_def counts_at_def sample_expense_def sample_income_def)
  moreover obtain snap s' where "advanceTo (mk_BalanceSweep ?txs []) 1500 = Inr (snap, s')"
    "\<forall>acc. am_getOrZero 0 (snap_nanos snap) acc = balance_at ?txs 1500 acc"
    using sweep_snapshot_balance [OF sweep_init, of ?txs "[]" 1500] unfolding if_not_P [OF no_last] by blast
  ultimately show ?thesis by auto
qed

text \<open>
  C2: the net worth timeline is the pointwise net worth. The single sweep over the transactions
  that \<open>netWorthTimeline\<close> makes yields, for ascending sample dates, exactly the points (and the
  errors) of computing the balances of every sample date from scratch.
\<close>
theorem netWorthTimeline_pointwise:
  assumes "evenlySpacedNumbers start end sampleCount = Inr dates" "sorted dates"
  shows "netWorthTimeline closestTo accounts target ex txs stocks start end sampleCount =
    map_sum id concat (map_result (net_worth_at closestTo accounts target ex txs stocks) dates)"
  by (rule netWorthTimeline_lemma [OF assms])

theorem netWorthTimeline_pointwise_witness:
  "netWorthTimeline first_closest [] \<lparr>cur_code = ''USD''\<rparr> \<lparr>exchangeRates = [], stockQuotes = []\<rparr>
      [Income sample_income] [] 0 2000 1 =
    map_sum id concat (map_result (net_worth_at first_closest [] \<lparr>cur_code = ''USD''\<rparr>
      \<lparr>exchangeRates = [], stockQuotes = []\<rparr> [Income sample_income] []) [2000])"
  by (rule netWorthTimeline_pointwise) (simp_all add: evenlySpacedNumbers_def)

text \<open>
  The sum of a snapshot. A total over accounts exists exactly when every account's balance can
  be exchanged to the target currency; it is then the sum of the exchanged balances, and adding
  them up never meets two different currencies.
\<close>
theorem snapshot_sum_total:
  "(snapshot_sum closestTo snap accounts target ex = Inr (Some tot) \<longleftrightarrow>
     (\<exists>vs. list_all2 (\<lambda>a v. account_value closestTo snap target ex a = Inr (Some v)) accounts vs \<and>
        tot = mk_awc (\<Sum>v \<leftarrow> vs. amountNanos v) target)) \<and>
   (\<forall>c d. snapshot_sum closestTo snap accounts target ex \<noteq> Inl (CurrencyMismatch c d))"
proof -
  have "snapshot_sum closestTo snap accounts target ex = Inr (Some tot) \<longleftrightarrow>
     (\<exists>vs. list_all2 (\<lambda>a v. account_value closestTo snap target ex a = Inr (Some v)) accounts vs \<and>
        tot = (if accounts = [] then awc_zero target
               else mk_awc (amountNanos (awc_zero target) + (\<Sum>v \<leftarrow> vs. amountNanos v)) (awc_currency (awc_zero target))))"
    unfolding snapshot_sum_def by (rule snapshot_sum_loop_eq) simp
  then show ?thesis using snapshot_sum_no_mismatch [of closestTo snap accounts target ex]
    by (cases accounts) (auto simp: awc_zero_def)
qed

end
