(* ===== verification/Stats.thy ===== *)
theory Stats
  imports Util "HOL-Library.Sublist"
begin

text \<open>
  Collection algorithms: \<open>lib/util/set.tsx\<close> (\<open>intersect\<close>, \<open>union\<close>), \<open>lib/util/stats.tsx\<close>
  (\<open>percentile\<close>, \<open>runningAverage\<close>, \<open>topN\<close>) and \<open>lib/collections.ts\<close>
  (\<open>uniqMostFrequent\<close>). The lemmas give each its reference meaning: multiset intersection,
  nearest-rank percentile, mean of the last window, partition into head and tail of the ranking.
\<close>

section \<open>Frequencies\<close>

definition freq_add :: "'a \<Rightarrow> ('a, int) js_map \<Rightarrow> ('a, int) js_map" where
  "freq_add x freq =
     (case jm_get freq x of None \<Rightarrow> jm_set x 1 freq | Some existing \<Rightarrow> jm_set x (existing + 1) freq)"

definition freq_of :: "'a list \<Rightarrow> ('a, int) js_map" where
  "freq_of a = foldl (\<lambda>m x. freq_add x m) [] a"

lemma freq_of_snoc: "freq_of (xs @ [x]) = freq_add x (freq_of xs)"
  by (simp add: freq_of_def)

lemma jm_get_freq_of:
  "jm_get (freq_of xs) x = (if x \<in> set xs then Some (int (count_list xs x)) else None)"
  by (induction xs rule: rev_induct)
    (auto simp: freq_of_def freq_add_def split: option.splits)

lemma jm_ok_freq_of [simp]: "jm_ok (freq_of xs)"
  by (induction xs rule: rev_induct)
    (auto simp: freq_of_def freq_add_def split: option.splits)

lemma jm_keys_freq_of: "jm_keys (freq_of xs) = js_set xs"
proof (induction xs rule: rev_induct)
  case (snoc x xs)
  have "jm_keys (freq_of (xs @ [x])) =
      (if x \<in> set (jm_keys (freq_of xs)) then jm_keys (freq_of xs) else jm_keys (freq_of xs) @ [x])"
    unfolding freq_of_snoc freq_add_def by (auto simp: jm.keys_set split: option.splits)
  with snoc show ?case by (simp add: js_set_def js_set_add_def)
qed (simp add: freq_of_def js_set_def)

section \<open>intersect and union\<close>

fun intersect_filter :: "('a, int) js_map \<Rightarrow> 'a list \<Rightarrow> 'a list" where
  "intersect_filter freq [] = []"
| "intersect_filter freq (value # b) =
     (case jm_get freq value of
        None \<Rightarrow> intersect_filter freq b
      | Some f \<Rightarrow>
          if f = 0 then intersect_filter freq b
          else value # intersect_filter (jm_set value (f - 1) freq) b)"

function intersect :: "'a list \<Rightarrow> 'a list \<Rightarrow> 'a list" where
  "intersect a b =
     (if length a > length b then intersect b a else intersect_filter (freq_of a) b)"
  by pat_completeness auto
termination
  by (relation "measure (\<lambda>(a, b). if length a > length b then 1 else 0)") auto

declare intersect.simps [simp del]

lemma count_list_intersect_filter:
  assumes "\<And>y. 0 \<le> am_getOrZero 0 freq y"
  shows "int (count_list (intersect_filter freq b) x) =
    min (am_getOrZero 0 freq x) (int (count_list b x))"
  using assms
proof (induction b arbitrary: freq)
  case (Cons v b)
  show ?case
  proof (cases "jm_get freq v = None \<or> jm_get freq v = Some 0")
    case True
    then have "am_getOrZero 0 freq v = 0" by (auto simp: am_getOrZero_def)
    moreover have "intersect_filter freq (v # b) = intersect_filter freq b" using True by auto
    ultimately show ?thesis using Cons.IH [OF Cons.prems] Cons.prems by auto
  next
    case False
    then obtain f where f: "jm_get freq v = Some f" "f \<noteq> 0" by auto
    then have pos: "0 < f" using Cons.prems [of v] by (simp add: am_getOrZero_def)
    let ?freq = "jm_set v (f - 1) freq"
    have upd: "am_getOrZero 0 ?freq y = (if y = v then f - 1 else am_getOrZero 0 freq y)" for y
      by (simp add: am_getOrZero_def)
    have "int (count_list (intersect_filter ?freq b) x) =
        min (am_getOrZero 0 ?freq x) (int (count_list b x))"
      using Cons.IH [of ?freq] Cons.prems pos upd by simp
    then show ?thesis using f upd by (auto simp: am_getOrZero_def)
  qed
qed (simp add: am_getOrZero_def)

lemma am_getOrZero_freq_of: "am_getOrZero 0 (freq_of xs) x = int (count_list xs x)"
  by (auto simp: am_getOrZero_def jm_get_freq_of count_list_0_iff)

lemma count_list_intersect: "count_list (intersect a b) x = min (count_list a x) (count_list b x)"
proof -
  have *: "count_list (intersect_filter (freq_of c) d) x = min (count_list c x) (count_list d x)"
    for c d :: "'a list"
    using count_list_intersect_filter [of "freq_of c" d x] by (simp add: am_getOrZero_freq_of)
  show ?thesis
    by (subst intersect.simps, subst intersect.simps) (auto simp: *)
qed

lemma subseq_intersect_filter: "subseq (intersect_filter freq b) b"
  by (induction freq b rule: intersect_filter.induct) (auto split: option.splits)

lemma subseq_intersect: "length a \<le> length b \<Longrightarrow> subseq (intersect a b) b"
  by (subst intersect.simps) (simp add: subseq_intersect_filter)

lemma set_intersect [simp]: "set (intersect a b) = set a \<inter> set b"
proof -
  have "x \<in> set (intersect a b) \<longleftrightarrow> x \<in> set a \<and> x \<in> set b" for x
    using count_list_intersect [of a b x] by (metis count_list_0_iff min_0L min_0R min_def)
  then show ?thesis by blast
qed

lemma count_list_le_1: "distinct xs \<longleftrightarrow> (\<forall>x. count_list xs x \<le> 1)"
proof -
  have "count_list xs x \<le> 1 \<longleftrightarrow> count_list xs x = (if x \<in> set xs then 1 else 0)" for x
    using count_list_0_iff [of xs x] by auto
  then show ?thesis by (simp add: distinct_count_atmost_1 count_mset)
qed

lemma distinct_intersect: "distinct a \<Longrightarrow> distinct (intersect a b)"
  by (auto simp: count_list_le_1 count_list_intersect min_le_iff_disj)

definition js_union :: "'a list \<Rightarrow> 'a list \<Rightarrow> 'a list" where
  "js_union a b = foldl (\<lambda>s x. js_set_add x s) (js_set a) b"

lemma set_js_union [simp]: "set (js_union a b) = set a \<union> set b"
  by (simp add: js_union_def foldl_js_set_add)

lemma distinct_js_union [simp]: "distinct (js_union a b)"
  by (simp add: js_union_def foldl_js_set_add)

section \<open>Percentiles and averages\<close>

definition percentile :: "rat list \<Rightarrow> rat \<Rightarrow> rat result" where
  "percentile data p =
     (if p < 0 \<or> p > 100 \<or> p \<noteq> of_int \<lfloor>p\<rfloor> then Inl InvalidPercentile
      else if data = [] then Inl EmptyData
      else if p = 0 then Inr (data ! 0)
      else let sorted = js_sort (by_number (\<lambda>x. x)) data;
               position = \<lceil>n_div (n_mul (of_nat (length data)) p) 100\<rceil> - 1
           in Inr (sorted ! nat position))"

lemma js_sort_number [simp]: "js_sort (by_number (\<lambda>x. x)) data = sort data"
proof -
  have "js_sort (by_number (\<lambda>x. x)) data = js_sort (by_key (\<lambda>x. x)) data"
    by (rule js_sort_cong) (simp add: by_key_def)
  then show ?thesis by simp
qed

fun running_average_loop ::
  "nat \<Rightarrow> rat list \<Rightarrow> rat \<Rightarrow> rat list \<Rightarrow> rat list \<Rightarrow> rat list" where
  "running_average_loop window slidingWindow acc averages [] = averages"
| "running_average_loop window slidingWindow acc averages (amount # data) =
     (let slidingWindow = slidingWindow @ [amount];
          acc = n_add acc amount;
          overfull = length slidingWindow > window;
          acc = (if overfull then n_sub acc (hd slidingWindow) else acc);
          slidingWindow = (if overfull then tl slidingWindow else slidingWindow);
          avg = n_div acc (of_nat (length slidingWindow))
      in running_average_loop window slidingWindow acc (averages @ [avg]) data)"

definition stats_runningAverage :: "rat list \<Rightarrow> rat \<Rightarrow> rat list result" where
  "stats_runningAverage data window =
     (if window \<le> 0 \<or> window \<noteq> of_int \<lfloor>window\<rfloor> then Inl InvalidWindow
      else Inr (running_average_loop (nat \<lfloor>window\<rfloor>) [] 0 [] data))"

text \<open>The position \<open>percentile\<close> reads is the exact nearest rank: rounding cannot cross an integer.\<close>

lemma ceiling_n_div_100:
  assumes "0 \<le> m" "m \<le> 2 ^ 46"
  shows "\<lceil>n_div (of_int m) 100\<rceil> = - ((- m) div 100)"
proof -
  define k where "k = - ((- m) div 100)"
  have km: "k * 100 - 99 \<le> m" "m \<le> k * 100" unfolding k_def by linarith+
  then have kb: "\<bar>k\<bar> \<le> 2 ^ 53" using assms by (simp add: abs_if)
  have "(of_int m :: rat) \<le> of_int (k * 100)" using km by (simp only: of_int_le_iff)
  then have "f64 (of_int m / 100) \<le> f64 (of_int k)" by (intro f64_mono) simp
  then have hi: "n_div (of_int m) 100 \<le> of_int k" using kb by (simp add: n_div_def)
  have "(of_int (k * 100 - 99) :: rat) \<le> of_int m" using km by (simp only: of_int_le_iff)
  then have lo: "of_int k - 99 / 100 \<le> (of_int m / 100 :: rat)" by simp
  have "(of_int m :: rat) \<le> of_int (2 ^ 46)" using assms by (simp only: of_int_le_iff)
  then have "\<bar>of_int m / 100 :: rat\<bar> / 2 ^ 53 < 1 / 100" using assms(1) by simp
  then have "of_int m / 100 - 1 / 100 < n_div (of_int m) 100"
    using f64_error [of "of_int m / 100"] unfolding n_div_def by linarith
  then have "of_int k - 1 < n_div (of_int m) 100" using lo by linarith
  with hi have "\<lceil>n_div (of_int m) 100\<rceil> = k" by (intro ceiling_unique) simp_all
  then show ?thesis by (simp add: k_def)
qed

lemma sorted_count_le: "sorted xs \<Longrightarrow> k < length xs \<Longrightarrow> k < length (filter (\<lambda>x. x \<le> xs ! k) xs)"
proof -
  assume s: "sorted xs" and k: "k < length xs"
  have "filter (\<lambda>x. x \<le> xs ! k) (take (Suc k) xs) = take (Suc k) xs"
    using s k by (auto simp: filter_id_conv in_set_conv_nth less_Suc_eq_le intro!: sorted_nth_mono)
  then have "filter (\<lambda>x. x \<le> xs ! k) xs = take (Suc k) xs @ filter (\<lambda>x. x \<le> xs ! k) (drop (Suc k) xs)"
    by (metis append_take_drop_id filter_append)
  then show ?thesis using k by simp
qed

lemma sorted_count_less: "sorted xs \<Longrightarrow> k < length xs \<Longrightarrow> length (filter (\<lambda>x. x < xs ! k) xs) \<le> k"
proof -
  assume s: "sorted xs" and k: "k < length xs"
  have "filter (\<lambda>x. x < xs ! k) (drop k xs) = []"
    using s k by (auto simp: filter_empty_conv in_set_conv_nth not_less intro!: sorted_nth_mono)
  then have "filter (\<lambda>x. x < xs ! k) xs = filter (\<lambda>x. x < xs ! k) (take k xs)"
    by (metis append_Nil2 append_take_drop_id filter_append)
  then show ?thesis using k by (metis length_filter_le length_take min.absorb4)
qed

lemma length_filter_sort [simp]: "length (filter P (sort xs)) = length (filter P xs)"
  by (metis mset_filter mset_sort size_mset)

lemma percentile_nearest_rank_lemma:
  assumes data: "data \<noteq> []" "length data \<le> 2 ^ 39" and p: "1 \<le> p" "p \<le> 100"
  shows "\<exists>r. percentile data (of_int p) = Inr r \<and> r \<in> set data \<and>
    p * int (length data) \<le> 100 * int (length (filter (\<lambda>x. x \<le> r) data)) \<and>
    100 * int (length (filter (\<lambda>x. x < r) data)) < p * int (length data)"
proof -
  define n m where "n = int (length data)" and "m = int (length data) * p"
  have n: "1 \<le> n" "n \<le> 2 ^ 39" using data by (auto simp: n_def Suc_le_eq)
  have "n * p \<le> n * 100" "n * 1 \<le> n * p" using n p by (auto intro!: mult_left_mono)
  then have m: "1 \<le> m" "m \<le> n * 100" "m \<le> 2 ^ 46" using n by (auto simp: m_def n_def)
  define q where "q = - ((- m) div 100)"
  have q: "q * 100 - 99 \<le> m" "m \<le> q * 100" unfolding q_def by linarith+
  define k where "k = nat (q - 1)"
  have "int k = q - 1" unfolding k_def using m q by linarith
  then have k: "100 * int k < m" "m \<le> 100 * (int k + 1)" using q by auto
  then have klen: "k < length data" using m by (simp add: n_def)
  have "n_mul (of_nat (length data)) (of_int p) = of_int m"
  proof -
    have "f64 (of_int m) = of_int m" using m by (intro f64_of_int) (simp add: abs_if)
    then show ?thesis by (simp add: n_mul_def m_def)
  qed
  then have "percentile data (of_int p) = Inr (sort data ! k)"
    using data p m ceiling_n_div_100 [of m] by (simp add: percentile_def k_def q_def Let_def)
  moreover have "sort data ! k \<in> set data" using klen by (metis length_sort nth_mem set_sort)
  moreover have "k < length (filter (\<lambda>x. x \<le> sort data ! k) data)"
    using sorted_count_le [of "sort data" k] klen by simp
  moreover have "length (filter (\<lambda>x. x < sort data ! k) data) \<le> k"
    using sorted_count_less [of "sort data" k] klen by simp
  ultimately show ?thesis using k by (auto simp: m_def mult.commute)
qed

text \<open>The last \<open>w\<close> elements of a list.\<close>

definition last_n :: "nat \<Rightarrow> 'a list \<Rightarrow> 'a list" where
  "last_n w xs = drop (length xs - w) xs"

lemma length_last_n [simp]: "length (last_n w xs) = min w (length xs)"
  by (simp add: last_n_def)

lemma last_n_snoc: "0 < w \<Longrightarrow> last_n w (xs @ [x]) =
  (if length (last_n w xs @ [x]) > w then tl (last_n w xs @ [x]) else last_n w xs @ [x])"
proof (cases "w \<le> length xs")
  case True
  assume w: "0 < w"
  then have "drop (length xs - w) xs \<noteq> []" using True by simp
  moreover have "tl (drop (length xs - w) xs) = drop (Suc (length xs) - w) xs"
    using True by (simp add: tl_drop drop_Suc [symmetric] Suc_diff_le drop_tl)
  ultimately show ?thesis using True w by (simp add: last_n_def Suc_diff_le)
qed (simp add: last_n_def)

text \<open>The mean of the last \<open>w\<close> values, by one double division.\<close>

definition window_mean :: "nat \<Rightarrow> rat list \<Rightarrow> rat" where
  "window_mean w xs = n_div (sum_list (last_n w xs)) (of_nat (length (last_n w xs)))"

text \<open>Integral data whose absolute values add up to less than \<open>2 ^ 53\<close>: sums are exact.\<close>

definition exact_sums :: "rat list \<Rightarrow> bool" where
  "exact_sums xs \<longleftrightarrow> list_all (\<lambda>x. x = of_int \<lfloor>x\<rfloor>) xs \<and> (\<Sum>x \<leftarrow> xs. \<bar>x\<bar>) \<le> 2 ^ 53"

lemma sum_list_integral: "list_all (\<lambda>x. x = of_int \<lfloor>x\<rfloor>) xs \<Longrightarrow> sum_list xs = (of_int \<lfloor>sum_list xs\<rfloor> :: rat)"
proof (induction xs)
  case (Cons x xs)
  then obtain i j where "x = of_int i" "sum_list xs = of_int j" by auto
  then show ?case by (simp flip: of_int_add)
qed simp

lemma f64_integral: "x = of_int \<lfloor>x\<rfloor> \<Longrightarrow> \<bar>x\<bar> \<le> 2 ^ 53 \<Longrightarrow> f64 x = x"
proof -
  assume x: "x = of_int \<lfloor>x\<rfloor>" and le: "\<bar>x\<bar> \<le> 2 ^ 53"
  have "(of_int \<bar>\<lfloor>x\<rfloor>\<bar> :: rat) \<le> of_int (2 ^ 53)" using x le by (metis of_int_abs of_int_numeral of_int_power)
  then have "\<bar>\<lfloor>x\<rfloor>\<bar> \<le> 2 ^ 53" unfolding of_int_le_iff .
  then show ?thesis using x f64_of_int by metis
qed

lemma abs_sum_list_le: "\<bar>sum_list xs\<bar> \<le> (\<Sum>x \<leftarrow> xs. \<bar>x :: rat\<bar>)"
  by (induction xs) (auto intro: order_trans [OF abs_triangle_ineq] add_left_mono)

lemma f64_exact_sums: "exact_sums xs \<Longrightarrow> f64 (sum_list xs) = sum_list xs"
  unfolding exact_sums_def
  by (intro f64_integral sum_list_integral) (auto intro: order_trans [OF abs_sum_list_le])

lemma sum_abs_nonneg: "0 \<le> (\<Sum>x \<leftarrow> xs. \<bar>x :: rat\<bar>)"
  by (intro sum_list_nonneg) auto

lemma exact_sums_suffix: "exact_sums (xs @ ys) \<Longrightarrow> exact_sums ys"
  using sum_abs_nonneg [of xs] by (auto simp: exact_sums_def)

lemma exact_sums_prefix: "exact_sums (xs @ ys) \<Longrightarrow> exact_sums xs"
  using sum_abs_nonneg [of ys] by (auto simp: exact_sums_def)

lemma exact_sums_last_n_snoc: "exact_sums (xs @ [x]) \<Longrightarrow> exact_sums (last_n w xs @ [x])"
  by (rule exact_sums_suffix [of "take (length xs - w) xs"]) (simp add: last_n_def flip: append_assoc)

lemma running_average_loop_eq:
  assumes "0 < w" and "exact_sums (seen @ data)"
  shows "running_average_loop w (last_n w seen) (sum_list (last_n w seen)) averages data =
    averages @ map (\<lambda>i. window_mean w (seen @ take (Suc i) data)) [0..<length data]"
  using assms(2)
proof (induction data arbitrary: seen averages)
  case (Cons x data)
  let ?sw = "last_n w seen @ [x]"
  have ex: "exact_sums ?sw"
    using Cons.prems exact_sums_prefix [of "seen @ [x]" data] by (auto intro: exact_sums_last_n_snoc)
  have add: "n_add (sum_list (last_n w seen)) x = sum_list ?sw"
    using f64_exact_sums [OF ex] by (simp add: n_add_def)
  have sub: "n_sub (sum_list ?sw) (hd ?sw) = sum_list (tl ?sw)"
  proof -
    have "?sw = [hd ?sw] @ tl ?sw" by simp
    then have "exact_sums (tl ?sw)" using ex exact_sums_suffix by metis
    moreover have "sum_list ?sw - hd ?sw = sum_list (tl ?sw)"
      by (metis \<open>?sw = [hd ?sw] @ tl ?sw\<close> add_diff_cancel_left' append_Cons append_Nil sum_list.Cons)
    ultimately show ?thesis by (simp add: n_sub_def f64_exact_sums)
  qed
  have snoc: "last_n w (seen @ [x]) = (if length ?sw > w then tl ?sw else ?sw)"
    by (rule last_n_snoc [OF assms(1)])
  have "running_average_loop w (last_n w seen) (sum_list (last_n w seen)) averages (x # data) =
      running_average_loop w (last_n w (seen @ [x])) (sum_list (last_n w (seen @ [x])))
        (averages @ [window_mean w (seen @ [x])]) data"
    unfolding running_average_loop.simps Let_def add sub window_mean_def snoc by (simp split: if_split)
  also have "\<dots> = averages @ window_mean w (seen @ [x]) #
      map (\<lambda>i. window_mean w ((seen @ [x]) @ take (Suc i) data)) [0..<length data]"
    using Cons.IH [of "seen @ [x]" "averages @ [window_mean w (seen @ [x])]"] Cons.prems by simp
  also have "\<dots> = averages @ map (\<lambda>i. window_mean w (seen @ take (Suc i) (x # data))) [0..<length (x # data)]"
    by (simp add: upt_conv_Cons map_Suc_upt [symmetric] del: upt_Suc map_Suc_upt)
  finally show ?case .
qed simp

section \<open>Ranking\<close>

record 'a top_n =
  top :: "('a \<times> rat) list"
  otherSum :: rat
  otherCount :: nat

definition topN :: "('a, rat) js_map \<Rightarrow> nat \<Rightarrow> 'a top_n" where
  "topN data n =
     (let sorted = js_sort (\<lambda>a b. n_sub (snd b) (snd a)) data;
          top = take n sorted;
          otherItems = drop n sorted;
          otherSum = foldl n_add 0 (map snd otherItems)
      in \<lparr>top = top, otherSum = otherSum, otherCount = length otherItems\<rparr>)"

definition uniqMostFrequent :: "'a list \<Rightarrow> 'a list" where
  "uniqMostFrequent items =
     (let frequency = foldl (\<lambda>m x. jm_set x ((case jm_get m x of Some f \<Rightarrow> f | None \<Rightarrow> (0 :: int)) + 1) m) [] items
      in map fst (js_sort (\<lambda>a b. snd b - snd a) frequency))"

definition uniqMostFrequentIgnoringEmpty :: "'a option list \<Rightarrow> 'a list" where
  "uniqMostFrequentIgnoringEmpty items = uniqMostFrequent (List.map_filter (\<lambda>x. x) items)"

interpretation most_frequent: js_comparator "\<lambda>a b. snd b - snd a :: int"
  by unfold_locales auto

lemma js_comparator_numeric_desc: "js_comparator (\<lambda>a b. n_sub (key b) (key a))"
  by unfold_locales (auto simp: n_sub_def)

interpretation ranking: js_comparator "\<lambda>a b. n_sub (snd b) (snd a)"
  by (rule js_comparator_numeric_desc)

lemma frequency_eq:
  "foldl (\<lambda>m x. jm_set x ((case jm_get m x of Some f \<Rightarrow> f | None \<Rightarrow> 0) + 1) m) [] items = freq_of items"
  by (induction items rule: rev_induct) (auto simp: freq_of_def freq_add_def split: option.splits)

lemma freq_of_entry: "(x, f) \<in> set (freq_of xs) \<Longrightarrow> f = int (count_list xs x)"
  by (auto simp: jm_entry_iff jm_get_freq_of split: if_splits)

lemma set_uniqMostFrequent: "set (uniqMostFrequent items) = set items"
proof -
  have "set (uniqMostFrequent items) = set (jm_keys (freq_of items))"
    by (simp add: uniqMostFrequent_def frequency_eq jm_keys_def)
  then show ?thesis by (simp add: jm_keys_freq_of)
qed

lemma distinct_uniqMostFrequent: "distinct (uniqMostFrequent items)"
proof -
  have "mset (uniqMostFrequent items) = mset (map fst (freq_of items))"
    by (simp add: uniqMostFrequent_def frequency_eq)
  then show ?thesis
    using jm_ok_freq_of [of items] by (metis jm_ok_def mset_eq_imp_distinct_iff)
qed

lemma sorted_uniqMostFrequent:
  "sorted_wrt (\<lambda>x y. count_list items y \<le> count_list items x) (uniqMostFrequent items)"
proof -
  let ?s = "js_sort (\<lambda>a b. snd b - snd a) (freq_of items)"
  have "sorted_wrt (\<lambda>a b. snd b - snd a \<le> (0::int)) ?s" by (rule most_frequent.sorted)
  then have "sorted_wrt (\<lambda>a b. count_list items (fst b) \<le> count_list items (fst a)) ?s"
  proof (rule sorted_wrt_mono_rel [rotated])
    fix a b assume "a \<in> set ?s" "b \<in> set ?s" and le: "snd b - snd a \<le> (0::int)"
    then have "snd a = int (count_list items (fst a))" "snd b = int (count_list items (fst b))"
      by (auto intro: freq_of_entry)
    with le show "count_list items (fst b) \<le> count_list items (fst a)" by simp
  qed
  then show ?thesis by (simp add: uniqMostFrequent_def frequency_eq sorted_wrt_map)
qed

section \<open>Properties\<close>

text \<open>
  \<open>intersect\<close> is the multiset intersection: an element occurs in the result as often as in the
  list that has fewer of it, whichever list is longer, and the result keeps the order of the longer
  list.
\<close>
theorem intersect_multiset:
  "count_list (intersect a b) x = min (count_list a x) (count_list b x) \<and>
   subseq (intersect a b) (if length a \<le> length b then b else a)"
proof (cases "length a \<le> length b")
  case False
  then have "intersect a b = intersect b a" by (simp add: intersect.simps [of a b])
  with False show ?thesis using subseq_intersect [of b a] by (simp add: count_list_intersect)
qed (simp add: count_list_intersect subseq_intersect)

text \<open>
  \<open>percentile\<close> is the nearest-rank percentile: the result is a data point, at least \<open>p\<close>
  percent of the data are at most it and less than \<open>p\<close> percent are below it.
\<close>
theorem percentile_nearest_rank:
  assumes "data \<noteq> []" "length data \<le> 2 ^ 39" "1 \<le> p" "p \<le> 100"
  shows "\<exists>r. percentile data (of_int p) = Inr r \<and> r \<in> set data \<and>
    p * int (length data) \<le> 100 * int (length (filter (\<lambda>x. x \<le> r) data)) \<and>
    100 * int (length (filter (\<lambda>x. x < r) data)) < p * int (length data)"
  by (rule percentile_nearest_rank_lemma [OF assms])

theorem percentile_nearest_rank_witness:
  "\<exists>r. percentile [9, 5, 7] 50 = Inr r \<and> r \<in> {9, 5, 7}"
  using percentile_nearest_rank [of "[9, 5, 7]" 50] by auto

text \<open>The 0th percentile is the first data point, not the smallest.\<close>

lemma percentile_0_unsorted: "percentile [9, 5, 7] 0 = Inr 9"
  by (simp add: percentile_def)

text \<open>
  \<open>runningAverage\<close> with its incremental sliding window is the plain mean of the last
  \<open>window\<close> data points at every position, when the sums involved are exact integers (amounts in
  whole units below \<open>2 ^ 53\<close>).
\<close>
theorem runningAverage_window_mean:
  assumes "0 < w" "exact_sums data"
  shows "stats_runningAverage data (of_nat w) =
    Inr (map (\<lambda>i. window_mean w (take (Suc i) data)) [0..<length data])"
proof -
  have "running_average_loop w (last_n w []) (sum_list (last_n w [])) [] data =
      [] @ map (\<lambda>i. window_mean w ([] @ take (Suc i) data)) [0..<length data]"
    by (rule running_average_loop_eq) (use assms in simp_all)
  then show ?thesis using assms(1) by (simp add: stats_runningAverage_def last_n_def)
qed

theorem runningAverage_window_mean_witness:
  "stats_runningAverage [3, 5, 10] (of_nat 2) =
     Inr (map (\<lambda>i. window_mean 2 (take (Suc i) [3, 5, 10])) [0..<length [3 :: rat, 5, 10]])"
  by (rule runningAverage_window_mean) (simp_all add: exact_sums_def)

text \<open>
  \<open>topN\<close> splits the entries: the top entries and the rest are the data, no entry of the rest
  is larger than one of the top, and the rest is counted.
\<close>
theorem topN_largest:
  "\<exists>rest. mset (top (topN data n)) + mset rest = mset data \<and> length (top (topN data n)) = min n (length data) \<and>
     otherCount (topN data n) = length rest \<and> otherSum (topN data n) = foldl n_add 0 (map snd rest) \<and>
     (\<forall>x \<in> set (top (topN data n)). \<forall>y \<in> set rest. snd y \<le> snd x)"
proof -
  let ?s = "js_sort (\<lambda>a b. n_sub (snd b) (snd a)) data"
  have split: "mset (take n ?s) + mset (drop n ?s) = mset data"
    by (metis append_take_drop_id mset_append mset_js_sort)
  have "sorted_wrt (\<lambda>a b. n_sub (snd b) (snd a) \<le> 0) (take n ?s @ drop n ?s)"
    using ranking.sorted [of data] by simp
  then have "\<forall>x \<in> set (take n ?s). \<forall>y \<in> set (drop n ?s). snd y \<le> snd x"
    by (simp add: sorted_wrt_append n_sub_def del: append_take_drop_id)
  with split show ?thesis
    by (intro exI [of _ "drop n ?s"]) (simp add: topN_def Let_def min.commute)
qed

theorem topN_largest_witness:
  "\<exists>rest. mset (top (topN [(''a'', 1), (''b'', 3)] 1)) + mset rest = mset [(''a'', 1), (''b'', 3)]"
  using topN_largest [of "[(''a'', 1), (''b'', 3)]" 1] by blast

text \<open>
  \<open>uniqMostFrequent\<close> returns every item once, the more frequent ones first.
\<close>
theorem uniqMostFrequent_order:
  "set (uniqMostFrequent items) = set items \<and> distinct (uniqMostFrequent items) \<and>
   sorted_wrt (\<lambda>x y. count_list items y \<le> count_list items x) (uniqMostFrequent items)"
  by (simp add: set_uniqMostFrequent distinct_uniqMostFrequent sorted_uniqMostFrequent)

end
