(* ===== verification/Timeseries.thy ===== *)
theory Timeseries
  imports Money Stats
begin

text \<open>
  Time series of the statistics pages: \<open>lib/util/Granularity.tsx\<close>, \<open>lib/util/Timeseries.tsx\<close> and the
  slicing of an interval in \<open>lib/util/time.tsx\<close>. The calendar functions of \<open>date-fns\<close> are fields of a
  parameter; \<open>calendar_ok\<close> is what their documentation states.
\<close>

section \<open>Granularity and calendar\<close>

datatype granularity = MONTHLY | QUARTERLY | YEARLY

record interval =
  iv_start :: rat
  iv_end :: rat

record calendar =
  cal_startOf :: "granularity \<Rightarrow> rat \<Rightarrow> rat"
  cal_endOf :: "granularity \<Rightarrow> rat \<Rightarrow> rat"
  cal_eachOfInterval :: "granularity \<Rightarrow> interval \<Rightarrow> rat list"
  cal_isWithinInterval :: "rat \<Rightarrow> interval \<Rightarrow> bool"
  cal_differenceInMonths :: "rat \<Rightarrow> rat \<Rightarrow> int"
  cal_differenceInYears :: "rat \<Rightarrow> rat \<Rightarrow> int"

text \<open>
  \<open>startOfMonth\<close>, \<open>startOfQuarter\<close>, \<open>startOfYear\<close> are \<open>cal_startOf\<close> at the granularity, likewise for the
  ends and \<open>eachMonthOfInterval\<close>.
\<close>

definition sliceInterval :: "calendar \<Rightarrow> interval \<Rightarrow> granularity \<Rightarrow> interval list" where
  "sliceInterval cal i g =
     map (\<lambda>p. \<lparr>iv_start = cal_startOf cal g p, iv_end = cal_endOf cal g p\<rparr>) (cal_eachOfInterval cal g i)"

text \<open>
  The documented behaviour the code relies on: the start of a period is its own start, an interval is
  inclusive at both ends, and the periods of an interval are the distinct starts, in order, of the
  periods of the times inside it.
\<close>

definition calendar_ok :: "calendar \<Rightarrow> bool" where
  "calendar_ok cal \<longleftrightarrow>
     (\<forall>g t. cal_startOf cal g (cal_startOf cal g t) = cal_startOf cal g t) \<and>
     (\<forall>g t u. t \<in> \<int> \<longrightarrow>
        (cal_startOf cal g u \<le> t \<and> t \<le> cal_endOf cal g u) = (cal_startOf cal g t = cal_startOf cal g u)) \<and>
     (\<forall>g u. cal_startOf cal g u \<le> cal_endOf cal g u) \<and>
     (\<forall>t i. iv_start i \<le> iv_end i \<longrightarrow> cal_isWithinInterval cal t i = (iv_start i \<le> t \<and> t \<le> iv_end i)) \<and>
     (\<forall>g i. iv_start i \<le> iv_end i \<longrightarrow> sorted (cal_eachOfInterval cal g i) \<and>
        distinct (cal_eachOfInterval cal g i) \<and>
        set (cal_eachOfInterval cal g i) = cal_startOf cal g ` {t. iv_start i \<le> t \<and> t \<le> iv_end i})"

text \<open>
  A calendar that keeps these laws: all its periods are ten milliseconds long. It shows that they can
  hold together.
\<close>

definition ten_ms_calendar :: calendar where
  "ten_ms_calendar =
     \<lparr>cal_startOf = (\<lambda>_ t. of_int (10 * (\<lfloor>t\<rfloor> div 10))),
      cal_endOf = (\<lambda>_ t. of_int (10 * (\<lfloor>t\<rfloor> div 10) + 9)),
      cal_eachOfInterval = (\<lambda>_ i. map (\<lambda>k. of_int (10 * k)) [\<lfloor>iv_start i\<rfloor> div 10 .. \<lfloor>iv_end i\<rfloor> div 10]),
      cal_isWithinInterval = (\<lambda>t i. min (iv_start i) (iv_end i) \<le> t \<and> t \<le> max (iv_start i) (iv_end i)),
      cal_differenceInMonths = (\<lambda>t u. (\<lfloor>t\<rfloor> - \<lfloor>u\<rfloor>) div 10),
      cal_differenceInYears = (\<lambda>t u. (\<lfloor>t\<rfloor> - \<lfloor>u\<rfloor>) div 10)\<rparr>"

lemma ten_ms_periods:
  assumes "iv_start i \<le> iv_end i"
  shows "set (cal_eachOfInterval ten_ms_calendar g i) =
    cal_startOf ten_ms_calendar g ` {t. iv_start i \<le> t \<and> t \<le> iv_end i}"
proof -
  have "\<exists>t. iv_start i \<le> t \<and> t \<le> iv_end i \<and> \<lfloor>t\<rfloor> div 10 = k"
    if "\<lfloor>iv_start i\<rfloor> div 10 \<le> k" "k \<le> \<lfloor>iv_end i\<rfloor> div 10" for k
  proof (cases "\<lfloor>iv_start i\<rfloor> div 10 = k")
    case True then show ?thesis using assms by blast
  next
    case False
    then have "\<lfloor>iv_start i\<rfloor> < 10 * k" "10 * k \<le> \<lfloor>iv_end i\<rfloor>" using that by linarith+
    then have "iv_start i \<le> of_int (10 * k) \<and> of_int (10 * k) \<le> iv_end i"
      by (metis floor_less_iff le_floor_iff less_imp_le)
    moreover have "\<lfloor>of_int (10 * k) :: rat\<rfloor> div 10 = k" by (simp only: floor_of_int)
    ultimately show ?thesis by blast
  qed
  moreover have "\<lfloor>iv_start i\<rfloor> div 10 \<le> \<lfloor>t\<rfloor> div 10 \<and> \<lfloor>t\<rfloor> div 10 \<le> \<lfloor>iv_end i\<rfloor> div 10"
    if "iv_start i \<le> t" "t \<le> iv_end i" for t
    using that by (simp add: floor_mono zdiv_mono1)
  ultimately show ?thesis by (fastforce simp: ten_ms_calendar_def image_iff)
qed

lemma ten_ms_simps [simp]:
  "cal_startOf ten_ms_calendar g t = of_int (10 * (\<lfloor>t\<rfloor> div 10))"
  "cal_endOf ten_ms_calendar g t = of_int (10 * (\<lfloor>t\<rfloor> div 10) + 9)"
  "cal_eachOfInterval ten_ms_calendar g i = map (\<lambda>k. of_int (10 * k)) [\<lfloor>iv_start i\<rfloor> div 10 .. \<lfloor>iv_end i\<rfloor> div 10]"
  "cal_isWithinInterval ten_ms_calendar t i = (min (iv_start i) (iv_end i) \<le> t \<and> t \<le> max (iv_start i) (iv_end i))"
  by (simp_all add: ten_ms_calendar_def)

lemma ten_ms_same_period:
  assumes t: "t \<in> \<int>"
  shows "(cal_startOf ten_ms_calendar g u \<le> t \<and> t \<le> cal_endOf ten_ms_calendar g u) =
    (cal_startOf ten_ms_calendar g t = cal_startOf ten_ms_calendar g u)"
proof -
  obtain n where n: "t = of_int n" using t by (auto elim: Ints_cases)
  have "(10 * m \<le> n \<and> n \<le> 10 * m + 9) = (10 * (n div 10) = 10 * m)" for m :: int by presburger
  then show ?thesis unfolding ten_ms_simps n of_int_le_iff of_int_eq_iff floor_of_int .
qed

lemma ten_ms_sorted:
  "sorted (cal_eachOfInterval ten_ms_calendar g i)" "distinct (cal_eachOfInterval ten_ms_calendar g i)"
  unfolding ten_ms_simps
  by (auto simp: sorted_map distinct_map inj_on_def intro: sorted_wrt_mono_rel [OF _ sorted_upto])

lemma ten_ms_start_of_start:
  "cal_startOf ten_ms_calendar g (cal_startOf ten_ms_calendar g t) = cal_startOf ten_ms_calendar g t"
  unfolding ten_ms_simps floor_of_int by simp

lemma calendar_ok_ten_ms: "calendar_ok ten_ms_calendar"
  unfolding calendar_ok_def
proof (intro conjI allI impI)
  show "cal_startOf ten_ms_calendar g u \<le> cal_endOf ten_ms_calendar g u" for g u by simp
qed (rule ten_ms_start_of_start ten_ms_sorted | erule ten_ms_same_period ten_ms_periods | simp add: min_def max_def)+

section \<open>Series\<close>

record 't abstract_timeseries =
  at_granularity :: granularity
  at_addFn :: "'t \<Rightarrow> 't \<Rightarrow> 't result"
  at_zero :: 't
  at_data :: "(rat, 't) js_map"

definition at_bucket :: "calendar \<Rightarrow> ('t, 'z) abstract_timeseries_scheme \<Rightarrow> rat \<Rightarrow> rat" where
  "at_bucket cal s time = cal_startOf cal (at_granularity s) time"

definition at_get :: "calendar \<Rightarrow> ('t, 'z) abstract_timeseries_scheme \<Rightarrow> rat \<Rightarrow> 't" where
  "at_get cal s time =
     (let k = at_bucket cal s time in case jm_get (at_data s) k of Some v \<Rightarrow> v | None \<Rightarrow> at_zero s)"

definition at_set ::
  "calendar \<Rightarrow> rat \<Rightarrow> 't \<Rightarrow> ('t, 'z) abstract_timeseries_scheme \<Rightarrow> ('t, 'z) abstract_timeseries_scheme" where
  "at_set cal time i s = (let k = at_bucket cal s time in s\<lparr>at_data := jm_set k i (at_data s)\<rparr>)"

definition at_increment ::
  "calendar \<Rightarrow> rat \<Rightarrow> 't \<Rightarrow> ('t, 'z) abstract_timeseries_scheme \<Rightarrow> ('t, 'z) abstract_timeseries_scheme result" where
  "at_increment cal time i s =
     (let k = at_bucket cal s time;
          existing = (case jm_get (at_data s) k of Some v \<Rightarrow> v | None \<Rightarrow> at_zero s)
      in bind_result (at_addFn s existing i) (\<lambda>sum. Inr (s\<lparr>at_data := jm_set k sum (at_data s)\<rparr>)))"

type_synonym number_timeseries = "rat abstract_timeseries"

definition mk_NumberTimeseries :: "granularity \<Rightarrow> number_timeseries" where
  "mk_NumberTimeseries g =
     \<lparr>at_granularity = g, at_addFn = (\<lambda>a b. Inr (n_add a b)), at_zero = 0, at_data = []\<rparr>"

record money_timeseries = "amount_with_currency abstract_timeseries" +
  mt_currency :: currency

definition mk_MoneyTimeseries :: "currency \<Rightarrow> granularity \<Rightarrow> money_timeseries" where
  "mk_MoneyTimeseries c g =
     \<lparr>at_granularity = g, at_addFn = awc_add, at_zero = awc_zero c, at_data = [], mt_currency = c\<rparr>"

definition mt_entries :: "money_timeseries \<Rightarrow> (rat \<times> amount_with_currency) list" where
  "mt_entries s = js_sort (by_number fst) (at_data s)"

definition mt_runningAverage :: "calendar \<Rightarrow> money_timeseries \<Rightarrow> rat \<Rightarrow> money_timeseries result" where
  "mt_runningAverage cal s window =
     (let entries = mt_entries s;
          nanos = map (\<lambda>(_, sum). number_of_bigint (amountNanos sum)) entries
      in bind_result (stats_runningAverage nanos window) (\<lambda>averagesNanos.
         bind_result (assert_that (length entries = length averagesNanos) AssertionFailed) (\<lambda>_.
           Inr (foldl (\<lambda>out ((time, _), avg). at_set cal time (mk_awc (js_round avg) (mt_currency s)) out)
             (mk_MoneyTimeseries (mt_currency s) (at_granularity s)) (zip entries averagesNanos)))))"

definition mt_percentile :: "money_timeseries \<Rightarrow> rat \<Rightarrow> amount_with_currency result" where
  "mt_percentile s p =
     (let nanos = map (\<lambda>(_, sum). number_of_bigint (amountNanos sum)) (mt_entries s)
      in bind_result (percentile nanos p) (\<lambda>percentileNanos.
           Inr (mk_awc (js_round percentileNanos) (mt_currency s))))"

text \<open>The loop every chart runs: one increment per transaction.\<close>

definition mt_accumulate ::
  "calendar \<Rightarrow> (rat \<times> amount_with_currency) list \<Rightarrow> money_timeseries \<Rightarrow> money_timeseries result" where
  "mt_accumulate cal xs s = fold_result (\<lambda>s (time, a). at_increment cal time a s) s xs"

section \<open>What a series holds\<close>

text \<open>A series that adds up amounts of its own currency, one value per period.\<close>

definition money_ok :: "calendar \<Rightarrow> money_timeseries \<Rightarrow> bool" where
  "money_ok cal s \<longleftrightarrow> jm_ok (at_data s) \<and> at_addFn s = awc_add \<and> at_zero s = awc_zero (mt_currency s) \<and>
     (\<forall>(k, v) \<in> set (at_data s). awc_currency v = mt_currency s \<and> cal_startOf cal (at_granularity s) k = k)"

lemma money_ok_new [simp]: "money_ok cal (mk_MoneyTimeseries c g)"
  by (simp add: money_ok_def mk_MoneyTimeseries_def)

lemma money_ok_get: "money_ok cal s \<Longrightarrow> awc_currency (at_get cal s t) = mt_currency s"
  by (auto simp: money_ok_def at_get_def Let_def jm_entry_iff [symmetric] split: option.splits)

lemma set_jm_set: "jm_ok m \<Longrightarrow> e \<in> set (jm_set k v m) \<Longrightarrow> e = (k, v) \<or> e \<in> set m"
  using jm_entry_iff [of "jm_set k v m" "fst e" "snd e"] jm_entry_iff [of m "fst e" "snd e"]
  by (cases e) (auto split: if_splits)

lemma money_ok_put:
  assumes "calendar_ok cal" "money_ok cal s" "awc_currency v = mt_currency s"
  shows "money_ok cal (s\<lparr>at_data := jm_set (cal_startOf cal (at_granularity s) t) v (at_data s)\<rparr>)"
  using assms by (auto simp: money_ok_def calendar_ok_def dest: set_jm_set)

lemma at_increment_money:
  assumes "calendar_ok cal" "money_ok cal s" "awc_currency a = mt_currency s"
  shows "\<exists>s'. at_increment cal t a s = Inr s' \<and> money_ok cal s' \<and> mt_currency s' = mt_currency s \<and>
    at_granularity s' = at_granularity s \<and>
    (\<forall>u. amountNanos (at_get cal s' u) = amountNanos (at_get cal s u) +
      (if cal_startOf cal (at_granularity s) t = cal_startOf cal (at_granularity s) u then amountNanos a else 0))"
proof -
  let ?k = "cal_startOf cal (at_granularity s) t" and ?old = "at_get cal s t"
  let ?new = "mk_awc (amountNanos ?old + amountNanos a) (mt_currency s)"
  have "at_increment cal t a s = Inr (s\<lparr>at_data := jm_set ?k ?new (at_data s)\<rparr>)"
    using assms(2,3) money_ok_get [OF assms(2), of t]
    by (auto simp: at_increment_def at_bucket_def Let_def money_ok_def at_get_def)
  moreover have "money_ok cal (s\<lparr>at_data := jm_set ?k ?new (at_data s)\<rparr>)"
    by (rule money_ok_put [OF assms(1,2)]) simp
  ultimately show ?thesis by (auto simp: at_get_def at_bucket_def Let_def split: option.splits)
qed

lemma mt_accumulate_lemma:
  assumes "calendar_ok cal" "money_ok cal s" "\<forall>(t, a) \<in> set xs. awc_currency a = mt_currency s"
  shows "\<exists>s'. mt_accumulate cal xs s = Inr s' \<and> money_ok cal s' \<and> mt_currency s' = mt_currency s \<and>
    at_granularity s' = at_granularity s \<and>
    (\<forall>u. amountNanos (at_get cal s' u) = amountNanos (at_get cal s u) +
      (\<Sum>(t, a) \<leftarrow> filter (\<lambda>(t, a). cal_startOf cal (at_granularity s) t = cal_startOf cal (at_granularity s) u) xs.
         amountNanos a))"
  using assms(2,3)
proof (induction xs arbitrary: s)
  case Nil
  then show ?case by (simp add: mt_accumulate_def)
next
  case (Cons x xs)
  obtain t a where x: "x = (t, a)" by fastforce
  obtain s1 where s1: "at_increment cal t a s = Inr s1" "money_ok cal s1" "mt_currency s1 = mt_currency s"
    "at_granularity s1 = at_granularity s"
    "\<forall>u. amountNanos (at_get cal s1 u) = amountNanos (at_get cal s u) +
      (if cal_startOf cal (at_granularity s) t = cal_startOf cal (at_granularity s) u then amountNanos a else 0)"
    using at_increment_money [OF assms(1) Cons.prems(1), of a t] Cons.prems(2) x by auto
  have "\<forall>(t, a) \<in> set xs. awc_currency a = mt_currency s1" using Cons.prems(2) s1(3) by auto
  from Cons.IH [OF s1(2) this] s1 x show ?case by (auto simp: mt_accumulate_def)
qed

lemma mk_MoneyTimeseries_simps [simp]:
  "mt_currency (mk_MoneyTimeseries c g) = c" "at_granularity (mk_MoneyTimeseries c g) = g"
  "at_data (mk_MoneyTimeseries c g) = []" "at_get cal (mk_MoneyTimeseries c g) t = awc_zero c"
  by (simp_all add: mk_MoneyTimeseries_def at_get_def Let_def)

lemma mt_accumulate_new:
  assumes "calendar_ok cal" "\<forall>(t, a) \<in> set xs. awc_currency a = c"
  shows "\<exists>s'. mt_accumulate cal xs (mk_MoneyTimeseries c g) = Inr s' \<and> money_ok cal s' \<and> mt_currency s' = c \<and>
    at_granularity s' = g \<and>
    (\<forall>u. amountNanos (at_get cal s' u) =
      (\<Sum>(t, a) \<leftarrow> filter (\<lambda>(t, a). cal_startOf cal g t = cal_startOf cal g u) xs. amountNanos a))"
  using mt_accumulate_lemma [OF assms(1) money_ok_new, of xs c g] assms(2) by simp

section \<open>Totals over the periods of an interval\<close>

lemma sum_list_by_key:
  assumes "distinct ps" "\<forall>x \<in> set xs. key x \<in> set ps"
  shows "(\<Sum>p \<leftarrow> ps. \<Sum>x \<leftarrow> filter (\<lambda>x. key x = p) xs. g x) = (\<Sum>x \<leftarrow> xs. (g x :: int))"
  using assms(2)
proof (induction xs)
  case (Cons x xs)
  have "(\<Sum>p \<leftarrow> ps. \<Sum>y \<leftarrow> filter (\<lambda>x. key x = p) (x # xs). g y) =
      (\<Sum>p \<leftarrow> ps. (if key x = p then g x else 0) + (\<Sum>y \<leftarrow> filter (\<lambda>x. key x = p) xs. g y))"
    by (rule arg_cong [of _ _ sum_list]) simp
  also have "\<dots> = g x + (\<Sum>y \<leftarrow> xs. g y)"
    using Cons assms(1) by (simp add: sum_list_addf sum_list_distinct_conv_sum_set)
  finally show ?case by simp
qed (simp add: sum_list_0)

lemma period_is_own_start:
  assumes "calendar_ok cal" "iv_start i \<le> iv_end i" "p \<in> set (cal_eachOfInterval cal g i)"
  shows "cal_startOf cal g p = p"
  using assms by (auto simp: calendar_ok_def)

lemma slices_total:
  assumes cal: "calendar_ok cal" and i: "iv_start i \<le> iv_end i"
    and s: "mt_accumulate cal xs (mk_MoneyTimeseries c g) = Inr s"
    and xs: "\<forall>(t, a) \<in> set xs. awc_currency a = c \<and> iv_start i \<le> t \<and> t \<le> iv_end i"
  shows "(\<Sum>p \<leftarrow> cal_eachOfInterval cal g i. amountNanos (at_get cal s p)) = (\<Sum>(t, a) \<leftarrow> xs. amountNanos a)"
proof -
  let ?ps = "cal_eachOfInterval cal g i"
  have "\<forall>(t, a) \<in> set xs. awc_currency a = c" using xs by auto
  from mt_accumulate_new [OF cal this, of g] s
  have get: "amountNanos (at_get cal s u) = (\<Sum>(t, a) \<leftarrow> filter (\<lambda>(t, a). cal_startOf cal g t = cal_startOf cal g u) xs.
      amountNanos a)" for u
    by auto
  have "(\<Sum>p \<leftarrow> ?ps. amountNanos (at_get cal s p)) =
      (\<Sum>p \<leftarrow> ?ps. \<Sum>x \<leftarrow> filter (\<lambda>x. cal_startOf cal g (fst x) = p) xs. amountNanos (snd x))"
    by (intro arg_cong [of _ _ sum_list] map_cong)
      (simp_all add: get period_is_own_start [OF cal i] case_prod_unfold)
  also have "\<dots> = (\<Sum>x \<leftarrow> xs. amountNanos (snd x))"
    using cal i xs by (intro sum_list_by_key) (auto simp: calendar_ok_def)
  finally show ?thesis by (simp add: case_prod_unfold)
qed

section \<open>The running average of a series\<close>

lemma mt_entries_sorted:
  "sorted_wrt (\<lambda>x y. fst x \<le> fst y) (mt_entries s)" "mset (mt_entries s) = mset (at_data s)"
proof -
  have "js_sort (by_number fst) (at_data s) = js_sort (by_key fst) (at_data s)"
    by (rule js_sort_cong) (simp add: by_key_def)
  then show "sorted_wrt (\<lambda>x y. fst x \<le> fst y) (mt_entries s)"
    using sorted_sort_key [of fst "at_data s"] by (simp add: mt_entries_def sorted_map)
  show "mset (mt_entries s) = mset (at_data s)" by (simp add: mt_entries_def)
qed

lemma money_ok_entries:
  assumes "money_ok cal s"
  shows "distinct (map fst (mt_entries s))" "(k, v) \<in> set (mt_entries s) \<longleftrightarrow> jm_get (at_data s) k = Some v"
    and "(k, v) \<in> set (mt_entries s) \<Longrightarrow> cal_startOf cal (at_granularity s) k = k"
proof -
  have d: "distinct (map fst (at_data s))" using assms by (simp add: money_ok_def jm_ok_def)
  have m: "mset (map fst (mt_entries s)) = mset (map fst (at_data s))"
    using mt_entries_sorted(2) [of s] by simp
  show "distinct (map fst (mt_entries s))" using d mset_eq_imp_distinct_iff [OF m] by simp
  have e: "set (mt_entries s) = set (at_data s)" using mt_entries_sorted(2) by (rule mset_eq_setD)
  then show "(k, v) \<in> set (mt_entries s) \<longleftrightarrow> jm_get (at_data s) k = Some v"
    using assms by (simp add: jm_entry_iff money_ok_def)
  show "(k, v) \<in> set (mt_entries s) \<Longrightarrow> cal_startOf cal (at_granularity s) k = k"
    using assms e by (auto simp: money_ok_def)
qed

lemma set_foldl_entries:
  assumes "\<And>e. e \<in> set es \<Longrightarrow> cal_startOf cal (at_granularity s) (key e) = key e"
  shows "foldl (\<lambda>out e. at_set cal (key e) (val e) out) s es =
    s\<lparr>at_data := foldl (\<lambda>m e. jm_set (key e) (val e) m) (at_data s) es\<rparr>"
  using assms
proof (induction es arbitrary: s)
  case (Cons e es)
  have "cal_startOf cal (at_granularity s) (key e) = key e" using Cons.prems by simp
  then show ?case using Cons.IH [of "at_set cal (key e) (val e) s"] Cons.prems
    by (simp add: at_set_def at_bucket_def)
qed simp

text \<open>The amounts up to and including the period \<open>k\<close>, oldest first, as numbers.\<close>

definition nanos_until :: "money_timeseries \<Rightarrow> rat \<Rightarrow> rat list" where
  "nanos_until s k = map (\<lambda>(_, a). number_of_bigint (amountNanos a)) (filter (\<lambda>(t, _). t \<le> k) (mt_entries s))"

lemma take_until:
  assumes "sorted_wrt (\<lambda>x y. fst x \<le> fst y) es" "distinct (map fst es)" "i < length es"
  shows "filter (\<lambda>(t, _). t \<le> fst (es ! i)) es = take (Suc i) (es :: (rat \<times> 'a) list)"
proof -
  have "fst (es ! j) \<le> fst (es ! i) \<longleftrightarrow> j \<le> i" if "j < length es" for j
  proof -
    have le: "a \<le> b \<Longrightarrow> b < length es \<Longrightarrow> fst (es ! a) \<le> fst (es ! b)" for a b
      using assms(1) by (cases "a = b") (auto simp: sorted_wrt_iff_nth_less)
    have "fst (es ! j) = fst (es ! i) \<Longrightarrow> j = i"
      using assms(2,3) that by (metis length_map nth_eq_iff_index_eq nth_map)
    then show ?thesis using le [of j i] le [of i j] that assms(3) by (metis antisym nle_le)
  qed
  then have "filter (\<lambda>x. fst x \<le> fst (es ! i)) (take (Suc i) es) = take (Suc i) es"
    and "filter (\<lambda>x. fst x \<le> fst (es ! i)) (drop (Suc i) es) = []"
    by (simp_all add: filter_id_conv filter_empty_conv all_set_conv_all_nth)
  then have "filter (\<lambda>x. fst x \<le> fst (es ! i)) (take (Suc i) es @ drop (Suc i) es) = take (Suc i) es"
    unfolding filter_append by simp
  then show ?thesis by (simp add: case_prod_unfold)
qed

lemma mt_runningAverage_lemma:
  assumes ok: "money_ok cal s" and w: "0 < w"
    and exact: "exact_sums (map (\<lambda>(_, a). number_of_bigint (amountNanos a)) (mt_entries s))"
  shows "\<exists>out. mt_runningAverage cal s (of_nat w) = Inr out \<and> mt_currency out = mt_currency s \<and>
    (\<forall>k. jm_get (at_data out) k = (if jm_get (at_data s) k = None then None
       else Some (mk_awc (js_round (window_mean w (nanos_until s k))) (mt_currency s))))"
proof -
  let ?es = "mt_entries s" and ?c = "mt_currency s"
  let ?nanos = "map (\<lambda>(_, a). number_of_bigint (amountNanos a)) ?es"
  let ?avg = "\<lambda>i. window_mean w (take (Suc i) ?nanos)"
  let ?out0 = "mk_MoneyTimeseries ?c (at_granularity s)"
  define avgs where "avgs = map ?avg [0..<length ?es]"
  have avgs: "length avgs = length ?es" "i < length ?es \<Longrightarrow> avgs ! i = ?avg i" for i
    by (simp_all add: avgs_def)
  let ?pairs = "zip ?es avgs"
  let ?key = "\<lambda>e :: (rat \<times> amount_with_currency) \<times> rat. fst (fst e)"
  let ?val = "\<lambda>e :: (rat \<times> amount_with_currency) \<times> rat. mk_awc (js_round (snd e)) ?c"
  have d: "distinct (map fst ?es)" by (rule money_ok_entries(1) [OF ok])
  have mem: "fst e \<in> set ?es" if "e \<in> set ?pairs" for e
    using that set_zip_leftD [of "fst e" "snd e"] by simp
  have "stats_runningAverage ?nanos (of_nat w) = Inr avgs"
  proof -
    have "running_average_loop w (last_n w []) (sum_list (last_n w [])) [] ?nanos =
        [] @ map (\<lambda>i. window_mean w ([] @ take (Suc i) ?nanos)) [0..<length ?nanos]"
      by (rule running_average_loop_eq) (use w exact in simp_all)
    then show ?thesis using w by (simp add: stats_runningAverage_def last_n_def avgs_def)
  qed
  moreover have "cal_startOf cal (at_granularity ?out0) (?key e) = ?key e" if "e \<in> set ?pairs" for e
    using mem [OF that] money_ok_entries(3) [OF ok, of "?key e" "snd (fst e)"] by simp
  ultimately have run: "mt_runningAverage cal s (of_nat w) =
      Inr (?out0\<lparr>at_data := foldl (\<lambda>m e. jm_set (?key e) (?val e) m) [] ?pairs\<rparr>)"
    using set_foldl_entries [of ?pairs cal ?out0 ?key ?val]
    by (simp add: mt_runningAverage_def Let_def assert_that_def case_prod_unfold avgs(1))
  have "jm_get (foldl (\<lambda>m e. jm_set (?key e) (?val e) m) [] ?pairs) k =
      (if jm_get (at_data s) k = None then None
       else Some (mk_awc (js_round (window_mean w (nanos_until s k))) ?c))" for k
  proof (cases "jm_get (at_data s) k")
    case None
    then have "?key e \<noteq> k" if "e \<in> set ?pairs" for e
      using mem [OF that] None money_ok_entries(2) [OF ok, of "?key e" "snd (fst e)"] by auto
    then have "find (\<lambda>e. ?key e = k) (rev ?pairs) = None" by (fastforce simp: find_None_iff)
    then show ?thesis using None by (simp add: jm.get_foldl_set)
  next
    case (Some a)
    then have "(k, a) \<in> set ?es" using money_ok_entries(2) [OF ok] by simp
    then obtain i where i: "i < length ?es" "?es ! i = (k, a)" by (auto simp: in_set_conv_nth)
    then have "?pairs ! i = ((k, a), avgs ! i)" "i < length ?pairs" by (simp_all add: avgs(1))
    then have at: "((k, a), avgs ! i) \<in> set (rev ?pairs)" using nth_mem [of i ?pairs] by (simp only: set_rev)
    have "map ?key ?pairs = map fst (map fst ?pairs)" by (simp add: o_def)
    also have "map fst ?pairs = ?es" by (simp add: avgs(1))
    finally have "distinct (map ?key (rev ?pairs))" using d by (simp flip: rev_map)
    from find_distinct_key [OF this at]
    have "find (\<lambda>e. ?key e = k) (rev ?pairs) = Some ((k, a), avgs ! i)" by simp
    moreover have "nanos_until s k = take (Suc i) ?nanos"
      using take_until [OF mt_entries_sorted(1) d i(1)] i(2) by (simp add: nanos_until_def take_map)
    ultimately show ?thesis using Some avgs(2) [OF i(1)] by (simp add: jm.get_foldl_set)
  qed
  with run show ?thesis by simp
qed

end
