(* ===== verification/Statistics.thy ===== *)
theory Statistics
  imports Balances Timeseries
begin

text \<open>
  The input of the statistics pages: \<open>app/(authenticated)/stats/modelHelpers.tsx\<close> and
  \<open>lib/ExchangedTransactions.tsx\<close>. Excluding categories calls \<open>getDescendants\<close> several times on one
  tree, and every call changes that tree; the first section shows that this does no harm there.
\<close>

section \<open>Collecting descendants of a tree that was already walked\<close>

text \<open>
  \<open>extended h0 h\<close>: the store \<open>h\<close> differs from the freshly linked store \<open>h0\<close> only in that some nodes
  list further nodes below them among their children.
\<close>

definition extended :: "node_store \<Rightarrow> node_store \<Rightarrow> bool" where
  "extended h0 h \<longleftrightarrow> length h = length h0 \<and>
     (\<forall>i < length h0. parent_at h i = parent_at h0 i \<and> category_at h i = category_at h0 i \<and>
        set (children_at h0 i) \<subseteq> set (children_at h i) \<and> set (children_at h i) \<subseteq> below h0 i)"

definition drains_set :: "node_store \<Rightarrow> nat \<Rightarrow> nat list \<Rightarrow> nat set \<Rightarrow> bool" where
  "drains_set h t cs new \<longleftrightarrow>
     (\<exists>ds. set ds = new \<and>
        (\<forall>a fr. descendants_loop (push_children h t a) t (fr @ cs) =
          descendants_loop (push_children h t (a @ ds)) t fr))"

lemma extended_refl: "forest h \<Longrightarrow> extended h h"
  using below_children by (fastforce simp: extended_def subtree_def)

lemma drains_set_list:
  assumes "\<And>c. c \<in> set cs \<Longrightarrow> drains_set h t [c] (D c)"
  shows "drains_set h t cs (\<Union>c \<in> set cs. D c)"
  using assms
proof (induction cs rule: rev_induct)
  case Nil
  then show ?case by (auto simp: drains_set_def)
next
  case (snoc c cs)
  obtain ds where ds: "set ds = (\<Union>c \<in> set cs. D c)"
    "\<And>a fr. descendants_loop (push_children h t a) t (fr @ cs) = descendants_loop (push_children h t (a @ ds)) t fr"
    using snoc.IH snoc.prems unfolding drains_set_def by auto
  obtain es where es: "set es = D c"
    "\<And>a fr. descendants_loop (push_children h t a) t (fr @ [c]) = descendants_loop (push_children h t (a @ es)) t fr"
    using snoc.prems [of c] unfolding drains_set_def by auto
  have "descendants_loop (push_children h t a) t (fr @ cs @ [c]) =
      descendants_loop (push_children h t (a @ es @ ds)) t fr" for a fr
    using es(2) [of a "fr @ cs"] ds(2) [of "a @ es" fr] by simp
  moreover have "set (es @ ds) = (\<Union>c \<in> set (cs @ [c]). D c)" using ds(1) es(1) by auto
  ultimately show ?case unfolding drains_set_def by (intro exI [of _ "es @ ds"]) simp
qed

lemma below_trans: "c \<in> below h x \<Longrightarrow> x \<in> below h t \<Longrightarrow> c \<in> below h t"
  by (auto simp: below_def)

lemma below_length: "c \<in> below h x \<Longrightarrow> c < length h"
  by (auto simp: below_def dest!: tranclD parent_relD)

lemma below_not_self: "rooted h i \<Longrightarrow> i \<notin> below h i"
  using rooted_acyclic by (auto simp: rooted_def)

lemma rooted_of_below: "c \<in> below h x \<Longrightarrow> rooted h c \<longleftrightarrow> rooted h x"
  using rooted_below [of c x h] unfolding below_def by (simp add: trancl_into_rtrancl)

lemma below_extended:
  assumes "forest h0" "extended h0 h" "x < length h0"
  shows "below h0 x = set (children_at h x) \<union> (\<Union>c \<in> set (children_at h x). below h0 c)"
proof -
  have c: "set (children_at h0 x) \<subseteq> set (children_at h x)" "set (children_at h x) \<subseteq> below h0 x"
    using assms by (auto simp: extended_def)
  have "below h0 x \<subseteq> set (children_at h x) \<union> (\<Union>c \<in> set (children_at h x). below h0 c)"
    using below_children [OF assms(1,3)] c(1) by (auto simp: subtree_def)
  with c(2) show ?thesis using below_trans by blast
qed

lemma wf_below: "forest h \<Longrightarrow> wf {(c, x). c \<in> below h x \<and> rooted h x}"
proof -
  assume f: "forest h"
  let ?R = "{(c, p). (c, p) \<in> parent_rel h \<and> rooted h c}"
  have "(c, x) \<in> (parent_rel h)\<^sup>+ \<Longrightarrow> rooted h x \<Longrightarrow> (c, x) \<in> ?R\<^sup>+" for c x
  proof (induction rule: trancl_induct)
    case (base y)
    then have "rooted h c" using rooted_below by blast
    with base show ?case by auto
  next
    case (step y z)
    then have y: "rooted h y" using rooted_below by blast
    with step have "(y, z) \<in> ?R" "(c, y) \<in> ?R\<^sup>+" by auto
    then show ?case by (rule trancl_into_trancl [rotated])
  qed
  then have "{(c, x). c \<in> below h x \<and> rooted h x} \<subseteq> ?R\<^sup>+" by (auto simp: below_def)
  with wf_trancl [OF wf_rooted [OF f]] show ?thesis by (rule wf_subset)
qed

lemma drains_extended:
  assumes "forest h0" "extended h0 h" "t < length h0" "rooted h0 t" "x \<in> below h0 t"
  shows "drains_set h t [x] (below h0 x)"
  using wf_below [OF assms(1)] assms(5)
proof (induction x rule: wf_induct_rule)
  case (less x)
  let ?cs = "children_at h x"
  have x: "x < length h0" "rooted h0 x" "x \<noteq> t"
    using less.prems assms(4) below_length rooted_of_below below_not_self by metis+
  have "drains_set h t [c] (below h0 c)" if "c \<in> set ?cs" for c
  proof -
    have c: "c \<in> below h0 x" using assms(2) x(1) that by (auto simp: extended_def)
    then show ?thesis using less.IH x(2) below_trans [OF c less.prems] by auto
  qed
  from drains_set_list [of ?cs, OF this] obtain ds where ds: "set ds = (\<Union>c \<in> set ?cs. below h0 c)"
    "\<And>a fr. descendants_loop (push_children h t a) t (fr @ ?cs) = descendants_loop (push_children h t (a @ ds)) t fr"
    unfolding drains_set_def by auto
  have len: "t < length h" using assms(2,3) by (simp add: extended_def)
  have "descendants_loop (push_children h t a) t (fr @ [x]) =
      descendants_loop (push_children h t (a @ ?cs @ ds)) t fr" for a fr
    using ds(2) [of "a @ ?cs" fr] x(3) len
    by (subst descendants_loop.simps) (simp add: Let_def)
  moreover have "set (?cs @ ds) = below h0 x" using below_extended [OF assms(1,2) x(1)] ds(1) by simp
  ultimately show ?case unfolding drains_set_def by blast
qed

lemma getDescendants_extended:
  assumes "forest h0" "extended h0 (tree_store tree)" "findNode c tree = Inr i" "i < length h0" "rooted h0 i"
  shows "\<exists>ds tree'. getDescendants c tree = Inr (ds, tree') \<and> set ds = below h0 i \<and>
    extended h0 (tree_store tree') \<and> tree_lookup tree' = tree_lookup tree"
proof -
  let ?h = "tree_store tree" and ?cs = "children_at (tree_store tree) i"
  have len: "i < length ?h" using assms(2,4) by (simp add: extended_def)
  have "set ?cs \<subseteq> below h0 i" using assms(2,4) by (simp add: extended_def)
  then have "drains_set ?h i ?cs (\<Union>c \<in> set ?cs. below h0 c)"
    using drains_extended [OF assms(1,2,4,5)] by (intro drains_set_list) auto
  then obtain ds where ds: "set ds = (\<Union>c \<in> set ?cs. below h0 c)"
    "\<And>a fr. descendants_loop (push_children ?h i a) i (fr @ ?cs) = descendants_loop (push_children ?h i (a @ ds)) i fr"
    unfolding drains_set_def by auto
  have "descendants_loop ?h i ?cs = Some (push_children ?h i ds)"
    using ds(2) [of "[]" "[]"] by (simp add: descendants_loop.simps [of _ _ "[]"])
  moreover have all: "set (?cs @ ds) = below h0 i" using below_extended [OF assms(1,2,4)] ds(1) by simp
  moreover have "extended h0 (push_children ?h i ds)"
    using assms(2,4) all len unfolding extended_def
    by (metis push_children_simps set_append le_supI1 order_refl)
  ultimately show ?thesis
    using assms(3) len by (intro exI [of _ "?cs @ ds"] exI [of _ "tree\<lparr>tree_store := push_children ?h i ds\<rparr>"])
      (simp add: getDescendants_def)
qed

section \<open>Excluding categories\<close>

definition collect_descendants ::
  "category list \<times> category_tree \<Rightarrow> category \<Rightarrow> (category list \<times> category_tree) result" where
  "collect_descendants st c =
     bind_result (getDescendants (ACategory c) (snd st)) (\<lambda>(nodes, tree).
       Inr (fst st @ map (category_at (tree_store tree)) nodes, tree))"

definition filterExcludedTransactions ::
  "transaction list \<Rightarrow> int list \<Rightarrow> category list \<Rightarrow> transaction list result" where
  "filterExcludedTransactions allTransactions excludeCategoryIds all =
     bind_result (makeCategoryTree all) (\<lambda>tree.
     bind_result (map_result (\<lambda>cid. mustFindCategory cid all) excludeCategoryIds) (\<lambda>direct.
     bind_result (fold_result collect_descendants ([], tree) direct) (\<lambda>(descendants, _).
       let allExclusion = direct @ descendants;
           exclude = js_set (map cat_id allExclusion)
       in Inr (filter (\<lambda>t. case tx_categoryId t of None \<Rightarrow> True | Some c \<Rightarrow> c \<notin> set exclude)
            (filter (\<lambda>t. \<not> isOpeningBalance t) allTransactions)))))"

lemma findNode_distinct:
  assumes "distinct (map cat_id all)" "i < length all"
  shows "findNode (AnId (cat_id (all ! i))) (tree_of all) = Inr i"
    and "findNode (ACategory (all ! i)) (tree_of all) = Inr i"
proof -
  have "map (\<lambda>i. cat_id (all ! i)) [0..<length all] = map cat_id (map ((!) all) [0..<length all])"
    by (simp only: map_map o_def)
  then have "distinct (map (\<lambda>i. cat_id (all ! i)) [0..<length all])"
    using assms(1) by (simp only: map_nth)
  from jm_get_index_distinct [OF this, of i "\<lambda>i. i"] assms(2)
  have "jm_get (node_lookup all) (cat_id (all ! i)) = Some i" by (simp add: node_lookup_def)
  then show "findNode (AnId (cat_id (all ! i))) (tree_of all) = Inr i"
    and "findNode (ACategory (all ! i)) (tree_of all) = Inr i" by (simp_all add: findNode_def)
qed

lemma collect_descendants_lemma:
  assumes "distinct (map cat_id all)" "\<forall>i < length all. rooted (tree_store (tree_of all)) i"
    and "set is \<subseteq> {..<length all}"
    and "extended (tree_store (tree_of all)) (tree_store tree)" "tree_lookup tree = node_lookup all"
  shows "\<exists>cs tree'. fold_result collect_descendants (acc, tree) (map ((!) all) is) = Inr (acc @ cs, tree') \<and>
    set cs = (!) all ` (\<Union>i \<in> set is. below (tree_store (tree_of all)) i)"
  using assms(3-)
proof (induction "is" arbitrary: acc tree)
  case Nil
  then show ?case by simp
next
  case (Cons i "is")
  let ?h = "tree_store (tree_of all)"
  have i: "i < length all" using Cons.prems(1) by simp
  have find: "findNode (ACategory (all ! i)) tree = Inr i"
    using findNode_distinct(2) [OF assms(1) i] Cons.prems(3) by (simp add: findNode_def)
  from getDescendants_extended [OF forest_tree_of Cons.prems(2) find] i assms(2)
  obtain ds tree' where ds: "getDescendants (ACategory (all ! i)) tree = Inr (ds, tree')" "set ds = below ?h i"
    "extended ?h (tree_store tree')" "tree_lookup tree' = node_lookup all"
    using Cons.prems(3) by auto
  have "category_at (tree_store tree') ` set ds = (!) all ` below ?h i"
    using ds(2,3) below_length [of _ ?h i] by (intro image_cong) (auto simp: extended_def)
  moreover obtain cs tree'' where "fold_result collect_descendants
      (acc @ map (category_at (tree_store tree')) ds, tree') (map ((!) all) is) =
      Inr ((acc @ map (category_at (tree_store tree')) ds) @ cs, tree'')"
    "set cs = (!) all ` (\<Union>i \<in> set is. below ?h i)"
    using Cons.IH [OF _ ds(3,4), of "acc @ map (category_at (tree_store tree')) ds"] Cons.prems(1) by auto
  ultimately show ?case using ds(1)
    by (intro exI [of _ "map (category_at (tree_store tree')) ds @ cs"] exI [of _ tree''])
      (auto simp: collect_descendants_def [of "(acc, tree)"])
qed

lemma filterExcluded_lemma:
  assumes tree: "makeCategoryTree all = Inr tree" and ids: "distinct (map cat_id all)"
    and rooted: "\<forall>i < length all. rooted (tree_store tree) i"
    and exc: "set excluded \<subseteq> cat_id ` set all"
  shows "filterExcludedTransactions txs excluded all =
    Inr (filter (\<lambda>t. \<not> isOpeningBalance t \<and>
      (\<forall>e \<in> set excluded. \<forall>c. tx_categoryId t = Some c \<longrightarrow> subtreeIncludes (AnId e) (AnId c) tree \<noteq> Inr True)) txs)"
proof -
  have t: "tree = tree_of all" using makeCategoryTree_Inr [OF tree] .
  let ?h = "tree_store (tree_of all)"
  have "\<exists>i. i < length all \<and> cat_id (all ! i) = e" if "e \<in> set excluded" for e
    using exc that by (force simp: in_set_conv_nth)
  then obtain ix where ix: "\<And>e. e \<in> set excluded \<Longrightarrow> ix e < length all \<and> cat_id (all ! ix e) = e" by metis
  have must: "mustFindCategory e all = Inr (all ! ix e)" if "e \<in> set excluded" for e
    using find_distinct_key [OF ids, of "all ! ix e"] ix [OF that] by (simp add: mustFindCategory_def)
  have direct: "map_result (\<lambda>cid. mustFindCategory cid all) excluded = Inr (map ((!) all) (map ix excluded))"
    using map_result_total [of excluded _ "\<lambda>e. all ! ix e"] must by (simp add: o_def)
  have "set (map ix excluded) \<subseteq> {..<length all}" using ix by auto
  from collect_descendants_lemma [OF ids _ this, of "tree_of all" "[]"] rooted t extended_refl [OF forest_tree_of]
  obtain cs tree' where cs: "fold_result collect_descendants ([], tree_of all) (map ((!) all) (map ix excluded)) =
      Inr (cs, tree')" "set cs = (!) all ` (\<Union>e \<in> set excluded. below ?h (ix e))" by auto
  have excl: "c \<in> cat_id ` set (map ((!) all) (map ix excluded) @ cs) \<longleftrightarrow>
      (\<exists>e \<in> set excluded. subtreeIncludes (AnId e) (AnId c) tree = Inr True)" for c
  proof -
    have "c \<in> cat_id ` set (map ((!) all) (map ix excluded) @ cs) \<longleftrightarrow>
        (\<exists>e \<in> set excluded. \<exists>j \<in> subtree ?h (ix e). cat_id (all ! j) = c)"
      using cs(2) by (auto simp: subtree_def)
    also have "\<dots> \<longleftrightarrow> (\<exists>e \<in> set excluded. subtreeIncludes (AnId e) (AnId c) tree = Inr True)"
    proof (rule bex_cong [OF refl])
      fix e assume e: "e \<in> set excluded"
      have root: "findNode (AnId e) (tree_of all) = Inr (ix e)"
        using findNode_distinct(1) [OF ids, of "ix e"] ix [OF e] by simp
      show "(\<exists>j \<in> subtree ?h (ix e). cat_id (all ! j) = c) \<longleftrightarrow> subtreeIncludes (AnId e) (AnId c) tree = Inr True"
      proof (cases "c \<in> cat_id ` set all")
        case True
        then obtain j where j: "j < length all" "cat_id (all ! j) = c" by (force simp: in_set_conv_nth)
        then have find: "findNode (AnId c) (tree_of all) = Inr j" using findNode_distinct(1) [OF ids] by blast
        have "k = j" if "k < length all" "cat_id (all ! k) = c" for k
          using that j ids by (metis length_map nth_eq_iff_index_eq nth_map)
        moreover have "subtree ?h (ix e) \<subseteq> {..<length all}"
          using ix [OF e] below_length by (fastforce simp: subtree_def)
        ultimately have "(\<exists>j \<in> subtree ?h (ix e). cat_id (all ! j) = c) \<longleftrightarrow> j \<in> subtree ?h (ix e)"
          using j by blast
        then show ?thesis using subtreeIncludes_lemma [OF tree] root find rooted j(1) t by simp
      next
        case False
        then have "findNode (AnId c) (tree_of all) = Inl (CategoryNotInTree c)"
          using node_lookup_None [of all c] by (simp add: findNode_def)
        moreover have "\<not> (\<exists>j \<in> subtree ?h (ix e). cat_id (all ! j) = c)"
          using False ix [OF e] below_length by (fastforce simp: subtree_def)
        ultimately show ?thesis using root t by (simp add: subtreeIncludes_def)
      qed
    qed
    finally show ?thesis .
  qed
  have "filterExcludedTransactions txs excluded all =
      Inr (filter (\<lambda>t. case tx_categoryId t of None \<Rightarrow> True
          | Some c \<Rightarrow> c \<notin> cat_id ` set (map ((!) all) (map ix excluded) @ cs))
        (filter (\<lambda>t. \<not> isOpeningBalance t) txs))"
    using tree t direct cs(1)
    by (simp add: filterExcludedTransactions_def Let_def cong: option.case_cong)
  moreover have "(case tx_categoryId t of None \<Rightarrow> True
        | Some c \<Rightarrow> c \<notin> cat_id ` set (map ((!) all) (map ix excluded) @ cs)) \<longleftrightarrow>
      (\<forall>e \<in> set excluded. \<forall>c. tx_categoryId t = Some c \<longrightarrow> subtreeIncludes (AnId e) (AnId c) tree \<noteq> Inr True)" for t
    using excl by (cases "tx_categoryId t") auto
  ultimately show ?thesis by simp
qed

section \<open>Exchanged transactions\<close>

record exchanged_transaction =
  xt_t :: transaction
  xt_ownShare :: amount_with_currency
  xt_allParties :: amount_with_currency

record exchanged_transactions =
  xs_exchanged :: "exchanged_transaction list"
  xs_currency :: currency

definition mk_ExchangedTransactions ::
  "exchanged_transaction list \<Rightarrow> currency \<Rightarrow> exchanged_transactions result" where
  "mk_ExchangedTransactions exchanged c =
     bind_result (fold_result (\<lambda>_ x.
         bind_result (assert_that (cur_code (awc_currency (xt_ownShare x)) = cur_code c) AssertionFailed) (\<lambda>_.
           assert_that (cur_code (awc_currency (xt_allParties x)) = cur_code c) AssertionFailed)) () exchanged)
       (\<lambda>_. Inr \<lparr>xs_exchanged = exchanged, xs_currency = c\<rparr>)"

definition xs_expenses :: "'a exchanged_transactions_scheme \<Rightarrow> exchanged_transaction list" where
  "xs_expenses input = filter (\<lambda>x. isExpense (xt_t x)) (xs_exchanged input)"

definition xs_income :: "'a exchanged_transactions_scheme \<Rightarrow> exchanged_transaction list" where
  "xs_income input = filter (\<lambda>x. isIncome (xt_t x)) (xs_exchanged input)"

definition xs_transactions :: "'a exchanged_transactions_scheme \<Rightarrow> exchanged_transaction list" where
  "xs_transactions input = xs_exchanged input"

record exchanged_interval_transactions = exchanged_transactions +
  xi_interval :: interval

definition mk_ExchangedIntervalTransactions ::
  "interval \<Rightarrow> exchanged_transaction list \<Rightarrow> currency \<Rightarrow> exchanged_interval_transactions result" where
  "mk_ExchangedIntervalTransactions i exchanged c =
     bind_result (mk_ExchangedTransactions exchanged c) (\<lambda>base.
       Inr (exchanged_transactions.extend base \<lparr>xi_interval = i\<rparr>))"

definition xi_within :: "calendar \<Rightarrow> exchanged_interval_transactions \<Rightarrow> exchanged_transaction \<Rightarrow> bool" where
  "xi_within cal input x = cal_isWithinInterval cal (tx_timestampEpoch (xt_t x)) (xi_interval input)"

definition xi_expenses :: "calendar \<Rightarrow> exchanged_interval_transactions \<Rightarrow> exchanged_transaction list" where
  "xi_expenses cal input = filter (xi_within cal input) (xs_expenses input)"

definition xi_income :: "calendar \<Rightarrow> exchanged_interval_transactions \<Rightarrow> exchanged_transaction list" where
  "xi_income cal input = filter (xi_within cal input) (xs_income input)"

definition xi_transfers :: "exchanged_interval_transactions \<Rightarrow> transaction list" where
  "xi_transfers input = filter isTransfer (map xt_t (xs_transactions input))"

text \<open>What \<open>useExchangedTransactions\<close> reads from the React contexts.\<close>

record stats_context =
  sc_closestTo :: closest_to
  sc_displayCurrency :: currency
  sc_bankAccounts :: "bank_account list"
  sc_stocks :: "stock list"
  sc_exchange :: stock_and_currency_exchange
  sc_categories :: "category list"
  sc_transactions :: "transaction list"

definition exchange_step ::
  "stats_context \<Rightarrow> exchanged_transaction list \<times> transaction list \<Rightarrow> transaction \<Rightarrow>
     (exchanged_transaction list \<times> transaction list) result" where
  "exchange_step cx st t =
     (let (exchanged, failed) = st; c = sc_displayCurrency cx
      in case flow_of t of
           None \<Rightarrow> Inr (exchanged @ [\<lparr>xt_t = t, xt_ownShare = awc_zero c, xt_allParties = awc_zero c\<rparr>], failed)
         | Some f \<Rightarrow>
           bind_result (amountOwnShare (sc_closestTo cx) f c (sc_bankAccounts cx) (sc_stocks cx) (sc_exchange cx))
             (\<lambda>own. case own of
                None \<Rightarrow> Inr (exchanged, failed @ [t])
              | Some o' \<Rightarrow>
                bind_result (amountAllParties (sc_closestTo cx) f c (sc_bankAccounts cx) (sc_stocks cx) (sc_exchange cx))
                  (\<lambda>all. case all of
                     None \<Rightarrow> Inr (exchanged, failed @ [t])
                   | Some a \<Rightarrow>
                     Inr (exchanged @ [\<lparr>xt_t = t, xt_ownShare = o', xt_allParties = a\<rparr>], failed))))"

definition useExchangedTransactions ::
  "stats_context \<Rightarrow> transaction list \<Rightarrow> (exchanged_transactions \<times> transaction list) result" where
  "useExchangedTransactions cx transactions =
     bind_result (fold_result (exchange_step cx) ([], []) transactions) (\<lambda>(exchanged, failed).
     bind_result (mk_ExchangedTransactions exchanged (sc_displayCurrency cx)) (\<lambda>input.
       Inr (input, failed)))"

definition useExchangedIntervalTransactions ::
  "stats_context \<Rightarrow> transaction list \<Rightarrow> interval \<Rightarrow>
     (exchanged_interval_transactions \<times> transaction list) result" where
  "useExchangedIntervalTransactions cx transactions duration =
     bind_result (useExchangedTransactions cx transactions) (\<lambda>(input, failed).
     bind_result (mk_ExchangedIntervalTransactions duration (xs_transactions input) (xs_currency input)) (\<lambda>i.
       Inr (i, failed)))"

definition useStatsPageProps ::
  "stats_context \<Rightarrow> int list \<Rightarrow> interval \<Rightarrow> (exchanged_interval_transactions \<times> transaction list) result" where
  "useStatsPageProps cx excludeCategories duration =
     bind_result (filterExcludedTransactions (sc_transactions cx) excludeCategories (sc_categories cx))
       (\<lambda>filteredTransactions.
     bind_result (useExchangedTransactions cx filteredTransactions) (\<lambda>(input, failed).
     bind_result (mk_ExchangedIntervalTransactions duration (xs_transactions input) (xs_currency input)) (\<lambda>i.
       Inr (i, failed))))"

section \<open>Every transaction is counted once or reported\<close>

text \<open>The two amounts of a transaction in the display currency; \<open>None\<close> when it cannot be exchanged.\<close>

definition exchanged_amounts ::
  "stats_context \<Rightarrow> transaction \<Rightarrow> (amount_with_currency \<times> amount_with_currency) option result" where
  "exchanged_amounts cx t =
     (case flow_of t of
        None \<Rightarrow> Inr (Some (awc_zero (sc_displayCurrency cx), awc_zero (sc_displayCurrency cx)))
      | Some f \<Rightarrow>
        bind_result (amountOwnShare (sc_closestTo cx) f (sc_displayCurrency cx) (sc_bankAccounts cx) (sc_stocks cx)
            (sc_exchange cx)) (\<lambda>own. case own of None \<Rightarrow> Inr None | Some o' \<Rightarrow>
        bind_result (amountAllParties (sc_closestTo cx) f (sc_displayCurrency cx) (sc_bankAccounts cx) (sc_stocks cx)
            (sc_exchange cx)) (\<lambda>all. Inr (map_option (Pair o') all))))"

definition exchanged_of :: "stats_context \<Rightarrow> transaction \<Rightarrow> exchanged_transaction list" where
  "exchanged_of cx t =
     (case exchanged_amounts cx t of Inr (Some (o', a)) \<Rightarrow> [\<lparr>xt_t = t, xt_ownShare = o', xt_allParties = a\<rparr>] | _ \<Rightarrow> [])"

lemma exchange_step_eq:
  "exchange_step cx (xs, fs) t =
    bind_result (exchanged_amounts cx t) (\<lambda>r. Inr (xs @ exchanged_of cx t, if r = None then fs @ [t] else fs))"
proof (cases "flow_of t")
  case None
  then show ?thesis by (simp add: exchange_step_def exchanged_amounts_def exchanged_of_def Let_def)
next
  case (Some f)
  let ?own = "amountOwnShare (sc_closestTo cx) f (sc_displayCurrency cx) (sc_bankAccounts cx) (sc_stocks cx)
    (sc_exchange cx)"
  let ?all = "amountAllParties (sc_closestTo cx) f (sc_displayCurrency cx) (sc_bankAccounts cx) (sc_stocks cx)
    (sc_exchange cx)"
  show ?thesis
    using Some by (cases ?own; cases ?all)
      (auto simp: exchange_step_def exchanged_amounts_def exchanged_of_def Let_def split: option.split)
qed

lemma exchange_fold:
  "fold_result (exchange_step cx) (xs, fs) ts =
    (case map_result (exchanged_amounts cx) ts of
       Inl e \<Rightarrow> Inl e
     | Inr rs \<Rightarrow> Inr (xs @ concat (map (exchanged_of cx) ts),
         fs @ filter (\<lambda>t. exchanged_amounts cx t = Inr None) ts))"
proof (induction ts arbitrary: xs fs)
  case (Cons t ts)
  show ?case
  proof (cases "exchanged_amounts cx t")
    case (Inr r)
    then show ?thesis using Cons by (auto simp: exchange_step_eq split: sum.splits)
  qed (simp add: exchange_step_eq)
qed simp

lemma cur_code_eq: "cur_code c = cur_code d \<longleftrightarrow> c = (d :: currency)"
  by (auto intro: currency.equality)

lemma mk_ExchangedTransactions_eq:
  "mk_ExchangedTransactions xs c =
    (if \<forall>x \<in> set xs. awc_currency (xt_ownShare x) = c \<and> awc_currency (xt_allParties x) = c
     then Inr \<lparr>xs_exchanged = xs, xs_currency = c\<rparr> else Inl AssertionFailed)"
proof -
  have "fold_result (\<lambda>_ x.
         bind_result (assert_that (cur_code (awc_currency (xt_ownShare x)) = cur_code c) AssertionFailed) (\<lambda>_.
           assert_that (cur_code (awc_currency (xt_allParties x)) = cur_code c) AssertionFailed)) () xs =
      (if \<forall>x \<in> set xs. awc_currency (xt_ownShare x) = c \<and> awc_currency (xt_allParties x) = c
       then Inr () else Inl AssertionFailed)"
    by (induction xs) (auto simp: assert_that_def cur_code_eq)
  then show ?thesis by (simp add: mk_ExchangedTransactions_def)
qed

lemma exchangeStock_currency:
  "exchangeStock closestTo ex a s target when = Inr (Some b) \<Longrightarrow> awc_currency b = target"
  by (auto simp: exchangeStock_def bind_result_eq_Inr cur_code_eq [symmetric] rates_exchange_currency
    split: option.splits)

lemma exchangeCurrency_currency:
  "exchangeCurrency closestTo ex a target when = Some b \<Longrightarrow> awc_currency b = target"
  by (auto simp: exchangeCurrency_def cur_code_eq [symmetric] rates_exchange_currency)

lemma amounts_currency:
  "amountOwnShare closestTo f target accs stocks ex = Inr (Some b) \<Longrightarrow> awc_currency b = target"
  "amountAllParties closestTo f target accs stocks ex = Inr (Some b) \<Longrightarrow> awc_currency b = target"
  by (cases "transactionUnit f accs stocks"; auto simp: amountOwnShare_def amountAllParties_def Let_def
    dest: exchangeStock_currency exchangeCurrency_currency split: unit_of_account.splits)+

lemma exchanged_amounts_currency:
  "exchanged_amounts cx t = Inr (Some (o', a)) \<Longrightarrow>
     awc_currency o' = sc_displayCurrency cx \<and> awc_currency a = sc_displayCurrency cx"
  by (auto simp: exchanged_amounts_def bind_result_eq_Inr dest: amounts_currency split: option.splits)

lemma exchanged_of_currency:
  "x \<in> set (exchanged_of cx t) \<Longrightarrow> xt_t x = t \<and> awc_currency (xt_ownShare x) = sc_displayCurrency cx \<and>
     awc_currency (xt_allParties x) = sc_displayCurrency cx"
  by (cases "exchanged_amounts cx t") (auto simp: exchanged_of_def dest: exchanged_amounts_currency split: option.splits)

lemma useExchangedTransactions_eq:
  "useExchangedTransactions cx ts =
    (case map_result (exchanged_amounts cx) ts of
       Inl e \<Rightarrow> Inl e
     | Inr _ \<Rightarrow> Inr (\<lparr>xs_exchanged = concat (map (exchanged_of cx) ts), xs_currency = sc_displayCurrency cx\<rparr>,
         filter (\<lambda>t. exchanged_amounts cx t = Inr None) ts))"
proof -
  have "mk_ExchangedTransactions (concat (map (exchanged_of cx) ts)) (sc_displayCurrency cx) =
      Inr \<lparr>xs_exchanged = concat (map (exchanged_of cx) ts), xs_currency = sc_displayCurrency cx\<rparr>"
    by (auto simp: mk_ExchangedTransactions_eq dest: exchanged_of_currency)
  then show ?thesis
    by (auto simp: useExchangedTransactions_def exchange_fold split: sum.split)
qed

lemma mk_ExchangedIntervalTransactions_eq:
  "mk_ExchangedIntervalTransactions i xs c =
    (if \<forall>x \<in> set xs. awc_currency (xt_ownShare x) = c \<and> awc_currency (xt_allParties x) = c
     then Inr \<lparr>xs_exchanged = xs, xs_currency = c, xi_interval = i\<rparr> else Inl AssertionFailed)"
  by (simp add: mk_ExchangedIntervalTransactions_def mk_ExchangedTransactions_eq exchanged_transactions.defs)

lemma filterExcluded_known:
  assumes "filterExcludedTransactions txs excluded all = Inr kept"
  shows "set excluded \<subseteq> cat_id ` set all"
proof
  fix e assume "e \<in> set excluded"
  with assms obtain c where "mustFindCategory e all = Inr c"
    by (fastforce simp: filterExcludedTransactions_def bind_result_eq_Inr map_result_Inr_iff list_all2_conv_all_nth
      in_set_conv_nth)
  then show "e \<in> cat_id ` set all"
    by (auto simp: mustFindCategory_def dest!: find_eq_key_Some split: option.splits)
qed

text \<open>The transactions the statistics are about: no opening balances, no excluded categories.\<close>

definition included :: "category_tree \<Rightarrow> int list \<Rightarrow> transaction \<Rightarrow> bool" where
  "included tree excluded t \<longleftrightarrow> \<not> isOpeningBalance t \<and>
     (\<forall>e \<in> set excluded. \<forall>c. tx_categoryId t = Some c \<longrightarrow> subtreeIncludes (AnId e) (AnId c) tree \<noteq> Inr True)"

lemma useStatsPageProps_lemma:
  assumes "useStatsPageProps cx excluded d = Inr (input, failed)"
    and "makeCategoryTree (sc_categories cx) = Inr tree" "distinct (map cat_id (sc_categories cx))"
    and "\<forall>i < length (sc_categories cx). rooted (tree_store tree) i"
  shows "input = \<lparr>xs_exchanged = concat (map (exchanged_of cx) (filter (included tree excluded) (sc_transactions cx))),
      xs_currency = sc_displayCurrency cx, xi_interval = d\<rparr> \<and>
    failed = filter (\<lambda>t. included tree excluded t \<and> exchanged_amounts cx t = Inr None) (sc_transactions cx)"
proof -
  obtain kept where k: "filterExcludedTransactions (sc_transactions cx) excluded (sc_categories cx) = Inr kept"
    using assms(1) by (auto simp: useStatsPageProps_def bind_result_eq_Inr)
  then have kept: "kept = filter (included tree excluded) (sc_transactions cx)"
    using filterExcluded_lemma [OF assms(2-4) filterExcluded_known [OF k]] by (simp add: included_def cong: filter_cong)
  obtain rs where "map_result (exchanged_amounts cx) kept = Inr rs"
    using assms(1) k by (auto simp: useStatsPageProps_def bind_result_eq_Inr useExchangedTransactions_eq
      split: sum.splits)
  then show ?thesis
    using assms(1) k kept
    by (auto simp: useStatsPageProps_def useExchangedTransactions_eq mk_ExchangedIntervalTransactions_eq
      xs_transactions_def conj_commute split: if_splits)
qed

section \<open>Text summaries\<close>

definition sum_amounts ::
  "(exchanged_transaction \<Rightarrow> amount_with_currency) \<Rightarrow> currency \<Rightarrow> exchanged_transaction list \<Rightarrow>
     amount_with_currency result" where
  "sum_amounts f c xs = fold_result (\<lambda>s x. awc_add s (f x)) (awc_zero c) xs"

text \<open>\<open>None\<close> stands for a ratio that is not a finite number.\<close>

record period_summary =
  ps_spent :: amount_with_currency
  ps_received :: amount_with_currency
  ps_delta :: amount_with_currency
  ps_spentPercent :: "int option"
  ps_trips :: amount_with_currency

definition PeriodSummary :: "calendar \<Rightarrow> exchanged_interval_transactions \<Rightarrow> period_summary result" where
  "PeriodSummary cal input =
     bind_result (sum_amounts xt_ownShare (xs_currency input) (xi_expenses cal input)) (\<lambda>expense.
     bind_result (sum_amounts xt_ownShare (xs_currency input) (xi_income cal input)) (\<lambda>income.
     let expenseIncomeRatio = (if isZero income then None else Some (n_div (dollar expense) (dollar income))) in
     bind_result (sum_amounts xt_ownShare (xs_currency input)
       (filter (\<lambda>x. isExpense (xt_t x) \<and> hasTrip (xt_t x)) (xi_expenses cal input))) (\<lambda>trips.
     bind_result (awc_subtract income expense) (\<lambda>delta.
       Inr \<lparr>ps_spent = awc_round expense, ps_received = awc_round income, ps_delta = awc_round delta,
         ps_spentPercent = map_option (\<lambda>r. js_round (n_mul r 100)) expenseIncomeRatio,
         ps_trips = awc_round trips\<rparr>))))"

record trip_summary =
  tsum_gross :: amount_with_currency
  tsum_net :: amount_with_currency
  tsum_percent :: "int option"

definition TripTextSummary :: "exchanged_transactions \<Rightarrow> trip_summary result" where
  "TripTextSummary input =
     bind_result (sum_amounts xt_allParties (xs_currency input) (xs_expenses input)) (\<lambda>spentAllParties.
     bind_result (sum_amounts xt_ownShare (xs_currency input) (xs_expenses input)) (\<lambda>spentOwnShare.
       Inr \<lparr>tsum_gross = spentAllParties, tsum_net = spentOwnShare,
         tsum_percent = (if dollar spentAllParties = 0 then None
           else Some (js_round (n_div (n_mul 100 (dollar spentOwnShare)) (dollar spentAllParties))))\<rparr>))"

fun tripTotalSpend ::
  "int \<Rightarrow> stats_context \<Rightarrow> amount_with_currency \<Rightarrow> transaction list \<Rightarrow> amount_with_currency option result" where
  "tripTotalSpend tripId cx subtotal [] = Inr (Some subtotal)"
| "tripTotalSpend tripId cx subtotal (t # ts) =
     (case flow_of t of
        None \<Rightarrow> tripTotalSpend tripId cx subtotal ts
      | Some f \<Rightarrow>
        if flow_tripId f \<noteq> Some tripId then tripTotalSpend tripId cx subtotal ts
        else bind_result (amountAllParties (sc_closestTo cx) f (sc_displayCurrency cx) (sc_bankAccounts cx)
               (sc_stocks cx) (sc_exchange cx)) (\<lambda>amount.
             case amount of
               None \<Rightarrow> Inr None
             | Some a \<Rightarrow>
               bind_result (if isExpense t then awc_add subtotal a else awc_subtract subtotal a) (\<lambda>subtotal.
                 tripTotalSpend tripId cx subtotal ts)))"

section \<open>Totals\<close>

definition own_share :: "stats_context \<Rightarrow> transaction \<Rightarrow> int" where
  "own_share cx t = (case exchanged_amounts cx t of Inr (Some (o', _)) \<Rightarrow> amountNanos o' | _ \<Rightarrow> 0)"

lemma sum_amounts_eq:
  assumes "\<forall>x \<in> set xs. awc_currency (f x) = c"
  shows "sum_amounts f c xs = Inr (mk_awc (\<Sum>x \<leftarrow> xs. amountNanos (f x)) c)"
  using awc_sum_loop [of xs f c 0] assms by (simp add: sum_amounts_def awc_zero_def)

lemma filter_exchanged_of:
  "filter (\<lambda>x. P (xt_t x)) (concat (map (exchanged_of cx) ts)) = concat (map (exchanged_of cx) (filter P ts))"
proof (induction ts)
  case (Cons t ts)
  have "filter (\<lambda>x. P (xt_t x)) (exchanged_of cx t) = (if P t then exchanged_of cx t else [])"
    by (auto simp: filter_id_conv filter_empty_conv dest: exchanged_of_currency)
  with Cons show ?case by simp
qed simp

lemma sum_exchanged_of:
  "(\<Sum>x \<leftarrow> concat (map (exchanged_of cx) ts). amountNanos (xt_ownShare x)) = (\<Sum>t \<leftarrow> ts. own_share cx t)"
proof (induction ts)
  case (Cons t ts)
  have "(\<Sum>x \<leftarrow> exchanged_of cx t. amountNanos (xt_ownShare x)) = own_share cx t"
    by (simp add: exchanged_of_def own_share_def split: sum.split option.split prod.split)
  with Cons show ?case by simp
qed simp

lemma interval_filters:
  "xi_expenses cal input = filter (\<lambda>x. isExpense (xt_t x) \<and>
     cal_isWithinInterval cal (tx_timestampEpoch (xt_t x)) (xi_interval input)) (xs_exchanged input)"
  "xi_income cal input = filter (\<lambda>x. isIncome (xt_t x) \<and>
     cal_isWithinInterval cal (tx_timestampEpoch (xt_t x)) (xi_interval input)) (xs_exchanged input)"
  by (auto simp: xi_expenses_def xi_income_def xs_expenses_def xs_income_def xi_within_def conj_commute
    intro!: filter_cong)

text \<open>Input whose amounts are all in its own currency.\<close>

definition input_ok :: "'a exchanged_transactions_scheme \<Rightarrow> bool" where
  "input_ok input \<longleftrightarrow> (\<forall>x \<in> set (xs_exchanged input).
     awc_currency (xt_ownShare x) = xs_currency input \<and> awc_currency (xt_allParties x) = xs_currency input)"

lemma input_ok_lists:
  assumes "input_ok input"
  shows "\<forall>x \<in> set (xi_expenses cal input). awc_currency (xt_ownShare x) = xs_currency input"
    and "\<forall>x \<in> set (xi_income cal input). awc_currency (xt_ownShare x) = xs_currency input"
  using assms by (auto simp: input_ok_def interval_filters)

lemma constructed_input_ok: "mk_ExchangedIntervalTransactions i xs c = Inr input \<Longrightarrow> input_ok input"
  by (auto simp: mk_ExchangedIntervalTransactions_eq input_ok_def split: if_splits)

lemma useStatsPageProps_input_ok:
  "useStatsPageProps cx excluded d = Inr (input, failed) \<Longrightarrow> input_ok input \<and> xi_interval input = d"
  by (auto simp: useStatsPageProps_def bind_result_eq_Inr mk_ExchangedIntervalTransactions_eq input_ok_def
    split: if_splits)

abbreviation nanos_of :: "exchanged_transaction list \<Rightarrow> int" where
  "nanos_of xs \<equiv> (\<Sum>x \<leftarrow> xs. amountNanos (xt_ownShare x))"

lemma PeriodSummary_eq:
  assumes "input_ok input"
  shows "PeriodSummary cal input =
    (let amount = \<lambda>n. mk_awc n (xs_currency input);
         spent = amount (nanos_of (xi_expenses cal input)); received = amount (nanos_of (xi_income cal input))
     in Inr \<lparr>ps_spent = awc_round spent, ps_received = awc_round received,
       ps_delta = awc_round (amount (amountNanos received - amountNanos spent)),
       ps_spentPercent = (if amountNanos received = 0 then None
         else Some (js_round (n_mul (n_div (dollar spent) (dollar received)) 100))),
       ps_trips = awc_round (amount (nanos_of (filter (\<lambda>x. hasTrip (xt_t x)) (xi_expenses cal input))))\<rparr>)"
proof -
  have "filter (\<lambda>x. isExpense (xt_t x) \<and> hasTrip (xt_t x)) (xi_expenses cal input) =
      filter (\<lambda>x. hasTrip (xt_t x)) (xi_expenses cal input)"
    by (auto simp: interval_filters intro!: filter_cong)
  then show ?thesis
    using input_ok_lists [OF assms, of cal]
    by (simp add: PeriodSummary_def sum_amounts_eq Let_def isZero_def)
qed

lemma PeriodSummary_lemma:
  assumes "useStatsPageProps cx excluded d = Inr (input, failed)"
    and "makeCategoryTree (sc_categories cx) = Inr tree" "distinct (map cat_id (sc_categories cx))"
    and "\<forall>i < length (sc_categories cx). rooted (tree_store tree) i"
  shows "\<exists>summary. PeriodSummary cal input = Inr summary \<and>
    (let total = \<lambda>P. \<Sum>t \<leftarrow> filter (\<lambda>t. P t \<and> cal_isWithinInterval cal (tx_timestampEpoch t) d \<and>
           included tree excluded t) (sc_transactions cx). own_share cx t;
         amount = \<lambda>n. awc_round (mk_awc n (sc_displayCurrency cx))
     in ps_spent summary = amount (total isExpense) \<and> ps_received summary = amount (total isIncome) \<and>
        ps_delta summary = amount (total isIncome - total isExpense) \<and>
        ps_trips summary = amount (total (\<lambda>t. isExpense t \<and> hasTrip t)))"
proof -
  note input = conjunct1 [OF useStatsPageProps_lemma [OF assms]]
  have ok: "input_ok input" using useStatsPageProps_input_ok [OF assms(1)] by simp
  let ?tot = "\<lambda>P. \<Sum>t \<leftarrow> filter (\<lambda>t. P t \<and> cal_isWithinInterval cal (tx_timestampEpoch t) d \<and>
    included tree excluded t) (sc_transactions cx). own_share cx t"
  have "nanos_of (filter (\<lambda>x. P (xt_t x) \<and> cal_isWithinInterval cal (tx_timestampEpoch (xt_t x)) d) (xs_exchanged input)) =
      ?tot P" for P
    unfolding input using filter_exchanged_of [of "\<lambda>t. P t \<and> cal_isWithinInterval cal (tx_timestampEpoch t) d"]
    by (simp add: sum_exchanged_of conj_ac)
  note tot = this
  have "xi_interval input = d" "xs_currency input = sc_displayCurrency cx" by (simp_all add: input)
  moreover from this tot [of isExpense] tot [of isIncome] tot [of "\<lambda>t. isExpense t \<and> hasTrip t"]
  have "nanos_of (xi_expenses cal input) = ?tot isExpense" "nanos_of (xi_income cal input) = ?tot isIncome"
    "nanos_of (filter (\<lambda>x. hasTrip (xt_t x)) (xi_expenses cal input)) = ?tot (\<lambda>t. isExpense t \<and> hasTrip t)"
    by (simp_all add: interval_filters conj_ac)
  ultimately show ?thesis unfolding PeriodSummary_eq [OF ok] by (simp add: Let_def)
qed

section \<open>Properties\<close>

text \<open>A small set of data the witnesses use.\<close>

definition sample_stats :: stats_context where
  "sample_stats =
     \<lparr>sc_closestTo = first_closest, sc_displayCurrency = \<lparr>cur_code = ''GBP''\<rparr>,
      sc_bankAccounts = [\<lparr>acc_id = 7, acc_name = ''Current'', acc_bankId = 1, acc_initialBalanceNanos = 0,
        acc_currencyCode = Some ''GBP'', acc_stock = None, acc_displayOrder = 1, acc_archived = False,
        acc_joint = False\<rparr>],
      sc_stocks = [], sc_exchange = \<lparr>exchangeRates = [], stockQuotes = []\<rparr>, sc_categories = sample_categories,
      sc_transactions = [PersonalExpense sample_expense, Income sample_income,
        PersonalExpense (sample_expense\<lparr>pe_id := 3, pe_categoryId := 3\<rparr>)]\<rparr>"

definition sample_interval :: interval where
  "sample_interval = \<lparr>iv_start = 0, iv_end = 3000\<rparr>"

lemma sample_page: "\<exists>input failed. useStatsPageProps sample_stats [2] sample_interval = Inr (input, failed)"
proof -
  have "case useStatsPageProps sample_stats [2] sample_interval of Inr _ \<Rightarrow> True | Inl _ \<Rightarrow> False" by code_simp
  then show ?thesis by (auto split: sum.splits)
qed

lemma sample_tree_rooted:
  "distinct (map cat_id sample_categories)"
  "\<forall>i < length sample_categories. rooted (tree_store (tree_of sample_categories)) i"
proof -
  have len: "length sample_categories = 4" by (simp add: sample_categories_def)
  have "ancestor_path (tree_store (tree_of sample_categories)) 3 []"
    by (rule path_root) (use sample_parents in \<open>simp add: len\<close>)
  then show "\<forall>i < length sample_categories. rooted (tree_store (tree_of sample_categories)) i"
    using sample_paths by (auto simp: rooted_def len numeral_eq_Suc less_Suc_eq)
qed (simp add: sample_categories_def)

text \<open>
  The exclusion of categories from the statistics. For categories with distinct ids whose chains of
  parents end, \<open>filterExcludedTransactions\<close> keeps exactly the transactions that are not opening balances
  and whose category is in no subtree of an excluded category, although \<open>getDescendants\<close> changes the
  tree it is asked about each time.
\<close>
theorem excluded_categories:
  assumes "makeCategoryTree all = Inr tree" "distinct (map cat_id all)"
    and "\<forall>i < length all. rooted (tree_store tree) i" "set excluded \<subseteq> cat_id ` set all"
  shows "filterExcludedTransactions txs excluded all = Inr (filter (included tree excluded) txs)"
  using filterExcluded_lemma [OF assms, of txs] by (simp add: included_def [abs_def])

theorem excluded_categories_witness:
  "filterExcludedTransactions (sc_transactions sample_stats) [2] sample_categories =
     Inr (filter (included (tree_of sample_categories) [2]) (sc_transactions sample_stats))"
  by (rule excluded_categories [OF sample_tree sample_tree_rooted]) (simp add: sample_categories_def)

text \<open>
  C19: every transaction is counted once or reported. When the exchange of no transaction throws,
  \<open>useExchangedTransactions\<close> splits the transactions, in their order, into those it could exchange and
  those it reports as failed; the currency assertion of the constructor it calls never fails.
\<close>
theorem exchanged_once:
  "case map_result (exchanged_amounts cx) ts of
     Inl e \<Rightarrow> useExchangedTransactions cx ts = Inl e
   | Inr _ \<Rightarrow> \<exists>input. useExchangedTransactions cx ts = Inr (input, filter (\<lambda>t. exchanged_amounts cx t = Inr None) ts) \<and>
       map xt_t (xs_exchanged input) = filter (\<lambda>t. exchanged_amounts cx t \<noteq> Inr None) ts \<and>
       map (\<lambda>x. exchanged_amounts cx (xt_t x)) (xs_exchanged input) =
         map (\<lambda>x. Inr (Some (xt_ownShare x, xt_allParties x))) (xs_exchanged input)"
proof (cases "map_result (exchanged_amounts cx) ts")
  case (Inr rs)
  then have ok: "\<forall>t \<in> set ts. \<exists>r. exchanged_amounts cx t = Inr r"
    by (auto simp: map_result_Inr_iff list_all2_conv_all_nth in_set_conv_nth)
  have one: "map xt_t (exchanged_of cx t) = (if exchanged_amounts cx t = Inr None then [] else [t])" if "t \<in> set ts" for t
    using ok that by (auto simp: exchanged_of_def split: option.splits)
  have "map xt_t (concat (map (exchanged_of cx) ts)) = filter (\<lambda>t. exchanged_amounts cx t \<noteq> Inr None) ts"
    using one by (induction ts) auto
  moreover have "\<forall>x \<in> set (concat (map (exchanged_of cx) ts)).
    exchanged_amounts cx (xt_t x) = Inr (Some (xt_ownShare x, xt_allParties x))"
    by (auto simp: exchanged_of_def split: sum.splits option.splits)
  ultimately show ?thesis using Inr by (simp add: useExchangedTransactions_eq del: map_concat)
qed (simp add: useExchangedTransactions_eq)

text \<open>
  The summary of a period. What the statistics page shows as spent, received, delta and spent on
  trips are the rounded totals of the user's own share over the transactions in the period that the
  excluded categories leave, each exchanged to the display currency.
\<close>
theorem period_summary:
  assumes "useStatsPageProps cx excluded d = Inr (input, failed)"
    and "makeCategoryTree (sc_categories cx) = Inr tree" "distinct (map cat_id (sc_categories cx))"
    and "\<forall>i < length (sc_categories cx). rooted (tree_store tree) i"
  shows "\<exists>summary. PeriodSummary cal input = Inr summary \<and>
    (let total = \<lambda>P. \<Sum>t \<leftarrow> filter (\<lambda>t. P t \<and> cal_isWithinInterval cal (tx_timestampEpoch t) d \<and>
           included tree excluded t) (sc_transactions cx). own_share cx t;
         amount = \<lambda>n. awc_round (mk_awc n (sc_displayCurrency cx))
     in ps_spent summary = amount (total isExpense) \<and> ps_received summary = amount (total isIncome) \<and>
        ps_delta summary = amount (total isIncome - total isExpense) \<and>
        ps_trips summary = amount (total (\<lambda>t. isExpense t \<and> hasTrip t)))"
  by (rule PeriodSummary_lemma [OF assms])

theorem period_summary_witness:
  "\<exists>input failed summary. useStatsPageProps sample_stats [2] sample_interval = Inr (input, failed) \<and>
     PeriodSummary ten_ms_calendar input = Inr summary"
proof -
  obtain input failed where page: "useStatsPageProps sample_stats [2] sample_interval = Inr (input, failed)"
    using sample_page by blast
  have cats: "sc_categories sample_stats = sample_categories" by (simp add: sample_stats_def)
  show ?thesis
    using period_summary [OF page, unfolded cats, OF sample_tree sample_tree_rooted, of ten_ms_calendar] page by blast
qed

end
