(* ===== verification/Charts.thy ===== *)
theory Charts
  imports Statistics
begin

text \<open>
  The aggregations behind the charts of the statistics pages: \<open>components/charts/timeseries\<close>,
  \<open>components/charts/aggregate\<close> and \<open>app/(authenticated)/stats/expense/FanoutByRootCategory.tsx\<close>.
  A chart is modelled by the data it hands to the chart library; a chart that renders nothing is
  \<open>None\<close>.
\<close>

section \<open>Charts over time\<close>

definition own_shares :: "exchanged_transaction list \<Rightarrow> (rat \<times> amount_with_currency) list" where
  "own_shares xs = map (\<lambda>x. (tx_timestampEpoch (xt_t x), xt_ownShare x)) xs"

definition negated_shares :: "exchanged_transaction list \<Rightarrow> (rat \<times> amount_with_currency) list" where
  "negated_shares xs = map (\<lambda>x. (tx_timestampEpoch (xt_t x), awc_negate (xt_ownShare x))) xs"

definition cashflow_series ::
  "calendar \<Rightarrow> currency \<Rightarrow> granularity \<Rightarrow> exchanged_transaction list \<Rightarrow> exchanged_transaction list \<Rightarrow>
     money_timeseries result" where
  "cashflow_series cal c g incomes expenses =
     bind_result (mt_accumulate cal (own_shares incomes) (mk_MoneyTimeseries c g)) (\<lambda>cashflow.
       mt_accumulate cal (negated_shares expenses) cashflow)"

definition MonthlyCashflow :: "calendar \<Rightarrow> exchanged_interval_transactions \<Rightarrow> money_timeseries result" where
  "MonthlyCashflow cal input =
     cashflow_series cal (xs_currency input) MONTHLY (xi_income cal input) (xi_expenses cal input)"

definition MonthlyCashflowAverage :: "calendar \<Rightarrow> exchanged_interval_transactions \<Rightarrow> money_timeseries result" where
  "MonthlyCashflowAverage cal input =
     bind_result (cashflow_series cal (xs_currency input) MONTHLY (xs_income input) (xs_expenses input))
       (\<lambda>cashflow. mt_runningAverage cal cashflow 12)"

fun cumulative_loop ::
  "calendar \<Rightarrow> money_timeseries \<Rightarrow> amount_with_currency \<Rightarrow> money_timeseries \<Rightarrow> rat list \<Rightarrow>
     money_timeseries result" where
  "cumulative_loop cal cashflow current cumulative [] = Inr cumulative"
| "cumulative_loop cal cashflow current cumulative (m # ms) =
     bind_result (awc_add current (at_get cal cashflow m)) (\<lambda>current.
       cumulative_loop cal cashflow current (at_set cal m current cumulative) ms)"

definition cumulative_cashflow ::
  "calendar \<Rightarrow> exchanged_interval_transactions \<Rightarrow> granularity \<Rightarrow> money_timeseries result" where
  "cumulative_cashflow cal input g =
     bind_result (cashflow_series cal (xs_currency input) g (xi_income cal input) (xi_expenses cal input))
       (\<lambda>cashflow. cumulative_loop cal cashflow (awc_zero (xs_currency input))
          (mk_MoneyTimeseries (xs_currency input) g) (cal_eachOfInterval cal g (xi_interval input)))"

definition MonthlyCashflowCumulative :: "calendar \<Rightarrow> exchanged_interval_transactions \<Rightarrow> money_timeseries result" where
  "MonthlyCashflowCumulative cal input = cumulative_cashflow cal input MONTHLY"

definition YearlyCashflowCumulative :: "calendar \<Rightarrow> exchanged_interval_transactions \<Rightarrow> money_timeseries result" where
  "YearlyCashflowCumulative cal input = cumulative_cashflow cal input YEARLY"

definition shares_series ::
  "calendar \<Rightarrow> currency \<Rightarrow> granularity \<Rightarrow> exchanged_transaction list \<Rightarrow> money_timeseries result" where
  "shares_series cal c g xs = mt_accumulate cal (own_shares xs) (mk_MoneyTimeseries c g)"

definition MonthlyExpense :: "calendar \<Rightarrow> exchanged_interval_transactions \<Rightarrow> money_timeseries result" where
  "MonthlyExpense cal input = shares_series cal (xs_currency input) MONTHLY (xi_expenses cal input)"

definition MonthlyIncome :: "calendar \<Rightarrow> exchanged_interval_transactions \<Rightarrow> money_timeseries result" where
  "MonthlyIncome cal input = shares_series cal (xs_currency input) MONTHLY (xi_income cal input)"

definition MonthlyExpenseAverage :: "calendar \<Rightarrow> exchanged_interval_transactions \<Rightarrow> money_timeseries result" where
  "MonthlyExpenseAverage cal input =
     bind_result (shares_series cal (xs_currency input) MONTHLY (xs_expenses input)) (\<lambda>data.
       mt_runningAverage cal data 12)"

definition MonthlyIncomeAverage :: "calendar \<Rightarrow> exchanged_interval_transactions \<Rightarrow> money_timeseries result" where
  "MonthlyIncomeAverage cal input =
     bind_result (shares_series cal (xs_currency input) MONTHLY (xs_income input)) (\<lambda>data.
       mt_runningAverage cal data 12)"

definition less_than_a_year :: "calendar \<Rightarrow> exchanged_interval_transactions \<Rightarrow> bool" where
  "less_than_a_year cal input \<longleftrightarrow>
     cal_differenceInYears cal (iv_end (xi_interval input)) (iv_start (xi_interval input)) < 1"

definition YearlyCashflow :: "calendar \<Rightarrow> exchanged_interval_transactions \<Rightarrow> money_timeseries option result" where
  "YearlyCashflow cal input =
     bind_result (cashflow_series cal (xs_currency input) YEARLY (xi_income cal input) (xi_expenses cal input))
       (\<lambda>cashflow. Inr (if less_than_a_year cal input then None else Some cashflow))"

definition YearlyExpense :: "calendar \<Rightarrow> exchanged_interval_transactions \<Rightarrow> money_timeseries option result" where
  "YearlyExpense cal input =
     bind_result (shares_series cal (xs_currency input) YEARLY (xi_expenses cal input)) (\<lambda>data.
       Inr (if less_than_a_year cal input then None else Some data))"

definition YearlyIncome :: "calendar \<Rightarrow> exchanged_interval_transactions \<Rightarrow> money_timeseries option result" where
  "YearlyIncome cal input =
     bind_result (shares_series cal (xs_currency input) YEARLY (xi_income cal input)) (\<lambda>data.
       Inr (if less_than_a_year cal input then None else Some data))"

definition MonthlyTransactionCount ::
  "calendar \<Rightarrow> exchanged_interval_transactions \<Rightarrow> number_timeseries result" where
  "MonthlyTransactionCount cal input =
     fold_result (\<lambda>data x. at_increment cal (tx_timestampEpoch (xt_t x)) 1 data) (mk_NumberTimeseries MONTHLY)
       (xs_transactions input)"

definition TimelineAmountsChart ::
  "calendar \<Rightarrow> currency \<Rightarrow> granularity \<Rightarrow> (rat \<times> amount) list \<Rightarrow> money_timeseries result" where
  "TimelineAmountsChart cal c g data =
     mt_accumulate cal (map (\<lambda>(timestamp, a). (timestamp, mk_awc (amountNanos a) c)) data) (mk_MoneyTimeseries c g)"

text \<open>The bars a chart draws: one per period of the interval, rounded to whole units.\<close>

definition bar_values :: "calendar \<Rightarrow> interval \<Rightarrow> money_timeseries \<Rightarrow> rat list" where
  "bar_values cal i data =
     map (\<lambda>slice. dollar (awc_round (at_get cal data (iv_start slice)))) (sliceInterval cal i (at_granularity data))"

definition number_bar_values :: "calendar \<Rightarrow> interval \<Rightarrow> number_timeseries \<Rightarrow> rat list" where
  "number_bar_values cal i data =
     map (\<lambda>slice. at_get cal data (iv_start slice)) (sliceInterval cal i (at_granularity data))"

definition sparkline_values :: "(rat \<times> amount_with_currency) list \<Rightarrow> rat list" where
  "sparkline_values data = map (\<lambda>(_, a). dollar (awc_round a)) data"

definition horizontal_bar_values :: "(string \<times> amount_with_currency) list \<Rightarrow> rat list" where
  "horizontal_bar_values data = map (\<lambda>(_, a). dollar (awc_round a)) data"

definition stacked_bar_values ::
  "calendar \<Rightarrow> interval \<Rightarrow> granularity \<Rightarrow> (string \<times> money_timeseries) list \<Rightarrow> (string \<times> rat list) list" where
  "stacked_bar_values cal i g data =
     map (\<lambda>(name, series). (name, map (\<lambda>slice. dollar (awc_round (at_get cal series (iv_start slice)))) (sliceInterval cal i g)))
       data"

text \<open>The rows of the tooltip of a stacked bar: the parts that are not zero, largest first.\<close>

definition stacked_tooltip_rows :: "(string \<times> rat) list \<Rightarrow> (string \<times> rat) list" where
  "stacked_tooltip_rows params = filter (\<lambda>(_, v). v \<noteq> 0) (js_sort (\<lambda>a b. n_sub (snd b) (snd a)) params)"

section \<open>Charts by category\<close>

type_synonym series_by_id = "(int, money_timeseries) js_map"

definition increment_series ::
  "calendar \<Rightarrow> currency \<Rightarrow> int \<Rightarrow> exchanged_transaction \<Rightarrow> series_by_id \<Rightarrow> series_by_id result" where
  "increment_series cal c k x byId =
     (let (series, byId) = dm_getOrCreate (mk_MoneyTimeseries c MONTHLY) k byId
      in bind_result (at_increment cal (tx_timestampEpoch (xt_t x)) (xt_ownShare x) series) (\<lambda>series.
           Inr (jm_set k series byId)))"

definition named_series ::
  "category_tree \<Rightarrow> series_by_id \<Rightarrow> (string \<times> money_timeseries) list result" where
  "named_series tree byId =
     map_result (\<lambda>(categoryId, series).
       bind_result (getNameWithAncestors (AnId categoryId) tree) (\<lambda>name. Inr (name, series))) byId"

definition category_id :: "transaction \<Rightarrow> int result" where
  "category_id t = or_throw (tx_categoryId t) (OpeningBalanceHasNoCategory (tx_id t))"

definition series_by_category ::
  "calendar \<Rightarrow> category list \<Rightarrow> currency \<Rightarrow> exchanged_transaction list \<Rightarrow> (string \<times> money_timeseries) list result" where
  "series_by_category cal categories c xs =
     bind_result (makeCategoryTree categories) (\<lambda>tree.
     bind_result (fold_result (\<lambda>byId x. bind_result (category_id (xt_t x)) (\<lambda>k. increment_series cal c k x byId))
       [] xs) (\<lambda>byId.
       named_series tree byId))"

definition MonthlyExpenseByCategory ::
  "calendar \<Rightarrow> category list \<Rightarrow> exchanged_interval_transactions \<Rightarrow> (string \<times> money_timeseries) list result" where
  "MonthlyExpenseByCategory cal categories input =
     series_by_category cal categories (xs_currency input) (xi_expenses cal input)"

definition MonthlyIncomeByCategory ::
  "calendar \<Rightarrow> category list \<Rightarrow> exchanged_interval_transactions \<Rightarrow> (string \<times> money_timeseries) list result" where
  "MonthlyIncomeByCategory cal categories input =
     series_by_category cal categories (xs_currency input) (xi_income cal input)"

definition MonthlyExpenseByTopCategory ::
  "calendar \<Rightarrow> category list \<Rightarrow> exchanged_interval_transactions \<Rightarrow> (string \<times> money_timeseries) list result" where
  "MonthlyExpenseByTopCategory cal categories input =
     bind_result (makeCategoryTree categories) (\<lambda>categoryTree.
     bind_result (fold_result (\<lambda>byId x.
         bind_result (transactionCategory (xt_t x) categories) (\<lambda>category.
         bind_result (findRoot (ACategory category) categoryTree) (\<lambda>topCategory.
           increment_series cal (xs_currency input) (cat_id topCategory) x byId))) [] (xi_expenses cal input)) (\<lambda>byId.
       named_series categoryTree byId))"

definition FanoutExpenseByCategory ::
  "calendar \<Rightarrow> category list \<Rightarrow> exchanged_interval_transactions \<Rightarrow> category \<Rightarrow>
     (string \<times> (string \<times> money_timeseries) list) option result" where
  "FanoutExpenseByCategory cal categories input topCategory =
     bind_result (makeCategoryTree categories) (\<lambda>tree.
     bind_result (fold_result (\<lambda>byId x.
         bind_result (category_id (xt_t x)) (\<lambda>k.
         bind_result (subtreeIncludes (ACategory topCategory) (AnId k) tree) (\<lambda>inside.
           if \<not> inside then Inr byId else increment_series cal (xs_currency input) k x byId)))
       [] (xi_expenses cal input)) (\<lambda>byId.
       if byId = [] then Inr None
       else bind_result (named_series tree byId) (\<lambda>data.
            bind_result (getNameWithAncestors (ACategory topCategory) tree) (\<lambda>title. Inr (Some (title, data))))))"

definition FanoutByRootCategory ::
  "calendar \<Rightarrow> category list \<Rightarrow> exchanged_interval_transactions \<Rightarrow>
     (string \<times> (string \<times> money_timeseries) list) option list result" where
  "FanoutByRootCategory cal categories input =
     map_result (FanoutExpenseByCategory cal categories input) (filter isRoot categories)"

section \<open>Totals by category and vendor\<close>

text \<open>
  These charts take an \<open>ExchangedTransactions\<close>, which may be an \<open>ExchangedIntervalTransactions\<close>: its
  methods \<open>expenses\<close> and \<open>income\<close> then keep to the interval.
\<close>

datatype exchanged_input =
    AllTime exchanged_transactions
  | WithinInterval exchanged_interval_transactions

fun in_currency :: "exchanged_input \<Rightarrow> currency" where
  "in_currency (AllTime input) = xs_currency input"
| "in_currency (WithinInterval input) = xs_currency input"

fun in_expenses :: "calendar \<Rightarrow> exchanged_input \<Rightarrow> exchanged_transaction list" where
  "in_expenses cal (AllTime input) = xs_expenses input"
| "in_expenses cal (WithinInterval input) = xi_expenses cal input"

fun in_income :: "calendar \<Rightarrow> exchanged_input \<Rightarrow> exchanged_transaction list" where
  "in_income cal (AllTime input) = xs_income input"
| "in_income cal (WithinInterval input) = xi_income cal input"

type_synonym 'k amounts_by = "('k, amount_with_currency) js_map"

definition currency_increment :: "currency \<Rightarrow> 'k \<Rightarrow> amount_with_currency \<Rightarrow> 'k amounts_by \<Rightarrow> 'k amounts_by result" where
  "currency_increment c k v m = am_increment_result awc_add (awc_zero c) k v m"

definition by_amount :: "(string \<times> amount_with_currency) list \<Rightarrow> (string \<times> amount_with_currency) list" where
  "by_amount data = js_sort (by_number (\<lambda>(_, a). dollar a)) data"

definition amounts_by_category ::
  "category list \<Rightarrow> currency \<Rightarrow> exchanged_transaction list \<Rightarrow> int amounts_by result" where
  "amounts_by_category categories c xs =
     fold_result (\<lambda>byId x. bind_result (transactionCategory (xt_t x) categories) (\<lambda>category.
       currency_increment c (cat_id category) (xt_ownShare x) byId)) [] xs"

definition chart_by_category ::
  "category list \<Rightarrow> currency \<Rightarrow> exchanged_transaction list \<Rightarrow> (string \<times> amount_with_currency) list result" where
  "chart_by_category categories c xs =
     bind_result (makeCategoryTree categories) (\<lambda>tree.
     bind_result (amounts_by_category categories c xs) (\<lambda>byId.
     bind_result (map_result (\<lambda>(k, v). bind_result (getNameWithAncestors (AnId k) tree) (\<lambda>name. Inr (name, v))) byId)
       (\<lambda>data. Inr (by_amount data))))"

definition ExpenseByCategory ::
  "calendar \<Rightarrow> category list \<Rightarrow> exchanged_input \<Rightarrow> (string \<times> amount_with_currency) list result" where
  "ExpenseByCategory cal categories input = chart_by_category categories (in_currency input) (in_expenses cal input)"

definition IncomeByCategory ::
  "calendar \<Rightarrow> category list \<Rightarrow> exchanged_input \<Rightarrow> (string \<times> amount_with_currency) list result" where
  "IncomeByCategory cal categories input = chart_by_category categories (in_currency input) (in_income cal input)"

definition amounts_by_root ::
  "category_tree \<Rightarrow> currency \<Rightarrow> exchanged_transaction list \<Rightarrow> int amounts_by result" where
  "amounts_by_root tree c xs =
     fold_result (\<lambda>byId x. bind_result (category_id (xt_t x)) (\<lambda>k.
       bind_result (findRoot (AnId k) tree) (\<lambda>topCategory.
         currency_increment c (cat_id topCategory) (xt_ownShare x) byId))) [] xs"

definition ExpenseByTopCategoryChart ::
  "category list \<Rightarrow> currency \<Rightarrow> exchanged_transaction list \<Rightarrow> (string \<times> amount_with_currency) list result" where
  "ExpenseByTopCategoryChart categories c data =
     bind_result (makeCategoryTree categories) (\<lambda>tree.
     bind_result (amounts_by_root tree c data) (\<lambda>byId.
     bind_result (map_result (\<lambda>(k, v). bind_result (mustFindCategory k categories) (\<lambda>cat. Inr (cat_name cat, v))) byId)
       (\<lambda>data. Inr (by_amount data))))"

text \<open>The vendor of a transaction; only expenses are listed by vendor.\<close>

fun expense_vendor :: "transaction \<Rightarrow> string" where
  "expense_vendor (PersonalExpense p) = pe_vendor p"
| "expense_vendor (ThirdPartyExpense e) = tp_vendor e"
| "expense_vendor _ = []"

definition TOP_N :: nat where "TOP_N = 10"

definition topItemsCount :: "('k, 'v) js_map \<Rightarrow> nat" where
  "topItemsCount m = (if length m = TOP_N + 1 then TOP_N + 1 else TOP_N)"

definition other_vendors :: "nat \<Rightarrow> string" where
  "other_vendors n = ''Other '' @ nat_digits n @ '' vendors''"

definition VendorsByAmount :: "calendar \<Rightarrow> exchanged_input \<Rightarrow> (string \<times> amount) list result" where
  "VendorsByAmount cal input =
     bind_result (fold_result (\<lambda>byVendor x. currency_increment (in_currency input) (expense_vendor (xt_t x)) (xt_ownShare x)
       byVendor) [] (in_expenses cal input)) (\<lambda>byVendor.
       let nanosByVendor = jm_of_entries (map (\<lambda>(vendor, a). (vendor, number_of_bigint (amountNanos a))) byVendor);
           r = topN nanosByVendor (topItemsCount byVendor)
       in Inr (map (\<lambda>(vendor, n). (vendor, mk_amount (js_round n)))
            (top r @ [(other_vendors (otherCount r), otherSum r)])))"

definition VendorsByTransactionCount :: "calendar \<Rightarrow> exchanged_input \<Rightarrow> (string \<times> rat) list" where
  "VendorsByTransactionCount cal input =
     (let counts = foldl (\<lambda>m x. am_increment n_add 0 (expense_vendor (xt_t x)) 1 m) [] (in_expenses cal input);
          r = topN counts (topItemsCount counts)
      in top r @ [(other_vendors (otherCount r), otherSum r)])"

section \<open>What the charts show\<close>

text \<open>A total over amounts that carry a time stamp, and the shares of a period.\<close>

abbreviation total_of :: "(rat \<times> amount_with_currency) list \<Rightarrow> int" where
  "total_of xs \<equiv> (\<Sum>(t, a) \<leftarrow> xs. amountNanos a)"

lemma total_of_shares [simp]:
  "total_of (own_shares xs) = nanos_of xs"
  "total_of (negated_shares xs) = - nanos_of xs"
  by (simp_all add: own_shares_def negated_shares_def comp_def uminus_sum_list_map awc_negate_def amount_negate_def
      mk_amount_def super_def)

lemma filter_shares [simp]:
  "filter (\<lambda>(t, a). P t) (own_shares xs) = own_shares (filter (\<lambda>x. P (tx_timestampEpoch (xt_t x))) xs)"
  "filter (\<lambda>(t, a). P t) (negated_shares xs) = negated_shares (filter (\<lambda>x. P (tx_timestampEpoch (xt_t x))) xs)"
  by (simp_all add: own_shares_def negated_shares_def filter_map comp_def)

abbreviation in_period :: "calendar \<Rightarrow> granularity \<Rightarrow> rat \<Rightarrow> exchanged_transaction \<Rightarrow> bool" where
  "in_period cal g u x \<equiv> cal_startOf cal g (tx_timestampEpoch (xt_t x)) = cal_startOf cal g u"

lemma shares_currency:
  assumes "\<forall>x \<in> set xs. awc_currency (xt_ownShare x) = c"
  shows "\<forall>(t, a) \<in> set (own_shares xs). awc_currency a = c"
    and "\<forall>(t, a) \<in> set (negated_shares xs). awc_currency a = c"
  using assms by (auto simp: own_shares_def negated_shares_def awc_negate_def)

lemma shares_series_lemma:
  assumes "calendar_ok cal" "\<forall>x \<in> set xs. awc_currency (xt_ownShare x) = c"
  shows "\<exists>s. shares_series cal c g xs = Inr s \<and> money_ok cal s \<and> mt_currency s = c \<and> at_granularity s = g \<and>
    (\<forall>u. amountNanos (at_get cal s u) = nanos_of (filter (in_period cal g u) xs))"
  using mt_accumulate_new [OF assms(1) shares_currency(1) [OF assms(2)], of g]
  by (auto simp: shares_series_def filter_shares)

lemma cashflow_series_lemma:
  assumes cal: "calendar_ok cal" and inc: "\<forall>x \<in> set incomes. awc_currency (xt_ownShare x) = c"
    and exp: "\<forall>x \<in> set expenses. awc_currency (xt_ownShare x) = c"
  shows "\<exists>s. cashflow_series cal c g incomes expenses = Inr s \<and> money_ok cal s \<and> mt_currency s = c \<and>
    at_granularity s = g \<and>
    (\<forall>u. amountNanos (at_get cal s u) =
       nanos_of (filter (in_period cal g u) incomes) - nanos_of (filter (in_period cal g u) expenses))"
proof -
  obtain s where s: "mt_accumulate cal (own_shares incomes) (mk_MoneyTimeseries c g) = Inr s" "money_ok cal s"
    "mt_currency s = c" "at_granularity s = g"
    "\<And>u. amountNanos (at_get cal s u) = nanos_of (filter (in_period cal g u) incomes)"
    using mt_accumulate_new [OF cal shares_currency(1) [OF inc], of g] by (auto simp: filter_shares)
  then show ?thesis
    using mt_accumulate_lemma [OF cal s(2), of "negated_shares expenses"] shares_currency(2) [OF exp]
    by (auto simp: cashflow_series_def filter_shares)
qed

text \<open>The cumulative chart: at every period the total of the cash flow up to it.\<close>

lemma cumulative_loop_lemma:
  assumes "calendar_ok cal" "money_ok cal cumulative" "mt_currency cumulative = c" "awc_currency current = c"
    and "money_ok cal cashflow" "mt_currency cashflow = c"
    and "distinct ps" "\<forall>p \<in> set ps. cal_startOf cal (at_granularity cumulative) p = p"
  shows "\<exists>s. cumulative_loop cal cashflow current cumulative ps = Inr s \<and> money_ok cal s \<and>
    at_granularity s = at_granularity cumulative \<and> mt_currency s = c \<and>
    (\<forall>i < length ps. amountNanos (at_get cal s (ps ! i)) =
       amountNanos current + (\<Sum>p \<leftarrow> take (Suc i) ps. amountNanos (at_get cal cashflow p))) \<and>
    (\<forall>u. cal_startOf cal (at_granularity cumulative) u \<notin> set ps \<longrightarrow> at_get cal s u = at_get cal cumulative u)"
  using assms
proof (induction ps arbitrary: current cumulative)
  case Nil then show ?case by simp
next
  case (Cons m ms)
  let ?next = "mk_awc (amountNanos current + amountNanos (at_get cal cashflow m)) c"
  let ?cum = "at_set cal m ?next cumulative"
  have add: "awc_add current (at_get cal cashflow m) = Inr ?next"
    using Cons.prems by (simp add: awc_add_Inr_iff money_ok_get)
  have ok: "money_ok cal ?cum" "at_granularity ?cum = at_granularity cumulative" "mt_currency ?cum = c"
    using Cons.prems money_ok_put [of cal cumulative ?next m] by (simp_all add: at_set_def at_bucket_def Let_def)
  have get: "at_get cal ?cum u = (if cal_startOf cal (at_granularity cumulative) u = m then ?next else at_get cal cumulative u)" for u
    using Cons.prems by (simp add: at_get_def at_set_def at_bucket_def Let_def split: option.split)
  obtain s where s: "cumulative_loop cal cashflow ?next ?cum ms = Inr s" "money_ok cal s"
    "at_granularity s = at_granularity cumulative" "mt_currency s = c"
    "\<forall>i < length ms. amountNanos (at_get cal s (ms ! i)) =
       amountNanos ?next + (\<Sum>p \<leftarrow> take (Suc i) ms. amountNanos (at_get cal cashflow p))"
    "\<forall>u. cal_startOf cal (at_granularity cumulative) u \<notin> set ms \<longrightarrow> at_get cal s u = at_get cal ?cum u"
    using Cons.IH [where current = ?next and cumulative = ?cum] Cons.prems ok by auto
  have "at_get cal s m = ?next" using s(6) Cons.prems(7,8) by (simp add: get)
  moreover have "cumulative_loop cal cashflow current cumulative (m # ms) = Inr s" using add s(1) by simp
  ultimately show ?case
    using s Cons.prems(7,8) by (auto simp: nth_Cons get split: nat.splits)
qed

lemma period_prefix:
  assumes "sorted ps" "distinct ps" "\<forall>x \<in> set xs. key x \<in> set ps" "i < length (ps :: rat list)"
  shows "(\<Sum>p \<leftarrow> take (Suc i) ps. \<Sum>x \<leftarrow> filter (\<lambda>x. key x = p) xs. g x) =
    (\<Sum>x \<leftarrow> filter (\<lambda>x. key x \<le> ps ! i) xs. (g x :: int))"
proof -
  have in_take: "p \<in> set (take (Suc i) ps) \<longleftrightarrow> p \<in> set ps \<and> p \<le> ps ! i" for p
  proof -
    have le: "ps ! j \<le> ps ! i \<longleftrightarrow> j \<le> i" if "j < length ps" for j
      using sorted_nth_mono [OF assms(1), of i j] sorted_nth_mono [OF assms(1) _ assms(4), of j]
        nth_eq_iff_index_eq [OF assms(2,4) that] that by (cases "j \<le> i") auto
    have "p \<in> set (take (Suc i) ps) \<longleftrightarrow> (\<exists>j \<le> i. ps ! j = p)"
    proof
      assume "p \<in> set (take (Suc i) ps)"
      then obtain j where "j < length (take (Suc i) ps)" "take (Suc i) ps ! j = p" by (auto simp: in_set_conv_nth)
      then show "\<exists>j \<le> i. ps ! j = p" by (intro exI [of _ j]) simp
    next
      assume "\<exists>j \<le> i. ps ! j = p"
      then obtain j where "j \<le> i" "ps ! j = p" by blast
      then show "p \<in> set (take (Suc i) ps)"
        using assms(4) nth_mem [of j "take (Suc i) ps"] by simp
    qed
    also have "\<dots> \<longleftrightarrow> (\<exists>j < length ps. ps ! j = p \<and> ps ! j \<le> ps ! i)"
      using le assms(4) by (metis le_less_trans)
    also have "\<dots> \<longleftrightarrow> p \<in> set ps \<and> p \<le> ps ! i" by (auto simp: in_set_conv_nth)
    finally show ?thesis .
  qed
  have "(\<Sum>p \<leftarrow> take (Suc i) ps. \<Sum>x \<leftarrow> filter (\<lambda>x. key x = p) xs. g x) =
    (\<Sum>p \<leftarrow> take (Suc i) ps. \<Sum>x \<leftarrow> filter (\<lambda>x. key x = p) (filter (\<lambda>x. key x \<le> ps ! i) xs). g x)"
    by (rule arg_cong [where f = sum_list], rule map_cong [OF refl]) (auto simp: in_take intro!: arg_cong [where f = sum_list] arg_cong [where f = "map g"] filter_cong)
  also have "\<dots> = (\<Sum>x \<leftarrow> filter (\<lambda>x. key x \<le> ps ! i) xs. g x)"
    by (rule sum_list_by_key) (use assms(2,3) in \<open>auto simp: in_take\<close>)
  finally show ?thesis .
qed

lemma sum_list_diff_int: "(\<Sum>x \<leftarrow> xs. f x - g x) = (\<Sum>x \<leftarrow> xs. f x) - (\<Sum>x \<leftarrow> xs. (g x :: int))"
  by (induction xs) auto

abbreviation up_to :: "calendar \<Rightarrow> granularity \<Rightarrow> rat \<Rightarrow> exchanged_transaction list \<Rightarrow> int" where
  "up_to cal g p xs \<equiv> nanos_of (filter (\<lambda>x. cal_startOf cal g (tx_timestampEpoch (xt_t x)) \<le> p) xs)"

lemma xi_within_interval:
  assumes "calendar_ok cal" "iv_start (xi_interval input) \<le> iv_end (xi_interval input)"
  shows "x \<in> set (xi_expenses cal input) \<union> set (xi_income cal input) \<Longrightarrow>
    iv_start (xi_interval input) \<le> tx_timestampEpoch (xt_t x) \<and> tx_timestampEpoch (xt_t x) \<le> iv_end (xi_interval input)"
  using assms by (auto simp: interval_filters calendar_ok_def)

lemma calendar_periods:
  assumes "calendar_ok cal" "iv_start i \<le> iv_end i"
  shows "sorted (cal_eachOfInterval cal g i)" "distinct (cal_eachOfInterval cal g i)"
    and "iv_start i \<le> t \<Longrightarrow> t \<le> iv_end i \<Longrightarrow> cal_startOf cal g t \<in> set (cal_eachOfInterval cal g i)"
  using assms by (auto simp: calendar_ok_def)

lemma cumulative_cashflow_lemma:
  assumes cal: "calendar_ok cal" and i: "iv_start (xi_interval input) \<le> iv_end (xi_interval input)" and ok: "input_ok input"
  shows "\<exists>s. cumulative_cashflow cal input g = Inr s \<and> mt_currency s = xs_currency input \<and>
    (\<forall>p \<in> set (cal_eachOfInterval cal g (xi_interval input)).
       amountNanos (at_get cal s p) = up_to cal g p (xi_income cal input) - up_to cal g p (xi_expenses cal input))"
proof -
  let ?ps = "cal_eachOfInterval cal g (xi_interval input)"
  let ?c = "xs_currency input"
  obtain cf where cf: "cashflow_series cal ?c g (xi_income cal input) (xi_expenses cal input) = Inr cf" "money_ok cal cf"
    "mt_currency cf = ?c"
    "\<And>u. amountNanos (at_get cal cf u) = nanos_of (filter (in_period cal g u) (xi_income cal input)) -
       nanos_of (filter (in_period cal g u) (xi_expenses cal input))"
    using cashflow_series_lemma [OF cal input_ok_lists(2,1) [OF ok], of g] by blast
  have starts: "\<forall>p \<in> set ?ps. cal_startOf cal g p = p" using period_is_own_start [OF cal i] by blast
  obtain s where s: "cumulative_loop cal cf (awc_zero ?c) (mk_MoneyTimeseries ?c g) ?ps = Inr s" "mt_currency s = ?c"
    "\<forall>k < length ?ps. amountNanos (at_get cal s (?ps ! k)) = (\<Sum>p \<leftarrow> take (Suc k) ?ps. amountNanos (at_get cal cf p))"
    using cumulative_loop_lemma [OF cal, of "mk_MoneyTimeseries ?c g" ?c "awc_zero ?c" cf ?ps] cf(2,3)
      calendar_periods [OF cal i] starts by auto
  have keys: "\<forall>x \<in> set xs. cal_startOf cal g (tx_timestampEpoch (xt_t x)) \<in> set ?ps"
    if "xs \<in> {xi_expenses cal input, xi_income cal input}" for xs
    using that xi_within_interval [OF cal i] calendar_periods(3) [OF cal i] by blast
  have part: "(\<Sum>p \<leftarrow> take (Suc k) ?ps. nanos_of (filter (in_period cal g p) xs)) = up_to cal g (?ps ! k) xs"
    if "k < length ?ps" "xs \<in> {xi_expenses cal input, xi_income cal input}" for k xs
  proof -
    have "(\<Sum>p \<leftarrow> take (Suc k) ?ps. nanos_of (filter (in_period cal g p) xs)) =
      (\<Sum>p \<leftarrow> take (Suc k) ?ps. nanos_of (filter (\<lambda>x. cal_startOf cal g (tx_timestampEpoch (xt_t x)) = p) xs))"
      using starts by (intro arg_cong [where f = sum_list] map_cong refl) (auto dest!: in_set_takeD)
    then show ?thesis
      using period_prefix [OF calendar_periods(1,2) [OF cal i] keys [OF that(2)] that(1), of "\<lambda>x. amountNanos (xt_ownShare x)"]
      by simp
  qed
  have "amountNanos (at_get cal s p) = up_to cal g p (xi_income cal input) - up_to cal g p (xi_expenses cal input)"
    if "p \<in> set ?ps" for p
    using that s(3) part by (auto simp: in_set_conv_nth cf(4) sum_list_diff_int)
  then show ?thesis using s(1,2) cf(1) by (auto simp: cumulative_cashflow_def)
qed

text \<open>The totals a category or vendor chart is made of.\<close>

abbreviation share_of :: "('x \<Rightarrow> 'k result) \<Rightarrow> ('x \<Rightarrow> amount_with_currency) \<Rightarrow> 'x list \<Rightarrow> 'k \<Rightarrow> int" where
  "share_of key val xs k \<equiv> (\<Sum>x \<leftarrow> filter (\<lambda>x. key x = Inr k) xs. amountNanos (val x))"

lemma currency_increment_lemma:
  assumes "jm_ok m" "\<forall>(k, v) \<in> set m. awc_currency v = c" "awc_currency v = c"
  shows "\<exists>m'. currency_increment c k v m = Inr m' \<and> jm_ok m' \<and> (\<forall>(k, v) \<in> set m'. awc_currency v = c) \<and>
    set (jm_keys m') = insert k (set (jm_keys m)) \<and>
    (\<forall>j. amountNanos (am_getOrZero (awc_zero c) m' j) =
       amountNanos (am_getOrZero (awc_zero c) m j) + (if j = k then amountNanos v else 0))"
proof -
  have cur: "awc_currency (am_getOrZero (awc_zero c) m k) = c"
    using assms(1,2) by (auto simp: am_getOrZero_def jm_entry_iff split: option.split)
  let ?m = "jm_set k (mk_awc (amountNanos (am_getOrZero (awc_zero c) m k) + amountNanos v) c) m"
  have "currency_increment c k v m = Inr ?m"
    using cur assms(3) by (simp add: currency_increment_def am_increment_result_def)
  moreover have "\<forall>(k, v) \<in> set ?m. awc_currency v = c"
    using set_jm_set [OF assms(1)] assms(2) by fastforce
  moreover have "set (jm_keys ?m) = insert k (set (jm_keys m))"
    by (rule jm.set_keys_set [OF assms(1)])
  ultimately show ?thesis using assms(1) by (auto simp: am_getOrZero_def)
qed

lemma currency_fold:
  assumes "jm_ok m" "\<forall>(k, v) \<in> set m. awc_currency v = c"
    and "\<forall>x \<in> set xs. awc_currency (val x) = c \<and> (\<exists>k. key x = Inr k)"
  shows "\<exists>m'. fold_result (\<lambda>m x. bind_result (key x) (\<lambda>k. currency_increment c k (val x) m)) m xs = Inr m' \<and>
    jm_ok m' \<and> (\<forall>(k, v) \<in> set m'. awc_currency v = c) \<and>
    set (jm_keys m') = set (jm_keys m) \<union> {k. \<exists>x \<in> set xs. key x = Inr k} \<and>
    (\<forall>j. amountNanos (am_getOrZero (awc_zero c) m' j) =
       amountNanos (am_getOrZero (awc_zero c) m j) + share_of key val xs j)"
  using assms
proof (induction xs arbitrary: m)
  case Nil then show ?case by simp
next
  case (Cons x xs)
  then obtain k where k: "key x = Inr k" by auto
  obtain m1 where m1: "currency_increment c k (val x) m = Inr m1" "jm_ok m1" "\<forall>(k, v) \<in> set m1. awc_currency v = c"
    "set (jm_keys m1) = insert k (set (jm_keys m))"
    "\<And>j. amountNanos (am_getOrZero (awc_zero c) m1 j) =
       amountNanos (am_getOrZero (awc_zero c) m j) + (if j = k then amountNanos (val x) else 0)"
    using currency_increment_lemma [of m c "val x" k] Cons.prems by auto
  show ?case
    using Cons.IH [OF m1(2,3)] Cons.prems(3) k m1(1,4,5) by auto
qed

lemma currency_fold_total:
  assumes "fold_result (\<lambda>m x. bind_result (key x) (\<lambda>k. currency_increment c k (val x) m)) [] xs = Inr m"
  shows "\<forall>x \<in> set xs. \<exists>k. key x = Inr k"
  using assms
proof (induction xs arbitrary: m rule: rev_induct)
  case (snoc x xs) then show ?case by (auto simp: fold_result_append result_simps)
qed simp

text \<open>The entries such a fold leaves: one for each key, holding the total of its elements.\<close>

lemma currency_fold_entries:
  assumes "fold_result (\<lambda>m x. bind_result (key x) (\<lambda>k. currency_increment c k (val x) m)) [] xs = Inr m"
    and "\<forall>x \<in> set xs. awc_currency (val x) = c"
  shows "m = map (\<lambda>k. (k, mk_awc (share_of key val xs k) c)) (jm_keys m)" "distinct (jm_keys m)"
    and "set (jm_keys m) = {k. \<exists>x \<in> set xs. key x = Inr k}"
proof -
  have m: "jm_ok m" "\<forall>(k, v) \<in> set m. awc_currency v = c" "set (jm_keys m) = {k. \<exists>x \<in> set xs. key x = Inr k}"
    "\<And>j. amountNanos (am_getOrZero (awc_zero c) m j) = share_of key val xs j"
    using currency_fold [of "[]" c xs val key] assms currency_fold_total [OF assms(1)]
    by (auto simp: am_getOrZero_def)
  show "set (jm_keys m) = {k. \<exists>x \<in> set xs. key x = Inr k}" by (rule m(3))
  show "distinct (jm_keys m)" using m(1) by (simp add: jm_ok_def jm_keys_def)
  have "v = mk_awc (share_of key val xs k) c" if "(k, v) \<in> set m" for k v
  proof -
    have "am_getOrZero (awc_zero c) m k = v" using that m(1) by (simp add: jm_entry_iff am_getOrZero_def)
    then show ?thesis using m(2,4) that by (metis (mono_tags, lifting) awc_eq_iff case_prodD mk_awc_simps(1,2))
  qed
  then show "m = map (\<lambda>k. (k, mk_awc (share_of key val xs k) c)) (jm_keys m)"
    by (induction m) (auto simp: jm_keys_def)
qed

lemma by_amount_sort_key: "by_amount data = sort_key (\<lambda>x. dollar (snd x)) data"
proof -
  have "by_amount data = js_sort (by_key (\<lambda>x. dollar (snd x))) data"
    unfolding by_amount_def by (rule js_sort_cong) (auto simp: by_key_def)
  then show ?thesis by simp
qed

lemma by_amount_lemma:
  "sorted_wrt (\<lambda>x y. dollar (snd x) \<le> dollar (snd y)) (by_amount data)" "mset (by_amount data) = mset data"
  using sorted_sort_key [of "\<lambda>x. dollar (snd x)" data] by (simp_all add: by_amount_sort_key sorted_map)

lemma transactionCategory_Inr: "transactionCategory t cs = Inr c \<Longrightarrow> tx_categoryId t = Some (cat_id c)"
  by (auto simp: transactionCategory_def result_simps find_Some_iff split: option.splits)

lemma map_result_fst_snd:
  assumes "map_result (\<lambda>(k, v). bind_result (f k) (\<lambda>n. Inr (n, v))) m = Inr data"
  shows "data = map (\<lambda>(k, v). (projr (f k), v)) m \<and> (\<forall>(k, v) \<in> set m. f k = Inr (projr (f k)))"
  using assms by (induction m arbitrary: data) (auto simp: result_simps)

abbreviation category_share :: "int \<Rightarrow> exchanged_transaction list \<Rightarrow> int" where
  "category_share k xs \<equiv> nanos_of (filter (\<lambda>x. tx_categoryId (xt_t x) = Some k) xs)"

lemma bind_result_cat_id [simp]:
  "bind_result (bind_result r (\<lambda>c. Inr (cat_id c))) f = bind_result r (\<lambda>c. f (cat_id c))"
  by (cases r) auto

lemma amounts_by_category_lemma:
  assumes fold: "amounts_by_category categories c xs = Inr m" and cur: "\<forall>x \<in> set xs. awc_currency (xt_ownShare x) = c"
  shows "\<exists>ks. distinct ks \<and> set ks = {k. \<exists>x \<in> set xs. tx_categoryId (xt_t x) = Some k} \<and>
    m = map (\<lambda>k. (k, mk_awc (category_share k xs) c)) ks"
proof -
  let ?key = "\<lambda>x. bind_result (transactionCategory (xt_t x) categories) (\<lambda>c. Inr (cat_id c))"
  have eq: "fold_result (\<lambda>m x. bind_result (?key x) (\<lambda>k. currency_increment c k (xt_ownShare x) m)) [] xs = Inr m"
    using fold by (simp add: amounts_by_category_def)
  have key: "?key x = Inr k \<longleftrightarrow> tx_categoryId (xt_t x) = Some k" if "x \<in> set xs" for x k
    using currency_fold_total [OF eq] that transactionCategory_Inr by (fastforce simp: result_simps)
  have share: "share_of ?key xt_ownShare xs k = category_share k xs" for k
    by (intro arg_cong [where f = sum_list] arg_cong [where f = "map (\<lambda>x. amountNanos (xt_ownShare x))"] filter_cong)
      (auto simp: key)
  show ?thesis
    using currency_fold_entries [OF eq cur] key by (intro exI [of _ "jm_keys m"]) (auto simp: share)
qed

lemma chart_by_category_lemma:
  assumes chart: "chart_by_category categories c xs = Inr data" and cur: "\<forall>x \<in> set xs. awc_currency (xt_ownShare x) = c"
  shows "\<exists>tree ks. makeCategoryTree categories = Inr tree \<and> distinct ks \<and>
    set ks = {k. \<exists>x \<in> set xs. tx_categoryId (xt_t x) = Some k} \<and>
    (\<forall>k \<in> set ks. \<exists>name. getNameWithAncestors (AnId k) tree = Inr name) \<and>
    mset data = mset (map (\<lambda>k. (projr (getNameWithAncestors (AnId k) tree), mk_awc (category_share k xs) c)) ks) \<and>
    sorted_wrt (\<lambda>x y. dollar (snd x) \<le> dollar (snd y)) data"
proof -
  obtain tree m bars where tree: "makeCategoryTree categories = Inr tree" and m: "amounts_by_category categories c xs = Inr m"
    and bars: "map_result (\<lambda>(k, v). bind_result (getNameWithAncestors (AnId k) tree) (\<lambda>name. Inr (name, v))) m = Inr bars"
    and data: "data = by_amount bars"
    using chart by (auto simp: chart_by_category_def result_simps)
  obtain ks where ks: "distinct ks" "set ks = {k. \<exists>x \<in> set xs. tx_categoryId (xt_t x) = Some k}"
    "m = map (\<lambda>k. (k, mk_awc (category_share k xs) c)) ks"
    using amounts_by_category_lemma [OF m cur] by blast
  have "bars = map (\<lambda>k. (projr (getNameWithAncestors (AnId k) tree), mk_awc (category_share k xs) c)) ks"
    and "\<forall>k \<in> set ks. \<exists>name. getNameWithAncestors (AnId k) tree = Inr name"
    using map_result_fst_snd [OF bars] by (auto simp: ks(3) comp_def)
  with tree ks(1,2) by_amount_lemma [of bars] show ?thesis unfolding data by (intro exI [of _ tree] exI [of _ ks]) simp
qed

lemma sum_shares_by_key:
  assumes "distinct ks" "\<And>x. x \<in> set xs \<Longrightarrow> \<exists>k \<in> set ks. key x = Some k"
  shows "(\<Sum>k \<leftarrow> ks. \<Sum>x \<leftarrow> filter (\<lambda>x. key x = Some k) xs. g x) = (\<Sum>x \<leftarrow> xs. (g x :: int))"
  using assms(2)
proof (induction xs)
  case (Cons x xs)
  then obtain k where k: "k \<in> set ks" "key x = Some k" by auto
  have "distinct js \<Longrightarrow> (\<Sum>j \<leftarrow> js. if k = j then g x else 0) = (if k \<in> set js then g x else 0)" for js
    by (induction js) auto
  then have "(\<Sum>j \<leftarrow> ks. if k = j then g x else 0) = g x" using assms(1) k(1) by simp
  moreover have "(\<Sum>j \<leftarrow> ks. \<Sum>y \<leftarrow> filter (\<lambda>y. key y = Some j) (x # xs). g y) =
    (\<Sum>j \<leftarrow> ks. (if k = j then g x else 0) + (\<Sum>y \<leftarrow> filter (\<lambda>y. key y = Some j) xs. g y))"
    by (intro arg_cong [where f = sum_list] map_cong refl) (auto simp: k(2))
  ultimately show ?case using Cons by (simp add: sum_list_addf)
qed simp

lemma currency_fold_conserves:
  assumes "fold_result (\<lambda>m x. bind_result (key x) (\<lambda>k. currency_increment c k (val x) m)) [] xs = Inr m"
    and "\<forall>x \<in> set xs. awc_currency (val x) = c"
  shows "(\<Sum>(k, a) \<leftarrow> m. amountNanos a) = (\<Sum>x \<leftarrow> xs. amountNanos (val x))"
proof -
  let ?key = "\<lambda>x. case key x of Inl _ \<Rightarrow> None | Inr k \<Rightarrow> Some k"
  note entries = currency_fold_entries [OF assms]
  have "(\<Sum>(k, a) \<leftarrow> m. amountNanos a) = (\<Sum>k \<leftarrow> jm_keys m. share_of key val xs k)"
    by (subst entries(1)) (simp add: comp_def)
  also have "\<dots> = (\<Sum>k \<leftarrow> jm_keys m. \<Sum>x \<leftarrow> filter (\<lambda>x. ?key x = Some k) xs. amountNanos (val x))"
    by (intro arg_cong [where f = sum_list] map_cong refl arg_cong [where f = "map (\<lambda>x. amountNanos (val x))"] filter_cong)
      (auto split: sum.splits)
  also have "\<dots> = (\<Sum>x \<leftarrow> xs. amountNanos (val x))"
    by (rule sum_shares_by_key [OF entries(2)])
      (use entries(3) currency_fold_total [OF assms(1)] in fastforce)
  finally show ?thesis .
qed

abbreviation bars_total :: "(string \<times> amount_with_currency) list \<Rightarrow> int" where
  "bars_total data \<equiv> (\<Sum>(name, a) \<leftarrow> data. amountNanos a)"

lemma bars_total_mset: "mset xs = mset ys \<Longrightarrow> bars_total xs = bars_total ys"
  by (metis mset_map sum_mset_sum_list)

lemma bars_total_named: "bars_total (map (\<lambda>(k, v). (f k, v)) m) = (\<Sum>(k, a) \<leftarrow> m. amountNanos a)"
  by (simp add: comp_def case_prod_unfold)

lemma chart_by_category_total:
  assumes "chart_by_category categories c xs = Inr data" "\<forall>x \<in> set xs. awc_currency (xt_ownShare x) = c"
  shows "bars_total data = nanos_of xs"
proof -
  let ?key = "\<lambda>x. bind_result (transactionCategory (xt_t x) categories) (\<lambda>c. Inr (cat_id c))"
  obtain tree m bars where
    "fold_result (\<lambda>m x. bind_result (?key x) (\<lambda>k. currency_increment c k (xt_ownShare x) m)) [] xs = Inr m"
    "map_result (\<lambda>(k, v). bind_result (getNameWithAncestors (AnId k) tree) (\<lambda>name. Inr (name, v))) m = Inr bars"
    "data = by_amount bars"
    using assms(1) by (auto simp: chart_by_category_def amounts_by_category_def result_simps)
  then have fold: "fold_result (\<lambda>m x. bind_result (?key x) (\<lambda>k. currency_increment c k (xt_ownShare x) m)) [] xs = Inr m"
    and bars: "bars = map (\<lambda>(k, v). (projr (getNameWithAncestors (AnId k) tree), v)) m" and data: "data = by_amount bars"
    using map_result_fst_snd [of "\<lambda>k. getNameWithAncestors (AnId k) tree" m bars] by blast+
  have "bars_total bars = nanos_of xs" unfolding bars bars_total_named by (rule currency_fold_conserves [OF fold assms(2)])
  then show ?thesis using bars_total_mset [OF by_amount_lemma(2) [of bars]] data by simp
qed

definition root_id :: "category_tree \<Rightarrow> transaction \<Rightarrow> int result" where
  "root_id tree t =
     bind_result (category_id t) (\<lambda>k. bind_result (findRoot (AnId k) tree) (\<lambda>c. Inr (cat_id c)))"

abbreviation root_share :: "category_tree \<Rightarrow> int \<Rightarrow> exchanged_transaction list \<Rightarrow> int" where
  "root_share tree r xs \<equiv> nanos_of (filter (\<lambda>x. root_id tree (xt_t x) = Inr r) xs)"

lemma bind_root_id:
  "bind_result (root_id tree t) f =
    bind_result (category_id t) (\<lambda>k. bind_result (findRoot (AnId k) tree) (\<lambda>c. f (cat_id c)))"
  by (cases "category_id t") (simp_all add: root_id_def)

lemma amounts_by_root_fold:
  "amounts_by_root tree c xs =
     fold_result (\<lambda>m x. bind_result (root_id tree (xt_t x)) (\<lambda>k. currency_increment c k (xt_ownShare x) m)) [] xs"
  by (simp add: amounts_by_root_def bind_root_id)

lemma top_category_chart_lemma:
  assumes chart: "ExpenseByTopCategoryChart categories c xs = Inr data" and cur: "\<forall>x \<in> set xs. awc_currency (xt_ownShare x) = c"
  shows "\<exists>tree rs. makeCategoryTree categories = Inr tree \<and> distinct rs \<and>
    set rs = {r. \<exists>x \<in> set xs. root_id tree (xt_t x) = Inr r} \<and>
    mset data = mset (map (\<lambda>r. (cat_name (projr (mustFindCategory r categories)), mk_awc (root_share tree r xs) c)) rs) \<and>
    sorted_wrt (\<lambda>x y. dollar (snd x) \<le> dollar (snd y)) data \<and> bars_total data = nanos_of xs"
proof -
  obtain tree m bars where tree: "makeCategoryTree categories = Inr tree" and m: "amounts_by_root tree c xs = Inr m"
    and bars: "map_result (\<lambda>(k, v). bind_result (mustFindCategory k categories) (\<lambda>cat. Inr (cat_name cat, v))) m = Inr bars"
    and data: "data = by_amount bars"
    using chart by (auto simp: ExpenseByTopCategoryChart_def result_simps)
  have "map_result (\<lambda>(k, v). bind_result (bind_result (mustFindCategory k categories) (\<lambda>cat. Inr (cat_name cat)))
      (\<lambda>n. Inr (n, v))) m = Inr bars"
    using bars by (simp add: bind_result_assoc)
  then have b: "bars = map (\<lambda>(k, v). (projr (bind_result (mustFindCategory k categories) (\<lambda>cat. Inr (cat_name cat))), v)) m"
    and known: "\<forall>(k, v) \<in> set m. \<exists>cat. mustFindCategory k categories = Inr cat"
    using map_result_fst_snd [of "\<lambda>k. bind_result (mustFindCategory k categories) (\<lambda>cat. Inr (cat_name cat))" m bars]
    by (fastforce simp: bind_result_eq_Inr)+
  then have b': "bars = map (\<lambda>(k, v). (cat_name (projr (mustFindCategory k categories)), v)) m" by force
  note fold = m [unfolded amounts_by_root_fold]
  note entries = currency_fold_entries [OF fold cur]
  have "bars = map (\<lambda>r. (cat_name (projr (mustFindCategory r categories)), mk_awc (root_share tree r xs) c)) (jm_keys m)"
    unfolding b' by (subst entries(1)) simp
  moreover have "bars_total bars = nanos_of xs"
    unfolding b' bars_total_named by (rule currency_fold_conserves [OF fold cur])
  ultimately show ?thesis
    using tree entries(2,3) by_amount_lemma [of bars] bars_total_mset [OF by_amount_lemma(2) [of bars]]
    unfolding data by (intro exI [of _ tree] exI [of _ "jm_keys m"]) simp
qed

text \<open>A stacked chart: one series per category, adding up to the plain chart.\<close>

abbreviation series_ok :: "calendar \<Rightarrow> currency \<Rightarrow> series_by_id \<Rightarrow> bool" where
  "series_ok cal c m \<equiv> jm_ok m \<and>
     (\<forall>(k, s) \<in> set m. money_ok cal s \<and> mt_currency s = c \<and> at_granularity s = MONTHLY)"

abbreviation series_of :: "currency \<Rightarrow> series_by_id \<Rightarrow> int \<Rightarrow> money_timeseries" where
  "series_of c m k \<equiv> (case jm_get m k of Some s \<Rightarrow> s | None \<Rightarrow> mk_MoneyTimeseries c MONTHLY)"

lemma all_jm_set:
  "jm_ok m \<Longrightarrow> \<forall>e \<in> set m. P e \<Longrightarrow> P (k, v) \<Longrightarrow> \<forall>e \<in> set (jm_set k v m). P e"
  by (blast dest: set_jm_set)

lemma increment_series_lemma:
  assumes "calendar_ok cal" "series_ok cal c m" "awc_currency (xt_ownShare x) = c"
  shows "\<exists>m'. increment_series cal c k x m = Inr m' \<and> series_ok cal c m' \<and>
    set (jm_keys m') = insert k (set (jm_keys m)) \<and>
    (\<forall>j u. amountNanos (at_get cal (series_of c m' j) u) = amountNanos (at_get cal (series_of c m j) u) +
       (if j = k \<and> in_period cal MONTHLY u x then amountNanos (xt_ownShare x) else 0))"
proof -
  let ?s = "series_of c m k"
  have s: "money_ok cal ?s" "mt_currency ?s = c" "at_granularity ?s = MONTHLY"
    using assms(2) by (auto simp: jm_entry_iff split: option.split)
  obtain s' where s': "at_increment cal (tx_timestampEpoch (xt_t x)) (xt_ownShare x) ?s = Inr s'" "money_ok cal s'"
    "mt_currency s' = c" "at_granularity s' = MONTHLY"
    "\<And>u. amountNanos (at_get cal s' u) = amountNanos (at_get cal ?s u) +
       (if in_period cal MONTHLY u x then amountNanos (xt_ownShare x) else 0)"
    using at_increment_money [OF assms(1) s(1), of "xt_ownShare x" "tx_timestampEpoch (xt_t x)"] s(2,3) assms(3) by auto
  let ?P = "\<lambda>(k :: int, s :: money_timeseries). money_ok cal s \<and> mt_currency s = c \<and> at_granularity s = MONTHLY"
  have "\<exists>m0. dm_getOrCreate (mk_MoneyTimeseries c MONTHLY) k m = (?s, m0) \<and> jm_ok m0 \<and> (\<forall>e \<in> set m0. ?P e) \<and>
    set (jm_keys m0) = insert k (set (jm_keys m)) \<and> (\<forall>j. series_of c m0 j = series_of c m j)"
  proof (cases "jm_get m k")
    case None
    then show ?thesis
      using assms(2) all_jm_set [of m ?P k "mk_MoneyTimeseries c MONTHLY"]
      by (intro exI [of _ "jm_set k (mk_MoneyTimeseries c MONTHLY) m"]) (simp add: dm_getOrCreate_def jm.set_keys_set)
  next
    case (Some s)
    then show ?thesis
      using assms(2) jm.keys_get [of m k] by (intro exI [of _ m]) (simp add: dm_getOrCreate_def insert_absorb)
  qed
  then obtain m0 where m: "dm_getOrCreate (mk_MoneyTimeseries c MONTHLY) k m = (?s, m0)" "jm_ok m0" "\<forall>e \<in> set m0. ?P e"
    "set (jm_keys m0) = insert k (set (jm_keys m))" "\<And>j. series_of c m0 j = series_of c m j" by blast
  have "\<forall>e \<in> set (jm_set k s' m0). ?P e"
    by (rule all_jm_set [OF m(2,3)]) (use s'(2,3,4) in simp)
  then have "series_ok cal c (jm_set k s' m0)" using m(2) by simp
  moreover have "increment_series cal c k x m = Inr (jm_set k s' m0)"
    using s'(1) by (simp add: increment_series_def m(1))
  moreover have "set (jm_keys (jm_set k s' m0)) = insert k (set (jm_keys m))" using m(2,4) by (simp add: jm.set_keys_set)
  moreover have "series_of c (jm_set k s' m0) j = (if j = k then s' else series_of c m j)" for j
    using m(5) [of j] by simp
  ultimately show ?thesis using s'(5) by auto
qed

lemma series_fold:
  assumes "calendar_ok cal" "series_ok cal c m" "\<forall>x \<in> set xs. awc_currency (xt_ownShare x) = c \<and> (\<exists>k. key x = Inr k)"
  shows "\<exists>m'. fold_result (\<lambda>m x. bind_result (key x) (\<lambda>k. increment_series cal c k x m)) m xs = Inr m' \<and>
    series_ok cal c m' \<and> set (jm_keys m') = set (jm_keys m) \<union> {k. \<exists>x \<in> set xs. key x = Inr k} \<and>
    (\<forall>j u. amountNanos (at_get cal (series_of c m' j) u) = amountNanos (at_get cal (series_of c m j) u) +
       nanos_of (filter (\<lambda>x. key x = Inr j \<and> in_period cal MONTHLY u x) xs))"
  using assms(2,3)
proof (induction xs arbitrary: m)
  case Nil then show ?case by simp
next
  case (Cons x xs)
  then obtain k where k: "key x = Inr k" by auto
  obtain m1 where m1: "increment_series cal c k x m = Inr m1" "series_ok cal c m1"
    "set (jm_keys m1) = insert k (set (jm_keys m))"
    "\<And>j u. amountNanos (at_get cal (series_of c m1 j) u) = amountNanos (at_get cal (series_of c m j) u) +
       (if j = k \<and> in_period cal MONTHLY u x then amountNanos (xt_ownShare x) else 0)"
    using increment_series_lemma [OF assms(1) Cons.prems(1), of x k] Cons.prems(2) by auto
  show ?case using Cons.IH [OF m1(2)] Cons.prems(2) k m1(1,3,4) by auto
qed

lemma key_option_iff: "(case r of Inl _ \<Rightarrow> None | Inr k \<Rightarrow> Some k) = Some j \<longleftrightarrow> r = Inr j"
  by (cases r) auto

lemma series_fold_keys:
  assumes "fold_result (\<lambda>m x. bind_result (key x) (\<lambda>k. increment_series cal c k x m)) m0 xs = Inr m"
  shows "\<forall>x \<in> set xs. \<exists>k. key x = Inr k"
  using assms
proof (induction xs arbitrary: m rule: rev_induct)
  case (snoc x xs) then show ?case by (auto simp: fold_result_append result_simps)
qed simp

lemma series_fold_total:
  assumes cal: "calendar_ok cal" and cur: "\<forall>x \<in> set xs. awc_currency (xt_ownShare x) = c"
    and fold: "fold_result (\<lambda>m x. bind_result (key x) (\<lambda>k. increment_series cal c k x m)) [] xs = Inr m"
  shows "(\<Sum>(k, s) \<leftarrow> m. amountNanos (at_get cal s u)) = nanos_of (filter (in_period cal MONTHLY u) xs)"
proof -
  let ?key = "\<lambda>x. case key x of Inl _ \<Rightarrow> None | Inr k \<Rightarrow> Some k"
  note keys = series_fold_keys [OF fold]
  have m: "series_ok cal c m" "set (jm_keys m) = {k. \<exists>x \<in> set xs. key x = Inr k}"
    "\<And>j. amountNanos (at_get cal (series_of c m j) u) = nanos_of (filter (\<lambda>x. key x = Inr j \<and> in_period cal MONTHLY u x) xs)"
    using series_fold [OF cal, where c = c and m = "[]" and xs = xs and key = key] cur keys fold by (auto simp: money_ok_new)
  have "s = series_of c m k" if "(k, s) \<in> set m" for k s
    using that m(1) by (simp add: jm_entry_iff)
  then have "(\<Sum>(k, s) \<leftarrow> m. amountNanos (at_get cal s u)) = (\<Sum>k \<leftarrow> jm_keys m. amountNanos (at_get cal (series_of c m k) u))"
    by (auto simp: jm_keys_def comp_def intro!: arg_cong [where f = sum_list])
  also have "\<dots> = (\<Sum>k \<leftarrow> jm_keys m. \<Sum>x \<leftarrow> filter (\<lambda>x. ?key x = Some k) (filter (in_period cal MONTHLY u) xs). amountNanos (xt_ownShare x))"
    unfolding m(3)
    by (intro arg_cong [where f = sum_list] map_cong refl arg_cong [where f = "map (\<lambda>x. amountNanos (xt_ownShare x))"])
      (auto simp: key_option_iff conj_commute intro!: filter_cong)
  also have "\<dots> = nanos_of (filter (in_period cal MONTHLY u) xs)"
    by (rule sum_shares_by_key) (use m(1,2) keys in \<open>fastforce simp: jm_ok_def jm_keys_def key_option_iff\<close>)+
  finally show ?thesis .
qed

lemma named_series_total:
  assumes "named_series tree m = Inr data"
  shows "(\<Sum>(name, s) \<leftarrow> data. f s) = (\<Sum>(k, s) \<leftarrow> m. f s :: int)"
proof -
  have "data = map (\<lambda>(k, s). (projr (getNameWithAncestors (AnId k) tree), s)) m"
    using map_result_fst_snd [of "\<lambda>k. getNameWithAncestors (AnId k) tree" m data] assms by (simp add: named_series_def)
  then show ?thesis by (simp add: comp_def case_prod_unfold)
qed

lemma series_by_category_total:
  assumes "calendar_ok cal" "series_by_category cal categories c xs = Inr data"
    and "\<forall>x \<in> set xs. awc_currency (xt_ownShare x) = c"
  shows "(\<Sum>(name, s) \<leftarrow> data. amountNanos (at_get cal s u)) = nanos_of (filter (in_period cal MONTHLY u) xs)"
  using assms series_fold_total [OF assms(1,3), of "\<lambda>x. category_id (xt_t x)"] named_series_total
  by (fastforce simp: series_by_category_def result_simps)

lemma top_category_series_total:
  assumes "calendar_ok cal" "MonthlyExpenseByTopCategory cal categories input = Inr data" "input_ok input"
  shows "(\<Sum>(name, s) \<leftarrow> data. amountNanos (at_get cal s u)) = nanos_of (filter (in_period cal MONTHLY u) (xi_expenses cal input))"
proof -
  obtain tree m where m: "fold_result (\<lambda>byId x.
      bind_result (bind_result (transactionCategory (xt_t x) categories) (\<lambda>category. bind_result (findRoot (ACategory category) tree)
        (\<lambda>t. Inr (cat_id t)))) (\<lambda>k. increment_series cal (xs_currency input) k x byId)) [] (xi_expenses cal input) = Inr m"
    and names: "named_series tree m = Inr data"
    using assms(2) by (auto simp: MonthlyExpenseByTopCategory_def result_simps bind_result_assoc)
  show ?thesis
    using series_fold_total [OF assms(1) input_ok_lists(1) [OF assms(3)] m, of u] named_series_total [OF names] by metis
qed

text \<open>Over the periods of the interval a series of the shares in it adds up to their total.\<close>

lemma periods_add_up:
  assumes cal: "calendar_ok cal" and i: "iv_start (xi_interval input) \<le> iv_end (xi_interval input)"
    and xs: "xs \<in> {xi_expenses cal input, xi_income cal input}"
  shows "(\<Sum>p \<leftarrow> cal_eachOfInterval cal g (xi_interval input). nanos_of (filter (in_period cal g p) xs)) = nanos_of xs"
proof -
  let ?ps = "cal_eachOfInterval cal g (xi_interval input)"
  have "\<forall>x \<in> set xs. cal_startOf cal g (tx_timestampEpoch (xt_t x)) \<in> set ?ps"
    using xs xi_within_interval [OF cal i] calendar_periods(3) [OF cal i] by blast
  then have "(\<Sum>p \<leftarrow> ?ps. nanos_of (filter (\<lambda>x. cal_startOf cal g (tx_timestampEpoch (xt_t x)) = p) xs)) = nanos_of xs"
    by (rule sum_list_by_key [OF calendar_periods(2) [OF cal i]])
  moreover have "(\<Sum>p \<leftarrow> ?ps. nanos_of (filter (in_period cal g p) xs)) =
    (\<Sum>p \<leftarrow> ?ps. nanos_of (filter (\<lambda>x. cal_startOf cal g (tx_timestampEpoch (xt_t x)) = p) xs))"
    using period_is_own_start [OF cal i] by (intro arg_cong [where f = sum_list] map_cong refl) simp
  ultimately show ?thesis by simp
qed

lemma up_to_last_period:
  assumes cal: "calendar_ok cal" and i: "iv_start (xi_interval input) \<le> iv_end (xi_interval input)"
    and xs: "xs \<in> {xi_expenses cal input, xi_income cal input}"
  shows "up_to cal g (last (cal_eachOfInterval cal g (xi_interval input))) xs = nanos_of xs"
    and "cal_eachOfInterval cal g (xi_interval input) \<noteq> []"
proof -
  let ?ps = "cal_eachOfInterval cal g (xi_interval input)"
  show ne: "?ps \<noteq> []" using calendar_periods(3) [OF cal i order_refl i, of g] by auto
  have "p \<le> last ?ps" if "p \<in> set ?ps" for p
    using that calendar_periods(1) [OF cal i, of g] ne
    by (auto simp: in_set_conv_nth last_conv_nth intro!: sorted_nth_mono)
  then have "\<forall>x \<in> set xs. cal_startOf cal g (tx_timestampEpoch (xt_t x)) \<le> last ?ps"
    using xs xi_within_interval [OF cal i] calendar_periods(3) [OF cal i] by blast
  then show "up_to cal g (last ?ps) xs = nanos_of xs" by (simp cong: filter_cong)
qed

text \<open>A category with a known id that is not under a cycle has a full name and a root.\<close>

lemma ancestors_in_store:
  assumes "forest h"
  shows "ancestor_path h i ps \<Longrightarrow> i < length h \<Longrightarrow> set ps \<subseteq> {..<length h}"
proof (induction rule: ancestor_path.induct)
  case (path_step i p ps) then show ?case using assms by (auto simp: forest_def)
qed simp

lemma known_category:
  assumes tree: "makeCategoryTree all = Inr tree" and ids: "distinct (map cat_id all)"
    and rooted: "\<forall>i < length all. rooted (tree_store tree) i" and k: "k \<in> cat_id ` set all"
  shows "\<exists>name. getNameWithAncestors (AnId k) tree = Inr name"
    and "\<exists>r \<in> set all. findRoot (AnId k) tree = Inr r"
    and "\<exists>cat. mustFindCategory k all = Inr cat" "\<exists>cat. find (\<lambda>c. cat_id c = k) all = Some cat"
proof -
  obtain i where i: "i < length all" "k = cat_id (all ! i)" using k by (auto simp: in_set_conv_nth)
  have t: "tree = tree_of all" by (rule makeCategoryTree_Inr [OF tree])
  have node: "findNode (AnId k) tree = Inr i" using findNode_distinct(1) [OF ids i(1)] by (simp add: t i(2))
  obtain ps where ps: "ancestor_path (tree_store tree) i ps" using rooted i(1) by (auto simp: rooted_def)
  then have anc: "getAncestors (AnId k) tree = Inr ps" using getAncestors_lemma(1) [OF node] by simp
  then show "\<exists>name. getNameWithAncestors (AnId k) tree = Inr name" by (simp add: getNameWithAncestors_def node)
  show "\<exists>r \<in> set all. findRoot (AnId k) tree = Inr r"
  proof (cases "parent_at (tree_store tree) i")
    case None
    then show ?thesis using i(1) by (simp add: findRoot_def t node [unfolded t])
  next
    case (Some p)
    have "ps \<noteq> []" using ps Some by (auto elim: path_rootE)
    then have "ps ! 0 < length all"
      using ancestors_in_store [OF _ ps] forest_tree_of [of all] i(1) by (cases ps) (auto simp: t)
    then show ?thesis using Some by (simp add: findRoot_def t node [unfolded t] anc [unfolded t])
  qed
  show some: "\<exists>cat. find (\<lambda>c. cat_id c = k) all = Some cat" using k by (simp add: find_key_total)
  then show "\<exists>cat. mustFindCategory k all = Inr cat" by (auto simp: mustFindCategory_def)
qed

lemma chart_by_category_renders:
  assumes tree: "makeCategoryTree all = Inr tree" and ids: "distinct (map cat_id all)"
    and rooted: "\<forall>i < length all. rooted (tree_store tree) i"
    and xs: "\<forall>x \<in> set xs. awc_currency (xt_ownShare x) = c \<and> (\<exists>k. tx_categoryId (xt_t x) = Some k \<and> k \<in> cat_id ` set all)"
  shows "\<exists>data. chart_by_category all c xs = Inr data"
proof -
  let ?key = "\<lambda>x. bind_result (transactionCategory (xt_t x) all) (\<lambda>c. Inr (cat_id c))"
  have key: "?key x = Inr k" if "tx_categoryId (xt_t x) = Some k" "k \<in> cat_id ` set all" for x k
    using known_category(4) [OF tree ids rooted that(2)] that(1)
    by (auto simp: transactionCategory_def dest: find_eq_key_Some)
  obtain m where m: "amounts_by_category all c xs = Inr m"
    using currency_fold [of "[]" c xs xt_ownShare ?key] xs key by (fastforce simp: amounts_by_category_def)
  obtain ks where ks: "set ks = {k. \<exists>x \<in> set xs. tx_categoryId (xt_t x) = Some k}"
    "m = map (\<lambda>k. (k, mk_awc (category_share k xs) c)) ks"
    using amounts_by_category_lemma [OF m] xs by blast
  have "map_result (\<lambda>(k, v). bind_result (getNameWithAncestors (AnId k) tree) (\<lambda>name. Inr (name, v))) m =
    Inr (map (\<lambda>(k, v). (projr (getNameWithAncestors (AnId k) tree), v)) m)"
  proof (rule map_result_total)
    fix e assume "e \<in> set m"
    then obtain x where "x \<in> set xs" "tx_categoryId (xt_t x) = Some (fst e)" using ks by auto
    then have "fst e \<in> cat_id ` set all" using xs by (metis option.inject)
    then show "(case e of (k, v) \<Rightarrow> bind_result (getNameWithAncestors (AnId k) tree) (\<lambda>name. Inr (name, v))) =
        Inr (case e of (k, v) \<Rightarrow> (projr (getNameWithAncestors (AnId k) tree), v))"
      using known_category(1) [OF tree ids rooted] by (cases e) fastforce
  qed
  then show ?thesis by (simp add: chart_by_category_def tree m)
qed

lemma top_category_chart_renders:
  assumes tree: "makeCategoryTree all = Inr tree" and ids: "distinct (map cat_id all)"
    and rooted: "\<forall>i < length all. rooted (tree_store tree) i"
    and xs: "\<forall>x \<in> set xs. awc_currency (xt_ownShare x) = c \<and> (\<exists>k. tx_categoryId (xt_t x) = Some k \<and> k \<in> cat_id ` set all)"
  shows "\<exists>data. ExpenseByTopCategoryChart all c xs = Inr data"
proof -
  have key: "\<exists>r \<in> cat_id ` set all. root_id tree (xt_t x) = Inr r" if x: "x \<in> set xs" for x
  proof -
    obtain k where k: "tx_categoryId (xt_t x) = Some k" "k \<in> cat_id ` set all" using xs x by blast
    then show ?thesis
      using known_category(2) [OF tree ids rooted k(2)] by (fastforce simp: root_id_def category_id_def)
  qed
  have "\<forall>x \<in> set xs. awc_currency (xt_ownShare x) = c \<and> (\<exists>k. root_id tree (xt_t x) = Inr k)" using xs key by blast
  from currency_fold [OF _ _ this, of "[]"]
  obtain m where m: "amounts_by_root tree c xs = Inr m" "set (jm_keys m) = {r. \<exists>x \<in> set xs. root_id tree (xt_t x) = Inr r}"
    by (auto simp: amounts_by_root_fold)
  have "\<exists>bars. map_result (\<lambda>(k, v). bind_result (mustFindCategory k all) (\<lambda>cat. Inr (cat_name cat, v))) m =
      Inr bars"
  proof -
    have "(case e of (k, v) \<Rightarrow> bind_result (mustFindCategory k all) (\<lambda>cat. Inr (cat_name cat, v))) =
        Inr (cat_name (projr (mustFindCategory (fst e) all)), snd e)" if e: "e \<in> set m" for e
    proof -
      have "fst e \<in> set (jm_keys m)" using e by (simp add: jm_keys_def)
      then obtain x where "x \<in> set xs" "root_id tree (xt_t x) = Inr (fst e)" using m(2) by blast
      then have known: "fst e \<in> cat_id ` set all" using key by (metis sum.inject(2))
      obtain cat where "mustFindCategory (fst e) all = Inr cat" using known_category(3) [OF tree ids rooted known] by blast
      then show ?thesis by (cases e) simp
    qed
    from map_result_total [of m, OF this] show ?thesis by (rule exI)
  qed
  then show ?thesis by (auto simp: ExpenseByTopCategoryChart_def tree m(1))
qed

section \<open>Properties\<close>



text \<open>
  The cumulative cash flow. At the start of each month or year of the interval the cumulative chart
  shows the user's income less expenses over the periods up to and including that one.
\<close>
theorem cumulative_is_prefix_total:
  assumes "calendar_ok cal" "iv_start i \<le> iv_end i" "mk_ExchangedIntervalTransactions i xs c = Inr input"
  shows "\<exists>s. cumulative_cashflow cal input g = Inr s \<and> mt_currency s = c \<and>
    (\<forall>p \<in> set (cal_eachOfInterval cal g i). amountNanos (at_get cal s p) =
       up_to cal g p (xi_income cal input) - up_to cal g p (xi_expenses cal input))"
proof -
  have "xi_interval input = i" "xs_currency input = c"
    using assms(3) by (auto simp: mk_ExchangedIntervalTransactions_eq split: if_splits)
  then show ?thesis using cumulative_cashflow_lemma [OF assms(1) _ constructed_input_ok [OF assms(3)], of g] assms(2) by simp
qed

theorem cumulative_is_prefix_total_witness:
  "\<exists>input s. mk_ExchangedIntervalTransactions sample_interval [] \<lparr>cur_code = ''GBP''\<rparr> = Inr input \<and>
     cumulative_cashflow ten_ms_calendar input YEARLY = Inr s"
proof -
  let ?input = "\<lparr>xs_exchanged = [], xs_currency = \<lparr>cur_code = ''GBP''\<rparr>, xi_interval = sample_interval\<rparr>"
  have made: "mk_ExchangedIntervalTransactions sample_interval [] \<lparr>cur_code = ''GBP''\<rparr> = Inr ?input"
    by (simp add: mk_ExchangedIntervalTransactions_eq)
  have "iv_start sample_interval \<le> iv_end sample_interval" by (simp add: sample_interval_def)
  from cumulative_is_prefix_total [OF calendar_ok_ten_ms this made, of YEARLY] made show ?thesis by blast
qed

text \<open>
  The charts by category. When the category ids are distinct, no category is under a cycle of parents
  and the transactions' categories are known, both charts render. The expenses by category have one bar
  for each category with an expense in the interval, showing its full name and the total of the user's
  share, in ascending order; the bars by root category have one bar per root. Both add up to the
  expenses of the interval.
\<close>
theorem category_charts_add_up:
  assumes "mk_ExchangedIntervalTransactions i xs c = Inr input"
    and "makeCategoryTree all = Inr tree" "distinct (map cat_id all)" "\<forall>i < length all. rooted (tree_store tree) i"
    and "\<forall>x \<in> set xs. \<forall>k. tx_categoryId (xt_t x) = Some k \<longrightarrow> k \<in> cat_id ` set all"
  shows "\<exists>bars ks tops rs. ExpenseByCategory cal all (WithinInterval input) = Inr bars \<and>
    distinct ks \<and> set ks = {k. \<exists>x \<in> set (xi_expenses cal input). tx_categoryId (xt_t x) = Some k} \<and>
    mset bars = mset (map (\<lambda>k. (projr (getNameWithAncestors (AnId k) tree),
      mk_awc (category_share k (xi_expenses cal input)) c)) ks) \<and>
    sorted_wrt (\<lambda>x y. dollar (snd x) \<le> dollar (snd y)) bars \<and> bars_total bars = nanos_of (xi_expenses cal input) \<and>
    ExpenseByTopCategoryChart all c (xi_expenses cal input) = Inr tops \<and>
    distinct rs \<and> set rs = {r. \<exists>x \<in> set (xi_expenses cal input). root_id tree (xt_t x) = Inr r} \<and>
    mset tops = mset (map (\<lambda>r. (cat_name (projr (mustFindCategory r all)),
      mk_awc (root_share tree r (xi_expenses cal input)) c)) rs) \<and>
    bars_total tops = nanos_of (xi_expenses cal input)"
proof -
  let ?es = "xi_expenses cal input"
  have input: "xs_exchanged input = xs" "xs_currency input = c"
    using assms(1) by (auto simp: mk_ExchangedIntervalTransactions_eq split: if_splits)
  have cur: "\<forall>x \<in> set ?es. awc_currency (xt_ownShare x) = c"
    using input_ok_lists(1) [OF constructed_input_ok [OF assms(1)]] by (simp add: input(2))
  have "\<exists>k. tx_categoryId t = Some k" if "isExpense t" for t
    using that by (cases t) (auto simp: isExpense_def)
  then have known: "\<forall>x \<in> set ?es. awc_currency (xt_ownShare x) = c \<and>
      (\<exists>k. tx_categoryId (xt_t x) = Some k \<and> k \<in> cat_id ` set all)"
    using cur assms(5) by (fastforce simp: interval_filters input(1))
  obtain bars where bars: "chart_by_category all c ?es = Inr bars"
    using chart_by_category_renders [OF assms(2,3,4) known] by blast
  obtain tops where tops: "ExpenseByTopCategoryChart all c ?es = Inr tops"
    using top_category_chart_renders [OF assms(2,3,4) known] by blast
  have "ExpenseByCategory cal all (WithinInterval input) = Inr bars"
    using bars by (simp add: ExpenseByCategory_def input(2))
  moreover obtain ks where "distinct ks" "set ks = {k. \<exists>x \<in> set ?es. tx_categoryId (xt_t x) = Some k}"
    "mset bars = mset (map (\<lambda>k. (projr (getNameWithAncestors (AnId k) tree), mk_awc (category_share k ?es) c)) ks)"
    "sorted_wrt (\<lambda>x y. dollar (snd x) \<le> dollar (snd y)) bars"
    using chart_by_category_lemma [OF bars cur] assms(2) by auto
  moreover obtain rs where "distinct rs" "set rs = {r. \<exists>x \<in> set ?es. root_id tree (xt_t x) = Inr r}"
    "mset tops = mset (map (\<lambda>r. (cat_name (projr (mustFindCategory r all)), mk_awc (root_share tree r ?es) c)) rs)"
    "bars_total tops = nanos_of ?es"
    using top_category_chart_lemma [OF tops cur] assms(2) by auto
  ultimately show ?thesis
    using chart_by_category_total [OF bars cur] tops
    by (intro exI [of _ bars] exI [of _ ks] exI [of _ tops] exI [of _ rs]) (intro conjI)
qed

theorem category_charts_add_up_witness:
  "\<exists>input bars. mk_ExchangedIntervalTransactions sample_interval
      [\<lparr>xt_t = PersonalExpense sample_expense, xt_ownShare = mk_awc 100 \<lparr>cur_code = ''GBP''\<rparr>,
        xt_allParties = mk_awc 100 \<lparr>cur_code = ''GBP''\<rparr>\<rparr>] \<lparr>cur_code = ''GBP''\<rparr> = Inr input \<and>
     ExpenseByCategory ten_ms_calendar sample_categories (WithinInterval input) = Inr bars \<and>
     bars_total bars = nanos_of (xi_expenses ten_ms_calendar input)"
proof -
  let ?x = "\<lparr>xt_t = PersonalExpense sample_expense, xt_ownShare = mk_awc 100 \<lparr>cur_code = ''GBP''\<rparr>,
        xt_allParties = mk_awc 100 \<lparr>cur_code = ''GBP''\<rparr>\<rparr>"
  let ?input = "\<lparr>xs_exchanged = [?x], xs_currency = \<lparr>cur_code = ''GBP''\<rparr>, xi_interval = sample_interval\<rparr>"
  have made: "mk_ExchangedIntervalTransactions sample_interval [?x] \<lparr>cur_code = ''GBP''\<rparr> = Inr ?input"
    by (simp add: mk_ExchangedIntervalTransactions_eq)
  have "\<forall>x \<in> set [?x]. \<forall>k. tx_categoryId (xt_t x) = Some k \<longrightarrow> k \<in> cat_id ` set sample_categories"
    by (simp add: sample_expense_def sample_categories_def)
  from category_charts_add_up [OF made sample_tree sample_tree_rooted this, of ten_ms_calendar] made
  show ?thesis by blast
qed

text \<open>
  The stacked charts. In every month the series of the monthly expenses by category, and of those by
  root category, add up to the monthly expenses.
\<close>
theorem stacked_series_add_up:
  assumes "calendar_ok cal" "mk_ExchangedIntervalTransactions i xs c = Inr input"
    and "MonthlyExpenseByCategory cal all input = Inr byCategory" "MonthlyExpenseByTopCategory cal all input = Inr byRoot"
  shows "\<exists>expense. MonthlyExpense cal input = Inr expense \<and>
    (\<Sum>(name, s) \<leftarrow> byCategory. amountNanos (at_get cal s u)) = amountNanos (at_get cal expense u) \<and>
    (\<Sum>(name, s) \<leftarrow> byRoot. amountNanos (at_get cal s u)) = amountNanos (at_get cal expense u)"
proof -
  have ok: "input_ok input" by (rule constructed_input_ok [OF assms(2)])
  note cur = input_ok_lists(1) [OF ok, of cal]
  obtain expense where "MonthlyExpense cal input = Inr expense"
    "\<And>u. amountNanos (at_get cal expense u) = nanos_of (filter (in_period cal MONTHLY u) (xi_expenses cal input))"
    using shares_series_lemma [OF assms(1) cur, of MONTHLY] by (auto simp: MonthlyExpense_def)
  then show ?thesis
    using series_by_category_total [OF assms(1) assms(3) [unfolded MonthlyExpenseByCategory_def] cur]
      top_category_series_total [OF assms(1,4) ok] by simp
qed

theorem stacked_series_add_up_witness:
  "\<exists>input byCategory expense. MonthlyExpenseByCategory ten_ms_calendar sample_categories input = Inr byCategory \<and>
     MonthlyExpense ten_ms_calendar input = Inr expense \<and>
     (\<Sum>(name, s) \<leftarrow> byCategory. amountNanos (at_get ten_ms_calendar s 2005)) =
       amountNanos (at_get ten_ms_calendar expense 2005)"
proof -
  let ?x = "\<lparr>xt_t = PersonalExpense sample_expense, xt_ownShare = mk_awc 100 \<lparr>cur_code = ''GBP''\<rparr>,
        xt_allParties = mk_awc 100 \<lparr>cur_code = ''GBP''\<rparr>\<rparr>"
  let ?input = "\<lparr>xs_exchanged = [?x], xs_currency = \<lparr>cur_code = ''GBP''\<rparr>, xi_interval = sample_interval\<rparr>"
  have made: "mk_ExchangedIntervalTransactions sample_interval [?x] \<lparr>cur_code = ''GBP''\<rparr> = Inr ?input"
    by (simp add: mk_ExchangedIntervalTransactions_eq)
  have "case MonthlyExpenseByCategory ten_ms_calendar sample_categories ?input of Inr _ \<Rightarrow> True | Inl _ \<Rightarrow> False"
    "case MonthlyExpenseByTopCategory ten_ms_calendar sample_categories ?input of Inr _ \<Rightarrow> True | Inl _ \<Rightarrow> False"
    by code_simp+
  then obtain byCategory byRoot where data: "MonthlyExpenseByCategory ten_ms_calendar sample_categories ?input = Inr byCategory"
    "MonthlyExpenseByTopCategory ten_ms_calendar sample_categories ?input = Inr byRoot"
    by (auto split: sum.splits)
  from stacked_series_add_up [OF calendar_ok_ten_ms made data, of 2005] data show ?thesis by blast
qed

end
