(* ===== verification/StatsPages.thy ===== *)
theory StatsPages
  imports Charts
begin

text \<open>
  The pages that put the statistics together: the period pages with their navigation
  (\<open>app/(authenticated)/stats/(aggregate-by-period)\<close>), the choice of a duration
  (\<open>components/DurationSelector.tsx\<close>), the statistics of a list of transactions
  (\<open>components/transactions/TransactionStats.tsx\<close>) and the trips (\<open>app/(authenticated)/trips\<close>).
\<close>

section \<open>Navigation between periods\<close>

text \<open>The timeline of all data is undefined at both ends when there is no transaction.\<close>

definition by_timestamp :: "transaction list \<Rightarrow> transaction list" where
  "by_timestamp txs = js_sort (by_number tx_timestampEpoch) txs"

definition allDataInterval :: "transaction list \<Rightarrow> interval option" where
  "allDataInterval transactions =
     (let timestamps = js_sort (by_number (\<lambda>t. t)) (map tx_timestampEpoch transactions)
      in if timestamps = [] then None
         else Some \<lparr>iv_start = timestamps ! 0, iv_end = timestamps ! (length timestamps - 1)\<rparr>)"

definition current_period :: "calendar \<Rightarrow> granularity \<Rightarrow> rat \<Rightarrow> interval" where
  "current_period cal g now = \<lparr>iv_start = cal_startOf cal g now, iv_end = cal_endOf cal g now\<rparr>"

definition intervalsEqual :: "(rat \<Rightarrow> rat \<Rightarrow> bool) \<Rightarrow> interval \<Rightarrow> interval \<Rightarrow> bool" where
  "intervalsEqual isSameDay i1 i2 \<longleftrightarrow> isSameDay (iv_start i1) (iv_start i2) \<and> isSameDay (iv_end i1) (iv_end i2)"

text \<open>The buttons of the navigation: a period, and whether the button is disabled.\<close>

definition Navigation ::
  "calendar \<Rightarrow> (rat \<Rightarrow> rat \<Rightarrow> bool) \<Rightarrow> interval \<Rightarrow> granularity \<Rightarrow> interval \<Rightarrow> (interval \<times> bool) list" where
  "Navigation cal isSameDay timeline g selected =
     map (\<lambda>i. (i, intervalsEqual isSameDay selected i)) (sliceInterval cal timeline g)"

section \<open>Choosing a duration\<close>

definition getLast6Months :: "calendar \<Rightarrow> (rat \<Rightarrow> nat \<Rightarrow> rat) \<Rightarrow> rat \<Rightarrow> interval" where
  "getLast6Months cal subMonths now = \<lparr>iv_start = cal_startOf cal MONTHLY (subMonths now 5), iv_end = now\<rparr>"

definition getLast12Months :: "calendar \<Rightarrow> (rat \<Rightarrow> nat \<Rightarrow> rat) \<Rightarrow> rat \<Rightarrow> interval" where
  "getLast12Months cal subMonths now = \<lparr>iv_start = cal_startOf cal MONTHLY (subMonths now 11), iv_end = now\<rparr>"

definition useFirstTransactionMonth :: "calendar \<Rightarrow> transaction list \<Rightarrow> rat result" where
  "useFirstTransactionMonth cal transactions =
     (case by_timestamp transactions of
        [] \<Rightarrow> Inl UndefinedProperty
      | firstTransaction # _ \<Rightarrow> Inr (cal_startOf cal MONTHLY (tx_timestampEpoch firstTransaction)))"

definition useCommonIntervals ::
  "calendar \<Rightarrow> (rat \<Rightarrow> nat \<Rightarrow> rat) \<Rightarrow> rat \<Rightarrow> transaction list \<Rightarrow> (string \<times> interval) list result" where
  "useCommonIntervals cal subMonths now transactions =
     bind_result (useFirstTransactionMonth cal transactions) (\<lambda>first.
       Inr [(''Last 6 months'', getLast6Months cal subMonths now),
            (''Last 12 months'', getLast12Months cal subMonths now),
            (''All time'', \<lparr>iv_start = first, iv_end = now\<rparr>)])"

text \<open>The label of a duration; both ends of a duration are dates, which are truthy.\<close>

definition duration_label ::
  "(rat \<Rightarrow> string) \<Rightarrow> (string \<times> interval) list \<Rightarrow> interval \<Rightarrow> string" where
  "duration_label formatDate commonIntervals i =
     (case find (\<lambda>(_, interval). interval = i) commonIntervals of
        Some (label, _) \<Rightarrow> label
      | None \<Rightarrow> formatDate (iv_start i) @ '' - '' @ formatDate (iv_end i))"

definition onFromChange :: "rat option \<Rightarrow> rat \<Rightarrow> interval \<Rightarrow> interval" where
  "onFromChange parsed firstTransactionMonth duration =
     \<lparr>iv_start = (case parsed of Some d \<Rightarrow> d | None \<Rightarrow> firstTransactionMonth), iv_end = iv_end duration\<rparr>"

definition onToChange :: "rat option \<Rightarrow> rat \<Rightarrow> interval \<Rightarrow> interval" where
  "onToChange parsed now duration =
     \<lparr>iv_start = iv_start duration, iv_end = (case parsed of Some d \<Rightarrow> d | None \<Rightarrow> now)\<rparr>"

section \<open>Statistics of a list of transactions\<close>

record text_summary =
  sum_matched :: nat
  sum_months :: int
  sum_personal :: nat
  sum_external :: nat
  sum_transfers :: nat
  sum_income :: nat
  sum_first :: rat
  sum_last :: rat

definition TextSummary :: "calendar \<Rightarrow> exchanged_interval_transactions \<Rightarrow> text_summary" where
  "TextSummary cal input =
     \<lparr>sum_matched = length (xs_transactions input),
      sum_months = cal_differenceInMonths cal (iv_end (xi_interval input)) (iv_start (xi_interval input)),
      sum_personal = length (filter (\<lambda>x. isPersonalExpense (xt_t x)) (xi_expenses cal input)),
      sum_external = length (filter (\<lambda>x. isThirdPartyExpense (xt_t x)) (xi_expenses cal input)),
      sum_transfers = length (xi_transfers input),
      sum_income = length (xi_income cal input),
      sum_first = iv_start (xi_interval input), sum_last = iv_end (xi_interval input)\<rparr>"

datatype stats_kind = StatsExpense | StatsIncome

definition stats_transactions ::
  "calendar \<Rightarrow> stats_kind \<Rightarrow> exchanged_interval_transactions \<Rightarrow> exchanged_transaction list" where
  "stats_transactions cal k input = (case k of StatsExpense \<Rightarrow> xi_expenses cal input | StatsIncome \<Rightarrow> xi_income cal input)"

type_synonym stats_totals = "amount_with_currency \<times> money_timeseries \<times> amount_with_currency \<times> money_timeseries"

definition stats_step :: "calendar \<Rightarrow> stats_totals \<Rightarrow> exchanged_transaction \<Rightarrow> stats_totals result" where
  "stats_step cal st x =
     (let (totalNet, netPerMonth, totalGross, grossPerMonth) = st; time = tx_timestampEpoch (xt_t x)
      in bind_result (awc_add totalNet (xt_ownShare x)) (\<lambda>totalNet.
         bind_result (at_increment cal time (xt_ownShare x) netPerMonth) (\<lambda>netPerMonth.
         bind_result (awc_add totalGross (xt_allParties x)) (\<lambda>totalGross.
         bind_result (at_increment cal time (xt_allParties x) grossPerMonth) (\<lambda>grossPerMonth.
           Inr (totalNet, netPerMonth, totalGross, grossPerMonth))))))"

definition Percentiles :: "money_timeseries \<Rightarrow> (string \<times> amount_with_currency) list result" where
  "Percentiles timeseries =
     map_result (\<lambda>(label, p). bind_result (mt_percentile timeseries p) (\<lambda>value. Inr (label, awc_round value)))
       [(''p25'', 25), (''p50'', 50), (''p75'', 75), (''max'', 100)]"

record kind_stats =
  ks_gross :: amount_with_currency
  ks_net :: amount_with_currency
  ks_percent :: "int option"
  ks_grossPercentiles :: "(string \<times> amount_with_currency) list"
  ks_netPercentiles :: "(string \<times> amount_with_currency) list"

text \<open>The own share percentage is \<open>NaN\<close> or infinite when nothing was paid: \<open>None\<close>.\<close>

definition IncomeOrExenseStats ::
  "calendar \<Rightarrow> stats_kind \<Rightarrow> exchanged_interval_transactions \<Rightarrow> kind_stats result" where
  "IncomeOrExenseStats cal k input =
     (let c = xs_currency input
      in bind_result (fold_result (stats_step cal)
           (awc_zero c, mk_MoneyTimeseries c MONTHLY, awc_zero c, mk_MoneyTimeseries c MONTHLY)
           (stats_transactions cal k input)) (\<lambda>(totalNet, netPerMonth, totalGross, grossPerMonth).
         bind_result (Percentiles grossPerMonth) (\<lambda>gross.
         bind_result (Percentiles netPerMonth) (\<lambda>net.
           Inr \<lparr>ks_gross = awc_round totalGross, ks_net = awc_round totalNet,
             ks_percent = (if dollar totalGross = 0 then None
               else Some (js_round (n_div (n_mul 100 (dollar totalNet)) (dollar totalGross)))),
             ks_grossPercentiles = gross, ks_netPercentiles = net\<rparr>))))"

text \<open>The charts below the totals: yearly and monthly amounts, gross and net, and the root categories.\<close>

definition IncomeOrExenseCharts ::
  "calendar \<Rightarrow> category list \<Rightarrow> stats_kind \<Rightarrow> exchanged_interval_transactions \<Rightarrow>
     (money_timeseries list \<times> (string \<times> amount_with_currency) list) result" where
  "IncomeOrExenseCharts cal categories k input =
     (let transactions = stats_transactions cal k input; c = xs_currency input;
          gross = map (\<lambda>x. (tx_timestampEpoch (xt_t x), super (xt_allParties x))) transactions;
          net = map (\<lambda>x. (tx_timestampEpoch (xt_t x), super (xt_ownShare x))) transactions
      in bind_result (map_result (\<lambda>(g, data). TimelineAmountsChart cal c g data)
           [(YEARLY, gross), (YEARLY, net), (MONTHLY, gross), (MONTHLY, net)]) (\<lambda>timelines.
         bind_result (ExpenseByTopCategoryChart categories c transactions) (\<lambda>byCategory.
           Inr (timelines, byCategory))))"

definition IncomeOrExenseSection ::
  "calendar \<Rightarrow> stats_kind \<Rightarrow> exchanged_interval_transactions \<Rightarrow> kind_stats option result" where
  "IncomeOrExenseSection cal k input =
     (if stats_transactions cal k input = [] then Inr None
      else map_sum id Some (IncomeOrExenseStats cal k input))"

record transaction_stats =
  ts_failed :: "transaction list"
  ts_summary :: text_summary
  ts_expense :: "kind_stats option"
  ts_income :: "kind_stats option"

definition NonEmptyTransactionStats ::
  "calendar \<Rightarrow> stats_context \<Rightarrow> transaction list \<Rightarrow> transaction_stats result" where
  "NonEmptyTransactionStats cal cx transactions =
     (let sorted = by_timestamp transactions;
          duration = \<lparr>iv_start = tx_timestampEpoch (sorted ! 0),
                      iv_end = tx_timestampEpoch (sorted ! (length sorted - 1))\<rparr>
      in bind_result (useExchangedIntervalTransactions cx sorted duration) (\<lambda>(input, failed).
         bind_result (IncomeOrExenseSection cal StatsExpense input) (\<lambda>expense.
         bind_result (IncomeOrExenseSection cal StatsIncome input) (\<lambda>income.
           Inr \<lparr>ts_failed = failed, ts_summary = TextSummary cal input, ts_expense = expense, ts_income = income\<rparr>))))"

definition TransactionStats :: "calendar \<Rightarrow> stats_context \<Rightarrow> transaction list \<Rightarrow> transaction_stats option result" where
  "TransactionStats cal cx transactions =
     (let transactionsByTimestamp = by_timestamp transactions
      in if transactions = [] then Inr None
         else map_sum id Some (NonEmptyTransactionStats cal cx transactionsByTimestamp))"

section \<open>Trips\<close>

definition tripTransactions :: "int \<Rightarrow> transaction list \<Rightarrow> transaction list" where
  "tripTransactions tripId transactions =
     filter (\<lambda>t. hasTrip t \<and> Option.bind (flow_of t) flow_tripId = Some tripId) transactions"

definition travelTransactions :: "transaction list \<Rightarrow> transaction list" where
  "travelTransactions transactions =
     filter (\<lambda>t. Option.bind (Option.bind (flow_of t) flow_tripId) (\<lambda>i. truthy_id (Some i)) \<noteq> None)
       (filter (\<lambda>t. isExpense t \<or> isIncome t) transactions)"

definition tripEpoch :: "rat \<Rightarrow> transaction list \<Rightarrow> int \<Rightarrow> rat" where
  "tripEpoch now travel tripId =
     (let txs = js_sort (by_number (\<lambda>t. - tx_timestampEpoch t))
            (filter (\<lambda>t. Option.bind (flow_of t) flow_tripId = Some tripId) travel)
      in if txs = [] then now else tx_timestampEpoch (txs ! 0))"

datatype trip_size = TripXL | TripLG | TripBase | TripSM

text \<open>
  The text size of a trip by the quartiles of the totals. Reading past the end of the array yields
  \<open>undefined\<close>, \<open>None\<close> here, and every comparison with it is false.
\<close>

definition n_lt :: "rat option \<Rightarrow> rat option \<Rightarrow> bool" where
  "n_lt a b = (case (a, b) of (Some x, Some y) \<Rightarrow> x < y | _ \<Rightarrow> False)"

definition n_le :: "rat option \<Rightarrow> rat option \<Rightarrow> bool" where
  "n_le a b = (case (a, b) of (Some x, Some y) \<Rightarrow> x \<le> y | _ \<Rightarrow> False)"

definition js_nth :: "'a list \<Rightarrow> int \<Rightarrow> 'a option" where
  "js_nth xs i = (if 0 \<le> i \<and> nat i < length xs then Some (xs ! nat i) else None)"

definition trip_quartiles :: "amount_with_currency option list \<Rightarrow> rat option \<times> rat option \<times> rat option" where
  "trip_quartiles values =
     (let totals = js_sort (by_number (\<lambda>x. x)) (map (\<lambda>v. case v of Some a \<Rightarrow> dollar a | None \<Rightarrow> 0) values);
          n = (of_nat (length totals) :: rat);
          pick = (\<lambda>i. js_nth totals (js_round i))
      in (pick (n_div n 4), pick (n_div n 2), pick (n_div (n_mul 3 n) 4)))"

definition trip_size :: "amount_with_currency option list \<Rightarrow> amount_with_currency option \<Rightarrow> trip_size option" where
  "trip_size values spent =
     (case spent of None \<Rightarrow> None
      | Some a \<Rightarrow>
          let (p25, p50, p75) = trip_quartiles values; d = Some (dollar a)
          in if n_lt d p25 then Some TripSM
             else if n_le p25 d \<and> n_lt d p50 then Some TripBase
             else if n_le p50 d \<and> n_lt d p75 then Some TripLG
             else if n_le p75 d then Some TripXL
             else None)"

definition NonEmptyTripsList ::
  "rat \<Rightarrow> stats_context \<Rightarrow> trip list \<Rightarrow> (trip \<times> amount_with_currency option \<times> trip_size option) list result" where
  "NonEmptyTripsList now cx trips =
     (let travel = travelTransactions (sc_transactions cx);
          spent = (\<lambda>t. tripTotalSpend (trip_id t) cx (awc_zero (sc_displayCurrency cx)) (sc_transactions cx))
      in bind_result (map_result (\<lambda>t. bind_result (spent t) (\<lambda>a. Inr (trip_id t, a))) trips) (\<lambda>entries.
         let totalByTrip = jm_of_entries entries;
             tripsByTs = js_sort (by_number (\<lambda>t. - tripEpoch now travel (trip_id t))) trips
         in map_result (\<lambda>t. bind_result (spent t) (\<lambda>a. Inr (t, a,
              trip_size (jm_values totalByTrip) (Option.bind (jm_get totalByTrip (trip_id t)) id)))) tripsByTs))"

section \<open>What the pages show\<close>

lemma sort_by_number: "js_sort (by_number key) xs = sort_key key xs"
proof -
  have "js_sort (by_number key) xs = js_sort (by_key key) xs" by (rule js_sort_cong) (auto simp: by_key_def)
  then show ?thesis by simp
qed

lemma timeline_bounds:
  assumes "allDataInterval txs = Some i"
  shows "iv_start i \<le> iv_end i" "t \<in> set txs \<Longrightarrow> iv_start i \<le> tx_timestampEpoch t \<and> tx_timestampEpoch t \<le> iv_end i"
proof -
  let ?ts = "sort (map tx_timestampEpoch txs)"
  have i: "i = \<lparr>iv_start = ?ts ! 0, iv_end = ?ts ! (length ?ts - 1)\<rparr>" and ne: "?ts \<noteq> []"
    using assms by (auto simp: allDataInterval_def sort_by_number Let_def split: if_splits)
  have nth: "?ts ! 0 \<le> ?ts ! k" "?ts ! k \<le> ?ts ! (length ?ts - 1)" if "k < length ?ts" for k
    using that by (auto intro!: sorted_nth_mono simp del: length_sort)
  show "iv_start i \<le> iv_end i" using nth(1) [of "length ?ts - 1"] ne unfolding i by (cases txs) simp_all
  assume "t \<in> set txs"
  then have "tx_timestampEpoch t \<in> set ?ts" by simp
  then obtain k where "k < length ?ts" "?ts ! k = tx_timestampEpoch t" unfolding in_set_conv_nth by blast
  then show "iv_start i \<le> tx_timestampEpoch t \<and> tx_timestampEpoch t \<le> iv_end i" using nth [of k] unfolding i by simp
qed

text \<open>The periods of an interval: a time inside it lies in exactly the slice of its own period.\<close>

lemma within_slice:
  assumes cal: "calendar_ok cal" and i: "iv_start i \<le> iv_end i" and p: "p \<in> set (cal_eachOfInterval cal g i)"
    and t: "t \<in> \<int>"
  shows "cal_isWithinInterval cal t \<lparr>iv_start = cal_startOf cal g p, iv_end = cal_endOf cal g p\<rparr> \<longleftrightarrow> cal_startOf cal g t = p"
proof -
  let ?s = "\<lparr>iv_start = cal_startOf cal g p, iv_end = cal_endOf cal g p\<rparr>"
  note laws = cal [unfolded calendar_ok_def]
  have same: "(cal_startOf cal g p \<le> t \<and> t \<le> cal_endOf cal g p) = (cal_startOf cal g t = cal_startOf cal g p)"
    using laws t by simp
  have "cal_startOf cal g p \<le> cal_endOf cal g p" using laws by simp
  then have "cal_isWithinInterval cal t ?s = (cal_startOf cal g p \<le> t \<and> t \<le> cal_endOf cal g p)"
    using laws by simp
  then show ?thesis using same period_is_own_start [OF cal i p] by simp
qed

lemma slices_partition:
  assumes cal: "calendar_ok cal" and i: "iv_start i \<le> iv_end i"
    and xs: "\<forall>x \<in> set xs. time x \<in> \<int> \<and> iv_start i \<le> time x \<and> time x \<le> iv_end i"
  shows "(\<Sum>s \<leftarrow> sliceInterval cal i g. \<Sum>x \<leftarrow> filter (\<lambda>x. cal_isWithinInterval cal (time x) s) xs. f x) =
    (\<Sum>x \<leftarrow> xs. (f x :: int))"
proof -
  let ?ps = "cal_eachOfInterval cal g i"
  have "(\<Sum>s \<leftarrow> sliceInterval cal i g. \<Sum>x \<leftarrow> filter (\<lambda>x. cal_isWithinInterval cal (time x) s) xs. f x) =
    (\<Sum>p \<leftarrow> ?ps. \<Sum>x \<leftarrow> filter (\<lambda>x. cal_startOf cal g (time x) = p) xs. f x)"
    unfolding sliceInterval_def map_map comp_def
    using within_slice [OF cal i] xs
    by (intro arg_cong [where f = sum_list] map_cong refl arg_cong [where f = "map f"] filter_cong) simp_all
  also have "\<dots> = (\<Sum>x \<leftarrow> xs. f x)"
    by (rule sum_list_by_key) (use xs calendar_periods [OF cal i] in auto)
  finally show ?thesis .
qed

lemma page_of_period:
  assumes "useStatsPageProps cx excluded d = Inr (input, failed)"
  shows "useStatsPageProps cx excluded s = Inr (input\<lparr>xi_interval := s\<rparr>, failed)"
proof -
  obtain txs base where "filterExcludedTransactions (sc_transactions cx) excluded (sc_categories cx) = Inr txs"
    "useExchangedTransactions cx txs = Inr (base, failed)"
    "mk_ExchangedIntervalTransactions d (xs_transactions base) (xs_currency base) = Inr input"
    using assms by (auto simp: useStatsPageProps_def result_simps)
  then show ?thesis
    by (auto simp: useStatsPageProps_def mk_ExchangedIntervalTransactions_eq split: if_splits)
qed

lemma filterExcluded_subset:
  "filterExcludedTransactions txs excluded all = Inr kept \<Longrightarrow> set kept \<subseteq> set txs"
  by (auto simp: filterExcludedTransactions_def result_simps Let_def split: prod.splits)

lemma page_transactions:
  assumes "useStatsPageProps cx excluded d = Inr (input, failed)" "x \<in> set (xs_exchanged input)"
  shows "xt_t x \<in> set (sc_transactions cx)"
proof -
  obtain txs base where txs: "filterExcludedTransactions (sc_transactions cx) excluded (sc_categories cx) = Inr txs"
    "useExchangedTransactions cx txs = Inr (base, failed)"
    "mk_ExchangedIntervalTransactions d (xs_transactions base) (xs_currency base) = Inr input"
    using assms(1) by (auto simp: useStatsPageProps_def result_simps)
  then have "xs_exchanged input = concat (map (exchanged_of cx) txs)"
    by (auto simp: mk_ExchangedIntervalTransactions_eq useExchangedTransactions_eq xs_transactions_def
        split: if_splits sum.splits)
  then show ?thesis
    using assms(2) filterExcluded_subset [OF txs(1)] exchanged_of_currency by fastforce
qed

text \<open>The text summary counts every kind of transaction.\<close>

lemma by_timestamp_simps [simp]: "set (by_timestamp txs) = set txs" "length (by_timestamp txs) = length txs"
  by (simp_all add: by_timestamp_def)

lemma counted_kinds:
  "length txs = length (filter isPersonalExpense txs) + length (filter isThirdPartyExpense txs) +
     length (filter isTransfer txs) + length (filter isIncome txs) + length (filter isOpeningBalance txs)"
proof (induction txs)
  case (Cons t txs)
  then show ?case
    by (cases t) (simp_all add: isPersonalExpense_def isThirdPartyExpense_def isTransfer_def isIncome_def isOpeningBalance_def)
qed simp

lemma personal_is_expense: "isExpense t \<and> isPersonalExpense t \<longleftrightarrow> isPersonalExpense t"
  and external_is_expense: "isExpense t \<and> isThirdPartyExpense t \<longleftrightarrow> isThirdPartyExpense t"
  by (auto simp: isExpense_def)

lemma all_within:
  assumes "\<forall>x \<in> set (xs_exchanged input). xi_within cal input x"
  shows "xi_expenses cal input = xs_expenses input" "xi_income cal input = xs_income input"
  unfolding xi_expenses_def xi_income_def xs_expenses_def xs_income_def filter_filter using assms by (auto intro: filter_cong)

lemma TextSummary_lemma:
  assumes "\<forall>x \<in> set (xs_exchanged input). xi_within cal input x"
  shows "sum_matched (TextSummary cal input) = length (xs_exchanged input)"
    "sum_personal (TextSummary cal input) = length (filter isPersonalExpense (map xt_t (xs_exchanged input)))"
    "sum_external (TextSummary cal input) = length (filter isThirdPartyExpense (map xt_t (xs_exchanged input)))"
    "sum_transfers (TextSummary cal input) = length (filter isTransfer (map xt_t (xs_exchanged input)))"
    "sum_income (TextSummary cal input) = length (filter isIncome (map xt_t (xs_exchanged input)))"
proof -
  note all = all_within [OF assms]
  have expenses: "filter (\<lambda>x. P (xt_t x)) (xs_expenses input) = filter (\<lambda>x. P (xt_t x)) (xs_exchanged input)"
    if "\<And>t. isExpense t \<and> P t \<longleftrightarrow> P t" for P
    unfolding xs_expenses_def filter_filter using that by (intro filter_cong refl) blast
  show "sum_matched (TextSummary cal input) = length (xs_exchanged input)"
    by (simp add: TextSummary_def xs_transactions_def)
  show "sum_personal (TextSummary cal input) = length (filter isPersonalExpense (map xt_t (xs_exchanged input)))"
    by (simp add: TextSummary_def all expenses [of isPersonalExpense, OF personal_is_expense] filter_map comp_def)
  show "sum_external (TextSummary cal input) = length (filter isThirdPartyExpense (map xt_t (xs_exchanged input)))"
    by (simp add: TextSummary_def all expenses [of isThirdPartyExpense, OF external_is_expense] filter_map comp_def)
  show "sum_transfers (TextSummary cal input) = length (filter isTransfer (map xt_t (xs_exchanged input)))"
    by (simp add: TextSummary_def xi_transfers_def xs_transactions_def)
  show "sum_income (TextSummary cal input) = length (filter isIncome (map xt_t (xs_exchanged input)))"
    by (simp add: TextSummary_def all) (simp add: xs_income_def filter_map comp_def)
qed

text \<open>The totals and monthly series of one kind of transactions.\<close>

abbreviation gross_of :: "exchanged_transaction list \<Rightarrow> int" where
  "gross_of xs \<equiv> (\<Sum>x \<leftarrow> xs. amountNanos (xt_allParties x))"

abbreviation series_ready :: "calendar \<Rightarrow> currency \<Rightarrow> bool \<Rightarrow> money_timeseries \<Rightarrow> bool" where
  "series_ready cal c filled s \<equiv> money_ok cal s \<and> mt_currency s = c \<and> (filled \<longrightarrow> at_data s \<noteq> [])"

lemma at_increment_filled:
  assumes "at_increment cal t a s = Inr s'"
  shows "at_data s' \<noteq> []"
proof -
  have "jm_set k v m \<noteq> []" for k :: rat and v and m :: "(rat, 'a) js_map"
    using jm.get_set [of k v m k] by (auto simp: jm_get_def)
  then show ?thesis using assms by (auto simp: at_increment_def Let_def result_simps)
qed

lemma stats_step_lemma:
  assumes "calendar_ok cal" "awc_currency net = c" "awc_currency gross = c" "series_ready cal c f netM" "series_ready cal c f grossM"
    and "awc_currency (xt_ownShare x) = c" "awc_currency (xt_allParties x) = c"
  shows "\<exists>netM' grossM'. stats_step cal (net, netM, gross, grossM) x =
      Inr (mk_awc (amountNanos net + amountNanos (xt_ownShare x)) c, netM',
        mk_awc (amountNanos gross + amountNanos (xt_allParties x)) c, grossM') \<and>
    series_ready cal c True netM' \<and> series_ready cal c True grossM'"
proof -
  let ?t = "tx_timestampEpoch (xt_t x)"
  obtain netM' where n: "at_increment cal ?t (xt_ownShare x) netM = Inr netM'" "money_ok cal netM'" "mt_currency netM' = c"
    using at_increment_money [OF assms(1), of netM "xt_ownShare x" ?t] assms by auto
  obtain grossM' where g: "at_increment cal ?t (xt_allParties x) grossM = Inr grossM'" "money_ok cal grossM'" "mt_currency grossM' = c"
    using at_increment_money [OF assms(1), of grossM "xt_allParties x" ?t] assms by auto
  show ?thesis
    using n g at_increment_filled [OF n(1)] at_increment_filled [OF g(1)] assms(2,3,6,7)
    by (simp add: stats_step_def)
qed

lemma stats_fold_lemma:
  assumes cal: "calendar_ok cal"
    and xs: "\<forall>x \<in> set xs. awc_currency (xt_ownShare x) = c \<and> awc_currency (xt_allParties x) = c"
    and "awc_currency net = c" "awc_currency gross = c" "series_ready cal c f netM" "series_ready cal c f grossM"
  shows "\<exists>net' netM' gross' grossM'. fold_result (stats_step cal) (net, netM, gross, grossM) xs =
      Inr (net', netM', gross', grossM') \<and> net' = mk_awc (amountNanos net + nanos_of xs) c \<and>
      gross' = mk_awc (amountNanos gross + gross_of xs) c \<and>
      series_ready cal c (f \<or> xs \<noteq> []) netM' \<and> series_ready cal c (f \<or> xs \<noteq> []) grossM'"
  using xs assms(3-6)
proof (induction xs arbitrary: net netM gross grossM f)
  case Nil
  then have "net = mk_awc (amountNanos net) c" "gross = mk_awc (amountNanos gross) c" by (simp_all add: awc_eq_iff)
  then show ?case using Nil by simp
next
  case (Cons x xs)
  obtain netM1 grossM1 where step: "stats_step cal (net, netM, gross, grossM) x =
      Inr (mk_awc (amountNanos net + amountNanos (xt_ownShare x)) c, netM1,
        mk_awc (amountNanos gross + amountNanos (xt_allParties x)) c, grossM1)"
    "series_ready cal c True netM1" "series_ready cal c True grossM1"
    using stats_step_lemma [OF cal Cons.prems(2,3,4,5), of x] Cons.prems(1) by auto
  show ?case
    using Cons.IH [OF _ _ _ step(2,3), of "mk_awc (amountNanos net + amountNanos (xt_ownShare x)) c"
        "mk_awc (amountNanos gross + amountNanos (xt_allParties x)) c"] Cons.prems(1)
    by (auto simp: step(1) add.assoc)
qed

lemma Percentiles_total:
  assumes "at_data s \<noteq> []"
  shows "\<exists>ps. Percentiles s = Inr ps \<and> map fst ps = [''p25'', ''p50'', ''p75'', ''max'']"
proof -
  have "mt_entries s \<noteq> []" using assms mt_entries_sorted(2) [of s] by auto
  then have "\<exists>v. mt_percentile s 25 = Inr v" "\<exists>v. mt_percentile s 50 = Inr v" "\<exists>v. mt_percentile s 75 = Inr v"
    "\<exists>v. mt_percentile s 100 = Inr v"
    by (simp_all add: mt_percentile_def percentile_def Let_def)
  then show ?thesis by (auto simp: Percentiles_def)
qed

lemma IncomeOrExenseSection_lemma:
  fixes k :: stats_kind
  assumes cal: "calendar_ok cal" and ok: "input_ok input"
  defines "xs \<equiv> stats_transactions cal k input" and "c \<equiv> xs_currency input"
  shows "\<exists>r. IncomeOrExenseSection cal k input = Inr r \<and>
    (case r of None \<Rightarrow> xs = []
     | Some st \<Rightarrow> xs \<noteq> [] \<and> ks_net st = awc_round (mk_awc (nanos_of xs) c) \<and> ks_gross st = awc_round (mk_awc (gross_of xs) c))"
proof (cases "xs = []")
  case True then show ?thesis by (simp add: IncomeOrExenseSection_def xs_def)
next
  case False
  have "\<forall>x \<in> set xs. awc_currency (xt_ownShare x) = c \<and> awc_currency (xt_allParties x) = c"
    using ok by (auto simp: xs_def c_def stats_transactions_def input_ok_def interval_filters split: stats_kind.splits)
  then obtain netM grossM where st: "fold_result (stats_step cal)
      (awc_zero c, mk_MoneyTimeseries c MONTHLY, awc_zero c, mk_MoneyTimeseries c MONTHLY) xs =
      Inr (mk_awc (nanos_of xs) c, netM, mk_awc (gross_of xs) c, grossM)" "at_data netM \<noteq> []" "at_data grossM \<noteq> []"
    using stats_fold_lemma [OF cal, where xs = xs and c = c and net = "awc_zero c" and gross = "awc_zero c" and f = False and
        netM = "mk_MoneyTimeseries c MONTHLY" and grossM = "mk_MoneyTimeseries c MONTHLY"] False by auto
  obtain ps qs where "Percentiles netM = Inr ps" "Percentiles grossM = Inr qs"
    using Percentiles_total st(2,3) by blast
  then show ?thesis
    using False st(1) by (simp add: IncomeOrExenseSection_def IncomeOrExenseStats_def xs_def [symmetric] c_def [symmetric] Let_def)
qed

text \<open>With three trips or more the dearest one is large; a single trip has no size at all.\<close>

lemma single_trip_has_no_size: "trip_size [Some a] (Some a) = None"
proof -
  have "trip_quartiles [Some a] = (Some (dollar a), None, None)"
  proof -
    have "js_round (n_div 1 4) = 0" "js_round (n_div 1 2) = 1" "js_round (n_div 3 4) = 1" "n_mul 3 1 = (3 :: rat)" by code_simp+
    then show ?thesis by (simp add: trip_quartiles_def js_nth_def Let_def)
  qed
  then show ?thesis by (simp add: trip_size_def n_lt_def n_le_def)
qed

text \<open>Without transactions the choice of a duration throws.\<close>

lemma duration_of_no_transactions: "useCommonIntervals cal subMonths now [] = Inl UndefinedProperty"
  by (simp add: useCommonIntervals_def useFirstTransactionMonth_def by_timestamp_def)

lemma sorted_ends:
  assumes "txs \<noteq> []" "t \<in> set txs"
  shows "tx_timestampEpoch (by_timestamp txs ! 0) \<le> tx_timestampEpoch t"
    "tx_timestampEpoch t \<le> tx_timestampEpoch (by_timestamp txs ! (length (by_timestamp txs) - 1))"
proof -
  let ?s = "by_timestamp txs"
  have sorted: "sorted (map tx_timestampEpoch ?s)" by (simp add: by_timestamp_def sort_by_number)
  obtain k where k: "k < length ?s" "?s ! k = t" using assms(2) by (metis by_timestamp_simps(1) in_set_conv_nth)
  show "tx_timestampEpoch (?s ! 0) \<le> tx_timestampEpoch t" "tx_timestampEpoch t \<le> tx_timestampEpoch (?s ! (length ?s - 1))"
    using sorted_nth_mono [OF sorted, of 0 k] sorted_nth_mono [OF sorted, of k "length ?s - 1"] k less_le_trans [of 0 "Suc k" "length ?s"]
    by (auto simp del: by_timestamp_simps)
qed

lemma exchanged_interval_eq:
  assumes "\<forall>t \<in> set ts. \<exists>r. exchanged_amounts cx t = Inr r"
  shows "useExchangedIntervalTransactions cx ts d =
    Inr (\<lparr>xs_exchanged = concat (map (exchanged_of cx) ts), xs_currency = sc_displayCurrency cx, xi_interval = d\<rparr>,
      filter (\<lambda>t. exchanged_amounts cx t = Inr None) ts)"
proof -
  have "map_result (exchanged_amounts cx) ts = Inr (map (\<lambda>t. projr (exchanged_amounts cx t)) ts)"
    by (rule map_result_total) (use assms in force)
  then show ?thesis
    using exchanged_of_currency
    by (simp add: useExchangedIntervalTransactions_def useExchangedTransactions_eq xs_transactions_def
        mk_ExchangedIntervalTransactions_eq)
qed

lemma exchanged_one:
  assumes "\<forall>t \<in> set ts. \<exists>r. exchanged_amounts cx t = Inr r"
  shows "map xt_t (concat (map (exchanged_of cx) ts)) = filter (\<lambda>t. exchanged_amounts cx t \<noteq> Inr None) ts"
  using assms by (induction ts) (auto simp: exchanged_of_def split: option.splits)

lemma opening_balance_exchanged: "isOpeningBalance t \<Longrightarrow> exchanged_amounts cx t \<noteq> Inr None"
  by (cases t) (simp_all add: exchanged_amounts_def)

lemma transaction_stats_lemma:
  assumes cal: "calendar_ok cal" and ne: "txs \<noteq> []" and ok: "\<forall>t \<in> set txs. \<exists>r. exchanged_amounts cx t = Inr r"
  shows "\<exists>st (input :: exchanged_interval_transactions). TransactionStats cal cx txs = Inr (Some st) \<and>
    sum_matched (ts_summary st) + length (ts_failed st) = length txs \<and>
    sum_matched (ts_summary st) = sum_personal (ts_summary st) + sum_external (ts_summary st) + sum_transfers (ts_summary st) +
      sum_income (ts_summary st) + length (filter isOpeningBalance txs) \<and>
    mset (map xt_t (xs_exchanged input)) = mset (filter (\<lambda>t. exchanged_amounts cx t \<noteq> Inr None) txs) \<and>
    map_option ks_net (ts_expense st) = (if xs_expenses input = [] then None
      else Some (awc_round (mk_awc (nanos_of (xs_expenses input)) (sc_displayCurrency cx)))) \<and>
    map_option ks_gross (ts_income st) = (if xs_income input = [] then None
      else Some (awc_round (mk_awc (gross_of (xs_income input)) (sc_displayCurrency cx))))"
proof -
  let ?s = "by_timestamp (by_timestamp txs)"
  let ?d = "\<lparr>iv_start = tx_timestampEpoch (?s ! 0), iv_end = tx_timestampEpoch (?s ! (length ?s - 1))\<rparr>"
  let ?xs = "concat (map (exchanged_of cx) ?s)"
  let ?input = "\<lparr>xs_exchanged = ?xs, xs_currency = sc_displayCurrency cx, xi_interval = ?d\<rparr>"
  have s: "mset ?s = mset txs" by (simp add: by_timestamp_def)
  have ok_s: "\<forall>t \<in> set ?s. \<exists>r. exchanged_amounts cx t = Inr r" using ok by simp
  have use: "useExchangedIntervalTransactions cx ?s ?d = Inr (?input, filter (\<lambda>t. exchanged_amounts cx t = Inr None) ?s)"
    by (rule exchanged_interval_eq [OF ok_s])
  have input_ok: "input_ok ?input" using exchanged_of_currency by (fastforce simp: input_ok_def)
  have ne': "by_timestamp txs \<noteq> []" using ne by (metis by_timestamp_simps(2) length_0_conv)
  have bounds: "iv_start ?d \<le> tx_timestampEpoch t \<and> tx_timestampEpoch t \<le> iv_end ?d" if "t \<in> set txs" for t
    using sorted_ends [OF ne', of t] that unfolding interval.select_convs by simp
  have d: "iv_start ?d \<le> iv_end ?d"
    using bounds [of "hd txs"] ne order_trans [of "iv_start ?d" "tx_timestampEpoch (hd txs)" "iv_end ?d"] by simp
  have within: "\<forall>x \<in> set (xs_exchanged ?input). xi_within cal ?input x"
  proof
    fix x assume "x \<in> set (xs_exchanged ?input)"
    then have "xt_t x \<in> set txs" using exchanged_of_currency by fastforce
    then have "iv_start ?d \<le> tx_timestampEpoch (xt_t x) \<and> tx_timestampEpoch (xt_t x) \<le> iv_end ?d" by (rule bounds)
    then show "xi_within cal ?input x" using cal d by (simp add: calendar_ok_def xi_within_def)
  qed
  obtain expense where e: "IncomeOrExenseSection cal StatsExpense ?input = Inr expense"
    "case expense of None \<Rightarrow> xi_expenses cal ?input = []
     | Some st \<Rightarrow> xi_expenses cal ?input \<noteq> [] \<and> ks_net st = awc_round (mk_awc (nanos_of (xi_expenses cal ?input)) (xs_currency ?input)) \<and>
         ks_gross st = awc_round (mk_awc (gross_of (xi_expenses cal ?input)) (xs_currency ?input))"
    using IncomeOrExenseSection_lemma [OF cal input_ok, of StatsExpense, unfolded stats_transactions_def stats_kind.case] by (elim exE conjE)
  obtain income where i: "IncomeOrExenseSection cal StatsIncome ?input = Inr income"
    "case income of None \<Rightarrow> xi_income cal ?input = []
     | Some st \<Rightarrow> xi_income cal ?input \<noteq> [] \<and> ks_net st = awc_round (mk_awc (nanos_of (xi_income cal ?input)) (xs_currency ?input)) \<and>
         ks_gross st = awc_round (mk_awc (gross_of (xi_income cal ?input)) (xs_currency ?input))"
    using IncomeOrExenseSection_lemma [OF cal input_ok, of StatsIncome, unfolded stats_transactions_def stats_kind.case] by (elim exE conjE)
  let ?st = "\<lparr>ts_failed = filter (\<lambda>t. exchanged_amounts cx t = Inr None) ?s, ts_summary = TextSummary cal ?input,
    ts_expense = expense, ts_income = income\<rparr>"
  have st: "TransactionStats cal cx txs = Inr (Some ?st)"
    using ne use e(1) i(1) by (simp add: TransactionStats_def NonEmptyTransactionStats_def Let_def)
  have ts: "map xt_t (xs_exchanged ?input) = filter (\<lambda>t. exchanged_amounts cx t \<noteq> Inr None) ?s"
    using exchanged_one [OF ok_s] by simp
  note counts = TextSummary_lemma [OF within]
  have "length (xs_exchanged ?input) = length (filter (\<lambda>t. exchanged_amounts cx t \<noteq> Inr None) ?s)"
    using arg_cong [OF ts, of length] by simp
  then have total: "sum_matched (ts_summary ?st) + length (ts_failed ?st) = length txs"
    using sum_length_filter_compl [of "\<lambda>t. exchanged_amounts cx t = Inr None" ?s]
    unfolding transaction_stats.select_convs counts(1) by simp
  have "length (filter isOpeningBalance (map xt_t (xs_exchanged ?input))) = length (filter isOpeningBalance txs)"
  proof -
    have "filter isOpeningBalance (map xt_t (xs_exchanged ?input)) = filter isOpeningBalance ?s"
      unfolding ts filter_filter using opening_balance_exchanged by (intro filter_cong refl) blast
    then show ?thesis using s by (metis mset_filter size_mset)
  qed
  then have kinds: "sum_matched (ts_summary ?st) = sum_personal (ts_summary ?st) + sum_external (ts_summary ?st) +
      sum_transfers (ts_summary ?st) + sum_income (ts_summary ?st) + length (filter isOpeningBalance txs)"
    using counted_kinds [of "map xt_t (xs_exchanged ?input)"]
    unfolding transaction_stats.select_convs counts length_map by simp
  note inside = all_within [OF within]
  have mset: "mset (map xt_t (xs_exchanged ?input)) = mset (filter (\<lambda>t. exchanged_amounts cx t \<noteq> Inr None) txs)"
    unfolding ts using s by simp
  have cur: "xs_currency ?input = sc_displayCurrency cx" by simp
  have net: "map_option ks_net (ts_expense ?st) = (if xs_expenses ?input = [] then None
      else Some (awc_round (mk_awc (nanos_of (xs_expenses ?input)) (sc_displayCurrency cx))))"
    using e(2) unfolding inside cur transaction_stats.select_convs by (cases expense) (simp_all only: option.simps if_True if_False simp_thms)
  have gross: "map_option ks_gross (ts_income ?st) = (if xs_income ?input = [] then None
      else Some (awc_round (mk_awc (gross_of (xs_income ?input)) (sc_displayCurrency cx))))"
    using i(2) unfolding inside cur transaction_stats.select_convs by (cases income) (simp_all only: option.simps if_True if_False simp_thms)
  show ?thesis by (intro exI [of _ ?st] exI [of _ ?input] conjI st total kinds mset net gross)
qed

section \<open>Properties\<close>



text \<open>
  The statistics of a list of transactions. Whenever no exchange throws they render, for any
  non-empty list: every transaction is matched or reported as failed; the matched ones are the personal
  and external expenses, the transfers, the income and the opening balances; and the totals shown are the
  rounded sums over the expenses, or over the income, of what all parties and the user alone paid.
\<close>
theorem transaction_stats_complete:
  assumes "calendar_ok cal" "txs \<noteq> []" "\<forall>t \<in> set txs. \<exists>r. exchanged_amounts cx t = Inr r"
  shows "\<exists>st (input :: exchanged_interval_transactions). TransactionStats cal cx txs = Inr (Some st) \<and>
    sum_matched (ts_summary st) + length (ts_failed st) = length txs \<and>
    sum_matched (ts_summary st) = sum_personal (ts_summary st) + sum_external (ts_summary st) + sum_transfers (ts_summary st) +
      sum_income (ts_summary st) + length (filter isOpeningBalance txs) \<and>
    mset (map xt_t (xs_exchanged input)) = mset (filter (\<lambda>t. exchanged_amounts cx t \<noteq> Inr None) txs) \<and>
    map_option ks_net (ts_expense st) = (if xs_expenses input = [] then None
      else Some (awc_round (mk_awc (nanos_of (xs_expenses input)) (sc_displayCurrency cx)))) \<and>
    map_option ks_gross (ts_income st) = (if xs_income input = [] then None
      else Some (awc_round (mk_awc (gross_of (xs_income input)) (sc_displayCurrency cx))))"
  by (rule transaction_stats_lemma [OF assms])

theorem transaction_stats_complete_witness:
  "\<exists>st. TransactionStats ten_ms_calendar sample_stats (sc_transactions sample_stats) = Inr (Some st) \<and>
     sum_matched (ts_summary st) + length (ts_failed st) = 3"
proof -
  have amounts: "list_all (\<lambda>t. \<not> isl (exchanged_amounts sample_stats t)) (sc_transactions sample_stats)"
    by code_simp
  have "\<forall>t \<in> set (sc_transactions sample_stats). \<exists>r. exchanged_amounts sample_stats t = Inr r"
    using amounts unfolding list_all_iff isl_def by (metis sum.exhaust)
  moreover have "sc_transactions sample_stats \<noteq> []" "length (sc_transactions sample_stats) = 3"
    by (simp_all add: sample_stats_def)
  ultimately show ?thesis
    using transaction_stats_complete [OF calendar_ok_ten_ms, of "sc_transactions sample_stats" sample_stats] by metis
qed

end
