(* ===== verification/ClientModel.thy ===== *)
theory ClientModel
  imports Balances
begin

text \<open>
  Building the client's data model from the messages of the backend: the second half of
  \<open>lib/ClientSideModel.tsx\<close>.
\<close>

section \<open>Banks, accounts and stocks\<close>

record pb_stock =
  pbs_exchange :: string
  pbs_ticker :: string
  pbs_name :: string
  pbs_currencyCode :: string

definition stockModelFromDB :: "pb_stock \<Rightarrow> stock" where
  "stockModelFromDB init =
     \<lparr>sk_exchange = pbs_exchange init, sk_ticker = pbs_ticker init, stock_name = pbs_name init,
      stock_currencyCode = pbs_currencyCode init\<rparr>"

definition mustBank :: "bank option \<Rightarrow> int \<Rightarrow> bank result" where
  "mustBank b i = or_throw b (BankNotFound i)"

text \<open>
  The order of accounts looks the banks up by account id. Every account has an entry by then, so
  the \<open>throw\<close> inside the comparator is never reached; the last branch stands for it.
\<close>

definition compareAccounts :: "(int, bank) js_map \<Rightarrow> bank_account \<Rightarrow> bank_account \<Rightarrow> int" where
  "compareAccounts bankByBankAccountId a b =
     (case (jm_get bankByBankAccountId (acc_id a), jm_get bankByBankAccountId (acc_id b)) of
        (Some bankA, Some bankB) \<Rightarrow>
          if bank_displayOrder bankA \<noteq> bank_displayOrder bankB
          then bank_displayOrder bankA - bank_displayOrder bankB
          else acc_displayOrder a - acc_displayOrder b
      | _ \<Rightarrow> 0)"

definition banksModelFromDatabaseData ::
  "pb_bank list \<Rightarrow> pb_bank_account list \<Rightarrow> pb_stock list \<Rightarrow> (bank list \<times> bank_account list \<times> stock list) result" where
  "banksModelFromDatabaseData dbBanks dbBankAccounts dbStocks =
     (let stocks = map stockModelFromDB dbStocks;
          banks = js_sort (by_key bank_displayOrder) (map bankModelFromDB dbBanks);
          bankAccounts = map bankAccountModelFromDB dbBankAccounts;
          bankById = jm_of_entries (map (\<lambda>b. (bank_id b, b)) banks)
      in bind_result (map_result (\<lambda>a.
             bind_result (mustBank (jm_get bankById (acc_bankId a)) (acc_bankId a)) (\<lambda>b.
               Inr (acc_id a, b))) bankAccounts) (\<lambda>entries.
           let bankByBankAccountId = jm_of_entries entries
           in Inr (banks, js_sort (compareAccounts bankByBankAccountId) bankAccounts, stocks)))"

section \<open>Transactions\<close>

text \<open>The versions of a transaction share an \<open>iid\<close>; a later version names the one it supersedes.\<close>

definition superseded_set :: "pb_transaction list \<Rightarrow> int list" where
  "superseded_set transactions =
     foldl (\<lambda>s tx. case truthy_id (ptx_supersedesId tx) of None \<Rightarrow> s | Some i \<Rightarrow> js_set_add i s) [] transactions"

definition latestVersionOnly :: "pb_transaction list \<Rightarrow> pb_transaction list result" where
  "latestVersionOnly transactions =
     (let superseded = superseded_set transactions;
          active = filter (\<lambda>tx. ptx_id tx \<notin> set superseded \<and> \<not> ptx_isVoid tx) transactions;
          iidCounts = foldl (\<lambda>m tx. am_increment (+) (0 :: nat) (ptx_iid tx) 1 m) [] active
      in case find (\<lambda>(iid, cnt). cnt \<noteq> 1) iidCounts of
           Some (iid, cnt) \<Rightarrow> Inl (SeveralActiveVersions iid cnt)
         | None \<Rightarrow> Inr active)"

definition compareTransactions :: "transaction \<Rightarrow> transaction \<Rightarrow> rat" where
  "compareTransactions a b =
     (if tx_timestampEpoch b \<noteq> tx_timestampEpoch a then tx_timestampEpoch b - tx_timestampEpoch a
      else if tx_id b \<noteq> tx_id a then of_int (tx_id b - tx_id a)
      else 0)"

record get_transactions_response =
  gtr_transactions :: "pb_transaction list"
  gtr_links :: "pb_transaction_link list"
  gtr_ledgerAccounts :: "ledger_account list"

record transaction_data_model =
  tdm_transactions :: "transaction list"
  tdm_transactionLinks :: "transaction_link list"

definition transactionDataModelFromDB :: "get_transactions_response \<Rightarrow> transaction_data_model result" where
  "transactionDataModelFromDB dbData =
     bind_result (latestVersionOnly (gtr_transactions dbData)) (\<lambda>active.
     bind_result (map_result (\<lambda>tx. transactionModelFromDB tx (gtr_ledgerAccounts dbData)) active) (\<lambda>txs.
       let transactions = js_sort compareTransactions txs
       in bind_result (transactionLinkModelFromDB (gtr_links dbData) transactions (gtr_transactions dbData))
            (\<lambda>links. Inr \<lparr>tdm_transactions = transactions, tdm_transactionLinks = links\<rparr>)))"

section \<open>Core data, market data and everything at once\<close>

record core_data =
  cd_banks :: "pb_bank list"
  cd_bankAccounts :: "pb_bank_account list"
  cd_stocks :: "pb_stock list"
  cd_categories :: "pb_category list"
  cd_trips :: "pb_trip list"
  cd_tags :: "tag list"

record core_data_model =
  cdm_categories :: "category list"
  cdm_banks :: "bank list"
  cdm_bankAccounts :: "bank_account list"
  cdm_stocks :: "stock list"
  cdm_trips :: "trip list"
  cdm_tags :: "tag list"

definition coreModelFromDB :: "core_data \<Rightarrow> core_data_model result" where
  "coreModelFromDB dbData =
     bind_result (sortCategories (map categoryModelFromDB (cd_categories dbData))) (\<lambda>categories.
     bind_result (banksModelFromDatabaseData (cd_banks dbData) (cd_bankAccounts dbData) (cd_stocks dbData))
       (\<lambda>(banks, bankAccounts, stocks).
     bind_result (map_result tripModelFromDB (cd_trips dbData)) (\<lambda>trips.
       let tags = map tagModelFromDB (cd_tags dbData)
       in Inr \<lparr>cdm_categories = categories, cdm_banks = banks, cdm_bankAccounts = bankAccounts,
            cdm_stocks = stocks, cdm_trips = trips, cdm_tags = tags\<rparr>)))"

record market_data =
  md_rates :: "pb_exchange_rate list"
  md_quotes :: "pb_stock_quote list"

definition marketModelFromDB :: "rat \<Rightarrow> market_data \<Rightarrow> stock_and_currency_exchange result" where
  "marketModelFromDB now dbData =
     bind_result (mk_ExchangeRates now (md_rates dbData)) (\<lambda>er.
     bind_result (mk_StockQuotes now (md_quotes dbData)) (\<lambda>sq.
       Inr \<lparr>exchangeRates = er, stockQuotes = sq\<rparr>))"

record all_client_data_model =
  acd_core :: core_data_model
  acd_transactions :: "transaction list"
  acd_exchange :: stock_and_currency_exchange
  acd_transactionLinks :: "transaction_link list"

definition modelFromDatabaseData ::
  "rat \<Rightarrow> core_data \<Rightarrow> get_transactions_response \<Rightarrow> market_data \<Rightarrow> all_client_data_model result" where
  "modelFromDatabaseData now core tx market =
     bind_result (sortCategories (map categoryModelFromDB (cd_categories core))) (\<lambda>categories.
     bind_result (mk_ExchangeRates now (md_rates market)) (\<lambda>er.
     bind_result (mk_StockQuotes now (md_quotes market)) (\<lambda>sq.
     bind_result (banksModelFromDatabaseData (cd_banks core) (cd_bankAccounts core) (cd_stocks core))
       (\<lambda>(banks, bankAccounts, stocks).
     bind_result (map_result tripModelFromDB (cd_trips core)) (\<lambda>trips.
     bind_result (latestVersionOnly (gtr_transactions tx)) (\<lambda>active.
     bind_result (map_result (\<lambda>t. transactionModelFromDB t (gtr_ledgerAccounts tx)) active) (\<lambda>txs.
       let transactions = js_sort compareTransactions txs
       in bind_result (transactionLinkModelFromDB (gtr_links tx) transactions (gtr_transactions tx)) (\<lambda>links.
         Inr \<lparr>acd_core = \<lparr>cdm_categories = categories, cdm_banks = banks, cdm_bankAccounts = bankAccounts,
                cdm_stocks = stocks, cdm_trips = trips, cdm_tags = map tagModelFromDB (cd_tags core)\<rparr>,
              acd_transactions = transactions,
              acd_exchange = \<lparr>exchangeRates = er, stockQuotes = sq\<rparr>,
              acd_transactionLinks = links\<rparr>))))))))"

section \<open>Order of accounts\<close>

lemma js_comparator_key: "js_comparator cmp \<Longrightarrow> js_comparator (\<lambda>a b. cmp (k a) (k b))"
  unfolding js_comparator_def by blast

definition account_key :: "(int, bank) js_map \<Rightarrow> bank_account \<Rightarrow> int \<times> int" where
  "account_key m a = (bank_displayOrder (the (jm_get m (acc_id a))), acc_displayOrder a)"

lemma compareAccounts_key:
  assumes "jm_get m (acc_id a) \<noteq> None" "jm_get m (acc_id b) \<noteq> None"
  shows "compareAccounts m a b = byDisplayOrderThenId (account_key m a) (account_key m b)"
  using assms by (auto simp: compareAccounts_def byDisplayOrderThenId_def account_key_def)

text \<open>The bank of an account with a unique id.\<close>

definition bank_order :: "bank list \<Rightarrow> bank_account \<Rightarrow> int" where
  "bank_order banks a = bank_displayOrder (the (find (\<lambda>b. bank_id b = acc_bankId a) banks))"

lemma banksModel_lemma:
  assumes res: "banksModelFromDatabaseData dbBanks dbAccounts dbStocks = Inr (banks, accounts, stocks)"
    and banks_distinct: "distinct (map pbb_id dbBanks)" and accounts_distinct: "distinct (map pba_id dbAccounts)"
  shows "mset accounts = mset (map bankAccountModelFromDB dbAccounts) \<and>
    mset banks = mset (map bankModelFromDB dbBanks) \<and> sorted (map bank_displayOrder banks) \<and>
    (\<forall>a \<in> set accounts. \<exists>b \<in> set banks. bank_id b = acc_bankId a) \<and>
    sorted_wrt (\<lambda>a b. bank_order banks a < bank_order banks b \<or>
      bank_order banks a = bank_order banks b \<and> acc_displayOrder a \<le> acc_displayOrder b) accounts"
proof -
  let ?accounts = "map bankAccountModelFromDB dbAccounts"
  define bankById where "bankById = jm_of_entries (map (\<lambda>b. (bank_id b, b)) banks)"
  obtain entries where entries: "map_result (\<lambda>a.
             bind_result (mustBank (jm_get bankById (acc_bankId a)) (acc_bankId a)) (\<lambda>b.
               Inr (acc_id a, b))) ?accounts = Inr entries"
    and banks: "banks = sort_key bank_displayOrder (map bankModelFromDB dbBanks)"
    and acc: "accounts = js_sort (compareAccounts (jm_of_entries entries)) ?accounts"
    using res by (auto simp: banksModelFromDatabaseData_def Let_def result_simps bankById_def)
  define m where "m = jm_of_entries entries"
  have bd: "distinct (map bank_id banks)"
  proof -
    have "mset (map bank_id banks) = mset (map pbb_id dbBanks)"
      unfolding banks by (simp add: bankModelFromDB_def multiset.map_comp comp_def)
    then show ?thesis using banks_distinct by (metis mset_eq_imp_distinct_iff)
  qed
  have byId: "jm_get bankById i = find (\<lambda>b. bank_id b = i) banks" for i
  proof (cases "find (\<lambda>b. bank_id b = i) banks")
    case None
    then have "find (\<lambda>b. bank_id b = i) (rev banks) = None" by (simp add: find_None_iff)
    then show ?thesis using None by (simp add: bankById_def jm_get_index)
  next
    case (Some b)
    then have "b \<in> set banks" "bank_id b = i" by (auto dest: find_eq_key_Some)
    then show ?thesis using jm_get_index_distinct [OF bd, of b "\<lambda>b. b"] Some by (simp add: bankById_def)
  qed
  have "list_all2 (\<lambda>a e. \<exists>b. jm_get bankById (acc_bankId a) = Some b \<and> e = (acc_id a, b)) ?accounts entries"
    using entries unfolding map_result_Inr_iff mustBank_def
    by (rule list_all2_mono) (auto simp: result_simps)
  then have all: "entries = map (\<lambda>a. (acc_id a, the (jm_get bankById (acc_bankId a)))) ?accounts \<and>
      (\<forall>a \<in> set ?accounts. jm_get bankById (acc_bankId a) \<noteq> None)"
    by (induction rule: list_all2_induct) auto
  have "distinct (map acc_id ?accounts)"
    using accounts_distinct by (simp add: bankAccountModelFromDB_def comp_def)
  then have m: "jm_get m (acc_id a) = Some (the (jm_get bankById (acc_bankId a)))" if "a \<in> set ?accounts" for a
    unfolding m_def conjunct1 [OF all]
    using jm_get_index_distinct [of acc_id ?accounts a "\<lambda>a. the (jm_get bankById (acc_bankId a))"] that by simp
  have key: "account_key m a = (bank_order banks a, acc_displayOrder a)" if "a \<in> set ?accounts" for a
    using m [OF that] byId by (simp add: account_key_def bank_order_def)
  have "accounts = js_sort (\<lambda>a b. byDisplayOrderThenId (account_key m a) (account_key m b)) ?accounts"
    unfolding acc m_def [symmetric]
    by (rule js_sort_cong) (use m in \<open>auto simp: compareAccounts_key\<close>)
  moreover have "sorted_wrt (\<lambda>a b. byDisplayOrderThenId (account_key m a) (account_key m b) \<le> 0)
      (js_sort (\<lambda>a b. byDisplayOrderThenId (account_key m a) (account_key m b)) ?accounts)"
    by (rule js_comparator.sorted, rule js_comparator_key, rule display_order.js_comparator_axioms)
  ultimately have "sorted_wrt (\<lambda>a b. byDisplayOrderThenId (account_key m a) (account_key m b) \<le> 0) accounts"
    by simp
  moreover have "set accounts = set ?accounts" unfolding acc by simp
  ultimately have "sorted_wrt (\<lambda>a b. bank_order banks a < bank_order banks b \<or>
      bank_order banks a = bank_order banks b \<and> acc_displayOrder a \<le> acc_displayOrder b) accounts"
    by (elim sorted_wrt_mono_rel [rotated]) (auto simp: key byDisplayOrderThenId_def split: if_splits)
  moreover have "\<forall>a \<in> set accounts. \<exists>b \<in> set banks. bank_id b = acc_bankId a"
  proof
    fix a assume "a \<in> set accounts"
    then have "jm_get bankById (acc_bankId a) \<noteq> None" using all \<open>set accounts = set ?accounts\<close> by blast
    then show "\<exists>b \<in> set banks. bank_id b = acc_bankId a" unfolding byId by (auto simp: find_None_iff)
  qed
  moreover have "sorted (map bank_displayOrder banks)" unfolding banks by simp
  ultimately show ?thesis using acc banks by simp
qed

section \<open>Versions\<close>

lemma set_superseded_set: "set (superseded_set txs) = {i. i \<noteq> 0 \<and> (\<exists>t \<in> set txs. ptx_supersedesId t = Some i)}"
proof -
  have "set (foldl (\<lambda>s tx. case truthy_id (ptx_supersedesId tx) of None \<Rightarrow> s | Some i \<Rightarrow> js_set_add i s) s txs) =
      set s \<union> {i. i \<noteq> 0 \<and> (\<exists>t \<in> set txs. ptx_supersedesId t = Some i)}" for s
    by (induction txs arbitrary: s) (auto simp: js_set_add_def split: option.splits)
  from this [of "[]"] show ?thesis by (simp add: superseded_set_def)
qed

interpretation count_map: append_map "(+)" "0 :: nat"
  by unfold_locales auto

definition is_active :: "pb_transaction list \<Rightarrow> pb_transaction \<Rightarrow> bool" where
  "is_active txs tx \<longleftrightarrow> \<not> ptx_isVoid tx \<and> (ptx_id tx = 0 \<or> (\<forall>t \<in> set txs. ptx_supersedesId t \<noteq> Some (ptx_id tx)))"

lemma iid_counts:
  fixes xs :: "pb_transaction list"
  defines "m \<equiv> foldl (\<lambda>m tx. am_increment (+) (0 :: nat) (ptx_iid tx) 1 m) [] xs"
  shows "jm_ok m" "jm_get m k = (if k \<in> ptx_iid ` set xs then Some (count (mset (map ptx_iid xs)) k) else None)"
proof -
  have "jm_ok (foldl (\<lambda>m tx. am_increment (+) (0 :: nat) (ptx_iid tx) 1 m) m0 xs)" if "jm_ok m0" for m0
    using that by (induction xs arbitrary: m0) (auto simp: am_increment_def Let_def)
  then show "jm_ok m" by (simp add: m_def)
  show "jm_get m k = (if k \<in> ptx_iid ` set xs then Some (count (mset (map ptx_iid xs)) k) else None)"
    unfolding m_def
  proof (induction xs rule: rev_induct)
    case (snoc x xs)
    have "count (mset (map ptx_iid xs)) k = 0" if "k \<notin> ptx_iid ` set xs"
      using that by (simp add: count_eq_zero_iff)
    then show ?case
      using snoc by (auto simp: am_increment_def am_getOrZero_def Let_def)
  qed simp
qed

lemma latestVersionOnly_lemma:
  "distinct (map ptx_iid (filter (is_active txs) txs)) \<Longrightarrow> latestVersionOnly txs = Inr (filter (is_active txs) txs)"
  "(\<exists>e. latestVersionOnly txs = Inl e) \<longleftrightarrow> \<not> distinct (map ptx_iid (filter (is_active txs) txs))"
proof -
  let ?active = "filter (is_active txs) txs"
  define m where "m = foldl (\<lambda>m tx. am_increment (+) (0 :: nat) (ptx_iid tx) 1 m) [] ?active"
  have act: "filter (\<lambda>tx. ptx_id tx \<notin> set (superseded_set txs) \<and> \<not> ptx_isVoid tx) txs = ?active"
    by (rule filter_cong) (auto simp: is_active_def set_superseded_set)
  have eq: "latestVersionOnly txs = (case find (\<lambda>(iid, cnt). cnt \<noteq> 1) m of
           Some (iid, cnt) \<Rightarrow> Inl (SeveralActiveVersions iid cnt) | None \<Rightarrow> Inr ?active)"
    unfolding latestVersionOnly_def Let_def act m_def ..
  have "find (\<lambda>(iid, cnt). cnt \<noteq> 1) m = None \<longleftrightarrow> (\<forall>k v. jm_get m k = Some v \<longrightarrow> v = 1)"
    using jm_entry_iff [of m] iid_counts(1) [of ?active] by (auto simp: find_None_iff m_def)
  also have "\<dots> \<longleftrightarrow> distinct (map ptx_iid ?active)"
    unfolding distinct_count_atmost_1 m_def iid_counts(2) by (auto simp: count_eq_zero_iff)
  finally have none: "find (\<lambda>(iid, cnt). cnt \<noteq> 1) m = None \<longleftrightarrow> distinct (map ptx_iid ?active)" .
  show "distinct (map ptx_iid ?active) \<Longrightarrow> latestVersionOnly txs = Inr ?active"
    unfolding eq none [symmetric] by simp
  show "(\<exists>e. latestVersionOnly txs = Inl e) \<longleftrightarrow> \<not> distinct (map ptx_iid ?active)"
    using none unfolding eq by (auto split: option.splits)
qed

section \<open>Order of transactions\<close>

interpretation tx_order: js_comparator compareTransactions
  by unfold_locales (auto simp: compareTransactions_def split: if_splits)

lemma compareTransactions_le:
  "compareTransactions a b \<le> 0 \<longleftrightarrow> tx_timestampEpoch b < tx_timestampEpoch a \<or>
     tx_timestampEpoch b = tx_timestampEpoch a \<and> tx_id b \<le> tx_id a"
  by (auto simp: compareTransactions_def)

lemma transactionDataModel_lemma:
  assumes "transactionDataModelFromDB db = Inr model"
  shows "sorted_wrt (\<lambda>a b. tx_timestampEpoch b < tx_timestampEpoch a \<or>
      tx_timestampEpoch b = tx_timestampEpoch a \<and> tx_id b \<le> tx_id a) (tdm_transactions model) \<and>
    (\<exists>txs. list_all2 (\<lambda>p t. transactionModelFromDB p (gtr_ledgerAccounts db) = Inr t)
        (filter (is_active (gtr_transactions db)) (gtr_transactions db)) txs \<and> mset (tdm_transactions model) = mset txs) \<and>
    distinct (map ptx_iid (filter (is_active (gtr_transactions db)) (gtr_transactions db))) \<and>
    transactionLinkModelFromDB (gtr_links db) (tdm_transactions model) (gtr_transactions db) =
      Inr (tdm_transactionLinks model)"
proof -
  obtain active txs where active: "latestVersionOnly (gtr_transactions db) = Inr active"
    and txs: "map_result (\<lambda>tx. transactionModelFromDB tx (gtr_ledgerAccounts db)) active = Inr txs"
    and model: "tdm_transactions model = js_sort compareTransactions txs"
      "transactionLinkModelFromDB (gtr_links db) (tdm_transactions model) (gtr_transactions db) =
        Inr (tdm_transactionLinks model)"
    using assms by (auto simp: transactionDataModelFromDB_def result_simps Let_def)
  have "\<not> (\<exists>e. latestVersionOnly (gtr_transactions db) = Inl e)" using active by simp
  then have dist: "distinct (map ptx_iid (filter (is_active (gtr_transactions db)) (gtr_transactions db)))"
    using latestVersionOnly_lemma(2) by blast
  then have "active = filter (is_active (gtr_transactions db)) (gtr_transactions db)"
    using latestVersionOnly_lemma(1) [OF dist] active by simp
  moreover have "sorted_wrt (\<lambda>a b. compareTransactions a b \<le> 0) (tdm_transactions model)"
    unfolding model by (rule tx_order.sorted)
  ultimately show ?thesis
    using txs model dist unfolding compareTransactions_le map_result_Inr_iff by auto
qed

text \<open>Loading everything at once gives the three models loaded on their own.\<close>

lemma modelFromDatabaseData_lemma:
  "modelFromDatabaseData now core tx market = Inr model \<longleftrightarrow>
     coreModelFromDB core = Inr (acd_core model) \<and>
     transactionDataModelFromDB tx =
       Inr \<lparr>tdm_transactions = acd_transactions model, tdm_transactionLinks = acd_transactionLinks model\<rparr> \<and>
     marketModelFromDB now market = Inr (acd_exchange model)"
  by (cases model)
    (fastforce simp: modelFromDatabaseData_def coreModelFromDB_def transactionDataModelFromDB_def
      marketModelFromDB_def result_simps Let_def split: prod.splits)

section \<open>Properties\<close>

text \<open>
  C10: the transactions the client works with. When \<open>transactionModelFromDB\<close> returns a model, its
  transactions are exactly the models of the active versions (not void, not superseded), each
  once, newest first with ties by id; no two active versions share an iid; and the links are those
  computed from them.
\<close>
theorem transaction_model_active:
  assumes "transactionDataModelFromDB db = Inr model"
  shows "sorted_wrt (\<lambda>a b. tx_timestampEpoch b < tx_timestampEpoch a \<or>
      tx_timestampEpoch b = tx_timestampEpoch a \<and> tx_id b \<le> tx_id a) (tdm_transactions model) \<and>
    (\<exists>txs. list_all2 (\<lambda>p t. transactionModelFromDB p (gtr_ledgerAccounts db) = Inr t)
        (filter (is_active (gtr_transactions db)) (gtr_transactions db)) txs \<and> mset (tdm_transactions model) = mset txs) \<and>
    distinct (map ptx_iid (filter (is_active (gtr_transactions db)) (gtr_transactions db))) \<and>
    transactionLinkModelFromDB (gtr_links db) (tdm_transactions model) (gtr_transactions db) =
      Inr (tdm_transactionLinks model)"
  by (rule transactionDataModel_lemma [OF assms])

definition sample_response :: get_transactions_response where
  "sample_response = \<lparr>gtr_transactions = [sample_pb_transfer\<lparr>ptx_id := 2, ptx_iid := 1\<rparr>,
      sample_pb_transfer\<lparr>ptx_id := 3, ptx_iid := 1, ptx_supersedesId := Some 2\<rparr>],
     gtr_links = [], gtr_ledgerAccounts = sample_ledger\<rparr>"

theorem transaction_model_active_witness:
  "\<exists>model. transactionDataModelFromDB sample_response = Inr model \<and>
     distinct (map ptx_iid (filter (is_active (gtr_transactions sample_response)) (gtr_transactions sample_response)))"
proof -
  have "\<not> isl (transactionDataModelFromDB sample_response)" by code_simp
  then obtain model where "transactionDataModelFromDB sample_response = Inr model"
    by (cases "transactionDataModelFromDB sample_response") auto
  with transaction_model_active [OF this] show ?thesis by blast
qed

text \<open>
  Only the latest versions. \<open>latestVersionOnly\<close> keeps the versions that are neither void nor
  superseded, in order, and throws exactly when two of them share an iid.
\<close>
theorem latestVersionOnly_active:
  "if distinct (map ptx_iid (filter (is_active txs) txs))
   then latestVersionOnly txs = Inr (filter (is_active txs) txs)
   else \<exists>e. latestVersionOnly txs = Inl e"
  using latestVersionOnly_lemma [of txs] by auto

text \<open>
  Banks and accounts. Loading keeps every bank and account, orders the banks by their display
  order and the accounts by the display order of their bank and then their own, and guarantees a
  known bank for every account.
\<close>
theorem banks_and_accounts_sorted:
  assumes "banksModelFromDatabaseData dbBanks dbAccounts dbStocks = Inr (banks, accounts, stocks)"
    and "distinct (map pbb_id dbBanks)" "distinct (map pba_id dbAccounts)"
  shows "mset accounts = mset (map bankAccountModelFromDB dbAccounts) \<and>
    mset banks = mset (map bankModelFromDB dbBanks) \<and> sorted (map bank_displayOrder banks) \<and>
    (\<forall>a \<in> set accounts. \<exists>b \<in> set banks. bank_id b = acc_bankId a) \<and>
    sorted_wrt (\<lambda>a b. bank_order banks a < bank_order banks b \<or>
      bank_order banks a = bank_order banks b \<and> acc_displayOrder a \<le> acc_displayOrder b) accounts"
  by (rule banksModel_lemma [OF assms])

theorem banks_and_accounts_sorted_witness:
  "\<exists>banks accounts stocks. banksModelFromDatabaseData
      [\<lparr>pbb_id = 1, pbb_name = ''B'', pbb_displayOrder = 2\<rparr>, \<lparr>pbb_id = 2, pbb_name = ''A'', pbb_displayOrder = 1\<rparr>] [] []
      = Inr (banks, accounts, stocks) \<and> sorted (map bank_displayOrder banks)"
proof -
  let ?bs = "[\<lparr>pbb_id = 1, pbb_name = ''B'', pbb_displayOrder = 2\<rparr>, \<lparr>pbb_id = 2, pbb_name = ''A'', pbb_displayOrder = 1\<rparr>]"
  have "\<exists>banks accounts stocks. banksModelFromDatabaseData ?bs [] [] = Inr (banks, accounts, stocks)"
    by (simp add: banksModelFromDatabaseData_def Let_def)
  then obtain banks accounts stocks where "banksModelFromDatabaseData ?bs [] [] = Inr (banks, accounts, stocks)"
    by blast
  with banks_and_accounts_sorted [OF this] show ?thesis by auto
qed

text \<open>
  The two ways to build the client data agree. Loading everything at once succeeds with a model
  exactly when loading the core data, the transactions and the market data separately succeeds
  with its parts.
\<close>
theorem all_data_in_parts:
  "modelFromDatabaseData now core tx market = Inr model \<longleftrightarrow>
     coreModelFromDB core = Inr (acd_core model) \<and>
     transactionDataModelFromDB tx =
       Inr \<lparr>tdm_transactions = acd_transactions model, tdm_transactionLinks = acd_transactionLinks model\<rparr> \<and>
     marketModelFromDB now market = Inr (acd_exchange model)"
  by (rule modelFromDatabaseData_lemma)

end
