(* ===== verification/Suggestions.thy ===== *)
theory Suggestions
  imports ClientModel "HOL-Library.Char_ord" "HOL-Library.List_Lexorder"
begin

text \<open>
  Drafts the backend suggests: \<open>lib/txsuggestions/candidate.ts\<close>, \<open>lib/txsuggestions/draft.ts\<close> and
  the logic of \<open>components/txform/NewTransactionSuggestions.tsx\<close>: grouping by account, the list with
  its limit (a state machine), titles and signed amounts. Strings are ordered by their characters,
  as the default \<open>Array.prototype.sort\<close> does.
\<close>

section \<open>Candidates\<close>

record 'v candidate =
  cand_confidence :: rat
  cand_value :: 'v

fun more_confident :: "'v candidate option \<Rightarrow> 'v candidate \<Rightarrow> 'v candidate option" where
  "more_confident None c = Some c"
| "more_confident (Some best) c = (if cand_confidence c > cand_confidence best then Some c else Some best)"

definition winner :: "'v candidate list \<Rightarrow> 'v candidate option" where
  "winner cs = foldl more_confident None cs"

text \<open>\<open>winnerString\<close>, \<open>winnerId\<close>, \<open>winnerMoneyNanos\<close> and the others read the winner's value.\<close>

definition winner_value :: "'v candidate list \<Rightarrow> 'v option" where
  "winner_value cs = map_option cand_value (winner cs)"

definition winner_or :: "'v candidate list \<Rightarrow> 'v \<Rightarrow> 'v" where
  "winner_or cs f = (case winner_value cs of None \<Rightarrow> f | Some v \<Rightarrow> v)"

definition winnerMoneyDollar :: "int candidate list \<Rightarrow> rat \<Rightarrow> rat" where
  "winnerMoneyDollar cs f = (case winner_value cs of None \<Rightarrow> f | Some nanos \<Rightarrow> nanosToDollar nanos)"

text \<open>The value of a timestamp or tags candidate is a message, which may be missing.\<close>

definition winnerTimestamp :: "timestamp option candidate list \<Rightarrow> timestamp option" where
  "winnerTimestamp cs = Option.bind (winner cs) cand_value"

definition winnerTags :: "string list option candidate list \<Rightarrow> string list \<Rightarrow> string list" where
  "winnerTags cs f = (case Option.bind (winner cs) cand_value of None \<Rightarrow> f | Some names \<Rightarrow> names)"

lemma winner_foldl:
  "foldl more_confident (Some b) cs = Some w \<Longrightarrow>
   (\<exists>pre post. b # cs = pre @ w # post \<and> (\<forall>c \<in> set pre. cand_confidence c < cand_confidence w) \<and>
      (\<forall>c \<in> set post. cand_confidence c \<le> cand_confidence w))"
proof (induction cs arbitrary: b)
  case (Cons c cs)
  show ?case
  proof (cases "cand_confidence c > cand_confidence b")
    case True
    then obtain pre post where "c # cs = pre @ w # post" "\<forall>c \<in> set pre. cand_confidence c < cand_confidence w"
        "\<forall>c \<in> set post. cand_confidence c \<le> cand_confidence w"
      using Cons by fastforce
    moreover have "cand_confidence b < cand_confidence w"
      using True calculation by (cases pre) auto
    ultimately show ?thesis by (intro exI [of _ "b # pre"] exI [of _ post]) auto
  next
    case False
    then obtain pre post where split: "b # cs = pre @ w # post" "\<forall>c \<in> set pre. cand_confidence c < cand_confidence w"
        "\<forall>c \<in> set post. cand_confidence c \<le> cand_confidence w"
      using Cons by fastforce
    show ?thesis
    proof (cases pre)
      case Nil
      then show ?thesis using split False by (intro exI [of _ "[]"] exI [of _ "c # post"]) auto
    next
      case (Cons d pre')
      then have "cand_confidence c < cand_confidence w" using split False by auto
      then show ?thesis
        using split Cons by (intro exI [of _ "d # c # pre'"] exI [of _ post]) auto
    qed
  qed
qed (auto intro: exI [of _ "[]"])

lemma winner_lemma:
  "winner cs = Some w \<longleftrightarrow>
     (\<exists>pre post. cs = pre @ w # post \<and> (\<forall>c \<in> set pre. cand_confidence c < cand_confidence w) \<and>
        (\<forall>c \<in> set post. cand_confidence c \<le> cand_confidence w))"
proof
  assume "winner cs = Some w"
  then show "\<exists>pre post. cs = pre @ w # post \<and> (\<forall>c \<in> set pre. cand_confidence c < cand_confidence w) \<and>
      (\<forall>c \<in> set post. cand_confidence c \<le> cand_confidence w)"
    using winner_foldl by (cases cs) (auto simp: winner_def)
next
  assume "\<exists>pre post. cs = pre @ w # post \<and> (\<forall>c \<in> set pre. cand_confidence c < cand_confidence w) \<and>
      (\<forall>c \<in> set post. cand_confidence c \<le> cand_confidence w)"
  then obtain pre post where cs: "cs = pre @ w # post" "\<forall>c \<in> set pre. cand_confidence c < cand_confidence w"
      "\<forall>c \<in> set post. cand_confidence c \<le> cand_confidence w" by blast
  have "foldl more_confident b pre \<in> insert b (Some ` set pre)" for b
  proof (induction pre arbitrary: b)
    case (Cons a pre)
    have "more_confident b a = b \<or> more_confident b a = Some a" by (cases b) auto
    then show ?case using Cons [of "more_confident b a"] by auto
  qed simp
  from this [of None] have "more_confident (foldl more_confident None pre) w = Some w" using cs(2) by auto
  moreover have "foldl more_confident (Some w) post = Some w"
    using cs(3) by (induction post) auto
  ultimately show "winner cs = Some w" by (simp add: winner_def cs(1))
qed

section \<open>Drafts\<close>

datatype pb_form_type = FT_UNSPECIFIED | FT_EXPENSE | FT_INCOME | FT_TRANSFER

datatype sharing_type =
  ST_UNSPECIFIED | PAID_SELF_NOT_SHARED | PAID_SELF_SHARED | PAID_OTHER_OWED | PAID_OTHER_REPAID

record origin_key =
  origin_kind :: int
  origin_key :: string

record transaction_draft =
  dr_origins :: "origin_key list"
  dr_recordedTransactionIds :: "int list"
  dr_formType :: "pb_form_type candidate list"
  dr_timestamp :: "timestamp option candidate list"
  dr_amount :: "int candidate list"
  dr_ownShareAmount :: "int candidate list"
  dr_amountReceived :: "int candidate list"
  dr_accountFromId :: "int candidate list"
  dr_accountToId :: "int candidate list"
  dr_categoryId :: "int candidate list"
  dr_vendor :: "string candidate list"
  dr_payer :: "string candidate list"
  dr_description :: "string candidate list"
  dr_companion :: "string candidate list"
  dr_currency :: "string candidate list"
  dr_sharingType :: "sharing_type candidate list"
  dr_tags :: "string list option candidate list"
  dr_tripName :: "string candidate list"
  dr_repaymentCategoryId :: "int candidate list"
  dr_parentTransactionId :: "int candidate list"

text \<open>\<open>today\<close> is \<open>startOfDay(new Date())\<close>.\<close>

definition draftTimestamp :: "int \<Rightarrow> transaction_draft \<Rightarrow> int" where
  "draftTimestamp today draft =
     (case winnerTimestamp (dr_timestamp draft) of
        None \<Rightarrow> today
      | Some ts \<Rightarrow> (case timestampToDate (Some ts) of Inr d \<Rightarrow> d | Inl _ \<Rightarrow> today))"

definition draftAmountDollar :: "transaction_draft \<Rightarrow> rat" where
  "draftAmountDollar draft = nanosToDollar (winner_or (dr_amount draft) 0)"

definition draftTagNames :: "transaction_draft \<Rightarrow> string list" where
  "draftTagNames draft = winnerTags (dr_tags draft) []"

definition draftDescription :: "transaction_draft \<Rightarrow> string option" where
  "draftDescription draft = winner_value (dr_description draft)"

definition draftFormType :: "transaction_draft \<Rightarrow> pb_form_type" where
  "draftFormType draft =
     (case winner_value (dr_formType draft) of
        Some FT_INCOME \<Rightarrow> FT_INCOME
      | Some FT_TRANSFER \<Rightarrow> FT_TRANSFER
      | Some FT_EXPENSE \<Rightarrow> FT_EXPENSE
      | _ \<Rightarrow> FT_EXPENSE)"

definition originIds :: "origin_key list \<Rightarrow> string list" where
  "originIds origins = sort (map (\<lambda>k. string_of_int (origin_kind k) @ '':'' @ origin_key k) origins)"

definition sameEvent :: "transaction_draft \<Rightarrow> transaction_draft \<Rightarrow> bool" where
  "sameEvent a b =
     (let aIds = originIds (dr_origins a);
          bIds = originIds (dr_origins b)
      in length aIds > 0 \<and> length aIds = length bIds \<and> list_all2 (=) aIds bIds)"

definition isRecorded :: "transaction_draft \<Rightarrow> bool" where
  "isRecorded draft \<longleftrightarrow> length (dr_recordedTransactionIds draft) > 0"

lemma draftFormType_cases: "draftFormType draft \<in> {FT_EXPENSE, FT_INCOME, FT_TRANSFER}"
  by (auto simp: draftFormType_def split: option.splits pb_form_type.splits)

definition origin_id :: "origin_key \<Rightarrow> string" where
  "origin_id k = string_of_int (origin_kind k) @ '':'' @ origin_key k"

lemma sameEvent_lemma:
  "sameEvent a b \<longleftrightarrow> dr_origins a \<noteq> [] \<and>
     image_mset origin_id (mset (dr_origins a)) = image_mset origin_id (mset (dr_origins b))"
proof -
  have ids: "originIds ks = sort (map origin_id ks)" for ks
    by (simp add: originIds_def origin_id_def [abs_def])
  have "sort xs = sort ys \<longleftrightarrow> mset xs = mset ys" for xs ys :: "string list"
    by (metis mset_sort properties_for_sort sorted_sort)
  then have "sort (map origin_id (dr_origins a)) = sort (map origin_id (dr_origins b)) \<longleftrightarrow>
      image_mset origin_id (mset (dr_origins a)) = image_mset origin_id (mset (dr_origins b))"
    by simp
  moreover have "sameEvent a b \<longleftrightarrow> dr_origins a \<noteq> [] \<and>
      sort (map origin_id (dr_origins a)) = sort (map origin_id (dr_origins b))"
    unfolding sameEvent_def ids Let_def list.rel_eq by (auto dest: arg_cong [where f = length])
  ultimately show ?thesis by simp
qed

section \<open>Drafts by account\<close>

definition append_draft ::
  "int option \<Rightarrow> transaction_draft \<Rightarrow> (int, transaction_draft list) js_map \<Rightarrow> (int, transaction_draft list) js_map" where
  "append_draft accountId draft byAccount =
     (case truthy_id accountId of
        None \<Rightarrow> byAccount
      | Some i \<Rightarrow> jm_set i (or_empty (jm_get byAccount i) @ [draft]) byAccount)"

definition groupDraftsByAccountId :: "transaction_draft list \<Rightarrow> (int, transaction_draft list) js_map" where
  "groupDraftsByAccountId drafts =
     foldl (\<lambda>byAccount draft.
       append_draft (winner_value (dr_accountToId draft)) draft
         (append_draft (winner_value (dr_accountFromId draft)) draft byAccount)) [] drafts"

definition accounts_with_data :: "bank_account list \<Rightarrow> transaction_draft list \<Rightarrow> bank_account list" where
  "accounts_with_data bankAccounts drafts =
     filter (\<lambda>a. or_empty (jm_get (groupDraftsByAccountId drafts) (acc_id a)) \<noteq> []) bankAccounts"

definition active_account :: "bank_account list \<Rightarrow> transaction_draft list \<Rightarrow> int option \<Rightarrow> bank_account option" where
  "active_account bankAccounts drafts activeAccountId =
     (let accountsWithData = accounts_with_data bankAccounts drafts
      in case find (\<lambda>a. Some (acc_id a) = activeAccountId) accountsWithData of
           Some a \<Rightarrow> Some a
         | None \<Rightarrow> (case accountsWithData of a # _ \<Rightarrow> Some a | [] \<Rightarrow> None))"

lemma append_draft_get:
  "or_empty (jm_get (append_draft i d m) k) =
     or_empty (jm_get m k) @ (if truthy_id i = Some k then [d] else [])"
  by (auto simp: append_draft_def split: option.splits)

lemma groupDrafts_lemma:
  "or_empty (jm_get (groupDraftsByAccountId drafts) k) =
     concat (map (\<lambda>d. (if truthy_id (winner_value (dr_accountFromId d)) = Some k then [d] else []) @
                      (if truthy_id (winner_value (dr_accountToId d)) = Some k then [d] else [])) drafts)"
  unfolding groupDraftsByAccountId_def
  by (induction drafts rule: rev_induct) (simp_all add: append_draft_get)

section \<open>One list of suggestions\<close>

definition draftTimestampEpoch :: "transaction_draft \<Rightarrow> rat" where
  "draftTimestampEpoch draft =
     (case winnerTimestamp (dr_timestamp draft) of
        None \<Rightarrow> 0
      | Some ts \<Rightarrow> (case timestampToEpoch (Some ts) of Inr e \<Rightarrow> e | Inl _ \<Rightarrow> 0))"

definition sorted_items :: "transaction_draft list \<Rightarrow> transaction_draft list" where
  "sorted_items items = js_sort (\<lambda>a b. draftTimestampEpoch b - draftTimestampEpoch a) items"

text \<open>\<open>slice(0, limit)\<close>: a negative end counts from the back.\<close>

definition slice_to :: "int \<Rightarrow> 'a list \<Rightarrow> 'a list" where
  "slice_to end xs = take (nat (if end < 0 then max 0 (int (length xs) + end) else end)) xs"

definition display_items :: "int \<Rightarrow> transaction_draft list \<Rightarrow> transaction_draft list" where
  "display_items limit items = slice_to limit (sorted_items items)"

text \<open>The two buttons, each with the condition under which it is enabled.\<close>

inductive list_step :: "transaction_draft list \<Rightarrow> int \<Rightarrow> int \<Rightarrow> bool" for items where
  show_more: "limit < int (length items) \<Longrightarrow> list_step items limit (min (limit + 5) (int (length items)))"
| show_less: "int (length (display_items limit items)) > 5 \<Longrightarrow> list_step items limit (limit - 5)"

inductive_cases list_stepE: "list_step items limit limit'"

inductive list_reachable :: "transaction_draft list \<Rightarrow> int \<Rightarrow> bool" for items where
  list_start: "list_reachable items 5"
| list_next: "list_reachable items limit \<Longrightarrow> list_step items limit limit' \<Longrightarrow> list_reachable items limit'"

lemma length_sorted_items [simp]: "length (sorted_items items) = length items"
  by (simp add: sorted_items_def)

lemma length_display_items: "0 \<le> limit \<Longrightarrow> int (length (display_items limit items)) = min limit (int (length items))"
  by (simp add: display_items_def slice_to_def of_nat_min min.commute)

lemma list_reachable_lemma:
  "list_reachable items limit \<Longrightarrow> 1 \<le> limit \<and> limit \<le> max 5 (int (length items))"
proof (induction rule: list_reachable.induct)
  case (list_next limit limit')
  from list_next.hyps(2) list_next.IH show ?case
    using length_display_items [of limit items] by (auto elim!: list_stepE)
qed simp

section \<open>One suggestion\<close>

text \<open>The arrow between the accounts of a transfer is a parameter, as strings are ASCII here.\<close>

definition split_with :: "transaction \<Rightarrow> string" where
  "split_with t =
     (case truthy_text (otherPartyNameOrNull t) of None \<Rightarrow> '''' | Some name \<Rightarrow> ''split with '' @ name)"

definition tx_summary :: "string \<Rightarrow> transaction \<Rightarrow> bank_account list \<Rightarrow> bank list \<Rightarrow> string result" where
  "tx_summary arrow t bankAccounts banks =
     (case t of
        PersonalExpense p \<Rightarrow> Inr (pe_vendor p @ '' '' @ split_with t)
      | ThirdPartyExpense e \<Rightarrow> Inr (tp_vendor e @ '' paid by '' @ tp_payer e)
      | Income i \<Rightarrow> Inr (in_payer i @ '' '' @ split_with t)
      | Transfer f \<Rightarrow>
          bind_result (outgoingBankAccount f bankAccounts) (\<lambda>from.
          bind_result (incomingBankAccount f bankAccounts) (\<lambda>to.
          bind_result (fullAccountName from banks) (\<lambda>fromName.
          bind_result (fullAccountName to banks) (\<lambda>toName.
            Inr (fromName @ '' '' @ arrow @ '' '' @ toName)))))
      | OpeningBalance b \<Rightarrow> Inl (UnexpectedOpeningBalance (ob_id b)))"

definition draftTitle :: "transaction_draft \<Rightarrow> string" where
  "draftTitle draft =
     (case draftFormType draft of
        FT_INCOME \<Rightarrow> winner_or (dr_payer draft) ''''
      | FT_TRANSFER \<Rightarrow> winner_or (dr_description draft) ''''
      | _ \<Rightarrow> winner_or (dr_vendor draft) '''')"

definition signedAmountForAccountNanos :: "transaction_draft \<Rightarrow> int \<Rightarrow> int result" where
  "signedAmountForAccountNanos draft accountId =
     (case draftFormType draft of
        FT_INCOME \<Rightarrow> Inr (winner_or (dr_amount draft) 0)
      | FT_EXPENSE \<Rightarrow> Inr (- winner_or (dr_amount draft) 0)
      | FT_TRANSFER \<Rightarrow>
          if winner_value (dr_accountToId draft) = Some accountId
          then or_throw (winner_value (dr_amountReceived draft)) AssertionFailed
          else Inr (- winner_or (dr_amount draft) 0)
      | FT_UNSPECIFIED \<Rightarrow> Inl UnknownFormType)"

definition otherAccountId :: "transaction_draft \<Rightarrow> bank_account \<Rightarrow> int option" where
  "otherAccountId draft bankAccount =
     (if draftFormType draft \<noteq> FT_TRANSFER then None
      else if winner_value (dr_accountToId draft) = Some (acc_id bankAccount)
      then winner_value (dr_accountFromId draft)
      else winner_value (dr_accountToId draft))"

lemma signedAmount_lemma:
  "(\<exists>n. signedAmountForAccountNanos draft accountId = Inr n) \<longleftrightarrow>
     \<not> (draftFormType draft = FT_TRANSFER \<and> winner_value (dr_accountToId draft) = Some accountId \<and>
        dr_amountReceived draft = [])"
proof -
  have "winner cs = None \<longleftrightarrow> cs = []" for cs :: "int candidate list"
  proof
    assume "winner cs = None"
    show "cs = []"
    proof (cases cs)
      case (Cons c ds)
      have "foldl more_confident (Some c) ds \<noteq> None" for c
        by (induction ds arbitrary: c) auto
      from this [of c] show ?thesis using \<open>winner cs = None\<close> Cons by (simp add: winner_def)
    qed
  qed (simp add: winner_def)
  then have none: "winner_value cs = None \<longleftrightarrow> cs = []" for cs :: "int candidate list"
    by (simp add: winner_value_def)
  show ?thesis
  proof (cases "draftFormType draft")
    case FT_TRANSFER
    then show ?thesis
      using none [of "dr_amountReceived draft"]
      by (cases "winner_value (dr_amountReceived draft)") (auto simp: signedAmountForAccountNanos_def)
  qed (use draftFormType_cases [of draft] in \<open>simp_all add: signedAmountForAccountNanos_def\<close>)
qed

section \<open>Properties\<close>

text \<open>
  The winning candidate. The winner of a field is the first candidate of maximal confidence;
  there is none exactly when the field has no candidates.
\<close>
theorem winner_first_maximal:
  "winner cs = Some w \<longleftrightarrow>
     (\<exists>pre post. cs = pre @ w # post \<and> (\<forall>c \<in> set pre. cand_confidence c < cand_confidence w) \<and>
        (\<forall>c \<in> set post. cand_confidence c \<le> cand_confidence w))"
  by (rule winner_lemma)

theorem winner_first_maximal_witness:
  "winner [\<lparr>cand_confidence = 1 / 2, cand_value = ''a''\<rparr>, \<lparr>cand_confidence = 3 / 4, cand_value = ''b''\<rparr>,
     \<lparr>cand_confidence = 3 / 4, cand_value = ''c''\<rparr>] = Some \<lparr>cand_confidence = 3 / 4, cand_value = ''b''\<rparr>"
  unfolding winner_first_maximal
  by (rule exI [of _ "[\<lparr>cand_confidence = 1 / 2, cand_value = ''a''\<rparr>]"]) simp

text \<open>
  Two drafts are the same event exactly when the first has an origin and both have the same
  origins, counted with multiplicity and in any order.
\<close>
theorem sameEvent_origins:
  "sameEvent a b \<longleftrightarrow> dr_origins a \<noteq> [] \<and>
     image_mset origin_id (mset (dr_origins a)) = image_mset origin_id (mset (dr_origins b))"
  by (rule sameEvent_lemma)

text \<open>
  The suggestions of an account. The drafts listed under an account are, in the order of the
  drafts, those whose winning source account or winning destination account it is.
\<close>
theorem drafts_of_account:
  "or_empty (jm_get (groupDraftsByAccountId drafts) k) =
     concat (map (\<lambda>d. (if truthy_id (winner_value (dr_accountFromId d)) = Some k then [d] else []) @
                      (if truthy_id (winner_value (dr_accountToId d)) = Some k then [d] else [])) drafts)"
  by (rule groupDrafts_lemma)

text \<open>
  Paging through suggestions. However often the user asks for more or fewer entries, the list
  shows at least one entry when there is one and never more than there are.
\<close>
theorem suggestions_limit:
  assumes "list_reachable items limit"
  shows "1 \<le> limit \<and> limit \<le> max 5 (int (length items)) \<and>
    int (length (display_items limit items)) = min limit (int (length items))"
  using list_reachable_lemma [OF assms] length_display_items [of limit items] by simp

theorem suggestions_limit_witness: "int (length (display_items 5 [])) = 0"
  using suggestions_limit [OF list_start, of "[]"] by simp

end
