(* ===== verification/TxForm.thy ===== *)
theory TxForm
  imports Suggestions Stats
begin

text \<open>
  The transaction form: \<open>components/txform\<close>. The form holds one variant per form type
  (expense, income, transfer). This theory models the variants, the values a form starts from
  (an empty form, a recorded transaction, a suggested draft), the conversions between the
  variants when the user changes the form type, the actions on the sharing type of an expense and
  the values the form computes from other fields.

  A timestamp field holds a \<open>Date\<close> (its time value, \<open>None\<close> for an invalid date) or a string; an
  amount field holds the number its text converts to, \<open>None\<close> for \<open>NaN\<close>. The start of the current
  day, which \<open>date-fns\<close> computes, is the parameter \<open>today\<close>.
\<close>

section \<open>The form variants\<close>

datatype form_date = FDate "int option" | FText string

record repayment_form =
  rp_timestamp :: "form_date option"
  rp_accountId :: "int option"
  rp_categoryId :: "int option"

record expense_form =
  ef_timestamp :: form_date
  ef_amount :: "rat option"
  ef_ownShareAmount :: "rat option"
  ef_accountId :: "int option"
  ef_categoryId :: int
  ef_vendor :: string
  ef_companion :: "string option"
  ef_payer :: "string option"
  ef_currency :: "string option"
  ef_sharingType :: sharing_type
  ef_repayment :: "repayment_form option"
  ef_tagNames :: "string list"
  ef_description :: "string option"
  ef_tripName :: "string option"

record income_form =
  if_timestamp :: form_date
  if_amount :: "rat option"
  if_ownShareAmount :: "rat option"
  if_accountId :: int
  if_categoryId :: int
  if_isShared :: bool
  if_companion :: "string option"
  if_payer :: string
  if_tagNames :: "string list"
  if_description :: "string option"
  if_parentTransactionId :: "int option"

record transfer_form =
  xf_timestamp :: form_date
  xf_amountSent :: "rat option"
  xf_amountReceived :: "rat option"
  xf_fromAccountId :: int
  xf_toAccountId :: int
  xf_categoryId :: int
  xf_description :: "string option"
  xf_tagNames :: "string list"

datatype form_kind = EXPENSE | TRANSFER | INCOME

record transaction_form =
  tf_formType :: form_kind
  tf_expense :: "expense_form option"
  tf_income :: "income_form option"
  tf_transfer :: "transfer_form option"

definition expense_values :: "expense_form \<Rightarrow> transaction_form" where
  "expense_values e = \<lparr>tf_formType = EXPENSE, tf_expense = Some e, tf_income = None, tf_transfer = None\<rparr>"

definition income_values :: "income_form \<Rightarrow> transaction_form" where
  "income_values i = \<lparr>tf_formType = INCOME, tf_expense = None, tf_income = Some i, tf_transfer = None\<rparr>"

definition transfer_values :: "transfer_form \<Rightarrow> transaction_form" where
  "transfer_values t = \<lparr>tf_formType = TRANSFER, tf_expense = None, tf_income = None, tf_transfer = Some t\<rparr>"

lemmas form_values_defs = expense_values_def income_values_def transfer_values_def

text \<open>Exactly the variant of the form type is populated.\<close>

definition form_ok :: "transaction_form \<Rightarrow> bool" where
  "form_ok f \<longleftrightarrow> (\<exists>e. f = expense_values e) \<or> (\<exists>i. f = income_values i) \<or> (\<exists>t. f = transfer_values t)"

lemma form_ok_values [simp]:
  "form_ok (expense_values e)" "form_ok (income_values i)" "form_ok (transfer_values t)"
  by (auto simp: form_ok_def)

lemma form_values_simps [simp]:
  "tf_formType (expense_values e) = EXPENSE" "tf_expense (expense_values e) = Some e"
  "tf_income (expense_values e) = None" "tf_transfer (expense_values e) = None"
  "tf_formType (income_values i) = INCOME" "tf_expense (income_values i) = None"
  "tf_income (income_values i) = Some i" "tf_transfer (income_values i) = None"
  "tf_formType (transfer_values t) = TRANSFER" "tf_expense (transfer_values t) = None"
  "tf_income (transfer_values t) = None" "tf_transfer (transfer_values t) = Some t"
  by (simp_all add: form_values_defs)

lemma form_okE [consumes 1, case_names expense income transfer]:
  assumes "form_ok f"
  obtains e where "f = expense_values e" | i where "f = income_values i" | t where "f = transfer_values t"
  using assms by (auto simp: form_ok_def)

section \<open>Expense values\<close>

definition expenseFormEmpty :: "int \<Rightarrow> category list \<Rightarrow> bank_account list \<Rightarrow> expense_form result" where
  "expenseFormEmpty today categories bankAccounts =
     (case categories of
        [] \<Rightarrow> Inl AssertionFailed
      | c # _ \<Rightarrow>
        bind_result (firstVisibleAccountId bankAccounts) (\<lambda>accountId.
          Inr \<lparr>ef_timestamp = FDate (Some today), ef_amount = Some 0, ef_ownShareAmount = Some 0,
               ef_accountId = Some accountId, ef_categoryId = cat_id c, ef_vendor = '''',
               ef_companion = None, ef_payer = None, ef_currency = None,
               ef_sharingType = PAID_SELF_NOT_SHARED, ef_repayment = None, ef_tagNames = [],
               ef_description = None, ef_tripName = None\<rparr>))"

definition isPaidOther :: "sharing_type \<Rightarrow> bool" where
  "isPaidOther s \<longleftrightarrow> s = PAID_OTHER_OWED \<or> s = PAID_OTHER_REPAID"

definition isPaidSelf :: "sharing_type \<Rightarrow> bool" where
  "isPaidSelf s \<longleftrightarrow> s = PAID_SELF_NOT_SHARED \<or> s = PAID_SELF_SHARED"

definition proposedSharingType :: "transaction_draft \<Rightarrow> sharing_type" where
  "proposedSharingType draft =
     (case winner_value (dr_sharingType draft) of
        None \<Rightarrow> PAID_SELF_NOT_SHARED
      | Some ST_UNSPECIFIED \<Rightarrow> PAID_SELF_NOT_SHARED
      | Some s \<Rightarrow> s)"

definition expenseFromDraft ::
  "int \<Rightarrow> transaction_draft \<Rightarrow> category list \<Rightarrow> bank_account list \<Rightarrow> expense_form result" where
  "expenseFromDraft today draft categories bankAccounts =
     (case categories of
        [] \<Rightarrow> Inl AssertionFailed
      | c # _ \<Rightarrow>
        bind_result (firstVisibleAccountId bankAccounts) (\<lambda>firstAccount.
          let timestamp = draftTimestamp today draft;
              amount = draftAmountDollar draft;
              sharingType = proposedSharingType draft;
              shared = (sharingType = PAID_SELF_SHARED);
              paidOther = isPaidOther sharingType;
              accountId = winner_or (dr_accountFromId draft) firstAccount;
              categoryId = winner_or (dr_categoryId draft) (cat_id c);
              repayment = (if sharingType = PAID_OTHER_REPAID
                then Some \<lparr>rp_timestamp = Some (FDate (Some timestamp)), rp_accountId = Some accountId,
                       rp_categoryId = Some (winner_or (dr_repaymentCategoryId draft) categoryId)\<rparr>
                else None)
          in Inr \<lparr>ef_timestamp = FDate (Some timestamp), ef_amount = Some amount,
               ef_ownShareAmount = Some (winnerMoneyDollar (dr_ownShareAmount draft) amount),
               ef_accountId = (if paidOther then None else Some accountId), ef_categoryId = categoryId,
               ef_vendor = winner_or (dr_vendor draft) '''',
               ef_companion = (if shared then winner_value (dr_companion draft) else None),
               ef_payer = (if paidOther then winner_value (dr_payer draft) else None),
               ef_currency = (if paidOther then winner_value (dr_currency draft) else None),
               ef_sharingType = sharingType, ef_repayment = repayment,
               ef_tagNames = draftTagNames draft, ef_description = draftDescription draft,
               ef_tripName = winner_value (dr_tripName draft)\<rparr>))"

text \<open>\<open>new Date(epoch)\<close>\<close>

definition date_of_epoch :: "rat \<Rightarrow> form_date" where
  "date_of_epoch e = FDate (Some (date_value e))"

definition first_companion_name :: "transaction_companion list \<Rightarrow> string option" where
  "first_companion_name cs = (case cs of [] \<Rightarrow> None | c # _ \<Rightarrow> Some (comp_name c))"

definition findRepayment :: "int \<Rightarrow> transaction_link list \<Rightarrow> repayment_form option" where
  "findRepayment expenseId allLinks =
     (case find (\<lambda>d. tp_id (ds_expense d) = expenseId)
         (List.map_filter (\<lambda>l. case l of DebtSettling d \<Rightarrow> Some d | Refund _ \<Rightarrow> None) allLinks) of
        None \<Rightarrow> None
      | Some d \<Rightarrow> Some \<lparr>rp_timestamp = Some (date_of_epoch (pe_timestampEpoch (ds_repayment d))),
          rp_accountId = Some (pe_accountId (ds_repayment d)),
          rp_categoryId = Some (pe_categoryId (ds_repayment d))\<rparr>)"

definition personalExpenseForm :: "personal_expense \<Rightarrow> tag list \<Rightarrow> trip list \<Rightarrow> expense_form result" where
  "personalExpenseForm t allTags allTrips =
     bind_result (transactionTags (PersonalExpense t) allTags) (\<lambda>tags.
       Inr \<lparr>ef_timestamp = date_of_epoch (pe_timestampEpoch t),
         ef_amount = Some (nanosToDollar (pe_amountNanos t)),
         ef_ownShareAmount = Some (nanosToDollar (ownShareAmountNanosIgnoreRefunds (FlowPersonal t))),
         ef_accountId = Some (pe_accountId t), ef_categoryId = pe_categoryId t, ef_vendor = pe_vendor t,
         ef_companion = first_companion_name (pe_companions t), ef_payer = None, ef_currency = None,
         ef_sharingType = (if length (pe_companions t) > 0 then PAID_SELF_SHARED else PAID_SELF_NOT_SHARED),
         ef_repayment = None, ef_tagNames = map tag_name tags, ef_description = Some (pe_note t),
         ef_tripName = map_option trip_name (transactionTrip (FlowPersonal t) allTrips)\<rparr>)"

definition thirdPartyExpenseForm ::
  "third_party_expense \<Rightarrow> tag list \<Rightarrow> trip list \<Rightarrow> transaction_link list \<Rightarrow> expense_form result" where
  "thirdPartyExpenseForm t allTags allTrips allLinks =
     bind_result (transactionTags (ThirdPartyExpense t) allTags) (\<lambda>tags.
       let repayment = findRepayment (tp_id t) allLinks
       in Inr \<lparr>ef_timestamp = date_of_epoch (tp_timestampEpoch t),
         ef_amount = Some (nanosToDollar (tp_amountNanos t)),
         ef_ownShareAmount = Some (nanosToDollar (ownShareAmountNanosIgnoreRefunds (FlowThirdParty t))),
         ef_accountId = None, ef_categoryId = tp_categoryId t, ef_vendor = tp_vendor t,
         ef_companion = first_companion_name (tp_companions t), ef_payer = Some (tp_payer t),
         ef_currency = Some (tp_currencyCode t),
         ef_sharingType = (case repayment of Some _ \<Rightarrow> PAID_OTHER_REPAID | None \<Rightarrow> PAID_OTHER_OWED),
         ef_repayment = repayment, ef_tagNames = map tag_name tags, ef_description = Some (tp_note t),
         ef_tripName = map_option trip_name (transactionTrip (FlowThirdParty t) allTrips)\<rparr>)"

text \<open>\<open>expenseFromTransaction\<close> takes one of the two expense kinds.\<close>

definition expenseFromTransaction ::
  "transaction \<Rightarrow> tag list \<Rightarrow> trip list \<Rightarrow> transaction_link list \<Rightarrow> expense_form result" where
  "expenseFromTransaction t allTags allTrips allLinks =
     (case t of
        ThirdPartyExpense e \<Rightarrow> thirdPartyExpenseForm e allTags allTrips allLinks
      | PersonalExpense p \<Rightarrow> personalExpenseForm p allTags allTrips
      | _ \<Rightarrow> Inl AssertionFailed)"

definition incomeToExpense :: "income_form \<Rightarrow> expense_form" where
  "incomeToExpense prev =
     \<lparr>ef_timestamp = if_timestamp prev, ef_amount = if_amount prev,
      ef_ownShareAmount = if_ownShareAmount prev, ef_accountId = Some (if_accountId prev),
      ef_categoryId = if_categoryId prev, ef_vendor = if_payer prev, ef_companion = if_companion prev,
      ef_payer = None, ef_currency = None,
      ef_sharingType = (if truthy_string (if_companion prev) then PAID_SELF_SHARED else PAID_SELF_NOT_SHARED),
      ef_repayment = None, ef_tagNames = if_tagNames prev, ef_description = None, ef_tripName = None\<rparr>"

definition or_blank :: "string option \<Rightarrow> string" where
  "or_blank s = (case s of None \<Rightarrow> '''' | Some t \<Rightarrow> t)"

definition transferToExpense :: "transfer_form \<Rightarrow> expense_form" where
  "transferToExpense prev =
     \<lparr>ef_timestamp = xf_timestamp prev, ef_amount = xf_amountSent prev,
      ef_ownShareAmount = xf_amountSent prev, ef_accountId = Some (xf_fromAccountId prev),
      ef_categoryId = xf_categoryId prev, ef_vendor = or_blank (xf_description prev), ef_companion = None,
      ef_payer = None, ef_currency = None, ef_sharingType = PAID_SELF_NOT_SHARED,
      ef_repayment = None, ef_tagNames = [], ef_description = None, ef_tripName = None\<rparr>"

section \<open>Income values\<close>

definition account_or_first :: "int option \<Rightarrow> bank_account list \<Rightarrow> int result" where
  "account_or_first accountId bankAccounts =
     (case bankAccounts of
        [] \<Rightarrow> Inl AssertionFailed
      | a # _ \<Rightarrow> Inr (case accountId of Some i \<Rightarrow> i | None \<Rightarrow> acc_id a))"

definition expenseToIncome :: "expense_form \<Rightarrow> bank_account list \<Rightarrow> income_form result" where
  "expenseToIncome prev bankAccounts =
     bind_result (account_or_first (ef_accountId prev) bankAccounts) (\<lambda>accountId.
       Inr \<lparr>if_timestamp = ef_timestamp prev, if_amount = ef_amount prev,
         if_ownShareAmount = ef_ownShareAmount prev, if_accountId = accountId,
         if_categoryId = ef_categoryId prev, if_isShared = (ef_sharingType prev \<noteq> PAID_SELF_NOT_SHARED),
         if_companion = ef_companion prev, if_payer = ef_vendor prev, if_tagNames = [],
         if_description = ef_description prev, if_parentTransactionId = None\<rparr>)"

definition transferToIncome :: "transfer_form \<Rightarrow> income_form" where
  "transferToIncome prev =
     \<lparr>if_timestamp = xf_timestamp prev, if_amount = xf_amountSent prev,
      if_ownShareAmount = xf_amountSent prev, if_accountId = xf_fromAccountId prev,
      if_categoryId = xf_categoryId prev, if_isShared = False, if_companion = None,
      if_payer = or_blank (xf_description prev), if_tagNames = [], if_description = None,
      if_parentTransactionId = None\<rparr>"

definition refund_parent :: "int \<Rightarrow> transaction_link list \<Rightarrow> int option" where
  "refund_parent incomeId allLinks =
     (case find (\<lambda>l. case l of Refund r \<Rightarrow> list_ex (\<lambda>i. in_id i = incomeId) (rf_refunds r)
                  | DebtSettling _ \<Rightarrow> False) allLinks of
        Some (Refund r) \<Rightarrow> Some (tx_id (rf_expense r))
      | _ \<Rightarrow> None)"

definition incomeFromTransaction :: "income \<Rightarrow> transaction_link list \<Rightarrow> tag list \<Rightarrow> income_form result" where
  "incomeFromTransaction t allLinks allTags =
     bind_result (transactionTags (Income t) allTags) (\<lambda>tags.
       Inr \<lparr>if_timestamp = date_of_epoch (in_timestampEpoch t),
         if_amount = Some (nanosToDollar (in_amountNanos t)),
         if_ownShareAmount = Some (nanosToDollar (ownShareAmountNanosIgnoreRefunds (FlowIncome t))),
         if_accountId = in_accountId t, if_categoryId = in_categoryId t,
         if_isShared = (length (in_companions t) > 0),
         if_companion = first_companion_name (in_companions t), if_payer = in_payer t,
         if_tagNames = map tag_name tags, if_description = Some (in_note t),
         if_parentTransactionId = refund_parent (in_id t) allLinks\<rparr>)"

definition incomeFromDraft ::
  "int \<Rightarrow> transaction_draft \<Rightarrow> category list \<Rightarrow> bank_account list \<Rightarrow> income_form result" where
  "incomeFromDraft today draft categories bankAccounts =
     (case categories of
        [] \<Rightarrow> Inl AssertionFailed
      | c # _ \<Rightarrow>
        bind_result (firstVisibleAccountId bankAccounts) (\<lambda>firstAccount.
          let amount = draftAmountDollar draft;
              isShared = (winner_value (dr_sharingType draft) = Some PAID_SELF_SHARED)
          in Inr \<lparr>if_timestamp = FDate (Some (draftTimestamp today draft)), if_amount = Some amount,
               if_ownShareAmount = Some (winnerMoneyDollar (dr_ownShareAmount draft) amount),
               if_accountId = winner_or (dr_accountToId draft) firstAccount,
               if_categoryId = winner_or (dr_categoryId draft) (cat_id c), if_isShared = isShared,
               if_companion = (if isShared then winner_value (dr_companion draft) else None),
               if_payer = winner_or (dr_payer draft) '''', if_tagNames = draftTagNames draft,
               if_description = draftDescription draft,
               if_parentTransactionId = winner_value (dr_parentTransactionId draft)\<rparr>))"

section \<open>Transfer values\<close>

definition expenseToTransfer :: "expense_form \<Rightarrow> bank_account list \<Rightarrow> transfer_form result" where
  "expenseToTransfer prev bankAccounts =
     bind_result (account_or_first (ef_accountId prev) bankAccounts) (\<lambda>accountId.
       Inr \<lparr>xf_timestamp = ef_timestamp prev, xf_amountSent = ef_amount prev,
         xf_amountReceived = ef_amount prev, xf_fromAccountId = accountId, xf_toAccountId = accountId,
         xf_categoryId = ef_categoryId prev, xf_description = Some (ef_vendor prev),
         xf_tagNames = ef_tagNames prev\<rparr>)"

definition incomeToTransfer :: "income_form \<Rightarrow> transfer_form" where
  "incomeToTransfer prev =
     \<lparr>xf_timestamp = if_timestamp prev, xf_amountSent = if_amount prev,
      xf_amountReceived = if_amount prev, xf_fromAccountId = if_accountId prev,
      xf_toAccountId = if_accountId prev, xf_categoryId = if_categoryId prev,
      xf_description = Some (if_payer prev), xf_tagNames = if_tagNames prev\<rparr>"

definition transferFromDraft ::
  "int \<Rightarrow> transaction_draft \<Rightarrow> category list \<Rightarrow> bank_account list \<Rightarrow> transfer_form result" where
  "transferFromDraft today draft categories bankAccounts =
     (case categories of
        [] \<Rightarrow> Inl AssertionFailed
      | c # _ \<Rightarrow>
        bind_result (firstVisibleAccountId bankAccounts) (\<lambda>firstAccount.
          let amountSent = draftAmountDollar draft
          in Inr \<lparr>xf_timestamp = FDate (Some (draftTimestamp today draft)), xf_amountSent = Some amountSent,
               xf_amountReceived = Some (winnerMoneyDollar (dr_amountReceived draft) amountSent),
               xf_fromAccountId = winner_or (dr_accountFromId draft) firstAccount,
               xf_toAccountId = winner_or (dr_accountToId draft) firstAccount,
               xf_categoryId = winner_or (dr_categoryId draft) (cat_id c),
               xf_description = draftDescription draft, xf_tagNames = draftTagNames draft\<rparr>))"

definition transferFromTransaction :: "transfer \<Rightarrow> tag list \<Rightarrow> transfer_form result" where
  "transferFromTransaction t allTags =
     bind_result (transactionTags (Transfer t) allTags) (\<lambda>tags.
       Inr \<lparr>xf_timestamp = date_of_epoch (tr_timestampEpoch t),
         xf_amountSent = Some (nanosToDollar (tr_sentAmountNanos t)),
         xf_amountReceived = Some (nanosToDollar (tr_receivedAmountNanos t)),
         xf_fromAccountId = tr_fromAccountId t, xf_toAccountId = tr_toAccountId t,
         xf_categoryId = tr_categoryId t, xf_description = Some (tr_note t),
         xf_tagNames = map tag_name tags\<rparr>)"

section \<open>Values of the whole form\<close>

text \<open>
  \<open>valuesForTransaction\<close>. The type excludes an opening balance; the form refuses one before
  it computes any values (\<open>TransactionForm\<close>).
\<close>

definition valuesForTransaction ::
  "transaction \<Rightarrow> transaction_link list \<Rightarrow> tag list \<Rightarrow> trip list \<Rightarrow> transaction_form result" where
  "valuesForTransaction tx transactionLinks tags trips =
     (case tx of
        OpeningBalance b \<Rightarrow> Inl (UnexpectedOpeningBalance (ob_id b))
      | Income i \<Rightarrow> map_sum id income_values (incomeFromTransaction i transactionLinks tags)
      | Transfer t \<Rightarrow> map_sum id transfer_values (transferFromTransaction t tags)
      | _ \<Rightarrow> map_sum id expense_values (expenseFromTransaction tx tags trips transactionLinks))"

definition useFormDefaults ::
  "int \<Rightarrow> transaction option \<Rightarrow> category list \<Rightarrow> bank_account list \<Rightarrow> transaction_link list \<Rightarrow> tag list \<Rightarrow>
     trip list \<Rightarrow> transaction_form result" where
  "useFormDefaults today tx categories bankAccounts transactionLinks tags trips =
     (case tx of
        None \<Rightarrow> map_sum id expense_values (expenseFormEmpty today categories bankAccounts)
      | Some t \<Rightarrow> valuesForTransaction t transactionLinks tags trips)"

definition valuesForDraft ::
  "int \<Rightarrow> transaction_draft \<Rightarrow> category list \<Rightarrow> bank_account list \<Rightarrow> transaction_form result" where
  "valuesForDraft today draft categories bankAccounts =
     (case draftFormType draft of
        FT_INCOME \<Rightarrow> map_sum id income_values (incomeFromDraft today draft categories bankAccounts)
      | FT_TRANSFER \<Rightarrow> map_sum id transfer_values (transferFromDraft today draft categories bankAccounts)
      | _ \<Rightarrow> map_sum id expense_values (expenseFromDraft today draft categories bankAccounts))"

definition valuesForNewType ::
  "transaction_form \<Rightarrow> form_kind \<Rightarrow> bank_account list \<Rightarrow> transaction_form result" where
  "valuesForNewType prevForm next bankAccounts =
     (if tf_formType prevForm = next then Inr prevForm
      else case (tf_formType prevForm, next) of
        (EXPENSE, INCOME) \<Rightarrow>
          bind_result (or_throw (tf_expense prevForm) AssertionFailed) (\<lambda>e.
            map_sum id income_values (expenseToIncome e bankAccounts))
      | (EXPENSE, TRANSFER) \<Rightarrow>
          bind_result (or_throw (tf_expense prevForm) AssertionFailed) (\<lambda>e.
            map_sum id transfer_values (expenseToTransfer e bankAccounts))
      | (INCOME, EXPENSE) \<Rightarrow>
          bind_result (or_throw (tf_income prevForm) AssertionFailed) (\<lambda>i.
            Inr (expense_values (incomeToExpense i)))
      | (INCOME, TRANSFER) \<Rightarrow>
          bind_result (or_throw (tf_income prevForm) AssertionFailed) (\<lambda>i.
            Inr (transfer_values (incomeToTransfer i)))
      | (TRANSFER, EXPENSE) \<Rightarrow>
          bind_result (or_throw (tf_transfer prevForm) AssertionFailed) (\<lambda>t.
            Inr (expense_values (transferToExpense t)))
      | (TRANSFER, INCOME) \<Rightarrow>
          bind_result (or_throw (tf_transfer prevForm) AssertionFailed) (\<lambda>t.
            Inr (income_values (transferToIncome t)))
      | _ \<Rightarrow> Inl UnsupportedFormTransition)"

section \<open>Sharing type of an expense\<close>

definition useSharingType :: "sharing_type \<Rightarrow> bool \<times> bool \<times> bool" where
  "useSharingType s =
     (let paidSelf = (s = PAID_SELF_SHARED \<or> s = PAID_SELF_NOT_SHARED)
      in (s = PAID_SELF_SHARED \<or> s = PAID_OTHER_OWED \<or> s = PAID_OTHER_REPAID, paidSelf, \<not> paidSelf))"

definition currencyCodeForAccount :: "int \<Rightarrow> bank_account list \<Rightarrow> string option" where
  "currencyCodeForAccount accountId bankAccounts =
     Option.bind (find (\<lambda>a. acc_id a = accountId) bankAccounts) acc_currencyCode"

text \<open>Setting a field of the repayment creates the repayment when there is none.\<close>

definition repayment_or_empty :: "repayment_form option \<Rightarrow> repayment_form" where
  "repayment_or_empty r =
     (case r of None \<Rightarrow> \<lparr>rp_timestamp = None, rp_accountId = None, rp_categoryId = None\<rparr> | Some r \<Rightarrow> r)"

definition setRepayment :: "(repayment_form \<Rightarrow> repayment_form) \<Rightarrow> expense_form \<Rightarrow> expense_form" where
  "setRepayment f e = e\<lparr>ef_repayment := Some (f (repayment_or_empty (ef_repayment e)))\<rparr>"

definition setPaidOther ::
  "transaction_draft option \<Rightarrow> currency \<Rightarrow> bank_account list \<Rightarrow> expense_form \<Rightarrow> expense_form result" where
  "setPaidOther draft displayCurrency bankAccounts e =
     (let categoryId = ef_categoryId e;
          amountNanos = Option.bind draft (\<lambda>d. winner_value (dr_amount d));
          accountId = truthy_id (Option.bind draft (\<lambda>d. winner_value (dr_accountFromId d)));
          payer = or_blank (Option.bind draft (\<lambda>d. winner_value (dr_payer d)))
      in bind_result
        (case (draft, amountNanos, accountId) of
           (Some d, Some nanos, Some account) \<Rightarrow>
             bind_result
               (case winnerTimestamp (dr_timestamp d) of
                  None \<Rightarrow> Inr (\<lambda>r. r)
                | Some ts \<Rightarrow>
                  bind_result (timestampToDate (Some ts)) (\<lambda>date.
                    Inr (\<lambda>r. r\<lparr>rp_timestamp := Some (FDate (Some date))\<rparr>))) (\<lambda>setTimestamp.
             Inr (setRepayment (\<lambda>r. setTimestamp (r\<lparr>rp_accountId := Some account\<rparr>)\<lparr>rp_categoryId := Some categoryId\<rparr>)
               (e\<lparr>ef_sharingType := PAID_OTHER_REPAID,
                  ef_currency := currencyCodeForAccount account bankAccounts,
                  ef_amount := Some (nanosToDollar (nanos * 2)),
                  ef_ownShareAmount := Some (nanosToDollar nanos)\<rparr>)))
         | _ \<Rightarrow> Inr (e\<lparr>ef_sharingType := PAID_OTHER_OWED, ef_currency := Some (cur_code displayCurrency)\<rparr>))
        (\<lambda>e'. Inr (e'\<lparr>ef_payer := Some payer\<rparr>)))"

definition setPaidSelf :: "bank_account list \<Rightarrow> expense_form \<Rightarrow> expense_form result" where
  "setPaidSelf bankAccounts e =
     bind_result
       (case ef_accountId e of Some i \<Rightarrow> Inr i | None \<Rightarrow> firstVisibleAccountId bankAccounts) (\<lambda>accountId.
       Inr (e\<lparr>ef_sharingType := PAID_SELF_NOT_SHARED, ef_accountId := Some accountId,
              ef_repayment := None, ef_companion := None\<rparr>))"

definition setAlreadyRepaid :: "bank_account list \<Rightarrow> expense_form \<Rightarrow> expense_form result" where
  "setAlreadyRepaid bankAccounts e =
     bind_result (firstVisibleAccountId bankAccounts) (\<lambda>accountId.
       Inr (setRepayment (\<lambda>r. r\<lparr>rp_accountId := Some accountId, rp_categoryId := Some (ef_categoryId e),
              rp_timestamp := Some (ef_timestamp e)\<rparr>) (e\<lparr>ef_sharingType := PAID_OTHER_REPAID\<rparr>)))"

definition setOweMoney :: "expense_form \<Rightarrow> expense_form" where
  "setOweMoney e = e\<lparr>ef_sharingType := PAID_OTHER_OWED, ef_accountId := None, ef_repayment := None\<rparr>"

definition toggleSplitTransaction :: "transaction_draft option \<Rightarrow> expense_form \<Rightarrow> expense_form" where
  "toggleSplitTransaction draft e =
     (case ef_sharingType e of
        PAID_SELF_SHARED \<Rightarrow> e\<lparr>ef_sharingType := PAID_SELF_NOT_SHARED, ef_companion := None\<rparr>
      | PAID_SELF_NOT_SHARED \<Rightarrow>
          e\<lparr>ef_sharingType := PAID_SELF_SHARED,
            ef_companion := Some (or_blank (Option.bind draft (\<lambda>d. winner_value (dr_companion d))))\<rparr>
      | _ \<Rightarrow> e)"

section \<open>Values computed from other fields\<close>

definition matchesVendor :: "string \<Rightarrow> transaction \<Rightarrow> bool" where
  "matchesVendor vendor t =
     (let want = toLowerCase (trim vendor)
      in case t of
           PersonalExpense p \<Rightarrow> want = [] \<or> toLowerCase (trim (pe_vendor p)) = want
         | ThirdPartyExpense e \<Rightarrow> want = [] \<or> toLowerCase (trim (tp_vendor e)) = want
         | _ \<Rightarrow> False)"

definition matchesPayer :: "string \<Rightarrow> transaction \<Rightarrow> bool" where
  "matchesPayer payer t =
     (let want = toLowerCase (trim payer)
      in case t of
           Income i \<Rightarrow> want = [] \<or> toLowerCase (trim (in_payer i)) = want
         | _ \<Rightarrow> False)"

definition matchesDescription :: "string \<Rightarrow> transaction \<Rightarrow> bool" where
  "matchesDescription description t =
     (let want = toLowerCase (trim description)
      in case t of
           Transfer f \<Rightarrow> want = [] \<or> toLowerCase (trim (tr_note f)) = want
         | _ \<Rightarrow> False)"

definition mostFrequentCategory :: "transaction list \<Rightarrow> (transaction \<Rightarrow> bool) \<Rightarrow> int option" where
  "mostFrequentCategory transactions match =
     (case uniqMostFrequent (List.map_filter tx_categoryId (filter match transactions)) of
        [] \<Rightarrow> None | best # _ \<Rightarrow> Some best)"

definition ownShareOnAmountChange :: "bool \<Rightarrow> rat option \<Rightarrow> rat" where
  "ownShareOnAmountChange isShared amount =
     (let safeAmount = (case amount of None \<Rightarrow> 0 | Some a \<Rightarrow> a)
      in if \<not> isShared then safeAmount else roundToCent (n_div safeAmount 2))"

definition useAccountUnitsEqual :: "bank_account list \<Rightarrow> transfer_form \<Rightarrow> bool result" where
  "useAccountUnitsEqual bankAccounts f =
     bind_result (mustFindBankAccount bankAccounts (xf_fromAccountId f)) (\<lambda>fromAccount.
     bind_result (mustFindBankAccount bankAccounts (xf_toAccountId f)) (\<lambda>toAccount.
       Inr (accountUnitsEqual fromAccount toAccount)))"

definition updateReceivedAmount :: "bank_account list \<Rightarrow> transfer_form \<Rightarrow> transfer_form result" where
  "updateReceivedAmount bankAccounts f =
     bind_result (useAccountUnitsEqual bankAccounts f) (\<lambda>sameUnit.
       Inr (if sameUnit then f\<lparr>xf_amountReceived := xf_amountSent f\<rparr> else f))"

definition existingAmountNanos :: "int \<Rightarrow> transaction option \<Rightarrow> int" where
  "existingAmountNanos accountId transaction =
     (case transaction of
        None \<Rightarrow> 0
      | Some (PersonalExpense p) \<Rightarrow> if pe_accountId p = accountId then pe_amountNanos p else 0
      | Some (Income i) \<Rightarrow> if in_accountId i = accountId then - in_amountNanos i else 0
      | Some (Transfer f) \<Rightarrow>
          if tr_fromAccountId f = accountId then tr_sentAmountNanos f
          else if tr_toAccountId f = accountId then - tr_receivedAmountNanos f
          else 0
      | Some _ \<Rightarrow> 0)"

text \<open>The balance \<open>NewBalanceNote\<close> shows for an account the transaction under edit changes.\<close>

definition newLocalBalance :: "amount_with_unit \<Rightarrow> rat \<Rightarrow> int \<Rightarrow> transaction option \<Rightarrow> amount_with_unit" where
  "newLocalBalance localBalance amount accountId transaction =
     (let newAmountNanos = dollarToNanos amount;
          existingNanos = existingAmountNanos accountId transaction
      in mk_awu (awu_nanos localBalance + newAmountNanos + existingNanos) (awu_unit localBalance))"

section \<open>Changing the form type\<close>

lemma account_or_first_eq:
  "bankAccounts \<noteq> [] \<Longrightarrow> account_or_first i bankAccounts =
     Inr (case i of Some j \<Rightarrow> j | None \<Rightarrow> acc_id (hd bankAccounts))"
  by (cases bankAccounts) (auto simp: account_or_first_def split: option.split)

text \<open>What the three variants have in common: date, amount, category and counterparty.\<close>

definition shared_fields :: "transaction_form \<Rightarrow> form_date \<times> rat option \<times> int \<times> string" where
  "shared_fields f =
     (case tf_formType f of
        EXPENSE \<Rightarrow> (let e = the (tf_expense f) in (ef_timestamp e, ef_amount e, ef_categoryId e, ef_vendor e))
      | INCOME \<Rightarrow> (let i = the (tf_income f) in (if_timestamp i, if_amount i, if_categoryId i, if_payer i))
      | TRANSFER \<Rightarrow>
          (let t = the (tf_transfer f)
           in (xf_timestamp t, xf_amountSent t, xf_categoryId t, or_blank (xf_description t))))"

definition form_account :: "transaction_form \<Rightarrow> int option" where
  "form_account f =
     (case tf_formType f of
        EXPENSE \<Rightarrow> ef_accountId (the (tf_expense f))
      | INCOME \<Rightarrow> Some (if_accountId (the (tf_income f)))
      | TRANSFER \<Rightarrow> Some (xf_fromAccountId (the (tf_transfer f))))"

lemmas conversion_defs = expenseToIncome_def expenseToTransfer_def incomeToExpense_def
  incomeToTransfer_def transferToExpense_def transferToIncome_def

lemma or_blank_simps [simp]: "or_blank None = ''''" "or_blank (Some s) = s"
  by (simp_all add: or_blank_def)

lemma valuesForNewType_lemma:
  assumes "form_ok f" "bankAccounts \<noteq> []"
  shows "\<exists>g. valuesForNewType f next bankAccounts = Inr g \<and> form_ok g \<and> tf_formType g = next \<and>
    shared_fields g = shared_fields f \<and>
    (\<forall>i. form_account f = Some i \<longrightarrow> form_account g = Some i)"
  using assms(1)
proof (cases rule: form_okE)
  case (expense e)
  then show ?thesis using assms(2)
    by (cases "next") (auto simp: valuesForNewType_def conversion_defs account_or_first_eq
      shared_fields_def form_account_def Let_def)
next
  case (income i)
  then show ?thesis
    by (cases "next") (auto simp: valuesForNewType_def conversion_defs shared_fields_def form_account_def Let_def)
next
  case (transfer t)
  then show ?thesis
    by (cases "next") (auto simp: valuesForNewType_def conversion_defs shared_fields_def form_account_def Let_def)
qed

text \<open>The forms reached by toggling the form type any number of times.\<close>

inductive toggled :: "bank_account list \<Rightarrow> transaction_form \<Rightarrow> transaction_form \<Rightarrow> bool" for accs f where
  toggled_none: "toggled accs f f"
| toggled_step: "toggled accs f g \<Longrightarrow> valuesForNewType g ty accs = Inr h \<Longrightarrow> toggled accs f h"

lemma toggled_lemma:
  assumes "toggled accs f g" "form_ok f" "accs \<noteq> []"
  shows "form_ok g \<and> shared_fields g = shared_fields f \<and>
    (\<forall>i. form_account f = Some i \<longrightarrow> form_account g = Some i)"
  using assms(1)
proof induction
  case (toggled_step g ty h)
  then show ?case using valuesForNewType_lemma [of g accs ty] assms(3) by auto
qed (simp add: assms(2))

section \<open>Starting values\<close>

lemma useFormDefaults_ok:
  "useFormDefaults today tx categories bankAccounts links tags trips = Inr f \<Longrightarrow> form_ok f"
  by (auto simp: useFormDefaults_def valuesForTransaction_def map_sum_eq_Inr
    split: option.splits transaction.splits)

lemma valuesForDraft_lemma:
  assumes "categories \<noteq> []" "bankAccounts \<noteq> []"
  shows "\<exists>f. valuesForDraft today draft categories bankAccounts = Inr f \<and> form_ok f \<and>
    tf_formType f = (case draftFormType draft of FT_INCOME \<Rightarrow> INCOME | FT_TRANSFER \<Rightarrow> TRANSFER | _ \<Rightarrow> EXPENSE)"
proof -
  obtain c cs where c: "categories = c # cs" using assms(1) by (cases categories) auto
  obtain a as where a: "bankAccounts = a # as" using assms(2) by (cases bankAccounts) auto
  show ?thesis
    by (cases "draftFormType draft") (auto simp: valuesForDraft_def incomeFromDraft_def transferFromDraft_def
      expenseFromDraft_def c a firstVisibleAccountId_def Let_def)
qed

section \<open>The balance under edit\<close>

definition within_account :: "transaction \<Rightarrow> bool" where
  "within_account t = (case t of Transfer f \<Rightarrow> tr_fromAccountId f = tr_toAccountId f | _ \<Rightarrow> False)"

lemma existingAmountNanos_delta:
  "\<not> within_account t \<Longrightarrow> \<not> isOpeningBalance t \<Longrightarrow> existingAmountNanos acc (Some t) = - delta acc t"
  by (cases t) (auto simp: existingAmountNanos_def within_account_def)

lemma balance_at_remove1:
  "t \<in> set txs \<Longrightarrow> counts_at asOf t \<Longrightarrow> balance_at (remove1 t txs) asOf acc = balance_at txs asOf acc - delta acc t"
  by (induction txs) (auto simp: balance_at_def)

lemma newLocalBalance_lemma:
  assumes "t \<in> set txs" "counts_at asOf t" "\<not> within_account t" "\<not> isOpeningBalance t"
    and "awu_nanos localBalance = balance_at txs asOf acc"
  shows "awu_nanos (newLocalBalance localBalance amount acc (Some t)) =
    balance_at (remove1 t txs) asOf acc + dollarToNanos amount"
  using assms by (simp add: newLocalBalance_def existingAmountNanos_delta balance_at_remove1 Let_def)

section \<open>Computed values\<close>

lemma mostFrequentCategory_lemma:
  assumes "mostFrequentCategory txs match = Some c"
  shows "(\<exists>t \<in> set txs. match t \<and> tx_categoryId t = Some c) \<and>
     (\<forall>d. length (filter (\<lambda>t. match t \<and> tx_categoryId t = Some d) txs) \<le>
          length (filter (\<lambda>t. match t \<and> tx_categoryId t = Some c) txs))"
proof -
  let ?cats = "List.map_filter tx_categoryId (filter match txs)"
  have count: "count_list ?cats d = length (filter (\<lambda>t. match t \<and> tx_categoryId t = Some d) txs)" for d
    by (induction txs) (auto simp: List.map_filter_simps split: option.splits)
  obtain cs where eq: "uniqMostFrequent ?cats = c # cs"
    using assms by (auto simp: mostFrequentCategory_def split: list.splits)
  have in_cats: "c \<in> set ?cats" using set_uniqMostFrequent [of ?cats] eq by auto
  have "count_list ?cats d \<le> count_list ?cats c" for d
  proof (cases "d \<in> set ?cats")
    case True
    then show ?thesis using set_uniqMostFrequent [of ?cats] sorted_uniqMostFrequent [of ?cats] eq by auto
  qed simp
  with in_cats show ?thesis by (auto simp: count set_map_filter_iff)
qed

lemma find_map_filter:
  "find P (List.map_filter f xs) = Some y \<Longrightarrow> P y \<and> (\<exists>x \<in> set xs. f x = Some y)"
  by (induction xs) (auto simp: List.map_filter_simps split: option.splits if_splits)

lemma findRepayment_lemma:
  "findRepayment i links = Some r \<Longrightarrow>
     \<exists>d. DebtSettling d \<in> set links \<and> tp_id (ds_expense d) = i \<and>
       rp_accountId r = Some (pe_accountId (ds_repayment d))"
  by (auto simp: findRepayment_def dest!: find_map_filter split: option.splits transaction_link.splits)

lemma toggleSplit_twice:
  "ef_sharingType (toggleSplitTransaction d (toggleSplitTransaction d e)) = ef_sharingType e"
  by (cases "ef_sharingType e") (auto simp: toggleSplitTransaction_def)

section \<open>Properties\<close>


definition sample_account :: bank_account where
  "sample_account = \<lparr>acc_id = 7, acc_name = ''Current'', acc_bankId = 1, acc_initialBalanceNanos = 0,
     acc_currencyCode = Some ''GBP'', acc_stock = None, acc_displayOrder = 1, acc_archived = False,
     acc_joint = False\<rparr>"

definition sample_transfer_form :: transfer_form where
  "sample_transfer_form = \<lparr>xf_timestamp = FDate (Some 0), xf_amountSent = Some 5, xf_amountReceived = Some 4,
     xf_fromAccountId = 7, xf_toAccountId = 8, xf_categoryId = 1, xf_description = Some ''Rent'',
     xf_tagNames = [''home'']\<rparr>"


text \<open>Toggling to an expense and back loses the tags of a transfer.\<close>

lemma toggling_loses_tags:
  "bind_result (valuesForNewType (transfer_values sample_transfer_form) EXPENSE [sample_account])
     (\<lambda>f. valuesForNewType f TRANSFER [sample_account]) =
   Inr (transfer_values (sample_transfer_form\<lparr>xf_toAccountId := 7, xf_amountReceived := Some 5, xf_tagNames := []\<rparr>))"
  by (simp add: valuesForNewType_def conversion_defs sample_transfer_form_def account_or_first_def)

text \<open>
  The balance the form announces. For a transaction under edit that moves money between
  accounts (not within one), the balance shown for an account is what the account would hold
  without the transaction, plus the amount now in the form.
\<close>
theorem new_balance_replaces_transaction:
  assumes "t \<in> set txs" "counts_at asOf t" "\<not> within_account t" "\<not> isOpeningBalance t"
    and "awu_nanos localBalance = balance_at txs asOf acc"
  shows "awu_nanos (newLocalBalance localBalance amount acc (Some t)) =
    balance_at (remove1 t txs) asOf acc + dollarToNanos amount"
  by (rule newLocalBalance_lemma [OF assms])

theorem new_balance_replaces_transaction_witness:
  "awu_nanos (newLocalBalance (mk_awu 200 (UnitCurrency \<lparr>cur_code = ''GBP''\<rparr>)) 0 7
      (Some (PersonalExpense sample_expense))) =
    balance_at [Income sample_income] 5000 7 + dollarToNanos 0"
proof -
  have "balance_at [PersonalExpense sample_expense, Income sample_income] 5000 7 = 200"
    by (simp add: balance_at_def counts_at_def sample_expense_def sample_income_def)
  then show ?thesis
    using new_balance_replaces_transaction [of "PersonalExpense sample_expense"
      "[PersonalExpense sample_expense, Income sample_income]" 5000
      "mk_awu 200 (UnitCurrency \<lparr>cur_code = ''GBP''\<rparr>)" 7 0]
    by (simp add: counts_at_def within_account_def sample_expense_def)
qed

text \<open>
  The category the form proposes. \<open>mostFrequentCategory\<close> proposes a category of a matching
  transaction, and no category occurs more often on matching transactions.
\<close>
theorem proposed_category_most_frequent:
  assumes "mostFrequentCategory txs match = Some c"
  shows "(\<exists>t \<in> set txs. match t \<and> tx_categoryId t = Some c) \<and>
     (\<forall>d. length (filter (\<lambda>t. match t \<and> tx_categoryId t = Some d) txs) \<le>
          length (filter (\<lambda>t. match t \<and> tx_categoryId t = Some c) txs))"
  by (rule mostFrequentCategory_lemma [OF assms])

theorem proposed_category_most_frequent_witness:
  "\<exists>t \<in> set [PersonalExpense sample_expense]. matchesVendor ''shop '' t \<and> tx_categoryId t = Some 1"
proof -
  have "mostFrequentCategory [PersonalExpense sample_expense] (matchesVendor ''shop '') = Some 1" by code_simp
  from proposed_category_most_frequent [OF this] show ?thesis by blast
qed

text \<open>An income whose split was switched off still becomes a shared expense.\<close>

lemma unshared_income_becomes_shared_expense:
  assumes "\<not> if_isShared i" "truthy_string (if_companion i)"
  shows "ef_sharingType (incomeToExpense i) = PAID_SELF_SHARED"
  using assms by (simp add: incomeToExpense_def)

end
