(* ===== verification/FormValidation.thy ===== *)
theory FormValidation
  imports TxForm
begin

text \<open>
  The validation of the transaction form: the schemas of
  \<open>components/txform/types.ts\<close> and of the \<open>types.ts\<close> of each variant. A schema yields issues: the
  path of the offending field, and whether the value could not be parsed at all, which stops the
  refinements of the enclosing objects (\<open>zod\<close>'s documented behaviour: a refinement runs only once
  the object it refines has been parsed). \<open>date-fns\<close>' \<open>isValid\<close> is the parameter \<open>isValid\<close>.
\<close>

section \<open>Issues\<close>

type_synonym issue = "string list \<times> bool"

definition at_path :: "string \<Rightarrow> issue list \<Rightarrow> issue list" where
  "at_path field issues = map (\<lambda>(path, aborts). (field # path, aborts)) issues"

definition refined :: "issue list \<Rightarrow> (string list \<times> bool) list \<Rightarrow> issue list" where
  "refined base rules =
     (if list_ex snd base then base else base @ map (\<lambda>(path, _). (path, False)) (filter snd rules))"

definition date_field :: "form_date option \<Rightarrow> issue list" where
  "date_field t = (case t of None \<Rightarrow> [([], True)] | Some (FDate None) \<Rightarrow> [([], True)] | Some _ \<Rightarrow> [])"

definition amount_field :: "(rat \<Rightarrow> bool) \<Rightarrow> rat option \<Rightarrow> issue list" where
  "amount_field ok amount =
     (case amount of None \<Rightarrow> [([], True)] | Some a \<Rightarrow> if ok a then [] else [([], False)])"

definition positive_id :: "int \<Rightarrow> issue list" where
  "positive_id i = (if i > 0 then [] else [([], False)])"

definition required_id :: "int option \<Rightarrow> issue list" where
  "required_id i = (case i of None \<Rightarrow> [([], True)] | Some n \<Rightarrow> positive_id n)"

definition nullable_id :: "int option \<Rightarrow> issue list" where
  "nullable_id i = (case i of None \<Rightarrow> [] | Some n \<Rightarrow> positive_id n)"

definition required_text :: "string \<Rightarrow> issue list" where
  "required_text s = (if trim s = [] then [([], False)] else [])"

definition blank :: "string option \<Rightarrow> bool" where
  "blank s \<longleftrightarrow> (case s of None \<Rightarrow> True | Some t \<Rightarrow> trim t = [])"

definition invalid_date :: "(form_date \<Rightarrow> bool) \<Rightarrow> form_date option \<Rightarrow> bool" where
  "invalid_date isValid t \<longleftrightarrow> (case t of None \<Rightarrow> False | Some d \<Rightarrow> \<not> isValid d)"

definition exceeds :: "rat option \<Rightarrow> rat option \<Rightarrow> bool" where
  "exceeds a b \<longleftrightarrow> (case (a, b) of (Some x, Some y) \<Rightarrow> x > y | _ \<Rightarrow> False)"

section \<open>Schemas\<close>

definition repaymentTransactionValidationSchema ::
  "(form_date \<Rightarrow> bool) \<Rightarrow> repayment_form \<Rightarrow> issue list" where
  "repaymentTransactionValidationSchema isValid r =
     refined
       (at_path ''timestamp'' (date_field (rp_timestamp r)) @
        at_path ''categoryId'' (required_id (rp_categoryId r)) @
        at_path ''accountId'' (required_id (rp_accountId r)))
       [([''timestamp''], invalid_date isValid (rp_timestamp r))]"

definition expenseFormValidationSchema :: "(form_date \<Rightarrow> bool) \<Rightarrow> expense_form \<Rightarrow> issue list" where
  "expenseFormValidationSchema isValid e =
     refined
       (at_path ''timestamp'' (date_field (Some (ef_timestamp e))) @
        at_path ''amount'' (amount_field (\<lambda>a. a \<ge> 0) (ef_amount e)) @
        at_path ''ownShareAmount'' (amount_field (\<lambda>a. a \<ge> 0) (ef_ownShareAmount e)) @
        at_path ''accountId'' (nullable_id (ef_accountId e)) @
        at_path ''categoryId'' (positive_id (ef_categoryId e)) @
        at_path ''vendor'' (required_text (ef_vendor e)) @
        at_path ''repayment'' (case ef_repayment e of None \<Rightarrow> []
          | Some r \<Rightarrow> repaymentTransactionValidationSchema isValid r))
       [([''timestamp''], invalid_date isValid (Some (ef_timestamp e))),
        ([''ownShareAmount''], exceeds (ef_ownShareAmount e) (ef_amount e)),
        ([''accountId''], isPaidSelf (ef_sharingType e) \<and> ef_accountId e = None),
        ([''companion''], ef_sharingType e = PAID_SELF_SHARED \<and> blank (ef_companion e)),
        ([''payer''], isPaidOther (ef_sharingType e) \<and> blank (ef_payer e)),
        ([''currency''], isPaidOther (ef_sharingType e) \<and> blank (ef_currency e)),
        ([''currency''], isPaidOther (ef_sharingType e) \<and>
           (case truthy_text (ef_currency e) of None \<Rightarrow> False | Some code \<Rightarrow> findByCode code = None)),
        ([''repayment''], ef_sharingType e = PAID_OTHER_REPAID \<and> ef_repayment e = None)]"

definition incomeFormValidationSchema :: "(form_date \<Rightarrow> bool) \<Rightarrow> income_form \<Rightarrow> issue list" where
  "incomeFormValidationSchema isValid i =
     refined
       (at_path ''timestamp'' (date_field (Some (if_timestamp i))) @
        at_path ''amount'' (amount_field (\<lambda>a. a \<ge> 0) (if_amount i)) @
        at_path ''ownShareAmount'' (amount_field (\<lambda>a. a \<ge> 0) (if_ownShareAmount i)) @
        at_path ''accountId'' (positive_id (if_accountId i)) @
        at_path ''categoryId'' (positive_id (if_categoryId i)) @
        at_path ''payer'' (required_text (if_payer i)) @
        at_path ''parentTransactionId'' (nullable_id (if_parentTransactionId i)))
       [([''timestamp''], invalid_date isValid (Some (if_timestamp i))),
        ([''ownShareAmount''], exceeds (if_ownShareAmount i) (if_amount i)),
        ([''companion''], if_isShared i \<and> blank (if_companion i))]"

definition transferFormValidationSchema :: "(form_date \<Rightarrow> bool) \<Rightarrow> transfer_form \<Rightarrow> issue list" where
  "transferFormValidationSchema isValid t =
     refined
       (at_path ''timestamp'' (date_field (Some (xf_timestamp t))) @
        at_path ''amountSent'' (amount_field (\<lambda>a. a > 0) (xf_amountSent t)) @
        at_path ''amountReceived'' (amount_field (\<lambda>a. a > 0) (xf_amountReceived t)) @
        at_path ''fromAccountId'' (positive_id (xf_fromAccountId t)) @
        at_path ''toAccountId'' (positive_id (xf_toAccountId t)) @
        at_path ''categoryId'' (positive_id (xf_categoryId t)))
       [([''timestamp''], invalid_date isValid (Some (xf_timestamp t))),
        ([''toAccountId''], xf_fromAccountId t = xf_toAccountId t)]"

definition variant_present :: "transaction_form \<Rightarrow> bool" where
  "variant_present f =
     (case tf_formType f of
        EXPENSE \<Rightarrow> tf_expense f \<noteq> None
      | INCOME \<Rightarrow> tf_income f \<noteq> None
      | TRANSFER \<Rightarrow> tf_transfer f \<noteq> None)"

definition transactionFormValidationSchema ::
  "(form_date \<Rightarrow> bool) \<Rightarrow> transaction_form \<Rightarrow> issue list" where
  "transactionFormValidationSchema isValid f =
     refined
       (at_path ''expense'' (case tf_expense f of None \<Rightarrow> [] | Some e \<Rightarrow> expenseFormValidationSchema isValid e) @
        at_path ''income'' (case tf_income f of None \<Rightarrow> [] | Some i \<Rightarrow> incomeFormValidationSchema isValid i) @
        at_path ''transfer'' (case tf_transfer f of None \<Rightarrow> [] | Some t \<Rightarrow> transferFormValidationSchema isValid t))
       [([], \<not> variant_present f)]"

text \<open>The data of a successful parse: vendor and payer are trimmed.\<close>

definition trim_expense :: "expense_form \<Rightarrow> expense_form" where
  "trim_expense e = e\<lparr>ef_vendor := trim (ef_vendor e)\<rparr>"

definition trim_income :: "income_form \<Rightarrow> income_form" where
  "trim_income i = i\<lparr>if_payer := trim (if_payer i)\<rparr>"

definition trim_form :: "transaction_form \<Rightarrow> transaction_form" where
  "trim_form f = f\<lparr>tf_expense := map_option trim_expense (tf_expense f),
     tf_income := map_option trim_income (tf_income f)\<rparr>"

definition safeParse ::
  "(form_date \<Rightarrow> bool) \<Rightarrow> transaction_form \<Rightarrow> string list list + transaction_form" where
  "safeParse isValid f =
     (let issues = transactionFormValidationSchema isValid f
      in if issues = [] then Inr (trim_form f) else Inl (map fst issues))"

section \<open>What a valid form is\<close>

named_theorems issue_simps "what it means for a field to have no issue"

lemma at_path_Nil [issue_simps]: "at_path field issues = [] \<longleftrightarrow> issues = []"
  by (simp add: at_path_def)

lemma refined_Nil [issue_simps]:
  "refined base rules = [] \<longleftrightarrow> base = [] \<and> (\<forall>rule \<in> set rules. \<not> snd rule)"
  by (cases base) (auto simp: refined_def filter_empty_conv)

lemma field_Nil [issue_simps]:
  "date_field t = [] \<longleftrightarrow> t \<noteq> None \<and> t \<noteq> Some (FDate None)"
  "amount_field ok amount = [] \<longleftrightarrow> (\<exists>a. amount = Some a \<and> ok a)"
  "positive_id i = [] \<longleftrightarrow> 0 < i"
  "required_id j = [] \<longleftrightarrow> (\<exists>n. j = Some n \<and> 0 < n)"
  "nullable_id j = [] \<longleftrightarrow> (\<forall>n. j = Some n \<longrightarrow> 0 < n)"
  "required_text s = [] \<longleftrightarrow> trim s \<noteq> []"
  by (auto simp: date_field_def amount_field_def positive_id_def required_id_def nullable_id_def
    required_text_def split: option.splits form_date.splits)

definition repayment_valid :: "(form_date \<Rightarrow> bool) \<Rightarrow> repayment_form \<Rightarrow> bool" where
  "repayment_valid isValid r \<longleftrightarrow>
     (\<exists>t. rp_timestamp r = Some t \<and> t \<noteq> FDate None \<and> isValid t) \<and>
     (\<exists>c. rp_categoryId r = Some c \<and> 0 < c) \<and> (\<exists>a. rp_accountId r = Some a \<and> 0 < a)"

definition expense_valid :: "(form_date \<Rightarrow> bool) \<Rightarrow> expense_form \<Rightarrow> bool" where
  "expense_valid isValid e \<longleftrightarrow>
     ef_timestamp e \<noteq> FDate None \<and> isValid (ef_timestamp e) \<and>
     (\<exists>a b. ef_amount e = Some a \<and> ef_ownShareAmount e = Some b \<and> 0 \<le> b \<and> b \<le> a) \<and>
     0 < ef_categoryId e \<and> trim (ef_vendor e) \<noteq> [] \<and>
     (\<forall>i. ef_accountId e = Some i \<longrightarrow> 0 < i) \<and> (\<forall>r. ef_repayment e = Some r \<longrightarrow> repayment_valid isValid r) \<and>
     (isPaidSelf (ef_sharingType e) \<longrightarrow> ef_accountId e \<noteq> None) \<and>
     (ef_sharingType e = PAID_SELF_SHARED \<longrightarrow> \<not> blank (ef_companion e)) \<and>
     (isPaidOther (ef_sharingType e) \<longrightarrow>
        \<not> blank (ef_payer e) \<and> (\<exists>code. ef_currency e = Some code \<and> trim code \<noteq> [] \<and> findByCode code \<noteq> None)) \<and>
     (ef_sharingType e = PAID_OTHER_REPAID \<longrightarrow> ef_repayment e \<noteq> None)"

definition income_valid :: "(form_date \<Rightarrow> bool) \<Rightarrow> income_form \<Rightarrow> bool" where
  "income_valid isValid i \<longleftrightarrow>
     if_timestamp i \<noteq> FDate None \<and> isValid (if_timestamp i) \<and>
     (\<exists>a b. if_amount i = Some a \<and> if_ownShareAmount i = Some b \<and> 0 \<le> b \<and> b \<le> a) \<and>
     0 < if_accountId i \<and> 0 < if_categoryId i \<and> trim (if_payer i) \<noteq> [] \<and>
     (\<forall>p. if_parentTransactionId i = Some p \<longrightarrow> 0 < p) \<and> (if_isShared i \<longrightarrow> \<not> blank (if_companion i))"

definition transfer_valid :: "(form_date \<Rightarrow> bool) \<Rightarrow> transfer_form \<Rightarrow> bool" where
  "transfer_valid isValid t \<longleftrightarrow>
     xf_timestamp t \<noteq> FDate None \<and> isValid (xf_timestamp t) \<and>
     (\<exists>a. xf_amountSent t = Some a \<and> 0 < a) \<and> (\<exists>a. xf_amountReceived t = Some a \<and> 0 < a) \<and>
     0 < xf_fromAccountId t \<and> 0 < xf_toAccountId t \<and> xf_fromAccountId t \<noteq> xf_toAccountId t \<and>
     0 < xf_categoryId t"

lemma repayment_schema_iff [issue_simps]:
  "repaymentTransactionValidationSchema isValid r = [] \<longleftrightarrow> repayment_valid isValid r"
  by (auto simp: repaymentTransactionValidationSchema_def repayment_valid_def invalid_date_def issue_simps
    split: option.splits)

lemma trim_Nil [simp]: "trim [] = []"
  by (simp add: trim_def)

lemma not_blank: "\<not> blank s \<longleftrightarrow> (\<exists>t. s = Some t \<and> trim t \<noteq> [])"
  by (cases s) (auto simp: blank_def)

lemma invalid_date_Some [issue_simps]: "invalid_date isValid (Some t) \<longleftrightarrow> \<not> isValid t"
  by (simp add: invalid_date_def)

lemma amounts_ok:
  "(\<exists>a. amount = Some a \<and> 0 \<le> a) \<and> (\<exists>b. own = Some b \<and> 0 \<le> b) \<and> \<not> exceeds own amount \<longleftrightarrow>
     (\<exists>a b. amount = Some a \<and> own = Some b \<and> 0 \<le> b \<and> b \<le> a)"
  by (cases amount; cases own) (auto simp: exceeds_def)

lemma repayment_field_Nil:
  "(case r of None \<Rightarrow> [] | Some q \<Rightarrow> repaymentTransactionValidationSchema isValid q) = [] \<longleftrightarrow>
     (\<forall>q. r = Some q \<longrightarrow> repayment_valid isValid q)"
  by (cases r) (simp_all add: issue_simps)

lemma expense_schema_iff [issue_simps]:
  "expenseFormValidationSchema isValid e = [] \<longleftrightarrow> expense_valid isValid e"
proof -
  have cur: "(\<not> (isPaidOther s \<and> blank c)) \<and>
      (\<not> (isPaidOther s \<and> (case truthy_text c of None \<Rightarrow> False | Some code \<Rightarrow> findByCode code = None))) \<longleftrightarrow>
      (isPaidOther s \<longrightarrow> (\<exists>code. c = Some code \<and> trim code \<noteq> [] \<and> findByCode code \<noteq> None))" for s c
    by (cases c) (auto simp: blank_def truthy_text_def)
  show ?thesis
    using cur [of "ef_sharingType e" "ef_currency e"]
      amounts_ok [of "ef_amount e" "ef_ownShareAmount e"]
    by (simp add: expenseFormValidationSchema_def expense_valid_def issue_simps repayment_field_Nil) blast
qed

lemma income_schema_iff [issue_simps]:
  "incomeFormValidationSchema isValid i = [] \<longleftrightarrow> income_valid isValid i"
  using amounts_ok [of "if_amount i" "if_ownShareAmount i"]
  by (simp add: incomeFormValidationSchema_def income_valid_def issue_simps) blast

lemma transfer_schema_iff [issue_simps]:
  "transferFormValidationSchema isValid t = [] \<longleftrightarrow> transfer_valid isValid t"
  by (simp add: transferFormValidationSchema_def transfer_valid_def issue_simps) blast

lemma safeParse_Inr:
  "safeParse isValid f = Inr g \<longleftrightarrow> g = trim_form f \<and> variant_present f \<and>
     (\<forall>e. tf_expense f = Some e \<longrightarrow> expense_valid isValid e) \<and>
     (\<forall>i. tf_income f = Some i \<longrightarrow> income_valid isValid i) \<and>
     (\<forall>t. tf_transfer f = Some t \<longrightarrow> transfer_valid isValid t)"
  by (auto simp: safeParse_def transactionFormValidationSchema_def issue_simps Let_def split: option.splits)

section \<open>Properties\<close>

text \<open>
  What the validation accepts. A form parses exactly when the variant of its type is present
  and every variant present satisfies its field rules and the rules across fields; the parsed data
  is the form with vendor and payer trimmed.
\<close>
theorem safeParse_accepts:
  "safeParse isValid f = Inr g \<longleftrightarrow> g = trim_form f \<and> variant_present f \<and>
     (\<forall>e. tf_expense f = Some e \<longrightarrow> expense_valid isValid e) \<and>
     (\<forall>i. tf_income f = Some i \<longrightarrow> income_valid isValid i) \<and>
     (\<forall>t. tf_transfer f = Some t \<longrightarrow> transfer_valid isValid t)"
  by (rule safeParse_Inr)

theorem safeParse_accepts_witness:
  "safeParse (\<lambda>_. True) (transfer_values sample_transfer_form) = Inr (transfer_values sample_transfer_form)"
  unfolding safeParse_accepts
  by (simp add: trim_form_def form_values_defs variant_present_def transfer_valid_def sample_transfer_form_def)

end
