(* ===== verification/ConfigForms.thy ===== *)
theory ConfigForms
  imports FormValidation ClientModel
begin

text \<open>
  The configuration of banks and accounts: the schemas of \<open>lib/form-types\<close>, the server actions of
  \<open>actions/config\<close>, the forms \<open>BankForm.tsx\<close> and \<open>AccountForm.tsx\<close>, and the page state of
  \<open>BanksConfigPage.tsx\<close>. The value of an input is a \<open>field_value\<close>: a number, a text or nothing. The
  gRPC client (a request to the identifier in the response, or nothing when the call fails) and the
  session are parameters, and so are the messages \<open>zod\<close> attaches to its issues. A number sent in an
  \<open>int32\<close> field must be an integer of 32 bits, or the generated encoder throws.
\<close>

section \<open>Values of inputs\<close>

datatype field_value = FieldNumber rat | FieldNaN | FieldText string | FieldUndefined

text \<open>
  \<open>Number(s)\<close> on decimal literals, the only texts a number input produces; \<open>parseInt(s, 10)\<close>.
\<close>

definition decimal_exponent :: "string \<Rightarrow> rat option" where
  "decimal_exponent s =
     (let negative = starts_with s ''-'';
          ds = (if negative \<or> starts_with s ''+'' then drop 1 s else s)
      in if ds = [] \<or> \<not> list_all is_digit ds then None
         else if negative then Some (1 / 10 ^ nat (digits_value ds))
         else Some (10 ^ nat (digits_value ds)))"

definition decimal_literal :: "string \<Rightarrow> rat option" where
  "decimal_literal s =
     (let whole = takeWhile is_digit s;
          r = dropWhile is_digit s;
          fraction = (if starts_with r ''.'' then takeWhile is_digit (drop 1 r) else []);
          r' = (if starts_with r ''.'' then dropWhile is_digit (drop 1 r) else r);
          mantissa = of_int (digits_value (whole @ fraction)) / 10 ^ length fraction
      in if whole = [] \<and> fraction = [] then None
         else case r' of
                [] \<Rightarrow> Some mantissa
              | c # e \<Rightarrow>
                if c = CHR ''e'' \<or> c = CHR ''E'' then map_option (\<lambda>x. mantissa * x) (decimal_exponent e)
                else None)"

definition js_Number :: "string \<Rightarrow> rat option" where
  "js_Number s =
     (let t = trim s;
          negative = starts_with t ''-'';
          u = (if negative \<or> starts_with t ''+'' then drop 1 t else t)
      in if t = [] then Some 0
         else map_option (\<lambda>x. f64 (if negative then - x else x)) (decimal_literal u))"

definition parseInt :: "string \<Rightarrow> field_value" where
  "parseInt s =
     (let t = dropWhile is_space s;
          negative = starts_with t ''-'';
          ds = takeWhile is_digit (if negative \<or> starts_with t ''+'' then drop 1 t else t)
      in if ds = [] then FieldNaN
         else FieldNumber (f64 (of_int (if negative then - digits_value ds else digits_value ds))))"

section \<open>Schemas\<close>

datatype zod_code = TooSmall | InvalidType | InvalidUnion | CustomCode string

type_synonym config_issue = "string list \<times> zod_code"

definition on_field :: "string \<Rightarrow> zod_code list \<Rightarrow> config_issue list" where
  "on_field field codes = map (\<lambda>c. ([field], c)) codes"

definition nonempty_string :: "string \<Rightarrow> zod_code list" where
  "nonempty_string s = (if length s < 1 then [TooSmall] else [])"

definition zod_number :: "field_value \<Rightarrow> zod_code list" where
  "zod_number v = (case v of FieldNumber _ \<Rightarrow> [] | _ \<Rightarrow> [InvalidType])"

definition number_of :: "field_value \<Rightarrow> rat" where
  "number_of v = (case v of FieldNumber x \<Rightarrow> x | _ \<Rightarrow> 0)"

definition coerce_number :: "field_value \<Rightarrow> field_value" where
  "coerce_number v =
     (case v of
        FieldNumber x \<Rightarrow> FieldNumber x
      | FieldText s \<Rightarrow> (case js_Number s of Some x \<Rightarrow> FieldNumber x | None \<Rightarrow> FieldNaN)
      | _ \<Rightarrow> FieldNaN)"

definition optional_positive :: "field_value \<Rightarrow> zod_code list" where
  "optional_positive v =
     (case v of
        FieldUndefined \<Rightarrow> []
      | FieldNumber x \<Rightarrow> (if x > 0 then [] else [TooSmall])
      | _ \<Rightarrow> [InvalidType])"

record bank_form =
  bkf_name :: string
  bkf_displayOrder :: field_value

record bank_data =
  bkd_name :: string
  bkd_displayOrder :: rat

definition bankFormValidationSchema :: "bank_form \<Rightarrow> config_issue list" where
  "bankFormValidationSchema f =
     on_field ''name'' (nonempty_string (bkf_name f)) @
     on_field ''displayOrder'' (zod_number (bkf_displayOrder f))"

definition parse_bank :: "bank_form \<Rightarrow> config_issue list + bank_data" where
  "parse_bank f =
     (let issues = bankFormValidationSchema f
      in if issues = []
         then Inr \<lparr>bkd_name = bkf_name f, bkd_displayOrder = number_of (bkf_displayOrder f)\<rparr>
         else Inl issues)"

record stock_unit =
  su_ticker :: string
  su_exchange :: string
  su_name :: string
  su_currencyCode :: string
  su_pricePerShareNanos :: "rat option"

datatype unit_schema = CurrencyChoice string | StockChoice stock_unit

definition unit_is_valid :: "unit_schema \<Rightarrow> bool" where
  "unit_is_valid u =
     (case u of
        CurrencyChoice code \<Rightarrow> length code \<ge> 1
      | StockChoice s \<Rightarrow> length (su_ticker s) \<ge> 1 \<and> length (su_exchange s) \<ge> 1 \<and>
          length (su_name s) \<ge> 1 \<and> length (su_currencyCode s) \<ge> 1)"

record account_form =
  acf_name :: string
  acf_unit :: unit_schema
  acf_isJoint :: bool
  acf_isArchived :: bool
  acf_initialBalance :: field_value
  acf_displayOrder :: field_value
  acf_bankId :: int

record account_data =
  acd_name :: string
  acd_unit :: unit_schema
  acd_isJoint :: bool
  acd_isArchived :: bool
  acd_initialBalance :: rat
  acd_displayOrder :: rat
  acd_bankId :: int

definition accountFormValidationSchema :: "account_form \<Rightarrow> config_issue list" where
  "accountFormValidationSchema f =
     on_field ''name'' (nonempty_string (acf_name f)) @
     on_field ''unit'' (if unit_is_valid (acf_unit f) then [] else [InvalidUnion]) @
     on_field ''initialBalance'' (zod_number (coerce_number (acf_initialBalance f))) @
     on_field ''displayOrder'' (zod_number (acf_displayOrder f))"

definition parse_account :: "account_form \<Rightarrow> config_issue list + account_data" where
  "parse_account f =
     (let issues = accountFormValidationSchema f
      in if issues = []
         then Inr \<lparr>acd_name = acf_name f, acd_unit = acf_unit f, acd_isJoint = acf_isJoint f,
                acd_isArchived = acf_isArchived f,
                acd_initialBalance = number_of (coerce_number (acf_initialBalance f)),
                acd_displayOrder = number_of (acf_displayOrder f), acd_bankId = acf_bankId f\<rparr>
         else Inl issues)"

record category_form =
  ctf_name :: string
  ctf_displayOrder :: field_value
  ctf_parentCategoryId :: field_value

record category_data =
  ctd_name :: string
  ctd_displayOrder :: rat
  ctd_parentCategoryId :: "rat option"

definition categoryFormValidationSchema :: "category_form \<Rightarrow> config_issue list" where
  "categoryFormValidationSchema f =
     on_field ''name'' (nonempty_string (ctf_name f)) @
     on_field ''displayOrder'' (zod_number (ctf_displayOrder f)) @
     on_field ''parentCategoryId'' (optional_positive (ctf_parentCategoryId f))"

definition parse_category :: "category_form \<Rightarrow> config_issue list + category_data" where
  "parse_category f =
     (let issues = categoryFormValidationSchema f
      in if issues = []
         then Inr \<lparr>ctd_name = ctf_name f, ctd_displayOrder = number_of (ctf_displayOrder f),
                ctd_parentCategoryId =
                  (case ctf_parentCategoryId f of FieldNumber x \<Rightarrow> Some x | _ \<Rightarrow> None)\<rparr>
         else Inl issues)"

section \<open>Errors shown on a form\<close>

record flattened_error =
  fe_formErrors :: "string list"
  fe_fieldErrors :: "(string, string list) js_map"

definition flatten_issues :: "(zod_code \<Rightarrow> string) \<Rightarrow> config_issue list \<Rightarrow> flattened_error" where
  "flatten_issues message issues =
     \<lparr>fe_formErrors = map (message \<circ> snd) (filter (\<lambda>i. fst i = []) issues),
      fe_fieldErrors = foldl (\<lambda>m i. am_increment (@) [] (hd (fst i)) [message (snd i)] m) []
        (filter (\<lambda>i. fst i \<noteq> []) issues)\<rparr>"

definition setFormErrors :: "flattened_error \<Rightarrow> (string \<times> string) list" where
  "setFormErrors errors =
     (if length (fe_formErrors errors) > 0 then [(''root'', join '', '' (fe_formErrors errors))] else []) @
     map (\<lambda>(field, messages). (field, join '', '' messages))
       (filter (\<lambda>(field, messages). length messages > 0) (fe_fieldErrors errors))"

datatype 'a action_response = ClientError flattened_error | Saved 'a

text \<open>
  What a submission leaves on the form: the issues of the resolver, the errors the action returned,
  the error it threw (shown on the root), or the saved value.
\<close>

datatype 'a submitted =
    RefusedByResolver "config_issue list"
  | ErrorsShown "(string \<times> string) list"
  | SaveFailed js_error
  | Done 'a

definition submit_form ::
  "('form \<Rightarrow> config_issue list + 'data) \<Rightarrow> ('data \<Rightarrow> 'req list \<times> 'a action_response result) \<Rightarrow>
     'form \<Rightarrow> 'req list \<times> 'a submitted" where
  "submit_form resolver action values =
     (case resolver values of
        Inl issues \<Rightarrow> ([], RefusedByResolver issues)
      | Inr data \<Rightarrow>
        (case action data of
           (reqs, Inl e) \<Rightarrow> (reqs, SaveFailed e)
         | (reqs, Inr (ClientError errors)) \<Rightarrow> (reqs, ErrorsShown (setFormErrors errors))
         | (reqs, Inr (Saved x)) \<Rightarrow> (reqs, Done x)))"

section \<open>Server actions\<close>

definition int32_field :: "rat \<Rightarrow> int result" where
  "int32_field x =
     (if of_int \<lfloor>x\<rfloor> = x \<and> - (2 ^ 31) \<le> \<lfloor>x\<rfloor> \<and> \<lfloor>x\<rfloor> < 2 ^ 31 then Inr \<lfloor>x\<rfloor> else Inl BackendFailed)"

definition call_backend ::
  "('req \<Rightarrow> 'resp option) \<Rightarrow> ('resp \<Rightarrow> 'a) \<Rightarrow> 'req result \<Rightarrow> 'req list \<times> 'a action_response result" where
  "call_backend rpc respond request =
     (case request of
        Inl e \<Rightarrow> ([], Inl e)
      | Inr req \<Rightarrow>
        (case rpc req of
           None \<Rightarrow> ([req], Inl BackendFailed)
         | Some resp \<Rightarrow> ([req], Inr (Saved (respond resp)))))"

definition upsertBank ::
  "(zod_code \<Rightarrow> string) \<Rightarrow> string option \<Rightarrow> (pb_bank \<Rightarrow> int option) \<Rightarrow> int option \<Rightarrow> bank_form \<Rightarrow>
     pb_bank list \<times> pb_bank action_response result" where
  "upsertBank message session rpc bankId unsafeData =
     (case session of
        None \<Rightarrow> ([], Inl NotAuthenticated)
      | Some _ \<Rightarrow>
        (case parse_bank unsafeData of
           Inl issues \<Rightarrow> ([], Inr (ClientError (flatten_issues message issues)))
         | Inr data \<Rightarrow>
           (case int32_field (bkd_displayOrder data) of
              Inl e \<Rightarrow> ([], Inl e)
            | Inr displayOrder \<Rightarrow>
              call_backend rpc
                (\<lambda>i. \<lparr>pbb_id = i, pbb_name = bkd_name data, pbb_displayOrder = displayOrder\<rparr>)
                (Inr \<lparr>pbb_id = (case bankId of None \<Rightarrow> 0 | Some i \<Rightarrow> i), pbb_name = bkd_name data,
                   pbb_displayOrder = displayOrder\<rparr>))))"

datatype account_unit_input = CurrencyCodeInput string | StockInput string string

definition unitInputFromForm :: "unit_schema \<Rightarrow> account_unit_input" where
  "unitInputFromForm u =
     (case u of
        CurrencyChoice code \<Rightarrow> CurrencyCodeInput code
      | StockChoice s \<Rightarrow> StockInput (su_exchange s) (su_ticker s))"

record account_request =
  ar_accountId :: "int option"
  ar_name :: string
  ar_bankId :: int
  ar_joint :: bool
  ar_archived :: bool
  ar_displayOrder :: int
  ar_initialBalanceNanos :: int
  ar_unit :: account_unit_input

definition upsertBankAccount ::
  "(zod_code \<Rightarrow> string) \<Rightarrow> string option \<Rightarrow> (account_request \<Rightarrow> int option) \<Rightarrow> int option \<Rightarrow>
     account_form \<Rightarrow> account_request list \<times> pb_bank_account action_response result" where
  "upsertBankAccount message session rpc accountId unsafeData =
     (case session of
        None \<Rightarrow> ([], Inl NotAuthenticated)
      | Some _ \<Rightarrow>
        (case parse_account unsafeData of
           Inl issues \<Rightarrow> ([], Inr (ClientError (flatten_issues message issues)))
         | Inr data \<Rightarrow>
           (case int32_field (acd_displayOrder data) of
              Inl e \<Rightarrow> ([], Inl e)
            | Inr displayOrder \<Rightarrow>
              let initialBalanceNanos = dollarToNanos (acd_initialBalance data)
              in call_backend rpc
                (\<lambda>i. \<lparr>pba_id = i, pba_name = acd_name data, pba_bankId = acd_bankId data,
                   pba_initialBalanceNanos = initialBalanceNanos, pba_currencyCode = None, pba_stock = None,
                   pba_displayOrder = displayOrder, pba_archived = acd_isArchived data,
                   pba_joint = acd_isJoint data\<rparr>)
                (Inr \<lparr>ar_accountId = accountId, ar_name = acd_name data, ar_bankId = acd_bankId data,
                   ar_joint = acd_isJoint data, ar_archived = acd_isArchived data,
                   ar_displayOrder = displayOrder, ar_initialBalanceNanos = initialBalanceNanos,
                   ar_unit = unitInputFromForm (acd_unit data)\<rparr>))))"

definition upsertCategory ::
  "(zod_code \<Rightarrow> string) \<Rightarrow> string option \<Rightarrow> (pb_category \<Rightarrow> int option) \<Rightarrow> int option \<Rightarrow>
     category_form \<Rightarrow> pb_category list \<times> pb_category action_response result" where
  "upsertCategory message session rpc categoryId unsafeData =
     (case session of
        None \<Rightarrow> ([], Inl NotAuthenticated)
      | Some _ \<Rightarrow>
        (case parse_category unsafeData of
           Inl issues \<Rightarrow> ([], Inr (ClientError (flatten_issues message issues)))
         | Inr data \<Rightarrow>
           (case bind_result (int32_field (ctd_displayOrder data)) (\<lambda>displayOrder.
                   case ctd_parentCategoryId data of
                     None \<Rightarrow> Inr (displayOrder, None)
                   | Some p \<Rightarrow> map_sum id (\<lambda>i. (displayOrder, Some i)) (int32_field p)) of
              Inl e \<Rightarrow> ([], Inl e)
            | Inr (displayOrder, parent) \<Rightarrow>
              call_backend rpc
                (\<lambda>i. \<lparr>pbc_id = i, pbc_name = ctd_name data, pbc_displayOrder = displayOrder,
                   pbc_parentCategoryId = parent\<rparr>)
                (Inr \<lparr>pbc_id = (case categoryId of None \<Rightarrow> 0 | Some i \<Rightarrow> i), pbc_name = ctd_name data,
                   pbc_displayOrder = displayOrder, pbc_parentCategoryId = parent\<rparr>))))"

section \<open>The forms\<close>

definition bank_form_values :: "bank option \<Rightarrow> int \<Rightarrow> bank_form" where
  "bank_form_values b displayOrder =
     \<lparr>bkf_name = (case b of None \<Rightarrow> [] | Some x \<Rightarrow> bank_name x),
      bkf_displayOrder = FieldNumber (of_int (case b of None \<Rightarrow> displayOrder | Some x \<Rightarrow> bank_displayOrder x))\<rparr>"

definition bank_data_values :: "bank_data \<Rightarrow> bank_form" where
  "bank_data_values d = \<lparr>bkf_name = bkd_name d, bkf_displayOrder = FieldNumber (bkd_displayOrder d)\<rparr>"

definition submit_bank ::
  "(zod_code \<Rightarrow> string) \<Rightarrow> string option \<Rightarrow> (pb_bank \<Rightarrow> int option) \<Rightarrow> bank option \<Rightarrow> bank_form \<Rightarrow>
     pb_bank list \<times> pb_bank submitted" where
  "submit_bank message session rpc b values =
     submit_form parse_bank
       (\<lambda>data. upsertBank message session rpc (map_option bank_id b) (bank_data_values data)) values"

text \<open>The inputs hand the text typed by the user to the form.\<close>

definition type_bank_displayOrder :: "string \<Rightarrow> bank_form \<Rightarrow> bank_form" where
  "type_bank_displayOrder s f = f\<lparr>bkf_displayOrder := FieldText s\<rparr>"

definition useDefaultUnitValue :: "currency \<Rightarrow> unit_schema" where
  "useDefaultUnitValue displayCurrency = CurrencyChoice (cur_code displayCurrency)"

definition account_unit_choice :: "bank_account \<Rightarrow> stock list \<Rightarrow> unit_schema result" where
  "account_unit_choice account stocks =
     (case acc_stock account of
        Some key \<Rightarrow>
          (case find (\<lambda>s. sk_exchange s = sk_exchange key \<and> sk_ticker s = sk_ticker key) stocks of
             None \<Rightarrow> Inl (StockNotFound (sk_exchange key) (sk_ticker key))
           | Some s \<Rightarrow> Inr (StockChoice \<lparr>su_ticker = sk_ticker s, su_exchange = sk_exchange s,
               su_name = stock_name s, su_currencyCode = stock_currencyCode s, su_pricePerShareNanos = None\<rparr>))
      | None \<Rightarrow>
        (case acc_currencyCode account of
           Some (c # code) \<Rightarrow>
             bind_result (mustFindByCode (c # code)) (\<lambda>found. Inr (CurrencyChoice (cur_code found)))
         | _ \<Rightarrow> Inl (AccountHasNoUnit (acc_id account))))"

definition useInitialFormValues ::
  "currency \<Rightarrow> bank \<Rightarrow> bank_account list \<Rightarrow> stock list \<Rightarrow> bank_account option \<Rightarrow> account_form result" where
  "useInitialFormValues displayCurrency b bankAccounts stocks bankAccount =
     (case bankAccount of
        None \<Rightarrow> Inr \<lparr>acf_name = [], acf_unit = useDefaultUnitValue displayCurrency, acf_isJoint = False,
          acf_isArchived = False, acf_initialBalance = FieldNumber 0,
          acf_displayOrder = FieldNumber (of_nat (100 * length (filter (\<lambda>a. acc_bankId a = bank_id b) bankAccounts))),
          acf_bankId = bank_id b\<rparr>
      | Some account \<Rightarrow>
        bind_result (account_unit_choice account stocks) (\<lambda>u.
          Inr \<lparr>acf_name = acc_name account, acf_unit = u, acf_isJoint = acc_joint account,
            acf_isArchived = acc_archived account,
            acf_initialBalance = FieldNumber (nanosToDollar (acc_initialBalanceNanos account)),
            acf_displayOrder = FieldNumber (of_int (acc_displayOrder account)), acf_bankId = bank_id b\<rparr>))"

definition account_data_values :: "account_data \<Rightarrow> account_form" where
  "account_data_values d =
     \<lparr>acf_name = acd_name d, acf_unit = acd_unit d, acf_isJoint = acd_isJoint d,
      acf_isArchived = acd_isArchived d, acf_initialBalance = FieldNumber (acd_initialBalance d),
      acf_displayOrder = FieldNumber (acd_displayOrder d), acf_bankId = acd_bankId d\<rparr>"

definition submit_account ::
  "(zod_code \<Rightarrow> string) \<Rightarrow> string option \<Rightarrow> (account_request \<Rightarrow> int option) \<Rightarrow> bank_account option \<Rightarrow>
     account_form \<Rightarrow> account_request list \<times> pb_bank_account submitted" where
  "submit_account message session rpc account values =
     submit_form parse_account
       (\<lambda>data. upsertBankAccount message session rpc (map_option acc_id account) (account_data_values data))
       values"

section \<open>The page of banks\<close>

text \<open>The state the page keeps (\<open>useState\<close>) and the callbacks of its forms.\<close>

record banks_page =
  bp_banks :: "pb_bank list"
  bp_accounts :: "pb_bank_account list"
  bp_stocks :: "pb_stock list"

definition bank_saved :: "pb_bank \<Rightarrow> banks_page \<Rightarrow> banks_page" where
  "bank_saved x p = p\<lparr>bp_banks := updateOrAppend pbb_id (bp_banks p) x\<rparr>"

definition account_saved :: "pb_bank_account \<Rightarrow> banks_page \<Rightarrow> banks_page" where
  "account_saved x p = p\<lparr>bp_accounts := updateOrAppend pba_id (bp_accounts p) x\<rparr>"

definition page_model :: "banks_page \<Rightarrow> (bank list \<times> bank_account list \<times> stock list) result" where
  "page_model p = banksModelFromDatabaseData (bp_banks p) (bp_accounts p) (bp_stocks p)"

text \<open>What the page lists: every bank with its accounts.\<close>

definition listed_banks :: "bank list \<Rightarrow> bank_account list \<Rightarrow> (bank \<times> bank_account list) list" where
  "listed_banks banks accounts =
     map (\<lambda>b. (b, filter (\<lambda>x. acc_bankId x = bank_id b) (filter (\<lambda>x. acc_bankId x = bank_id b) accounts))) banks"

inductive banks_page_step ::
  "(zod_code \<Rightarrow> string) \<Rightarrow> string option \<Rightarrow> (pb_bank \<Rightarrow> int option) \<Rightarrow> (account_request \<Rightarrow> int option) \<Rightarrow>
     banks_page \<Rightarrow> banks_page \<Rightarrow> bool"
  for message session bankRpc accountRpc where
  save_bank: "page_model p = Inr (banks, accounts, stocks) \<Longrightarrow> b \<in> insert None (Some ` set banks) \<Longrightarrow>
    submit_bank message session bankRpc b values = (reqs, Done x) \<Longrightarrow>
    banks_page_step message session bankRpc accountRpc p (bank_saved x p)"
| save_account: "page_model p = Inr (banks, accounts, stocks) \<Longrightarrow> b \<in> set banks \<Longrightarrow>
    account \<in> insert None (Some ` set (accountsForBank b accounts)) \<Longrightarrow> acf_bankId values = bank_id b \<Longrightarrow>
    submit_account message session accountRpc account values = (reqs, Done x) \<Longrightarrow>
    banks_page_step message session bankRpc accountRpc p (account_saved x p)"

section \<open>What the schemas accept\<close>

named_theorems config_simps "facts that evaluate the configuration forms"

lemma on_field_Nil [config_simps]: "on_field field codes = [] \<longleftrightarrow> codes = []"
  by (simp add: on_field_def)

lemma nonempty_string_Nil [config_simps]: "nonempty_string s = [] \<longleftrightarrow> s \<noteq> []"
  by (cases s) (simp_all add: nonempty_string_def)

lemma zod_number_Nil [config_simps]: "zod_number v = [] \<longleftrightarrow> (\<exists>x. v = FieldNumber x)"
  by (cases v) (simp_all add: zod_number_def)

lemma optional_positive_Nil [config_simps]:
  "optional_positive v = [] \<longleftrightarrow> v = FieldUndefined \<or> (\<exists>x > 0. v = FieldNumber x)"
  by (cases v) (simp_all add: optional_positive_def)

lemma number_of_FieldNumber [simp]: "number_of (FieldNumber x) = x"
  by (simp add: number_of_def)

lemma coerce_FieldNumber [simp]: "coerce_number (FieldNumber x) = FieldNumber x"
  by (simp add: coerce_number_def)

lemma parse_bank_Inr:
  "parse_bank f = Inr d \<longleftrightarrow> bkd_name d \<noteq> [] \<and> f = bank_data_values d"
  by (cases f; cases d) (auto simp: parse_bank_def bankFormValidationSchema_def bank_data_values_def
      config_simps)

lemma parse_account_Inr:
  "parse_account f = Inr d \<longleftrightarrow> acd_name d \<noteq> [] \<and> unit_is_valid (acd_unit d) \<and>
     f\<lparr>acf_initialBalance := coerce_number (acf_initialBalance f)\<rparr> = account_data_values d"
  by (cases f; cases d) (auto simp: parse_account_def accountFormValidationSchema_def
      account_data_values_def config_simps)

lemma int32_field_of_int [simp]:
  "- (2 ^ 31) \<le> i \<Longrightarrow> i < 2 ^ 31 \<Longrightarrow> int32_field (of_int i) = Inr i"
  by (simp add: int32_field_def)

lemma call_backend_Saved:
  "call_backend rpc respond request = (reqs, Inr (Saved x)) \<longleftrightarrow>
     (\<exists>req resp. request = Inr req \<and> reqs = [req] \<and> rpc req = Some resp \<and> x = respond resp)"
  by (auto simp: call_backend_def split: sum.splits option.splits)

lemma submit_form_Done:
  "submit_form resolver action values = (reqs, Done x) \<longleftrightarrow>
     (\<exists>data. resolver values = Inr data \<and> action data = (reqs, Inr (Saved x)))"
  by (auto simp: submit_form_def split: sum.splits prod.splits action_response.splits)

lemma parse_bank_values [simp]: "bkd_name d \<noteq> [] \<Longrightarrow> parse_bank (bank_data_values d) = Inr d"
  by (simp add: parse_bank_Inr)

lemma parse_account_values [simp]:
  "acd_name d \<noteq> [] \<Longrightarrow> unit_is_valid (acd_unit d) \<Longrightarrow> parse_account (account_data_values d) = Inr d"
  by (simp add: parse_account_Inr) (simp add: account_data_values_def)

lemma submit_bank_Done:
  assumes "submit_bank message session rpc b values = (reqs, Done x)"
  shows "\<exists>displayOrder. bkf_displayOrder values = FieldNumber (of_int displayOrder) \<and>
    reqs = [\<lparr>pbb_id = (case b of None \<Rightarrow> 0 | Some y \<Rightarrow> bank_id y), pbb_name = bkf_name values,
      pbb_displayOrder = displayOrder\<rparr>] \<and>
    rpc (hd reqs) = Some (pbb_id x) \<and> pbb_name x = bkf_name values \<and> pbb_displayOrder x = displayOrder"
proof -
  obtain d where d: "parse_bank values = Inr d"
    and act: "upsertBank message session rpc (map_option bank_id b) (bank_data_values d) = (reqs, Inr (Saved x))"
    using assms by (auto simp: submit_bank_def submit_form_Done)
  have v: "bkd_name d \<noteq> []" "values = bank_data_values d" using d by (simp_all add: parse_bank_Inr)
  obtain o' where o': "int32_field (bkd_displayOrder d) = Inr o'"
    using act v by (cases "int32_field (bkd_displayOrder d)")
      (auto simp: upsertBank_def split: option.splits)
  have "of_int o' = bkd_displayOrder d"
    using o' by (auto simp: int32_field_def split: if_splits)
  moreover have "bkf_name values = bkd_name d" "bkf_displayOrder values = FieldNumber (bkd_displayOrder d)"
    using v by (simp_all add: bank_data_values_def)
  ultimately show ?thesis
    using act v(1) o' by (intro exI [of _ o'])
      (auto simp: upsertBank_def call_backend_Saved split: option.splits)
qed

lemma submit_account_Done:
  assumes "submit_account message session rpc account values = (reqs, Done x)"
  shows "pba_bankId x = acf_bankId values \<and> pba_name x = acf_name values \<and>
    pba_currencyCode x = None \<and> pba_stock x = None \<and>
    (\<exists>req. reqs = [req] \<and> ar_accountId req = map_option acc_id account \<and> rpc req = Some (pba_id x) \<and>
       ar_unit req = unitInputFromForm (acf_unit values))"
proof -
  obtain d where d: "parse_account values = Inr d"
    and act: "upsertBankAccount message session rpc (map_option acc_id account) (account_data_values d) =
      (reqs, Inr (Saved x))"
    using assms by (auto simp: submit_account_def submit_form_Done)
  have v: "acd_name d \<noteq> []" "unit_is_valid (acd_unit d)" "acf_bankId values = acd_bankId d"
      "acf_name values = acd_name d" "acf_unit values = acd_unit d"
    using d by (cases "values"; simp add: parse_account_Inr account_data_values_def)+
  show ?thesis
    using act v by (auto simp: upsertBankAccount_def call_backend_Saved Let_def
        split: option.splits sum.splits)
qed

section \<open>The page of banks keeps its data consistent\<close>

lemma updateOrAppend_keys:
  "map key (updateOrAppend key xs x) =
     (if key x \<in> key ` set xs then map key xs else map key xs @ [key x])"
proof -
  have "list_ex (\<lambda>y. key y = key x) xs \<longleftrightarrow> key x \<in> key ` set xs"
    unfolding list_ex_iff image_iff by metis
  then show ?thesis by (auto simp: updateOrAppend_def Let_def)
qed

lemma updateOrAppend_set: "set (updateOrAppend key xs x) = insert x {y \<in> set xs. key y \<noteq> key x}"
  by (auto simp: updateOrAppend_def Let_def list_ex_iff image_iff)

lemma updateOrAppend_distinct:
  "distinct (map key xs) \<Longrightarrow> distinct (map key (updateOrAppend key xs x))"
  by (auto simp: updateOrAppend_keys)

lemma updateOrAppend_key_set: "key ` set (updateOrAppend key xs x) = insert (key x) (key ` set xs)"
  by (auto simp: updateOrAppend_set)

definition banks_page_ok :: "banks_page \<Rightarrow> bool" where
  "banks_page_ok p \<longleftrightarrow> distinct (map pbb_id (bp_banks p)) \<and> distinct (map pba_id (bp_accounts p)) \<and>
     pba_bankId ` set (bp_accounts p) \<subseteq> pbb_id ` set (bp_banks p)"

lemma map_result_defined: "(\<exists>ys. map_result f xs = Inr ys) \<longleftrightarrow> (\<forall>x \<in> set xs. \<exists>y. f x = Inr y)"
  by (induction xs) (auto simp: result_simps)

lemma page_model_total:
  "(\<exists>m. page_model p = Inr m) \<longleftrightarrow> pba_bankId ` set (bp_accounts p) \<subseteq> pbb_id ` set (bp_banks p)"
proof -
  have get: "(\<exists>b. jm_get (jm_of_entries (map (\<lambda>b. (bank_id b, b)) bs)) i = Some b) \<longleftrightarrow> i \<in> bank_id ` set bs"
    for bs :: "bank list" and i
    using find_key_total [of bank_id i "rev bs"] by (simp add: jm_get_index)
  have eq: "bank_id ` bankModelFromDB ` set bs = pbb_id ` set bs" for bs
    by (simp add: image_image bankModelFromDB_def)
  show ?thesis
    unfolding page_model_def banksModelFromDatabaseData_def Let_def
    by (auto simp: result_simps map_result_defined mustBank_def get eq bankAccountModelFromDB_def)
qed

lemma page_model_banks:
  assumes "page_model p = Inr (banks, accounts, stocks)"
  shows "bank_id ` set banks = pbb_id ` set (bp_banks p)"
    "set accounts = bankAccountModelFromDB ` set (bp_accounts p)"
  using assms unfolding page_model_def banksModelFromDatabaseData_def Let_def
  by (auto simp: result_simps image_image bankModelFromDB_def)

inductive_cases banks_page_stepE: "banks_page_step message session bankRpc accountRpc p q"

lemma banks_page_step_ok:
  assumes step: "banks_page_step message session bankRpc accountRpc p q" and ok: "banks_page_ok p"
  shows "banks_page_ok q"
  using step
proof cases
  case (save_bank banks accounts stocks b "values" reqs x)
  then show ?thesis
    using ok by (auto simp: banks_page_ok_def bank_saved_def updateOrAppend_distinct updateOrAppend_key_set)
next
  case (save_account banks accounts stocks b account "values" reqs x)
  then have "pba_bankId x \<in> pbb_id ` set (bp_banks p)"
    using submit_account_Done page_model_banks(1) by (metis imageI)
  then show ?thesis
    using ok save_account(1) by (auto simp: banks_page_ok_def account_saved_def updateOrAppend_distinct
        updateOrAppend_set)
qed

lemma banks_page_reachable_ok:
  "(banks_page_step message session bankRpc accountRpc)\<^sup>*\<^sup>* p q \<Longrightarrow> banks_page_ok p \<Longrightarrow> banks_page_ok q"
  by (induction rule: rtranclp_induct) (auto intro: banks_page_step_ok)

lemma mset_listed_banks:
  assumes "distinct (map bank_id banks)" "acc_bankId ` set accounts \<subseteq> bank_id ` set banks"
  shows "mset (concat (map snd (listed_banks banks accounts))) = mset accounts"
  using assms(2)
proof (induction accounts)
  case Nil
  then show ?case by (simp add: listed_banks_def comp_def)
next
  case (Cons a as)
  obtain b where b: "b \<in> set banks" "bank_id b = acc_bankId a" using Cons.prems by auto
  obtain xs ys where xs: "banks = xs @ b # ys" using b(1) by (meson split_list)
  have other: "bank_id c \<noteq> acc_bankId a" if "c \<in> set xs \<union> set ys" for c
  proof -
    have "bank_id c \<noteq> bank_id b" using assms(1) that unfolding xs by (auto simp: image_iff)
    then show ?thesis using b(2) by simp
  qed
  have skip: "concat (map snd (listed_banks zs (a # as))) = concat (map snd (listed_banks zs as))"
    if "set zs \<subseteq> set xs \<union> set ys" for zs
  proof -
    have "map snd (listed_banks zs (a # as)) = map snd (listed_banks zs as)"
      using that other by (fastforce simp: listed_banks_def)
    then show ?thesis by simp
  qed
  have split: "listed_banks banks l = listed_banks xs l @ listed_banks [b] l @ listed_banks ys l" for l
    by (simp add: listed_banks_def xs)
  have "mset (concat (map snd (listed_banks banks (a # as)))) =
      add_mset a (mset (concat (map snd (listed_banks banks as))))"
    unfolding split by (simp add: skip) (simp add: listed_banks_def b)
  then show ?case using Cons by simp
qed

text \<open>
  C22: However the user adds and edits banks and accounts on the configuration page, and whatever
  identifiers the backend returns, the page can always build its model (no account loses its bank,
  no identifier is duplicated) and every account is listed under exactly one bank, its own.
\<close>
theorem banks_page_consistent:
  assumes "(banks_page_step message session bankRpc accountRpc)\<^sup>*\<^sup>* p q" and "banks_page_ok p"
  shows "\<exists>banks accounts stocks. page_model q = Inr (banks, accounts, stocks) \<and>
    distinct (map acc_id accounts) \<and> distinct (map bank_id banks) \<and>
    mset (concat (map snd (listed_banks banks accounts))) = mset (map bankAccountModelFromDB (bp_accounts q)) \<and>
    list_all (\<lambda>(b, as). list_all (\<lambda>a. acc_bankId a = bank_id b) as) (listed_banks banks accounts)"
proof -
  have ok: "banks_page_ok q" using assms by (rule banks_page_reachable_ok)
  then obtain m where m: "page_model q = Inr m" using page_model_total [of q] by (auto simp only: banks_page_ok_def)
  obtain banks accounts stocks where mm: "m = (banks, accounts, stocks)" by (cases m)
  have sorted: "mset accounts = mset (map bankAccountModelFromDB (bp_accounts q))"
      "mset banks = mset (map bankModelFromDB (bp_banks q))"
      "\<forall>a \<in> set accounts. \<exists>b \<in> set banks. bank_id b = acc_bankId a"
    using banksModel_lemma [of "bp_banks q" "bp_accounts q" "bp_stocks q" banks accounts stocks] m mm ok
    by (simp_all add: page_model_def banks_page_ok_def)
  have "mset (map acc_id accounts) = mset (map pba_id (bp_accounts q))"
    unfolding mset_map sorted(1) by (simp add: bankAccountModelFromDB_def comp_def image_mset.compositionality)
  moreover have "mset (map bank_id banks) = mset (map pbb_id (bp_banks q))"
    unfolding mset_map sorted(2) by (simp add: bankModelFromDB_def comp_def image_mset.compositionality)
  ultimately have dist: "distinct (map acc_id accounts)" "distinct (map bank_id banks)"
    using ok by (metis banks_page_ok_def mset_eq_imp_distinct_iff)+
  have "mset (concat (map snd (listed_banks banks accounts))) = mset accounts"
    using dist(2) sorted(3) by (intro mset_listed_banks) force+
  then show ?thesis
    using m mm dist sorted(1) by (intro exI conjI) (auto simp: listed_banks_def list_all_iff)
qed

definition sample_page :: banks_page where
  "sample_page =
     \<lparr>bp_banks = [\<lparr>pbb_id = 7, pbb_name = ''First'', pbb_displayOrder = 0\<rparr>],
      bp_accounts = [\<lparr>pba_id = 3, pba_name = ''Current'', pba_bankId = 7, pba_initialBalanceNanos = 5000000000,
        pba_currencyCode = Some ''GBP'', pba_stock = None, pba_displayOrder = 100, pba_archived = False,
        pba_joint = True\<rparr>],
      bp_stocks = []\<rparr>"

definition sample_bank :: bank where
  "sample_bank = \<lparr>bank_id = 7, bank_name = ''First'', bank_displayOrder = 0\<rparr>"

definition sample_page_account :: bank_account where
  "sample_page_account = bankAccountModelFromDB (hd (bp_accounts sample_page))"

lemma sample_page_step:
  "banks_page_step message (Some ''s'') (\<lambda>_. Some 8) rpc sample_page
     (bank_saved \<lparr>pbb_id = 8, pbb_name = ''Second'', pbb_displayOrder = 100\<rparr> sample_page)"
proof (rule banks_page_step.save_bank)
  show "page_model sample_page = Inr ([sample_bank], [sample_page_account], [])"
    by (simp add: page_model_def banksModelFromDatabaseData_def sample_page_def sample_bank_def
        sample_page_account_def bankModelFromDB_def bankAccountModelFromDB_def mustBank_def
        jm_of_entries_def jm_set_def jm_get_def)
  show "submit_bank message (Some ''s'') (\<lambda>_. Some 8) None
      \<lparr>bkf_name = ''Second'', bkf_displayOrder = FieldNumber 100\<rparr> =
      ([\<lparr>pbb_id = 0, pbb_name = ''Second'', pbb_displayOrder = 100\<rparr>],
       Done \<lparr>pbb_id = 8, pbb_name = ''Second'', pbb_displayOrder = 100\<rparr>)"
    by (simp add: submit_bank_def submit_form_def parse_bank_def bankFormValidationSchema_def
        upsertBank_def on_field_def nonempty_string_def zod_number_def bank_data_values_def int32_field_def
        call_backend_def)
qed simp

theorem banks_page_consistent_witness:
  "\<exists>banks accounts stocks. page_model (bank_saved \<lparr>pbb_id = 8, pbb_name = ''Second'', pbb_displayOrder = 100\<rparr> sample_page)
     = Inr (banks, accounts, stocks) \<and> distinct (map bank_id banks)"
proof -
  have "banks_page_ok sample_page" by (simp add: banks_page_ok_def sample_page_def)
  then show ?thesis
    using banks_page_consistent [OF r_into_rtranclp, OF sample_page_step] by fastforce
qed

section \<open>The account form\<close>

definition account_unit_key :: "bank_account \<Rightarrow> account_unit_input" where
  "account_unit_key a =
     (case acc_stock a of
        Some k \<Rightarrow> StockInput (sk_exchange k) (sk_ticker k)
      | None \<Rightarrow> CurrencyCodeInput (the (acc_currencyCode a)))"

lemma account_unit_choice_key:
  assumes "account_unit_choice a stocks = Inr u"
  shows "unitInputFromForm u = account_unit_key a"
  using assms
  by (auto simp: account_unit_choice_def account_unit_key_def unitInputFromForm_def result_simps
      split: option.splits list.splits dest: find_eq_key_Some mustFindByCode_Inr)

definition account_request_of :: "bank_account \<Rightarrow> account_request" where
  "account_request_of a =
     \<lparr>ar_accountId = Some (acc_id a), ar_name = acc_name a, ar_bankId = acc_bankId a, ar_joint = acc_joint a,
      ar_archived = acc_archived a, ar_displayOrder = acc_displayOrder a,
      ar_initialBalanceNanos = acc_initialBalanceNanos a, ar_unit = account_unit_key a\<rparr>"

text \<open>
  C29: Opening the edit form of an account and saving it untouched changes nothing: the one request
  sent carries the account's own identifier, bank, name, flags, order, unit and opening balance, to
  the nano (up to 2^50 nanos, although the form shows the balance as a floating-point number).
\<close>
theorem account_edit_unchanged:
  assumes "useInitialFormValues cur b accounts stocks (Some a) = Inr values"
    and "bank_id b = acc_bankId a" "acc_name a \<noteq> []" "unit_is_valid (acf_unit values)"
    and "\<bar>acc_initialBalanceNanos a\<bar> \<le> 2 ^ 50" "- (2 ^ 31) \<le> acc_displayOrder a" "acc_displayOrder a < 2 ^ 31"
  shows "fst (submit_account message (Some s) rpc (Some a) values) = [account_request_of a] \<and>
    (rpc (account_request_of a) = None \<longleftrightarrow>
       snd (submit_account message (Some s) rpc (Some a) values) = SaveFailed BackendFailed)"
proof -
  obtain u where u: "account_unit_choice a stocks = Inr u"
    and v: "values = \<lparr>acf_name = acc_name a, acf_unit = u, acf_isJoint = acc_joint a,
        acf_isArchived = acc_archived a, acf_initialBalance = FieldNumber (nanosToDollar (acc_initialBalanceNanos a)),
        acf_displayOrder = FieldNumber (of_int (acc_displayOrder a)), acf_bankId = bank_id b\<rparr>"
    using assms(1) by (auto simp: useInitialFormValues_def result_simps)
  define d where "d = \<lparr>acd_name = acc_name a, acd_unit = u, acd_isJoint = acc_joint a,
        acd_isArchived = acc_archived a, acd_initialBalance = nanosToDollar (acc_initialBalanceNanos a),
        acd_displayOrder = of_int (acc_displayOrder a), acd_bankId = bank_id b\<rparr>"
  have vd: "values = account_data_values d" "acd_name d \<noteq> []" "unit_is_valid (acd_unit d)"
    using assms(3,4) by (simp_all add: v d_def account_data_values_def)
  have int32: "int32_field (acd_displayOrder d) = Inr (acc_displayOrder a)"
    using assms(6,7) by (simp add: d_def)
  have "dollarToNanos (acd_initialBalance d) = acc_initialBalanceNanos a"
    using assms(5) by (simp add: d_def nanos_dollar_nanos)
  then have "upsertBankAccount message (Some s) rpc (Some (acc_id a)) (account_data_values d) =
      call_backend rpc (\<lambda>i. \<lparr>pba_id = i, pba_name = acd_name d, pba_bankId = acd_bankId d,
         pba_initialBalanceNanos = acc_initialBalanceNanos a, pba_currencyCode = None, pba_stock = None,
         pba_displayOrder = acc_displayOrder a, pba_archived = acd_isArchived d, pba_joint = acd_isJoint d\<rparr>)
        (Inr (account_request_of a))"
    using vd(2,3) int32 assms(2) account_unit_choice_key [OF u]
    by (simp add: upsertBankAccount_def account_request_of_def d_def Let_def)
  then show ?thesis
    using vd by (auto simp: submit_account_def submit_form_def call_backend_def split: option.splits)
qed

theorem account_edit_unchanged_witness:
  "\<exists>values. useInitialFormValues \<lparr>cur_code = ''EUR''\<rparr> sample_bank [] [] (Some sample_page_account) = Inr values \<and>
     fst (submit_account (\<lambda>_. []) (Some ''s'') (\<lambda>_. Some 3) (Some sample_page_account) values) =
       [account_request_of sample_page_account]"
proof -
  define v where "v = \<lparr>acf_name = ''Current'', acf_unit = CurrencyChoice ''GBP'', acf_isJoint = True,
      acf_isArchived = False, acf_initialBalance = FieldNumber (nanosToDollar 5000000000),
      acf_displayOrder = FieldNumber 100, acf_bankId = 7\<rparr>"
  have "useInitialFormValues \<lparr>cur_code = ''EUR''\<rparr> sample_bank [] [] (Some sample_page_account) = Inr v"
    by (simp add: useInitialFormValues_def account_unit_choice_def sample_page_account_def sample_page_def
        bankAccountModelFromDB_def sample_bank_def v_def mustFindByCode_def findByCode_def currencies_def)
  then show ?thesis
    using account_edit_unchanged [of "\<lparr>cur_code = ''EUR''\<rparr>" sample_bank "[]" "[]" sample_page_account v "\<lambda>_. []" "''s''" "\<lambda>_. Some 3"]
    by (auto simp: v_def sample_page_account_def sample_page_def bankAccountModelFromDB_def sample_bank_def unit_is_valid_def)
qed

text \<open>
  Once an account has been saved, its edit form cannot be opened again on the same page: the data
  the action returns has no unit, the page stores it in place of the account, and the form throws.
\<close>
theorem saved_account_cannot_be_reopened:
  assumes "submit_account message session rpc account values = (reqs, Done x)"
    and "page_model (account_saved x p) = Inr (banks, accounts, stocks)"
  shows "bankAccountModelFromDB x \<in> set accounts \<and>
    useInitialFormValues cur b accounts' stocks (Some (bankAccountModelFromDB x)) =
      Inl (AccountHasNoUnit (pba_id x))"
proof -
  have "pba_currencyCode x = None" "pba_stock x = None" using submit_account_Done [OF assms(1)] by simp_all
  then show ?thesis
    using page_model_banks(2) [OF assms(2)]
    by (simp add: account_saved_def updateOrAppend_set useInitialFormValues_def account_unit_choice_def
        bankAccountModelFromDB_def)
qed

theorem saved_account_cannot_be_reopened_witness:
  "\<exists>values reqs x banks accounts stocks.
     useInitialFormValues \<lparr>cur_code = ''EUR''\<rparr> sample_bank [] [] (Some sample_page_account) = Inr values \<and>
     submit_account (\<lambda>_. []) (Some ''s'') (\<lambda>_. Some 3) (Some sample_page_account) values = (reqs, Done x) \<and>
     page_model (account_saved x sample_page) = Inr (banks, accounts, stocks) \<and>
     useInitialFormValues \<lparr>cur_code = ''EUR''\<rparr> sample_bank [] stocks (Some (bankAccountModelFromDB x)) =
       Inl (AccountHasNoUnit 3)"
proof -
  define v where "v = \<lparr>acf_name = ''Current'', acf_unit = CurrencyChoice ''GBP'', acf_isJoint = True,
      acf_isArchived = False, acf_initialBalance = FieldNumber (nanosToDollar 5000000000),
      acf_displayOrder = FieldNumber 100, acf_bankId = 7\<rparr>"
  have v: "useInitialFormValues \<lparr>cur_code = ''EUR''\<rparr> sample_bank [] [] (Some sample_page_account) = Inr v"
    by (simp add: useInitialFormValues_def account_unit_choice_def sample_page_account_def sample_page_def
        bankAccountModelFromDB_def sample_bank_def v_def mustFindByCode_def findByCode_def currencies_def)
  obtain reqs x where x: "submit_account (\<lambda>_. []) (Some ''s'') (\<lambda>_. Some 3) (Some sample_page_account) v = (reqs, Done x)"
      "pba_id x = 3" "pba_bankId x = 7"
    by (simp add: submit_account_def submit_form_def parse_account_def accountFormValidationSchema_def
        upsertBankAccount_def on_field_def nonempty_string_def zod_number_def account_data_values_def
        int32_field_def call_backend_def v_def unit_is_valid_def Let_def)
  have "pba_bankId ` set (bp_accounts (account_saved x sample_page)) \<subseteq>
      pbb_id ` set (bp_banks (account_saved x sample_page))"
    using x by (auto simp: account_saved_def updateOrAppend_set sample_page_def)
  then obtain banks accounts stocks where m: "page_model (account_saved x sample_page) = Inr (banks, accounts, stocks)"
    using page_model_total [of "account_saved x sample_page"] by auto
  show ?thesis
    using saved_account_cannot_be_reopened [OF x(1) m, of "\<lparr>cur_code = ''EUR''\<rparr>" sample_bank "[]"] v x m
    by (intro exI conjI) auto
qed

text \<open>
  The display order of a bank cannot be edited: the input hands a text to the form, and the schema
  takes numbers only.
\<close>

lemma typed_display_order_refused:
  "\<exists>issues. submit_bank message session rpc b (type_bank_displayOrder s f) = ([], RefusedByResolver issues) \<and>
     ([''displayOrder''], InvalidType) \<in> set issues"
  by (simp add: submit_bank_def submit_form_def parse_bank_def bankFormValidationSchema_def
      type_bank_displayOrder_def zod_number_def on_field_def)

end
