(* ===== verification/UnitSearch.thy ===== *)
theory UnitSearch
  imports ConfigForms
begin

text \<open>
  The selector of an account's unit: \<open>config/banks/UnitSelect.tsx\<close> with the debounced query of
  \<open>lib/useDebounce.ts\<close> and the route \<open>app/api/stock/route.tsx\<close> it fetches. The dropdown is a state
  machine: an event changes the state, then React runs the effects whose dependencies changed since
  they last ran, renders again and repeats until no effect is due.
\<close>

section \<open>Units\<close>

definition labelFor ::
  "(string option \<Rightarrow> string \<Rightarrow> nat \<Rightarrow> rat \<Rightarrow> string) \<Rightarrow> string \<Rightarrow> unit_schema \<Rightarrow> string" where
  "labelFor intl dash u =
     (case u of
        CurrencyChoice code \<Rightarrow> code
      | StockChoice s \<Rightarrow>
        (case (su_pricePerShareNanos s, findByCode (su_currencyCode s)) of
           (Some price, Some c) \<Rightarrow>
             if price = 0 then su_name s @ '' ('' @ su_ticker s @ '', '' @ su_currencyCode s @ '')''
             else su_name s @ '' ('' @ su_ticker s @ dash @ formatCurrency intl c (mk_awc \<lfloor>price\<rfloor> c) @ '')''
         | _ \<Rightarrow> su_name s @ '' ('' @ su_ticker s @ '', '' @ su_currencyCode s @ '')''))"

definition unitID :: "unit_schema \<Rightarrow> string" where
  "unitID u =
     (case u of
        CurrencyChoice code \<Rightarrow> ''currency:'' @ code
      | StockChoice s \<Rightarrow> ''stock:'' @ su_exchange s @ '':'' @ su_ticker s)"

definition initial_options :: "stock list \<Rightarrow> unit_schema list" where
  "initial_options stocks =
     map (\<lambda>c. CurrencyChoice (cur_code c)) allCurrencies @
     map (\<lambda>s. StockChoice \<lparr>su_ticker = sk_ticker s, su_exchange = sk_exchange s, su_name = stock_name s,
        su_currencyCode = stock_currencyCode s, su_pricePerShareNanos = None\<rparr>) stocks"

definition is_checked :: "unit_schema \<Rightarrow> unit_schema \<Rightarrow> bool" where
  "is_checked value item \<longleftrightarrow> unitID value = unitID item"

section \<open>The route that searches\<close>

record pb_found_stock =
  fs_exchange :: string
  fs_ticker :: string
  fs_name :: string
  fs_currencyCode :: string
  fs_pricePerShareNanos :: int

datatype stock_response = UnitsJson "unit_schema list" | EmptyQuery

definition get_stock ::
  "string option \<Rightarrow> (string \<Rightarrow> pb_found_stock list option) \<Rightarrow> string option \<Rightarrow> stock_response result" where
  "get_stock session searchStocks q =
     (case session of
        None \<Rightarrow> Inl NotAuthenticated
      | Some _ \<Rightarrow>
        (case q of
           Some (c # query) \<Rightarrow>
             bind_result (or_throw (searchStocks (c # query)) BackendFailed) (\<lambda>found.
               let stocks = map (\<lambda>x. StockChoice \<lparr>su_ticker = fs_ticker x, su_exchange = fs_exchange x,
                       su_name = fs_name x, su_currencyCode = fs_currencyCode x,
                       su_pricePerShareNanos = Some (number_of_bigint (fs_pricePerShareNanos x))\<rparr>) found;
                   currencies = map (\<lambda>x. CurrencyChoice (cur_code x))
                     (filter (\<lambda>x. str_includes (toLowerCase (cur_code x)) (toLowerCase (c # query))) allCurrencies)
               in Inr (UnitsJson (stocks @ currencies)))
         | _ \<Rightarrow> Inr EmptyQuery))"

section \<open>The dropdown\<close>

record dropdown =
  dd_searchQuery :: string
  dd_loading :: bool
  dd_loadingError :: "string option"
  dd_items :: "unit_schema list"
  dd_debouncedQuery :: string
  dd_forceRetry :: bool
  dd_requests :: "string list"
  dd_ran_reset :: "string option"
  dd_ran_fetch :: "(string \<times> bool \<times> bool) option"

definition itemsSameAsInitial :: "unit_schema list \<Rightarrow> unit_schema list \<Rightarrow> bool" where
  "itemsSameAsInitial initialItems items \<longleftrightarrow>
     length items = length initialItems \<and>
     list_all (\<lambda>i. unitID i \<in> set (js_set (map unitID initialItems))) items"

definition reset_effect :: "unit_schema list \<Rightarrow> dropdown \<Rightarrow> dropdown" where
  "reset_effect initialItems s =
     (if dd_ran_reset s = Some (dd_searchQuery s) then s
      else (if dd_searchQuery s \<noteq> [] then s\<lparr>dd_loading := True\<rparr>
            else s\<lparr>dd_loading := False, dd_loadingError := None, dd_items := initialItems\<rparr>)
           \<lparr>dd_ran_reset := Some (dd_searchQuery s)\<rparr>)"

definition fetch_deps :: "unit_schema list \<Rightarrow> dropdown \<Rightarrow> string \<times> bool \<times> bool" where
  "fetch_deps initialItems s =
     (dd_debouncedQuery s, itemsSameAsInitial initialItems (dd_items s), dd_forceRetry s)"

definition fetch_effect :: "string \<times> bool \<times> bool \<Rightarrow> dropdown \<Rightarrow> dropdown" where
  "fetch_effect deps s =
     (if dd_ran_fetch s = Some deps then s
      else (if fst deps = [] then s
            else s\<lparr>dd_loading := True, dd_loadingError := None, dd_requests := dd_requests s @ [fst deps]\<rparr>)
           \<lparr>dd_ran_fetch := Some deps\<rparr>)"

text \<open>
  One commit runs both effects on the values of the render; a second commit runs what the first made
  due, and then nothing is due any more (\<open>settle_stable\<close>).
\<close>

definition commit :: "unit_schema list \<Rightarrow> dropdown \<Rightarrow> dropdown" where
  "commit initialItems s = fetch_effect (fetch_deps initialItems s) (reset_effect initialItems s)"

definition settle :: "unit_schema list \<Rightarrow> dropdown \<Rightarrow> dropdown" where
  "settle initialItems s = commit initialItems (commit initialItems s)"

definition open_dropdown :: "unit_schema list \<Rightarrow> dropdown" where
  "open_dropdown initialItems =
     settle initialItems \<lparr>dd_searchQuery = [], dd_loading = False, dd_loadingError = None, dd_items = initialItems,
       dd_debouncedQuery = [], dd_forceRetry = False, dd_requests = [], dd_ran_reset = None, dd_ran_fetch = None\<rparr>"

datatype dropdown_event =
    TypeQuery string
  | DebounceFires
  | RespondUnits nat "unit_schema list"
  | RespondError nat string
  | Retry

definition end_request :: "nat \<Rightarrow> dropdown \<Rightarrow> dropdown" where
  "end_request k s =
     s\<lparr>dd_requests := take k (dd_requests s) @ drop (Suc k) (dd_requests s), dd_forceRetry := False,
       dd_loading := False\<rparr>"

fun dropdown_step :: "unit_schema list \<Rightarrow> dropdown_event \<Rightarrow> dropdown \<Rightarrow> dropdown" where
  "dropdown_step initialItems (TypeQuery q) s = settle initialItems (s\<lparr>dd_searchQuery := q\<rparr>)"
| "dropdown_step initialItems DebounceFires s =
     settle initialItems (s\<lparr>dd_debouncedQuery := dd_searchQuery s\<rparr>)"
| "dropdown_step initialItems (RespondUnits k units) s =
     (if k < length (dd_requests s)
      then settle initialItems ((end_request k s)\<lparr>dd_items := units\<rparr>) else s)"
| "dropdown_step initialItems (RespondError k message) s =
     (if k < length (dd_requests s)
      then settle initialItems ((end_request k s)\<lparr>dd_loadingError := Some message\<rparr>) else s)"
| "dropdown_step initialItems Retry s =
     (if \<not> dd_loading s \<and> truthy_string (dd_loadingError s)
      then settle initialItems (s\<lparr>dd_forceRetry := True\<rparr>) else s)"

definition run_dropdown :: "unit_schema list \<Rightarrow> dropdown_event list \<Rightarrow> dropdown \<Rightarrow> dropdown" where
  "run_dropdown initialItems events s = foldl (\<lambda>s e. dropdown_step initialItems e s) s events"

datatype options_list = LoadingOption | ErrorOption string | ItemOptions "unit_schema list"

definition UnitOptionsList :: "dropdown \<Rightarrow> options_list" where
  "UnitOptionsList s =
     (if dd_loading s then LoadingOption
      else case dd_loadingError s of
             Some (c # message) \<Rightarrow> ErrorOption (c # message)
           | _ \<Rightarrow> ItemOptions (dd_items s))"

section \<open>How a search ends\<close>

definition effects_done :: "unit_schema list \<Rightarrow> dropdown \<Rightarrow> bool" where
  "effects_done initialItems s \<longleftrightarrow>
     dd_ran_reset s = Some (dd_searchQuery s) \<and> dd_ran_fetch s = Some (fetch_deps initialItems s)"

lemma commit_done: "effects_done initialItems s \<Longrightarrow> commit initialItems s = s"
  by (simp add: commit_def reset_effect_def fetch_effect_def effects_done_def)

lemma reset_done: "dd_ran_reset (commit initialItems s) = Some (dd_searchQuery (commit initialItems s))"
  by (simp add: commit_def reset_effect_def fetch_effect_def)

lemma commit_after_reset:
  "dd_ran_reset s = Some (dd_searchQuery s) \<Longrightarrow> effects_done initialItems (commit initialItems s)"
  by (simp add: commit_def reset_effect_def fetch_effect_def fetch_deps_def effects_done_def)

lemma settle_done: "effects_done initialItems (settle initialItems s)"
  unfolding settle_def by (intro commit_after_reset reset_done)

lemma settle_stable: "commit initialItems (settle initialItems s) = settle initialItems s"
  by (intro commit_done settle_done)

lemma settle_after_reset:
  "dd_ran_reset s = Some (dd_searchQuery s) \<Longrightarrow> settle initialItems s = fetch_effect (fetch_deps initialItems s) s"
  unfolding settle_def using commit_done [OF commit_after_reset]
  by (simp add: commit_def reset_effect_def)

lemma effects_done_open: "effects_done initialItems (open_dropdown initialItems)"
  by (simp add: open_dropdown_def settle_done)

lemma effects_done_step: "effects_done initialItems s \<Longrightarrow> effects_done initialItems (dropdown_step initialItems e s)"
  by (cases e) (auto simp: settle_done)

definition quiet :: "unit_schema list \<Rightarrow> dropdown \<Rightarrow> bool" where
  "quiet initialItems s \<longleftrightarrow> effects_done initialItems s \<and> dd_requests s = [] \<and> \<not> dd_forceRetry s"

definition waiting :: "unit_schema list \<Rightarrow> string \<Rightarrow> dropdown \<Rightarrow> bool" where
  "waiting initialItems q s \<longleftrightarrow> effects_done initialItems s \<and> dd_requests s = [q] \<and> \<not> dd_forceRetry s \<and>
     dd_debouncedQuery s = q \<and> dd_searchQuery s = q \<and> dd_loadingError s = None"

lemma search_starts:
  assumes "quiet initialItems s" "q \<noteq> []" "q \<noteq> dd_debouncedQuery s"
  shows "waiting initialItems q (dropdown_step initialItems DebounceFires (dropdown_step initialItems (TypeQuery q) s))"
proof -
  define t where "t = dropdown_step initialItems (TypeQuery q) s"
  have t: "dd_ran_reset t = Some q" "dd_searchQuery t = q" "dd_ran_fetch t = Some (fetch_deps initialItems t)"
      "dd_debouncedQuery t = dd_debouncedQuery s" "dd_requests t = []" "\<not> dd_forceRetry t"
    using assms(1,2)
    by (auto simp: t_def settle_def commit_def reset_effect_def fetch_effect_def fetch_deps_def quiet_def effects_done_def)
  define u where "u = fetch_effect (fetch_deps initialItems (t\<lparr>dd_debouncedQuery := q\<rparr>)) (t\<lparr>dd_debouncedQuery := q\<rparr>)"
  have u: "dropdown_step initialItems DebounceFires t = u"
    using t by (simp add: settle_after_reset u_def)
  then have "effects_done initialItems u" by (metis dropdown_step.simps(2) settle_done)
  moreover have "dd_requests u = [q] \<and> \<not> dd_forceRetry u \<and> dd_debouncedQuery u = q \<and> dd_searchQuery u = q \<and>
      dd_loadingError u = None"
    using t assms(2,3) by (simp add: u_def fetch_effect_def fetch_deps_def)
  ultimately show ?thesis by (simp add: waiting_def u t_def [symmetric] del: dropdown_step.simps)
qed

lemma response_ends:
  fixes units :: "unit_schema list"
  assumes "waiting initialItems q s" "q \<noteq> []"
  defines "t \<equiv> dropdown_step initialItems (RespondUnits 0 units) s"
  shows "dd_items t = units \<and> (if itemsSameAsInitial initialItems units = itemsSameAsInitial initialItems (dd_items s)
    then quiet initialItems t \<and> \<not> dd_loading t \<and> dd_loadingError t = None else waiting initialItems q t)"
proof -
  define u where "u = (end_request 0 s)\<lparr>dd_items := units\<rparr>"
  have u: "dd_ran_reset u = Some (dd_searchQuery u)" "dd_ran_fetch u = Some (fetch_deps initialItems s)"
      "dd_requests u = []" "\<not> dd_forceRetry u" "dd_debouncedQuery u = q" "dd_searchQuery u = q"
      "dd_loadingError u = None" "dd_items u = units" "\<not> dd_loading u"
    using assms(1) by (simp_all add: u_def end_request_def waiting_def effects_done_def)
  have t: "t = fetch_effect (fetch_deps initialItems u) u"
    using assms(1) settle_after_reset [OF u(1)] by (simp add: t_def u_def waiting_def)
  have "effects_done initialItems t"
    using assms(1) effects_done_step unfolding t_def waiting_def by blast
  then show ?thesis
    using u assms(1,2) unfolding t
    by (auto simp: quiet_def waiting_def fetch_effect_def fetch_deps_def)
qed

text \<open>
  C24: A search ends. From an idle dropdown, typing a query that differs from the last debounced one
  and waiting for the debounce sends it; once the responses have arrived (at most two of them, since
  the first may make the fetch effect run again) the dropdown no longer loads, nothing is in flight
  and the options are the units found for that query.
\<close>
theorem search_ends:
  assumes "quiet initialItems s" "q \<noteq> []" "q \<noteq> dd_debouncedQuery s"
  shows "\<exists>n. n \<le> 2 \<and> (\<exists>t. t = run_dropdown initialItems
        ([TypeQuery q, DebounceFires] @ replicate n (RespondUnits 0 units)) s \<and>
      quiet initialItems t \<and> UnitOptionsList t = ItemOptions units)"
proof -
  define r where "r = (\<lambda>e. dropdown_step initialItems e)"
  define w where "w = r DebounceFires (r (TypeQuery q) s)"
  have w: "waiting initialItems q w" using search_starts [OF assms] by (simp add: w_def r_def)
  define t1 where "t1 = r (RespondUnits 0 units) w"
  define t2 where "t2 = r (RespondUnits 0 units) t1"
  have run: "run_dropdown initialItems ([TypeQuery q, DebounceFires] @ replicate 1 (RespondUnits 0 units)) s = t1"
      "run_dropdown initialItems ([TypeQuery q, DebounceFires] @ replicate 2 (RespondUnits 0 units)) s = t2"
    by (simp_all add: run_dropdown_def t1_def t2_def w_def r_def numeral_2_eq_2)
  show ?thesis
  proof (cases "itemsSameAsInitial initialItems units = itemsSameAsInitial initialItems (dd_items w)")
    case True
    then have "quiet initialItems t1 \<and> UnitOptionsList t1 = ItemOptions units"
      using response_ends [OF w assms(2), of units] by (simp add: t1_def r_def UnitOptionsList_def)
    then show ?thesis using run(1) by (intro exI [of _ 1]) auto
  next
    case False
    then have "waiting initialItems q t1" "dd_items t1 = units"
      using response_ends [OF w assms(2), of units] by (simp_all add: t1_def r_def)
    then have "quiet initialItems t2 \<and> UnitOptionsList t2 = ItemOptions units"
      using response_ends [of initialItems q t1 units] assms(2) by (simp add: t2_def r_def UnitOptionsList_def)
    then show ?thesis using run(2) by (intro exI [of _ 2]) auto
  qed
qed

definition apple :: unit_schema where
  "apple = StockChoice \<lparr>su_ticker = ''AAPL'', su_exchange = ''NASDAQ'', su_name = ''Apple'', su_currencyCode = ''USD'',
     su_pricePerShareNanos = None\<rparr>"

lemma quiet_open: "quiet initialItems (open_dropdown initialItems)"
  using effects_done_open [of initialItems]
  by (simp add: quiet_def open_dropdown_def settle_def commit_def reset_effect_def fetch_effect_def fetch_deps_def)

theorem search_ends_witness:
  "\<exists>n. n \<le> 2 \<and> UnitOptionsList (run_dropdown (initial_options [])
     ([TypeQuery ''app'', DebounceFires] @ replicate n (RespondUnits 0 [apple])) (open_dropdown (initial_options []))) =
     ItemOptions [apple]"
proof -
  have "dd_debouncedQuery (open_dropdown (initial_options [])) = []"
    by (simp add: open_dropdown_def settle_def commit_def reset_effect_def fetch_effect_def fetch_deps_def)
  then show ?thesis
    using search_ends [OF quiet_open [of "initial_options []"], of "''app''" "[apple]"] by auto
qed

section \<open>Where the search misbehaves\<close>

definition searched :: "unit_schema list \<Rightarrow> string \<Rightarrow> dropdown \<Rightarrow> bool" where
  "searched initialItems q s \<longleftrightarrow> quiet initialItems s \<and> q \<noteq> [] \<and> dd_searchQuery s = q \<and> dd_debouncedQuery s = q"

text \<open>Finding units other than the initial ones runs the fetch effect again: the search is sent twice.\<close>

lemma search_sent_twice:
  assumes "waiting initialItems q s" "q \<noteq> []" "itemsSameAsInitial initialItems (dd_items s)"
    "\<not> itemsSameAsInitial initialItems units"
  shows "dd_requests (dropdown_step initialItems (RespondUnits 0 units) s) = [q]"
  using response_ends [OF assms(1,2), of units] assms(3,4) by (simp add: waiting_def)

lemma type_query_settles:
  assumes "effects_done initialItems s" "q \<noteq> []"
  shows "dropdown_step initialItems (TypeQuery q) s =
    (if q = dd_searchQuery s then s else s\<lparr>dd_searchQuery := q, dd_loading := True, dd_ran_reset := Some q\<rparr>)"
  using assms
  by (auto simp: settle_def commit_def reset_effect_def fetch_effect_def fetch_deps_def effects_done_def)

text \<open>
  Typing and going back to the query of the last search before the debounce fires leaves the list
  loading, with no request in flight that could end it.
\<close>

lemma loading_stuck:
  assumes "searched initialItems q s" "q' \<noteq> []" "q' \<noteq> q"
  shows "UnitOptionsList (run_dropdown initialItems [TypeQuery q', TypeQuery q, DebounceFires] s) = LoadingOption \<and>
    dd_requests (run_dropdown initialItems [TypeQuery q', TypeQuery q, DebounceFires] s) = []"
proof -
  have fin: "effects_done initialItems s" and s: "q \<noteq> []" "dd_searchQuery s = q" "dd_debouncedQuery s = q" "dd_requests s = []"
    using assms(1) by (auto simp: searched_def quiet_def)
  define t where "t = s\<lparr>dd_searchQuery := q, dd_loading := True, dd_ran_reset := Some q\<rparr>"
  have t: "dropdown_step initialItems (TypeQuery q) (dropdown_step initialItems (TypeQuery q') s) = t"
  proof -
    have "dropdown_step initialItems (TypeQuery q') s = s\<lparr>dd_searchQuery := q', dd_loading := True, dd_ran_reset := Some q'\<rparr>"
      using type_query_settles [OF fin assms(2)] assms(3) s(2) by simp
    moreover have "effects_done initialItems (dropdown_step initialItems (TypeQuery q') s)"
      using effects_done_step [OF fin] .
    ultimately show ?thesis
      using type_query_settles [of initialItems "dropdown_step initialItems (TypeQuery q') s" q] s(1) assms(3)
      by (simp add: t_def del: dropdown_step.simps)
  qed
  have "effects_done initialItems t" "t\<lparr>dd_debouncedQuery := q\<rparr> = t" "dd_searchQuery t = q"
    using fin s by (cases s; simp add: t_def effects_done_def fetch_deps_def)+
  then have "dropdown_step initialItems DebounceFires t = t"
    by (simp add: settle_def commit_done)
  then show ?thesis
    using s t by (simp add: run_dropdown_def UnitOptionsList_def t_def del: dropdown_step.simps)
qed

text \<open>
  Clearing the query puts the initial options back, which makes the fetch effect search once more for
  the old query: when its answer arrives, the dropdown shows the old units under an empty query.
\<close>

lemma initial_same [simp]: "itemsSameAsInitial initialItems initialItems"
  by (simp add: itemsSameAsInitial_def list_all_iff)

lemma cleared_search_shows_old_units:
  assumes "searched initialItems q s" "\<not> itemsSameAsInitial initialItems (dd_items s)"
    "\<not> itemsSameAsInitial initialItems units"
  defines "t \<equiv> run_dropdown initialItems [TypeQuery [], DebounceFires, RespondUnits 0 units] s"
  shows "dd_searchQuery t = [] \<and> dd_requests t = [] \<and> UnitOptionsList t = ItemOptions units"
  using assms
  by (simp add: t_def run_dropdown_def searched_def quiet_def effects_done_def settle_def commit_def
      reset_effect_def fetch_effect_def fetch_deps_def end_request_def UnitOptionsList_def)

text \<open>Units of different kinds never share an identifier, and neither do currencies.\<close>

lemma unitID_kinds: "unitID (CurrencyChoice code) \<noteq> unitID (StockChoice s)"
  "unitID (CurrencyChoice code) = unitID (CurrencyChoice code') \<longleftrightarrow> code = code'"
  by (simp_all add: unitID_def)

end
