(* ===== verification/Auth.thy ===== *)
theory Auth
  imports Accounts "HOL-Library.Word"
begin

text \<open>
  Authentication: the return path of \<open>lib/auth/redirect.ts\<close>, the session tokens and cookies of
  \<open>lib/auth/{session,cookies,user}\<close>, the server actions \<open>actions/auth/{signin,signup}.ts\<close>, the
  sign-out route and the request proxy \<open>proxy.ts\<close>, over the session table of
  \<open>backend/auth/service.go\<close>. SHA-256, the random bytes, the password check and the URL parser of the
  runtime are parameters; a path is the list of its UTF-8 bytes; times are milliseconds.
\<close>

section \<open>Return paths\<close>

definition SIGN_IN_URL :: string where "SIGN_IN_URL = ''/auth/signin''"
definition SIGN_OUT_URL :: string where "SIGN_OUT_URL = ''/api/auth/signout''"
definition DEFAULT_AUTHENTICATED_PAGE :: string where "DEFAULT_AUTHENTICATED_PAGE = ''/overview''"
definition POST_SIGNUP_PAGE :: string where "POST_SIGNUP_PAGE = ''/config/banks''"
definition RETURN_PATH_PARAM :: string where "RETURN_PATH_PARAM = ''next''"
definition COOKIE_TTL_DAYS :: int where "COOKIE_TTL_DAYS = 7"
definition SESSION_TOKEN_LENGTH :: nat where "SESSION_TOKEN_LENGTH = 64"

definition isSafeReturnPath :: "string \<Rightarrow> bool" where
  "isSafeReturnPath path \<longleftrightarrow>
     starts_with path ''/'' \<and> \<not> starts_with path ''//'' \<and> \<not> starts_with path (CHR ''/'' # [CHR 0x5C])"

text \<open>\<open>URLSearchParams.toString\<close> and its parser (\<open>application/x-www-form-urlencoded\<close>).\<close>

definition form_unreserved :: "char \<Rightarrow> bool" where
  "form_unreserved c \<longleftrightarrow> is_alpha_numeric c \<or> c \<in> set ''*-._''"

definition form_encode_char :: "char \<Rightarrow> string" where
  "form_encode_char c =
     (if c = CHR '' '' then ''+''
      else if form_unreserved c then [c]
      else [CHR ''%'', hex_char (of_char c div 16), hex_char (of_char c mod 16)])"

definition form_urlencode :: "string \<Rightarrow> string" where
  "form_urlencode s = concat (map form_encode_char s)"

definition hex_value :: "char \<Rightarrow> nat option" where
  "hex_value c =
     (let n = (of_char c :: nat)
      in if 48 \<le> n \<and> n \<le> 57 then Some (n - 48)
         else if 65 \<le> n \<and> n \<le> 70 then Some (n - 55)
         else if 97 \<le> n \<and> n \<le> 102 then Some (n - 87)
         else None)"

fun form_urldecode :: "string \<Rightarrow> string" where
  "form_urldecode [] = []"
| "form_urldecode (c # s) =
     (if c = CHR ''+'' then CHR '' '' # form_urldecode s
      else if c = CHR ''%'' then
        (case s of
           h # l # r \<Rightarrow>
             (case (hex_value h, hex_value l) of
                (Some x, Some y) \<Rightarrow> char_of (16 * x + y) # form_urldecode r
              | _ \<Rightarrow> c # form_urldecode s)
         | _ \<Rightarrow> c # form_urldecode s)
      else c # form_urldecode s)"

fun split_on :: "char \<Rightarrow> string \<Rightarrow> string list" where
  "split_on sep [] = [[]]"
| "split_on sep (c # s) =
     (if c = sep then [] # split_on sep s
      else case split_on sep s of [] \<Rightarrow> [[c]] | w # ws \<Rightarrow> (c # w) # ws)"

definition parse_query :: "string \<Rightarrow> (string \<times> string) list" where
  "parse_query q =
     map (\<lambda>w. (form_urldecode (takeWhile (\<lambda>c. c \<noteq> CHR ''='') w),
               form_urldecode (drop 1 (dropWhile (\<lambda>c. c \<noteq> CHR ''='') w))))
       (filter (\<lambda>w. w \<noteq> []) (split_on (CHR ''&'') q))"

text \<open>The query parameter of a visited URL, as a page receives it.\<close>

definition search_param_of :: "string \<Rightarrow> string \<Rightarrow> search_param" where
  "search_param_of name url =
     (case map snd (filter (\<lambda>p. fst p = name) (parse_query (drop 1 (dropWhile (\<lambda>c. c \<noteq> CHR ''?'') url)))) of
        [] \<Rightarrow> ParamUndefined
      | [x] \<Rightarrow> ParamString x
      | xs \<Rightarrow> ParamArray xs)"

definition signInUrlWithReturnPath :: "string option \<Rightarrow> string" where
  "signInUrlWithReturnPath maybeUnsafePath =
     (case maybeUnsafePath of
        Some (c # path) \<Rightarrow>
          if \<not> isSafeReturnPath (c # path) then SIGN_IN_URL
          else SIGN_IN_URL @ ''?'' @ form_urlencode RETURN_PATH_PARAM @ ''='' @ form_urlencode (c # path)
      | _ \<Rightarrow> SIGN_IN_URL)"

definition returnPathOrDefault :: "string option \<Rightarrow> string" where
  "returnPathOrDefault maybeUnsafePath =
     (case maybeUnsafePath of
        Some (c # path) \<Rightarrow>
          if \<not> isSafeReturnPath (c # path) then DEFAULT_AUTHENTICATED_PAGE else c # path
      | _ \<Rightarrow> DEFAULT_AUTHENTICATED_PAGE)"

text \<open>
  What a browser makes of a reference that begins with a slash: the URL parser removes tabs and line
  breaks wherever they are, and two slashes (of either kind) then name another host.
\<close>

definition url_ignored :: "char \<Rightarrow> bool" where
  "url_ignored c \<longleftrightarrow> (of_char c :: nat) \<in> {9, 10, 13}"

definition is_slash :: "char \<Rightarrow> bool" where
  "is_slash c \<longleftrightarrow> c = CHR ''/'' \<or> c = CHR 0x5C"

definition names_other_host :: "string \<Rightarrow> bool" where
  "names_other_host url =
     (case filter (\<lambda>c. \<not> url_ignored c) url of c # d # _ \<Rightarrow> is_slash c \<and> is_slash d | _ \<Rightarrow> False)"

section \<open>Tokens\<close>

definition lower_hex_char :: "nat \<Rightarrow> char" where
  "lower_hex_char d = char_of (if d < 10 then 48 + d else 87 + d)"

definition byte_hex :: "8 word \<Rightarrow> string" where
  "byte_hex b =
     (let digits = (if b < 16 then [lower_hex_char (unat b)]
                    else [lower_hex_char (unat (drop_bit 4 b)), lower_hex_char (unat (take_bit 4 b))])
      in replicate (2 - length digits) (CHR ''0'') @ digits)"

definition bytesToHex :: "8 word list \<Rightarrow> string" where
  "bytesToHex bytes = concat (map byte_hex bytes)"

definition generateSessionToken :: "8 word list \<Rightarrow> string" where
  "generateSessionToken randomValues = bytesToHex (take SESSION_TOKEN_LENGTH randomValues)"

definition hashSessionToken :: "(string \<Rightarrow> 8 word list) \<Rightarrow> string \<Rightarrow> string" where
  "hashSessionToken sha256 token = bytesToHex (sha256 token)"

section \<open>The session table\<close>

type_synonym session_table = "(string, int \<times> int) js_map"

definition sessionExtensionTTL :: int where
  "sessionExtensionTTL = 7 * 24 * 60 * 60 * 1000"

datatype validate_response = InvalidSession | ValidSession int "int option"

definition ValidateSession :: "int \<Rightarrow> string \<Rightarrow> session_table \<Rightarrow> validate_response \<times> session_table" where
  "ValidateSession now sessionId sessions =
     (case jm_get sessions sessionId of
        None \<Rightarrow> (InvalidSession, sessions)
      | Some (userId, expiresAt) \<Rightarrow>
        if now > expiresAt then (InvalidSession, AList.delete sessionId sessions)
        else if expiresAt - now < sessionExtensionTTL div 2
        then (ValidSession userId (Some (now + sessionExtensionTTL)),
              jm_set sessionId (userId, now + sessionExtensionTTL) sessions)
        else (ValidSession userId None, sessions))"

text \<open>\<open>id\<close> is the primary key of the table: inserting it twice fails.\<close>

definition CreateSession :: "int \<Rightarrow> string \<Rightarrow> int \<Rightarrow> session_table \<Rightarrow> (int \<times> session_table) option" where
  "CreateSession now sessionId userId sessions =
     (if jm_get sessions sessionId \<noteq> None then None
      else Some (now + sessionExtensionTTL, jm_set sessionId (userId, now + sessionExtensionTTL) sessions))"

definition DeleteSession :: "string \<Rightarrow> session_table \<Rightarrow> session_table" where
  "DeleteSession sessionId sessions = AList.delete sessionId sessions"

definition sweepExpiredSessions :: "int \<Rightarrow> session_table \<Rightarrow> session_table" where
  "sweepExpiredSessions now sessions = filter (\<lambda>(_, _, expiresAt). \<not> expiresAt < now) sessions"

section \<open>Sessions of the front end\<close>

text \<open>
  A cookie is its value and when it expires. The framework lets an action or a route change the
  cookies; while a page is rendered they are read-only and changing one throws.
\<close>

datatype phase = RenderingPage | ActionOrRoute

type_synonym cookie = "(string \<times> int) option"

definition setSessionTokenCookie :: "phase \<Rightarrow> string \<Rightarrow> int \<Rightarrow> cookie result" where
  "setSessionTokenCookie ph token expiresAt =
     (case ph of RenderingPage \<Rightarrow> Inl CookiesReadOnly | ActionOrRoute \<Rightarrow> Inr (Some (token, expiresAt)))"

definition deleteSessionTokenCookie :: "phase \<Rightarrow> cookie result" where
  "deleteSessionTokenCookie ph =
     (case ph of RenderingPage \<Rightarrow> Inl CookiesReadOnly | ActionOrRoute \<Rightarrow> Inr None)"

definition cookie_value :: "int \<Rightarrow> cookie \<Rightarrow> string option" where
  "cookie_value now c = (case c of None \<Rightarrow> None | Some (v, expires) \<Rightarrow> if now < expires then Some v else None)"

text \<open>
  The session of a token: the user and the session id, the cookie afterwards (when it was re-issued),
  and the table after the call.
\<close>

definition validateSessionToken ::
  "phase \<Rightarrow> (string \<Rightarrow> 8 word list) \<Rightarrow> int \<Rightarrow> string \<Rightarrow> cookie \<Rightarrow> session_table \<Rightarrow>
     ((int \<times> string) option \<times> cookie) result \<times> session_table" where
  "validateSessionToken ph sha256 now token c sessions =
     (let sessionId = hashSessionToken sha256 token;
          (response, sessions') = ValidateSession now sessionId sessions
      in (case response of
            InvalidSession \<Rightarrow> Inr (None, c)
          | ValidSession userId extendedExpiresAt \<Rightarrow>
            (case extendedExpiresAt of
               None \<Rightarrow> Inr (Some (userId, sessionId), c)
             | Some expiresAt \<Rightarrow>
               bind_result (setSessionTokenCookie ph token expiresAt) (\<lambda>c'. Inr (Some (userId, sessionId), c'))),
          sessions'))"

definition getCurrentSession ::
  "phase \<Rightarrow> (string \<Rightarrow> 8 word list) \<Rightarrow> int \<Rightarrow> cookie \<Rightarrow> session_table \<Rightarrow>
     ((int \<times> string) option \<times> cookie) result \<times> session_table" where
  "getCurrentSession ph sha256 now c sessions =
     (case cookie_value now c of
        Some (t # token) \<Rightarrow> validateSessionToken ph sha256 now (t # token) c sessions
      | _ \<Rightarrow> (Inr (None, c), sessions))"

text \<open>A redirect leaves the handler as a thrown value, as the framework does it.\<close>

definition getAuthContextOrRedirect ::
  "phase \<Rightarrow> (string \<Rightarrow> 8 word list) \<Rightarrow> string option \<Rightarrow> int \<Rightarrow> cookie \<Rightarrow> session_table \<Rightarrow>
     ((int \<times> string) \<times> cookie) result \<times> session_table" where
  "getAuthContextOrRedirect ph sha256 requestedPath now c sessions =
     (let (r, sessions') = getCurrentSession ph sha256 now c sessions
      in (bind_result r (\<lambda>(session, c').
            case session of
              None \<Rightarrow> Inl (RedirectTo (signInUrlWithReturnPath requestedPath))
            | Some auth \<Rightarrow> Inr (auth, c')),
          sessions'))"

section \<open>Signing in, up and out\<close>

datatype sign_result = SignedIn | SignFailed string

definition sign_in_form_is_valid :: "string \<Rightarrow> string \<Rightarrow> bool" where
  "sign_in_form_is_valid login password \<longleftrightarrow>
     1 \<le> length login \<and> length login \<le> 256 \<and> 1 \<le> length password \<and> length password \<le> 256"

text \<open>Creating the session of a user and handing its token to the browser.\<close>

definition start_session ::
  "(string \<Rightarrow> 8 word list) \<Rightarrow> 8 word list \<Rightarrow> int \<Rightarrow> int \<Rightarrow> cookie \<Rightarrow> session_table \<Rightarrow>
     sign_result result \<times> cookie \<times> session_table" where
  "start_session sha256 randomValues now userId c sessions =
     (let token = generateSessionToken randomValues
      in case CreateSession now (hashSessionToken sha256 token) userId sessions of
           None \<Rightarrow> (Inl BackendFailed, c, sessions)
         | Some (expiration, sessions') \<Rightarrow>
           (case setSessionTokenCookie ActionOrRoute token expiration of
              Inl e \<Rightarrow> (Inl e, c, sessions')
            | Inr c' \<Rightarrow> (Inr SignedIn, c', sessions')))"

definition signIn ::
  "(string \<Rightarrow> string \<Rightarrow> int option) \<Rightarrow> (string \<Rightarrow> 8 word list) \<Rightarrow> 8 word list \<Rightarrow> string \<Rightarrow> string \<Rightarrow>
     int \<Rightarrow> cookie \<Rightarrow> session_table \<Rightarrow> sign_result result \<times> cookie \<times> session_table" where
  "signIn authenticate sha256 randomValues login password now c sessions =
     (if \<not> sign_in_form_is_valid login password
      then (Inr (SignFailed ''Wrong login or password''), c, sessions)
      else case authenticate login password of
             None \<Rightarrow> (Inr (SignFailed ''Wrong login or password''), c, sessions)
           | Some userId \<Rightarrow> start_session sha256 randomValues now userId c sessions)"

definition hasCapacityToSignUp :: "string option \<Rightarrow> int \<Rightarrow> bool" where
  "hasCapacityToSignUp maxUsersAllowed userCount =
     (case positiveIntOrNull maxUsersAllowed of None \<Rightarrow> False | Some maxUsers \<Rightarrow> of_int userCount < maxUsers)"

definition sign_up_form_is_valid :: "string \<Rightarrow> string \<Rightarrow> string \<Rightarrow> bool" where
  "sign_up_form_is_valid login password confirmPassword \<longleftrightarrow>
     1 \<le> length login \<and> 8 \<le> length password \<and> 1 \<le> length confirmPassword \<and> password = confirmPassword"

definition signUp ::
  "string option \<Rightarrow> int \<Rightarrow> (string \<Rightarrow> string \<Rightarrow> string + int) \<Rightarrow> (string \<Rightarrow> 8 word list) \<Rightarrow> 8 word list \<Rightarrow>
     string \<Rightarrow> string \<Rightarrow> string \<Rightarrow> int \<Rightarrow> cookie \<Rightarrow> session_table \<Rightarrow> sign_result result \<times> cookie \<times> session_table" where
  "signUp maxUsersAllowed userCount register sha256 randomValues login password confirmPassword now c sessions =
     (if \<not> hasCapacityToSignUp maxUsersAllowed userCount
      then (Inr (SignFailed ''Maximum number of allowed users reached.''), c, sessions)
      else case getCurrentSession ActionOrRoute sha256 now c sessions of
        (Inl e, sessions') \<Rightarrow> (Inl e, c, sessions')
      | (Inr (Some _, c'), sessions') \<Rightarrow> (Inl (RedirectTo DEFAULT_AUTHENTICATED_PAGE), c', sessions')
      | (Inr (None, c'), sessions') \<Rightarrow>
        if \<not> sign_up_form_is_valid login password confirmPassword
        then (Inr (SignFailed ''Failed to create the user, please try again.''), c', sessions')
        else case register login password of
          Inl e \<Rightarrow>
            (Inr (SignFailed (if e \<noteq> [] then e else ''Failed to create the user, please try again.'')), c', sessions')
        | Inr userId \<Rightarrow> start_session sha256 randomValues now userId c' sessions')"

definition signOut ::
  "(string \<Rightarrow> 8 word list) \<Rightarrow> int \<Rightarrow> cookie \<Rightarrow> session_table \<Rightarrow> unit result \<times> cookie \<times> session_table" where
  "signOut sha256 now c sessions =
     (case getCurrentSession ActionOrRoute sha256 now c sessions of
        (Inl e, sessions') \<Rightarrow> (Inl e, c, sessions')
      | (Inr (None, c'), sessions') \<Rightarrow> (Inl (RedirectTo SIGN_IN_URL), c', sessions')
      | (Inr (Some (userId, sessionId), c'), sessions') \<Rightarrow>
        (case deleteSessionTokenCookie ActionOrRoute of
           Inl e \<Rightarrow> (Inl e, c', DeleteSession sessionId sessions')
         | Inr c'' \<Rightarrow> (Inl (RedirectTo SIGN_IN_URL), c'', DeleteSession sessionId sessions')))"

text \<open>The sign-in page: a redirect for a user who is signed in, else the form with the page to go to.\<close>

definition LoginPage ::
  "(string \<Rightarrow> 8 word list) \<Rightarrow> search_param \<Rightarrow> int \<Rightarrow> cookie \<Rightarrow> session_table \<Rightarrow> string result \<times> session_table" where
  "LoginPage sha256 nextParam now c sessions =
     (let safeReturnPath = returnPathOrDefault (firstValueOrNull nextParam);
          (r, sessions') = getCurrentSession RenderingPage sha256 now c sessions
      in (bind_result r (\<lambda>(session, _).
            if session \<noteq> None then Inl (RedirectTo safeReturnPath) else Inr safeReturnPath), sessions'))"

section \<open>The request proxy\<close>

record http_request =
  rq_method :: string
  rq_pathname :: string
  rq_search :: string
  rq_session_cookie :: "string option"
  rq_origin :: "string option"
  rq_host :: "string option"
  rq_forwarded_host :: "string option"

record set_cookie =
  sc_value :: string
  sc_maxAge :: int
  sc_secure :: bool

datatype proxy_response = Pass | Forward string "set_cookie option" | Forbidden

definition extendAuthCookie :: "bool \<Rightarrow> http_request \<Rightarrow> set_cookie option" where
  "extendAuthCookie isProd request =
     (case rq_session_cookie request of
        Some (t # token) \<Rightarrow>
          Some \<lparr>sc_value = t # token, sc_maxAge = 60 * 60 * 24 * COOKIE_TTL_DAYS, sc_secure = isProd\<rparr>
      | _ \<Rightarrow> None)"

text \<open>\<open>url_host\<close> is the host of \<open>new URL(origin)\<close>, or nothing when the constructor throws.\<close>

definition isSameOrigin :: "(string \<Rightarrow> string option) \<Rightarrow> http_request \<Rightarrow> bool" where
  "isSameOrigin url_host request =
     (let sameOrigin = (\<lambda>host.
            case (rq_origin request, host) of
              (Some originHeader, Some h) \<Rightarrow>
                (case url_host originHeader of None \<Rightarrow> False | Some originHost \<Rightarrow> originHost = h)
            | _ \<Rightarrow> False)
      in sameOrigin (rq_host request) \<or> sameOrigin (rq_forwarded_host request))"

definition proxy :: "(string \<Rightarrow> string option) \<Rightarrow> bool \<Rightarrow> http_request \<Rightarrow> proxy_response" where
  "proxy url_host isProd request =
     (if rq_pathname request = SIGN_OUT_URL then Pass
      else if rq_method request = ''GET''
      then Forward (rq_pathname request @ rq_search request) (extendAuthCookie isProd request)
      else if \<not> isSameOrigin url_host request then Forbidden
      else Forward (rq_pathname request @ rq_search request) None)"

definition session_cookie_secure :: "bool \<Rightarrow> string option \<Rightarrow> bool" where
  "session_cookie_secure isProd publicAppUrl \<longleftrightarrow>
     isProd \<and> \<not> (case publicAppUrl of None \<Rightarrow> False | Some url \<Rightarrow> starts_with url ''http://'')"

section \<open>Tokens identify their bytes\<close>

lemma hex_digits_distinct: "d < 16 \<Longrightarrow> e < 16 \<Longrightarrow> lower_hex_char d = lower_hex_char e \<Longrightarrow> d = e"
proof -
  assume d: "d < 16" "e < 16" and eq: "lower_hex_char d = lower_hex_char e"
  have "(of_char (lower_hex_char x) :: nat) = (if x < 10 then 48 + x else 87 + x)" if "x < 16" for x
    using that by (simp add: lower_hex_char_def of_char_of)
  then have "(if d < 10 then 48 + d else 87 + d) = (if e < 10 then 48 + e else 87 + e)" using d eq by metis
  then show "d = e" using d by (simp split: if_splits)
qed

lemma nibbles:
  fixes b :: "8 word"
  shows "unat (drop_bit 4 b) = unat b div 16" "unat (take_bit 4 b) = unat b mod 16" "unat b < 256"
  using unsigned_less [of b, where 'a = nat] by (simp_all add: drop_bit_eq_div take_bit_eq_mod unat_div unat_mod)

lemma char_of_zero: "char_of (48 :: nat) = CHR ''0''"
  by code_simp

lemma byte_hex_eq:
  "byte_hex b = [lower_hex_char (unat (drop_bit 4 b)), lower_hex_char (unat (take_bit 4 b))]"
proof (cases "b < 16")
  case True
  then have "unat b < 16" by (simp add: word_less_nat_alt)
  then have "unat (drop_bit 4 b) = 0" "unat (take_bit 4 b) = unat b" by (simp_all only: nibbles) auto
  then show ?thesis using True by (simp add: byte_hex_def lower_hex_char_def char_of_zero)
qed (simp add: byte_hex_def)

lemma byte_hex_inject: "byte_hex a = byte_hex b \<Longrightarrow> a = b"
proof -
  assume eq: "byte_hex a = byte_hex b"
  have lt: "unat (drop_bit 4 x) < 16" "unat (take_bit 4 x) < 16" for x :: "8 word"
    using nibbles(3) [of x] unfolding nibbles by presburger+
  have "unat (drop_bit 4 a) = unat (drop_bit 4 b)" "unat (take_bit 4 a) = unat (take_bit 4 b)"
    using eq lt hex_digits_distinct by (auto simp: byte_hex_eq)
  then have "unat a div 16 = unat b div 16" "unat a mod 16 = unat b mod 16"
    by (simp_all only: nibbles)
  then have "unat a = unat b" by (metis div_mult_mod_eq)
  then show "a = b" by (simp only: word_unat_eq_iff)
qed

lemma length_byte_hex [simp]: "length (byte_hex b) = 2"
  by (simp add: byte_hex_eq)

lemma bytesToHex_inject: "bytesToHex xs = bytesToHex ys \<Longrightarrow> xs = ys"
proof (induction xs arbitrary: ys)
  case Nil
  then show ?case by (cases ys) (auto simp: bytesToHex_def byte_hex_eq)
next
  case (Cons x xs)
  then obtain y ys' where ys: "ys = y # ys'" by (cases ys) (auto simp: bytesToHex_def byte_hex_eq)
  then have "byte_hex x @ bytesToHex xs = byte_hex y @ bytesToHex ys'"
    using Cons.prems by (simp add: bytesToHex_def)
  then have "byte_hex x = byte_hex y" "bytesToHex xs = bytesToHex ys'" by simp_all
  then show ?case using Cons.IH byte_hex_inject ys by auto
qed

lemma length_bytesToHex: "length (bytesToHex bs) = 2 * length bs"
  by (induction bs) (auto simp: bytesToHex_def)

lemma bytesToHex_alnum: "c \<in> set (bytesToHex bs) \<Longrightarrow> is_alpha_numeric c"
proof -
  have "d < 16 \<Longrightarrow> is_alpha_numeric (lower_hex_char d)" for d
    by (auto simp: is_alpha_numeric_def lower_hex_char_def of_char_of)
  moreover have "unat (drop_bit 4 x) < 16" "unat (take_bit 4 x) < 16" for x :: "8 word"
    using nibbles(3) [of x] unfolding nibbles by presburger+
  ultimately show "c \<in> set (bytesToHex bs) \<Longrightarrow> is_alpha_numeric c"
    by (auto simp: bytesToHex_def byte_hex_eq)
qed

section \<open>Return paths survive the sign-in page\<close>

lemma hex_value_hex_char: "d < 16 \<Longrightarrow> hex_value (hex_char d) = Some d"
  by (auto simp: hex_value_def hex_char_def of_char_of)

lemma form_unreserved_char: "form_unreserved c \<Longrightarrow> c \<noteq> CHR ''+'' \<and> c \<noteq> CHR ''%'' \<and> c \<noteq> CHR ''='' \<and> c \<noteq> CHR ''&'' \<and> c \<noteq> CHR ''?''"
  by (auto simp: form_unreserved_def is_alpha_numeric_def Let_def)

lemma char_nibbles: "char_of (16 * ((of_char c :: nat) div 16) + of_char c mod 16) = c"
proof -
  have "16 * ((of_char c :: nat) div 16) + of_char c mod 16 = of_char c" by simp
  then show ?thesis by (simp only: char_of_char)
qed

lemma of_char_small: "(of_char c :: nat) div 16 < 16" "(of_char c :: nat) mod 16 < 16"
proof -
  have "(of_char c :: nat) < 256" by (metis of_char_mod_256 mod_less_divisor zero_less_numeral)
  then show "(of_char c :: nat) div 16 < 16" by (intro less_mult_imp_div_less) simp
  show "(of_char c :: nat) mod 16 < 16" by simp
qed

lemma decode_encode_char: "form_urldecode (form_encode_char c @ s) = c # form_urldecode s"
proof (cases "c = CHR '' '' \<or> form_unreserved c")
  case True
  then show ?thesis using form_unreserved_char by (auto simp: form_encode_char_def)
next
  case False
  have "(case (Some (of_char c div 16 :: nat), Some (of_char c mod 16 :: nat)) of
      (Some x, Some y) \<Rightarrow> char_of (16 * x + y) # form_urldecode s | _ \<Rightarrow> []) = c # form_urldecode s"
    by (simp only: option.case prod.case char_nibbles)
  then show ?thesis
    using False by (simp add: form_encode_char_def hex_value_hex_char of_char_small)
qed

lemma form_url_roundtrip: "form_urldecode (form_urlencode s) = s"
  by (induction s) (simp_all add: form_urlencode_def decode_encode_char)

lemma hex_char_alnum: "d < 16 \<Longrightarrow> is_alpha_numeric (hex_char d)"
  by (auto simp: is_alpha_numeric_def hex_char_def of_char_of)

lemma form_encode_char_set:
  "x \<in> set (form_encode_char c) \<Longrightarrow> x = CHR ''+'' \<or> x = CHR ''%'' \<or> form_unreserved x"
  using hex_char_alnum of_char_small [of c] by (auto simp: form_encode_char_def form_unreserved_def split: if_splits)

lemma form_encode_clean:
  "x \<in> set (form_urlencode s) \<Longrightarrow> x \<noteq> CHR ''&'' \<and> x \<noteq> CHR ''='' \<and> x \<noteq> CHR ''?''"
  using form_encode_char_set [of x] form_unreserved_char [of x] by (auto simp: form_urlencode_def)

lemma split_on_none: "sep \<notin> set s \<Longrightarrow> split_on sep s = [s]"
  by (induction s) auto

lemma takeWhile_stop: "\<forall>x \<in> set xs. P x \<Longrightarrow> \<not> P y \<Longrightarrow> takeWhile P (xs @ y # ys) = xs"
  by (induction xs) auto

lemma dropWhile_stop: "\<forall>x \<in> set xs. P x \<Longrightarrow> \<not> P y \<Longrightarrow> dropWhile P (xs @ y # ys) = y # ys"
  by (induction xs) auto

text \<open>
  C30: Whoever is sent to the sign-in page from a page of the site comes back to that page: the path
  put in the URL, whatever characters it holds, is exactly the one the sign-in page reads out of it.
\<close>
theorem return_path_roundtrip:
  assumes "isSafeReturnPath path"
  shows "returnPathOrDefault (firstValueOrNull (search_param_of RETURN_PATH_PARAM
    (signInUrlWithReturnPath (Some path)))) = path"
proof -
  obtain c s where p: "path = c # s" using assms by (cases path) (auto simp: isSafeReturnPath_def)
  define enc where "enc = form_urlencode path"
  have enc: "\<forall>x \<in> set enc. x \<noteq> CHR ''&'' \<and> x \<noteq> CHR ''='' \<and> x \<noteq> CHR ''?''"
    using form_encode_clean by (auto simp: enc_def)
  have name: "form_urlencode RETURN_PATH_PARAM = ''next''" by code_simp
  have url: "signInUrlWithReturnPath (Some path) = ''/auth/signin'' @ CHR ''?'' # (''next='' @ enc)"
    using assms by (simp add: signInUrlWithReturnPath_def p name SIGN_IN_URL_def enc_def)
  have "drop 1 (dropWhile (\<lambda>c. c \<noteq> CHR ''?'') (signInUrlWithReturnPath (Some path))) = ''next='' @ enc"
    unfolding url by (subst dropWhile_stop) auto
  moreover have "parse_query (''next='' @ enc) = [(RETURN_PATH_PARAM, path)]"
  proof -
    have split: "split_on (CHR ''&'') (''next='' @ enc) = [''next='' @ enc]"
      using enc by (intro split_on_none) auto
    have eq: "takeWhile (\<lambda>c. c \<noteq> CHR ''='') (''next='' @ enc) = ''next''"
        "drop 1 (dropWhile (\<lambda>c. c \<noteq> CHR ''='') (''next='' @ enc)) = enc" by simp_all
    have decoded: "form_urldecode ''next'' = RETURN_PATH_PARAM" "form_urldecode enc = path"
      by code_simp (simp add: enc_def form_url_roundtrip)
    have "(''next='' @ enc \<noteq> []) = True" by simp
    then show ?thesis by (simp only: parse_query_def split filter.simps if_True list.map eq decoded)
  qed
  ultimately have "search_param_of RETURN_PATH_PARAM (signInUrlWithReturnPath (Some path)) = ParamString path"
    unfolding search_param_of_def by simp
  then show ?thesis using assms p by (simp add: firstValueOrNull_def returnPathOrDefault_def)
qed

theorem return_path_roundtrip_witness:
  "returnPathOrDefault (firstValueOrNull (search_param_of RETURN_PATH_PARAM
    (signInUrlWithReturnPath (Some ''/stats?from=1&q=a b%'')))) = ''/stats?from=1&q=a b%''"
  by (rule return_path_roundtrip) (simp add: isSafeReturnPath_def)

text \<open>
  The page a user is sent to after signing in is on this site, as long as the requested path
  holds no tab or line break (which browsers drop from URLs; see \<open>open_redirect\<close>).
\<close>
theorem return_path_stays_on_site:
  assumes "list_all (\<lambda>c. \<not> url_ignored c) (case maybeUnsafePath of None \<Rightarrow> [] | Some p \<Rightarrow> p)"
  shows "\<not> names_other_host (returnPathOrDefault maybeUnsafePath) \<and>
    starts_with (returnPathOrDefault maybeUnsafePath) ''/''"
proof -
  have default: "\<not> names_other_host DEFAULT_AUTHENTICATED_PAGE" "starts_with DEFAULT_AUTHENTICATED_PAGE ''/''"
    by code_simp+
  show ?thesis
  proof (cases "\<exists>c s. maybeUnsafePath = Some (c # s) \<and> isSafeReturnPath (c # s)")
    case True
    then obtain c s where p: "maybeUnsafePath = Some (c # s)" "isSafeReturnPath (c # s)" by auto
    then have "filter (\<lambda>c. \<not> url_ignored c) (c # s) = c # s"
      using assms by (simp only: filter_id_conv) (simp add: list_all_iff)
    then have "\<not> names_other_host (c # s)"
      using p(2) by (cases s) (auto simp: names_other_host_def isSafeReturnPath_def is_slash_def)
    then show ?thesis using p by (simp add: returnPathOrDefault_def isSafeReturnPath_def)
  next
    case False
    then have "returnPathOrDefault maybeUnsafePath = DEFAULT_AUTHENTICATED_PAGE"
      by (auto simp: returnPathOrDefault_def split: option.splits list.splits)
    then show ?thesis using default by simp
  qed
qed

theorem return_path_stays_on_site_witness:
  "\<not> names_other_host (returnPathOrDefault (Some ''/trips''))"
  using return_path_stays_on_site [of "Some ''/trips''"] by (simp add: url_ignored_def)

text \<open>A tab between the slashes passes the filter and names another host.\<close>

lemma open_redirect:
  "returnPathOrDefault (firstValueOrNull (search_param_of RETURN_PATH_PARAM ''/auth/signin?next=/%09/evil.com'')) =
     CHR ''/'' # CHR 0x09 # ''/evil.com'' \<and>
   names_other_host (CHR ''/'' # CHR 0x09 # ''/evil.com'')"
  by code_simp

section \<open>The contract of the session service\<close>

text \<open>
  What the front end relies on: \<open>session s i\<close> is the user and the expiry of the session \<open>i\<close>. The laws
  are discharged below for the session table of the backend.
\<close>

locale session_service =
  fixes create :: "int \<Rightarrow> string \<Rightarrow> int \<Rightarrow> 's \<Rightarrow> (int \<times> 's) option"
    and validate :: "int \<Rightarrow> string \<Rightarrow> 's \<Rightarrow> validate_response \<times> 's"
    and delete :: "string \<Rightarrow> 's \<Rightarrow> 's"
    and session :: "'s \<Rightarrow> string \<Rightarrow> (int \<times> int) option"
  assumes create_new: "session s i = None \<Longrightarrow>
      \<exists>e s'. create now i u s = Some (e, s') \<and> now < e \<and> session s' = (session s)(i \<mapsto> (u, e))"
    and create_old: "session s i \<noteq> None \<Longrightarrow> create now i u s = None"
    and validate_known: "session s i = Some (u, e) \<Longrightarrow> now \<le> e \<Longrightarrow>
      \<exists>ext s'. validate now i s = (ValidSession u ext, s') \<and> e \<le> (case ext of None \<Rightarrow> e | Some e' \<Rightarrow> e') \<and>
        session s' = (session s)(i \<mapsto> (u, case ext of None \<Rightarrow> e | Some e' \<Rightarrow> e'))"
    and validate_unknown: "session s i = None \<or> (\<exists>u e. session s i = Some (u, e) \<and> e < now) \<Longrightarrow>
      \<exists>s'. validate now i s = (InvalidSession, s') \<and> session s' = (session s)(i := None)"
    and session_delete: "session (delete i s) = (session s)(i := None)"
begin

lemma validate_cases:
  assumes "validate now i s = (r, s')"
  obtains (unknown) "r = InvalidSession" "session s' = (session s)(i := None)"
  | (known) u e ext where "r = ValidSession u ext" "session s i = Some (u, e)" "now \<le> e"
      "session s' = (session s)(i \<mapsto> (u, case ext of None \<Rightarrow> e | Some e' \<Rightarrow> e'))"
proof (cases "\<exists>u e. session s i = Some (u, e) \<and> now \<le> e")
  case True
  then show ?thesis using validate_known [of s i _ _ now] assms known by fastforce
next
  case False
  then have "session s i = None \<or> (\<exists>u e. session s i = Some (u, e) \<and> e < now)"
    by (cases "session s i") (auto simp: not_le)
  then obtain s'' where "validate now i s = (InvalidSession, s'')" "session s'' = (session s)(i := None)"
    using validate_unknown by blast
  then show ?thesis using assms unknown by simp
qed

lemma validate_keeps_users:
  assumes "validate now i s = (r, s')" "session s' j = Some (u, e)"
  shows "\<exists>e'. session s j = Some (u, e')"
  using assms by (cases rule: validate_cases) (auto split: if_splits)

lemma deleted_is_invalid: "\<exists>s'. validate now i (delete i s) = (InvalidSession, s')"
  using validate_unknown [of "delete i s" i now] by (auto simp: session_delete)

lemma created_is_valid:
  assumes "create now i u s = Some (e, s')" "now' \<le> e"
  shows "\<exists>ext s''. validate now' i s' = (ValidSession u ext, s'')"
proof -
  have "session s i = None" using assms(1) create_old [of s i now u] by (cases "session s i") auto
  then have "session s' i = Some (u, e)" using create_new [of s i now u] assms(1) by auto
  then show ?thesis using validate_known assms(2) by blast
qed

end

interpretation session_db: session_service CreateSession ValidateSession DeleteSession jm_get
proof
  fix s :: session_table and i :: string and now u e :: int
  have del: "jm_get (AList.delete i s) = (jm_get s)(i := None)"
    by (rule ext) (simp add: jm_get_def delete_conv')
  then show "jm_get (DeleteSession i s) = (jm_get s)(i := None)" by (simp add: DeleteSession_def)
  have set: "jm_get (jm_set i v s) = (jm_get s)(i \<mapsto> v)" for v by auto
  show "jm_get s i = None \<Longrightarrow>
      \<exists>e s'. CreateSession now i u s = Some (e, s') \<and> now < e \<and> jm_get s' = (jm_get s)(i \<mapsto> (u, e))"
    by (auto simp: CreateSession_def sessionExtensionTTL_def set)
  show "jm_get s i \<noteq> None \<Longrightarrow> CreateSession now i u s = None"
    by (simp add: CreateSession_def)
  show "jm_get s i = Some (u, e) \<Longrightarrow> now \<le> e \<Longrightarrow>
      \<exists>ext s'. ValidateSession now i s = (ValidSession u ext, s') \<and> e \<le> (case ext of None \<Rightarrow> e | Some e' \<Rightarrow> e') \<and>
        jm_get s' = (jm_get s)(i \<mapsto> (u, case ext of None \<Rightarrow> e | Some e' \<Rightarrow> e'))"
    by (cases "e - now < sessionExtensionTTL div 2")
      (auto simp: ValidateSession_def set sessionExtensionTTL_def fun_upd_idem)
  show "jm_get s i = None \<or> (\<exists>u e. jm_get s i = Some (u, e) \<and> e < now) \<Longrightarrow>
      \<exists>s'. ValidateSession now i s = (InvalidSession, s') \<and> jm_get s' = (jm_get s)(i := None)"
    by (auto simp: ValidateSession_def del fun_upd_idem)
qed

section \<open>The life of sessions\<close>

text \<open>
  The world of the protocol: the clock, the session table, the cookie of every browser, and the
  record of who was handed which token. Anyone may put any token in a cookie that was not issued.
\<close>

record auth_world =
  aw_now :: int
  aw_sessions :: session_table
  aw_cookies :: "nat \<Rightarrow> cookie"
  aw_issued :: "(nat \<times> int \<times> string) list"

definition issued_tokens :: "auth_world \<Rightarrow> string set" where
  "issued_tokens w = (snd \<circ> snd) ` set (aw_issued w)"

inductive auth_step ::
  "(string \<Rightarrow> string \<Rightarrow> int option) \<Rightarrow> (string \<Rightarrow> string \<Rightarrow> string + int) \<Rightarrow> (string \<Rightarrow> 8 word list) \<Rightarrow>
     auth_world \<Rightarrow> auth_world \<Rightarrow> bool"
  for authenticate register sha256 where
  time_passes: "0 \<le> d \<Longrightarrow> auth_step authenticate register sha256 w (w\<lparr>aw_now := aw_now w + d\<rparr>)"
| signs_in: "authenticate login password = Some userId \<Longrightarrow>
    generateSessionToken randomValues \<notin> issued_tokens w \<Longrightarrow>
    \<forall>b'. map_option fst (aw_cookies w b') \<noteq> Some (generateSessionToken randomValues) \<Longrightarrow>
    signIn authenticate sha256 randomValues login password (aw_now w) (aw_cookies w b) (aw_sessions w) =
      (Inr SignedIn, c, sessions) \<Longrightarrow>
    auth_step authenticate register sha256 w (w\<lparr>aw_sessions := sessions, aw_cookies := (aw_cookies w)(b := c),
      aw_issued := (b, userId, generateSessionToken randomValues) # aw_issued w\<rparr>)"
| signs_up: "register login password = Inr userId \<Longrightarrow>
    generateSessionToken randomValues \<notin> issued_tokens w \<Longrightarrow>
    \<forall>b'. map_option fst (aw_cookies w b') \<noteq> Some (generateSessionToken randomValues) \<Longrightarrow>
    signUp maxUsersAllowed userCount register sha256 randomValues login password confirmPassword (aw_now w)
      (aw_cookies w b) (aw_sessions w) = (Inr SignedIn, c, sessions) \<Longrightarrow>
    auth_step authenticate register sha256 w (w\<lparr>aw_sessions := sessions, aw_cookies := (aw_cookies w)(b := c),
      aw_issued := (b, userId, generateSessionToken randomValues) # aw_issued w\<rparr>)"
| visits: "getCurrentSession ph sha256 (aw_now w) (aw_cookies w b) (aw_sessions w) = (r, sessions) \<Longrightarrow>
    auth_step authenticate register sha256 w (w\<lparr>aw_sessions := sessions,
      aw_cookies := (aw_cookies w)(b := (case r of Inl _ \<Rightarrow> aw_cookies w b | Inr (_, c) \<Rightarrow> c))\<rparr>)"
| signs_out: "signOut sha256 (aw_now w) (aw_cookies w b) (aw_sessions w) = (r, c, sessions) \<Longrightarrow>
    auth_step authenticate register sha256 w (w\<lparr>aw_sessions := sessions, aw_cookies := (aw_cookies w)(b := c)\<rparr>)"
| cookie_extended: "cookie_value (aw_now w) (aw_cookies w b) = Some v \<Longrightarrow>
    auth_step authenticate register sha256 w (w\<lparr>aw_cookies := (aw_cookies w)
      (b := Some (v, aw_now w + 1000 * (60 * 60 * 24 * COOKIE_TTL_DAYS)))\<rparr>)"
| forges: "token \<notin> issued_tokens w \<Longrightarrow>
    auth_step authenticate register sha256 w (w\<lparr>aw_cookies := (aw_cookies w)(b := Some (token, expires))\<rparr>)"
| sweeps: "auth_step authenticate register sha256 w (w\<lparr>aw_sessions := sweepExpiredSessions (aw_now w) (aw_sessions w)\<rparr>)"

inductive_cases auth_stepE: "auth_step authenticate register sha256 w w'"

text \<open>A user the backend vouches for: it accepted their password or registered them.\<close>

definition vouched :: "(string \<Rightarrow> string \<Rightarrow> int option) \<Rightarrow> (string \<Rightarrow> string \<Rightarrow> string + int) \<Rightarrow> int \<Rightarrow> bool" where
  "vouched authenticate register u \<longleftrightarrow>
     (\<exists>login password. authenticate login password = Some u \<or> register login password = Inr u)"

definition auth_ok ::
  "(string \<Rightarrow> string \<Rightarrow> int option) \<Rightarrow> (string \<Rightarrow> string \<Rightarrow> string + int) \<Rightarrow> (string \<Rightarrow> 8 word list) \<Rightarrow>
     auth_world \<Rightarrow> bool" where
  "auth_ok authenticate register sha256 w \<longleftrightarrow>
     jm_ok (aw_sessions w) \<and> distinct (map (snd \<circ> snd) (aw_issued w)) \<and>
     (\<forall>i u e. jm_get (aw_sessions w) i = Some (u, e) \<longrightarrow>
        (\<exists>b t. (b, u, t) \<in> set (aw_issued w) \<and> hashSessionToken sha256 t = i)) \<and>
     (\<forall>b t e. aw_cookies w b = Some (t, e) \<and> t \<in> issued_tokens w \<longrightarrow> (\<exists>u. (b, u, t) \<in> set (aw_issued w))) \<and>
     (\<forall>b u t. (b, u, t) \<in> set (aw_issued w) \<longrightarrow> vouched authenticate register u)"

definition fresh_world :: auth_world where
  "fresh_world = \<lparr>aw_now = 0, aw_sessions = [], aw_cookies = (\<lambda>_. None), aw_issued = []\<rparr>"

lemma auth_ok_fresh: "auth_ok authenticate register sha256 fresh_world"
  by (simp add: auth_ok_def fresh_world_def issued_tokens_def jm_get_def jm_ok_def)

lemma jm_ok_ValidateSession: "jm_ok s \<Longrightarrow> jm_ok (snd (ValidateSession now i s))"
  by (auto simp: ValidateSession_def jm_ok_def jm_set_def distinct_update distinct_delete
      split: option.splits)

lemma sweep_get: "jm_ok s \<Longrightarrow> jm_get (sweepExpiredSessions now s) i = Some v \<Longrightarrow> jm_get s i = Some v"
proof -
  assume ok: "jm_ok s" and get: "jm_get (sweepExpiredSessions now s) i = Some v"
  have "(i, v) \<in> set s"
    using map_of_SomeD [OF get [unfolded jm_get_def]] by (auto simp: sweepExpiredSessions_def)
  then show "jm_get s i = Some v" using ok by (simp add: jm_entry_iff)
qed

lemma jm_ok_sweep: "jm_ok s \<Longrightarrow> jm_ok (sweepExpiredSessions now s)"
  by (auto simp: jm_ok_def sweepExpiredSessions_def distinct_map intro: inj_on_subset)

lemma getCurrentSession_effect:
  assumes "getCurrentSession ph sha256 now c s = (r, s')"
  shows "(jm_ok s \<longrightarrow> jm_ok s') \<and> (\<forall>i u e. jm_get s' i = Some (u, e) \<longrightarrow> (\<exists>e'. jm_get s i = Some (u, e'))) \<and>
    (\<forall>x c'. r = Inr (x, c') \<longrightarrow> c' = c \<or> (\<exists>t e e'. c = Some (t, e) \<and> c' = Some (t, e')))"
proof (cases "\<exists>t ts. cookie_value now c = Some (t # ts)")
  case True
  then obtain t ts where t: "cookie_value now c = Some (t # ts)" by blast
  then obtain e where c: "c = Some (t # ts, e)" by (auto simp: cookie_value_def split: option.splits if_splits)
  obtain resp where v: "ValidateSession now (hashSessionToken sha256 (t # ts)) s = (resp, s')"
    using assms t by (auto simp: getCurrentSession_def validateSessionToken_def Let_def split: prod.splits)
  have "r = (case resp of InvalidSession \<Rightarrow> Inr (None, c)
      | ValidSession userId ext \<Rightarrow> (case ext of None \<Rightarrow> Inr (Some (userId, hashSessionToken sha256 (t # ts)), c)
         | Some e' \<Rightarrow> bind_result (setSessionTokenCookie ph (t # ts) e') (\<lambda>c'. Inr (Some (userId, hashSessionToken sha256 (t # ts)), c'))))"
    using assms t v by (simp add: getCurrentSession_def validateSessionToken_def Let_def)
  then have "\<forall>x c'. r = Inr (x, c') \<longrightarrow> c' = c \<or> (\<exists>t e e'. c = Some (t, e) \<and> c' = Some (t, e'))"
    using c by (auto simp: setSessionTokenCookie_def split: validate_response.splits option.splits phase.splits)
  moreover have "jm_ok s \<longrightarrow> jm_ok s'" using jm_ok_ValidateSession v by (metis snd_conv)
  ultimately show ?thesis using session_db.validate_keeps_users [OF v] by blast
next
  case False
  then have "r = Inr (None, c) \<and> s' = s"
    using assms by (auto simp: getCurrentSession_def split: option.splits list.splits)
  then show ?thesis by auto
qed

lemma start_session_effect:
  assumes "start_session sha256 rv now u c s = (Inr SignedIn, c', s')"
  shows "\<exists>e. CreateSession now (hashSessionToken sha256 (generateSessionToken rv)) u s = Some (e, s') \<and>
    c' = Some (generateSessionToken rv, e)"
  using assms by (auto simp: start_session_def setSessionTokenCookie_def Let_def split: option.splits)

lemma signIn_effect:
  assumes "signIn authenticate sha256 rv login password now c s = (Inr SignedIn, c', s')"
    and "authenticate login password = Some u"
  shows "\<exists>e. CreateSession now (hashSessionToken sha256 (generateSessionToken rv)) u s = Some (e, s') \<and>
    c' = Some (generateSessionToken rv, e)"
  using assms start_session_effect by (auto simp: signIn_def split: if_splits)

lemma signOut_effect:
  assumes "signOut sha256 now c s = (r, c', s')"
  shows "(jm_ok s \<longrightarrow> jm_ok s') \<and> (\<forall>i u e. jm_get s' i = Some (u, e) \<longrightarrow> (\<exists>e'. jm_get s i = Some (u, e'))) \<and>
    (c' = None \<or> c' = c \<or> (\<exists>t e e'. c = Some (t, e) \<and> c' = Some (t, e')))"
proof -
  obtain q s1 where q: "getCurrentSession ActionOrRoute sha256 now c s = (q, s1)" by fastforce
  note eff = getCurrentSession_effect [OF q]
  have del: "jm_get (DeleteSession i s1) j = Some v \<Longrightarrow> jm_get s1 j = Some v" for i j v
    by (simp add: session_db.session_delete split: if_splits)
  have ok: "jm_ok s1 \<Longrightarrow> jm_ok (DeleteSession i s1)" for i
    by (simp add: jm_ok_def DeleteSession_def distinct_delete)
  show ?thesis
    using assms q eff del ok
    by (auto simp: signOut_def deleteSessionTokenCookie_def split: sum.splits option.splits prod.splits)
qed

lemma issued_functional:
  assumes "distinct (map (snd \<circ> snd) xs)" "(b, u, t) \<in> set xs" "(b', u', t) \<in> set xs"
  shows "b = b' \<and> u = u'"
  using assms by (induction xs) (auto simp: image_iff)

text \<open>A step that issues no token, creates no session and moves no issued token to another browser.\<close>

lemma auth_ok_calm:
  assumes ok: "auth_ok authenticate register sha256 w" and "aw_issued w' = aw_issued w" "jm_ok (aw_sessions w')"
    and sessions: "\<And>i u e. jm_get (aw_sessions w') i = Some (u, e) \<Longrightarrow> \<exists>e'. jm_get (aw_sessions w) i = Some (u, e')"
    and cookies: "\<And>b t e. aw_cookies w' b = Some (t, e) \<Longrightarrow>
      t \<notin> issued_tokens w \<or> (\<exists>e'. aw_cookies w b = Some (t, e'))"
  shows "auth_ok authenticate register sha256 w'"
proof -
  have "issued_tokens w' = issued_tokens w" using assms(2) by (simp add: issued_tokens_def)
  moreover have "\<exists>b t. (b, u, t) \<in> set (aw_issued w) \<and> hashSessionToken sha256 t = i"
    if "jm_get (aw_sessions w') i = Some (u, e)" for i u e
    using sessions [OF that] ok unfolding auth_ok_def by blast
  moreover have "\<exists>u. (b, u, t) \<in> set (aw_issued w)"
    if "aw_cookies w' b = Some (t, e)" "t \<in> issued_tokens w" for b t e
    using cookies [OF that(1)] that(2) ok unfolding auth_ok_def by blast
  moreover have "\<forall>b u t. (b, u, t) \<in> set (aw_issued w) \<longrightarrow> vouched authenticate register u"
      "distinct (map (snd \<circ> snd) (aw_issued w))"
    using ok unfolding auth_ok_def by blast+
  ultimately show ?thesis using assms(2,3) unfolding auth_ok_def by simp
qed

lemma signUp_effect:
  assumes "signUp maxUsersAllowed userCount register sha256 rv login password confirmPassword now c s =
      (Inr SignedIn, c', s')"
    and "register login password = Inr u" "jm_ok s"
  shows "\<exists>e s1. jm_ok s1 \<and> (\<forall>i u e. jm_get s1 i = Some (u, e) \<longrightarrow> (\<exists>e'. jm_get s i = Some (u, e'))) \<and>
    CreateSession now (hashSessionToken sha256 (generateSessionToken rv)) u s1 = Some (e, s') \<and>
    c' = Some (generateSessionToken rv, e)"
proof -
  obtain r s1 where r: "getCurrentSession ActionOrRoute sha256 now c s = (r, s1)" by fastforce
  obtain c1 where "start_session sha256 rv now u c1 s1 = (Inr SignedIn, c', s')"
    using assms(1,2) r by (auto simp: signUp_def split: if_splits sum.splits prod.splits option.splits)
  then show ?thesis
    using start_session_effect getCurrentSession_effect [OF r] assms(3) by blast
qed

text \<open>A step that hands a fresh token to a browser.\<close>

lemma auth_ok_issue:
  assumes ok: "auth_ok authenticate register sha256 w"
    and fresh: "token \<notin> issued_tokens w" "\<forall>b'. map_option fst (aw_cookies w b') \<noteq> Some token"
    and s1: "jm_ok s1" "\<forall>i u e. jm_get s1 i = Some (u, e) \<longrightarrow> (\<exists>e'. jm_get (aw_sessions w) i = Some (u, e'))"
    and e: "CreateSession (aw_now w) (hashSessionToken sha256 token) userId s1 = Some (e, sessions)"
    and v: "vouched authenticate register userId"
    and w': "w' = w\<lparr>aw_sessions := sessions, aw_cookies := (aw_cookies w)(b := Some (token, e)),
      aw_issued := (b, userId, token) # aw_issued w\<rparr>"
  shows "auth_ok authenticate register sha256 w'"
proof -
  have new: "jm_get s1 (hashSessionToken sha256 token) = None"
    using e session_db.create_old by (metis option.distinct(1))
  then have get: "jm_get sessions = (jm_get s1)(hashSessionToken sha256 token \<mapsto> (userId, e))"
    using session_db.create_new [OF new, of "aw_now w" userId] e by auto
  have "jm_ok sessions"
    using e s1(1) by (auto simp: CreateSession_def split: if_splits)
  have fields: "aw_sessions w' = sessions" "aw_cookies w' = (aw_cookies w)(b := Some (token, e))"
      "aw_issued w' = (b, userId, token) # aw_issued w" "issued_tokens w' = insert token (issued_tokens w)"
    using w' by (simp_all add: issued_tokens_def)
  have tokens: "t \<in> issued_tokens w" if "(b', u, t) \<in> set (aw_issued w)" for b' u t
    using that by (force simp: issued_tokens_def)
  have others: "t \<noteq> token" if "aw_cookies w b' = Some (t, ex)" for b' t ex
    using fresh(2) that by (auto dest: spec [of _ b'])
  show ?thesis
    unfolding auth_ok_def fields
  proof (intro conjI allI impI)
    show "jm_ok sessions" by fact
    show "distinct (map (snd \<circ> snd) ((b, userId, token) # aw_issued w))"
      using ok fresh(1) by (auto simp: auth_ok_def issued_tokens_def)
    show "\<exists>b' t. (b', u, t) \<in> set ((b, userId, token) # aw_issued w) \<and> hashSessionToken sha256 t = i"
      if i: "jm_get sessions i = Some (u, ex)" for i u ex
    proof (cases "i = hashSessionToken sha256 token")
      case True
      then show ?thesis using i by (auto simp: get)
    next
      case False
      then have "\<exists>e'. jm_get (aw_sessions w) i = Some (u, e')" using i s1(2) by (simp add: get)
      then have "\<exists>b t. (b, u, t) \<in> set (aw_issued w) \<and> hashSessionToken sha256 t = i"
        using ok unfolding auth_ok_def by blast
      then show ?thesis by auto
    qed
    show "\<exists>u. (b', u, t) \<in> set ((b, userId, token) # aw_issued w)"
      if c: "((aw_cookies w)(b := Some (token, e))) b' = Some (t, ex) \<and> t \<in> insert token (issued_tokens w)" for b' t ex
    proof (cases "b' = b")
      case True
      then show ?thesis using c by auto
    next
      case False
      then have "aw_cookies w b' = Some (t, ex)" "t \<in> issued_tokens w" using c others by auto
      then have "\<exists>u. (b', u, t) \<in> set (aw_issued w)" using ok unfolding auth_ok_def by blast
      then show ?thesis by auto
    qed
    show "vouched authenticate register u"
      if "(b', u, t) \<in> set ((b, userId, token) # aw_issued w)" for b' u t
    proof -
      have "u = userId \<or> (b', u, t) \<in> set (aw_issued w)" using that by auto
      then show ?thesis using v ok unfolding auth_ok_def by blast
    qed
  qed
qed

lemma auth_step_ok:
  assumes "auth_step authenticate register sha256 w w'" "auth_ok authenticate register sha256 w"
  shows "auth_ok authenticate register sha256 w'"
  using assms
proof cases
  case (signs_in login password userId randomValues b c sessions)
  obtain e where e: "CreateSession (aw_now w) (hashSessionToken sha256 (generateSessionToken randomValues)) userId
      (aw_sessions w) = Some (e, sessions)" "c = Some (generateSessionToken randomValues, e)"
    using signIn_effect [OF signs_in(5,2)] by auto
  show ?thesis
    by (rule auth_ok_issue [OF assms(2) signs_in(3,4) _ _ e(1)])
      (use assms(2) signs_in(1,2) e(2) in \<open>auto simp: auth_ok_def vouched_def\<close>)
next
  case (signs_up login password userId randomValues maxUsersAllowed userCount confirmPassword b c sessions)
  have "jm_ok (aw_sessions w)" using assms(2) by (simp add: auth_ok_def)
  then obtain e s1 where e: "jm_ok s1"
      "\<forall>i u e. jm_get s1 i = Some (u, e) \<longrightarrow> (\<exists>e'. jm_get (aw_sessions w) i = Some (u, e'))"
      "CreateSession (aw_now w) (hashSessionToken sha256 (generateSessionToken randomValues)) userId s1 = Some (e, sessions)"
      "c = Some (generateSessionToken randomValues, e)"
    using signUp_effect [OF signs_up(5,2)] by blast
  show ?thesis
    by (rule auth_ok_issue [OF assms(2) signs_up(3,4) e(1,2,3)])
      (use signs_up(1,2) e(4) in \<open>auto simp: vouched_def\<close>)
next
  case (visits ph b r sessions)
  have ok: "jm_ok (aw_sessions w)" using assms(2) by (simp add: auth_ok_def)
  obtain c where c: "c = (case r of Inl _ \<Rightarrow> aw_cookies w b | Inr (_, c) \<Rightarrow> c)" by blast
  have "\<exists>e'. aw_cookies w b = Some (t, e')" if "c = Some (t, e)" for t e
    using that getCurrentSession_effect [OF visits(2)] by (auto simp: c split: sum.splits) (metis+)
  then show ?thesis
    by (intro auth_ok_calm [OF assms(2)])
      (use visits(1) ok c getCurrentSession_effect [OF visits(2)] in \<open>auto split: if_splits\<close>)
next
  case (signs_out b r c sessions)
  have ok: "jm_ok (aw_sessions w)" using assms(2) by (simp add: auth_ok_def)
  show ?thesis
    by (rule auth_ok_calm [OF assms(2)])
      (use signs_out(1) ok signOut_effect [OF signs_out(2)] in \<open>(auto split: if_splits, metis)\<close>)
next
  case (cookie_extended b v)
  have "jm_ok (aw_sessions w)" using assms(2) by (simp add: auth_ok_def)
  then show ?thesis
    by (intro auth_ok_calm [OF assms(2)])
      (use cookie_extended in \<open>auto simp: cookie_value_def split: option.splits if_splits\<close>)
next
  case (forges token b expires)
  have "jm_ok (aw_sessions w)" using assms(2) by (simp add: auth_ok_def)
  then show ?thesis
    by (intro auth_ok_calm [OF assms(2)]) (use forges in \<open>auto split: if_splits\<close>)
next
  case sweeps
  have "jm_ok (aw_sessions w)" using assms(2) by (simp add: auth_ok_def)
  then show ?thesis
    by (intro auth_ok_calm [OF assms(2)]) (use sweeps in \<open>auto intro: jm_ok_sweep dest: sweep_get\<close>)
next
  case (time_passes d)
  have "jm_ok (aw_sessions w)" using assms(2) by (simp add: auth_ok_def)
  then show ?thesis by (intro auth_ok_calm [OF assms(2)]) (use time_passes in auto)
qed

lemma auth_reachable_ok:
  "(auth_step authenticate register sha256)\<^sup>*\<^sup>* w w' \<Longrightarrow> auth_ok authenticate register sha256 w \<Longrightarrow> auth_ok authenticate register sha256 w'"
  by (induction rule: rtranclp_induct) (auto intro: auth_step_ok)

lemma hash_inject: "inj sha256 \<Longrightarrow> hashSessionToken sha256 s = hashSessionToken sha256 t \<Longrightarrow> s = t"
  using bytesToHex_inject by (auto simp: hashSessionToken_def dest: injD)

lemma current_session_known:
  assumes "getCurrentSession ph sha256 now c s = (Inr (Some (u, sid), c'), s')"
  shows "\<exists>t e. cookie_value now c = Some t \<and> sid = hashSessionToken sha256 t \<and> jm_get s sid = Some (u, e) \<and> now \<le> e"
proof -
  obtain t ts where t: "cookie_value now c = Some (t # ts)"
    using assms by (auto simp: getCurrentSession_def split: option.splits list.splits)
  obtain resp s1 where v: "ValidateSession now (hashSessionToken sha256 (t # ts)) s = (resp, s1)" by fastforce
  have resp: "\<exists>ext. resp = ValidSession u ext" "sid = hashSessionToken sha256 (t # ts)"
    using assms t v by (auto simp: getCurrentSession_def validateSessionToken_def Let_def result_simps
        split: validate_response.splits option.splits)
  show ?thesis
    using v
  proof (cases rule: session_db.validate_cases)
    case unknown
    then show ?thesis using resp(1) by auto
  next
    case (known u' e ext)
    then show ?thesis using resp t by auto
  qed
qed

text \<open>
  C20: Whenever a request is treated as coming from user \<open>u\<close>, its browser signed in or up as \<open>u\<close> itself,
  with credentials the backend accepted or registered: no sequence of sign-ins, sign-ups, visits,
  sign-outs, expiries, sweeps and forged cookies gives one browser the session of another user. (Random tokens are fresh
  and SHA-256 has no collisions.)
\<close>
theorem sessions_are_authentic:
  assumes "(auth_step authenticate register sha256)\<^sup>*\<^sup>* fresh_world w" and "inj sha256"
    and "getCurrentSession ph sha256 (aw_now w) (aw_cookies w b) (aw_sessions w) = (Inr (Some (u, sid), c), sessions)"
  shows "\<exists>token. (b, u, token) \<in> set (aw_issued w) \<and> sid = hashSessionToken sha256 token \<and>
    cookie_value (aw_now w) (aw_cookies w b) = Some token \<and> vouched authenticate register u"
proof -
  have ok: "auth_ok authenticate register sha256 w" using auth_reachable_ok [OF assms(1) auth_ok_fresh] .
  obtain t e where t: "cookie_value (aw_now w) (aw_cookies w b) = Some t" "sid = hashSessionToken sha256 t"
      "jm_get (aw_sessions w) sid = Some (u, e)"
    using current_session_known [OF assms(3)] by blast
  obtain b' t' where b': "(b', u, t') \<in> set (aw_issued w)" "hashSessionToken sha256 t' = sid"
    using ok t(3) unfolding auth_ok_def by blast
  have "t' = t" using hash_inject [OF assms(2)] b'(2) t(2) by simp
  moreover obtain u' where "(b, u', t) \<in> set (aw_issued w)"
  proof -
    have "t \<in> issued_tokens w" using b'(1) \<open>t' = t\<close> by (force simp: issued_tokens_def)
    moreover obtain ex where "aw_cookies w b = Some (t, ex)"
      using t(1) by (auto simp: cookie_value_def split: option.splits if_splits)
    ultimately have "\<exists>u'. (b, u', t) \<in> set (aw_issued w)" using ok unfolding auth_ok_def by blast
    then show ?thesis using that by blast
  qed
  ultimately have "(b, u, t) \<in> set (aw_issued w)"
    using issued_functional [of "aw_issued w" b' u t b u'] ok b'(1) by (auto simp: auth_ok_def)
  moreover from this have "vouched authenticate register u"
    using ok unfolding auth_ok_def by blast
  ultimately show ?thesis using t(1,2) by blast
qed

text \<open>A world in which browser 1 has just signed in as user 5.\<close>

definition sample_sha :: "string \<Rightarrow> 8 word list" where
  "sample_sha s = map (\<lambda>c. word_of_nat (of_char c)) s"

lemma inj_sample_sha: "inj sample_sha"
proof -
  have "inj (\<lambda>c. word_of_nat (of_char c) :: 8 word)"
  proof (rule injI)
    fix c d assume "(word_of_nat (of_char c) :: 8 word) = word_of_nat (of_char d)"
    then have "(of_char c :: nat) mod 256 = of_char d mod 256"
      by (simp add: word_of_nat_eq_iff take_bit_eq_mod)
    then show "c = d" by (metis of_char_mod_256 of_char_eq_iff)
  qed
  then have "inj (map (\<lambda>c. word_of_nat (of_char c) :: 8 word))" by (rule inj_mapI)
  moreover have "sample_sha = map (\<lambda>c. word_of_nat (of_char c))" by (simp add: fun_eq_iff sample_sha_def)
  ultimately show ?thesis by simp
qed

definition sample_authenticate :: "string \<Rightarrow> string \<Rightarrow> int option" where
  "sample_authenticate login password = (if login = ''ann'' \<and> password = ''secret12'' then Some 5 else None)"

definition sample_token :: string where
  "sample_token = generateSessionToken (replicate 64 7)"

definition signed_in_world :: auth_world where
  "signed_in_world = fresh_world
     \<lparr>aw_sessions := [(hashSessionToken sample_sha sample_token, (5, sessionExtensionTTL))],
      aw_cookies := (\<lambda>_. None)(1 := Some (sample_token, sessionExtensionTTL)),
      aw_issued := [(1, 5, sample_token)]\<rparr>"

lemma signed_in_reachable: "(auth_step sample_authenticate (\<lambda>_ _. Inl []) sample_sha)\<^sup>*\<^sup>* fresh_world signed_in_world"
proof -
  have step: "signIn sample_authenticate sample_sha (replicate 64 7) ''ann'' ''secret12'' (aw_now fresh_world)
      (aw_cookies fresh_world 1) (aw_sessions fresh_world) =
    (Inr SignedIn, Some (sample_token, sessionExtensionTTL),
     [(hashSessionToken sample_sha sample_token, (5, sessionExtensionTTL))])"
    by (simp add: signIn_def sign_in_form_is_valid_def sample_authenticate_def start_session_def Let_def
        CreateSession_def fresh_world_def jm_get_def jm_set_def setSessionTokenCookie_def sample_token_def)
  have "auth_step sample_authenticate (\<lambda>_ _. Inl []) sample_sha fresh_world signed_in_world"
    using auth_step.signs_in [OF _ _ _ step, of 5]
    by (simp add: sample_authenticate_def issued_tokens_def fresh_world_def sample_token_def signed_in_world_def)
  then show ?thesis by blast
qed

lemma sample_token_not_empty: "sample_token \<noteq> []"
proof -
  have "length sample_token = 128"
    by (simp add: sample_token_def generateSessionToken_def length_bytesToHex SESSION_TOKEN_LENGTH_def)
  then show ?thesis by auto
qed

lemma getCurrentSession_token:
  "cookie_value now c = Some t \<Longrightarrow> t \<noteq> [] \<Longrightarrow>
     getCurrentSession ph sha256 now c s = validateSessionToken ph sha256 now t c s"
  by (cases t) (simp_all add: getCurrentSession_def)

lemma signed_in_session:
  "getCurrentSession ActionOrRoute sample_sha (aw_now signed_in_world) (aw_cookies signed_in_world 1)
     (aw_sessions signed_in_world) =
   (Inr (Some (5, hashSessionToken sample_sha sample_token), Some (sample_token, sessionExtensionTTL)),
    aw_sessions signed_in_world)"
  by (subst getCurrentSession_token [OF _ sample_token_not_empty])
    (simp_all add: signed_in_world_def fresh_world_def cookie_value_def sessionExtensionTTL_def
      validateSessionToken_def ValidateSession_def jm_get_def Let_def)

theorem sessions_are_authentic_witness:
  "\<exists>token. (1, 5, token) \<in> set (aw_issued signed_in_world) \<and>
     cookie_value (aw_now signed_in_world) (aw_cookies signed_in_world 1) = Some token"
  using sessions_are_authentic [OF signed_in_reachable inj_sample_sha signed_in_session] by blast

text \<open>A signed-in user is recognised until the session expires, except when the page is being rendered.\<close>



section \<open>Signing out\<close>

lemma dead_session_stays_dead:
  assumes "auth_step authenticate register sha256 w w'" "inj sha256" "t \<in> issued_tokens w"
    "jm_ok (aw_sessions w)" "jm_get (aw_sessions w) (hashSessionToken sha256 t) = None"
  shows "jm_get (aw_sessions w') (hashSessionToken sha256 t) = None \<and> t \<in> issued_tokens w'"
proof -
  have none: "jm_get s' i = None" if "\<forall>i u e. jm_get s' i = Some (u, e) \<longrightarrow> (\<exists>e'. jm_get (aw_sessions w) i = Some (u, e'))"
      "jm_get (aw_sessions w) i = None" for s' :: session_table and i
    using that by (cases "jm_get s' i") fastforce+
  show ?thesis
    using assms(1)
  proof cases
    case (signs_in login password userId randomValues b c sessions)
    obtain e where e: "CreateSession (aw_now w) (hashSessionToken sha256 (generateSessionToken randomValues)) userId
        (aw_sessions w) = Some (e, sessions)"
      using signIn_effect [OF signs_in(5,2)] by auto
    have "t \<noteq> generateSessionToken randomValues" using signs_in(3) assms(3) by auto
    then have "hashSessionToken sha256 t \<noteq> hashSessionToken sha256 (generateSessionToken randomValues)"
      using hash_inject [OF assms(2)] by auto
    then show ?thesis
      using e assms(3,5) signs_in(1) by (auto simp: CreateSession_def issued_tokens_def split: if_splits)
  next
    case (signs_up login password userId randomValues maxUsersAllowed userCount confirmPassword b c sessions)
    obtain e s1 where e: "\<forall>i u e. jm_get s1 i = Some (u, e) \<longrightarrow> (\<exists>e'. jm_get (aw_sessions w) i = Some (u, e'))"
        "CreateSession (aw_now w) (hashSessionToken sha256 (generateSessionToken randomValues)) userId s1 = Some (e, sessions)"
      using signUp_effect [OF signs_up(5,2) assms(4)] by blast
    have "t \<noteq> generateSessionToken randomValues" using signs_up(3) assms(3) by auto
    then have "hashSessionToken sha256 t \<noteq> hashSessionToken sha256 (generateSessionToken randomValues)"
      using hash_inject [OF assms(2)] by auto
    then show ?thesis
      using e(2) none [OF e(1) assms(5)] assms(3) signs_up(1)
      by (auto simp: CreateSession_def issued_tokens_def split: if_splits)
  next
    case (visits ph b r sessions)
    then show ?thesis
      using none [of sessions] getCurrentSession_effect [OF visits(2)] assms(3,5) by (auto simp: issued_tokens_def)
  next
    case (signs_out b r c sessions)
    then show ?thesis
      using none [of sessions] signOut_effect [OF signs_out(2)] assms(3,5) by (auto simp: issued_tokens_def)
  next
    case sweeps
    then show ?thesis
      using sweep_get [OF assms(4)] assms(3,5) by (cases "jm_get (aw_sessions w') (hashSessionToken sha256 t)")
        (auto simp: issued_tokens_def)
  qed (use assms(3,5) in \<open>auto simp: issued_tokens_def\<close>)
qed

lemma sign_out_kills_session:
  assumes "signOut sha256 now c s = (r, c', s')" "cookie_value now c = Some t" "t \<noteq> []"
  shows "jm_get s' (hashSessionToken sha256 t) = None \<and> r = Inl (RedirectTo SIGN_IN_URL)"
proof -
  obtain x xs where t: "t = x # xs" using assms(3) by (cases t) auto
  obtain resp s1 where v: "ValidateSession now (hashSessionToken sha256 t) s = (resp, s1)" by fastforce
  show ?thesis
    using v
  proof (cases rule: session_db.validate_cases)
    case unknown
    then show ?thesis
      using assms(1,2) v t by (auto simp: signOut_def getCurrentSession_def validateSessionToken_def Let_def)
  next
    case (known u e ext)
    then show ?thesis
      using assms(1,2) v t
      by (auto simp: signOut_def getCurrentSession_def validateSessionToken_def Let_def setSessionTokenCookie_def
          deleteSessionTokenCookie_def session_db.session_delete split: option.splits)
  qed
qed

text \<open>
  C21: A token is worthless once its browser has signed out: whatever anyone does afterwards, no
  request carrying it is recognised as a user again.
\<close>
theorem signed_out_token_is_dead:
  assumes "(auth_step authenticate register sha256)\<^sup>*\<^sup>* fresh_world w" and "inj sha256"
    and "signOut sha256 (aw_now w) (aw_cookies w b) (aw_sessions w) = (r, c, sessions)"
    and "cookie_value (aw_now w) (aw_cookies w b) = Some token" "token \<noteq> []" "token \<in> issued_tokens w"
    and "(auth_step authenticate register sha256)\<^sup>*\<^sup>*
      (w\<lparr>aw_sessions := sessions, aw_cookies := (aw_cookies w)(b := c)\<rparr>) w'"
  shows "\<nexists>u sid c'. fst (getCurrentSession ph sha256 (aw_now w') (Some (token, expires)) (aw_sessions w')) =
    Inr (Some (u, sid), c')"
proof -
  define w1 where "w1 = w\<lparr>aw_sessions := sessions, aw_cookies := (aw_cookies w)(b := c)\<rparr>"
  have "auth_step authenticate register sha256 w w1" unfolding w1_def using assms(3) by (rule signs_out)
  then have ok: "auth_ok authenticate register sha256 w1"
    using auth_reachable_ok [OF assms(1) auth_ok_fresh] auth_step_ok by blast
  have dead: "jm_get (aw_sessions w1) (hashSessionToken sha256 token) = None" "token \<in> issued_tokens w1"
    using sign_out_kills_session [OF assms(3,4,5)] assms(6) by (simp_all add: w1_def issued_tokens_def)
  have "jm_get (aw_sessions w') (hashSessionToken sha256 token) = None \<and> token \<in> issued_tokens w' \<and>
      auth_ok authenticate register sha256 w'"
    using assms(7) unfolding w1_def [symmetric]
  proof (induction rule: rtranclp_induct)
    case base
    then show ?case using dead ok by simp
  next
    case (step y z)
    then show ?case
      using dead_session_stays_dead [OF step(2) assms(2), of token] auth_step_ok by (auto simp: auth_ok_def)
  qed
  then show ?thesis
    using current_session_known [of ph sha256 "aw_now w'" "Some (token, expires)" "aw_sessions w'"]
    by (cases "getCurrentSession ph sha256 (aw_now w') (Some (token, expires)) (aw_sessions w')")
      (fastforce simp: cookie_value_def split: if_splits)
qed

theorem signed_out_token_is_dead_witness:
  "\<exists>r c sessions. signOut sample_sha 0 (Some (sample_token, sessionExtensionTTL)) (aw_sessions signed_in_world) = (r, c, sessions) \<and>
     \<not> (\<exists>u sid c'. fst (getCurrentSession ActionOrRoute sample_sha 0 (Some (sample_token, 100)) sessions) = Inr (Some (u, sid), c'))"
proof -
  obtain r c sessions where out: "signOut sample_sha (aw_now signed_in_world) (aw_cookies signed_in_world 1)
      (aw_sessions signed_in_world) = (r, c, sessions)" by (metis prod_cases3)
  have world: "aw_now signed_in_world = 0" "aw_cookies signed_in_world 1 = Some (sample_token, sessionExtensionTTL)"
    by (simp_all add: signed_in_world_def fresh_world_def)
  have cookie: "cookie_value (aw_now signed_in_world) (aw_cookies signed_in_world 1) = Some sample_token"
    unfolding world by (simp add: cookie_value_def sessionExtensionTTL_def)
  have issued: "sample_token \<in> issued_tokens signed_in_world"
    by (simp add: issued_tokens_def signed_in_world_def)
  show ?thesis
    using signed_out_token_is_dead [OF signed_in_reachable inj_sample_sha out cookie sample_token_not_empty issued
        rtranclp.rtrancl_refl, of ActionOrRoute 100] out
    unfolding world by (simp add: world(1))
qed

section \<open>The proxy refuses foreign requests\<close>



text \<open>
  On a production server reached over plain HTTP, signing in sets a cookie without the secure flag, but
  the proxy extends it with the flag, which browsers refuse on such a connection.
\<close>

lemma extended_cookie_is_secure:
  "extendAuthCookie True request = Some c \<Longrightarrow>
     sc_secure c \<and> \<not> session_cookie_secure True (Some ''http://prosper.local'')"
  by (auto simp: extendAuthCookie_def session_cookie_secure_def split: option.splits list.splits)

end
