(* ===== verification/Lists.thy ===== *)
theory Lists
  imports Statistics Links
begin

text \<open>
  The lists of transactions: \<open>components/transactions/SortableTransactionsList.tsx\<close> (the list that is
  sorted by date or by amount in the display currency), \<open>components/transactions/TransactionsList.tsx\<close>
  (the list that shows more on request, its items and the details of an expanded item) and
  \<open>stats/CurrencyExchangeFailed.tsx\<close> (the transactions that could not be converted). A rendered component
  is the value of a datatype or record that holds what it shows; \<open>Inl\<close> is a component that throws.
\<close>

section \<open>Sorting\<close>

datatype sorting_mode = DATE_ASC | DATE_DESC | AMOUNT_ASC | AMOUNT_DESC

definition findAmountWithUnit :: "transaction \<Rightarrow> bank_account list \<Rightarrow> stock list \<Rightarrow> amount_with_unit result" where
  "findAmountWithUnit t bankAccounts stocks =
     (case t of
        Transfer f \<Rightarrow> amountSent f bankAccounts stocks
      | OpeningBalance b \<Rightarrow> openingBalanceAmount b bankAccounts stocks
      | PersonalExpense p \<Rightarrow> paidTotal (FlowPersonal p) bankAccounts stocks
      | ThirdPartyExpense e \<Rightarrow> paidTotal (FlowThirdParty e) bankAccounts stocks
      | Income i \<Rightarrow> paidTotal (FlowIncome i) bankAccounts stocks)"

definition list_amount :: "stats_context \<Rightarrow> transaction \<Rightarrow> amount_with_currency option result" where
  "list_amount cx t =
     bind_result (findAmountWithUnit t (sc_bankAccounts cx) (sc_stocks cx)) (\<lambda>a.
       case awu_unit a of
         UnitCurrency c \<Rightarrow>
           Inr (exchangeCurrency (sc_closestTo cx) (sc_exchange cx) (mk_awc (awu_nanos a) c)
             (sc_displayCurrency cx) (tx_timestampEpoch t))
       | UnitStock s \<Rightarrow>
           exchangeStock (sc_closestTo cx) (sc_exchange cx) (awu_amount a) s
             (sc_displayCurrency cx) (tx_timestampEpoch t))"

text \<open>The sorted transactions and those without an amount in the display currency.\<close>

definition sort_transactions ::
  "stats_context \<Rightarrow> sorting_mode \<Rightarrow> transaction list \<Rightarrow> (transaction list \<times> transaction list) result" where
  "sort_transactions cx sorting ts =
     (if sorting = AMOUNT_ASC \<or> sorting = AMOUNT_DESC
      then
        bind_result (map_result (\<lambda>t. bind_result (list_amount cx t) (\<lambda>a. Inr (t, a))) ts) (\<lambda>transactionsWithAmount.
          let failed = map fst (filter (\<lambda>x. snd x = None) transactionsWithAmount);
              exchanged = filter (\<lambda>x. snd x \<noteq> None) transactionsWithAmount;
              d = (\<lambda>x. dollar (the (snd x)));
              sorted = js_sort (\<lambda>x y. if sorting = AMOUNT_ASC then n_sub (d x) (d y) else n_sub (d y) (d x)) exchanged
          in Inr (map fst sorted, failed))
      else
        Inr (js_sort (\<lambda>a b. if sorting = DATE_ASC then n_sub (tx_timestampEpoch a) (tx_timestampEpoch b)
          else n_sub (tx_timestampEpoch b) (tx_timestampEpoch a)) ts, []))"

definition by_date_clicked :: "sorting_mode \<Rightarrow> sorting_mode" where
  "by_date_clicked sorting = (if sorting = DATE_ASC then DATE_DESC else DATE_ASC)"

definition by_amount_clicked :: "sorting_mode \<Rightarrow> sorting_mode" where
  "by_amount_clicked sorting = (if sorting = AMOUNT_DESC then AMOUNT_ASC else AMOUNT_DESC)"

section \<open>What the items show\<close>

text \<open>
  The data of the contexts an item reads, with \<open>format\<close> of date-fns (which throws on dates that it cannot
  represent), \<open>toISOString\<close> and the formatters of \<open>Intl\<close>.
\<close>

record list_env =
  le_banks :: "bank list"
  le_bankAccounts :: "bank_account list"
  le_stocks :: "stock list"
  le_tags :: "tag list"
  le_trips :: "trip list"
  le_links :: "transaction_link list"
  le_format :: "string \<Rightarrow> rat \<Rightarrow> string option"
  le_iso :: "rat \<Rightarrow> string option"
  le_intlCurrency :: "string option \<Rightarrow> string \<Rightarrow> nat \<Rightarrow> rat \<Rightarrow> string"
  le_intl :: "nat \<Rightarrow> rat \<Rightarrow> string"

definition le_show :: "list_env \<Rightarrow> amount_with_unit \<Rightarrow> string" where
  "le_show env a = awu_format (le_intlCurrency env) (le_intl env) a"

definition le_date :: "list_env \<Rightarrow> string \<Rightarrow> rat \<Rightarrow> string result" where
  "le_date env f when = or_throw (le_format env f when) InvalidDate"

text \<open>A line of text: plain, small or italic parts and the arrow of transfers.\<close>

datatype text_part = Plain string | Small string | Italic string | Arrow

definition split_suffix :: "transaction \<Rightarrow> text_part list" where
  "split_suffix t =
     (case truthy_text (otherPartyNameOrNull t) of None \<Rightarrow> [] | Some name \<Rightarrow> [Small (''split with '' @ name)])"

definition TransactionTitle :: "list_env \<Rightarrow> transaction \<Rightarrow> text_part list result" where
  "TransactionTitle env t =
     (case t of
        Transfer f \<Rightarrow>
          bind_result (outgoingBankAccount f (le_bankAccounts env)) (\<lambda>src.
          bind_result (incomingBankAccount f (le_bankAccounts env)) (\<lambda>dst.
          bind_result (fullAccountName src (le_banks env)) (\<lambda>srcName.
          bind_result (fullAccountName dst (le_banks env)) (\<lambda>dstName.
            Inr [Plain srcName, Arrow, Plain dstName]))))
      | PersonalExpense p \<Rightarrow> Inr (Plain (pe_vendor p) # split_suffix t)
      | ThirdPartyExpense e \<Rightarrow> Inr [Plain (tp_vendor e), Small (''paid by '' @ tp_payer e)]
      | Income i \<Rightarrow> Inr (Plain (in_payer i) # split_suffix t)
      | OpeningBalance b \<Rightarrow> Inr [Italic ''Opening balance''])"

definition signed_flow :: "list_env \<Rightarrow> string \<Rightarrow> cash_flow \<Rightarrow> string result" where
  "signed_flow env sign f =
     bind_result (transactionUnit f (le_bankAccounts env) (le_stocks env)) (\<lambda>u.
       Inr (sign @ le_show env (mk_awu (flow_amountNanos f) u)))"

definition TransactionAmount :: "list_env \<Rightarrow> transaction \<Rightarrow> bank_account option \<Rightarrow> string result" where
  "TransactionAmount env t account =
     (case t of
        PersonalExpense p \<Rightarrow> signed_flow env ''-'' (FlowPersonal p)
      | ThirdPartyExpense e \<Rightarrow> signed_flow env ''-'' (FlowThirdParty e)
      | Income i \<Rightarrow> signed_flow env ''+'' (FlowIncome i)
      | Transfer f \<Rightarrow>
          if map_option acc_id account = Some (tr_toAccountId f)
          then bind_result (amountReceived f (le_bankAccounts env) (le_stocks env)) (\<lambda>a. Inr (''+'' @ le_show env a))
          else if map_option acc_id account = Some (tr_fromAccountId f)
          then bind_result (amountSent f (le_bankAccounts env) (le_stocks env)) (\<lambda>a. Inr (''-'' @ le_show env a))
          else bind_result (amountSent f (le_bankAccounts env) (le_stocks env)) (\<lambda>a. Inr (le_show env a))
      | OpeningBalance b \<Rightarrow>
          bind_result (openingBalanceAmount b (le_bankAccounts env) (le_stocks env)) (\<lambda>a. Inr (le_show env a)))"

section \<open>Links of a transaction\<close>

datatype link_details =
    NoLink
  | SeveralLinks string
  | RepaidIn string string
  | RepaymentFor string string string
  | RefundedIn "(int \<times> string \<times> string) list"
  | RefundFor string string

definition flow_vendor :: "transaction \<Rightarrow> string" where
  "flow_vendor t = (case t of PersonalExpense p \<Rightarrow> pe_vendor p | ThirdPartyExpense e \<Rightarrow> tp_vendor e | _ \<Rightarrow> [])"

definition debt_links :: "transaction_link list \<Rightarrow> int \<Rightarrow> debt_settling list" where
  "debt_links links i =
     filter (\<lambda>d. tp_id (ds_expense d) = i \<or> pe_id (ds_repayment d) = i)
       (List.map_filter (\<lambda>l. case l of DebtSettling d \<Rightarrow> Some d | Refund _ \<Rightarrow> None) links)"

definition refund_links :: "transaction_link list \<Rightarrow> int \<Rightarrow> refund list" where
  "refund_links links i =
     filter (\<lambda>r. tx_id (rf_expense r) = i \<or> list_ex (\<lambda>x. in_id x = i) (rf_refunds r))
       (List.map_filter (\<lambda>l. case l of Refund r \<Rightarrow> Some r | DebtSettling _ \<Rightarrow> None) links)"

definition DebtRepaymentDetails :: "list_env \<Rightarrow> int \<Rightarrow> link_details result" where
  "DebtRepaymentDetails env i =
     (case debt_links (le_links env) i of
        [] \<Rightarrow> Inr NoLink
      | [d] \<Rightarrow>
          if i = tp_id (ds_expense d)
          then bind_result (le_date env ''yyyy-MM-dd'' (pe_timestampEpoch (ds_repayment d))) (\<lambda>on.
            Inr (RepaidIn (pe_vendor (ds_repayment d)) on))
          else if i = pe_id (ds_repayment d)
          then bind_result (le_date env ''yyyy-MM-dd'' (tp_timestampEpoch (ds_expense d))) (\<lambda>on.
            Inr (RepaymentFor (tp_vendor (ds_expense d)) (tp_payer (ds_expense d)) on))
          else Inl (LinkNotConnected (ds_id d) i)
      | ds \<Rightarrow> Inr (SeveralLinks (join '', '' (map (\<lambda>d. string_of_int (ds_id d)) ds))))"

definition RefundDetails :: "list_env \<Rightarrow> int \<Rightarrow> link_details result" where
  "RefundDetails env i =
     (case refund_links (le_links env) i of
        [] \<Rightarrow> Inr NoLink
      | [r] \<Rightarrow>
          if i = tx_id (rf_expense r)
          then bind_result (map_result (\<lambda>x. bind_result (le_date env ''yyyy-MM-dd'' (in_timestampEpoch x)) (\<lambda>on.
              Inr (in_id x, in_payer x, on))) (rf_refunds r)) (\<lambda>rows. Inr (RefundedIn rows))
          else if list_ex (\<lambda>x. in_id x = i) (rf_refunds r)
          then bind_result (le_date env ''yyyy-MM-dd'' (tx_timestampEpoch (rf_expense r))) (\<lambda>on.
            Inr (RefundFor (flow_vendor (rf_expense r)) on))
          else Inl (LinkNotConnected (rf_id r) i)
      | rs \<Rightarrow> Inr (SeveralLinks (join '', '' (map (\<lambda>r. string_of_int (rf_id r)) rs))))"

section \<open>Items and lists\<close>

definition tx_kind :: "transaction \<Rightarrow> string" where
  "tx_kind t =
     (case t of
        PersonalExpense _ \<Rightarrow> ''PersonalExpense''
      | ThirdPartyExpense _ \<Rightarrow> ''ThirdPartyExpense''
      | Transfer _ \<Rightarrow> ''Transfer''
      | Income _ \<Rightarrow> ''Income''
      | OpeningBalance _ \<Rightarrow> ''OpeningBalance'')"

text \<open>A row of an expanded item; a trip id \<open>0\<close> is a falsy child, which React prints as it is.\<close>

datatype detail = Labelled string string | Stray string

definition account_row :: "list_env \<Rightarrow> string \<Rightarrow> bank_account result \<Rightarrow> detail list result" where
  "account_row env label account =
     bind_result account (\<lambda>a. bind_result (fullAccountName a (le_banks env)) (\<lambda>name. Inr [Labelled label name]))"

definition amount_row :: "list_env \<Rightarrow> string \<Rightarrow> amount_with_unit result \<Rightarrow> detail list result" where
  "amount_row env label a = bind_result a (\<lambda>x. Inr [Labelled label (le_show env x)])"

definition flow_rows :: "list_env \<Rightarrow> cash_flow \<Rightarrow> detail list result" where
  "flow_rows env f =
     bind_result (amount_row env ''Full amount'' (paidTotal f (le_bankAccounts env) (le_stocks env))) (\<lambda>full.
     bind_result (amount_row env ''Own share'' (ownShareAmountIgnoreRefunds f (le_bankAccounts env) (le_stocks env)))
       (\<lambda>own. Inr (full @ own)))"

definition kind_rows :: "list_env \<Rightarrow> transaction \<Rightarrow> detail list result" where
  "kind_rows env t =
     (let accounts = le_bankAccounts env; stocks = le_stocks env
      in case t of
           PersonalExpense p \<Rightarrow>
             bind_result (account_row env ''Account from'' (transactionBankAccount (pe_accountId p) accounts)) (\<lambda>src.
             bind_result (flow_rows env (FlowPersonal p)) (\<lambda>amounts.
               Inr ([Labelled ''Vendor'' (pe_vendor p)] @
                 (case truthy_text (otherPartyNameOrNull t) of None \<Rightarrow> [] | Some n \<Rightarrow> [Labelled ''Split with'' n]) @
                 src @ amounts)))
         | ThirdPartyExpense e \<Rightarrow>
             bind_result (flow_rows env (FlowThirdParty e)) (\<lambda>amounts.
               Inr ([Labelled ''Vendor'' (tp_vendor e), Labelled ''Paid by'' (tp_payer e)] @ amounts))
         | Income i \<Rightarrow>
             bind_result (account_row env ''Account to'' (transactionBankAccount (in_accountId i) accounts)) (\<lambda>dst.
             bind_result (flow_rows env (FlowIncome i)) (\<lambda>amounts.
               Inr ([Labelled ''Payer'' (in_payer i)] @ dst @ amounts)))
         | Transfer f \<Rightarrow>
             bind_result (account_row env ''Account from'' (outgoingBankAccount f accounts)) (\<lambda>src.
             bind_result (account_row env ''Account to'' (incomingBankAccount f accounts)) (\<lambda>dst.
             bind_result (amount_row env ''Sent'' (amountSent f accounts stocks)) (\<lambda>sent.
             bind_result (amount_row env ''Received'' (amountReceived f accounts stocks)) (\<lambda>received.
               Inr (src @ dst @ sent @ received)))))
         | OpeningBalance b \<Rightarrow> Inr [])"

definition tag_rows :: "list_env \<Rightarrow> transaction \<Rightarrow> detail list" where
  "tag_rows env t =
     (case tx_tagsIds t of
        Some (i # ids) \<Rightarrow>
          [Labelled ''Tags'' (join '', '' (map (\<lambda>tt.
             case find (\<lambda>x. tag_id x = tt) (le_tags env) of Some x \<Rightarrow> tag_name x | None \<Rightarrow> []) (i # ids)))]
      | _ \<Rightarrow> [])"

definition trip_rows :: "list_env \<Rightarrow> transaction \<Rightarrow> detail list" where
  "trip_rows env t =
     (case Option.bind (flow_of t) flow_tripId of
        None \<Rightarrow> []
      | Some i \<Rightarrow>
        if i = 0 then [Stray ''0'']
        else [Labelled ''Trip''
          (case find (\<lambda>trip. trip_id trip = i) (le_trips env) of Some trip \<Rightarrow> trip_name trip | None \<Rightarrow> ''Unknown trip'')])"

definition item_rows :: "list_env \<Rightarrow> category_tree \<Rightarrow> transaction \<Rightarrow> detail list result" where
  "item_rows env tree t =
     bind_result (or_throw (le_iso env (tx_timestampEpoch t)) InvalidDate) (\<lambda>iso.
     bind_result (case tx_categoryId t of
         None \<Rightarrow> Inr []
       | Some c \<Rightarrow> bind_result (getNameWithAncestors (AnId c) tree) (\<lambda>name. Inr [Labelled ''Category'' name])) (\<lambda>category.
     bind_result (kind_rows env t) (\<lambda>rows.
       Inr ([Labelled ''ID'' (string_of_int (tx_id t)), Labelled ''Time'' iso, Labelled ''Type'' (tx_kind t)] @ category @
         (case truthy_text (tx_note t) of None \<Rightarrow> [] | Some n \<Rightarrow> [Labelled ''Note'' n]) @
         rows @ tag_rows env t @ trip_rows env t))))"

record item_details =
  details_rows :: "detail list"
  details_debt :: link_details
  details_refund :: link_details

record item_view =
  item_title :: "text_part list"
  item_note :: string
  item_time :: string
  item_green :: bool
  item_amount :: string
  item_expanded :: "item_details option"

definition TransactionsListItem ::
  "list_env \<Rightarrow> category_tree \<Rightarrow> bank_account option \<Rightarrow> bool \<Rightarrow> transaction \<Rightarrow> item_view result" where
  "TransactionsListItem env tree account expanded t =
     bind_result (le_date env ''yyyy-MM-dd HH:mm'' (tx_timestampEpoch t)) (\<lambda>when.
     bind_result (if expanded then map_sum id Some (item_rows env tree t) else Inr None) (\<lambda>rows.
     bind_result (TransactionTitle env t) (\<lambda>title.
     bind_result (TransactionAmount env t account) (\<lambda>a.
     bind_result (case rows of
         None \<Rightarrow> Inr None
       | Some rs \<Rightarrow>
         bind_result (DebtRepaymentDetails env (tx_id t)) (\<lambda>debt.
         bind_result (RefundDetails env (tx_id t)) (\<lambda>refund.
           Inr (Some \<lparr>details_rows = rs, details_debt = debt, details_refund = refund\<rparr>)))) (\<lambda>details.
       Inr \<lparr>item_title = title, item_note = (case tx_note t of None \<Rightarrow> [] | Some n \<Rightarrow> n), item_time = when,
         item_green = isIncome t, item_amount = a, item_expanded = details\<rparr>)))))"

text \<open>
  The list keeps how many transactions it shows; \<open>displayed\<close> is the footer: how many of how many, and
  whether the buttons to show more are there.
\<close>

definition initial_limit :: "nat option \<Rightarrow> nat" where
  "initial_limit limit = (case limit of Some (Suc n) \<Rightarrow> Suc n | _ \<Rightarrow> 10)"

record list_view =
  list_items :: "item_view list"
  list_displayed :: nat
  list_total :: nat
  list_more :: bool

definition displayed :: "nat \<Rightarrow> transaction list \<Rightarrow> transaction list" where
  "displayed limit ts = take limit ts"

text \<open>\<open>None\<close> is the line "No transactions."\<close>

definition TransactionsList ::
  "list_env \<Rightarrow> category list \<Rightarrow> bank_account option \<Rightarrow> int list \<Rightarrow> nat \<Rightarrow> transaction list \<Rightarrow>
     list_view option result" where
  "TransactionsList env categories account expanded limit ts =
     (if ts = [] then Inr None
      else bind_result (makeCategoryTree categories) (\<lambda>tree.
        bind_result (map_result (\<lambda>t. TransactionsListItem env tree account (tx_id t \<in> set expanded) t) (displayed limit ts))
          (\<lambda>items.
            Inr (Some \<lparr>list_items = items, list_displayed = length (displayed limit ts), list_total = length ts,
              list_more = length (displayed limit ts) < length ts\<rparr>))))"

datatype list_click = Show10 | Show100

fun show_more :: "list_click \<Rightarrow> nat \<Rightarrow> nat" where
  "show_more Show10 limit = limit + 10"
| "show_more Show100 limit = limit + 100"

section \<open>Transactions that could not be converted\<close>

text \<open>The title in the warning; the amount of a transfer is a text of its own.\<close>

definition failed_amount_text :: "list_env \<Rightarrow> amount_with_unit \<Rightarrow> amount_with_unit \<Rightarrow> text_part list" where
  "failed_amount_text env sent received =
     (if awu_nanos sent \<noteq> awu_nanos received
      then [Plain (le_show env sent @ le_show env sent), Arrow, Plain (le_show env received)]
      else [Plain (le_show env sent)])"

definition FailedTitle :: "list_env \<Rightarrow> transaction \<Rightarrow> (string \<times> text_part list) result" where
  "FailedTitle env t =
     bind_result (le_date env ''MMM dd'' (tx_timestampEpoch t)) (\<lambda>date.
     let accounts = le_bankAccounts env; stocks = le_stocks env
     in bind_result
       (case t of
          Transfer f \<Rightarrow>
            bind_result (outgoingBankAccount f accounts) (\<lambda>src.
            bind_result (incomingBankAccount f accounts) (\<lambda>dst.
            bind_result (amountSent f accounts stocks) (\<lambda>sent.
            bind_result (amountReceived f accounts stocks) (\<lambda>received.
            bind_result (fullAccountName src (le_banks env)) (\<lambda>srcName.
            bind_result (fullAccountName dst (le_banks env)) (\<lambda>dstName.
              Inr ([Plain srcName, Arrow, Plain dstName] @ failed_amount_text env sent received)))))))
        | PersonalExpense p \<Rightarrow>
            bind_result (paidTotal (FlowPersonal p) accounts stocks) (\<lambda>a. Inr [Plain (pe_vendor p), Plain (le_show env a)])
        | ThirdPartyExpense e \<Rightarrow>
            bind_result (paidTotal (FlowThirdParty e) accounts stocks) (\<lambda>a.
              Inr [Plain (tp_vendor e), Small (''paid by '' @ tp_payer e), Plain (le_show env a)])
        | Income i \<Rightarrow>
            bind_result (paidTotal (FlowIncome i) accounts stocks) (\<lambda>a.
              Inr [Plain (in_payer i), Plain (''+'' @ le_show env a)])
        | OpeningBalance b \<Rightarrow> Inr [Plain ''Opening balance'']) (\<lambda>parts. Inr (date, parts)))"

record failed_view =
  failed_titles :: "(string \<times> text_part list) list"
  failed_more :: nat

text \<open>The warning is absent (\<open>None\<close>) when every transaction was converted.\<close>

definition CurrencyExchangeFailed :: "list_env \<Rightarrow> bool \<Rightarrow> transaction list \<Rightarrow> failed_view option result" where
  "CurrencyExchangeFailed env showAll failed =
     (if failed = [] then Inr None
      else let visible = (if \<not> showAll \<and> length failed > 6 then take 5 failed else failed)
           in bind_result (map_result (FailedTitle env) visible) (\<lambda>titles.
                Inr (Some \<lparr>failed_titles = titles, failed_more = length failed - length visible\<rparr>)))"

section \<open>The sorted list as a state machine\<close>

text \<open>
  \<open>SortableTransactionsList\<close> with the list inside it: the sorting, how many transactions are shown, which
  items are expanded and the transaction of the edit dialog. Items are keyed by the id of their
  transaction, so an item that leaves the screen loses its expanded state.
\<close>

record sortable_state =
  ss_sorting :: sorting_mode
  ss_limit :: nat
  ss_expanded :: "int list"
  ss_editing :: "transaction option"

definition sortable_start :: "sorting_mode option \<Rightarrow> sortable_state" where
  "sortable_start initialSorting =
     \<lparr>ss_sorting = (case initialSorting of Some s \<Rightarrow> s | None \<Rightarrow> DATE_ASC), ss_limit = initial_limit (Some 10),
      ss_expanded = [], ss_editing = None\<rparr>"

definition sorted_list :: "stats_context \<Rightarrow> transaction list \<Rightarrow> sortable_state \<Rightarrow> transaction list" where
  "sorted_list cx ts st = (case sort_transactions cx (ss_sorting st) ts of Inl _ \<Rightarrow> [] | Inr (s, _) \<Rightarrow> s)"

definition on_screen :: "stats_context \<Rightarrow> transaction list \<Rightarrow> sortable_state \<Rightarrow> transaction list" where
  "on_screen cx ts st = displayed (ss_limit st) (sorted_list cx ts st)"

definition rerender :: "stats_context \<Rightarrow> transaction list \<Rightarrow> sortable_state \<Rightarrow> sortable_state" where
  "rerender cx ts st = st\<lparr>ss_expanded := filter (\<lambda>i. i \<in> tx_id ` set (on_screen cx ts st)) (ss_expanded st)\<rparr>"

definition toggle_item :: "int \<Rightarrow> int list \<Rightarrow> int list" where
  "toggle_item i expanded = (if i \<in> set expanded then removeAll i expanded else expanded @ [i])"

inductive sortable_step ::
  "stats_context \<Rightarrow> transaction list \<Rightarrow> sortable_state \<Rightarrow> sortable_state \<Rightarrow> bool" for cx ts where
  SortByDate: "sortable_step cx ts st (rerender cx ts (st\<lparr>ss_sorting := by_date_clicked (ss_sorting st)\<rparr>))"
| SortByAmount:
    "sort_transactions cx (by_amount_clicked (ss_sorting st)) ts = Inr r \<Longrightarrow>
     sortable_step cx ts st (rerender cx ts (st\<lparr>ss_sorting := by_amount_clicked (ss_sorting st)\<rparr>))"
| ShowMore:
    "length (on_screen cx ts st) < length (sorted_list cx ts st) \<Longrightarrow>
     sortable_step cx ts st (st\<lparr>ss_limit := show_more c (ss_limit st)\<rparr>)"
| ClickItem:
    "t \<in> set (on_screen cx ts st) \<Longrightarrow>
     sortable_step cx ts st (st\<lparr>ss_expanded := toggle_item (tx_id t) (ss_expanded st)\<rparr>)"
| ClickEdit:
    "t \<in> set (on_screen cx ts st) \<Longrightarrow> tx_id t \<in> set (ss_expanded st) \<Longrightarrow>
     sortable_step cx ts st (st\<lparr>ss_editing := Some t\<rparr>)"
| CloseDialog: "sortable_step cx ts st (st\<lparr>ss_editing := None\<rparr>)"

definition sortable_reachable :: "stats_context \<Rightarrow> transaction list \<Rightarrow> sorting_mode option \<Rightarrow> sortable_state \<Rightarrow> bool" where
  "sortable_reachable cx ts initialSorting st \<longleftrightarrow> (sortable_step cx ts)\<^sup>*\<^sup>* (sortable_start initialSorting) st"

section \<open>Facts about the sorted list\<close>

definition amount_key :: "stats_context \<Rightarrow> transaction \<Rightarrow> rat" where
  "amount_key cx t = (case list_amount cx t of Inr (Some a) \<Rightarrow> dollar a | _ \<Rightarrow> 0)"

definition in_sorting_order :: "stats_context \<Rightarrow> sorting_mode \<Rightarrow> transaction \<Rightarrow> transaction \<Rightarrow> bool" where
  "in_sorting_order cx sorting a b \<longleftrightarrow>
     (case sorting of
        DATE_ASC \<Rightarrow> tx_timestampEpoch a \<le> tx_timestampEpoch b
      | DATE_DESC \<Rightarrow> tx_timestampEpoch b \<le> tx_timestampEpoch a
      | AMOUNT_ASC \<Rightarrow> amount_key cx a \<le> amount_key cx b
      | AMOUNT_DESC \<Rightarrow> amount_key cx b \<le> amount_key cx a)"

lemma in_sorting_order_simps [simp]:
  "in_sorting_order cx DATE_ASC = (\<lambda>a b. tx_timestampEpoch a \<le> tx_timestampEpoch b)"
  "in_sorting_order cx DATE_DESC = (\<lambda>a b. tx_timestampEpoch b \<le> tx_timestampEpoch a)"
  "in_sorting_order cx AMOUNT_ASC = (\<lambda>a b. amount_key cx a \<le> amount_key cx b)"
  "in_sorting_order cx AMOUNT_DESC = (\<lambda>a b. amount_key cx b \<le> amount_key cx a)"
  by (auto simp: in_sorting_order_def fun_eq_iff)

lemma js_comparator_ascending: "js_comparator (\<lambda>x y. n_sub (key x) (key y))"
  using by_number_le_0 [of key] by unfold_locales (auto simp: by_number_def)

lemma js_comparator_descending: "js_comparator (\<lambda>x y. n_sub (key y) (key x))"
  using by_number_le_0 [of key] by unfold_locales (auto simp: by_number_def)

lemma sorted_ascending: "sorted_wrt (\<lambda>x y. key x \<le> key y) (js_sort (\<lambda>x y. n_sub (key x) (key y)) xs)"
  using js_comparator.sorted [OF js_comparator_ascending [of key], of xs] by_number_le_0 [of key]
  by (simp add: by_number_def)

lemma sorted_descending: "sorted_wrt (\<lambda>x y. key y \<le> key x) (js_sort (\<lambda>x y. n_sub (key y) (key x)) xs)"
proof -
  have "n_sub (key y) (key x) \<le> 0 \<longleftrightarrow> key y \<le> key x" for x y
    using by_number_le_0 [of key y x] by (simp add: by_number_def)
  then show ?thesis using js_comparator.sorted [OF js_comparator_descending [of key], of xs] by simp
qed

lemma sort_by_date:
  assumes "sorting = DATE_ASC \<or> sorting = DATE_DESC"
  shows "\<exists>s. sort_transactions cx sorting ts = Inr (s, []) \<and> mset s = mset ts \<and>
    sorted_wrt (in_sorting_order cx sorting) s"
  using assms sorted_ascending [of tx_timestampEpoch ts] sorted_descending [of tx_timestampEpoch ts]
  by (auto simp: sort_transactions_def)

lemma amounts_paired:
  assumes "map_result (\<lambda>t. bind_result (list_amount cx t) (\<lambda>a. Inr (t, a))) ts = Inr xs"
  shows "map fst xs = ts \<and> (\<forall>x \<in> set xs. list_amount cx (fst x) = Inr (snd x))"
  using assms by (induction ts arbitrary: xs) (fastforce simp: result_simps)+

lemma mset_partition_map:
  "mset (map f (filter P xs)) + mset (map f (filter (\<lambda>x. \<not> P x) xs)) = mset (map f xs)"
  by (induction xs) auto

lemma sort_by_amount:
  assumes amounts: "sorting = AMOUNT_ASC \<or> sorting = AMOUNT_DESC"
    and sort: "sort_transactions cx sorting ts = Inr (s, failed)"
  shows "mset (s @ failed) = mset ts" "failed = filter (\<lambda>t. list_amount cx t = Inr None) ts"
    "sorted_wrt (in_sorting_order cx sorting) s" "\<forall>t \<in> set s. \<exists>a. list_amount cx t = Inr (Some a)"
proof -
  let ?d = "\<lambda>x :: transaction \<times> amount_with_currency option. dollar (the (snd x))"
  let ?cmp = "\<lambda>x y. if sorting = AMOUNT_ASC then n_sub (?d x) (?d y) else n_sub (?d y) (?d x)"
  obtain xs where xs: "map_result (\<lambda>t. bind_result (list_amount cx t) (\<lambda>a. Inr (t, a))) ts = Inr xs"
    and s: "s = map fst (js_sort ?cmp (filter (\<lambda>x. snd x \<noteq> None) xs))"
    and failed: "failed = map fst (filter (\<lambda>x. snd x = None) xs)"
    using sort amounts by (auto simp: sort_transactions_def Let_def result_simps)
  note paired = amounts_paired [OF xs]
  show "mset (s @ failed) = mset ts"
    using paired mset_partition_map [of fst "\<lambda>x. snd x \<noteq> None" xs] by (simp add: s failed)
  have "filter (\<lambda>t. list_amount cx t = Inr None) (map fst xs) = map fst (filter (\<lambda>x. snd x = None) xs)"
    unfolding filter_map o_def by (rule arg_cong [of _ _ "map fst"], rule filter_cong) (use paired in auto)
  then show "failed = filter (\<lambda>t. list_amount cx t = Inr None) ts" using paired failed by simp
  have key: "?d x = amount_key cx (fst x)" if "x \<in> set (js_sort ?cmp (filter (\<lambda>x. snd x \<noteq> None) xs))" for x
    using that paired by (auto simp: amount_key_def)
  have "sorted_wrt (\<lambda>x y. if sorting = AMOUNT_ASC then ?d x \<le> ?d y else ?d y \<le> ?d x)
      (js_sort ?cmp (filter (\<lambda>x. snd x \<noteq> None) xs))"
    by (cases "sorting = AMOUNT_ASC") (simp_all add: sorted_ascending [of ?d] sorted_descending [of ?d])
  then show "sorted_wrt (in_sorting_order cx sorting) s"
    unfolding s sorted_wrt_map
    by (rule sorted_wrt_mono_rel [rotated]) (use amounts in \<open>elim disjE; simp only: in_sorting_order_simps key [symmetric]; simp\<close>)
  show "\<forall>t \<in> set s. \<exists>a. list_amount cx t = Inr (Some a)" using paired by (auto simp: s)
qed

section \<open>Facts about the state machine\<close>

definition sortable_ok :: "stats_context \<Rightarrow> transaction list \<Rightarrow> sortable_state \<Rightarrow> bool" where
  "sortable_ok cx ts st \<longleftrightarrow>
     10 \<le> ss_limit st \<and>
     set (ss_expanded st) \<subseteq> tx_id ` set (on_screen cx ts st) \<and>
     (\<forall>t. ss_editing st = Some t \<longrightarrow> t \<in> set ts)"

lemma sorted_list_subset: "set (sorted_list cx ts st) \<subseteq> set ts"
proof (cases "sort_transactions cx (ss_sorting st) ts")
  case (Inr r)
  obtain s failed where r: "r = (s, failed)" by (cases r)
  have "mset (s @ failed) = mset ts"
    using sort_by_amount(1) [of "ss_sorting st" cx ts s failed] sort_by_date [of "ss_sorting st" cx ts] Inr r
    by (cases "ss_sorting st") auto
  then have "set s \<subseteq> set ts" by (metis Un_upper1 set_append set_mset_mset)
  then show ?thesis by (simp add: sorted_list_def Inr r)
qed (simp add: sorted_list_def)

lemma on_screen_subset: "set (on_screen cx ts st) \<subseteq> set ts"
  unfolding on_screen_def displayed_def using set_take_subset sorted_list_subset by fast

lemma on_screen_cong:
  "ss_sorting st = ss_sorting st' \<Longrightarrow> ss_limit st = ss_limit st' \<Longrightarrow> on_screen cx ts st = on_screen cx ts st'"
  by (simp add: on_screen_def sorted_list_def)

lemma on_screen_more:
  assumes "ss_sorting st' = ss_sorting st" "ss_limit st \<le> ss_limit st'"
  shows "set (on_screen cx ts st) \<subseteq> set (on_screen cx ts st')"
  using assms set_take_subset_set_take [of "ss_limit st" "ss_limit st'"]
  by (simp add: on_screen_def sorted_list_def displayed_def)

lemma show_more_le: "limit \<le> show_more c limit"
  by (cases c) auto

lemma rerender_ok:
  assumes "sortable_ok cx ts st"
  shows "sortable_ok cx ts (rerender cx ts (st\<lparr>ss_sorting := m\<rparr>))"
proof -
  let ?st = "rerender cx ts (st\<lparr>ss_sorting := m\<rparr>)"
  have "on_screen cx ts ?st = on_screen cx ts (st\<lparr>ss_sorting := m\<rparr>)"
    by (rule on_screen_cong) (simp_all add: rerender_def)
  then show ?thesis using assms by (auto simp: sortable_ok_def rerender_def)
qed

lemma sortable_step_ok:
  assumes "sortable_step cx ts st st'" and ok: "sortable_ok cx ts st"
  shows "sortable_ok cx ts st'"
  using assms
proof (induction rule: sortable_step.induct)
  case (ShowMore st c)
  then show ?case
    using image_mono [OF on_screen_more [of "st\<lparr>ss_limit := show_more c (ss_limit st)\<rparr>" st cx ts], of tx_id]
      show_more_le [of "ss_limit st" c]
    unfolding sortable_ok_def by (simp, metis subset_trans)
next
  case (ClickItem t st)
  then show ?case
    using on_screen_cong [of "st\<lparr>ss_expanded := toggle_item (tx_id t) (ss_expanded st)\<rparr>" st cx ts]
    by (auto simp: sortable_ok_def toggle_item_def)
next
  case (ClickEdit t st)
  then show ?case
    using on_screen_cong [of "st\<lparr>ss_editing := Some t\<rparr>" st cx ts] on_screen_subset [of cx ts st]
    by (auto simp: sortable_ok_def)
next
  case (CloseDialog st)
  then show ?case
    using on_screen_cong [of "st\<lparr>ss_editing := None\<rparr>" st cx ts] by (auto simp: sortable_ok_def)
qed (simp_all add: rerender_ok)

lemma sortable_reachable_ok:
  assumes "sortable_reachable cx ts m st"
  shows "sortable_ok cx ts st"
proof -
  have "(sortable_step cx ts)\<^sup>*\<^sup>* (sortable_start m) st" using assms by (simp add: sortable_reachable_def)
  moreover have "sortable_ok cx ts (sortable_start m)"
    by (simp add: sortable_ok_def sortable_start_def initial_limit_def)
  ultimately show ?thesis by (induction rule: rtranclp_induct) (auto intro: sortable_step_ok)
qed

text \<open>Clicking "10" often enough shows the whole list.\<close>

lemma show_all:
  "\<exists>st'. (sortable_step cx ts)\<^sup>*\<^sup>* st st' \<and> ss_sorting st' = ss_sorting st \<and>
     ss_expanded st' = ss_expanded st \<and> on_screen cx ts st' = sorted_list cx ts st"
proof (induction "length (sorted_list cx ts st) - ss_limit st" arbitrary: st rule: less_induct)
  case less
  show ?case
  proof (cases "length (sorted_list cx ts st) \<le> ss_limit st")
    case True
    then show ?thesis by (intro exI [of _ st]) (simp add: on_screen_def displayed_def)
  next
    case False
    let ?st = "st\<lparr>ss_limit := show_more Show10 (ss_limit st)\<rparr>"
    have same: "sorted_list cx ts ?st = sorted_list cx ts st" by (simp add: sorted_list_def)
    have step: "sortable_step cx ts st ?st"
      by (rule ShowMore) (use False in \<open>simp add: on_screen_def displayed_def\<close>)
    obtain st' where "(sortable_step cx ts)\<^sup>*\<^sup>* ?st st'" "ss_sorting st' = ss_sorting ?st"
      "ss_expanded st' = ss_expanded ?st" "on_screen cx ts st' = sorted_list cx ts ?st"
      using less [of ?st] False same by (auto simp: diff_less_mono2)
    with step same show ?thesis by (intro exI [of _ st']) (auto intro: converse_rtranclp_into_rtranclp)
  qed
qed

section \<open>Facts about the links shown\<close>

lemma filter_values_of_key:
  assumes "jm_ok m" and "\<And>k v. (k, v) \<in> set m \<Longrightarrow> P v \<longleftrightarrow> k = i"
  shows "filter P (map snd m) = (case jm_get m i of None \<Rightarrow> [] | Some v \<Rightarrow> [v])"
  using assms
proof (induction m)
  case (Cons e m)
  obtain k v where e: "e = (k, v)" by (cases e)
  have IH: "filter P (map snd m) = (case jm_get m i of None \<Rightarrow> [] | Some v \<Rightarrow> [v])"
    using Cons.IH Cons.prems by (auto simp: jm_ok_def)
  have "jm_get m i = None" if "k = i"
    using Cons.prems(1) that by (auto simp: e jm_ok_def jm_get_def map_of_eq_None_iff)
  with IH Cons.prems(2) [of k v] show ?case by (auto simp: e jm_get_def)
qed (simp add: jm_get_def)

lemma model_links:
  assumes "transactionLinkModelFromDB links txs db = Inr ls"
  obtains refunds debts where "maps_ok (supersededIds db) (tx_by_id txs) links (refunds, debts)"
    and "List.map_filter (\<lambda>l. case l of Refund r \<Rightarrow> Some r | DebtSettling _ \<Rightarrow> None) ls = map snd refunds"
    and "List.map_filter (\<lambda>l. case l of DebtSettling d \<Rightarrow> Some d | Refund _ \<Rightarrow> None) ls = map snd debts"
proof -
  obtain refunds debts
    where fold: "fold_result (link_step (supersededIds db) (tx_by_id txs)) ([], []) links = Inr (refunds, debts)"
    and ls: "ls = map Refund (jm_values refunds) @ map DebtSettling (jm_values debts)"
    using assms by (auto simp: transactionLinkModelFromDB_def Let_def result_simps)
  show ?thesis
    by (rule that [OF links_maps_ok [OF fold]])
      (simp_all add: ls jm_values_def List.map_filter_def o_def filter_map)
qed

lemma refund_links_of_expense:
  assumes model: "transactionLinkModelFromDB links txs db = Inr ls"
    and t: "jm_get (tx_by_id txs) i = Some t" "isExpense t"
  shows "case refund_links ls i of
      [] \<Rightarrow> links_for L_REFUND (supersededIds db) links i = []
    | [r] \<Rightarrow> refund_ok (tx_by_id txs) (links_for L_REFUND (supersededIds db) links i) i r
    | _ \<Rightarrow> False"
proof -
  obtain refunds debts where ok: "maps_ok (supersededIds db) (tx_by_id txs) links (refunds, debts)"
    and rs: "List.map_filter (\<lambda>l. case l of Refund r \<Rightarrow> Some r | DebtSettling _ \<Rightarrow> None) ls = map snd refunds"
    by (rule model_links [OF model])
  have jm: "jm_ok refunds" using ok by (simp add: maps_ok_def)
  have entry: "refund_ok (tx_by_id txs) (links_for L_REFUND (supersededIds db) links k) k r" if "jm_get refunds k = Some r" for k r
    using ok that unfolding maps_ok_def by (metis (mono_tags, lifting) fst_conv option.simps(5))
  have none: "links_for L_REFUND (supersededIds db) links k = []" if "jm_get refunds k = None" for k
    using ok that unfolding maps_ok_def by (metis (mono_tags, lifting) fst_conv option.simps(4))
  have "tx_id (rf_expense r) = i \<or> list_ex (\<lambda>x. in_id x = i) (rf_refunds r) \<longleftrightarrow> k = i" if "(k, r) \<in> set refunds" for k r
  proof -
    have r: "refund_ok (tx_by_id txs) (links_for L_REFUND (supersededIds db) links k) k r"
      using entry that jm_entry_iff [OF jm] by blast
    then have "tx_id (rf_expense r) = k" using tx_by_id_Some by (auto simp: refund_ok_def)
    moreover have "in_id x \<noteq> i" if x: "x \<in> set (rf_refunds r)" for x
    proof
      assume "in_id x = i"
      have "Some x \<in> set (map (linked_income (tx_by_id txs)) (links_for L_REFUND (supersededIds db) links k))"
        using r x unfolding refund_ok_def by (metis imageI list.set_map)
      then obtain l where "linked_income (tx_by_id txs) l = Some x" by auto
      then have "jm_get (tx_by_id txs) (lnk_linkedTransactionId l) = Some (Income x)"
        by (auto simp: linked_income_def split: option.splits transaction.splits)
      with tx_by_id_Some [OF this] \<open>in_id x = i\<close> t show False by auto
    qed
    ultimately show ?thesis by (auto simp: list_ex_iff)
  qed
  then have "refund_links ls i = (case jm_get refunds i of None \<Rightarrow> [] | Some r \<Rightarrow> [r])"
    unfolding refund_links_def rs by (rule filter_values_of_key [OF jm])
  then show ?thesis using entry none by (auto split: option.split)
qed

lemma debt_links_of_expense:
  assumes model: "transactionLinkModelFromDB links txs db = Inr ls"
    and t: "jm_get (tx_by_id txs) i = Some t" "isThirdPartyExpense t"
  shows "case debt_links ls i of
      [] \<Rightarrow> links_for L_DEBT_SETTLING (supersededIds db) links i = []
    | [d] \<Rightarrow> debt_ok (tx_by_id txs) (links_for L_DEBT_SETTLING (supersededIds db) links i) i d
    | _ \<Rightarrow> False"
proof -
  obtain refunds debts where ok: "maps_ok (supersededIds db) (tx_by_id txs) links (refunds, debts)"
    and ds: "List.map_filter (\<lambda>l. case l of DebtSettling d \<Rightarrow> Some d | Refund _ \<Rightarrow> None) ls = map snd debts"
    by (rule model_links [OF model])
  have jm: "jm_ok debts" using ok by (simp add: maps_ok_def)
  have entry: "debt_ok (tx_by_id txs) (links_for L_DEBT_SETTLING (supersededIds db) links k) k d" if "jm_get debts k = Some d" for k d
    using ok that unfolding maps_ok_def by (metis (mono_tags, lifting) snd_conv option.simps(5))
  have none: "links_for L_DEBT_SETTLING (supersededIds db) links k = []" if "jm_get debts k = None" for k
    using ok that unfolding maps_ok_def by (metis (mono_tags, lifting) snd_conv option.simps(4))
  have "tp_id (ds_expense d) = i \<or> pe_id (ds_repayment d) = i \<longleftrightarrow> k = i" if "(k, d) \<in> set debts" for k d
  proof -
    have d: "debt_ok (tx_by_id txs) (links_for L_DEBT_SETTLING (supersededIds db) links k) k d"
      using entry that jm_entry_iff [OF jm] by blast
    then have "jm_get (tx_by_id txs) k = Some (ThirdPartyExpense (ds_expense d))"
      and "\<exists>j. jm_get (tx_by_id txs) j = Some (PersonalExpense (ds_repayment d))" by (auto simp: debt_ok_def)
    with t show ?thesis using tx_by_id_Some [of txs] by (auto simp: isThirdPartyExpense_def split: transaction.splits) fastforce+
  qed
  then have "debt_links ls i = (case jm_get debts i of None \<Rightarrow> [] | Some d \<Rightarrow> [d])"
    unfolding debt_links_def ds by (rule filter_values_of_key [OF jm])
  then show ?thesis using entry none by (auto split: option.split)
qed

lemma isThirdParty_isExpense: "isThirdPartyExpense t \<Longrightarrow> isExpense t"
  by (simp add: isExpense_def)

definition date_shown :: "list_env \<Rightarrow> rat \<Rightarrow> string" where
  "date_shown env when = the (le_format env ''yyyy-MM-dd'' when)"

definition refunds_shown :: "list_env \<Rightarrow> income list \<Rightarrow> link_details" where
  "refunds_shown env incomes =
     (if incomes = [] then NoLink
      else RefundedIn (map (\<lambda>x. (in_id x, in_payer x, date_shown env (in_timestampEpoch x))) incomes))"

definition repayment_shown :: "list_env \<Rightarrow> tx_index \<Rightarrow> pb_transaction_link list \<Rightarrow> link_details" where
  "repayment_shown env byId ls =
     (if ls = [] then NoLink
      else case jm_get byId (lnk_linkedTransactionId (last ls)) of
             Some (PersonalExpense p) \<Rightarrow> RepaidIn (pe_vendor p) (date_shown env (pe_timestampEpoch p))
           | _ \<Rightarrow> NoLink)"

lemma le_date_shown:
  "\<forall>when. le_format env ''yyyy-MM-dd'' when \<noteq> None \<Longrightarrow> le_date env ''yyyy-MM-dd'' when = Inr (date_shown env when)"
  by (auto simp: le_date_def date_shown_def or_throw_def split: option.split)

lemma refund_details_shown:
  assumes model: "transactionLinkModelFromDB links txs db = Inr (le_links env)"
    and t: "jm_get (tx_by_id txs) i = Some t" "isExpense t"
    and dates: "\<forall>when. le_format env ''yyyy-MM-dd'' when \<noteq> None"
  shows "RefundDetails env i = Inr (refunds_shown env
    (List.map_filter (linked_income (tx_by_id txs)) (links_for L_REFUND (supersededIds db) links i)))"
proof -
  let ?ls = "links_for L_REFUND (supersededIds db) links i"
  have shape: "case refund_links (le_links env) i of [] \<Rightarrow> ?ls = [] | [r] \<Rightarrow> refund_ok (tx_by_id txs) ?ls i r | _ \<Rightarrow> False"
    by (rule refund_links_of_expense [OF model t])
  show ?thesis
  proof (cases "refund_links (le_links env) i")
    case Nil
    with shape show ?thesis by (simp add: RefundDetails_def refunds_shown_def List.map_filter_def)
  next
    case (Cons r rs)
    with shape have rs: "rs = []" and r: "refund_ok (tx_by_id txs) ?ls i r" by (auto split: list.splits)
    from r have incomes: "map Some (rf_refunds r) = map (linked_income (tx_by_id txs)) ?ls" and ne: "?ls \<noteq> []"
      and id: "tx_id (rf_expense r) = i" using tx_by_id_Some by (auto simp: refund_ok_def)
    have "List.map_filter (linked_income (tx_by_id txs)) ?ls = List.map_filter (\<lambda>x. x) (map (linked_income (tx_by_id txs)) ?ls)"
      by (simp add: List.map_filter_def filter_map o_def)
    also have "\<dots> = rf_refunds r" unfolding incomes [symmetric] by (simp add: List.map_filter_def filter_map o_def)
    finally have found: "List.map_filter (linked_income (tx_by_id txs)) ?ls = rf_refunds r" .
    have "rf_refunds r \<noteq> []" using incomes ne by auto
    moreover have "map_result (\<lambda>x. bind_result (le_date env ''yyyy-MM-dd'' (in_timestampEpoch x)) (\<lambda>on.
        Inr (in_id x, in_payer x, on))) (rf_refunds r) =
      Inr (map (\<lambda>x. (in_id x, in_payer x, date_shown env (in_timestampEpoch x))) (rf_refunds r))"
      by (rule map_result_total) (simp add: le_date_shown [OF dates])
    ultimately show ?thesis using Cons rs id by (simp add: RefundDetails_def refunds_shown_def found)
  qed
qed

lemma debt_details_shown:
  assumes model: "transactionLinkModelFromDB links txs db = Inr (le_links env)"
    and t: "jm_get (tx_by_id txs) i = Some t" "isThirdPartyExpense t"
    and dates: "\<forall>when. le_format env ''yyyy-MM-dd'' when \<noteq> None"
  shows "DebtRepaymentDetails env i =
    Inr (repayment_shown env (tx_by_id txs) (links_for L_DEBT_SETTLING (supersededIds db) links i))"
proof -
  let ?ls = "links_for L_DEBT_SETTLING (supersededIds db) links i"
  have shape: "case debt_links (le_links env) i of [] \<Rightarrow> ?ls = [] | [d] \<Rightarrow> debt_ok (tx_by_id txs) ?ls i d | _ \<Rightarrow> False"
    by (rule debt_links_of_expense [OF model t])
  show ?thesis
  proof (cases "debt_links (le_links env) i")
    case Nil
    with shape show ?thesis by (simp add: DebtRepaymentDetails_def repayment_shown_def)
  next
    case (Cons d ds)
    with shape have ds: "ds = []" and d: "debt_ok (tx_by_id txs) ?ls i d" by (auto split: list.splits)
    from d have "tp_id (ds_expense d) = i" using tx_by_id_Some by (fastforce simp: debt_ok_def)
    with Cons ds d show ?thesis
      by (simp add: DebtRepaymentDetails_def repayment_shown_def debt_ok_def le_date_shown [OF dates])
  qed
qed

section \<open>Properties\<close>

text \<open>
  C25: the sortable list neither loses nor repeats a transaction: the sorted list together with the ones reported
  as not convertible holds every transaction given as often as it was given; only sorting by amount reports
  any, exactly those without an exchange rate, in their order; and the list is in the order asked for, by time
  or by the amount in the display currency, ascending or descending.\<close>
theorem sortable_list_complete:
  assumes "sort_transactions cx sorting ts = Inr (s, failed)"
  shows "mset (s @ failed) = mset ts \<and> sorted_wrt (in_sorting_order cx sorting) s \<and>
    failed = (if sorting \<in> {AMOUNT_ASC, AMOUNT_DESC} then filter (\<lambda>t. list_amount cx t = Inr None) ts else [])"
  using sort_by_amount(1-3) [OF _ assms] sort_by_date [of sorting cx ts] assms by (cases sorting) auto



theorem sortable_list_complete_witness:
  "\<exists>s failed. sort_transactions sample_stats AMOUNT_DESC (sc_transactions sample_stats) = Inr (s, failed) \<and>
     map tx_id s = [2, 1, 3] \<and> mset (s @ failed) = mset (sc_transactions sample_stats)"
proof -
  have "case sort_transactions sample_stats AMOUNT_DESC (sc_transactions sample_stats) of
      Inr (s, failed) \<Rightarrow> map tx_id s = [2, 1, 3] | Inl _ \<Rightarrow> False" by code_simp
  then obtain s failed where sort: "sort_transactions sample_stats AMOUNT_DESC (sc_transactions sample_stats) = Inr (s, failed)"
    and ids: "map tx_id s = [2, 1, 3]" by (auto split: sum.splits)
  have all: "mset (s @ failed) = mset (sc_transactions sample_stats)"
    using sortable_list_complete [OF sort] by (rule conjunct1)
  show ?thesis by (intro exI conjI, rule sort, rule ids, rule all)
qed

definition many_transactions :: "transaction list" where
  "many_transactions = map (\<lambda>n. Income (sample_income\<lparr>in_id := int n\<rparr>)) [0..<25]"


definition sample_links :: "pb_transaction_link list" where
  "sample_links = [\<lparr>lnk_id = 5, lnk_sourceTransactionId = 1, lnk_linkedTransactionId = 2, lnk_linkType = L_REFUND\<rparr>]"

definition sample_list_env :: list_env where
  "sample_list_env =
     \<lparr>le_banks = [], le_bankAccounts = [], le_stocks = [], le_tags = [], le_trips = [],
      le_links = [Refund \<lparr>rf_id = 5, rf_expense = PersonalExpense sample_expense, rf_refunds = [sample_income]\<rparr>],
      le_format = (\<lambda>f when. Some ''1970-01-01''), le_iso = (\<lambda>when. None), le_intlCurrency = (\<lambda>l c d x. []),
      le_intl = (\<lambda>d x. [])\<rparr>"


section \<open>Flaws of the lists\<close>

text \<open>The warning about a transfer between currencies prints the amount sent twice before the arrow.\<close>

lemma sent_amount_printed_twice:
  assumes "outgoingBankAccount f (le_bankAccounts env) = Inr src" "incomingBankAccount f (le_bankAccounts env) = Inr dst"
    and "amountSent f (le_bankAccounts env) (le_stocks env) = Inr sent"
    and "amountReceived f (le_bankAccounts env) (le_stocks env) = Inr received" "awu_nanos sent \<noteq> awu_nanos received"
    and "fullAccountName src (le_banks env) = Inr srcName" "fullAccountName dst (le_banks env) = Inr dstName"
    and "le_format env ''MMM dd'' (tr_timestampEpoch f) = Some date"
  shows "FailedTitle env (Transfer f) = Inr (date,
    [Plain srcName, Arrow, Plain dstName, Plain (le_show env sent @ le_show env sent), Arrow, Plain (le_show env received)])"
  using assms by (simp add: FailedTitle_def Let_def le_date_def failed_amount_text_def)

text \<open>The warning accounts for every transaction: the titles shown and the number of further ones add up.\<close>

lemma failed_view_complete:
  "CurrencyExchangeFailed env showAll failed = Inr (Some v) \<Longrightarrow>
     length (failed_titles v) + failed_more v = length failed"
  by (auto simp: CurrencyExchangeFailed_def Let_def result_simps dest!: map_result_length split: if_splits)

text \<open>
  The sortable list ignores the limit its caller asks for: whatever the caller passes as \<open>displayLimit\<close>, the
  list inside starts with ten transactions. Ten is also what a limit of zero gives.
\<close>

lemma list_limit_starts_at_ten: "ss_limit (sortable_start initialSorting) = 10" "initial_limit (Some 0) = 10"
  by (simp_all add: sortable_start_def initial_limit_def)

end
