(* ===== verification/Search.thy ===== *)
theory Search
  imports ClientModel Stats
begin

text \<open>
  Searching transactions: \<open>lib/search/matchers.tsx\<close>, \<open>lib/search/visitor.tsx\<close>,
  \<open>lib/search/search.tsx\<close> and \<open>lib/search/useTransactionSearch.tsx\<close>. The parser is generated by
  ANTLR from \<open>TransactionSearchQuery.g4\<close>: it is a parameter that gives a parse tree, whose
  contexts are the datatypes below, or the syntax errors. The date functions of \<open>date-fns\<close> are
  parameters as well; a date that does not parse is \<open>None\<close>.
\<close>

section \<open>Parameters of a search\<close>

record date_functions =
  df_format :: "rat \<Rightarrow> string"
  df_parse :: "string \<Rightarrow> rat option"
  df_isSameDay :: "rat \<Rightarrow> rat option \<Rightarrow> bool"
  df_isBefore :: "rat \<Rightarrow> rat option \<Rightarrow> bool"
  df_isAfter :: "rat \<Rightarrow> rat option \<Rightarrow> bool"

record search_context =
  sx_banks :: "bank list"
  sx_bankAccounts :: "bank_account list"
  sx_tree :: category_tree
  sx_trips :: "trip list"
  sx_tags :: "tag list"
  sx_dates :: date_functions

datatype case_match = Exact | CaseInsensitive

datatype comparison_operator = LessThan | LessThanOrEqual | GreaterThan | GreaterThanOrEqual

section \<open>Matchers\<close>

definition str_matches :: "string \<Rightarrow> string \<Rightarrow> case_match \<Rightarrow> bool" where
  "str_matches fieldValue originalTerm c =
     (if c = Exact then str_includes fieldValue originalTerm
      else str_includes (toLowerCase fieldValue) (toLowerCase originalTerm))"

definition includesIgnoreCase :: "string \<Rightarrow> string list \<Rightarrow> bool" where
  "includesIgnoreCase fieldName options \<longleftrightarrow> toLowerCase fieldName \<in> set (map toLowerCase options)"

definition equals :: "int \<Rightarrow> string \<Rightarrow> bool" where
  "equals i term \<longleftrightarrow> string_of_int i = term"

definition matchNote :: "transaction \<Rightarrow> string \<Rightarrow> case_match \<Rightarrow> bool" where
  "matchNote t term c = (case tx_note t of None \<Rightarrow> False | Some note \<Rightarrow> str_matches note term c)"

definition matchVendor :: "transaction \<Rightarrow> string \<Rightarrow> case_match \<Rightarrow> bool" where
  "matchVendor t term c =
     (case t of
        PersonalExpense p \<Rightarrow> str_matches (pe_vendor p) term c
      | ThirdPartyExpense e \<Rightarrow> str_matches (tp_vendor e) term c
      | _ \<Rightarrow> False)"

definition matchPayer :: "transaction \<Rightarrow> string \<Rightarrow> case_match \<Rightarrow> bool" where
  "matchPayer t term c = (case t of Income i \<Rightarrow> str_matches (in_payer i) term c | _ \<Rightarrow> False)"

definition matchOtherParty :: "transaction \<Rightarrow> string \<Rightarrow> case_match \<Rightarrow> bool" where
  "matchOtherParty t term c =
     (case flow_of t of
        None \<Rightarrow> False
      | Some f \<Rightarrow>
        (case truthy_text (otherPartyName f) of None \<Rightarrow> False | Some otherParty \<Rightarrow> str_matches otherParty term c))"

text \<open>The amounts a search looks at: both of a transfer, the one of any other transaction.\<close>

fun searched_amounts :: "transaction \<Rightarrow> int list" where
  "searched_amounts (Transfer f) = [tr_sentAmountNanos f, tr_receivedAmountNanos f]"
| "searched_amounts (PersonalExpense p) = [pe_amountNanos p]"
| "searched_amounts (ThirdPartyExpense e) = [tp_amountNanos e]"
| "searched_amounts (Income i) = [in_amountNanos i]"
| "searched_amounts (OpeningBalance b) = [ob_amountNanos b]"

definition matchAmount :: "transaction \<Rightarrow> string \<Rightarrow> bool" where
  "matchAmount t term =
     (case truthy_id (parseAmountAsNanos term) of
        None \<Rightarrow> False
      | Some termNanos \<Rightarrow> list_ex (\<lambda>a. a = termNanos) (searched_amounts t))"

fun compare_op :: "comparison_operator \<Rightarrow> int \<Rightarrow> int \<Rightarrow> bool" where
  "compare_op LessThan a b = (a < b)"
| "compare_op LessThanOrEqual a b = (a \<le> b)"
| "compare_op GreaterThan a b = (a > b)"
| "compare_op GreaterThanOrEqual a b = (a \<ge> b)"

definition compareAmount :: "transaction \<Rightarrow> string \<Rightarrow> comparison_operator \<Rightarrow> bool" where
  "compareAmount t term op =
     (case truthy_id (parseAmountAsNanos term) of
        None \<Rightarrow> False
      | Some termNanos \<Rightarrow> list_ex (\<lambda>a. compare_op op a termNanos) (searched_amounts t))"

definition matchTransactionId :: "transaction \<Rightarrow> string \<Rightarrow> bool" where
  "matchTransactionId t term = equals (tx_id t) term"

text \<open>The account of a transaction that touches a single one.\<close>

fun tx_accountId :: "transaction \<Rightarrow> int option" where
  "tx_accountId (PersonalExpense p) = Some (pe_accountId p)"
| "tx_accountId (Income i) = Some (in_accountId i)"
| "tx_accountId (OpeningBalance b) = Some (ob_accountId b)"
| "tx_accountId (ThirdPartyExpense e) = None"
| "tx_accountId (Transfer f) = None"

definition matchBank ::
  "transaction \<Rightarrow> string \<Rightarrow> case_match \<Rightarrow> bank list \<Rightarrow> bank_account list \<Rightarrow> bool result" where
  "matchBank t term c banks bankAccounts =
     (case t of
        Transfer f \<Rightarrow>
          bind_result (outgoingBank f banks bankAccounts) (\<lambda>bankFrom.
            if str_matches (bank_name bankFrom) term c then Inr True
            else bind_result (incomingBank f banks bankAccounts) (\<lambda>bankTo.
              Inr (str_matches (bank_name bankTo) term c)))
      | _ \<Rightarrow>
        (case tx_accountId t of
           None \<Rightarrow> Inr False
         | Some accountId \<Rightarrow>
           bind_result (transactionBank accountId banks bankAccounts) (\<lambda>b.
             Inr (str_matches (bank_name b) term c))))"

definition matchBankId :: "transaction \<Rightarrow> string \<Rightarrow> bank_account list \<Rightarrow> bool result" where
  "matchBankId t term bankAccounts =
     (case t of
        Transfer f \<Rightarrow>
          bind_result (outgoingBankAccount f bankAccounts) (\<lambda>accountFrom.
          bind_result (incomingBankAccount f bankAccounts) (\<lambda>accountTo.
            Inr (equals (acc_bankId accountFrom) term \<or> equals (acc_bankId accountTo) term)))
      | _ \<Rightarrow>
        (case tx_accountId t of
           None \<Rightarrow> Inr False
         | Some accountId \<Rightarrow>
           bind_result (transactionBankAccount accountId bankAccounts) (\<lambda>account.
             Inr (equals (acc_bankId account) term))))"

definition matchBankAccount :: "transaction \<Rightarrow> string \<Rightarrow> case_match \<Rightarrow> bank_account list \<Rightarrow> bool result" where
  "matchBankAccount t term c bankAccounts =
     (case t of
        Transfer f \<Rightarrow>
          bind_result (outgoingBankAccount f bankAccounts) (\<lambda>accountFrom.
            if str_matches (acc_name accountFrom) term c then Inr True
            else bind_result (incomingBankAccount f bankAccounts) (\<lambda>accountTo.
              Inr (str_matches (acc_name accountTo) term c)))
      | _ \<Rightarrow>
        (case tx_accountId t of
           None \<Rightarrow> Inr False
         | Some accountId \<Rightarrow>
           bind_result (transactionBankAccount accountId bankAccounts) (\<lambda>account.
             Inr (str_matches (acc_name account) term c))))"

definition matchBankAccountId :: "transaction \<Rightarrow> string \<Rightarrow> bool" where
  "matchBankAccountId t term =
     (case t of
        Transfer f \<Rightarrow> equals (tr_fromAccountId f) term \<or> equals (tr_toAccountId f) term
      | _ \<Rightarrow> (case tx_accountId t of None \<Rightarrow> False | Some accountId \<Rightarrow> equals accountId term))"

definition matchCategory :: "transaction \<Rightarrow> string \<Rightarrow> case_match \<Rightarrow> category_tree \<Rightarrow> bool result" where
  "matchCategory t term c tree =
     (case tx_categoryId t of
        None \<Rightarrow> Inr False
      | Some cid \<Rightarrow> bind_result (getNameWithAncestors (AnId cid) tree) (\<lambda>name. Inr (str_matches name term c)))"

definition matchCategoryId :: "transaction \<Rightarrow> string \<Rightarrow> bool" where
  "matchCategoryId t term = (case tx_categoryId t of None \<Rightarrow> False | Some cid \<Rightarrow> equals cid term)"

definition matchTrip :: "transaction \<Rightarrow> string \<Rightarrow> case_match \<Rightarrow> trip list \<Rightarrow> bool" where
  "matchTrip t term c trips =
     (case flow_of t of
        None \<Rightarrow> False
      | Some f \<Rightarrow>
        (case truthy_id (flow_tripId f) of
           None \<Rightarrow> False
         | Some _ \<Rightarrow>
           (case transactionTrip f trips of None \<Rightarrow> False | Some trip \<Rightarrow> str_matches (trip_name trip) term c)))"

definition matchTripId :: "transaction \<Rightarrow> string \<Rightarrow> bool" where
  "matchTripId t term =
     (case flow_of t of
        None \<Rightarrow> False
      | Some f \<Rightarrow> (case truthy_id (flow_tripId f) of None \<Rightarrow> False | Some i \<Rightarrow> equals i term))"

definition matchTag :: "transaction \<Rightarrow> string \<Rightarrow> case_match \<Rightarrow> tag list \<Rightarrow> bool result" where
  "matchTag t term c allTags =
     bind_result (transactionTags t allTags) (\<lambda>tags. Inr (list_ex (\<lambda>t. str_matches (tag_name t) term c) tags))"

definition matchTagId :: "transaction \<Rightarrow> string \<Rightarrow> bool" where
  "matchTagId t term = (case tx_tagsIds t of None \<Rightarrow> False | Some ids \<Rightarrow> list_ex (\<lambda>i. equals i term) ids)"

text \<open>The pattern of \<open>yyyy-MM-dd\<close>.\<close>

definition is_iso_date :: "string \<Rightarrow> bool" where
  "is_iso_date s \<longleftrightarrow> length s = 10 \<and>
     list_all (\<lambda>i. if i = 4 \<or> i = 7 then s ! i = CHR ''-'' else is_digit (s ! i)) [0..<10]"

definition matchDate :: "date_functions \<Rightarrow> transaction \<Rightarrow> string \<Rightarrow> bool" where
  "matchDate df t term \<longleftrightarrow> is_iso_date term \<and> df_format df (tx_timestampEpoch t) = term"

definition matchType :: "transaction \<Rightarrow> string \<Rightarrow> bool" where
  "matchType t term =
     (if includesIgnoreCase term [''transfer''] then isTransfer t
      else if includesIgnoreCase term [''income''] then isIncome t
      else if includesIgnoreCase term [''expense''] then isExpense t
      else if includesIgnoreCase term [''personal''] then isPersonalExpense t
      else if includesIgnoreCase term [''thirdParty'', ''external''] then isThirdPartyExpense t
      else False)"

definition compareDate :: "date_functions \<Rightarrow> transaction \<Rightarrow> string \<Rightarrow> comparison_operator \<Rightarrow> bool" where
  "compareDate df t term op =
     (let txDate = of_int (date_value (tx_timestampEpoch t));
          termDate = df_parse df term
      in case op of
           LessThan \<Rightarrow> df_isBefore df txDate termDate
         | LessThanOrEqual \<Rightarrow> df_isSameDay df txDate termDate \<or> df_isBefore df txDate termDate
         | GreaterThan \<Rightarrow> \<not> df_isSameDay df txDate termDate \<and> df_isAfter df txDate termDate
         | GreaterThanOrEqual \<Rightarrow> df_isSameDay df txDate termDate \<or> df_isAfter df txDate termDate)"

definition matchAnyField :: "search_context \<Rightarrow> transaction \<Rightarrow> string \<Rightarrow> case_match \<Rightarrow> bool result" where
  "matchAnyField x t term c =
     (if matchNote t term c \<or> matchVendor t term c \<or> matchPayer t term c \<or> matchOtherParty t term c \<or>
         matchAmount t term \<or> matchTransactionId t term
      then Inr True
      else or_else (matchBank t term c (sx_banks x) (sx_bankAccounts x))
          (or_else (matchBankAccount t term c (sx_bankAccounts x))
          (or_else (matchCategory t term c (sx_tree x))
          (or_else (Inr (matchTrip t term c (sx_trips x)))
          (or_else (matchTag t term c (sx_tags x))
          (or_else (Inr (matchDate (sx_dates x) t term))
            (Inr (matchType t term))))))))"

definition matchField :: "search_context \<Rightarrow> transaction \<Rightarrow> string \<Rightarrow> string \<Rightarrow> case_match \<Rightarrow> bool result" where
  "matchField x t fieldName term c =
     (if includesIgnoreCase fieldName [''note'', ''description'', ''d''] then Inr (matchNote t term c)
      else if includesIgnoreCase fieldName [''vendor'', ''payee'', ''recipient'', ''v''] then Inr (matchVendor t term c)
      else if includesIgnoreCase fieldName [''payer''] then Inr (matchPayer t term c)
      else if includesIgnoreCase fieldName [''otherParty'', ''splitWith''] then Inr (matchOtherParty t term c)
      else if includesIgnoreCase fieldName [''amount'', ''amt'', ''price''] then Inr (matchAmount t term)
      else if includesIgnoreCase fieldName [''id''] then Inr (matchTransactionId t term)
      else if includesIgnoreCase fieldName [''bank'', ''b'']
        then or_else (matchBankId t term (sx_bankAccounts x)) (matchBank t term c (sx_banks x) (sx_bankAccounts x))
      else if includesIgnoreCase fieldName [''account'', ''acc'']
        then or_else (Inr (matchBankAccountId t term)) (matchBankAccount t term c (sx_bankAccounts x))
      else if includesIgnoreCase fieldName [''category'', ''c'']
        then or_else (Inr (matchCategoryId t term)) (matchCategory t term c (sx_tree x))
      else if includesIgnoreCase fieldName [''trip'']
        then Inr (matchTripId t term \<or> matchTrip t term c (sx_trips x))
      else if includesIgnoreCase fieldName [''tag'']
        then or_else (Inr (matchTagId t term)) (matchTag t term c (sx_tags x))
      else if includesIgnoreCase fieldName [''date'', ''d'', ''on''] then Inr (matchDate (sx_dates x) t term)
      else if includesIgnoreCase fieldName [''type'', ''t''] then Inr (matchType t term)
      else Inr False)"

definition compareField ::
  "date_functions \<Rightarrow> transaction \<Rightarrow> string \<Rightarrow> comparison_operator \<Rightarrow> string \<Rightarrow> bool" where
  "compareField df t fieldName op term =
     (if includesIgnoreCase fieldName [''amount'', ''amt'', ''price''] then compareAmount t term op
      else if includesIgnoreCase fieldName [''date'', ''d''] then compareDate df t term op
      else False)"

section \<open>The visitor\<close>

datatype search_term = PlainTerm string | QuotedTerm string

datatype
  query = Query "disj_query list" and
  disj_query = DisjQuery "conj_query list" and
  conj_query = ConjQuery "mod_clause list" and
  mod_clause = ModClause bool clause and
  clause =
    TermClause search_term
  | FieldMatchClause string search_term
  | FieldCompareClause string comparison_operator string
  | GroupClause query

definition getTerm :: "search_term \<Rightarrow> string \<times> case_match" where
  "getTerm ctx =
     (case ctx of PlainTerm s \<Rightarrow> (s, CaseInsensitive) | QuotedTerm s \<Rightarrow> (removeQuotes s, Exact))"

definition matching_ids :: "transaction list \<Rightarrow> (transaction \<Rightarrow> bool result) \<Rightarrow> int list result" where
  "matching_ids transactions p = bind_result (filter_result p transactions) (\<lambda>ts. Inr (map tx_id ts))"

function visitQuery :: "search_context \<Rightarrow> transaction list \<Rightarrow> query \<Rightarrow> int list result"
  and visit_disjs :: "search_context \<Rightarrow> transaction list \<Rightarrow> int list \<Rightarrow> disj_query list \<Rightarrow> int list result"
  and visitDisjQuery :: "search_context \<Rightarrow> transaction list \<Rightarrow> disj_query \<Rightarrow> int list result"
  and visit_conjs :: "search_context \<Rightarrow> transaction list \<Rightarrow> int list \<Rightarrow> conj_query list \<Rightarrow> int list result"
  and visitConjQuery :: "search_context \<Rightarrow> transaction list \<Rightarrow> conj_query \<Rightarrow> int list result"
  and visit_mods :: "search_context \<Rightarrow> transaction list \<Rightarrow> int list \<Rightarrow> mod_clause list \<Rightarrow> int list result"
  and visitModClause :: "search_context \<Rightarrow> transaction list \<Rightarrow> mod_clause \<Rightarrow> int list result"
  and visitClause :: "search_context \<Rightarrow> transaction list \<Rightarrow> clause \<Rightarrow> int list result" where
  "visitQuery x ts (Query ds) = visit_disjs x ts (map tx_id ts) ds"
| "visit_disjs x ts result [] = Inr result"
| "visit_disjs x ts result (d # ds) =
     bind_result (visitDisjQuery x ts d) (\<lambda>found. visit_disjs x ts (intersect result found) ds)"
| "visitDisjQuery x ts (DisjQuery cs) =
     bind_result (visit_conjs x ts [] cs) (\<lambda>result. Inr (filter (\<lambda>i. i \<in> set result) (map tx_id ts)))"
| "visit_conjs x ts result [] = Inr result"
| "visit_conjs x ts result (c # cs) =
     bind_result (visitConjQuery x ts c) (\<lambda>found. visit_conjs x ts (js_union result found) cs)"
| "visitConjQuery x ts (ConjQuery ms) = visit_mods x ts (map tx_id ts) ms"
| "visit_mods x ts result [] = Inr result"
| "visit_mods x ts result (m # ms) =
     bind_result (visitModClause x ts m) (\<lambda>found. visit_mods x ts (intersect result found) ms)"
| "visitModClause x ts (ModClause negated c) =
     bind_result (visitClause x ts c) (\<lambda>clauseMatch.
       Inr (if negated then filter (\<lambda>i. i \<notin> set clauseMatch) (map tx_id ts) else clauseMatch))"
| "visitClause x ts (TermClause tm) =
     (let (s, c) = getTerm tm in matching_ids ts (\<lambda>t. matchAnyField x t s c))"
| "visitClause x ts (FieldMatchClause fieldName tm) =
     (let (s, c) = getTerm tm in matching_ids ts (\<lambda>t. matchField x t fieldName s c))"
| "visitClause x ts (FieldCompareClause fieldName op s) =
     matching_ids ts (\<lambda>t. Inr (compareField (sx_dates x) t fieldName op s))"
| "visitClause x ts (GroupClause q) = visitQuery x ts q"
  by pat_completeness auto
termination
  by (relation "measure (\<lambda>v. case v of
        Inl (Inl (Inl (x, ts, q))) \<Rightarrow> size q
      | Inl (Inl (Inr (x, ts, result, ds))) \<Rightarrow> size_list size ds
      | Inl (Inr (Inl (x, ts, d))) \<Rightarrow> size d
      | Inl (Inr (Inr (x, ts, result, cs))) \<Rightarrow> size_list size cs
      | Inr (Inl (Inl (x, ts, c))) \<Rightarrow> size c
      | Inr (Inl (Inr (x, ts, result, ms))) \<Rightarrow> size_list size ms
      | Inr (Inr (Inl (x, ts, m))) \<Rightarrow> size m
      | Inr (Inr (Inr (x, ts, c))) \<Rightarrow> size c)") auto

section \<open>Searching\<close>

record search_params =
  sp_query :: string
  sp_transactions :: "transaction list"
  sp_banks :: "bank list"
  sp_bankAccounts :: "bank_account list"
  sp_categories :: "category list"
  sp_trips :: "trip list"
  sp_tags :: "tag list"

text \<open>The parser gives the errors its listener collected, or the tree of \<open>parser.query()\<close>.\<close>

type_synonym parser = "string \<Rightarrow> string list + query"

definition context_of :: "date_functions \<Rightarrow> search_params \<Rightarrow> category_tree \<Rightarrow> search_context" where
  "context_of df params tree =
     \<lparr>sx_banks = sp_banks params, sx_bankAccounts = sp_bankAccounts params, sx_tree = tree,
      sx_trips = sp_trips params, sx_tags = sp_tags params, sx_dates = df\<rparr>"

definition search :: "parser \<Rightarrow> date_functions \<Rightarrow> search_params \<Rightarrow> transaction list result" where
  "search parse df params =
     (if sp_query params = [] \<or> trim (sp_query params) = [] then Inr (sp_transactions params)
      else case parse (sp_query params) of
             Inl errors \<Rightarrow> Inl (QuerySyntaxError errors)
           | Inr tree \<Rightarrow>
             bind_result (makeCategoryTree (sp_categories params)) (\<lambda>categoryTree.
             bind_result (visitQuery (context_of df params categoryTree) (sp_transactions params) tree) (\<lambda>matchedIds.
               Inr (filter (\<lambda>t. tx_id t \<in> set matchedIds) (sp_transactions params)))))"

definition fallbackSearch :: "date_functions \<Rightarrow> search_params \<Rightarrow> transaction list result" where
  "fallbackSearch df params =
     (if sp_query params = [] \<or> trim (sp_query params) = [] then Inr (sp_transactions params)
      else bind_result (makeCategoryTree (sp_categories params)) (\<lambda>tree.
        filter_result (\<lambda>t. matchAnyField (context_of df params tree) t (sp_query params) CaseInsensitive)
          (sp_transactions params)))"

definition useTransactionSearch ::
  "parser \<Rightarrow> date_functions \<Rightarrow> search_params \<Rightarrow> (transaction list \<times> string list option) result" where
  "useTransactionSearch parse df params =
     (case search parse df params of
        Inr results \<Rightarrow> Inr (results, None)
      | Inl (QuerySyntaxError errors) \<Rightarrow>
          bind_result (fallbackSearch df params) (\<lambda>results. Inr (results, Some errors))
      | Inl e \<Rightarrow> Inl e)"

section \<open>What a query means\<close>

text \<open>The reference: a query is a condition on a transaction, built with and, or and not.\<close>

definition term_holds :: "search_context \<Rightarrow> search_term \<Rightarrow> transaction \<Rightarrow> bool" where
  "term_holds x tm t \<longleftrightarrow> matchAnyField x t (fst (getTerm tm)) (snd (getTerm tm)) = Inr True"

fun query_holds :: "search_context \<Rightarrow> query \<Rightarrow> transaction \<Rightarrow> bool"
  and disj_holds :: "search_context \<Rightarrow> disj_query \<Rightarrow> transaction \<Rightarrow> bool"
  and conj_holds :: "search_context \<Rightarrow> conj_query \<Rightarrow> transaction \<Rightarrow> bool"
  and mod_holds :: "search_context \<Rightarrow> mod_clause \<Rightarrow> transaction \<Rightarrow> bool"
  and clause_holds :: "search_context \<Rightarrow> clause \<Rightarrow> transaction \<Rightarrow> bool" where
  "query_holds x (Query ds) t = list_all (\<lambda>d. disj_holds x d t) ds"
| "disj_holds x (DisjQuery cs) t = list_ex (\<lambda>c. conj_holds x c t) cs"
| "conj_holds x (ConjQuery ms) t = list_all (\<lambda>m. mod_holds x m t) ms"
| "mod_holds x (ModClause negated c) t = (clause_holds x c t \<noteq> negated)"
| "clause_holds x (TermClause tm) t = term_holds x tm t"
| "clause_holds x (FieldMatchClause fieldName tm) t =
     (matchField x t fieldName (fst (getTerm tm)) (snd (getTerm tm)) = Inr True)"
| "clause_holds x (FieldCompareClause fieldName op s) t = compareField (sx_dates x) t fieldName op s"
| "clause_holds x (GroupClause q) t = query_holds x q t"

lemma clause_holds_eqs:
  "clause_holds x (TermClause tm) = (\<lambda>t. matchAnyField x t (fst (getTerm tm)) (snd (getTerm tm)) = Inr True)"
  "clause_holds x (FieldMatchClause fieldName tm) =
     (\<lambda>t. matchField x t fieldName (fst (getTerm tm)) (snd (getTerm tm)) = Inr True)"
  "clause_holds x (FieldCompareClause fieldName op s) = (\<lambda>t. compareField (sx_dates x) t fieldName op s)"
  "clause_holds x (GroupClause q) = query_holds x q"
  by (rule ext, simp add: term_holds_def)+

lemma subseq_distinct_filter:
  assumes "subseq xs zs" "distinct zs"
  shows "xs = filter (\<lambda>z. z \<in> set xs) zs"
  using assms
proof (induction rule: list_emb.induct)
  case (list_emb_Nil ys)
  then show ?case by simp
next
  case (list_emb_Cons xs ys y)
  moreover have "y \<notin> set xs" using list_emb_Cons by (auto dest: list_emb_set)
  ultimately show ?case by simp
next
  case (list_emb_Cons2 x y xs ys)
  have "filter (\<lambda>z. z \<in> set (x # xs)) ys = filter (\<lambda>z. z \<in> set xs) ys"
    using list_emb_Cons2 by (intro filter_cong) auto
  then show ?case using list_emb_Cons2 by simp
qed

lemma intersect_filters:
  assumes "distinct zs" "subseq xs zs" "subseq ys zs"
  shows "intersect xs ys = filter (\<lambda>z. z \<in> set xs \<and> z \<in> set ys) zs"
proof -
  have "subseq (intersect xs ys) zs"
  proof (cases "length xs \<le> length ys")
    case True
    then show ?thesis using subseq_intersect subseq_order.order_trans assms(3) by blast
  next
    case False
    then have "intersect xs ys = intersect ys xs" by (subst intersect.simps) simp
    then show ?thesis using subseq_intersect [of ys xs] False subseq_order.order_trans assms(2) by simp
  qed
  from subseq_distinct_filter [OF this assms(1)] show ?thesis by simp
qed

text \<open>The ids of the transactions of the list with a property.\<close>

definition ids_where :: "transaction list \<Rightarrow> (transaction \<Rightarrow> bool) \<Rightarrow> int list" where
  "ids_where ts P = map tx_id (filter P ts)"

lemma ids_where_subseq: "subseq (ids_where ts P) (map tx_id ts)"
  unfolding ids_where_def by (rule subseq_map) (rule subseq_filter_left)

lemma ids_where_member:
  "distinct (map tx_id ts) \<Longrightarrow> t \<in> set ts \<Longrightarrow> tx_id t \<in> set (ids_where ts P) \<longleftrightarrow> P t"
  by (auto simp: ids_where_def dest: inj_onD [OF conjunct2 [OF distinct_map [THEN iffD1]]])

lemma ids_where_filter:
  "filter Q (map tx_id ts) = ids_where ts (\<lambda>t. Q (tx_id t))"
  by (simp add: ids_where_def filter_map comp_def)

lemma ids_where_cong: "(\<And>t. t \<in> set ts \<Longrightarrow> P t \<longleftrightarrow> Q t) \<Longrightarrow> ids_where ts P = ids_where ts Q"
  unfolding ids_where_def by (rule arg_cong [where f = "map tx_id"]) (rule filter_cong, auto)

lemma intersect_ids_where:
  assumes "distinct (map tx_id ts)"
  shows "intersect (ids_where ts P) (ids_where ts Q) = ids_where ts (\<lambda>t. P t \<and> Q t)"
  unfolding intersect_filters [OF assms ids_where_subseq ids_where_subseq] ids_where_filter
  by (rule ids_where_cong) (simp add: ids_where_member [OF assms])

lemma matching_ids_Inr: "matching_ids ts p = Inr ids \<Longrightarrow> ids = ids_where ts (\<lambda>t. p t = Inr True)"
  by (auto simp: matching_ids_def result_simps ids_where_def dest!: filter_result_Inr)

lemma visit_lemma:
  assumes d: "distinct (map tx_id ts)"
  shows "visitQuery x ts q = Inr ids \<Longrightarrow> ids = ids_where ts (query_holds x q)"
    and "visit_disjs x ts result ds = Inr ids \<Longrightarrow> result = ids_where ts P \<Longrightarrow>
      ids = ids_where ts (\<lambda>t. P t \<and> list_all (\<lambda>d. disj_holds x d t) ds)"
    and "visitDisjQuery x ts dq = Inr ids \<Longrightarrow> ids = ids_where ts (disj_holds x dq)"
    and "visit_conjs x ts result cs = Inr ids \<Longrightarrow>
      set ids = set result \<union> set (ids_where ts (\<lambda>t. list_ex (\<lambda>c. conj_holds x c t) cs))"
    and "visitConjQuery x ts cq = Inr ids \<Longrightarrow> ids = ids_where ts (conj_holds x cq)"
    and "visit_mods x ts result ms = Inr ids \<Longrightarrow> result = ids_where ts P \<Longrightarrow>
      ids = ids_where ts (\<lambda>t. P t \<and> list_all (\<lambda>m. mod_holds x m t) ms)"
    and "visitModClause x ts mc = Inr ids \<Longrightarrow> ids = ids_where ts (mod_holds x mc)"
    and "visitClause x ts cl = Inr ids \<Longrightarrow> ids = ids_where ts (clause_holds x cl)"
  using d
proof (induction x ts q and x ts result ds and x ts dq and x ts result cs and x ts cq and x ts result ms
    and x ts mc and x ts cl
    arbitrary: ids and ids P and ids and ids and ids and ids P and ids and ids
    rule: visitQuery_visit_disjs_visitDisjQuery_visit_conjs_visitConjQuery_visit_mods_visitModClause_visitClause.induct)
  case (1 x ts ds)
  have "map tx_id ts = ids_where ts (\<lambda>_. True)" by (simp add: ids_where_def)
  from 1(1) [OF _ this, of ids] 1(2,3) show ?case by simp
next
  case (3 x ts result d ds)
  obtain found where f: "visitDisjQuery x ts d = Inr found" "visit_disjs x ts (intersect result found) ds = Inr ids"
    using 3(3) by (auto simp: result_simps)
  have "intersect result found = ids_where ts (\<lambda>t. P t \<and> disj_holds x d t)"
    unfolding 3(4) 3(1) [OF f(1) 3(5)] by (rule intersect_ids_where [OF 3(5)])
  from 3(2) [OF f this 3(5)] show ?case by (simp add: conj_assoc)
next
  case (4 x ts cs)
  then obtain r where r: "visit_conjs x ts [] cs = Inr r" "ids = filter (\<lambda>i. i \<in> set r) (map tx_id ts)"
    by (auto simp: result_simps)
  have "ids = ids_where ts (\<lambda>t. tx_id t \<in> set r)" unfolding r(2) by (rule ids_where_filter)
  also have "\<dots> = ids_where ts (disj_holds x (DisjQuery cs))"
    using 4(1) [OF r(1) 4(3)] by (intro ids_where_cong) (simp add: ids_where_member [OF 4(3)])
  finally show ?case .
next
  case (6 x ts result c cs)
  then obtain found where f: "visitConjQuery x ts c = Inr found" "visit_conjs x ts (js_union result found) cs = Inr ids"
    by (auto simp: result_simps)
  have "found = ids_where ts (conj_holds x c)" using 6(1) f(1) 6(4) by simp
  moreover have "set ids = set (js_union result found) \<union> set (ids_where ts (\<lambda>t. list_ex (\<lambda>c. conj_holds x c t) cs))"
    using 6(2) f 6(4) by simp
  ultimately show ?case by (auto simp: ids_where_def)
next
  case (7 x ts ms)
  have "map tx_id ts = ids_where ts (\<lambda>_. True)" by (simp add: ids_where_def)
  from 7(1) [OF _ this, of ids] 7(2,3) show ?case by simp
next
  case (9 x ts result m ms)
  obtain found where f: "visitModClause x ts m = Inr found" "visit_mods x ts (intersect result found) ms = Inr ids"
    using 9(3) by (auto simp: result_simps)
  have "intersect result found = ids_where ts (\<lambda>t. P t \<and> mod_holds x m t)"
    unfolding 9(4) 9(1) [OF f(1) 9(5)] by (rule intersect_ids_where [OF 9(5)])
  from 9(2) [OF f this 9(5)] show ?case by (simp add: conj_assoc)
next
  case (10 x ts negated c)
  then obtain r where r: "visitClause x ts c = Inr r"
      "ids = (if negated then filter (\<lambda>i. i \<notin> set r) (map tx_id ts) else r)"
    by (auto simp: result_simps)
  then have r': "r = ids_where ts (clause_holds x c)" using 10(1) 10(3) by simp
  show ?case
  proof (cases negated)
    case True
    then have "ids = ids_where ts (\<lambda>t. tx_id t \<notin> set r)" using r(2) by (simp add: ids_where_filter)
    also have "\<dots> = ids_where ts (mod_holds x (ModClause negated c))"
      unfolding r' by (rule ids_where_cong) (simp add: ids_where_member [OF 10(3)] True)
    finally show ?thesis .
  qed (use r r' in simp)
qed (auto simp: clause_holds_eqs ids_where_def [of _ "\<lambda>_. False"] case_prod_unfold Let_def
    dest!: matching_ids_Inr)

text \<open>
  A search keeps exactly the transactions its query holds for, in their order; and a hook falls
  back to free text only on a syntax error.
\<close>

lemma search_lemma:
  assumes "distinct (map tx_id (sp_transactions params))" "trim (sp_query params) \<noteq> []"
    and "search parse df params = Inr found"
  shows "\<exists>q tree. parse (sp_query params) = Inr q \<and> makeCategoryTree (sp_categories params) = Inr tree \<and>
    found = filter (query_holds (context_of df params tree) q) (sp_transactions params)"
proof -
  have "sp_query params \<noteq> []" using assms(2) by (auto simp: trim_def)
  then obtain q tree ids where q: "parse (sp_query params) = Inr q" "makeCategoryTree (sp_categories params) = Inr tree"
      "visitQuery (context_of df params tree) (sp_transactions params) q = Inr ids"
      "found = filter (\<lambda>t. tx_id t \<in> set ids) (sp_transactions params)"
    using assms(2,3) by (auto simp: search_def result_simps split: sum.splits)
  have ids: "ids = ids_where (sp_transactions params) (query_holds (context_of df params tree) q)"
    using visit_lemma(1) [OF assms(1) q(3)] .
  have "found = filter (query_holds (context_of df params tree) q) (sp_transactions params)"
    unfolding q(4) ids by (rule filter_cong) (simp_all add: ids_where_member [OF assms(1)])
  then show ?thesis using q by blast
qed

section \<open>Properties\<close>

text \<open>
  The meaning of a search. For transactions with distinct ids and a query the grammar accepts,
  what \<open>search\<close> finds, by intersecting and uniting lists of ids over the parse tree, is exactly the
  transactions that satisfy the query read as a boolean formula (terms match some field, a field
  clause its field, NOT complements, adjacent clauses all hold, OR at least one), in their order.
\<close>
theorem search_semantics:
  assumes "distinct (map tx_id (sp_transactions params))" "trim (sp_query params) \<noteq> []"
    and "search parse df params = Inr found"
  shows "\<exists>q tree. parse (sp_query params) = Inr q \<and> makeCategoryTree (sp_categories params) = Inr tree \<and>
    found = filter (query_holds (context_of df params tree) q) (sp_transactions params)"
  by (rule search_lemma [OF assms])

definition sample_dates :: date_functions where
  "sample_dates = \<lparr>df_format = (\<lambda>_. ''1970-01-01''), df_parse = (\<lambda>_. None), df_isSameDay = (\<lambda>_ _. False),
     df_isBefore = (\<lambda>_ _. False), df_isAfter = (\<lambda>_ _. False)\<rparr>"

definition sample_search :: search_params where
  "sample_search = \<lparr>sp_query = ''payer:employer'', sp_transactions = [PersonalExpense sample_expense, Income sample_income],
     sp_banks = [], sp_bankAccounts = [], sp_categories = sample_categories, sp_trips = [], sp_tags = []\<rparr>"

definition sample_parser :: parser where
  "sample_parser s = Inr (Query [DisjQuery [ConjQuery
     [ModClause False (FieldMatchClause ''payer'' (PlainTerm ''employer''))]]])"

lemma sample_search_found: "search sample_parser sample_dates sample_search = Inr [Income sample_income]"
  by code_simp

theorem search_semantics_witness:
  "\<exists>q tree. sample_parser (sp_query sample_search) = Inr q \<and>
     [Income sample_income] = filter (query_holds (context_of sample_dates sample_search tree) q)
       (sp_transactions sample_search)"
proof -
  have "distinct (map tx_id (sp_transactions sample_search))" "trim (sp_query sample_search) \<noteq> []"
    by code_simp+
  from search_semantics [OF this sample_search_found] show ?thesis by blast
qed

text \<open>
  A search that cannot be parsed still shows something. When the query is not in the grammar,
  \<open>useTransactionSearch\<close> reports the syntax errors together with the transactions the fallback
  search finds: those that contain the whole query in some field.
\<close>
theorem search_fallback:
  assumes "parse (sp_query params) = Inl errors" "trim (sp_query params) \<noteq> []"
    and "useTransactionSearch parse df params = Inr (found, es)"
  shows "es = Some errors \<and> (\<exists>tree. makeCategoryTree (sp_categories params) = Inr tree \<and>
    found = filter (\<lambda>t. matchAnyField (context_of df params tree) t (sp_query params) CaseInsensitive = Inr True)
      (sp_transactions params))"
proof -
  have q: "sp_query params \<noteq> []" using assms(2) by (auto simp: trim_def)
  then have "search parse df params = Inl (QuerySyntaxError errors)"
    using assms(1,2) by (simp add: search_def)
  then show ?thesis
    using assms(2,3) q by (auto simp: useTransactionSearch_def fallbackSearch_def bind_result_eq_Inr
      dest: filter_result_Inr)
qed

text \<open>In a field clause \<open>d:\<close> always means the note; the alias \<open>d\<close> of the date is never reached.\<close>

lemma d_alias_is_note:
  "matchField x t ''d'' term c = Inr (matchNote t term c)"
  by (simp add: matchField_def includesIgnoreCase_def toLowerCase_def)

text \<open>A comparison with zero matches nothing: zero counts as a missing number.\<close>

lemma amount_above_zero_matches_nothing: "\<not> compareAmount t ''0'' op"
  by (simp add: compareAmount_def parseAmountAsNanos_def starts_with.simps is_digit_def digits_value_def digit_value_def)

end
