(* ===== verification/ConfigPages.thy ===== *)
theory ConfigPages
  imports ConfigForms
begin

text \<open>
  The other configuration pages: the categories (\<open>config/categories/client.tsx\<close> and
  \<open>CategoryForm.tsx\<close>), the display settings (the server action, its schema and page,
  \<open>lib/displaySettings.tsx\<close>, \<open>MultiSelect.tsx\<close>) and the mapping of external accounts
  (\<open>config/open-banking/mapping/client.tsx\<close> with the API route it posts to).
\<close>

section \<open>The page of categories\<close>

definition category_form_values :: "category option \<Rightarrow> category list \<Rightarrow> category_form" where
  "category_form_values c categories =
     \<lparr>ctf_name = (case c of None \<Rightarrow> [] | Some x \<Rightarrow> cat_name x),
      ctf_displayOrder =
        (case c of None \<Rightarrow> FieldNumber (of_nat (length categories * 100))
         | Some x \<Rightarrow> FieldNumber (of_int (cat_displayOrder x))),
      ctf_parentCategoryId =
        (case Option.bind c cat_parentCategoryId of None \<Rightarrow> FieldUndefined | Some p \<Rightarrow> FieldNumber (of_int p))\<rparr>"

definition type_category_displayOrder :: "string \<Rightarrow> category_form \<Rightarrow> category_form" where
  "type_category_displayOrder s f = f\<lparr>ctf_displayOrder := parseInt s\<rparr>"

definition choose_parent :: "string \<Rightarrow> category_form \<Rightarrow> category_form" where
  "choose_parent s f =
     f\<lparr>ctf_parentCategoryId :=
       (case parseInt s of FieldNumber x \<Rightarrow> if x = 0 then FieldUndefined else FieldNumber x | _ \<Rightarrow> FieldUndefined)\<rparr>"

definition parent_options :: "category list \<Rightarrow> (int \<times> string) list result" where
  "parent_options categories =
     bind_result (makeCategoryTree categories) (\<lambda>tree.
       map_result (\<lambda>c. map_sum id (Pair (cat_id c)) (getNameWithAncestors (ACategory c) tree)) categories)"

definition category_data_values :: "category_data \<Rightarrow> category_form" where
  "category_data_values d =
     \<lparr>ctf_name = ctd_name d, ctf_displayOrder = FieldNumber (ctd_displayOrder d),
      ctf_parentCategoryId = (case ctd_parentCategoryId d of None \<Rightarrow> FieldUndefined | Some p \<Rightarrow> FieldNumber p)\<rparr>"

definition submit_category ::
  "(zod_code \<Rightarrow> string) \<Rightarrow> string option \<Rightarrow> (pb_category \<Rightarrow> int option) \<Rightarrow> category option \<Rightarrow>
     category_form \<Rightarrow> pb_category list \<times> pb_category submitted" where
  "submit_category message session rpc c values =
     submit_form parse_category
       (\<lambda>data. upsertCategory message session rpc (map_option cat_id c) (category_data_values data)) values"

record categories_page =
  cp_categories :: "pb_category list"
  cp_collapsed :: "int list"

definition category_saved :: "pb_category \<Rightarrow> categories_page \<Rightarrow> categories_page" where
  "category_saved x p = p\<lparr>cp_categories := updateOrAppend pbc_id (cp_categories p) x\<rparr>"

definition page_categories :: "categories_page \<Rightarrow> category list result" where
  "page_categories p = sortCategories (map categoryModelFromDB (cp_categories p))"

definition toggleCollapsedStateAll :: "category list \<Rightarrow> categories_page \<Rightarrow> categories_page" where
  "toggleCollapsedStateAll categories p =
     p\<lparr>cp_collapsed := (if length (cp_collapsed p) > 0 then [] else map cat_id categories)\<rparr>"

definition toggleCollapsedState :: "int \<Rightarrow> categories_page \<Rightarrow> categories_page" where
  "toggleCollapsedState categoryId p =
     p\<lparr>cp_collapsed :=
       (if list_ex (\<lambda>cid. cid = categoryId) (cp_collapsed p)
        then filter (\<lambda>cid. cid \<noteq> categoryId) (cp_collapsed p)
        else categoryId # cp_collapsed p)\<rparr>"

text \<open>
  The items on screen, in order, each with whether it has children; an item renders the list of its
  children, and nothing stops the recursion of the components but the tree itself.
\<close>

partial_function (option) render_categories ::
  "category_tree \<Rightarrow> int list \<Rightarrow> category list \<Rightarrow> (category \<times> bool) list result option" where
  "render_categories tree collapsed categories =
     (case categories of
        [] \<Rightarrow> Some (Inr [])
      | c # cs \<Rightarrow>
        (case immediateChildren (ACategory c) tree of
           Inl e \<Rightarrow> Some (Inl e)
         | Inr children \<Rightarrow>
           Option.bind
             (if children \<noteq> [] \<and> cat_id c \<notin> set collapsed
              then render_categories tree collapsed children else Some (Inr [])) (\<lambda>inner.
           Option.bind (render_categories tree collapsed cs) (\<lambda>rest.
             Some (bind_result inner (\<lambda>xs. bind_result rest (\<lambda>ys. Inr ((c, children \<noteq> []) # xs @ ys))))))))"

declare render_categories.simps [code]

definition rows_on_screen :: "categories_page \<Rightarrow> (category \<times> bool) list result" where
  "rows_on_screen p =
     bind_result (page_categories p) (\<lambda>categories.
     bind_result (makeCategoryTree categories) (\<lambda>tree.
     bind_result (or_throw (render_categories tree (cp_collapsed p) (filter isRoot categories)) DoesNotReturn)
       id))"

section \<open>Display settings\<close>

record pb_display_settings =
  pds_displayCurrencyCode :: string
  pds_excludeCategoryIdsInStats :: "int list"

record display_settings =
  ds_displayCurrency :: currency
  ds_excludeCategoryIdsInStats :: "int list"

definition mk_DisplaySettings :: "pb_display_settings \<Rightarrow> display_settings result" where
  "mk_DisplaySettings init =
     bind_result (mustFindByCode (pds_displayCurrencyCode init)) (\<lambda>c.
       Inr \<lparr>ds_displayCurrency = c, ds_excludeCategoryIdsInStats = pds_excludeCategoryIdsInStats init\<rparr>)"

definition displaySettingsFormValidationSchema :: "pb_display_settings \<Rightarrow> config_issue list" where
  "displaySettingsFormValidationSchema f =
     concat (map (\<lambda>(k, i). if i > 0 then [] else [([''excludeCategoryIdsInStats'', string_of_int (int k)], TooSmall)])
       (enumerate 0 (pds_excludeCategoryIdsInStats f))) @
     (if findByCode (pds_displayCurrencyCode f) \<noteq> None then []
      else [([], CustomCode ''Currency is not known'')])"

definition parse_display_settings :: "pb_display_settings \<Rightarrow> config_issue list + pb_display_settings" where
  "parse_display_settings f =
     (let issues = displaySettingsFormValidationSchema f in if issues = [] then Inr f else Inl issues)"

definition updateDisplaySettings ::
  "(zod_code \<Rightarrow> string) \<Rightarrow> string option \<Rightarrow> core_data option \<Rightarrow> (pb_display_settings \<Rightarrow> bool) \<Rightarrow>
     pb_display_settings \<Rightarrow> pb_display_settings list \<times> pb_display_settings action_response result" where
  "updateDisplaySettings message session fetchCoreData rpc unsafeData =
     (case session of
        None \<Rightarrow> ([], Inl NotAuthenticated)
      | Some _ \<Rightarrow>
        (case parse_display_settings unsafeData of
           Inl issues \<Rightarrow> ([], Inr (ClientError (flatten_issues message issues)))
         | Inr data \<Rightarrow>
           if findByCode (pds_displayCurrencyCode data) = None
           then ([], Inr (ClientError
             \<lparr>fe_formErrors = [''Unknown currency '' @ pds_displayCurrencyCode data], fe_fieldErrors = []\<rparr>))
           else
             (case fetchCoreData of
                None \<Rightarrow> ([], Inl BackendFailed)
              | Some core \<Rightarrow>
                let known = js_set (map pbc_id (cd_categories core));
                    unknownCategories = filter (\<lambda>i. i \<notin> set known) (pds_excludeCategoryIdsInStats data)
                in if length unknownCategories > 0
                   then ([], Inr (ClientError
                     \<lparr>fe_formErrors = [''Following categories are not found: '' @
                        join '','' (map string_of_int unknownCategories)], fe_fieldErrors = []\<rparr>))
                   else
                     let settings = \<lparr>pds_displayCurrencyCode = pds_displayCurrencyCode data,
                           pds_excludeCategoryIdsInStats = pds_excludeCategoryIdsInStats data\<rparr>
                     in ([settings], if rpc settings then Inr (Saved settings) else Inl BackendFailed))))"

record settings_page =
  sp_settings :: pb_display_settings
  sp_successMessage :: string
  sp_errors :: "(string \<times> string) list"

definition submit_display_settings ::
  "(zod_code \<Rightarrow> string) \<Rightarrow> string option \<Rightarrow> core_data option \<Rightarrow> (pb_display_settings \<Rightarrow> bool) \<Rightarrow>
     pb_display_settings \<Rightarrow> settings_page \<Rightarrow> pb_display_settings list \<times> settings_page result" where
  "submit_display_settings message session fetchCoreData rpc values p =
     (case submit_form parse_display_settings (updateDisplaySettings message session fetchCoreData rpc) values of
        (reqs, RefusedByResolver issues) \<Rightarrow> (reqs, Inr p)
      | (reqs, ErrorsShown errors) \<Rightarrow> (reqs, Inr (p\<lparr>sp_successMessage := [], sp_errors := errors\<rparr>))
      | (reqs, SaveFailed e) \<Rightarrow> (reqs, Inl e)
      | (reqs, Done x) \<Rightarrow>
        (reqs, Inr (p\<lparr>sp_settings := x, sp_successMessage := ''Successfully saved!'', sp_errors := []\<rparr>)))"

text \<open>The multiple select of the excluded categories.\<close>

definition multi_select :: "'a \<Rightarrow> 'a list \<Rightarrow> 'a list" where
  "multi_select x value = (if x \<in> set value then filter (\<lambda>t. t \<noteq> x) value else value @ [x])"

definition selected_labels :: "(int \<times> string) list \<Rightarrow> int list \<Rightarrow> string list" where
  "selected_labels options value =
     map (\<lambda>v. case find (\<lambda>opt. fst opt = v) options of
         Some opt \<Rightarrow> snd opt | None \<Rightarrow> ''Unknown value '' @ string_of_int v) value"

section \<open>The mapping of external accounts\<close>

record account_mapping =
  mapping_internal :: int
  mapping_external :: string

record external_account =
  ext_externalId :: string
  ext_name :: string

datatype mapping_response = MappingsJson "account_mapping list" | ErrorJson

definition mapping_request_is_valid :: "int \<Rightarrow> account_mapping list \<Rightarrow> bool" where
  "mapping_request_is_valid bankId mappings \<longleftrightarrow>
     bankId > 0 \<and> list_all (\<lambda>m. mapping_internal m \<ge> 0 \<and> length (mapping_external m) \<ge> 1) mappings"

definition post_mapping ::
  "string option \<Rightarrow> (int \<Rightarrow> account_mapping list \<Rightarrow> bool) \<Rightarrow> (int \<Rightarrow> account_mapping list option) \<Rightarrow>
     int \<Rightarrow> account_mapping list \<Rightarrow> (int \<times> account_mapping list) list \<times> mapping_response result" where
  "post_mapping session setMappings listMappings bankId mapping =
     (if \<not> mapping_request_is_valid bankId mapping then ([], Inr ErrorJson)
      else case session of
        None \<Rightarrow> ([], Inl NotAuthenticated)
      | Some _ \<Rightarrow>
        ([(bankId, mapping)],
         if setMappings bankId mapping
         then map_sum id MappingsJson (or_throw (listMappings bankId) BackendFailed)
         else Inl BackendFailed))"

text \<open>
  The page keeps whatever JSON the last request returned as its stored mappings, without looking at
  the status of the response.
\<close>

record mapping_page =
  mp_stored :: mapping_response
  mp_mapping :: "(string, int) js_map"
  mp_statusMessage :: string
  mp_apiError :: "js_error option"

definition initial_mapping :: "account_mapping list \<Rightarrow> (string, int) js_map" where
  "initial_mapping stored = jm_of_entries (map (\<lambda>x. (mapping_external x, mapping_internal x)) stored)"

definition open_mapping_page :: "account_mapping list \<Rightarrow> external_account list \<Rightarrow> mapping_page" where
  "open_mapping_page mappingsInitial externalAccounts =
     \<lparr>mp_stored = MappingsJson mappingsInitial,
      mp_mapping = jm_of_entries (map (\<lambda>a. (ext_externalId a,
        case jm_get (initial_mapping mappingsInitial) (ext_externalId a) of Some i \<Rightarrow> i | None \<Rightarrow> - 1)) externalAccounts),
      mp_statusMessage = [], mp_apiError = None\<rparr>"

definition choose_account :: "string \<Rightarrow> int \<Rightarrow> mapping_page \<Rightarrow> mapping_page" where
  "choose_account externalId i p = p\<lparr>mp_mapping := jm_set externalId i (mp_mapping p)\<rparr>"

definition submit_mapping ::
  "string option \<Rightarrow> (int \<Rightarrow> account_mapping list \<Rightarrow> bool) \<Rightarrow> (int \<Rightarrow> account_mapping list option) \<Rightarrow>
     int \<Rightarrow> mapping_page \<Rightarrow> (int \<times> account_mapping list) list \<times> mapping_page" where
  "submit_mapping session setMappings listMappings bankId p =
     (let requestMapping = map (\<lambda>(ext, i). \<lparr>mapping_internal = i, mapping_external = ext\<rparr>) (mp_mapping p);
          (reqs, response) = post_mapping session setMappings listMappings bankId requestMapping
      in (reqs,
          case response of
            Inl e \<Rightarrow> p\<lparr>mp_statusMessage := [], mp_apiError := Some e\<rparr>
          | Inr json \<Rightarrow> p\<lparr>mp_stored := json, mp_statusMessage := ''Success!'', mp_apiError := None\<rparr>))"

text \<open>A render of the page: each external account with the value of its select.\<close>

definition render_mapping_page ::
  "bank_account list \<Rightarrow> stock list \<Rightarrow> external_account list \<Rightarrow> mapping_page \<Rightarrow>
     (string \<times> int option) list result" where
  "render_mapping_page accountModels stockModels externalAccounts p =
     (case mp_stored p of
        ErrorJson \<Rightarrow> Inl UndefinedProperty
      | MappingsJson stored \<Rightarrow>
        map_result (\<lambda>e.
          bind_result (map_result (\<lambda>a. accountUnit a stockModels) accountModels) (\<lambda>_.
            Inr (ext_name e, jm_get (mp_mapping p) (ext_externalId e)))) externalAccounts)"

section \<open>The connections of a bank\<close>

datatype provider = PROVIDER_UNSPECIFIED | TRUELAYER | GOCARDLESS | STARLING

record connection_expiration =
  ce_bankId :: int
  ce_expiresAt :: "timestamp option"
  ce_provider :: provider

definition provider_banks :: "provider \<Rightarrow> connection_expiration list \<Rightarrow> int list" where
  "provider_banks q expirations = map ce_bankId (filter (\<lambda>e. ce_provider e = q) expirations)"

datatype connection_action = ConnectWith provider | ConfigureConnection | ReconnectConnection | DisconnectConnection

definition bank_connections :: "bool \<Rightarrow> bool \<Rightarrow> bool \<Rightarrow> connection_action list" where
  "bank_connections isTrueLayer isGoCardless isStarling =
     (if \<not> isTrueLayer \<and> \<not> isGoCardless \<and> \<not> isStarling
      then [ConnectWith STARLING, ConnectWith TRUELAYER, ConnectWith GOCARDLESS]
      else (if isTrueLayer then [ConfigureConnection, ReconnectConnection, DisconnectConnection] else []) @
           (if isGoCardless then [ConfigureConnection, ReconnectConnection, DisconnectConnection] else []) @
           (if isStarling then [ConfigureConnection, DisconnectConnection] else []))"

section \<open>The sorted categories form a tree of their own\<close>

lemma node_lookup_distinct:
  assumes "distinct (map cat_id all)" "i < length all"
  shows "jm_get (node_lookup all) (cat_id (all ! i)) = Some i"
proof -
  have "map (\<lambda>i. cat_id (all ! i)) [0..<length all] = map cat_id all"
    by (intro nth_equalityI) simp_all
  then show ?thesis
    using jm_get_index_distinct [of "\<lambda>i. cat_id (all ! i)" "[0..<length all]" i id] assms
    by (simp add: node_lookup_def)
qed

lemma findNode_own:
  "distinct (map cat_id all) \<Longrightarrow> i < length all \<Longrightarrow> findNode (ACategory (all ! i)) (tree_of all) = Inr i"
  by (simp add: findNode_def node_lookup_distinct)

lemma parent_index_distinct:
  assumes "distinct (map cat_id all)" "i < length all" "p < length all" "parent_id (all ! i) = Some (cat_id (all ! p))"
  shows "parent_index all i = Some p"
  using assms node_lookup_distinct [of all p] by (simp add: parent_index_def)

lemma parent_index_Some:
  "parent_index all i = Some p \<Longrightarrow> parent_id (all ! i) = Some (cat_id (all ! p)) \<and> p < length all"
  using node_lookup_Some by (fastforce simp: parent_index_def bind_eq_Some_conv)

lemma parent_index_None:
  assumes "makeCategoryTree all = Inr tree" "i < length all" "parent_index all i = None"
  shows "parent_id (all ! i) = None"
proof (rule ccontr)
  assume "parent_id (all ! i) \<noteq> None"
  then obtain pid where pid: "parent_id (all ! i) = Some pid" by auto
  then have "pid \<in> cat_id ` set all" using makeCategoryTree_parents [OF assms(1) nth_mem [OF assms(2)]] by simp
  then show False using assms(3) pid by (simp add: parent_index_def node_lookup_None)
qed

lemma sorted_categories:
  assumes "sortCategories all = Inr cs" "distinct (map cat_id all)"
  shows "makeCategoryTree cs = Inr (tree_of cs)" "distinct (map cat_id cs)"
    "i < length cs \<Longrightarrow> rooted (tree_store (tree_of cs)) i" "set cs \<subseteq> set all"
proof -
  obtain tree where tree: "makeCategoryTree all = Inr tree"
    using assms(1) by (auto simp: sortCategories_def result_simps)
  have t: "tree = tree_of all" using tree by (rule makeCategoryTree_Inr)
  obtain ns where ns: "sortCategories all = Inr (map ((!) all) ns)" "distinct ns"
      "set ns = {i. i < length all \<and> rooted (tree_store (tree_of all)) i}"
    using sortCategories_lemma [OF tree] t by auto
  have cs: "cs = map ((!) all) ns" using assms(1) ns(1) by simp
  show "set cs \<subseteq> set all" unfolding cs set_map ns(3) by (simp add: image_subset_iff)
  have inj: "inj_on (\<lambda>i. cat_id (all ! i)) (set ns)"
  proof (rule inj_onI)
    fix i j assume "i \<in> set ns" "j \<in> set ns" "cat_id (all ! i) = cat_id (all ! j)"
    then have "map cat_id all ! i = map cat_id all ! j" "i < length all" "j < length all" using ns(3) by auto
    then show "i = j" using nth_eq_iff_index_eq [OF assms(2), of i j] by simp
  qed
  have "distinct (map (\<lambda>i. cat_id (all ! i)) ns)" using ns(2) inj distinct_map by blast
  moreover have "map cat_id cs = map (\<lambda>i. cat_id (all ! i)) ns" unfolding cs by simp
  ultimately show dist: "distinct (map cat_id cs)" by (simp only:)
  have parent: "\<exists>q < length cs. cat_id (cs ! q) = cat_id (all ! p)"
    if "k < length cs" "parent_index all (ns ! k) = Some p" for k p
  proof -
    have k: "ns ! k \<in> set ns" using that(1) by (simp add: cs)
    then have i: "ns ! k < length all" "rooted (tree_store (tree_of all)) (ns ! k)" using ns(3) by auto
    have "p < length all" using that(2) parent_index_less by blast
    moreover have "rooted (tree_store (tree_of all)) p"
      using rooted_parent [of "tree_store (tree_of all)" "ns ! k" p] i that(2) by simp
    ultimately have "p \<in> set ns" using ns(3) by simp
    then obtain q where "q < length ns" "ns ! q = p" by (auto simp: in_set_conv_nth)
    then show ?thesis by (intro exI [of _ q]) (simp add: cs)
  qed
  have index: "parent_index all (ns ! k) = Some p \<Longrightarrow> k < length cs \<Longrightarrow>
      \<exists>q < length cs. parent_index cs k = Some q \<and> cat_id (cs ! q) = cat_id (all ! p)" for k p
    using parent [of k p] parent_index_distinct [OF dist] parent_index_Some [of all "ns ! k" p]
    by (fastforce simp: cs)
  have "find (\<lambda>c. case parent_id c of None \<Rightarrow> False | Some pid \<Rightarrow> pid \<notin> cat_id ` set cs) cs = None"
  proof -
    have "case parent_id (cs ! k) of None \<Rightarrow> True | Some pid \<Rightarrow> pid \<in> cat_id ` set cs" if k: "k < length cs" for k
    proof (cases "parent_index all (ns ! k)")
      case None
      moreover have "ns ! k < length all" using k ns(3) nth_mem [of k ns] by (simp add: cs)
      ultimately have "parent_id (all ! (ns ! k)) = None" using parent_index_None [OF tree] by simp
      then show ?thesis using k by (simp add: cs)
    next
      case (Some p)
      have "cat_id (all ! p) \<in> cat_id ` set cs" using parent [OF k Some] nth_mem by (metis imageI)
      moreover have "parent_id (cs ! k) = Some (cat_id (all ! p))"
        using parent_index_Some [OF Some] k by (simp add: cs)
      ultimately show ?thesis by simp
    qed
    then show ?thesis by (fastforce simp: find_None_iff in_set_conv_nth split: option.splits)
  qed
  then show "makeCategoryTree cs = Inr (tree_of cs)" by (simp add: makeCategoryTree_eq)
  have rooted: "ancestor_path (tree_store (tree_of all)) i ps \<Longrightarrow> i = ns ! k \<Longrightarrow> k < length cs \<Longrightarrow>
      rooted (tree_store (tree_of cs)) k" for i k ps
  proof (induction i ps arbitrary: k rule: ancestor_path.induct)
    case (path_root i)
    have i: "i < length all" using path_root(2,3) ns(3) nth_mem [of k ns] by (simp add: cs)
    then have "parent_id (cs ! k) = None"
      using parent_index_None [OF tree, of i] path_root by (simp add: cs)
    then show ?case using path_root(3) by (intro rooted_None) (simp add: parent_index_def)
  next
    case (path_step i p ps)
    have i: "i < length all" using path_step(4,5) ns(3) nth_mem [of k ns] by (simp add: cs)
    have p: "parent_index all (ns ! k) = Some p" using path_step(1,4) i by simp
    then obtain q where q: "q < length cs" "parent_index cs k = Some q" "cat_id (cs ! q) = cat_id (all ! p)"
      using index path_step(5) by blast
    have "p < length all" using p parent_index_less by blast
    then have "p = ns ! q"
      using q(1,3) assms(2) nth_eq_iff_index_eq [of "map cat_id all" p "ns ! q"] ns(3) nth_mem [of q ns]
      by (simp add: cs)
    then show ?case
      using path_step.IH q(1,2) path_step(5) rooted_parent [of "tree_store (tree_of cs)" k q] by simp
  qed
  show "rooted (tree_store (tree_of cs)) i" if i: "i < length cs"
  proof -
    have "ns ! i \<in> set ns" using i by (simp add: cs)
    then obtain ps where "ancestor_path (tree_store (tree_of all)) (ns ! i) ps"
      using ns(3) by (auto simp: rooted_def)
    then show ?thesis using rooted i by blast
  qed
qed

section \<open>The rows on screen\<close>

text \<open>The nodes shown when the item of node \<open>i\<close> js: those under \<open>i\<close> with nothing collapsed in between.\<close>

definition shown :: "node_store \<Rightarrow> int set \<Rightarrow> nat \<Rightarrow> nat set" where
  "shown h collapsed i = {d. (d, i) \<in> (parent_rel h)\<^sup>* \<and>
     (\<forall>a. (d, a) \<in> (parent_rel h)\<^sup>+ \<and> (a, i) \<in> (parent_rel h)\<^sup>* \<longrightarrow> cat_id (category_at h a) \<notin> collapsed)}"

lemma shown_subtree: "shown h collapsed i \<subseteq> subtree h i"
  by (auto simp: shown_def subtree_iff)

lemma shown_self: "rooted h i \<Longrightarrow> i \<in> shown h collapsed i"
proof -
  assume "rooted h i"
  then obtain ps where ps: "ancestor_path h i ps" by (auto simp: rooted_def)
  have "\<not> ((i, a) \<in> (parent_rel h)\<^sup>+ \<and> (a, i) \<in> (parent_rel h)\<^sup>*)" for a
    using rooted_acyclic [OF ps] by (auto simp: below_def dest: trancl_rtrancl_trancl)
  then show ?thesis by (auto simp: shown_def)
qed

lemma parent_of_below:
  assumes "(d, i) \<in> (parent_rel h)\<^sup>*" "d \<noteq> i" and c: "(d, c) \<in> (parent_rel h)\<^sup>*" "parent_at h c = Some i" "c < length h"
    and r: "rooted h i" and a: "(d, a) \<in> (parent_rel h)\<^sup>+" "(a, i) \<in> (parent_rel h)\<^sup>*" "a \<noteq> i"
  shows "(a, c) \<in> (parent_rel h)\<^sup>*"
proof -
  have "(a, c) \<in> (parent_rel h)\<^sup>* \<or> (c, a) \<in> (parent_rel h)\<^sup>*"
    using single_valued_confluent [OF single_valued_parent_rel, of d a h c] a(1) c(1) by (simp add: trancl_into_rtrancl)
  moreover have False if "(c, a) \<in> (parent_rel h)\<^sup>+"
  proof -
    have "(i, a) \<in> (parent_rel h)\<^sup>*" using below_first_step [OF that c(2)] .
    moreover have "(a, i) \<in> (parent_rel h)\<^sup>+" using a(2,3) by (metis rtranclD)
    ultimately have "i \<in> below h i" by (simp add: below_def)
    then show False using r rooted_acyclic by (auto simp: rooted_def)
  qed
  ultimately show ?thesis by (metis rtranclD rtrancl.rtrancl_refl)
qed

lemma shown_unfold:
  assumes h: "forest h" "i < length h" "rooted h i"
  shows "shown h collapsed i = insert i (if cat_id (category_at h i) \<in> collapsed then {}
    else (\<Union>c \<in> set (children_at h i). shown h collapsed c))"
proof (intro set_eqI iffI)
  have child: "c \<in> set (children_at h i) \<longleftrightarrow> c < length h \<and> parent_at h c = Some i" for c
    using h by (auto simp: forest_def)
  fix d
  show "d \<in> insert i (if cat_id (category_at h i) \<in> collapsed then {}
      else (\<Union>c \<in> set (children_at h i). shown h collapsed c))" if d: "d \<in> shown h collapsed i"
  proof (cases "d = i")
    case False
    have di: "(d, i) \<in> (parent_rel h)\<^sup>*" and none: "(d, a) \<in> (parent_rel h)\<^sup>+ \<Longrightarrow> (a, i) \<in> (parent_rel h)\<^sup>* \<Longrightarrow>
        cat_id (category_at h a) \<notin> collapsed" for a
      using d by (auto simp: shown_def)
    have plus: "(d, i) \<in> (parent_rel h)\<^sup>+" using di False by (metis rtranclD)
    then obtain c where c: "(d, c) \<in> (parent_rel h)\<^sup>*" "(c, i) \<in> parent_rel h" by (meson tranclD2)
    have "d \<in> shown h collapsed c"
      using c none by (auto simp: shown_def intro: rtrancl.rtrancl_into_rtrancl)
    moreover have "cat_id (category_at h i) \<notin> collapsed" using none [OF plus] by simp
    ultimately show ?thesis using c(2) child by (auto dest: parent_relD)
  qed simp
  show "d \<in> shown h collapsed i" if d: "d \<in> insert i (if cat_id (category_at h i) \<in> collapsed then {}
      else (\<Union>c \<in> set (children_at h i). shown h collapsed c))"
  proof (cases "d = i")
    case True
    then show ?thesis using shown_self h(3) by simp
  next
    case False
    then obtain c where c: "c < length h" "parent_at h c = Some i" "d \<in> shown h collapsed c"
      and opened: "cat_id (category_at h i) \<notin> collapsed"
      using d child by (auto split: if_splits)
    have dc: "(d, c) \<in> (parent_rel h)\<^sup>*" and ci: "(c, i) \<in> parent_rel h"
      using c by (auto simp: shown_def parent_rel_def)
    have "cat_id (category_at h a) \<notin> collapsed"
      if a: "(d, a) \<in> (parent_rel h)\<^sup>+" "(a, i) \<in> (parent_rel h)\<^sup>*" for a
    proof (cases "a = i")
      case True
      then show ?thesis using opened by simp
    next
      case a_not_i: False
      have "(a, c) \<in> (parent_rel h)\<^sup>*"
        using parent_of_below [of d i h c a] dc ci False c(1,2) h(3) a a_not_i by (meson rtrancl.rtrancl_into_rtrancl)
      then show ?thesis using c(3) a(1) by (auto simp: shown_def)
    qed
    then show ?thesis using dc ci by (auto simp: shown_def intro: rtrancl.rtrancl_into_rtrancl)
  qed
qed

definition renders :: "category_tree \<Rightarrow> int list \<Rightarrow> nat list \<Rightarrow> nat list \<Rightarrow> bool" where
  "renders tree collapsed js ns \<longleftrightarrow>
     (\<exists>rows. render_categories tree collapsed (map (category_at (tree_store tree)) js) = Some (Inr rows) \<and>
        map fst rows = map (category_at (tree_store tree)) ns)"

lemma renders_Nil: "renders tree collapsed [] []"
  by (simp add: renders_def render_categories.simps)

lemma renders_Cons:
  assumes "findNode (ACategory (category_at (tree_store tree) i)) tree = Inr i"
    and "cat_id (category_at (tree_store tree) i) \<notin> set collapsed \<Longrightarrow>
      renders tree collapsed (children_at (tree_store tree) i) ds"
    and "renders tree collapsed js ns"
  shows "renders tree collapsed (i # js)
    (i # (if cat_id (category_at (tree_store tree) i) \<in> set collapsed then [] else ds) @ ns)"
proof -
  let ?h = "tree_store tree"
  obtain rest where rest: "render_categories tree collapsed (map (category_at ?h) js) = Some (Inr rest)"
      "map fst rest = map (category_at ?h) ns"
    using assms(3) by (auto simp: renders_def)
  have kids: "immediateChildren (ACategory (category_at ?h i)) tree = Inr (map (category_at ?h) (children_at ?h i))"
    using assms(1) by (simp add: immediateChildren_def)
  show ?thesis
  proof (cases "cat_id (category_at ?h i) \<in> set collapsed")
    case True
    then show ?thesis using rest kids by (simp add: renders_def render_categories.simps [of _ _ "_ # _"])
  next
    case False
    then obtain inner where inner: "render_categories tree collapsed (map (category_at ?h) (children_at ?h i)) = Some (Inr inner)"
        "map fst inner = map (category_at ?h) ds"
      using assms(2) by (auto simp: renders_def)
    have "inner = []" if "children_at ?h i = []"
      using inner(1) that by (simp add: render_categories.simps)
    then show ?thesis
      using rest kids inner False by (auto simp: renders_def render_categories.simps [of _ _ "_ # _"])
  qed
qed

lemma renders_shown:
  assumes "\<And>i. i < length (tree_store tree) \<Longrightarrow> findNode (ACategory (category_at (tree_store tree) i)) tree = Inr i"
    and h: "forest (tree_store tree)" and s: "siblings (tree_store tree) q js"
    and sub: "\<And>i. i \<in> set js \<Longrightarrow> \<exists>ds. renders tree collapsed (children_at (tree_store tree) i) ds \<and> distinct ds \<and>
       set ds = (\<Union>c \<in> set (children_at (tree_store tree) i). shown (tree_store tree) (set collapsed) c)"
  shows "\<exists>ns. renders tree collapsed js ns \<and> distinct ns \<and>
    set ns = (\<Union>c \<in> set js. shown (tree_store tree) (set collapsed) c)"
  using s sub
proof (induction "js")
  case Nil
  then show ?case by (intro exI [of _ "[]"]) (simp add: renders_Nil)
next
  case (Cons i js)
  let ?h = "tree_store tree"
  have i: "i < length ?h" "rooted ?h i" and sib: "siblings ?h q js" using Cons.prems(1) by (auto simp: siblings_def)
  obtain ns where ns: "renders tree collapsed js ns" "distinct ns" "set ns = (\<Union>c \<in> set js. shown ?h (set collapsed) c)"
    using Cons.IH [OF sib] Cons.prems(2) by auto
  obtain ds where ds: "renders tree collapsed (children_at ?h i) ds" "distinct ds"
      "set ds = (\<Union>c \<in> set (children_at ?h i). shown ?h (set collapsed) c)"
    using Cons.prems(2) [of i] by auto
  define own where "own = i # (if cat_id (category_at ?h i) \<in> set collapsed then [] else ds)"
  have own_set: "set own = shown ?h (set collapsed) i"
    using shown_unfold [OF h i, of "set collapsed"] ds(3) by (simp add: own_def)
  have "set ds \<subseteq> below ?h i"
    using ds(3) shown_subtree by (fastforce simp: below_children [OF h i(1)])
  then have "distinct own" using ds(2) i(2) rooted_acyclic by (fastforce simp: own_def rooted_def)
  moreover have "set own \<inter> set ns = {}"
  proof -
    have "subtree ?h i \<inter> subtree ?h c = {}" if "c \<in> set js" for c
      using siblings_disjoint [OF Cons.prems(1), of i c] that Cons.prems(1) by (auto simp: siblings_def)
    then show ?thesis unfolding own_set ns(3) using shown_subtree by fastforce
  qed
  ultimately have "distinct (own @ ns)" "set (own @ ns) = (\<Union>c \<in> set (i # js). shown ?h (set collapsed) c)"
    using ns(2,3) own_set by auto
  moreover have "renders tree collapsed (i # js) (own @ ns)"
    using renders_Cons [OF assms(1) [OF i(1)] ds(1) ns(1)] by (simp add: own_def)
  ultimately show ?case by blast
qed

lemma renders_children:
  assumes "\<And>i. i < length (tree_store tree) \<Longrightarrow> findNode (ACategory (category_at (tree_store tree) i)) tree = Inr i"
    and h: "forest (tree_store tree)" and i: "i < length (tree_store tree)" "rooted (tree_store tree) i"
  shows "\<exists>ds. renders tree collapsed (children_at (tree_store tree) i) ds \<and> distinct ds \<and>
    set ds = (\<Union>c \<in> set (children_at (tree_store tree) i). shown (tree_store tree) (set collapsed) c)"
  using h i
proof (induction rule: rooted_induct)
  case (node i)
  show ?case
    by (rule renders_shown [OF assms(1) h siblings_children [OF h node(1,2)]]) (use node(3) in auto)
qed

lemma path_ancestors:
  assumes "ancestor_path h i ps" "forest h" "i < length h"
  shows "set ps = {a. (i, a) \<in> (parent_rel h)\<^sup>+}"
  using assms
proof (induction rule: ancestor_path.induct)
  case (path_root i)
  then have "(i, a) \<notin> (parent_rel h)\<^sup>+" for a by (auto simp: parent_rel_def dest: tranclD)
  then show ?case by simp
next
  case (path_step i p ps)
  then have p: "p < length h" by (auto simp: forest_def)
  have "(i, a) \<in> (parent_rel h)\<^sup>+ \<longleftrightarrow> a = p \<or> (p, a) \<in> (parent_rel h)\<^sup>+" for a
    using path_step(1,5) below_first_step [OF _ path_step(1)]
    by (auto simp: parent_rel_def dest: rtranclD intro: trancl_into_trancl2)
  then show ?case using path_step.IH [OF path_step(4) p] by auto
qed

lemma shown_from_root:
  assumes "forest h" "r < length h" "parent_at h r = None" "d \<in> subtree h r"
  shows "d \<in> shown h collapsed r \<longleftrightarrow> (\<forall>a. (d, a) \<in> (parent_rel h)\<^sup>+ \<longrightarrow> cat_id (category_at h a) \<notin> collapsed)"
proof -
  have "(r, a) \<in> (parent_rel h)\<^sup>* \<Longrightarrow> a = r" for a
    using assms(3) by (auto simp: parent_rel_def elim: converse_rtranclE)
  then have "(d, a) \<in> (parent_rel h)\<^sup>+ \<Longrightarrow> (a, r) \<in> (parent_rel h)\<^sup>*" for a
    using single_valued_confluent [OF single_valued_parent_rel, of d a h r] assms(4)
    by (auto simp: subtree_iff dest: trancl_into_rtrancl)
  then show ?thesis using assms(4) by (auto simp: shown_def subtree_iff)
qed

lemma sorted_findNode:
  assumes "sortCategories all = Inr cs" "distinct (map cat_id all)" "i < length (tree_store (tree_of cs))"
  shows "findNode (ACategory (category_at (tree_store (tree_of cs)) i)) (tree_of cs) = Inr i"
  using sorted_categories(2) [OF assms(1,2)] assms(3) by (simp add: findNode_own)

lemma roots_of_tree: "filter isRoot cs = map (category_at (tree_store (tree_of cs))) (tree_roots (tree_of cs))"
proof -
  have "filter isRoot cs = filter isRoot (map ((!) cs) [0..<length cs])" by (simp add: map_nth)
  also have "\<dots> = map ((!) cs) (filter (\<lambda>i. isRoot (cs ! i)) [0..<length cs])"
    by (simp add: filter_map comp_def)
  also have "\<dots> = map (category_at (tree_store (tree_of cs))) (tree_roots (tree_of cs))"
    by (simp add: tree_of_def category_at_def linked_store_def)
  finally show ?thesis .
qed

lemma rows_of_sorted:
  assumes s: "sortCategories all = Inr cs" and d: "distinct (map cat_id all)"
  shows "\<exists>rows. render_categories (tree_of cs) collapsed (filter isRoot cs) = Some (Inr rows) \<and>
    distinct (map fst rows) \<and>
    set (map fst rows) = {c \<in> set cs. \<exists>ps. getAncestors (ACategory c) (tree_of cs) = Inr ps \<and>
      list_all (\<lambda>a. cat_id (category_at (tree_store (tree_of cs)) a) \<notin> set collapsed) ps}"
proof -
  let ?h = "tree_store (tree_of cs)"
  have tree: "makeCategoryTree cs = Inr (tree_of cs)" and dist: "distinct (map cat_id cs)"
    and rooted: "\<And>i. i < length cs \<Longrightarrow> rooted ?h i"
    using sorted_categories [OF s d] by auto
  have h: "forest ?h" by (rule forest_tree_of)
  have roots: "siblings ?h None (tree_roots (tree_of cs))"
      "set (tree_roots (tree_of cs)) = {r. r < length cs \<and> parent_at ?h r = None}"
    using tree_roots_siblings [OF tree] by simp_all
  have kids: "\<exists>ds. renders (tree_of cs) collapsed (children_at ?h i) ds \<and> distinct ds \<and>
      set ds = (\<Union>c \<in> set (children_at ?h i). shown ?h (set collapsed) c)" if "i < length cs" for i
    using renders_children [OF sorted_findNode [OF s d] h] rooted that by simp
  obtain ns where ns: "renders (tree_of cs) collapsed (tree_roots (tree_of cs)) ns" "distinct ns"
      "set ns = (\<Union>c \<in> set (tree_roots (tree_of cs)). shown ?h (set collapsed) c)"
    using renders_shown [OF sorted_findNode [OF s d] h roots(1), of collapsed] kids roots(2) by auto
  have visible: "d \<in> set ns \<longleftrightarrow> d < length cs \<and>
      (\<forall>a. (d, a) \<in> (parent_rel ?h)\<^sup>+ \<longrightarrow> cat_id (category_at ?h a) \<notin> set collapsed)" for d
  proof
    assume "d \<in> set ns"
    then obtain r where r: "r < length cs" "parent_at ?h r = None" "d \<in> shown ?h (set collapsed) r"
      using ns(3) roots(2) by auto
    moreover have "d < length cs"
    proof -
      have "(d, r) \<in> (parent_rel ?h)\<^sup>*" using r(3) by (simp add: shown_def)
      then show ?thesis using r(1) parent_relD [of d _ ?h] by (cases rule: converse_rtranclE) auto
    qed
    ultimately show "d < length cs \<and>
        (\<forall>a. (d, a) \<in> (parent_rel ?h)\<^sup>+ \<longrightarrow> cat_id (category_at ?h a) \<notin> set collapsed)"
      using shown_from_root [OF h, of r d] shown_subtree [of ?h "set collapsed" r] by auto
  next
    assume v: "d < length cs \<and> (\<forall>a. (d, a) \<in> (parent_rel ?h)\<^sup>+ \<longrightarrow> cat_id (category_at ?h a) \<notin> set collapsed)"
    then obtain r where "r < length cs" "parent_at ?h r = None" "d \<in> subtree ?h r"
      using subtree_root [OF h, of d] rooted [of d] by auto
    then show "d \<in> set ns" using v shown_from_root [OF h, of r d] ns(3) roots(2) by auto
  qed
  obtain rows where rows: "render_categories (tree_of cs) collapsed (filter isRoot cs) = Some (Inr rows)"
      "map fst rows = map (category_at ?h) ns"
    using ns(1) by (auto simp: renders_def roots_of_tree)
  have nth: "map (category_at ?h) ns = map ((!) cs) ns" using visible by auto
  have below: "list_all P ps \<longleftrightarrow> (\<forall>a. (i, a) \<in> (parent_rel ?h)\<^sup>+ \<longrightarrow> P a)"
    if "getAncestors (ACategory (cs ! i)) (tree_of cs) = Inr ps" "i < length cs" for i ps P
    using that getAncestors_lemma(1) [OF findNode_own [OF dist that(2)]] path_ancestors [OF _ h, of i ps]
    by (auto simp: list_all_iff)
  have anc: "\<exists>ps. getAncestors (ACategory (cs ! i)) (tree_of cs) = Inr ps" if "i < length cs" for i
    using rooted [OF that] getAncestors_lemma(1) [OF findNode_own [OF dist that]] by (auto simp: rooted_def)
  have "distinct (map fst rows)"
  proof -
    have "distinct cs" using dist by (simp add: distinct_map)
    then have "inj_on ((!) cs) (set ns)" using visible by (auto simp: inj_on_def nth_eq_iff_index_eq)
    then show ?thesis using ns(2) by (simp add: rows(2) nth distinct_map)
  qed
  moreover define Q where "Q c \<longleftrightarrow> (\<exists>ps. getAncestors (ACategory c) (tree_of cs) = Inr ps \<and>
      list_all (\<lambda>a. cat_id (category_at ?h a) \<notin> set collapsed) ps)" for c
  have "c \<in> set (map fst rows) \<longleftrightarrow> Q c" if "c \<in> set cs" for c
  proof -
    obtain i where i: "i < length cs" "c = cs ! i" using \<open>c \<in> set cs\<close> by (auto simp: in_set_conv_nth)
    have "cs ! i \<in> set (map fst rows) \<longleftrightarrow> i \<in> set ns"
      using visible i(1) dist by (auto simp: rows(2) nth distinct_map nth_eq_iff_index_eq)
    then show ?thesis using visible [of i] i anc [OF i(1)] below [OF _ i(1)] by (auto simp: Q_def)
  qed
  moreover have "set (map fst rows) \<subseteq> set cs" using visible by (auto simp: rows(2) nth)
  ultimately have "distinct (map fst rows) \<and> set (map fst rows) = {c \<in> set cs. Q c}" by blast
  then show ?thesis using rows(1) by (auto simp only: Q_def)
qed


definition sample_categories_page :: categories_page where
  "sample_categories_page =
     \<lparr>cp_categories = [\<lparr>pbc_id = 1, pbc_name = ''Food'', pbc_displayOrder = 0, pbc_parentCategoryId = None\<rparr>,
        \<lparr>pbc_id = 2, pbc_name = ''Groceries'', pbc_displayOrder = 0, pbc_parentCategoryId = Some 1\<rparr>],
      cp_collapsed = [1]\<rparr>"

lemma sample_categories_sorted:
  "page_categories sample_categories_page = Inr (map categoryModelFromDB (cp_categories sample_categories_page))"
  by code_simp


lemma sample_rows: "map_sum id (map fst) (rows_on_screen sample_categories_page) =
    Inr [\<lparr>cat_id = 1, cat_name = ''Food'', cat_displayOrder = 0, cat_parentCategoryId = None\<rparr>]"
  by code_simp

text \<open>Every option of the parent selector and of the excluded categories gets its name.\<close>

lemma category_options:
  assumes "sortCategories all = Inr cs" "distinct (map cat_id all)"
  shows "\<exists>opts. parent_options cs = Inr opts \<and> map fst opts = map cat_id cs"
proof -
  have name: "\<exists>s. getNameWithAncestors (ACategory c) (tree_of cs) = Inr s" if c: "c \<in> set cs" for c
  proof -
    obtain i where i: "i < length cs" "c = cs ! i" using c by (auto simp: in_set_conv_nth)
    then have f: "findNode (ACategory c) (tree_of cs) = Inr i"
      using findNode_own sorted_categories(2) [OF assms] by simp
    obtain ps where "getAncestors (ACategory c) (tree_of cs) = Inr ps"
      using sorted_categories(3) [OF assms i(1)] getAncestors_lemma(1) [OF f] by (auto simp: rooted_def)
    then show ?thesis using f by (simp add: getNameWithAncestors_def)
  qed
  have "(\<forall>x \<in> set xs. \<exists>y. f x = Inr y) \<Longrightarrow>
      \<exists>ys. map_result (\<lambda>x. map_sum id (Pair (g x)) (f x)) xs = Inr ys \<and> map fst ys = map g xs"
    for f :: "category \<Rightarrow> string result" and g :: "category \<Rightarrow> int" and xs
    by (induction xs) (auto simp: result_simps)
  then show ?thesis
    using name sorted_categories(1) [OF assms] by (simp add: parent_options_def)
qed

text \<open>
  The parent selector offers the category itself. A category saved as its own parent is its own
  ancestor, and the page no longer lists it, nor anything under it.
\<close>

lemma own_parent_disappears:
  assumes "sortCategories all = Inr cs" "distinct (map cat_id all)"
    and "c \<in> set all" "parent_id c = Some (cat_id c)"
  shows "c \<notin> set cs"
proof
  assume "c \<in> set cs"
  then obtain i where i: "i < length cs" "c = cs ! i" by (auto simp: in_set_conv_nth)
  have "parent_index cs i = Some i"
    using parent_index_distinct [OF sorted_categories(2) [OF assms(1,2)] i(1) i(1)] assms(4) i(2) by simp
  then have "(i, i) \<in> (parent_rel (tree_store (tree_of cs)))\<^sup>+" using i(1) by (auto simp: parent_rel_def)
  moreover obtain ps where "ancestor_path (tree_store (tree_of cs)) i ps"
    using sorted_categories(3) [OF assms(1,2) i(1)] by (auto simp: rooted_def)
  ultimately show False using rooted_acyclic by (auto simp: below_def)
qed

definition self_parent_edit :: "pb_category list \<times> pb_category submitted" where
  "self_parent_edit =
     submit_category (\<lambda>_. []) (Some ''s'') (\<lambda>c. Some (pbc_id c))
       (Some \<lparr>cat_id = 1, cat_name = ''Food'', cat_displayOrder = 0, cat_parentCategoryId = None\<rparr>)
       (choose_parent ''1''
         (category_form_values (Some \<lparr>cat_id = 1, cat_name = ''Food'', cat_displayOrder = 0,
            cat_parentCategoryId = None\<rparr>) []))"

lemma own_parent_accepted:
  "case snd self_parent_edit of
     Done x \<Rightarrow> rows_on_screen (category_saved x sample_categories_page) = Inr []
   | _ \<Rightarrow> False"
  by code_simp

section \<open>Display settings stay valid\<close>

lemma schema_display_settings:
  "displaySettingsFormValidationSchema f = [] \<longleftrightarrow>
     findByCode (pds_displayCurrencyCode f) \<noteq> None \<and> list_all (\<lambda>i. i > 0) (pds_excludeCategoryIdsInStats f)"
proof -
  have "(\<forall>k i. (k, i) \<in> set (enumerate (0 :: nat) xs) \<longrightarrow> i > 0) \<longleftrightarrow> list_all (\<lambda>i. i > 0) xs" for xs :: "int list"
  proof -
    have "list_all (\<lambda>i. i > 0) (map snd (enumerate (0 :: nat) xs)) \<longleftrightarrow> list_all (\<lambda>i. i > 0) xs" by simp
    then show ?thesis by (auto simp: list_all_iff simp del: map_snd_enumerate)
  qed
  then show ?thesis by (auto simp: displaySettingsFormValidationSchema_def split: if_splits prod.splits)
qed

definition valid_display_settings :: "pb_category list \<Rightarrow> pb_display_settings \<Rightarrow> bool" where
  "valid_display_settings categories s \<longleftrightarrow>
     findByCode (pds_displayCurrencyCode s) \<noteq> None \<and>
     list_all (\<lambda>i. i > 0 \<and> i \<in> pbc_id ` set categories) (pds_excludeCategoryIdsInStats s)"

text \<open>
  Saving the display settings sends them exactly when the currency is one of the program's and
  every excluded category exists; otherwise nothing is sent and the form gets an error. Settings
  that were sent can always be read back by \<open>DisplaySettings\<close>.
\<close>
theorem display_settings_saved_valid:
  "if valid_display_settings (cd_categories core) s
   then updateDisplaySettings message (Some session) (Some core) rpc s =
       ([s], if rpc s then Inr (Saved s) else Inl BackendFailed) \<and>
     (\<exists>d. mk_DisplaySettings s = Inr d \<and> cur_code (ds_displayCurrency d) = pds_displayCurrencyCode s \<and>
        ds_excludeCategoryIdsInStats d = pds_excludeCategoryIdsInStats s)
   else \<exists>errors. updateDisplaySettings message (Some session) (Some core) rpc s = ([], Inr (ClientError errors))"
proof (cases "valid_display_settings (cd_categories core) s")
  case True
  then obtain c where c: "findByCode (pds_displayCurrencyCode s) = Some c"
    and ids: "list_all (\<lambda>i. i > 0 \<and> i \<in> pbc_id ` set (cd_categories core)) (pds_excludeCategoryIdsInStats s)"
    by (auto simp: valid_display_settings_def)
  have "filter (\<lambda>i. i \<notin> pbc_id ` set (cd_categories core)) (pds_excludeCategoryIdsInStats s) = []"
    using ids by (auto simp: list_all_iff filter_empty_conv)
  moreover have "displaySettingsFormValidationSchema s = []"
    using c ids by (simp add: schema_display_settings list_all_iff)
  moreover have "rpc \<lparr>pds_displayCurrencyCode = pds_displayCurrencyCode s,
      pds_excludeCategoryIdsInStats = pds_excludeCategoryIdsInStats s\<rparr> = rpc s" by (cases s) simp
  ultimately show ?thesis
    using True c by (simp add: updateDisplaySettings_def parse_display_settings_def mk_DisplaySettings_def
        mustFindByCode_def findByCode_Some Let_def)
next
  case False
  show ?thesis
  proof (cases "displaySettingsFormValidationSchema s = []")
    case True
    then have "\<exists>i \<in> set (pds_excludeCategoryIdsInStats s). i \<notin> pbc_id ` set (cd_categories core)"
      using False by (auto simp: valid_display_settings_def schema_display_settings list_all_iff)
    then have "filter (\<lambda>i. i \<notin> pbc_id ` set (cd_categories core)) (pds_excludeCategoryIdsInStats s) \<noteq> []"
      by (auto simp: filter_empty_conv)
    then show ?thesis
      using True False by (auto simp: updateDisplaySettings_def parse_display_settings_def schema_display_settings)
  next
    case s: False
    then show ?thesis using False by (simp add: updateDisplaySettings_def parse_display_settings_def Let_def)
  qed
qed

lemma multi_select_distinct: "distinct value \<Longrightarrow> distinct (multi_select x value)"
  by (auto simp: multi_select_def)

lemma multi_select_twice: "x \<notin> set value \<Longrightarrow> multi_select x (multi_select x value) = value"
  by (auto simp: multi_select_def filter_id_conv)

section \<open>The mapping page\<close>

text \<open>
  An external account without a stored mapping starts with the identifier -1, for which the select
  shows its first option, \<open>None\<close>. Submitting the page as it opened sends nothing to the backend:
  the route refuses the request, the page reports success and its next render throws.
\<close>

lemma untouched_mapping_refused:
  assumes "e \<in> set externalAccounts" "ext_externalId e \<notin> mapping_external ` set stored"
  shows "submit_mapping session setMappings listMappings bankId (open_mapping_page stored externalAccounts) =
      ([], (open_mapping_page stored externalAccounts)\<lparr>mp_stored := ErrorJson, mp_statusMessage := ''Success!'',
        mp_apiError := None\<rparr>)"
proof -
  define m where "m = mp_mapping (open_mapping_page stored externalAccounts)"
  have initial: "jm_get (initial_mapping stored) (ext_externalId e) = None"
    using assms(2) by (force simp: initial_mapping_def jm_get_index find_None_iff)
  have "jm_get m (ext_externalId e) = Some (- 1)"
  proof -
    obtain e' where e': "find (\<lambda>x. ext_externalId x = ext_externalId e) (rev externalAccounts) = Some e'"
      using find_key_total [of ext_externalId "ext_externalId e" "rev externalAccounts"] assms(1) by auto
    then have "ext_externalId e' = ext_externalId e" by (auto dest: find_eq_key_Some)
    then show ?thesis using e' initial by (simp add: m_def open_mapping_page_def jm_get_index)
  qed
  then have "(ext_externalId e, - 1) \<in> set m"
    by (simp add: jm_entry_iff m_def open_mapping_page_def)
  then have "\<not> mapping_request_is_valid bankId (map (\<lambda>(ext, i). \<lparr>mapping_internal = i, mapping_external = ext\<rparr>) m)"
    by (fastforce simp: mapping_request_is_valid_def list_all_iff)
  then show ?thesis by (simp add: submit_mapping_def post_mapping_def m_def)
qed

lemma mapping_page_broken:
  "mp_stored p = ErrorJson \<Longrightarrow> render_mapping_page accountModels stockModels externalAccounts p = Inl UndefinedProperty"
  by (simp add: render_mapping_page_def)

end
