(* ===== verification/Overview.thy ===== *)
theory Overview
  imports Lists Balances Search ConfigPages
begin

text \<open>
  The pages that show balances: the overview (\<open>app/(authenticated)/overview/*\<close>), the page of a bank
  (\<open>bank/[bankId]/[name]/*\<close>) and the page of an account (\<open>account/[accountId]/[name]/*\<close>), with the
  data they read from \<open>lib/openbanking/context.tsx\<close> and \<open>CurrentBalancesContext.tsx\<close>. A component is a
  function from the contexts to the value it shows; \<open>None\<close> where it renders nothing, \<open>Inl\<close> where it throws.
\<close>

section \<open>What the pages read\<close>

record account_fetch_metadata =
  afm_internalAccountId :: int
  afm_lastSyncSuccessAt :: "timestamp option"
  afm_balanceNanos :: "int option"
  afm_lastSyncError :: string

definition metadataByAccount :: "account_fetch_metadata list \<Rightarrow> (int, account_fetch_metadata) js_map" where
  "metadataByAccount accounts = jm_of_entries (map (\<lambda>a. (afm_internalAccountId a, a)) accounts)"

text \<open>
  The parameters are functions of date-fns (\<open>differenceInDays\<close>, \<open>subDays\<close>, \<open>subMonths\<close>, \<open>subYears\<close>, \<open>format\<close>),
  \<open>toFixed\<close> and the formatters of \<open>Intl\<close>.
\<close>

record overview_env =
  oe_cx :: stats_context
  oe_banks :: "bank list"
  oe_metadata :: "(int, account_fetch_metadata) js_map"
  oe_expirations :: "connection_expiration list"
  oe_balances :: account_balances_snapshot
  oe_now :: rat
  oe_hidden :: bool
  oe_differenceInDays :: "rat \<Rightarrow> rat \<Rightarrow> int"
  oe_subDays :: "rat \<Rightarrow> nat \<Rightarrow> rat"
  oe_subMonths :: "rat \<Rightarrow> nat \<Rightarrow> rat"
  oe_subYears :: "rat \<Rightarrow> nat \<Rightarrow> rat"
  oe_format :: "string \<Rightarrow> rat \<Rightarrow> string option"
  oe_toFixed2 :: "rat \<Rightarrow> string"
  oe_intlCurrency :: "string option \<Rightarrow> string \<Rightarrow> nat \<Rightarrow> rat \<Rightarrow> string"
  oe_intl :: "nat \<Rightarrow> rat \<Rightarrow> string"

definition oe_currency :: "overview_env \<Rightarrow> currency" where
  "oe_currency env = sc_displayCurrency (oe_cx env)"

definition oe_sum :: "overview_env \<Rightarrow> account_balances_snapshot \<Rightarrow> bank_account list \<Rightarrow> amount_with_currency option result" where
  "oe_sum env snap accounts =
     snapshot_sum (sc_closestTo (oe_cx env)) snap accounts (oe_currency env) (sc_exchange (oe_cx env))"

definition oe_exchange :: "overview_env \<Rightarrow> amount_with_unit \<Rightarrow> currency \<Rightarrow> amount_with_currency option result" where
  "oe_exchange env a target = exchange (sc_closestTo (oe_cx env)) (sc_exchange (oe_cx env)) a target (oe_now env)"

definition oe_show :: "overview_env \<Rightarrow> amount_with_currency \<Rightarrow> string" where
  "oe_show env a = formatCurrency (oe_intlCurrency env) (awc_currency a) a"

definition oe_show_unit :: "overview_env \<Rightarrow> amount_with_unit \<Rightarrow> string" where
  "oe_show_unit env a = awu_format (oe_intlCurrency env) (oe_intl env) a"

section \<open>Hidden balances\<close>

text \<open>\<open>MaybeHiddenDiv\<close>: a text that is shown, or one inside a \<open>Spoiler\<close> that a click reveals.\<close>

datatype 'a maybe_hidden = Visible 'a | InSpoiler 'a

definition MaybeHiddenDiv :: "bool \<Rightarrow> 'a \<Rightarrow> 'a maybe_hidden" where
  "MaybeHiddenDiv hidden content = (if \<not> hidden then Visible content else InSpoiler content)"

fun readable :: "bool \<Rightarrow> 'a maybe_hidden \<Rightarrow> 'a option" where
  "readable revealed (Visible content) = Some content"
| "readable revealed (InSpoiler content) = (if revealed then Some content else None)"

definition spoiler_click :: "bool \<Rightarrow> bool" where
  "spoiler_click revealed = (\<not> revealed)"

text \<open>The cookie that keeps the choice: its value and when it expires, in seconds.\<close>

definition HIDE_BALANCES_COOKIE_MAX_AGE :: int where
  "HIDE_BALANCES_COOKIE_MAX_AGE = 60 * 60 * 24 * 30"

definition updateStateAndSetCookie :: "int \<Rightarrow> bool \<Rightarrow> bool \<times> (string \<times> int)" where
  "updateStateAndSetCookie now newValue =
     (newValue, (if newValue then ''true'' else ''false'', now + HIDE_BALANCES_COOKIE_MAX_AGE))"

definition shouldHideBalances :: "int \<Rightarrow> (string \<times> int) option \<Rightarrow> bool" where
  "shouldHideBalances now c = (case c of None \<Rightarrow> False | Some (v, expires) \<Rightarrow> now < expires \<and> v = ''true'')"

record hide_state =
  hs_now :: int
  hs_cookie :: "(string \<times> int) option"
  hs_page :: "bool option"

datatype hide_event = OpenOverview | CloseOverview | ToggleHideBalances | SecondsPass nat

fun hide_step :: "hide_event \<Rightarrow> hide_state \<Rightarrow> hide_state" where
  "hide_step OpenOverview st = st\<lparr>hs_page := Some (shouldHideBalances (hs_now st) (hs_cookie st))\<rparr>"
| "hide_step CloseOverview st = st\<lparr>hs_page := None\<rparr>"
| "hide_step ToggleHideBalances st =
     (case hs_page st of
        None \<Rightarrow> st
      | Some hidden \<Rightarrow>
        let (new, c) = updateStateAndSetCookie (hs_now st) (\<not> hidden)
        in st\<lparr>hs_page := Some new, hs_cookie := Some c\<rparr>)"
| "hide_step (SecondsPass n) st = st\<lparr>hs_now := hs_now st + int n\<rparr>"

definition hide_run :: "hide_event list \<Rightarrow> hide_state \<Rightarrow> hide_state" where
  "hide_run events st = foldl (\<lambda>st e. hide_step e st) st events"

section \<open>Changes of an amount\<close>

datatype signed_delta =
    Flat string
  | Changed bool "string maybe_hidden" string "string maybe_hidden option"

definition SignedDelta ::
  "overview_env \<Rightarrow> amount_with_currency \<Rightarrow> string \<Rightarrow> amount_with_currency option \<Rightarrow> signed_delta" where
  "SignedDelta env d label base =
     (if isZero d then Flat label
      else
        let sign = (if isPositive d then ''+'' else ''-'');
            percent = (case base of
              None \<Rightarrow> None
            | Some b \<Rightarrow>
              if isZero b then None
              else Some (n_mul (n_div (dollar (awc_abs d)) (dollar (awc_abs b))) 100))
        in Changed (isPositive d)
             (MaybeHiddenDiv (oe_hidden env) (sign @ oe_show env (awc_round (awc_abs d)))) label
             (map_option (\<lambda>p. MaybeHiddenDiv (oe_hidden env) (sign @ oe_toFixed2 env p @ ''%'')) percent))"

section \<open>The balance of an account\<close>

datatype sync_status = Matched | OffBy string

definition useSyncStatus :: "overview_env \<Rightarrow> bank_account \<Rightarrow> sync_status option result" where
  "useSyncStatus env account =
     (case Option.bind (jm_get (oe_metadata env) (acc_id account)) afm_balanceNanos of
        None \<Rightarrow> Inr None
      | Some remoteNanos \<Rightarrow>
        bind_result (accountUnit account (sc_stocks (oe_cx env))) (\<lambda>u.
        bind_result (snapshot_of (oe_balances env) account) (\<lambda>localBalance.
        bind_result (awu_subtract localBalance (mk_awu remoteNanos u)) (\<lambda>d.
          Inr (Some (if isZero (awu_amount d) then Matched else OffBy (oe_show_unit env (awu_abs d))))))))"

definition StockHolding :: "overview_env \<Rightarrow> stock \<Rightarrow> bank_account \<Rightarrow> string result" where
  "StockHolding env s account =
     bind_result (snapshot_of (oe_balances env) account) (\<lambda>balance.
     bind_result (mustFindByCode (stock_currencyCode s)) (\<lambda>c.
     bind_result (exchangeStock (sc_closestTo (oe_cx env)) (sc_exchange (oe_cx env)) (fromDollar 1) s c (oe_now env))
       (\<lambda>price.
         Inr (amount_format (oe_intl env) (awu_amount balance) @ '' sh'' @
           (case price of Some p \<Rightarrow> '' @ '' @ oe_show env p | None \<Rightarrow> [])))))"

datatype subtitle = Holding string | Sync sync_status

definition AccountSubtitle :: "overview_env \<Rightarrow> bank_account \<Rightarrow> subtitle option result" where
  "AccountSubtitle env account =
     bind_result (accountUnit account (sc_stocks (oe_cx env))) (\<lambda>u.
     bind_result (useSyncStatus env account) (\<lambda>sync.
       case u of
         UnitStock s \<Rightarrow> bind_result (StockHolding env s account) (\<lambda>text. Inr (Some (Holding text)))
       | UnitCurrency _ \<Rightarrow> Inr (map_option Sync sync)))"

text \<open>The balance in the account's currency and, when it differs, in the display currency.\<close>

definition nativeCurrency :: "unit_of_account \<Rightarrow> currency result" where
  "nativeCurrency u =
     (case u of UnitStock s \<Rightarrow> mustFindByCode (stock_currencyCode s) | UnitCurrency c \<Rightarrow> Inr c)"

definition AccountBalance ::
  "overview_env \<Rightarrow> bank_account \<Rightarrow> (string maybe_hidden \<times> string maybe_hidden option) result" where
  "AccountBalance env account =
     bind_result (accountUnit account (sc_stocks (oe_cx env))) (\<lambda>u.
     bind_result (nativeCurrency u) (\<lambda>native.
     bind_result (snapshot_of (oe_balances env) account) (\<lambda>balance.
     bind_result (oe_exchange env balance native) (\<lambda>nativeBalance.
     bind_result
       (case nativeBalance of
          Some b \<Rightarrow>
            if cur_code native \<noteq> cur_code (oe_currency env) \<and> \<not> isZero b
            then oe_exchange env balance (oe_currency env) else Inr None
        | None \<Rightarrow> Inr None) (\<lambda>displayBalance.
       Inr (MaybeHiddenDiv (oe_hidden env)
              (case nativeBalance of Some b \<Rightarrow> oe_show env b | None \<Rightarrow> oe_show_unit env balance),
            map_option (\<lambda>b. MaybeHiddenDiv (oe_hidden env) (oe_show env b)) displayBalance))))))"

record account_item =
  ai_url :: string
  ai_name :: string
  ai_joint :: bool
  ai_subtitle :: "subtitle option"
  ai_balance :: "string maybe_hidden"
  ai_displayBalance :: "string maybe_hidden option"

definition BankAccountListItem :: "overview_env \<Rightarrow> bank \<Rightarrow> bank_account \<Rightarrow> account_item result" where
  "BankAccountListItem env b account =
     bind_result (accountPageURL account b) (\<lambda>url.
     bind_result (AccountSubtitle env account) (\<lambda>sub.
     bind_result (AccountBalance env account) (\<lambda>(balance, displayBalance).
       Inr \<lparr>ai_url = url, ai_name = acc_name account, ai_joint = acc_joint account, ai_subtitle = sub,
         ai_balance = balance, ai_displayBalance = displayBalance\<rparr>)))"

section \<open>A bank on the overview\<close>

definition accountCountLabel :: "nat \<Rightarrow> string" where
  "accountCountLabel n = nat_digits n @ '' '' @ (if n = 1 then ''account'' else ''accounts'')"

definition BankBalance :: "overview_env \<Rightarrow> amount_with_currency option \<Rightarrow> string maybe_hidden option" where
  "BankBalance env a = map_option (\<lambda>x. MaybeHiddenDiv (oe_hidden env) (oe_show env (awc_round x))) a"

definition BankChange30d :: "overview_env \<Rightarrow> bank_account list \<Rightarrow> signed_delta option result" where
  "BankChange30d env accounts =
     bind_result (balancesAsOf (sc_transactions (oe_cx env)) (sc_stocks (oe_cx env)) (oe_subDays env (oe_now env) 30))
       (\<lambda>snap.
     bind_result (oe_sum env snap accounts) (\<lambda>before.
     bind_result (oe_sum env (oe_balances env) accounts) (\<lambda>after.
       case (before, after) of
         (Some b, Some a) \<Rightarrow> bind_result (awc_subtract a b) (\<lambda>d. Inr (Some (SignedDelta env d ''30d'' None)))
       | _ \<Rightarrow> Inr None)))"

definition expiration_text :: "int \<Rightarrow> string" where
  "expiration_text expiresInDays =
     (let dayOrDays = (if \<bar>expiresInDays\<bar> = 1 then ''day'' else ''days'')
      in if \<bar>expiresInDays\<bar> < 1 then ''OpenBanking connection has expired today.''
         else if expiresInDays < 0
         then ''OpenBanking connection has expired '' @ string_of_int (- expiresInDays) @ '' '' @ dayOrDays @ '' ago.''
         else ''OpenBanking connection expires in '' @ string_of_int expiresInDays @ '' '' @ dayOrDays @ ''.'')"

definition OpenBankingConnectionExpirationWarning :: "overview_env \<Rightarrow> bank \<Rightarrow> string option result" where
  "OpenBankingConnectionExpirationWarning env b =
     (case find (\<lambda>e. ce_bankId e = bank_id b) (oe_expirations env) of
        None \<Rightarrow> Inr None
      | Some e \<Rightarrow>
        bind_result (timestampToEpoch (ce_expiresAt e)) (\<lambda>expiresAt.
          let expiresInDays = oe_differenceInDays env expiresAt (oe_now env)
          in Inr (if expiresInDays > 7 then None else Some (expiration_text expiresInDays))))"

record bank_item =
  bi_initial :: string
  bi_name :: string
  bi_url :: string
  bi_count :: string
  bi_total :: "string maybe_hidden option"
  bi_change :: "signed_delta option"
  bi_warning :: "string option"
  bi_accounts :: "account_item list"

definition BanksListItem :: "overview_env \<Rightarrow> bank \<Rightarrow> bank_item result" where
  "BanksListItem env b =
     (let accounts = accountsForBank b (sc_bankAccounts (oe_cx env));
          activeAccounts = filter (\<lambda>a. \<not> acc_archived a) accounts
      in bind_result (oe_sum env (oe_balances env) accounts) (\<lambda>bankTotal.
         bind_result (BankChange30d env accounts) (\<lambda>change.
         bind_result (OpenBankingConnectionExpirationWarning env b) (\<lambda>warning.
         bind_result (map_result (BankAccountListItem env b) activeAccounts) (\<lambda>items.
           Inr \<lparr>bi_initial = map to_upper_char (take 1 (bank_name b)), bi_name = bank_name b, bi_url = bankPageURL b,
             bi_count = accountCountLabel (length activeAccounts), bi_total = BankBalance env bankTotal,
             bi_change = change, bi_warning = warning, bi_accounts = items\<rparr>)))))"

section \<open>Net worth\<close>

definition NET_WORTH_SAMPLE_COUNT :: int where
  "NET_WORTH_SAMPLE_COUNT = 192"

datatype range = Range_1M | Range_3M | Range_6M | Range_1Y | Range_ALL

definition RANGES :: "range list" where
  "RANGES = [Range_1M, Range_3M, Range_6M, Range_1Y, Range_ALL]"

fun RANGE_LABELS :: "range \<Rightarrow> string" where
  "RANGE_LABELS Range_1M = ''1 month''"
| "RANGE_LABELS Range_3M = ''3 months''"
| "RANGE_LABELS Range_6M = ''6 months''"
| "RANGE_LABELS Range_1Y = ''1 year''"
| "RANGE_LABELS Range_ALL = ''all time''"

definition earliest_of :: "rat \<Rightarrow> transaction list \<Rightarrow> rat" where
  "earliest_of now transactions =
     foldl (\<lambda>earliest t. if tx_timestampEpoch t < earliest then tx_timestampEpoch t else earliest) now transactions"

fun rangeStart :: "overview_env \<Rightarrow> range \<Rightarrow> rat" where
  "rangeStart env Range_1M = oe_subMonths env (oe_now env) 1"
| "rangeStart env Range_3M = oe_subMonths env (oe_now env) 3"
| "rangeStart env Range_6M = oe_subMonths env (oe_now env) 6"
| "rangeStart env Range_1Y = oe_subYears env (oe_now env) 1"
| "rangeStart env Range_ALL = earliest_of (oe_now env) (sc_transactions (oe_cx env))"

definition NetWorthChange :: "overview_env \<Rightarrow> range \<Rightarrow> (rat \<times> amount_with_currency) list \<Rightarrow> signed_delta result" where
  "NetWorthChange env r timeline =
     (let first = snd (hd timeline); lst = snd (last timeline)
      in bind_result (awc_subtract lst first) (\<lambda>d. Inr (SignedDelta env d (RANGE_LABELS r) (Some first))))"

definition NetWorthEndpoints ::
  "overview_env \<Rightarrow> (rat \<times> amount_with_currency) list \<Rightarrow> (string \<times> string maybe_hidden \<times> string maybe_hidden) result" where
  "NetWorthEndpoints env timeline =
     bind_result (or_throw (oe_format env (''MMM '' @ [CHR 0x27, CHR 0x27] @ ''yy'') (fst (hd timeline))) InvalidDate)
       (\<lambda>date.
         Inr (date, MaybeHiddenDiv (oe_hidden env) (oe_show env (awc_round (snd (hd timeline)))),
           MaybeHiddenDiv (oe_hidden env) (oe_show env (awc_round (snd (last timeline))))))"

record net_worth_view =
  nw_total :: "(string \<times> string) maybe_hidden"
  nw_chart :: "(signed_delta \<times> (rat \<times> amount_with_currency) list \<times> string \<times> string maybe_hidden \<times> string maybe_hidden) option"

definition NetWorthHero :: "overview_env \<Rightarrow> range \<Rightarrow> net_worth_view option result" where
  "NetWorthHero env r =
     (let cx = oe_cx env
      in bind_result (oe_sum env (oe_balances env) (sc_bankAccounts cx)) (\<lambda>total'.
        case total' of
          None \<Rightarrow> Inr None
        | Some amount \<Rightarrow>
          bind_result (netWorthTimeline (sc_closestTo cx) (sc_bankAccounts cx) (oe_currency env) (sc_exchange cx)
              (sc_transactions cx) (sc_stocks cx) (rangeStart env r) (oe_now env) NET_WORTH_SAMPLE_COUNT) (\<lambda>timeline.
            let shown = MaybeHiddenDiv (oe_hidden env) (splitAmount (oe_show env amount))
            in if length timeline \<ge> 2
               then bind_result (NetWorthChange env r timeline) (\<lambda>change.
                 bind_result (NetWorthEndpoints env timeline) (\<lambda>(date, first, lst).
                   Inr (Some \<lparr>nw_total = shown, nw_chart = Some (change, timeline, date, first, lst)\<rparr>)))
               else Inr (Some \<lparr>nw_total = shown, nw_chart = None\<rparr>))))"

definition RECENT_WINDOW_DAYS :: int where
  "RECENT_WINDOW_DAYS = 7"

definition recent_transactions :: "overview_env \<Rightarrow> transaction list" where
  "recent_transactions env =
     js_sort (\<lambda>a b. n_sub (tx_timestampEpoch b) (tx_timestampEpoch a))
       (filter (\<lambda>t. oe_differenceInDays env (oe_now env) (tx_timestampEpoch t) \<le> RECENT_WINDOW_DAYS)
         (sc_transactions (oe_cx env)))"

text \<open>The whole page; \<open>None\<close> asks the user to configure accounts and categories first.\<close>

definition isFullyConfigured :: "overview_env \<Rightarrow> bool" where
  "isFullyConfigured env \<longleftrightarrow> sc_categories (oe_cx env) \<noteq> [] \<and> sc_bankAccounts (oe_cx env) \<noteq> []"

record overview_view =
  ov_netWorth :: "net_worth_view option"
  ov_banks :: "bank_item list"
  ov_recent :: "transaction list"

definition OverviewPage :: "overview_env \<Rightarrow> range \<Rightarrow> overview_view option result" where
  "OverviewPage env r =
     (if \<not> isFullyConfigured env then Inr None
      else bind_result (NetWorthHero env r) (\<lambda>hero.
        bind_result (map_result (BanksListItem env) (oe_banks env)) (\<lambda>banks.
          Inr (Some \<lparr>ov_netWorth = hero, ov_banks = banks, ov_recent = recent_transactions env\<rparr>))))"

section \<open>The page of a bank\<close>

record bank_page =
  bkp_name :: string
  bkp_total :: "string option"
  bkp_accounts :: "account_item list"

definition BankAccountsCard :: "overview_env \<Rightarrow> bank \<Rightarrow> account_item list result" where
  "BankAccountsCard env b =
     map_result (BankAccountListItem env b)
       (filter (\<lambda>a. \<not> acc_archived a) (accountsForBank b (sc_bankAccounts (oe_cx env))))"

definition BankPage :: "overview_env \<Rightarrow> int \<Rightarrow> bank_page option result" where
  "BankPage env bankId =
     (if \<not> isFullyConfigured env then Inr None
      else bind_result (or_throw (find (\<lambda>b. bank_id b = bankId) (oe_banks env)) NotFoundPage) (\<lambda>b.
        bind_result (oe_sum env (oe_balances env) (accountsForBank b (sc_bankAccounts (oe_cx env)))) (\<lambda>bankTotal.
        bind_result (BankAccountsCard env b) (\<lambda>items.
          Inr (Some \<lparr>bkp_name = bank_name b, bkp_total = map_option (\<lambda>x. oe_show env (awc_round x)) bankTotal,
            bkp_accounts = items\<rparr>)))))"

section \<open>The page of an account\<close>

fun transactionBelongsToAccount :: "transaction \<Rightarrow> bank_account \<Rightarrow> bool" where
  "transactionBelongsToAccount (ThirdPartyExpense e) account = False"
| "transactionBelongsToAccount (PersonalExpense p) account = (pe_accountId p = acc_id account)"
| "transactionBelongsToAccount (Income i) account = (in_accountId i = acc_id account)"
| "transactionBelongsToAccount (OpeningBalance b) account = (ob_accountId b = acc_id account)"
| "transactionBelongsToAccount (Transfer f) account =
     (tr_fromAccountId f = acc_id account \<or> tr_toAccountId f = acc_id account)"

datatype connected_delta = MatchesConnected | LessThanConnected string | MoreThanConnected string

definition OpenBankingBalanceDelta :: "overview_env \<Rightarrow> bank_account \<Rightarrow> connected_delta option result" where
  "OpenBankingBalanceDelta env account =
     bind_result (snapshot_of (oe_balances env) account) (\<lambda>balance.
       case Option.bind (jm_get (oe_metadata env) (acc_id account)) afm_balanceNanos of
         None \<Rightarrow> Inr None
       | Some nanos \<Rightarrow>
         bind_result (awu_subtract balance (mk_awu nanos (awu_unit balance))) (\<lambda>d.
           let a = awu_amount d; text = oe_show_unit env (awu_abs d)
           in Inr (Some (if isZero a then MatchesConnected
             else if isNegative a then LessThanConnected text else MoreThanConnected text))))"

datatype price_view =
    NoPrice string
  | NativePrice string
  | NoDisplayPrice string string
  | BothPrices string string

definition PricePerShare :: "overview_env \<Rightarrow> stock \<Rightarrow> price_view result" where
  "PricePerShare env s =
     bind_result (mustFindByCode (stock_currencyCode s)) (\<lambda>c.
     bind_result (exchangeStock (sc_closestTo (oe_cx env)) (sc_exchange (oe_cx env)) (mk_amount 1000000000) s c (oe_now env))
       (\<lambda>rate.
         case rate of
           None \<Rightarrow> Inr (NoPrice (cur_code c))
         | Some x \<Rightarrow>
           if cur_code c = cur_code (oe_currency env) then Inr (NativePrice (oe_show env x))
           else case exchangeCurrency (sc_closestTo (oe_cx env)) (sc_exchange (oe_cx env)) x (oe_currency env) (oe_now env) of
                  None \<Rightarrow> Inr (NoDisplayPrice (oe_show env x) (cur_code (oe_currency env)))
                | Some y \<Rightarrow> Inr (BothPrices (oe_show env x) (oe_show env y))))"

record balance_card =
  bc_balance :: string
  bc_inDisplayCurrency :: "string option"
  bc_inStockCurrency :: "string option"
  bc_delta :: "connected_delta option"
  bc_price :: "price_view option"

definition BalanceCard :: "overview_env \<Rightarrow> bank_account \<Rightarrow> balance_card result" where
  "BalanceCard env account =
     bind_result (snapshot_of (oe_balances env) account) (\<lambda>balance.
     bind_result (oe_exchange env balance (oe_currency env)) (\<lambda>inDisplayCurrency.
     bind_result
       (case awu_unit balance of
          UnitStock s \<Rightarrow> bind_result (mustFindByCode (stock_currencyCode s)) (oe_exchange env balance)
        | UnitCurrency _ \<Rightarrow> Inr None) (\<lambda>inStockCurrency.
     let showInStockCurrency =
       (case inStockCurrency of Some b \<Rightarrow> cur_code (awc_currency b) \<noteq> cur_code (oe_currency env) | None \<Rightarrow> False)
     in bind_result (OpenBankingBalanceDelta env account) (\<lambda>d.
     bind_result
       (case awu_unit balance of UnitStock s \<Rightarrow> map_sum id Some (PricePerShare env s) | UnitCurrency _ \<Rightarrow> Inr None) (\<lambda>price.
       Inr \<lparr>bc_balance = oe_show_unit env balance,
         bc_inDisplayCurrency = map_option (oe_show env) inDisplayCurrency,
         bc_inStockCurrency = (if showInStockCurrency then map_option (oe_show env) inStockCurrency else None),
         bc_delta = d, bc_price = price\<rparr>)))))"

record account_page =
  ap_name :: string
  ap_balance :: balance_card
  ap_errors :: "string list option"
  ap_transactions :: "transaction list"

text \<open>
  The transactions of the account, searched with the query of the page. The search runs before the page finds
  that there is no such account; its parser and the dates it compares are parameters as in the search itself.
\<close>

definition account_transactions :: "overview_env \<Rightarrow> int \<Rightarrow> transaction list" where
  "account_transactions env accountId =
     (let account = find (\<lambda>a. acc_id a = accountId) (sc_bankAccounts (oe_cx env))
      in filter (\<lambda>t. case account of None \<Rightarrow> False | Some a \<Rightarrow> transactionBelongsToAccount t a)
           (sc_transactions (oe_cx env)))"

definition AccountPage ::
  "parser \<Rightarrow> date_functions \<Rightarrow> overview_env \<Rightarrow> trip list \<Rightarrow> tag list \<Rightarrow> string \<Rightarrow> int \<Rightarrow> account_page option result" where
  "AccountPage parse df env trips tags query accountId =
     (if \<not> isFullyConfigured env then Inr None
      else bind_result (useTransactionSearch parse df
          \<lparr>sp_query = query, sp_transactions = account_transactions env accountId, sp_banks = oe_banks env,
           sp_bankAccounts = sc_bankAccounts (oe_cx env), sp_categories = sc_categories (oe_cx env),
           sp_trips = trips, sp_tags = tags\<rparr>) (\<lambda>(results, errors).
        bind_result (or_throw (find (\<lambda>a. acc_id a = accountId) (sc_bankAccounts (oe_cx env))) NotFoundPage) (\<lambda>account.
        bind_result (BalanceCard env account) (\<lambda>card.
          Inr (Some \<lparr>ap_name = acc_name account, ap_balance = card, ap_errors = errors, ap_transactions = results\<rparr>)))))"

section \<open>The net worth is the sum of the banks\<close>

definition value_nanos :: "overview_env \<Rightarrow> bank_account \<Rightarrow> int" where
  "value_nanos env account =
     (case account_value (sc_closestTo (oe_cx env)) (oe_balances env) (oe_currency env) (sc_exchange (oe_cx env)) account of
        Inr (Some v) \<Rightarrow> amountNanos v
      | _ \<Rightarrow> 0)"

definition has_value :: "overview_env \<Rightarrow> bank_account \<Rightarrow> bool" where
  "has_value env account \<longleftrightarrow>
     (\<exists>v. account_value (sc_closestTo (oe_cx env)) (oe_balances env) (oe_currency env) (sc_exchange (oe_cx env)) account =
        Inr (Some v))"

lemma values_of_accounts:
  "list_all2 (\<lambda>a v. g a = Inr (Some v)) accounts vs \<longleftrightarrow>
     (\<forall>a \<in> set accounts. \<exists>v. g a = Inr (Some v)) \<and> vs = map (\<lambda>a. the (projr (g a))) accounts"
  by (induction accounts arbitrary: vs) (auto simp: list_all2_Cons1)

lemma value_nanos_eq:
  "has_value env a \<Longrightarrow> value_nanos env a = amountNanos (the (projr
     (account_value (sc_closestTo (oe_cx env)) (oe_balances env) (oe_currency env) (sc_exchange (oe_cx env)) a)))"
  by (auto simp: has_value_def value_nanos_def)

lemma oe_sum_values:
  "oe_sum env (oe_balances env) accounts = Inr (Some tot) \<longleftrightarrow>
     (\<forall>a \<in> set accounts. has_value env a) \<and>
     tot = mk_awc (\<Sum>a \<leftarrow> accounts. value_nanos env a) (oe_currency env)"
proof -
  have "(\<Sum>a \<leftarrow> accounts. value_nanos env a) = (\<Sum>a \<leftarrow> accounts. amountNanos (the (projr
      (account_value (sc_closestTo (oe_cx env)) (oe_balances env) (oe_currency env) (sc_exchange (oe_cx env)) a))))"
    if "\<forall>a \<in> set accounts. has_value env a"
    by (rule arg_cong [of _ _ sum_list], rule map_cong [OF refl]) (use that value_nanos_eq in blast)
  then show ?thesis
    unfolding oe_sum_def snapshot_sum_total [THEN conjunct1] values_of_accounts
    by (auto simp: has_value_def o_def)
qed

lemma sum_over_banks:
  assumes "distinct (map bank_id banks)" "\<forall>a \<in> set accounts. acc_bankId a \<in> bank_id ` set banks"
  shows "(\<Sum>b \<leftarrow> banks. \<Sum>a \<leftarrow> accountsForBank b accounts. f a) = (\<Sum>a \<leftarrow> accounts. f a :: int)"
  using sum_list_by_key [of "map bank_id banks" accounts acc_bankId f] assms by (simp add: accountsForBank_def o_def)

section \<open>The account page explains its balance\<close>

lemma delta_of_other: "\<not> transactionBelongsToAccount t a \<Longrightarrow> delta (acc_id a) t = 0"
  by (cases t) auto

lemma balance_of_own_transactions:
  "balance_at txs asOf (acc_id a) =
     (\<Sum>t \<leftarrow> filter (counts_at asOf) (filter (\<lambda>t. transactionBelongsToAccount t a) txs). delta (acc_id a) t)"
  unfolding balance_at_def by (induction txs) (auto simp: delta_of_other)

lemma account_found:
  assumes "find (\<lambda>a. acc_id a = i) (sc_bankAccounts (oe_cx env)) = Some a"
  shows "account_transactions env i = filter (\<lambda>t. transactionBelongsToAccount t a) (sc_transactions (oe_cx env))"
    and "acc_id a = i"
  using assms find_eq_key_Some [OF assms] by (simp_all add: account_transactions_def)

lemma balance_shown:
  assumes "balancesAsOf (sc_transactions (oe_cx env)) (sc_stocks (oe_cx env)) (oe_now env) = Inr (oe_balances env)"
    and "BalanceCard env a = Inr c"
  shows "\<exists>u. accountUnit a (sc_stocks (oe_cx env)) = Inr u \<and>
    bc_balance c = oe_show_unit env (mk_awu (balance_at (sc_transactions (oe_cx env)) (oe_now env) (acc_id a)) u)"
  using assms balancesAsOf_lemma [of "sc_transactions (oe_cx env)" "sc_stocks (oe_cx env)" "oe_now env"]
  by (auto simp: BalanceCard_def snapshot_of_def result_simps Let_def)

section \<open>Hidden balances stay hidden\<close>

definition no_toggle :: "hide_event list \<Rightarrow> bool" where
  "no_toggle events \<longleftrightarrow> list_all (\<lambda>e. e \<noteq> ToggleHideBalances) events"

lemma hide_run_simps [simp]:
  "hide_run [] st = st" "hide_run (e # events) st = hide_run events (hide_step e st)"
  by (simp_all add: hide_run_def)

lemma hide_run_now: "hs_now st \<le> hs_now (hide_run events st)"
proof (induction events arbitrary: st)
  case (Cons e events)
  have "hs_now st \<le> hs_now (hide_step e st)"
    by (cases e) (auto simp: updateStateAndSetCookie_def split: option.split)
  then show ?case using Cons [of "hide_step e st"] by simp
qed simp

lemma hide_run_hidden:
  assumes "no_toggle events" "hs_page st = None \<or> hs_page st = Some True"
    and "hs_cookie st = Some (''true'', expires)" "hs_now (hide_run events st) < expires"
  shows "(hs_page (hide_run events st) = None \<or> hs_page (hide_run events st) = Some True) \<and>
    shouldHideBalances (hs_now (hide_run events st)) (hs_cookie (hide_run events st))"
  using assms
proof (induction events arbitrary: st)
  case Nil
  then show ?case by (simp add: shouldHideBalances_def)
next
  case (Cons e events)
  have now: "hs_now st < expires" using hide_run_now [of st "e # events"] Cons.prems(4) by simp
  have "(hs_page (hide_step e st) = None \<or> hs_page (hide_step e st) = Some True) \<and>
      hs_cookie (hide_step e st) = Some (''true'', expires)"
    using Cons.prems(1-3) now by (cases e) (auto simp: no_toggle_def shouldHideBalances_def)
  with Cons show ?case by (simp add: no_toggle_def)
qed

text \<open>What the overview shows of an account when balances are hidden and no spoiler was clicked.\<close>

lemma balance_not_readable:
  assumes "oe_hidden env" "BankAccountListItem env b account = Inr item"
  shows "readable False (ai_balance item) = None \<and> Option.bind (ai_displayBalance item) (readable False) = None"
  using assms by (auto simp: BankAccountListItem_def AccountBalance_def MaybeHiddenDiv_def result_simps split: bind_splits)

section \<open>Properties\<close>


text \<open>
  C14: the page of an account explains the balance it shows: with no search query the list holds exactly the
  transactions of the account, and the balance printed on the card is the sum of what those of them that are
  not in the future (and the opening balances) moved into the account, in the account's own unit.\<close>
theorem account_page_explains_balance:
  assumes "AccountPage parse df env trips tags [] i = Inr (Some p)"
    and "balancesAsOf (sc_transactions (oe_cx env)) (sc_stocks (oe_cx env)) (oe_now env) = Inr (oe_balances env)"
  shows "\<exists>a u. a \<in> set (sc_bankAccounts (oe_cx env)) \<and> acc_id a = i \<and>
    accountUnit a (sc_stocks (oe_cx env)) = Inr u \<and>
    ap_transactions p = filter (\<lambda>t. transactionBelongsToAccount t a) (sc_transactions (oe_cx env)) \<and>
    bc_balance (ap_balance p) = oe_show_unit env
      (mk_awu (\<Sum>t \<leftarrow> filter (counts_at (oe_now env)) (ap_transactions p). delta i t) u)"
proof -
  obtain a c where a: "find (\<lambda>a. acc_id a = i) (sc_bankAccounts (oe_cx env)) = Some a"
    and card: "BalanceCard env a = Inr c"
    and p: "ap_transactions p = account_transactions env i" "ap_balance p = c"
    using assms(1) by (auto simp: AccountPage_def useTransactionSearch_def search_def result_simps split: if_splits)
  obtain u where u: "accountUnit a (sc_stocks (oe_cx env)) = Inr u"
    "bc_balance c = oe_show_unit env (mk_awu (balance_at (sc_transactions (oe_cx env)) (oe_now env) (acc_id a)) u)"
    using balance_shown [OF assms(2) card] by blast
  show ?thesis
    using find_eq_key_Some [OF a] account_found [OF a] u p
      balance_of_own_transactions [of "sc_transactions (oe_cx env)" "oe_now env" a]
    by (intro exI [of _ a] exI [of _ u]) simp
qed


section \<open>Witnesses\<close>

definition sample_overview :: overview_env where
  "sample_overview =
     \<lparr>oe_cx = sample_stats\<lparr>sc_bankAccounts := sc_bankAccounts sample_stats @
        [(hd (sc_bankAccounts sample_stats))\<lparr>acc_id := 8, acc_bankId := 2\<rparr>]\<rparr>,
      oe_banks = [\<lparr>bank_id = 1, bank_name = ''First'', bank_displayOrder = 1\<rparr>,
        \<lparr>bank_id = 2, bank_name = ''Second'', bank_displayOrder = 2\<rparr>],
      oe_metadata = [], oe_expirations = [],
      oe_balances = \<lparr>snap_asOf = 3000, snap_nanos = [(7, 100)], snap_stocks = []\<rparr>, oe_now = 3000, oe_hidden = True,
      oe_differenceInDays = (\<lambda>a b. 0), oe_subDays = (\<lambda>a n. a), oe_subMonths = (\<lambda>a n. a), oe_subYears = (\<lambda>a n. a),
      oe_format = (\<lambda>f a. None), oe_toFixed2 = (\<lambda>x. []), oe_intlCurrency = (\<lambda>l c d x. c), oe_intl = (\<lambda>d x. [])\<rparr>"


theorem account_page_explains_balance_witness:
  "\<exists>p. AccountPage (\<lambda>q. Inl []) sample_dates sample_overview [] [] [] 7 = Inr (Some p) \<and>
     map tx_id (ap_transactions p) = [1, 2, 3]"
proof -
  have "case AccountPage (\<lambda>q. Inl []) sample_dates sample_overview [] [] [] 7 of Inr (Some p) \<Rightarrow> True | _ \<Rightarrow> False"
    by code_simp
  then obtain p where p: "AccountPage (\<lambda>q. Inl []) sample_dates sample_overview [] [] [] 7 = Inr (Some p)"
    by (auto split: sum.splits option.splits)
  have "balancesAsOf (sc_transactions (oe_cx sample_overview)) (sc_stocks (oe_cx sample_overview)) (oe_now sample_overview) =
      Inr (oe_balances sample_overview)" by code_simp
  from account_page_explains_balance [OF p this] obtain a where "a \<in> set (sc_bankAccounts (oe_cx sample_overview))"
    "acc_id a = 7"
    "ap_transactions p = filter (\<lambda>t. transactionBelongsToAccount t a) (sc_transactions (oe_cx sample_overview))" by blast
  then have ids: "map tx_id (ap_transactions p) = [1, 2, 3]"
    by (auto simp: sample_overview_def sample_stats_def sample_expense_def sample_income_def)
  show ?thesis by (intro exI conjI, rule p, rule ids)
qed

definition sample_hide :: hide_state where
  "sample_hide = \<lparr>hs_now = 0, hs_cookie = None, hs_page = Some False\<rparr>"


section \<open>Flaws of the overview\<close>

text \<open>
  Hiding balances does not hide what is below the name of an account: how many shares it holds, their price and
  by how much it is off its bank are the same text whether balances are hidden or not.
\<close>

lemma subtitle_ignores_hiding: "AccountSubtitle (env\<lparr>oe_hidden := h\<rparr>) account = AccountSubtitle env account"
proof -
  have same: "oe_show (env\<lparr>oe_hidden := h\<rparr>) = oe_show env" "oe_show_unit (env\<lparr>oe_hidden := h\<rparr>) = oe_show_unit env"
    "oe_cx (env\<lparr>oe_hidden := h\<rparr>) = oe_cx env" "oe_balances (env\<lparr>oe_hidden := h\<rparr>) = oe_balances env"
    "oe_metadata (env\<lparr>oe_hidden := h\<rparr>) = oe_metadata env" "oe_now (env\<lparr>oe_hidden := h\<rparr>) = oe_now env"
    "oe_intl (env\<lparr>oe_hidden := h\<rparr>) = oe_intl env"
    by (simp_all add: oe_show_def oe_show_unit_def fun_eq_iff)
  show ?thesis unfolding AccountSubtitle_def useSyncStatus_def StockHolding_def same by (rule refl)
qed

text \<open>
  A connection that expires within the next 24 hours is reported as one that has expired already:
  \<open>differenceInDays\<close> counts full days towards zero.
\<close>

lemma not_yet_expired_shown_as_expired:
  assumes days: "\<And>a b. oe_differenceInDays env a b =
      (if b \<le> a then \<lfloor>(a - b) / 86400000\<rfloor> else - \<lfloor>(b - a) / 86400000\<rfloor>)"
    and e: "find (\<lambda>e. ce_bankId e = bank_id b) (oe_expirations env) = Some e"
    and at': "timestampToEpoch (ce_expiresAt e) = Inr expires"
    and soon: "oe_now env < expires" "expires < oe_now env + 86400000"
  shows "OpenBankingConnectionExpirationWarning env b = Inr (Some ''OpenBanking connection has expired today.'')"
proof -
  have "\<lfloor>(expires - oe_now env) / 86400000\<rfloor> = 0" using soon by (intro floor_unique) auto
  then show ?thesis
    using soon by (simp add: OpenBankingConnectionExpirationWarning_def e at' days expiration_text_def)
qed

text \<open>The chart of all time starts at or before every transaction and never after now.\<close>

lemma earliest_of_le: "earliest_of now txs \<le> now" "t \<in> set txs \<Longrightarrow> earliest_of now txs \<le> tx_timestampEpoch t"
proof -
  have fold: "earliest_of m txs \<le> m \<and> (\<forall>t \<in> set txs. earliest_of m txs \<le> tx_timestampEpoch t)" for m
  proof (induction txs arbitrary: m)
    case (Cons t txs)
    have "earliest_of m (t # txs) = earliest_of (min m (tx_timestampEpoch t)) txs"
      by (simp add: earliest_of_def min_def not_less)
    with Cons [of "min m (tx_timestampEpoch t)"] show ?case by auto
  qed (simp add: earliest_of_def)
  show "earliest_of now txs \<le> now" "t \<in> set txs \<Longrightarrow> earliest_of now txs \<le> tx_timestampEpoch t"
    using fold [of now] by auto
qed

end
