(* ===== verification/QueryParser.thy ===== *)
theory QueryParser
  imports Search
begin

text \<open>
  The text of a search: the token rules of lib/search/TransactionSearchQuery.g4 as the generated
  lexer runs them, the recursive descent methods of the generated parser, and the grammar of the .g4
  file as an inductive relation the parser is proved against.  search (lib/search/search.tsx) calls
  the parser's query(), so its whole behaviour on the text of a query is a function of this theory
  and of Search; only the wording of the error messages is left to the ANTLR runtime.

  Characters are Isabelle's 8-bit ones: the ideographic space U+3000, the one character of the
  grammar beyond them, is not represented.
\<close>

section \<open>The token rules\<close>

datatype token_type =
    T_AND | T_OR | T_NOT | T_PLUS | T_LPAREN | T_RPAREN | T_COLON | T_EQUAL
  | T_LESSTHAN | T_LESSTHANEQ | T_MORETHAN | T_MORETHANEQ | T_QUOTED | T_TERM | T_SKIP | T_UNKNOWN

record token =
  tk_type :: token_type
  tk_text :: string

definition backslash :: char where
  "backslash = CHR 0x5C"

definition dquote :: char where
  "dquote = CHR 0x22"

definition WHITESPACE :: "char set" where
  "WHITESPACE = set [CHR '' '', CHR 0x09, CHR 0x0A, CHR 0x0D]"

definition TERM_START_CHAR :: "char \<Rightarrow> bool" where
  "TERM_START_CHAR c \<longleftrightarrow> c \<notin> WHITESPACE \<and> c \<noteq> backslash \<and> c \<noteq> dquote \<and>
     c \<notin> set ''+-!():^@<>=[]{}~/''"

definition TERM_CHAR :: "char \<Rightarrow> bool" where
  "TERM_CHAR c \<longleftrightarrow> TERM_START_CHAR c \<or> c = CHR ''-'' \<or> c = CHR ''+''"

text \<open>
  How many characters of the input a rule takes at most: 0 where the rule does not match.  A pair of a
  backslash and any character is one unit of a quoted string and of a term.
\<close>

fun quoted_rest :: "string \<Rightarrow> nat option" where
  "quoted_rest [] = None"
| "quoted_rest [c] = (if c = dquote then Some 1 else None)"
| "quoted_rest (c # d # s) =
     (if c = dquote then Some 1
      else if c = backslash then map_option (\<lambda>n. n + 2) (quoted_rest s)
      else map_option Suc (quoted_rest (d # s)))"

fun term_rest :: "string \<Rightarrow> nat" where
  "term_rest [] = 0"
| "term_rest [c] = (if TERM_CHAR c then 1 else 0)"
| "term_rest (c # d # s) =
     (if c = backslash then 2 + term_rest s
      else if TERM_CHAR c then Suc (term_rest (d # s))
      else 0)"

definition literal :: "string \<Rightarrow> string \<Rightarrow> nat" where
  "literal w s = (if starts_with s w then length w else 0)"

definition quoted_length :: "string \<Rightarrow> nat" where
  "quoted_length s =
     (case s of [] \<Rightarrow> 0
      | c # s' \<Rightarrow> if c = dquote then (case quoted_rest s' of None \<Rightarrow> 0 | Some n \<Rightarrow> Suc n) else 0)"

definition term_length :: "string \<Rightarrow> nat" where
  "term_length s =
     (case s of [] \<Rightarrow> 0
      | c # s' \<Rightarrow>
        if c = backslash then (case s' of [] \<Rightarrow> 0 | d # s'' \<Rightarrow> 2 + term_rest s'')
        else if TERM_START_CHAR c then Suc (term_rest s') else 0)"

fun rule_length :: "token_type \<Rightarrow> string \<Rightarrow> nat" where
  "rule_length T_AND s = max (literal ''AND'' s) (literal ''&&'' s)"
| "rule_length T_OR s = max (literal ''OR'' s) (literal ''||'' s)"
| "rule_length T_NOT s = max (literal ''NOT'' s) (max (literal ''!'' s) (literal ''-'' s))"
| "rule_length T_PLUS s = literal ''+'' s"
| "rule_length T_LPAREN s = literal ''('' s"
| "rule_length T_RPAREN s = literal '')'' s"
| "rule_length T_COLON s = literal '':'' s"
| "rule_length T_EQUAL s = literal ''='' s"
| "rule_length T_LESSTHAN s = literal ''<'' s"
| "rule_length T_LESSTHANEQ s = literal ''<='' s"
| "rule_length T_MORETHAN s = literal ''>'' s"
| "rule_length T_MORETHANEQ s = literal ''>='' s"
| "rule_length T_QUOTED s = quoted_length s"
| "rule_length T_TERM s = term_length s"
| "rule_length T_SKIP s = (case s of [] \<Rightarrow> 0 | c # _ \<Rightarrow> if c \<in> WHITESPACE then 1 else 0)"
| "rule_length T_UNKNOWN s = (case s of [] \<Rightarrow> 0 | c # _ \<Rightarrow> 1)"

definition ruleNames :: "token_type list" where
  "ruleNames = [T_AND, T_OR, T_NOT, T_PLUS, T_LPAREN, T_RPAREN, T_COLON, T_EQUAL, T_LESSTHAN, T_LESSTHANEQ,
     T_MORETHAN, T_MORETHANEQ, T_QUOTED, T_TERM, T_SKIP, T_UNKNOWN]"

text \<open>The longest match wins, and of the rules that match as much the first one.\<close>

definition best_rule :: "string \<Rightarrow> token_type \<times> nat" where
  "best_rule s =
     foldl (\<lambda>best r. if rule_length r s > snd best then (r, rule_length r s) else best) (T_UNKNOWN, 0) ruleNames"

lemma foldl_longest:
  fixes n0 :: nat
  assumes "foldl (\<lambda>best r. if f r > snd best then (r, f r) else best) (t0, n0) rs = (t, n)"
  shows "n \<ge> n0" and "\<forall>r \<in> set rs. f r \<le> n" and "(t, n) = (t0, n0) \<or> (t \<in> set rs \<and> f t = n)"
  using assms
proof (induction rs arbitrary: t0 n0)
  case (Cons r rs)
  { case 1 then show ?case using Cons.IH(1) by (fastforce split: if_splits) }
  { case 2 then show ?case using Cons.IH(1,2) by (fastforce split: if_splits) }
  { case 3 then show ?case using Cons.IH(3) by (fastforce split: if_splits) }
qed auto

lemma best_rule_longest:
  assumes "best_rule (c # s) = (t, n)"
  shows "rule_length t (c # s) = n" "rule_length r (c # s) \<le> n" "n \<ge> 1"
proof -
  note all = foldl_longest [where f = "\<lambda>r. rule_length r (c # s)", OF assms [unfolded best_rule_def]]
  have r: "r \<in> set ruleNames" for r by (cases r) (simp_all add: ruleNames_def)
  show "rule_length r (c # s) \<le> n" using all(2) r by blast
  show n: "n \<ge> 1" using bspec [OF all(2) r [of T_UNKNOWN]] by simp
  show "rule_length t (c # s) = n" using all(3) n by auto
qed

lemma quoted_rest_bound: "quoted_rest s = Some n \<Longrightarrow> 1 \<le> n \<and> n \<le> length s"
  by (induction s arbitrary: n rule: quoted_rest.induct) (fastforce split: if_splits)+

lemma term_rest_bound: "term_rest s \<le> length s"
  by (induction s rule: term_rest.induct) auto

lemma literal_bound: "literal w s \<le> length s"
proof -
  have "starts_with s w \<Longrightarrow> length w \<le> length s" by (induction s w rule: starts_with.induct) auto
  then show ?thesis by (simp add: literal_def)
qed

lemma rule_length_bound: "rule_length r s \<le> length s"
proof -
  have q: "quoted_length s \<le> length s"
    using quoted_rest_bound by (fastforce simp: quoted_length_def split: list.splits option.splits)
  have t: "term_length s \<le> length s"
  proof (cases s)
    case (Cons c s')
    then show ?thesis
      using term_rest_bound [of s'] term_rest_bound [of "tl s'"]
      by (cases s') (auto simp: term_length_def)
  qed (simp add: term_length_def)
  show ?thesis by (cases r) (auto simp: literal_bound q t split: list.splits)
qed

definition next_token :: "string \<Rightarrow> token \<times> string" where
  "next_token s = (let (t, n) = best_rule s in (\<lparr>tk_type = t, tk_text = take n s\<rparr>, drop n s))"

lemma next_token_shorter: "s \<noteq> [] \<Longrightarrow> length (snd (next_token s)) < length s"
  using best_rule_longest(3) [of "hd s" "tl s"]
  by (cases s; cases "best_rule s") (auto simp: next_token_def)

function nextTokens :: "string \<Rightarrow> token list" where
  "nextTokens [] = []"
| "nextTokens (c # s) = (let (tk, rest) = next_token (c # s) in tk # nextTokens rest)"
  by pat_completeness auto
termination
proof (relation "measure length")
  fix c s x tk rest
  assume "x = next_token (c # s)" "(tk, rest) = x"
  then show "(rest, c # s) \<in> measure length" using next_token_shorter [of "c # s"] by (auto simp: prod_eq_iff)
qed simp

text \<open>White space is skipped: the parser reads the other tokens.\<close>

definition tokenize :: "string \<Rightarrow> token list" where
  "tokenize s = filter (\<lambda>tk. tk_type tk \<noteq> T_SKIP) (nextTokens s)"

section \<open>What the lexer guarantees\<close>

text \<open>The languages of the rules, as the grammar writes them.\<close>

inductive quoted_chars :: "string \<Rightarrow> bool" where
  quoted_none: "quoted_chars []"
| quoted_plain: "quoted_chars w \<Longrightarrow> c \<noteq> dquote \<Longrightarrow> c \<noteq> backslash \<Longrightarrow> quoted_chars (c # w)"
| quoted_escaped: "quoted_chars w \<Longrightarrow> quoted_chars (backslash # c # w)"

inductive term_chars :: "string \<Rightarrow> bool" where
  term_none: "term_chars []"
| term_plain: "term_chars w \<Longrightarrow> TERM_CHAR c \<Longrightarrow> term_chars (c # w)"
| term_escaped: "term_chars w \<Longrightarrow> term_chars (backslash # c # w)"

inductive in_rule :: "token_type \<Rightarrow> string \<Rightarrow> bool" where
  "in_rule T_AND ''AND''" | "in_rule T_AND ''&&''"
| "in_rule T_OR ''OR''" | "in_rule T_OR ''||''"
| "in_rule T_NOT ''NOT''" | "in_rule T_NOT ''!''" | "in_rule T_NOT ''-''"
| "in_rule T_PLUS ''+''" | "in_rule T_LPAREN ''(''" | "in_rule T_RPAREN '')''"
| "in_rule T_COLON '':''" | "in_rule T_EQUAL ''=''"
| "in_rule T_LESSTHAN ''<''" | "in_rule T_LESSTHANEQ ''<=''"
| "in_rule T_MORETHAN ''>''" | "in_rule T_MORETHANEQ ''>=''"
| "quoted_chars w \<Longrightarrow> in_rule T_QUOTED (dquote # w @ [dquote])"
| "term_chars w \<Longrightarrow> TERM_START_CHAR c \<Longrightarrow> in_rule T_TERM (c # w)"
| "term_chars w \<Longrightarrow> in_rule T_TERM (backslash # c # w)"
| "c \<in> WHITESPACE \<Longrightarrow> in_rule T_SKIP [c]"
| "in_rule T_UNKNOWN [c]"

fun rule_number :: "token_type \<Rightarrow> nat" where
  "rule_number T_AND = 1"
| "rule_number T_OR = 2"
| "rule_number T_NOT = 3"
| "rule_number T_PLUS = 4"
| "rule_number T_LPAREN = 5"
| "rule_number T_RPAREN = 6"
| "rule_number T_COLON = 7"
| "rule_number T_EQUAL = 8"
| "rule_number T_LESSTHAN = 9"
| "rule_number T_LESSTHANEQ = 10"
| "rule_number T_MORETHAN = 11"
| "rule_number T_MORETHANEQ = 12"
| "rule_number T_QUOTED = 13"
| "rule_number T_TERM = 14"
| "rule_number T_SKIP = 15"
| "rule_number T_UNKNOWN = 16"

lemma starts_with_append: "starts_with s w \<longleftrightarrow> (\<exists>u. s = w @ u)"
  by (induction s w rule: starts_with.induct) auto

lemma TERM_CHAR_facts: "\<not> TERM_CHAR backslash" "\<not> TERM_START_CHAR backslash" "\<not> TERM_CHAR dquote"
  "dquote \<noteq> backslash"
  by (simp_all add: TERM_CHAR_def TERM_START_CHAR_def backslash_def dquote_def)

lemma quoted_rest_sound: "quoted_rest s = Some n \<Longrightarrow> \<exists>w. take n s = w @ [dquote] \<and> quoted_chars w"
proof (induction s arbitrary: n rule: quoted_rest.induct)
  case (2 c)
  then show ?case by (auto split: if_splits intro: quoted_none)
next
  case (3 c d s)
  consider "c = dquote" "n = 1" | m where "c \<noteq> dquote" "c = backslash" "quoted_rest s = Some m" "n = m + 2"
    | m where "c \<noteq> dquote" "c \<noteq> backslash" "quoted_rest (d # s) = Some m" "n = Suc m"
    using "3.prems" by (auto split: if_splits)
  then show ?case
  proof cases
    case 1
    then show ?thesis by (auto intro: quoted_none)
  next
    case 2
    then obtain w where "take m s = w @ [dquote]" "quoted_chars w" using "3.IH"(1) by blast
    then show ?thesis using 2 by (intro exI [of _ "c # d # w"]) (simp add: quoted_escaped)
  next
    case 3
    then obtain w where "take m (d # s) = w @ [dquote]" "quoted_chars w" using "3.IH"(2) by blast
    then show ?thesis using 3 by (intro exI [of _ "c # w"]) (simp add: quoted_plain)
  qed
qed simp

lemma quoted_rest_complete: "quoted_chars w \<Longrightarrow> quoted_rest (w @ dquote # u) = Some (Suc (length w))"
proof (induction rule: quoted_chars.induct)
  case quoted_none
  then show ?case by (cases u) simp_all
next
  case (quoted_plain w c)
  then show ?case by (cases "w @ dquote # u") simp_all
next
  case (quoted_escaped w c)
  then show ?case by (simp add: TERM_CHAR_facts(4) [symmetric])
qed

lemma term_rest_sound: "term_chars (take (term_rest s) s)"
  by (induction s rule: term_rest.induct) (auto intro: term_chars.intros)

lemma term_rest_complete: "term_chars w \<Longrightarrow> length w \<le> term_rest (w @ u)"
proof (induction rule: term_chars.induct)
  case (term_plain w c)
  then show ?case by (cases "w @ u") (auto simp: TERM_CHAR_facts)
qed simp_all

lemma literal_sound: "literal w s > 0 \<Longrightarrow> take (literal w s) s = w"
  by (auto simp: literal_def starts_with_append split: if_splits)

lemma literal_complete: "starts_with s w \<Longrightarrow> literal w s = length w"
  by (simp add: literal_def)

lemma max_literals_sound:
  "max (literal v s) n > 0 \<Longrightarrow> (n > 0 \<Longrightarrow> P (take n s)) \<Longrightarrow> P v \<Longrightarrow> P (take (max (literal v s) n) s)"
  using literal_sound [of v s] by (auto simp: max_def)

lemma rule_length_sound: "rule_length r s > 0 \<Longrightarrow> in_rule r (take (rule_length r s) s)"
proof (cases r)
  case T_QUOTED
  assume pos: "rule_length r s > 0"
  then obtain s' n where "s = dquote # s'" "quoted_rest s' = Some n"
    using T_QUOTED by (auto simp: quoted_length_def split: list.splits if_splits option.splits)
  then show ?thesis
    using T_QUOTED quoted_rest_sound [of s' n] by (auto simp: quoted_length_def intro: in_rule.intros)
next
  case T_TERM
  assume pos: "rule_length r s > 0"
  show ?thesis
  proof (cases s)
    case (Cons c s')
    then show ?thesis using pos T_TERM term_rest_sound
      by (auto simp: term_length_def intro: in_rule.intros term_none split: list.splits if_splits)
  qed (use pos T_TERM in \<open>simp add: term_length_def\<close>)
next
  case T_AND
  assume "rule_length r s > 0"
  then show ?thesis using T_AND literal_sound [of "''&&''" s]
    by (simp only: rule_length.simps) (rule max_literals_sound, auto intro: in_rule.intros)
next
  case T_OR
  assume "rule_length r s > 0"
  then show ?thesis using T_OR literal_sound [of "''||''" s]
    by (simp only: rule_length.simps) (rule max_literals_sound, auto intro: in_rule.intros)
next
  case T_NOT
  assume "rule_length r s > 0"
  then show ?thesis using T_NOT literal_sound [of "''-''" s]
    by (simp only: rule_length.simps)
      (rule max_literals_sound, simp, rule max_literals_sound, auto intro: in_rule.intros)
qed (auto dest!: literal_sound intro: in_rule.intros split: list.splits if_splits)

lemma rule_length_complete: "in_rule r w \<Longrightarrow> length w \<le> rule_length r (w @ u)"
proof (induction rule: in_rule.induct)
  case (17 w)
  then show ?case using quoted_rest_complete [of w u] by (simp add: quoted_length_def)
next
  case (18 w c)
  then show ?case using term_rest_complete [of w u] by (auto simp: term_length_def TERM_CHAR_facts)
next
  case (19 w c)
  then show ?case using term_rest_complete [of w u] by (simp add: term_length_def)
qed (simp_all add: literal_def)

lemma foldl_first:
  fixes n0 :: nat
  assumes "foldl (\<lambda>best r. if f r > snd best then (r, f r) else best) (t0, n0) rs = (t, n)"
    and "sorted_wrt (\<lambda>a b. num a < (num b :: nat)) rs" and "n > n0" and "r \<in> set rs" and "f r = n"
  shows "num t \<le> num r"
  using assms
proof (induction rs arbitrary: t0 n0)
  case (Cons q rs)
  show ?case
  proof (cases "f q > n0")
    case True
    then have step: "foldl (\<lambda>best r. if f r > snd best then (r, f r) else best) (q, f q) rs = (t, n)"
      using Cons.prems(1) by simp
    note facts = foldl_longest [where f = f, OF step]
    show ?thesis
    proof (cases "n = f q")
      case True
      then have "(t, n) = (q, f q) \<or> (t \<in> set rs \<and> f t = n)" using facts(3) by blast
      moreover have "t = q" if "\<not> n > f q"
      proof -
        have "foldl (\<lambda>best r. if f r > snd best then (r, f r) else best) (q, f q) rs = (q, f q)"
          if "\<forall>r \<in> set rs. f r \<le> f q" for rs
          using that by (induction rs) auto
        then show ?thesis using step facts(2) that by (auto simp: True)
      qed
      ultimately show ?thesis using Cons.prems(2,4) True by (auto simp: less_imp_le)
    next
      case False
      then have "n > f q" using facts(1) by simp
      then show ?thesis using Cons.IH [OF step _ _ _ Cons.prems(5)] Cons.prems(2,4,5) by auto
    qed
  next
    case False
    then have "foldl (\<lambda>best r. if f r > snd best then (r, f r) else best) (t0, n0) rs = (t, n)"
      using Cons.prems(1) by simp
    then show ?thesis using Cons.IH [OF _ _ Cons.prems(3) _ Cons.prems(5)] Cons.prems(2-5) False by auto
  qed
qed simp

lemma best_rule_first:
  assumes "best_rule (c # s) = (t, n)" "rule_length r (c # s) = n"
  shows "rule_number t \<le> rule_number r"
proof -
  have sorted: "sorted_wrt (\<lambda>a b. rule_number a < rule_number b) ruleNames" by (simp add: ruleNames_def)
  have r: "r \<in> set ruleNames" by (cases r) (simp_all add: ruleNames_def)
  have n: "n > 0" using best_rule_longest(3) [OF assms(1)] by simp
  show ?thesis
    by (rule foldl_first [where f = "\<lambda>r. rule_length r (c # s)", OF assms(1) [unfolded best_rule_def] sorted n r assms(2)])
qed

lemma lexer_munch:
  assumes "s \<noteq> []"
  shows "\<exists>tk u. nextTokens s = tk # nextTokens u \<and> s = tk_text tk @ u \<and> in_rule (tk_type tk) (tk_text tk) \<and>
    (\<forall>r w v. in_rule r w \<and> s = w @ v \<longrightarrow> length w \<le> length (tk_text tk)) \<and>
    (\<forall>r. in_rule r (tk_text tk) \<longrightarrow> rule_number (tk_type tk) \<le> rule_number r)"
proof -
  obtain c s' where s: "s = c # s'" using assms by (cases s) auto
  obtain t n where best: "best_rule s = (t, n)" by (cases "best_rule s")
  note longest = best_rule_longest [OF best [unfolded s], folded s]
  have bound: "n \<le> length s" using longest(1) rule_length_bound [of t s] by simp
  have munch: "length w \<le> length (take n s)" if "in_rule r w" "s = w @ v" for r w v
    using rule_length_complete [OF that(1), of v] longest(2) [of r] that(2) bound by simp
  have first: "rule_number t \<le> rule_number r" if "in_rule r (take n s)" for r
  proof -
    have "n \<le> rule_length r s" using rule_length_complete [OF that, of "drop n s"] bound by simp
    then have "rule_length r s = n" using longest(2) [of r] by simp
    then show ?thesis using best_rule_first best unfolding s by blast
  qed
  have "in_rule t (take n s)" using rule_length_sound [of t s] longest(1,3) by simp
  moreover have "nextTokens s = \<lparr>tk_type = t, tk_text = take n s\<rparr> # nextTokens (drop n s)"
    using best by (simp add: s next_token_def)
  ultimately show ?thesis using munch first
    by (intro exI [of _ "\<lparr>tk_type = t, tk_text = take n s\<rparr>"] exI [of _ "drop n s"]) auto
qed

text \<open>
  C37: the lexer reads the text by maximal munch over the rules of the grammar: whatever the text, its
  first token is a prefix of it that belongs to the language of the token's rule, no rule of the
  grammar matches a longer prefix, of the rules that match that prefix the token's comes first in the
  grammar, and the rest of the tokens are those of the rest of the text.
\<close>
theorem lexer_maximal_munch:
  assumes "s \<noteq> []"
  shows "\<exists>tk u. nextTokens s = tk # nextTokens u \<and> s = tk_text tk @ u \<and> in_rule (tk_type tk) (tk_text tk) \<and>
    (\<forall>r w v. in_rule r w \<and> s = w @ v \<longrightarrow> length w \<le> length (tk_text tk)) \<and>
    (\<forall>r. in_rule r (tk_text tk) \<longrightarrow> rule_number (tk_type tk) \<le> rule_number r)"
  by (rule lexer_munch [OF assms])

theorem lexer_maximal_munch_witness:
  "\<exists>tk u. nextTokens ''ANDy'' = tk # nextTokens u \<and> ''ANDy'' = tk_text tk @ u \<and> in_rule (tk_type tk) (tk_text tk)"
  using lexer_maximal_munch [of "''ANDy''"] by auto

text \<open>No character of the text is lost.\<close>

lemma lexer_lossless: "concat (map tk_text (nextTokens s)) = s"
proof (induction s rule: length_induct)
  case (1 s)
  show ?case
  proof (cases s)
    case (Cons c s')
    obtain tk u where next_tk: "next_token s = (tk, u)" by (cases "next_token s")
    have "length u < length s" using next_token_shorter [of s] next_tk Cons by simp
    moreover have "tk_text tk @ u = s"
      using next_tk by (auto simp: next_token_def split: prod.splits)
    ultimately show ?thesis using 1 next_tk Cons by simp
  qed simp
qed

section \<open>The generated parser\<close>

text \<open>
  A parser method reads a prefix of the tokens and returns its tree with the tokens left, or None
  where it notifies the error listener: search then throws whatever the runtime does to recover, so
  nothing read after the first error matters.
\<close>

type_synonym 'a parse = "token list \<Rightarrow> ('a \<times> token list) option"

definition LA :: "token list \<Rightarrow> token_type option" where
  "LA ts = (case ts of [] \<Rightarrow> None | tk # _ \<Rightarrow> Some (tk_type tk))"

definition match_token :: "token_type \<Rightarrow> string parse" where
  "match_token t ts = (case ts of [] \<Rightarrow> None | tk # rest \<Rightarrow> if tk_type tk = t then Some (tk_text tk, rest) else None)"

definition parse_fieldName :: "string parse" where
  "parse_fieldName ts = match_token T_TERM ts"

definition parse_quotedTerm :: "string parse" where
  "parse_quotedTerm ts = match_token T_QUOTED ts"

definition parse_term :: "search_term parse" where
  "parse_term ts =
     (case LA ts of
        Some T_QUOTED \<Rightarrow> map_option (apfst QuotedTerm) (parse_quotedTerm ts)
      | Some T_TERM \<Rightarrow> map_option (apfst PlainTerm) (match_token T_TERM ts)
      | _ \<Rightarrow> None)"

fun compareOperationFromContext :: "token_type \<Rightarrow> comparison_operator option" where
  "compareOperationFromContext T_LESSTHAN = Some LessThan"
| "compareOperationFromContext T_LESSTHANEQ = Some LessThanOrEqual"
| "compareOperationFromContext T_MORETHAN = Some GreaterThan"
| "compareOperationFromContext T_MORETHANEQ = Some GreaterThanOrEqual"
| "compareOperationFromContext _ = None"

definition parse_compareOp :: "comparison_operator parse" where
  "parse_compareOp ts =
     (case ts of [] \<Rightarrow> None
      | tk # rest \<Rightarrow> map_option (\<lambda>op. (op, rest)) (compareOperationFromContext (tk_type tk)))"

definition parse_fieldCompareExpr :: "clause parse" where
  "parse_fieldCompareExpr ts =
     (case parse_fieldName ts of None \<Rightarrow> None
      | Some (fieldName, ts1) \<Rightarrow>
        (case parse_compareOp ts1 of None \<Rightarrow> None
         | Some (op, ts2) \<Rightarrow> map_option (apfst (FieldCompareClause fieldName op)) (match_token T_TERM ts2)))"

definition parse_fieldMatchExpr :: "clause parse" where
  "parse_fieldMatchExpr ts =
     (case parse_fieldName ts of None \<Rightarrow> None
      | Some (fieldName, ts1) \<Rightarrow>
        (if LA ts1 = Some T_COLON \<or> LA ts1 = Some T_EQUAL
         then map_option (apfst (FieldMatchClause fieldName)) (parse_term (tl ts1)) else None))"

definition parse_modifier :: "bool parse" where
  "parse_modifier ts = map_option (apfst (\<lambda>_. True)) (match_token T_NOT ts)"

text \<open>The prediction of clause looks two tokens ahead.\<close>

definition adaptivePredict :: "token list \<Rightarrow> nat option" where
  "adaptivePredict ts =
     (case LA ts of
        Some T_TERM \<Rightarrow>
          (case LA (tl ts) of
             Some op \<Rightarrow> if compareOperationFromContext op \<noteq> None then Some 1
                        else if op = T_COLON \<or> op = T_EQUAL then Some 2 else Some 3
           | None \<Rightarrow> Some 3)
      | Some T_QUOTED \<Rightarrow> Some 3
      | Some T_LPAREN \<Rightarrow> Some 4
      | _ \<Rightarrow> None)"

definition startsDisj :: "token list \<Rightarrow> bool" where
  "startsDisj ts \<longleftrightarrow> LA ts \<in> {Some T_NOT, Some T_LPAREN, Some T_QUOTED, Some T_TERM}"

function parse_query_rule :: "query parse"
  and query_loop :: "disj_query list parse"
  and parse_disjQuery :: "disj_query parse"
  and disj_loop :: "conj_query list parse"
  and parse_conjQuery :: "conj_query parse"
  and conj_loop :: "mod_clause list parse"
  and parse_modClause :: "mod_clause parse"
  and parse_clause :: "clause parse"
  and parse_groupingExpr :: "clause parse" where
  "parse_query_rule ts = map_option (apfst Query) (query_loop ts)"
| "query_loop ts =
     (case parse_disjQuery ts of None \<Rightarrow> None
      | Some (d, rest) \<Rightarrow>
        (if startsDisj rest then map_option (apfst ((#) d)) (query_loop rest) else Some ([d], rest)))"
| "parse_disjQuery ts =
     (case parse_conjQuery ts of None \<Rightarrow> None
      | Some (c, rest) \<Rightarrow> map_option (apfst (\<lambda>cs. DisjQuery (c # cs))) (disj_loop rest))"
| "disj_loop ts =
     (if LA ts = Some T_OR
      then (case parse_conjQuery (tl ts) of None \<Rightarrow> None
            | Some (c, rest) \<Rightarrow> map_option (apfst ((#) c)) (disj_loop rest))
      else Some ([], ts))"
| "parse_conjQuery ts =
     (case parse_modClause ts of None \<Rightarrow> None
      | Some (m, rest) \<Rightarrow> map_option (apfst (\<lambda>ms. ConjQuery (m # ms))) (conj_loop rest))"
| "conj_loop ts =
     (if LA ts = Some T_AND
      then (case parse_modClause (tl ts) of None \<Rightarrow> None
            | Some (m, rest) \<Rightarrow> map_option (apfst ((#) m)) (conj_loop rest))
      else Some ([], ts))"
| "parse_modClause ts =
     (if LA ts = Some T_NOT
      then (case parse_modifier ts of None \<Rightarrow> None
            | Some (m, rest) \<Rightarrow> map_option (apfst (ModClause m)) (parse_clause rest))
      else map_option (apfst (ModClause False)) (parse_clause ts))"
| "parse_clause ts =
     (case adaptivePredict ts of
        None \<Rightarrow> None
      | Some alt \<Rightarrow>
        if alt = 1 then parse_fieldCompareExpr ts
        else if alt = 2 then parse_fieldMatchExpr ts
        else if alt = 3 then map_option (apfst TermClause) (parse_term ts)
        else parse_groupingExpr ts)"
| "parse_groupingExpr ts =
     (case match_token T_LPAREN ts of None \<Rightarrow> None
      | Some (_, ts1) \<Rightarrow>
        (case parse_query_rule ts1 of None \<Rightarrow> None
         | Some (q, ts2) \<Rightarrow>
           (case match_token T_RPAREN ts2 of None \<Rightarrow> None
            | Some (_, ts3) \<Rightarrow> Some (GroupClause q, ts3))))"
  by pat_completeness auto

text \<open>
  Every method that succeeds has read a token, so the loops and the recursion through the
  parentheses end.
\<close>

definition shorter :: "('a \<times> token list) option \<Rightarrow> token list \<Rightarrow> bool" where
  "shorter r ts \<longleftrightarrow> (\<forall>x rest. r = Some (x, rest) \<longrightarrow> length rest < length ts)"

definition no_longer :: "('a \<times> token list) option \<Rightarrow> token list \<Rightarrow> bool" where
  "no_longer r ts \<longleftrightarrow> (\<forall>x rest. r = Some (x, rest) \<longrightarrow> length rest \<le> length ts)"

lemma map_apfst_Some:
  "map_option (apfst f) r = Some (y, rest) \<longleftrightarrow> (\<exists>x. r = Some (x, rest) \<and> y = f x)"
  by (cases r) (auto simp: apfst_def map_prod_def split: prod.splits)

lemma match_token_Some:
  "match_token t ts = Some (w, rest) \<longleftrightarrow> (\<exists>tk. ts = tk # rest \<and> tk_type tk = t \<and> w = tk_text tk)"
  by (cases ts) (auto simp: match_token_def)

lemma LA_Some: "LA ts = Some t \<longleftrightarrow> (\<exists>tk rest. ts = tk # rest \<and> tk_type tk = t)"
  by (cases ts) (auto simp: LA_def)

lemma parse_term_Some:
  "parse_term ts = Some (tm, rest) \<longleftrightarrow>
   (\<exists>tk. ts = tk # rest \<and> (tk_type tk = T_QUOTED \<and> tm = QuotedTerm (tk_text tk) \<or>
                           tk_type tk = T_TERM \<and> tm = PlainTerm (tk_text tk)))"
  unfolding parse_term_def
  by (cases ts; cases "tk_type (hd ts)")
    (auto simp: LA_def parse_quotedTerm_def match_token_def apfst_def)

lemma parse_compareOp_Some:
  "parse_compareOp ts = Some (op, rest) \<longleftrightarrow>
   (\<exists>tk. ts = tk # rest \<and> compareOperationFromContext (tk_type tk) = Some op)"
  by (cases ts) (auto simp: parse_compareOp_def)

lemma parse_heads:
  "match_token t (tk # ts) = (if tk_type tk = t then Some (tk_text tk, ts) else None)"
  "parse_compareOp (tk # ts) = map_option (\<lambda>op. (op, ts)) (compareOperationFromContext (tk_type tk))"
  "LA (tk # ts) = Some (tk_type tk)"
  by (simp_all add: match_token_def parse_compareOp_def LA_def)

lemma parse_fieldCompareExpr_Some:
  "parse_fieldCompareExpr ts = Some (c, rest) \<longleftrightarrow>
   (\<exists>f opt v op. ts = f # opt # v # rest \<and> tk_type f = T_TERM \<and>
      compareOperationFromContext (tk_type opt) = Some op \<and> tk_type v = T_TERM \<and>
      c = FieldCompareClause (tk_text f) op (tk_text v))"
  by (auto simp: parse_fieldCompareExpr_def parse_fieldName_def match_token_Some parse_compareOp_Some map_apfst_Some
      parse_heads split: option.splits)

lemma parse_fieldMatchExpr_Some:
  "parse_fieldMatchExpr ts = Some (c, rest) \<longleftrightarrow>
   (\<exists>f opt us tm. ts = f # opt # us \<and> tk_type f = T_TERM \<and> (tk_type opt = T_COLON \<or> tk_type opt = T_EQUAL) \<and>
      parse_term us = Some (tm, rest) \<and> c = FieldMatchClause (tk_text f) tm)"
  by (auto simp: parse_fieldMatchExpr_def parse_fieldName_def match_token_Some LA_Some map_apfst_Some
      parse_heads split: option.splits)

lemmas parse_results = map_apfst_Some match_token_Some LA_Some parse_term_Some
  parse_fieldCompareExpr_Some parse_fieldMatchExpr_Some

abbreviation parser_dom where
  "parser_dom \<equiv> parse_query_rule_query_loop_parse_disjQuery_disj_loop_parse_conjQuery_conj_loop_parse_modClause_parse_clause_parse_groupingExpr_dom"

lemmas parser_pinduct =
  parse_query_rule_query_loop_parse_disjQuery_disj_loop_parse_conjQuery_conj_loop_parse_modClause_parse_clause_parse_groupingExpr.pinduct

lemma parser_shortens:
  "parser_dom (Inl (Inl (Inl t1))) \<Longrightarrow> shorter (parse_query_rule t1) t1"
  "parser_dom (Inl (Inl (Inr t2))) \<Longrightarrow> shorter (query_loop t2) t2"
  "parser_dom (Inl (Inr (Inl t3))) \<Longrightarrow> shorter (parse_disjQuery t3) t3"
  "parser_dom (Inl (Inr (Inr t4))) \<Longrightarrow> no_longer (disj_loop t4) t4"
  "parser_dom (Inr (Inl (Inl t5))) \<Longrightarrow> shorter (parse_conjQuery t5) t5"
  "parser_dom (Inr (Inl (Inr t6))) \<Longrightarrow> no_longer (conj_loop t6) t6"
  "parser_dom (Inr (Inr (Inl t7))) \<Longrightarrow> shorter (parse_modClause t7) t7"
  "parser_dom (Inr (Inr (Inr (Inl t8)))) \<Longrightarrow> shorter (parse_clause t8) t8"
  "parser_dom (Inr (Inr (Inr (Inr t9)))) \<Longrightarrow> shorter (parse_groupingExpr t9) t9"
proof (induction t1 and t2 and t3 and t4 and t5 and t6 and t7 and t8 and t9 rule: parser_pinduct)
  case (1 ts)
  then show ?case by (auto simp: shorter_def parse_query_rule.psimps map_apfst_Some)
next
  case (2 ts)
  then show ?case
    by (fastforce simp: shorter_def query_loop.psimps map_apfst_Some split: option.splits if_splits)
next
  case (3 ts)
  then show ?case
    by (fastforce simp: shorter_def no_longer_def parse_disjQuery.psimps map_apfst_Some split: option.splits)
next
  case (4 ts)
  then show ?case
    by (fastforce simp: shorter_def no_longer_def disj_loop.psimps parse_results split: option.splits if_splits)
next
  case (5 ts)
  then show ?case
    by (fastforce simp: shorter_def no_longer_def parse_conjQuery.psimps map_apfst_Some split: option.splits)
next
  case (6 ts)
  then show ?case
    by (fastforce simp: shorter_def no_longer_def conj_loop.psimps parse_results split: option.splits if_splits)
next
  case (7 ts)
  then show ?case
    by (fastforce simp: shorter_def parse_modClause.psimps parse_modifier_def parse_results
        split: option.splits if_splits)
next
  case (8 ts)
  then show ?case
    by (fastforce simp: shorter_def parse_clause.psimps parse_results split: option.splits if_splits)
next
  case (9 ts)
  then show ?case
    by (fastforce simp: shorter_def parse_groupingExpr.psimps parse_results split: option.splits)
qed

termination parse_query_rule
proof (relation "measure (case_sum
    (case_sum (case_sum (\<lambda>ts. 9 * length ts + 8) (\<lambda>ts. 9 * length ts + 7))
              (case_sum (\<lambda>ts. 9 * length ts + 6) (\<lambda>ts. 9 * length ts + 5)))
    (case_sum (case_sum (\<lambda>ts. 9 * length ts + 4) (\<lambda>ts. 9 * length ts + 3))
              (case_sum (\<lambda>ts. 9 * length ts + 2) (case_sum (\<lambda>ts. 9 * length ts + 1) (\<lambda>ts. 9 * length ts)))))",
    goal_cases)
qed (auto dest!: parser_shortens simp: shorter_def no_longer_def parse_modifier_def parse_results)

section \<open>The grammar\<close>

text \<open>
  The rules of the .g4 file over tokens, with the tree each derivation builds.
\<close>

inductive g_term :: "token list \<Rightarrow> search_term \<Rightarrow> bool" where
  "tk_type tk = T_QUOTED \<Longrightarrow> g_term [tk] (QuotedTerm (tk_text tk))"
| "tk_type tk = T_TERM \<Longrightarrow> g_term [tk] (PlainTerm (tk_text tk))"

inductive g_query :: "token list \<Rightarrow> query \<Rightarrow> bool"
  and g_disjQueries :: "token list \<Rightarrow> disj_query list \<Rightarrow> bool"
  and g_disjQuery :: "token list \<Rightarrow> disj_query \<Rightarrow> bool"
  and g_orTail :: "token list \<Rightarrow> conj_query list \<Rightarrow> bool"
  and g_conjQuery :: "token list \<Rightarrow> conj_query \<Rightarrow> bool"
  and g_andTail :: "token list \<Rightarrow> mod_clause list \<Rightarrow> bool"
  and g_modClause :: "token list \<Rightarrow> mod_clause \<Rightarrow> bool"
  and g_clause :: "token list \<Rightarrow> clause \<Rightarrow> bool" where
  g_query: "g_disjQueries ts ds \<Longrightarrow> g_query ts (Query ds)"
| g_one: "g_disjQuery ts d \<Longrightarrow> g_disjQueries ts [d]"
| g_more: "g_disjQuery ts d \<Longrightarrow> g_disjQueries us ds \<Longrightarrow> g_disjQueries (ts @ us) (d # ds)"
| g_disjQuery: "g_conjQuery ts c \<Longrightarrow> g_orTail us cs \<Longrightarrow> g_disjQuery (ts @ us) (DisjQuery (c # cs))"
| g_noOr: "g_orTail [] []"
| g_or: "tk_type tk = T_OR \<Longrightarrow> g_conjQuery ts c \<Longrightarrow> g_orTail us cs \<Longrightarrow> g_orTail (tk # ts @ us) (c # cs)"
| g_conjQuery: "g_modClause ts m \<Longrightarrow> g_andTail us ms \<Longrightarrow> g_conjQuery (ts @ us) (ConjQuery (m # ms))"
| g_noAnd: "g_andTail [] []"
| g_and: "tk_type tk = T_AND \<Longrightarrow> g_modClause ts m \<Longrightarrow> g_andTail us ms \<Longrightarrow> g_andTail (tk # ts @ us) (m # ms)"
| g_plain: "g_clause ts c \<Longrightarrow> g_modClause ts (ModClause False c)"
| g_not: "tk_type tk = T_NOT \<Longrightarrow> g_clause ts c \<Longrightarrow> g_modClause (tk # ts) (ModClause True c)"
| g_fieldCompareExpr: "tk_type f = T_TERM \<Longrightarrow> compareOperationFromContext (tk_type opt) = Some op \<Longrightarrow>
     tk_type v = T_TERM \<Longrightarrow> g_clause [f, opt, v] (FieldCompareClause (tk_text f) op (tk_text v))"
| g_fieldMatchExpr: "tk_type f = T_TERM \<Longrightarrow> tk_type opt = T_COLON \<or> tk_type opt = T_EQUAL \<Longrightarrow> g_term ts tm \<Longrightarrow>
     g_clause (f # opt # ts) (FieldMatchClause (tk_text f) tm)"
| g_termClause: "g_term ts tm \<Longrightarrow> g_clause ts (TermClause tm)"
| g_groupingExpr: "tk_type l = T_LPAREN \<Longrightarrow> g_query ts q \<Longrightarrow> tk_type r = T_RPAREN \<Longrightarrow>
     g_clause (l # ts @ [r]) (GroupClause q)"

lemmas grammar_rules = g_query_g_disjQueries_g_disjQuery_g_orTail_g_conjQuery_g_andTail_g_modClause_g_clause.intros

lemma parse_term_sound: "parse_term ts = Some (tm, rest) \<Longrightarrow> \<exists>us. ts = us @ rest \<and> g_term us tm"
  by (auto simp: parse_term_Some intro: g_term.intros)

text \<open>Soundness: what a method returns is the tree of a derivation of the tokens it has read.\<close>

definition reads :: "('a \<times> token list) option \<Rightarrow> token list \<Rightarrow> (token list \<Rightarrow> 'a \<Rightarrow> bool) \<Rightarrow> bool" where
  "reads r ts g \<longleftrightarrow> (\<forall>x rest. r = Some (x, rest) \<longrightarrow> (\<exists>us. ts = us @ rest \<and> g us x))"

lemma readsI: "(\<And>x rest. r = Some (x, rest) \<Longrightarrow> \<exists>us. ts = us @ rest \<and> g us x) \<Longrightarrow> reads r ts g"
  by (simp add: reads_def)

lemma readsD: "reads r ts g \<Longrightarrow> r = Some (x, rest) \<Longrightarrow> \<exists>us. ts = us @ rest \<and> g us x"
  by (simp add: reads_def)

lemmas parser_induct =
  parse_query_rule_query_loop_parse_disjQuery_disj_loop_parse_conjQuery_conj_loop_parse_modClause_parse_clause_parse_groupingExpr.induct

declare parse_query_rule.simps [simp del] query_loop.simps [simp del] parse_disjQuery.simps [simp del]
  disj_loop.simps [simp del] parse_conjQuery.simps [simp del] conj_loop.simps [simp del]
  parse_modClause.simps [simp del] parse_clause.simps [simp del] parse_groupingExpr.simps [simp del]

lemma parser_sound_lemma:
  "reads (parse_query_rule t1) t1 g_query"
  "reads (query_loop t2) t2 g_disjQueries"
  "reads (parse_disjQuery t3) t3 g_disjQuery"
  "reads (disj_loop t4) t4 g_orTail"
  "reads (parse_conjQuery t5) t5 g_conjQuery"
  "reads (conj_loop t6) t6 g_andTail"
  "reads (parse_modClause t7) t7 g_modClause"
  "reads (parse_clause t8) t8 g_clause"
  "reads (parse_groupingExpr t9) t9 g_clause"
proof (induction t1 and t2 and t3 and t4 and t5 and t6 and t7 and t8 and t9 rule: parser_induct)
  case (1 ts)
  show ?case
  proof (rule readsI)
    fix x rest
    assume "parse_query_rule ts = Some (x, rest)"
    then obtain ds where "query_loop ts = Some (ds, rest)" "x = Query ds"
      by (auto simp: parse_query_rule.simps map_apfst_Some)
    then show "\<exists>us. ts = us @ rest \<and> g_query us x" using readsD [OF 1] g_query by blast
  qed
next
  case (2 ts)
  show ?case
  proof (rule readsI)
    fix ds rest
    assume "query_loop ts = Some (ds, rest)"
    then obtain d mid where d: "parse_disjQuery ts = Some (d, mid)"
      and more: "if startsDisj mid then \<exists>es. query_loop mid = Some (es, rest) \<and> ds = d # es
                 else ds = [d] \<and> mid = rest"
      by (subst (asm) query_loop.simps) (auto simp: map_apfst_Some split: option.splits if_splits)
    obtain us where us: "ts = us @ mid" "g_disjQuery us d" using readsD [OF 2(1) d] by blast
    show "\<exists>us. ts = us @ rest \<and> g_disjQueries us ds"
    proof (cases "startsDisj mid")
      case True
      then obtain es where es: "query_loop mid = Some (es, rest)" "ds = d # es" using more by auto
      obtain vs where "mid = vs @ rest" "g_disjQueries vs es"
        using readsD [OF 2(2) [OF d refl True] es(1)] by blast
      then show ?thesis using us es by (intro exI [of _ "us @ vs"]) (simp add: g_more)
    qed (use us more in \<open>auto intro: g_one\<close>)
  qed
next
  case (3 ts)
  show ?case
  proof (rule readsI)
    fix x rest
    assume "parse_disjQuery ts = Some (x, rest)"
    then obtain c mid cs where c: "parse_conjQuery ts = Some (c, mid)" and cs: "disj_loop mid = Some (cs, rest)"
      "x = DisjQuery (c # cs)"
      by (subst (asm) parse_disjQuery.simps) (auto simp: map_apfst_Some split: option.splits)
    show "\<exists>us. ts = us @ rest \<and> g_disjQuery us x"
      using readsD [OF 3(1) c] readsD [OF 3(2) [OF c refl] cs(1)] cs(2) g_disjQuery by fastforce
  qed
next
  case (4 ts)
  show ?case
  proof (rule readsI)
    fix cs rest
    assume res: "disj_loop ts = Some (cs, rest)"
    show "\<exists>us. ts = us @ rest \<and> g_orTail us cs"
    proof (cases "LA ts = Some T_OR")
      case True
      obtain c mid es where c: "parse_conjQuery (tl ts) = Some (c, mid)" and es: "disj_loop mid = Some (es, rest)"
        "cs = c # es"
        using res by (subst (asm) disj_loop.simps) (auto simp: True map_apfst_Some split: option.splits)
      obtain us vs where "tl ts = us @ mid" "g_conjQuery us c" "mid = vs @ rest" "g_orTail vs es"
        using readsD [OF 4(1) [OF True] c] readsD [OF 4(2) [OF True c refl] es(1)] by blast
      then show ?thesis using True es(2) g_or by (fastforce simp: LA_Some)
    qed (use res in \<open>auto simp: disj_loop.simps intro: g_noOr\<close>)
  qed
next
  case (5 ts)
  show ?case
  proof (rule readsI)
    fix x rest
    assume "parse_conjQuery ts = Some (x, rest)"
    then obtain m mid ms where m: "parse_modClause ts = Some (m, mid)" and ms: "conj_loop mid = Some (ms, rest)"
      "x = ConjQuery (m # ms)"
      by (subst (asm) parse_conjQuery.simps) (auto simp: map_apfst_Some split: option.splits)
    show "\<exists>us. ts = us @ rest \<and> g_conjQuery us x"
      using readsD [OF 5(1) m] readsD [OF 5(2) [OF m refl] ms(1)] ms(2) g_conjQuery by fastforce
  qed
next
  case (6 ts)
  show ?case
  proof (rule readsI)
    fix ms rest
    assume res: "conj_loop ts = Some (ms, rest)"
    show "\<exists>us. ts = us @ rest \<and> g_andTail us ms"
    proof (cases "LA ts = Some T_AND")
      case True
      obtain m mid es where m: "parse_modClause (tl ts) = Some (m, mid)" and es: "conj_loop mid = Some (es, rest)"
        "ms = m # es"
        using res by (subst (asm) conj_loop.simps) (auto simp: True map_apfst_Some split: option.splits)
      obtain us vs where "tl ts = us @ mid" "g_modClause us m" "mid = vs @ rest" "g_andTail vs es"
        using readsD [OF 6(1) [OF True] m] readsD [OF 6(2) [OF True m refl] es(1)] by blast
      then show ?thesis using True es(2) g_and by (fastforce simp: LA_Some)
    qed (use res in \<open>auto simp: conj_loop.simps intro: g_noAnd\<close>)
  qed
next
  case (7 ts)
  show ?case
  proof (rule readsI)
    fix x rest
    assume res: "parse_modClause ts = Some (x, rest)"
    show "\<exists>us. ts = us @ rest \<and> g_modClause us x"
    proof (cases "LA ts = Some T_NOT")
      case True
      then obtain tk mid c where tk: "ts = tk # mid" "tk_type tk = T_NOT"
        and m: "parse_modifier ts = Some (True, mid)" and c: "parse_clause mid = Some (c, rest)" "x = ModClause True c"
        using res by (subst (asm) parse_modClause.simps) (auto simp: parse_modifier_def parse_results parse_heads)
      show ?thesis using readsD [OF 7(1) [OF True m refl] c(1)] tk c(2) g_not by fastforce
    next
      case False
      then obtain c where c: "parse_clause ts = Some (c, rest)" "x = ModClause False c"
        using res by (subst (asm) parse_modClause.simps) (auto simp: map_apfst_Some)
      show ?thesis using readsD [OF 7(2) [OF False] c(1)] c(2) g_plain by fastforce
    qed
  qed
next
  case (8 ts)
  show ?case
  proof (rule readsI)
    fix x rest
    assume "parse_clause ts = Some (x, rest)"
    then consider "parse_fieldCompareExpr ts = Some (x, rest)" | "parse_fieldMatchExpr ts = Some (x, rest)"
      | tm where "parse_term ts = Some (tm, rest)" "x = TermClause tm"
      | alt where "adaptivePredict ts = Some alt" "alt \<noteq> 1" "alt \<noteq> 2" "alt \<noteq> 3" "parse_groupingExpr ts = Some (x, rest)"
      by (subst (asm) parse_clause.simps) (auto simp: map_apfst_Some split: option.splits if_splits)
    then show "\<exists>us. ts = us @ rest \<and> g_clause us x"
    proof cases
      case 1
      then show ?thesis by (fastforce simp: parse_fieldCompareExpr_Some intro: g_fieldCompareExpr)
    next
      case 2
      then show ?thesis
        using parse_term_sound by (fastforce simp: parse_fieldMatchExpr_Some intro: g_fieldMatchExpr)
    next
      case 3
      then show ?thesis using parse_term_sound g_termClause by blast
    next
      case 4
      then show ?thesis using readsD [OF 8 [OF 4(1-4)]] by blast
    qed
  qed
next
  case (9 ts)
  show ?case
  proof (rule readsI)
    fix x rest
    assume "parse_groupingExpr ts = Some (x, rest)"
    then obtain l q mid r where l: "ts = l # mid" "tk_type l = T_LPAREN"
      and q: "parse_query_rule mid = Some (q, r # rest)" "tk_type r = T_RPAREN" "x = GroupClause q"
      by (subst (asm) parse_groupingExpr.simps) (auto simp: match_token_Some split: option.splits)
    have "match_token T_LPAREN ts = Some (tk_text l, mid)" using l by (simp add: match_token_Some)
    from readsD [OF 9 [OF this refl] q(1)] obtain us where "mid = us @ r # rest" "g_query us q" by blast
    then show "\<exists>us. ts = us @ rest \<and> g_clause us x"
      using l q g_groupingExpr by (intro exI [of _ "l # us @ [r]"]) simp
  qed
qed

text \<open>
  Completeness: tokens the grammar derives are read in full, when what follows them cannot continue
  the rule.
\<close>

definition operator :: "token_type \<Rightarrow> bool" where
  "operator t \<longleftrightarrow> t = T_COLON \<or> t = T_EQUAL \<or> compareOperationFromContext t \<noteq> None"

definition stop_clause :: "token list \<Rightarrow> bool" where
  "stop_clause ts \<longleftrightarrow> (case LA ts of None \<Rightarrow> True | Some t \<Rightarrow> \<not> operator t)"

definition stop_conj :: "token list \<Rightarrow> bool" where
  "stop_conj ts \<longleftrightarrow> stop_clause ts \<and> LA ts \<noteq> Some T_AND"

definition stop_disj :: "token list \<Rightarrow> bool" where
  "stop_disj ts \<longleftrightarrow> stop_conj ts \<and> LA ts \<noteq> Some T_OR"

definition stop_query :: "token list \<Rightarrow> bool" where
  "stop_query ts \<longleftrightarrow> stop_disj ts \<and> \<not> startsDisj ts"

lemmas stops = stop_clause_def stop_conj_def stop_disj_def stop_query_def operator_def

lemma stop_nil: "stop_query []"
  by (simp add: stops LA_def startsDisj_def)

lemma stop_rparen: "tk_type r = T_RPAREN \<Longrightarrow> stop_query (r # ts)"
  by (simp add: stops LA_def startsDisj_def)

lemma startsDisj_append: "startsDisj us \<Longrightarrow> startsDisj (us @ ts)"
  by (cases us) (auto simp: startsDisj_def LA_def)

lemma startsDisj_stop: "startsDisj us \<Longrightarrow> stop_disj us"
  by (auto simp: startsDisj_def stops)

lemma g_term_first: "g_term us tm \<Longrightarrow> \<exists>tk. us = [tk] \<and> (tk_type tk = T_QUOTED \<or> tk_type tk = T_TERM)"
  by (auto elim: g_term.cases)

lemma grammar_first:
  "g_query t1 q1 \<Longrightarrow> startsDisj t1"
  "g_disjQueries t2 q2 \<Longrightarrow> startsDisj t2"
  "g_disjQuery t3 q3 \<Longrightarrow> startsDisj t3"
  "g_orTail t4 q4 \<Longrightarrow> t4 = [] \<or> LA t4 = Some T_OR"
  "g_conjQuery t5 q5 \<Longrightarrow> startsDisj t5"
  "g_andTail t6 q6 \<Longrightarrow> t6 = [] \<or> LA t6 = Some T_AND"
  "g_modClause t7 q7 \<Longrightarrow> startsDisj t7"
  "g_clause t8 q8 \<Longrightarrow> startsDisj t8 \<and> LA t8 \<noteq> Some T_NOT"
proof (induction rule: g_query_g_disjQueries_g_disjQuery_g_orTail_g_conjQuery_g_andTail_g_modClause_g_clause.inducts)
  case (g_termClause ts tm)
  then show ?case using g_term_first by (fastforce simp: startsDisj_def LA_def)
qed (simp_all add: startsDisj_append, simp_all add: startsDisj_def LA_def)

lemma orTail_stop: "g_orTail us cs \<Longrightarrow> stop_disj ts \<Longrightarrow> stop_conj (us @ ts)"
  using grammar_first(4) [of us cs] by (cases us) (auto simp: stops LA_def)

lemma andTail_stop: "g_andTail us ms \<Longrightarrow> stop_conj ts \<Longrightarrow> stop_clause (us @ ts)"
  using grammar_first(6) [of us ms] by (cases us) (auto simp: stops LA_def)

lemma g_term_parses: "g_term us tm \<Longrightarrow> parse_term (us @ ts) = Some (tm, ts)"
  by (auto elim!: g_term.cases simp: parse_term_Some)

lemma parser_complete_lemma:
  "g_query t1 q1 \<Longrightarrow> stop_query ts \<Longrightarrow> parse_query_rule (t1 @ ts) = Some (q1, ts)"
  "g_disjQueries t2 q2 \<Longrightarrow> stop_query ts \<Longrightarrow> query_loop (t2 @ ts) = Some (q2, ts)"
  "g_disjQuery t3 q3 \<Longrightarrow> stop_disj ts \<Longrightarrow> parse_disjQuery (t3 @ ts) = Some (q3, ts)"
  "g_orTail t4 q4 \<Longrightarrow> stop_disj ts \<Longrightarrow> disj_loop (t4 @ ts) = Some (q4, ts)"
  "g_conjQuery t5 q5 \<Longrightarrow> stop_conj ts \<Longrightarrow> parse_conjQuery (t5 @ ts) = Some (q5, ts)"
  "g_andTail t6 q6 \<Longrightarrow> stop_conj ts \<Longrightarrow> conj_loop (t6 @ ts) = Some (q6, ts)"
  "g_modClause t7 q7 \<Longrightarrow> stop_clause ts \<Longrightarrow> parse_modClause (t7 @ ts) = Some (q7, ts)"
  "g_clause t8 q8 \<Longrightarrow> stop_clause ts \<Longrightarrow> parse_clause (t8 @ ts) = Some (q8, ts)"
proof (induction arbitrary: ts and ts and ts and ts and ts and ts and ts and ts
    rule: g_query_g_disjQueries_g_disjQuery_g_orTail_g_conjQuery_g_andTail_g_modClause_g_clause.inducts)
  case (g_query us ds)
  then show ?case by (simp add: parse_query_rule.simps)
next
  case (g_one us d)
  then show ?case by (subst query_loop.simps) (simp add: stop_query_def)
next
  case (g_more us d vs ds)
  have "startsDisj (vs @ ts)" using grammar_first(2) [OF g_more.hyps(2)] by (rule startsDisj_append)
  then show ?case using g_more.IH(1) [OF startsDisj_stop] g_more.IH(2) [OF g_more.prems]
    by (subst query_loop.simps) simp
next
  case (g_disjQuery us c vs cs)
  then show ?case using orTail_stop [OF g_disjQuery.hyps(2)] by (subst parse_disjQuery.simps) simp
next
  case g_noOr
  then show ?case by (subst disj_loop.simps) (simp add: stop_disj_def)
next
  case (g_or tk us c vs cs)
  then show ?case using orTail_stop [OF g_or.hyps(3)] by (subst disj_loop.simps) (simp add: LA_def)
next
  case (g_conjQuery us m vs ms)
  then show ?case using andTail_stop [OF g_conjQuery.hyps(2)] by (subst parse_conjQuery.simps) simp
next
  case g_noAnd
  then show ?case by (subst conj_loop.simps) (simp add: stop_conj_def)
next
  case (g_and tk us m vs ms)
  then show ?case using andTail_stop [OF g_and.hyps(3)] by (subst conj_loop.simps) (simp add: LA_def)
next
  case (g_plain us c)
  have "LA (us @ ts) \<noteq> Some T_NOT"
    using grammar_first(8) [OF g_plain.hyps] by (cases us) (auto simp: startsDisj_def LA_def)
  then show ?case using g_plain by (subst parse_modClause.simps) simp
next
  case (g_not tk us c)
  then show ?case by (subst parse_modClause.simps) (simp add: parse_modifier_def parse_heads)
next
  case (g_fieldCompareExpr f opt op v)
  then show ?case
    by (subst parse_clause.simps) (auto simp: adaptivePredict_def LA_def parse_fieldCompareExpr_Some)
next
  case (g_fieldMatchExpr f opt us tm)
  have "compareOperationFromContext (tk_type opt) = None" using g_fieldMatchExpr.hyps(2) by auto
  then show ?case using g_fieldMatchExpr g_term_parses [OF g_fieldMatchExpr.hyps(3)]
    by (subst parse_clause.simps) (auto simp: adaptivePredict_def LA_def parse_fieldMatchExpr_Some)
next
  case (g_termClause us tm)
  obtain tk where tk: "us = [tk]" "tk_type tk = T_QUOTED \<or> tk_type tk = T_TERM"
    using g_term_first [OF g_termClause.hyps] by blast
  have "adaptivePredict (us @ ts) = Some 3"
    using tk g_termClause.prems by (auto simp: adaptivePredict_def LA_def stops split: list.splits)
  then show ?case using g_term_parses [OF g_termClause.hyps] by (subst parse_clause.simps) simp
next
  case (g_groupingExpr l us q r)
  have "adaptivePredict ((l # us @ [r]) @ ts) = Some 4"
    using g_groupingExpr.hyps by (simp add: adaptivePredict_def LA_def)
  moreover have "parse_query_rule (us @ r # ts) = Some (q, r # ts)"
    by (rule g_groupingExpr.IH [OF stop_rparen [OF g_groupingExpr.hyps(3)]])
  ultimately show ?case using g_groupingExpr.hyps
    by (subst parse_clause.simps) (simp add: parse_groupingExpr.simps parse_heads)
qed

section \<open>The parser of search\<close>

definition parse_rootQuery :: "token list \<Rightarrow> query option" where
  "parse_rootQuery ts = (case parse_query_rule ts of Some (q, []) \<Rightarrow> Some q | _ \<Rightarrow> None)"

text \<open>
  search reads the text with \<open>parser.query()\<close>: the tokens left over are not looked at.  The messages
  the error listener collects are the runtime's: \<open>messages\<close> stands for them.
\<close>

definition antlr_parser :: "(string \<Rightarrow> string list) \<Rightarrow> parser" where
  "antlr_parser messages s =
     (case parse_query_rule (tokenize s) of None \<Rightarrow> Inl (messages s) | Some (q, _) \<Rightarrow> Inr q)"

lemma parse_query_prefix: "parse_query_rule ts = Some (q, rest) \<Longrightarrow> \<exists>us. ts = us @ rest \<and> g_query us q"
  using parser_sound_lemma(1) [of ts] by (auto simp: reads_def)

lemma parse_query_derivable: "g_query ts q \<Longrightarrow> parse_query_rule ts = Some (q, [])"
  using parser_complete_lemma(1) [OF _ stop_nil, of ts q] by simp

lemma derivable_parser: "g_query (tokenize s) q \<Longrightarrow> antlr_parser messages s = Inr q"
  by (simp add: antlr_parser_def parse_query_derivable)

text \<open>
  C6: the generated recursive descent parser is the grammar's: on every list of tokens, the methods
  from rootQuery down (the loop over adjacent clauses, the OR and AND loops, the optional NOT, the
  two-token prediction between the four kinds of clause and the recursion through parentheses) accept
  with the tree q exactly when the rules of the .g4 file derive the tokens with the tree q. With the
  parser a function, the grammar is unambiguous.
\<close>
theorem parser_equals_grammar: "parse_rootQuery ts = Some q \<longleftrightarrow> g_query ts q"
proof
  assume "parse_rootQuery ts = Some q"
  then have "parse_query_rule ts = Some (q, [])"
    by (auto simp: parse_rootQuery_def split: option.splits prod.splits list.splits)
  then show "g_query ts q" using parse_query_prefix by fastforce
next
  assume "g_query ts q"
  then show "parse_rootQuery ts = Some q" by (simp add: parse_rootQuery_def parse_query_derivable)
qed

definition tok :: "token_type \<Rightarrow> string \<Rightarrow> token" where
  "tok t s = \<lparr>tk_type = t, tk_text = s\<rparr>"

text \<open>
  C5: what a search for a text shows. When the tokens of the text are derivable in the grammar, the
  search finds exactly the transactions the derived query holds for, in their order, whatever the
  runtime's error messages are: lexer, parser, visitor and the final filter together compute the
  meaning of the query.
\<close>
theorem search_of_text:
  assumes "g_query (tokenize (sp_query params)) q" and "trim (sp_query params) \<noteq> []"
    and "distinct (map tx_id (sp_transactions params))"
    and "search (antlr_parser messages) df params = Inr found"
  shows "\<exists>tree. makeCategoryTree (sp_categories params) = Inr tree \<and>
    found = filter (query_holds (context_of df params tree) q) (sp_transactions params)"
  using search_lemma [OF assms(3,2,4)] derivable_parser [OF assms(1), of messages] by auto

definition sample_text_search :: search_params where
  "sample_text_search = sample_search\<lparr>sp_query := ''NOT (vendor:aldi OR amount>5) payer=employer''\<rparr>"

definition sample_text_query :: query where
  "sample_text_query = Query
     [DisjQuery [ConjQuery [ModClause True (GroupClause (Query
        [DisjQuery [ConjQuery [ModClause False (FieldMatchClause ''vendor'' (PlainTerm ''aldi''))],
                    ConjQuery [ModClause False (FieldCompareClause ''amount'' GreaterThan ''5'')]]]))]],
      DisjQuery [ConjQuery [ModClause False (FieldMatchClause ''payer'' (PlainTerm ''employer''))]]]"

lemma sample_text_parsed: "parse_rootQuery (tokenize (sp_query sample_text_search)) = Some sample_text_query"
  by code_simp

lemma sample_text_found:
  "search (antlr_parser (\<lambda>_. [])) sample_dates sample_text_search = Inr [Income sample_income]"
  by code_simp

theorem search_of_text_witness:
  "\<exists>tree. makeCategoryTree (sp_categories sample_text_search) = Inr tree \<and>
     [Income sample_income] = filter (query_holds (context_of sample_dates sample_text_search tree) sample_text_query)
       (sp_transactions sample_text_search)"
proof -
  have "g_query (tokenize (sp_query sample_text_search)) sample_text_query"
    using sample_text_parsed parse_query_prefix
    by (fastforce simp: parse_rootQuery_def split: option.splits prod.splits list.splits)
  moreover have "trim (sp_query sample_text_search) \<noteq> []" "distinct (map tx_id (sp_transactions sample_text_search))"
    by code_simp+
  ultimately show ?thesis using search_of_text sample_text_found by blast
qed

text \<open>
  What follows the longest query is dropped without an error: a stray parenthesis, a slash, a second
  colon.
\<close>

lemma search_reads_a_prefix:
  "antlr_parser messages s = Inr q \<Longrightarrow> \<exists>us rest. tokenize s = us @ rest \<and> g_query us q"
  using parse_query_prefix by (fastforce simp: antlr_parser_def split: option.splits prod.splits)

lemma stray_parenthesis_hides_terms:
  "antlr_parser messages ''tea ) coffee'' = antlr_parser messages ''tea''"
  "antlr_parser messages ''date>=2024/01/01'' = antlr_parser messages ''date>=2024''"
  "antlr_parser messages ''vendor:M&S:food'' = antlr_parser messages ''vendor:M&S''"
  "parse_rootQuery (tokenize ''tea ) coffee'') = None"
  unfolding antlr_parser_def by code_simp+

text \<open>An escaped character stays escaped in the term: the backslash is searched for as well.\<close>

lemma escape_is_searched_for:
  "antlr_parser messages (''a'' @ [backslash] @ '':b'') =
   Inr (Query [DisjQuery [ConjQuery [ModClause False (TermClause (PlainTerm (''a'' @ [backslash] @ '':b'')))]]])"
  unfolding antlr_parser_def by code_simp

end
