(* ===== verification/Filters.thy ===== *)
theory Filters
  imports QueryParser Lists
begin

text \<open>
  The filters of the transactions page: components/transactions/filters (the form and its schema, its
  options, the query generated from it) and app/(authenticated)/transactions/TransactionsPage.tsx (the
  form's values over time and what the page lists).  The generated query is proved to be the query of
  the filters by running it through the lexer and the parser of theory QueryParser.
\<close>

section \<open>The form\<close>

datatype filter_type = FilterPersonal | FilterExternal | FilterTransfer | FilterIncome

fun filter_type_name :: "filter_type \<Rightarrow> string" where
  "filter_type_name FilterPersonal = ''personal''"
| "filter_type_name FilterExternal = ''external''"
| "filter_type_name FilterTransfer = ''transfer''"
| "filter_type_name FilterIncome = ''income''"

record filters_form =
  ff_query :: string
  ff_transactionTypes :: "filter_type list"
  ff_vendor :: string
  ff_timeFrom :: string
  ff_timeTo :: string
  ff_accountIds :: "int list"
  ff_categoryIds :: "int list"
  ff_tripNames :: "string list"
  ff_tagIds :: "int list"
  ff_allTagsShouldMatch :: bool

definition filtersFormValidationSchema :: "filters_form \<Rightarrow> bool" where
  "filtersFormValidationSchema f \<longleftrightarrow>
     list_all (\<lambda>i. i > 0) (ff_accountIds f) \<and> list_all (\<lambda>i. i > 0) (ff_categoryIds f) \<and>
     list_all (\<lambda>i. i > 0) (ff_tagIds f)"

definition default_filters :: filters_form where
  "default_filters = \<lparr>ff_query = [], ff_transactionTypes = [], ff_vendor = [], ff_timeFrom = [], ff_timeTo = [],
     ff_accountIds = [], ff_categoryIds = [], ff_tripNames = [], ff_tagIds = [], ff_allTagsShouldMatch = False\<rparr>"

text \<open>The options the form offers.\<close>

definition bank_account_filter_options :: "bank list \<Rightarrow> bank_account list \<Rightarrow> (int \<times> string) list result" where
  "bank_account_filter_options banks bankAccounts =
     map_result (\<lambda>a. bind_result (fullAccountName a banks) (\<lambda>name.
       Inr (acc_id a, name @ (if acc_archived a then '' (archived)'' else [])))) bankAccounts"

definition category_filter_options :: "category list \<Rightarrow> (int \<times> string) list result" where
  "category_filter_options categories =
     bind_result (makeCategoryTree categories) (\<lambda>tree.
       map_result (\<lambda>c. bind_result (getNameWithAncestors (ACategory c) tree) (\<lambda>name. Inr (cat_id c, name))) categories)"

definition trip_filter_options :: "trip list \<Rightarrow> (string \<times> string) list" where
  "trip_filter_options trips = map (\<lambda>t. (trip_name t, trip_name t)) trips"

definition tag_filter_options :: "tag list \<Rightarrow> (int \<times> string) list" where
  "tag_filter_options tags = map (\<lambda>t. (tag_id t, tag_name t)) tags"

definition transactionTypeOptions :: "(filter_type \<times> string) list" where
  "transactionTypeOptions = [(FilterPersonal, ''Personal''), (FilterExternal, ''External''),
     (FilterTransfer, ''Transfer''), (FilterIncome, ''Income'')]"

section \<open>The generated query\<close>

text \<open>
  \<open>formatDay\<close> is \<open>format(new Date(s), 'yyyy-MM-dd')\<close> of date-fns, None where it throws a RangeError.
\<close>

definition appendOR :: "string option list \<Rightarrow> string list" where
  "appendOR ors =
     (let found = filter (\<lambda>x. length (trim x) > 0) (List.map_filter (\<lambda>x. x) ors)
      in if length found > 1 then [''('' @ join '' OR '' found @ '')''] else found)"

definition day_part :: "(string \<Rightarrow> string option) \<Rightarrow> string \<Rightarrow> string \<Rightarrow> string option result" where
  "day_part formatDay field s =
     (if s = [] then Inr (Some [])
      else case formatDay s of None \<Rightarrow> Inl InvalidDate | Some day \<Rightarrow> Inr (Some (field @ day)))"

definition tag_parts :: "filters_form \<Rightarrow> tag list \<Rightarrow> string list" where
  "tag_parts f tags =
     (if length (ff_tagIds f) > 0 then
        let selectedTags = filter (\<lambda>t. tag_id t \<in> set (ff_tagIds f)) tags;
            tagParts = map (\<lambda>t. ''tag:'' @ tag_name t) selectedTags
        in if length tagParts > 1 \<and> \<not> ff_allTagsShouldMatch f
           then [''('' @ join '' OR '' tagParts @ '')''] else tagParts
      else [])"

definition generateQuery :: "(string \<Rightarrow> string option) \<Rightarrow> filters_form \<Rightarrow> tag list \<Rightarrow> string result" where
  "generateQuery formatDay f tags =
     bind_result (day_part formatDay ''date>='' (ff_timeFrom f)) (\<lambda>from.
     bind_result (day_part formatDay ''date<='' (ff_timeTo f)) (\<lambda>to.
       Inr (join '' '' (
         appendOR (map (\<lambda>tt. Some (''t:'' @ filter_type_name tt)) (ff_transactionTypes f)) @
         appendOR [Some (if ff_vendor f = [] then [] else ''vendor:'' @ ff_vendor f)] @
         appendOR (map (\<lambda>i. Some (''account:'' @ string_of_int i)) (ff_accountIds f)) @
         appendOR (map (\<lambda>i. Some (''c:'' @ string_of_int i)) (ff_categoryIds f)) @
         appendOR (map (\<lambda>t. Some (''trip:'' @ t)) (ff_tripNames f)) @
         appendOR [from] @
         appendOR [to] @
         tag_parts f tags))))"

section \<open>The form over time\<close>

text \<open>
  The form renders with its values; the effect of UpdateQueryOnFormChange runs after the first render
  and after each render whose generated query differs from the one before, and overwrites the query.
  A user types in the query field or changes a filter.
\<close>

datatype filters_event =
    TypeQuery string
  | SetTransactionTypes "filter_type list"
  | SetVendor string
  | SetTimeFrom string
  | SetTimeTo string
  | SetAccountIds "int list"
  | SetCategoryIds "int list"
  | SetTripNames "string list"
  | SetTagIds "int list"
  | SetAllTagsShouldMatch bool

record filters_state =
  fs_form :: filters_form
  fs_generated :: "string option"

definition query_effect :: "(string \<Rightarrow> string option) \<Rightarrow> tag list \<Rightarrow> filters_state \<Rightarrow> filters_state result" where
  "query_effect formatDay tags s =
     bind_result (generateQuery formatDay (fs_form s) tags) (\<lambda>generatedQuery.
       Inr (if fs_generated s = Some generatedQuery then s
            else \<lparr>fs_form = (fs_form s)\<lparr>ff_query := generatedQuery\<rparr>, fs_generated = Some generatedQuery\<rparr>))"

definition mount_filters :: "(string \<Rightarrow> string option) \<Rightarrow> tag list \<Rightarrow> filters_state result" where
  "mount_filters formatDay tags = query_effect formatDay tags \<lparr>fs_form = default_filters, fs_generated = None\<rparr>"

fun filters_event_step :: "filters_event \<Rightarrow> filters_form \<Rightarrow> filters_form" where
  "filters_event_step (TypeQuery q) f = f\<lparr>ff_query := q\<rparr>"
| "filters_event_step (SetTransactionTypes ts) f = f\<lparr>ff_transactionTypes := ts\<rparr>"
| "filters_event_step (SetVendor v) f = f\<lparr>ff_vendor := v\<rparr>"
| "filters_event_step (SetTimeFrom d) f = f\<lparr>ff_timeFrom := d\<rparr>"
| "filters_event_step (SetTimeTo d) f = f\<lparr>ff_timeTo := d\<rparr>"
| "filters_event_step (SetAccountIds ids) f = f\<lparr>ff_accountIds := ids\<rparr>"
| "filters_event_step (SetCategoryIds ids) f = f\<lparr>ff_categoryIds := ids\<rparr>"
| "filters_event_step (SetTripNames ns) f = f\<lparr>ff_tripNames := ns\<rparr>"
| "filters_event_step (SetTagIds ids) f = f\<lparr>ff_tagIds := ids\<rparr>"
| "filters_event_step (SetAllTagsShouldMatch b) f = f\<lparr>ff_allTagsShouldMatch := b\<rparr>"

definition filters_step ::
  "(string \<Rightarrow> string option) \<Rightarrow> tag list \<Rightarrow> filters_event \<Rightarrow> filters_state \<Rightarrow> filters_state result" where
  "filters_step formatDay tags e s = query_effect formatDay tags (s\<lparr>fs_form := filters_event_step e (fs_form s)\<rparr>)"

fun filters_run ::
  "(string \<Rightarrow> string option) \<Rightarrow> tag list \<Rightarrow> filters_event list \<Rightarrow> filters_state \<Rightarrow> filters_state result" where
  "filters_run formatDay tags [] s = Inr s"
| "filters_run formatDay tags (e # es) s =
     bind_result (filters_step formatDay tags e s) (filters_run formatDay tags es)"

text \<open>What the page shows: the transactions the query finds, and the errors of its syntax.\<close>

definition NonEmptyPageContent ::
  "parser \<Rightarrow> date_functions \<Rightarrow> search_params \<Rightarrow> filters_state \<Rightarrow> (transaction list \<times> string list option) result" where
  "NonEmptyPageContent parse df params s = useTransactionSearch parse df (params\<lparr>sp_query := ff_query (fs_form s)\<rparr>)"

section \<open>Reading the generated text\<close>

text \<open>A word the lexer reads as one term: no character that ends a term, and none of the operators.\<close>

definition plain_word :: "string \<Rightarrow> bool" where
  "plain_word w \<longleftrightarrow> w \<noteq> [] \<and> TERM_START_CHAR (hd w) \<and> list_all TERM_CHAR w \<and>
     w \<notin> set [''AND'', ''&&'', ''OR'', ''||'', ''NOT'']"

definition breaks :: "string \<Rightarrow> bool" where
  "breaks s \<longleftrightarrow> (case s of [] \<Rightarrow> True | c # _ \<Rightarrow> \<not> TERM_CHAR c \<and> c \<noteq> backslash)"

lemma plain_term_chars: "list_all TERM_CHAR w \<Longrightarrow> term_chars w"
  by (induction w) (auto intro: term_chars.intros)

lemma breaks_not_term: "breaks u \<Longrightarrow> u = v @ x \<Longrightarrow> v \<noteq> [] \<Longrightarrow> \<not> list_all TERM_CHAR v"
  by (cases v) (auto simp: breaks_def)

lemma term_rest_exact: "list_all TERM_CHAR w \<Longrightarrow> breaks u \<Longrightarrow> term_rest (w @ u) = length w"
proof (induction w)
  case Nil
  then show ?case by (cases u; cases "tl u") (auto simp: breaks_def TERM_CHAR_facts)
next
  case (Cons c w)
  then show ?case by (cases "w @ u") (auto simp: TERM_CHAR_facts)
qed

text \<open>A word longer than the plain one that some rule reads would have to be an operator of term characters.\<close>

lemma start_char_facts: "\<not> TERM_START_CHAR (CHR ''-'')" "\<not> TERM_START_CHAR (CHR ''!'')"
  "\<not> TERM_START_CHAR (CHR ''+'')" "\<not> TERM_START_CHAR (CHR ''('')" "\<not> TERM_START_CHAR (CHR '')'')"
  "\<not> TERM_START_CHAR (CHR '':'')" "\<not> TERM_START_CHAR (CHR ''='')" "\<not> TERM_START_CHAR (CHR ''<'')"
  "\<not> TERM_START_CHAR (CHR ''>'')" "\<not> TERM_START_CHAR dquote"
  by (simp_all add: TERM_START_CHAR_def dquote_def)

lemma operator_chars: "list_all TERM_CHAR ''AND''" "list_all TERM_CHAR ''&&''" "list_all TERM_CHAR ''OR''"
  "list_all TERM_CHAR ''||''" "list_all TERM_CHAR ''NOT''"
  by (simp_all add: TERM_CHAR_def TERM_START_CHAR_def WHITESPACE_def backslash_def dquote_def)

lemma in_rule_longer:
  assumes "in_rule r v" "v \<noteq> []" "TERM_START_CHAR (hd v)" "r \<noteq> T_TERM" "length v > 1"
  shows "list_all TERM_CHAR v"
  using assms(1)
  by (cases rule: in_rule.cases) (use assms(2-5) operator_chars in \<open>auto simp: start_char_facts\<close>)

lemma next_plain_word:
  assumes w: "plain_word w" and u: "breaks u"
  shows "nextTokens (w @ u) = tok T_TERM w # nextTokens u"
proof -
  obtain c w' where cw: "w = c # w'" "TERM_START_CHAR c" "list_all TERM_CHAR w'"
    using w by (cases w) (auto simp: plain_word_def)
  obtain tk v where tk: "nextTokens (w @ u) = tk # nextTokens v" "w @ u = tk_text tk @ v"
    "in_rule (tk_type tk) (tk_text tk)"
    "\<And>r x y. in_rule r x \<Longrightarrow> w @ u = x @ y \<Longrightarrow> length x \<le> length (tk_text tk)"
    "\<And>r. in_rule r (tk_text tk) \<Longrightarrow> rule_number (tk_type tk) \<le> rule_number r"
    using lexer_munch [of "w @ u"] cw by auto
  have in_term: "in_rule T_TERM w" using cw plain_term_chars by (auto intro: in_rule.intros)
  have long: "length w \<le> length (tk_text tk)" using tk(4) [OF in_term refl] .
  have same: "tk_text tk = w"
  proof (rule ccontr)
    assume diff: "tk_text tk \<noteq> w"
    obtain x where "w = tk_text tk @ x \<and> x @ u = v \<or> w @ x = tk_text tk \<and> u = x @ v"
      using tk(2) unfolding append_eq_append_conv2 by blast
    then have x: "tk_text tk = w @ x" "u = x @ v" using long by auto
    then have "x \<noteq> []" using diff by auto
    have hd_tk: "TERM_START_CHAR (hd (tk_text tk))" using x cw by simp
    have not_term: "\<not> list_all TERM_CHAR x" using breaks_not_term [OF u x(2) \<open>x \<noteq> []\<close>] .
    show False
    proof (cases "tk_type tk = T_TERM")
      case True
      then have "term_length (w @ u) \<ge> length (tk_text tk)"
        using rule_length_complete [OF tk(3), of v] tk(2) by simp
      moreover have "term_length (w @ u) = length w"
        using term_rest_exact [OF cw(3) u] cw by (auto simp: term_length_def TERM_CHAR_facts)
      ultimately show False using x \<open>x \<noteq> []\<close> by simp
    next
      case False
      have "length (tk_text tk) > 1" using x \<open>x \<noteq> []\<close> cw(1) by (cases x) auto
      then have "list_all TERM_CHAR (tk_text tk)"
        using in_rule_longer [OF tk(3) _ hd_tk False] x cw(1) by auto
      then show False using not_term x by simp
    qed
  qed
  then have "v = u" using tk(2) by simp
  have "tk_type tk = T_TERM"
  proof (rule ccontr)
    assume other: "tk_type tk \<noteq> T_TERM"
    have "rule_number (tk_type tk) \<le> 14" using tk(5) [of T_TERM] in_term same by simp
    have "in_rule (tk_type tk) w" using tk(3) same by simp
    then show False
      by (cases rule: in_rule.cases)
        (use \<open>rule_number (tk_type tk) \<le> 14\<close> other w cw in \<open>auto simp: start_char_facts plain_word_def\<close>)
  qed
  then show ?thesis using tk(1) same \<open>v = u\<close> by (simp add: tok_def)
qed

lemmas lexer_defs = next_token_def best_rule_def ruleNames_def literal_def quoted_length_def term_length_def
  WHITESPACE_def TERM_START_CHAR_def backslash_def dquote_def tok_def

lemma next_punctuation:
  "nextTokens (CHR '':'' # s) = tok T_COLON '':'' # nextTokens s"
  "nextTokens (CHR ''('' # s) = tok T_LPAREN ''('' # nextTokens s"
  "nextTokens (CHR '')'' # s) = tok T_RPAREN '')'' # nextTokens s"
  "nextTokens (CHR '' '' # s) = tok T_SKIP '' '' # nextTokens s"
  "nextTokens (CHR ''>'' # CHR ''='' # s) = tok T_MORETHANEQ ''>='' # nextTokens s"
  "nextTokens (CHR ''<'' # CHR ''='' # s) = tok T_LESSTHANEQ ''<='' # nextTokens s"
  by (simp_all add: lexer_defs)

lemma next_or: "nextTokens (''OR '' @ s) = tok T_OR ''OR'' # tok T_SKIP '' '' # nextTokens s"
proof -
  have "term_rest (CHR ''R'' # CHR '' '' # s) = 1"
    using term_rest_exact [of "''R''" "CHR '' '' # s"]
    by (simp add: TERM_CHAR_def TERM_START_CHAR_def breaks_def WHITESPACE_def backslash_def dquote_def)
  then have "best_rule (''OR '' @ s) = (T_OR, 2)"
    by (simp add: lexer_defs)
  then have "nextTokens (''OR '' @ s) = tok T_OR ''OR'' # nextTokens (CHR '' '' # s)"
    by (simp add: next_token_def tok_def)
  then show ?thesis by (simp only: next_punctuation)
qed

text \<open>A clause of the generated query: a field, an operator and a value.\<close>

datatype filter_clause = Has string string | From string | UpTo string

fun clause_text :: "filter_clause \<Rightarrow> string" where
  "clause_text (Has field v) = field @ '':'' @ v"
| "clause_text (From day) = ''date>='' @ day"
| "clause_text (UpTo day) = ''date<='' @ day"

fun clause_ast :: "filter_clause \<Rightarrow> clause" where
  "clause_ast (Has field v) = FieldMatchClause field (PlainTerm v)"
| "clause_ast (From day) = FieldCompareClause ''date'' GreaterThanOrEqual day"
| "clause_ast (UpTo day) = FieldCompareClause ''date'' LessThanOrEqual day"

fun clause_tokens :: "filter_clause \<Rightarrow> token list" where
  "clause_tokens (Has field v) = [tok T_TERM field, tok T_COLON '':'', tok T_TERM v]"
| "clause_tokens (From day) = [tok T_TERM ''date'', tok T_MORETHANEQ ''>='', tok T_TERM day]"
| "clause_tokens (UpTo day) = [tok T_TERM ''date'', tok T_LESSTHANEQ ''<='', tok T_TERM day]"

fun plain_clause :: "filter_clause \<Rightarrow> bool" where
  "plain_clause (Has field v) \<longleftrightarrow> plain_word field \<and> plain_word v"
| "plain_clause (From day) \<longleftrightarrow> plain_word day"
| "plain_clause (UpTo day) \<longleftrightarrow> plain_word day"

lemma plain_date: "plain_word ''date''"
  by code_simp

lemma breaks_punctuation: "breaks (CHR '':'' # s)" "breaks (CHR '' '' # s)" "breaks (CHR '')'' # s)"
  "breaks (CHR ''>'' # s)" "breaks (CHR ''<'' # s)" "breaks []"
  by (simp_all add: breaks_def TERM_CHAR_def TERM_START_CHAR_def WHITESPACE_def backslash_def)

lemma tokenize_word: "plain_word w \<Longrightarrow> breaks s \<Longrightarrow> tokenize (w @ s) = tok T_TERM w # tokenize s"
  by (simp add: tokenize_def next_plain_word) (simp add: tok_def)

lemma tokenize_punctuation:
  "tokenize (CHR '':'' # s) = tok T_COLON '':'' # tokenize s"
  "tokenize (CHR ''('' # s) = tok T_LPAREN ''('' # tokenize s"
  "tokenize (CHR '')'' # s) = tok T_RPAREN '')'' # tokenize s"
  "tokenize (CHR '' '' # s) = tokenize s"
  "tokenize (CHR ''>'' # CHR ''='' # s) = tok T_MORETHANEQ ''>='' # tokenize s"
  "tokenize (CHR ''<'' # CHR ''='' # s) = tok T_LESSTHANEQ ''<='' # tokenize s"
  "tokenize (''OR '' @ s) = tok T_OR ''OR'' # tokenize s"
  "tokenize [] = []"
  unfolding tokenize_def by (simp_all only: next_punctuation next_or) (simp_all add: tok_def)

lemma tokenize_clause:
  assumes "plain_clause c" "breaks s"
  shows "tokenize (clause_text c @ s) = clause_tokens c @ tokenize s"
proof (cases c)
  case (Has field v)
  then show ?thesis
    using assms tokenize_word [of field "CHR '':'' # v @ s"] tokenize_word [of v s]
    by (simp add: breaks_punctuation tokenize_punctuation)
next
  case (From day)
  then show ?thesis
    using assms tokenize_word [OF plain_date, of "CHR ''>'' # CHR ''='' # day @ s"] tokenize_word [of day s]
    by (simp add: breaks_punctuation tokenize_punctuation)
next
  case (UpTo day)
  then show ?thesis
    using assms tokenize_word [OF plain_date, of "CHR ''<'' # CHR ''='' # day @ s"] tokenize_word [of day s]
    by (simp add: breaks_punctuation tokenize_punctuation)
qed

lemma g_clause_tokens: "g_clause (clause_tokens c) (clause_ast c)"
proof (cases c)
  case (Has field v)
  then show ?thesis
    using g_fieldMatchExpr [of "tok T_TERM field" "tok T_COLON '':''" "[tok T_TERM v]"] g_term.intros(2) [of "tok T_TERM v"]
    by (simp add: tok_def)
next
  case (From day)
  then show ?thesis
    using g_fieldCompareExpr [of "tok T_TERM ''date''" "tok T_MORETHANEQ ''>=''" GreaterThanOrEqual "tok T_TERM day"]
    by (simp add: tok_def)
next
  case (UpTo day)
  then show ?thesis
    using g_fieldCompareExpr [of "tok T_TERM ''date''" "tok T_LESSTHANEQ ''<=''" LessThanOrEqual "tok T_TERM day"]
    by (simp add: tok_def)
qed

section \<open>The query of the filters\<close>

text \<open>A part of the query: the alternatives of one filter.\<close>

definition part_text :: "filter_clause list \<Rightarrow> string" where
  "part_text cs = (if length cs > 1 then ''('' @ join '' OR '' (map clause_text cs) @ '')'' else clause_text (hd cs))"

definition conj_of :: "filter_clause \<Rightarrow> conj_query" where
  "conj_of c = ConjQuery [ModClause False (clause_ast c)]"

definition part_ast :: "filter_clause list \<Rightarrow> disj_query" where
  "part_ast cs =
     (if length cs > 1 then DisjQuery [ConjQuery [ModClause False (GroupClause (Query [DisjQuery (map conj_of cs)]))]]
      else DisjQuery [conj_of (hd cs)])"

fun or_tokens :: "filter_clause list \<Rightarrow> token list" where
  "or_tokens [] = []"
| "or_tokens [c] = clause_tokens c"
| "or_tokens (c # d # cs) = clause_tokens c @ tok T_OR ''OR'' # or_tokens (d # cs)"

definition part_tokens :: "filter_clause list \<Rightarrow> token list" where
  "part_tokens cs =
     (if length cs > 1 then tok T_LPAREN ''('' # or_tokens cs @ [tok T_RPAREN '')''] else clause_tokens (hd cs))"

lemma tokenize_ors:
  "cs \<noteq> [] \<Longrightarrow> list_all plain_clause cs \<Longrightarrow> breaks s \<Longrightarrow>
   tokenize (join '' OR '' (map clause_text cs) @ s) = or_tokens cs @ tokenize s"
proof (induction cs rule: or_tokens.induct)
  case (3 c d cs)
  have "tokenize (clause_text c @ CHR '' '' # ''OR '' @ join '' OR '' (map clause_text (d # cs)) @ s) =
      clause_tokens c @ tok T_OR ''OR'' # tokenize (join '' OR '' (map clause_text (d # cs)) @ s)"
    using "3.prems"(2) tokenize_clause [of c "CHR '' '' # ''OR '' @ join '' OR '' (map clause_text (d # cs)) @ s"]
    by (simp only: breaks_punctuation tokenize_punctuation list.pred_inject(2) simp_thms)
  then show ?case using 3 by simp
qed (simp_all add: tokenize_clause)

lemma tokenize_part:
  assumes "cs \<noteq> []" "list_all plain_clause cs" "breaks s"
  shows "tokenize (part_text cs @ s) = part_tokens cs @ tokenize s"
proof (cases "length cs > 1")
  case True
  then show ?thesis using tokenize_ors [OF assms(1,2), of "CHR '')'' # s"]
    by (simp add: part_text_def part_tokens_def tokenize_punctuation breaks_punctuation)
next
  case False
  then obtain c where "cs = [c]" using assms(1) by (cases cs; cases "tl cs") auto
  then show ?thesis using assms by (simp add: part_text_def part_tokens_def tokenize_clause)
qed

lemma tokenize_parts:
  "list_all (\<lambda>p. p \<noteq> [] \<and> list_all plain_clause p) ps \<Longrightarrow>
   tokenize (join '' '' (map part_text ps)) = concat (map part_tokens ps)"
proof (induction ps rule: induct_list012)
  case 1
  then show ?case by (simp add: tokenize_punctuation)
next
  case (2 p)
  then show ?case using tokenize_part [of p "[]"] by (simp add: breaks_punctuation tokenize_punctuation)
next
  case (3 p p' ps)
  then show ?case using tokenize_part [of p "CHR '' '' # join '' '' (map part_text (p' # ps))"]
    by (simp add: breaks_punctuation tokenize_punctuation)
qed

lemma g_conj_of: "g_conjQuery (clause_tokens c) (conj_of c)"
  using g_conjQuery [OF g_plain [OF g_clause_tokens] g_noAnd] by (simp add: conj_of_def)

lemma g_or_tokens: "cs \<noteq> [] \<Longrightarrow> g_disjQuery (or_tokens cs) (DisjQuery (map conj_of cs))"
proof -
  have tail: "g_orTail (concat (map (\<lambda>c. tok T_OR ''OR'' # clause_tokens c) cs)) (map conj_of cs)" for cs
  proof (induction cs)
    case (Cons c cs)
    have "g_orTail (tok T_OR ''OR'' # clause_tokens c @ concat (map (\<lambda>c. tok T_OR ''OR'' # clause_tokens c) cs))
        (conj_of c # map conj_of cs)"
      by (rule g_or [OF _ g_conj_of Cons.IH]) (simp add: tok_def)
    then show ?case by simp
  qed (simp add: g_noOr)
  assume "cs \<noteq> []"
  moreover have "or_tokens (c # cs) = clause_tokens c @ concat (map (\<lambda>c. tok T_OR ''OR'' # clause_tokens c) cs)" for c cs
    by (induction cs arbitrary: c) simp_all
  ultimately show ?thesis using g_disjQuery [OF g_conj_of tail] by (cases cs) simp_all
qed

lemma g_part: "cs \<noteq> [] \<Longrightarrow> g_disjQuery (part_tokens cs) (part_ast cs)"
proof (cases "length cs > 1")
  case True
  assume "cs \<noteq> []"
  have "g_clause (tok T_LPAREN ''('' # or_tokens cs @ [tok T_RPAREN '')'']) (GroupClause (Query [DisjQuery (map conj_of cs)]))"
    by (rule g_groupingExpr [OF _ g_query [OF g_one [OF g_or_tokens [OF \<open>cs \<noteq> []\<close>]]]]) (simp_all add: tok_def)
  from g_disjQuery [OF g_conjQuery [OF g_plain [OF this] g_noAnd] g_noOr] show ?thesis
    using True by (simp add: part_tokens_def part_ast_def)
next
  case False
  assume "cs \<noteq> []"
  then obtain c where "cs = [c]" using False by (cases cs; cases "tl cs") auto
  then show ?thesis using g_disjQuery [OF g_conj_of g_noOr, of c] by (simp add: part_tokens_def part_ast_def)
qed

lemma g_parts:
  "ps \<noteq> [] \<Longrightarrow> list_all (\<lambda>p. p \<noteq> []) ps \<Longrightarrow> g_disjQueries (concat (map part_tokens ps)) (map part_ast ps)"
proof (induction ps rule: induct_list012)
  case (2 p)
  then show ?case using g_one [OF g_part] by simp
next
  case (3 p p' ps)
  then show ?case using g_more [OF g_part [of p]] by simp
qed simp

text \<open>The parts of the form's query.\<close>

definition day_clauses :: "(string \<Rightarrow> filter_clause) \<Rightarrow> (string \<Rightarrow> string option) \<Rightarrow> string \<Rightarrow> filter_clause list" where
  "day_clauses mk formatDay s = (if s = [] then [] else case formatDay s of None \<Rightarrow> [] | Some day \<Rightarrow> [mk day])"

definition selected_tags :: "filters_form \<Rightarrow> tag list \<Rightarrow> tag list" where
  "selected_tags f tags = filter (\<lambda>t. tag_id t \<in> set (ff_tagIds f)) tags"

definition tag_clauses :: "filters_form \<Rightarrow> tag list \<Rightarrow> filter_clause list" where
  "tag_clauses f tags = map (\<lambda>t. Has ''tag'' (tag_name t)) (selected_tags f tags)"

definition filter_parts :: "(string \<Rightarrow> string option) \<Rightarrow> filters_form \<Rightarrow> tag list \<Rightarrow> filter_clause list list" where
  "filter_parts formatDay f tags =
     filter (\<lambda>p. p \<noteq> [])
       ([map (\<lambda>tt. Has ''t'' (filter_type_name tt)) (ff_transactionTypes f),
         if ff_vendor f = [] then [] else [Has ''vendor'' (ff_vendor f)],
         map (\<lambda>i. Has ''account'' (string_of_int i)) (ff_accountIds f),
         map (\<lambda>i. Has ''c'' (string_of_int i)) (ff_categoryIds f),
         map (Has ''trip'') (ff_tripNames f),
         day_clauses From formatDay (ff_timeFrom f),
         day_clauses UpTo formatDay (ff_timeTo f)] @
        (if ff_allTagsShouldMatch f then map (\<lambda>c. [c]) (tag_clauses f tags) else [tag_clauses f tags]))"

text \<open>The values whose text needs no quoting.\<close>

definition plain_day :: "(string \<Rightarrow> string option) \<Rightarrow> string \<Rightarrow> bool" where
  "plain_day formatDay s \<longleftrightarrow> s = [] \<or> (\<exists>day. formatDay s = Some day \<and> plain_word day)"

definition plain_filters :: "(string \<Rightarrow> string option) \<Rightarrow> filters_form \<Rightarrow> tag list \<Rightarrow> bool" where
  "plain_filters formatDay f tags \<longleftrightarrow>
     (ff_vendor f = [] \<or> plain_word (ff_vendor f)) \<and> (\<forall>t \<in> set (ff_tripNames f). plain_word t) \<and>
     (\<forall>t \<in> set (selected_tags f tags). plain_word (tag_name t)) \<and>
     plain_day formatDay (ff_timeFrom f) \<and> plain_day formatDay (ff_timeTo f)"

lemma trim_blank: "trim s = [] \<longleftrightarrow> list_all is_space s"
proof -
  have "dropWhile is_space s = []" if "\<forall>c \<in> set (dropWhile is_space s). is_space c"
    using that hd_dropWhile [of is_space s] by (cases "dropWhile is_space s") auto
  moreover have "trim s = [] \<longleftrightarrow> (\<forall>c \<in> set (dropWhile is_space s). is_space c)"
    by (simp add: trim_def dropWhile_eq_Nil_conv)
  ultimately show ?thesis
    unfolding list_all_iff dropWhile_eq_Nil_conv by (blast dest: set_dropWhileD)
qed

lemma trim_clause: "trim (clause_text c) \<noteq> []"
  by (cases c) (simp_all add: trim_blank is_space_def)

lemma map_filter_id: "List.map_filter (\<lambda>x. x) (map (\<lambda>x. Some (g x)) xs) = map g xs"
  by (simp add: List.map_filter_def comp_def)

lemma appendOR_clauses:
  "appendOR (map (\<lambda>c. Some (clause_text c)) cs) = map part_text (filter (\<lambda>p. p \<noteq> []) [cs])"
proof -
  have "filter (\<lambda>x. length (trim x) > 0) (map clause_text cs) = map clause_text cs"
    by (simp add: filter_id_conv trim_clause)
  then show ?thesis
    by (cases cs; cases "tl cs") (simp_all add: appendOR_def map_filter_id part_text_def trim_clause)
qed

lemma appendOR_nothing: "appendOR [Some []] = []"
  by (simp add: appendOR_def List.map_filter_def trim_def)

lemma day_part_clauses:
  assumes "plain_day formatDay s" "\<forall>day. clause_text (mk day) = field @ day"
  shows "\<exists>p. day_part formatDay field s = Inr p \<and>
    appendOR [p] = map part_text (filter (\<lambda>p. p \<noteq> []) [day_clauses mk formatDay s])"
  using assms appendOR_clauses [of "day_clauses mk formatDay s"]
  by (cases "s = []") (auto simp: plain_day_def day_part_def day_clauses_def appendOR_nothing)

lemma tag_parts_clauses:
  "tag_parts f tags = map part_text (filter (\<lambda>p. p \<noteq> [])
     (if ff_allTagsShouldMatch f then map (\<lambda>c. [c]) (tag_clauses f tags) else [tag_clauses f tags]))"
proof -
  have texts: "map (\<lambda>t. ''tag:'' @ tag_name t) (selected_tags f tags) = map clause_text (tag_clauses f tags)"
    by (simp add: tag_clauses_def)
  have none: "selected_tags f tags = []" if "ff_tagIds f = []" using that by (simp add: selected_tags_def)
  have single: "filter (\<lambda>p. p \<noteq> []) (map (\<lambda>c. [c]) (tag_clauses f tags)) = map (\<lambda>c. [c]) (tag_clauses f tags)"
    by (simp add: filter_id_conv)
  show ?thesis
    unfolding tag_parts_def selected_tags_def [symmetric] Let_def texts
    by (cases "tag_clauses f tags"; cases "tl (tag_clauses f tags)")
      (use none single in \<open>auto simp: part_text_def tag_clauses_def comp_def\<close>)
qed

lemma generateQuery_text:
  assumes "plain_filters formatDay f tags"
  shows "generateQuery formatDay f tags = Inr (join '' '' (map part_text (filter_parts formatDay f tags)))"
proof -
  obtain d1 d2 where d: "day_part formatDay ''date>='' (ff_timeFrom f) = Inr d1"
      "appendOR [d1] = map part_text (filter (\<lambda>p. p \<noteq> []) [day_clauses From formatDay (ff_timeFrom f)])"
      "day_part formatDay ''date<='' (ff_timeTo f) = Inr d2"
      "appendOR [d2] = map part_text (filter (\<lambda>p. p \<noteq> []) [day_clauses UpTo formatDay (ff_timeTo f)])"
    using day_part_clauses [of formatDay "ff_timeFrom f" From "''date>=''"]
      day_part_clauses [of formatDay "ff_timeTo f" UpTo "''date<=''"] assms
    by (auto simp: plain_filters_def)
  note clauses = appendOR_clauses [of "map (\<lambda>tt. Has ''t'' (filter_type_name tt)) (ff_transactionTypes f)"]
    appendOR_clauses [of "map (\<lambda>i. Has ''account'' (string_of_int i)) (ff_accountIds f)"]
    appendOR_clauses [of "map (\<lambda>i. Has ''c'' (string_of_int i)) (ff_categoryIds f)"]
    appendOR_clauses [of "map (Has ''trip'') (ff_tripNames f)"]
  have vendor: "appendOR [Some (if ff_vendor f = [] then [] else ''vendor:'' @ ff_vendor f)] =
      map part_text (filter (\<lambda>p. p \<noteq> []) [if ff_vendor f = [] then [] else [Has ''vendor'' (ff_vendor f)]])"
    using appendOR_clauses [of "[Has ''vendor'' (ff_vendor f)]"] by (simp add: appendOR_nothing)
  show ?thesis
    unfolding generateQuery_def d(1) d(3) bind_result.simps d(2) d(4) vendor tag_parts_clauses
    using clauses by (simp add: filter_parts_def comp_def)
qed

lemma digit_start_char: "is_digit c \<Longrightarrow> TERM_START_CHAR c"
  by (auto simp: TERM_START_CHAR_def WHITESPACE_def is_digit_def backslash_def dquote_def)

lemma plain_digits: "w \<noteq> [] \<Longrightarrow> list_all is_digit w \<Longrightarrow> plain_word w"
proof -
  assume w: "w \<noteq> []" "list_all is_digit w"
  have "\<not> is_digit c" if "c \<in> set ''AON&|''" for c using that by (auto simp: is_digit_def)
  then have "hd w \<notin> set ''AON&|''" using w by (cases w) auto
  then show ?thesis
    using w by (auto simp: plain_word_def TERM_CHAR_def digit_start_char list_all_iff)
qed

lemma plain_number: "i > 0 \<Longrightarrow> plain_word (string_of_int i)"
  by (rule plain_digits) (auto simp: string_of_int_def list_all_iff dest: nat_digits_is_digit)

lemma plain_fields: "plain_word ''t''" "plain_word ''vendor''" "plain_word ''account''" "plain_word ''c''"
  "plain_word ''trip''" "plain_word ''tag''"
  by code_simp+

lemma plain_types: "plain_word (filter_type_name tt)"
proof -
  have "plain_word ''personal''" "plain_word ''external''" "plain_word ''transfer''" "plain_word ''income''"
    by code_simp+
  then show ?thesis by (cases tt) (simp_all del: list.simps)
qed

lemma plain_day_clauses:
  assumes "plain_day formatDay s"
  shows "list_all plain_clause (day_clauses From formatDay s)" "list_all plain_clause (day_clauses UpTo formatDay s)"
  using assms by (auto simp: plain_day_def day_clauses_def)

lemma plain_has: "plain_word field \<Longrightarrow> (\<And>x. x \<in> set xs \<Longrightarrow> plain_word (g x)) \<Longrightarrow>
    list_all plain_clause (map (\<lambda>x. Has field (g x)) xs)"
  by (simp add: list_all_iff)

lemma list_all_nonempty: "list_all Q ps \<Longrightarrow> list_all (\<lambda>p. p \<noteq> [] \<and> Q p) (filter (\<lambda>p. p \<noteq> []) ps)"
  by (simp add: list_all_iff)

lemma filter_parts_plain:
  assumes "plain_filters formatDay f tags" "filtersFormValidationSchema f"
  shows "list_all (\<lambda>p. p \<noteq> [] \<and> list_all plain_clause p) (filter_parts formatDay f tags)"
proof -
  have days: "plain_day formatDay (ff_timeFrom f)" "plain_day formatDay (ff_timeTo f)"
    and vendor: "ff_vendor f = [] \<or> plain_word (ff_vendor f)"
    and trips: "\<And>t. t \<in> set (ff_tripNames f) \<Longrightarrow> plain_word t"
    and tagged: "\<And>t. t \<in> set (selected_tags f tags) \<Longrightarrow> plain_word (tag_name t)"
    using assms(1) by (simp_all add: plain_filters_def)
  have ids: "\<And>i. i \<in> set (ff_accountIds f) \<Longrightarrow> plain_word (string_of_int i)"
    "\<And>i. i \<in> set (ff_categoryIds f) \<Longrightarrow> plain_word (string_of_int i)"
    using assms(2) by (simp_all add: plain_number filtersFormValidationSchema_def list_all_iff)
  have tag: "list_all plain_clause (tag_clauses f tags)"
    unfolding tag_clauses_def by (rule plain_has [OF plain_fields(6) tagged])
  have types: "list_all plain_clause (map (\<lambda>tt. Has ''t'' (filter_type_name tt)) (ff_transactionTypes f))"
    by (rule plain_has [OF plain_fields(1) plain_types])
  have accounts: "list_all plain_clause (map (\<lambda>i. Has ''account'' (string_of_int i)) (ff_accountIds f))"
    by (rule plain_has [OF plain_fields(3) ids(1)])
  have categories: "list_all plain_clause (map (\<lambda>i. Has ''c'' (string_of_int i)) (ff_categoryIds f))"
    by (rule plain_has [OF plain_fields(4) ids(2)])
  have trip: "list_all plain_clause (map (Has ''trip'') (ff_tripNames f))"
    by (rule plain_has [OF plain_fields(5) trips])
  have vend: "list_all plain_clause (if ff_vendor f = [] then [] else [Has ''vendor'' (ff_vendor f)])"
    using vendor plain_fields(2) by auto
  have tags: "list_all (list_all plain_clause)
      (if ff_allTagsShouldMatch f then map (\<lambda>c. [c]) (tag_clauses f tags) else [tag_clauses f tags])"
    using tag by (simp add: list_all_iff)
  have "list_all (list_all plain_clause)
     ([map (\<lambda>tt. Has ''t'' (filter_type_name tt)) (ff_transactionTypes f),
       if ff_vendor f = [] then [] else [Has ''vendor'' (ff_vendor f)],
       map (\<lambda>i. Has ''account'' (string_of_int i)) (ff_accountIds f),
       map (\<lambda>i. Has ''c'' (string_of_int i)) (ff_categoryIds f),
       map (Has ''trip'') (ff_tripNames f),
       day_clauses From formatDay (ff_timeFrom f),
       day_clauses UpTo formatDay (ff_timeTo f)] @
      (if ff_allTagsShouldMatch f then map (\<lambda>c. [c]) (tag_clauses f tags) else [tag_clauses f tags]))"
    by (simp only: list_all_append list.pred_inject types vend accounts categories trip
        plain_day_clauses days tags simp_thms)
  then show ?thesis unfolding filter_parts_def by (rule list_all_nonempty)
qed

lemma generated_query_derivable:
  assumes "plain_filters formatDay f tags" "filtersFormValidationSchema f" "filter_parts formatDay f tags \<noteq> []"
    and "generateQuery formatDay f tags = Inr q"
  shows "g_query (tokenize q) (Query (map part_ast (filter_parts formatDay f tags)))"
proof -
  note plain = filter_parts_plain [OF assms(1,2)]
  have "tokenize q = concat (map part_tokens (filter_parts formatDay f tags))"
    using tokenize_parts [OF plain] generateQuery_text [OF assms(1)] assms(4) by simp
  moreover have "list_all (\<lambda>p. p \<noteq> []) (filter_parts formatDay f tags)" using plain by (simp add: list_all_iff)
  ultimately show ?thesis using g_query [OF g_parts [OF assms(3)]] by simp
qed

section \<open>A query that parses fails for no syntax\<close>

definition not_syntax_error :: "'a result \<Rightarrow> bool" where
  "not_syntax_error r \<longleftrightarrow> (\<forall>es. r \<noteq> Inl (QuerySyntaxError es))"

named_theorems not_syntax_error_simps "code that throws no syntax error"

lemma not_syntax_error_Inr [not_syntax_error_simps]: "not_syntax_error (Inr x)"
  by (simp add: not_syntax_error_def)

lemma not_syntax_error_or_throw [not_syntax_error_simps]: "not_syntax_error (Inl e :: 'b result) \<Longrightarrow> not_syntax_error (or_throw m e)"
  by (cases m) (simp_all add: not_syntax_error_def or_throw_def)

lemma not_syntax_error_bind: "not_syntax_error r \<Longrightarrow> (\<And>x. r = Inr x \<Longrightarrow> not_syntax_error (f x)) \<Longrightarrow> not_syntax_error (bind_result r f)"
  by (cases r) (auto simp: not_syntax_error_def)

lemma not_syntax_error_or_else: "not_syntax_error a \<Longrightarrow> not_syntax_error b \<Longrightarrow> not_syntax_error (or_else a b)"
  unfolding or_else_def by (rule not_syntax_error_bind) (simp_all add: not_syntax_error_simps)

lemma not_syntax_error_map: "(\<And>x. not_syntax_error (f x)) \<Longrightarrow> not_syntax_error (map_result f xs)"
  by (induction xs) (auto intro!: not_syntax_error_bind simp: not_syntax_error_simps)

lemma not_syntax_error_filter: "(\<And>x. not_syntax_error (p x)) \<Longrightarrow> not_syntax_error (filter_result p xs)"
  by (induction xs) (auto intro!: not_syntax_error_bind simp: not_syntax_error_simps)

lemma not_syntax_error_errors [not_syntax_error_simps]: "not_syntax_error (Inl (AccountNotFound i))" "not_syntax_error (Inl (BankNotFound i))"
  "not_syntax_error (Inl (CategoryNotInTree i))" "not_syntax_error (Inl (TagNotFound i))" "not_syntax_error (Inl DoesNotReturn)"
  by (simp_all add: not_syntax_error_def)

lemmas not_syntax_error_intros = not_syntax_error_bind not_syntax_error_or_else not_syntax_error_map not_syntax_error_filter

lemma not_syntax_error_lookups [not_syntax_error_simps]:
  "not_syntax_error (transactionBankAccount i accounts)" "not_syntax_error (transactionBank i banks accounts)"
  "not_syntax_error (outgoingBankAccount f accounts)" "not_syntax_error (incomingBankAccount f accounts)"
  "not_syntax_error (outgoingBank f banks accounts)" "not_syntax_error (incomingBank f banks accounts)"
  "not_syntax_error (transactionTags t tags)" "not_syntax_error (getNameWithAncestors c tree)"
  by (auto simp: not_syntax_error_simps transactionBankAccount_def transactionBank_def outgoingBankAccount_def
      incomingBankAccount_def outgoingBank_def incomingBank_def transactionTags_def mustFindTag_def
      getNameWithAncestors_def getAncestors_def findNode_def accountBank_def Let_def
      intro!: not_syntax_error_intros split: option.splits)

lemma not_syntax_error_matchers [not_syntax_error_simps]:
  "not_syntax_error (matchBank t s c banks accounts)" "not_syntax_error (matchBankId t s accounts)"
  "not_syntax_error (matchBankAccount t s c accounts)" "not_syntax_error (matchCategory t s c tree)" "not_syntax_error (matchTag t s c tags)"
  by (auto simp: not_syntax_error_simps matchBank_def matchBankId_def matchBankAccount_def matchCategory_def matchTag_def
      intro!: not_syntax_error_intros split: transaction.splits option.splits)

lemma not_syntax_error_fields [not_syntax_error_simps]:
  "not_syntax_error (matchAnyField x t s c)" "not_syntax_error (matchField x t field s c)"
  unfolding matchAnyField_def matchField_def by (auto simp: not_syntax_error_simps intro!: not_syntax_error_intros)

lemma not_syntax_error_matching: "(\<And>t. not_syntax_error (p t)) \<Longrightarrow> not_syntax_error (matching_ids ts p)"
  unfolding matching_ids_def by (intro not_syntax_error_bind not_syntax_error_filter) (simp_all add: not_syntax_error_simps)

lemma visit_not_syntax_error:
  "not_syntax_error (visitQuery x ts q)" "not_syntax_error (visit_disjs x ts ids ds)" "not_syntax_error (visitDisjQuery x ts d)"
  "not_syntax_error (visit_conjs x ts ids cs)" "not_syntax_error (visitConjQuery x ts c)" "not_syntax_error (visit_mods x ts ids ms)"
  "not_syntax_error (visitModClause x ts m)" "not_syntax_error (visitClause x ts cl)"
  by (induction x ts q and x ts ids ds and x ts d and x ts ids cs and x ts c and x ts ids ms and x ts m and x ts cl
      rule: visitQuery_visit_disjs_visitDisjQuery_visit_conjs_visitConjQuery_visit_mods_visitModClause_visitClause.induct)
    (auto simp: not_syntax_error_simps split: prod.splits intro!: not_syntax_error_bind not_syntax_error_matching)

lemma search_syntax_error:
  assumes "makeCategoryTree (sp_categories params) = Inr tree" "parse (sp_query params) = Inr q"
  shows "not_syntax_error (search parse df params)"
  unfolding search_def assms(2) using assms(1)
  by (auto simp: not_syntax_error_simps assms intro!: not_syntax_error_bind visit_not_syntax_error)

section \<open>What the filters mean\<close>

fun of_filter_type :: "filter_type \<Rightarrow> transaction \<Rightarrow> bool" where
  "of_filter_type FilterPersonal t = isPersonalExpense t"
| "of_filter_type FilterExternal t = isThirdPartyExpense t"
| "of_filter_type FilterTransfer t = isTransfer t"
| "of_filter_type FilterIncome t = isIncome t"

definition any_of :: "'a list \<Rightarrow> ('a \<Rightarrow> bool) \<Rightarrow> bool" where
  "any_of xs P \<longleftrightarrow> xs = [] \<or> list_ex P xs"

definition on_account :: "search_context \<Rightarrow> transaction \<Rightarrow> int \<Rightarrow> bool" where
  "on_account x t i \<longleftrightarrow> matchBankAccountId t (string_of_int i) \<or>
     matchBankAccount t (string_of_int i) CaseInsensitive (sx_bankAccounts x) = Inr True"

definition in_category :: "search_context \<Rightarrow> transaction \<Rightarrow> int \<Rightarrow> bool" where
  "in_category x t i \<longleftrightarrow> matchCategoryId t (string_of_int i) \<or>
     matchCategory t (string_of_int i) CaseInsensitive (sx_tree x) = Inr True"

definition on_trip :: "search_context \<Rightarrow> transaction \<Rightarrow> string \<Rightarrow> bool" where
  "on_trip x t name \<longleftrightarrow> matchTripId t name \<or> matchTrip t name CaseInsensitive (sx_trips x)"

definition has_tag :: "search_context \<Rightarrow> transaction \<Rightarrow> string \<Rightarrow> bool" where
  "has_tag x t name \<longleftrightarrow> matchTagId t name \<or> matchTag t name CaseInsensitive (sx_tags x) = Inr True"

definition day_holds ::
  "search_context \<Rightarrow> (string \<Rightarrow> string option) \<Rightarrow> string \<Rightarrow> comparison_operator \<Rightarrow> transaction \<Rightarrow> bool" where
  "day_holds x formatDay s op t \<longleftrightarrow>
     s = [] \<or> (case formatDay s of None \<Rightarrow> True | Some day \<Rightarrow> compareDate (sx_dates x) t day op)"

definition filters_hold ::
  "search_context \<Rightarrow> (string \<Rightarrow> string option) \<Rightarrow> filters_form \<Rightarrow> tag list \<Rightarrow> transaction \<Rightarrow> bool" where
  "filters_hold x formatDay f tags t \<longleftrightarrow>
     any_of (ff_transactionTypes f) (\<lambda>tt. of_filter_type tt t) \<and>
     (ff_vendor f = [] \<or> matchVendor t (ff_vendor f) CaseInsensitive) \<and>
     any_of (ff_accountIds f) (on_account x t) \<and>
     any_of (ff_categoryIds f) (in_category x t) \<and>
     any_of (ff_tripNames f) (on_trip x t) \<and>
     day_holds x formatDay (ff_timeFrom f) GreaterThanOrEqual t \<and>
     day_holds x formatDay (ff_timeTo f) LessThanOrEqual t \<and>
     (if ff_allTagsShouldMatch f then list_all (\<lambda>g. has_tag x t (tag_name g)) (selected_tags f tags)
      else any_of (selected_tags f tags) (\<lambda>g. has_tag x t (tag_name g)))"

fun filter_clause_holds :: "search_context \<Rightarrow> transaction \<Rightarrow> filter_clause \<Rightarrow> bool" where
  "filter_clause_holds x t (Has field v) \<longleftrightarrow> matchField x t field v CaseInsensitive = Inr True"
| "filter_clause_holds x t (From day) \<longleftrightarrow> compareDate (sx_dates x) t day GreaterThanOrEqual"
| "filter_clause_holds x t (UpTo day) \<longleftrightarrow> compareDate (sx_dates x) t day LessThanOrEqual"

lemma clause_ast_holds: "clause_holds x (clause_ast c) t = filter_clause_holds x t c"
  by (cases c) (simp_all add: getTerm_def compareField_def includesIgnoreCase_def toLowerCase_def to_lower_char_def)

lemma part_ast_holds: "cs \<noteq> [] \<Longrightarrow> disj_holds x (part_ast cs) t = list_ex (filter_clause_holds x t) cs"
proof (cases "length cs > 1")
  case True
  then show ?thesis by (simp add: part_ast_def conj_of_def list_ex_iff clause_ast_holds)
next
  case False
  assume "cs \<noteq> []"
  then obtain c where "cs = [c]" using False by (cases cs; cases "tl cs") auto
  then show ?thesis by (simp add: part_ast_def conj_of_def clause_ast_holds)
qed

lemma has_field_holds:
  "filter_clause_holds x t (Has ''t'' (filter_type_name tt)) = of_filter_type tt t"
  "filter_clause_holds x t (Has ''vendor'' v) = matchVendor t v CaseInsensitive"
  "filter_clause_holds x t (Has ''account'' (string_of_int i)) = on_account x t i"
  "filter_clause_holds x t (Has ''c'' (string_of_int i)) = in_category x t i"
  "filter_clause_holds x t (Has ''trip'' name) = on_trip x t name"
  "filter_clause_holds x t (Has ''tag'' name) = has_tag x t name"
  by (cases tt; simp add: matchField_def includesIgnoreCase_def toLowerCase_def to_lower_char_def matchType_def)
    (auto simp: matchField_def includesIgnoreCase_def toLowerCase_def to_lower_char_def result_simps
      on_account_def in_category_def on_trip_def has_tag_def)

lemma day_clause_holds:
  "any_of (day_clauses From formatDay s) (filter_clause_holds x t) = day_holds x formatDay s GreaterThanOrEqual t"
  "any_of (day_clauses UpTo formatDay s) (filter_clause_holds x t) = day_holds x formatDay s LessThanOrEqual t"
  by (auto simp: any_of_def day_clauses_def day_holds_def split: option.splits)

lemma any_of_map: "any_of (map f xs) P = any_of xs (\<lambda>x. P (f x))"
  by (simp add: any_of_def list_ex_iff)

lemma parts_hold: "list_all (list_ex P) (filter (\<lambda>p. p \<noteq> []) ps) = list_all (\<lambda>p. any_of p P) ps"
  by (induction ps) (auto simp: any_of_def)

lemma filter_parts_hold:
  "query_holds x (Query (map part_ast (filter_parts formatDay f tags))) t = filters_hold x formatDay f tags t"
proof -
  have "query_holds x (Query (map part_ast (filter_parts formatDay f tags))) t =
      list_all (list_ex (filter_clause_holds x t)) (filter_parts formatDay f tags)"
    by (auto simp: list_all_iff filter_parts_def part_ast_holds)
  also have "\<dots> = filters_hold x formatDay f tags t"
    unfolding filter_parts_def parts_hold filters_hold_def
    by (simp add: any_of_map day_clause_holds has_field_holds tag_clauses_def list_all_iff del: filter_clause_holds.simps)
      (auto simp: any_of_def has_field_holds simp del: filter_clause_holds.simps)
  finally show ?thesis .
qed

lemma filter_parts_holds:
  "query_holds x (Query (map part_ast (filter_parts formatDay f tags))) = filters_hold x formatDay f tags"
  by (rule ext) (rule filter_parts_hold)

lemma no_parts_hold: "filter_parts formatDay f tags = [] \<Longrightarrow> filters_hold x formatDay f tags t"
  using filter_parts_hold [of x formatDay f tags t] by simp

lemma part_text_not_blank: "p \<noteq> [] \<Longrightarrow> \<exists>c \<in> set (part_text p). \<not> is_space c"
proof -
  assume "p \<noteq> []"
  then have "trim (clause_text (hd p)) \<noteq> []" "set (clause_text (hd p)) \<subseteq> set (part_text p)"
    by (cases p; cases "tl p"; simp add: trim_clause part_text_def; blast)+
  then show ?thesis by (auto simp: trim_blank list_all_iff)
qed

lemma generated_query_blank:
  assumes "plain_filters formatDay f tags" "generateQuery formatDay f tags = Inr q"
  shows "trim q = [] \<longleftrightarrow> filter_parts formatDay f tags = []"
proof (cases "filter_parts formatDay f tags")
  case Nil
  then show ?thesis using assms generateQuery_text by (simp add: trim_def)
next
  case (Cons p ps)
  then have "p \<in> set (filter_parts formatDay f tags)" by simp
  then have "p \<noteq> []" unfolding filter_parts_def by (auto simp only: set_filter)
  then obtain c where c: "c \<in> set (part_text p)" "\<not> is_space c" using part_text_not_blank by blast
  have "set (part_text p) \<subseteq> set q"
    using assms generateQuery_text [OF assms(1)] by (cases ps) (auto simp: Cons)
  then show ?thesis using c by (auto simp: trim_blank list_all_iff Cons)
qed

lemma filters_search:
  assumes "plain_filters formatDay f tags" "filtersFormValidationSchema f" "generateQuery formatDay f tags = Inr q"
    and "distinct (map tx_id (sp_transactions params))" "makeCategoryTree (sp_categories params) = Inr tree"
    and "useTransactionSearch (antlr_parser messages) df (params\<lparr>sp_query := q\<rparr>) = Inr (found, errors)"
  shows "errors = None \<and> found = filter (filters_hold (context_of df params tree) formatDay f tags) (sp_transactions params)"
proof (cases "filter_parts formatDay f tags = []")
  case True
  then have "trim q = []" using generated_query_blank [OF assms(1,3)] by simp
  then show ?thesis using assms(6) no_parts_hold [OF True] by (simp add: useTransactionSearch_def search_def)
next
  case False
  let ?params = "params\<lparr>sp_query := q\<rparr>"
  have blank: "trim (sp_query ?params) \<noteq> []" using generated_query_blank [OF assms(1,3)] False by simp
  have parsed: "antlr_parser messages q = Inr (Query (map part_ast (filter_parts formatDay f tags)))"
    by (rule derivable_parser [OF generated_query_derivable [OF assms(1,2) False assms(3)]])
  have "not_syntax_error (search (antlr_parser messages) df ?params)"
    using search_syntax_error [of ?params] parsed assms(5) by simp
  then have found: "search (antlr_parser messages) df ?params = Inr found" "errors = None"
    using assms(6) by (auto simp: useTransactionSearch_def not_syntax_error_def split: sum.splits js_error.splits)
  have "distinct (map tx_id (sp_transactions ?params))" using assms(4) by simp
  from search_lemma [OF this blank found(1)] show ?thesis
    using parsed assms(5) found(2) by (simp add: context_of_def filter_parts_holds)
qed

section \<open>The page\<close>

definition query_in_sync :: "(string \<Rightarrow> string option) \<Rightarrow> tag list \<Rightarrow> filters_state \<Rightarrow> bool" where
  "query_in_sync formatDay tags s \<longleftrightarrow>
     fs_generated s = Some (ff_query (fs_form s)) \<and> generateQuery formatDay (fs_form s) tags = Inr (ff_query (fs_form s))"

lemma generateQuery_ignores_query: "generateQuery formatDay (f\<lparr>ff_query := q\<rparr>) tags = generateQuery formatDay f tags"
  by (simp add: generateQuery_def tag_parts_def)

lemma query_effect_syncs:
  assumes "query_effect formatDay tags s = Inr s'"
    and "fs_generated s = None \<or> fs_generated s = Some (ff_query (fs_form s))"
  shows "query_in_sync formatDay tags s'"
proof -
  obtain q where "generateQuery formatDay (fs_form s) tags = Inr q"
    "s' = (if fs_generated s = Some q then s
           else \<lparr>fs_form = (fs_form s)\<lparr>ff_query := q\<rparr>, fs_generated = Some q\<rparr>)"
    using assms(1) unfolding query_effect_def bind_result_eq_Inr by blast
  then show ?thesis using assms(2)
    by (cases "fs_generated s = Some q") (auto simp: query_in_sync_def generateQuery_ignores_query)
qed

lemma event_keeps_query: "\<forall>q. e \<noteq> TypeQuery q \<Longrightarrow> ff_query (filters_event_step e f) = ff_query f"
  by (cases e) auto

lemma filters_run_in_sync:
  "filters_run formatDay tags es s = Inr s' \<Longrightarrow> (\<forall>q. TypeQuery q \<notin> set es) \<Longrightarrow> query_in_sync formatDay tags s \<Longrightarrow>
   query_in_sync formatDay tags s'"
proof (induction es arbitrary: s)
  case (Cons e es)
  obtain s1 where s1: "filters_step formatDay tags e s = Inr s1" "filters_run formatDay tags es s1 = Inr s'"
    using Cons.prems(1) by (auto simp: result_simps)
  have "ff_query (filters_event_step e (fs_form s)) = ff_query (fs_form s)"
    using Cons.prems(2) by (intro event_keeps_query) auto
  then have "query_in_sync formatDay tags s1"
    using s1(1) Cons.prems(3) unfolding filters_step_def
    by (intro query_effect_syncs) (auto simp: query_in_sync_def)
  then show ?case using Cons.IH s1(2) Cons.prems(2) by auto
qed simp

lemma mounted_in_sync: "mount_filters formatDay tags = Inr s \<Longrightarrow> query_in_sync formatDay tags s"
  unfolding mount_filters_def by (erule query_effect_syncs) simp

text \<open>
  C7: the transactions page lists exactly the transactions its filters describe. From the opening of
  the page through any changes of the filters (types, vendor, accounts, categories, trips, dates, tags,
  all or any of the tags), as long as the query was not typed over and the names and dates need no
  quoting, the query the effect generates lexes and parses without an error to the query of the
  filters, and the search keeps the transactions that satisfy every filter set, in their order: one of
  the types, the vendor, one of the accounts, of the categories, of the trips, the dates, and any or all
  of the tags. An account, a category, a trip or a tag matches by its id or by its name containing the text.
\<close>
theorem filters_page_lists_matches:
  assumes "mount_filters formatDay (sp_tags params) = Inr s0"
    and "filters_run formatDay (sp_tags params) es s0 = Inr s" and "\<forall>q. TypeQuery q \<notin> set es"
    and "plain_filters formatDay (fs_form s) (sp_tags params)" and "filtersFormValidationSchema (fs_form s)"
    and "distinct (map tx_id (sp_transactions params))" and "makeCategoryTree (sp_categories params) = Inr tree"
    and "NonEmptyPageContent (antlr_parser messages) df params s = Inr (found, errors)"
  shows "errors = None \<and>
    found = filter (filters_hold (context_of df params tree) formatDay (fs_form s) (sp_tags params)) (sp_transactions params)"
proof -
  have "query_in_sync formatDay (sp_tags params) s"
    by (rule filters_run_in_sync [OF assms(2,3) mounted_in_sync [OF assms(1)]])
  then have "generateQuery formatDay (fs_form s) (sp_tags params) = Inr (ff_query (fs_form s))"
    by (simp add: query_in_sync_def)
  from filters_search [OF assms(4,5) this assms(6,7) assms(8) [unfolded NonEmptyPageContent_def]] show ?thesis .
qed

definition sample_filter_events :: "filters_event list" where
  "sample_filter_events = [SetVendor ''shop'', SetTransactionTypes [FilterPersonal, FilterIncome], SetTimeFrom ''2024-01-01'',
     SetTimeFrom []]"

definition sample_day :: "string \<Rightarrow> string option" where
  "sample_day s = Some s"

definition sample_filters_start :: filters_state where
  "sample_filters_start = \<lparr>fs_form = default_filters, fs_generated = Some []\<rparr>"

definition sample_filters_end :: filters_state where
  "sample_filters_end =
     \<lparr>fs_form = default_filters\<lparr>ff_vendor := ''shop'', ff_transactionTypes := [FilterPersonal, FilterIncome],
        ff_query := ''(t:personal OR t:income) vendor:shop''\<rparr>,
      fs_generated = Some ''(t:personal OR t:income) vendor:shop''\<rparr>"

lemma sample_filters_run:
  "mount_filters sample_day (sp_tags sample_search) = Inr sample_filters_start"
  "filters_run sample_day (sp_tags sample_search) sample_filter_events sample_filters_start = Inr sample_filters_end"
  by code_simp+

lemma sample_filters_found:
  "NonEmptyPageContent (antlr_parser (\<lambda>_. [])) sample_dates sample_search sample_filters_end =
   Inr ([PersonalExpense sample_expense], None)"
  by code_simp

theorem filters_page_lists_matches_witness:
  "\<exists>tree. [PersonalExpense sample_expense] =
     filter (filters_hold (context_of sample_dates sample_search tree) sample_day (fs_form sample_filters_end)
       (sp_tags sample_search)) (sp_transactions sample_search)"
proof -
  have typed: "\<forall>q. TypeQuery q \<notin> set sample_filter_events" by (simp add: sample_filter_events_def)
  have "plain_word ''shop''" by code_simp
  then have plain: "plain_filters sample_day (fs_form sample_filters_end) (sp_tags sample_search)"
    by (simp add: plain_filters_def sample_filters_end_def default_filters_def selected_tags_def plain_day_def)
  have valid: "filtersFormValidationSchema (fs_form sample_filters_end)"
    "distinct (map tx_id (sp_transactions sample_search))"
    by code_simp+
  obtain tree where "makeCategoryTree (sp_categories sample_search) = Inr tree"
    using sample_tree by (auto simp: sample_search_def)
  from filters_page_lists_matches [OF sample_filters_run typed plain valid this sample_filters_found]
  show ?thesis by blast
qed

text \<open>
  A name with a space is not quoted: the second word is searched for in every field, and the vendor
  filter is no longer the vendor's whole name.
\<close>

lemma spaced_vendor_is_two_searches:
  "generateQuery formatDay (default_filters\<lparr>ff_vendor := ''Corner shop''\<rparr>) tags = Inr ''vendor:Corner shop''"
  "antlr_parser messages ''vendor:Corner shop'' =
   Inr (Query [DisjQuery [ConjQuery [ModClause False (FieldMatchClause ''vendor'' (PlainTerm ''Corner''))]],
               DisjQuery [ConjQuery [ModClause False (TermClause (PlainTerm ''shop''))]]])"
  unfolding antlr_parser_def by (simp add: generateQuery_def default_filters_def day_part_def appendOR_def tag_parts_def
      List.map_filter_def trim_def is_space_def) code_simp

text \<open>A query typed by hand is lost at the next change of a filter that changes the generated query.\<close>

lemma typed_query_overwritten:
  "filters_run sample_day [] [TypeQuery ''coffee'', SetVendor ''shop''] sample_filters_start =
   Inr \<lparr>fs_form = default_filters\<lparr>ff_vendor := ''shop'', ff_query := ''vendor:shop''\<rparr>, fs_generated = Some ''vendor:shop''\<rparr>"
  by code_simp

text \<open>The filter of account 1 also lists the transactions of another account whose name has a 1 in it.\<close>

definition other_account :: bank_account where
  "other_account = \<lparr>acc_id = 2, acc_name = ''Card 1234'', acc_bankId = 5, acc_initialBalanceNanos = 0,
     acc_currencyCode = Some ''USD'', acc_stock = None, acc_displayOrder = 0, acc_archived = False, acc_joint = False\<rparr>"

lemma account_filter_matches_names:
  "in_accountId i = 2 \<Longrightarrow> sx_bankAccounts x = [other_account] \<Longrightarrow> on_account x (Income i) 1"
proof -
  have "string_of_int 1 = ''1''" by code_simp
  moreover have "str_matches (acc_name other_account) ''1'' CaseInsensitive" by code_simp
  moreover assume "in_accountId i = 2" "sx_bankAccounts x = [other_account]"
  ultimately show ?thesis
    by (simp add: on_account_def matchBankAccount_def transactionBankAccount_def or_throw_def)
      (simp add: other_account_def)
qed

end
