(* ===== verification/TxActions.thy ===== *)
theory TxActions
  imports FormValidation
begin

text \<open>
  Saving the transaction form: the server action \<open>upsertTransaction\<close> of
  \<open>actions/txform/index.ts\<close> and the form component of \<open>components/txform/TransactionForm.tsx\<close>
  as a state machine over the edited transaction, the selected draft and the form values.

  Parameters: \<open>isValid\<close> (\<open>date-fns\<close>), \<open>dateParse\<close> (the date string parser of the JavaScript
  runtime), \<open>session\<close> (the authenticated session id, if any) and \<open>rpc\<close> (whether the backend
  accepts a request). The requests sent to the backend are part of the result.
\<close>

section \<open>Requests\<close>

record repayment_input =
  ri_accountId :: "int option"
  ri_timestamp :: timestamp
  ri_categoryId :: "int option"

record expense_input =
  ei_timestamp :: timestamp
  ei_description :: string
  ei_vendor :: string
  ei_categoryId :: int
  ei_accountId :: "int option"
  ei_currency :: "string option"
  ei_payer :: "string option"
  ei_companion :: "string option"
  ei_amountNanos :: int
  ei_ownShareNanos :: int
  ei_tripName :: "string option"
  ei_sharingType :: sharing_type
  ei_repayment :: "repayment_input option"

record income_input =
  ii_timestamp :: timestamp
  ii_description :: string
  ii_payer :: string
  ii_categoryId :: int
  ii_accountId :: int
  ii_amountNanos :: int
  ii_isShared :: bool
  ii_companion :: "string option"
  ii_ownShareNanos :: int
  ii_parentTransactionId :: "int option"

record transfer_input =
  xi_timestamp :: timestamp
  xi_description :: string
  xi_categoryId :: int
  xi_fromAccountId :: int
  xi_toAccountId :: int
  xi_amountSentNanos :: int
  xi_amountReceivedNanos :: int

datatype form_input = ExpenseInput expense_input | IncomeInput income_input | TransferInput transfer_input

record write_request =
  wr_transactionIdToSupersede :: "int option"
  wr_tagNames :: "string list"
  wr_origins :: "origin_key list"
  wr_form :: form_input
  wr_sessionId :: string

definition form_time :: "(string \<Rightarrow> int option) \<Rightarrow> form_date \<Rightarrow> int option" where
  "form_time dateParse t = (case t of FDate d \<Rightarrow> d | FText s \<Rightarrow> dateParse s)"

definition formDateToTimestamp :: "(string \<Rightarrow> int option) \<Rightarrow> form_date option \<Rightarrow> timestamp result" where
  "formDateToTimestamp dateParse t =
     bind_result (or_throw (Option.bind t (form_time dateParse)) InvalidFormTimestamp) (\<lambda>date.
       Inr (dateToTimestamp date))"

text \<open>The nanos of an amount field: \<open>BigInt(NaN)\<close> throws.\<close>

definition amountToNanos :: "rat option \<Rightarrow> int result" where
  "amountToNanos amount = bind_result (or_throw amount AssertionFailed) (\<lambda>a. Inr (dollarToNanos a))"

definition repaymentInput :: "(string \<Rightarrow> int option) \<Rightarrow> expense_form \<Rightarrow> repayment_input option result" where
  "repaymentInput dateParse e =
     (if ef_sharingType e = PAID_OTHER_REPAID
      then bind_result (or_throw (ef_repayment e) AssertionFailed) (\<lambda>r.
           bind_result (formDateToTimestamp dateParse (rp_timestamp r)) (\<lambda>ts.
             Inr (Some \<lparr>ri_accountId = rp_accountId r, ri_timestamp = ts, ri_categoryId = rp_categoryId r\<rparr>)))
      else Inr None)"

definition expenseInput :: "(string \<Rightarrow> int option) \<Rightarrow> expense_form \<Rightarrow> expense_input result" where
  "expenseInput dateParse e =
     bind_result (repaymentInput dateParse e) (\<lambda>repayment.
     bind_result (formDateToTimestamp dateParse (Some (ef_timestamp e))) (\<lambda>ts.
     bind_result (amountToNanos (ef_amount e)) (\<lambda>amountNanos.
     bind_result (amountToNanos (ef_ownShareAmount e)) (\<lambda>ownShareNanos.
       Inr \<lparr>ei_timestamp = ts, ei_description = or_blank (ef_description e), ei_vendor = ef_vendor e,
         ei_categoryId = ef_categoryId e, ei_accountId = ef_accountId e, ei_currency = ef_currency e,
         ei_payer = ef_payer e, ei_companion = ef_companion e, ei_amountNanos = amountNanos,
         ei_ownShareNanos = ownShareNanos, ei_tripName = ef_tripName e,
         ei_sharingType = ef_sharingType e, ei_repayment = repayment\<rparr>))))"

definition incomeInput :: "(string \<Rightarrow> int option) \<Rightarrow> income_form \<Rightarrow> income_input result" where
  "incomeInput dateParse i =
     bind_result (formDateToTimestamp dateParse (Some (if_timestamp i))) (\<lambda>ts.
     bind_result (amountToNanos (if_amount i)) (\<lambda>amountNanos.
     bind_result (amountToNanos (if_ownShareAmount i)) (\<lambda>ownShareNanos.
       Inr \<lparr>ii_timestamp = ts, ii_description = or_blank (if_description i), ii_payer = if_payer i,
         ii_categoryId = if_categoryId i, ii_accountId = if_accountId i, ii_amountNanos = amountNanos,
         ii_isShared = if_isShared i, ii_companion = if_companion i, ii_ownShareNanos = ownShareNanos,
         ii_parentTransactionId = if_parentTransactionId i\<rparr>)))"

definition transferInput :: "(string \<Rightarrow> int option) \<Rightarrow> transfer_form \<Rightarrow> transfer_input result" where
  "transferInput dateParse t =
     bind_result (formDateToTimestamp dateParse (Some (xf_timestamp t))) (\<lambda>ts.
     bind_result (amountToNanos (xf_amountSent t)) (\<lambda>sent.
     bind_result (amountToNanos (xf_amountReceived t)) (\<lambda>received.
       Inr \<lparr>xi_timestamp = ts, xi_description = or_blank (xf_description t), xi_categoryId = xf_categoryId t,
         xi_fromAccountId = xf_fromAccountId t, xi_toAccountId = xf_toAccountId t,
         xi_amountSentNanos = sent, xi_amountReceivedNanos = received\<rparr>)))"

definition buildForm :: "(string \<Rightarrow> int option) \<Rightarrow> transaction_form \<Rightarrow> form_input result" where
  "buildForm dateParse f =
     (case tf_expense f of
        Some e \<Rightarrow> map_sum id ExpenseInput (expenseInput dateParse e)
      | None \<Rightarrow>
        (case tf_income f of
           Some i \<Rightarrow> map_sum id IncomeInput (incomeInput dateParse i)
         | None \<Rightarrow>
           (case tf_transfer f of
              Some t \<Rightarrow> map_sum id TransferInput (transferInput dateParse t)
            | None \<Rightarrow> Inl NoFormVariant)))"

definition pickTagNames :: "transaction_form \<Rightarrow> string list" where
  "pickTagNames f =
     (case tf_expense f of
        Some e \<Rightarrow> ef_tagNames e
      | None \<Rightarrow>
        (case tf_income f of
           Some i \<Rightarrow> if_tagNames i
         | None \<Rightarrow> (case tf_transfer f of Some t \<Rightarrow> xf_tagNames t | None \<Rightarrow> [])))"

text \<open>The values of \<open>OriginKind\<close> in \<open>proto/prosper/v1/ledger.proto\<close>.\<close>

definition origin_kinds :: "int list" where
  "origin_kinds = [0, 1]"

definition parseOrigins :: "origin_key list \<Rightarrow> origin_key list" where
  "parseOrigins unsafeOrigins =
     (if list_all (\<lambda>k. origin_kind k \<in> set origin_kinds \<and> length (origin_key k) \<ge> 1) unsafeOrigins
      then unsafeOrigins else [])"

datatype upsert_response = CLIENT_ERROR "string list list" | SUCCESS

definition upsertTransaction ::
  "(form_date \<Rightarrow> bool) \<Rightarrow> (string \<Rightarrow> int option) \<Rightarrow> string option \<Rightarrow> (write_request \<Rightarrow> bool) \<Rightarrow>
     int option \<Rightarrow> origin_key list \<Rightarrow> transaction_form \<Rightarrow> write_request list \<times> upsert_response result" where
  "upsertTransaction isValid dateParse session rpc transactionId unsafeOrigins unsafeData =
     (case session of
        None \<Rightarrow> ([], Inl NotAuthenticated)
      | Some sessionId \<Rightarrow>
        (case safeParse isValid unsafeData of
           Inl errors \<Rightarrow> ([], Inr (CLIENT_ERROR errors))
         | Inr data \<Rightarrow>
           let origins = parseOrigins unsafeOrigins;
               tagNames = pickTagNames data
           in (case buildForm dateParse data of
                 Inl e \<Rightarrow> ([], Inl e)
               | Inr form \<Rightarrow>
                 let request = \<lparr>wr_transactionIdToSupersede = transactionId, wr_tagNames = tagNames,
                       wr_origins = origins, wr_form = form, wr_sessionId = sessionId\<rparr>
                 in ([request], if rpc request then Inr SUCCESS else Inl BackendFailed))))"

section \<open>The form component\<close>

record form_state =
  fs_transaction :: "transaction option"
  fs_draft :: "transaction_draft option"
  fs_values :: transaction_form
  fs_closed :: bool

text \<open>What the component takes from its contexts.\<close>

record form_env =
  fe_today :: int
  fe_categories :: "category list"
  fe_bankAccounts :: "bank_account list"
  fe_links :: "transaction_link list"
  fe_tags :: "tag list"
  fe_trips :: "trip list"
  fe_isValid :: "form_date \<Rightarrow> bool"
  fe_dateParse :: "string \<Rightarrow> int option"
  fe_session :: "string option"

definition openForm :: "form_env \<Rightarrow> transaction option \<Rightarrow> form_state result" where
  "openForm env t =
     (case t of
        Some (OpeningBalance b) \<Rightarrow> Inl (UnexpectedOpeningBalance (ob_id b))
      | _ \<Rightarrow>
        bind_result (useFormDefaults (fe_today env) t (fe_categories env) (fe_bankAccounts env)
            (fe_links env) (fe_tags env) (fe_trips env)) (\<lambda>values.
          Inr \<lparr>fs_transaction = t, fs_draft = None, fs_values = values, fs_closed = False\<rparr>))"

definition onFormTypeChange :: "form_env \<Rightarrow> form_kind \<Rightarrow> form_state \<Rightarrow> form_state result" where
  "onFormTypeChange env newFormType s =
     bind_result (valuesForNewType (fs_values s) newFormType (fe_bankAccounts env)) (\<lambda>values.
       Inr (s\<lparr>fs_values := values\<rparr>))"

definition onDraftChange :: "form_env \<Rightarrow> transaction_draft \<Rightarrow> form_state \<Rightarrow> form_state result" where
  "onDraftChange env draft s =
     bind_result (valuesForDraft (fe_today env) draft (fe_categories env) (fe_bankAccounts env)) (\<lambda>values.
       Inr (s\<lparr>fs_draft := Some draft, fs_values := values\<rparr>))"

definition kept_account :: "transaction_form \<Rightarrow> int option" where
  "kept_account data =
     (case truthy_id (Option.bind (tf_expense data) ef_accountId) of
        Some i \<Rightarrow> Some i
      | None \<Rightarrow>
        (case truthy_id (map_option if_accountId (tf_income data)) of
           Some i \<Rightarrow> Some i
         | None \<Rightarrow> truthy_id (map_option xf_toAccountId (tf_transfer data))))"

text \<open>
  \<open>onSubmit\<close>. The form library validates the values first and calls the handler with the parsed
  data; a failure of the action is shown in the form and changes neither the draft nor the values.
\<close>

definition onSubmit ::
  "form_env \<Rightarrow> (write_request \<Rightarrow> bool) \<Rightarrow> form_state \<Rightarrow> form_state \<times> write_request list" where
  "onSubmit env rpc s =
     (case safeParse (fe_isValid env) (fs_values s) of
        Inl errors \<Rightarrow> (s, [])
      | Inr data \<Rightarrow>
        let transactionId = map_option tx_id (fs_transaction s);
            origins = (case fs_draft s of None \<Rightarrow> [] | Some d \<Rightarrow> dr_origins d);
            (sent, response) = upsertTransaction (fe_isValid env) (fe_dateParse env) (fe_session env) rpc
              transactionId origins data
        in (case response of
              Inr SUCCESS \<Rightarrow>
                (if fs_transaction s \<noteq> None then (s\<lparr>fs_closed := True\<rparr>, sent)
                 else (case expenseFormEmpty (fe_today env) (fe_categories env) (fe_bankAccounts env) of
                         Inl e \<Rightarrow> (s, sent)
                       | Inr blank_form \<Rightarrow>
                         (s\<lparr>fs_draft := None,
                            fs_values := expense_values (blank_form\<lparr>ef_accountId := kept_account data\<rparr>)\<rparr>, sent)))
            | _ \<Rightarrow> (s, sent)))"

text \<open>
  The states of an open form. A field edit replaces the values of the variant shown; suggestions
  are offered only when a new transaction is created.
\<close>

inductive form_step ::
  "form_env \<Rightarrow> form_state \<Rightarrow> write_request list \<Rightarrow> form_state \<Rightarrow> bool" for env where
  step_type: "onFormTypeChange env ty s = Inr s' \<Longrightarrow> form_step env s [] s'"
| step_draft: "fs_transaction s = None \<Longrightarrow> onDraftChange env d s = Inr s' \<Longrightarrow> form_step env s [] s'"
| step_expense: "tf_formType (fs_values s) = EXPENSE \<Longrightarrow>
    form_step env s [] (s\<lparr>fs_values := (fs_values s)\<lparr>tf_expense := Some e\<rparr>\<rparr>)"
| step_income: "tf_formType (fs_values s) = INCOME \<Longrightarrow>
    form_step env s [] (s\<lparr>fs_values := (fs_values s)\<lparr>tf_income := Some i\<rparr>\<rparr>)"
| step_transfer: "tf_formType (fs_values s) = TRANSFER \<Longrightarrow>
    form_step env s [] (s\<lparr>fs_values := (fs_values s)\<lparr>tf_transfer := Some t\<rparr>\<rparr>)"
| step_submit: "onSubmit env rpc s = (s', sent) \<Longrightarrow> form_step env s sent s'"

inductive_cases form_stepE: "form_step env s sent s'"

inductive form_reachable :: "form_env \<Rightarrow> transaction option \<Rightarrow> form_state \<Rightarrow> bool" for env t where
  form_opened: "openForm env t = Inr s \<Longrightarrow> form_reachable env t s"
| form_stepped: "form_reachable env t s \<Longrightarrow> form_step env s sent s' \<Longrightarrow> form_reachable env t s'"

definition form_state_ok :: "transaction option \<Rightarrow> form_state \<Rightarrow> bool" where
  "form_state_ok t s \<longleftrightarrow> fs_transaction s = t \<and> form_ok (fs_values s) \<and> (t \<noteq> None \<longrightarrow> fs_draft s = None)"

section \<open>States of the form\<close>

lemma valuesForNewType_ok:
  assumes "form_ok f" "valuesForNewType f ty accs = Inr g"
  shows "form_ok g"
  using assms by (cases rule: form_okE; cases ty)
    (auto simp: valuesForNewType_def conversion_defs map_sum_eq_Inr bind_result_eq_Inr)

lemma valuesForDraft_ok: "valuesForDraft today d cats accs = Inr f \<Longrightarrow> form_ok f"
  by (auto simp: valuesForDraft_def map_sum_eq_Inr split: pb_form_type.splits)

lemma form_ok_edit:
  assumes "form_ok f"
  shows "tf_formType f = EXPENSE \<Longrightarrow> form_ok (f\<lparr>tf_expense := Some e\<rparr>)"
    and "tf_formType f = INCOME \<Longrightarrow> form_ok (f\<lparr>tf_income := Some i\<rparr>)"
    and "tf_formType f = TRANSFER \<Longrightarrow> form_ok (f\<lparr>tf_transfer := Some t\<rparr>)"
  using assms by (auto simp: form_ok_def form_values_defs)

lemma openForm_ok: "openForm env t = Inr s \<Longrightarrow> form_state_ok t s"
  by (auto simp: openForm_def form_state_ok_def bind_result_eq_Inr dest: useFormDefaults_ok
    split: option.splits transaction.splits)

lemma onSubmit_ok: "form_state_ok t s \<Longrightarrow> onSubmit env rpc s = (s', sent) \<Longrightarrow> form_state_ok t s'"
  by (auto simp: onSubmit_def form_state_ok_def Let_def
    split: sum.splits prod.splits upsert_response.splits if_splits)

lemma form_step_ok:
  assumes "form_step env s sent s'" "form_state_ok t s"
  shows "form_state_ok t s'"
  using assms
proof cases
  case (step_type ty)
  then show ?thesis using assms(2)
    by (auto simp: form_state_ok_def onFormTypeChange_def bind_result_eq_Inr intro: valuesForNewType_ok)
next
  case (step_draft d)
  then show ?thesis using assms(2)
    by (auto simp: form_state_ok_def onDraftChange_def bind_result_eq_Inr intro: valuesForDraft_ok)
next
  case (step_submit rpc)
  then show ?thesis using assms(2) onSubmit_ok by blast
qed (auto simp: form_state_ok_def intro: form_ok_edit)

lemma form_reachable_ok: "form_reachable env t s \<Longrightarrow> form_state_ok t s"
  by (induction rule: form_reachable.induct) (auto intro: openForm_ok form_step_ok)

section \<open>What a submission sends\<close>

lemma dollarToNanos_mono: "a \<le> b \<Longrightarrow> dollarToNanos a \<le> dollarToNanos b"
  by (auto simp: dollarToNanos_def n_mul_def NANOS_PER_DOLLAR_def intro!: js_round_mono f64_mono)

lemma dollarToNanos_0 [simp]: "dollarToNanos 0 = 0"
  using js_round_of_int [of 0] by (simp add: dollarToNanos_def n_mul_def)

lemma dollarToNanos_nonneg: "0 \<le> a \<Longrightarrow> 0 \<le> dollarToNanos a"
  using dollarToNanos_mono [of 0 a] by simp

definition variant_valid :: "(form_date \<Rightarrow> bool) \<Rightarrow> transaction_form \<Rightarrow> bool" where
  "variant_valid isValid f \<longleftrightarrow>
     (case tf_formType f of
        EXPENSE \<Rightarrow> (\<exists>e. tf_expense f = Some e \<and> expense_valid isValid e)
      | INCOME \<Rightarrow> (\<exists>i. tf_income f = Some i \<and> income_valid isValid i)
      | TRANSFER \<Rightarrow> (\<exists>t. tf_transfer f = Some t \<and> transfer_valid isValid t))"

lemma safeParse_variant:
  "form_ok f \<Longrightarrow> safeParse isValid f = Inr g \<longleftrightarrow> variant_valid isValid f \<and> g = trim_form f"
  by (auto simp: form_ok_def safeParse_Inr variant_valid_def variant_present_def)

text \<open>A date the validation accepts is one the date parser reads.\<close>

definition dates_parse :: "(form_date \<Rightarrow> bool) \<Rightarrow> (string \<Rightarrow> int option) \<Rightarrow> bool" where
  "dates_parse isValid dateParse \<longleftrightarrow>
     (\<forall>t. isValid t \<and> t \<noteq> FDate None \<longrightarrow> form_time dateParse t \<noteq> None)"

text \<open>The part of a request that mirrors the form it was built from.\<close>

definition request_of :: "transaction_form \<Rightarrow> form_input \<Rightarrow> bool" where
  "request_of f form \<longleftrightarrow>
     (case form of
        ExpenseInput x \<Rightarrow>
          tf_formType f = EXPENSE \<and> (\<exists>e. tf_expense f = Some e \<and>
            ei_vendor x = trim (ef_vendor e) \<and> ei_vendor x \<noteq> [] \<and> ei_categoryId x = ef_categoryId e \<and>
            ei_accountId x = ef_accountId e \<and> ei_sharingType x = ef_sharingType e \<and>
            0 \<le> ei_ownShareNanos x \<and> ei_ownShareNanos x \<le> ei_amountNanos x \<and>
            (ei_repayment x \<noteq> None \<longleftrightarrow> ei_sharingType x = PAID_OTHER_REPAID) \<and>
            (isPaidSelf (ei_sharingType x) \<longrightarrow> ei_accountId x \<noteq> None))
      | IncomeInput x \<Rightarrow>
          tf_formType f = INCOME \<and> (\<exists>i. tf_income f = Some i \<and>
            ii_payer x = trim (if_payer i) \<and> ii_payer x \<noteq> [] \<and> ii_categoryId x = if_categoryId i \<and>
            ii_accountId x = if_accountId i \<and> ii_isShared x = if_isShared i \<and>
            0 \<le> ii_ownShareNanos x \<and> ii_ownShareNanos x \<le> ii_amountNanos x)
      | TransferInput x \<Rightarrow>
          tf_formType f = TRANSFER \<and> (\<exists>t. tf_transfer f = Some t \<and>
            xi_fromAccountId x = xf_fromAccountId t \<and> xi_toAccountId x = xf_toAccountId t \<and>
            xi_fromAccountId x \<noteq> xi_toAccountId x \<and>
            0 \<le> xi_amountSentNanos x \<and> 0 \<le> xi_amountReceivedNanos x))"

lemma formDateToTimestamp_total:
  assumes "dates_parse isValid dateParse" "isValid t" "t \<noteq> FDate None"
  shows "\<exists>ts. formDateToTimestamp dateParse (Some t) = Inr ts"
proof -
  from assms obtain d where "form_time dateParse t = Some d" by (auto simp: dates_parse_def)
  then show ?thesis by (simp add: formDateToTimestamp_def)
qed

lemma repaymentInput_total:
  assumes "dates_parse isValid dateParse" "expense_valid isValid e"
  shows "\<exists>r. repaymentInput dateParse (trim_expense e) = Inr r \<and>
    (r \<noteq> None \<longleftrightarrow> ef_sharingType e = PAID_OTHER_REPAID)"
proof (cases "ef_sharingType e = PAID_OTHER_REPAID")
  case True
  then obtain r t where r: "ef_repayment e = Some r" "rp_timestamp r = Some t" "t \<noteq> FDate None" "isValid t"
    using assms(2) by (auto simp: expense_valid_def repayment_valid_def)
  then show ?thesis
    using True formDateToTimestamp_total [OF assms(1), of t]
    by (auto simp: repaymentInput_def trim_expense_def)
qed (auto simp: repaymentInput_def trim_expense_def)

lemma buildForm_expense:
  assumes dates: "dates_parse isValid dateParse" and e: "expense_valid isValid e"
  shows "\<exists>form. buildForm dateParse (trim_form (expense_values e)) = Inr form \<and>
    request_of (expense_values e) form"
proof -
  obtain a b where ab: "ef_amount e = Some a" "ef_ownShareAmount e = Some b" "0 \<le> b" "b \<le> a"
    using e by (auto simp: expense_valid_def)
  obtain ts where ts: "formDateToTimestamp dateParse (Some (ef_timestamp e)) = Inr ts"
    using e formDateToTimestamp_total [OF dates, of "ef_timestamp e"] by (auto simp: expense_valid_def)
  obtain r where r: "repaymentInput dateParse (trim_expense e) = Inr r"
      "r \<noteq> None \<longleftrightarrow> ef_sharingType e = PAID_OTHER_REPAID"
    using repaymentInput_total [OF dates e] by blast
  have "expenseInput dateParse (trim_expense e) = Inr \<lparr>ei_timestamp = ts,
      ei_description = or_blank (ef_description e), ei_vendor = trim (ef_vendor e),
      ei_categoryId = ef_categoryId e, ei_accountId = ef_accountId e, ei_currency = ef_currency e,
      ei_payer = ef_payer e, ei_companion = ef_companion e, ei_amountNanos = dollarToNanos a,
      ei_ownShareNanos = dollarToNanos b, ei_tripName = ef_tripName e,
      ei_sharingType = ef_sharingType e, ei_repayment = r\<rparr>"
    using ab ts r(1) by (simp add: expenseInput_def trim_expense_def amountToNanos_def)
  then show ?thesis
    using e ab r(2) by (auto simp: buildForm_def trim_form_def request_of_def expense_valid_def
      intro: dollarToNanos_nonneg dollarToNanos_mono)
qed

lemma buildForm_income:
  assumes dates: "dates_parse isValid dateParse" and i: "income_valid isValid i"
  shows "\<exists>form. buildForm dateParse (trim_form (income_values i)) = Inr form \<and>
    request_of (income_values i) form"
proof -
  obtain a b where ab: "if_amount i = Some a" "if_ownShareAmount i = Some b" "0 \<le> b" "b \<le> a"
    using i by (auto simp: income_valid_def)
  obtain ts where ts: "formDateToTimestamp dateParse (Some (if_timestamp i)) = Inr ts"
    using i formDateToTimestamp_total [OF dates, of "if_timestamp i"] by (auto simp: income_valid_def)
  show ?thesis
    using i ab ts by (auto simp: buildForm_def trim_form_def request_of_def income_valid_def incomeInput_def
      trim_income_def amountToNanos_def intro: dollarToNanos_nonneg dollarToNanos_mono)
qed

lemma buildForm_transfer:
  assumes dates: "dates_parse isValid dateParse" and t: "transfer_valid isValid t"
  shows "\<exists>form. buildForm dateParse (trim_form (transfer_values t)) = Inr form \<and>
    request_of (transfer_values t) form"
proof -
  obtain ts where ts: "formDateToTimestamp dateParse (Some (xf_timestamp t)) = Inr ts"
    using t formDateToTimestamp_total [OF dates, of "xf_timestamp t"] by (auto simp: transfer_valid_def)
  show ?thesis
    using t ts by (auto simp: buildForm_def trim_form_def request_of_def transfer_valid_def transferInput_def
      amountToNanos_def intro: dollarToNanos_nonneg [OF order.strict_implies_order])
qed

lemma buildForm_valid:
  assumes "form_ok f" "dates_parse isValid dateParse" "variant_valid isValid f"
  shows "\<exists>form. buildForm dateParse (trim_form f) = Inr form \<and> request_of f form"
  using assms(1)
proof (cases rule: form_okE)
  case (expense e)
  then show ?thesis using assms(3) buildForm_expense [OF assms(2)] by (simp add: variant_valid_def)
next
  case (income i)
  then show ?thesis using assms(3) buildForm_income [OF assms(2)] by (simp add: variant_valid_def)
next
  case (transfer t)
  then show ?thesis using assms(3) buildForm_transfer [OF assms(2)] by (simp add: variant_valid_def)
qed

lemma upsertTransaction_invalid:
  assumes "form_ok f" "\<not> variant_valid isValid f"
  shows "fst (upsertTransaction isValid dateParse session rpc i origins f) = []"
    and "session \<noteq> None \<Longrightarrow>
      \<exists>errors. snd (upsertTransaction isValid dateParse session rpc i origins f) = Inr (CLIENT_ERROR errors)"
proof -
  obtain errors where "safeParse isValid f = Inl errors"
    using assms safeParse_variant [of f isValid] by (cases "safeParse isValid f") auto
  then show "fst (upsertTransaction isValid dateParse session rpc i origins f) = []"
    and "session \<noteq> None \<Longrightarrow>
      \<exists>errors. snd (upsertTransaction isValid dateParse session rpc i origins f) = Inr (CLIENT_ERROR errors)"
    by (auto simp: upsertTransaction_def split: option.splits)
qed

lemma upsertTransaction_valid:
  assumes f: "form_ok f" and dates: "dates_parse isValid dateParse" and v: "variant_valid isValid f"
  shows "\<exists>form. request_of f form \<and>
    upsertTransaction isValid dateParse (Some sid) rpc i origins f =
      (let request = \<lparr>wr_transactionIdToSupersede = i, wr_tagNames = pickTagNames (trim_form f),
             wr_origins = parseOrigins origins, wr_form = form, wr_sessionId = sid\<rparr>
       in ([request], if rpc request then Inr SUCCESS else Inl BackendFailed))"
proof -
  obtain form where "buildForm dateParse (trim_form f) = Inr form" "request_of f form"
    using buildForm_valid [OF f dates v] by blast
  moreover have "safeParse isValid f = Inr (trim_form f)"
    using v safeParse_variant [OF f] by blast
  ultimately show ?thesis by (auto simp: upsertTransaction_def Let_def)
qed

text \<open>Parsing parsed data again changes nothing.\<close>

lemma dropWhile_idem: "(\<And>c. xs \<noteq> [] \<Longrightarrow> \<not> P (hd xs)) \<Longrightarrow> dropWhile P xs = xs"
  by (cases xs) auto

lemma last_rev_dropWhile: "rev (dropWhile P (rev xs)) \<noteq> [] \<Longrightarrow> \<not> P (last (rev (dropWhile P (rev xs))))"
  by (simp add: last_rev hd_dropWhile)

lemma hd_rev_dropWhile:
  assumes "rev (dropWhile P (rev xs)) \<noteq> []"
  shows "hd (rev (dropWhile P (rev xs))) = hd xs"
proof -
  have "xs = rev (dropWhile P (rev xs)) @ rev (takeWhile P (rev xs))"
    by (metis rev_append rev_rev_ident takeWhile_dropWhile_id)
  with assms show ?thesis by (metis hd_append2)
qed

lemma trim_trim [simp]: "trim (trim s) = trim s"
proof (cases "trim s = []")
  case False
  let ?t = "dropWhile is_space s"
  have "trim s = rev (dropWhile is_space (rev ?t))" by (simp add: trim_def)
  with False have "hd (trim s) = hd ?t" "\<not> is_space (last (trim s))"
    using hd_rev_dropWhile [of is_space ?t] last_rev_dropWhile [of is_space ?t] by simp_all
  moreover have "?t \<noteq> []" using False by (cases "?t = []") (simp_all add: trim_def)
  ultimately have "\<not> is_space (hd (trim s))" by (metis hd_dropWhile)
  then have 1: "dropWhile is_space (trim s) = trim s" using False by (cases "trim s") auto
  have "dropWhile is_space (rev (trim s)) = rev (trim s)"
    using False \<open>\<not> is_space (last (trim s))\<close> by (intro dropWhile_idem) (simp add: hd_rev)
  with 1 show ?thesis by (simp add: trim_def [of "trim s"])
qed simp

lemma form_ok_trim [simp]: "form_ok f \<Longrightarrow> form_ok (trim_form f)"
  by (auto simp: form_ok_def form_values_defs trim_form_def)

lemma tf_formType_trim [simp]: "tf_formType (trim_form f) = tf_formType f"
  by (simp add: trim_form_def)

lemma trim_form_trim [simp]: "trim_form (trim_form f) = trim_form f"
  by (cases f; cases "tf_expense f"; cases "tf_income f") (auto simp: trim_form_def trim_expense_def trim_income_def)

lemma variant_valid_trim:
  assumes "form_ok f"
  shows "variant_valid isValid (trim_form f) \<longleftrightarrow> variant_valid isValid f"
  using assms by (auto simp: form_ok_def form_values_defs variant_valid_def trim_form_def trim_expense_def
    trim_income_def expense_valid_def income_valid_def)

definition origins_of :: "form_state \<Rightarrow> origin_key list" where
  "origins_of s = (case fs_draft s of None \<Rightarrow> [] | Some d \<Rightarrow> dr_origins d)"

lemma onSubmit_sends:
  assumes ok: "form_state_ok t s" and sub: "onSubmit env rpc s = (s', sent)"
    and dates: "dates_parse (fe_isValid env) (fe_dateParse env)"
  shows "sent = [] \<and> s' = s \<or>
    (\<exists>request. sent = [request] \<and> variant_valid (fe_isValid env) (fs_values s) \<and>
       wr_transactionIdToSupersede request = map_option tx_id t \<and>
       wr_origins request = parseOrigins (origins_of s) \<and>
       request_of (trim_form (fs_values s)) (wr_form request) \<and> fe_session env = Some (wr_sessionId request))"
proof (cases "safeParse (fe_isValid env) (fs_values s)")
  case (Inl errors)
  then show ?thesis using sub by (simp add: onSubmit_def)
next
  case (Inr data)
  let ?i = "map_option tx_id (fs_transaction s)" and ?up = "upsertTransaction (fe_isValid env) (fe_dateParse env)"
  have f: "form_ok (fs_values s)" and t: "fs_transaction s = t" using ok by (auto simp: form_state_ok_def)
  have v: "variant_valid (fe_isValid env) (fs_values s)" and data: "data = trim_form (fs_values s)"
    using Inr safeParse_variant [OF f] by auto
  have sent: "sent = fst (?up (fe_session env) rpc ?i (origins_of s) data)"
    using sub Inr by (auto simp: onSubmit_def origins_of_def Let_def
      split: prod.splits sum.splits upsert_response.splits if_splits option.splits)
  show ?thesis
  proof (cases "fe_session env")
    case None
    then show ?thesis using sub Inr by (simp add: onSubmit_def upsertTransaction_def)
  next
    case (Some sid)
    have "form_ok data" "variant_valid (fe_isValid env) data"
      using f v data variant_valid_trim by auto
    then obtain form where form: "request_of data form"
        "fst (?up (Some sid) rpc ?i (origins_of s) data) =
          [\<lparr>wr_transactionIdToSupersede = ?i, wr_tagNames = pickTagNames (trim_form data),
             wr_origins = parseOrigins (origins_of s), wr_form = form, wr_sessionId = sid\<rparr>]"
      using upsertTransaction_valid [OF _ dates, of data sid rpc ?i "origins_of s"] by (auto simp: Let_def)
    then show ?thesis using sent Some v t data by auto
  qed
qed

section \<open>Saving a transaction without changes\<close>

fun recorded_amounts :: "transaction \<Rightarrow> int list" where
  "recorded_amounts (PersonalExpense p) = [pe_amountNanos p, ownShareAmountNanosIgnoreRefunds (FlowPersonal p)]"
| "recorded_amounts (ThirdPartyExpense e) = [tp_amountNanos e, ownShareAmountNanosIgnoreRefunds (FlowThirdParty e)]"
| "recorded_amounts (Income i) = [in_amountNanos i, ownShareAmountNanosIgnoreRefunds (FlowIncome i)]"
| "recorded_amounts (Transfer f) = [tr_sentAmountNanos f, tr_receivedAmountNanos f]"
| "recorded_amounts (OpeningBalance b) = []"

fun recorded_accounts :: "transaction \<Rightarrow> int option list" where
  "recorded_accounts (PersonalExpense p) = [Some (pe_accountId p)]"
| "recorded_accounts (ThirdPartyExpense e) = [None]"
| "recorded_accounts (Income i) = [Some (in_accountId i)]"
| "recorded_accounts (Transfer f) = [Some (tr_fromAccountId f), Some (tr_toAccountId f)]"
| "recorded_accounts (OpeningBalance b) = []"

fun input_amounts :: "form_input \<Rightarrow> int list" where
  "input_amounts (ExpenseInput x) = [ei_amountNanos x, ei_ownShareNanos x]"
| "input_amounts (IncomeInput x) = [ii_amountNanos x, ii_ownShareNanos x]"
| "input_amounts (TransferInput x) = [xi_amountSentNanos x, xi_amountReceivedNanos x]"

fun input_accounts :: "form_input \<Rightarrow> int option list" where
  "input_accounts (ExpenseInput x) = [ei_accountId x]"
| "input_accounts (IncomeInput x) = [Some (ii_accountId x)]"
| "input_accounts (TransferInput x) = [Some (xi_fromAccountId x), Some (xi_toAccountId x)]"

fun input_categoryId :: "form_input \<Rightarrow> int" where
  "input_categoryId (ExpenseInput x) = ei_categoryId x"
| "input_categoryId (IncomeInput x) = ii_categoryId x"
| "input_categoryId (TransferInput x) = xi_categoryId x"

fun input_description :: "form_input \<Rightarrow> string" where
  "input_description (ExpenseInput x) = ei_description x"
| "input_description (IncomeInput x) = ii_description x"
| "input_description (TransferInput x) = xi_description x"

fun input_timestamp :: "form_input \<Rightarrow> timestamp" where
  "input_timestamp (ExpenseInput x) = ei_timestamp x"
| "input_timestamp (IncomeInput x) = ii_timestamp x"
| "input_timestamp (TransferInput x) = xi_timestamp x"

lemmas input_defs = expenseInput_def incomeInput_def transferInput_def repaymentInput_def
  amountToNanos_def trim_expense_def trim_income_def trim_form_def buildForm_def

lemma formDateToTimestamp_epoch [simp]:
  "formDateToTimestamp dateParse (Some (date_of_epoch e)) = Inr (dateToTimestamp (date_value e))"
  by (simp add: formDateToTimestamp_def date_of_epoch_def form_time_def)

definition saved_as :: "transaction \<Rightarrow> form_input \<Rightarrow> bool" where
  "saved_as t form \<longleftrightarrow>
     input_amounts form = recorded_amounts t \<and> input_accounts form = recorded_accounts t \<and>
     tx_categoryId t = Some (input_categoryId form) \<and> tx_note t = Some (input_description form) \<and>
     input_timestamp form = dateToTimestamp (date_value (tx_timestampEpoch t))"

lemma repayment_shape:
  "findRepayment i links = Some r \<Longrightarrow> \<exists>e. rp_timestamp r = Some (date_of_epoch e)"
  by (auto simp: findRepayment_def split: option.splits)

lemma save_unchanged_lemma:
  assumes "valuesForTransaction t links tags trips = Inr f"
    and "\<forall>n \<in> set (recorded_amounts t). \<bar>n\<bar> \<le> 2 ^ 50"
  shows "\<exists>form. buildForm dateParse (trim_form f) = Inr form \<and> saved_as t form"
proof (cases t)
  case (PersonalExpense p)
  then show ?thesis using assms
    by (auto simp: valuesForTransaction_def expenseFromTransaction_def personalExpenseForm_def
      map_sum_eq_Inr bind_result_eq_Inr input_defs saved_as_def nanos_dollar_nanos)
next
  case (ThirdPartyExpense e)
  then show ?thesis using assms
    by (cases "findRepayment (tp_id e) links")
      (auto simp: valuesForTransaction_def expenseFromTransaction_def thirdPartyExpenseForm_def Let_def
        map_sum_eq_Inr bind_result_eq_Inr input_defs saved_as_def nanos_dollar_nanos dest!: repayment_shape)
next
  case (Transfer f)
  then show ?thesis using assms
    by (auto simp: valuesForTransaction_def transferFromTransaction_def
      map_sum_eq_Inr bind_result_eq_Inr input_defs saved_as_def nanos_dollar_nanos)
next
  case (Income i)
  then show ?thesis using assms
    by (auto simp: valuesForTransaction_def incomeFromTransaction_def
      map_sum_eq_Inr bind_result_eq_Inr input_defs saved_as_def nanos_dollar_nanos)
next
  case (OpeningBalance b)
  then show ?thesis using assms by (simp add: valuesForTransaction_def)
qed

section \<open>Changing who paid\<close>

lemma firstVisibleAccountId_in:
  "firstVisibleAccountId accs = Inr i \<Longrightarrow> \<exists>a \<in> set accs. i = acc_id a"
  by (auto simp: firstVisibleAccountId_def split: list.splits option.splits if_splits dest: find_eq_key_Some)

lemma firstVisibleAccountId_total: "accs \<noteq> [] \<Longrightarrow> \<exists>i. firstVisibleAccountId accs = Inr i"
  by (cases accs) (auto simp: firstVisibleAccountId_def)

lemma sharing_actions_lemma:
  assumes e: "expense_valid isValid e" and accs: "accs \<noteq> []" "\<forall>a \<in> set accs. 0 < acc_id a"
  shows "\<exists>e'. setPaidSelf accs e = Inr e' \<and> expense_valid isValid e'"
    and "isPaidOther (ef_sharingType e) \<Longrightarrow>
      \<exists>e'. setAlreadyRepaid accs e = Inr e' \<and> expense_valid isValid e' \<and> ef_sharingType e' = PAID_OTHER_REPAID"
    and "isPaidOther (ef_sharingType e) \<Longrightarrow> expense_valid isValid (setOweMoney e)"
    and "ef_sharingType e = PAID_SELF_SHARED \<Longrightarrow> expense_valid isValid (toggleSplitTransaction d e)"
proof -
  obtain i where i: "firstVisibleAccountId accs = Inr i" "0 < i"
    using firstVisibleAccountId_total [OF accs(1)] accs(2) firstVisibleAccountId_in by blast
  show "\<exists>e'. setPaidSelf accs e = Inr e' \<and> expense_valid isValid e'"
    using e i by (cases "ef_accountId e") (auto simp: setPaidSelf_def expense_valid_def isPaidOther_def)
  show "ef_sharingType e = PAID_SELF_SHARED \<Longrightarrow> expense_valid isValid (toggleSplitTransaction d e)"
    using e by (auto simp: toggleSplitTransaction_def expense_valid_def isPaidOther_def isPaidSelf_def)
  assume other: "isPaidOther (ef_sharingType e)"
  then show "expense_valid isValid (setOweMoney e)"
    using e by (auto simp: setOweMoney_def expense_valid_def isPaidOther_def isPaidSelf_def)
  show "\<exists>e'. setAlreadyRepaid accs e = Inr e' \<and> expense_valid isValid e' \<and> ef_sharingType e' = PAID_OTHER_REPAID"
    using e i other by (auto simp: setAlreadyRepaid_def setRepayment_def expense_valid_def isPaidOther_def
      isPaidSelf_def repayment_valid_def)
qed

text \<open>
  The wire format documents the account of an expense as absent when somebody else paid;
  \<open>setPaidOther\<close> keeps the account the form had.
\<close>

lemma setPaidOther_keeps_account:
  "setPaidOther draft c accs e = Inr e' \<Longrightarrow> ef_accountId e' = ef_accountId e \<and> isPaidOther (ef_sharingType e')"
  by (auto simp: setPaidOther_def Let_def bind_result_eq_Inr setRepayment_def isPaidOther_def
    split: option.splits)

section \<open>Properties\<close>

definition sample_env :: form_env where
  "sample_env = \<lparr>fe_today = 0, fe_categories = sample_categories, fe_bankAccounts = [sample_account],
     fe_links = [], fe_tags = [], fe_trips = [], fe_isValid = (\<lambda>_. True), fe_dateParse = (\<lambda>_. Some 0),
     fe_session = Some ''session''\<rparr>"

lemma sample_env_dates: "dates_parse (fe_isValid sample_env) (fe_dateParse sample_env)"
  by (auto simp: dates_parse_def sample_env_def form_time_def split: form_date.splits option.splits)

text \<open>
  C3: what the form may send. In every state the transaction form can reach, by opening it, editing
  fields, switching the type, picking a draft and submitting, a submission sends nothing, or exactly
  one request: one that the validation accepts, of the form's type, superseding the transaction
  under edit, with the origins of the selected draft, an own share between zero and the amount and
  an account whenever the user paid. The form stays in a reachable state, and a draft is selected
  only while creating a transaction.
\<close>
theorem form_sends_valid_requests:
  assumes "form_reachable env t s" "onSubmit env rpc s = (s', sent)"
    and "dates_parse (fe_isValid env) (fe_dateParse env)"
  shows "form_reachable env t s' \<and> form_ok (fs_values s') \<and> (t \<noteq> None \<longrightarrow> fs_draft s' = None) \<and>
    (sent = [] \<and> s' = s \<or>
     (\<exists>request. sent = [request] \<and> variant_valid (fe_isValid env) (fs_values s) \<and>
        wr_transactionIdToSupersede request = map_option tx_id t \<and>
        wr_origins request = parseOrigins (origins_of s) \<and>
        request_of (trim_form (fs_values s)) (wr_form request) \<and> fe_session env = Some (wr_sessionId request)))"
proof -
  have "form_reachable env t s'" using assms(1) step_submit [OF assms(2)] by (rule form_stepped)
  moreover from this have "form_state_ok t s'" by (rule form_reachable_ok)
  ultimately show ?thesis
    using onSubmit_sends [OF form_reachable_ok [OF assms(1)] assms(2,3)] by (auto simp: form_state_ok_def)
qed

theorem form_sends_valid_requests_witness:
  "\<exists>s s' request. openForm sample_env (Some (PersonalExpense sample_expense)) = Inr s \<and>
     onSubmit sample_env (\<lambda>_. True) s = (s', [request]) \<and> wr_transactionIdToSupersede request = Some 1"
proof -
  let ?t = "Some (PersonalExpense sample_expense)"
  have "\<not> isl (openForm sample_env ?t)" by code_simp
  then obtain s where s: "openForm sample_env ?t = Inr s" by (cases "openForm sample_env ?t") auto
  obtain s' sent where sub: "onSubmit sample_env (\<lambda>_. True) s = (s', sent)"
    by (cases "onSubmit sample_env (\<lambda>_. True) s") auto
  have "\<not> isl (openForm sample_env ?t) \<and>
      length (snd (onSubmit sample_env (\<lambda>_. True) (projr (openForm sample_env ?t)))) = 1"
    by code_simp
  then have "length sent = 1" using s sub by simp
  then obtain request where "sent = [request]" by (cases sent) auto
  then have "wr_transactionIdToSupersede request = Some 1"
    using form_sends_valid_requests [OF form_opened [OF s] sub sample_env_dates]
    by (auto simp: sample_expense_def)
  with s sub \<open>sent = [request]\<close> show ?thesis by blast
qed



text \<open>
  C35: the values a transaction's form starts with lose nothing. For amounts of at most \<open>2 ^ 50\<close> nanos
  the request built from the values \<open>valuesForTransaction\<close> gives for an existing transaction carries the
  same amounts and own share, accounts, category, note and time, for every kind the form can edit. (The
  effects of the form's fields run on these values once it is on screen, and rewrite some of them: see
  theory FormFields.)
\<close>
theorem save_unchanged:
  assumes "valuesForTransaction t links tags trips = Inr f"
    and "\<forall>n \<in> set (recorded_amounts t). \<bar>n\<bar> \<le> 2 ^ 50"
  shows "\<exists>form. buildForm dateParse (trim_form f) = Inr form \<and> saved_as t form"
  by (rule save_unchanged_lemma [OF assms])

theorem save_unchanged_witness:
  "\<exists>f form. valuesForTransaction (PersonalExpense sample_expense) [] [] [] = Inr f \<and>
     buildForm (\<lambda>_. None) (trim_form f) = Inr form \<and> saved_as (PersonalExpense sample_expense) form"
proof -
  have "\<not> isl (valuesForTransaction (PersonalExpense sample_expense) [] [] [])" by code_simp
  then obtain f where f: "valuesForTransaction (PersonalExpense sample_expense) [] [] [] = Inr f"
    by (cases "valuesForTransaction (PersonalExpense sample_expense) [] [] []") auto
  have "\<forall>n \<in> set (recorded_amounts (PersonalExpense sample_expense)). \<bar>n\<bar> \<le> 2 ^ 50"
    by (simp add: sample_expense_def ownShareAmountNanosIgnoreRefunds_def)
  from save_unchanged [OF f this] f show ?thesis by blast
qed

text \<open>
  Changing who paid keeps a valid expense valid. From a valid expense, with visible accounts of
  positive ids, switching to paid-by-me, marking as repaid, marking as owed and removing the split
  all yield a valid expense again, without further input.
\<close>
theorem sharing_actions_keep_valid:
  assumes "expense_valid isValid e" "accs \<noteq> []" "\<forall>a \<in> set accs. 0 < acc_id a"
  shows "(\<exists>e'. setPaidSelf accs e = Inr e' \<and> expense_valid isValid e') \<and>
    (isPaidOther (ef_sharingType e) \<longrightarrow>
      (\<exists>e'. setAlreadyRepaid accs e = Inr e' \<and> expense_valid isValid e' \<and> ef_sharingType e' = PAID_OTHER_REPAID) \<and>
      expense_valid isValid (setOweMoney e)) \<and>
    (ef_sharingType e = PAID_SELF_SHARED \<longrightarrow> expense_valid isValid (toggleSplitTransaction d e))"
  using sharing_actions_lemma [OF assms] by blast

theorem sharing_actions_keep_valid_witness:
  "\<exists>e e'. expense_valid (\<lambda>_. True) e \<and> setPaidSelf [sample_account] e = Inr e' \<and> expense_valid (\<lambda>_. True) e'"
proof -
  let ?e = "transferToExpense sample_transfer_form"
  have "expense_valid (\<lambda>_. True) ?e"
    by (simp add: expense_valid_def transferToExpense_def sample_transfer_form_def isPaidSelf_def isPaidOther_def
      trim_def is_space_def)
  from sharing_actions_keep_valid [OF this, of "[sample_account]"] this show ?thesis
    by (auto simp: sample_account_def)
qed

text \<open>
  Picking \<open>paid by somebody else\<close> on an expense of one's own account sends that account, which the
  wire format documents as absent.
\<close>

lemma paid_other_sends_account:
  "setPaidOther None c accs e = Inr e' \<Longrightarrow> ef_accountId e = Some i \<Longrightarrow> expenseInput dateParse e' = Inr x \<Longrightarrow>
     ei_sharingType x = PAID_OTHER_OWED \<and> ei_accountId x = Some i"
  by (auto simp: setPaidOther_def expenseInput_def bind_result_eq_Inr)

end
