(* ===== verification/FormFields.thy ===== *)
theory FormFields
  imports TxActions
begin

text \<open>
  The fields of the transaction form on screen and the effects that rewrite them: the components of
  components/txform/expense, income and transfer (ExpenseForm, IncomeForm, TransferForm and the fields
  they show or hide), components/txform/shared/UpdateOwnShareOnAmountChange.tsx and
  UpdateCategoryOnChange.tsx, and transfer/UpdateReceivedAmountOnAmountChange.tsx.  Each variant is a
  state machine over what the user can do to the fields that are shown; an effect runs when the
  variant's component is mounted and whenever one of its dependencies changes.
\<close>

section \<open>What the form's fields read\<close>

record field_context =
  fc_bankAccounts :: "bank_account list"
  fc_transactions :: "transaction list"
  fc_drafts :: "transaction_draft list"
  fc_today :: int
  fc_categories :: "category list"
  fc_displayCurrency :: currency
  fc_creating :: bool

text \<open>
  The ids of the backend are positive, and a suggestion of an expense that is not shared suggests no
  share.
\<close>

definition context_ok :: "field_context \<Rightarrow> bool" where
  "context_ok c \<longleftrightarrow> list_all (\<lambda>a. acc_id a > 0) (fc_bankAccounts c) \<and>
     list_all (\<lambda>d. (\<forall>i. winner_value (dr_accountFromId d) = Some i \<longrightarrow> i > 0) \<and>
        (proposedSharingType d = PAID_SELF_NOT_SHARED \<longrightarrow> winner_value (dr_ownShareAmount d) = None)) (fc_drafts c)"

section \<open>The expense form\<close>

text \<open>
  The dependencies of an effect are the values it saw when it last ran: none before the first render.
\<close>

record live_expense =
  le_form :: expense_form
  le_draft :: "transaction_draft option"
  le_showNote :: bool
  le_showTrip :: bool
  le_share :: "(bool \<times> rat option) option"
  le_vendor :: "string option"

definition e_shared :: "expense_form \<Rightarrow> bool" where
  "e_shared e = fst (useSharingType (ef_sharingType e))"

definition e_paidSelf :: "expense_form \<Rightarrow> bool" where
  "e_paidSelf e = fst (snd (useSharingType (ef_sharingType e)))"

definition e_paidOther :: "expense_form \<Rightarrow> bool" where
  "e_paidOther e = snd (snd (useSharingType (ef_sharingType e)))"

text \<open>The components of the form: the fields each puts on screen, by their paths in the form's values.\<close>

definition AccountFrom :: "expense_form \<Rightarrow> string list list" where
  "AccountFrom e = (if \<not> e_paidSelf e then [] else [[''accountId'']])"

definition expense_Payer :: "expense_form \<Rightarrow> string list list" where
  "expense_Payer e = (if \<not> e_paidOther e then [] else [[''payer'']])"

text \<open>The field, and whether it can be switched.\<close>

definition SplitTransactionToggle :: "expense_form \<Rightarrow> string list list \<times> bool" where
  "SplitTransactionToggle e = ([[''sharingType'']], \<not> e_paidOther e)"

definition MaybeEmptyCompanion :: "expense_form \<Rightarrow> string list list" where
  "MaybeEmptyCompanion e = (if \<not> e_shared e \<or> \<not> e_paidSelf e then [] else [[''companion'']])"

definition CurrencyField :: "expense_form \<Rightarrow> string list list" where
  "CurrencyField e = (if e_paidSelf e then [] else [[''currency'']])"

definition LabelText :: "expense_form \<Rightarrow> string result" where
  "LabelText e =
     (let payer = (case ef_payer e of None \<Rightarrow> ''them'' | Some p \<Rightarrow> if p = [] then ''them'' else p)
      in if ef_sharingType e = PAID_SELF_SHARED then Inr ''My share''
         else if ef_sharingType e = PAID_OTHER_OWED then Inr (''I owe '' @ payer)
         else if ef_sharingType e = PAID_OTHER_REPAID then Inr (''I paid '' @ payer)
         else Inl UnknownSharingType)"

definition OwnShareAmount :: "expense_form \<Rightarrow> string list list result" where
  "OwnShareAmount e =
     (if \<not> e_shared e then Inr [] else bind_result (LabelText e) (\<lambda>_. Inr [[''ownShareAmount'']]))"

definition RepaymentFields :: "expense_form \<Rightarrow> string list list result" where
  "RepaymentFields e =
     (if ef_sharingType e \<noteq> PAID_OTHER_REPAID then Inr []
      else case Option.bind (ef_repayment e) rp_categoryId of
             None \<Rightarrow> Inl AssertionFailed
           | Some _ \<Rightarrow> Inr [[''repayment'', ''timestamp''], [''repayment'', ''accountId''], [''repayment'', ''categoryId'']])"

definition ExtraFields :: "live_expense \<Rightarrow> string list list" where
  "ExtraFields s = (if le_showTrip s then [[''tripName'']] else []) @ (if le_showNote s then [[''description'']] else [])"

definition ExpenseForm :: "live_expense \<Rightarrow> string list list result" where
  "ExpenseForm s =
     (let e = le_form s in
      bind_result (OwnShareAmount e) (\<lambda>share.
      bind_result (RepaymentFields e) (\<lambda>repayment.
        Inr ([[''timestamp'']] @ AccountFrom e @ expense_Payer e @ fst (SplitTransactionToggle e) @
             MaybeEmptyCompanion e @ CurrencyField e @ [[''amount'']] @ share @ repayment @
             [[''vendor''], [''tagNames''], [''categoryId'']] @ ExtraFields s))))"

lemmas expense_components = AccountFrom_def expense_Payer_def SplitTransactionToggle_def MaybeEmptyCompanion_def
  CurrencyField_def

text \<open>\<open>UpdateOwnShareOnAmountChange\<close> and \<open>UpdateCategoryOnVendorChange\<close>, which is there for a new transaction.\<close>

definition own_share_effect :: "live_expense \<Rightarrow> live_expense" where
  "own_share_effect s =
     (let e = le_form s; deps = (e_shared e, ef_amount e)
      in if le_share s = Some deps then s
         else s\<lparr>le_form := e\<lparr>ef_ownShareAmount := Some (ownShareOnAmountChange (e_shared e) (ef_amount e))\<rparr>,
                le_share := Some deps\<rparr>)"

definition vendor_category_effect :: "field_context \<Rightarrow> live_expense \<Rightarrow> live_expense" where
  "vendor_category_effect c s =
     (let e = le_form s
      in if \<not> fc_creating c \<or> le_vendor s = Some (ef_vendor e) then s
         else (case mostFrequentCategory (fc_transactions c) (matchesVendor (ef_vendor e)) of
                 None \<Rightarrow> s\<lparr>le_vendor := Some (ef_vendor e)\<rparr>
               | Some categoryId \<Rightarrow>
                 s\<lparr>le_form := e\<lparr>ef_categoryId := categoryId\<rparr>, le_vendor := Some (ef_vendor e)\<rparr>))"

definition expense_effects :: "field_context \<Rightarrow> live_expense \<Rightarrow> live_expense" where
  "expense_effects c s = own_share_effect (vendor_category_effect c s)"

definition mount_expense :: "field_context \<Rightarrow> transaction_draft option \<Rightarrow> expense_form \<Rightarrow> live_expense" where
  "mount_expense c d e =
     expense_effects c \<lparr>le_form = e, le_draft = d, le_showNote = truthy_string (ef_description e),
       le_showTrip = truthy_string (ef_tripName e), le_share = None, le_vendor = None\<rparr>"

text \<open>What the user can do, and when: a field is edited where it is shown, a button pressed where it is.\<close>

datatype expense_event =
    ETimestamp form_date | EAccount int | EPayer string | ESplit | ECompanion string | ECurrency string
  | EAmount "rat option" | EOwnShare "rat option" | EVendor string | ETags "string list" | ECategory int
  | EPaidOther | EPaidSelf | EAlreadyRepaid | EOweMoney
  | ERepaymentTimestamp form_date | ERepaymentAccount int | ERepaymentCategory int
  | EDescription string | ETrip string | EToggleNote | EToggleTrip

text \<open>The button under the own share, if any.\<close>

definition RepaymentToggle :: "expense_form \<Rightarrow> expense_event option" where
  "RepaymentToggle e =
     (if ef_sharingType e = PAID_OTHER_OWED then Some EAlreadyRepaid
      else if ef_sharingType e = PAID_OTHER_REPAID then Some EOweMoney
      else None)"

lemma RepaymentToggle_simps [simp]:
  "RepaymentToggle e = Some EAlreadyRepaid \<longleftrightarrow> ef_sharingType e = PAID_OTHER_OWED"
  "RepaymentToggle e = Some EOweMoney \<longleftrightarrow> ef_sharingType e = PAID_OTHER_REPAID"
  by (simp_all add: RepaymentToggle_def)

lemma split_enabled [simp]: "snd (SplitTransactionToggle e) \<longleftrightarrow> \<not> e_paidOther e"
  by (simp add: SplitTransactionToggle_def)

text \<open>The two links of \<open>ExtraFields\<close>: hiding a field clears it.\<close>

definition toggle_note :: "live_expense \<Rightarrow> live_expense" where
  "toggle_note s =
     (let shouldShowNote = \<not> le_showNote s
      in if \<not> shouldShowNote
         then s\<lparr>le_showNote := shouldShowNote, le_form := (le_form s)\<lparr>ef_description := None\<rparr>\<rparr>
         else s\<lparr>le_showNote := shouldShowNote\<rparr>)"

definition toggle_trip :: "live_expense \<Rightarrow> live_expense" where
  "toggle_trip s =
     (let shouldShowTrip = \<not> le_showTrip s
      in if \<not> shouldShowTrip
         then s\<lparr>le_showTrip := shouldShowTrip, le_form := (le_form s)\<lparr>ef_tripName := None\<rparr>\<rparr>
         else s\<lparr>le_showTrip := shouldShowTrip\<rparr>)"

fun expense_offers :: "field_context \<Rightarrow> live_expense \<Rightarrow> expense_event \<Rightarrow> bool" where
  "expense_offers c s (EAccount i) \<longleftrightarrow> e_paidSelf (le_form s) \<and> i \<in> set (map acc_id (fc_bankAccounts c))"
| "expense_offers c s (EPayer p) \<longleftrightarrow> e_paidOther (le_form s)"
| "expense_offers c s ESplit \<longleftrightarrow> snd (SplitTransactionToggle (le_form s))"
| "expense_offers c s (ECompanion p) \<longleftrightarrow> e_shared (le_form s) \<and> e_paidSelf (le_form s)"
| "expense_offers c s (ECurrency code) \<longleftrightarrow> \<not> e_paidSelf (le_form s) \<and> code \<in> set (map cur_code allCurrencies)"
| "expense_offers c s (EOwnShare a) \<longleftrightarrow> e_shared (le_form s)"
| "expense_offers c s EPaidOther \<longleftrightarrow> e_paidSelf (le_form s)"
| "expense_offers c s EPaidSelf \<longleftrightarrow> e_paidOther (le_form s)"
| "expense_offers c s EAlreadyRepaid \<longleftrightarrow> RepaymentToggle (le_form s) = Some EAlreadyRepaid"
| "expense_offers c s EOweMoney \<longleftrightarrow> RepaymentToggle (le_form s) = Some EOweMoney"
| "expense_offers c s (ERepaymentTimestamp t) \<longleftrightarrow> ef_sharingType (le_form s) = PAID_OTHER_REPAID"
| "expense_offers c s (ERepaymentAccount i) \<longleftrightarrow> ef_sharingType (le_form s) = PAID_OTHER_REPAID"
| "expense_offers c s (ERepaymentCategory i) \<longleftrightarrow> ef_sharingType (le_form s) = PAID_OTHER_REPAID"
| "expense_offers c s (EDescription d) \<longleftrightarrow> le_showNote s"
| "expense_offers c s (ETrip t) \<longleftrightarrow> le_showTrip s"
| "expense_offers c s _ \<longleftrightarrow> True"

fun expense_event_step :: "field_context \<Rightarrow> expense_event \<Rightarrow> live_expense \<Rightarrow> live_expense result" where
  "expense_event_step c (ETimestamp t) s = Inr (s\<lparr>le_form := (le_form s)\<lparr>ef_timestamp := t\<rparr>\<rparr>)"
| "expense_event_step c (EAccount i) s = Inr (s\<lparr>le_form := (le_form s)\<lparr>ef_accountId := Some i\<rparr>\<rparr>)"
| "expense_event_step c (EPayer p) s = Inr (s\<lparr>le_form := (le_form s)\<lparr>ef_payer := Some p\<rparr>\<rparr>)"
| "expense_event_step c ESplit s = Inr (s\<lparr>le_form := toggleSplitTransaction (le_draft s) (le_form s)\<rparr>)"
| "expense_event_step c (ECompanion p) s = Inr (s\<lparr>le_form := (le_form s)\<lparr>ef_companion := Some p\<rparr>\<rparr>)"
| "expense_event_step c (ECurrency code) s = Inr (s\<lparr>le_form := (le_form s)\<lparr>ef_currency := Some code\<rparr>\<rparr>)"
| "expense_event_step c (EAmount a) s = Inr (s\<lparr>le_form := (le_form s)\<lparr>ef_amount := a\<rparr>\<rparr>)"
| "expense_event_step c (EOwnShare a) s = Inr (s\<lparr>le_form := (le_form s)\<lparr>ef_ownShareAmount := a\<rparr>\<rparr>)"
| "expense_event_step c (EVendor v) s = Inr (s\<lparr>le_form := (le_form s)\<lparr>ef_vendor := v\<rparr>\<rparr>)"
| "expense_event_step c (ETags ts) s = Inr (s\<lparr>le_form := (le_form s)\<lparr>ef_tagNames := ts\<rparr>\<rparr>)"
| "expense_event_step c (ECategory i) s = Inr (s\<lparr>le_form := (le_form s)\<lparr>ef_categoryId := i\<rparr>\<rparr>)"
| "expense_event_step c EPaidOther s =
     bind_result (setPaidOther (le_draft s) (fc_displayCurrency c) (fc_bankAccounts c) (le_form s)) (\<lambda>e.
       Inr (s\<lparr>le_form := e\<rparr>))"
| "expense_event_step c EPaidSelf s =
     bind_result (setPaidSelf (fc_bankAccounts c) (le_form s)) (\<lambda>e. Inr (s\<lparr>le_form := e\<rparr>))"
| "expense_event_step c EAlreadyRepaid s =
     bind_result (setAlreadyRepaid (fc_bankAccounts c) (le_form s)) (\<lambda>e. Inr (s\<lparr>le_form := e\<rparr>))"
| "expense_event_step c EOweMoney s = Inr (s\<lparr>le_form := setOweMoney (le_form s)\<rparr>)"
| "expense_event_step c (ERepaymentTimestamp t) s =
     Inr (s\<lparr>le_form := setRepayment (\<lambda>r. r\<lparr>rp_timestamp := Some t\<rparr>) (le_form s)\<rparr>)"
| "expense_event_step c (ERepaymentAccount i) s =
     Inr (s\<lparr>le_form := setRepayment (\<lambda>r. r\<lparr>rp_accountId := Some i\<rparr>) (le_form s)\<rparr>)"
| "expense_event_step c (ERepaymentCategory i) s =
     Inr (s\<lparr>le_form := setRepayment (\<lambda>r. r\<lparr>rp_categoryId := Some i\<rparr>) (le_form s)\<rparr>)"
| "expense_event_step c (EDescription d) s = Inr (s\<lparr>le_form := (le_form s)\<lparr>ef_description := Some d\<rparr>\<rparr>)"
| "expense_event_step c (ETrip t) s = Inr (s\<lparr>le_form := (le_form s)\<lparr>ef_tripName := Some t\<rparr>\<rparr>)"
| "expense_event_step c EToggleNote s = Inr (toggle_note s)"
| "expense_event_step c EToggleTrip s = Inr (toggle_trip s)"

text \<open>Choosing a suggestion resets the form's values; the component stays mounted.\<close>

inductive expense_live :: "field_context \<Rightarrow> transaction_draft option \<Rightarrow> expense_form \<Rightarrow> live_expense \<Rightarrow> bool" for c d e where
  expense_mounted: "expense_live c d e (mount_expense c d e)"
| expense_event: "expense_live c d e s \<Longrightarrow> expense_offers c s ev \<Longrightarrow> expense_event_step c ev s = Inr s' \<Longrightarrow>
    expense_live c d e (expense_effects c s')"
| expense_suggestion: "expense_live c d e s \<Longrightarrow> fc_creating c \<Longrightarrow> suggestion \<in> set (fc_drafts c) \<Longrightarrow>
    expenseFromDraft (fc_today c) suggestion (fc_categories c) (fc_bankAccounts c) = Inr e' \<Longrightarrow>
    expense_live c d e (expense_effects c (s\<lparr>le_form := e', le_draft := Some suggestion\<rparr>))"

section \<open>No error is out of sight\<close>

text \<open>What the values of an expense have in common from the start.\<close>

definition expense_start_ok :: "expense_form \<Rightarrow> bool" where
  "expense_start_ok e \<longleftrightarrow>
     (e_paidSelf e \<or> isPaidOther (ef_sharingType e)) \<and>
     (ef_sharingType e = PAID_OTHER_REPAID \<longleftrightarrow> ef_repayment e \<noteq> None) \<and>
     (\<forall>r. ef_repayment e = Some r \<longrightarrow> rp_categoryId r \<noteq> None) \<and>
     (\<forall>i. ef_accountId e = Some i \<longrightarrow> i > 0)"

definition share_synced :: "live_expense \<Rightarrow> bool" where
  "share_synced s \<longleftrightarrow> le_share s = Some (e_shared (le_form s), ef_amount (le_form s)) \<and>
     (\<not> e_shared (le_form s) \<longrightarrow>
        ef_ownShareAmount (le_form s) = Some (ownShareOnAmountChange False (ef_amount (le_form s))))"

text \<open>The share agrees with its dependencies as far as the effect has run.\<close>

definition share_pending :: "live_expense \<Rightarrow> bool" where
  "share_pending s \<longleftrightarrow> (le_share s = Some (e_shared (le_form s), ef_amount (le_form s)) \<longrightarrow> share_synced s)"

lemma sharing_simps [simp]:
  "useSharingType PAID_SELF_SHARED = (True, True, False)"
  "useSharingType PAID_SELF_NOT_SHARED = (False, True, False)"
  "useSharingType PAID_OTHER_OWED = (True, False, True)"
  "useSharingType PAID_OTHER_REPAID = (True, False, True)"
  "useSharingType ST_UNSPECIFIED = (False, False, True)"
  by (simp_all add: useSharingType_def)

lemma toggles [simp]:
  "toggle_note s = (if le_showNote s then s\<lparr>le_showNote := False, le_form := (le_form s)\<lparr>ef_description := None\<rparr>\<rparr>
     else s\<lparr>le_showNote := True\<rparr>)"
  "toggle_trip s = (if le_showTrip s then s\<lparr>le_showTrip := False, le_form := (le_form s)\<lparr>ef_tripName := None\<rparr>\<rparr>
     else s\<lparr>le_showTrip := True\<rparr>)"
  by (simp_all add: toggle_note_def toggle_trip_def Let_def)

lemma OwnShareAmount_shown [simp]: "OwnShareAmount e = Inr (if e_shared e then [[''ownShareAmount'']] else [])"
  by (cases "ef_sharingType e") (simp_all add: OwnShareAmount_def LabelText_def e_shared_def Let_def)

lemma effect_start_ok: "expense_start_ok (le_form (expense_effects c s)) \<longleftrightarrow> expense_start_ok (le_form s)"
  by (auto simp: expense_effects_def own_share_effect_def vendor_category_effect_def Let_def expense_start_ok_def
      e_paidSelf_def split: option.splits)

lemma category_effect_pending: "share_pending (vendor_category_effect c s) \<longleftrightarrow> share_pending s"
  by (auto simp: vendor_category_effect_def share_pending_def share_synced_def e_shared_def Let_def split: option.splits)

lemma effect_syncs: "share_pending s \<Longrightarrow> share_synced (expense_effects c s)"
  unfolding expense_effects_def
  using category_effect_pending [of c s]
  by (auto simp: own_share_effect_def share_pending_def share_synced_def e_shared_def Let_def)

lemma firstVisibleAccountId_member:
  "firstVisibleAccountId accounts = Inr i \<Longrightarrow> i \<in> set (map acc_id accounts)"
proof (cases accounts)
  case (Cons a0 as)
  assume "firstVisibleAccountId accounts = Inr i"
  then have "i = acc_id (case find (\<lambda>a. \<not> acc_archived a) accounts of Some a \<Rightarrow> a | None \<Rightarrow> a0)"
    by (simp add: firstVisibleAccountId_def Cons)
  moreover have "a \<in> set accounts" if "find (\<lambda>a. \<not> acc_archived a) accounts = Some a" for a
    using that by (auto simp: find_Some_iff)
  ultimately show ?thesis by (cases "find (\<lambda>a. \<not> acc_archived a) accounts") (auto simp: Cons)
qed (simp add: firstVisibleAccountId_def)

lemma context_account: "context_ok c \<Longrightarrow> i \<in> set (map acc_id (fc_bankAccounts c)) \<Longrightarrow> i > 0"
  by (auto simp: context_ok_def list_all_iff)

lemma setPaidOther_facts:
  assumes "setPaidOther d cur accounts e = Inr e'"
  shows "isPaidOther (ef_sharingType e')" "ef_accountId e' = ef_accountId e"
    "ef_repayment e = None \<Longrightarrow> ef_sharingType e' = PAID_OTHER_REPAID \<longleftrightarrow> ef_repayment e' \<noteq> None"
    "\<forall>r. ef_repayment e = None \<and> ef_repayment e' = Some r \<longrightarrow> rp_categoryId r \<noteq> None"
  using assms
  by (auto simp: setPaidOther_def Let_def setRepayment_def isPaidOther_def result_simps split: option.splits)

lemma paid_kinds: "e_paidSelf e \<longleftrightarrow> isPaidSelf (ef_sharingType e)" "e_paidOther e \<longleftrightarrow> \<not> isPaidSelf (ef_sharingType e)"
  by (cases "ef_sharingType e"; simp add: e_paidSelf_def e_paidOther_def isPaidSelf_def)+

lemma event_start_ok:
  assumes "expense_start_ok (le_form s)" "context_ok c" "expense_offers c s ev" "expense_event_step c ev s = Inr s'"
  shows "expense_start_ok (le_form s')"
proof (cases ev)
  case (EAccount i)
  then show ?thesis using assms context_account [OF assms(2), of i] by (auto simp: expense_start_ok_def paid_kinds)
next
  case ESplit
  then show ?thesis
    using assms by (auto simp: expense_start_ok_def paid_kinds toggleSplitTransaction_def isPaidSelf_def isPaidOther_def
        split: sharing_type.splits)
next
  case EPaidOther
  then obtain e where e: "setPaidOther (le_draft s) (fc_displayCurrency c) (fc_bankAccounts c) (le_form s) = Inr e"
    "le_form s' = e"
    using assms(4) by (auto simp: result_simps)
  have "ef_repayment (le_form s) = None"
    using assms(1,3) EPaidOther by (auto simp: expense_start_ok_def paid_kinds isPaidSelf_def)
  then show ?thesis using setPaidOther_facts [OF e(1)] assms(1) e(2) by (auto simp: expense_start_ok_def)
next
  case EPaidSelf
  then show ?thesis
    using assms context_account [OF assms(2)] firstVisibleAccountId_member [of "fc_bankAccounts c"]
    by (auto simp: expense_start_ok_def paid_kinds setPaidSelf_def result_simps isPaidSelf_def split: option.splits)
next
  case EAlreadyRepaid
  then show ?thesis
    using assms by (auto simp: expense_start_ok_def setAlreadyRepaid_def setRepayment_def result_simps isPaidOther_def)
qed (use assms in \<open>auto simp: expense_start_ok_def paid_kinds setOweMoney_def setRepayment_def isPaidOther_def
      isPaidSelf_def repayment_or_empty_def split: if_splits option.splits\<close>)

lemma event_pending:
  assumes "share_synced s" "expense_start_ok (le_form s)" "expense_offers c s ev" "expense_event_step c ev s = Inr s'"
  shows "share_pending s'"
proof (cases ev)
  case EPaidOther
  then show ?thesis
    using assms by (auto simp: setPaidOther_def Let_def setRepayment_def share_pending_def share_synced_def e_shared_def
        result_simps split: option.splits)
next
  case EPaidSelf
  then have "e_shared (le_form s)" "\<not> e_shared (le_form s')"
    using assms by (auto simp: expense_start_ok_def paid_kinds setPaidSelf_def result_simps isPaidOther_def isPaidSelf_def
        e_shared_def split: option.splits)
  then show ?thesis
    using assms EPaidSelf by (auto simp: share_pending_def share_synced_def setPaidSelf_def result_simps split: option.splits)
next
  case EAlreadyRepaid
  then show ?thesis
    using assms by (auto simp: share_pending_def share_synced_def setAlreadyRepaid_def setRepayment_def e_shared_def result_simps)
next
  case ESplit
  then show ?thesis
    using assms by (auto simp: share_pending_def share_synced_def toggleSplitTransaction_def e_shared_def
        split: sharing_type.splits)
qed (use assms in \<open>auto simp: share_pending_def share_synced_def setOweMoney_def setRepayment_def e_shared_def
      split: if_splits\<close>)

lemma suggestion_ok:
  assumes "context_ok c" "d \<in> set (fc_drafts c)"
    and "expenseFromDraft (fc_today c) d (fc_categories c) (fc_bankAccounts c) = Inr e"
  shows "expense_start_ok e"
    and "\<not> e_shared e \<longrightarrow> ef_ownShareAmount e = Some (ownShareOnAmountChange False (ef_amount e))"
proof -
  have d: "\<forall>i. winner_value (dr_accountFromId d) = Some i \<longrightarrow> i > 0"
    "proposedSharingType d = PAID_SELF_NOT_SHARED \<longrightarrow> winner_value (dr_ownShareAmount d) = None"
    using assms(1,2) by (auto simp: context_ok_def list_all_iff)
  have kinds: "proposedSharingType d \<noteq> ST_UNSPECIFIED"
    by (auto simp: proposedSharingType_def split: option.splits sharing_type.splits)
  obtain i where i: "firstVisibleAccountId (fc_bankAccounts c) = Inr i"
    and e: "ef_sharingType e = proposedSharingType d"
    "ef_accountId e = (if isPaidOther (proposedSharingType d) then None else Some (winner_or (dr_accountFromId d) i))"
    "ef_repayment e \<noteq> None \<longleftrightarrow> proposedSharingType d = PAID_OTHER_REPAID"
    "\<forall>r. ef_repayment e = Some r \<longrightarrow> rp_categoryId r \<noteq> None"
    "ef_amount e = Some (draftAmountDollar d)"
    "ef_ownShareAmount e = Some (winnerMoneyDollar (dr_ownShareAmount d) (draftAmountDollar d))"
    using assms(3) by (auto simp: expenseFromDraft_def Let_def result_simps split: list.splits if_splits)
  have "i > 0" using context_account [OF assms(1) firstVisibleAccountId_member [OF i]] .
  then have "winner_or (dr_accountFromId d) i > 0" using d(1) by (auto simp: winner_or_def split: option.splits)
  then show "expense_start_ok e"
    using e kinds by (auto simp: expense_start_ok_def paid_kinds isPaidSelf_def isPaidOther_def split: if_splits)
      (cases "proposedSharingType d"; simp)+
  show "\<not> e_shared e \<longrightarrow> ef_ownShareAmount e = Some (ownShareOnAmountChange False (ef_amount e))"
    using e(1,5,6) kinds d(2)
    by (cases "proposedSharingType d") (auto simp: e_shared_def ownShareOnAmountChange_def winnerMoneyDollar_def)
qed

lemma expense_live_ok:
  assumes "expense_live c d e s" "context_ok c" "expense_start_ok e"
  shows "expense_start_ok (le_form s) \<and> share_synced s"
  using assms(1)
proof (induction rule: expense_live.induct)
  case expense_mounted
  show ?case
    unfolding mount_expense_def effect_start_ok
    using assms(3) effect_syncs by (auto simp: share_pending_def)
next
  case (expense_event s ev s')
  then show ?case
    using event_start_ok [OF _ assms(2)] event_pending effect_syncs by (auto simp: effect_start_ok)
next
  case (expense_suggestion s suggestion e')
  note ok = suggestion_ok [OF assms(2) expense_suggestion.hyps(3,4)]
  have "share_pending (s\<lparr>le_form := e', le_draft := Some suggestion\<rparr>)"
    using ok(2) by (auto simp: share_pending_def share_synced_def)
  then show ?case using effect_syncs ok(1) by (simp add: effect_start_ok)
qed

text \<open>Where the issues of an expense can be.\<close>

lemma at_path_mem: "p \<in> set (at_path field issues) \<longleftrightarrow> (\<exists>q b. (q, b) \<in> set issues \<and> p = (field # q, b))"
  by (auto simp: at_path_def)

lemma refined_mem: "p \<in> set (refined base rules) \<Longrightarrow> p \<in> set base \<or> (\<exists>q. (q, True) \<in> set rules \<and> p = (q, False))"
  by (auto simp: refined_def split: if_splits)

lemma refined_base: "p \<in> set base \<Longrightarrow> p \<in> set (refined base rules)"
  by (simp add: refined_def)

lemma field_paths:
  "p \<in> set (date_field t) \<Longrightarrow> fst p = []" "p \<in> set (amount_field ok a) \<Longrightarrow> fst p = []"
  "p \<in> set (positive_id i) \<Longrightarrow> fst p = []" "p \<in> set (required_id j) \<Longrightarrow> fst p = []"
  "p \<in> set (nullable_id j) \<Longrightarrow> fst p = []" "p \<in> set (required_text x) \<Longrightarrow> fst p = []"
  by (auto simp: date_field_def amount_field_def positive_id_def required_id_def nullable_id_def required_text_def
      split: option.splits form_date.splits if_splits)

lemma at_path_none: "at_path field [] = []"
  by (simp add: at_path_def)

lemma at_path_field: "p \<in> set (at_path field issues) \<Longrightarrow> (\<And>q. q \<in> set issues \<Longrightarrow> fst q = []) \<Longrightarrow> fst p = [field]"
  by (force simp: at_path_def)

lemma repayment_paths:
  "p \<in> set (repaymentTransactionValidationSchema isValid r) \<Longrightarrow>
   fst p \<in> {[''timestamp''], [''categoryId''], [''accountId'']}"
  unfolding repaymentTransactionValidationSchema_def
  by (drule refined_mem) (auto dest: at_path_field field_paths)

lemma ExpenseForm_shown:
  assumes "ExpenseForm s = Inr shown"
  shows "{[''timestamp''], [''sharingType''], [''amount''], [''vendor''], [''tagNames''], [''categoryId'']} \<subseteq> set shown"
    and "e_paidSelf (le_form s) \<Longrightarrow> [''accountId''] \<in> set shown"
    and "e_paidOther (le_form s) \<Longrightarrow> [''payer''] \<in> set shown \<and> [''currency''] \<in> set shown"
    and "e_shared (le_form s) \<Longrightarrow> [''ownShareAmount''] \<in> set shown"
    and "e_shared (le_form s) \<Longrightarrow> e_paidSelf (le_form s) \<Longrightarrow> [''companion''] \<in> set shown"
    and "ef_sharingType (le_form s) = PAID_OTHER_REPAID \<Longrightarrow>
      {[''repayment'', ''timestamp''], [''repayment'', ''accountId''], [''repayment'', ''categoryId'']} \<subseteq> set shown"
  using assms by (auto simp: ExpenseForm_def expense_components Let_def RepaymentFields_def result_simps paid_kinds split: if_splits option.splits)

lemma expense_issue_on_screen:
  assumes ok: "expense_start_ok (le_form s)" "share_synced s" and shown: "ExpenseForm s = Inr shown"
    and issue: "p \<in> set (expenseFormValidationSchema isValid (le_form s))"
  shows "\<exists>p \<in> set (expenseFormValidationSchema isValid (le_form s)). fst p \<in> set shown"
proof -
  let ?e = "le_form s"
  note visible = ExpenseForm_shown [OF shown]
  have own: "ef_ownShareAmount ?e = Some (case ef_amount ?e of None \<Rightarrow> 0 | Some a \<Rightarrow> a)" if "\<not> e_shared ?e"
    using ok(2) that by (auto simp: share_synced_def ownShareOnAmountChange_def)
  have amount_visible: "\<exists>p \<in> set (expenseFormValidationSchema isValid ?e). fst p \<in> set shown"
    if "q \<in> set (amount_field (\<lambda>a. a \<ge> 0) (ef_amount ?e))" for q
  proof -
    have "(''amount'' # fst q, snd q) \<in> set (expenseFormValidationSchema isValid ?e)"
      unfolding expenseFormValidationSchema_def
      by (rule refined_base) (use that in \<open>auto simp: at_path_mem\<close>)
    moreover have "fst q = []" using field_paths(2) that by blast
    ultimately show ?thesis using visible(1) by force
  qed
  have self: "isPaidSelf (ef_sharingType ?e) \<Longrightarrow> e_paidSelf ?e" "isPaidOther (ef_sharingType ?e) \<Longrightarrow> e_paidOther ?e"
    "ef_sharingType ?e = PAID_SELF_SHARED \<Longrightarrow> e_shared ?e \<and> e_paidSelf ?e"
    by (auto simp: paid_kinds isPaidSelf_def isPaidOther_def e_shared_def)
  from issue consider (time) "fst p = [''timestamp'']" | (amount) "p \<in> set (at_path ''amount'' (amount_field (\<lambda>a. a \<ge> 0) (ef_amount ?e)))"
    | (share) "p \<in> set (at_path ''ownShareAmount'' (amount_field (\<lambda>a. a \<ge> 0) (ef_ownShareAmount ?e)))"
    | (account) "p \<in> set (at_path ''accountId'' (nullable_id (ef_accountId ?e)))"
    | (other) "fst p \<in> {[''categoryId''], [''vendor'']}"
    | (repayment) r where "ef_repayment ?e = Some r" "p \<in> set (at_path ''repayment'' (repaymentTransactionValidationSchema isValid r))"
    | (exceeds) "fst p = [''ownShareAmount'']" "exceeds (ef_ownShareAmount ?e) (ef_amount ?e)"
    | (missing) "isPaidSelf (ef_sharingType ?e)" "fst p = [''accountId'']"
    | (companion) "ef_sharingType ?e = PAID_SELF_SHARED" "fst p = [''companion'']"
    | (payer) "isPaidOther (ef_sharingType ?e)" "fst p \<in> {[''payer''], [''currency'']}"
    | (unset) "ef_sharingType ?e = PAID_OTHER_REPAID" "ef_repayment ?e = None"
    unfolding expenseFormValidationSchema_def
    by (elim refined_mem [THEN disjE]) (auto simp: at_path_none dest: at_path_field field_paths split: option.splits)
  then show ?thesis
  proof cases
    case share
    show ?thesis
    proof (cases "e_shared ?e")
      case True
      moreover have "fst p = [''ownShareAmount'']" using share by (rule at_path_field) (rule field_paths(2))
      ultimately show ?thesis using visible(4) issue by (intro bexI [of _ p]) simp_all
    next
      case False
      obtain q where "q \<in> set (amount_field (\<lambda>a. a \<ge> 0) (ef_ownShareAmount ?e))" using share by (auto simp: at_path_mem)
      then have "q \<in> set (amount_field (\<lambda>a. a \<ge> 0) (ef_amount ?e))"
        using own [OF False] by (auto simp: amount_field_def split: option.splits if_splits)
      then show ?thesis by (rule amount_visible)
    qed
  next
    case account
    then show ?thesis
      using ok(1) by (auto simp: expense_start_ok_def at_path_mem nullable_id_def positive_id_def split: option.splits if_splits)
  next
    case (repayment r)
    then have "ef_sharingType ?e = PAID_OTHER_REPAID" using ok(1) by (auto simp: expense_start_ok_def)
    note on_screen = visible(6) [OF this]
    obtain q b where q: "(q, b) \<in> set (repaymentTransactionValidationSchema isValid r)" "p = (''repayment'' # q, b)"
      using repayment(2) by (auto simp: at_path_mem)
    have "fst p \<in> set shown" using repayment_paths [OF q(1)] on_screen unfolding q(2) by auto
    then show ?thesis using issue by (intro bexI [of _ p]) simp_all
  next
    case exceeds
    have "e_shared ?e"
    proof (rule ccontr)
      assume "\<not> e_shared ?e"
      then show False using exceeds(2) own by (auto simp: exceeds_def split: option.splits)
    qed
    then show ?thesis using exceeds(1) visible(4) issue by (intro bexI [of _ p]) simp_all
  next
    case amount
    then show ?thesis using amount_visible by (auto simp: at_path_mem)
  next
    case unset
    then show ?thesis using ok(1) by (simp add: expense_start_ok_def)
  next
    case time
    then show ?thesis using visible(1) by (intro bexI [OF _ issue]) simp
  next
    case other
    then show ?thesis using visible(1) by (intro bexI [OF _ issue]) auto
  next
    case missing
    then show ?thesis using visible(2) self(1) by (intro bexI [OF _ issue]) simp
  next
    case companion
    then show ?thesis using visible(5) self(3) by (intro bexI [OF _ issue]) simp
  next
    case payer
    then show ?thesis using visible(3) self(2) by (intro bexI [OF _ issue]) auto
  qed
qed

lemma ExpenseForm_renders: "expense_start_ok (le_form s) \<Longrightarrow> \<exists>shown. ExpenseForm s = Inr shown"
  by (auto simp: ExpenseForm_def RepaymentFields_def expense_start_ok_def Let_def split: option.splits)

text \<open>Where an expense form's values come from.\<close>

lemma opened_expense_ok:
  assumes "openForm env t = Inr st" "fs_values st = expense_values e"
    and "list_all (\<lambda>a. acc_id a > 0) (fe_bankAccounts env)" "\<forall>p. t = Some (PersonalExpense p) \<longrightarrow> pe_accountId p > 0"
  shows "expense_start_ok e"
proof -
  have visible: "firstVisibleAccountId (fe_bankAccounts env) = Inr i \<Longrightarrow> i > 0" for i
    using firstVisibleAccountId_member [of "fe_bankAccounts env" i] assms(3) by (auto simp: list_all_iff)
  have defaults: "useFormDefaults (fe_today env) t (fe_categories env) (fe_bankAccounts env) (fe_links env) (fe_tags env)
      (fe_trips env) = Inr (expense_values e)"
    using assms(1,2) by (auto simp: openForm_def result_simps split: option.splits transaction.splits)
  then consider "expenseFormEmpty (fe_today env) (fe_categories env) (fe_bankAccounts env) = Inr e"
    | p where "t = Some (PersonalExpense p)" "personalExpenseForm p (fe_tags env) (fe_trips env) = Inr e"
    | p where "thirdPartyExpenseForm p (fe_tags env) (fe_trips env) (fe_links env) = Inr e"
    by (auto simp: useFormDefaults_def valuesForTransaction_def expenseFromTransaction_def map_sum_eq_Inr form_values_defs
        split: option.splits transaction.splits)
  then show ?thesis
  proof cases
    case 1
    then show ?thesis
      using visible by (auto simp: expenseFormEmpty_def expense_start_ok_def paid_kinds isPaidSelf_def result_simps
          split: list.splits)
  next
    case 2
    then show ?thesis
      using assms(4) by (auto simp: personalExpenseForm_def expense_start_ok_def paid_kinds isPaidSelf_def result_simps
          split: if_splits)
  next
    case 3
    then show ?thesis
      by (auto simp: thirdPartyExpenseForm_def findRepayment_def expense_start_ok_def isPaidOther_def Let_def result_simps
          split: option.splits)
  qed
qed

lemma converted_expense_ok:
  "if_accountId i > 0 \<Longrightarrow> expense_start_ok (incomeToExpense i)"
  "xf_fromAccountId x > 0 \<Longrightarrow> expense_start_ok (transferToExpense x)"
  by (auto simp: incomeToExpense_def transferToExpense_def expense_start_ok_def paid_kinds isPaidSelf_def split: if_splits)


definition sample_field_context :: field_context where
  "sample_field_context = \<lparr>fc_bankAccounts = fe_bankAccounts sample_env, fc_transactions = [], fc_drafts = [],
     fc_today = 0, fc_categories = [], fc_displayCurrency = \<lparr>cur_code = ''USD''\<rparr>, fc_creating = True\<rparr>"

definition sample_new_expense :: expense_form where
  "sample_new_expense = the (tf_expense (fs_values (projr (openForm sample_env None))))"

definition sample_split_expense :: live_expense where
  "sample_split_expense =
     expense_effects sample_field_context
       (projr (expense_event_step sample_field_context ESplit (mount_expense sample_field_context None sample_new_expense)))"

lemma sample_new_expense_opened:
  "map_sum id fs_values (openForm sample_env None) = Inr (expense_values sample_new_expense)"
  by code_simp

lemma sample_split_expense_live: "expense_live sample_field_context None sample_new_expense sample_split_expense"
  unfolding sample_split_expense_def
proof (rule expense_event [OF expense_mounted])
  show "expense_offers sample_field_context (mount_expense sample_field_context None sample_new_expense) ESplit"
    by code_simp
  show "expense_event_step sample_field_context ESplit (mount_expense sample_field_context None sample_new_expense) =
      Inr (projr (expense_event_step sample_field_context ESplit
        (mount_expense sample_field_context None sample_new_expense)))"
    by simp
qed


text \<open>
  Opening the form on an existing expense runs the effect of the share as well: the recorded share of a
  shared expense is replaced by half of its amount before the user has touched anything.
\<close>

lemma opening_halves_own_share:
  "e_shared e \<Longrightarrow> ef_amount e = Some a \<Longrightarrow>
   ef_ownShareAmount (le_form (mount_expense c d e)) = Some (roundToCent (n_div a 2))"
  by (auto simp: mount_expense_def expense_effects_def own_share_effect_def vendor_category_effect_def Let_def
      e_shared_def ownShareOnAmountChange_def split: option.splits)

definition sample_uneven_expense :: personal_expense where
  "sample_uneven_expense = sample_expense\<lparr>pe_amountNanos := 100000000000,
     pe_companions := [\<lparr>comp_name = ''Ann'', comp_amountNanos = 70000000000\<rparr>]\<rparr>"

lemma editing_resets_own_share:
  "map_sum id (\<lambda>e. (ef_ownShareAmount e, ef_ownShareAmount (le_form (mount_expense sample_field_context None e))))
     (personalExpenseForm sample_uneven_expense [] []) = Inr (Some 30, Some 50)"
  by code_simp

section \<open>The income form\<close>

record live_income =
  li_form :: income_form
  li_showNote :: bool
  li_showParent :: bool
  li_share :: "(bool \<times> rat option) option"
  li_payer :: "string option"

definition income_MaybeEmptyCompanion :: "income_form \<Rightarrow> string list list" where
  "income_MaybeEmptyCompanion i = (if \<not> if_isShared i then [] else [[''companion'']])"

definition income_OwnShareAmount :: "income_form \<Rightarrow> string list list" where
  "income_OwnShareAmount i = (if \<not> if_isShared i then [] else [[''ownShareAmount'']])"

definition income_ExtraFields :: "live_income \<Rightarrow> string list list" where
  "income_ExtraFields s =
     (if li_showNote s then [[''description'']] else []) @ (if li_showParent s then [[''parentTransactionId'']] else [])"

definition IncomeForm :: "live_income \<Rightarrow> string list list" where
  "IncomeForm s =
     [[''timestamp''], [''accountId''], [''isShared'']] @ income_MaybeEmptyCompanion (li_form s) @
     [[''amount'']] @ income_OwnShareAmount (li_form s) @
     [[''payer''], [''tagNames''], [''categoryId'']] @ income_ExtraFields s"

lemmas income_components = IncomeForm_def income_MaybeEmptyCompanion_def income_OwnShareAmount_def
  income_ExtraFields_def

definition income_share_effect :: "live_income \<Rightarrow> live_income" where
  "income_share_effect s =
     (let i = li_form s; deps = (if_isShared i, if_amount i)
      in if li_share s = Some deps then s
         else s\<lparr>li_form := i\<lparr>if_ownShareAmount := Some (ownShareOnAmountChange (if_isShared i) (if_amount i))\<rparr>,
                li_share := Some deps\<rparr>)"

definition payer_category_effect :: "field_context \<Rightarrow> live_income \<Rightarrow> live_income" where
  "payer_category_effect c s =
     (let i = li_form s
      in if \<not> fc_creating c \<or> li_payer s = Some (if_payer i) then s
         else (case mostFrequentCategory (fc_transactions c) (matchesPayer (if_payer i)) of
                 None \<Rightarrow> s\<lparr>li_payer := Some (if_payer i)\<rparr>
               | Some categoryId \<Rightarrow> s\<lparr>li_form := i\<lparr>if_categoryId := categoryId\<rparr>, li_payer := Some (if_payer i)\<rparr>))"

definition income_effects :: "field_context \<Rightarrow> live_income \<Rightarrow> live_income" where
  "income_effects c s = income_share_effect (payer_category_effect c s)"

definition mount_income :: "field_context \<Rightarrow> income_form \<Rightarrow> live_income" where
  "mount_income c i =
     income_effects c \<lparr>li_form = i, li_showNote = truthy_string (if_description i),
       li_showParent = (truthy_id (if_parentTransactionId i) \<noteq> None), li_share = None, li_payer = None\<rparr>"

datatype income_event =
    ITimestamp form_date | IAccount int | IShared bool | ICompanion string | IAmount "rat option"
  | IOwnShare "rat option" | IPayer string | ITags "string list" | ICategory int
  | IDescription string | IParent "int option" | IToggleNote | IToggleParent

fun income_offers :: "live_income \<Rightarrow> income_event \<Rightarrow> bool" where
  "income_offers s (ICompanion p) \<longleftrightarrow> if_isShared (li_form s)"
| "income_offers s (IOwnShare a) \<longleftrightarrow> if_isShared (li_form s)"
| "income_offers s (IDescription d) \<longleftrightarrow> li_showNote s"
| "income_offers s (IParent p) \<longleftrightarrow> li_showParent s \<and> (\<forall>i. p = Some i \<longrightarrow> i > 0)"
| "income_offers s _ \<longleftrightarrow> True"

definition income_toggle_note :: "live_income \<Rightarrow> live_income" where
  "income_toggle_note s =
     (let shouldShowNote = \<not> li_showNote s
      in if \<not> shouldShowNote
         then s\<lparr>li_showNote := shouldShowNote, li_form := (li_form s)\<lparr>if_description := None\<rparr>\<rparr>
         else s\<lparr>li_showNote := shouldShowNote\<rparr>)"

definition income_toggle_parent :: "live_income \<Rightarrow> live_income" where
  "income_toggle_parent s =
     (let shouldShowParent = \<not> li_showParent s
      in if \<not> shouldShowParent
         then s\<lparr>li_showParent := shouldShowParent, li_form := (li_form s)\<lparr>if_parentTransactionId := None\<rparr>\<rparr>
         else s\<lparr>li_showParent := shouldShowParent\<rparr>)"

lemma income_toggles [simp]:
  "income_toggle_note s = (if li_showNote s then s\<lparr>li_showNote := False, li_form := (li_form s)\<lparr>if_description := None\<rparr>\<rparr>
     else s\<lparr>li_showNote := True\<rparr>)"
  "income_toggle_parent s =
     (if li_showParent s then s\<lparr>li_showParent := False, li_form := (li_form s)\<lparr>if_parentTransactionId := None\<rparr>\<rparr>
      else s\<lparr>li_showParent := True\<rparr>)"
  by (simp_all add: income_toggle_note_def income_toggle_parent_def Let_def)

fun income_event_step :: "income_event \<Rightarrow> live_income \<Rightarrow> live_income" where
  "income_event_step (ITimestamp t) s = s\<lparr>li_form := (li_form s)\<lparr>if_timestamp := t\<rparr>\<rparr>"
| "income_event_step (IAccount a) s = s\<lparr>li_form := (li_form s)\<lparr>if_accountId := a\<rparr>\<rparr>"
| "income_event_step (IShared b) s = s\<lparr>li_form := (li_form s)\<lparr>if_isShared := b\<rparr>\<rparr>"
| "income_event_step (ICompanion p) s = s\<lparr>li_form := (li_form s)\<lparr>if_companion := Some p\<rparr>\<rparr>"
| "income_event_step (IAmount a) s = s\<lparr>li_form := (li_form s)\<lparr>if_amount := a\<rparr>\<rparr>"
| "income_event_step (IOwnShare a) s = s\<lparr>li_form := (li_form s)\<lparr>if_ownShareAmount := a\<rparr>\<rparr>"
| "income_event_step (IPayer p) s = s\<lparr>li_form := (li_form s)\<lparr>if_payer := p\<rparr>\<rparr>"
| "income_event_step (ITags ts) s = s\<lparr>li_form := (li_form s)\<lparr>if_tagNames := ts\<rparr>\<rparr>"
| "income_event_step (ICategory i) s = s\<lparr>li_form := (li_form s)\<lparr>if_categoryId := i\<rparr>\<rparr>"
| "income_event_step (IDescription d) s = s\<lparr>li_form := (li_form s)\<lparr>if_description := Some d\<rparr>\<rparr>"
| "income_event_step (IParent p) s = s\<lparr>li_form := (li_form s)\<lparr>if_parentTransactionId := p\<rparr>\<rparr>"
| "income_event_step IToggleNote s = income_toggle_note s"
| "income_event_step IToggleParent s = income_toggle_parent s"

inductive income_live :: "field_context \<Rightarrow> income_form \<Rightarrow> live_income \<Rightarrow> bool" for c i where
  income_mounted: "income_live c i (mount_income c i)"
| income_event: "income_live c i s \<Longrightarrow> income_offers s ev \<Longrightarrow>
    income_live c i (income_effects c (income_event_step ev s))"

definition parent_ok :: "income_form \<Rightarrow> bool" where
  "parent_ok i \<longleftrightarrow> (\<forall>p. if_parentTransactionId i = Some p \<longrightarrow> p > 0)"

definition income_synced :: "live_income \<Rightarrow> bool" where
  "income_synced s \<longleftrightarrow> li_share s = Some (if_isShared (li_form s), if_amount (li_form s)) \<and>
     (\<not> if_isShared (li_form s) \<longrightarrow>
        if_ownShareAmount (li_form s) = Some (ownShareOnAmountChange False (if_amount (li_form s))))"

definition income_pending :: "live_income \<Rightarrow> bool" where
  "income_pending s \<longleftrightarrow> (li_share s = Some (if_isShared (li_form s), if_amount (li_form s)) \<longrightarrow> income_synced s)"

lemma income_effect_syncs: "income_pending s \<Longrightarrow> income_synced (income_effects c s)"
  by (auto simp: income_effects_def income_share_effect_def payer_category_effect_def income_pending_def
      income_synced_def Let_def split: option.splits)

lemma income_effect_parent: "parent_ok (li_form (income_effects c s)) \<longleftrightarrow> parent_ok (li_form s)"
  by (auto simp: income_effects_def income_share_effect_def payer_category_effect_def parent_ok_def Let_def
      split: option.splits)

lemma income_event_keeps:
  assumes "income_synced s" "parent_ok (li_form s)" "income_offers s ev"
  shows "income_pending (income_event_step ev s) \<and> parent_ok (li_form (income_event_step ev s))"
  using assms by (cases ev) (auto simp: income_pending_def income_synced_def parent_ok_def)

lemma income_live_ok:
  "income_live c i s \<Longrightarrow> parent_ok i \<Longrightarrow> parent_ok (li_form s) \<and> income_synced s"
proof (induction rule: income_live.induct)
  case income_mounted
  then show ?case unfolding mount_income_def
    by (simp add: income_effect_parent income_effect_syncs income_pending_def)
next
  case (income_event s ev)
  then show ?case using income_event_keeps income_effect_syncs income_effect_parent by blast
qed

text \<open>The same for an income: some refused field is on screen.\<close>

lemma income_issue_on_screen:
  assumes "parent_ok (li_form s)" "income_synced s"
    and issue: "p \<in> set (incomeFormValidationSchema isValid (li_form s))"
  shows "\<exists>p \<in> set (incomeFormValidationSchema isValid (li_form s)). fst p \<in> set (IncomeForm s)"
proof -
  let ?i = "li_form s"
  have own: "if_ownShareAmount ?i = Some (case if_amount ?i of None \<Rightarrow> 0 | Some a \<Rightarrow> a)" if "\<not> if_isShared ?i"
    using assms(2) that by (auto simp: income_synced_def ownShareOnAmountChange_def)
  from issue consider (plain) "fst p \<in> {[''timestamp''], [''amount''], [''accountId''], [''categoryId''], [''payer'']}"
    | (share) "p \<in> set (at_path ''ownShareAmount'' (amount_field (\<lambda>a. a \<ge> 0) (if_ownShareAmount ?i)))"
    | (parent) "p \<in> set (at_path ''parentTransactionId'' (nullable_id (if_parentTransactionId ?i)))"
    | (exceeds) "fst p = [''ownShareAmount'']" "exceeds (if_ownShareAmount ?i) (if_amount ?i)"
    | (companion) "if_isShared ?i" "fst p = [''companion'']"
    unfolding incomeFormValidationSchema_def
    by (elim refined_mem [THEN disjE]) (auto dest: at_path_field field_paths)
  then show ?thesis
  proof cases
    case plain
    then show ?thesis by (intro bexI [OF _ issue]) (auto simp: income_components)
  next
    case share
    show ?thesis
    proof (cases "if_isShared ?i")
      case True
      have "fst p = [''ownShareAmount'']" using share by (rule at_path_field) (rule field_paths(2))
      then show ?thesis using True by (intro bexI [OF _ issue]) (simp add: income_components)
    next
      case False
      obtain q where "q \<in> set (amount_field (\<lambda>a. a \<ge> 0) (if_ownShareAmount ?i))" using share by (auto simp: at_path_mem)
      then have q: "q \<in> set (amount_field (\<lambda>a. a \<ge> 0) (if_amount ?i))"
        using own [OF False] by (auto simp: amount_field_def split: option.splits if_splits)
      have "(''amount'' # fst q, snd q) \<in> set (incomeFormValidationSchema isValid ?i)"
        unfolding incomeFormValidationSchema_def by (rule refined_base) (use q in \<open>auto simp: at_path_mem\<close>)
      moreover have "fst q = []" using field_paths(2) q by blast
      ultimately show ?thesis by (intro bexI [of _ "(''amount'' # fst q, snd q)"]) (simp_all add: income_components)
    qed
  next
    case parent
    then show ?thesis
      using assms(1) by (auto simp: parent_ok_def at_path_mem nullable_id_def positive_id_def split: option.splits if_splits)
  next
    case exceeds
    then have "if_isShared ?i" using own by (auto simp: exceeds_def split: option.splits)
    then show ?thesis using exceeds by (intro bexI [OF _ issue]) (simp add: income_components)
  next
    case companion
    then show ?thesis by (intro bexI [OF _ issue]) (simp add: income_components)
  qed
qed

section \<open>The transfer form\<close>

record live_transfer =
  lt_form :: transfer_form
  lt_sent :: "(bool \<times> rat option) option"
  lt_description :: "string option option"

definition AmountReceived :: "field_context \<Rightarrow> transfer_form \<Rightarrow> string list list result" where
  "AmountReceived c t =
     bind_result (useAccountUnitsEqual (fc_bankAccounts c) t) (\<lambda>sameUnit.
       Inr (if sameUnit then [] else [[''amountReceived'']]))"

definition TransferForm :: "field_context \<Rightarrow> live_transfer \<Rightarrow> string list list result" where
  "TransferForm c s =
     bind_result (AmountReceived c (lt_form s)) (\<lambda>received.
       Inr ([[''timestamp''], [''fromAccountId''], [''toAccountId''], [''amountSent'']] @ received @
            [[''description''], [''tagNames''], [''categoryId'']]))"

definition received_amount_effect :: "field_context \<Rightarrow> live_transfer \<Rightarrow> live_transfer result" where
  "received_amount_effect c s =
     (let t = lt_form s
      in bind_result (useAccountUnitsEqual (fc_bankAccounts c) t) (\<lambda>sameUnit.
           if lt_sent s = Some (sameUnit, xf_amountSent t) then Inr s
           else Inr (s\<lparr>lt_form := (if sameUnit then t\<lparr>xf_amountReceived := xf_amountSent t\<rparr> else t),
                       lt_sent := Some (sameUnit, xf_amountSent t)\<rparr>)))"

definition description_category_effect :: "field_context \<Rightarrow> live_transfer \<Rightarrow> live_transfer" where
  "description_category_effect c s =
     (let t = lt_form s
      in if \<not> fc_creating c \<or> lt_description s = Some (xf_description t) then s
         else (case mostFrequentCategory (fc_transactions c) (matchesDescription (or_blank (xf_description t))) of
                 None \<Rightarrow> s\<lparr>lt_description := Some (xf_description t)\<rparr>
               | Some categoryId \<Rightarrow>
                 s\<lparr>lt_form := t\<lparr>xf_categoryId := categoryId\<rparr>, lt_description := Some (xf_description t)\<rparr>))"

definition transfer_effects :: "field_context \<Rightarrow> live_transfer \<Rightarrow> live_transfer result" where
  "transfer_effects c s = received_amount_effect c (description_category_effect c s)"

definition mount_transfer :: "field_context \<Rightarrow> transfer_form \<Rightarrow> live_transfer result" where
  "mount_transfer c t = transfer_effects c \<lparr>lt_form = t, lt_sent = None, lt_description = None\<rparr>"

datatype transfer_event =
    XTimestamp form_date | XFrom int | XTo int | XSent "rat option" | XReceived "rat option"
  | XDescription string | XTags "string list" | XCategory int

fun transfer_offers :: "field_context \<Rightarrow> live_transfer \<Rightarrow> transfer_event \<Rightarrow> bool" where
  "transfer_offers c s (XReceived a) \<longleftrightarrow> useAccountUnitsEqual (fc_bankAccounts c) (lt_form s) = Inr False"
| "transfer_offers c s _ \<longleftrightarrow> True"

fun transfer_event_step :: "transfer_event \<Rightarrow> live_transfer \<Rightarrow> live_transfer" where
  "transfer_event_step (XTimestamp d) s = s\<lparr>lt_form := (lt_form s)\<lparr>xf_timestamp := d\<rparr>\<rparr>"
| "transfer_event_step (XFrom i) s = s\<lparr>lt_form := (lt_form s)\<lparr>xf_fromAccountId := i\<rparr>\<rparr>"
| "transfer_event_step (XTo i) s = s\<lparr>lt_form := (lt_form s)\<lparr>xf_toAccountId := i\<rparr>\<rparr>"
| "transfer_event_step (XSent a) s = s\<lparr>lt_form := (lt_form s)\<lparr>xf_amountSent := a\<rparr>\<rparr>"
| "transfer_event_step (XReceived a) s = s\<lparr>lt_form := (lt_form s)\<lparr>xf_amountReceived := a\<rparr>\<rparr>"
| "transfer_event_step (XDescription d) s = s\<lparr>lt_form := (lt_form s)\<lparr>xf_description := Some d\<rparr>\<rparr>"
| "transfer_event_step (XTags ts) s = s\<lparr>lt_form := (lt_form s)\<lparr>xf_tagNames := ts\<rparr>\<rparr>"
| "transfer_event_step (XCategory i) s = s\<lparr>lt_form := (lt_form s)\<lparr>xf_categoryId := i\<rparr>\<rparr>"

inductive transfer_live :: "field_context \<Rightarrow> transfer_form \<Rightarrow> live_transfer \<Rightarrow> bool" for c t where
  transfer_mounted: "mount_transfer c t = Inr s \<Longrightarrow> transfer_live c t s"
| transfer_event: "transfer_live c t s \<Longrightarrow> transfer_offers c s ev \<Longrightarrow>
    transfer_effects c (transfer_event_step ev s) = Inr s' \<Longrightarrow> transfer_live c t s'"

definition received_synced :: "field_context \<Rightarrow> live_transfer \<Rightarrow> bool" where
  "received_synced c s \<longleftrightarrow>
     (\<exists>sameUnit. useAccountUnitsEqual (fc_bankAccounts c) (lt_form s) = Inr sameUnit \<and>
        lt_sent s = Some (sameUnit, xf_amountSent (lt_form s)) \<and>
        (sameUnit \<longrightarrow> xf_amountReceived (lt_form s) = xf_amountSent (lt_form s)))"

definition received_pending :: "field_context \<Rightarrow> live_transfer \<Rightarrow> bool" where
  "received_pending c s \<longleftrightarrow>
     (\<forall>sameUnit. useAccountUnitsEqual (fc_bankAccounts c) (lt_form s) = Inr sameUnit \<and>
        lt_sent s = Some (sameUnit, xf_amountSent (lt_form s)) \<longrightarrow> received_synced c s)"

lemma units_cong: "xf_fromAccountId t = xf_fromAccountId u \<Longrightarrow> xf_toAccountId t = xf_toAccountId u \<Longrightarrow>
    useAccountUnitsEqual accounts t = useAccountUnitsEqual accounts u"
  by (simp add: useAccountUnitsEqual_def)

lemma units_of_edit:
  "useAccountUnitsEqual accounts (t\<lparr>xf_amountReceived := a\<rparr>) = useAccountUnitsEqual accounts t"
  "useAccountUnitsEqual accounts (t\<lparr>xf_amountSent := a\<rparr>) = useAccountUnitsEqual accounts t"
  "useAccountUnitsEqual accounts (t\<lparr>xf_categoryId := i\<rparr>) = useAccountUnitsEqual accounts t"
  "useAccountUnitsEqual accounts (t\<lparr>xf_description := d\<rparr>) = useAccountUnitsEqual accounts t"
  "useAccountUnitsEqual accounts (t\<lparr>xf_tagNames := ts\<rparr>) = useAccountUnitsEqual accounts t"
  "useAccountUnitsEqual accounts (t\<lparr>xf_timestamp := ti\<rparr>) = useAccountUnitsEqual accounts t"
  by (rule units_cong; simp)+

lemma category_effect_received: "received_pending c (description_category_effect c s) \<longleftrightarrow> received_pending c s"
  by (auto simp: description_category_effect_def received_pending_def received_synced_def Let_def units_of_edit
      split: option.splits)

lemma received_effect_syncs:
  assumes "received_pending c s" "received_amount_effect c s = Inr s'"
  shows "received_synced c s'"
proof -
  obtain sameUnit where u: "useAccountUnitsEqual (fc_bankAccounts c) (lt_form s) = Inr sameUnit"
    using assms(2) by (auto simp: received_amount_effect_def Let_def result_simps)
  show ?thesis
  proof (cases "lt_sent s = Some (sameUnit, xf_amountSent (lt_form s))")
    case True
    then show ?thesis using assms u by (auto simp: received_amount_effect_def Let_def received_pending_def)
  next
    case False
    then have "s' = s\<lparr>lt_form := (if sameUnit then (lt_form s)\<lparr>xf_amountReceived := xf_amountSent (lt_form s)\<rparr> else lt_form s),
        lt_sent := Some (sameUnit, xf_amountSent (lt_form s))\<rparr>"
      using assms(2) u by (simp add: received_amount_effect_def Let_def)
    then show ?thesis using u by (simp add: received_synced_def units_of_edit)
  qed
qed

lemma transfer_event_pending:
  assumes "received_synced c s" "transfer_offers c s ev"
  shows "received_pending c (transfer_event_step ev s)"
  using assms by (cases ev) (auto simp: received_pending_def received_synced_def units_of_edit)

lemma transfer_live_ok: "transfer_live c t s \<Longrightarrow> received_synced c s"
proof (induction rule: transfer_live.induct)
  case (transfer_mounted s)
  have "received_pending c \<lparr>lt_form = t, lt_sent = None, lt_description = None\<rparr>"
    by (simp add: received_pending_def)
  then show ?case
    using received_effect_syncs transfer_mounted category_effect_received
    unfolding mount_transfer_def transfer_effects_def by blast
next
  case (transfer_event s ev s')
  have "received_pending c (transfer_event_step ev s)"
    using transfer_event_pending [OF transfer_event.IH transfer_event.hyps(2)] .
  then show ?case
    by (intro received_effect_syncs [OF _ transfer_event.hyps(3) [unfolded transfer_effects_def]])
      (simp add: category_effect_received)
qed

lemma transfer_issue_on_screen:
  assumes "received_synced c s" and shown: "TransferForm c s = Inr shown"
    and issue: "p \<in> set (transferFormValidationSchema isValid (lt_form s))"
  shows "\<exists>p \<in> set (transferFormValidationSchema isValid (lt_form s)). fst p \<in> set shown"
proof -
  let ?t = "lt_form s"
  obtain sameUnit where u: "useAccountUnitsEqual (fc_bankAccounts c) ?t = Inr sameUnit"
    "sameUnit \<longrightarrow> xf_amountReceived ?t = xf_amountSent ?t"
    using assms(1) by (auto simp: received_synced_def)
  have screen: "set shown = {[''timestamp''], [''fromAccountId''], [''toAccountId''], [''amountSent''], [''description''],
      [''tagNames''], [''categoryId'']} \<union> (if sameUnit then {} else {[''amountReceived'']})"
    using shown u(1) by (auto simp: TransferForm_def AmountReceived_def)
  from issue consider
    (plain) "fst p \<in> {[''timestamp''], [''amountSent''], [''fromAccountId''], [''toAccountId''], [''categoryId'']}"
    | (received) "p \<in> set (at_path ''amountReceived'' (amount_field (\<lambda>a. a > 0) (xf_amountReceived ?t)))"
    unfolding transferFormValidationSchema_def
    by (elim refined_mem [THEN disjE]) (auto dest: at_path_field field_paths)
  then show ?thesis
  proof cases
    case plain
    then show ?thesis using screen by (intro bexI [OF _ issue]) auto
  next
    case received
    then obtain q where q: "q \<in> set (amount_field (\<lambda>a. a > 0) (xf_amountReceived ?t))" by (auto simp: at_path_mem)
    show ?thesis
    proof (cases sameUnit)
      case True
      have "(''amountSent'' # fst q, snd q) \<in> set (transferFormValidationSchema isValid ?t)"
        unfolding transferFormValidationSchema_def
        by (rule refined_base) (use q u(2) True in \<open>auto simp: at_path_mem\<close>)
      moreover have "fst q = []" using field_paths(2) q by blast
      ultimately show ?thesis using screen by (intro bexI [of _ "(''amountSent'' # fst q, snd q)"]) simp_all
    next
      case False
      have "fst p = [''amountReceived'']" using received by (rule at_path_field) (rule field_paths(2))
      then show ?thesis using screen False by (intro bexI [OF _ issue]) simp
    qed
  qed
qed

text \<open>
  What opening a transfer between accounts of one unit does to an amount received that differs, such
  as after a fee: it becomes the amount sent, and the field that could show it is hidden.
\<close>

lemma opening_equates_amounts:
  assumes "useAccountUnitsEqual (fc_bankAccounts c) t = Inr True" "mount_transfer c t = Inr s"
  shows "xf_amountReceived (lt_form s) = xf_amountSent t"
proof -
  let ?s0 = "\<lparr>lt_form = t, lt_sent = None, lt_description = None\<rparr>"
  have form: "\<exists>i. lt_form (description_category_effect c ?s0) = t\<lparr>xf_categoryId := i\<rparr>"
    "lt_sent (description_category_effect c ?s0) = None"
    by (auto simp: description_category_effect_def Let_def split: option.splits intro: exI [of _ "xf_categoryId t"])
  then obtain i where "lt_form (description_category_effect c ?s0) = t\<lparr>xf_categoryId := i\<rparr>" by blast
  then show ?thesis
    using assms form(2) by (auto simp: mount_transfer_def transfer_effects_def received_amount_effect_def units_of_edit Let_def)
qed

end
