(* ===== verification/Pickers.thy ===== *)
theory Pickers
  imports FormFields Overview
begin

text \<open>
  What the fields of the transaction form offer: the datalists of vendor, payer, companion, description
  and trip, the account groups, the tags (components/txform/shared/TagsSelect.tsx, as a state machine),
  the categories (CategorySelect.tsx), the expenses an income can refund
  (income/ParentTransaction.tsx), the state of an account's open banking fetch
  (FetchOpenBankingTransactions.tsx), the notes on the new balance (shared/NewBalanceNote.tsx) and the
  warning about stale rates
  (components/StaleExchangeRatesWarning.tsx).  date-fns and Intl functions are arguments.
\<close>

section \<open>Datalists\<close>

definition vendorOrNull :: "transaction \<Rightarrow> string option" where
  "vendorOrNull x =
     (case x of
        PersonalExpense p \<Rightarrow> Some (pe_vendor p)
      | ThirdPartyExpense e \<Rightarrow> Some (tp_vendor e)
      | Income i \<Rightarrow> Some (in_payer i)
      | _ \<Rightarrow> None)"

definition vendor_options :: "transaction list \<Rightarrow> string list" where
  "vendor_options transactions = uniqMostFrequentIgnoringEmpty (map vendorOrNull transactions)"

definition expense_payerOrNull :: "transaction \<Rightarrow> string option" where
  "expense_payerOrNull t = (case t of ThirdPartyExpense e \<Rightarrow> Some (tp_payer e) | _ \<Rightarrow> None)"

definition expense_payer_options :: "transaction list \<Rightarrow> string list" where
  "expense_payer_options transactions = uniqMostFrequentIgnoringEmpty (map expense_payerOrNull transactions)"

definition income_payerOrNull :: "transaction \<Rightarrow> string option" where
  "income_payerOrNull t = (case t of Income i \<Rightarrow> Some (in_payer i) | _ \<Rightarrow> None)"

definition income_payer_options :: "transaction list \<Rightarrow> string list" where
  "income_payer_options transactions = uniqMostFrequentIgnoringEmpty (map income_payerOrNull transactions)"

definition description_options :: "transaction list \<Rightarrow> string list" where
  "description_options transactions =
     uniqMostFrequentIgnoringEmpty (map tx_note (filter (\<lambda>x. \<not> isOpeningBalance x) transactions))"

text \<open>The trips by the time they were last used; a trip that is not in the list is shown as unknown.\<close>

definition last_usage_step :: "(int, rat) js_map \<Rightarrow> transaction \<Rightarrow> (int, rat) js_map" where
  "last_usage_step m x =
     (case Option.bind (flow_of x) (\<lambda>f. truthy_id (flow_tripId f)) of
        None \<Rightarrow> m
      | Some tripId \<Rightarrow>
        (case jm_get m tripId of
           Some existing \<Rightarrow>
             if existing \<noteq> 0 \<and> \<not> existing < tx_timestampEpoch x then m else jm_set tripId (tx_timestampEpoch x) m
         | None \<Rightarrow> jm_set tripId (tx_timestampEpoch x) m))"

definition useTripNames :: "transaction list \<Rightarrow> trip list \<Rightarrow> string list" where
  "useTripNames transactions trips =
     (let tripLastUsageDate = foldl last_usage_step [] transactions;
          tripById = jm_of_entries (map (\<lambda>x. (trip_id x, x)) trips);
          tripIdsByLastUsageDate = map fst (js_sort (\<lambda>a b. snd b - snd a) tripLastUsageDate)
      in map (\<lambda>i. case jm_get tripById i of Some t \<Rightarrow> trip_name t | None \<Rightarrow> ''Unknown trip'') tripIdsByLastUsageDate)"

section \<open>Accounts\<close>

definition useDisplayBankAccounts :: "bank_account list \<Rightarrow> bank_account list" where
  "useDisplayBankAccounts bankAccounts = filter (\<lambda>x. \<not> acc_archived x) bankAccounts"

definition accountGroups ::
  "bank_account list \<Rightarrow> bank_account list \<Rightarrow> int option \<Rightarrow> bank list \<Rightarrow> bank_group list result" where
  "accountGroups displayAccounts allAccounts accountId banks =
     (let selected = find (\<lambda>x. Some (acc_id x) = accountId) allAccounts;
          accounts = (case selected of
            Some a \<Rightarrow> if \<not> list_ex (\<lambda>x. Some (acc_id x) = accountId) displayAccounts then a # displayAccounts
                      else displayAccounts
          | None \<Rightarrow> displayAccounts)
      in groupAccountsByBank accounts banks)"

section \<open>Categories\<close>

record category_option =
  co_id :: int
  co_fullName :: string

definition category_toOption :: "category_tree \<Rightarrow> category \<Rightarrow> category_option result" where
  "category_toOption tree c =
     bind_result (getNameWithAncestors (ACategory c) tree) (\<lambda>name. Inr \<lparr>co_id = cat_id c, co_fullName = name\<rparr>)"

definition category_useOptions ::
  "category list \<Rightarrow> category_tree \<Rightarrow> (string \<times> category_option list) list result" where
  "category_useOptions categories tree =
     bind_result (filter_result (\<lambda>c. bind_result (immediateChildren (ACategory c) tree) (\<lambda>cs. Inr (length cs = 0)))
         categories) (\<lambda>categoriesWithoutChildren.
     bind_result (map_result (category_toOption tree) categoriesWithoutChildren) (\<lambda>leaves.
     bind_result (map_result (category_toOption tree) categories) (\<lambda>everything.
       Inr [(''Children Categories'', leaves), (''All Categories'', everything)])))"

definition CategorySelect ::
  "category list \<Rightarrow> int \<Rightarrow> (string \<times> (string \<times> category_option list) list) result" where
  "CategorySelect categories v =
     bind_result (makeCategoryTree categories) (\<lambda>tree.
     bind_result (category_useOptions categories tree) (\<lambda>groups.
     bind_result (mustFindCategory v categories) (\<lambda>c.
     bind_result (getNameWithAncestors (ACategory c) tree) (\<lambda>name. Inr (name, groups)))))"

definition filterCategories :: "string \<Rightarrow> string \<Rightarrow> rat" where
  "filterCategories v q =
     (let q = trim q; v = trim v
      in if q = [] then 1 else if str_includes (toLowerCase v) (toLowerCase q) then 1 else 0)"

section \<open>Tags\<close>

definition NEW_TAG_PREFIX :: string where
  "NEW_TAG_PREFIX = ''new:''"

definition EXISTING_TAG_PREFIX :: string where
  "EXISTING_TAG_PREFIX = ''existing:''"

definition tag_frequency :: "tag list \<Rightarrow> transaction list \<Rightarrow> (int, int) js_map" where
  "tag_frequency tags transactions =
     foldl (\<lambda>m tagId. jm_set tagId ((case jm_get m tagId of Some f \<Rightarrow> f | None \<Rightarrow> 0) + 1) m)
       (jm_of_entries (map (\<lambda>tag. (tag_id tag, 0)) tags))
       (concat (List.map_filter tx_tagsIds (filter (\<lambda>tx. \<not> isOpeningBalance tx) transactions)))"

definition useExistingTagNames :: "tag list \<Rightarrow> transaction list \<Rightarrow> string list" where
  "useExistingTagNames tags transactions =
     (let frequency = tag_frequency tags transactions;
          of_tag = (\<lambda>t. case jm_get frequency (tag_id t) of Some f \<Rightarrow> f | None \<Rightarrow> 0)
      in map tag_name (js_sort (\<lambda>a b. of_tag b - of_tag a) tags))"

text \<open>\<open>replace\<close> with a string takes out its first occurrence only.\<close>

fun replace_first :: "string \<Rightarrow> string \<Rightarrow> string" where
  "replace_first [] w = []"
| "replace_first (c # s) w = (if starts_with (c # s) w then drop (length w) (c # s) else c # replace_first s w)"

definition tagSearchRanking :: "string \<Rightarrow> string \<Rightarrow> rat" where
  "tagSearchRanking v q =
     (let q = trim q; v = trim v
      in if q = [] then 1
         else if starts_with v NEW_TAG_PREFIX then 1 / 10
         else if str_includes (toLowerCase (replace_first v EXISTING_TAG_PREFIX)) (toLowerCase q) then 1 else 0)"

text \<open>The component holds the text of the search; the selected tags are the form's.\<close>

record tags_select =
  tg_value :: "string list"
  tg_searchInput :: string
  tg_optionsOpen :: bool

definition tagNames :: "string list \<Rightarrow> string list \<Rightarrow> string list" where
  "tagNames existing v = filter (\<lambda>t. t \<notin> set existing) v @ existing"

definition shouldSuggestNewTag :: "string list \<Rightarrow> tags_select \<Rightarrow> bool" where
  "shouldSuggestNewTag existing s \<longleftrightarrow> tg_searchInput s \<noteq> [] \<and>
     \<not> list_ex (\<lambda>n. toLowerCase n = toLowerCase (trim (tg_searchInput s))) (tagNames existing (tg_value s))"

datatype tags_event = OpenTags bool | SearchTags string | SelectTag string | CreateTag | RemoveTag string

fun tags_offers :: "string list \<Rightarrow> tags_select \<Rightarrow> tags_event \<Rightarrow> bool" where
  "tags_offers existing s (SelectTag t) \<longleftrightarrow> t \<in> set (tagNames existing (tg_value s))"
| "tags_offers existing s CreateTag \<longleftrightarrow> shouldSuggestNewTag existing s"
| "tags_offers existing s (RemoveTag t) \<longleftrightarrow> t \<in> set (tg_value s)"
| "tags_offers existing s _ \<longleftrightarrow> True"

fun tags_step :: "tags_event \<Rightarrow> tags_select \<Rightarrow> tags_select" where
  "tags_step (OpenTags b) s = s\<lparr>tg_optionsOpen := b\<rparr>"
| "tags_step (SearchTags q) s = s\<lparr>tg_searchInput := q\<rparr>"
| "tags_step (SelectTag t) s =
     s\<lparr>tg_value := (if t \<in> set (tg_value s) then remove1 t (tg_value s) else tg_value s @ [t]),
       tg_optionsOpen := False, tg_searchInput := []\<rparr>"
| "tags_step CreateTag s =
     s\<lparr>tg_value := tg_value s @ [trim (tg_searchInput s)], tg_optionsOpen := False, tg_searchInput := []\<rparr>"
| "tags_step (RemoveTag t) s = s\<lparr>tg_value := filter (\<lambda>u. u \<noteq> t) (tg_value s)\<rparr>"

inductive tags_live :: "string list \<Rightarrow> string list \<Rightarrow> tags_select \<Rightarrow> bool" for existing start where
  tags_mounted: "tags_live existing start \<lparr>tg_value = start, tg_searchInput = [], tg_optionsOpen = False\<rparr>"
| tags_event: "tags_live existing start s \<Longrightarrow> tags_offers existing s e \<Longrightarrow> tags_live existing start (tags_step e s)"

section \<open>The expense an income refunds\<close>

function recent_window :: "(rat \<Rightarrow> int) \<Rightarrow> nat \<Rightarrow> personal_expense list \<Rightarrow> personal_expense list" where
  "recent_window monthsAgo monthsWindow recent =
     (if length recent > 100 \<and> monthsWindow > 3
      then recent_window monthsAgo (monthsWindow - 1)
             (filter (\<lambda>t. monthsAgo (pe_timestampEpoch t) < int monthsWindow) recent)
      else recent)"
  by pat_completeness auto
termination by (relation "measure (\<lambda>(_, w, _). w)") auto

declare recent_window.simps [simp del]

fun personal_of :: "transaction \<Rightarrow> personal_expense option" where
  "personal_of (PersonalExpense p) = Some p"
| "personal_of _ = None"

definition findRelevantExpenses ::
  "(rat \<Rightarrow> int) \<Rightarrow> transaction list \<Rightarrow> string \<Rightarrow> int \<Rightarrow> personal_expense list" where
  "findRelevantExpenses monthsAgo transactions q accountId =
     (let expenses = List.map_filter personal_of transactions;
          matchingExpenses = filter (\<lambda>t. if q = [] then pe_accountId t = accountId
            else str_includes (toLowerCase (pe_vendor t)) (toLowerCase q)) expenses
      in recent_window monthsAgo 6 matchingExpenses)"

section \<open>Stale exchange rates\<close>

definition STALE_THRESHOLD_DAYS :: int where
  "STALE_THRESHOLD_DAYS = 7"

record stale_pair =
  sp_from :: string
  sp_to :: string
  sp_observedAtEpoch :: rat

definition latest_pair_step ::
  "(string, stale_pair) js_map \<Rightarrow> pb_exchange_rate \<Rightarrow> (string, stale_pair) js_map result" where
  "latest_pair_step m r =
     (let key = er_currencyCodeFrom r @ ''-'' @ er_currencyCodeTo r
      in bind_result (timestampToEpoch (er_rateTimestamp r)) (\<lambda>observedAtEpoch.
        let entry = \<lparr>sp_from = er_currencyCodeFrom r, sp_to = er_currencyCodeTo r, sp_observedAtEpoch = observedAtEpoch\<rparr>
        in Inr (case jm_get m key of
             None \<Rightarrow> jm_set key entry m
           | Some existing \<Rightarrow> if observedAtEpoch > sp_observedAtEpoch existing then jm_set key entry m else m)))"

definition findStaleCurrencyPairs ::
  "(rat \<Rightarrow> rat \<Rightarrow> int) \<Rightarrow> pb_exchange_rate list \<Rightarrow> rat \<Rightarrow> stale_pair list result" where
  "findStaleCurrencyPairs differenceInDays rates now =
     bind_result (fold_result latest_pair_step [] rates) (\<lambda>latestByPair.
       Inr (filter (\<lambda>entry. \<not> differenceInDays now (sp_observedAtEpoch entry) \<le> STALE_THRESHOLD_DAYS)
         (jm_values latestByPair)))"

definition latest_quote_step :: "(string, rat) js_map \<Rightarrow> pb_stock_quote \<Rightarrow> (string, rat) js_map result" where
  "latest_quote_step m q =
     bind_result (timestampToEpoch (sq_quoteTimestamp q)) (\<lambda>observedAtEpoch.
       let ticker = sq_stockTicker q
       in Inr (case jm_get m ticker of
            None \<Rightarrow> jm_set ticker observedAtEpoch m
          | Some existing \<Rightarrow> if existing = 0 \<or> observedAtEpoch > existing then jm_set ticker observedAtEpoch m else m))"

definition findStaleStockQuotes ::
  "(rat \<Rightarrow> rat \<Rightarrow> int) \<Rightarrow> pb_stock_quote list \<Rightarrow> rat \<Rightarrow> (string \<times> rat) list result" where
  "findStaleStockQuotes differenceInDays quotes now =
     bind_result (fold_result latest_quote_step [] quotes) (\<lambda>latestByTicker.
       Inr (filter (\<lambda>(ticker, observedAtEpoch). \<not> differenceInDays now observedAtEpoch \<le> STALE_THRESHOLD_DAYS)
         latestByTicker))"

text \<open>The warning: None renders nothing.\<close>

definition StaleExchangeRatesWarning ::
  "(rat \<Rightarrow> rat \<Rightarrow> int) \<Rightarrow> rat \<Rightarrow> pb_exchange_rate list \<Rightarrow> pb_stock_quote list \<Rightarrow>
     (stale_pair list \<times> (string \<times> rat) list) option result" where
  "StaleExchangeRatesWarning differenceInDays now rates quotes =
     bind_result (findStaleCurrencyPairs differenceInDays rates now) (\<lambda>stalePairs.
     bind_result (findStaleStockQuotes differenceInDays quotes now) (\<lambda>staleTickers.
       Inr (if length stalePairs = 0 \<and> length staleTickers = 0 then None else Some (stalePairs, staleTickers))))"

section \<open>The parent transaction of an income\<close>

record parent_option =
  po_id :: int
  po_amount :: string
  po_date :: string
  po_vendor :: string
  po_label :: string

definition makeOption ::
  "(personal_expense \<Rightarrow> string result) \<Rightarrow> (rat \<Rightarrow> string) \<Rightarrow> personal_expense \<Rightarrow> parent_option result" where
  "makeOption formatAmount shortRelativeDate t =
     bind_result (formatAmount t) (\<lambda>amount.
       let date = shortRelativeDate (pe_timestampEpoch t)
       in Inr \<lparr>po_id = pe_id t, po_amount = amount, po_date = date, po_vendor = pe_vendor t,
               po_label = amount @ '' '' @ pe_vendor t @ '' '' @ date\<rparr>)"

definition FilteredTransactions ::
  "(personal_expense \<Rightarrow> string result) \<Rightarrow> (rat \<Rightarrow> string) \<Rightarrow> (rat \<Rightarrow> int) \<Rightarrow> transaction list \<Rightarrow> string \<Rightarrow> int \<Rightarrow>
     parent_option list result" where
  "FilteredTransactions formatAmount shortRelativeDate monthsAgo transactions debouncedQuery accountId =
     map_result (makeOption formatAmount shortRelativeDate)
       (findRelevantExpenses monthsAgo transactions debouncedQuery accountId)"

text \<open>The label of the select: the parent's when the value is the id of a personal expense.\<close>

definition ParentTransactionSelect ::
  "(personal_expense \<Rightarrow> string result) \<Rightarrow> (rat \<Rightarrow> string) \<Rightarrow> transaction list \<Rightarrow> int option \<Rightarrow> string result" where
  "ParentTransactionSelect formatAmount shortRelativeDate transactions v =
     (case Option.bind (find (\<lambda>t. Some (tx_id t) = v) transactions) personal_of of
        None \<Rightarrow> Inr ''Select a transaction''
      | Some parentExpense \<Rightarrow>
        bind_result (makeOption formatAmount shortRelativeDate parentExpense) (\<lambda>opt. Inr (po_label opt)))"

section \<open>Fetching open banking transactions\<close>

datatype fetch_status =
    NotFetched
  | FetchFailed string "rat option"
  | FetchedAt rat

definition StatusSummary :: "account_fetch_metadata option \<Rightarrow> fetch_status result" where
  "StatusSummary fetchMetadata =
     (case fetchMetadata of
        None \<Rightarrow> Inr NotFetched
      | Some m \<Rightarrow>
        bind_result (case afm_lastSyncSuccessAt m of
            None \<Rightarrow> Inr None
          | Some t \<Rightarrow> bind_result (timestampToEpoch (Some t)) (\<lambda>e. Inr (if e = 0 then None else Some e))) (\<lambda>lastSyncedEpoch.
        if afm_lastSyncError m \<noteq> [] then Inr (FetchFailed (afm_lastSyncError m) lastSyncedEpoch)
        else case lastSyncedEpoch of
               Some e \<Rightarrow> Inr (FetchedAt e)
             | None \<Rightarrow> Inl ImpossibleState))"

text \<open>
  The refresh button: a click asks the server and, when it answers, re-reads the page and the
  suggestions; a refusal is shown, and the button is free again either way.
\<close>

record fetch_state =
  fo_fetching :: bool
  fo_error :: "string option"

datatype fetch_answer = FetchOk | FetchStatus int | FetchThrew string

definition fetch_click :: "bool \<Rightarrow> fetch_state \<Rightarrow> fetch_state \<times> bool" where
  "fetch_click disabled s =
     (if disabled \<or> fo_fetching s then (s, False) else (\<lparr>fo_fetching = True, fo_error = None\<rparr>, True))"

definition fetch_answered :: "fetch_answer \<Rightarrow> fetch_state \<Rightarrow> fetch_state \<times> bool" where
  "fetch_answered a s =
     (case a of
        FetchOk \<Rightarrow> (s\<lparr>fo_fetching := False\<rparr>, True)
      | FetchStatus code \<Rightarrow>
          (s\<lparr>fo_fetching := False, fo_error := Some (''Failed to fetch transactions: Error: Fetch failed with status '' @
             string_of_int code)\<rparr>, False)
      | FetchThrew e \<Rightarrow> (s\<lparr>fo_fetching := False, fo_error := Some (''Failed to fetch transactions: '' @ e)\<rparr>, False))"

section \<open>What the fields offer\<close>

lemma accountGroups_offers:
  assumes "accountGroups displayAccounts allAccounts (Some i) banks = Inr groups" "i \<in> acc_id ` set allAccounts"
  shows "\<exists>g \<in> set groups. \<exists>a \<in> set (group_accounts g). acc_id a = i"
proof -
  obtain sel where sel: "find (\<lambda>x. Some (acc_id x) = Some i) allAccounts = Some sel" "acc_id sel = i"
  proof -
    have "find (\<lambda>x. acc_id x = i) allAccounts \<noteq> None" using assms(2) by (auto simp: find_None_iff)
    then show ?thesis using that by (auto simp: find_Some_iff)
  qed
  let ?accounts = "if \<not> list_ex (\<lambda>x. Some (acc_id x) = Some i) displayAccounts then sel # displayAccounts else displayAccounts"
  have groups: "groups_of ?accounts groups"
    using assms(1) sel(1) unfolding accountGroups_def Let_def by (auto intro: groupAccountsByBank_lemma)
  have "\<exists>a \<in> set ?accounts. acc_id a = i"
    using sel(2) by (cases "list_ex (\<lambda>x. Some (acc_id x) = Some i) displayAccounts") (auto simp: list_ex_iff)
  then obtain a where a: "a \<in> set ?accounts" "acc_id a = i" by blast
  then have "acc_bankId a \<in> set (map (bank_id \<circ> group_bank) groups)"
    using groups by (simp add: groups_of_def)
  then obtain g where g: "g \<in> set groups" "bank_id (group_bank g) = acc_bankId a" by auto
  then have "a \<in> set (group_accounts g)"
    using groups a(1) unfolding groups_of_def by (simp add: accountsForBank_def)
  then show ?thesis using g(1) a(2) by blast
qed

lemma recent_window_subset: "set (recent_window monthsAgo w es) \<subseteq> set es"
  by (induction monthsAgo w es rule: recent_window.induct) (subst recent_window.simps, auto)

text \<open>The window shrinks from six months to four, a month at a time, while more than 100 expenses are left.\<close>

lemma recent_window_small: "length es \<le> 100 \<Longrightarrow> recent_window monthsAgo w es = es"
  by (subst recent_window.simps) simp

lemma recent_window_months:
  "length es > 100 \<Longrightarrow> \<exists>k \<in> {4, 5, 6}. recent_window monthsAgo 6 es = filter (\<lambda>t. monthsAgo (pe_timestampEpoch t) < k) es"
proof -
  assume "length es > 100"
  let ?f = "\<lambda>k. filter (\<lambda>t. monthsAgo (pe_timestampEpoch t) < k)"
  have narrow: "?f k (?f (k + 1) es) = ?f k es" for k by (auto intro: filter_cong)
  have w6: "recent_window monthsAgo 6 es = recent_window monthsAgo 5 (?f 6 es)"
    using \<open>length es > 100\<close> by (subst recent_window.simps) simp
  have w5: "recent_window monthsAgo 5 (?f 6 es) = (if length (?f 6 es) > 100 then recent_window monthsAgo 4 (?f 5 es) else ?f 6 es)"
    using narrow [of 5] by (subst recent_window.simps) simp
  have w4: "recent_window monthsAgo 4 (?f 5 es) = (if length (?f 5 es) > 100 then ?f 4 es else ?f 5 es)"
    using narrow [of 4] by (subst recent_window.simps, subst recent_window.simps) simp
  show ?thesis unfolding w6 w5 w4 by auto
qed

lemma CategorySelect_offers:
  assumes "CategorySelect categories v = Inr (name, groups)"
  shows "map fst groups = [''Children Categories'', ''All Categories''] \<and>
    map co_id (snd (groups ! 1)) = map cat_id categories \<and> set (snd (groups ! 0)) \<subseteq> set (snd (groups ! 1))"
proof -
  have ids: "map_result (category_toOption tree) cs = Inr opts \<Longrightarrow> map co_id opts = map cat_id cs" for tree cs opts
    by (induction cs arbitrary: opts) (auto simp: category_toOption_def result_simps)
  have sub: "map_result f cs = Inr ys \<Longrightarrow> map_result f ds = Inr zs \<Longrightarrow> set cs \<subseteq> set ds \<Longrightarrow> set ys \<subseteq> set zs"
    for f :: "category \<Rightarrow> category_option result" and cs ds ys zs
  proof -
    have member: "map_result f cs = Inr ys \<Longrightarrow> y \<in> set ys \<longleftrightarrow> (\<exists>c \<in> set cs. f c = Inr y)" for cs ys y
      by (induction cs arbitrary: ys) (auto simp: result_simps)
    show "map_result f cs = Inr ys \<Longrightarrow> map_result f ds = Inr zs \<Longrightarrow> set cs \<subseteq> set ds \<Longrightarrow> set ys \<subseteq> set zs"
      using member by blast
  qed
  have leaves: "filter_result p cs = Inr ls \<Longrightarrow> set ls \<subseteq> set cs" for p :: "category \<Rightarrow> bool result" and cs ls
    by (induction cs arbitrary: ls) (auto simp: result_simps split: if_splits)
  from assms show ?thesis
    by (auto simp: CategorySelect_def category_useOptions_def result_simps dest: ids sub leaves)
      (use sub leaves in blast)
qed

text \<open>The tags: the existing ones most used first, each once.\<close>

interpretation tag_order: js_comparator "\<lambda>a b. f b - f a :: int"
  by unfold_locales auto

lemma existing_tags_ordered:
  "\<exists>ts. useExistingTagNames tags transactions = map tag_name ts \<and> mset ts = mset tags \<and>
     sorted_wrt (\<lambda>a b. (case jm_get (tag_frequency tags transactions) (tag_id b) of Some f \<Rightarrow> f | None \<Rightarrow> 0)
       \<le> (case jm_get (tag_frequency tags transactions) (tag_id a) of Some f \<Rightarrow> f | None \<Rightarrow> 0)) ts"
proof -
  let ?f = "\<lambda>t. case jm_get (tag_frequency tags transactions) (tag_id t) of Some f \<Rightarrow> f | None \<Rightarrow> (0 :: int)"
  have "sorted_wrt (\<lambda>x y. ?f y - ?f x \<le> 0) (js_sort (\<lambda>a b. ?f b - ?f a) tags)"
    by (rule tag_order.sorted)
  then have "sorted_wrt (\<lambda>a b. ?f b \<le> ?f a) (js_sort (\<lambda>a b. ?f b - ?f a) tags)"
    by (rule sorted_wrt_mono_rel [rotated]) simp
  then show ?thesis
    by (intro exI [of _ "js_sort (\<lambda>a b. ?f b - ?f a) tags"]) (simp add: useExistingTagNames_def Let_def)
qed

definition case_distinct :: "string list \<Rightarrow> bool" where
  "case_distinct ts \<longleftrightarrow> distinct (map toLowerCase ts)"

definition tags_ok :: "string list \<Rightarrow> tags_select \<Rightarrow> bool" where
  "tags_ok existing s \<longleftrightarrow> distinct (tg_value s) \<and> case_distinct (tagNames existing (tg_value s))"

lemma tagNames_mem: "set v \<subseteq> set (tagNames existing v)"
  by (auto simp: tagNames_def)

lemma distinct_subseq: "subseq xs ys \<Longrightarrow> distinct ys \<Longrightarrow> distinct xs"
  by (induction rule: list_emb.induct) (auto dest: list_emb_set)

lemma case_distinct_sub: "subseq xs ys \<Longrightarrow> case_distinct ys \<Longrightarrow> case_distinct xs"
  unfolding case_distinct_def using distinct_subseq subseq_map by blast

lemma subseq_remove1: "subseq (remove1 t v) v"
  by (induction v) auto

lemma tagNames_sub: "subseq v w \<Longrightarrow> subseq (tagNames existing v) (tagNames existing w)"
  unfolding tagNames_def by (intro list_emb_append_mono subseq_filter) auto

lemma tags_step_ok:
  assumes "tags_ok existing s" "tags_offers existing s e"
  shows "tags_ok existing (tags_step e s)"
proof (cases e)
  case (SelectTag t)
  show ?thesis
  proof (cases "t \<in> set (tg_value s)")
    case True
    then show ?thesis
      using SelectTag assms(1) case_distinct_sub [OF tagNames_sub [OF subseq_remove1]] by (auto simp: tags_ok_def)
  next
    case False
    then have "t \<in> set existing" using assms(2) SelectTag by (auto simp: tagNames_def)
    then have "tagNames existing (tg_value s @ [t]) = tagNames existing (tg_value s)" by (simp add: tagNames_def)
    then show ?thesis using False SelectTag assms(1) by (simp add: tags_ok_def)
  qed
next
  case CreateTag
  let ?t = "trim (tg_searchInput s)"
  have unseen: "\<forall>n \<in> set (tagNames existing (tg_value s)). toLowerCase n \<noteq> toLowerCase ?t"
    using assms(2) CreateTag by (auto simp: shouldSuggestNewTag_def list_ex_iff)
  then have fresh: "?t \<notin> set existing" "?t \<notin> set (tg_value s)"
    using tagNames_mem [of "tg_value s" existing] by (auto simp: tagNames_def)
  then have names: "tagNames existing (tg_value s @ [?t]) = filter (\<lambda>t. t \<notin> set existing) (tg_value s) @ ?t # existing"
    by (simp add: tagNames_def)
  have "case_distinct (tagNames existing (tg_value s @ [?t]))"
    unfolding names using assms(1) unseen by (auto simp: tags_ok_def case_distinct_def tagNames_def)
  then show ?thesis using CreateTag assms(1) fresh by (simp add: tags_ok_def)
next
  case (RemoveTag t)
  then show ?thesis
    using assms(1) case_distinct_sub [OF tagNames_sub [OF subseq_filter_left]]
    by (auto simp: tags_ok_def)
qed (use assms in \<open>auto simp: tags_ok_def\<close>)

text \<open>
  C38: however tags are picked, created and removed, no tag is selected twice, and no two tags on offer,
  existing or created, differ in the case of their letters only, when that is so at the start.
\<close>
theorem selected_tags_distinct:
  assumes "tags_live existing start s" and "distinct start" and "case_distinct (tagNames existing start)"
  shows "distinct (tg_value s) \<and> case_distinct (tagNames existing (tg_value s))"
proof -
  have "tags_ok existing s"
    using assms(1) by induction (use assms(2,3) tags_step_ok in \<open>auto simp: tags_ok_def\<close>)
  then show ?thesis by (simp add: tags_ok_def)
qed

theorem selected_tags_distinct_witness:
  "distinct [''food'', ''trip''] \<and> case_distinct (tagNames [''food''] [''food'', ''trip''])"
proof -
  let ?s0 = "\<lparr>tg_value = [''food''], tg_searchInput = [], tg_optionsOpen = False\<rparr>"
  let ?s1 = "tags_step (SearchTags '' trip'') ?s0"
  have "tags_live [''food''] [''food''] (tags_step CreateTag ?s1)"
    by (intro tags_event tags_mounted) code_simp+
  then have "distinct (tg_value (tags_step CreateTag ?s1)) \<and>
      case_distinct (tagNames [''food''] (tg_value (tags_step CreateTag ?s1)))"
    by (rule selected_tags_distinct) code_simp+
  moreover have "tg_value (tags_step CreateTag ?s1) = [''food'', ''trip'']" by code_simp
  ultimately show ?thesis by simp
qed

text \<open>Typing spaces offers to create a tag, and creates the one without a name.\<close>

lemma blank_tag_created:
  "let s = tags_step (SearchTags '' '') \<lparr>tg_value = [], tg_searchInput = [], tg_optionsOpen = True\<rparr>
   in shouldSuggestNewTag [''food''] s \<and> tagSearchRanking (NEW_TAG_PREFIX @ tg_searchInput s) '' '' = 1 \<and>
      tg_value (tags_step CreateTag s) = ['''']"
  by code_simp

section \<open>Stale rates\<close>

definition pair_key :: "pb_exchange_rate \<Rightarrow> string" where
  "pair_key r = er_currencyCodeFrom r @ ''-'' @ er_currencyCodeTo r"

definition observed :: "pb_exchange_rate \<Rightarrow> rat \<Rightarrow> bool" where
  "observed r e \<longleftrightarrow> timestampToEpoch (er_rateTimestamp r) = Inr e"

definition latest_of :: "pb_exchange_rate list \<Rightarrow> string \<Rightarrow> stale_pair \<Rightarrow> bool" where
  "latest_of rates k p \<longleftrightarrow>
     (\<exists>r \<in> set rates. pair_key r = k \<and> observed r (sp_observedAtEpoch p) \<and>
        sp_from p = er_currencyCodeFrom r \<and> sp_to p = er_currencyCodeTo r) \<and>
     (\<forall>r \<in> set rates. \<forall>e. pair_key r = k \<and> observed r e \<longrightarrow> e \<le> sp_observedAtEpoch p)"

definition latest_at :: "pb_exchange_rate list \<Rightarrow> (string, stale_pair) js_map \<Rightarrow> string \<Rightarrow> bool" where
  "latest_at rates m k \<longleftrightarrow> (case jm_get m k of
       None \<Rightarrow> \<forall>r \<in> set rates. pair_key r \<noteq> k
     | Some p \<Rightarrow> latest_of rates k p)"

definition latest_pairs :: "pb_exchange_rate list \<Rightarrow> (string, stale_pair) js_map \<Rightarrow> bool" where
  "latest_pairs rates m \<longleftrightarrow> jm_ok m \<and> (\<forall>r \<in> set rates. \<exists>e. observed r e) \<and> (\<forall>k. latest_at rates m k)"

lemma observed_unique: "observed r e \<Longrightarrow> observed r e' \<Longrightarrow> e' = e"
  by (simp add: observed_def)

lemma latest_of_later:
  assumes "latest_of rates k p"
  shows "pair_key r \<noteq> k \<Longrightarrow> latest_of (rates @ [r]) k p"
    and "observed r e \<Longrightarrow> e \<le> sp_observedAtEpoch p \<Longrightarrow> latest_of (rates @ [r]) k p"
proof -
  show "latest_of (rates @ [r]) k p" if "pair_key r \<noteq> k"
    using assms that unfolding latest_of_def by simp
  show "latest_of (rates @ [r]) k p" if "observed r e" "e \<le> sp_observedAtEpoch p"
    using assms that unfolding latest_of_def by (auto dest: observed_unique)
qed

lemma latest_of_newer:
  assumes "observed r (sp_observedAtEpoch p)" "sp_from p = er_currencyCodeFrom r" "sp_to p = er_currencyCodeTo r"
    and "\<And>q e. q \<in> set rates \<Longrightarrow> pair_key q = pair_key r \<Longrightarrow> observed q e \<Longrightarrow> e \<le> sp_observedAtEpoch p"
  shows "latest_of (rates @ [r]) (pair_key r) p"
  using assms(1-3) assms(4) unfolding latest_of_def by (auto dest: observed_unique)

lemma latest_pair_step_at:
  assumes step: "latest_pair_step m r = Inr m'"
  obtains e p where "observed r e" "sp_from p = er_currencyCodeFrom r" "sp_to p = er_currencyCodeTo r"
    "sp_observedAtEpoch p = e"
    "m' = (case jm_get m (pair_key r) of None \<Rightarrow> jm_set (pair_key r) p m
       | Some q \<Rightarrow> if sp_observedAtEpoch q < e then jm_set (pair_key r) p m else m)"
proof -
  have key: "er_currencyCodeFrom r @ CHR ''-'' # er_currencyCodeTo r = pair_key r" by (simp add: pair_key_def)
  obtain e where t: "timestampToEpoch (er_rateTimestamp r) = Inr e"
    using step by (auto simp: latest_pair_step_def result_simps Let_def)
  let ?p = "\<lparr>sp_from = er_currencyCodeFrom r, sp_to = er_currencyCodeTo r, sp_observedAtEpoch = e\<rparr>"
  have "m' = (case jm_get m (pair_key r) of None \<Rightarrow> jm_set (pair_key r) ?p m
       | Some q \<Rightarrow> if sp_observedAtEpoch q < e then jm_set (pair_key r) ?p m else m)"
    using step t by (simp add: latest_pair_step_def result_simps Let_def key)
  then show thesis using that [of e ?p] t by (simp add: observed_def)
qed

lemma latest_pairs_step:
  assumes inv: "latest_pairs rates m" and step: "latest_pair_step m r = Inr m'"
  shows "latest_pairs (rates @ [r]) m'"
proof -
  obtain e p where e: "observed r e" and p: "sp_from p = er_currencyCodeFrom r" "sp_to p = er_currencyCodeTo r"
      "sp_observedAtEpoch p = e"
    and m': "m' = (case jm_get m (pair_key r) of None \<Rightarrow> jm_set (pair_key r) p m
       | Some q \<Rightarrow> if sp_observedAtEpoch q < e then jm_set (pair_key r) p m else m)"
    using latest_pair_step_at [OF step] by blast
  have ok: "jm_ok m'" using inv unfolding m' latest_pairs_def by (auto simp: jm.ok_set split: option.splits)
  have seen: "\<forall>q \<in> set (rates @ [r]). \<exists>e. observed q e" using inv e by (auto simp: latest_pairs_def)
  have here: "latest_at (rates @ [r]) m' (pair_key r)"
  proof (cases "jm_get m (pair_key r)")
    case None
    then have "\<forall>q \<in> set rates. pair_key q \<noteq> pair_key r"
      using inv unfolding latest_pairs_def latest_at_def by (auto dest!: spec [of _ "pair_key r"])
    then have "latest_of (rates @ [r]) (pair_key r) p" by (intro latest_of_newer) (use e p in auto)
    then show ?thesis by (simp add: latest_at_def m' None jm.get_set)
  next
    case (Some q)
    then have old: "latest_of rates (pair_key r) q"
      using inv unfolding latest_pairs_def latest_at_def by (auto dest!: spec [of _ "pair_key r"])
    show ?thesis
    proof (cases "sp_observedAtEpoch q < e")
      case True
      have "latest_of (rates @ [r]) (pair_key r) p"
        using old True by (intro latest_of_newer) (use e p in \<open>auto simp: latest_of_def intro: order.trans [OF _ less_imp_le]\<close>)
      then show ?thesis using True by (simp add: latest_at_def m' Some jm.get_set)
    next
      case False
      then show ?thesis using latest_of_later(2) [OF old e] by (simp add: latest_at_def m' Some)
    qed
  qed
  have "latest_at (rates @ [r]) m' k" if "k \<noteq> pair_key r" for k
  proof -
    have same: "jm_get m' k = jm_get m k" using that by (auto simp: m' jm.get_set split: option.splits)
    have "latest_at rates m k" using inv by (simp add: latest_pairs_def)
    then show ?thesis
      using that by (auto simp: latest_at_def same intro: latest_of_later(1) split: option.splits)
  qed
  then show ?thesis using here ok seen by (metis latest_pairs_def)
qed

lemma latest_pairs_fold: "fold_result latest_pair_step [] rates = Inr m \<Longrightarrow> latest_pairs rates m"
proof (induction rates arbitrary: m rule: rev_induct)
  case Nil
  then show ?case by (simp add: latest_pairs_def latest_at_def jm.get_emp jm.ok_emp)
next
  case (snoc r rates)
  then show ?case using latest_pairs_step by (auto simp: fold_result_append result_simps)
qed

lemma pair_key_inject:
  assumes "CHR ''-'' \<notin> set (er_currencyCodeFrom r)" "CHR ''-'' \<notin> set (er_currencyCodeFrom q)"
  shows "pair_key r = pair_key q \<longleftrightarrow>
    er_currencyCodeFrom r = er_currencyCodeFrom q \<and> er_currencyCodeTo r = er_currencyCodeTo q"
proof
  assume eq: "pair_key r = pair_key q"
  have "takeWhile (\<lambda>c. c \<noteq> CHR ''-'') (pair_key x) = er_currencyCodeFrom x" if "CHR ''-'' \<notin> set (er_currencyCodeFrom x)" for x
    unfolding pair_key_def using that by (subst takeWhile_append2) auto
  from this [OF assms(1)] this [OF assms(2)] have "er_currencyCodeFrom r = er_currencyCodeFrom q" unfolding eq by simp
  then show "er_currencyCodeFrom r = er_currencyCodeFrom q \<and> er_currencyCodeTo r = er_currencyCodeTo q"
    using eq by (simp add: pair_key_def)
qed (simp add: pair_key_def)

text \<open>The newest observation of a pair of currencies.\<close>

definition newest_observation :: "pb_exchange_rate list \<Rightarrow> stale_pair \<Rightarrow> bool" where
  "newest_observation rates p \<longleftrightarrow>
     (\<exists>r \<in> set rates. er_currencyCodeFrom r = sp_from p \<and> er_currencyCodeTo r = sp_to p \<and>
        observed r (sp_observedAtEpoch p)) \<and>
     (\<forall>r \<in> set rates. \<forall>e. er_currencyCodeFrom r = sp_from p \<and> er_currencyCodeTo r = sp_to p \<and> observed r e \<longrightarrow>
        e \<le> sp_observedAtEpoch p)"

definition entry_key :: "stale_pair \<Rightarrow> string" where
  "entry_key p = sp_from p @ ''-'' @ sp_to p"

lemma latest_of_entry:
  assumes "latest_of rates k p" and "\<forall>r \<in> set rates. CHR ''-'' \<notin> set (er_currencyCodeFrom r)"
  shows "k = entry_key p" "newest_observation rates p"
proof -
  obtain r where r: "r \<in> set rates" "pair_key r = k" "observed r (sp_observedAtEpoch p)"
      "sp_from p = er_currencyCodeFrom r" "sp_to p = er_currencyCodeTo r"
    using assms(1) unfolding latest_of_def by blast
  show "k = entry_key p" using r by (simp add: entry_key_def pair_key_def)
  have "\<forall>q \<in> set rates. \<forall>e. er_currencyCodeFrom q = sp_from p \<and> er_currencyCodeTo q = sp_to p \<and> observed q e \<longrightarrow>
      e \<le> sp_observedAtEpoch p"
    using assms(1) r(2,4,5) unfolding latest_of_def pair_key_def by metis
  then show "newest_observation rates p" using r unfolding newest_observation_def by metis
qed

lemma newest_is_latest:
  assumes "latest_pairs rates m" "newest_observation rates p"
    and dash: "\<forall>r \<in> set rates. CHR ''-'' \<notin> set (er_currencyCodeFrom r)"
  shows "jm_get m (entry_key p) = Some p"
proof -
  obtain r where r: "r \<in> set rates" "er_currencyCodeFrom r = sp_from p" "er_currencyCodeTo r = sp_to p"
      "observed r (sp_observedAtEpoch p)"
    using assms(2) unfolding newest_observation_def by blast
  have key: "pair_key r = entry_key p" using r by (simp add: pair_key_def entry_key_def)
  have "latest_at rates m (entry_key p)" using assms(1) by (simp add: latest_pairs_def)
  then obtain q where q: "jm_get m (entry_key p) = Some q" and of: "latest_of rates (entry_key p) q"
    using r(1) key unfolding latest_at_def by (auto split: option.splits)
  obtain w where w: "w \<in> set rates" "pair_key w = entry_key p" "observed w (sp_observedAtEpoch q)"
      "sp_from q = er_currencyCodeFrom w" "sp_to q = er_currencyCodeTo w"
    using of unfolding latest_of_def by blast
  have same: "er_currencyCodeFrom w = sp_from p" "er_currencyCodeTo w = sp_to p"
    using pair_key_inject [of w r] dash w(1,2) r(1-3) key by auto
  have "sp_observedAtEpoch p \<le> sp_observedAtEpoch q"
    using of r(1,4) key unfolding latest_of_def by blast
  moreover have "sp_observedAtEpoch q \<le> sp_observedAtEpoch p"
    using assms(2) w(1,3) same unfolding newest_observation_def by blast
  ultimately have "q = p" using w(4,5) same by (intro stale_pair.equality) simp_all
  then show ?thesis using q by simp
qed


definition days_between :: "rat \<Rightarrow> rat \<Rightarrow> int" where
  "days_between later earlier = \<lfloor>(later - earlier) / 86400000\<rfloor>"

definition usd_gbp_rates :: "pb_exchange_rate list" where
  "usd_gbp_rates =
     [\<lparr>er_currencyCodeFrom = ''USD'', er_currencyCodeTo = ''GBP'',
        er_rateTimestamp = Some \<lparr>ts_seconds = 86400, ts_nanos = 0\<rparr>, er_rateNanos = 800000000\<rparr>,
      \<lparr>er_currencyCodeFrom = ''GBP'', er_currencyCodeTo = ''USD'',
        er_rateTimestamp = Some \<lparr>ts_seconds = 0, ts_nanos = 0\<rparr>, er_rateNanos = 1250000000\<rparr>,
      \<lparr>er_currencyCodeFrom = ''USD'', er_currencyCodeTo = ''GBP'',
        er_rateTimestamp = Some \<lparr>ts_seconds = 0, ts_nanos = 0\<rparr>, er_rateNanos = 700000000\<rparr>]"


text \<open>
  Quotes of stocks are told apart by their ticker only, while the quotes themselves are kept by exchange and
  ticker: a quote of another exchange's stock with the same ticker hides one that is a month old.
\<close>

definition quotes_of_two_exchanges :: "pb_stock_quote list" where
  "quotes_of_two_exchanges =
     [\<lparr>sq_stockExchange = ''LON'', sq_stockTicker = ''ABC'',
        sq_quoteTimestamp = Some \<lparr>ts_seconds = 86400, ts_nanos = 0\<rparr>, sq_pricePerShareNanos = 1\<rparr>,
      \<lparr>sq_stockExchange = ''NYSE'', sq_stockTicker = ''ABC'',
        sq_quoteTimestamp = Some \<lparr>ts_seconds = 30 * 86400, ts_nanos = 0\<rparr>, sq_pricePerShareNanos = 2\<rparr>]"

lemma same_ticker_hides_stale_quote:
  "findStaleStockQuotes days_between quotes_of_two_exchanges (31 * 86400000) = Inr [] \<and>
   findStaleStockQuotes days_between (take 1 quotes_of_two_exchanges) (31 * 86400000) = Inr [(''ABC'', 86400000)]"
  by code_simp

section \<open>Notes on the new balance\<close>

text \<open>
  What a field's value is: the number the form started with or an effect wrote (None is NaN), or the text
  typed into it, which the schemas read as a number when the form is submitted. \<open>parse\<close> is \<open>Number\<close> of a
  text, None where that is not finite.
\<close>

datatype field_value = NumberValue "rat option" | TextValue string

definition MoneyInput :: "string \<Rightarrow> field_value" where
  "MoneyInput typed = TextValue (map (\<lambda>c. if c = CHR '','' then CHR ''.'' else c) typed)"

fun negated :: "(string \<Rightarrow> rat option) \<Rightarrow> field_value \<Rightarrow> field_value" where
  "negated parse (NumberValue a) = NumberValue (map_option uminus a)"
| "negated parse (TextValue s) = NumberValue (map_option uminus (parse s))"

text \<open>\<open>Number.isFinite\<close>, with the number: unlike \<open>isNaN\<close> it does not read texts.\<close>

fun finite_number :: "field_value \<Rightarrow> rat option" where
  "finite_number (NumberValue a) = a"
| "finite_number (TextValue s) = None"

definition NewBalanceNote ::
  "bank_account list \<Rightarrow> account_balances_snapshot \<Rightarrow> (int, account_fetch_metadata) js_map \<Rightarrow>
     field_value \<Rightarrow> int \<Rightarrow> transaction option \<Rightarrow> (amount_with_unit \<times> amount_with_unit option) option result" where
  "NewBalanceNote bankAccounts balances metadata amount accountId transaction =
     (case finite_number amount of
        None \<Rightarrow> Inr None
      | Some a \<Rightarrow>
        (case find (\<lambda>acc. acc_id acc = accountId) bankAccounts of
           None \<Rightarrow> Inr None
         | Some account \<Rightarrow>
           bind_result (snapshot_of balances account) (\<lambda>localBalance.
             Inr (Some (newLocalBalance localBalance a accountId transaction,
                        map_option (\<lambda>n. mk_awu n (awu_unit localBalance))
                          (Option.bind (jm_get metadata accountId) afm_balanceNanos))))))"

text \<open>The text of a note: the balance and, where the bank tells another one, by how much and which way.\<close>

definition AccountBalanceText ::
  "amount_with_unit \<Rightarrow> amount_with_unit option \<Rightarrow> (amount_with_unit \<times> (bool \<times> amount_with_unit) option) result" where
  "AccountBalanceText localBalance remoteBalance =
     (case remoteBalance of
        None \<Rightarrow> Inr (localBalance, None)
      | Some remote \<Rightarrow>
        bind_result (awu_subtract localBalance remote) (\<lambda>delta.
          Inr (localBalance, if isZero (awu_amount delta) then None
            else Some (isNegative (awu_amount delta), awu_abs delta))))"

definition PaidSelfNewBalanceNote ::
  "bank_account list \<Rightarrow> account_balances_snapshot \<Rightarrow> (int, account_fetch_metadata) js_map \<Rightarrow>
     (string \<Rightarrow> rat option) \<Rightarrow> expense_form \<Rightarrow> field_value \<Rightarrow> transaction option \<Rightarrow>
     (amount_with_unit \<times> amount_with_unit option) option result" where
  "PaidSelfNewBalanceNote bankAccounts balances metadata parse e amount transaction =
     (if \<not> e_paidSelf e then Inr None
      else case ef_accountId e of
             None \<Rightarrow> Inr None
           | Some accountId \<Rightarrow>
             NewBalanceNote bankAccounts balances metadata (negated parse amount) accountId transaction)"

definition NewBalanceNoteWrapper ::
  "bank_account list \<Rightarrow> account_balances_snapshot \<Rightarrow> (int, account_fetch_metadata) js_map \<Rightarrow>
     income_form \<Rightarrow> field_value \<Rightarrow> transaction option \<Rightarrow> (amount_with_unit \<times> amount_with_unit option) option result" where
  "NewBalanceNoteWrapper bankAccounts balances metadata i amount transaction =
     NewBalanceNote bankAccounts balances metadata amount (if_accountId i) transaction"

definition NewBalancesNote ::
  "bank_account list \<Rightarrow> account_balances_snapshot \<Rightarrow> (int, account_fetch_metadata) js_map \<Rightarrow>
     (string \<Rightarrow> rat option) \<Rightarrow> transfer_form \<Rightarrow> field_value \<Rightarrow> field_value \<Rightarrow> transaction option \<Rightarrow>
     ((amount_with_unit \<times> amount_with_unit option) option \<times> (amount_with_unit \<times> amount_with_unit option) option) result" where
  "NewBalancesNote bankAccounts balances metadata parse t sent received transaction =
     bind_result (NewBalanceNote bankAccounts balances metadata (negated parse sent) (xf_fromAccountId t) transaction) (\<lambda>source.
     bind_result (NewBalanceNote bankAccounts balances metadata received (xf_toAccountId t) transaction) (\<lambda>target.
       Inr (source, target)))"

text \<open>A note is right: editing a transaction, the old amount is taken back before the new one counts.\<close>

lemma NewBalanceNote_right:
  assumes "NewBalanceNote accounts balances metadata amount accountId (Some t) = Inr (Some (balance, remote))"
    and "t \<in> set txs" "counts_at asOf t" "\<not> within_account t" "\<not> isOpeningBalance t"
    and "am_getOrZero 0 (snap_nanos balances) accountId = balance_at txs asOf accountId"
  shows "\<exists>a. finite_number amount = Some a \<and>
    awu_nanos balance = balance_at (remove1 t txs) asOf accountId + dollarToNanos a"
proof -
  obtain a account where a: "finite_number amount = Some a"
    and found: "find (\<lambda>acc. acc_id acc = accountId) accounts = Some account"
    using assms(1) by (auto simp: NewBalanceNote_def split: option.splits)
  then have i: "acc_id account = accountId" by (auto simp: find_Some_iff)
  obtain b where b: "snapshot_of balances account = Inr b" and new: "balance = newLocalBalance b a accountId (Some t)"
    using assms(1) a found by (auto simp: NewBalanceNote_def result_simps)
  have "awu_nanos b = balance_at txs asOf accountId"
    using b i assms(6) by (auto simp: snapshot_of_def result_simps mk_awu_def awu_nanos_def)
  then show ?thesis using newLocalBalance_lemma [OF assms(2-5)] a new by blast
qed

text \<open>
  The note of an income, and of the account a transfer goes to, disappears as soon as an amount is typed:
  what is typed is a text, and \<open>Number.isFinite\<close> is false of texts.  An expense's amount is negated first,
  which makes it a number.
\<close>

lemma typed_amount_hides_note:
  "NewBalanceNoteWrapper bankAccounts balances metadata i (MoneyInput typed) transaction = Inr None"
  "NewBalancesNote bankAccounts balances metadata parse t sent (MoneyInput typed) transaction = Inr (source, target)
   \<Longrightarrow> target = None"
  by (auto simp: NewBalanceNoteWrapper_def NewBalancesNote_def NewBalanceNote_def MoneyInput_def result_simps)

lemma typed_expense_amount_noted:
  assumes "e_paidSelf e" "ef_accountId e = Some i" "parse typed = Some a" "CHR '','' \<notin> set typed"
  shows "PaidSelfNewBalanceNote bankAccounts balances metadata parse e (MoneyInput typed) transaction =
    NewBalanceNote bankAccounts balances metadata (NumberValue (Some (- a))) i transaction"
proof -
  have "map (\<lambda>c. if c = CHR '','' then CHR ''.'' else c) typed = typed"
    using assms(4) by (intro map_idI) auto
  then show ?thesis using assms(1-3) by (simp add: PaidSelfNewBalanceNote_def MoneyInput_def)
qed

end
