(* ===== verification/Wire.thy ===== *)
theory Wire
  imports Util
begin

text \<open>
  The wire format of the generated protobuf messages: what the methods create, internalBinaryRead and
  internalBinaryWrite of lib/grpc/gen are made of.  Reader, writer and the handling of unknown fields belong
  to the protobuf-ts runtime, which is not under src/: a record of functions that is a parameter of every
  codec, with the documented laws \<open>runtime_ok\<close> (what was written is read back).  None is an exception of the
  runtime, or a read that does not end.

  A message is proved to survive the wire by the rules \<open>conveys_steps\<close>, one per kind of field.
\<close>

section \<open>The runtime\<close>

datatype wire_type = Varint | LengthDelimited

text \<open>
  The reader is what is left of the input: its position is the length of what was read.  \<open>join\<close> closes a
  fork: it puts the length of the forked bytes in front of them.
\<close>

type_synonym ('b, 'a) rd = "'b list \<Rightarrow> ('a \<times> 'b list) option"

record 'b wire_runtime =
  rt_tag :: "nat \<Rightarrow> wire_type \<Rightarrow> 'b list option"
  rt_int32 :: "int \<Rightarrow> 'b list option"
  rt_int64 :: "int \<Rightarrow> 'b list option"
  rt_bool :: "bool \<Rightarrow> 'b list option"
  rt_string :: "string \<Rightarrow> 'b list option"
  rt_join :: "'b list \<Rightarrow> 'b list option"
  rd_tag :: "('b, nat \<times> wire_type) rd"
  rd_int32 :: "('b, int) rd"
  rd_uint32 :: "('b, int) rd"
  rd_int64 :: "('b, int) rd"
  rd_bool :: "('b, bool) rd"
  rd_string :: "('b, string) rd"
  rd_skip :: "wire_type \<Rightarrow> ('b, unit) rd"
  opt_throw :: bool

definition reads_back :: "('a \<Rightarrow> 'b list option) \<Rightarrow> ('b, 'a) rd \<Rightarrow> bool" where
  "reads_back w r \<longleftrightarrow> (\<forall>x bs rest. w x = Some bs \<longrightarrow> r (bs @ rest) = Some (x, rest))"

definition runtime_ok :: "'b wire_runtime \<Rightarrow> bool" where
  "runtime_ok rt \<longleftrightarrow>
     reads_back (\<lambda>(no, wt). rt_tag rt no wt) (rd_tag rt) \<and> (\<forall>no wt. rt_tag rt no wt \<noteq> Some []) \<and>
     reads_back (rt_int32 rt) (rd_int32 rt) \<and> (\<forall>x. rt_int32 rt x \<noteq> Some []) \<and>
     reads_back (rt_int64 rt) (rd_int64 rt) \<and> reads_back (rt_bool rt) (rd_bool rt) \<and>
     reads_back (rt_string rt) (rd_string rt) \<and>
     (\<forall>bs joined rest. rt_join rt bs = Some joined \<longrightarrow>
        rd_uint32 rt (joined @ rest) = Some (int (length bs), bs @ rest) \<and>
        rd_int32 rt (joined @ rest) = Some (int (length bs), bs @ rest))"

section \<open>Writing\<close>

text \<open>The statements of internalBinaryWrite, one after the other.\<close>

fun cat :: "'b list option list \<Rightarrow> 'b list option" where
  "cat [] = Some []"
| "cat (a # as) = Option.bind a (\<lambda>x. map_option ((@) x) (cat as))"

definition put :: "'b wire_runtime \<Rightarrow> nat \<Rightarrow> wire_type \<Rightarrow> 'b list option \<Rightarrow> 'b list option" where
  "put rt no wt v = cat [rt_tag rt no wt, v]"

definition put_int32 :: "'b wire_runtime \<Rightarrow> nat \<Rightarrow> int \<Rightarrow> 'b list option" where
  "put_int32 rt no v = (if v \<noteq> 0 then put rt no Varint (rt_int32 rt v) else Some [])"

definition put_int64 :: "'b wire_runtime \<Rightarrow> nat \<Rightarrow> int \<Rightarrow> 'b list option" where
  "put_int64 rt no v = (if v \<noteq> 0 then put rt no Varint (rt_int64 rt v) else Some [])"

definition put_bool :: "'b wire_runtime \<Rightarrow> nat \<Rightarrow> bool \<Rightarrow> 'b list option" where
  "put_bool rt no v = (if v \<noteq> False then put rt no Varint (rt_bool rt v) else Some [])"

definition put_string :: "'b wire_runtime \<Rightarrow> nat \<Rightarrow> string \<Rightarrow> 'b list option" where
  "put_string rt no v = (if v \<noteq> [] then put rt no LengthDelimited (rt_string rt v) else Some [])"

definition put_opt :: "('a \<Rightarrow> 'b list option) \<Rightarrow> 'a option \<Rightarrow> 'b list option" where
  "put_opt w v = (case v of None \<Rightarrow> Some [] | Some x \<Rightarrow> w x)"

definition put_opt_int32 :: "'b wire_runtime \<Rightarrow> nat \<Rightarrow> int option \<Rightarrow> 'b list option" where
  "put_opt_int32 rt no v = put_opt (\<lambda>x. put rt no Varint (rt_int32 rt x)) v"

definition put_opt_int64 :: "'b wire_runtime \<Rightarrow> nat \<Rightarrow> int option \<Rightarrow> 'b list option" where
  "put_opt_int64 rt no v = put_opt (\<lambda>x. put rt no Varint (rt_int64 rt x)) v"

definition put_opt_string :: "'b wire_runtime \<Rightarrow> nat \<Rightarrow> string option \<Rightarrow> 'b list option" where
  "put_opt_string rt no v = put_opt (\<lambda>x. put rt no LengthDelimited (rt_string rt x)) v"

definition put_message :: "'b wire_runtime \<Rightarrow> nat \<Rightarrow> ('m \<Rightarrow> 'b list option) \<Rightarrow> 'm option \<Rightarrow> 'b list option" where
  "put_message rt no w v = put_opt (\<lambda>x. put rt no LengthDelimited (Option.bind (w x) (rt_join rt))) v"

definition put_messages :: "'b wire_runtime \<Rightarrow> nat \<Rightarrow> ('m \<Rightarrow> 'b list option) \<Rightarrow> 'm list \<Rightarrow> 'b list option" where
  "put_messages rt no w vs = cat (map (\<lambda>x. put rt no LengthDelimited (Option.bind (w x) (rt_join rt))) vs)"

definition put_strings :: "'b wire_runtime \<Rightarrow> nat \<Rightarrow> string list \<Rightarrow> 'b list option" where
  "put_strings rt no vs = cat (map (\<lambda>x. put rt no LengthDelimited (rt_string rt x)) vs)"

definition put_packed_int32 :: "'b wire_runtime \<Rightarrow> nat \<Rightarrow> int list \<Rightarrow> 'b list option" where
  "put_packed_int32 rt no vs =
     (if vs \<noteq> [] then put rt no LengthDelimited (Option.bind (cat (map (rt_int32 rt) vs)) (rt_join rt)) else Some [])"

section \<open>Reading\<close>

text \<open>The cases of the switch in internalBinaryRead.\<close>

type_synonym ('b, 'm) field_reader = "wire_type \<Rightarrow> 'm \<Rightarrow> ('b, 'm) rd"

definition get :: "('b, 'a) rd \<Rightarrow> ('a \<Rightarrow> 'm \<Rightarrow> 'm) \<Rightarrow> ('b, 'm) field_reader" where
  "get rd assign wt m r = map_option (\<lambda>(x, rest). (assign x m, rest)) (rd r)"

definition get_opt :: "('b, 'a) rd \<Rightarrow> ('a option \<Rightarrow> 'm \<Rightarrow> 'm) \<Rightarrow> ('b, 'm) field_reader" where
  "get_opt rd assign = get rd (\<lambda>x. assign (Some x))"

definition get_message ::
  "'b wire_runtime \<Rightarrow> 't \<Rightarrow> (int \<Rightarrow> 't \<Rightarrow> ('b, 't) rd) \<Rightarrow> ('m \<Rightarrow> 't option) \<Rightarrow> ('t option \<Rightarrow> 'm \<Rightarrow> 'm) \<Rightarrow>
     ('b, 'm) field_reader" where
  "get_message rt create rd field assign wt m r =
     Option.bind (rd_uint32 rt r) (\<lambda>(len, r').
       get_opt (rd len (case field m of None \<Rightarrow> create | Some t \<Rightarrow> t)) assign wt m r')"

definition get_messages ::
  "'b wire_runtime \<Rightarrow> 't \<Rightarrow> (int \<Rightarrow> 't \<Rightarrow> ('b, 't) rd) \<Rightarrow> ('m \<Rightarrow> 't list) \<Rightarrow> ('t list \<Rightarrow> 'm \<Rightarrow> 'm) \<Rightarrow>
     ('b, 'm) field_reader" where
  "get_messages rt create rd field assign wt m r =
     Option.bind (rd_uint32 rt r) (\<lambda>(len, r').
       get (rd len create) (\<lambda>x m. assign (field m @ [x]) m) wt m r')"

definition get_strings ::
  "'b wire_runtime \<Rightarrow> ('m \<Rightarrow> string list) \<Rightarrow> (string list \<Rightarrow> 'm \<Rightarrow> 'm) \<Rightarrow> ('b, 'm) field_reader" where
  "get_strings rt field assign = get (rd_string rt) (\<lambda>x m. assign (field m @ [x]) m)"

partial_function (option) read_packed :: "('b, int) rd \<Rightarrow> int \<Rightarrow> int list \<Rightarrow> ('b, int list) rd" where
  "read_packed rd stop xs r =
     (if int (length r) > stop
      then Option.bind (rd r) (\<lambda>(x, r'). read_packed rd stop (xs @ [x]) r')
      else Some (xs, r))"

definition get_packed_int32 ::
  "'b wire_runtime \<Rightarrow> ('m \<Rightarrow> int list) \<Rightarrow> (int list \<Rightarrow> 'm \<Rightarrow> 'm) \<Rightarrow> ('b, 'm) field_reader" where
  "get_packed_int32 rt field assign wt m r =
     (if wt = LengthDelimited
      then Option.bind (rd_int32 rt r) (\<lambda>(len, r').
             get (read_packed (rd_int32 rt) (int (length r') - len) (field m)) assign wt m r')
      else get (rd_int32 rt) (\<lambda>x m. assign (field m @ [x]) m) wt m r)"

text \<open>A field of a oneof: reading it makes it the one that is set.\<close>

definition one_of :: "('u option \<Rightarrow> 'm \<Rightarrow> 'm) \<Rightarrow> ('a \<Rightarrow> 'u) \<Rightarrow> 'a option \<Rightarrow> 'm \<Rightarrow> 'm" where
  "one_of assign con v m = (case v of None \<Rightarrow> m | Some x \<Rightarrow> assign (Some (con x)) m)"

text \<open>
  The default case: an unknown field is refused or skipped.  (What the runtime keeps of it under a symbol
  of its own is not part of the message.)
\<close>

definition get_unknown :: "'b wire_runtime \<Rightarrow> ('b, 'm) field_reader" where
  "get_unknown rt wt m r = (if opt_throw rt then None else get (rd_skip rt wt) (\<lambda>_ m. m) wt m r)"

text \<open>The loop of internalBinaryRead over the fields, until the message's length is used up.\<close>

partial_function (option) read_fields ::
  "'b wire_runtime \<Rightarrow> (nat \<times> ('b, 'm) field_reader) list \<Rightarrow> int \<Rightarrow> 'm \<Rightarrow> ('b, 'm) rd" where
  "read_fields rt cases stop m r =
     (if int (length r) > stop
      then Option.bind (rd_tag rt r) (\<lambda>((fieldNo, wireType), r').
           Option.bind ((case map_of cases fieldNo of None \<Rightarrow> get_unknown rt | Some f \<Rightarrow> f) wireType m r') (\<lambda>(m', r'').
             read_fields rt cases stop m' r''))
      else Some (m, r))"

definition read_message ::
  "'b wire_runtime \<Rightarrow> (nat \<times> ('b, 'm) field_reader) list \<Rightarrow> int \<Rightarrow> 'm \<Rightarrow> ('b, 'm) rd" where
  "read_message rt cases len target r = read_fields rt cases (int (length r) - len) target r"

section \<open>What was written is read back\<close>

definition codec :: "'m \<Rightarrow> (int \<Rightarrow> 'm \<Rightarrow> ('b, 'm) rd) \<Rightarrow> ('m \<Rightarrow> 'b list option) \<Rightarrow> bool" where
  "codec create rd w \<longleftrightarrow>
     (\<forall>m bs rest. w m = Some bs \<longrightarrow> rd (int (length bs)) create (bs @ rest) = Some (m, rest))"

text \<open>Reading what \<open>w\<close> wrote takes the message under construction from \<open>m\<close> to \<open>m'\<close>.\<close>

definition conveys ::
  "'b wire_runtime \<Rightarrow> (nat \<times> ('b, 'm) field_reader) list \<Rightarrow> 'b list option \<Rightarrow> 'm \<Rightarrow> 'm \<Rightarrow> bool" where
  "conveys rt cases w m m' \<longleftrightarrow>
     (\<forall>bs stop rest. w = Some bs \<longrightarrow> stop \<le> int (length rest) \<longrightarrow>
        read_fields rt cases stop m (bs @ rest) = read_fields rt cases stop m' rest)"

lemma conveys_nothing: "conveys rt cases (Some []) m m"
  by (simp add: conveys_def)

lemma cat_Some: "cat (a # as) = Some bs \<longleftrightarrow> (\<exists>x y. a = Some x \<and> cat as = Some y \<and> bs = x @ y)"
  by (cases a; cases "cat as") auto

declare cat.simps [simp del]

lemma conveysI:
  assumes "\<And>bs stop rest. w = Some bs \<Longrightarrow> stop \<le> int (length rest) \<Longrightarrow>
    read_fields rt cases stop m (bs @ rest) = read_fields rt cases stop m' rest"
  shows "conveys rt cases w m m'"
  using assms unfolding conveys_def by blast

lemma conveysD:
  "conveys rt cases w m m' \<Longrightarrow> w = Some bs \<Longrightarrow> stop \<le> int (length rest) \<Longrightarrow>
   read_fields rt cases stop m (bs @ rest) = read_fields rt cases stop m' rest"
  unfolding conveys_def by blast

lemma conveys_Cons:
  assumes a: "conveys rt cases a m m1" and as: "conveys rt cases (cat as) m1 m2"
  shows "conveys rt cases (cat (a # as)) m m2"
proof (rule conveysI)
  fix bs stop and rest :: "'a list"
  assume "cat (a # as) = Some bs" and stop: "stop \<le> int (length rest)"
  then obtain x y where x: "a = Some x" and y: "cat as = Some y" and bs: "bs = x @ y" unfolding cat_Some by blast
  have "read_fields rt cases stop m (x @ y @ rest) = read_fields rt cases stop m1 (y @ rest)"
    by (rule conveysD [OF a x]) (use stop in simp)
  also have "\<dots> = read_fields rt cases stop m2 rest" by (rule conveysD [OF as y stop])
  finally show "read_fields rt cases stop m (bs @ rest) = read_fields rt cases stop m2 rest" by (simp add: bs)
qed

lemma conveys_put:
  assumes ok: "runtime_ok rt" and field: "map_of cases no = Some f"
    and reads: "\<And>bs rest. v = Some bs \<Longrightarrow> f wt m (bs @ rest) = Some (m', rest)"
  shows "conveys rt cases (put rt no wt v) m m'"
proof (rule conveysI)
  fix bs stop and rest :: "'a list"
  assume "put rt no wt v = Some bs" and stop: "stop \<le> int (length rest)"
  then obtain t x where t: "rt_tag rt no wt = Some t" and x: "v = Some x" and bs: "bs = t @ x"
    by (auto simp: put_def cat_Some cat.simps(1))
  have tag: "rd_tag rt (t @ x @ rest) = Some ((no, wt), x @ rest)" and "t \<noteq> []"
    using ok t by (auto simp: runtime_ok_def reads_back_def)
  then have more: "stop < int (length (t @ x @ rest))" using stop by (cases t) auto
  show "read_fields rt cases stop m (bs @ rest) = read_fields rt cases stop m' rest"
    using stop field reads [OF x] tag more by (subst read_fields.simps) (simp add: bs)
qed
lemma codec_by_fields:
  fixes rt :: "'b wire_runtime"
  assumes "\<And>m. conveys rt cases (w m) create m"
  shows "codec create (read_message rt cases) w"
  unfolding codec_def read_message_def
proof (intro allI impI)
  fix m and bs rest :: "'b list"
  assume w: "w m = Some bs"
  have "read_fields rt cases (int (length rest)) create (bs @ rest) = read_fields rt cases (int (length rest)) m rest"
    using conveysD [OF assms w] by simp
  also have "\<dots> = Some (m, rest)" by (subst read_fields.simps) simp
  finally show "read_fields rt cases (int (length (bs @ rest)) - int (length bs)) create (bs @ rest) = Some (m, rest)"
    by simp
qed

lemma conveys_scalar:
  assumes "runtime_ok rt" "reads_back wr rd" "map_of cases no = Some (get rd assign)"
  shows "conveys rt cases (put rt no wt (wr v)) m (assign v m)"
  using assms(2) by (intro conveys_put [OF assms(1,3)]) (auto simp: get_def reads_back_def)

lemma conveys_scalar_opt:
  assumes "runtime_ok rt" "reads_back wr rd" "map_of cases no = Some (get_opt rd assign)" "v = None \<Longrightarrow> assign v m = m"
  shows "conveys rt cases (put_opt (\<lambda>x. put rt no wt (wr x)) v) m (assign v m)"
proof (cases v)
  case None
  then show ?thesis using assms(4) by (simp add: put_opt_def conveys_nothing)
next
  case (Some x)
  have "conveys rt cases (put rt no wt (wr x)) m (assign (Some x) m)"
    using conveys_scalar [OF assms(1,2)] assms(3) by (simp add: get_opt_def)
  then show ?thesis by (simp add: put_opt_def Some)
qed

lemma reads_submessage:
  assumes "runtime_ok rt" "codec create rd w" "Option.bind (w x) (rt_join rt) = Some bs"
  shows "\<exists>len r'. rd_uint32 rt (bs @ rest) = Some (len, r') \<and> rd len create r' = Some (x, rest)"
proof -
  obtain y where y: "w x = Some y" "rt_join rt y = Some bs" using assms(3) by (auto simp: bind_eq_Some_conv)
  have "rd_uint32 rt (bs @ rest) = Some (int (length y), y @ rest)" using assms(1) y(2) by (auto simp: runtime_ok_def)
  moreover have "rd (int (length y)) create (y @ rest) = Some (x, rest)" using assms(2) y(1) by (auto simp: codec_def)
  ultimately show ?thesis by blast
qed

lemma runtime_scalars:
  assumes "runtime_ok rt"
  shows "reads_back (rt_int32 rt) (rd_int32 rt)" "reads_back (rt_int64 rt) (rd_int64 rt)"
    "reads_back (rt_bool rt) (rd_bool rt)" "reads_back (rt_string rt) (rd_string rt)"
  using assms by (simp_all add: runtime_ok_def)

lemma step_int32:
  assumes "runtime_ok rt" "map_of cases no = Some (get (rd_int32 rt) assign)" "v = 0 \<Longrightarrow> assign v m = m"
    and "conveys rt cases (cat ws) (assign v m) m'"
  shows "conveys rt cases (cat (put_int32 rt no v # ws)) m m'"
  using conveys_scalar [OF assms(1) runtime_scalars(1) [OF assms(1)] assms(2)] assms(3)
  by (intro conveys_Cons [OF _ assms(4)]) (auto simp: put_int32_def conveys_nothing)

lemma step_int64:
  assumes "runtime_ok rt" "map_of cases no = Some (get (rd_int64 rt) assign)" "v = 0 \<Longrightarrow> assign v m = m"
    and "conveys rt cases (cat ws) (assign v m) m'"
  shows "conveys rt cases (cat (put_int64 rt no v # ws)) m m'"
  using conveys_scalar [OF assms(1) runtime_scalars(2) [OF assms(1)] assms(2)] assms(3)
  by (intro conveys_Cons [OF _ assms(4)]) (auto simp: put_int64_def conveys_nothing)

lemma step_bool:
  assumes "runtime_ok rt" "map_of cases no = Some (get (rd_bool rt) assign)" "v = False \<Longrightarrow> assign v m = m"
    and "conveys rt cases (cat ws) (assign v m) m'"
  shows "conveys rt cases (cat (put_bool rt no v # ws)) m m'"
proof (rule conveys_Cons [OF _ assms(4)])
  show "conveys rt cases (put_bool rt no v) m (assign v m)"
    using conveys_scalar [OF assms(1) runtime_scalars(3) [OF assms(1)] assms(2), of _ v m] assms(3)
    by (cases v) (simp_all add: put_bool_def conveys_nothing)
qed

lemma step_string:
  assumes "runtime_ok rt" "map_of cases no = Some (get (rd_string rt) assign)" "v = [] \<Longrightarrow> assign v m = m"
    and "conveys rt cases (cat ws) (assign v m) m'"
  shows "conveys rt cases (cat (put_string rt no v # ws)) m m'"
  using conveys_scalar [OF assms(1) runtime_scalars(4) [OF assms(1)] assms(2)] assms(3)
  by (intro conveys_Cons [OF _ assms(4)]) (auto simp: put_string_def conveys_nothing)

lemma step_opt_int32:
  assumes "runtime_ok rt" "map_of cases no = Some (get_opt (rd_int32 rt) assign)" "v = None \<Longrightarrow> assign v m = m"
    and "conveys rt cases (cat ws) (assign v m) m'"
  shows "conveys rt cases (cat (put_opt_int32 rt no v # ws)) m m'"
  unfolding put_opt_int32_def
  by (intro conveys_Cons [OF _ assms(4)] conveys_scalar_opt [OF assms(1) runtime_scalars(1) [OF assms(1)] assms(2,3)])

lemma step_opt_int64:
  assumes "runtime_ok rt" "map_of cases no = Some (get_opt (rd_int64 rt) assign)" "v = None \<Longrightarrow> assign v m = m"
    and "conveys rt cases (cat ws) (assign v m) m'"
  shows "conveys rt cases (cat (put_opt_int64 rt no v # ws)) m m'"
  unfolding put_opt_int64_def
  by (intro conveys_Cons [OF _ assms(4)] conveys_scalar_opt [OF assms(1) runtime_scalars(2) [OF assms(1)] assms(2,3)])

lemma step_opt_string:
  assumes "runtime_ok rt" "map_of cases no = Some (get_opt (rd_string rt) assign)" "v = None \<Longrightarrow> assign v m = m"
    and "conveys rt cases (cat ws) (assign v m) m'"
  shows "conveys rt cases (cat (put_opt_string rt no v # ws)) m m'"
  unfolding put_opt_string_def
  by (intro conveys_Cons [OF _ assms(4)] conveys_scalar_opt [OF assms(1) runtime_scalars(4) [OF assms(1)] assms(2,3)])

lemma step_message:
  assumes "runtime_ok rt" "map_of cases no = Some (get_message rt create rd field assign)" "codec create rd w"
    and "field m = None" "v = None \<Longrightarrow> assign v m = m" and "conveys rt cases (cat ws) (assign v m) m'"
  shows "conveys rt cases (cat (put_message rt no w v # ws)) m m'"
proof (rule conveys_Cons [OF _ assms(6)], unfold put_message_def put_opt_def, cases v)
  case None
  then show "conveys rt cases (case v of None \<Rightarrow> Some [] | Some x \<Rightarrow> put rt no LengthDelimited (Option.bind (w x) (rt_join rt)))
      m (assign v m)"
    using assms(5) by (simp add: conveys_nothing)
next
  case (Some x)
  have "conveys rt cases (put rt no LengthDelimited (Option.bind (w x) (rt_join rt))) m (assign (Some x) m)"
  proof (rule conveys_put [OF assms(1,2)])
    fix bs rest
    assume "Option.bind (w x) (rt_join rt) = Some bs"
    then show "get_message rt create rd field assign LengthDelimited m (bs @ rest) = Some (assign (Some x) m, rest)"
      using reads_submessage [OF assms(1,3), of x bs rest] assms(4)
      by (auto simp: get_message_def get_opt_def get_def)
  qed
  then show "conveys rt cases (case v of None \<Rightarrow> Some [] | Some x \<Rightarrow> put rt no LengthDelimited (Option.bind (w x) (rt_join rt)))
      m (assign v m)"
    by (simp add: Some)
qed

text \<open>A repeated field: every item is appended to what was read of the field before.\<close>

lemma conveys_items:
  assumes "\<And>x m. conveys rt cases (item x) m (assign (field m @ [x]) m)"
    and "\<And>xs m. field (assign xs m) = xs" and "\<And>xs ys m. assign xs (assign ys m) = assign xs m"
    and "assign (field m) m = m"
  shows "conveys rt cases (cat (map item xs)) m (assign (field m @ xs) m)"
  using assms(4)
proof (induction xs arbitrary: m)
  case Nil
  then show ?case by (simp add: conveys_nothing cat.simps(1))
next
  case (Cons x xs)
  have "conveys rt cases (cat (map item xs)) (assign (field m @ [x]) m) (assign (field m @ x # xs) m)"
    using Cons.IH [of "assign (field m @ [x]) m"] assms(2,3) by simp
  then show ?case using conveys_Cons [OF assms(1)] by simp
qed

lemma step_strings:
  assumes "runtime_ok rt" "map_of cases no = Some (get_strings rt field assign)"
    and "\<And>xs m. field (assign xs m) = xs" "\<And>xs ys m. assign xs (assign ys m) = assign xs m"
    and "field m = []" "assign [] m = m" and "conveys rt cases (cat ws) (assign vs m) m'"
  shows "conveys rt cases (cat (put_strings rt no vs # ws)) m m'"
proof (rule conveys_Cons [OF _ assms(7)])
  have "conveys rt cases (put rt no LengthDelimited (rt_string rt x)) m (assign (field m @ [x]) m)" for x m
    using conveys_scalar [OF assms(1) runtime_scalars(4) [OF assms(1)] assms(2) [unfolded get_strings_def]] by simp
  then show "conveys rt cases (put_strings rt no vs) m (assign vs m)"
    using conveys_items [where m = m and field = field and assign = assign and xs = vs
        and item = "\<lambda>x. put rt no LengthDelimited (rt_string rt x)"] assms(3-6)
    unfolding put_strings_def by simp
qed

lemma step_messages:
  assumes "runtime_ok rt" "map_of cases no = Some (get_messages rt create rd field assign)" "codec create rd w"
    and "\<And>xs m. field (assign xs m) = xs" "\<And>xs ys m. assign xs (assign ys m) = assign xs m"
    and "field m = []" "assign [] m = m" and "conveys rt cases (cat ws) (assign vs m) m'"
  shows "conveys rt cases (cat (put_messages rt no w vs # ws)) m m'"
proof (rule conveys_Cons [OF _ assms(8)])
  let ?item = "\<lambda>x. put rt no LengthDelimited (Option.bind (w x) (rt_join rt))"
  have "conveys rt cases (?item x) m (assign (field m @ [x]) m)" for x m
  proof (rule conveys_put [OF assms(1,2)])
    fix bs rest
    assume "Option.bind (w x) (rt_join rt) = Some bs"
    then show "get_messages rt create rd field assign LengthDelimited m (bs @ rest) = Some (assign (field m @ [x]) m, rest)"
      using reads_submessage [OF assms(1,3), of x bs rest] by (auto simp: get_messages_def get_def)
  qed
  then show "conveys rt cases (put_messages rt no w vs) m (assign vs m)"
    using conveys_items [where m = m and field = field and assign = assign and xs = vs and item = ?item] assms(4-7)
    unfolding put_messages_def by simp
qed

text \<open>A packed field is one forked run of numbers.\<close>

lemma read_packed_run:
  assumes "runtime_ok rt" "cat (map (rt_int32 rt) vs) = Some bs" "stop = int (length rest)"
  shows "read_packed (rd_int32 rt) stop xs (bs @ rest) = Some (xs @ vs, rest)"
  using assms(2)
proof (induction vs arbitrary: bs xs)
  case Nil
  then show ?case using assms(3) by (subst read_packed.simps) (simp add: cat.simps(1))
next
  case (Cons v vs)
  then obtain x y where x: "rt_int32 rt v = Some x" and y: "cat (map (rt_int32 rt) vs) = Some y" and bs: "bs = x @ y"
    by (auto simp: cat_Some)
  have "rd_int32 rt (x @ y @ rest) = Some (v, y @ rest)" "x \<noteq> []"
    using assms(1) x by (auto simp: runtime_ok_def reads_back_def)
  moreover from this(2) have "stop < int (length (x @ y @ rest))" using assms(3) by (cases x) auto
  ultimately show ?case using Cons.IH [OF y, of "xs @ [v]"] by (subst read_packed.simps) (simp add: bs)
qed

lemma step_packed_int32:
  assumes "runtime_ok rt" "map_of cases no = Some (get_packed_int32 rt field assign)"
    and "field m = []" "assign [] m = m" and "conveys rt cases (cat ws) (assign vs m) m'"
  shows "conveys rt cases (cat (put_packed_int32 rt no vs # ws)) m m'"
proof (rule conveys_Cons [OF _ assms(5)], cases "vs = []")
  case True
  then show "conveys rt cases (put_packed_int32 rt no vs) m (assign vs m)"
    using assms(4) by (simp add: put_packed_int32_def conveys_nothing)
next
  case False
  have "conveys rt cases (put rt no LengthDelimited (Option.bind (cat (map (rt_int32 rt) vs)) (rt_join rt))) m (assign vs m)"
  proof (rule conveys_put [OF assms(1,2)])
    fix bs and rest
    assume "Option.bind (cat (map (rt_int32 rt) vs)) (rt_join rt) = Some bs"
    then obtain y where y: "cat (map (rt_int32 rt) vs) = Some y" "rt_join rt y = Some bs" by (auto simp: bind_eq_Some_conv)
    have "rd_int32 rt (bs @ rest) = Some (int (length y), y @ rest)" using assms(1) y(2) by (auto simp: runtime_ok_def)
    then show "get_packed_int32 rt field assign LengthDelimited m (bs @ rest) = Some (assign vs m, rest)"
      using read_packed_run [where xs = "[]" and rest = rest, OF assms(1) y(1) refl] assms(3) by (simp add: get_packed_int32_def get_def)
  qed
  then show "conveys rt cases (put_packed_int32 rt no vs) m (assign vs m)" using False by (simp add: put_packed_int32_def)
qed

lemma step_done: "m = m' \<Longrightarrow> conveys rt cases (cat []) m m'"
  by (simp add: cat.simps(1) conveys_nothing)

lemmas conveys_steps = step_int32 step_int64 step_bool step_string step_opt_int32 step_opt_int64 step_opt_string
  step_message step_strings step_messages step_packed_int32 step_done

end
