(* ===== verification/WireLedger.thy ===== *)
theory WireLedger
  imports Wire
begin

text \<open>
  The messages of lib/grpc/gen/prosper/v1/ledger.ts for sessions, sign-in, banks, accounts, categories, trips,
  tags, stocks, display settings, the ledger's transactions and the configuration requests, with the time
  stamps of google/protobuf/timestamp.ts.  Of each message: its record, the empty message (create), the cases
  of internalBinaryRead, the read, internalBinaryWrite, and the proof that what is written is read back.
  Enumerations are numbers on the wire.  Messages without fields are left out.
\<close>

record Timestamp_msg =
  Timestamp_seconds :: int
  Timestamp_nanos :: int

definition Timestamp_create :: Timestamp_msg where
  "Timestamp_create =
     \<lparr>Timestamp_seconds = 0, Timestamp_nanos = 0\<rparr>"

definition Timestamp_cases :: "'b wire_runtime \<Rightarrow> (nat \<times> ('b, Timestamp_msg) field_reader) list" where
  "Timestamp_cases rt =
     [(1, get (rd_int64 rt) (\<lambda>v m. m\<lparr>Timestamp_seconds := v\<rparr>)),
      (2, get (rd_int32 rt) (\<lambda>v m. m\<lparr>Timestamp_nanos := v\<rparr>))]"

definition Timestamp_read :: "'b wire_runtime \<Rightarrow> int \<Rightarrow> Timestamp_msg \<Rightarrow> ('b, Timestamp_msg) rd" where
  "Timestamp_read rt = read_message rt (Timestamp_cases rt)"

definition Timestamp_write :: "'b wire_runtime \<Rightarrow> Timestamp_msg \<Rightarrow> 'b list option" where
  "Timestamp_write rt m =
     cat [put_int64 rt 1 (Timestamp_seconds m), put_int32 rt 2 (Timestamp_nanos m)]"

lemma Timestamp_codec [simp]: "runtime_ok rt \<Longrightarrow> codec Timestamp_create (Timestamp_read rt) (Timestamp_write rt)"
  unfolding Timestamp_read_def by (rule codec_by_fields, unfold Timestamp_write_def)
    (rule conveys_steps | simp add: Timestamp_cases_def Timestamp_create_def)+

record ValidateSessionRequest_msg =
  ValidateSessionRequest_sessionId :: string

definition ValidateSessionRequest_create :: ValidateSessionRequest_msg where
  "ValidateSessionRequest_create =
     \<lparr>ValidateSessionRequest_sessionId = []\<rparr>"

definition ValidateSessionRequest_cases :: "'b wire_runtime \<Rightarrow> (nat \<times> ('b, ValidateSessionRequest_msg) field_reader) list" where
  "ValidateSessionRequest_cases rt =
     [(1, get (rd_string rt) (\<lambda>v m. m\<lparr>ValidateSessionRequest_sessionId := v\<rparr>))]"

definition ValidateSessionRequest_read :: "'b wire_runtime \<Rightarrow> int \<Rightarrow> ValidateSessionRequest_msg \<Rightarrow> ('b, ValidateSessionRequest_msg) rd" where
  "ValidateSessionRequest_read rt = read_message rt (ValidateSessionRequest_cases rt)"

definition ValidateSessionRequest_write :: "'b wire_runtime \<Rightarrow> ValidateSessionRequest_msg \<Rightarrow> 'b list option" where
  "ValidateSessionRequest_write rt m =
     cat [put_string rt 1 (ValidateSessionRequest_sessionId m)]"

lemma ValidateSessionRequest_codec [simp]: "runtime_ok rt \<Longrightarrow> codec ValidateSessionRequest_create (ValidateSessionRequest_read rt) (ValidateSessionRequest_write rt)"
  unfolding ValidateSessionRequest_read_def by (rule codec_by_fields, unfold ValidateSessionRequest_write_def)
    (rule conveys_steps | simp add: ValidateSessionRequest_cases_def ValidateSessionRequest_create_def)+

record ValidateSessionResponse_msg =
  ValidateSessionResponse_valid :: bool
  ValidateSessionResponse_userId :: int
  ValidateSessionResponse_userLogin :: string
  ValidateSessionResponse_extendedExpiresAt :: "Timestamp_msg option"

definition ValidateSessionResponse_create :: ValidateSessionResponse_msg where
  "ValidateSessionResponse_create =
     \<lparr>ValidateSessionResponse_valid = False, ValidateSessionResponse_userId = 0,
       ValidateSessionResponse_userLogin = [], ValidateSessionResponse_extendedExpiresAt = None\<rparr>"

definition ValidateSessionResponse_cases :: "'b wire_runtime \<Rightarrow> (nat \<times> ('b, ValidateSessionResponse_msg) field_reader) list" where
  "ValidateSessionResponse_cases rt =
     [(1, get (rd_bool rt) (\<lambda>v m. m\<lparr>ValidateSessionResponse_valid := v\<rparr>)),
      (2, get (rd_int32 rt) (\<lambda>v m. m\<lparr>ValidateSessionResponse_userId := v\<rparr>)),
      (4, get (rd_string rt) (\<lambda>v m. m\<lparr>ValidateSessionResponse_userLogin := v\<rparr>)),
      (3, get_message rt Timestamp_create (Timestamp_read rt) ValidateSessionResponse_extendedExpiresAt (\<lambda>v m. m\<lparr>ValidateSessionResponse_extendedExpiresAt := v\<rparr>))]"

definition ValidateSessionResponse_read :: "'b wire_runtime \<Rightarrow> int \<Rightarrow> ValidateSessionResponse_msg \<Rightarrow> ('b, ValidateSessionResponse_msg) rd" where
  "ValidateSessionResponse_read rt = read_message rt (ValidateSessionResponse_cases rt)"

definition ValidateSessionResponse_write :: "'b wire_runtime \<Rightarrow> ValidateSessionResponse_msg \<Rightarrow> 'b list option" where
  "ValidateSessionResponse_write rt m =
     cat [put_bool rt 1 (ValidateSessionResponse_valid m), put_int32 rt 2 (ValidateSessionResponse_userId m),
          put_message rt 3 (Timestamp_write rt) (ValidateSessionResponse_extendedExpiresAt m),
          put_string rt 4 (ValidateSessionResponse_userLogin m)]"

lemma ValidateSessionResponse_codec [simp]: "runtime_ok rt \<Longrightarrow> codec ValidateSessionResponse_create (ValidateSessionResponse_read rt) (ValidateSessionResponse_write rt)"
  unfolding ValidateSessionResponse_read_def by (rule codec_by_fields, unfold ValidateSessionResponse_write_def)
    (rule conveys_steps | simp add: ValidateSessionResponse_cases_def ValidateSessionResponse_create_def)+

record CreateSessionRequest_msg =
  CreateSessionRequest_userId :: int
  CreateSessionRequest_sessionId :: string

definition CreateSessionRequest_create :: CreateSessionRequest_msg where
  "CreateSessionRequest_create =
     \<lparr>CreateSessionRequest_userId = 0, CreateSessionRequest_sessionId = []\<rparr>"

definition CreateSessionRequest_cases :: "'b wire_runtime \<Rightarrow> (nat \<times> ('b, CreateSessionRequest_msg) field_reader) list" where
  "CreateSessionRequest_cases rt =
     [(1, get (rd_int32 rt) (\<lambda>v m. m\<lparr>CreateSessionRequest_userId := v\<rparr>)),
      (2, get (rd_string rt) (\<lambda>v m. m\<lparr>CreateSessionRequest_sessionId := v\<rparr>))]"

definition CreateSessionRequest_read :: "'b wire_runtime \<Rightarrow> int \<Rightarrow> CreateSessionRequest_msg \<Rightarrow> ('b, CreateSessionRequest_msg) rd" where
  "CreateSessionRequest_read rt = read_message rt (CreateSessionRequest_cases rt)"

definition CreateSessionRequest_write :: "'b wire_runtime \<Rightarrow> CreateSessionRequest_msg \<Rightarrow> 'b list option" where
  "CreateSessionRequest_write rt m =
     cat [put_int32 rt 1 (CreateSessionRequest_userId m), put_string rt 2 (CreateSessionRequest_sessionId m)]"

lemma CreateSessionRequest_codec [simp]: "runtime_ok rt \<Longrightarrow> codec CreateSessionRequest_create (CreateSessionRequest_read rt) (CreateSessionRequest_write rt)"
  unfolding CreateSessionRequest_read_def by (rule codec_by_fields, unfold CreateSessionRequest_write_def)
    (rule conveys_steps | simp add: CreateSessionRequest_cases_def CreateSessionRequest_create_def)+

record CreateSessionResponse_msg =
  CreateSessionResponse_expiresAt :: "Timestamp_msg option"

definition CreateSessionResponse_create :: CreateSessionResponse_msg where
  "CreateSessionResponse_create =
     \<lparr>CreateSessionResponse_expiresAt = None\<rparr>"

definition CreateSessionResponse_cases :: "'b wire_runtime \<Rightarrow> (nat \<times> ('b, CreateSessionResponse_msg) field_reader) list" where
  "CreateSessionResponse_cases rt =
     [(1, get_message rt Timestamp_create (Timestamp_read rt) CreateSessionResponse_expiresAt (\<lambda>v m. m\<lparr>CreateSessionResponse_expiresAt := v\<rparr>))]"

definition CreateSessionResponse_read :: "'b wire_runtime \<Rightarrow> int \<Rightarrow> CreateSessionResponse_msg \<Rightarrow> ('b, CreateSessionResponse_msg) rd" where
  "CreateSessionResponse_read rt = read_message rt (CreateSessionResponse_cases rt)"

definition CreateSessionResponse_write :: "'b wire_runtime \<Rightarrow> CreateSessionResponse_msg \<Rightarrow> 'b list option" where
  "CreateSessionResponse_write rt m =
     cat [put_message rt 1 (Timestamp_write rt) (CreateSessionResponse_expiresAt m)]"

lemma CreateSessionResponse_codec [simp]: "runtime_ok rt \<Longrightarrow> codec CreateSessionResponse_create (CreateSessionResponse_read rt) (CreateSessionResponse_write rt)"
  unfolding CreateSessionResponse_read_def by (rule codec_by_fields, unfold CreateSessionResponse_write_def)
    (rule conveys_steps | simp add: CreateSessionResponse_cases_def CreateSessionResponse_create_def)+

record DeleteSessionRequest_msg =
  DeleteSessionRequest_sessionId :: string

definition DeleteSessionRequest_create :: DeleteSessionRequest_msg where
  "DeleteSessionRequest_create =
     \<lparr>DeleteSessionRequest_sessionId = []\<rparr>"

definition DeleteSessionRequest_cases :: "'b wire_runtime \<Rightarrow> (nat \<times> ('b, DeleteSessionRequest_msg) field_reader) list" where
  "DeleteSessionRequest_cases rt =
     [(1, get (rd_string rt) (\<lambda>v m. m\<lparr>DeleteSessionRequest_sessionId := v\<rparr>))]"

definition DeleteSessionRequest_read :: "'b wire_runtime \<Rightarrow> int \<Rightarrow> DeleteSessionRequest_msg \<Rightarrow> ('b, DeleteSessionRequest_msg) rd" where
  "DeleteSessionRequest_read rt = read_message rt (DeleteSessionRequest_cases rt)"

definition DeleteSessionRequest_write :: "'b wire_runtime \<Rightarrow> DeleteSessionRequest_msg \<Rightarrow> 'b list option" where
  "DeleteSessionRequest_write rt m =
     cat [put_string rt 1 (DeleteSessionRequest_sessionId m)]"

lemma DeleteSessionRequest_codec [simp]: "runtime_ok rt \<Longrightarrow> codec DeleteSessionRequest_create (DeleteSessionRequest_read rt) (DeleteSessionRequest_write rt)"
  unfolding DeleteSessionRequest_read_def by (rule codec_by_fields, unfold DeleteSessionRequest_write_def)
    (rule conveys_steps | simp add: DeleteSessionRequest_cases_def DeleteSessionRequest_create_def)+

record AuthenticateRequest_msg =
  AuthenticateRequest_login :: string
  AuthenticateRequest_password :: string

definition AuthenticateRequest_create :: AuthenticateRequest_msg where
  "AuthenticateRequest_create =
     \<lparr>AuthenticateRequest_login = [], AuthenticateRequest_password = []\<rparr>"

definition AuthenticateRequest_cases :: "'b wire_runtime \<Rightarrow> (nat \<times> ('b, AuthenticateRequest_msg) field_reader) list" where
  "AuthenticateRequest_cases rt =
     [(1, get (rd_string rt) (\<lambda>v m. m\<lparr>AuthenticateRequest_login := v\<rparr>)),
      (2, get (rd_string rt) (\<lambda>v m. m\<lparr>AuthenticateRequest_password := v\<rparr>))]"

definition AuthenticateRequest_read :: "'b wire_runtime \<Rightarrow> int \<Rightarrow> AuthenticateRequest_msg \<Rightarrow> ('b, AuthenticateRequest_msg) rd" where
  "AuthenticateRequest_read rt = read_message rt (AuthenticateRequest_cases rt)"

definition AuthenticateRequest_write :: "'b wire_runtime \<Rightarrow> AuthenticateRequest_msg \<Rightarrow> 'b list option" where
  "AuthenticateRequest_write rt m =
     cat [put_string rt 1 (AuthenticateRequest_login m), put_string rt 2 (AuthenticateRequest_password m)]"

lemma AuthenticateRequest_codec [simp]: "runtime_ok rt \<Longrightarrow> codec AuthenticateRequest_create (AuthenticateRequest_read rt) (AuthenticateRequest_write rt)"
  unfolding AuthenticateRequest_read_def by (rule codec_by_fields, unfold AuthenticateRequest_write_def)
    (rule conveys_steps | simp add: AuthenticateRequest_cases_def AuthenticateRequest_create_def)+

record AuthenticateResponse_msg =
  AuthenticateResponse_ok :: bool
  AuthenticateResponse_userId :: int

definition AuthenticateResponse_create :: AuthenticateResponse_msg where
  "AuthenticateResponse_create =
     \<lparr>AuthenticateResponse_ok = False, AuthenticateResponse_userId = 0\<rparr>"

definition AuthenticateResponse_cases :: "'b wire_runtime \<Rightarrow> (nat \<times> ('b, AuthenticateResponse_msg) field_reader) list" where
  "AuthenticateResponse_cases rt =
     [(1, get (rd_bool rt) (\<lambda>v m. m\<lparr>AuthenticateResponse_ok := v\<rparr>)),
      (2, get (rd_int32 rt) (\<lambda>v m. m\<lparr>AuthenticateResponse_userId := v\<rparr>))]"

definition AuthenticateResponse_read :: "'b wire_runtime \<Rightarrow> int \<Rightarrow> AuthenticateResponse_msg \<Rightarrow> ('b, AuthenticateResponse_msg) rd" where
  "AuthenticateResponse_read rt = read_message rt (AuthenticateResponse_cases rt)"

definition AuthenticateResponse_write :: "'b wire_runtime \<Rightarrow> AuthenticateResponse_msg \<Rightarrow> 'b list option" where
  "AuthenticateResponse_write rt m =
     cat [put_bool rt 1 (AuthenticateResponse_ok m), put_int32 rt 2 (AuthenticateResponse_userId m)]"

lemma AuthenticateResponse_codec [simp]: "runtime_ok rt \<Longrightarrow> codec AuthenticateResponse_create (AuthenticateResponse_read rt) (AuthenticateResponse_write rt)"
  unfolding AuthenticateResponse_read_def by (rule codec_by_fields, unfold AuthenticateResponse_write_def)
    (rule conveys_steps | simp add: AuthenticateResponse_cases_def AuthenticateResponse_create_def)+

record CountUsersResponse_msg =
  CountUsersResponse_count :: int

definition CountUsersResponse_create :: CountUsersResponse_msg where
  "CountUsersResponse_create =
     \<lparr>CountUsersResponse_count = 0\<rparr>"

definition CountUsersResponse_cases :: "'b wire_runtime \<Rightarrow> (nat \<times> ('b, CountUsersResponse_msg) field_reader) list" where
  "CountUsersResponse_cases rt =
     [(1, get (rd_int32 rt) (\<lambda>v m. m\<lparr>CountUsersResponse_count := v\<rparr>))]"

definition CountUsersResponse_read :: "'b wire_runtime \<Rightarrow> int \<Rightarrow> CountUsersResponse_msg \<Rightarrow> ('b, CountUsersResponse_msg) rd" where
  "CountUsersResponse_read rt = read_message rt (CountUsersResponse_cases rt)"

definition CountUsersResponse_write :: "'b wire_runtime \<Rightarrow> CountUsersResponse_msg \<Rightarrow> 'b list option" where
  "CountUsersResponse_write rt m =
     cat [put_int32 rt 1 (CountUsersResponse_count m)]"

lemma CountUsersResponse_codec [simp]: "runtime_ok rt \<Longrightarrow> codec CountUsersResponse_create (CountUsersResponse_read rt) (CountUsersResponse_write rt)"
  unfolding CountUsersResponse_read_def by (rule codec_by_fields, unfold CountUsersResponse_write_def)
    (rule conveys_steps | simp add: CountUsersResponse_cases_def CountUsersResponse_create_def)+

record RegisterRequest_msg =
  RegisterRequest_login :: string
  RegisterRequest_password :: string

definition RegisterRequest_create :: RegisterRequest_msg where
  "RegisterRequest_create =
     \<lparr>RegisterRequest_login = [], RegisterRequest_password = []\<rparr>"

definition RegisterRequest_cases :: "'b wire_runtime \<Rightarrow> (nat \<times> ('b, RegisterRequest_msg) field_reader) list" where
  "RegisterRequest_cases rt =
     [(1, get (rd_string rt) (\<lambda>v m. m\<lparr>RegisterRequest_login := v\<rparr>)),
      (2, get (rd_string rt) (\<lambda>v m. m\<lparr>RegisterRequest_password := v\<rparr>))]"

definition RegisterRequest_read :: "'b wire_runtime \<Rightarrow> int \<Rightarrow> RegisterRequest_msg \<Rightarrow> ('b, RegisterRequest_msg) rd" where
  "RegisterRequest_read rt = read_message rt (RegisterRequest_cases rt)"

definition RegisterRequest_write :: "'b wire_runtime \<Rightarrow> RegisterRequest_msg \<Rightarrow> 'b list option" where
  "RegisterRequest_write rt m =
     cat [put_string rt 1 (RegisterRequest_login m), put_string rt 2 (RegisterRequest_password m)]"

lemma RegisterRequest_codec [simp]: "runtime_ok rt \<Longrightarrow> codec RegisterRequest_create (RegisterRequest_read rt) (RegisterRequest_write rt)"
  unfolding RegisterRequest_read_def by (rule codec_by_fields, unfold RegisterRequest_write_def)
    (rule conveys_steps | simp add: RegisterRequest_cases_def RegisterRequest_create_def)+

record RegisterResponse_msg =
  RegisterResponse_ok :: bool
  RegisterResponse_userId :: int
  RegisterResponse_error :: string

definition RegisterResponse_create :: RegisterResponse_msg where
  "RegisterResponse_create =
     \<lparr>RegisterResponse_ok = False, RegisterResponse_userId = 0, RegisterResponse_error = []\<rparr>"

definition RegisterResponse_cases :: "'b wire_runtime \<Rightarrow> (nat \<times> ('b, RegisterResponse_msg) field_reader) list" where
  "RegisterResponse_cases rt =
     [(1, get (rd_bool rt) (\<lambda>v m. m\<lparr>RegisterResponse_ok := v\<rparr>)),
      (2, get (rd_int32 rt) (\<lambda>v m. m\<lparr>RegisterResponse_userId := v\<rparr>)),
      (3, get (rd_string rt) (\<lambda>v m. m\<lparr>RegisterResponse_error := v\<rparr>))]"

definition RegisterResponse_read :: "'b wire_runtime \<Rightarrow> int \<Rightarrow> RegisterResponse_msg \<Rightarrow> ('b, RegisterResponse_msg) rd" where
  "RegisterResponse_read rt = read_message rt (RegisterResponse_cases rt)"

definition RegisterResponse_write :: "'b wire_runtime \<Rightarrow> RegisterResponse_msg \<Rightarrow> 'b list option" where
  "RegisterResponse_write rt m =
     cat [put_bool rt 1 (RegisterResponse_ok m), put_int32 rt 2 (RegisterResponse_userId m),
          put_string rt 3 (RegisterResponse_error m)]"

lemma RegisterResponse_codec [simp]: "runtime_ok rt \<Longrightarrow> codec RegisterResponse_create (RegisterResponse_read rt) (RegisterResponse_write rt)"
  unfolding RegisterResponse_read_def by (rule codec_by_fields, unfold RegisterResponse_write_def)
    (rule conveys_steps | simp add: RegisterResponse_cases_def RegisterResponse_create_def)+

record Bank_msg =
  Bank_id :: int
  Bank_name :: string
  Bank_displayOrder :: int

definition Bank_create :: Bank_msg where
  "Bank_create =
     \<lparr>Bank_id = 0, Bank_name = [], Bank_displayOrder = 0\<rparr>"

definition Bank_cases :: "'b wire_runtime \<Rightarrow> (nat \<times> ('b, Bank_msg) field_reader) list" where
  "Bank_cases rt =
     [(1, get (rd_int32 rt) (\<lambda>v m. m\<lparr>Bank_id := v\<rparr>)),
      (2, get (rd_string rt) (\<lambda>v m. m\<lparr>Bank_name := v\<rparr>)),
      (3, get (rd_int32 rt) (\<lambda>v m. m\<lparr>Bank_displayOrder := v\<rparr>))]"

definition Bank_read :: "'b wire_runtime \<Rightarrow> int \<Rightarrow> Bank_msg \<Rightarrow> ('b, Bank_msg) rd" where
  "Bank_read rt = read_message rt (Bank_cases rt)"

definition Bank_write :: "'b wire_runtime \<Rightarrow> Bank_msg \<Rightarrow> 'b list option" where
  "Bank_write rt m =
     cat [put_int32 rt 1 (Bank_id m), put_string rt 2 (Bank_name m), put_int32 rt 3 (Bank_displayOrder m)]"

lemma Bank_codec [simp]: "runtime_ok rt \<Longrightarrow> codec Bank_create (Bank_read rt) (Bank_write rt)"
  unfolding Bank_read_def by (rule codec_by_fields, unfold Bank_write_def)
    (rule conveys_steps | simp add: Bank_cases_def Bank_create_def)+

record StockKey_msg =
  StockKey_exchange :: string
  StockKey_ticker :: string

definition StockKey_create :: StockKey_msg where
  "StockKey_create =
     \<lparr>StockKey_exchange = [], StockKey_ticker = []\<rparr>"

definition StockKey_cases :: "'b wire_runtime \<Rightarrow> (nat \<times> ('b, StockKey_msg) field_reader) list" where
  "StockKey_cases rt =
     [(1, get (rd_string rt) (\<lambda>v m. m\<lparr>StockKey_exchange := v\<rparr>)),
      (2, get (rd_string rt) (\<lambda>v m. m\<lparr>StockKey_ticker := v\<rparr>))]"

definition StockKey_read :: "'b wire_runtime \<Rightarrow> int \<Rightarrow> StockKey_msg \<Rightarrow> ('b, StockKey_msg) rd" where
  "StockKey_read rt = read_message rt (StockKey_cases rt)"

definition StockKey_write :: "'b wire_runtime \<Rightarrow> StockKey_msg \<Rightarrow> 'b list option" where
  "StockKey_write rt m =
     cat [put_string rt 1 (StockKey_exchange m), put_string rt 2 (StockKey_ticker m)]"

lemma StockKey_codec [simp]: "runtime_ok rt \<Longrightarrow> codec StockKey_create (StockKey_read rt) (StockKey_write rt)"
  unfolding StockKey_read_def by (rule codec_by_fields, unfold StockKey_write_def)
    (rule conveys_steps | simp add: StockKey_cases_def StockKey_create_def)+

record BankAccount_msg =
  BankAccount_id :: int
  BankAccount_name :: string
  BankAccount_bankId :: int
  BankAccount_currencyCode :: "string option"
  BankAccount_stock :: "StockKey_msg option"
  BankAccount_joint :: bool
  BankAccount_archived :: bool
  BankAccount_displayOrder :: int
  BankAccount_initialBalanceNanos :: int

definition BankAccount_create :: BankAccount_msg where
  "BankAccount_create =
     \<lparr>BankAccount_id = 0, BankAccount_name = [], BankAccount_bankId = 0, BankAccount_currencyCode = None,
       BankAccount_stock = None, BankAccount_joint = False, BankAccount_archived = False,
       BankAccount_displayOrder = 0, BankAccount_initialBalanceNanos = 0\<rparr>"

definition BankAccount_cases :: "'b wire_runtime \<Rightarrow> (nat \<times> ('b, BankAccount_msg) field_reader) list" where
  "BankAccount_cases rt =
     [(1, get (rd_int32 rt) (\<lambda>v m. m\<lparr>BankAccount_id := v\<rparr>)),
      (2, get (rd_string rt) (\<lambda>v m. m\<lparr>BankAccount_name := v\<rparr>)),
      (3, get (rd_int32 rt) (\<lambda>v m. m\<lparr>BankAccount_bankId := v\<rparr>)),
      (4, get_opt (rd_string rt) (\<lambda>v m. m\<lparr>BankAccount_currencyCode := v\<rparr>)),
      (5, get_message rt StockKey_create (StockKey_read rt) BankAccount_stock (\<lambda>v m. m\<lparr>BankAccount_stock := v\<rparr>)),
      (6, get (rd_bool rt) (\<lambda>v m. m\<lparr>BankAccount_joint := v\<rparr>)),
      (7, get (rd_bool rt) (\<lambda>v m. m\<lparr>BankAccount_archived := v\<rparr>)),
      (8, get (rd_int32 rt) (\<lambda>v m. m\<lparr>BankAccount_displayOrder := v\<rparr>)),
      (9, get (rd_int64 rt) (\<lambda>v m. m\<lparr>BankAccount_initialBalanceNanos := v\<rparr>))]"

definition BankAccount_read :: "'b wire_runtime \<Rightarrow> int \<Rightarrow> BankAccount_msg \<Rightarrow> ('b, BankAccount_msg) rd" where
  "BankAccount_read rt = read_message rt (BankAccount_cases rt)"

definition BankAccount_write :: "'b wire_runtime \<Rightarrow> BankAccount_msg \<Rightarrow> 'b list option" where
  "BankAccount_write rt m =
     cat [put_int32 rt 1 (BankAccount_id m), put_string rt 2 (BankAccount_name m),
          put_int32 rt 3 (BankAccount_bankId m), put_opt_string rt 4 (BankAccount_currencyCode m),
          put_message rt 5 (StockKey_write rt) (BankAccount_stock m), put_bool rt 6 (BankAccount_joint m),
          put_bool rt 7 (BankAccount_archived m), put_int32 rt 8 (BankAccount_displayOrder m),
          put_int64 rt 9 (BankAccount_initialBalanceNanos m)]"

lemma BankAccount_codec [simp]: "runtime_ok rt \<Longrightarrow> codec BankAccount_create (BankAccount_read rt) (BankAccount_write rt)"
  unfolding BankAccount_read_def by (rule codec_by_fields, unfold BankAccount_write_def)
    (rule conveys_steps | simp add: BankAccount_cases_def BankAccount_create_def)+

record Category_msg =
  Category_id :: int
  Category_name :: string
  Category_displayOrder :: int
  Category_parentCategoryId :: "int option"

definition Category_create :: Category_msg where
  "Category_create =
     \<lparr>Category_id = 0, Category_name = [], Category_displayOrder = 0, Category_parentCategoryId = None\<rparr>"

definition Category_cases :: "'b wire_runtime \<Rightarrow> (nat \<times> ('b, Category_msg) field_reader) list" where
  "Category_cases rt =
     [(1, get (rd_int32 rt) (\<lambda>v m. m\<lparr>Category_id := v\<rparr>)),
      (2, get (rd_string rt) (\<lambda>v m. m\<lparr>Category_name := v\<rparr>)),
      (3, get (rd_int32 rt) (\<lambda>v m. m\<lparr>Category_displayOrder := v\<rparr>)),
      (4, get_opt (rd_int32 rt) (\<lambda>v m. m\<lparr>Category_parentCategoryId := v\<rparr>))]"

definition Category_read :: "'b wire_runtime \<Rightarrow> int \<Rightarrow> Category_msg \<Rightarrow> ('b, Category_msg) rd" where
  "Category_read rt = read_message rt (Category_cases rt)"

definition Category_write :: "'b wire_runtime \<Rightarrow> Category_msg \<Rightarrow> 'b list option" where
  "Category_write rt m =
     cat [put_int32 rt 1 (Category_id m), put_string rt 2 (Category_name m),
          put_int32 rt 3 (Category_displayOrder m), put_opt_int32 rt 4 (Category_parentCategoryId m)]"

lemma Category_codec [simp]: "runtime_ok rt \<Longrightarrow> codec Category_create (Category_read rt) (Category_write rt)"
  unfolding Category_read_def by (rule codec_by_fields, unfold Category_write_def)
    (rule conveys_steps | simp add: Category_cases_def Category_create_def)+

record Tag_msg =
  Tag_id :: int
  Tag_name :: string

definition Tag_create :: Tag_msg where
  "Tag_create =
     \<lparr>Tag_id = 0, Tag_name = []\<rparr>"

definition Tag_cases :: "'b wire_runtime \<Rightarrow> (nat \<times> ('b, Tag_msg) field_reader) list" where
  "Tag_cases rt =
     [(1, get (rd_int32 rt) (\<lambda>v m. m\<lparr>Tag_id := v\<rparr>)),
      (2, get (rd_string rt) (\<lambda>v m. m\<lparr>Tag_name := v\<rparr>))]"

definition Tag_read :: "'b wire_runtime \<Rightarrow> int \<Rightarrow> Tag_msg \<Rightarrow> ('b, Tag_msg) rd" where
  "Tag_read rt = read_message rt (Tag_cases rt)"

definition Tag_write :: "'b wire_runtime \<Rightarrow> Tag_msg \<Rightarrow> 'b list option" where
  "Tag_write rt m =
     cat [put_int32 rt 1 (Tag_id m), put_string rt 2 (Tag_name m)]"

lemma Tag_codec [simp]: "runtime_ok rt \<Longrightarrow> codec Tag_create (Tag_read rt) (Tag_write rt)"
  unfolding Tag_read_def by (rule codec_by_fields, unfold Tag_write_def)
    (rule conveys_steps | simp add: Tag_cases_def Tag_create_def)+

record Trip_msg =
  Trip_id :: int
  Trip_name :: string
  Trip_country :: "string option"
  Trip_city :: "string option"
  Trip_destination :: "string option"
  Trip_start :: "Timestamp_msg option"
  Trip_end :: "Timestamp_msg option"

definition Trip_create :: Trip_msg where
  "Trip_create =
     \<lparr>Trip_id = 0, Trip_name = [], Trip_country = None, Trip_city = None, Trip_destination = None,
       Trip_start = None, Trip_end = None\<rparr>"

definition Trip_cases :: "'b wire_runtime \<Rightarrow> (nat \<times> ('b, Trip_msg) field_reader) list" where
  "Trip_cases rt =
     [(1, get (rd_int32 rt) (\<lambda>v m. m\<lparr>Trip_id := v\<rparr>)),
      (2, get (rd_string rt) (\<lambda>v m. m\<lparr>Trip_name := v\<rparr>)),
      (3, get_opt (rd_string rt) (\<lambda>v m. m\<lparr>Trip_country := v\<rparr>)),
      (4, get_opt (rd_string rt) (\<lambda>v m. m\<lparr>Trip_city := v\<rparr>)),
      (5, get_opt (rd_string rt) (\<lambda>v m. m\<lparr>Trip_destination := v\<rparr>)),
      (6, get_message rt Timestamp_create (Timestamp_read rt) Trip_start (\<lambda>v m. m\<lparr>Trip_start := v\<rparr>)),
      (7, get_message rt Timestamp_create (Timestamp_read rt) Trip_end (\<lambda>v m. m\<lparr>Trip_end := v\<rparr>))]"

definition Trip_read :: "'b wire_runtime \<Rightarrow> int \<Rightarrow> Trip_msg \<Rightarrow> ('b, Trip_msg) rd" where
  "Trip_read rt = read_message rt (Trip_cases rt)"

definition Trip_write :: "'b wire_runtime \<Rightarrow> Trip_msg \<Rightarrow> 'b list option" where
  "Trip_write rt m =
     cat [put_int32 rt 1 (Trip_id m), put_string rt 2 (Trip_name m), put_opt_string rt 3 (Trip_country m),
          put_opt_string rt 4 (Trip_city m), put_opt_string rt 5 (Trip_destination m),
          put_message rt 6 (Timestamp_write rt) (Trip_start m),
          put_message rt 7 (Timestamp_write rt) (Trip_end m)]"

lemma Trip_codec [simp]: "runtime_ok rt \<Longrightarrow> codec Trip_create (Trip_read rt) (Trip_write rt)"
  unfolding Trip_read_def by (rule codec_by_fields, unfold Trip_write_def)
    (rule conveys_steps | simp add: Trip_cases_def Trip_create_def)+

record Stock_msg =
  Stock_exchange :: string
  Stock_ticker :: string
  Stock_name :: string
  Stock_currencyCode :: string

definition Stock_create :: Stock_msg where
  "Stock_create =
     \<lparr>Stock_exchange = [], Stock_ticker = [], Stock_name = [], Stock_currencyCode = []\<rparr>"

definition Stock_cases :: "'b wire_runtime \<Rightarrow> (nat \<times> ('b, Stock_msg) field_reader) list" where
  "Stock_cases rt =
     [(1, get (rd_string rt) (\<lambda>v m. m\<lparr>Stock_exchange := v\<rparr>)),
      (2, get (rd_string rt) (\<lambda>v m. m\<lparr>Stock_ticker := v\<rparr>)),
      (3, get (rd_string rt) (\<lambda>v m. m\<lparr>Stock_name := v\<rparr>)),
      (4, get (rd_string rt) (\<lambda>v m. m\<lparr>Stock_currencyCode := v\<rparr>))]"

definition Stock_read :: "'b wire_runtime \<Rightarrow> int \<Rightarrow> Stock_msg \<Rightarrow> ('b, Stock_msg) rd" where
  "Stock_read rt = read_message rt (Stock_cases rt)"

definition Stock_write :: "'b wire_runtime \<Rightarrow> Stock_msg \<Rightarrow> 'b list option" where
  "Stock_write rt m =
     cat [put_string rt 1 (Stock_exchange m), put_string rt 2 (Stock_ticker m), put_string rt 3 (Stock_name m),
          put_string rt 4 (Stock_currencyCode m)]"

lemma Stock_codec [simp]: "runtime_ok rt \<Longrightarrow> codec Stock_create (Stock_read rt) (Stock_write rt)"
  unfolding Stock_read_def by (rule codec_by_fields, unfold Stock_write_def)
    (rule conveys_steps | simp add: Stock_cases_def Stock_create_def)+

record DisplaySettings_msg =
  DisplaySettings_displayCurrencyCode :: string
  DisplaySettings_excludeCategoryIdsInStats :: "int list"

definition DisplaySettings_create :: DisplaySettings_msg where
  "DisplaySettings_create =
     \<lparr>DisplaySettings_displayCurrencyCode = [], DisplaySettings_excludeCategoryIdsInStats = []\<rparr>"

definition DisplaySettings_cases :: "'b wire_runtime \<Rightarrow> (nat \<times> ('b, DisplaySettings_msg) field_reader) list" where
  "DisplaySettings_cases rt =
     [(1, get (rd_string rt) (\<lambda>v m. m\<lparr>DisplaySettings_displayCurrencyCode := v\<rparr>)),
      (2, get_packed_int32 rt DisplaySettings_excludeCategoryIdsInStats (\<lambda>v m. m\<lparr>DisplaySettings_excludeCategoryIdsInStats := v\<rparr>))]"

definition DisplaySettings_read :: "'b wire_runtime \<Rightarrow> int \<Rightarrow> DisplaySettings_msg \<Rightarrow> ('b, DisplaySettings_msg) rd" where
  "DisplaySettings_read rt = read_message rt (DisplaySettings_cases rt)"

definition DisplaySettings_write :: "'b wire_runtime \<Rightarrow> DisplaySettings_msg \<Rightarrow> 'b list option" where
  "DisplaySettings_write rt m =
     cat [put_string rt 1 (DisplaySettings_displayCurrencyCode m),
          put_packed_int32 rt 2 (DisplaySettings_excludeCategoryIdsInStats m)]"

lemma DisplaySettings_codec [simp]: "runtime_ok rt \<Longrightarrow> codec DisplaySettings_create (DisplaySettings_read rt) (DisplaySettings_write rt)"
  unfolding DisplaySettings_read_def by (rule codec_by_fields, unfold DisplaySettings_write_def)
    (rule conveys_steps | simp add: DisplaySettings_cases_def DisplaySettings_create_def)+

record GetCoreDataRequest_msg =
  GetCoreDataRequest_sessionId :: string

definition GetCoreDataRequest_create :: GetCoreDataRequest_msg where
  "GetCoreDataRequest_create =
     \<lparr>GetCoreDataRequest_sessionId = []\<rparr>"

definition GetCoreDataRequest_cases :: "'b wire_runtime \<Rightarrow> (nat \<times> ('b, GetCoreDataRequest_msg) field_reader) list" where
  "GetCoreDataRequest_cases rt =
     [(1, get (rd_string rt) (\<lambda>v m. m\<lparr>GetCoreDataRequest_sessionId := v\<rparr>))]"

definition GetCoreDataRequest_read :: "'b wire_runtime \<Rightarrow> int \<Rightarrow> GetCoreDataRequest_msg \<Rightarrow> ('b, GetCoreDataRequest_msg) rd" where
  "GetCoreDataRequest_read rt = read_message rt (GetCoreDataRequest_cases rt)"

definition GetCoreDataRequest_write :: "'b wire_runtime \<Rightarrow> GetCoreDataRequest_msg \<Rightarrow> 'b list option" where
  "GetCoreDataRequest_write rt m =
     cat [put_string rt 1 (GetCoreDataRequest_sessionId m)]"

lemma GetCoreDataRequest_codec [simp]: "runtime_ok rt \<Longrightarrow> codec GetCoreDataRequest_create (GetCoreDataRequest_read rt) (GetCoreDataRequest_write rt)"
  unfolding GetCoreDataRequest_read_def by (rule codec_by_fields, unfold GetCoreDataRequest_write_def)
    (rule conveys_steps | simp add: GetCoreDataRequest_cases_def GetCoreDataRequest_create_def)+

record GetCoreDataResponse_msg =
  GetCoreDataResponse_banks :: "Bank_msg list"
  GetCoreDataResponse_bankAccounts :: "BankAccount_msg list"
  GetCoreDataResponse_categories :: "Category_msg list"
  GetCoreDataResponse_tags :: "Tag_msg list"
  GetCoreDataResponse_trips :: "Trip_msg list"
  GetCoreDataResponse_stocks :: "Stock_msg list"
  GetCoreDataResponse_displaySettings :: "DisplaySettings_msg option"

definition GetCoreDataResponse_create :: GetCoreDataResponse_msg where
  "GetCoreDataResponse_create =
     \<lparr>GetCoreDataResponse_banks = [], GetCoreDataResponse_bankAccounts = [],
       GetCoreDataResponse_categories = [], GetCoreDataResponse_tags = [], GetCoreDataResponse_trips = [],
       GetCoreDataResponse_stocks = [], GetCoreDataResponse_displaySettings = None\<rparr>"

definition GetCoreDataResponse_cases :: "'b wire_runtime \<Rightarrow> (nat \<times> ('b, GetCoreDataResponse_msg) field_reader) list" where
  "GetCoreDataResponse_cases rt =
     [(1, get_messages rt Bank_create (Bank_read rt) GetCoreDataResponse_banks (\<lambda>v m. m\<lparr>GetCoreDataResponse_banks := v\<rparr>)),
      (2, get_messages rt BankAccount_create (BankAccount_read rt) GetCoreDataResponse_bankAccounts (\<lambda>v m. m\<lparr>GetCoreDataResponse_bankAccounts := v\<rparr>)),
      (3, get_messages rt Category_create (Category_read rt) GetCoreDataResponse_categories (\<lambda>v m. m\<lparr>GetCoreDataResponse_categories := v\<rparr>)),
      (4, get_messages rt Tag_create (Tag_read rt) GetCoreDataResponse_tags (\<lambda>v m. m\<lparr>GetCoreDataResponse_tags := v\<rparr>)),
      (5, get_messages rt Trip_create (Trip_read rt) GetCoreDataResponse_trips (\<lambda>v m. m\<lparr>GetCoreDataResponse_trips := v\<rparr>)),
      (6, get_messages rt Stock_create (Stock_read rt) GetCoreDataResponse_stocks (\<lambda>v m. m\<lparr>GetCoreDataResponse_stocks := v\<rparr>)),
      (7, get_message rt DisplaySettings_create (DisplaySettings_read rt) GetCoreDataResponse_displaySettings (\<lambda>v m. m\<lparr>GetCoreDataResponse_displaySettings := v\<rparr>))]"

definition GetCoreDataResponse_read :: "'b wire_runtime \<Rightarrow> int \<Rightarrow> GetCoreDataResponse_msg \<Rightarrow> ('b, GetCoreDataResponse_msg) rd" where
  "GetCoreDataResponse_read rt = read_message rt (GetCoreDataResponse_cases rt)"

definition GetCoreDataResponse_write :: "'b wire_runtime \<Rightarrow> GetCoreDataResponse_msg \<Rightarrow> 'b list option" where
  "GetCoreDataResponse_write rt m =
     cat [put_messages rt 1 (Bank_write rt) (GetCoreDataResponse_banks m),
          put_messages rt 2 (BankAccount_write rt) (GetCoreDataResponse_bankAccounts m),
          put_messages rt 3 (Category_write rt) (GetCoreDataResponse_categories m),
          put_messages rt 4 (Tag_write rt) (GetCoreDataResponse_tags m),
          put_messages rt 5 (Trip_write rt) (GetCoreDataResponse_trips m),
          put_messages rt 6 (Stock_write rt) (GetCoreDataResponse_stocks m),
          put_message rt 7 (DisplaySettings_write rt) (GetCoreDataResponse_displaySettings m)]"

lemma GetCoreDataResponse_codec [simp]: "runtime_ok rt \<Longrightarrow> codec GetCoreDataResponse_create (GetCoreDataResponse_read rt) (GetCoreDataResponse_write rt)"
  unfolding GetCoreDataResponse_read_def by (rule codec_by_fields, unfold GetCoreDataResponse_write_def)
    (rule conveys_steps | simp add: GetCoreDataResponse_cases_def GetCoreDataResponse_create_def)+

record LedgerAccount_msg =
  LedgerAccount_id :: int
  LedgerAccount_name :: string
  LedgerAccount_type :: int
  LedgerAccount_bankAccountId :: "int option"

definition LedgerAccount_create :: LedgerAccount_msg where
  "LedgerAccount_create =
     \<lparr>LedgerAccount_id = 0, LedgerAccount_name = [], LedgerAccount_type = 0, LedgerAccount_bankAccountId = None\<rparr>"

definition LedgerAccount_cases :: "'b wire_runtime \<Rightarrow> (nat \<times> ('b, LedgerAccount_msg) field_reader) list" where
  "LedgerAccount_cases rt =
     [(1, get (rd_int32 rt) (\<lambda>v m. m\<lparr>LedgerAccount_id := v\<rparr>)),
      (2, get (rd_string rt) (\<lambda>v m. m\<lparr>LedgerAccount_name := v\<rparr>)),
      (3, get (rd_int32 rt) (\<lambda>v m. m\<lparr>LedgerAccount_type := v\<rparr>)),
      (4, get_opt (rd_int32 rt) (\<lambda>v m. m\<lparr>LedgerAccount_bankAccountId := v\<rparr>))]"

definition LedgerAccount_read :: "'b wire_runtime \<Rightarrow> int \<Rightarrow> LedgerAccount_msg \<Rightarrow> ('b, LedgerAccount_msg) rd" where
  "LedgerAccount_read rt = read_message rt (LedgerAccount_cases rt)"

definition LedgerAccount_write :: "'b wire_runtime \<Rightarrow> LedgerAccount_msg \<Rightarrow> 'b list option" where
  "LedgerAccount_write rt m =
     cat [put_int32 rt 1 (LedgerAccount_id m), put_string rt 2 (LedgerAccount_name m),
          put_int32 rt 3 (LedgerAccount_type m), put_opt_int32 rt 4 (LedgerAccount_bankAccountId m)]"

lemma LedgerAccount_codec [simp]: "runtime_ok rt \<Longrightarrow> codec LedgerAccount_create (LedgerAccount_read rt) (LedgerAccount_write rt)"
  unfolding LedgerAccount_read_def by (rule codec_by_fields, unfold LedgerAccount_write_def)
    (rule conveys_steps | simp add: LedgerAccount_cases_def LedgerAccount_create_def)+

record EntryLine_msg =
  EntryLine_id :: int
  EntryLine_transactionId :: int
  EntryLine_ledgerAccountId :: int
  EntryLine_currencyCode :: "string option"
  EntryLine_stock :: "StockKey_msg option"
  EntryLine_amountNanos :: int

definition EntryLine_create :: EntryLine_msg where
  "EntryLine_create =
     \<lparr>EntryLine_id = 0, EntryLine_transactionId = 0, EntryLine_ledgerAccountId = 0,
       EntryLine_currencyCode = None, EntryLine_stock = None, EntryLine_amountNanos = 0\<rparr>"

definition EntryLine_cases :: "'b wire_runtime \<Rightarrow> (nat \<times> ('b, EntryLine_msg) field_reader) list" where
  "EntryLine_cases rt =
     [(1, get (rd_int32 rt) (\<lambda>v m. m\<lparr>EntryLine_id := v\<rparr>)),
      (2, get (rd_int32 rt) (\<lambda>v m. m\<lparr>EntryLine_transactionId := v\<rparr>)),
      (3, get (rd_int32 rt) (\<lambda>v m. m\<lparr>EntryLine_ledgerAccountId := v\<rparr>)),
      (4, get_opt (rd_string rt) (\<lambda>v m. m\<lparr>EntryLine_currencyCode := v\<rparr>)),
      (5, get_message rt StockKey_create (StockKey_read rt) EntryLine_stock (\<lambda>v m. m\<lparr>EntryLine_stock := v\<rparr>)),
      (6, get (rd_int64 rt) (\<lambda>v m. m\<lparr>EntryLine_amountNanos := v\<rparr>))]"

definition EntryLine_read :: "'b wire_runtime \<Rightarrow> int \<Rightarrow> EntryLine_msg \<Rightarrow> ('b, EntryLine_msg) rd" where
  "EntryLine_read rt = read_message rt (EntryLine_cases rt)"

definition EntryLine_write :: "'b wire_runtime \<Rightarrow> EntryLine_msg \<Rightarrow> 'b list option" where
  "EntryLine_write rt m =
     cat [put_int32 rt 1 (EntryLine_id m), put_int32 rt 2 (EntryLine_transactionId m),
          put_int32 rt 3 (EntryLine_ledgerAccountId m), put_opt_string rt 4 (EntryLine_currencyCode m),
          put_message rt 5 (StockKey_write rt) (EntryLine_stock m), put_int64 rt 6 (EntryLine_amountNanos m)]"

lemma EntryLine_codec [simp]: "runtime_ok rt \<Longrightarrow> codec EntryLine_create (EntryLine_read rt) (EntryLine_write rt)"
  unfolding EntryLine_read_def by (rule codec_by_fields, unfold EntryLine_write_def)
    (rule conveys_steps | simp add: EntryLine_cases_def EntryLine_create_def)+

record SplitContext_msg =
  SplitContext_id :: int
  SplitContext_transactionId :: int
  SplitContext_companionName :: string
  SplitContext_companionShareNanos :: int
  SplitContext_companionPaidNanos :: int

definition SplitContext_create :: SplitContext_msg where
  "SplitContext_create =
     \<lparr>SplitContext_id = 0, SplitContext_transactionId = 0, SplitContext_companionName = [],
       SplitContext_companionShareNanos = 0, SplitContext_companionPaidNanos = 0\<rparr>"

definition SplitContext_cases :: "'b wire_runtime \<Rightarrow> (nat \<times> ('b, SplitContext_msg) field_reader) list" where
  "SplitContext_cases rt =
     [(1, get (rd_int32 rt) (\<lambda>v m. m\<lparr>SplitContext_id := v\<rparr>)),
      (2, get (rd_int32 rt) (\<lambda>v m. m\<lparr>SplitContext_transactionId := v\<rparr>)),
      (3, get (rd_string rt) (\<lambda>v m. m\<lparr>SplitContext_companionName := v\<rparr>)),
      (4, get (rd_int64 rt) (\<lambda>v m. m\<lparr>SplitContext_companionShareNanos := v\<rparr>)),
      (5, get (rd_int64 rt) (\<lambda>v m. m\<lparr>SplitContext_companionPaidNanos := v\<rparr>))]"

definition SplitContext_read :: "'b wire_runtime \<Rightarrow> int \<Rightarrow> SplitContext_msg \<Rightarrow> ('b, SplitContext_msg) rd" where
  "SplitContext_read rt = read_message rt (SplitContext_cases rt)"

definition SplitContext_write :: "'b wire_runtime \<Rightarrow> SplitContext_msg \<Rightarrow> 'b list option" where
  "SplitContext_write rt m =
     cat [put_int32 rt 1 (SplitContext_id m), put_int32 rt 2 (SplitContext_transactionId m),
          put_string rt 3 (SplitContext_companionName m), put_int64 rt 4 (SplitContext_companionShareNanos m),
          put_int64 rt 5 (SplitContext_companionPaidNanos m)]"

lemma SplitContext_codec [simp]: "runtime_ok rt \<Longrightarrow> codec SplitContext_create (SplitContext_read rt) (SplitContext_write rt)"
  unfolding SplitContext_read_def by (rule codec_by_fields, unfold SplitContext_write_def)
    (rule conveys_steps | simp add: SplitContext_cases_def SplitContext_create_def)+

record TransactionLink_msg =
  TransactionLink_id :: int
  TransactionLink_sourceTransactionId :: int
  TransactionLink_linkedTransactionId :: int
  TransactionLink_linkType :: int

definition TransactionLink_create :: TransactionLink_msg where
  "TransactionLink_create =
     \<lparr>TransactionLink_id = 0, TransactionLink_sourceTransactionId = 0,
       TransactionLink_linkedTransactionId = 0, TransactionLink_linkType = 0\<rparr>"

definition TransactionLink_cases :: "'b wire_runtime \<Rightarrow> (nat \<times> ('b, TransactionLink_msg) field_reader) list" where
  "TransactionLink_cases rt =
     [(1, get (rd_int32 rt) (\<lambda>v m. m\<lparr>TransactionLink_id := v\<rparr>)),
      (2, get (rd_int32 rt) (\<lambda>v m. m\<lparr>TransactionLink_sourceTransactionId := v\<rparr>)),
      (3, get (rd_int32 rt) (\<lambda>v m. m\<lparr>TransactionLink_linkedTransactionId := v\<rparr>)),
      (4, get (rd_int32 rt) (\<lambda>v m. m\<lparr>TransactionLink_linkType := v\<rparr>))]"

definition TransactionLink_read :: "'b wire_runtime \<Rightarrow> int \<Rightarrow> TransactionLink_msg \<Rightarrow> ('b, TransactionLink_msg) rd" where
  "TransactionLink_read rt = read_message rt (TransactionLink_cases rt)"

definition TransactionLink_write :: "'b wire_runtime \<Rightarrow> TransactionLink_msg \<Rightarrow> 'b list option" where
  "TransactionLink_write rt m =
     cat [put_int32 rt 1 (TransactionLink_id m), put_int32 rt 2 (TransactionLink_sourceTransactionId m),
          put_int32 rt 3 (TransactionLink_linkedTransactionId m), put_int32 rt 4 (TransactionLink_linkType m)]"

lemma TransactionLink_codec [simp]: "runtime_ok rt \<Longrightarrow> codec TransactionLink_create (TransactionLink_read rt) (TransactionLink_write rt)"
  unfolding TransactionLink_read_def by (rule codec_by_fields, unfold TransactionLink_write_def)
    (rule conveys_steps | simp add: TransactionLink_cases_def TransactionLink_create_def)+

record Transaction_msg =
  Transaction_id :: int
  Transaction_iid :: int
  Transaction_timestamp :: "Timestamp_msg option"
  Transaction_note :: string
  Transaction_type :: int
  Transaction_vendor :: "string option"
  Transaction_payer :: "string option"
  Transaction_categoryId :: "int option"
  Transaction_tripId :: "int option"
  Transaction_supersedesId :: "int option"
  Transaction_isVoid :: bool
  Transaction_tagIds :: "int list"
  Transaction_lines :: "EntryLine_msg list"
  Transaction_splits :: "SplitContext_msg list"

definition Transaction_create :: Transaction_msg where
  "Transaction_create =
     \<lparr>Transaction_id = 0, Transaction_iid = 0, Transaction_timestamp = None, Transaction_note = [],
       Transaction_type = 0, Transaction_vendor = None, Transaction_payer = None,
       Transaction_categoryId = None, Transaction_tripId = None, Transaction_supersedesId = None,
       Transaction_isVoid = False, Transaction_tagIds = [], Transaction_lines = [], Transaction_splits = []\<rparr>"

definition Transaction_cases :: "'b wire_runtime \<Rightarrow> (nat \<times> ('b, Transaction_msg) field_reader) list" where
  "Transaction_cases rt =
     [(1, get (rd_int32 rt) (\<lambda>v m. m\<lparr>Transaction_id := v\<rparr>)),
      (2, get (rd_int32 rt) (\<lambda>v m. m\<lparr>Transaction_iid := v\<rparr>)),
      (3, get_message rt Timestamp_create (Timestamp_read rt) Transaction_timestamp (\<lambda>v m. m\<lparr>Transaction_timestamp := v\<rparr>)),
      (4, get (rd_string rt) (\<lambda>v m. m\<lparr>Transaction_note := v\<rparr>)),
      (5, get (rd_int32 rt) (\<lambda>v m. m\<lparr>Transaction_type := v\<rparr>)),
      (6, get_opt (rd_string rt) (\<lambda>v m. m\<lparr>Transaction_vendor := v\<rparr>)),
      (7, get_opt (rd_string rt) (\<lambda>v m. m\<lparr>Transaction_payer := v\<rparr>)),
      (8, get_opt (rd_int32 rt) (\<lambda>v m. m\<lparr>Transaction_categoryId := v\<rparr>)),
      (9, get_opt (rd_int32 rt) (\<lambda>v m. m\<lparr>Transaction_tripId := v\<rparr>)),
      (10, get_opt (rd_int32 rt) (\<lambda>v m. m\<lparr>Transaction_supersedesId := v\<rparr>)),
      (11, get (rd_bool rt) (\<lambda>v m. m\<lparr>Transaction_isVoid := v\<rparr>)),
      (12, get_packed_int32 rt Transaction_tagIds (\<lambda>v m. m\<lparr>Transaction_tagIds := v\<rparr>)),
      (13, get_messages rt EntryLine_create (EntryLine_read rt) Transaction_lines (\<lambda>v m. m\<lparr>Transaction_lines := v\<rparr>)),
      (14, get_messages rt SplitContext_create (SplitContext_read rt) Transaction_splits (\<lambda>v m. m\<lparr>Transaction_splits := v\<rparr>))]"

definition Transaction_read :: "'b wire_runtime \<Rightarrow> int \<Rightarrow> Transaction_msg \<Rightarrow> ('b, Transaction_msg) rd" where
  "Transaction_read rt = read_message rt (Transaction_cases rt)"

definition Transaction_write :: "'b wire_runtime \<Rightarrow> Transaction_msg \<Rightarrow> 'b list option" where
  "Transaction_write rt m =
     cat [put_int32 rt 1 (Transaction_id m), put_int32 rt 2 (Transaction_iid m),
          put_message rt 3 (Timestamp_write rt) (Transaction_timestamp m),
          put_string rt 4 (Transaction_note m), put_int32 rt 5 (Transaction_type m),
          put_opt_string rt 6 (Transaction_vendor m), put_opt_string rt 7 (Transaction_payer m),
          put_opt_int32 rt 8 (Transaction_categoryId m), put_opt_int32 rt 9 (Transaction_tripId m),
          put_opt_int32 rt 10 (Transaction_supersedesId m), put_bool rt 11 (Transaction_isVoid m),
          put_packed_int32 rt 12 (Transaction_tagIds m),
          put_messages rt 13 (EntryLine_write rt) (Transaction_lines m),
          put_messages rt 14 (SplitContext_write rt) (Transaction_splits m)]"

lemma Transaction_codec [simp]: "runtime_ok rt \<Longrightarrow> codec Transaction_create (Transaction_read rt) (Transaction_write rt)"
  unfolding Transaction_read_def by (rule codec_by_fields, unfold Transaction_write_def)
    (rule conveys_steps | simp add: Transaction_cases_def Transaction_create_def)+

record GetTransactionsRequest_msg =
  GetTransactionsRequest_sessionId :: string

definition GetTransactionsRequest_create :: GetTransactionsRequest_msg where
  "GetTransactionsRequest_create =
     \<lparr>GetTransactionsRequest_sessionId = []\<rparr>"

definition GetTransactionsRequest_cases :: "'b wire_runtime \<Rightarrow> (nat \<times> ('b, GetTransactionsRequest_msg) field_reader) list" where
  "GetTransactionsRequest_cases rt =
     [(1, get (rd_string rt) (\<lambda>v m. m\<lparr>GetTransactionsRequest_sessionId := v\<rparr>))]"

definition GetTransactionsRequest_read :: "'b wire_runtime \<Rightarrow> int \<Rightarrow> GetTransactionsRequest_msg \<Rightarrow> ('b, GetTransactionsRequest_msg) rd" where
  "GetTransactionsRequest_read rt = read_message rt (GetTransactionsRequest_cases rt)"

definition GetTransactionsRequest_write :: "'b wire_runtime \<Rightarrow> GetTransactionsRequest_msg \<Rightarrow> 'b list option" where
  "GetTransactionsRequest_write rt m =
     cat [put_string rt 1 (GetTransactionsRequest_sessionId m)]"

lemma GetTransactionsRequest_codec [simp]: "runtime_ok rt \<Longrightarrow> codec GetTransactionsRequest_create (GetTransactionsRequest_read rt) (GetTransactionsRequest_write rt)"
  unfolding GetTransactionsRequest_read_def by (rule codec_by_fields, unfold GetTransactionsRequest_write_def)
    (rule conveys_steps | simp add: GetTransactionsRequest_cases_def GetTransactionsRequest_create_def)+

record GetTransactionsResponse_msg =
  GetTransactionsResponse_transactions :: "Transaction_msg list"
  GetTransactionsResponse_links :: "TransactionLink_msg list"
  GetTransactionsResponse_ledgerAccounts :: "LedgerAccount_msg list"

definition GetTransactionsResponse_create :: GetTransactionsResponse_msg where
  "GetTransactionsResponse_create =
     \<lparr>GetTransactionsResponse_transactions = [], GetTransactionsResponse_links = [],
       GetTransactionsResponse_ledgerAccounts = []\<rparr>"

definition GetTransactionsResponse_cases :: "'b wire_runtime \<Rightarrow> (nat \<times> ('b, GetTransactionsResponse_msg) field_reader) list" where
  "GetTransactionsResponse_cases rt =
     [(1, get_messages rt Transaction_create (Transaction_read rt) GetTransactionsResponse_transactions (\<lambda>v m. m\<lparr>GetTransactionsResponse_transactions := v\<rparr>)),
      (2, get_messages rt TransactionLink_create (TransactionLink_read rt) GetTransactionsResponse_links (\<lambda>v m. m\<lparr>GetTransactionsResponse_links := v\<rparr>)),
      (4, get_messages rt LedgerAccount_create (LedgerAccount_read rt) GetTransactionsResponse_ledgerAccounts (\<lambda>v m. m\<lparr>GetTransactionsResponse_ledgerAccounts := v\<rparr>))]"

definition GetTransactionsResponse_read :: "'b wire_runtime \<Rightarrow> int \<Rightarrow> GetTransactionsResponse_msg \<Rightarrow> ('b, GetTransactionsResponse_msg) rd" where
  "GetTransactionsResponse_read rt = read_message rt (GetTransactionsResponse_cases rt)"

definition GetTransactionsResponse_write :: "'b wire_runtime \<Rightarrow> GetTransactionsResponse_msg \<Rightarrow> 'b list option" where
  "GetTransactionsResponse_write rt m =
     cat [put_messages rt 1 (Transaction_write rt) (GetTransactionsResponse_transactions m),
          put_messages rt 2 (TransactionLink_write rt) (GetTransactionsResponse_links m),
          put_messages rt 4 (LedgerAccount_write rt) (GetTransactionsResponse_ledgerAccounts m)]"

lemma GetTransactionsResponse_codec [simp]: "runtime_ok rt \<Longrightarrow> codec GetTransactionsResponse_create (GetTransactionsResponse_read rt) (GetTransactionsResponse_write rt)"
  unfolding GetTransactionsResponse_read_def by (rule codec_by_fields, unfold GetTransactionsResponse_write_def)
    (rule conveys_steps | simp add: GetTransactionsResponse_cases_def GetTransactionsResponse_create_def)+

record ListAvailableCurrenciesRequest_msg =
  ListAvailableCurrenciesRequest_sessionId :: string

definition ListAvailableCurrenciesRequest_create :: ListAvailableCurrenciesRequest_msg where
  "ListAvailableCurrenciesRequest_create =
     \<lparr>ListAvailableCurrenciesRequest_sessionId = []\<rparr>"

definition ListAvailableCurrenciesRequest_cases :: "'b wire_runtime \<Rightarrow> (nat \<times> ('b, ListAvailableCurrenciesRequest_msg) field_reader) list" where
  "ListAvailableCurrenciesRequest_cases rt =
     [(1, get (rd_string rt) (\<lambda>v m. m\<lparr>ListAvailableCurrenciesRequest_sessionId := v\<rparr>))]"

definition ListAvailableCurrenciesRequest_read :: "'b wire_runtime \<Rightarrow> int \<Rightarrow> ListAvailableCurrenciesRequest_msg \<Rightarrow> ('b, ListAvailableCurrenciesRequest_msg) rd" where
  "ListAvailableCurrenciesRequest_read rt = read_message rt (ListAvailableCurrenciesRequest_cases rt)"

definition ListAvailableCurrenciesRequest_write :: "'b wire_runtime \<Rightarrow> ListAvailableCurrenciesRequest_msg \<Rightarrow> 'b list option" where
  "ListAvailableCurrenciesRequest_write rt m =
     cat [put_string rt 1 (ListAvailableCurrenciesRequest_sessionId m)]"

lemma ListAvailableCurrenciesRequest_codec [simp]: "runtime_ok rt \<Longrightarrow> codec ListAvailableCurrenciesRequest_create (ListAvailableCurrenciesRequest_read rt) (ListAvailableCurrenciesRequest_write rt)"
  unfolding ListAvailableCurrenciesRequest_read_def by (rule codec_by_fields, unfold ListAvailableCurrenciesRequest_write_def)
    (rule conveys_steps | simp add: ListAvailableCurrenciesRequest_cases_def ListAvailableCurrenciesRequest_create_def)+

record CurrencyInfo_msg =
  CurrencyInfo_code :: string
  CurrencyInfo_name :: string

definition CurrencyInfo_create :: CurrencyInfo_msg where
  "CurrencyInfo_create =
     \<lparr>CurrencyInfo_code = [], CurrencyInfo_name = []\<rparr>"

definition CurrencyInfo_cases :: "'b wire_runtime \<Rightarrow> (nat \<times> ('b, CurrencyInfo_msg) field_reader) list" where
  "CurrencyInfo_cases rt =
     [(1, get (rd_string rt) (\<lambda>v m. m\<lparr>CurrencyInfo_code := v\<rparr>)),
      (2, get (rd_string rt) (\<lambda>v m. m\<lparr>CurrencyInfo_name := v\<rparr>))]"

definition CurrencyInfo_read :: "'b wire_runtime \<Rightarrow> int \<Rightarrow> CurrencyInfo_msg \<Rightarrow> ('b, CurrencyInfo_msg) rd" where
  "CurrencyInfo_read rt = read_message rt (CurrencyInfo_cases rt)"

definition CurrencyInfo_write :: "'b wire_runtime \<Rightarrow> CurrencyInfo_msg \<Rightarrow> 'b list option" where
  "CurrencyInfo_write rt m =
     cat [put_string rt 1 (CurrencyInfo_code m), put_string rt 2 (CurrencyInfo_name m)]"

lemma CurrencyInfo_codec [simp]: "runtime_ok rt \<Longrightarrow> codec CurrencyInfo_create (CurrencyInfo_read rt) (CurrencyInfo_write rt)"
  unfolding CurrencyInfo_read_def by (rule codec_by_fields, unfold CurrencyInfo_write_def)
    (rule conveys_steps | simp add: CurrencyInfo_cases_def CurrencyInfo_create_def)+

record ListAvailableCurrenciesResponse_msg =
  ListAvailableCurrenciesResponse_currencies :: "CurrencyInfo_msg list"

definition ListAvailableCurrenciesResponse_create :: ListAvailableCurrenciesResponse_msg where
  "ListAvailableCurrenciesResponse_create =
     \<lparr>ListAvailableCurrenciesResponse_currencies = []\<rparr>"

definition ListAvailableCurrenciesResponse_cases :: "'b wire_runtime \<Rightarrow> (nat \<times> ('b, ListAvailableCurrenciesResponse_msg) field_reader) list" where
  "ListAvailableCurrenciesResponse_cases rt =
     [(1, get_messages rt CurrencyInfo_create (CurrencyInfo_read rt) ListAvailableCurrenciesResponse_currencies (\<lambda>v m. m\<lparr>ListAvailableCurrenciesResponse_currencies := v\<rparr>))]"

definition ListAvailableCurrenciesResponse_read :: "'b wire_runtime \<Rightarrow> int \<Rightarrow> ListAvailableCurrenciesResponse_msg \<Rightarrow> ('b, ListAvailableCurrenciesResponse_msg) rd" where
  "ListAvailableCurrenciesResponse_read rt = read_message rt (ListAvailableCurrenciesResponse_cases rt)"

definition ListAvailableCurrenciesResponse_write :: "'b wire_runtime \<Rightarrow> ListAvailableCurrenciesResponse_msg \<Rightarrow> 'b list option" where
  "ListAvailableCurrenciesResponse_write rt m =
     cat [put_messages rt 1 (CurrencyInfo_write rt) (ListAvailableCurrenciesResponse_currencies m)]"

lemma ListAvailableCurrenciesResponse_codec [simp]: "runtime_ok rt \<Longrightarrow> codec ListAvailableCurrenciesResponse_create (ListAvailableCurrenciesResponse_read rt) (ListAvailableCurrenciesResponse_write rt)"
  unfolding ListAvailableCurrenciesResponse_read_def by (rule codec_by_fields, unfold ListAvailableCurrenciesResponse_write_def)
    (rule conveys_steps | simp add: ListAvailableCurrenciesResponse_cases_def ListAvailableCurrenciesResponse_create_def)+

record UpsertBankRequest_msg =
  UpsertBankRequest_bank :: "Bank_msg option"
  UpsertBankRequest_sessionId :: string

definition UpsertBankRequest_create :: UpsertBankRequest_msg where
  "UpsertBankRequest_create =
     \<lparr>UpsertBankRequest_bank = None, UpsertBankRequest_sessionId = []\<rparr>"

definition UpsertBankRequest_cases :: "'b wire_runtime \<Rightarrow> (nat \<times> ('b, UpsertBankRequest_msg) field_reader) list" where
  "UpsertBankRequest_cases rt =
     [(1, get_message rt Bank_create (Bank_read rt) UpsertBankRequest_bank (\<lambda>v m. m\<lparr>UpsertBankRequest_bank := v\<rparr>)),
      (2, get (rd_string rt) (\<lambda>v m. m\<lparr>UpsertBankRequest_sessionId := v\<rparr>))]"

definition UpsertBankRequest_read :: "'b wire_runtime \<Rightarrow> int \<Rightarrow> UpsertBankRequest_msg \<Rightarrow> ('b, UpsertBankRequest_msg) rd" where
  "UpsertBankRequest_read rt = read_message rt (UpsertBankRequest_cases rt)"

definition UpsertBankRequest_write :: "'b wire_runtime \<Rightarrow> UpsertBankRequest_msg \<Rightarrow> 'b list option" where
  "UpsertBankRequest_write rt m =
     cat [put_message rt 1 (Bank_write rt) (UpsertBankRequest_bank m),
          put_string rt 2 (UpsertBankRequest_sessionId m)]"

lemma UpsertBankRequest_codec [simp]: "runtime_ok rt \<Longrightarrow> codec UpsertBankRequest_create (UpsertBankRequest_read rt) (UpsertBankRequest_write rt)"
  unfolding UpsertBankRequest_read_def by (rule codec_by_fields, unfold UpsertBankRequest_write_def)
    (rule conveys_steps | simp add: UpsertBankRequest_cases_def UpsertBankRequest_create_def)+

record UpsertBankResponse_msg =
  UpsertBankResponse_bankId :: int

definition UpsertBankResponse_create :: UpsertBankResponse_msg where
  "UpsertBankResponse_create =
     \<lparr>UpsertBankResponse_bankId = 0\<rparr>"

definition UpsertBankResponse_cases :: "'b wire_runtime \<Rightarrow> (nat \<times> ('b, UpsertBankResponse_msg) field_reader) list" where
  "UpsertBankResponse_cases rt =
     [(1, get (rd_int32 rt) (\<lambda>v m. m\<lparr>UpsertBankResponse_bankId := v\<rparr>))]"

definition UpsertBankResponse_read :: "'b wire_runtime \<Rightarrow> int \<Rightarrow> UpsertBankResponse_msg \<Rightarrow> ('b, UpsertBankResponse_msg) rd" where
  "UpsertBankResponse_read rt = read_message rt (UpsertBankResponse_cases rt)"

definition UpsertBankResponse_write :: "'b wire_runtime \<Rightarrow> UpsertBankResponse_msg \<Rightarrow> 'b list option" where
  "UpsertBankResponse_write rt m =
     cat [put_int32 rt 1 (UpsertBankResponse_bankId m)]"

lemma UpsertBankResponse_codec [simp]: "runtime_ok rt \<Longrightarrow> codec UpsertBankResponse_create (UpsertBankResponse_read rt) (UpsertBankResponse_write rt)"
  unfolding UpsertBankResponse_read_def by (rule codec_by_fields, unfold UpsertBankResponse_write_def)
    (rule conveys_steps | simp add: UpsertBankResponse_cases_def UpsertBankResponse_create_def)+

datatype AccountUnit_unit =
    AccountUnit_currencyCode string
  | AccountUnit_stock StockKey_msg

record AccountUnit_msg =
  AccountUnit_unit :: "AccountUnit_unit option"

definition AccountUnit_create :: AccountUnit_msg where
  "AccountUnit_create =
     \<lparr>AccountUnit_unit = None\<rparr>"

definition AccountUnit_cases :: "'b wire_runtime \<Rightarrow> (nat \<times> ('b, AccountUnit_msg) field_reader) list" where
  "AccountUnit_cases rt =
     [(1, get_opt (rd_string rt) (one_of (\<lambda>v m. m\<lparr>AccountUnit_unit := v\<rparr>) AccountUnit_currencyCode)),
      (2, get_message rt StockKey_create (StockKey_read rt)
          (\<lambda>m. case AccountUnit_unit m of Some (AccountUnit_stock v) \<Rightarrow> Some v | _ \<Rightarrow> None) (one_of (\<lambda>v m. m\<lparr>AccountUnit_unit := v\<rparr>) AccountUnit_stock))]"

definition AccountUnit_read :: "'b wire_runtime \<Rightarrow> int \<Rightarrow> AccountUnit_msg \<Rightarrow> ('b, AccountUnit_msg) rd" where
  "AccountUnit_read rt = read_message rt (AccountUnit_cases rt)"

definition AccountUnit_write :: "'b wire_runtime \<Rightarrow> AccountUnit_msg \<Rightarrow> 'b list option" where
  "AccountUnit_write rt m =
     cat [put_opt_string rt 1 (case AccountUnit_unit m of Some (AccountUnit_currencyCode v) \<Rightarrow> Some v | _ \<Rightarrow> None),
          put_message rt 2 (StockKey_write rt)
            (case AccountUnit_unit m of Some (AccountUnit_stock v) \<Rightarrow> Some v | _ \<Rightarrow> None)]"

lemma AccountUnit_codec [simp]:
  assumes "runtime_ok rt"
  shows "codec AccountUnit_create (AccountUnit_read rt) (AccountUnit_write rt)"
  unfolding AccountUnit_read_def
proof (rule codec_by_fields)
  fix m :: AccountUnit_msg
  consider "AccountUnit_unit m = None" | v where "AccountUnit_unit m = Some (AccountUnit_currencyCode v)" | v where "AccountUnit_unit m = Some (AccountUnit_stock v)"
    by (metis AccountUnit_unit.exhaust option.exhaust)
  then show "conveys rt (AccountUnit_cases rt) (AccountUnit_write rt m) AccountUnit_create m"
    unfolding AccountUnit_write_def
    by cases (rule conveys_steps | simp add: assms one_of_def AccountUnit_cases_def AccountUnit_create_def)+
qed

record UpsertBankAccountRequest_msg =
  UpsertBankAccountRequest_accountId :: "int option"
  UpsertBankAccountRequest_name :: string
  UpsertBankAccountRequest_bankId :: int
  UpsertBankAccountRequest_joint :: bool
  UpsertBankAccountRequest_archived :: bool
  UpsertBankAccountRequest_displayOrder :: int
  UpsertBankAccountRequest_initialBalanceNanos :: int
  UpsertBankAccountRequest_unit :: "AccountUnit_msg option"
  UpsertBankAccountRequest_sessionId :: string

definition UpsertBankAccountRequest_create :: UpsertBankAccountRequest_msg where
  "UpsertBankAccountRequest_create =
     \<lparr>UpsertBankAccountRequest_accountId = None, UpsertBankAccountRequest_name = [],
       UpsertBankAccountRequest_bankId = 0, UpsertBankAccountRequest_joint = False,
       UpsertBankAccountRequest_archived = False, UpsertBankAccountRequest_displayOrder = 0,
       UpsertBankAccountRequest_initialBalanceNanos = 0, UpsertBankAccountRequest_unit = None,
       UpsertBankAccountRequest_sessionId = []\<rparr>"

definition UpsertBankAccountRequest_cases :: "'b wire_runtime \<Rightarrow> (nat \<times> ('b, UpsertBankAccountRequest_msg) field_reader) list" where
  "UpsertBankAccountRequest_cases rt =
     [(1, get_opt (rd_int32 rt) (\<lambda>v m. m\<lparr>UpsertBankAccountRequest_accountId := v\<rparr>)),
      (2, get (rd_string rt) (\<lambda>v m. m\<lparr>UpsertBankAccountRequest_name := v\<rparr>)),
      (3, get (rd_int32 rt) (\<lambda>v m. m\<lparr>UpsertBankAccountRequest_bankId := v\<rparr>)),
      (4, get (rd_bool rt) (\<lambda>v m. m\<lparr>UpsertBankAccountRequest_joint := v\<rparr>)),
      (5, get (rd_bool rt) (\<lambda>v m. m\<lparr>UpsertBankAccountRequest_archived := v\<rparr>)),
      (6, get (rd_int32 rt) (\<lambda>v m. m\<lparr>UpsertBankAccountRequest_displayOrder := v\<rparr>)),
      (7, get (rd_int64 rt) (\<lambda>v m. m\<lparr>UpsertBankAccountRequest_initialBalanceNanos := v\<rparr>)),
      (8, get_message rt AccountUnit_create (AccountUnit_read rt) UpsertBankAccountRequest_unit (\<lambda>v m. m\<lparr>UpsertBankAccountRequest_unit := v\<rparr>)),
      (9, get (rd_string rt) (\<lambda>v m. m\<lparr>UpsertBankAccountRequest_sessionId := v\<rparr>))]"

definition UpsertBankAccountRequest_read :: "'b wire_runtime \<Rightarrow> int \<Rightarrow> UpsertBankAccountRequest_msg \<Rightarrow> ('b, UpsertBankAccountRequest_msg) rd" where
  "UpsertBankAccountRequest_read rt = read_message rt (UpsertBankAccountRequest_cases rt)"

definition UpsertBankAccountRequest_write :: "'b wire_runtime \<Rightarrow> UpsertBankAccountRequest_msg \<Rightarrow> 'b list option" where
  "UpsertBankAccountRequest_write rt m =
     cat [put_opt_int32 rt 1 (UpsertBankAccountRequest_accountId m),
          put_string rt 2 (UpsertBankAccountRequest_name m),
          put_int32 rt 3 (UpsertBankAccountRequest_bankId m), put_bool rt 4 (UpsertBankAccountRequest_joint m),
          put_bool rt 5 (UpsertBankAccountRequest_archived m),
          put_int32 rt 6 (UpsertBankAccountRequest_displayOrder m),
          put_int64 rt 7 (UpsertBankAccountRequest_initialBalanceNanos m),
          put_message rt 8 (AccountUnit_write rt) (UpsertBankAccountRequest_unit m),
          put_string rt 9 (UpsertBankAccountRequest_sessionId m)]"

lemma UpsertBankAccountRequest_codec [simp]: "runtime_ok rt \<Longrightarrow> codec UpsertBankAccountRequest_create (UpsertBankAccountRequest_read rt) (UpsertBankAccountRequest_write rt)"
  unfolding UpsertBankAccountRequest_read_def by (rule codec_by_fields, unfold UpsertBankAccountRequest_write_def)
    (rule conveys_steps | simp add: UpsertBankAccountRequest_cases_def UpsertBankAccountRequest_create_def)+

record UpsertBankAccountResponse_msg =
  UpsertBankAccountResponse_accountId :: int

definition UpsertBankAccountResponse_create :: UpsertBankAccountResponse_msg where
  "UpsertBankAccountResponse_create =
     \<lparr>UpsertBankAccountResponse_accountId = 0\<rparr>"

definition UpsertBankAccountResponse_cases :: "'b wire_runtime \<Rightarrow> (nat \<times> ('b, UpsertBankAccountResponse_msg) field_reader) list" where
  "UpsertBankAccountResponse_cases rt =
     [(1, get (rd_int32 rt) (\<lambda>v m. m\<lparr>UpsertBankAccountResponse_accountId := v\<rparr>))]"

definition UpsertBankAccountResponse_read :: "'b wire_runtime \<Rightarrow> int \<Rightarrow> UpsertBankAccountResponse_msg \<Rightarrow> ('b, UpsertBankAccountResponse_msg) rd" where
  "UpsertBankAccountResponse_read rt = read_message rt (UpsertBankAccountResponse_cases rt)"

definition UpsertBankAccountResponse_write :: "'b wire_runtime \<Rightarrow> UpsertBankAccountResponse_msg \<Rightarrow> 'b list option" where
  "UpsertBankAccountResponse_write rt m =
     cat [put_int32 rt 1 (UpsertBankAccountResponse_accountId m)]"

lemma UpsertBankAccountResponse_codec [simp]: "runtime_ok rt \<Longrightarrow> codec UpsertBankAccountResponse_create (UpsertBankAccountResponse_read rt) (UpsertBankAccountResponse_write rt)"
  unfolding UpsertBankAccountResponse_read_def by (rule codec_by_fields, unfold UpsertBankAccountResponse_write_def)
    (rule conveys_steps | simp add: UpsertBankAccountResponse_cases_def UpsertBankAccountResponse_create_def)+

record UpsertCategoryRequest_msg =
  UpsertCategoryRequest_category :: "Category_msg option"
  UpsertCategoryRequest_sessionId :: string

definition UpsertCategoryRequest_create :: UpsertCategoryRequest_msg where
  "UpsertCategoryRequest_create =
     \<lparr>UpsertCategoryRequest_category = None, UpsertCategoryRequest_sessionId = []\<rparr>"

definition UpsertCategoryRequest_cases :: "'b wire_runtime \<Rightarrow> (nat \<times> ('b, UpsertCategoryRequest_msg) field_reader) list" where
  "UpsertCategoryRequest_cases rt =
     [(1, get_message rt Category_create (Category_read rt) UpsertCategoryRequest_category (\<lambda>v m. m\<lparr>UpsertCategoryRequest_category := v\<rparr>)),
      (2, get (rd_string rt) (\<lambda>v m. m\<lparr>UpsertCategoryRequest_sessionId := v\<rparr>))]"

definition UpsertCategoryRequest_read :: "'b wire_runtime \<Rightarrow> int \<Rightarrow> UpsertCategoryRequest_msg \<Rightarrow> ('b, UpsertCategoryRequest_msg) rd" where
  "UpsertCategoryRequest_read rt = read_message rt (UpsertCategoryRequest_cases rt)"

definition UpsertCategoryRequest_write :: "'b wire_runtime \<Rightarrow> UpsertCategoryRequest_msg \<Rightarrow> 'b list option" where
  "UpsertCategoryRequest_write rt m =
     cat [put_message rt 1 (Category_write rt) (UpsertCategoryRequest_category m),
          put_string rt 2 (UpsertCategoryRequest_sessionId m)]"

lemma UpsertCategoryRequest_codec [simp]: "runtime_ok rt \<Longrightarrow> codec UpsertCategoryRequest_create (UpsertCategoryRequest_read rt) (UpsertCategoryRequest_write rt)"
  unfolding UpsertCategoryRequest_read_def by (rule codec_by_fields, unfold UpsertCategoryRequest_write_def)
    (rule conveys_steps | simp add: UpsertCategoryRequest_cases_def UpsertCategoryRequest_create_def)+

record UpsertCategoryResponse_msg =
  UpsertCategoryResponse_categoryId :: int

definition UpsertCategoryResponse_create :: UpsertCategoryResponse_msg where
  "UpsertCategoryResponse_create =
     \<lparr>UpsertCategoryResponse_categoryId = 0\<rparr>"

definition UpsertCategoryResponse_cases :: "'b wire_runtime \<Rightarrow> (nat \<times> ('b, UpsertCategoryResponse_msg) field_reader) list" where
  "UpsertCategoryResponse_cases rt =
     [(1, get (rd_int32 rt) (\<lambda>v m. m\<lparr>UpsertCategoryResponse_categoryId := v\<rparr>))]"

definition UpsertCategoryResponse_read :: "'b wire_runtime \<Rightarrow> int \<Rightarrow> UpsertCategoryResponse_msg \<Rightarrow> ('b, UpsertCategoryResponse_msg) rd" where
  "UpsertCategoryResponse_read rt = read_message rt (UpsertCategoryResponse_cases rt)"

definition UpsertCategoryResponse_write :: "'b wire_runtime \<Rightarrow> UpsertCategoryResponse_msg \<Rightarrow> 'b list option" where
  "UpsertCategoryResponse_write rt m =
     cat [put_int32 rt 1 (UpsertCategoryResponse_categoryId m)]"

lemma UpsertCategoryResponse_codec [simp]: "runtime_ok rt \<Longrightarrow> codec UpsertCategoryResponse_create (UpsertCategoryResponse_read rt) (UpsertCategoryResponse_write rt)"
  unfolding UpsertCategoryResponse_read_def by (rule codec_by_fields, unfold UpsertCategoryResponse_write_def)
    (rule conveys_steps | simp add: UpsertCategoryResponse_cases_def UpsertCategoryResponse_create_def)+

record UpdateDisplaySettingsRequest_msg =
  UpdateDisplaySettingsRequest_settings :: "DisplaySettings_msg option"
  UpdateDisplaySettingsRequest_sessionId :: string

definition UpdateDisplaySettingsRequest_create :: UpdateDisplaySettingsRequest_msg where
  "UpdateDisplaySettingsRequest_create =
     \<lparr>UpdateDisplaySettingsRequest_settings = None, UpdateDisplaySettingsRequest_sessionId = []\<rparr>"

definition UpdateDisplaySettingsRequest_cases :: "'b wire_runtime \<Rightarrow> (nat \<times> ('b, UpdateDisplaySettingsRequest_msg) field_reader) list" where
  "UpdateDisplaySettingsRequest_cases rt =
     [(1, get_message rt DisplaySettings_create (DisplaySettings_read rt) UpdateDisplaySettingsRequest_settings (\<lambda>v m. m\<lparr>UpdateDisplaySettingsRequest_settings := v\<rparr>)),
      (2, get (rd_string rt) (\<lambda>v m. m\<lparr>UpdateDisplaySettingsRequest_sessionId := v\<rparr>))]"

definition UpdateDisplaySettingsRequest_read :: "'b wire_runtime \<Rightarrow> int \<Rightarrow> UpdateDisplaySettingsRequest_msg \<Rightarrow> ('b, UpdateDisplaySettingsRequest_msg) rd" where
  "UpdateDisplaySettingsRequest_read rt = read_message rt (UpdateDisplaySettingsRequest_cases rt)"

definition UpdateDisplaySettingsRequest_write :: "'b wire_runtime \<Rightarrow> UpdateDisplaySettingsRequest_msg \<Rightarrow> 'b list option" where
  "UpdateDisplaySettingsRequest_write rt m =
     cat [put_message rt 1 (DisplaySettings_write rt) (UpdateDisplaySettingsRequest_settings m),
          put_string rt 2 (UpdateDisplaySettingsRequest_sessionId m)]"

lemma UpdateDisplaySettingsRequest_codec [simp]: "runtime_ok rt \<Longrightarrow> codec UpdateDisplaySettingsRequest_create (UpdateDisplaySettingsRequest_read rt) (UpdateDisplaySettingsRequest_write rt)"
  unfolding UpdateDisplaySettingsRequest_read_def by (rule codec_by_fields, unfold UpdateDisplaySettingsRequest_write_def)
    (rule conveys_steps | simp add: UpdateDisplaySettingsRequest_cases_def UpdateDisplaySettingsRequest_create_def)+

end
