(* ===== verification/WireForms.thy ===== *)
theory WireForms
  imports WireLedger
begin

text \<open>
  The messages of lib/grpc/gen/prosper/v1/ledger.ts that save a form and that carry suggested drafts, set out
  like those of theory WireLedger.
\<close>

record OriginKey_msg =
  OriginKey_kind :: int
  OriginKey_key :: string

definition OriginKey_create :: OriginKey_msg where
  "OriginKey_create =
     \<lparr>OriginKey_kind = 0, OriginKey_key = []\<rparr>"

definition OriginKey_cases :: "'b wire_runtime \<Rightarrow> (nat \<times> ('b, OriginKey_msg) field_reader) list" where
  "OriginKey_cases rt =
     [(1, get (rd_int32 rt) (\<lambda>v m. m\<lparr>OriginKey_kind := v\<rparr>)),
      (2, get (rd_string rt) (\<lambda>v m. m\<lparr>OriginKey_key := v\<rparr>))]"

definition OriginKey_read :: "'b wire_runtime \<Rightarrow> int \<Rightarrow> OriginKey_msg \<Rightarrow> ('b, OriginKey_msg) rd" where
  "OriginKey_read rt = read_message rt (OriginKey_cases rt)"

definition OriginKey_write :: "'b wire_runtime \<Rightarrow> OriginKey_msg \<Rightarrow> 'b list option" where
  "OriginKey_write rt m =
     cat [put_int32 rt 1 (OriginKey_kind m), put_string rt 2 (OriginKey_key m)]"

lemma OriginKey_codec [simp]: "runtime_ok rt \<Longrightarrow> codec OriginKey_create (OriginKey_read rt) (OriginKey_write rt)"
  unfolding OriginKey_read_def by (rule codec_by_fields, unfold OriginKey_write_def)
    (rule conveys_steps | simp add: OriginKey_cases_def OriginKey_create_def)+

record RepaymentInput_msg =
  RepaymentInput_accountId :: int
  RepaymentInput_timestamp :: "Timestamp_msg option"
  RepaymentInput_categoryId :: int

definition RepaymentInput_create :: RepaymentInput_msg where
  "RepaymentInput_create =
     \<lparr>RepaymentInput_accountId = 0, RepaymentInput_timestamp = None, RepaymentInput_categoryId = 0\<rparr>"

definition RepaymentInput_cases :: "'b wire_runtime \<Rightarrow> (nat \<times> ('b, RepaymentInput_msg) field_reader) list" where
  "RepaymentInput_cases rt =
     [(1, get (rd_int32 rt) (\<lambda>v m. m\<lparr>RepaymentInput_accountId := v\<rparr>)),
      (2, get_message rt Timestamp_create (Timestamp_read rt) RepaymentInput_timestamp (\<lambda>v m. m\<lparr>RepaymentInput_timestamp := v\<rparr>)),
      (3, get (rd_int32 rt) (\<lambda>v m. m\<lparr>RepaymentInput_categoryId := v\<rparr>))]"

definition RepaymentInput_read :: "'b wire_runtime \<Rightarrow> int \<Rightarrow> RepaymentInput_msg \<Rightarrow> ('b, RepaymentInput_msg) rd" where
  "RepaymentInput_read rt = read_message rt (RepaymentInput_cases rt)"

definition RepaymentInput_write :: "'b wire_runtime \<Rightarrow> RepaymentInput_msg \<Rightarrow> 'b list option" where
  "RepaymentInput_write rt m =
     cat [put_int32 rt 1 (RepaymentInput_accountId m),
          put_message rt 2 (Timestamp_write rt) (RepaymentInput_timestamp m),
          put_int32 rt 3 (RepaymentInput_categoryId m)]"

lemma RepaymentInput_codec [simp]: "runtime_ok rt \<Longrightarrow> codec RepaymentInput_create (RepaymentInput_read rt) (RepaymentInput_write rt)"
  unfolding RepaymentInput_read_def by (rule codec_by_fields, unfold RepaymentInput_write_def)
    (rule conveys_steps | simp add: RepaymentInput_cases_def RepaymentInput_create_def)+

record ExpenseFormInput_msg =
  ExpenseFormInput_timestamp :: "Timestamp_msg option"
  ExpenseFormInput_description :: string
  ExpenseFormInput_vendor :: string
  ExpenseFormInput_categoryId :: int
  ExpenseFormInput_accountId :: "int option"
  ExpenseFormInput_currency :: "string option"
  ExpenseFormInput_payer :: "string option"
  ExpenseFormInput_companion :: "string option"
  ExpenseFormInput_amountNanos :: int
  ExpenseFormInput_ownShareNanos :: int
  ExpenseFormInput_tripName :: "string option"
  ExpenseFormInput_sharingType :: int
  ExpenseFormInput_repayment :: "RepaymentInput_msg option"

definition ExpenseFormInput_create :: ExpenseFormInput_msg where
  "ExpenseFormInput_create =
     \<lparr>ExpenseFormInput_timestamp = None, ExpenseFormInput_description = [], ExpenseFormInput_vendor = [],
       ExpenseFormInput_categoryId = 0, ExpenseFormInput_accountId = None, ExpenseFormInput_currency = None,
       ExpenseFormInput_payer = None, ExpenseFormInput_companion = None, ExpenseFormInput_amountNanos = 0,
       ExpenseFormInput_ownShareNanos = 0, ExpenseFormInput_tripName = None, ExpenseFormInput_sharingType = 0,
       ExpenseFormInput_repayment = None\<rparr>"

definition ExpenseFormInput_cases :: "'b wire_runtime \<Rightarrow> (nat \<times> ('b, ExpenseFormInput_msg) field_reader) list" where
  "ExpenseFormInput_cases rt =
     [(1, get_message rt Timestamp_create (Timestamp_read rt) ExpenseFormInput_timestamp (\<lambda>v m. m\<lparr>ExpenseFormInput_timestamp := v\<rparr>)),
      (2, get (rd_string rt) (\<lambda>v m. m\<lparr>ExpenseFormInput_description := v\<rparr>)),
      (3, get (rd_string rt) (\<lambda>v m. m\<lparr>ExpenseFormInput_vendor := v\<rparr>)),
      (4, get (rd_int32 rt) (\<lambda>v m. m\<lparr>ExpenseFormInput_categoryId := v\<rparr>)),
      (5, get_opt (rd_int32 rt) (\<lambda>v m. m\<lparr>ExpenseFormInput_accountId := v\<rparr>)),
      (6, get_opt (rd_string rt) (\<lambda>v m. m\<lparr>ExpenseFormInput_currency := v\<rparr>)),
      (7, get_opt (rd_string rt) (\<lambda>v m. m\<lparr>ExpenseFormInput_payer := v\<rparr>)),
      (8, get_opt (rd_string rt) (\<lambda>v m. m\<lparr>ExpenseFormInput_companion := v\<rparr>)),
      (9, get (rd_int64 rt) (\<lambda>v m. m\<lparr>ExpenseFormInput_amountNanos := v\<rparr>)),
      (10, get (rd_int64 rt) (\<lambda>v m. m\<lparr>ExpenseFormInput_ownShareNanos := v\<rparr>)),
      (11, get_opt (rd_string rt) (\<lambda>v m. m\<lparr>ExpenseFormInput_tripName := v\<rparr>)),
      (12, get (rd_int32 rt) (\<lambda>v m. m\<lparr>ExpenseFormInput_sharingType := v\<rparr>)),
      (13, get_message rt RepaymentInput_create (RepaymentInput_read rt) ExpenseFormInput_repayment (\<lambda>v m. m\<lparr>ExpenseFormInput_repayment := v\<rparr>))]"

definition ExpenseFormInput_read :: "'b wire_runtime \<Rightarrow> int \<Rightarrow> ExpenseFormInput_msg \<Rightarrow> ('b, ExpenseFormInput_msg) rd" where
  "ExpenseFormInput_read rt = read_message rt (ExpenseFormInput_cases rt)"

definition ExpenseFormInput_write :: "'b wire_runtime \<Rightarrow> ExpenseFormInput_msg \<Rightarrow> 'b list option" where
  "ExpenseFormInput_write rt m =
     cat [put_message rt 1 (Timestamp_write rt) (ExpenseFormInput_timestamp m),
          put_string rt 2 (ExpenseFormInput_description m), put_string rt 3 (ExpenseFormInput_vendor m),
          put_int32 rt 4 (ExpenseFormInput_categoryId m), put_opt_int32 rt 5 (ExpenseFormInput_accountId m),
          put_opt_string rt 6 (ExpenseFormInput_currency m), put_opt_string rt 7 (ExpenseFormInput_payer m),
          put_opt_string rt 8 (ExpenseFormInput_companion m), put_int64 rt 9 (ExpenseFormInput_amountNanos m),
          put_int64 rt 10 (ExpenseFormInput_ownShareNanos m),
          put_opt_string rt 11 (ExpenseFormInput_tripName m), put_int32 rt 12 (ExpenseFormInput_sharingType m),
          put_message rt 13 (RepaymentInput_write rt) (ExpenseFormInput_repayment m)]"

lemma ExpenseFormInput_codec [simp]: "runtime_ok rt \<Longrightarrow> codec ExpenseFormInput_create (ExpenseFormInput_read rt) (ExpenseFormInput_write rt)"
  unfolding ExpenseFormInput_read_def by (rule codec_by_fields, unfold ExpenseFormInput_write_def)
    (rule conveys_steps | simp add: ExpenseFormInput_cases_def ExpenseFormInput_create_def)+

record IncomeFormInput_msg =
  IncomeFormInput_timestamp :: "Timestamp_msg option"
  IncomeFormInput_description :: string
  IncomeFormInput_payer :: string
  IncomeFormInput_categoryId :: int
  IncomeFormInput_accountId :: int
  IncomeFormInput_amountNanos :: int
  IncomeFormInput_isShared :: bool
  IncomeFormInput_companion :: "string option"
  IncomeFormInput_ownShareNanos :: int
  IncomeFormInput_parentTransactionId :: "int option"

definition IncomeFormInput_create :: IncomeFormInput_msg where
  "IncomeFormInput_create =
     \<lparr>IncomeFormInput_timestamp = None, IncomeFormInput_description = [], IncomeFormInput_payer = [],
       IncomeFormInput_categoryId = 0, IncomeFormInput_accountId = 0, IncomeFormInput_amountNanos = 0,
       IncomeFormInput_isShared = False, IncomeFormInput_companion = None, IncomeFormInput_ownShareNanos = 0,
       IncomeFormInput_parentTransactionId = None\<rparr>"

definition IncomeFormInput_cases :: "'b wire_runtime \<Rightarrow> (nat \<times> ('b, IncomeFormInput_msg) field_reader) list" where
  "IncomeFormInput_cases rt =
     [(1, get_message rt Timestamp_create (Timestamp_read rt) IncomeFormInput_timestamp (\<lambda>v m. m\<lparr>IncomeFormInput_timestamp := v\<rparr>)),
      (2, get (rd_string rt) (\<lambda>v m. m\<lparr>IncomeFormInput_description := v\<rparr>)),
      (3, get (rd_string rt) (\<lambda>v m. m\<lparr>IncomeFormInput_payer := v\<rparr>)),
      (4, get (rd_int32 rt) (\<lambda>v m. m\<lparr>IncomeFormInput_categoryId := v\<rparr>)),
      (5, get (rd_int32 rt) (\<lambda>v m. m\<lparr>IncomeFormInput_accountId := v\<rparr>)),
      (6, get (rd_int64 rt) (\<lambda>v m. m\<lparr>IncomeFormInput_amountNanos := v\<rparr>)),
      (7, get (rd_bool rt) (\<lambda>v m. m\<lparr>IncomeFormInput_isShared := v\<rparr>)),
      (8, get_opt (rd_string rt) (\<lambda>v m. m\<lparr>IncomeFormInput_companion := v\<rparr>)),
      (9, get (rd_int64 rt) (\<lambda>v m. m\<lparr>IncomeFormInput_ownShareNanos := v\<rparr>)),
      (10, get_opt (rd_int32 rt) (\<lambda>v m. m\<lparr>IncomeFormInput_parentTransactionId := v\<rparr>))]"

definition IncomeFormInput_read :: "'b wire_runtime \<Rightarrow> int \<Rightarrow> IncomeFormInput_msg \<Rightarrow> ('b, IncomeFormInput_msg) rd" where
  "IncomeFormInput_read rt = read_message rt (IncomeFormInput_cases rt)"

definition IncomeFormInput_write :: "'b wire_runtime \<Rightarrow> IncomeFormInput_msg \<Rightarrow> 'b list option" where
  "IncomeFormInput_write rt m =
     cat [put_message rt 1 (Timestamp_write rt) (IncomeFormInput_timestamp m),
          put_string rt 2 (IncomeFormInput_description m), put_string rt 3 (IncomeFormInput_payer m),
          put_int32 rt 4 (IncomeFormInput_categoryId m), put_int32 rt 5 (IncomeFormInput_accountId m),
          put_int64 rt 6 (IncomeFormInput_amountNanos m), put_bool rt 7 (IncomeFormInput_isShared m),
          put_opt_string rt 8 (IncomeFormInput_companion m), put_int64 rt 9 (IncomeFormInput_ownShareNanos m),
          put_opt_int32 rt 10 (IncomeFormInput_parentTransactionId m)]"

lemma IncomeFormInput_codec [simp]: "runtime_ok rt \<Longrightarrow> codec IncomeFormInput_create (IncomeFormInput_read rt) (IncomeFormInput_write rt)"
  unfolding IncomeFormInput_read_def by (rule codec_by_fields, unfold IncomeFormInput_write_def)
    (rule conveys_steps | simp add: IncomeFormInput_cases_def IncomeFormInput_create_def)+

record TransferFormInput_msg =
  TransferFormInput_timestamp :: "Timestamp_msg option"
  TransferFormInput_description :: string
  TransferFormInput_categoryId :: "int option"
  TransferFormInput_fromAccountId :: int
  TransferFormInput_toAccountId :: int
  TransferFormInput_amountSentNanos :: int
  TransferFormInput_amountReceivedNanos :: int

definition TransferFormInput_create :: TransferFormInput_msg where
  "TransferFormInput_create =
     \<lparr>TransferFormInput_timestamp = None, TransferFormInput_description = [],
       TransferFormInput_categoryId = None, TransferFormInput_fromAccountId = 0,
       TransferFormInput_toAccountId = 0, TransferFormInput_amountSentNanos = 0,
       TransferFormInput_amountReceivedNanos = 0\<rparr>"

definition TransferFormInput_cases :: "'b wire_runtime \<Rightarrow> (nat \<times> ('b, TransferFormInput_msg) field_reader) list" where
  "TransferFormInput_cases rt =
     [(1, get_message rt Timestamp_create (Timestamp_read rt) TransferFormInput_timestamp (\<lambda>v m. m\<lparr>TransferFormInput_timestamp := v\<rparr>)),
      (2, get (rd_string rt) (\<lambda>v m. m\<lparr>TransferFormInput_description := v\<rparr>)),
      (3, get_opt (rd_int32 rt) (\<lambda>v m. m\<lparr>TransferFormInput_categoryId := v\<rparr>)),
      (4, get (rd_int32 rt) (\<lambda>v m. m\<lparr>TransferFormInput_fromAccountId := v\<rparr>)),
      (5, get (rd_int32 rt) (\<lambda>v m. m\<lparr>TransferFormInput_toAccountId := v\<rparr>)),
      (6, get (rd_int64 rt) (\<lambda>v m. m\<lparr>TransferFormInput_amountSentNanos := v\<rparr>)),
      (7, get (rd_int64 rt) (\<lambda>v m. m\<lparr>TransferFormInput_amountReceivedNanos := v\<rparr>))]"

definition TransferFormInput_read :: "'b wire_runtime \<Rightarrow> int \<Rightarrow> TransferFormInput_msg \<Rightarrow> ('b, TransferFormInput_msg) rd" where
  "TransferFormInput_read rt = read_message rt (TransferFormInput_cases rt)"

definition TransferFormInput_write :: "'b wire_runtime \<Rightarrow> TransferFormInput_msg \<Rightarrow> 'b list option" where
  "TransferFormInput_write rt m =
     cat [put_message rt 1 (Timestamp_write rt) (TransferFormInput_timestamp m),
          put_string rt 2 (TransferFormInput_description m),
          put_opt_int32 rt 3 (TransferFormInput_categoryId m),
          put_int32 rt 4 (TransferFormInput_fromAccountId m), put_int32 rt 5 (TransferFormInput_toAccountId m),
          put_int64 rt 6 (TransferFormInput_amountSentNanos m),
          put_int64 rt 7 (TransferFormInput_amountReceivedNanos m)]"

lemma TransferFormInput_codec [simp]: "runtime_ok rt \<Longrightarrow> codec TransferFormInput_create (TransferFormInput_read rt) (TransferFormInput_write rt)"
  unfolding TransferFormInput_read_def by (rule codec_by_fields, unfold TransferFormInput_write_def)
    (rule conveys_steps | simp add: TransferFormInput_cases_def TransferFormInput_create_def)+

datatype WriteTransactionFormRequest_form =
    WriteTransactionFormRequest_expense ExpenseFormInput_msg
  | WriteTransactionFormRequest_income IncomeFormInput_msg
  | WriteTransactionFormRequest_transfer TransferFormInput_msg

record WriteTransactionFormRequest_msg =
  WriteTransactionFormRequest_transactionIdToSupersede :: "int option"
  WriteTransactionFormRequest_tagNames :: "string list"
  WriteTransactionFormRequest_origins :: "OriginKey_msg list"
  WriteTransactionFormRequest_form :: "WriteTransactionFormRequest_form option"
  WriteTransactionFormRequest_sessionId :: string

definition WriteTransactionFormRequest_create :: WriteTransactionFormRequest_msg where
  "WriteTransactionFormRequest_create =
     \<lparr>WriteTransactionFormRequest_transactionIdToSupersede = None, WriteTransactionFormRequest_tagNames = [],
       WriteTransactionFormRequest_origins = [], WriteTransactionFormRequest_form = None,
       WriteTransactionFormRequest_sessionId = []\<rparr>"

definition WriteTransactionFormRequest_cases :: "'b wire_runtime \<Rightarrow> (nat \<times> ('b, WriteTransactionFormRequest_msg) field_reader) list" where
  "WriteTransactionFormRequest_cases rt =
     [(1, get_opt (rd_int32 rt) (\<lambda>v m. m\<lparr>WriteTransactionFormRequest_transactionIdToSupersede := v\<rparr>)),
      (2, get_strings rt WriteTransactionFormRequest_tagNames (\<lambda>v m. m\<lparr>WriteTransactionFormRequest_tagNames := v\<rparr>)),
      (3, get_messages rt OriginKey_create (OriginKey_read rt) WriteTransactionFormRequest_origins (\<lambda>v m. m\<lparr>WriteTransactionFormRequest_origins := v\<rparr>)),
      (4, get_message rt ExpenseFormInput_create (ExpenseFormInput_read rt)
          (\<lambda>m. case WriteTransactionFormRequest_form m of Some (WriteTransactionFormRequest_expense v) \<Rightarrow> Some v | _ \<Rightarrow> None) (one_of (\<lambda>v m. m\<lparr>WriteTransactionFormRequest_form := v\<rparr>) WriteTransactionFormRequest_expense)),
      (5, get_message rt IncomeFormInput_create (IncomeFormInput_read rt)
          (\<lambda>m. case WriteTransactionFormRequest_form m of Some (WriteTransactionFormRequest_income v) \<Rightarrow> Some v | _ \<Rightarrow> None) (one_of (\<lambda>v m. m\<lparr>WriteTransactionFormRequest_form := v\<rparr>) WriteTransactionFormRequest_income)),
      (6, get_message rt TransferFormInput_create (TransferFormInput_read rt)
          (\<lambda>m. case WriteTransactionFormRequest_form m of Some (WriteTransactionFormRequest_transfer v) \<Rightarrow> Some v | _ \<Rightarrow> None) (one_of (\<lambda>v m. m\<lparr>WriteTransactionFormRequest_form := v\<rparr>) WriteTransactionFormRequest_transfer)),
      (7, get (rd_string rt) (\<lambda>v m. m\<lparr>WriteTransactionFormRequest_sessionId := v\<rparr>))]"

definition WriteTransactionFormRequest_read :: "'b wire_runtime \<Rightarrow> int \<Rightarrow> WriteTransactionFormRequest_msg \<Rightarrow> ('b, WriteTransactionFormRequest_msg) rd" where
  "WriteTransactionFormRequest_read rt = read_message rt (WriteTransactionFormRequest_cases rt)"

definition WriteTransactionFormRequest_write :: "'b wire_runtime \<Rightarrow> WriteTransactionFormRequest_msg \<Rightarrow> 'b list option" where
  "WriteTransactionFormRequest_write rt m =
     cat [put_opt_int32 rt 1 (WriteTransactionFormRequest_transactionIdToSupersede m),
          put_strings rt 2 (WriteTransactionFormRequest_tagNames m),
          put_messages rt 3 (OriginKey_write rt) (WriteTransactionFormRequest_origins m),
          put_message rt 4 (ExpenseFormInput_write rt)
            (case WriteTransactionFormRequest_form m of Some (WriteTransactionFormRequest_expense v) \<Rightarrow> Some v | _ \<Rightarrow> None),
          put_message rt 5 (IncomeFormInput_write rt)
            (case WriteTransactionFormRequest_form m of Some (WriteTransactionFormRequest_income v) \<Rightarrow> Some v | _ \<Rightarrow> None),
          put_message rt 6 (TransferFormInput_write rt)
            (case WriteTransactionFormRequest_form m of Some (WriteTransactionFormRequest_transfer v) \<Rightarrow> Some v | _ \<Rightarrow> None),
          put_string rt 7 (WriteTransactionFormRequest_sessionId m)]"

lemma WriteTransactionFormRequest_codec [simp]:
  assumes "runtime_ok rt"
  shows "codec WriteTransactionFormRequest_create (WriteTransactionFormRequest_read rt) (WriteTransactionFormRequest_write rt)"
  unfolding WriteTransactionFormRequest_read_def
proof (rule codec_by_fields)
  fix m :: WriteTransactionFormRequest_msg
  consider "WriteTransactionFormRequest_form m = None" | v where "WriteTransactionFormRequest_form m = Some (WriteTransactionFormRequest_expense v)" | v where "WriteTransactionFormRequest_form m = Some (WriteTransactionFormRequest_income v)" | v where "WriteTransactionFormRequest_form m = Some (WriteTransactionFormRequest_transfer v)"
    by (metis WriteTransactionFormRequest_form.exhaust option.exhaust)
  then show "conveys rt (WriteTransactionFormRequest_cases rt) (WriteTransactionFormRequest_write rt m) WriteTransactionFormRequest_create m"
    unfolding WriteTransactionFormRequest_write_def
    by cases (rule conveys_steps | simp add: assms one_of_def WriteTransactionFormRequest_cases_def WriteTransactionFormRequest_create_def)+
qed

record WriteTransactionFormResponse_msg =
  WriteTransactionFormResponse_transactionId :: int

definition WriteTransactionFormResponse_create :: WriteTransactionFormResponse_msg where
  "WriteTransactionFormResponse_create =
     \<lparr>WriteTransactionFormResponse_transactionId = 0\<rparr>"

definition WriteTransactionFormResponse_cases :: "'b wire_runtime \<Rightarrow> (nat \<times> ('b, WriteTransactionFormResponse_msg) field_reader) list" where
  "WriteTransactionFormResponse_cases rt =
     [(1, get (rd_int32 rt) (\<lambda>v m. m\<lparr>WriteTransactionFormResponse_transactionId := v\<rparr>))]"

definition WriteTransactionFormResponse_read :: "'b wire_runtime \<Rightarrow> int \<Rightarrow> WriteTransactionFormResponse_msg \<Rightarrow> ('b, WriteTransactionFormResponse_msg) rd" where
  "WriteTransactionFormResponse_read rt = read_message rt (WriteTransactionFormResponse_cases rt)"

definition WriteTransactionFormResponse_write :: "'b wire_runtime \<Rightarrow> WriteTransactionFormResponse_msg \<Rightarrow> 'b list option" where
  "WriteTransactionFormResponse_write rt m =
     cat [put_int32 rt 1 (WriteTransactionFormResponse_transactionId m)]"

lemma WriteTransactionFormResponse_codec [simp]: "runtime_ok rt \<Longrightarrow> codec WriteTransactionFormResponse_create (WriteTransactionFormResponse_read rt) (WriteTransactionFormResponse_write rt)"
  unfolding WriteTransactionFormResponse_read_def by (rule codec_by_fields, unfold WriteTransactionFormResponse_write_def)
    (rule conveys_steps | simp add: WriteTransactionFormResponse_cases_def WriteTransactionFormResponse_create_def)+

record SuggestRequest_msg =
  SuggestRequest_sessionId :: string

definition SuggestRequest_create :: SuggestRequest_msg where
  "SuggestRequest_create =
     \<lparr>SuggestRequest_sessionId = []\<rparr>"

definition SuggestRequest_cases :: "'b wire_runtime \<Rightarrow> (nat \<times> ('b, SuggestRequest_msg) field_reader) list" where
  "SuggestRequest_cases rt =
     [(1, get (rd_string rt) (\<lambda>v m. m\<lparr>SuggestRequest_sessionId := v\<rparr>))]"

definition SuggestRequest_read :: "'b wire_runtime \<Rightarrow> int \<Rightarrow> SuggestRequest_msg \<Rightarrow> ('b, SuggestRequest_msg) rd" where
  "SuggestRequest_read rt = read_message rt (SuggestRequest_cases rt)"

definition SuggestRequest_write :: "'b wire_runtime \<Rightarrow> SuggestRequest_msg \<Rightarrow> 'b list option" where
  "SuggestRequest_write rt m =
     cat [put_string rt 1 (SuggestRequest_sessionId m)]"

lemma SuggestRequest_codec [simp]: "runtime_ok rt \<Longrightarrow> codec SuggestRequest_create (SuggestRequest_read rt) (SuggestRequest_write rt)"
  unfolding SuggestRequest_read_def by (rule codec_by_fields, unfold SuggestRequest_write_def)
    (rule conveys_steps | simp add: SuggestRequest_cases_def SuggestRequest_create_def)+

record FormTypeCandidate_msg =
  FormTypeCandidate_confidence :: int
  FormTypeCandidate_value :: int

definition FormTypeCandidate_create :: FormTypeCandidate_msg where
  "FormTypeCandidate_create =
     \<lparr>FormTypeCandidate_confidence = 0, FormTypeCandidate_value = 0\<rparr>"

definition FormTypeCandidate_cases :: "'b wire_runtime \<Rightarrow> (nat \<times> ('b, FormTypeCandidate_msg) field_reader) list" where
  "FormTypeCandidate_cases rt =
     [(1, get (rd_int32 rt) (\<lambda>v m. m\<lparr>FormTypeCandidate_confidence := v\<rparr>)),
      (2, get (rd_int32 rt) (\<lambda>v m. m\<lparr>FormTypeCandidate_value := v\<rparr>))]"

definition FormTypeCandidate_read :: "'b wire_runtime \<Rightarrow> int \<Rightarrow> FormTypeCandidate_msg \<Rightarrow> ('b, FormTypeCandidate_msg) rd" where
  "FormTypeCandidate_read rt = read_message rt (FormTypeCandidate_cases rt)"

definition FormTypeCandidate_write :: "'b wire_runtime \<Rightarrow> FormTypeCandidate_msg \<Rightarrow> 'b list option" where
  "FormTypeCandidate_write rt m =
     cat [put_int32 rt 1 (FormTypeCandidate_confidence m), put_int32 rt 2 (FormTypeCandidate_value m)]"

lemma FormTypeCandidate_codec [simp]: "runtime_ok rt \<Longrightarrow> codec FormTypeCandidate_create (FormTypeCandidate_read rt) (FormTypeCandidate_write rt)"
  unfolding FormTypeCandidate_read_def by (rule codec_by_fields, unfold FormTypeCandidate_write_def)
    (rule conveys_steps | simp add: FormTypeCandidate_cases_def FormTypeCandidate_create_def)+

record TimestampCandidate_msg =
  TimestampCandidate_confidence :: int
  TimestampCandidate_value :: "Timestamp_msg option"

definition TimestampCandidate_create :: TimestampCandidate_msg where
  "TimestampCandidate_create =
     \<lparr>TimestampCandidate_confidence = 0, TimestampCandidate_value = None\<rparr>"

definition TimestampCandidate_cases :: "'b wire_runtime \<Rightarrow> (nat \<times> ('b, TimestampCandidate_msg) field_reader) list" where
  "TimestampCandidate_cases rt =
     [(1, get (rd_int32 rt) (\<lambda>v m. m\<lparr>TimestampCandidate_confidence := v\<rparr>)),
      (2, get_message rt Timestamp_create (Timestamp_read rt) TimestampCandidate_value (\<lambda>v m. m\<lparr>TimestampCandidate_value := v\<rparr>))]"

definition TimestampCandidate_read :: "'b wire_runtime \<Rightarrow> int \<Rightarrow> TimestampCandidate_msg \<Rightarrow> ('b, TimestampCandidate_msg) rd" where
  "TimestampCandidate_read rt = read_message rt (TimestampCandidate_cases rt)"

definition TimestampCandidate_write :: "'b wire_runtime \<Rightarrow> TimestampCandidate_msg \<Rightarrow> 'b list option" where
  "TimestampCandidate_write rt m =
     cat [put_int32 rt 1 (TimestampCandidate_confidence m),
          put_message rt 2 (Timestamp_write rt) (TimestampCandidate_value m)]"

lemma TimestampCandidate_codec [simp]: "runtime_ok rt \<Longrightarrow> codec TimestampCandidate_create (TimestampCandidate_read rt) (TimestampCandidate_write rt)"
  unfolding TimestampCandidate_read_def by (rule codec_by_fields, unfold TimestampCandidate_write_def)
    (rule conveys_steps | simp add: TimestampCandidate_cases_def TimestampCandidate_create_def)+

record MoneyCandidate_msg =
  MoneyCandidate_confidence :: int
  MoneyCandidate_valueNanos :: int

definition MoneyCandidate_create :: MoneyCandidate_msg where
  "MoneyCandidate_create =
     \<lparr>MoneyCandidate_confidence = 0, MoneyCandidate_valueNanos = 0\<rparr>"

definition MoneyCandidate_cases :: "'b wire_runtime \<Rightarrow> (nat \<times> ('b, MoneyCandidate_msg) field_reader) list" where
  "MoneyCandidate_cases rt =
     [(1, get (rd_int32 rt) (\<lambda>v m. m\<lparr>MoneyCandidate_confidence := v\<rparr>)),
      (2, get (rd_int64 rt) (\<lambda>v m. m\<lparr>MoneyCandidate_valueNanos := v\<rparr>))]"

definition MoneyCandidate_read :: "'b wire_runtime \<Rightarrow> int \<Rightarrow> MoneyCandidate_msg \<Rightarrow> ('b, MoneyCandidate_msg) rd" where
  "MoneyCandidate_read rt = read_message rt (MoneyCandidate_cases rt)"

definition MoneyCandidate_write :: "'b wire_runtime \<Rightarrow> MoneyCandidate_msg \<Rightarrow> 'b list option" where
  "MoneyCandidate_write rt m =
     cat [put_int32 rt 1 (MoneyCandidate_confidence m), put_int64 rt 2 (MoneyCandidate_valueNanos m)]"

lemma MoneyCandidate_codec [simp]: "runtime_ok rt \<Longrightarrow> codec MoneyCandidate_create (MoneyCandidate_read rt) (MoneyCandidate_write rt)"
  unfolding MoneyCandidate_read_def by (rule codec_by_fields, unfold MoneyCandidate_write_def)
    (rule conveys_steps | simp add: MoneyCandidate_cases_def MoneyCandidate_create_def)+

record IdCandidate_msg =
  IdCandidate_confidence :: int
  IdCandidate_value :: int

definition IdCandidate_create :: IdCandidate_msg where
  "IdCandidate_create =
     \<lparr>IdCandidate_confidence = 0, IdCandidate_value = 0\<rparr>"

definition IdCandidate_cases :: "'b wire_runtime \<Rightarrow> (nat \<times> ('b, IdCandidate_msg) field_reader) list" where
  "IdCandidate_cases rt =
     [(1, get (rd_int32 rt) (\<lambda>v m. m\<lparr>IdCandidate_confidence := v\<rparr>)),
      (2, get (rd_int32 rt) (\<lambda>v m. m\<lparr>IdCandidate_value := v\<rparr>))]"

definition IdCandidate_read :: "'b wire_runtime \<Rightarrow> int \<Rightarrow> IdCandidate_msg \<Rightarrow> ('b, IdCandidate_msg) rd" where
  "IdCandidate_read rt = read_message rt (IdCandidate_cases rt)"

definition IdCandidate_write :: "'b wire_runtime \<Rightarrow> IdCandidate_msg \<Rightarrow> 'b list option" where
  "IdCandidate_write rt m =
     cat [put_int32 rt 1 (IdCandidate_confidence m), put_int32 rt 2 (IdCandidate_value m)]"

lemma IdCandidate_codec [simp]: "runtime_ok rt \<Longrightarrow> codec IdCandidate_create (IdCandidate_read rt) (IdCandidate_write rt)"
  unfolding IdCandidate_read_def by (rule codec_by_fields, unfold IdCandidate_write_def)
    (rule conveys_steps | simp add: IdCandidate_cases_def IdCandidate_create_def)+

record StringCandidate_msg =
  StringCandidate_confidence :: int
  StringCandidate_value :: string

definition StringCandidate_create :: StringCandidate_msg where
  "StringCandidate_create =
     \<lparr>StringCandidate_confidence = 0, StringCandidate_value = []\<rparr>"

definition StringCandidate_cases :: "'b wire_runtime \<Rightarrow> (nat \<times> ('b, StringCandidate_msg) field_reader) list" where
  "StringCandidate_cases rt =
     [(1, get (rd_int32 rt) (\<lambda>v m. m\<lparr>StringCandidate_confidence := v\<rparr>)),
      (2, get (rd_string rt) (\<lambda>v m. m\<lparr>StringCandidate_value := v\<rparr>))]"

definition StringCandidate_read :: "'b wire_runtime \<Rightarrow> int \<Rightarrow> StringCandidate_msg \<Rightarrow> ('b, StringCandidate_msg) rd" where
  "StringCandidate_read rt = read_message rt (StringCandidate_cases rt)"

definition StringCandidate_write :: "'b wire_runtime \<Rightarrow> StringCandidate_msg \<Rightarrow> 'b list option" where
  "StringCandidate_write rt m =
     cat [put_int32 rt 1 (StringCandidate_confidence m), put_string rt 2 (StringCandidate_value m)]"

lemma StringCandidate_codec [simp]: "runtime_ok rt \<Longrightarrow> codec StringCandidate_create (StringCandidate_read rt) (StringCandidate_write rt)"
  unfolding StringCandidate_read_def by (rule codec_by_fields, unfold StringCandidate_write_def)
    (rule conveys_steps | simp add: StringCandidate_cases_def StringCandidate_create_def)+

record SharingTypeCandidate_msg =
  SharingTypeCandidate_confidence :: int
  SharingTypeCandidate_value :: int

definition SharingTypeCandidate_create :: SharingTypeCandidate_msg where
  "SharingTypeCandidate_create =
     \<lparr>SharingTypeCandidate_confidence = 0, SharingTypeCandidate_value = 0\<rparr>"

definition SharingTypeCandidate_cases :: "'b wire_runtime \<Rightarrow> (nat \<times> ('b, SharingTypeCandidate_msg) field_reader) list" where
  "SharingTypeCandidate_cases rt =
     [(1, get (rd_int32 rt) (\<lambda>v m. m\<lparr>SharingTypeCandidate_confidence := v\<rparr>)),
      (2, get (rd_int32 rt) (\<lambda>v m. m\<lparr>SharingTypeCandidate_value := v\<rparr>))]"

definition SharingTypeCandidate_read :: "'b wire_runtime \<Rightarrow> int \<Rightarrow> SharingTypeCandidate_msg \<Rightarrow> ('b, SharingTypeCandidate_msg) rd" where
  "SharingTypeCandidate_read rt = read_message rt (SharingTypeCandidate_cases rt)"

definition SharingTypeCandidate_write :: "'b wire_runtime \<Rightarrow> SharingTypeCandidate_msg \<Rightarrow> 'b list option" where
  "SharingTypeCandidate_write rt m =
     cat [put_int32 rt 1 (SharingTypeCandidate_confidence m), put_int32 rt 2 (SharingTypeCandidate_value m)]"

lemma SharingTypeCandidate_codec [simp]: "runtime_ok rt \<Longrightarrow> codec SharingTypeCandidate_create (SharingTypeCandidate_read rt) (SharingTypeCandidate_write rt)"
  unfolding SharingTypeCandidate_read_def by (rule codec_by_fields, unfold SharingTypeCandidate_write_def)
    (rule conveys_steps | simp add: SharingTypeCandidate_cases_def SharingTypeCandidate_create_def)+

record TagNames_msg =
  TagNames_names :: "string list"

definition TagNames_create :: TagNames_msg where
  "TagNames_create =
     \<lparr>TagNames_names = []\<rparr>"

definition TagNames_cases :: "'b wire_runtime \<Rightarrow> (nat \<times> ('b, TagNames_msg) field_reader) list" where
  "TagNames_cases rt =
     [(1, get_strings rt TagNames_names (\<lambda>v m. m\<lparr>TagNames_names := v\<rparr>))]"

definition TagNames_read :: "'b wire_runtime \<Rightarrow> int \<Rightarrow> TagNames_msg \<Rightarrow> ('b, TagNames_msg) rd" where
  "TagNames_read rt = read_message rt (TagNames_cases rt)"

definition TagNames_write :: "'b wire_runtime \<Rightarrow> TagNames_msg \<Rightarrow> 'b list option" where
  "TagNames_write rt m =
     cat [put_strings rt 1 (TagNames_names m)]"

lemma TagNames_codec [simp]: "runtime_ok rt \<Longrightarrow> codec TagNames_create (TagNames_read rt) (TagNames_write rt)"
  unfolding TagNames_read_def by (rule codec_by_fields, unfold TagNames_write_def)
    (rule conveys_steps | simp add: TagNames_cases_def TagNames_create_def)+

record TagsCandidate_msg =
  TagsCandidate_confidence :: int
  TagsCandidate_value :: "TagNames_msg option"

definition TagsCandidate_create :: TagsCandidate_msg where
  "TagsCandidate_create =
     \<lparr>TagsCandidate_confidence = 0, TagsCandidate_value = None\<rparr>"

definition TagsCandidate_cases :: "'b wire_runtime \<Rightarrow> (nat \<times> ('b, TagsCandidate_msg) field_reader) list" where
  "TagsCandidate_cases rt =
     [(1, get (rd_int32 rt) (\<lambda>v m. m\<lparr>TagsCandidate_confidence := v\<rparr>)),
      (2, get_message rt TagNames_create (TagNames_read rt) TagsCandidate_value (\<lambda>v m. m\<lparr>TagsCandidate_value := v\<rparr>))]"

definition TagsCandidate_read :: "'b wire_runtime \<Rightarrow> int \<Rightarrow> TagsCandidate_msg \<Rightarrow> ('b, TagsCandidate_msg) rd" where
  "TagsCandidate_read rt = read_message rt (TagsCandidate_cases rt)"

definition TagsCandidate_write :: "'b wire_runtime \<Rightarrow> TagsCandidate_msg \<Rightarrow> 'b list option" where
  "TagsCandidate_write rt m =
     cat [put_int32 rt 1 (TagsCandidate_confidence m),
          put_message rt 2 (TagNames_write rt) (TagsCandidate_value m)]"

lemma TagsCandidate_codec [simp]: "runtime_ok rt \<Longrightarrow> codec TagsCandidate_create (TagsCandidate_read rt) (TagsCandidate_write rt)"
  unfolding TagsCandidate_read_def by (rule codec_by_fields, unfold TagsCandidate_write_def)
    (rule conveys_steps | simp add: TagsCandidate_cases_def TagsCandidate_create_def)+

record TransactionDraft_msg =
  TransactionDraft_origins :: "OriginKey_msg list"
  TransactionDraft_recordedTransactionIds :: "int list"
  TransactionDraft_formType :: "FormTypeCandidate_msg list"
  TransactionDraft_timestamp :: "TimestampCandidate_msg list"
  TransactionDraft_amount :: "MoneyCandidate_msg list"
  TransactionDraft_ownShareAmount :: "MoneyCandidate_msg list"
  TransactionDraft_amountReceived :: "MoneyCandidate_msg list"
  TransactionDraft_accountFromId :: "IdCandidate_msg list"
  TransactionDraft_accountToId :: "IdCandidate_msg list"
  TransactionDraft_categoryId :: "IdCandidate_msg list"
  TransactionDraft_vendor :: "StringCandidate_msg list"
  TransactionDraft_payer :: "StringCandidate_msg list"
  TransactionDraft_description :: "StringCandidate_msg list"
  TransactionDraft_companion :: "StringCandidate_msg list"
  TransactionDraft_currency :: "StringCandidate_msg list"
  TransactionDraft_sharingType :: "SharingTypeCandidate_msg list"
  TransactionDraft_tags :: "TagsCandidate_msg list"
  TransactionDraft_tripName :: "StringCandidate_msg list"
  TransactionDraft_repaymentCategoryId :: "IdCandidate_msg list"
  TransactionDraft_parentTransactionId :: "IdCandidate_msg list"

definition TransactionDraft_create :: TransactionDraft_msg where
  "TransactionDraft_create =
     \<lparr>TransactionDraft_origins = [], TransactionDraft_recordedTransactionIds = [],
       TransactionDraft_formType = [], TransactionDraft_timestamp = [], TransactionDraft_amount = [],
       TransactionDraft_ownShareAmount = [], TransactionDraft_amountReceived = [],
       TransactionDraft_accountFromId = [], TransactionDraft_accountToId = [],
       TransactionDraft_categoryId = [], TransactionDraft_vendor = [], TransactionDraft_payer = [],
       TransactionDraft_description = [], TransactionDraft_companion = [], TransactionDraft_currency = [],
       TransactionDraft_sharingType = [], TransactionDraft_tags = [], TransactionDraft_tripName = [],
       TransactionDraft_repaymentCategoryId = [], TransactionDraft_parentTransactionId = []\<rparr>"

definition TransactionDraft_cases :: "'b wire_runtime \<Rightarrow> (nat \<times> ('b, TransactionDraft_msg) field_reader) list" where
  "TransactionDraft_cases rt =
     [(1, get_messages rt OriginKey_create (OriginKey_read rt) TransactionDraft_origins (\<lambda>v m. m\<lparr>TransactionDraft_origins := v\<rparr>)),
      (2, get_packed_int32 rt TransactionDraft_recordedTransactionIds (\<lambda>v m. m\<lparr>TransactionDraft_recordedTransactionIds := v\<rparr>)),
      (3, get_messages rt FormTypeCandidate_create (FormTypeCandidate_read rt) TransactionDraft_formType (\<lambda>v m. m\<lparr>TransactionDraft_formType := v\<rparr>)),
      (4, get_messages rt TimestampCandidate_create (TimestampCandidate_read rt) TransactionDraft_timestamp (\<lambda>v m. m\<lparr>TransactionDraft_timestamp := v\<rparr>)),
      (5, get_messages rt MoneyCandidate_create (MoneyCandidate_read rt) TransactionDraft_amount (\<lambda>v m. m\<lparr>TransactionDraft_amount := v\<rparr>)),
      (6, get_messages rt MoneyCandidate_create (MoneyCandidate_read rt) TransactionDraft_ownShareAmount (\<lambda>v m. m\<lparr>TransactionDraft_ownShareAmount := v\<rparr>)),
      (7, get_messages rt MoneyCandidate_create (MoneyCandidate_read rt) TransactionDraft_amountReceived (\<lambda>v m. m\<lparr>TransactionDraft_amountReceived := v\<rparr>)),
      (8, get_messages rt IdCandidate_create (IdCandidate_read rt) TransactionDraft_accountFromId (\<lambda>v m. m\<lparr>TransactionDraft_accountFromId := v\<rparr>)),
      (9, get_messages rt IdCandidate_create (IdCandidate_read rt) TransactionDraft_accountToId (\<lambda>v m. m\<lparr>TransactionDraft_accountToId := v\<rparr>)),
      (10, get_messages rt IdCandidate_create (IdCandidate_read rt) TransactionDraft_categoryId (\<lambda>v m. m\<lparr>TransactionDraft_categoryId := v\<rparr>)),
      (11, get_messages rt StringCandidate_create (StringCandidate_read rt) TransactionDraft_vendor (\<lambda>v m. m\<lparr>TransactionDraft_vendor := v\<rparr>)),
      (12, get_messages rt StringCandidate_create (StringCandidate_read rt) TransactionDraft_payer (\<lambda>v m. m\<lparr>TransactionDraft_payer := v\<rparr>)),
      (13, get_messages rt StringCandidate_create (StringCandidate_read rt) TransactionDraft_description (\<lambda>v m. m\<lparr>TransactionDraft_description := v\<rparr>)),
      (14, get_messages rt StringCandidate_create (StringCandidate_read rt) TransactionDraft_companion (\<lambda>v m. m\<lparr>TransactionDraft_companion := v\<rparr>)),
      (15, get_messages rt StringCandidate_create (StringCandidate_read rt) TransactionDraft_currency (\<lambda>v m. m\<lparr>TransactionDraft_currency := v\<rparr>)),
      (16, get_messages rt SharingTypeCandidate_create (SharingTypeCandidate_read rt) TransactionDraft_sharingType (\<lambda>v m. m\<lparr>TransactionDraft_sharingType := v\<rparr>)),
      (17, get_messages rt TagsCandidate_create (TagsCandidate_read rt) TransactionDraft_tags (\<lambda>v m. m\<lparr>TransactionDraft_tags := v\<rparr>)),
      (18, get_messages rt StringCandidate_create (StringCandidate_read rt) TransactionDraft_tripName (\<lambda>v m. m\<lparr>TransactionDraft_tripName := v\<rparr>)),
      (19, get_messages rt IdCandidate_create (IdCandidate_read rt) TransactionDraft_repaymentCategoryId (\<lambda>v m. m\<lparr>TransactionDraft_repaymentCategoryId := v\<rparr>)),
      (20, get_messages rt IdCandidate_create (IdCandidate_read rt) TransactionDraft_parentTransactionId (\<lambda>v m. m\<lparr>TransactionDraft_parentTransactionId := v\<rparr>))]"

definition TransactionDraft_read :: "'b wire_runtime \<Rightarrow> int \<Rightarrow> TransactionDraft_msg \<Rightarrow> ('b, TransactionDraft_msg) rd" where
  "TransactionDraft_read rt = read_message rt (TransactionDraft_cases rt)"

definition TransactionDraft_write :: "'b wire_runtime \<Rightarrow> TransactionDraft_msg \<Rightarrow> 'b list option" where
  "TransactionDraft_write rt m =
     cat [put_messages rt 1 (OriginKey_write rt) (TransactionDraft_origins m),
          put_packed_int32 rt 2 (TransactionDraft_recordedTransactionIds m),
          put_messages rt 3 (FormTypeCandidate_write rt) (TransactionDraft_formType m),
          put_messages rt 4 (TimestampCandidate_write rt) (TransactionDraft_timestamp m),
          put_messages rt 5 (MoneyCandidate_write rt) (TransactionDraft_amount m),
          put_messages rt 6 (MoneyCandidate_write rt) (TransactionDraft_ownShareAmount m),
          put_messages rt 7 (MoneyCandidate_write rt) (TransactionDraft_amountReceived m),
          put_messages rt 8 (IdCandidate_write rt) (TransactionDraft_accountFromId m),
          put_messages rt 9 (IdCandidate_write rt) (TransactionDraft_accountToId m),
          put_messages rt 10 (IdCandidate_write rt) (TransactionDraft_categoryId m),
          put_messages rt 11 (StringCandidate_write rt) (TransactionDraft_vendor m),
          put_messages rt 12 (StringCandidate_write rt) (TransactionDraft_payer m),
          put_messages rt 13 (StringCandidate_write rt) (TransactionDraft_description m),
          put_messages rt 14 (StringCandidate_write rt) (TransactionDraft_companion m),
          put_messages rt 15 (StringCandidate_write rt) (TransactionDraft_currency m),
          put_messages rt 16 (SharingTypeCandidate_write rt) (TransactionDraft_sharingType m),
          put_messages rt 17 (TagsCandidate_write rt) (TransactionDraft_tags m),
          put_messages rt 18 (StringCandidate_write rt) (TransactionDraft_tripName m),
          put_messages rt 19 (IdCandidate_write rt) (TransactionDraft_repaymentCategoryId m),
          put_messages rt 20 (IdCandidate_write rt) (TransactionDraft_parentTransactionId m)]"

lemma TransactionDraft_codec [simp]: "runtime_ok rt \<Longrightarrow> codec TransactionDraft_create (TransactionDraft_read rt) (TransactionDraft_write rt)"
  unfolding TransactionDraft_read_def by (rule codec_by_fields, unfold TransactionDraft_write_def)
    (rule conveys_steps | simp add: TransactionDraft_cases_def TransactionDraft_create_def)+

record SuggestResponse_msg =
  SuggestResponse_drafts :: "TransactionDraft_msg list"

definition SuggestResponse_create :: SuggestResponse_msg where
  "SuggestResponse_create =
     \<lparr>SuggestResponse_drafts = []\<rparr>"

definition SuggestResponse_cases :: "'b wire_runtime \<Rightarrow> (nat \<times> ('b, SuggestResponse_msg) field_reader) list" where
  "SuggestResponse_cases rt =
     [(1, get_messages rt TransactionDraft_create (TransactionDraft_read rt) SuggestResponse_drafts (\<lambda>v m. m\<lparr>SuggestResponse_drafts := v\<rparr>))]"

definition SuggestResponse_read :: "'b wire_runtime \<Rightarrow> int \<Rightarrow> SuggestResponse_msg \<Rightarrow> ('b, SuggestResponse_msg) rd" where
  "SuggestResponse_read rt = read_message rt (SuggestResponse_cases rt)"

definition SuggestResponse_write :: "'b wire_runtime \<Rightarrow> SuggestResponse_msg \<Rightarrow> 'b list option" where
  "SuggestResponse_write rt m =
     cat [put_messages rt 1 (TransactionDraft_write rt) (SuggestResponse_drafts m)]"

lemma SuggestResponse_codec [simp]: "runtime_ok rt \<Longrightarrow> codec SuggestResponse_create (SuggestResponse_read rt) (SuggestResponse_write rt)"
  unfolding SuggestResponse_read_def by (rule codec_by_fields, unfold SuggestResponse_write_def)
    (rule conveys_steps | simp add: SuggestResponse_cases_def SuggestResponse_create_def)+

end
