(* ===== verification/WireBanking.thy ===== *)
theory WireBanking
  imports WireLedger
begin

text \<open>
  The messages of lib/grpc/gen/prosper/v1/rates.ts and openbanking.ts, set out like those of theory WireLedger.
\<close>

record SearchStocksRequest_msg =
  SearchStocksRequest_sessionId :: string
  SearchStocksRequest_query :: string

definition SearchStocksRequest_create :: SearchStocksRequest_msg where
  "SearchStocksRequest_create =
     \<lparr>SearchStocksRequest_sessionId = [], SearchStocksRequest_query = []\<rparr>"

definition SearchStocksRequest_cases :: "'b wire_runtime \<Rightarrow> (nat \<times> ('b, SearchStocksRequest_msg) field_reader) list" where
  "SearchStocksRequest_cases rt =
     [(1, get (rd_string rt) (\<lambda>v m. m\<lparr>SearchStocksRequest_sessionId := v\<rparr>)),
      (2, get (rd_string rt) (\<lambda>v m. m\<lparr>SearchStocksRequest_query := v\<rparr>))]"

definition SearchStocksRequest_read :: "'b wire_runtime \<Rightarrow> int \<Rightarrow> SearchStocksRequest_msg \<Rightarrow> ('b, SearchStocksRequest_msg) rd" where
  "SearchStocksRequest_read rt = read_message rt (SearchStocksRequest_cases rt)"

definition SearchStocksRequest_write :: "'b wire_runtime \<Rightarrow> SearchStocksRequest_msg \<Rightarrow> 'b list option" where
  "SearchStocksRequest_write rt m =
     cat [put_string rt 1 (SearchStocksRequest_sessionId m), put_string rt 2 (SearchStocksRequest_query m)]"

lemma SearchStocksRequest_codec [simp]: "runtime_ok rt \<Longrightarrow> codec SearchStocksRequest_create (SearchStocksRequest_read rt) (SearchStocksRequest_write rt)"
  unfolding SearchStocksRequest_read_def by (rule codec_by_fields, unfold SearchStocksRequest_write_def)
    (rule conveys_steps | simp add: SearchStocksRequest_cases_def SearchStocksRequest_create_def)+

record StockSearchResult_msg =
  StockSearchResult_exchange :: string
  StockSearchResult_ticker :: string
  StockSearchResult_name :: string
  StockSearchResult_pricePerShareNanos :: int
  StockSearchResult_currencyCode :: string

definition StockSearchResult_create :: StockSearchResult_msg where
  "StockSearchResult_create =
     \<lparr>StockSearchResult_exchange = [], StockSearchResult_ticker = [], StockSearchResult_name = [],
       StockSearchResult_pricePerShareNanos = 0, StockSearchResult_currencyCode = []\<rparr>"

definition StockSearchResult_cases :: "'b wire_runtime \<Rightarrow> (nat \<times> ('b, StockSearchResult_msg) field_reader) list" where
  "StockSearchResult_cases rt =
     [(1, get (rd_string rt) (\<lambda>v m. m\<lparr>StockSearchResult_exchange := v\<rparr>)),
      (2, get (rd_string rt) (\<lambda>v m. m\<lparr>StockSearchResult_ticker := v\<rparr>)),
      (3, get (rd_string rt) (\<lambda>v m. m\<lparr>StockSearchResult_name := v\<rparr>)),
      (4, get (rd_int64 rt) (\<lambda>v m. m\<lparr>StockSearchResult_pricePerShareNanos := v\<rparr>)),
      (5, get (rd_string rt) (\<lambda>v m. m\<lparr>StockSearchResult_currencyCode := v\<rparr>))]"

definition StockSearchResult_read :: "'b wire_runtime \<Rightarrow> int \<Rightarrow> StockSearchResult_msg \<Rightarrow> ('b, StockSearchResult_msg) rd" where
  "StockSearchResult_read rt = read_message rt (StockSearchResult_cases rt)"

definition StockSearchResult_write :: "'b wire_runtime \<Rightarrow> StockSearchResult_msg \<Rightarrow> 'b list option" where
  "StockSearchResult_write rt m =
     cat [put_string rt 1 (StockSearchResult_exchange m), put_string rt 2 (StockSearchResult_ticker m),
          put_string rt 3 (StockSearchResult_name m), put_int64 rt 4 (StockSearchResult_pricePerShareNanos m),
          put_string rt 5 (StockSearchResult_currencyCode m)]"

lemma StockSearchResult_codec [simp]: "runtime_ok rt \<Longrightarrow> codec StockSearchResult_create (StockSearchResult_read rt) (StockSearchResult_write rt)"
  unfolding StockSearchResult_read_def by (rule codec_by_fields, unfold StockSearchResult_write_def)
    (rule conveys_steps | simp add: StockSearchResult_cases_def StockSearchResult_create_def)+

record SearchStocksResponse_msg =
  SearchStocksResponse_stocks :: "StockSearchResult_msg list"

definition SearchStocksResponse_create :: SearchStocksResponse_msg where
  "SearchStocksResponse_create =
     \<lparr>SearchStocksResponse_stocks = []\<rparr>"

definition SearchStocksResponse_cases :: "'b wire_runtime \<Rightarrow> (nat \<times> ('b, SearchStocksResponse_msg) field_reader) list" where
  "SearchStocksResponse_cases rt =
     [(1, get_messages rt StockSearchResult_create (StockSearchResult_read rt) SearchStocksResponse_stocks (\<lambda>v m. m\<lparr>SearchStocksResponse_stocks := v\<rparr>))]"

definition SearchStocksResponse_read :: "'b wire_runtime \<Rightarrow> int \<Rightarrow> SearchStocksResponse_msg \<Rightarrow> ('b, SearchStocksResponse_msg) rd" where
  "SearchStocksResponse_read rt = read_message rt (SearchStocksResponse_cases rt)"

definition SearchStocksResponse_write :: "'b wire_runtime \<Rightarrow> SearchStocksResponse_msg \<Rightarrow> 'b list option" where
  "SearchStocksResponse_write rt m =
     cat [put_messages rt 1 (StockSearchResult_write rt) (SearchStocksResponse_stocks m)]"

lemma SearchStocksResponse_codec [simp]: "runtime_ok rt \<Longrightarrow> codec SearchStocksResponse_create (SearchStocksResponse_read rt) (SearchStocksResponse_write rt)"
  unfolding SearchStocksResponse_read_def by (rule codec_by_fields, unfold SearchStocksResponse_write_def)
    (rule conveys_steps | simp add: SearchStocksResponse_cases_def SearchStocksResponse_create_def)+

record GetMarketDataForUserRequest_msg =
  GetMarketDataForUserRequest_sessionId :: string

definition GetMarketDataForUserRequest_create :: GetMarketDataForUserRequest_msg where
  "GetMarketDataForUserRequest_create =
     \<lparr>GetMarketDataForUserRequest_sessionId = []\<rparr>"

definition GetMarketDataForUserRequest_cases :: "'b wire_runtime \<Rightarrow> (nat \<times> ('b, GetMarketDataForUserRequest_msg) field_reader) list" where
  "GetMarketDataForUserRequest_cases rt =
     [(1, get (rd_string rt) (\<lambda>v m. m\<lparr>GetMarketDataForUserRequest_sessionId := v\<rparr>))]"

definition GetMarketDataForUserRequest_read :: "'b wire_runtime \<Rightarrow> int \<Rightarrow> GetMarketDataForUserRequest_msg \<Rightarrow> ('b, GetMarketDataForUserRequest_msg) rd" where
  "GetMarketDataForUserRequest_read rt = read_message rt (GetMarketDataForUserRequest_cases rt)"

definition GetMarketDataForUserRequest_write :: "'b wire_runtime \<Rightarrow> GetMarketDataForUserRequest_msg \<Rightarrow> 'b list option" where
  "GetMarketDataForUserRequest_write rt m =
     cat [put_string rt 1 (GetMarketDataForUserRequest_sessionId m)]"

lemma GetMarketDataForUserRequest_codec [simp]: "runtime_ok rt \<Longrightarrow> codec GetMarketDataForUserRequest_create (GetMarketDataForUserRequest_read rt) (GetMarketDataForUserRequest_write rt)"
  unfolding GetMarketDataForUserRequest_read_def by (rule codec_by_fields, unfold GetMarketDataForUserRequest_write_def)
    (rule conveys_steps | simp add: GetMarketDataForUserRequest_cases_def GetMarketDataForUserRequest_create_def)+

record ExchangeRate_msg =
  ExchangeRate_currencyCodeFrom :: string
  ExchangeRate_currencyCodeTo :: string
  ExchangeRate_rateTimestamp :: "Timestamp_msg option"
  ExchangeRate_rateNanos :: int

definition ExchangeRate_create :: ExchangeRate_msg where
  "ExchangeRate_create =
     \<lparr>ExchangeRate_currencyCodeFrom = [], ExchangeRate_currencyCodeTo = [], ExchangeRate_rateTimestamp = None,
       ExchangeRate_rateNanos = 0\<rparr>"

definition ExchangeRate_cases :: "'b wire_runtime \<Rightarrow> (nat \<times> ('b, ExchangeRate_msg) field_reader) list" where
  "ExchangeRate_cases rt =
     [(1, get (rd_string rt) (\<lambda>v m. m\<lparr>ExchangeRate_currencyCodeFrom := v\<rparr>)),
      (2, get (rd_string rt) (\<lambda>v m. m\<lparr>ExchangeRate_currencyCodeTo := v\<rparr>)),
      (3, get_message rt Timestamp_create (Timestamp_read rt) ExchangeRate_rateTimestamp (\<lambda>v m. m\<lparr>ExchangeRate_rateTimestamp := v\<rparr>)),
      (4, get (rd_int64 rt) (\<lambda>v m. m\<lparr>ExchangeRate_rateNanos := v\<rparr>))]"

definition ExchangeRate_read :: "'b wire_runtime \<Rightarrow> int \<Rightarrow> ExchangeRate_msg \<Rightarrow> ('b, ExchangeRate_msg) rd" where
  "ExchangeRate_read rt = read_message rt (ExchangeRate_cases rt)"

definition ExchangeRate_write :: "'b wire_runtime \<Rightarrow> ExchangeRate_msg \<Rightarrow> 'b list option" where
  "ExchangeRate_write rt m =
     cat [put_string rt 1 (ExchangeRate_currencyCodeFrom m), put_string rt 2 (ExchangeRate_currencyCodeTo m),
          put_message rt 3 (Timestamp_write rt) (ExchangeRate_rateTimestamp m),
          put_int64 rt 4 (ExchangeRate_rateNanos m)]"

lemma ExchangeRate_codec [simp]: "runtime_ok rt \<Longrightarrow> codec ExchangeRate_create (ExchangeRate_read rt) (ExchangeRate_write rt)"
  unfolding ExchangeRate_read_def by (rule codec_by_fields, unfold ExchangeRate_write_def)
    (rule conveys_steps | simp add: ExchangeRate_cases_def ExchangeRate_create_def)+

record StockQuote_msg =
  StockQuote_stockExchange :: string
  StockQuote_stockTicker :: string
  StockQuote_quoteTimestamp :: "Timestamp_msg option"
  StockQuote_pricePerShareNanos :: int

definition StockQuote_create :: StockQuote_msg where
  "StockQuote_create =
     \<lparr>StockQuote_stockExchange = [], StockQuote_stockTicker = [], StockQuote_quoteTimestamp = None,
       StockQuote_pricePerShareNanos = 0\<rparr>"

definition StockQuote_cases :: "'b wire_runtime \<Rightarrow> (nat \<times> ('b, StockQuote_msg) field_reader) list" where
  "StockQuote_cases rt =
     [(1, get (rd_string rt) (\<lambda>v m. m\<lparr>StockQuote_stockExchange := v\<rparr>)),
      (2, get (rd_string rt) (\<lambda>v m. m\<lparr>StockQuote_stockTicker := v\<rparr>)),
      (3, get_message rt Timestamp_create (Timestamp_read rt) StockQuote_quoteTimestamp (\<lambda>v m. m\<lparr>StockQuote_quoteTimestamp := v\<rparr>)),
      (4, get (rd_int64 rt) (\<lambda>v m. m\<lparr>StockQuote_pricePerShareNanos := v\<rparr>))]"

definition StockQuote_read :: "'b wire_runtime \<Rightarrow> int \<Rightarrow> StockQuote_msg \<Rightarrow> ('b, StockQuote_msg) rd" where
  "StockQuote_read rt = read_message rt (StockQuote_cases rt)"

definition StockQuote_write :: "'b wire_runtime \<Rightarrow> StockQuote_msg \<Rightarrow> 'b list option" where
  "StockQuote_write rt m =
     cat [put_string rt 1 (StockQuote_stockExchange m), put_string rt 2 (StockQuote_stockTicker m),
          put_message rt 3 (Timestamp_write rt) (StockQuote_quoteTimestamp m),
          put_int64 rt 4 (StockQuote_pricePerShareNanos m)]"

lemma StockQuote_codec [simp]: "runtime_ok rt \<Longrightarrow> codec StockQuote_create (StockQuote_read rt) (StockQuote_write rt)"
  unfolding StockQuote_read_def by (rule codec_by_fields, unfold StockQuote_write_def)
    (rule conveys_steps | simp add: StockQuote_cases_def StockQuote_create_def)+

record GetMarketDataForUserResponse_msg =
  GetMarketDataForUserResponse_rates :: "ExchangeRate_msg list"
  GetMarketDataForUserResponse_quotes :: "StockQuote_msg list"

definition GetMarketDataForUserResponse_create :: GetMarketDataForUserResponse_msg where
  "GetMarketDataForUserResponse_create =
     \<lparr>GetMarketDataForUserResponse_rates = [], GetMarketDataForUserResponse_quotes = []\<rparr>"

definition GetMarketDataForUserResponse_cases :: "'b wire_runtime \<Rightarrow> (nat \<times> ('b, GetMarketDataForUserResponse_msg) field_reader) list" where
  "GetMarketDataForUserResponse_cases rt =
     [(1, get_messages rt ExchangeRate_create (ExchangeRate_read rt) GetMarketDataForUserResponse_rates (\<lambda>v m. m\<lparr>GetMarketDataForUserResponse_rates := v\<rparr>)),
      (2, get_messages rt StockQuote_create (StockQuote_read rt) GetMarketDataForUserResponse_quotes (\<lambda>v m. m\<lparr>GetMarketDataForUserResponse_quotes := v\<rparr>))]"

definition GetMarketDataForUserResponse_read :: "'b wire_runtime \<Rightarrow> int \<Rightarrow> GetMarketDataForUserResponse_msg \<Rightarrow> ('b, GetMarketDataForUserResponse_msg) rd" where
  "GetMarketDataForUserResponse_read rt = read_message rt (GetMarketDataForUserResponse_cases rt)"

definition GetMarketDataForUserResponse_write :: "'b wire_runtime \<Rightarrow> GetMarketDataForUserResponse_msg \<Rightarrow> 'b list option" where
  "GetMarketDataForUserResponse_write rt m =
     cat [put_messages rt 1 (ExchangeRate_write rt) (GetMarketDataForUserResponse_rates m),
          put_messages rt 2 (StockQuote_write rt) (GetMarketDataForUserResponse_quotes m)]"

lemma GetMarketDataForUserResponse_codec [simp]: "runtime_ok rt \<Longrightarrow> codec GetMarketDataForUserResponse_create (GetMarketDataForUserResponse_read rt) (GetMarketDataForUserResponse_write rt)"
  unfolding GetMarketDataForUserResponse_read_def by (rule codec_by_fields, unfold GetMarketDataForUserResponse_write_def)
    (rule conveys_steps | simp add: GetMarketDataForUserResponse_cases_def GetMarketDataForUserResponse_create_def)+

record GetFetchMetadataRequest_msg =
  GetFetchMetadataRequest_sessionId :: string

definition GetFetchMetadataRequest_create :: GetFetchMetadataRequest_msg where
  "GetFetchMetadataRequest_create =
     \<lparr>GetFetchMetadataRequest_sessionId = []\<rparr>"

definition GetFetchMetadataRequest_cases :: "'b wire_runtime \<Rightarrow> (nat \<times> ('b, GetFetchMetadataRequest_msg) field_reader) list" where
  "GetFetchMetadataRequest_cases rt =
     [(1, get (rd_string rt) (\<lambda>v m. m\<lparr>GetFetchMetadataRequest_sessionId := v\<rparr>))]"

definition GetFetchMetadataRequest_read :: "'b wire_runtime \<Rightarrow> int \<Rightarrow> GetFetchMetadataRequest_msg \<Rightarrow> ('b, GetFetchMetadataRequest_msg) rd" where
  "GetFetchMetadataRequest_read rt = read_message rt (GetFetchMetadataRequest_cases rt)"

definition GetFetchMetadataRequest_write :: "'b wire_runtime \<Rightarrow> GetFetchMetadataRequest_msg \<Rightarrow> 'b list option" where
  "GetFetchMetadataRequest_write rt m =
     cat [put_string rt 1 (GetFetchMetadataRequest_sessionId m)]"

lemma GetFetchMetadataRequest_codec [simp]: "runtime_ok rt \<Longrightarrow> codec GetFetchMetadataRequest_create (GetFetchMetadataRequest_read rt) (GetFetchMetadataRequest_write rt)"
  unfolding GetFetchMetadataRequest_read_def by (rule codec_by_fields, unfold GetFetchMetadataRequest_write_def)
    (rule conveys_steps | simp add: GetFetchMetadataRequest_cases_def GetFetchMetadataRequest_create_def)+

record AccountFetchMetadata_msg =
  AccountFetchMetadata_internalAccountId :: int
  AccountFetchMetadata_lastSyncSuccessAt :: "Timestamp_msg option"
  AccountFetchMetadata_balanceNanos :: "int option"
  AccountFetchMetadata_lastSyncError :: string

definition AccountFetchMetadata_create :: AccountFetchMetadata_msg where
  "AccountFetchMetadata_create =
     \<lparr>AccountFetchMetadata_internalAccountId = 0, AccountFetchMetadata_lastSyncSuccessAt = None,
       AccountFetchMetadata_balanceNanos = None, AccountFetchMetadata_lastSyncError = []\<rparr>"

definition AccountFetchMetadata_cases :: "'b wire_runtime \<Rightarrow> (nat \<times> ('b, AccountFetchMetadata_msg) field_reader) list" where
  "AccountFetchMetadata_cases rt =
     [(1, get (rd_int32 rt) (\<lambda>v m. m\<lparr>AccountFetchMetadata_internalAccountId := v\<rparr>)),
      (2, get_message rt Timestamp_create (Timestamp_read rt) AccountFetchMetadata_lastSyncSuccessAt (\<lambda>v m. m\<lparr>AccountFetchMetadata_lastSyncSuccessAt := v\<rparr>)),
      (3, get_opt (rd_int64 rt) (\<lambda>v m. m\<lparr>AccountFetchMetadata_balanceNanos := v\<rparr>)),
      (4, get (rd_string rt) (\<lambda>v m. m\<lparr>AccountFetchMetadata_lastSyncError := v\<rparr>))]"

definition AccountFetchMetadata_read :: "'b wire_runtime \<Rightarrow> int \<Rightarrow> AccountFetchMetadata_msg \<Rightarrow> ('b, AccountFetchMetadata_msg) rd" where
  "AccountFetchMetadata_read rt = read_message rt (AccountFetchMetadata_cases rt)"

definition AccountFetchMetadata_write :: "'b wire_runtime \<Rightarrow> AccountFetchMetadata_msg \<Rightarrow> 'b list option" where
  "AccountFetchMetadata_write rt m =
     cat [put_int32 rt 1 (AccountFetchMetadata_internalAccountId m),
          put_message rt 2 (Timestamp_write rt) (AccountFetchMetadata_lastSyncSuccessAt m),
          put_opt_int64 rt 3 (AccountFetchMetadata_balanceNanos m),
          put_string rt 4 (AccountFetchMetadata_lastSyncError m)]"

lemma AccountFetchMetadata_codec [simp]: "runtime_ok rt \<Longrightarrow> codec AccountFetchMetadata_create (AccountFetchMetadata_read rt) (AccountFetchMetadata_write rt)"
  unfolding AccountFetchMetadata_read_def by (rule codec_by_fields, unfold AccountFetchMetadata_write_def)
    (rule conveys_steps | simp add: AccountFetchMetadata_cases_def AccountFetchMetadata_create_def)+

record GetFetchMetadataResponse_msg =
  GetFetchMetadataResponse_accounts :: "AccountFetchMetadata_msg list"

definition GetFetchMetadataResponse_create :: GetFetchMetadataResponse_msg where
  "GetFetchMetadataResponse_create =
     \<lparr>GetFetchMetadataResponse_accounts = []\<rparr>"

definition GetFetchMetadataResponse_cases :: "'b wire_runtime \<Rightarrow> (nat \<times> ('b, GetFetchMetadataResponse_msg) field_reader) list" where
  "GetFetchMetadataResponse_cases rt =
     [(1, get_messages rt AccountFetchMetadata_create (AccountFetchMetadata_read rt) GetFetchMetadataResponse_accounts (\<lambda>v m. m\<lparr>GetFetchMetadataResponse_accounts := v\<rparr>))]"

definition GetFetchMetadataResponse_read :: "'b wire_runtime \<Rightarrow> int \<Rightarrow> GetFetchMetadataResponse_msg \<Rightarrow> ('b, GetFetchMetadataResponse_msg) rd" where
  "GetFetchMetadataResponse_read rt = read_message rt (GetFetchMetadataResponse_cases rt)"

definition GetFetchMetadataResponse_write :: "'b wire_runtime \<Rightarrow> GetFetchMetadataResponse_msg \<Rightarrow> 'b list option" where
  "GetFetchMetadataResponse_write rt m =
     cat [put_messages rt 1 (AccountFetchMetadata_write rt) (GetFetchMetadataResponse_accounts m)]"

lemma GetFetchMetadataResponse_codec [simp]: "runtime_ok rt \<Longrightarrow> codec GetFetchMetadataResponse_create (GetFetchMetadataResponse_read rt) (GetFetchMetadataResponse_write rt)"
  unfolding GetFetchMetadataResponse_read_def by (rule codec_by_fields, unfold GetFetchMetadataResponse_write_def)
    (rule conveys_steps | simp add: GetFetchMetadataResponse_cases_def GetFetchMetadataResponse_create_def)+

record FetchNowRequest_msg =
  FetchNowRequest_internalAccountId :: int
  FetchNowRequest_sessionId :: string

definition FetchNowRequest_create :: FetchNowRequest_msg where
  "FetchNowRequest_create =
     \<lparr>FetchNowRequest_internalAccountId = 0, FetchNowRequest_sessionId = []\<rparr>"

definition FetchNowRequest_cases :: "'b wire_runtime \<Rightarrow> (nat \<times> ('b, FetchNowRequest_msg) field_reader) list" where
  "FetchNowRequest_cases rt =
     [(1, get (rd_int32 rt) (\<lambda>v m. m\<lparr>FetchNowRequest_internalAccountId := v\<rparr>)),
      (2, get (rd_string rt) (\<lambda>v m. m\<lparr>FetchNowRequest_sessionId := v\<rparr>))]"

definition FetchNowRequest_read :: "'b wire_runtime \<Rightarrow> int \<Rightarrow> FetchNowRequest_msg \<Rightarrow> ('b, FetchNowRequest_msg) rd" where
  "FetchNowRequest_read rt = read_message rt (FetchNowRequest_cases rt)"

definition FetchNowRequest_write :: "'b wire_runtime \<Rightarrow> FetchNowRequest_msg \<Rightarrow> 'b list option" where
  "FetchNowRequest_write rt m =
     cat [put_int32 rt 1 (FetchNowRequest_internalAccountId m), put_string rt 2 (FetchNowRequest_sessionId m)]"

lemma FetchNowRequest_codec [simp]: "runtime_ok rt \<Longrightarrow> codec FetchNowRequest_create (FetchNowRequest_read rt) (FetchNowRequest_write rt)"
  unfolding FetchNowRequest_read_def by (rule codec_by_fields, unfold FetchNowRequest_write_def)
    (rule conveys_steps | simp add: FetchNowRequest_cases_def FetchNowRequest_create_def)+

record GetConnectionStatusRequest_msg =
  GetConnectionStatusRequest_sessionId :: string

definition GetConnectionStatusRequest_create :: GetConnectionStatusRequest_msg where
  "GetConnectionStatusRequest_create =
     \<lparr>GetConnectionStatusRequest_sessionId = []\<rparr>"

definition GetConnectionStatusRequest_cases :: "'b wire_runtime \<Rightarrow> (nat \<times> ('b, GetConnectionStatusRequest_msg) field_reader) list" where
  "GetConnectionStatusRequest_cases rt =
     [(1, get (rd_string rt) (\<lambda>v m. m\<lparr>GetConnectionStatusRequest_sessionId := v\<rparr>))]"

definition GetConnectionStatusRequest_read :: "'b wire_runtime \<Rightarrow> int \<Rightarrow> GetConnectionStatusRequest_msg \<Rightarrow> ('b, GetConnectionStatusRequest_msg) rd" where
  "GetConnectionStatusRequest_read rt = read_message rt (GetConnectionStatusRequest_cases rt)"

definition GetConnectionStatusRequest_write :: "'b wire_runtime \<Rightarrow> GetConnectionStatusRequest_msg \<Rightarrow> 'b list option" where
  "GetConnectionStatusRequest_write rt m =
     cat [put_string rt 1 (GetConnectionStatusRequest_sessionId m)]"

lemma GetConnectionStatusRequest_codec [simp]: "runtime_ok rt \<Longrightarrow> codec GetConnectionStatusRequest_create (GetConnectionStatusRequest_read rt) (GetConnectionStatusRequest_write rt)"
  unfolding GetConnectionStatusRequest_read_def by (rule codec_by_fields, unfold GetConnectionStatusRequest_write_def)
    (rule conveys_steps | simp add: GetConnectionStatusRequest_cases_def GetConnectionStatusRequest_create_def)+

record ConnectionExpiration_msg =
  ConnectionExpiration_bankId :: int
  ConnectionExpiration_expiresAt :: "Timestamp_msg option"
  ConnectionExpiration_provider :: int

definition ConnectionExpiration_create :: ConnectionExpiration_msg where
  "ConnectionExpiration_create =
     \<lparr>ConnectionExpiration_bankId = 0, ConnectionExpiration_expiresAt = None, ConnectionExpiration_provider = 0\<rparr>"

definition ConnectionExpiration_cases :: "'b wire_runtime \<Rightarrow> (nat \<times> ('b, ConnectionExpiration_msg) field_reader) list" where
  "ConnectionExpiration_cases rt =
     [(1, get (rd_int32 rt) (\<lambda>v m. m\<lparr>ConnectionExpiration_bankId := v\<rparr>)),
      (2, get_message rt Timestamp_create (Timestamp_read rt) ConnectionExpiration_expiresAt (\<lambda>v m. m\<lparr>ConnectionExpiration_expiresAt := v\<rparr>)),
      (3, get (rd_int32 rt) (\<lambda>v m. m\<lparr>ConnectionExpiration_provider := v\<rparr>))]"

definition ConnectionExpiration_read :: "'b wire_runtime \<Rightarrow> int \<Rightarrow> ConnectionExpiration_msg \<Rightarrow> ('b, ConnectionExpiration_msg) rd" where
  "ConnectionExpiration_read rt = read_message rt (ConnectionExpiration_cases rt)"

definition ConnectionExpiration_write :: "'b wire_runtime \<Rightarrow> ConnectionExpiration_msg \<Rightarrow> 'b list option" where
  "ConnectionExpiration_write rt m =
     cat [put_int32 rt 1 (ConnectionExpiration_bankId m),
          put_message rt 2 (Timestamp_write rt) (ConnectionExpiration_expiresAt m),
          put_int32 rt 3 (ConnectionExpiration_provider m)]"

lemma ConnectionExpiration_codec [simp]: "runtime_ok rt \<Longrightarrow> codec ConnectionExpiration_create (ConnectionExpiration_read rt) (ConnectionExpiration_write rt)"
  unfolding ConnectionExpiration_read_def by (rule codec_by_fields, unfold ConnectionExpiration_write_def)
    (rule conveys_steps | simp add: ConnectionExpiration_cases_def ConnectionExpiration_create_def)+

record GetConnectionStatusResponse_msg =
  GetConnectionStatusResponse_expirations :: "ConnectionExpiration_msg list"

definition GetConnectionStatusResponse_create :: GetConnectionStatusResponse_msg where
  "GetConnectionStatusResponse_create =
     \<lparr>GetConnectionStatusResponse_expirations = []\<rparr>"

definition GetConnectionStatusResponse_cases :: "'b wire_runtime \<Rightarrow> (nat \<times> ('b, GetConnectionStatusResponse_msg) field_reader) list" where
  "GetConnectionStatusResponse_cases rt =
     [(1, get_messages rt ConnectionExpiration_create (ConnectionExpiration_read rt) GetConnectionStatusResponse_expirations (\<lambda>v m. m\<lparr>GetConnectionStatusResponse_expirations := v\<rparr>))]"

definition GetConnectionStatusResponse_read :: "'b wire_runtime \<Rightarrow> int \<Rightarrow> GetConnectionStatusResponse_msg \<Rightarrow> ('b, GetConnectionStatusResponse_msg) rd" where
  "GetConnectionStatusResponse_read rt = read_message rt (GetConnectionStatusResponse_cases rt)"

definition GetConnectionStatusResponse_write :: "'b wire_runtime \<Rightarrow> GetConnectionStatusResponse_msg \<Rightarrow> 'b list option" where
  "GetConnectionStatusResponse_write rt m =
     cat [put_messages rt 1 (ConnectionExpiration_write rt) (GetConnectionStatusResponse_expirations m)]"

lemma GetConnectionStatusResponse_codec [simp]: "runtime_ok rt \<Longrightarrow> codec GetConnectionStatusResponse_create (GetConnectionStatusResponse_read rt) (GetConnectionStatusResponse_write rt)"
  unfolding GetConnectionStatusResponse_read_def by (rule codec_by_fields, unfold GetConnectionStatusResponse_write_def)
    (rule conveys_steps | simp add: GetConnectionStatusResponse_cases_def GetConnectionStatusResponse_create_def)+

record StartTrueLayerConnectionRequest_msg =
  StartTrueLayerConnectionRequest_bankId :: int
  StartTrueLayerConnectionRequest_sessionId :: string

definition StartTrueLayerConnectionRequest_create :: StartTrueLayerConnectionRequest_msg where
  "StartTrueLayerConnectionRequest_create =
     \<lparr>StartTrueLayerConnectionRequest_bankId = 0, StartTrueLayerConnectionRequest_sessionId = []\<rparr>"

definition StartTrueLayerConnectionRequest_cases :: "'b wire_runtime \<Rightarrow> (nat \<times> ('b, StartTrueLayerConnectionRequest_msg) field_reader) list" where
  "StartTrueLayerConnectionRequest_cases rt =
     [(1, get (rd_int32 rt) (\<lambda>v m. m\<lparr>StartTrueLayerConnectionRequest_bankId := v\<rparr>)),
      (2, get (rd_string rt) (\<lambda>v m. m\<lparr>StartTrueLayerConnectionRequest_sessionId := v\<rparr>))]"

definition StartTrueLayerConnectionRequest_read :: "'b wire_runtime \<Rightarrow> int \<Rightarrow> StartTrueLayerConnectionRequest_msg \<Rightarrow> ('b, StartTrueLayerConnectionRequest_msg) rd" where
  "StartTrueLayerConnectionRequest_read rt = read_message rt (StartTrueLayerConnectionRequest_cases rt)"

definition StartTrueLayerConnectionRequest_write :: "'b wire_runtime \<Rightarrow> StartTrueLayerConnectionRequest_msg \<Rightarrow> 'b list option" where
  "StartTrueLayerConnectionRequest_write rt m =
     cat [put_int32 rt 1 (StartTrueLayerConnectionRequest_bankId m),
          put_string rt 2 (StartTrueLayerConnectionRequest_sessionId m)]"

lemma StartTrueLayerConnectionRequest_codec [simp]: "runtime_ok rt \<Longrightarrow> codec StartTrueLayerConnectionRequest_create (StartTrueLayerConnectionRequest_read rt) (StartTrueLayerConnectionRequest_write rt)"
  unfolding StartTrueLayerConnectionRequest_read_def by (rule codec_by_fields, unfold StartTrueLayerConnectionRequest_write_def)
    (rule conveys_steps | simp add: StartTrueLayerConnectionRequest_cases_def StartTrueLayerConnectionRequest_create_def)+

record StartTrueLayerConnectionResponse_msg =
  StartTrueLayerConnectionResponse_authUrl :: string

definition StartTrueLayerConnectionResponse_create :: StartTrueLayerConnectionResponse_msg where
  "StartTrueLayerConnectionResponse_create =
     \<lparr>StartTrueLayerConnectionResponse_authUrl = []\<rparr>"

definition StartTrueLayerConnectionResponse_cases :: "'b wire_runtime \<Rightarrow> (nat \<times> ('b, StartTrueLayerConnectionResponse_msg) field_reader) list" where
  "StartTrueLayerConnectionResponse_cases rt =
     [(1, get (rd_string rt) (\<lambda>v m. m\<lparr>StartTrueLayerConnectionResponse_authUrl := v\<rparr>))]"

definition StartTrueLayerConnectionResponse_read :: "'b wire_runtime \<Rightarrow> int \<Rightarrow> StartTrueLayerConnectionResponse_msg \<Rightarrow> ('b, StartTrueLayerConnectionResponse_msg) rd" where
  "StartTrueLayerConnectionResponse_read rt = read_message rt (StartTrueLayerConnectionResponse_cases rt)"

definition StartTrueLayerConnectionResponse_write :: "'b wire_runtime \<Rightarrow> StartTrueLayerConnectionResponse_msg \<Rightarrow> 'b list option" where
  "StartTrueLayerConnectionResponse_write rt m =
     cat [put_string rt 1 (StartTrueLayerConnectionResponse_authUrl m)]"

lemma StartTrueLayerConnectionResponse_codec [simp]: "runtime_ok rt \<Longrightarrow> codec StartTrueLayerConnectionResponse_create (StartTrueLayerConnectionResponse_read rt) (StartTrueLayerConnectionResponse_write rt)"
  unfolding StartTrueLayerConnectionResponse_read_def by (rule codec_by_fields, unfold StartTrueLayerConnectionResponse_write_def)
    (rule conveys_steps | simp add: StartTrueLayerConnectionResponse_cases_def StartTrueLayerConnectionResponse_create_def)+

record CompleteTrueLayerConnectionRequest_msg =
  CompleteTrueLayerConnectionRequest_bankId :: int
  CompleteTrueLayerConnectionRequest_code :: string
  CompleteTrueLayerConnectionRequest_sessionId :: string

definition CompleteTrueLayerConnectionRequest_create :: CompleteTrueLayerConnectionRequest_msg where
  "CompleteTrueLayerConnectionRequest_create =
     \<lparr>CompleteTrueLayerConnectionRequest_bankId = 0, CompleteTrueLayerConnectionRequest_code = [],
       CompleteTrueLayerConnectionRequest_sessionId = []\<rparr>"

definition CompleteTrueLayerConnectionRequest_cases :: "'b wire_runtime \<Rightarrow> (nat \<times> ('b, CompleteTrueLayerConnectionRequest_msg) field_reader) list" where
  "CompleteTrueLayerConnectionRequest_cases rt =
     [(1, get (rd_int32 rt) (\<lambda>v m. m\<lparr>CompleteTrueLayerConnectionRequest_bankId := v\<rparr>)),
      (2, get (rd_string rt) (\<lambda>v m. m\<lparr>CompleteTrueLayerConnectionRequest_code := v\<rparr>)),
      (3, get (rd_string rt) (\<lambda>v m. m\<lparr>CompleteTrueLayerConnectionRequest_sessionId := v\<rparr>))]"

definition CompleteTrueLayerConnectionRequest_read :: "'b wire_runtime \<Rightarrow> int \<Rightarrow> CompleteTrueLayerConnectionRequest_msg \<Rightarrow> ('b, CompleteTrueLayerConnectionRequest_msg) rd" where
  "CompleteTrueLayerConnectionRequest_read rt = read_message rt (CompleteTrueLayerConnectionRequest_cases rt)"

definition CompleteTrueLayerConnectionRequest_write :: "'b wire_runtime \<Rightarrow> CompleteTrueLayerConnectionRequest_msg \<Rightarrow> 'b list option" where
  "CompleteTrueLayerConnectionRequest_write rt m =
     cat [put_int32 rt 1 (CompleteTrueLayerConnectionRequest_bankId m),
          put_string rt 2 (CompleteTrueLayerConnectionRequest_code m),
          put_string rt 3 (CompleteTrueLayerConnectionRequest_sessionId m)]"

lemma CompleteTrueLayerConnectionRequest_codec [simp]: "runtime_ok rt \<Longrightarrow> codec CompleteTrueLayerConnectionRequest_create (CompleteTrueLayerConnectionRequest_read rt) (CompleteTrueLayerConnectionRequest_write rt)"
  unfolding CompleteTrueLayerConnectionRequest_read_def by (rule codec_by_fields, unfold CompleteTrueLayerConnectionRequest_write_def)
    (rule conveys_steps | simp add: CompleteTrueLayerConnectionRequest_cases_def CompleteTrueLayerConnectionRequest_create_def)+

record CompleteTrueLayerConnectionResponse_msg =
  CompleteTrueLayerConnectionResponse_wasReconnect :: bool

definition CompleteTrueLayerConnectionResponse_create :: CompleteTrueLayerConnectionResponse_msg where
  "CompleteTrueLayerConnectionResponse_create =
     \<lparr>CompleteTrueLayerConnectionResponse_wasReconnect = False\<rparr>"

definition CompleteTrueLayerConnectionResponse_cases :: "'b wire_runtime \<Rightarrow> (nat \<times> ('b, CompleteTrueLayerConnectionResponse_msg) field_reader) list" where
  "CompleteTrueLayerConnectionResponse_cases rt =
     [(1, get (rd_bool rt) (\<lambda>v m. m\<lparr>CompleteTrueLayerConnectionResponse_wasReconnect := v\<rparr>))]"

definition CompleteTrueLayerConnectionResponse_read :: "'b wire_runtime \<Rightarrow> int \<Rightarrow> CompleteTrueLayerConnectionResponse_msg \<Rightarrow> ('b, CompleteTrueLayerConnectionResponse_msg) rd" where
  "CompleteTrueLayerConnectionResponse_read rt = read_message rt (CompleteTrueLayerConnectionResponse_cases rt)"

definition CompleteTrueLayerConnectionResponse_write :: "'b wire_runtime \<Rightarrow> CompleteTrueLayerConnectionResponse_msg \<Rightarrow> 'b list option" where
  "CompleteTrueLayerConnectionResponse_write rt m =
     cat [put_bool rt 1 (CompleteTrueLayerConnectionResponse_wasReconnect m)]"

lemma CompleteTrueLayerConnectionResponse_codec [simp]: "runtime_ok rt \<Longrightarrow> codec CompleteTrueLayerConnectionResponse_create (CompleteTrueLayerConnectionResponse_read rt) (CompleteTrueLayerConnectionResponse_write rt)"
  unfolding CompleteTrueLayerConnectionResponse_read_def by (rule codec_by_fields, unfold CompleteTrueLayerConnectionResponse_write_def)
    (rule conveys_steps | simp add: CompleteTrueLayerConnectionResponse_cases_def CompleteTrueLayerConnectionResponse_create_def)+

record StartGoCardlessConnectionRequest_msg =
  StartGoCardlessConnectionRequest_bankId :: int
  StartGoCardlessConnectionRequest_institutionId :: string
  StartGoCardlessConnectionRequest_sessionId :: string

definition StartGoCardlessConnectionRequest_create :: StartGoCardlessConnectionRequest_msg where
  "StartGoCardlessConnectionRequest_create =
     \<lparr>StartGoCardlessConnectionRequest_bankId = 0, StartGoCardlessConnectionRequest_institutionId = [],
       StartGoCardlessConnectionRequest_sessionId = []\<rparr>"

definition StartGoCardlessConnectionRequest_cases :: "'b wire_runtime \<Rightarrow> (nat \<times> ('b, StartGoCardlessConnectionRequest_msg) field_reader) list" where
  "StartGoCardlessConnectionRequest_cases rt =
     [(1, get (rd_int32 rt) (\<lambda>v m. m\<lparr>StartGoCardlessConnectionRequest_bankId := v\<rparr>)),
      (2, get (rd_string rt) (\<lambda>v m. m\<lparr>StartGoCardlessConnectionRequest_institutionId := v\<rparr>)),
      (3, get (rd_string rt) (\<lambda>v m. m\<lparr>StartGoCardlessConnectionRequest_sessionId := v\<rparr>))]"

definition StartGoCardlessConnectionRequest_read :: "'b wire_runtime \<Rightarrow> int \<Rightarrow> StartGoCardlessConnectionRequest_msg \<Rightarrow> ('b, StartGoCardlessConnectionRequest_msg) rd" where
  "StartGoCardlessConnectionRequest_read rt = read_message rt (StartGoCardlessConnectionRequest_cases rt)"

definition StartGoCardlessConnectionRequest_write :: "'b wire_runtime \<Rightarrow> StartGoCardlessConnectionRequest_msg \<Rightarrow> 'b list option" where
  "StartGoCardlessConnectionRequest_write rt m =
     cat [put_int32 rt 1 (StartGoCardlessConnectionRequest_bankId m),
          put_string rt 2 (StartGoCardlessConnectionRequest_institutionId m),
          put_string rt 3 (StartGoCardlessConnectionRequest_sessionId m)]"

lemma StartGoCardlessConnectionRequest_codec [simp]: "runtime_ok rt \<Longrightarrow> codec StartGoCardlessConnectionRequest_create (StartGoCardlessConnectionRequest_read rt) (StartGoCardlessConnectionRequest_write rt)"
  unfolding StartGoCardlessConnectionRequest_read_def by (rule codec_by_fields, unfold StartGoCardlessConnectionRequest_write_def)
    (rule conveys_steps | simp add: StartGoCardlessConnectionRequest_cases_def StartGoCardlessConnectionRequest_create_def)+

record StartGoCardlessConnectionResponse_msg =
  StartGoCardlessConnectionResponse_authUrl :: string

definition StartGoCardlessConnectionResponse_create :: StartGoCardlessConnectionResponse_msg where
  "StartGoCardlessConnectionResponse_create =
     \<lparr>StartGoCardlessConnectionResponse_authUrl = []\<rparr>"

definition StartGoCardlessConnectionResponse_cases :: "'b wire_runtime \<Rightarrow> (nat \<times> ('b, StartGoCardlessConnectionResponse_msg) field_reader) list" where
  "StartGoCardlessConnectionResponse_cases rt =
     [(1, get (rd_string rt) (\<lambda>v m. m\<lparr>StartGoCardlessConnectionResponse_authUrl := v\<rparr>))]"

definition StartGoCardlessConnectionResponse_read :: "'b wire_runtime \<Rightarrow> int \<Rightarrow> StartGoCardlessConnectionResponse_msg \<Rightarrow> ('b, StartGoCardlessConnectionResponse_msg) rd" where
  "StartGoCardlessConnectionResponse_read rt = read_message rt (StartGoCardlessConnectionResponse_cases rt)"

definition StartGoCardlessConnectionResponse_write :: "'b wire_runtime \<Rightarrow> StartGoCardlessConnectionResponse_msg \<Rightarrow> 'b list option" where
  "StartGoCardlessConnectionResponse_write rt m =
     cat [put_string rt 1 (StartGoCardlessConnectionResponse_authUrl m)]"

lemma StartGoCardlessConnectionResponse_codec [simp]: "runtime_ok rt \<Longrightarrow> codec StartGoCardlessConnectionResponse_create (StartGoCardlessConnectionResponse_read rt) (StartGoCardlessConnectionResponse_write rt)"
  unfolding StartGoCardlessConnectionResponse_read_def by (rule codec_by_fields, unfold StartGoCardlessConnectionResponse_write_def)
    (rule conveys_steps | simp add: StartGoCardlessConnectionResponse_cases_def StartGoCardlessConnectionResponse_create_def)+

record CompleteGoCardlessConnectionRequest_msg =
  CompleteGoCardlessConnectionRequest_reference :: string
  CompleteGoCardlessConnectionRequest_sessionId :: string

definition CompleteGoCardlessConnectionRequest_create :: CompleteGoCardlessConnectionRequest_msg where
  "CompleteGoCardlessConnectionRequest_create =
     \<lparr>CompleteGoCardlessConnectionRequest_reference = [], CompleteGoCardlessConnectionRequest_sessionId = []\<rparr>"

definition CompleteGoCardlessConnectionRequest_cases :: "'b wire_runtime \<Rightarrow> (nat \<times> ('b, CompleteGoCardlessConnectionRequest_msg) field_reader) list" where
  "CompleteGoCardlessConnectionRequest_cases rt =
     [(1, get (rd_string rt) (\<lambda>v m. m\<lparr>CompleteGoCardlessConnectionRequest_reference := v\<rparr>)),
      (2, get (rd_string rt) (\<lambda>v m. m\<lparr>CompleteGoCardlessConnectionRequest_sessionId := v\<rparr>))]"

definition CompleteGoCardlessConnectionRequest_read :: "'b wire_runtime \<Rightarrow> int \<Rightarrow> CompleteGoCardlessConnectionRequest_msg \<Rightarrow> ('b, CompleteGoCardlessConnectionRequest_msg) rd" where
  "CompleteGoCardlessConnectionRequest_read rt = read_message rt (CompleteGoCardlessConnectionRequest_cases rt)"

definition CompleteGoCardlessConnectionRequest_write :: "'b wire_runtime \<Rightarrow> CompleteGoCardlessConnectionRequest_msg \<Rightarrow> 'b list option" where
  "CompleteGoCardlessConnectionRequest_write rt m =
     cat [put_string rt 1 (CompleteGoCardlessConnectionRequest_reference m),
          put_string rt 2 (CompleteGoCardlessConnectionRequest_sessionId m)]"

lemma CompleteGoCardlessConnectionRequest_codec [simp]: "runtime_ok rt \<Longrightarrow> codec CompleteGoCardlessConnectionRequest_create (CompleteGoCardlessConnectionRequest_read rt) (CompleteGoCardlessConnectionRequest_write rt)"
  unfolding CompleteGoCardlessConnectionRequest_read_def by (rule codec_by_fields, unfold CompleteGoCardlessConnectionRequest_write_def)
    (rule conveys_steps | simp add: CompleteGoCardlessConnectionRequest_cases_def CompleteGoCardlessConnectionRequest_create_def)+

record CompleteGoCardlessConnectionResponse_msg =
  CompleteGoCardlessConnectionResponse_bankId :: int
  CompleteGoCardlessConnectionResponse_wasReconnect :: bool

definition CompleteGoCardlessConnectionResponse_create :: CompleteGoCardlessConnectionResponse_msg where
  "CompleteGoCardlessConnectionResponse_create =
     \<lparr>CompleteGoCardlessConnectionResponse_bankId = 0,
       CompleteGoCardlessConnectionResponse_wasReconnect = False\<rparr>"

definition CompleteGoCardlessConnectionResponse_cases :: "'b wire_runtime \<Rightarrow> (nat \<times> ('b, CompleteGoCardlessConnectionResponse_msg) field_reader) list" where
  "CompleteGoCardlessConnectionResponse_cases rt =
     [(1, get (rd_int32 rt) (\<lambda>v m. m\<lparr>CompleteGoCardlessConnectionResponse_bankId := v\<rparr>)),
      (2, get (rd_bool rt) (\<lambda>v m. m\<lparr>CompleteGoCardlessConnectionResponse_wasReconnect := v\<rparr>))]"

definition CompleteGoCardlessConnectionResponse_read :: "'b wire_runtime \<Rightarrow> int \<Rightarrow> CompleteGoCardlessConnectionResponse_msg \<Rightarrow> ('b, CompleteGoCardlessConnectionResponse_msg) rd" where
  "CompleteGoCardlessConnectionResponse_read rt = read_message rt (CompleteGoCardlessConnectionResponse_cases rt)"

definition CompleteGoCardlessConnectionResponse_write :: "'b wire_runtime \<Rightarrow> CompleteGoCardlessConnectionResponse_msg \<Rightarrow> 'b list option" where
  "CompleteGoCardlessConnectionResponse_write rt m =
     cat [put_int32 rt 1 (CompleteGoCardlessConnectionResponse_bankId m),
          put_bool rt 2 (CompleteGoCardlessConnectionResponse_wasReconnect m)]"

lemma CompleteGoCardlessConnectionResponse_codec [simp]: "runtime_ok rt \<Longrightarrow> codec CompleteGoCardlessConnectionResponse_create (CompleteGoCardlessConnectionResponse_read rt) (CompleteGoCardlessConnectionResponse_write rt)"
  unfolding CompleteGoCardlessConnectionResponse_read_def by (rule codec_by_fields, unfold CompleteGoCardlessConnectionResponse_write_def)
    (rule conveys_steps | simp add: CompleteGoCardlessConnectionResponse_cases_def CompleteGoCardlessConnectionResponse_create_def)+

record SetStarlingTokenRequest_msg =
  SetStarlingTokenRequest_bankId :: int
  SetStarlingTokenRequest_accessToken :: string
  SetStarlingTokenRequest_sessionId :: string

definition SetStarlingTokenRequest_create :: SetStarlingTokenRequest_msg where
  "SetStarlingTokenRequest_create =
     \<lparr>SetStarlingTokenRequest_bankId = 0, SetStarlingTokenRequest_accessToken = [],
       SetStarlingTokenRequest_sessionId = []\<rparr>"

definition SetStarlingTokenRequest_cases :: "'b wire_runtime \<Rightarrow> (nat \<times> ('b, SetStarlingTokenRequest_msg) field_reader) list" where
  "SetStarlingTokenRequest_cases rt =
     [(1, get (rd_int32 rt) (\<lambda>v m. m\<lparr>SetStarlingTokenRequest_bankId := v\<rparr>)),
      (2, get (rd_string rt) (\<lambda>v m. m\<lparr>SetStarlingTokenRequest_accessToken := v\<rparr>)),
      (3, get (rd_string rt) (\<lambda>v m. m\<lparr>SetStarlingTokenRequest_sessionId := v\<rparr>))]"

definition SetStarlingTokenRequest_read :: "'b wire_runtime \<Rightarrow> int \<Rightarrow> SetStarlingTokenRequest_msg \<Rightarrow> ('b, SetStarlingTokenRequest_msg) rd" where
  "SetStarlingTokenRequest_read rt = read_message rt (SetStarlingTokenRequest_cases rt)"

definition SetStarlingTokenRequest_write :: "'b wire_runtime \<Rightarrow> SetStarlingTokenRequest_msg \<Rightarrow> 'b list option" where
  "SetStarlingTokenRequest_write rt m =
     cat [put_int32 rt 1 (SetStarlingTokenRequest_bankId m),
          put_string rt 2 (SetStarlingTokenRequest_accessToken m),
          put_string rt 3 (SetStarlingTokenRequest_sessionId m)]"

lemma SetStarlingTokenRequest_codec [simp]: "runtime_ok rt \<Longrightarrow> codec SetStarlingTokenRequest_create (SetStarlingTokenRequest_read rt) (SetStarlingTokenRequest_write rt)"
  unfolding SetStarlingTokenRequest_read_def by (rule codec_by_fields, unfold SetStarlingTokenRequest_write_def)
    (rule conveys_steps | simp add: SetStarlingTokenRequest_cases_def SetStarlingTokenRequest_create_def)+

record SetStarlingTokenResponse_msg =
  SetStarlingTokenResponse_wasReconnect :: bool

definition SetStarlingTokenResponse_create :: SetStarlingTokenResponse_msg where
  "SetStarlingTokenResponse_create =
     \<lparr>SetStarlingTokenResponse_wasReconnect = False\<rparr>"

definition SetStarlingTokenResponse_cases :: "'b wire_runtime \<Rightarrow> (nat \<times> ('b, SetStarlingTokenResponse_msg) field_reader) list" where
  "SetStarlingTokenResponse_cases rt =
     [(1, get (rd_bool rt) (\<lambda>v m. m\<lparr>SetStarlingTokenResponse_wasReconnect := v\<rparr>))]"

definition SetStarlingTokenResponse_read :: "'b wire_runtime \<Rightarrow> int \<Rightarrow> SetStarlingTokenResponse_msg \<Rightarrow> ('b, SetStarlingTokenResponse_msg) rd" where
  "SetStarlingTokenResponse_read rt = read_message rt (SetStarlingTokenResponse_cases rt)"

definition SetStarlingTokenResponse_write :: "'b wire_runtime \<Rightarrow> SetStarlingTokenResponse_msg \<Rightarrow> 'b list option" where
  "SetStarlingTokenResponse_write rt m =
     cat [put_bool rt 1 (SetStarlingTokenResponse_wasReconnect m)]"

lemma SetStarlingTokenResponse_codec [simp]: "runtime_ok rt \<Longrightarrow> codec SetStarlingTokenResponse_create (SetStarlingTokenResponse_read rt) (SetStarlingTokenResponse_write rt)"
  unfolding SetStarlingTokenResponse_read_def by (rule codec_by_fields, unfold SetStarlingTokenResponse_write_def)
    (rule conveys_steps | simp add: SetStarlingTokenResponse_cases_def SetStarlingTokenResponse_create_def)+

record DisconnectRequest_msg =
  DisconnectRequest_bankId :: int
  DisconnectRequest_sessionId :: string

definition DisconnectRequest_create :: DisconnectRequest_msg where
  "DisconnectRequest_create =
     \<lparr>DisconnectRequest_bankId = 0, DisconnectRequest_sessionId = []\<rparr>"

definition DisconnectRequest_cases :: "'b wire_runtime \<Rightarrow> (nat \<times> ('b, DisconnectRequest_msg) field_reader) list" where
  "DisconnectRequest_cases rt =
     [(1, get (rd_int32 rt) (\<lambda>v m. m\<lparr>DisconnectRequest_bankId := v\<rparr>)),
      (2, get (rd_string rt) (\<lambda>v m. m\<lparr>DisconnectRequest_sessionId := v\<rparr>))]"

definition DisconnectRequest_read :: "'b wire_runtime \<Rightarrow> int \<Rightarrow> DisconnectRequest_msg \<Rightarrow> ('b, DisconnectRequest_msg) rd" where
  "DisconnectRequest_read rt = read_message rt (DisconnectRequest_cases rt)"

definition DisconnectRequest_write :: "'b wire_runtime \<Rightarrow> DisconnectRequest_msg \<Rightarrow> 'b list option" where
  "DisconnectRequest_write rt m =
     cat [put_int32 rt 1 (DisconnectRequest_bankId m), put_string rt 2 (DisconnectRequest_sessionId m)]"

lemma DisconnectRequest_codec [simp]: "runtime_ok rt \<Longrightarrow> codec DisconnectRequest_create (DisconnectRequest_read rt) (DisconnectRequest_write rt)"
  unfolding DisconnectRequest_read_def by (rule codec_by_fields, unfold DisconnectRequest_write_def)
    (rule conveys_steps | simp add: DisconnectRequest_cases_def DisconnectRequest_create_def)+

record ReconnectInfoRequest_msg =
  ReconnectInfoRequest_bankId :: int
  ReconnectInfoRequest_sessionId :: string

definition ReconnectInfoRequest_create :: ReconnectInfoRequest_msg where
  "ReconnectInfoRequest_create =
     \<lparr>ReconnectInfoRequest_bankId = 0, ReconnectInfoRequest_sessionId = []\<rparr>"

definition ReconnectInfoRequest_cases :: "'b wire_runtime \<Rightarrow> (nat \<times> ('b, ReconnectInfoRequest_msg) field_reader) list" where
  "ReconnectInfoRequest_cases rt =
     [(1, get (rd_int32 rt) (\<lambda>v m. m\<lparr>ReconnectInfoRequest_bankId := v\<rparr>)),
      (2, get (rd_string rt) (\<lambda>v m. m\<lparr>ReconnectInfoRequest_sessionId := v\<rparr>))]"

definition ReconnectInfoRequest_read :: "'b wire_runtime \<Rightarrow> int \<Rightarrow> ReconnectInfoRequest_msg \<Rightarrow> ('b, ReconnectInfoRequest_msg) rd" where
  "ReconnectInfoRequest_read rt = read_message rt (ReconnectInfoRequest_cases rt)"

definition ReconnectInfoRequest_write :: "'b wire_runtime \<Rightarrow> ReconnectInfoRequest_msg \<Rightarrow> 'b list option" where
  "ReconnectInfoRequest_write rt m =
     cat [put_int32 rt 1 (ReconnectInfoRequest_bankId m), put_string rt 2 (ReconnectInfoRequest_sessionId m)]"

lemma ReconnectInfoRequest_codec [simp]: "runtime_ok rt \<Longrightarrow> codec ReconnectInfoRequest_create (ReconnectInfoRequest_read rt) (ReconnectInfoRequest_write rt)"
  unfolding ReconnectInfoRequest_read_def by (rule codec_by_fields, unfold ReconnectInfoRequest_write_def)
    (rule conveys_steps | simp add: ReconnectInfoRequest_cases_def ReconnectInfoRequest_create_def)+

record ReconnectInfoResponse_msg =
  ReconnectInfoResponse_redirectUrl :: string

definition ReconnectInfoResponse_create :: ReconnectInfoResponse_msg where
  "ReconnectInfoResponse_create =
     \<lparr>ReconnectInfoResponse_redirectUrl = []\<rparr>"

definition ReconnectInfoResponse_cases :: "'b wire_runtime \<Rightarrow> (nat \<times> ('b, ReconnectInfoResponse_msg) field_reader) list" where
  "ReconnectInfoResponse_cases rt =
     [(1, get (rd_string rt) (\<lambda>v m. m\<lparr>ReconnectInfoResponse_redirectUrl := v\<rparr>))]"

definition ReconnectInfoResponse_read :: "'b wire_runtime \<Rightarrow> int \<Rightarrow> ReconnectInfoResponse_msg \<Rightarrow> ('b, ReconnectInfoResponse_msg) rd" where
  "ReconnectInfoResponse_read rt = read_message rt (ReconnectInfoResponse_cases rt)"

definition ReconnectInfoResponse_write :: "'b wire_runtime \<Rightarrow> ReconnectInfoResponse_msg \<Rightarrow> 'b list option" where
  "ReconnectInfoResponse_write rt m =
     cat [put_string rt 1 (ReconnectInfoResponse_redirectUrl m)]"

lemma ReconnectInfoResponse_codec [simp]: "runtime_ok rt \<Longrightarrow> codec ReconnectInfoResponse_create (ReconnectInfoResponse_read rt) (ReconnectInfoResponse_write rt)"
  unfolding ReconnectInfoResponse_read_def by (rule codec_by_fields, unfold ReconnectInfoResponse_write_def)
    (rule conveys_steps | simp add: ReconnectInfoResponse_cases_def ReconnectInfoResponse_create_def)+

record ListExternalAccountsRequest_msg =
  ListExternalAccountsRequest_bankId :: int
  ListExternalAccountsRequest_sessionId :: string

definition ListExternalAccountsRequest_create :: ListExternalAccountsRequest_msg where
  "ListExternalAccountsRequest_create =
     \<lparr>ListExternalAccountsRequest_bankId = 0, ListExternalAccountsRequest_sessionId = []\<rparr>"

definition ListExternalAccountsRequest_cases :: "'b wire_runtime \<Rightarrow> (nat \<times> ('b, ListExternalAccountsRequest_msg) field_reader) list" where
  "ListExternalAccountsRequest_cases rt =
     [(1, get (rd_int32 rt) (\<lambda>v m. m\<lparr>ListExternalAccountsRequest_bankId := v\<rparr>)),
      (2, get (rd_string rt) (\<lambda>v m. m\<lparr>ListExternalAccountsRequest_sessionId := v\<rparr>))]"

definition ListExternalAccountsRequest_read :: "'b wire_runtime \<Rightarrow> int \<Rightarrow> ListExternalAccountsRequest_msg \<Rightarrow> ('b, ListExternalAccountsRequest_msg) rd" where
  "ListExternalAccountsRequest_read rt = read_message rt (ListExternalAccountsRequest_cases rt)"

definition ListExternalAccountsRequest_write :: "'b wire_runtime \<Rightarrow> ListExternalAccountsRequest_msg \<Rightarrow> 'b list option" where
  "ListExternalAccountsRequest_write rt m =
     cat [put_int32 rt 1 (ListExternalAccountsRequest_bankId m),
          put_string rt 2 (ListExternalAccountsRequest_sessionId m)]"

lemma ListExternalAccountsRequest_codec [simp]: "runtime_ok rt \<Longrightarrow> codec ListExternalAccountsRequest_create (ListExternalAccountsRequest_read rt) (ListExternalAccountsRequest_write rt)"
  unfolding ListExternalAccountsRequest_read_def by (rule codec_by_fields, unfold ListExternalAccountsRequest_write_def)
    (rule conveys_steps | simp add: ListExternalAccountsRequest_cases_def ListExternalAccountsRequest_create_def)+

record ExternalAccount_msg =
  ExternalAccount_externalId :: string
  ExternalAccount_name :: string

definition ExternalAccount_create :: ExternalAccount_msg where
  "ExternalAccount_create =
     \<lparr>ExternalAccount_externalId = [], ExternalAccount_name = []\<rparr>"

definition ExternalAccount_cases :: "'b wire_runtime \<Rightarrow> (nat \<times> ('b, ExternalAccount_msg) field_reader) list" where
  "ExternalAccount_cases rt =
     [(1, get (rd_string rt) (\<lambda>v m. m\<lparr>ExternalAccount_externalId := v\<rparr>)),
      (2, get (rd_string rt) (\<lambda>v m. m\<lparr>ExternalAccount_name := v\<rparr>))]"

definition ExternalAccount_read :: "'b wire_runtime \<Rightarrow> int \<Rightarrow> ExternalAccount_msg \<Rightarrow> ('b, ExternalAccount_msg) rd" where
  "ExternalAccount_read rt = read_message rt (ExternalAccount_cases rt)"

definition ExternalAccount_write :: "'b wire_runtime \<Rightarrow> ExternalAccount_msg \<Rightarrow> 'b list option" where
  "ExternalAccount_write rt m =
     cat [put_string rt 1 (ExternalAccount_externalId m), put_string rt 2 (ExternalAccount_name m)]"

lemma ExternalAccount_codec [simp]: "runtime_ok rt \<Longrightarrow> codec ExternalAccount_create (ExternalAccount_read rt) (ExternalAccount_write rt)"
  unfolding ExternalAccount_read_def by (rule codec_by_fields, unfold ExternalAccount_write_def)
    (rule conveys_steps | simp add: ExternalAccount_cases_def ExternalAccount_create_def)+

record ListExternalAccountsResponse_msg =
  ListExternalAccountsResponse_accounts :: "ExternalAccount_msg list"

definition ListExternalAccountsResponse_create :: ListExternalAccountsResponse_msg where
  "ListExternalAccountsResponse_create =
     \<lparr>ListExternalAccountsResponse_accounts = []\<rparr>"

definition ListExternalAccountsResponse_cases :: "'b wire_runtime \<Rightarrow> (nat \<times> ('b, ListExternalAccountsResponse_msg) field_reader) list" where
  "ListExternalAccountsResponse_cases rt =
     [(1, get_messages rt ExternalAccount_create (ExternalAccount_read rt) ListExternalAccountsResponse_accounts (\<lambda>v m. m\<lparr>ListExternalAccountsResponse_accounts := v\<rparr>))]"

definition ListExternalAccountsResponse_read :: "'b wire_runtime \<Rightarrow> int \<Rightarrow> ListExternalAccountsResponse_msg \<Rightarrow> ('b, ListExternalAccountsResponse_msg) rd" where
  "ListExternalAccountsResponse_read rt = read_message rt (ListExternalAccountsResponse_cases rt)"

definition ListExternalAccountsResponse_write :: "'b wire_runtime \<Rightarrow> ListExternalAccountsResponse_msg \<Rightarrow> 'b list option" where
  "ListExternalAccountsResponse_write rt m =
     cat [put_messages rt 1 (ExternalAccount_write rt) (ListExternalAccountsResponse_accounts m)]"

lemma ListExternalAccountsResponse_codec [simp]: "runtime_ok rt \<Longrightarrow> codec ListExternalAccountsResponse_create (ListExternalAccountsResponse_read rt) (ListExternalAccountsResponse_write rt)"
  unfolding ListExternalAccountsResponse_read_def by (rule codec_by_fields, unfold ListExternalAccountsResponse_write_def)
    (rule conveys_steps | simp add: ListExternalAccountsResponse_cases_def ListExternalAccountsResponse_create_def)+

record ListMappingsRequest_msg =
  ListMappingsRequest_bankId :: int
  ListMappingsRequest_sessionId :: string

definition ListMappingsRequest_create :: ListMappingsRequest_msg where
  "ListMappingsRequest_create =
     \<lparr>ListMappingsRequest_bankId = 0, ListMappingsRequest_sessionId = []\<rparr>"

definition ListMappingsRequest_cases :: "'b wire_runtime \<Rightarrow> (nat \<times> ('b, ListMappingsRequest_msg) field_reader) list" where
  "ListMappingsRequest_cases rt =
     [(1, get (rd_int32 rt) (\<lambda>v m. m\<lparr>ListMappingsRequest_bankId := v\<rparr>)),
      (2, get (rd_string rt) (\<lambda>v m. m\<lparr>ListMappingsRequest_sessionId := v\<rparr>))]"

definition ListMappingsRequest_read :: "'b wire_runtime \<Rightarrow> int \<Rightarrow> ListMappingsRequest_msg \<Rightarrow> ('b, ListMappingsRequest_msg) rd" where
  "ListMappingsRequest_read rt = read_message rt (ListMappingsRequest_cases rt)"

definition ListMappingsRequest_write :: "'b wire_runtime \<Rightarrow> ListMappingsRequest_msg \<Rightarrow> 'b list option" where
  "ListMappingsRequest_write rt m =
     cat [put_int32 rt 1 (ListMappingsRequest_bankId m), put_string rt 2 (ListMappingsRequest_sessionId m)]"

lemma ListMappingsRequest_codec [simp]: "runtime_ok rt \<Longrightarrow> codec ListMappingsRequest_create (ListMappingsRequest_read rt) (ListMappingsRequest_write rt)"
  unfolding ListMappingsRequest_read_def by (rule codec_by_fields, unfold ListMappingsRequest_write_def)
    (rule conveys_steps | simp add: ListMappingsRequest_cases_def ListMappingsRequest_create_def)+

record AccountMapping_msg =
  AccountMapping_internalAccountId :: int
  AccountMapping_externalAccountId :: string

definition AccountMapping_create :: AccountMapping_msg where
  "AccountMapping_create =
     \<lparr>AccountMapping_internalAccountId = 0, AccountMapping_externalAccountId = []\<rparr>"

definition AccountMapping_cases :: "'b wire_runtime \<Rightarrow> (nat \<times> ('b, AccountMapping_msg) field_reader) list" where
  "AccountMapping_cases rt =
     [(1, get (rd_int32 rt) (\<lambda>v m. m\<lparr>AccountMapping_internalAccountId := v\<rparr>)),
      (2, get (rd_string rt) (\<lambda>v m. m\<lparr>AccountMapping_externalAccountId := v\<rparr>))]"

definition AccountMapping_read :: "'b wire_runtime \<Rightarrow> int \<Rightarrow> AccountMapping_msg \<Rightarrow> ('b, AccountMapping_msg) rd" where
  "AccountMapping_read rt = read_message rt (AccountMapping_cases rt)"

definition AccountMapping_write :: "'b wire_runtime \<Rightarrow> AccountMapping_msg \<Rightarrow> 'b list option" where
  "AccountMapping_write rt m =
     cat [put_int32 rt 1 (AccountMapping_internalAccountId m),
          put_string rt 2 (AccountMapping_externalAccountId m)]"

lemma AccountMapping_codec [simp]: "runtime_ok rt \<Longrightarrow> codec AccountMapping_create (AccountMapping_read rt) (AccountMapping_write rt)"
  unfolding AccountMapping_read_def by (rule codec_by_fields, unfold AccountMapping_write_def)
    (rule conveys_steps | simp add: AccountMapping_cases_def AccountMapping_create_def)+

record ListMappingsResponse_msg =
  ListMappingsResponse_mappings :: "AccountMapping_msg list"

definition ListMappingsResponse_create :: ListMappingsResponse_msg where
  "ListMappingsResponse_create =
     \<lparr>ListMappingsResponse_mappings = []\<rparr>"

definition ListMappingsResponse_cases :: "'b wire_runtime \<Rightarrow> (nat \<times> ('b, ListMappingsResponse_msg) field_reader) list" where
  "ListMappingsResponse_cases rt =
     [(1, get_messages rt AccountMapping_create (AccountMapping_read rt) ListMappingsResponse_mappings (\<lambda>v m. m\<lparr>ListMappingsResponse_mappings := v\<rparr>))]"

definition ListMappingsResponse_read :: "'b wire_runtime \<Rightarrow> int \<Rightarrow> ListMappingsResponse_msg \<Rightarrow> ('b, ListMappingsResponse_msg) rd" where
  "ListMappingsResponse_read rt = read_message rt (ListMappingsResponse_cases rt)"

definition ListMappingsResponse_write :: "'b wire_runtime \<Rightarrow> ListMappingsResponse_msg \<Rightarrow> 'b list option" where
  "ListMappingsResponse_write rt m =
     cat [put_messages rt 1 (AccountMapping_write rt) (ListMappingsResponse_mappings m)]"

lemma ListMappingsResponse_codec [simp]: "runtime_ok rt \<Longrightarrow> codec ListMappingsResponse_create (ListMappingsResponse_read rt) (ListMappingsResponse_write rt)"
  unfolding ListMappingsResponse_read_def by (rule codec_by_fields, unfold ListMappingsResponse_write_def)
    (rule conveys_steps | simp add: ListMappingsResponse_cases_def ListMappingsResponse_create_def)+

record SetMappingsRequest_msg =
  SetMappingsRequest_bankId :: int
  SetMappingsRequest_mappings :: "AccountMapping_msg list"
  SetMappingsRequest_sessionId :: string

definition SetMappingsRequest_create :: SetMappingsRequest_msg where
  "SetMappingsRequest_create =
     \<lparr>SetMappingsRequest_bankId = 0, SetMappingsRequest_mappings = [], SetMappingsRequest_sessionId = []\<rparr>"

definition SetMappingsRequest_cases :: "'b wire_runtime \<Rightarrow> (nat \<times> ('b, SetMappingsRequest_msg) field_reader) list" where
  "SetMappingsRequest_cases rt =
     [(1, get (rd_int32 rt) (\<lambda>v m. m\<lparr>SetMappingsRequest_bankId := v\<rparr>)),
      (2, get_messages rt AccountMapping_create (AccountMapping_read rt) SetMappingsRequest_mappings (\<lambda>v m. m\<lparr>SetMappingsRequest_mappings := v\<rparr>)),
      (3, get (rd_string rt) (\<lambda>v m. m\<lparr>SetMappingsRequest_sessionId := v\<rparr>))]"

definition SetMappingsRequest_read :: "'b wire_runtime \<Rightarrow> int \<Rightarrow> SetMappingsRequest_msg \<Rightarrow> ('b, SetMappingsRequest_msg) rd" where
  "SetMappingsRequest_read rt = read_message rt (SetMappingsRequest_cases rt)"

definition SetMappingsRequest_write :: "'b wire_runtime \<Rightarrow> SetMappingsRequest_msg \<Rightarrow> 'b list option" where
  "SetMappingsRequest_write rt m =
     cat [put_int32 rt 1 (SetMappingsRequest_bankId m),
          put_messages rt 2 (AccountMapping_write rt) (SetMappingsRequest_mappings m),
          put_string rt 3 (SetMappingsRequest_sessionId m)]"

lemma SetMappingsRequest_codec [simp]: "runtime_ok rt \<Longrightarrow> codec SetMappingsRequest_create (SetMappingsRequest_read rt) (SetMappingsRequest_write rt)"
  unfolding SetMappingsRequest_read_def by (rule codec_by_fields, unfold SetMappingsRequest_write_def)
    (rule conveys_steps | simp add: SetMappingsRequest_cases_def SetMappingsRequest_create_def)+

record ListGoCardlessInstitutionsRequest_msg =
  ListGoCardlessInstitutionsRequest_countryCode :: string
  ListGoCardlessInstitutionsRequest_sessionId :: string

definition ListGoCardlessInstitutionsRequest_create :: ListGoCardlessInstitutionsRequest_msg where
  "ListGoCardlessInstitutionsRequest_create =
     \<lparr>ListGoCardlessInstitutionsRequest_countryCode = [], ListGoCardlessInstitutionsRequest_sessionId = []\<rparr>"

definition ListGoCardlessInstitutionsRequest_cases :: "'b wire_runtime \<Rightarrow> (nat \<times> ('b, ListGoCardlessInstitutionsRequest_msg) field_reader) list" where
  "ListGoCardlessInstitutionsRequest_cases rt =
     [(1, get (rd_string rt) (\<lambda>v m. m\<lparr>ListGoCardlessInstitutionsRequest_countryCode := v\<rparr>)),
      (2, get (rd_string rt) (\<lambda>v m. m\<lparr>ListGoCardlessInstitutionsRequest_sessionId := v\<rparr>))]"

definition ListGoCardlessInstitutionsRequest_read :: "'b wire_runtime \<Rightarrow> int \<Rightarrow> ListGoCardlessInstitutionsRequest_msg \<Rightarrow> ('b, ListGoCardlessInstitutionsRequest_msg) rd" where
  "ListGoCardlessInstitutionsRequest_read rt = read_message rt (ListGoCardlessInstitutionsRequest_cases rt)"

definition ListGoCardlessInstitutionsRequest_write :: "'b wire_runtime \<Rightarrow> ListGoCardlessInstitutionsRequest_msg \<Rightarrow> 'b list option" where
  "ListGoCardlessInstitutionsRequest_write rt m =
     cat [put_string rt 1 (ListGoCardlessInstitutionsRequest_countryCode m),
          put_string rt 2 (ListGoCardlessInstitutionsRequest_sessionId m)]"

lemma ListGoCardlessInstitutionsRequest_codec [simp]: "runtime_ok rt \<Longrightarrow> codec ListGoCardlessInstitutionsRequest_create (ListGoCardlessInstitutionsRequest_read rt) (ListGoCardlessInstitutionsRequest_write rt)"
  unfolding ListGoCardlessInstitutionsRequest_read_def by (rule codec_by_fields, unfold ListGoCardlessInstitutionsRequest_write_def)
    (rule conveys_steps | simp add: ListGoCardlessInstitutionsRequest_cases_def ListGoCardlessInstitutionsRequest_create_def)+

record GoCardlessInstitution_msg =
  GoCardlessInstitution_id :: string
  GoCardlessInstitution_name :: string
  GoCardlessInstitution_logoUrl :: string

definition GoCardlessInstitution_create :: GoCardlessInstitution_msg where
  "GoCardlessInstitution_create =
     \<lparr>GoCardlessInstitution_id = [], GoCardlessInstitution_name = [], GoCardlessInstitution_logoUrl = []\<rparr>"

definition GoCardlessInstitution_cases :: "'b wire_runtime \<Rightarrow> (nat \<times> ('b, GoCardlessInstitution_msg) field_reader) list" where
  "GoCardlessInstitution_cases rt =
     [(1, get (rd_string rt) (\<lambda>v m. m\<lparr>GoCardlessInstitution_id := v\<rparr>)),
      (2, get (rd_string rt) (\<lambda>v m. m\<lparr>GoCardlessInstitution_name := v\<rparr>)),
      (3, get (rd_string rt) (\<lambda>v m. m\<lparr>GoCardlessInstitution_logoUrl := v\<rparr>))]"

definition GoCardlessInstitution_read :: "'b wire_runtime \<Rightarrow> int \<Rightarrow> GoCardlessInstitution_msg \<Rightarrow> ('b, GoCardlessInstitution_msg) rd" where
  "GoCardlessInstitution_read rt = read_message rt (GoCardlessInstitution_cases rt)"

definition GoCardlessInstitution_write :: "'b wire_runtime \<Rightarrow> GoCardlessInstitution_msg \<Rightarrow> 'b list option" where
  "GoCardlessInstitution_write rt m =
     cat [put_string rt 1 (GoCardlessInstitution_id m), put_string rt 2 (GoCardlessInstitution_name m),
          put_string rt 3 (GoCardlessInstitution_logoUrl m)]"

lemma GoCardlessInstitution_codec [simp]: "runtime_ok rt \<Longrightarrow> codec GoCardlessInstitution_create (GoCardlessInstitution_read rt) (GoCardlessInstitution_write rt)"
  unfolding GoCardlessInstitution_read_def by (rule codec_by_fields, unfold GoCardlessInstitution_write_def)
    (rule conveys_steps | simp add: GoCardlessInstitution_cases_def GoCardlessInstitution_create_def)+

record ListGoCardlessInstitutionsResponse_msg =
  ListGoCardlessInstitutionsResponse_institutions :: "GoCardlessInstitution_msg list"

definition ListGoCardlessInstitutionsResponse_create :: ListGoCardlessInstitutionsResponse_msg where
  "ListGoCardlessInstitutionsResponse_create =
     \<lparr>ListGoCardlessInstitutionsResponse_institutions = []\<rparr>"

definition ListGoCardlessInstitutionsResponse_cases :: "'b wire_runtime \<Rightarrow> (nat \<times> ('b, ListGoCardlessInstitutionsResponse_msg) field_reader) list" where
  "ListGoCardlessInstitutionsResponse_cases rt =
     [(1, get_messages rt GoCardlessInstitution_create (GoCardlessInstitution_read rt) ListGoCardlessInstitutionsResponse_institutions (\<lambda>v m. m\<lparr>ListGoCardlessInstitutionsResponse_institutions := v\<rparr>))]"

definition ListGoCardlessInstitutionsResponse_read :: "'b wire_runtime \<Rightarrow> int \<Rightarrow> ListGoCardlessInstitutionsResponse_msg \<Rightarrow> ('b, ListGoCardlessInstitutionsResponse_msg) rd" where
  "ListGoCardlessInstitutionsResponse_read rt = read_message rt (ListGoCardlessInstitutionsResponse_cases rt)"

definition ListGoCardlessInstitutionsResponse_write :: "'b wire_runtime \<Rightarrow> ListGoCardlessInstitutionsResponse_msg \<Rightarrow> 'b list option" where
  "ListGoCardlessInstitutionsResponse_write rt m =
     cat [put_messages rt 1 (GoCardlessInstitution_write rt) (ListGoCardlessInstitutionsResponse_institutions m)]"

lemma ListGoCardlessInstitutionsResponse_codec [simp]: "runtime_ok rt \<Longrightarrow> codec ListGoCardlessInstitutionsResponse_create (ListGoCardlessInstitutionsResponse_read rt) (ListGoCardlessInstitutionsResponse_write rt)"
  unfolding ListGoCardlessInstitutionsResponse_read_def by (rule codec_by_fields, unfold ListGoCardlessInstitutionsResponse_write_def)
    (rule conveys_steps | simp add: ListGoCardlessInstitutionsResponse_cases_def ListGoCardlessInstitutionsResponse_create_def)+

record ListGoCardlessCountriesRequest_msg =
  ListGoCardlessCountriesRequest_sessionId :: string

definition ListGoCardlessCountriesRequest_create :: ListGoCardlessCountriesRequest_msg where
  "ListGoCardlessCountriesRequest_create =
     \<lparr>ListGoCardlessCountriesRequest_sessionId = []\<rparr>"

definition ListGoCardlessCountriesRequest_cases :: "'b wire_runtime \<Rightarrow> (nat \<times> ('b, ListGoCardlessCountriesRequest_msg) field_reader) list" where
  "ListGoCardlessCountriesRequest_cases rt =
     [(1, get (rd_string rt) (\<lambda>v m. m\<lparr>ListGoCardlessCountriesRequest_sessionId := v\<rparr>))]"

definition ListGoCardlessCountriesRequest_read :: "'b wire_runtime \<Rightarrow> int \<Rightarrow> ListGoCardlessCountriesRequest_msg \<Rightarrow> ('b, ListGoCardlessCountriesRequest_msg) rd" where
  "ListGoCardlessCountriesRequest_read rt = read_message rt (ListGoCardlessCountriesRequest_cases rt)"

definition ListGoCardlessCountriesRequest_write :: "'b wire_runtime \<Rightarrow> ListGoCardlessCountriesRequest_msg \<Rightarrow> 'b list option" where
  "ListGoCardlessCountriesRequest_write rt m =
     cat [put_string rt 1 (ListGoCardlessCountriesRequest_sessionId m)]"

lemma ListGoCardlessCountriesRequest_codec [simp]: "runtime_ok rt \<Longrightarrow> codec ListGoCardlessCountriesRequest_create (ListGoCardlessCountriesRequest_read rt) (ListGoCardlessCountriesRequest_write rt)"
  unfolding ListGoCardlessCountriesRequest_read_def by (rule codec_by_fields, unfold ListGoCardlessCountriesRequest_write_def)
    (rule conveys_steps | simp add: ListGoCardlessCountriesRequest_cases_def ListGoCardlessCountriesRequest_create_def)+

record GoCardlessCountry_msg =
  GoCardlessCountry_code :: string
  GoCardlessCountry_name :: string

definition GoCardlessCountry_create :: GoCardlessCountry_msg where
  "GoCardlessCountry_create =
     \<lparr>GoCardlessCountry_code = [], GoCardlessCountry_name = []\<rparr>"

definition GoCardlessCountry_cases :: "'b wire_runtime \<Rightarrow> (nat \<times> ('b, GoCardlessCountry_msg) field_reader) list" where
  "GoCardlessCountry_cases rt =
     [(1, get (rd_string rt) (\<lambda>v m. m\<lparr>GoCardlessCountry_code := v\<rparr>)),
      (2, get (rd_string rt) (\<lambda>v m. m\<lparr>GoCardlessCountry_name := v\<rparr>))]"

definition GoCardlessCountry_read :: "'b wire_runtime \<Rightarrow> int \<Rightarrow> GoCardlessCountry_msg \<Rightarrow> ('b, GoCardlessCountry_msg) rd" where
  "GoCardlessCountry_read rt = read_message rt (GoCardlessCountry_cases rt)"

definition GoCardlessCountry_write :: "'b wire_runtime \<Rightarrow> GoCardlessCountry_msg \<Rightarrow> 'b list option" where
  "GoCardlessCountry_write rt m =
     cat [put_string rt 1 (GoCardlessCountry_code m), put_string rt 2 (GoCardlessCountry_name m)]"

lemma GoCardlessCountry_codec [simp]: "runtime_ok rt \<Longrightarrow> codec GoCardlessCountry_create (GoCardlessCountry_read rt) (GoCardlessCountry_write rt)"
  unfolding GoCardlessCountry_read_def by (rule codec_by_fields, unfold GoCardlessCountry_write_def)
    (rule conveys_steps | simp add: GoCardlessCountry_cases_def GoCardlessCountry_create_def)+

record ListGoCardlessCountriesResponse_msg =
  ListGoCardlessCountriesResponse_countries :: "GoCardlessCountry_msg list"

definition ListGoCardlessCountriesResponse_create :: ListGoCardlessCountriesResponse_msg where
  "ListGoCardlessCountriesResponse_create =
     \<lparr>ListGoCardlessCountriesResponse_countries = []\<rparr>"

definition ListGoCardlessCountriesResponse_cases :: "'b wire_runtime \<Rightarrow> (nat \<times> ('b, ListGoCardlessCountriesResponse_msg) field_reader) list" where
  "ListGoCardlessCountriesResponse_cases rt =
     [(1, get_messages rt GoCardlessCountry_create (GoCardlessCountry_read rt) ListGoCardlessCountriesResponse_countries (\<lambda>v m. m\<lparr>ListGoCardlessCountriesResponse_countries := v\<rparr>))]"

definition ListGoCardlessCountriesResponse_read :: "'b wire_runtime \<Rightarrow> int \<Rightarrow> ListGoCardlessCountriesResponse_msg \<Rightarrow> ('b, ListGoCardlessCountriesResponse_msg) rd" where
  "ListGoCardlessCountriesResponse_read rt = read_message rt (ListGoCardlessCountriesResponse_cases rt)"

definition ListGoCardlessCountriesResponse_write :: "'b wire_runtime \<Rightarrow> ListGoCardlessCountriesResponse_msg \<Rightarrow> 'b list option" where
  "ListGoCardlessCountriesResponse_write rt m =
     cat [put_messages rt 1 (GoCardlessCountry_write rt) (ListGoCardlessCountriesResponse_countries m)]"

lemma ListGoCardlessCountriesResponse_codec [simp]: "runtime_ok rt \<Longrightarrow> codec ListGoCardlessCountriesResponse_create (ListGoCardlessCountriesResponse_read rt) (ListGoCardlessCountriesResponse_write rt)"
  unfolding ListGoCardlessCountriesResponse_read_def by (rule codec_by_fields, unfold ListGoCardlessCountriesResponse_write_def)
    (rule conveys_steps | simp add: ListGoCardlessCountriesResponse_cases_def ListGoCardlessCountriesResponse_create_def)+

end
