(* ===== verification/Messages.thy ===== *)
theory Messages
  imports TxActions WireForms WireBanking
begin

text \<open>
  Requests and responses on the wire: what becomes of the request of a saved form (theory TxActions) when it
  is written and read with the codecs of the generated messages, and how a message of a newer backend is
  read.
\<close>

section \<open>The request of a form as a message\<close>

fun sharing_number :: "sharing_type \<Rightarrow> int" where
  "sharing_number ST_UNSPECIFIED = 0"
| "sharing_number PAID_SELF_NOT_SHARED = 1"
| "sharing_number PAID_SELF_SHARED = 2"
| "sharing_number PAID_OTHER_OWED = 3"
| "sharing_number PAID_OTHER_REPAID = 4"

definition wire_timestamp :: "timestamp \<Rightarrow> Timestamp_msg option" where
  "wire_timestamp t = Some \<lparr>Timestamp_seconds = ts_seconds t, Timestamp_nanos = ts_nanos t\<rparr>"

text \<open>The ids of a repayment are not optional in the message: the writer refuses a missing one.\<close>

definition wire_repayment :: "repayment_input \<Rightarrow> RepaymentInput_msg option" where
  "wire_repayment r =
     (case (ri_accountId r, ri_categoryId r) of
        (Some a, Some c) \<Rightarrow> Some \<lparr>RepaymentInput_accountId = a, RepaymentInput_timestamp = wire_timestamp (ri_timestamp r),
          RepaymentInput_categoryId = c\<rparr>
      | _ \<Rightarrow> None)"

definition wire_expense :: "expense_input \<Rightarrow> RepaymentInput_msg option \<Rightarrow> ExpenseFormInput_msg" where
  "wire_expense e repayment =
     \<lparr>ExpenseFormInput_timestamp = wire_timestamp (ei_timestamp e), ExpenseFormInput_description = ei_description e,
      ExpenseFormInput_vendor = ei_vendor e, ExpenseFormInput_categoryId = ei_categoryId e,
      ExpenseFormInput_accountId = ei_accountId e, ExpenseFormInput_currency = ei_currency e,
      ExpenseFormInput_payer = ei_payer e, ExpenseFormInput_companion = ei_companion e,
      ExpenseFormInput_amountNanos = ei_amountNanos e, ExpenseFormInput_ownShareNanos = ei_ownShareNanos e,
      ExpenseFormInput_tripName = ei_tripName e, ExpenseFormInput_sharingType = sharing_number (ei_sharingType e),
      ExpenseFormInput_repayment = repayment\<rparr>"

definition wire_income :: "income_input \<Rightarrow> IncomeFormInput_msg" where
  "wire_income i =
     \<lparr>IncomeFormInput_timestamp = wire_timestamp (ii_timestamp i), IncomeFormInput_description = ii_description i,
      IncomeFormInput_payer = ii_payer i, IncomeFormInput_categoryId = ii_categoryId i,
      IncomeFormInput_accountId = ii_accountId i, IncomeFormInput_amountNanos = ii_amountNanos i,
      IncomeFormInput_isShared = ii_isShared i, IncomeFormInput_companion = ii_companion i,
      IncomeFormInput_ownShareNanos = ii_ownShareNanos i,
      IncomeFormInput_parentTransactionId = ii_parentTransactionId i\<rparr>"

definition wire_transfer :: "transfer_input \<Rightarrow> TransferFormInput_msg" where
  "wire_transfer t =
     \<lparr>TransferFormInput_timestamp = wire_timestamp (xi_timestamp t), TransferFormInput_description = xi_description t,
      TransferFormInput_categoryId = Some (xi_categoryId t), TransferFormInput_fromAccountId = xi_fromAccountId t,
      TransferFormInput_toAccountId = xi_toAccountId t, TransferFormInput_amountSentNanos = xi_amountSentNanos t,
      TransferFormInput_amountReceivedNanos = xi_amountReceivedNanos t\<rparr>"

definition wire_form :: "form_input \<Rightarrow> WriteTransactionFormRequest_form option" where
  "wire_form f =
     (case f of
        ExpenseInput e \<Rightarrow>
          (case ei_repayment e of
             None \<Rightarrow> Some (WriteTransactionFormRequest_expense (wire_expense e None))
           | Some r \<Rightarrow> map_option (\<lambda>m. WriteTransactionFormRequest_expense (wire_expense e (Some m))) (wire_repayment r))
      | IncomeInput i \<Rightarrow> Some (WriteTransactionFormRequest_income (wire_income i))
      | TransferInput t \<Rightarrow> Some (WriteTransactionFormRequest_transfer (wire_transfer t)))"

definition wire_origin :: "origin_key \<Rightarrow> OriginKey_msg" where
  "wire_origin k = \<lparr>OriginKey_kind = origin_kind k, OriginKey_key = origin_key k\<rparr>"

definition wire_request :: "write_request \<Rightarrow> WriteTransactionFormRequest_msg option" where
  "wire_request r =
     map_option (\<lambda>form.
       \<lparr>WriteTransactionFormRequest_transactionIdToSupersede = wr_transactionIdToSupersede r,
        WriteTransactionFormRequest_tagNames = wr_tagNames r,
        WriteTransactionFormRequest_origins = map wire_origin (wr_origins r),
        WriteTransactionFormRequest_form = Some form,
        WriteTransactionFormRequest_sessionId = wr_sessionId r\<rparr>) (wire_form (wr_form r))"

section \<open>A message determines its request\<close>

lemma sharing_number_inject: "sharing_number a = sharing_number b \<longleftrightarrow> a = b"
  by (cases a; cases b) simp_all

lemma wire_timestamp_inject [simp]: "wire_timestamp t = wire_timestamp u \<longleftrightarrow> t = u"
  by (cases t; cases u) (simp add: wire_timestamp_def)

lemma wire_repayment_inject: "wire_repayment r = Some m \<Longrightarrow> wire_repayment s = Some m \<Longrightarrow> r = s"
  by (cases r; cases s) (auto simp: wire_repayment_def split: option.splits)

lemma wire_expense_inject:
  "wire_expense e p = wire_expense f q \<Longrightarrow> p = q \<and> (ei_repayment e = ei_repayment f \<longrightarrow> e = f)"
  by (cases e; cases f) (simp add: wire_expense_def sharing_number_inject)

lemma wire_income_inject: "wire_income i = wire_income j \<Longrightarrow> i = j"
  by (cases i; cases j) (simp add: wire_income_def)

lemma wire_transfer_inject: "wire_transfer i = wire_transfer j \<Longrightarrow> i = j"
  by (cases i; cases j) (simp add: wire_transfer_def)

lemma wire_form_inject: "wire_form f = Some m \<Longrightarrow> wire_form g = Some m \<Longrightarrow> f = g"
  by (cases f; cases g)
    (auto simp: wire_form_def split: option.splits dest: wire_expense_inject wire_income_inject wire_transfer_inject,
     metis wire_expense_inject wire_repayment_inject)

lemma wire_origins_inject: "map wire_origin ks = map wire_origin ls \<Longrightarrow> ks = ls"
proof (rule map_injective)
  show "inj wire_origin" by (rule injI) (auto simp: wire_origin_def intro: origin_key.equality)
qed

lemma wire_request_inject: "wire_request r = Some m \<Longrightarrow> wire_request s = Some m \<Longrightarrow> r = s"
  by (cases r; cases s) (auto simp: wire_request_def dest: wire_form_inject wire_origins_inject)

section \<open>Requests of the form have a message\<close>

lemma expenseInput_repayment:
  assumes "expenseInput dateParse e = Inr x" "\<forall>r. ef_repayment e = Some r \<longrightarrow> repayment_valid isValid r"
  shows "\<forall>r. ei_repayment x = Some r \<longrightarrow> wire_repayment r \<noteq> None"
proof -
  obtain repayment where r: "repaymentInput dateParse e = Inr repayment" and x: "ei_repayment x = repayment"
    using assms(1) by (auto simp: expenseInput_def result_simps)
  then show ?thesis
    using assms(2) by (auto simp: repaymentInput_def wire_repayment_def repayment_valid_def result_simps split: if_splits)
qed

lemma buildForm_wire:
  assumes "buildForm dateParse (trim_form f) = Inr form" "\<forall>e. tf_expense f = Some e \<longrightarrow> expense_valid isValid e"
  shows "wire_form form \<noteq> None"
proof (cases form)
  case (ExpenseInput x)
  then obtain e where e: "tf_expense f = Some e" and x: "expenseInput dateParse (trim_expense e) = Inr x"
    using assms(1) by (auto simp: buildForm_def trim_form_def result_simps split: option.splits)
  have "\<forall>r. ef_repayment (trim_expense e) = Some r \<longrightarrow> repayment_valid isValid r"
    using assms(2) e by (auto simp: expense_valid_def trim_expense_def)
  from expenseInput_repayment [OF x this] show ?thesis
    by (auto simp: ExpenseInput wire_form_def split: option.splits)
qed (simp_all add: wire_form_def)

lemma upsertTransaction_wire:
  assumes "upsertTransaction isValid dateParse session rpc i origins f = (requests, response)" "req \<in> set requests"
  shows "\<exists>msg. wire_request req = Some msg"
proof -
  obtain data form where data: "safeParse isValid f = Inr data" and form: "buildForm dateParse data = Inr form"
    and req: "wr_form req = form"
    using assms by (auto simp: upsertTransaction_def Let_def split: option.splits sum.splits)
  have "data = trim_form f" "\<forall>e. tf_expense f = Some e \<longrightarrow> expense_valid isValid e"
    using data by (auto simp: safeParse_Inr)
  then have "wire_form form \<noteq> None" using buildForm_wire form by blast
  then show ?thesis using req by (auto simp: wire_request_def)
qed

section \<open>A runtime\<close>

text \<open>A runtime that satisfies the laws: a byte of it is any integer.\<close>

definition in_range :: "int \<Rightarrow> int \<Rightarrow> bool" where
  "in_range w x \<longleftrightarrow> - w \<le> x \<and> x < w"

definition number_text :: "int list \<Rightarrow> string" where
  "number_text xs = map (\<lambda>x. char_of (nat x)) xs"

definition sample_runtime :: "int wire_runtime" where
  "sample_runtime =
     \<lparr>rt_tag = (\<lambda>no wt. Some [8 * int no + (case wt of Varint \<Rightarrow> 0 | LengthDelimited \<Rightarrow> 2)]),
      rt_int32 = (\<lambda>x. if in_range 2147483648 x then Some [x] else None),
      rt_int64 = (\<lambda>x. if in_range 9223372036854775808 x then Some [x] else None),
      rt_bool = (\<lambda>b. Some [if b then 1 else 0]),
      rt_string = (\<lambda>s. Some (int (length s) # map (\<lambda>c. int (of_char c)) s)),
      rt_join = (\<lambda>bs. Some (int (length bs) # bs)),
      rd_tag = (\<lambda>r. case r of [] \<Rightarrow> None
         | x # r' \<Rightarrow> Some ((nat (x div 8), if x mod 8 = 0 then Varint else LengthDelimited), r')),
      rd_int32 = (\<lambda>r. case r of [] \<Rightarrow> None | x # r' \<Rightarrow> Some (x, r')),
      rd_uint32 = (\<lambda>r. case r of [] \<Rightarrow> None | x # r' \<Rightarrow> Some (x, r')),
      rd_int64 = (\<lambda>r. case r of [] \<Rightarrow> None | x # r' \<Rightarrow> Some (x, r')),
      rd_bool = (\<lambda>r. case r of [] \<Rightarrow> None | x # r' \<Rightarrow> Some (x \<noteq> 0, r')),
      rd_string = (\<lambda>r. case r of [] \<Rightarrow> None
         | n # r' \<Rightarrow> Some (number_text (take (nat n) r'), drop (nat n) r')),
      rd_skip = (\<lambda>wt r. case r of [] \<Rightarrow> None
         | x # r' \<Rightarrow> Some ((), case wt of Varint \<Rightarrow> r' | LengthDelimited \<Rightarrow> drop (nat x) r')),
      opt_throw = False\<rparr>"

lemma sample_runtime_ok: "runtime_ok sample_runtime"
proof -
  have "number_text (map (\<lambda>c. int (of_char c)) s) = s" for s by (simp add: number_text_def comp_def)
  then show ?thesis
    by (auto simp: runtime_ok_def reads_back_def sample_runtime_def split: wire_type.splits if_splits)
qed

section \<open>Properties\<close>

text \<open>
  C9: a saved form reaches the backend as it was validated. Every request the server action sends has a
  message, the message is read back exactly from the bytes it is written as, whatever follows them, and no
  other request has that message. The runtime of the wire format only has to read back the tags, numbers
  and texts it wrote.
\<close>
theorem request_survives_the_wire:
  assumes "runtime_ok rt"
    and "upsertTransaction isValid dateParse session rpc i origins f = (requests, response)" "req \<in> set requests"
  shows "\<exists>msg. wire_request req = Some msg \<and> (\<forall>other. wire_request other = Some msg \<longrightarrow> other = req) \<and>
    (\<forall>bs rest. WriteTransactionFormRequest_write rt msg = Some bs \<longrightarrow>
       WriteTransactionFormRequest_read rt (int (length bs)) WriteTransactionFormRequest_create (bs @ rest) = Some (msg, rest))"
proof -
  obtain msg where "wire_request req = Some msg" using upsertTransaction_wire assms(2,3) by blast
  moreover have "codec WriteTransactionFormRequest_create (WriteTransactionFormRequest_read rt) (WriteTransactionFormRequest_write rt)"
    using assms(1) by simp
  ultimately show ?thesis using wire_request_inject unfolding codec_def by blast
qed

definition sample_wire_transfer :: transfer_form where
  "sample_wire_transfer =
     \<lparr>xf_timestamp = FDate (Some 86400000), xf_amountSent = Some 5, xf_amountReceived = Some 5,
      xf_fromAccountId = 1, xf_toAccountId = 2, xf_categoryId = 3, xf_description = None, xf_tagNames = [''move'']\<rparr>"

definition sample_wire_request :: write_request where
  "sample_wire_request =
     \<lparr>wr_transactionIdToSupersede = Some 7, wr_tagNames = [''move''], wr_origins = [],
      wr_form = TransferInput \<lparr>xi_timestamp = \<lparr>ts_seconds = 86400, ts_nanos = 0\<rparr>, xi_description = [],
        xi_categoryId = 3, xi_fromAccountId = 1, xi_toAccountId = 2, xi_amountSentNanos = 5000000000,
        xi_amountReceivedNanos = 5000000000\<rparr>,
      wr_sessionId = ''s''\<rparr>"

lemma sample_wire_sent:
  "fst (upsertTransaction (\<lambda>_. True) (\<lambda>_. None) (Some ''s'') (\<lambda>_. True) (Some 7) [] (transfer_values sample_wire_transfer)) =
     [sample_wire_request]"
  by code_simp

theorem request_survives_the_wire_witness:
  "\<exists>msg bs. wire_request sample_wire_request = Some msg \<and> WriteTransactionFormRequest_write sample_runtime msg = Some bs \<and>
     WriteTransactionFormRequest_read sample_runtime (int (length bs)) WriteTransactionFormRequest_create (bs @ [5]) =
       Some (msg, [5])"
proof -
  let ?up = "upsertTransaction (\<lambda>_. True) (\<lambda>_. None) (Some ''s'') (\<lambda>_. True) (Some 7) [] (transfer_values sample_wire_transfer)"
  have "?up = ([sample_wire_request], snd ?up)" using sample_wire_sent by (metis prod.collapse)
  then obtain msg where msg: "wire_request sample_wire_request = Some msg"
    and survives: "\<forall>bs rest. WriteTransactionFormRequest_write sample_runtime msg = Some bs \<longrightarrow>
       WriteTransactionFormRequest_read sample_runtime (int (length bs)) WriteTransactionFormRequest_create (bs @ rest) =
         Some (msg, rest)"
    using request_survives_the_wire [OF sample_runtime_ok, of "\<lambda>_. True" "\<lambda>_. None" "Some ''s''" "\<lambda>_. True" "Some 7" "[]"
        "transfer_values sample_wire_transfer" "[sample_wire_request]" "snd ?up" sample_wire_request] by auto
  have "WriteTransactionFormRequest_write sample_runtime (the (wire_request sample_wire_request)) \<noteq> None" by code_simp
  then show ?thesis using msg survives by auto
qed

lemma conveys_unknown:
  assumes "runtime_ok rt" "map_of cases no = None" "\<not> opt_throw rt" "\<And>r. rd_skip rt wt (payload @ r) = Some ((), r)"
    and "put rt no wt (Some payload) = Some u"
  shows "conveys rt cases (Some u) m m"
proof (rule conveysI)
  fix bs stop and rest :: "'a list"
  assume "Some u = Some bs" and stop: "stop \<le> int (length rest)"
  then obtain t where t: "rt_tag rt no wt = Some t" and bs: "bs = t @ payload"
    using assms(5) by (auto simp: put_def cat_Some cat.simps(1))
  have tag: "rd_tag rt (t @ payload @ rest) = Some ((no, wt), payload @ rest)" and "t \<noteq> []"
    using assms(1) t by (auto simp: runtime_ok_def reads_back_def)
  then have "stop < int (length (t @ payload @ rest))" using stop by (cases t) auto
  then show "read_fields rt cases stop m (bs @ rest) = read_fields rt cases stop m rest"
    using tag assms(2-4) by (subst read_fields.simps) (simp add: bs get_unknown_def get_def)
qed

lemma unknown_refused:
  assumes "runtime_ok rt" "map_of cases no = None" "opt_throw rt" "put rt no wt (Some payload) = Some u"
    and "stop \<le> int (length rest)"
  shows "read_fields rt cases stop m (u @ rest) = None"
proof -
  obtain t where t: "rt_tag rt no wt = Some t" and u: "u = t @ payload"
    using assms(4) by (auto simp: put_def cat_Some cat.simps(1))
  have tag: "rd_tag rt (t @ payload @ rest) = Some ((no, wt), payload @ rest)" and "t \<noteq> []"
    using assms(1) t by (auto simp: runtime_ok_def reads_back_def)
  then have "stop < int (length (t @ payload @ rest))" using assms(5) by (cases t) auto
  then show ?thesis using tag assms(2,3) by (subst read_fields.simps) (simp add: u get_unknown_def)
qed

lemma GetTransactionsResponse_conveyed:
  "runtime_ok rt \<Longrightarrow>
   conveys rt (GetTransactionsResponse_cases rt) (GetTransactionsResponse_write rt m) GetTransactionsResponse_create m"
  unfolding GetTransactionsResponse_write_def
  by (rule conveys_steps | simp add: GetTransactionsResponse_cases_def GetTransactionsResponse_create_def)+

text \<open>
  C40: a response of a newer backend is still read. A field of the transactions message that the client does
  not know, before or after the fields it knows, leaves the message as it is when the runtime skips unknown
  fields, and makes the read fail when it is told to refuse them.
\<close>
theorem unknown_field_skipped:
  assumes ok: "runtime_ok rt" and w: "GetTransactionsResponse_write rt m = Some bs" and no: "no \<notin> {1, 2, 4}"
    and u: "put rt no wt (Some payload) = Some u" and skip: "\<And>r. rd_skip rt wt (payload @ r) = Some ((), r)"
  shows "GetTransactionsResponse_read rt (int (length (bs @ u))) GetTransactionsResponse_create (bs @ u @ rest) =
      (if opt_throw rt then None else Some (m, rest)) \<and>
    GetTransactionsResponse_read rt (int (length (u @ bs))) GetTransactionsResponse_create (u @ bs @ rest) =
      (if opt_throw rt then None else Some (m, rest))"
proof -
  let ?cases = "GetTransactionsResponse_cases rt" and ?stop = "int (length rest)"
  have unknown: "map_of ?cases no = None" using no by (auto simp: GetTransactionsResponse_cases_def)
  have known: "read_fields rt ?cases ?stop GetTransactionsResponse_create (bs @ r) = read_fields rt ?cases ?stop m r"
    if "?stop \<le> int (length r)" for r
    by (rule conveysD [OF GetTransactionsResponse_conveyed [OF ok] w that])
  have finish: "read_fields rt ?cases ?stop m rest = Some (m, rest)" by (subst read_fields.simps) simp
  have skipped: "read_fields rt ?cases ?stop x (u @ r) = (if opt_throw rt then None else read_fields rt ?cases ?stop x r)"
    if "?stop \<le> int (length r)" for x r
    using conveysD [OF conveys_unknown [OF ok unknown _ skip u] refl that] unknown_refused [OF ok unknown _ u that] by auto
  show ?thesis
    using known [of "u @ rest"] known [of rest] skipped [of rest] skipped [of "bs @ rest"] finish
    by (simp add: GetTransactionsResponse_read_def read_message_def)
qed

theorem unknown_field_skipped_witness:
  "GetTransactionsResponse_read sample_runtime 3 GetTransactionsResponse_create [74, 1, 120, 5] =
     Some (GetTransactionsResponse_create, [5])"
proof -
  have "GetTransactionsResponse_write sample_runtime GetTransactionsResponse_create = Some []" by code_simp
  moreover have "put sample_runtime 9 LengthDelimited (Some [1, 120]) = Some [74, 1, 120]" by code_simp
  ultimately show ?thesis
    using unknown_field_skipped [OF sample_runtime_ok, of GetTransactionsResponse_create "[]" 9 LengthDelimited "[1, 120]"
        "[74, 1, 120]" "[5]"]
    by (simp add: sample_runtime_def)
qed

end
