(* ===== verification/Spec2Isabelle.thy ===== *)
theory Spec2Isabelle
  imports StatsPages UnitSearch Auth Overview Filters Pickers Messages
begin

text \<open>
  Verification library of the Prosper expense tracker: the TypeScript front end under \<open>src/frontend\<close>
  (paths below are relative to it). Prosper records expenses, incomes and transfers of several bank
  accounts in several currencies and stocks. The Go backend keeps a double-entry ledger and serves it
  over gRPC; the front end (Next.js) reads the ledger's messages into a model of its own, computes
  balances, net worth and statistics from it, searches it, and turns forms into requests to the backend.

  How the parts interact. \<open>lib/ClientSideModel.tsx\<close> builds the client's model from the messages once per
  page load: banks, accounts and stocks (\<open>lib/model\<close>), the current version of every transaction, links
  between transactions, exchange rates and quotes. Everything a page shows is a function of that model
  and of the state of its components. Forms start from values computed from a transaction, from a
  suggestion or from nothing, are rewritten by effects while they are edited, validated by schemas, and
  sent to a server action that builds the request. Sessions decide who may do that.

  The model is a shallow embedding. A function that may throw has type \<open>'a result\<close> (a sum; \<open>Inl\<close> is the
  thrown error). Objects are records, unions are datatypes, \<open>null\<close> and \<open>undefined\<close> are \<open>None\<close>. \<open>bigint\<close>
  and the integers of the wire format are \<open>int\<close>; a number that may be fractional is a \<open>rat\<close> kept at IEEE
  double precision by \<open>f64\<close> (JsNumber), so that rounding errors are part of the model. React components
  with state are a record of the state, a function per handler or effect, and a datatype of events with a
  run function or an inductive relation of the states that can be reached.

  Theories, in the order of their dependencies.

  \<^item> Prelude, JsNumber, JsCollections: errors and sequencing; double precision; \<open>sort\<close>, \<open>Map\<close>, \<open>Set\<close> and
    the two map classes of \<open>lib/util\<close>. The locales \<open>js_comparator\<close> (what a comparator promises \<open>sort\<close>),
    \<open>js_map_contract\<close> and \<open>append_map\<close> are the interfaces later theories rest on, interpreted on the
    model's own maps and comparators (\<open>byDisplayOrderThenId\<close>, \<open>compareTransactions\<close>, the siblings of a
    category, frequencies of tags and others).
  \<^item> Util, Stats, Money: \<open>lib/util/util.ts\<close>, \<open>searchParams.tsx\<close>, \<open>lib/grpc/timestamp.ts\<close>; \<open>set.tsx\<close>,
    \<open>stats.tsx\<close>, \<open>lib/collections.ts\<close>; \<open>lib/Amount*.tsx\<close>, \<open>lib/model/Currency.tsx\<close>, \<open>Stock.tsx\<close>,
    \<open>Unit.tsx\<close>. Round trips between dollars and nanos with their bound, rounding to the nearest unit.
  \<^item> Accounts, Category: \<open>lib/model/BankAccount.tsx\<close>, \<open>Category.tsx\<close>. The category tree lives in an explicit
    store of nodes, since \<open>getDescendants\<close> changes it. Ancestors, subtrees and the sorted order are proved
    against the parent relation.
  \<^item> Transactions, Links: \<open>lib/model/transaction\<close>, \<open>TransactionLink.tsx\<close>: reading ledger entries into the
    five kinds of transactions, refunds and settled debts.
  \<^item> Exchange, Balances, ClientModel: \<open>ClientSideModel.tsx\<close> and \<open>balances.ts\<close>. The rate used is the last
    known one; \<open>BalanceSweep\<close>, a state machine moving a cursor over the transactions, refines the sum of
    their effects up to a moment; the timeline of the net worth agrees with it at every sample; exactly
    the active versions of the transactions are listed, in order.
  \<^item> Search, QueryParser, Filters: \<open>lib/search\<close> and \<open>components/transactions/filters\<close>. QueryParser models the
    generated lexer (longest match, first rule) and the generated recursive descent parser, which is
    proved equal to the grammar of \<open>TransactionSearchQuery.g4\<close>; Search gives queries their meaning;
    Filters generates the text of a query from a form and proves, through lexer, parser and visitor, that
    the page lists the transactions that satisfy the filters.
  \<^item> Suggestions, TxForm, FormValidation, TxActions, FormFields, Pickers: \<open>lib/txsuggestions\<close>,
    \<open>components/txform\<close>, \<open>actions/txform\<close>. The values of the form, conversion between its variants, the
    schemas, the form as a state machine, the server action with its request; which fields are on screen
    and the effects that rewrite them; what the fields offer. A form only sends valid requests, starting
    values lose nothing, and whenever an expense is refused a field to blame is on screen.
  \<^item> Timeseries, Statistics, Charts, StatsPages: \<open>lib/util/Timeseries.tsx\<close>, \<open>lib/ExchangedTransactions.tsx\<close>,
    \<open>components/charts\<close>, \<open>app/(authenticated)/stats\<close>, \<open>trips\<close>. Every transaction is counted once or
    reported as not convertible; the views of the same data agree; the pages of periods partition time.
  \<^item> Lists, Overview: \<open>components/transactions\<close>, the pages overview, bank and account. The net worth is the
    sum of the banks, an account's page explains its balance, hidden balances stay hidden, the list
    reaches every transaction.
  \<^item> ConfigForms, ConfigPages, UnitSearch: \<open>actions/config\<close>, \<open>lib/form-types\<close>, \<open>app/(authenticated)/config\<close>:
    the pages keep their data consistent with what was saved; the search for a unit, with its debounce
    timer and overlapping requests as steps, ends.
  \<^item> Auth: \<open>lib/auth\<close>, \<open>actions/auth\<close>, \<open>proxy.ts\<close> and the session table of \<open>backend/auth/service.go\<close>. The
    locale \<open>session_service\<close> is the contract between the two, interpreted on the table. A step relation
    over browsers, cookies and the table shows that sessions are authentic and that signing out kills a
    token.

  \<^item> Wire, WireLedger, WireForms, WireBanking, Messages: \<open>lib/grpc/gen\<close>. Wire holds the statements the generated
    codecs are made of and one proof rule per kind of field; the next three hold every message with fields
    (record, empty message, cases of the read, read, write, and the proof that what is written is read back);
    Messages shows that the request of a saved form survives the wire and what an unknown field does.

  Termination, bounds and fuel. There is no fuel. Loops over a category tree may run forever on a cyclic
  store and are \<open>partial_function (option)\<close>; \<open>None\<close> becomes the error \<open>DoesNotReturn\<close>, and \<open>getAncestors\<close>
  is shown to return exactly when the chain of parents reaches a root, so not for a category on or under a
  cycle. The loops that read a message
  are \<open>partial_function (option)\<close> too, and what was written is proved to be read in full. The other loops are
  total: the lexer takes at least one character per token, the
  parser's measure is the number of tokens with the depth of the grammar rule (a method that succeeds has
  read a token), the sweep's is the number of transactions left. Dollars and nanos agree up to
  \<open>2 ^ 50\<close> nanos in absolute value; an amount above that bound which does not survive the detour through
  dollars is a lemma of Util.

  Parameters, which stand for code that is not under \<open>src\<close>: the functions of date-fns (in Timeseries a
  record of calendar functions with their documented laws, satisfied by a concrete calendar in the
  witnesses; elsewhere plain arguments), \<open>closestTo\<close>, the clock, \<open>Intl\<close> formatting, SHA-256 and random bytes,
  the URL parser, password check and registration, the answers of the backend, the reader and writer of
  protobuf-ts (\<open>wire_runtime\<close> with the laws \<open>runtime_ok\<close>, satisfied by \<open>sample_runtime\<close>), the messages of zod
  and ANTLR, \<open>Number\<close> of a text. Texts typed into an amount field are their number, except where the code
  tells the two apart (the notes on the new balance in Pickers). Characters are Isabelle's 8-bit ones, and
  case conversion covers ASCII. Stable ids of the backend are positive where a hypothesis says so.

  Lemmas that are not properties include the flaws the model shows: each is a closed statement about a
  concrete state, in the theory of the code it concerns (for example \<open>opening_halves_own_share\<close> in
  FormFields, \<open>search_reads_a_prefix\<close> in QueryParser, \<open>loading_stuck\<close> in UnitSearch).

  Not modelled: markup and styling, chart options, animation; React's scheduling (an event and the
  effects it triggers are one step, and a component is mounted once); of the generated protobuf files the
  client stubs, service descriptors, messages without fields and the merge of partial messages, which hand
  descriptors to the protobuf-ts runtime; data fetching, logging, environment and routing; the Go services
  but for the session table.
\<close>

end
